(* ===== verification/Prelude.thy ===== *)
theory Prelude
  imports "HOL-Library.Word"
begin

section \<open>Shared types, collections and run combinators\<close>

text \<open>
  What every component theory shares. The types name the Rust types of the sources:
  a \<^verbatim>\<open>Uuid\<close> is a 128-bit value ordered like its big-endian bytes; an \<^verbatim>\<open>Instant\<close> is a
  reading of the monotonic clock in nanoseconds; a \<^verbatim>\<open>std::time::Duration\<close> is a number of
  nanoseconds; a \<^verbatim>\<open>chrono::DateTime<Utc>\<close> and a \<^verbatim>\<open>chrono::Duration\<close> are signed numbers of
  nanoseconds. The clocks are inputs: an operation that reads \<^verbatim>\<open>Utc::now()\<close> or
  \<^verbatim>\<open>Instant::now()\<close> takes the value read as an argument.

  Fixed-width counters are words, so that \<open>+ 1\<close> wraps around as it does in the release
  profile; \<^verbatim>\<open>usize\<close> lengths of collections are natural numbers.

  The locales at the end say once what an invariant, a monotone measure and a latch give for
  a whole sequence of operations; the component theories interpret them.
\<close>

type_synonym uuid = "128 word"
type_synonym u8 = "8 word"
type_synonym u32 = "32 word"
type_synonym u64 = "64 word"

type_synonym instant = nat
type_synonym duration = nat
type_synonym datetime = int
type_synonym chrono_duration = int

named_theorems ghost_ops \<open>defining equations of operations, unfolded in component proofs\<close>
named_theorems ghost_frame \<open>fields an operation leaves alone\<close>

subsection \<open>Durations and clocks\<close>

definition from_nanos :: "nat \<Rightarrow> duration" where
  "from_nanos n = n"

definition from_millis :: "nat \<Rightarrow> duration" where
  "from_millis n = n * 1000000"

definition from_secs :: "nat \<Rightarrow> duration" where
  "from_secs n = n * 1000000000"

definition chrono_secs :: "int \<Rightarrow> chrono_duration" where
  "chrono_secs n = n * 1000000000"

text \<open>\<^verbatim>\<open>Instant::elapsed\<close> saturates at zero when the instant lies in the future.\<close>

definition elapsed :: "instant \<Rightarrow> instant \<Rightarrow> duration" where
  "elapsed now t = now - t"

lemma elapsed_mono: "now \<le> now' \<Longrightarrow> elapsed now t \<le> elapsed now' t"
  by (simp add: elapsed_def)

lemma elapsed_self [simp]: "elapsed t t = 0"
  by (simp add: elapsed_def)

subsection \<open>Decimal rendering\<close>

text \<open>\<^verbatim>\<open>Display\<close> of an unsigned integer.\<close>

fun show_nat :: "nat \<Rightarrow> string" where
  "show_nat n =
     (if n < 10 then [char_of (48 + n)] else show_nat (n div 10) @ [char_of (48 + n mod 10)])"

declare show_nat.simps [simp del]

definition show_u32 :: "u32 \<Rightarrow> string" where
  "show_u32 w = show_nat (unat w)"

subsection \<open>Lists and words\<close>

lemma filter_length_mono:
  "(\<And>x. x \<in> set xs \<Longrightarrow> P x \<Longrightarrow> Q x) \<Longrightarrow> length (filter P xs) \<le> length (filter Q xs)"
  by (induction xs) (auto intro: le_SucI)

lemma list_snoc_cases [case_names Nil snoc]:
  "(xs = [] \<Longrightarrow> P) \<Longrightarrow> (\<And>ys y. xs = ys @ [y] \<Longrightarrow> P) \<Longrightarrow> P"
  by (cases xs rule: rev_cases) auto

lemma byte_inject: "(of_nat (of_char c :: nat) :: u8) = of_nat (of_char d) \<longleftrightarrow> c = d"
  by (simp add: word_of_nat_eq_iff take_bit_eq_mod)

lemma unat_lt2p: "unat (w :: 'a::len word) < 2 ^ LENGTH('a)"
  by (rule unsigned_less)

lemma unat_word_Suc:
  fixes w :: "'a::len word"
  assumes "unat w < 2 ^ LENGTH('a) - 1"
  shows "unat (w + 1) = Suc (unat w)"
  using assms by (simp add: unat_word_ariths)

lemma word_less_imp_no_wrap:
  fixes w :: "'a::len word"
  assumes "w < v"
  shows "unat (w + 1) = Suc (unat w)"
proof -
  have "unat w < unat v" using assms by (simp add: word_less_nat_alt)
  with unat_lt2p [of v] have "unat w < 2 ^ LENGTH('a) - 1" by linarith
  then show ?thesis by (rule unat_word_Suc)
qed

lemma word_less_succ_le:
  fixes w :: "'a::len word"
  assumes "w < v"
  shows "w + 1 \<le> v"
  using assms word_less_imp_no_wrap [OF assms] by (simp add: word_le_nat_alt word_less_nat_alt)

subsection \<open>Sequences of operations\<close>

text \<open>
  A component is driven by a sequence of operations \<open>es\<close> from a state \<open>s\<close>:
  \<open>foldl step s es\<close>. The three contracts below are the ones the components promise for one
  step; their conclusions are about the whole sequence.
\<close>

locale invariant_steps =
  fixes step :: "'s \<Rightarrow> 'e \<Rightarrow> 's"
    and inv :: "'s \<Rightarrow> bool"
  assumes inv_step: "inv s \<Longrightarrow> inv (step s e)"
begin

lemma inv_run: "inv s \<Longrightarrow> inv (foldl step s es)"
  by (induction es arbitrary: s) (auto intro: inv_step)

lemma inv_prefix: "inv s \<Longrightarrow> inv (foldl step s (take n es))"
  by (rule inv_run)

end

locale monotone_steps =
  fixes step :: "'s \<Rightarrow> 'e \<Rightarrow> 's"
    and rank :: "'s \<Rightarrow> 'r::preorder"
  assumes rank_step: "rank s \<le> rank (step s e)"
begin

lemma rank_run: "rank s \<le> rank (foldl step s es)"
proof (induction es arbitrary: s)
  case Nil
  then show ?case by simp
next
  case (Cons e es)
  have "rank s \<le> rank (step s e)" by (rule rank_step)
  also have "\<dots> \<le> rank (foldl step (step s e) es)" by (rule Cons)
  finally show ?case by simp
qed

lemma rank_prefix: "rank (foldl step s es) \<le> rank (foldl step s (es @ es'))"
  by (simp add: rank_run)

end

text \<open>A measure that only grows keeps every lower bound: a latch.\<close>

sublocale monotone_steps \<subseteq> bound: invariant_steps step "\<lambda>s. b \<le> rank s"
  for b
  by unfold_locales (blast intro: order_trans rank_step)

end
