(* ===== verification/Ordered_Map.thy ===== *)
theory Ordered_Map
  imports Prelude
begin

section \<open>Ordered maps\<close>

text \<open>
  The collection \<^verbatim>\<open>std::collections::BTreeMap\<close> that most components keep their state in: a
  finite map whose entries are visited in increasing key order. It is a list of key-value
  pairs sorted strictly by key, as an abstract type, so that every map is finite, has one
  entry per key and is determined by its lookups. The operations are those the sources call:
  \<^verbatim>\<open>get\<close>, \<^verbatim>\<open>insert\<close>, \<^verbatim>\<open>remove\<close>, \<^verbatim>\<open>retain\<close>, \<^verbatim>\<open>iter\<close>, \<^verbatim>\<open>values\<close>, \<^verbatim>\<open>len\<close>, and the
  \<^verbatim>\<open>entry(k).or_insert(d)\<close> and \<^verbatim>\<open>get_mut(k)\<close> idioms.
\<close>

subsection \<open>Sorted association lists\<close>

definition key_sorted :: "('k::linorder \<times> 'v) list \<Rightarrow> bool" where
  "key_sorted xs \<longleftrightarrow> sorted_wrt (<) (map fst xs)"

fun ins_entry :: "'k::linorder \<Rightarrow> 'v \<Rightarrow> ('k \<times> 'v) list \<Rightarrow> ('k \<times> 'v) list" where
  "ins_entry k v [] = [(k, v)]"
| "ins_entry k v (e # es) =
     (if k < fst e then (k, v) # e # es
      else if k = fst e then (k, v) # es
      else e # ins_entry k v es)"

lemma key_sorted_Nil [simp]: "key_sorted []"
  by (simp add: key_sorted_def)

lemma key_sorted_Cons [simp]:
  "key_sorted (e # es) \<longleftrightarrow> (\<forall>k \<in> fst ` set es. fst e < k) \<and> key_sorted es"
  by (auto simp: key_sorted_def)

lemma key_sorted_filter: "key_sorted xs \<Longrightarrow> key_sorted (filter P xs)"
  by (induction xs) auto

lemma key_sorted_map_snd: "key_sorted xs \<Longrightarrow> key_sorted (map (\<lambda>(k, v). (k, f k v)) xs)"
  by (induction xs) (auto simp: image_iff)

lemma keys_ins_entry: "fst ` set (ins_entry k v xs) = insert k (fst ` set xs)"
  by (induction xs) (auto split: if_splits)

lemma key_sorted_ins_entry: "key_sorted xs \<Longrightarrow> key_sorted (ins_entry k v xs)"
proof (induction xs)
  case Nil
  then show ?case by simp
next
  case (Cons e xs)
  then show ?case
    by (cases "k < fst e"; cases "k = fst e") (auto simp: keys_ins_entry intro: less_trans)
qed

lemma key_sorted_distinct: "key_sorted xs \<Longrightarrow> distinct (map fst xs)"
  by (induction xs) auto

lemma map_of_ins_entry: "map_of (ins_entry k v xs) = (map_of xs)(k \<mapsto> v)"
proof (induction xs)
  case (Cons e xs)
  then show ?case by (cases e) auto
qed simp

lemma map_of_filter_entries:
  assumes "key_sorted xs"
  shows "map_of (filter P xs) k =
    (case map_of xs k of None \<Rightarrow> None | Some v \<Rightarrow> if P (k, v) then Some v else None)"
  using assms
proof (induction xs)
  case (Cons e xs)
  have "k = fst e \<Longrightarrow> map_of xs k = None"
    using Cons.prems by (auto simp: map_of_eq_None_iff)
  with Cons show ?case by (cases e) auto
qed simp

lemma map_of_map_snd:
  "map_of (map (\<lambda>(k, v). (k, f k v)) xs) k = map_option (f k) (map_of xs k)"
  by (induction xs) auto

lemma entries_of_map_of:
  "key_sorted xs \<Longrightarrow> xs = map (\<lambda>k. (k, the (map_of xs k))) (map fst xs)"
proof (induction xs)
  case (Cons e xs)
  have "map (\<lambda>k. (k, the (map_of (e # xs) k))) (map fst xs) =
      map (\<lambda>k. (k, the (map_of xs k))) (map fst xs)"
    using Cons.prems by (intro map_cong) auto
  with Cons show ?case by simp
qed simp

lemma key_sorted_map_of_inject:
  assumes "key_sorted xs" "key_sorted ys" "map_of xs = map_of ys"
  shows "xs = ys"
proof -
  have "set (map fst xs) = set (map fst ys)"
    using assms(3) by (metis dom_map_of_conv_image_fst set_map)
  then have "map fst xs = map fst ys"
    using assms(1,2) by (intro strict_sorted_equal) (auto simp: key_sorted_def)
  then show ?thesis
    using entries_of_map_of [OF assms(1)] entries_of_map_of [OF assms(2)] assms(3) by metis
qed

subsection \<open>The type and its operations\<close>

typedef (overloaded) ('k::linorder, 'v) btree_map = "{xs :: ('k \<times> 'v) list. key_sorted xs}"
  morphisms bt_iter bt_of_list
  by (rule exI [of _ "[]"]) simp

setup_lifting type_definition_btree_map

lift_definition bt_new :: "('k::linorder, 'v) btree_map" is "[]"
  by simp

lift_definition bt_get :: "('k::linorder, 'v) btree_map \<Rightarrow> 'k \<Rightarrow> 'v option" is map_of .

lift_definition bt_insert :: "'k::linorder \<Rightarrow> 'v \<Rightarrow> ('k, 'v) btree_map \<Rightarrow> ('k, 'v) btree_map"
  is ins_entry by (rule key_sorted_ins_entry)

lift_definition bt_retain ::
  "('k \<Rightarrow> 'v \<Rightarrow> bool) \<Rightarrow> ('k::linorder, 'v) btree_map \<Rightarrow> ('k, 'v) btree_map"
  is "\<lambda>P. filter (\<lambda>(k, v). P k v)" by (rule key_sorted_filter)

lift_definition bt_remove :: "'k::linorder \<Rightarrow> ('k, 'v) btree_map \<Rightarrow> ('k, 'v) btree_map"
  is "\<lambda>k. filter (\<lambda>e. fst e \<noteq> k)" by (rule key_sorted_filter)

lift_definition bt_map ::
  "('k \<Rightarrow> 'v \<Rightarrow> 'w) \<Rightarrow> ('k::linorder, 'v) btree_map \<Rightarrow> ('k, 'w) btree_map"
  is "\<lambda>f. map (\<lambda>(k, v). (k, f k v))" by (rule key_sorted_map_snd)

definition bt_keys :: "('k::linorder, 'v) btree_map \<Rightarrow> 'k list" where
  "bt_keys m = map fst (bt_iter m)"

definition bt_values :: "('k::linorder, 'v) btree_map \<Rightarrow> 'v list" where
  "bt_values m = map snd (bt_iter m)"

definition bt_len :: "('k::linorder, 'v) btree_map \<Rightarrow> nat" where
  "bt_len m = length (bt_iter m)"

text \<open>\<^verbatim>\<open>m.get(k).unwrap_or(d)\<close>, \<^verbatim>\<open>*m.entry(k).or_insert(d)\<close> followed by an assignment,
  and \<^verbatim>\<open>if let Some(v) = m.get_mut(k)\<close> followed by an assignment.\<close>

definition bt_get_or :: "'v \<Rightarrow> ('k::linorder, 'v) btree_map \<Rightarrow> 'k \<Rightarrow> 'v" where
  "bt_get_or d m k = (case bt_get m k of None \<Rightarrow> d | Some v \<Rightarrow> v)"

definition bt_entry_or ::
  "'k::linorder \<Rightarrow> 'v \<Rightarrow> ('v \<Rightarrow> 'v) \<Rightarrow> ('k, 'v) btree_map \<Rightarrow> ('k, 'v) btree_map" where
  "bt_entry_or k d f m = bt_insert k (f (bt_get_or d m k)) m"

definition bt_modify ::
  "'k::linorder \<Rightarrow> ('v \<Rightarrow> 'v) \<Rightarrow> ('k, 'v) btree_map \<Rightarrow> ('k, 'v) btree_map" where
  "bt_modify k f m = (case bt_get m k of None \<Rightarrow> m | Some v \<Rightarrow> bt_insert k (f v) m)"

definition bt_contains :: "('k::linorder, 'v) btree_map \<Rightarrow> 'k \<Rightarrow> bool" where
  "bt_contains m k \<longleftrightarrow> bt_get m k \<noteq> None"

subsection \<open>Laws\<close>

lemma bt_iter_sorted: "key_sorted (bt_iter m)"
  using bt_iter [of m] by simp

lemma bt_get_new [simp]: "bt_get bt_new k = None"
  by transfer simp

lemma bt_get_insert [simp]: "bt_get (bt_insert k v m) = (bt_get m)(k \<mapsto> v)"
  by transfer (rule map_of_ins_entry)

lemma bt_get_remove [simp]: "bt_get (bt_remove k m) = (bt_get m)(k := None)"
proof -
  have "bt_get (bt_remove k m) k' = ((bt_get m)(k := None)) k'" for k'
    by transfer (auto simp: map_of_filter_entries split: option.splits)
  then show ?thesis by blast
qed

lemma bt_get_retain [simp]:
  "bt_get (bt_retain P m) k =
     (case bt_get m k of None \<Rightarrow> None | Some v \<Rightarrow> if P k v then Some v else None)"
  by transfer (auto simp: map_of_filter_entries split: option.splits)

lemma bt_get_map [simp]: "bt_get (bt_map f m) k = map_option (f k) (bt_get m k)"
  by transfer (rule map_of_map_snd)

lemma bt_get_or_insert [simp]:
  "bt_get_or d (bt_insert k v m) k' = (if k' = k then v else bt_get_or d m k')"
  by (simp add: bt_get_or_def)

lemma bt_get_or_new [simp]: "bt_get_or d bt_new k = d"
  by (simp add: bt_get_or_def)

lemma bt_get_entry_or [simp]:
  "bt_get (bt_entry_or k d f m) k' =
     (if k' = k then Some (f (bt_get_or d m k)) else bt_get m k')"
  by (simp add: bt_entry_or_def)

lemma bt_get_modify [simp]:
  "bt_get (bt_modify k f m) k' =
     (if k' = k then map_option f (bt_get m k) else bt_get m k')"
  by (simp add: bt_modify_def split: option.splits)

lemma bt_contains_insert [simp]:
  "bt_contains (bt_insert k v m) k' \<longleftrightarrow> k' = k \<or> bt_contains m k'"
  by (simp add: bt_contains_def)

lemma bt_eqI: "(\<And>k. bt_get m k = bt_get m' k) \<Longrightarrow> m = m'"
  by (metis bt_get.rep_eq bt_iter_inject bt_iter_sorted ext key_sorted_map_of_inject)

lemma bt_insert_insert: "bt_insert k v (bt_insert k w m) = bt_insert k v m"
  by (rule bt_eqI) simp

lemma bt_iter_iff: "(k, v) \<in> set (bt_iter m) \<longleftrightarrow> bt_get m k = Some v"
  by transfer (simp add: key_sorted_distinct)

lemma bt_keys_iff: "k \<in> set (bt_keys m) \<longleftrightarrow> bt_get m k \<noteq> None"
  by (auto simp: bt_keys_def bt_iter_iff image_iff) (metis bt_iter_iff fst_conv)

lemma bt_values_iff: "v \<in> set (bt_values m) \<longleftrightarrow> (\<exists>k. bt_get m k = Some v)"
proof
  assume "v \<in> set (bt_values m)"
  then obtain e where "e \<in> set (bt_iter m)" "snd e = v" by (auto simp: bt_values_def)
  then show "\<exists>k. bt_get m k = Some v" using bt_iter_iff by (metis prod.collapse)
next
  assume "\<exists>k. bt_get m k = Some v"
  then obtain k where "(k, v) \<in> set (bt_iter m)" by (auto simp: bt_iter_iff)
  then show "v \<in> set (bt_values m)" by (force simp: bt_values_def)
qed

lemma bt_keys_sorted: "sorted_wrt (<) (bt_keys m)"
  using bt_iter_sorted [of m] by (simp add: bt_keys_def key_sorted_def)

lemma bt_keys_new [simp]: "bt_keys bt_new = []"
  unfolding bt_keys_def by transfer simp

lemma bt_keys_singleton [simp]: "bt_keys (bt_insert k v bt_new) = [k]"
  unfolding bt_keys_def by transfer simp

lemma bt_filter_keys_sorted: "sorted_wrt (<) (map fst (filter P (bt_iter m)))"
  using key_sorted_filter [OF bt_iter_sorted [of m], of P] by (simp add: key_sorted_def)

lemma bt_keys_distinct: "distinct (bt_keys m)"
  using bt_keys_sorted strict_sorted_iff by blast

lemma bt_iter_distinct: "distinct (bt_iter m)"
  using bt_keys_distinct [of m] by (simp add: bt_keys_def distinct_map)

lemma finite_bt_dom: "finite {k. bt_get m k \<noteq> None}"
proof -
  have "{k. bt_get m k \<noteq> None} = set (bt_keys m)" by (auto simp: bt_keys_iff)
  then show ?thesis by simp
qed

lemma bt_len_card: "bt_len m = card {k. bt_get m k \<noteq> None}"
proof -
  have "{k. bt_get m k \<noteq> None} = set (bt_keys m)" by (auto simp: bt_keys_iff)
  then show ?thesis
    using distinct_card [OF bt_keys_distinct [of m]] by (simp add: bt_len_def bt_keys_def)
qed

lemma bt_len_remove_le: "bt_len (bt_remove k m) \<le> bt_len m"
  unfolding bt_len_card
  by (rule card_mono) (use finite_bt_dom [of m] in \<open>auto simp: dom_def split: if_splits\<close>)

lemma bt_len_insert_le: "bt_len (bt_insert k v m) \<le> Suc (bt_len m)"
proof -
  have "{j. bt_get (bt_insert k v m) j \<noteq> None} = insert k {j. bt_get m j \<noteq> None}" by auto
  moreover have "card (insert k {j. bt_get m j \<noteq> None}) \<le> Suc (card {j. bt_get m j \<noteq> None})"
    using finite_bt_dom [of m] by (simp only: card_insert_if split: if_split) simp
  ultimately show ?thesis unfolding bt_len_card by simp
qed

text \<open>Sums over the entries.\<close>

definition bt_sum :: "('v \<Rightarrow> int) \<Rightarrow> ('k::linorder, 'v) btree_map \<Rightarrow> int" where
  "bt_sum f m = (\<Sum>k \<in> {k. bt_get m k \<noteq> None}. f (the (bt_get m k)))"

lemma bt_sum_new [simp]: "bt_sum f bt_new = 0"
  by (simp add: bt_sum_def)

lemma bt_sum_insert:
  "bt_sum f (bt_insert k v m) = bt_sum f m + f v - (case bt_get m k of None \<Rightarrow> 0 | Some w \<Rightarrow> f w)"
proof -
  let ?D = "{k. bt_get m k \<noteq> None}"
  have dom: "{j. bt_get (bt_insert k v m) j \<noteq> None} = insert k (?D - {k})" by auto
  have rest: "(\<Sum>j \<in> ?D - {k}. f (the (bt_get (bt_insert k v m) j))) = (\<Sum>j \<in> ?D - {k}. f (the (bt_get m j)))"
    by (rule sum.cong) auto
  have "bt_sum f (bt_insert k v m) = f v + (\<Sum>j \<in> ?D - {k}. f (the (bt_get m j)))"
    unfolding bt_sum_def dom rest [symmetric] by (subst sum.insert) (use finite_bt_dom [of m] in auto)
  also have "(\<Sum>j \<in> ?D - {k}. f (the (bt_get m j))) =
      bt_sum f m - (case bt_get m k of None \<Rightarrow> 0 | Some w \<Rightarrow> f w)"
    unfolding bt_sum_def using finite_bt_dom [of m] by (auto simp: sum_diff1 split: option.splits)
  finally show ?thesis by simp
qed

lemma bt_sum_nonneg: "(\<And>k v. bt_get m k = Some v \<Longrightarrow> 0 \<le> f v) \<Longrightarrow> 0 \<le> bt_sum f m"
  unfolding bt_sum_def by (rule sum_nonneg) force

lemma bt_sum_member:
  assumes "bt_get m k = Some v" "\<And>j w. bt_get m j = Some w \<Longrightarrow> 0 \<le> f w"
  shows "f v \<le> bt_sum f m"
proof -
  have "f (the (bt_get m k)) \<le> bt_sum f m"
    unfolding bt_sum_def using finite_bt_dom [of m] assms by (intro member_le_sum) force+
  then show ?thesis using assms(1) by simp
qed

lemma bt_filter_count:
  "length (filter (\<lambda>v. P v) (bt_values m)) = card {k. \<exists>v. bt_get m k = Some v \<and> P v}"
proof -
  have "length (filter P (bt_values m)) = length (filter (P \<circ> snd) (bt_iter m))"
    by (simp add: bt_values_def filter_map)
  also have "\<dots> = card (set (map fst (filter (P \<circ> snd) (bt_iter m))))"
    using bt_keys_distinct [of m]
    by (subst distinct_card) (auto simp: bt_keys_def distinct_map_filter)
  also have "set (map fst (filter (P \<circ> snd) (bt_iter m))) =
      {k. \<exists>v. bt_get m k = Some v \<and> P v}"
    by (auto simp: image_iff Bex_def bt_iter_iff)
  finally show ?thesis .
qed

subsection \<open>The interface\<close>

text \<open>
  What a client relies on in a map: the lookups after an insertion and a removal. Lemmas about
  counters, caches and registries that hold for every such map are proved here once; the
  ordered map provides the laws.
\<close>

locale map_store =
  fixes lookup :: "'m \<Rightarrow> 'k \<Rightarrow> 'v option"
    and store :: "'k \<Rightarrow> 'v \<Rightarrow> 'm \<Rightarrow> 'm"
    and erase :: "'k \<Rightarrow> 'm \<Rightarrow> 'm"
  assumes lookup_store: "lookup (store k v m) = (lookup m)(k \<mapsto> v)"
    and lookup_erase: "lookup (erase k m) = (lookup m)(k := None)"
begin

lemma lookup_store_all:
  "lookup (foldr (\<lambda>(k, v). store k v) kvs m) = lookup m ++ map_of kvs"
  by (induction kvs) (auto simp: lookup_store map_add_def split: option.splits)

lemma lookup_erase_all:
  "lookup (foldl (\<lambda>m k. erase k m) m ks) k = (if k \<in> set ks then None else lookup m k)"
  by (induction ks arbitrary: m) (auto simp: lookup_erase)

lemma store_erase_other: "k \<noteq> k' \<Longrightarrow> lookup (erase k (store k' v m)) k' = Some v"
  by (simp add: lookup_store lookup_erase)

lemma dom_store: "dom (lookup (store k v m)) = insert k (dom (lookup m))"
  by (simp add: lookup_store)

end

interpretation bt: map_store bt_get bt_insert bt_remove
  by unfold_locales simp_all

end
