(* ===== verification/Trigger_Event.thy ===== *)
theory Trigger_Event
  imports Ordered_Map Float64 "HOL-Library.List_Lexorder" "HOL-Library.Char_ord"
begin

section \<open>Trigger events\<close>

text \<open>
  The unified trigger event of \<^verbatim>\<open>cortex-core/src/safety/trigger.rs\<close>: what the policy engine,
  the cost tracker, the message dispatcher and the operators send to the trigger evaluator.
  The constructors and their arguments are those of the Rust enum, in its order.
\<close>

datatype exfil_type = OutsideSandbox | WrongTargetAPI | TokenReplay | OutputLeakage

datatype trigger_event =
    SoulDrift (soul_agent_id: uuid) (drift_score: f64) (soul_threshold: f64)
      (baseline_hash: string) (current_hash: string) (soul_detected_at: datetime)
  | SpendingCapExceeded (cap_agent_id: uuid) (cap_daily_total: f64) (cap_value: f64) (cap_overage: f64)
      (cap_detected_at: datetime)
  | PolicyDenialThreshold (denial_agent_id: uuid) (denial_session_id: uuid) (denial_count: u32)
      (denied_tools: "string list") (denied_reasons: "string list") (denial_detected_at: datetime)
  | SandboxEscape (escape_agent_id: uuid) (escape_skill_name: string) (escape_attempt: string)
      (escape_detected_at: datetime)
  | CredentialExfiltration (exfil_agent_id: uuid) (exfil_skill_name: "string option")
      (exfil_type: exfil_type) (credential_id: string) (exfil_detected_at: datetime)
  | MultiAgentQuarantine (quarantined_agents: "uuid list") (quarantine_reasons: "string list")
      (quarantine_count: nat) (quarantine_threshold: nat) (quarantine_detected_at: datetime)
  | MemoryHealthCritical (health_agent_id: uuid) (health_score: f64) (health_threshold: f64)
      (sub_scores: "(string, f64) btree_map") (health_detected_at: datetime)
  | NetworkEgressViolation (egress_agent_id: uuid) (egress_domain: string)
      (egress_policy_mode: string) (violation_count: u32) (violation_threshold: u32)
      (egress_detected_at: datetime)
  | DistributedKillGate (origin_node_id: uuid) (gate_reason: string) (gate_chain_hash: string)
      (gate_detected_at: datetime)
  | ManualPause (pause_agent_id: uuid) (pause_reason: string) (pause_initiated_by: string)
  | ManualQuarantine (mq_agent_id: uuid) (mq_reason: string) (mq_initiated_by: string)
  | ManualKillAll (mk_reason: string) (mk_initiated_by: string)

end
