(* ===== verification/Kill_Switch.thy ===== *)
theory Kill_Switch
  imports Trigger_Event
begin

section \<open>The kill switch\<close>

text \<open>
  \<^verbatim>\<open>ghost-gateway/src/safety/kill_switch.rs\<close>. The process-wide flag \<^verbatim>\<open>PLATFORM_KILLED\<close>, the
  state under its \<^verbatim>\<open>RwLock\<close> and the audit log are one record; \<open>ks_poisoned\<close> says that a
  thread panicked while it held the state lock, which the operations detect. An operation that
  reads the wall clock takes the reading \<open>now\<close>; the \<^verbatim>\<open>Debug\<close> rendering of a trigger, which is
  put together by third-party \<^verbatim>\<open>Debug\<close> instances, is the argument \<open>fmt\<close>.
\<close>

subsection \<open>State\<close>

datatype kill_level = Normal | Pause | Quarantine | KillAll

fun kill_level_ord :: "kill_level \<Rightarrow> nat" where
  "kill_level_ord Normal = 0"
| "kill_level_ord Pause = 1"
| "kill_level_ord Quarantine = 2"
| "kill_level_ord KillAll = 3"

lemma kill_level_ord_inject [simp]: "kill_level_ord a = kill_level_ord b \<longleftrightarrow> a = b"
  by (cases a; cases b) auto

instantiation kill_level :: linorder
begin

definition less_eq_kill_level :: "kill_level \<Rightarrow> kill_level \<Rightarrow> bool" where
  "less_eq_kill_level a b \<longleftrightarrow> kill_level_ord a \<le> kill_level_ord b"

definition less_kill_level :: "kill_level \<Rightarrow> kill_level \<Rightarrow> bool" where
  "less_kill_level a b \<longleftrightarrow> kill_level_ord a < kill_level_ord b"

instance
  by standard (auto simp: less_eq_kill_level_def less_kill_level_def)

end

record agent_kill_state =
  aks_agent_id :: uuid
  aks_level :: kill_level
  aks_activated_at :: "datetime option"
  aks_trigger :: "string option"

record kill_switch_state =
  platform_level :: kill_level
  per_agent :: "(uuid, agent_kill_state) btree_map"
  kss_activated_at :: "datetime option"
  kss_trigger :: "string option"

definition kill_switch_state_default :: kill_switch_state where
  "kill_switch_state_default =
     \<lparr>platform_level = Normal, per_agent = bt_new, kss_activated_at = None, kss_trigger = None\<rparr>"

datatype kill_check_result = Ok | AgentPaused uuid | AgentQuarantined uuid | PlatformKilled

record audit_entry =
  ae_timestamp :: datetime
  ae_trigger :: trigger_event
  ae_action :: kill_level
  ae_agent_id :: "uuid option"

record kill_switch =
  ks_state :: kill_switch_state
  ks_poisoned :: bool
  ks_audit_log :: "audit_entry list"
  PLATFORM_KILLED :: bool

definition kill_switch_new :: kill_switch where
  "kill_switch_new =
     \<lparr>ks_state = kill_switch_state_default, ks_poisoned = False, ks_audit_log = [],
      PLATFORM_KILLED = False\<rparr>"

text \<open>The messages of \<^verbatim>\<open>resume_agent\<close>, with what each one interpolates.\<close>

datatype resume_error =
    LockPoisoned
  | NotInKillState uuid
  | LevelChanged kill_level kill_level
  | ResumeFromKillAll
  | NotPausedOrQuarantined uuid

subsection \<open>Operations\<close>

definition check :: "kill_switch \<Rightarrow> uuid \<Rightarrow> kill_check_result \<times> kill_switch" where
  "check ks agent_id =
     (if PLATFORM_KILLED ks then (PlatformKilled, ks)
      else if ks_poisoned ks then (PlatformKilled, ks\<lparr>PLATFORM_KILLED := True\<rparr>)
      else if platform_level (ks_state ks) = KillAll then (PlatformKilled, ks)
      else case bt_get (per_agent (ks_state ks)) agent_id of
        None \<Rightarrow> (Ok, ks)
      | Some agent_state \<Rightarrow>
          (case aks_level agent_state of
             Pause \<Rightarrow> (AgentPaused agent_id, ks)
           | Quarantine \<Rightarrow> (AgentQuarantined agent_id, ks)
           | KillAll \<Rightarrow> (PlatformKilled, ks)
           | Normal \<Rightarrow> (Ok, ks)))"

definition log_audit ::
  "datetime \<Rightarrow> trigger_event \<Rightarrow> kill_level \<Rightarrow> uuid option \<Rightarrow> kill_switch \<Rightarrow> kill_switch" where
  "log_audit now trigger action agent_id ks =
     ks\<lparr>ks_audit_log := ks_audit_log ks @
        [\<lparr>ae_timestamp = now, ae_trigger = trigger, ae_action = action, ae_agent_id = agent_id\<rparr>]\<rparr>"

definition activate_kill_all_inner ::
  "(trigger_event \<Rightarrow> string) \<Rightarrow> datetime \<Rightarrow> trigger_event \<Rightarrow> kill_switch \<Rightarrow> kill_switch" where
  "activate_kill_all_inner fmt now trigger ks =
     (if platform_level (ks_state ks) = KillAll then ks
      else log_audit now trigger KillAll None
        (ks\<lparr>ks_state := (ks_state ks)
              \<lparr>platform_level := KillAll, kss_activated_at := Some now,
               kss_trigger := Some (fmt trigger)\<rparr>,
            PLATFORM_KILLED := True\<rparr>))"

definition activate_agent ::
  "(trigger_event \<Rightarrow> string) \<Rightarrow> datetime \<Rightarrow> kill_switch \<Rightarrow> uuid \<Rightarrow> kill_level \<Rightarrow> trigger_event
     \<Rightarrow> kill_switch" where
  "activate_agent fmt now ks agent_id level trigger =
     (if ks_poisoned ks then ks\<lparr>PLATFORM_KILLED := True\<rparr>
      else if (case bt_get (per_agent (ks_state ks)) agent_id of
                 None \<Rightarrow> False
               | Some existing \<Rightarrow> level \<le> aks_level existing) then ks
      else
        (let entry = \<lparr>aks_agent_id = agent_id, aks_level = level, aks_activated_at = Some now,
                      aks_trigger = Some (fmt trigger)\<rparr>;
             st = ks_state ks;
             ks1 = ks\<lparr>ks_state := st\<lparr>per_agent := bt_insert agent_id entry (per_agent st)\<rparr>\<rparr>;
             ks2 = log_audit now trigger level (Some agent_id) ks1
         in if level = KillAll then activate_kill_all_inner fmt now trigger ks2 else ks2))"

definition activate_kill_all ::
  "(trigger_event \<Rightarrow> string) \<Rightarrow> datetime \<Rightarrow> kill_switch \<Rightarrow> trigger_event \<Rightarrow> kill_switch" where
  "activate_kill_all fmt now ks trigger =
     (if ks_poisoned ks then ks\<lparr>PLATFORM_KILLED := True\<rparr>
      else activate_kill_all_inner fmt now trigger ks)"

definition resume_agent ::
  "datetime \<Rightarrow> kill_switch \<Rightarrow> uuid \<Rightarrow> kill_level option \<Rightarrow> (resume_error + unit) \<times> kill_switch" where
  "resume_agent now ks agent_id expected_level =
     (if ks_poisoned ks then (Inl LockPoisoned, ks)
      else case bt_get (per_agent (ks_state ks)) agent_id of
        None \<Rightarrow> (Inl (NotInKillState agent_id), ks)
      | Some agent_state \<Rightarrow>
          (if (case expected_level of None \<Rightarrow> False
               | Some expected \<Rightarrow> aks_level agent_state \<noteq> expected)
           then (Inl (LevelChanged (the expected_level) (aks_level agent_state)), ks)
           else
             (let st = ks_state ks;
                  removed = st\<lparr>per_agent := bt_remove agent_id (per_agent st)\<rparr>;
                  resumed = (\<lambda>reason.
                    (log_audit now (ManualPause agent_id reason ''api'') Normal (Some agent_id) ks)
                      \<lparr>ks_state := removed\<rparr>)
              in case aks_level agent_state of
                   KillAll \<Rightarrow> (Inl ResumeFromKillAll, ks)
                 | Quarantine \<Rightarrow> (Inr (), resumed ''quarantine_resume'')
                 | Pause \<Rightarrow> (Inr (), resumed ''pause_resume'')
                 | Normal \<Rightarrow> (Inl (NotPausedOrQuarantined agent_id), ks))))"

definition current_state :: "kill_switch \<Rightarrow> kill_switch_state" where
  "current_state ks = ks_state ks"

definition restore_state :: "kill_switch \<Rightarrow> kill_switch_state \<Rightarrow> kill_switch" where
  "restore_state ks restored =
     ks\<lparr>ks_state := restored, PLATFORM_KILLED := (platform_level restored = KillAll)\<rparr>"

definition audit_entries :: "kill_switch \<Rightarrow> audit_entry list" where
  "audit_entries ks = ks_audit_log ks"

definition quarantined_count :: "kill_switch \<Rightarrow> nat" where
  "quarantined_count ks =
     length (filter (\<lambda>a. aks_level a = Quarantine) (bt_values (per_agent (ks_state ks))))"

subsection \<open>Sequences of operations\<close>

text \<open>
  What callers do with a kill switch: check an agent, activate, resume, and, outside the
  program's control, a panic that poisons the state lock. Around them, a request handler and the
  trigger task take a snapshot of the state (\<open>current_state\<close>) before they change it, and put it
  back with \<open>restore_state\<close> when the change fails or cannot be persisted (\<^verbatim>\<open>handle_trigger_event\<close>,
  \<^verbatim>\<open>execute_persisted_safety_mutation\<close>). The snapshots that are held are part of the run; requests
  interleave, so any of them may be put back at any time. A start of the process restores the
  saved state once, before the first request.
\<close>

datatype ks_op =
    OpCheck uuid
  | OpActivate datetime uuid kill_level trigger_event
  | OpKillAll datetime trigger_event
  | OpResume datetime uuid "kill_level option"
  | OpPoison

fun ks_step :: "(trigger_event \<Rightarrow> string) \<Rightarrow> kill_switch \<Rightarrow> ks_op \<Rightarrow> kill_switch" where
  "ks_step fmt ks (OpCheck a) = snd (check ks a)"
| "ks_step fmt ks (OpActivate now a l t) = activate_agent fmt now ks a l t"
| "ks_step fmt ks (OpKillAll now t) = activate_kill_all fmt now ks t"
| "ks_step fmt ks (OpResume now a el) = snd (resume_agent now ks a el)"
| "ks_step fmt ks OpPoison = ks\<lparr>ks_poisoned := True\<rparr>"

record ks_runtime =
  kr_switch :: kill_switch
  kr_snapshots :: "kill_switch_state list"

datatype ks_run_op = RunOp ks_op | RunSnapshot | RunRollback nat

fun ks_run_step :: "(trigger_event \<Rightarrow> string) \<Rightarrow> ks_runtime \<Rightarrow> ks_run_op \<Rightarrow> ks_runtime" where
  "ks_run_step fmt r (RunOp e) = r\<lparr>kr_switch := ks_step fmt (kr_switch r) e\<rparr>"
| "ks_run_step fmt r RunSnapshot = r\<lparr>kr_snapshots := kr_snapshots r @ [current_state (kr_switch r)]\<rparr>"
| "ks_run_step fmt r (RunRollback i) =
     (if i < length (kr_snapshots r)
      then r\<lparr>kr_switch := restore_state (kr_switch r) (kr_snapshots r ! i)\<rparr> else r)"

text \<open>A run that starts at a given switch, with no snapshot held.\<close>

definition ks_run :: "(trigger_event \<Rightarrow> string) \<Rightarrow> kill_switch \<Rightarrow> ks_run_op list \<Rightarrow> kill_switch" where
  "ks_run fmt ks es = kr_switch (foldl (ks_run_step fmt) \<lparr>kr_switch = ks, kr_snapshots = []\<rparr> es)"

fun is_resume :: "ks_op \<Rightarrow> bool" where
  "is_resume (OpResume _ _ _) = True"
| "is_resume _ = False"

text \<open>The level an agent is stopped at, as a check reports it.\<close>

fun stop_level :: "kill_check_result \<Rightarrow> kill_level" where
  "stop_level Ok = Normal"
| "stop_level (AgentPaused _) = Pause"
| "stop_level (AgentQuarantined _) = Quarantine"
| "stop_level PlatformKilled = KillAll"

definition effective_level :: "kill_switch \<Rightarrow> uuid \<Rightarrow> kill_level" where
  "effective_level ks a = stop_level (fst (check ks a))"

definition agent_level :: "kill_switch \<Rightarrow> uuid \<Rightarrow> kill_level" where
  "agent_level ks a =
     (case bt_get (per_agent (ks_state ks)) a of None \<Rightarrow> Normal | Some s \<Rightarrow> aks_level s)"

text \<open>The platform is down: every check answers \<open>PlatformKilled\<close>.\<close>

definition platform_down :: "kill_switch \<Rightarrow> bool" where
  "platform_down ks \<longleftrightarrow>
     PLATFORM_KILLED ks \<or> ks_poisoned ks \<or> platform_level (ks_state ks) = KillAll"

text \<open>
  The coherence of the three places a kill is recorded in: the platform level, the global flag
  and the per-agent entries, each filed under its own agent.
\<close>

definition ks_wf :: "kill_switch \<Rightarrow> bool" where
  "ks_wf ks \<longleftrightarrow>
     (platform_level (ks_state ks) = KillAll \<longrightarrow> PLATFORM_KILLED ks) \<and>
     (PLATFORM_KILLED ks \<and> \<not> ks_poisoned ks \<longrightarrow> platform_level (ks_state ks) = KillAll) \<and>
     (\<forall>a s. bt_get (per_agent (ks_state ks)) a = Some s \<longrightarrow>
        aks_agent_id s = a \<and>
        (aks_level s = KillAll \<longrightarrow> platform_level (ks_state ks) = KillAll))"

lemmas ks_defs = check_def activate_agent_def activate_kill_all_def activate_kill_all_inner_def
  log_audit_def resume_agent_def Let_def

lemma kill_level_le_KillAll [simp]: "(l :: kill_level) \<le> KillAll"
  by (cases l) (auto simp: less_eq_kill_level_def)

lemma Normal_le [simp]: "Normal \<le> (l :: kill_level)"
  by (cases l) (auto simp: less_eq_kill_level_def)

lemma le_Normal_iff [simp]: "l \<le> Normal \<longleftrightarrow> l = Normal"
  by (cases l) (auto simp: less_eq_kill_level_def)

lemma check_killed_iff:
  "ks_wf ks \<Longrightarrow> fst (check ks a) = PlatformKilled \<longleftrightarrow> platform_down ks"
  by (auto simp: check_def platform_down_def ks_wf_def split: option.splits kill_level.splits)

lemma check_up:
  "\<not> platform_down ks \<Longrightarrow> ks_wf ks \<Longrightarrow>
     check ks a = (case agent_level ks a of Normal \<Rightarrow> Ok | Pause \<Rightarrow> AgentPaused a
       | Quarantine \<Rightarrow> AgentQuarantined a | KillAll \<Rightarrow> PlatformKilled, ks)"
  by (auto simp: check_def platform_down_def agent_level_def
      split: option.splits kill_level.splits)

lemma ks_wf_activate_kill_all_inner:
  "ks_wf ks \<Longrightarrow> ks_wf (activate_kill_all_inner fmt now t ks)"
  by (auto simp: ks_wf_def activate_kill_all_inner_def log_audit_def)

lemma ks_wf_check: "ks_wf ks \<Longrightarrow> ks_wf (snd (check ks a))"
  by (auto simp: ks_wf_def check_def split: option.splits kill_level.splits)

lemma ks_wf_activate_agent: "ks_wf ks \<Longrightarrow> ks_wf (activate_agent fmt now ks a l t)"
  by (auto simp: ks_wf_def activate_agent_def activate_kill_all_inner_def log_audit_def Let_def
      split: if_splits)

lemma ks_wf_flag: "ks_wf ks \<Longrightarrow> ks_poisoned ks \<Longrightarrow> ks_wf (ks\<lparr>PLATFORM_KILLED := True\<rparr>)"
  by (simp add: ks_wf_def)

lemma ks_wf_poison: "ks_wf ks \<Longrightarrow> ks_wf (ks\<lparr>ks_poisoned := True\<rparr>)"
  by (simp add: ks_wf_def)

lemma ks_wf_activate_kill_all: "ks_wf ks \<Longrightarrow> ks_wf (activate_kill_all fmt now ks t)"
  by (simp add: activate_kill_all_def ks_wf_activate_kill_all_inner ks_wf_flag)

lemma ks_wf_resume: "ks_wf ks \<Longrightarrow> ks_wf (snd (resume_agent now ks a el))"
  by (auto simp: ks_wf_def resume_agent_def log_audit_def Let_def
      split: option.splits kill_level.splits)

lemma ks_wf_step: "ks_wf ks \<Longrightarrow> ks_wf (ks_step fmt ks e)"
  by (cases e) (simp_all add: ks_wf_check ks_wf_activate_agent ks_wf_activate_kill_all
      ks_wf_resume ks_wf_poison)

interpretation ks_inv: invariant_steps "ks_step fmt" ks_wf for fmt
  by unfold_locales (rule ks_wf_step)

lemma ks_wf_new: "ks_wf kill_switch_new"
  by (simp add: ks_wf_def kill_switch_new_def kill_switch_state_default_def)

subsection \<open>Monotonicity and the latch\<close>

lemma agent_level_kill_all_inner [simp]:
  "agent_level (activate_kill_all_inner fmt now t ks) a = agent_level ks a"
  by (simp add: agent_level_def activate_kill_all_inner_def log_audit_def)

lemma agent_level_activate_agent:
  "agent_level (activate_agent fmt now ks a l t) b =
     (if a = b \<and> \<not> ks_poisoned ks then max l (agent_level ks a) else agent_level ks b)"
  by (auto simp: agent_level_def activate_agent_def activate_kill_all_inner_def log_audit_def
      Let_def max_def split: option.splits)

lemma agent_level_step_mono: "\<not> is_resume e \<Longrightarrow> agent_level ks a \<le> agent_level (ks_step fmt ks e) a"
proof (cases e)
  case (OpActivate now b l t)
  then show ?thesis by (auto simp: agent_level_activate_agent)
qed (auto simp: agent_level_def check_def activate_kill_all_def activate_kill_all_inner_def
    log_audit_def split: option.splits kill_level.splits)

lemma agent_level_kill_all:
  "agent_level (activate_kill_all fmt now ks t) a = agent_level ks a"
  by (simp add: activate_kill_all_def agent_level_def activate_kill_all_inner_def log_audit_def)

lemma platform_down_step: "platform_down ks \<Longrightarrow> platform_down (ks_step fmt ks e)"
  by (cases e)
    (auto simp: platform_down_def ks_defs split: option.splits kill_level.splits)

lemma effective_level_wf:
  "ks_wf ks \<Longrightarrow> effective_level ks a = (if platform_down ks then KillAll else agent_level ks a)"
  using check_killed_iff [of ks a] by (auto simp: effective_level_def check_up split: kill_level.splits)

lemma effective_level_step:
  assumes "ks_wf ks" "\<not> is_resume e"
  shows "effective_level ks a \<le> effective_level (ks_step fmt ks e) a"
  using effective_level_wf [OF assms(1)] effective_level_wf [OF ks_wf_step [OF assms(1)]]
    platform_down_step [of ks fmt e] agent_level_step_mono [OF assms(2), of ks a fmt] by simp

text \<open>
  What a run needs to know of the snapshots it holds: put back, a snapshot gives a coherent switch
  on which no level of interest is below the bound \<open>b\<close>.
\<close>

definition snapshot_ok :: "(uuid \<Rightarrow> kill_level) \<Rightarrow> bool \<Rightarrow> kill_switch_state \<Rightarrow> bool" where
  "snapshot_ok b poisoned s \<longleftrightarrow>
     (\<forall>ks. ks_poisoned ks = poisoned \<longrightarrow>
        ks_wf (restore_state ks s) \<and> (\<forall>a. b a \<le> effective_level (restore_state ks s) a))"

definition run_above :: "(uuid \<Rightarrow> kill_level) \<Rightarrow> ks_runtime \<Rightarrow> bool" where
  "run_above b r \<longleftrightarrow>
     ks_wf (kr_switch r) \<and> (\<forall>a. b a \<le> effective_level (kr_switch r) a) \<and>
     (\<forall>s \<in> set (kr_snapshots r). snapshot_ok b (ks_poisoned (kr_switch r)) s)"

lemma ks_wf_restore: "ks_wf ks \<Longrightarrow> ks_wf (restore_state ks' (ks_state ks))"
  by (auto simp: ks_wf_def restore_state_def)

lemma effective_level_restore:
  assumes "ks_wf ks" "ks_poisoned ks' = ks_poisoned ks"
  shows "effective_level (restore_state ks' (ks_state ks)) a = effective_level ks a"
  using assms unfolding effective_level_wf [OF assms(1)] effective_level_wf [OF ks_wf_restore [OF assms(1)]]
  by (auto simp: platform_down_def restore_state_def agent_level_def ks_wf_def)

lemma snapshot_ok_current:
  "ks_wf ks \<Longrightarrow> \<forall>a. b a \<le> effective_level ks a \<Longrightarrow> snapshot_ok b (ks_poisoned ks) (current_state ks)"
  by (simp add: snapshot_ok_def current_state_def ks_wf_restore effective_level_restore)

lemma snapshot_ok_poisoned: "snapshot_ok b p s \<Longrightarrow> snapshot_ok b True s"
  unfolding snapshot_ok_def
proof (intro allI impI conjI)
  fix ks :: kill_switch and a
  assume ok: "\<forall>ks. ks_poisoned ks = p \<longrightarrow> ks_wf (restore_state ks s) \<and> (\<forall>a. b a \<le> effective_level (restore_state ks s) a)"
    and p: "ks_poisoned ks = True"
  have "ks_wf (restore_state (ks\<lparr>ks_poisoned := p\<rparr>) s)" using ok by simp
  with p show wf: "ks_wf (restore_state ks s)" by (auto simp: ks_wf_def restore_state_def)
  show "b a \<le> effective_level (restore_state ks s) a"
    using p by (simp add: effective_level_wf [OF wf]) (simp add: platform_down_def restore_state_def)
qed

lemma ks_poisoned_step: "ks_poisoned (ks_step fmt ks e) = (ks_poisoned ks \<or> e = OpPoison)"
  by (cases e) (auto simp: ks_defs split: option.splits kill_level.splits)

lemma run_above_step:
  assumes "run_above b r" "\<And>c. e = RunOp c \<Longrightarrow> is_resume c \<Longrightarrow> b = (\<lambda>_. Normal)"
  shows "run_above b (ks_run_step fmt r e)"
proof (cases e)
  case (RunOp c)
  let ?ks = "kr_switch r"
  have wf: "ks_wf ?ks" and above: "\<forall>a. b a \<le> effective_level ?ks a" using assms(1) by (simp_all add: run_above_def)
  have "\<forall>a. b a \<le> effective_level (ks_step fmt ?ks c) a"
  proof (cases "is_resume c")
    case True
    then show ?thesis using assms(2) RunOp by simp
  next
    case False
    then show ?thesis using above effective_level_step [OF wf False, where fmt = fmt] order_trans by blast
  qed
  moreover have "\<forall>s \<in> set (kr_snapshots r). snapshot_ok b (ks_poisoned (ks_step fmt ?ks c)) s"
    using assms(1) snapshot_ok_poisoned by (cases "c = OpPoison") (auto simp: run_above_def ks_poisoned_step)
  ultimately show ?thesis using wf RunOp by (simp add: run_above_def ks_wf_step)
next
  case RunSnapshot
  then show ?thesis using assms(1) by (auto simp: run_above_def snapshot_ok_current)
next
  case (RunRollback i)
  then show ?thesis
  proof (cases "i < length (kr_snapshots r)")
    case True
    then have "snapshot_ok b (ks_poisoned (kr_switch r)) (kr_snapshots r ! i)"
      using assms(1) by (simp add: run_above_def)
    moreover have "ks_poisoned (restore_state ks s) = ks_poisoned ks" for ks s by (simp add: restore_state_def)
    ultimately show ?thesis using assms(1) True RunRollback by (auto simp: run_above_def snapshot_ok_def)
  qed (use assms(1) in simp)
qed

lemma run_above_run:
  assumes "run_above b r" "\<And>c. RunOp c \<in> set es \<Longrightarrow> is_resume c \<Longrightarrow> b = (\<lambda>_. Normal)"
  shows "run_above b (foldl (ks_run_step fmt) r es)"
  using assms
proof (induction es arbitrary: r)
  case (Cons e es)
  have "run_above b (ks_run_step fmt r e)"
    by (rule run_above_step [OF Cons.prems(1)]) (rule Cons.prems(2), simp_all)
  from Cons.IH [OF this] Cons.prems(2) show ?case by (metis foldl_Cons list.set_intros(2))
qed simp

interpretation ks_run_inv: invariant_steps "ks_run_step fmt" "run_above (\<lambda>_. Normal)" for fmt
  by unfold_locales (simp add: run_above_step)

lemma run_above_start: "ks_wf ks \<Longrightarrow> b \<le> effective_level ks \<Longrightarrow> run_above b \<lparr>kr_switch = ks, kr_snapshots = []\<rparr>"
  by (simp add: run_above_def le_fun_def)

text \<open>A killed platform stays killed on every snapshot taken since.\<close>

definition run_down :: "ks_runtime \<Rightarrow> bool" where
  "run_down r \<longleftrightarrow>
     run_above (\<lambda>_. Normal) r \<and> platform_down (kr_switch r) \<and>
     (\<forall>s \<in> set (kr_snapshots r). ks_poisoned (kr_switch r) \<or> platform_level s = KillAll)"

lemma run_down_step: "run_down r \<Longrightarrow> run_down (ks_run_step fmt r e)"
proof (cases e)
  case (RunOp c)
  assume "run_down r"
  with RunOp ks_run_inv.inv_step [of r fmt e] show ?thesis
    by (auto simp: run_down_def platform_down_step ks_poisoned_step)
next
  case RunSnapshot
  assume "run_down r"
  with RunSnapshot ks_run_inv.inv_step [of r fmt e] show ?thesis
    by (auto simp: run_down_def run_above_def platform_down_def current_state_def ks_wf_def)
next
  case (RunRollback i)
  assume "run_down r"
  with RunRollback ks_run_inv.inv_step [of r fmt e] show ?thesis
    by (auto simp: run_down_def platform_down_def restore_state_def split: if_splits)
qed

interpretation ks_latch: invariant_steps "ks_run_step fmt" run_down for fmt
  by unfold_locales (rule run_down_step)

subsection \<open>The audit log\<close>

text \<open>What one operation appends, and that a change of level is among it.\<close>

lemma audit_log_step: "\<exists>new. ks_audit_log (ks_step fmt ks e) = ks_audit_log ks @ new"
  by (cases e) (auto simp: ks_defs split: option.splits kill_level.splits)

abbreviation audit_of :: "datetime \<Rightarrow> trigger_event \<Rightarrow> kill_level \<Rightarrow> uuid \<Rightarrow> audit_entry" where
  "audit_of now t l a \<equiv>
     \<lparr>ae_timestamp = now, ae_trigger = t, ae_action = l, ae_agent_id = Some a\<rparr>"

lemma audit_log_kill_all_inner:
  "\<exists>rest. ks_audit_log (activate_kill_all_inner fmt now t ks) = ks_audit_log ks @ rest"
  by (simp add: activate_kill_all_inner_def log_audit_def)

lemma audit_log_activate_agent:
  assumes "agent_level (activate_agent fmt now ks b l t) a \<noteq> agent_level ks a"
  shows "a = b \<and> agent_level (activate_agent fmt now ks b l t) a = l \<and>
    (\<exists>rest. ks_audit_log (activate_agent fmt now ks b l t) =
       ks_audit_log ks @ audit_of now t l b # rest)"
proof -
  have ab: "b = a" "\<not> ks_poisoned ks" "\<not> l \<le> agent_level ks a"
    using assms by (auto simp: agent_level_activate_agent max_def split: if_splits)
  then have "\<not> (case bt_get (per_agent (ks_state ks)) b of None \<Rightarrow> False
      | Some existing \<Rightarrow> l \<le> aks_level existing)"
    by (auto simp: agent_level_def split: option.splits)
  then have eq: "activate_agent fmt now ks b l t =
      (let ks2 = log_audit now t l (Some b) (ks\<lparr>ks_state := (ks_state ks)\<lparr>per_agent :=
          bt_insert b \<lparr>aks_agent_id = b, aks_level = l, aks_activated_at = Some now,
            aks_trigger = Some (fmt t)\<rparr> (per_agent (ks_state ks))\<rparr>\<rparr>)
       in if l = KillAll then activate_kill_all_inner fmt now t ks2 else ks2)"
    using ab(2) by (simp add: activate_agent_def Let_def)
  obtain rest where "ks_audit_log (activate_kill_all_inner fmt now t ks2) = ks_audit_log ks2 @ rest"
    if "ks2 = log_audit now t l (Some b) (ks\<lparr>ks_state := (ks_state ks)\<lparr>per_agent :=
          bt_insert b \<lparr>aks_agent_id = b, aks_level = l, aks_activated_at = Some now,
            aks_trigger = Some (fmt t)\<rparr> (per_agent (ks_state ks))\<rparr>\<rparr>)" for ks2
    using audit_log_kill_all_inner by blast
  then have "\<exists>rest. ks_audit_log (activate_agent fmt now ks b l t) =
       ks_audit_log ks @ audit_of now t l b # rest"
    unfolding eq Let_def by (cases "l = KillAll") (simp_all add: log_audit_def)
  then show ?thesis
    using ab by (auto simp: agent_level_activate_agent max_def)
qed

lemma audit_log_resume_agent:
  assumes "agent_level (snd (resume_agent now ks b el)) a \<noteq> agent_level ks a"
  shows "a = b \<and> agent_level (snd (resume_agent now ks b el)) a = Normal \<and>
    (\<exists>reason. ks_audit_log (snd (resume_agent now ks b el)) =
       ks_audit_log ks @ [audit_of now (ManualPause b reason ''api'') Normal b])"
  using assms
  by (auto simp: agent_level_def resume_agent_def log_audit_def Let_def
      split: option.splits kill_level.splits if_splits)

lemma agent_level_change_logged:
  assumes "agent_level (ks_step fmt ks e) a \<noteq> agent_level ks a"
  shows "\<exists>new en. ks_audit_log (ks_step fmt ks e) = ks_audit_log ks @ new \<and> en \<in> set new \<and>
     ae_agent_id en = Some a \<and> ae_action en = agent_level (ks_step fmt ks e) a"
proof (cases e)
  case (OpActivate now b l t)
  then show ?thesis using assms audit_log_activate_agent [of fmt now ks b l t a] by force
next
  case (OpResume now b el)
  then show ?thesis using assms audit_log_resume_agent [of now ks b el a] by force
next
  case (OpCheck b)
  then show ?thesis using assms
    by (auto simp: agent_level_def check_def split: option.splits kill_level.splits if_splits)
next
  case (OpKillAll now t)
  then show ?thesis using assms by (simp add: agent_level_kill_all)
next
  case OpPoison
  then show ?thesis using assms by (simp add: agent_level_def)
qed

subsection \<open>Properties\<close>

text \<open>
  C4. The kill switch stays coherent: from a fresh switch, whatever sequence of checks,
  activations, resumes, lock poisonings, snapshots and rollbacks is performed, the platform level, the
  global flag and the per-agent entries agree (\<open>ks_wf\<close>), and so a check answers \<open>PlatformKilled\<close>
  exactly when the platform is down.
\<close>

theorem kill_switch_coherent:
  "ks_wf (ks_run fmt kill_switch_new es) \<and>
   (fst (check (ks_run fmt kill_switch_new es) a) = PlatformKilled \<longleftrightarrow>
      platform_down (ks_run fmt kill_switch_new es))"
proof -
  have "ks_wf (ks_run fmt kill_switch_new es)"
    using ks_run_inv.inv_run [OF run_above_start [OF ks_wf_new, of "\<lambda>_. Normal"], of fmt es]
    by (simp add: run_above_def ks_run_def le_fun_def)
  then show ?thesis using check_killed_iff by blast
qed

text \<open>
  C5. Kill levels are monotonic: the level a check reports for an agent, its own or the
  platform's, is never below what it was at the start of a run without resumes, whatever is checked,
  activated, killed, poisoned, and also when operations are rolled back to snapshots taken in the
  run. Only a resume, or the rollback to a snapshot taken before, lowers it.
\<close>

theorem kill_level_monotone:
  assumes "ks_wf ks" "\<And>c. RunOp c \<in> set es \<Longrightarrow> \<not> is_resume c"
  shows "effective_level ks a \<le> effective_level (ks_run fmt ks es) a"
  using run_above_run [OF run_above_start [OF assms(1), of "effective_level ks"], of es fmt] assms(2)
  by (auto simp: run_above_def ks_run_def)

theorem kill_level_monotone_witness:
  "effective_level (activate_agent (\<lambda>_. ''t'') 4 kill_switch_new 7 Pause (ManualKillAll ''r'' ''op'')) 7 = Pause \<and>
   Pause \<le> effective_level (ks_run (\<lambda>_. ''t'')
      (activate_agent (\<lambda>_. ''t'') 4 kill_switch_new 7 Pause (ManualKillAll ''r'' ''op''))
      [RunSnapshot, RunOp (OpActivate 5 7 Quarantine (ManualKillAll ''r'' ''op'')), RunRollback 0]) 7"
proof -
  let ?ks = "activate_agent (\<lambda>_. ''t'') 4 kill_switch_new 7 Pause (ManualKillAll ''r'' ''op'')"
  have "effective_level ?ks 7 = Pause"
    by (simp add: effective_level_def ks_defs kill_switch_new_def kill_switch_state_default_def)
  moreover have "effective_level ?ks 7 \<le> effective_level (ks_run (\<lambda>_. ''t'') ?ks
      [RunSnapshot, RunOp (OpActivate 5 7 Quarantine (ManualKillAll ''r'' ''op'')), RunRollback 0]) 7"
    by (rule kill_level_monotone) (auto intro: ks_wf_activate_agent ks_wf_new)
  ultimately show ?thesis by simp
qed

text \<open>
  C6. KILL_ALL latches: after \<open>activate_kill_all\<close>, every later check of every agent answers
  \<open>PlatformKilled\<close>, whatever checks, activations and resumes come in between and whichever operations are
  rolled back to a snapshot taken since the kill. (The rollback to a snapshot from before the kill,
  when the kill itself could not be persisted, undoes it: \<open>rollback_undoes_kill\<close>.)
\<close>

theorem kill_all_latches:
  assumes "ks_wf ks"
  shows "fst (check (ks_run fmt (activate_kill_all fmt now ks t) es) a) = PlatformKilled"
proof -
  let ?start = "\<lparr>kr_switch = activate_kill_all fmt now ks t, kr_snapshots = []\<rparr>"
  have "platform_down (activate_kill_all fmt now ks t)" by (auto simp: platform_down_def ks_defs)
  then have "run_down ?start" using assms by (simp add: run_down_def run_above_def ks_wf_activate_kill_all)
  then have "run_down (foldl (ks_run_step fmt) ?start es)" by (rule ks_latch.inv_run)
  then show ?thesis by (simp add: run_down_def run_above_def ks_run_def check_killed_iff)
qed

theorem kill_all_latches_witness:
  "fst (check (ks_run (\<lambda>_. []) (activate_kill_all (\<lambda>_. []) 0 kill_switch_new
     (ManualKillAll ''stop'' ''op'')) [RunSnapshot, RunOp (OpResume 1 3 None), RunRollback 0]) 3) = PlatformKilled"
  by (rule kill_all_latches) (rule ks_wf_new)

text \<open>The rollback to a snapshot from before a kill clears the flag and the platform level.\<close>

theorem rollback_undoes_kill:
  "\<not> platform_down ks \<Longrightarrow>
   \<not> platform_down (ks_run fmt ks [RunSnapshot, RunOp (OpKillAll now t), RunRollback 0]) \<and>
   agent_level (ks_run fmt ks [RunSnapshot, RunOp (OpKillAll now t), RunRollback 0]) a = agent_level ks a"
  by (simp add: ks_run_def platform_down_def restore_state_def current_state_def ks_defs agent_level_def)

text \<open>
  A resume succeeds exactly when the lock is sound, the agent is paused or quarantined and
  the level the caller was authorised for is the current one; then the agent is cleared and
  every other agent and the platform level are as before. A refused resume changes nothing.
\<close>

theorem resume_agent_exact:
  "let (r, ks') = resume_agent now ks a el in
     (r = Inr () \<longleftrightarrow> \<not> ks_poisoned ks \<and> agent_level ks a \<in> {Pause, Quarantine} \<and>
        (el = None \<or> el = Some (agent_level ks a))) \<and>
     (r = Inr () \<longrightarrow> agent_level ks' a = Normal \<and>
        (\<forall>b. b \<noteq> a \<longrightarrow> agent_level ks' b = agent_level ks b) \<and>
        platform_level (ks_state ks') = platform_level (ks_state ks)) \<and>
     (r \<noteq> Inr () \<longrightarrow> ks' = ks)"
  by (auto simp: resume_agent_def agent_level_def log_audit_def Let_def
      split: option.splits kill_level.splits)

theorem resume_agent_exact_witness:
  "fst (resume_agent 9 (activate_agent (\<lambda>_. []) 0 kill_switch_new 4 Pause
       (ManualPause 4 ''r'' ''op'')) 4 (Some Pause)) = Inr () \<and>
   fst (resume_agent 9 (activate_agent (\<lambda>_. []) 0 kill_switch_new 4 Quarantine
       (ManualPause 4 ''r'' ''op'')) 4 (Some Pause)) = Inl (LevelChanged Pause Quarantine)"
proof -
  let ?ks = "activate_agent (\<lambda>_. []) 0 kill_switch_new 4 Pause (ManualPause 4 ''r'' ''op'')"
  have "fst (resume_agent 9 ?ks 4 (Some Pause)) = Inr ()"
    using resume_agent_exact [of 9 ?ks 4 "Some Pause"]
    by (simp add: case_prod_beta Let_def agent_level_def kill_switch_new_def
        kill_switch_state_default_def activate_agent_def log_audit_def)
  then show ?thesis
    by (simp add: ks_defs kill_switch_new_def kill_switch_state_default_def)
qed

text \<open>
  The audit log is append-only and complete: an operation only appends to it, and when it
  changes the level of an agent, the appended entries include one for that agent with the new
  level.
\<close>

theorem audit_log_complete:
  "\<exists>new. audit_entries (ks_step fmt ks e) = audit_entries ks @ new \<and>
     (\<forall>a. agent_level (ks_step fmt ks e) a \<noteq> agent_level ks a \<longrightarrow>
        (\<exists>en. en \<in> set new \<and> ae_agent_id en = Some a \<and>
           ae_action en = agent_level (ks_step fmt ks e) a))"
proof -
  obtain new where new: "ks_audit_log (ks_step fmt ks e) = ks_audit_log ks @ new"
    using audit_log_step by blast
  show ?thesis
    by (rule exI [of _ new]) (use new agent_level_change_logged [of fmt ks e] in
      \<open>auto simp: audit_entries_def\<close>)
qed

theorem audit_log_complete_witness:
  "\<exists>new. audit_entries (ks_step (\<lambda>_. []) kill_switch_new
       (OpActivate 3 4 Pause (ManualPause 4 ''r'' ''op''))) = audit_entries kill_switch_new @ new \<and>
     (\<exists>en. en \<in> set new \<and> ae_agent_id en = Some 4 \<and> ae_action en = Pause)"
proof -
  let ?e = "OpActivate 3 4 Pause (ManualPause 4 ''r'' ''op'')"
  have "agent_level (ks_step (\<lambda>_. []) kill_switch_new ?e) 4 = Pause \<and>
      agent_level kill_switch_new 4 = Normal"
    by (simp add: agent_level_def ks_defs kill_switch_new_def kill_switch_state_default_def)
  then show ?thesis
    using audit_log_complete [of "\<lambda>_. []" kill_switch_new ?e] by (metis kill_level.distinct(1))
qed

end
