(* ===== verification/Auto_Trigger.thy ===== *)
theory Auto_Trigger
  imports Kill_Switch "HOL-Library.Product_Lexorder" "HOL-Library.Option_ord"
begin

section \<open>The automatic trigger evaluator\<close>

text \<open>
  \<^verbatim>\<open>ghost-gateway/src/safety/auto_triggers.rs\<close>: classification of a trigger, suppression of
  repeats, and delegation to the kill switch, with the cascade that kills the platform when
  three agents are quarantined. The evaluator holds a reference to the kill switch; here the
  switch is threaded beside the evaluator's own state. \<open>inow\<close> is the reading of the monotonic
  clock, \<open>now\<close> that of the wall clock.
\<close>

subsection \<open>Classification\<close>

type_synonym dedup_key = "string \<times> uuid option"

definition DEDUP_WINDOW :: duration where
  "DEDUP_WINDOW = from_secs 60"

definition DEDUP_CLEANUP_INTERVAL :: duration where
  "DEDUP_CLEANUP_INTERVAL = from_secs 300"

fun classify_trigger :: "trigger_event \<Rightarrow> kill_level \<times> uuid option" where
  "classify_trigger (SoulDrift a _ _ _ _ _) = (Quarantine, Some a)"
| "classify_trigger (SpendingCapExceeded a _ _ _ _) = (Pause, Some a)"
| "classify_trigger (PolicyDenialThreshold a _ _ _ _ _) = (Quarantine, Some a)"
| "classify_trigger (SandboxEscape a _ _ _) = (KillAll, Some a)"
| "classify_trigger (CredentialExfiltration a _ _ _ _) = (KillAll, Some a)"
| "classify_trigger (MultiAgentQuarantine _ _ _ _ _) = (KillAll, None)"
| "classify_trigger (MemoryHealthCritical a _ _ _ _) = (Quarantine, Some a)"
| "classify_trigger (ManualPause a _ _) = (Pause, Some a)"
| "classify_trigger (ManualQuarantine a _ _) = (Quarantine, Some a)"
| "classify_trigger (ManualKillAll _ _) = (KillAll, None)"
| "classify_trigger (NetworkEgressViolation a _ _ _ _ _) = (Quarantine, Some a)"
| "classify_trigger (DistributedKillGate _ _ _ _) = (KillAll, None)"

fun compute_dedup_key :: "trigger_event \<Rightarrow> dedup_key" where
  "compute_dedup_key (SoulDrift a _ _ _ _ _) = (''SoulDrift'', Some a)"
| "compute_dedup_key (SpendingCapExceeded a _ _ _ _) = (''SpendingCapExceeded'', Some a)"
| "compute_dedup_key (PolicyDenialThreshold a _ _ _ _ _) = (''PolicyDenialThreshold'', Some a)"
| "compute_dedup_key (SandboxEscape a _ _ _) = (''SandboxEscape'', Some a)"
| "compute_dedup_key (CredentialExfiltration a _ _ _ _) = (''CredentialExfiltration'', Some a)"
| "compute_dedup_key (MultiAgentQuarantine _ _ _ _ _) = (''MultiAgentQuarantine'', None)"
| "compute_dedup_key (MemoryHealthCritical a _ _ _ _) = (''MemoryHealthCritical'', Some a)"
| "compute_dedup_key (ManualPause a _ _) = (''ManualPause'', Some a)"
| "compute_dedup_key (ManualQuarantine a _ _) = (''ManualQuarantine'', Some a)"
| "compute_dedup_key (ManualKillAll _ _) = (''ManualKillAll'', None)"
| "compute_dedup_key (NetworkEgressViolation a _ _ _ _ _) = (''NetworkEgressViolation'', Some a)"
| "compute_dedup_key (DistributedKillGate _ _ _ _) = (''DistributedKillGate'', None)"

fun trigger_agent_id :: "trigger_event \<Rightarrow> uuid option" where
  "trigger_agent_id (SoulDrift a _ _ _ _ _) = Some a"
| "trigger_agent_id (SpendingCapExceeded a _ _ _ _) = Some a"
| "trigger_agent_id (PolicyDenialThreshold a _ _ _ _ _) = Some a"
| "trigger_agent_id (SandboxEscape a _ _ _) = Some a"
| "trigger_agent_id (MemoryHealthCritical a _ _ _ _) = Some a"
| "trigger_agent_id (ManualPause a _ _) = Some a"
| "trigger_agent_id (ManualQuarantine a _ _) = Some a"
| "trigger_agent_id (NetworkEgressViolation a _ _ _ _ _) = Some a"
| "trigger_agent_id (CredentialExfiltration a _ _ _ _) = Some a"
| "trigger_agent_id (MultiAgentQuarantine _ _ _ _ _) = None"
| "trigger_agent_id (ManualKillAll _ _) = None"
| "trigger_agent_id (DistributedKillGate _ _ _ _) = None"

fun kill_level_label :: "kill_level \<Rightarrow> string" where
  "kill_level_label Normal = ''NORMAL''"
| "kill_level_label Pause = ''PAUSE''"
| "kill_level_label Quarantine = ''QUARANTINE''"
| "kill_level_label KillAll = ''KILL_ALL''"

fun exfil_label :: "exfil_type \<Rightarrow> string" where
  "exfil_label OutsideSandbox = ''OutsideSandbox''"
| "exfil_label WrongTargetAPI = ''WrongTargetAPI''"
| "exfil_label TokenReplay = ''TokenReplay''"
| "exfil_label OutputLeakage = ''OutputLeakage''"

text \<open>\<open>fixed n\<close> renders an \<^verbatim>\<open>f64\<close> with \<open>n\<close> digits after the point (\<^verbatim>\<open>{:.n}\<close>).\<close>

fun trigger_reason :: "(nat \<Rightarrow> f64 \<Rightarrow> string) \<Rightarrow> trigger_event \<Rightarrow> string" where
  "trigger_reason fixed (PolicyDenialThreshold _ _ n _ _ _) =
     ''policy denial threshold reached ('' @ show_u32 n @ '')''"
| "trigger_reason fixed (NetworkEgressViolation _ d _ n _ _) =
     ''network egress violation for '' @ d @ '' ('' @ show_u32 n @ '')''"
| "trigger_reason fixed (SandboxEscape _ s e _) = ''sandbox escape in '' @ s @ '': '' @ e"
| "trigger_reason fixed (SoulDrift _ d _ _ _ _) = ''soul drift detected ('' @ fixed 3 d @ '')''"
| "trigger_reason fixed (SpendingCapExceeded _ t c _ _) =
     ''spending cap exceeded ('' @ fixed 2 t @ ''/'' @ fixed 2 c @ '')''"
| "trigger_reason fixed (CredentialExfiltration _ _ e c _) =
     ''credential exfiltration '' @ c @ '' via '' @ exfil_label e"
| "trigger_reason fixed (MultiAgentQuarantine _ _ c t _) =
     ''multi-agent quarantine cascade ('' @ show_nat c @ ''/'' @ show_nat t @ '')''"
| "trigger_reason fixed (MemoryHealthCritical _ h _ _ _) =
     ''memory health critical ('' @ fixed 3 h @ '')''"
| "trigger_reason fixed (DistributedKillGate _ r _ _) = r"
| "trigger_reason fixed (ManualKillAll r _) = r"
| "trigger_reason fixed (ManualPause _ r _) = r"
| "trigger_reason fixed (ManualQuarantine _ r _) = r"

subsection \<open>Processing\<close>

record auto_trigger_evaluator =
  dedup_map :: "(dedup_key, instant) btree_map"
  last_cleanup :: instant

definition evaluator_new :: "instant \<Rightarrow> auto_trigger_evaluator" where
  "evaluator_new inow = \<lparr>dedup_map = bt_new, last_cleanup = inow\<rparr>"

definition cleanup_dedup :: "instant \<Rightarrow> auto_trigger_evaluator \<Rightarrow> auto_trigger_evaluator" where
  "cleanup_dedup inow ev =
     ev\<lparr>dedup_map := bt_retain (\<lambda>_ last_seen. elapsed inow last_seen < DEDUP_WINDOW) (dedup_map ev),
        last_cleanup := inow\<rparr>"

definition quarantined_entries :: "kill_switch_state \<Rightarrow> (uuid \<times> string) list" where
  "quarantined_entries st =
     map (\<lambda>(a, s). (a, case aks_trigger s of None \<Rightarrow> [] | Some t \<Rightarrow> t))
       (filter (\<lambda>(_, s). aks_level s = Quarantine) (bt_iter (per_agent st)))"

definition cascade_trigger :: "datetime \<Rightarrow> kill_switch_state \<Rightarrow> trigger_event" where
  "cascade_trigger now st =
     (let quarantined = quarantined_entries st;
          agents = map fst quarantined;
          reasons = map snd quarantined
      in MultiAgentQuarantine agents reasons (length agents) 3 now)"

definition process ::
  "(trigger_event \<Rightarrow> string) \<Rightarrow> instant \<Rightarrow> datetime \<Rightarrow> trigger_event
     \<Rightarrow> auto_trigger_evaluator \<times> kill_switch
     \<Rightarrow> kill_level option \<times> auto_trigger_evaluator \<times> kill_switch" where
  "process fmt inow now trigger s =
     (let (ev0, ks) = s;
          ev = (if DEDUP_CLEANUP_INTERVAL < elapsed inow (last_cleanup ev0)
                then cleanup_dedup inow ev0 else ev0);
          key = compute_dedup_key trigger
      in if (case bt_get (dedup_map ev) key of None \<Rightarrow> False
             | Some last_seen \<Rightarrow> elapsed inow last_seen < DEDUP_WINDOW)
         then (None, ev, ks)
         else
           (let ev1 = ev\<lparr>dedup_map := bt_insert key inow (dedup_map ev)\<rparr>;
                (level, agent_id) = classify_trigger trigger
            in case level of
                 KillAll \<Rightarrow> (Some level, ev1, activate_kill_all fmt now ks trigger)
               | Normal \<Rightarrow> (Some level, ev1, ks)
               | _ \<Rightarrow>
                   (case agent_id of
                      None \<Rightarrow> (Some level, ev1, ks)
                    | Some aid \<Rightarrow>
                        (let ks1 = activate_agent fmt now ks aid level trigger
                         in if level = Quarantine \<and> 3 \<le> quarantined_count ks1
                            then (Some KillAll, ev1,
                                  activate_kill_all fmt now ks1
                                    (cascade_trigger now (current_state ks1)))
                            else (Some level, ev1, ks1)))))"

text \<open>
  \<open>persisted\<close> is the outcome of writing the safety state to disk. The event broadcast to the
  websocket clients, if any, is returned.
\<close>

record kill_switch_activation =
  ksa_level :: string
  ksa_agent_id :: "uuid option"
  ksa_reason :: string

definition handle_trigger_event ::
  "(trigger_event \<Rightarrow> string) \<Rightarrow> (nat \<Rightarrow> f64 \<Rightarrow> string) \<Rightarrow> instant \<Rightarrow> datetime \<Rightarrow> bool \<Rightarrow> trigger_event
     \<Rightarrow> auto_trigger_evaluator \<times> kill_switch
     \<Rightarrow> kill_switch_activation option \<times> auto_trigger_evaluator \<times> kill_switch" where
  "handle_trigger_event fmt fixed inow now persisted trigger s =
     (let previous_state = current_state (snd s);
          reason = trigger_reason fixed trigger;
          agent_id = trigger_agent_id trigger;
          (r, ev, ks) = process fmt inow now trigger s
      in case r of
           None \<Rightarrow> (None, ev, ks)
         | Some level \<Rightarrow>
             (if \<not> persisted then (None, ev, restore_state ks previous_state)
              else (Some \<lparr>ksa_level = kill_level_label level, ksa_agent_id = agent_id,
                          ksa_reason = reason\<rparr>, ev, ks)))"

text \<open>
  The task that drains the trigger channel, over the triggers received with the clocks read and
  the outcome of persisting for each of them.
\<close>

fun auto_trigger_task ::
  "(trigger_event \<Rightarrow> string) \<Rightarrow> (nat \<Rightarrow> f64 \<Rightarrow> string) \<Rightarrow> (instant \<times> datetime \<times> bool \<times> trigger_event) list
     \<Rightarrow> auto_trigger_evaluator \<times> kill_switch
     \<Rightarrow> kill_switch_activation list \<times> auto_trigger_evaluator \<times> kill_switch" where
  "auto_trigger_task fmt fixed [] s = ([], s)"
| "auto_trigger_task fmt fixed ((inow, now, persisted, trigger) # rest) s =
     (let (sent, s) = handle_trigger_event fmt fixed inow now persisted trigger s;
          (later, s) = auto_trigger_task fmt fixed rest s
      in ((case sent of None \<Rightarrow> [] | Some b \<Rightarrow> [b]) @ later, s))"

subsection \<open>Suppression\<close>

definition suppressed :: "instant \<Rightarrow> auto_trigger_evaluator \<Rightarrow> trigger_event \<Rightarrow> bool" where
  "suppressed inow ev t \<longleftrightarrow>
     (case bt_get (dedup_map ev) (compute_dedup_key t) of None \<Rightarrow> False
      | Some last_seen \<Rightarrow> elapsed inow last_seen < DEDUP_WINDOW)"

definition after_cleanup :: "instant \<Rightarrow> auto_trigger_evaluator \<Rightarrow> auto_trigger_evaluator" where
  "after_cleanup inow ev =
     (if DEDUP_CLEANUP_INTERVAL < elapsed inow (last_cleanup ev) then cleanup_dedup inow ev else ev)"

text \<open>The cleanup only drops entries that no longer suppress anything.\<close>

lemma suppressed_after_cleanup [simp]:
  "suppressed inow (after_cleanup inow ev) t = suppressed inow ev t"
  by (auto simp: suppressed_def after_cleanup_def cleanup_dedup_def split: option.splits)

text \<open>What the kill switch does with a classified trigger.\<close>

definition enforce ::
  "(trigger_event \<Rightarrow> string) \<Rightarrow> datetime \<Rightarrow> trigger_event \<Rightarrow> kill_switch \<Rightarrow> kill_level \<times> kill_switch" where
  "enforce fmt now t ks =
     (case classify_trigger t of
        (KillAll, _) \<Rightarrow> (KillAll, activate_kill_all fmt now ks t)
      | (Normal, _) \<Rightarrow> (Normal, ks)
      | (level, None) \<Rightarrow> (level, ks)
      | (level, Some aid) \<Rightarrow>
          (let ks1 = activate_agent fmt now ks aid level t
           in if level = Quarantine \<and> 3 \<le> quarantined_count ks1
              then (KillAll, activate_kill_all fmt now ks1
                     (cascade_trigger now (current_state ks1)))
              else (level, ks1)))"

lemma process_eq:
  "process fmt inow now t (ev, ks) =
     (if suppressed inow ev t then (None, after_cleanup inow ev, ks)
      else (Some (fst (enforce fmt now t ks)),
            (after_cleanup inow ev)\<lparr>dedup_map :=
               bt_insert (compute_dedup_key t) inow (dedup_map (after_cleanup inow ev))\<rparr>,
            snd (enforce fmt now t ks)))"
proof -
  have "suppressed inow ev t = suppressed inow (after_cleanup inow ev) t" by simp
  then show ?thesis
    unfolding process_def enforce_def
    by (simp add: suppressed_def after_cleanup_def [symmetric] Let_def case_prod_beta
        split: kill_level.splits option.splits prod.splits)
qed

lemma classify_cases [case_names kill_all agent]:
  assumes "\<And>a. classify_trigger t = (KillAll, a) \<Longrightarrow> P"
    and "\<And>l a. classify_trigger t = (l, Some a) \<Longrightarrow> l \<in> {Pause, Quarantine} \<Longrightarrow> P"
  shows P
  using assms by (cases t) auto

lemma trigger_agent_id_classify: "trigger_agent_id t = snd (classify_trigger t)"
  by (cases t) auto

lemma enforce_kill_all:
  "classify_trigger t = (KillAll, a) \<Longrightarrow>
     enforce fmt now t ks = (KillAll, activate_kill_all fmt now ks t)"
  by (simp add: enforce_def)

lemma enforce_agent:
  assumes "classify_trigger t = (l, Some a)" "l \<in> {Pause, Quarantine}"
  shows "enforce fmt now t ks =
    (let ks1 = activate_agent fmt now ks a l t
     in if l = Quarantine \<and> 3 \<le> quarantined_count ks1
        then (KillAll, activate_kill_all fmt now ks1 (cascade_trigger now (current_state ks1)))
        else (l, ks1))"
  using assms by (auto simp: enforce_def Let_def)

subsection \<open>The cascade\<close>

lemma quarantined_count_card:
  "quarantined_count ks = card {a. agent_level ks a = Quarantine}"
proof -
  have "{a. \<exists>s. bt_get (per_agent (ks_state ks)) a = Some s \<and> aks_level s = Quarantine} =
      {a. agent_level ks a = Quarantine}"
    by (auto simp: agent_level_def split: option.splits)
  then show ?thesis
    using bt_filter_count [of "\<lambda>a. aks_level a = Quarantine" "per_agent (ks_state ks)"]
    by (simp add: quarantined_count_def)
qed

lemma max_Pause_Quarantine: "max Pause l = Quarantine \<longleftrightarrow> l = Quarantine"
  by (cases l) (auto simp: max_def less_eq_kill_level_def)

lemma quarantined_count_activate_pause:
  "quarantined_count (activate_agent fmt now ks a Pause t) = quarantined_count ks"
proof -
  have "{b. agent_level (activate_agent fmt now ks a Pause t) b = Quarantine} =
      {b. agent_level ks b = Quarantine}"
    by (auto simp: agent_level_activate_agent max_Pause_Quarantine split: if_splits)
  then show ?thesis by (simp add: quarantined_count_card)
qed

lemma platform_down_activate_kill_all: "platform_down (activate_kill_all fmt now ks t)"
  by (auto simp: platform_down_def activate_kill_all_def activate_kill_all_inner_def log_audit_def)

lemma platform_down_activate_agent:
  "platform_down ks \<Longrightarrow> platform_down (activate_agent fmt now ks a l t)"
  using platform_down_step [of ks fmt "OpActivate now a l t"] by simp

definition cascade_ok :: "kill_switch \<Rightarrow> bool" where
  "cascade_ok ks \<longleftrightarrow> platform_down ks \<or> quarantined_count ks < 3"

lemma cascade_ok_enforce: "cascade_ok ks \<Longrightarrow> cascade_ok (snd (enforce fmt now t ks))"
proof (cases t rule: classify_cases)
  case (kill_all a)
  then show ?thesis
    by (simp add: enforce_kill_all cascade_ok_def platform_down_activate_kill_all)
next
  case (agent l a)
  assume "cascade_ok ks"
  with agent show ?thesis
    by (auto simp: enforce_agent Let_def cascade_ok_def platform_down_activate_kill_all
        platform_down_activate_agent quarantined_count_activate_pause)
qed

type_synonym trigger_input = "instant \<times> datetime \<times> trigger_event"

definition process_step ::
  "(trigger_event \<Rightarrow> string) \<Rightarrow> auto_trigger_evaluator \<times> kill_switch \<Rightarrow> trigger_input
     \<Rightarrow> auto_trigger_evaluator \<times> kill_switch" where
  "process_step fmt s i = (case i of (inow, now, t) \<Rightarrow> snd (process fmt inow now t s))"

lemma cascade_ok_process_step:
  "cascade_ok (snd s) \<Longrightarrow> cascade_ok (snd (process_step fmt s i))"
  by (cases s; cases i) (simp add: process_step_def process_eq cascade_ok_enforce)

interpretation cascade: invariant_steps "process_step fmt" "\<lambda>s. cascade_ok (snd s)" for fmt
  by unfold_locales (rule cascade_ok_process_step)

subsection \<open>Enforcement\<close>

lemma ks_wf_enforce: "ks_wf ks \<Longrightarrow> ks_wf (snd (enforce fmt now t ks))"
  by (cases t rule: classify_cases)
    (auto simp: enforce_kill_all enforce_agent Let_def
      intro: ks_wf_activate_kill_all ks_wf_activate_agent)

lemma enforce_level_agent:
  assumes "trigger_agent_id t = Some a" "\<not> platform_down (snd (enforce fmt now t ks))"
  shows "fst (enforce fmt now t ks) \<noteq> Normal \<and>
    fst (enforce fmt now t ks) \<le> agent_level (snd (enforce fmt now t ks)) a"
  using assms
proof (cases t rule: classify_cases)
  case (kill_all b)
  then show ?thesis using assms
    by (simp add: enforce_kill_all platform_down_activate_kill_all)
next
  case (agent l b)
  then have ba: "b = a" using assms(1) by (simp add: trigger_agent_id_classify)
  have "\<not> ks_poisoned ks" using assms(2) agent
    by (auto simp: enforce_agent Let_def platform_down_activate_kill_all platform_down_def
        activate_agent_def activate_kill_all_def split: if_splits)
  then have "l \<le> agent_level (activate_agent fmt now ks a l t) a"
    by (simp add: agent_level_activate_agent)
  then show ?thesis using agent assms(2) ba
    by (auto simp: enforce_agent Let_def platform_down_activate_kill_all split: if_splits)
qed

text \<open>An agent that does not pass the check of a coherent switch.\<close>

definition stopped :: "kill_switch \<Rightarrow> uuid \<Rightarrow> bool" where
  "stopped ks a \<longleftrightarrow> platform_down ks \<or> agent_level ks a \<noteq> Normal"

lemma stopped_check:
  assumes "ks_wf ks"
  shows "fst (check ks a) = Ok \<longleftrightarrow> \<not> stopped ks a"
proof (cases "platform_down ks")
  case True
  then show ?thesis using check_killed_iff [OF assms, of a] by (simp add: stopped_def)
next
  case False
  then show ?thesis using check_up [OF False assms, of a]
    by (simp add: stopped_def split: kill_level.splits)
qed

lemma enforce_stops: "trigger_agent_id t = Some a \<Longrightarrow> stopped (snd (enforce fmt now t ks)) a"
  using enforce_level_agent [of t a fmt now ks] by (auto simp: stopped_def)

lemma stopped_activate_agent: "stopped ks a \<Longrightarrow> stopped (activate_agent fmt now ks b l t) a"
  using platform_down_activate_agent [of ks fmt now b l t]
    agent_level_step_mono [of "OpActivate now b l t" ks a fmt]
  by (auto simp: stopped_def)

lemma stopped_activate_kill_all: "stopped (activate_kill_all fmt now ks t) a"
  by (simp add: stopped_def platform_down_activate_kill_all)

lemma stopped_enforce: "stopped ks a \<Longrightarrow> stopped (snd (enforce fmt now t ks)) a"
  by (cases t rule: classify_cases)
    (auto simp: enforce_kill_all enforce_agent Let_def
      intro: stopped_activate_agent stopped_activate_kill_all)

text \<open>While every change is persisted, a trigger is only suppressed for an agent already stopped.\<close>

definition dedup_enforced :: "auto_trigger_evaluator \<times> kill_switch \<Rightarrow> bool" where
  "dedup_enforced s \<longleftrightarrow> ks_wf (snd s) \<and>
     (\<forall>n a. bt_get (dedup_map (fst s)) (n, Some a) \<noteq> None \<longrightarrow> stopped (snd s) a)"

lemma dedup_key_agent: "snd (compute_dedup_key t) = trigger_agent_id t"
  by (cases t) auto

lemma after_cleanup_subset:
  "bt_get (dedup_map (after_cleanup inow ev)) k \<noteq> None \<Longrightarrow> bt_get (dedup_map ev) k \<noteq> None"
  by (auto simp: after_cleanup_def cleanup_dedup_def split: if_splits option.splits)

lemma handle_persisted:
  "snd (handle_trigger_event fmt fixed inow now True t s) = snd (process fmt inow now t s)"
  by (auto simp: handle_trigger_event_def case_prod_beta Let_def split: option.splits)

lemma process_dedup_enforced:
  assumes "dedup_enforced s"
  shows "dedup_enforced (snd (process fmt inow now t s))"
    and "trigger_agent_id t = Some a \<Longrightarrow> stopped (snd (snd (process fmt inow now t s))) a"
    and "stopped (snd s) a \<Longrightarrow> stopped (snd (snd (process fmt inow now t s))) a"
proof -
  obtain ev ks where s: "s = (ev, ks)" by (cases s)
  have known: "bt_get (dedup_map (after_cleanup inow ev)) (n, Some b) \<noteq> None \<Longrightarrow> stopped ks b" for n b
    using assms after_cleanup_subset by (fastforce simp: s dedup_enforced_def)
  have agent: "(n, Some b) = compute_dedup_key t \<Longrightarrow> trigger_agent_id t = Some b" for n b
    by (metis dedup_key_agent snd_conv)
  show "dedup_enforced (snd (process fmt inow now t s))"
    using assms known agent
    by (auto simp: s process_eq dedup_enforced_def ks_wf_enforce intro: stopped_enforce enforce_stops)
  show "stopped (snd (snd (process fmt inow now t s))) a" if trig: "trigger_agent_id t = Some a"
  proof (cases "suppressed inow ev t")
    case True
    obtain n where "compute_dedup_key t = (n, Some a)" using dedup_key_agent trig by (metis prod.collapse)
    with True assms have "stopped ks a"
      by (auto simp: suppressed_def s dedup_enforced_def split: option.splits)
    with True show ?thesis by (simp add: s process_eq)
  qed (simp add: s process_eq enforce_stops trig)
  show "stopped (snd s) a \<Longrightarrow> stopped (snd (snd (process fmt inow now t s))) a"
    by (simp add: s process_eq stopped_enforce)
qed

lemma task_stops:
  assumes "dedup_enforced s" "\<forall>(inow, now, persisted, t) \<in> set events. persisted"
  shows "ks_wf (snd (snd (auto_trigger_task fmt fixed events s)))"
    and "stopped (snd s) a \<or> (\<exists>(inow, now, persisted, t) \<in> set events. trigger_agent_id t = Some a) \<Longrightarrow>
      stopped (snd (snd (auto_trigger_task fmt fixed events s))) a"
proof -
  have "ks_wf (snd (snd (auto_trigger_task fmt fixed events s))) \<and>
    (stopped (snd s) a \<or> (\<exists>(inow, now, persisted, t) \<in> set events. trigger_agent_id t = Some a) \<longrightarrow>
      stopped (snd (snd (auto_trigger_task fmt fixed events s))) a)"
    using assms
  proof (induction events arbitrary: s)
    case Nil
    then show ?case by (simp add: dedup_enforced_def)
  next
    case (Cons x events)
    obtain inow now t where x: "x = (inow, now, True, t)" using Cons.prems(2) by (cases x) auto
    let ?s = "snd (process fmt inow now t s)"
    have rest: "snd (auto_trigger_task fmt fixed (x # events) s) = snd (auto_trigger_task fmt fixed events ?s)"
      by (simp add: x case_prod_beta Let_def handle_persisted)
    note step = process_dedup_enforced [OF Cons.prems(1), where fmt = fmt and inow = inow and now = now and t = t]
    show ?case
      unfolding rest using Cons.IH [OF step(1)] Cons.prems(2) step(2,3) [where a = a] by (auto simp: x)
  qed
  then show "ks_wf (snd (snd (auto_trigger_task fmt fixed events s)))"
    and "stopped (snd s) a \<or> (\<exists>(inow, now, persisted, t) \<in> set events. trigger_agent_id t = Some a) \<Longrightarrow>
      stopped (snd (snd (auto_trigger_task fmt fixed events s))) a" by blast+
qed

lemma dedup_enforced_new: "dedup_enforced (evaluator_new i0, kill_switch_new)"
  by (simp add: dedup_enforced_def evaluator_new_def ks_wf_new)

subsection \<open>Properties\<close>

text \<open>
  C8. The quarantine cascade: however many triggers the evaluator processes, starting from a
  fresh switch, there are never three quarantined agents while the platform is up.
\<close>

theorem quarantine_cascade:
  "let ks = snd (foldl (process_step fmt) (evaluator_new i0, kill_switch_new) inputs)
   in platform_down ks \<or> quarantined_count ks < 3"
proof -
  have "cascade_ok (snd (evaluator_new i0, kill_switch_new))"
    by (simp add: cascade_ok_def quarantined_count_card agent_level_def kill_switch_new_def
        kill_switch_state_default_def)
  then have "cascade_ok (snd (foldl (process_step fmt) (evaluator_new i0, kill_switch_new) inputs))"
    by (rule cascade.inv_run)
  then show ?thesis by (simp add: cascade_ok_def Let_def)
qed

text \<open>
  Every trigger that is not suppressed is enforced: when \<open>process\<close> reports a level, that
  level is not \<open>Normal\<close>, the agent the trigger names no longer passes the kill switch check,
  and when the level is \<open>KillAll\<close> no agent at all does.
\<close>

theorem processed_trigger_enforced:
  assumes "ks_wf ks" "process fmt inow now t (ev, ks) = (Some level, ev', ks')"
  shows "level \<noteq> Normal \<and> (\<forall>a. trigger_agent_id t = Some a \<longrightarrow> fst (check ks' a) \<noteq> Ok) \<and>
    (level = KillAll \<longrightarrow> (\<forall>a. fst (check ks' a) = PlatformKilled))"
proof -
  have ks': "ks' = snd (enforce fmt now t ks)" and l: "level = fst (enforce fmt now t ks)"
    using assms(2) by (auto simp: process_eq split: if_splits)
  have wf: "ks_wf ks'" using assms(1) ks' by (simp add: ks_wf_enforce)
  have kill: "level = KillAll \<Longrightarrow> platform_down ks'"
    unfolding ks' l by (cases t rule: classify_cases)
      (auto simp: enforce_kill_all enforce_agent Let_def platform_down_activate_kill_all
        split: if_splits)
  have agent: "fst (check ks' a) \<noteq> Ok" if "trigger_agent_id t = Some a" for a
    using stopped_check [OF wf] enforce_stops [OF that] ks' by simp
  have "level \<noteq> Normal"
    unfolding l by (cases t rule: classify_cases) (auto simp: enforce_kill_all enforce_agent Let_def)
  then show ?thesis using agent kill check_killed_iff [OF wf] by blast
qed

theorem processed_trigger_enforced_witness:
  "fst (check (snd (snd (process (\<lambda>_. []) 5 0 (ManualPause 9 ''r'' ''op'')
     (evaluator_new 0, kill_switch_new)))) 9) \<noteq> Ok"
proof -
  let ?t = "ManualPause 9 ''r'' ''op''"
  obtain l ev' ks' where p: "process (\<lambda>_. []) 5 0 ?t (evaluator_new 0, kill_switch_new)
      = (Some l, ev', ks')"
    by (simp add: process_eq suppressed_def after_cleanup_def evaluator_new_def
        DEDUP_CLEANUP_INTERVAL_def elapsed_def from_secs_def)
  show ?thesis
    using processed_trigger_enforced [OF ks_wf_new p] p by simp
qed

text \<open>
  Suppression: after a trigger was processed at \<open>t0\<close>, one with the same key changes neither
  the kill switch nor reports a level before \<open>t0\<close> + 60 s, and from then on it is processed
  again.
\<close>

theorem dedup_window:
  assumes "process fmt t0 now0 t (ev, ks) = (Some level, ev', ks')"
    and "compute_dedup_key t' = compute_dedup_key t" and "t0 \<le> t1"
  shows "if t1 - t0 < DEDUP_WINDOW
    then fst (process fmt t1 now1 t' (ev', ks1)) = None \<and>
         snd (snd (process fmt t1 now1 t' (ev', ks1))) = ks1
    else fst (process fmt t1 now1 t' (ev', ks1)) \<noteq> None"
proof -
  have "bt_get (dedup_map ev') (compute_dedup_key t) = Some t0"
    using assms(1) by (auto simp: process_eq split: if_splits)
  then have "suppressed t1 ev' t' \<longleftrightarrow> t1 - t0 < DEDUP_WINDOW"
    using assms(2) by (simp add: suppressed_def elapsed_def)
  then show ?thesis by (simp add: process_eq)
qed

theorem dedup_window_witness:
  "fst (process (\<lambda>_. []) (from_secs 30) 0 (ManualPause 9 [] [])
     (snd (process (\<lambda>_. []) 5 0 (ManualPause 9 [] []) (evaluator_new 0, kill_switch_new)))) = None"
proof -
  let ?t = "ManualPause 9 [] []"
  obtain l ev' ks' where p: "process (\<lambda>_. []) 5 0 ?t (evaluator_new 0, kill_switch_new)
      = (Some l, ev', ks')"
    by (simp add: process_eq suppressed_def after_cleanup_def evaluator_new_def
        DEDUP_CLEANUP_INTERVAL_def elapsed_def from_secs_def)
  show ?thesis
    using dedup_window [OF p refl, of "from_secs 30" 0 ks'] p
    by (simp add: DEDUP_WINDOW_def from_secs_def)
qed

text \<open>
  A trigger whose effect is rolled back stays suppressed: when the safety state cannot be
  persisted, \<open>handle_trigger_event\<close> restores the previous kill switch state but keeps the
  suppression entry, so that the same trigger, raised again within 60 s and with persistence
  working, leaves the kill switch state as it was before the first attempt.
\<close>

theorem rolled_back_trigger_suppressed:
  assumes "\<not> suppressed t0 ev t" "t0 \<le> t1" "t1 - t0 < DEDUP_WINDOW"
    and "handle_trigger_event fmt fixed t0 now0 False t (ev, ks) = (b1, ev1, ks1)"
    and "handle_trigger_event fmt fixed t1 now1 True t (ev1, ks1) = (b2, ev2, ks2)"
  shows "b1 = None \<and> b2 = None \<and> current_state ks2 = current_state ks"
proof -
  have ev1: "bt_get (dedup_map ev1) (compute_dedup_key t) = Some t0"
    and ks1: "ks1 = restore_state (snd (enforce fmt now0 t ks)) (current_state ks)"
    and b1: "b1 = None"
    using assms(1,4) by (auto simp: handle_trigger_event_def process_eq)
  have "suppressed t1 ev1 t" using ev1 assms(2,3) by (simp add: suppressed_def elapsed_def)
  then have "b2 = None" "ks2 = ks1"
    using assms(5) by (auto simp: handle_trigger_event_def process_eq)
  then show ?thesis using b1 ks1 by (simp add: current_state_def restore_state_def)
qed

theorem rolled_back_trigger_suppressed_witness:
  "\<exists>b1 ev1 ks1 b2 ev2 ks2.
     handle_trigger_event (\<lambda>_. []) (\<lambda>_ _. []) 0 0 False (ManualKillAll ''stop'' ''op'')
       (evaluator_new 0, kill_switch_new) = (b1, ev1, ks1) \<and>
     handle_trigger_event (\<lambda>_. []) (\<lambda>_ _. []) 1 1 True (ManualKillAll ''stop'' ''op'')
       (ev1, ks1) = (b2, ev2, ks2) \<and>
     current_state ks2 = current_state kill_switch_new"
proof -
  let ?t = "ManualKillAll ''stop'' ''op''"
  obtain b1 ev1 ks1 where 1: "handle_trigger_event (\<lambda>_. []) (\<lambda>_ _. []) 0 0 False ?t
      (evaluator_new 0, kill_switch_new) = (b1, ev1, ks1)" by (meson prod_cases3)
  obtain b2 ev2 ks2 where 2: "handle_trigger_event (\<lambda>_. []) (\<lambda>_ _. []) 1 1 True ?t (ev1, ks1) =
      (b2, ev2, ks2)" by (meson prod_cases3)
  have "\<not> suppressed 0 (evaluator_new 0) ?t" by (simp add: suppressed_def evaluator_new_def)
  from rolled_back_trigger_suppressed [OF this _ _ 1 2] 1 2 show ?thesis
    by (auto simp: DEDUP_WINDOW_def from_secs_def)
qed

end
