(* ===== verification/Hash_Log.thy ===== *)
theory Hash_Log
  imports Prelude
begin

section \<open>Hash-linked logs\<close>

text \<open>
  The two tamper-evident logs of the system, the gate event chain and the memory event chain,
  have the same shape: every entry stores the hash of its predecessor and its own hash, which
  is recomputable from its fields. This theory defines when such a log is linked and proves,
  for any such log, that appending keeps it linked and that its head hash commits to the
  whole history. The hash function itself is code outside the repository (\<^verbatim>\<open>blake3\<close>) and a
  parameter of everything that uses it.
\<close>

type_synonym byte_seq = "u8 list"

text \<open>
  A \<^verbatim>\<open>[u8; 32]\<close> is a 256-bit word; \<open>hash_bytes\<close> lists its bytes, the most significant first,
  and loses nothing.
\<close>

type_synonym hash32 = "256 word"

definition hash_bytes :: "hash32 \<Rightarrow> byte_seq" where
  "hash_bytes h = map (\<lambda>i. ucast (drop_bit (8 * (31 - i)) h)) [0..<32]"

lemma length_hash_bytes [simp]: "length (hash_bytes h) = 32"
  by (simp add: hash_bytes_def)

lemma hash_bytes_inject [simp]: "hash_bytes h = hash_bytes h' \<longleftrightarrow> h = h'"
proof
  assume eq: "hash_bytes h = hash_bytes h'"
  show "h = h'"
  proof (rule bit_eqI)
    fix n
    assume "possible_bit TYPE(hash32) n"
    then have n: "n < 256" by simp
    let ?i = "31 - n div 8"
    have i: "?i < 32" "8 * (31 - ?i) + n mod 8 = n" using n by auto
    have "hash_bytes h ! ?i = hash_bytes h' ! ?i" using eq by simp
    then have "(ucast (drop_bit (8 * (31 - ?i)) h) :: u8) = ucast (drop_bit (8 * (31 - ?i)) h')"
      using i by (simp add: hash_bytes_def)
    then have "bit (ucast (drop_bit (8 * (31 - ?i)) h) :: u8) (n mod 8) =
        bit (ucast (drop_bit (8 * (31 - ?i)) h') :: u8) (n mod 8)" by simp
    then show "bit h n = bit h' n"
      using i(2) by (simp add: bit_ucast_iff bit_drop_bit_eq)
  qed
qed simp

lemma append_hash_bytes_inject:
  "xs @ hash_bytes h = ys @ hash_bytes h' \<longleftrightarrow> xs = ys \<and> h = h'"
  by (simp add: append_eq_append_conv)

text \<open>A Rust string's bytes; \<open>char\<close> is a byte of its UTF-8 encoding.\<close>

definition as_bytes :: "string \<Rightarrow> byte_seq" where
  "as_bytes s = map (\<lambda>c. word_of_nat (of_char c)) s"

lemma as_bytes_append [simp]: "as_bytes (s @ t) = as_bytes s @ as_bytes t"
  by (simp add: as_bytes_def)

lemma as_bytes_inject [simp]: "as_bytes s = as_bytes t \<longleftrightarrow> s = t"
  unfolding as_bytes_def by (rule inj_map_eq_map) (simp add: inj_def byte_inject)

lemma byte_in_as_bytes: "word_of_nat (of_char c) \<in> set (as_bytes s) \<longleftrightarrow> c \<in> set s"
  by (auto simp: as_bytes_def byte_inject)

definition GENESIS_HASH :: hash32 where
  "GENESIS_HASH = 0"

fun linked :: "('e \<Rightarrow> 'h) \<Rightarrow> ('e \<Rightarrow> 'h) \<Rightarrow> ('e \<Rightarrow> 'h) \<Rightarrow> 'h \<Rightarrow> 'e list \<Rightarrow> bool" where
  "linked prev_of hash_of recompute p [] \<longleftrightarrow> True"
| "linked prev_of hash_of recompute p (e # es) \<longleftrightarrow>
     prev_of e = p \<and> recompute e = hash_of e \<and> linked prev_of hash_of recompute (hash_of e) es"

definition head_hash :: "('e \<Rightarrow> 'h) \<Rightarrow> 'h \<Rightarrow> 'e list \<Rightarrow> 'h" where
  "head_hash hash_of p es = (if es = [] then p else hash_of (last es))"

lemma head_hash_simps [simp]:
  "head_hash hash_of p [] = p"
  "head_hash hash_of p (es @ [e]) = hash_of e"
  "head_hash hash_of p (e # es) = head_hash hash_of (hash_of e) es"
  by (auto simp: head_hash_def)

lemma linked_append:
  "linked prev_of hash_of recompute p (es @ fs) \<longleftrightarrow>
     linked prev_of hash_of recompute p es \<and>
     linked prev_of hash_of recompute (head_hash hash_of p es) fs"
  by (induction es arbitrary: p) auto

text \<open>
  The interface of a log: how an entry names its predecessor and itself, and the bytes its own
  hash is computed over.
\<close>

locale hash_log =
  fixes prev_of :: "'e \<Rightarrow> 'h" and hash_of :: "'e \<Rightarrow> 'h" and recompute :: "'e \<Rightarrow> 'h"
    and preimage :: "'e \<Rightarrow> 'b" and digest :: "'b \<Rightarrow> 'h"
  assumes recompute_digest: "recompute e = digest (preimage e)"
    and preimage_prev: "preimage e = preimage e' \<Longrightarrow> prev_of e = prev_of e'"
begin

abbreviation chain_ok :: "'h \<Rightarrow> 'e list \<Rightarrow> bool" where
  "chain_ok \<equiv> linked prev_of hash_of recompute"

lemma chain_ok_snoc:
  assumes "chain_ok p es" "prev_of e = head_hash hash_of p es" "recompute e = hash_of e"
  shows "chain_ok p (es @ [e])"
  using assms by (simp add: linked_append)

text \<open>
  The head hash commits to the history: two linked logs with the same head record the same
  preimages, if the digest does not collide on the preimages in them and does not produce the
  genesis value.
\<close>

lemma head_commits:
  assumes "chain_ok p es" "chain_ok p fs"
    and "head_hash hash_of p es = head_hash hash_of p fs"
    and "inj_on digest (preimage ` (set es \<union> set fs))"
    and "p \<notin> digest ` preimage ` (set es \<union> set fs)"
  shows "map preimage es = map preimage fs"
  using assms
proof (induction es arbitrary: fs rule: rev_induct)
  case Nil
  then show ?case
  proof (cases fs rule: rev_cases)
    case (snoc gs f)
    then have "digest (preimage f) = p"
      using Nil.prems(2,3) by (simp add: linked_append recompute_digest)
    then show ?thesis using Nil.prems(5) snoc by force
  qed simp
next
  case (snoc e es)
  show ?case
  proof (cases fs rule: rev_cases)
    case Nil
    then have "digest (preimage e) = p"
      using snoc.prems(1,3) by (simp add: linked_append recompute_digest)
    then show ?thesis using snoc.prems(5) by force
  next
    case (snoc gs f)
    note fs = this
    have "digest (preimage e) = digest (preimage f)"
      using snoc.prems(1-3) fs by (simp add: linked_append recompute_digest)
    then have ef: "preimage e = preimage f"
      by (rule inj_onD [OF snoc.prems(4)]) (use fs in auto)
    have "map preimage es = map preimage gs"
    proof (rule snoc.IH)
      show "chain_ok p es" "chain_ok p gs"
        using snoc.prems(1,2) fs by (simp_all add: linked_append)
      show "head_hash hash_of p es = head_hash hash_of p gs"
        using snoc.prems(1,2) fs preimage_prev [OF ef] by (simp add: linked_append)
      show "inj_on digest (preimage ` (set es \<union> set gs))"
        using snoc.prems(4) fs by (elim inj_on_subset) auto
      show "p \<notin> digest ` preimage ` (set es \<union> set gs)"
        using snoc.prems(5) fs by auto
    qed
    then show ?thesis using ef fs by simp
  qed
qed

end

end
