(* ===== verification/Gate_Chain.thy ===== *)
theory Gate_Chain
  imports Hash_Log
begin

section \<open>The gate event chain\<close>

text \<open>
  \<^verbatim>\<open>ghost-kill-gates/src/chain.rs\<close>: the events a kill gate logs and the hash of an event. The
  code the hash and the payloads depend on but which is not part of the repository is
  collected in \<open>gate_env\<close>: the \<^verbatim>\<open>blake3\<close> hash, the RFC 3339 rendering of a timestamp, the
  display of a UUID and the three JSON payloads that \<^verbatim>\<open>serde_json\<close> renders. Nothing is
  assumed about any of them.
\<close>

datatype gate_event_type =
  EvClose | EvPropagate | EvAck | EvResumeVote | EvResumeConfirmed | EvPartitionDetected | EvRejoin

fun debug_event_type :: "gate_event_type \<Rightarrow> string" where
  "debug_event_type EvClose = ''Close''"
| "debug_event_type EvPropagate = ''Propagate''"
| "debug_event_type EvAck = ''Ack''"
| "debug_event_type EvResumeVote = ''ResumeVote''"
| "debug_event_type EvResumeConfirmed = ''ResumeConfirmed''"
| "debug_event_type EvPartitionDetected = ''PartitionDetected''"
| "debug_event_type EvRejoin = ''Rejoin''"

record gate_chain_event =
  ge_event_type :: gate_event_type
  ge_node_id :: uuid
  ge_timestamp :: datetime
  ge_payload_json :: string
  ge_event_hash :: hash32
  ge_previous_hash :: hash32

record gate_env =
  env_blake3 :: "byte_seq \<Rightarrow> hash32"
  env_rfc3339 :: "datetime \<Rightarrow> string"
  env_uuid_display :: "uuid \<Rightarrow> string"
  env_reason_json :: "string \<Rightarrow> string"
  env_peer_json :: "string \<Rightarrow> string"
  env_votes_json :: "nat \<Rightarrow> nat \<Rightarrow> string"

text \<open>The 16 bytes of a UUID, the most significant first.\<close>

definition uuid_bytes :: "uuid \<Rightarrow> byte_seq" where
  "uuid_bytes u = map (\<lambda>i. ucast (drop_bit (8 * (15 - i)) u)) [0..<16]"

definition gate_preimage ::
  "gate_env \<Rightarrow> gate_event_type \<Rightarrow> uuid \<Rightarrow> datetime \<Rightarrow> string \<Rightarrow> hash32 \<Rightarrow> byte_seq" where
  "gate_preimage env et node ts payload prev =
     as_bytes (debug_event_type et) @ as_bytes ''|'' @ uuid_bytes node @ as_bytes ''|'' @
     as_bytes (env_rfc3339 env ts) @ as_bytes ''|'' @ as_bytes payload @ as_bytes ''|'' @
     hash_bytes prev"

definition compute_gate_event_hash ::
  "gate_env \<Rightarrow> gate_event_type \<Rightarrow> uuid \<Rightarrow> datetime \<Rightarrow> string \<Rightarrow> hash32 \<Rightarrow> hash32" where
  "compute_gate_event_hash env et node ts payload prev =
     env_blake3 env (gate_preimage env et node ts payload prev)"

abbreviation gate_event_preimage :: "gate_env \<Rightarrow> gate_chain_event \<Rightarrow> byte_seq" where
  "gate_event_preimage env e \<equiv> gate_preimage env (ge_event_type e) (ge_node_id e)
     (ge_timestamp e) (ge_payload_json e) (ge_previous_hash e)"

definition recompute_gate_hash :: "gate_env \<Rightarrow> gate_chain_event \<Rightarrow> hash32" where
  "recompute_gate_hash env e =
     compute_gate_event_hash env (ge_event_type e) (ge_node_id e) (ge_timestamp e)
       (ge_payload_json e) (ge_previous_hash e)"

lemma gate_preimage_prev:
  assumes "gate_preimage env et n t pl p = gate_preimage env et' n' t' pl' p'"
  shows "p = p'"
proof -
  let ?body = "\<lambda>et n t pl. as_bytes (debug_event_type et) @ as_bytes ''|'' @ uuid_bytes n @
    as_bytes ''|'' @ as_bytes (env_rfc3339 env t) @ as_bytes ''|'' @ as_bytes pl @ as_bytes ''|''"
  have "?body et n t pl @ hash_bytes p = ?body et' n' t' pl' @ hash_bytes p'"
    using assms by (simp add: gate_preimage_def)
  then show ?thesis by (rule append_hash_bytes_inject [THEN iffD1, THEN conjunct2])
qed

interpretation gate_log: hash_log ge_previous_hash ge_event_hash "recompute_gate_hash env"
  "gate_event_preimage env" "env_blake3 env" for env
  by unfold_locales
    (auto simp: recompute_gate_hash_def compute_gate_event_hash_def dest: gate_preimage_prev)

end
