(* ===== verification/Quorum.thy ===== *)
theory Quorum
  imports Prelude "HOL-Library.FSet"
begin

section \<open>Resume votes and quorum sizes\<close>

text \<open>
  \<^verbatim>\<open>ghost-kill-gates/src/quorum.rs\<close> and \<^verbatim>\<open>config.rs\<close>: the tracker that counts distinct voters
  and the quorum that a cluster of a given size needs. The \<^verbatim>\<open>BTreeSet\<close> of voters is a finite
  set; only membership and size are observed.
\<close>

record resume_vote =
  rv_node_id :: uuid
  rv_reason :: string
  rv_initiated_by :: string
  rv_voted_at :: datetime

record quorum_tracker =
  qt_required :: nat
  qt_votes :: "uuid fset"
  qt_vote_log :: "resume_vote list"

definition quorum_tracker_new :: "nat \<Rightarrow> quorum_tracker" where
  "quorum_tracker_new required_votes =
     \<lparr>qt_required = max required_votes 1, qt_votes = {||}, qt_vote_log = []\<rparr>"

definition has_quorum :: "quorum_tracker \<Rightarrow> bool" where
  "has_quorum t \<longleftrightarrow> fcard (qt_votes t) \<ge> qt_required t"

definition cast_vote :: "resume_vote \<Rightarrow> quorum_tracker \<Rightarrow> bool \<times> quorum_tracker" where
  "cast_vote vote t =
     (let t = t\<lparr>qt_votes := finsert (rv_node_id vote) (qt_votes t)\<rparr>;
          t = t\<lparr>qt_vote_log := qt_vote_log t @ [vote]\<rparr>
      in (has_quorum t, t))"

definition vote_count :: "quorum_tracker \<Rightarrow> nat" where
  "vote_count t = fcard (qt_votes t)"

definition reset_votes :: "quorum_tracker \<Rightarrow> quorum_tracker" where
  "reset_votes t = t\<lparr>qt_votes := {||}, qt_vote_log := []\<rparr>"

record kill_gate_config =
  cfg_enabled :: bool
  cfg_max_propagation :: duration
  cfg_quorum_size :: "nat option"
  cfg_heartbeat_interval :: duration
  cfg_partition_timeout :: duration
  cfg_chain_verify_on_sync :: bool
  cfg_authenticated_cluster_membership :: bool

definition kill_gate_config_default :: kill_gate_config where
  "kill_gate_config_default =
     \<lparr>cfg_enabled = True, cfg_max_propagation = from_millis 500, cfg_quorum_size = None,
      cfg_heartbeat_interval = from_millis 1000, cfg_partition_timeout = from_millis 3000,
      cfg_chain_verify_on_sync = True, cfg_authenticated_cluster_membership = False\<rparr>"

definition effective_quorum :: "kill_gate_config \<Rightarrow> nat \<Rightarrow> nat" where
  "effective_quorum cfg cluster_size =
     (case cfg_quorum_size cfg of
        Some q \<Rightarrow> max (min q cluster_size) 1
      | None \<Rightarrow> if cluster_size = 0 then 1 else cluster_size div 2 + 1)"

subsection \<open>Lemmas\<close>

lemma effective_quorum_pos [simp]: "0 < effective_quorum cfg n"
  by (auto simp: effective_quorum_def max_def split: option.split)

lemma effective_quorum_le: "0 < n \<Longrightarrow> effective_quorum cfg n \<le> n"
  by (auto simp: effective_quorum_def split: option.split)

lemma cast_vote_simps [simp]:
  "fst (cast_vote v t) = (fcard (finsert (rv_node_id v) (qt_votes t)) \<ge> qt_required t)"
  "qt_votes (snd (cast_vote v t)) = finsert (rv_node_id v) (qt_votes t)"
  "qt_required (snd (cast_vote v t)) = qt_required t"
  "qt_vote_log (snd (cast_vote v t)) = qt_vote_log t @ [v]"
  by (simp_all add: cast_vote_def has_quorum_def Let_def)

lemma quorum_tracker_new_simps [simp]:
  "qt_required (quorum_tracker_new n) = max n 1" "qt_votes (quorum_tracker_new n) = {||}"
  "qt_vote_log (quorum_tracker_new n) = []"
  by (simp_all add: quorum_tracker_new_def)

lemma majorities_meet:
  assumes "finite M" "A \<subseteq> M" "B \<subseteq> M" "card M < card A + card B"
  shows "A \<inter> B \<noteq> {}"
proof
  assume "A \<inter> B = {}"
  then have "card (A \<union> B) = card A + card B"
    using assms finite_subset by (intro card_Un_disjoint) blast+
  moreover have "card (A \<union> B) \<le> card M" using assms by (intro card_mono) auto
  ultimately show False using assms(4) by simp
qed

subsection \<open>Properties\<close>

text \<open>
  Quorum intersection: with the automatic quorum size, any two sets of voters that each
  reach the quorum of the same non-empty cluster share a node, and the whole cluster always
  suffices for a quorum; so two sides of a partition cannot both reopen the gate.
\<close>

theorem quorum_intersection:
  assumes "cfg_quorum_size cfg = None" "finite members" "members \<noteq> {}"
    and "A \<subseteq> members" "B \<subseteq> members"
    and "effective_quorum cfg (card members) \<le> card A"
    and "effective_quorum cfg (card members) \<le> card B"
  shows "A \<inter> B \<noteq> {} \<and> effective_quorum cfg (card members) \<le> card members"
proof -
  have "0 < card members" using assms(2,3) by (simp add: card_gt_0_iff)
  then have "card members < card A + card B"
    using assms(1,6,7) by (simp add: effective_quorum_def)
  from majorities_meet [OF assms(2,4,5) this] effective_quorum_le [OF \<open>0 < card members\<close>]
  show ?thesis by simp
qed

theorem quorum_intersection_witness:
  "{1, 2} \<inter> {2, 3 :: uuid} \<noteq> {} \<and>
   effective_quorum kill_gate_config_default (card {1, 2, 3 :: uuid}) \<le> card {1, 2, 3 :: uuid}"
  by (rule quorum_intersection)
    (simp_all add: kill_gate_config_default_def effective_quorum_def)

end
