(* ===== verification/Kill_Gate.thy ===== *)
theory Kill_Gate
  imports Gate_Chain Quorum "HOL-Library.Sublist"
begin

section \<open>The distributed kill gate\<close>

text \<open>
  \<^verbatim>\<open>ghost-kill-gates/src/gate.rs\<close>. The gate's atomic state byte and the fields behind its lock
  are one record. Every operation but the time-out check recovers from a poisoned lock, so
  \<open>kg_poisoned\<close> matters only there. The operations take the readings of the two clocks they
  use as arguments.
\<close>

datatype gate_state = Normal | GateClosed | Propagating | Confirmed | QuorumResume

definition STATE_NORMAL :: u8 where "STATE_NORMAL = 0"
definition STATE_GATE_CLOSED :: u8 where "STATE_GATE_CLOSED = 1"
definition STATE_PROPAGATING :: u8 where "STATE_PROPAGATING = 2"
definition STATE_CONFIRMED :: u8 where "STATE_CONFIRMED = 3"
definition STATE_QUORUM_RESUME :: u8 where "STATE_QUORUM_RESUME = 4"

lemmas state_bytes = STATE_NORMAL_def STATE_GATE_CLOSED_def STATE_PROPAGATING_def
  STATE_CONFIRMED_def STATE_QUORUM_RESUME_def

definition gate_state_from_u8 :: "u8 \<Rightarrow> gate_state" where
  "gate_state_from_u8 v =
     (if v = STATE_NORMAL then Normal
      else if v = STATE_GATE_CLOSED then GateClosed
      else if v = STATE_PROPAGATING then Propagating
      else if v = STATE_CONFIRMED then Confirmed
      else if v = STATE_QUORUM_RESUME then QuorumResume
      else GateClosed)"

fun gate_state_to_u8 :: "gate_state \<Rightarrow> u8" where
  "gate_state_to_u8 Normal = STATE_NORMAL"
| "gate_state_to_u8 GateClosed = STATE_GATE_CLOSED"
| "gate_state_to_u8 Propagating = STATE_PROPAGATING"
| "gate_state_to_u8 Confirmed = STATE_CONFIRMED"
| "gate_state_to_u8 QuorumResume = STATE_QUORUM_RESUME"

record gate_snapshot =
  gs_state :: gate_state
  gs_node_id :: uuid
  gs_closed_at :: "datetime option"
  gs_close_reason :: "string option"
  gs_acked_nodes :: "uuid list"
  gs_chain_length :: nat

record persisted_gate_state =
  pg_node_id :: uuid
  pg_state :: gate_state
  pg_closed_at :: "datetime option"
  pg_close_reason :: "string option"
  pg_propagation_started_at :: "datetime option"
  pg_acked_nodes :: "uuid list"
  pg_chain :: "gate_chain_event list"
  pg_quorum_tracker :: "quorum_tracker option"

record kill_gate =
  kg_node_id :: uuid
  kg_state :: u8
  kg_config :: kill_gate_config
  kg_poisoned :: bool
  kg_closed_at :: "datetime option"
  kg_close_reason :: "string option"
  kg_propagation_start :: "instant option"
  kg_acked_nodes :: "uuid list"
  kg_chain :: "gate_chain_event list"
  kg_quorum_tracker :: "quorum_tracker option"

definition kill_gate_new :: "uuid \<Rightarrow> kill_gate_config \<Rightarrow> kill_gate" where
  "kill_gate_new node_id cfg =
     \<lparr>kg_node_id = node_id, kg_state = STATE_NORMAL, kg_config = cfg, kg_poisoned = False,
      kg_closed_at = None, kg_close_reason = None, kg_propagation_start = None,
      kg_acked_nodes = [], kg_chain = [], kg_quorum_tracker = None\<rparr>"

text \<open>
  Conversions between the wall clock and the monotonic clock. \<^verbatim>\<open>to_std\<close> of a negative
  difference fails and is read as zero, and so is a duration that exceeds chrono's range of
  \<^verbatim>\<open>i64::MAX\<close> milliseconds; an instant before the clock's origin cannot be represented.
\<close>

definition CHRONO_MAX :: nat where
  "CHRONO_MAX = (2 ^ 63 - 1) * 1000000"

definition instant_from_timestamp ::
  "datetime \<Rightarrow> instant \<Rightarrow> datetime option \<Rightarrow> instant option" where
  "instant_from_timestamp utc_now inst_now timestamp =
     (case timestamp of None \<Rightarrow> None
      | Some started_at \<Rightarrow>
          (let el = (if utc_now - started_at < 0 then 0 else nat (utc_now - started_at)) in
           Some (if el \<le> inst_now then inst_now - el else inst_now)))"

definition timestamp_from_instant ::
  "datetime \<Rightarrow> instant \<Rightarrow> instant option \<Rightarrow> datetime option" where
  "timestamp_from_instant utc_now inst_now start =
     (case start of None \<Rightarrow> None
      | Some started_at \<Rightarrow>
          (let el = elapsed inst_now started_at in
           Some (utc_now - (if el \<le> CHRONO_MAX then int el else 0))))"

definition gate_from_persisted_state ::
  "datetime \<Rightarrow> instant \<Rightarrow> kill_gate_config \<Rightarrow> persisted_gate_state \<Rightarrow> kill_gate" where
  "gate_from_persisted_state utc_now inst_now cfg p =
     \<lparr>kg_node_id = pg_node_id p, kg_state = gate_state_to_u8 (pg_state p), kg_config = cfg,
      kg_poisoned = False, kg_closed_at = pg_closed_at p, kg_close_reason = pg_close_reason p,
      kg_propagation_start =
        instant_from_timestamp utc_now inst_now (pg_propagation_started_at p),
      kg_acked_nodes = pg_acked_nodes p, kg_chain = pg_chain p,
      kg_quorum_tracker = pg_quorum_tracker p\<rparr>"

definition is_closed :: "kill_gate \<Rightarrow> bool" where
  "is_closed g \<longleftrightarrow> kg_state g \<noteq> STATE_NORMAL"

definition gate_state_of :: "kill_gate \<Rightarrow> gate_state" where
  "gate_state_of g = gate_state_from_u8 (kg_state g)"

definition resume_permitted :: "kill_gate \<Rightarrow> bool" where
  "resume_permitted g \<longleftrightarrow> cfg_authenticated_cluster_membership (kg_config g)"

text \<open>The block that \<^verbatim>\<open>close\<close>, \<^verbatim>\<open>record_ack\<close> and \<^verbatim>\<open>cast_resume_vote\<close> share: build the next
  event of the chain over the last event's hash and push it.\<close>

definition gate_event ::
  "gate_env \<Rightarrow> kill_gate \<Rightarrow> gate_event_type \<Rightarrow> datetime \<Rightarrow> string \<Rightarrow> gate_chain_event" where
  "gate_event env g et now payload =
     (let previous_hash =
            (if kg_chain g = [] then GENESIS_HASH else ge_event_hash (last (kg_chain g)))
      in \<lparr>ge_event_type = et, ge_node_id = kg_node_id g, ge_timestamp = now,
          ge_payload_json = payload,
          ge_event_hash = compute_gate_event_hash env et (kg_node_id g) now payload previous_hash,
          ge_previous_hash = previous_hash\<rparr>)"

definition push_event ::
  "gate_env \<Rightarrow> kill_gate \<Rightarrow> gate_event_type \<Rightarrow> datetime \<Rightarrow> string \<Rightarrow> kill_gate" where
  "push_event env g et now payload =
     g\<lparr>kg_chain := kg_chain g @ [gate_event env g et now payload]\<rparr>"

definition close :: "gate_env \<Rightarrow> datetime \<Rightarrow> instant \<Rightarrow> string \<Rightarrow> kill_gate \<Rightarrow>
    gate_chain_event \<times> kill_gate" where
  "close env now inst_now reason g =
     (let g = g\<lparr>kg_state := STATE_GATE_CLOSED, kg_closed_at := Some now,
            kg_close_reason := Some reason, kg_propagation_start := Some inst_now,
            kg_acked_nodes := []\<rparr>;
          payload = env_reason_json env reason
      in (gate_event env g EvClose now payload, push_event env g EvClose now payload))"

definition begin_propagation :: "kill_gate \<Rightarrow> kill_gate" where
  "begin_propagation g =
     (if kg_state g = STATE_GATE_CLOSED then g\<lparr>kg_state := STATE_PROPAGATING\<rparr> else g)"

definition record_ack ::
  "gate_env \<Rightarrow> datetime \<Rightarrow> uuid \<Rightarrow> nat \<Rightarrow> kill_gate \<Rightarrow> bool \<times> kill_gate" where
  "record_ack env now peer cluster_size g =
     (let g = (if peer \<notin> set (kg_acked_nodes g)
               then g\<lparr>kg_acked_nodes := kg_acked_nodes g @ [peer]\<rparr> else g);
          g = push_event env g EvAck now (env_peer_json env (env_uuid_display env peer));
          all_acked = (length (kg_acked_nodes g) \<ge> cluster_size - 1)
      in (all_acked, if all_acked then g\<lparr>kg_state := STATE_CONFIRMED\<rparr> else g))"

definition is_propagation_timed_out :: "instant \<Rightarrow> kill_gate \<Rightarrow> bool" where
  "is_propagation_timed_out now g =
     (if kg_poisoned g then True
      else case kg_propagation_start g of
             Some start \<Rightarrow> elapsed now start > cfg_max_propagation (kg_config g)
           | None \<Rightarrow> False)"

definition ensure_tracker :: "nat \<Rightarrow> kill_gate \<Rightarrow> quorum_tracker \<times> kill_gate" where
  "ensure_tracker cluster_size g =
     (case kg_quorum_tracker g of
        Some t \<Rightarrow> (t, g)
      | None \<Rightarrow>
          (let t = quorum_tracker_new (effective_quorum (kg_config g) cluster_size)
           in (t, g\<lparr>kg_quorum_tracker := Some t, kg_state := STATE_QUORUM_RESUME\<rparr>)))"

definition cast_resume_vote ::
  "gate_env \<Rightarrow> datetime \<Rightarrow> resume_vote \<Rightarrow> nat \<Rightarrow> kill_gate \<Rightarrow> bool \<times> kill_gate" where
  "cast_resume_vote env now vote cluster_size g =
     (if \<not> resume_permitted g then (False, g)
      else if kg_state g = STATE_NORMAL then (True, g)
      else
        let (tracker, g) = ensure_tracker cluster_size g;
            (quorum_reached, tracker) = cast_vote vote tracker;
            g = g\<lparr>kg_quorum_tracker := Some tracker\<rparr>
        in if quorum_reached then
             (let g = g\<lparr>kg_state := STATE_NORMAL, kg_closed_at := None, kg_close_reason := None,
                    kg_propagation_start := None, kg_acked_nodes := []\<rparr>;
                  g = push_event env g EvResumeConfirmed now
                        (env_votes_json env (vote_count tracker) (qt_required tracker))
              in (True, g\<lparr>kg_quorum_tracker := None\<rparr>))
           else (False, g))"

definition gate_snapshot_of :: "kill_gate \<Rightarrow> gate_snapshot" where
  "gate_snapshot_of g =
     \<lparr>gs_state = gate_state_of g, gs_node_id = kg_node_id g, gs_closed_at = kg_closed_at g,
      gs_close_reason = kg_close_reason g, gs_acked_nodes = kg_acked_nodes g,
      gs_chain_length = length (kg_chain g)\<rparr>"

definition persisted_state :: "datetime \<Rightarrow> instant \<Rightarrow> kill_gate \<Rightarrow> persisted_gate_state" where
  "persisted_state utc_now inst_now g =
     \<lparr>pg_node_id = kg_node_id g, pg_state = gate_state_of g, pg_closed_at = kg_closed_at g,
      pg_close_reason = kg_close_reason g,
      pg_propagation_started_at =
        timestamp_from_instant utc_now inst_now (kg_propagation_start g),
      pg_acked_nodes = kg_acked_nodes g, pg_chain = kg_chain g,
      pg_quorum_tracker = kg_quorum_tracker g\<rparr>"

definition restore_persisted_state ::
  "datetime \<Rightarrow> instant \<Rightarrow> persisted_gate_state \<Rightarrow> kill_gate \<Rightarrow> kill_gate" where
  "restore_persisted_state utc_now inst_now p g =
     g\<lparr>kg_state := gate_state_to_u8 (pg_state p), kg_closed_at := pg_closed_at p,
       kg_close_reason := pg_close_reason p,
       kg_propagation_start :=
         instant_from_timestamp utc_now inst_now (pg_propagation_started_at p),
       kg_acked_nodes := pg_acked_nodes p, kg_chain := pg_chain p,
       kg_quorum_tracker := pg_quorum_tracker p\<rparr>"

subsection \<open>The gate as a machine\<close>

text \<open>
  The operations a node performs on its gate, with a crash and recovery (persist, then rebuild
  from the persisted state, with the clock readings of both moments) as an operation. Around them, a
  request handler takes a snapshot (\<open>persisted_state\<close>) before a safety mutation and puts it back with
  \<open>restore_persisted_state\<close> when the mutation fails or cannot be persisted (\<^verbatim>\<open>api/safety.rs\<close>): the
  runs of \<open>gate_run_op\<close> below.
\<close>

datatype gate_op =
  OpClose datetime instant string
| OpBeginPropagation
| OpAck datetime uuid nat
| OpVote datetime resume_vote nat
| OpRestart datetime instant datetime instant

fun gate_step :: "gate_env \<Rightarrow> kill_gate \<Rightarrow> gate_op \<Rightarrow> kill_gate" where
  "gate_step env g (OpClose now inst_now reason) = snd (close env now inst_now reason g)"
| "gate_step env g OpBeginPropagation = begin_propagation g"
| "gate_step env g (OpAck now peer n) = snd (record_ack env now peer n g)"
| "gate_step env g (OpVote now vote n) = snd (cast_resume_vote env now vote n g)"
| "gate_step env g (OpRestart utc inst utc' inst') =
     gate_from_persisted_state utc' inst' (kg_config g) (persisted_state utc inst g)"

record gate_runtime =
  gr_gate :: kill_gate
  gr_snapshots :: "persisted_gate_state list"

datatype gate_run_op = GOp gate_op | GSnapshot datetime instant | GRollback nat datetime instant

fun gate_run_step :: "gate_env \<Rightarrow> gate_runtime \<Rightarrow> gate_run_op \<Rightarrow> gate_runtime" where
  "gate_run_step env r (GOp op) = r\<lparr>gr_gate := gate_step env (gr_gate r) op\<rparr>"
| "gate_run_step env r (GSnapshot utc inst) =
     r\<lparr>gr_snapshots := gr_snapshots r @ [persisted_state utc inst (gr_gate r)]\<rparr>"
| "gate_run_step env r (GRollback k utc inst) =
     (if k < length (gr_snapshots r)
      then r\<lparr>gr_gate := restore_persisted_state utc inst (gr_snapshots r ! k) (gr_gate r)\<rparr> else r)"

definition gate_runtime_of :: "gate_env \<Rightarrow> uuid \<Rightarrow> kill_gate_config \<Rightarrow> gate_run_op list \<Rightarrow> gate_runtime" where
  "gate_runtime_of env node cfg rs =
     foldl (gate_run_step env) \<lparr>gr_gate = kill_gate_new node cfg, gr_snapshots = []\<rparr> rs"

definition gate_run :: "gate_env \<Rightarrow> uuid \<Rightarrow> kill_gate_config \<Rightarrow> gate_run_op list \<Rightarrow> kill_gate" where
  "gate_run env node cfg rs = gr_gate (gate_runtime_of env node cfg rs)"

definition snapshots_of :: "gate_env \<Rightarrow> uuid \<Rightarrow> kill_gate_config \<Rightarrow> gate_run_op list \<Rightarrow> persisted_gate_state list" where
  "snapshots_of env node cfg rs = gr_snapshots (gate_runtime_of env node cfg rs)"

fun op_votes :: "gate_op \<Rightarrow> (uuid \<times> nat) set" where
  "op_votes (OpVote now vote n) = {(rv_node_id vote, n)}"
| "op_votes _ = {}"

definition trace_voters :: "gate_op list \<Rightarrow> uuid set" where
  "trace_voters ops = fst ` (\<Union>op \<in> set ops. op_votes op)"

definition trace_sizes :: "gate_op list \<Rightarrow> nat set" where
  "trace_sizes ops = snd ` (\<Union>op \<in> set ops. op_votes op)"

subsection \<open>What the operations do\<close>

lemma state_bytes_distinct [simp]:
  "STATE_GATE_CLOSED \<noteq> STATE_NORMAL" "STATE_PROPAGATING \<noteq> STATE_NORMAL"
  "STATE_CONFIRMED \<noteq> STATE_NORMAL" "STATE_QUORUM_RESUME \<noteq> STATE_NORMAL"
  by (simp_all add: state_bytes)

lemma gate_state_roundtrip [simp]: "gate_state_from_u8 (gate_state_to_u8 s) = s"
  by (cases s) (simp_all add: gate_state_from_u8_def state_bytes)

lemma gate_state_to_u8_Normal [simp]: "gate_state_to_u8 s = STATE_NORMAL \<longleftrightarrow> s = Normal"
  by (cases s) simp_all

lemma gate_state_from_u8_Normal [simp]: "gate_state_from_u8 v = Normal \<longleftrightarrow> v = STATE_NORMAL"
  by (simp add: gate_state_from_u8_def)

text \<open>The state byte is one of the five that the code stores.\<close>

definition state_known :: "kill_gate \<Rightarrow> bool" where
  "state_known g \<longleftrightarrow> gate_state_to_u8 (gate_state_of g) = kg_state g"

lemma state_known_bytes [simp]:
  "gate_state_to_u8 (gate_state_from_u8 STATE_NORMAL) = STATE_NORMAL"
  "gate_state_to_u8 (gate_state_from_u8 STATE_GATE_CLOSED) = STATE_GATE_CLOSED"
  "gate_state_to_u8 (gate_state_from_u8 STATE_PROPAGATING) = STATE_PROPAGATING"
  "gate_state_to_u8 (gate_state_from_u8 STATE_CONFIRMED) = STATE_CONFIRMED"
  "gate_state_to_u8 (gate_state_from_u8 STATE_QUORUM_RESUME) = STATE_QUORUM_RESUME"
  by (simp_all add: gate_state_from_u8_def state_bytes)

lemma gate_event_cong:
  "\<lbrakk>kg_chain g = kg_chain h; kg_node_id g = kg_node_id h\<rbrakk> \<Longrightarrow> gate_event env g = gate_event env h"
  by (simp add: gate_event_def fun_eq_iff)

lemma gate_event_upd [simp]:
  "gate_event env (g\<lparr>kg_state := a\<rparr>) = gate_event env g"
  "gate_event env (g\<lparr>kg_closed_at := b\<rparr>) = gate_event env g"
  "gate_event env (g\<lparr>kg_close_reason := c\<rparr>) = gate_event env g"
  "gate_event env (g\<lparr>kg_propagation_start := d\<rparr>) = gate_event env g"
  "gate_event env (g\<lparr>kg_acked_nodes := e\<rparr>) = gate_event env g"
  "gate_event env (g\<lparr>kg_quorum_tracker := f\<rparr>) = gate_event env g"
  by (rule gate_event_cong; simp)+

lemma push_event_simps [simp]:
  "kg_chain (push_event env g et now pl) = kg_chain g @ [gate_event env g et now pl]"
  "kg_node_id (push_event env g et now pl) = kg_node_id g"
  "kg_state (push_event env g et now pl) = kg_state g"
  "kg_config (push_event env g et now pl) = kg_config g"
  "kg_acked_nodes (push_event env g et now pl) = kg_acked_nodes g"
  "kg_quorum_tracker (push_event env g et now pl) = kg_quorum_tracker g"
  by (simp_all add: push_event_def)

lemma close_simps [simp]:
  "kg_chain (snd (close env now i r g)) =
     kg_chain g @ [gate_event env g EvClose now (env_reason_json env r)]"
  "kg_node_id (snd (close env now i r g)) = kg_node_id g"
  "kg_state (snd (close env now i r g)) = STATE_GATE_CLOSED"
  "kg_config (snd (close env now i r g)) = kg_config g"
  "kg_acked_nodes (snd (close env now i r g)) = []"
  "kg_quorum_tracker (snd (close env now i r g)) = kg_quorum_tracker g"
  "kg_propagation_start (snd (close env now i r g)) = Some i"
  "kg_poisoned (snd (close env now i r g)) = kg_poisoned g"
  by (simp_all add: close_def Let_def push_event_def)

lemma begin_propagation_simps [simp]:
  "kg_chain (begin_propagation g) = kg_chain g" "kg_node_id (begin_propagation g) = kg_node_id g"
  "kg_config (begin_propagation g) = kg_config g"
  "kg_acked_nodes (begin_propagation g) = kg_acked_nodes g"
  "kg_quorum_tracker (begin_propagation g) = kg_quorum_tracker g"
  "kg_propagation_start (begin_propagation g) = kg_propagation_start g"
  "kg_poisoned (begin_propagation g) = kg_poisoned g"
  "kg_state (begin_propagation g) = STATE_NORMAL \<longleftrightarrow> kg_state g = STATE_NORMAL"
  by (simp_all add: begin_propagation_def)

lemma record_ack_simps [simp]:
  "kg_chain (snd (record_ack env now p n g)) = kg_chain g @
     [gate_event env g EvAck now (env_peer_json env (env_uuid_display env p))]"
  "kg_node_id (snd (record_ack env now p n g)) = kg_node_id g"
  "kg_config (snd (record_ack env now p n g)) = kg_config g"
  "kg_quorum_tracker (snd (record_ack env now p n g)) = kg_quorum_tracker g"
  "set (kg_acked_nodes (snd (record_ack env now p n g))) = insert p (set (kg_acked_nodes g))"
  "distinct (kg_acked_nodes (snd (record_ack env now p n g))) = distinct (kg_acked_nodes g)"
  "kg_state (snd (record_ack env now p n g)) =
     (if fst (record_ack env now p n g) then STATE_CONFIRMED else kg_state g)"
  by (auto simp: record_ack_def Let_def)

text \<open>The tracker a vote is counted in.\<close>

definition vote_tracker :: "kill_gate \<Rightarrow> nat \<Rightarrow> quorum_tracker" where
  "vote_tracker g n = (case kg_quorum_tracker g of Some t \<Rightarrow> t
     | None \<Rightarrow> quorum_tracker_new (effective_quorum (kg_config g) n))"

definition reaches_quorum :: "kill_gate \<Rightarrow> resume_vote \<Rightarrow> nat \<Rightarrow> bool" where
  "reaches_quorum g v n \<longleftrightarrow> fst (cast_vote v (vote_tracker g n))"

lemma vote_refused:
  "\<not> resume_permitted g \<or> \<not> is_closed g \<Longrightarrow> snd (cast_resume_vote env now v n g) = g"
  by (auto simp: cast_resume_vote_def is_closed_def)

lemma vote_counted:
  assumes "resume_permitted g" "is_closed g"
  shows "fst (cast_resume_vote env now v n g) = reaches_quorum g v n"
    and "kg_node_id (snd (cast_resume_vote env now v n g)) = kg_node_id g"
    and "kg_config (snd (cast_resume_vote env now v n g)) = kg_config g"
    and "kg_quorum_tracker (snd (cast_resume_vote env now v n g)) =
      (if reaches_quorum g v n then None else Some (snd (cast_vote v (vote_tracker g n))))"
    and "kg_state (snd (cast_resume_vote env now v n g)) =
      (if reaches_quorum g v n then STATE_NORMAL
       else if kg_quorum_tracker g = None then STATE_QUORUM_RESUME else kg_state g)"
    and "kg_acked_nodes (snd (cast_resume_vote env now v n g)) =
      (if reaches_quorum g v n then [] else kg_acked_nodes g)"
    and "kg_chain (snd (cast_resume_vote env now v n g)) = kg_chain g @
      (if reaches_quorum g v n
       then [gate_event env g EvResumeConfirmed now
         (env_votes_json env (fcard (finsert (rv_node_id v) (qt_votes (vote_tracker g n))))
           (qt_required (vote_tracker g n)))] else [])"
  using assms
  by (auto simp: cast_resume_vote_def is_closed_def vote_tracker_def reaches_quorum_def
      ensure_tracker_def vote_count_def cast_vote_def has_quorum_def Let_def
      split: option.splits)

lemma restart_simps [simp]:
  "kg_chain (gate_from_persisted_state u' i' c (persisted_state u i g)) = kg_chain g"
  "kg_node_id (gate_from_persisted_state u' i' c (persisted_state u i g)) = kg_node_id g"
  "kg_config (gate_from_persisted_state u' i' c (persisted_state u i g)) = c"
  "kg_quorum_tracker (gate_from_persisted_state u' i' c (persisted_state u i g)) =
     kg_quorum_tracker g"
  "kg_acked_nodes (gate_from_persisted_state u' i' c (persisted_state u i g)) = kg_acked_nodes g"
  "kg_state (gate_from_persisted_state u' i' c (persisted_state u i g)) = STATE_NORMAL \<longleftrightarrow>
     kg_state g = STATE_NORMAL"
  by (simp_all add: gate_from_persisted_state_def persisted_state_def gate_state_of_def)

lemma gate_step_frame [simp]:
  "kg_config (gate_step env g op) = kg_config g"
  "kg_node_id (gate_step env g op) = kg_node_id g"
proof -
  have "kg_config (gate_step env g op) = kg_config g \<and> kg_node_id (gate_step env g op) = kg_node_id g"
  proof (cases op)
    case (OpVote now v n)
    then show ?thesis
      using vote_counted(2,3) [of g] vote_refused [of g]
      by (cases "resume_permitted g \<and> is_closed g") auto
  qed simp_all
  then show "kg_config (gate_step env g op) = kg_config g"
    "kg_node_id (gate_step env g op) = kg_node_id g" by auto
qed

subsection \<open>Invariants\<close>

text \<open>
  A step leaves the chain alone or appends one event built over its head, which also is how
  the chain stays linked.
\<close>

lemma gate_step_chain:
  "kg_chain (gate_step env g op) = kg_chain g \<or>
   (\<exists>et now pl. kg_chain (gate_step env g op) = kg_chain g @ [gate_event env g et now pl])"
proof (cases op)
  case (OpVote now v n)
  then show ?thesis
    using vote_counted(7) [of g] vote_refused [of g]
    by (cases "resume_permitted g \<and> is_closed g") auto
qed auto

definition gate_wf :: "gate_env \<Rightarrow> kill_gate \<Rightarrow> bool" where
  "gate_wf env g \<longleftrightarrow>
     gate_log.chain_ok env GENESIS_HASH (kg_chain g) \<and>
     (\<forall>e \<in> set (kg_chain g). ge_node_id e = kg_node_id g) \<and>
     distinct (kg_acked_nodes g) \<and> state_known g \<and>
     (\<forall>t. kg_quorum_tracker g = Some t \<longrightarrow> \<not> has_quorum t)"

lemma gate_event_linked:
  assumes "gate_log.chain_ok env GENESIS_HASH (kg_chain g)"
  shows "gate_log.chain_ok env GENESIS_HASH (kg_chain g @ [gate_event env g et now pl])"
  using assms
  by (intro gate_log.chain_ok_snoc)
    (simp_all add: gate_event_def Let_def head_hash_def recompute_gate_hash_def)

lemma gate_event_node [simp]: "ge_node_id (gate_event env g et now pl) = kg_node_id g"
  by (simp add: gate_event_def Let_def)

lemma gate_wf_new [simp]: "gate_wf env (kill_gate_new n cfg)"
  by (simp add: gate_wf_def kill_gate_new_def state_known_def gate_state_of_def)

lemma gate_wf_tracker_step:
  assumes "\<forall>t. kg_quorum_tracker g = Some t \<longrightarrow> \<not> has_quorum t"
    and "kg_quorum_tracker (gate_step env g op) = Some t"
  shows "\<not> has_quorum t"
proof (cases op)
  case (OpVote now v n)
  then show ?thesis
    using assms vote_counted(4) [of g] vote_refused [of g]
    by (cases "resume_permitted g \<and> is_closed g")
      (auto simp: reaches_quorum_def has_quorum_def split: if_splits)
qed (use assms in auto)

lemma gate_wf_state_step:
  assumes "state_known g" "distinct (kg_acked_nodes g)"
  shows "state_known (gate_step env g op) \<and> distinct (kg_acked_nodes (gate_step env g op))"
proof (cases op)
  case OpBeginPropagation
  then show ?thesis using assms
    by (auto simp: state_known_def gate_state_of_def begin_propagation_def)
next
  case (OpVote now v n)
  then show ?thesis
    using assms vote_counted(5,6) [of g] vote_refused [of g]
    by (cases "resume_permitted g \<and> is_closed g") (auto simp: state_known_def gate_state_of_def)
next
  case (OpRestart u i u' i')
  then show ?thesis using assms
    by (auto simp: state_known_def gate_state_of_def gate_from_persisted_state_def
        persisted_state_def)
qed (use assms in \<open>auto simp: state_known_def gate_state_of_def\<close>)

lemma gate_wfD:
  assumes "gate_wf env g"
  shows "gate_log.chain_ok env GENESIS_HASH (kg_chain g)"
    "\<forall>e \<in> set (kg_chain g). ge_node_id e = kg_node_id g" "distinct (kg_acked_nodes g)"
    "state_known g" "\<forall>t. kg_quorum_tracker g = Some t \<longrightarrow> \<not> has_quorum t"
  using assms unfolding gate_wf_def by blast+

lemma gate_wf_step:
  assumes "gate_wf env g"
  shows "gate_wf env (gate_step env g op)"
proof -
  note wf = gate_wfD [OF assms]
  have "gate_log.chain_ok env GENESIS_HASH (kg_chain (gate_step env g op)) \<and>
      (\<forall>e \<in> set (kg_chain (gate_step env g op)). ge_node_id e = kg_node_id g)"
    using gate_step_chain [of env g op]
  proof (elim disjE exE)
    fix et now pl
    assume "kg_chain (gate_step env g op) = kg_chain g @ [gate_event env g et now pl]"
    then show ?thesis using wf(2) gate_event_linked [OF wf(1), of et now pl] by simp
  qed (use wf(1,2) in simp)
  with gate_wf_tracker_step [OF wf(5)] gate_wf_state_step [OF wf(4,3)] show ?thesis
    unfolding gate_wf_def gate_step_frame by blast
qed

interpretation gate_machine: invariant_steps "gate_step env" "gate_wf env" for env
  by unfold_locales (rule gate_wf_step)

interpretation gate_history: invariant_steps "gate_step env"
  "\<lambda>g. prefix es (kg_chain g)" for env es
proof
  fix g :: kill_gate and op
  assume "prefix es (kg_chain g)"
  then show "prefix es (kg_chain (gate_step env g op))"
    using gate_step_chain [of env g op] by (auto intro: prefix_prefix)
qed

text \<open>Only a vote that completes a quorum opens a closed gate.\<close>

lemma opening_step:
  assumes "is_closed g" "\<not> is_closed (gate_step env g op)"
  obtains now v n where "op = OpVote now v n" "resume_permitted g" "reaches_quorum g v n"
    "\<exists>pl. kg_chain (gate_step env g op) = kg_chain g @ [gate_event env g EvResumeConfirmed now pl]"
proof (cases op)
  case (OpVote now v n)
  have p: "resume_permitted g" using assms OpVote vote_refused [of g] by fastforce
  moreover have q: "reaches_quorum g v n"
    using assms OpVote vote_counted(5) [OF p assms(1)]
    by (auto simp: is_closed_def split: if_splits)
  moreover have "\<exists>pl. kg_chain (gate_step env g op) =
      kg_chain g @ [gate_event env g EvResumeConfirmed now pl]"
    using OpVote vote_counted(7) [OF p assms(1)] q by auto
  ultimately show ?thesis using that OpVote by blast
qed (use assms in \<open>auto simp: is_closed_def split: if_splits\<close>)

interpretation gate_latch: invariant_steps "gate_step env"
  "\<lambda>g. is_closed g \<and> \<not> resume_permitted g" for env
proof
  fix g op
  assume "is_closed g \<and> \<not> resume_permitted g"
  then show "is_closed (gate_step env g op) \<and> \<not> resume_permitted (gate_step env g op)"
    by (metis opening_step gate_step_frame(1) resume_permitted_def)
qed

lemma trace_snoc [simp]:
  "trace_voters (ops @ [op]) = trace_voters ops \<union> fst ` op_votes op"
  "trace_sizes (ops @ [op]) = trace_sizes ops \<union> snd ` op_votes op"
  by (auto simp: trace_voters_def trace_sizes_def)

lemma finite_trace_voters [simp]: "finite (trace_voters ops)"
proof -
  have "finite (op_votes op)" for op by (cases op) auto
  then show ?thesis by (auto simp: trace_voters_def)
qed

lemma max_effective_quorum [simp]: "max (effective_quorum cfg n) (Suc 0) = effective_quorum cfg n"
  using effective_quorum_pos [of cfg n] by linarith

lemma gate_run_config [simp]:
  "kg_config (foldl (gate_step env) g ops) = kg_config g"
  "kg_node_id (foldl (gate_step env) g ops) = kg_node_id g"
  by (induction ops arbitrary: g) simp_all

subsection \<open>Rounds of votes\<close>

text \<open>
  The specification of a reopening: the round is what happened since the gate was last open, its
  voters are the distinct nodes that voted in it, and it needs the quorum of the cluster size its
  first vote was cast under.
\<close>

fun round_of :: "gate_env \<Rightarrow> kill_gate \<Rightarrow> gate_op list \<Rightarrow> gate_op list \<Rightarrow> gate_op list" where
  "round_of env g acc [] = acc"
| "round_of env g acc (op # ops) =
     (let g' = gate_step env g op in round_of env g' (if is_closed g' then acc @ [op] else []) ops)"

definition vote_round :: "gate_env \<Rightarrow> uuid \<Rightarrow> kill_gate_config \<Rightarrow> gate_op list \<Rightarrow> gate_op list" where
  "vote_round env node cfg ops = round_of env (kill_gate_new node cfg) [] ops"

fun vote_sizes :: "gate_op list \<Rightarrow> nat list" where
  "vote_sizes [] = []"
| "vote_sizes (OpVote _ _ n # ops) = n # vote_sizes ops"
| "vote_sizes (_ # ops) = vote_sizes ops"

definition round_quorum :: "kill_gate_config \<Rightarrow> gate_op list \<Rightarrow> nat" where
  "round_quorum cfg ops = effective_quorum cfg (hd (vote_sizes ops))"

lemma round_of_snoc:
  "round_of env g acc (ops @ [op]) =
     (if is_closed (foldl (gate_step env) g (ops @ [op])) then round_of env g acc ops @ [op] else [])"
  by (induction ops arbitrary: g acc) (simp_all add: Let_def)

lemma vote_round_snoc:
  "vote_round env node cfg (ops @ [op]) =
     (if is_closed (foldl (gate_step env) (kill_gate_new node cfg) (ops @ [op]))
      then vote_round env node cfg ops @ [op] else [])"
  by (simp add: vote_round_def round_of_snoc)

lemma vote_sizes_append [simp]: "vote_sizes (xs @ ys) = vote_sizes xs @ vote_sizes ys"
  by (induction xs rule: vote_sizes.induct) simp_all

lemma vote_sizes_voters: "vote_sizes ops = [] \<longleftrightarrow> trace_voters ops = {}"
  by (induction ops rule: vote_sizes.induct) (auto simp: trace_voters_def)

text \<open>The tracker holds exactly the votes of the round, and the quorum of its first vote.\<close>

definition tally_exact :: "gate_op list \<Rightarrow> kill_gate \<Rightarrow> bool" where
  "tally_exact rnd g \<longleftrightarrow>
     (\<not> is_closed g \<longrightarrow> kg_quorum_tracker g = None \<and> rnd = []) \<and>
     (resume_permitted g \<longrightarrow>
       (case kg_quorum_tracker g of
          None \<Rightarrow> trace_voters rnd = {}
        | Some t \<Rightarrow> trace_voters rnd \<noteq> {} \<and> fset (qt_votes t) = trace_voters rnd \<and>
            qt_required t = round_quorum (kg_config g) rnd))"

lemma vote_tracker_round:
  assumes "tally_exact rnd g" "resume_permitted g"
  shows "fset (qt_votes (vote_tracker g n)) = trace_voters rnd \<and>
    qt_required (vote_tracker g n) = round_quorum (kg_config g) (rnd @ [OpVote now v n])"
  using assms vote_sizes_voters [of rnd]
  by (cases "kg_quorum_tracker g")
    (auto simp: tally_exact_def vote_tracker_def round_quorum_def quorum_tracker_new_def hd_append)

lemma reaches_quorum_round:
  assumes "tally_exact rnd g" "resume_permitted g"
  shows "reaches_quorum g v n \<longleftrightarrow>
    round_quorum (kg_config g) (rnd @ [OpVote now v n]) \<le> card (trace_voters (rnd @ [OpVote now v n]))"
  using vote_tracker_round [OF assms, of n now v]
  by (simp add: reaches_quorum_def cast_vote_def Let_def has_quorum_def fcard.rep_eq)

lemma tally_exact_step:
  assumes "tally_exact rnd g"
  shows "tally_exact (if is_closed (gate_step env g op) then rnd @ [op] else []) (gate_step env g op)"
proof (cases "\<exists>now v n. op = OpVote now v n \<and> resume_permitted g \<and> is_closed g")
  case True
  then obtain now v n where op: "op = OpVote now v n" "resume_permitted g" "is_closed g" by blast
  note counted = vote_counted(3,4,5) [OF op(2,3), of env now v n]
  have "is_closed (gate_step env g op) \<longleftrightarrow> \<not> reaches_quorum g v n"
    using counted(3) op(3) by (simp add: op(1) is_closed_def)
  then show ?thesis
    using vote_tracker_round [OF assms op(2), of n now v] counted
    by (simp add: tally_exact_def op(1) cast_vote_def Let_def resume_permitted_def trace_voters_def)
next
  case False
  have tr: "kg_quorum_tracker (gate_step env g op) = kg_quorum_tracker g"
    using False vote_refused [of g] by (cases op) auto
  have closed: "is_closed g \<Longrightarrow> is_closed (gate_step env g op)"
    using False opening_step [of g env op] by blast
  have open_vote: "gate_step env g op = g" if "op = OpVote now v n" "\<not> is_closed g" for now v n
    using that vote_refused [of g] by simp
  have voters: "trace_voters (rnd @ [op]) = trace_voters rnd \<and> vote_sizes (rnd @ [op]) = vote_sizes rnd"
    if "\<not> (\<exists>now v n. op = OpVote now v n)" using that by (cases op) auto
  show ?thesis
  proof (cases "\<exists>now v n. op = OpVote now v n")
    case True
    then show ?thesis
      using False assms tr closed open_vote vote_refused [of g] by (auto simp: tally_exact_def resume_permitted_def)
  next
    case novote: False
    have "resume_permitted (gate_step env g op) = resume_permitted g" by (simp add: resume_permitted_def)
    then show ?thesis
      using assms tr closed voters [OF novote]
      by (auto simp: tally_exact_def round_quorum_def trace_voters_def split: option.splits)
  qed
qed

lemma tally_exact_run:
  "tally_exact (vote_round env node cfg ops) (foldl (gate_step env) (kill_gate_new node cfg) ops)"
proof (induction ops rule: rev_induct)
  case Nil
  then show ?case
    by (simp add: tally_exact_def vote_round_def kill_gate_new_def is_closed_def trace_voters_def)
next
  case (snoc op ops)
  from tally_exact_step [OF this, of env op] show ?case by (simp add: vote_round_snoc)
qed

subsection \<open>Rollbacks\<close>

text \<open>
  The operations in force: a rollback forgets what was done since its snapshot, and acts as a restart
  from it. \<open>live_ops\<close> keeps the operations in force and, for each snapshot, those it was taken after.
\<close>

type_synonym live_state = "gate_op list \<times> (gate_op list \<times> datetime \<times> instant) list"

fun live_step :: "live_state \<Rightarrow> gate_run_op \<Rightarrow> live_state" where
  "live_step (h, ss) (GOp op) = (h @ [op], ss)"
| "live_step (h, ss) (GSnapshot u i) = (h, ss @ [(h, u, i)])"
| "live_step (h, ss) (GRollback k u' i') =
     (if k < length ss then (case ss ! k of (h', u, i) \<Rightarrow> (h' @ [OpRestart u i u' i'], ss)) else (h, ss))"

definition live_ops :: "gate_run_op list \<Rightarrow> gate_op list" where
  "live_ops rs = fst (foldl live_step ([], []) rs)"

lemma not_poisoned_step: "\<not> kg_poisoned g \<Longrightarrow> \<not> kg_poisoned (gate_step env g op)"
  by (cases op)
    (auto simp: record_ack_def cast_resume_vote_def ensure_tracker_def push_event_def gate_from_persisted_state_def Let_def
      split: option.splits prod.splits)

lemma not_poisoned_run: "\<not> kg_poisoned (foldl (gate_step env) (kill_gate_new node cfg) ops)"
  by (induction ops rule: rev_induct) (simp_all add: not_poisoned_step, simp add: kill_gate_new_def)

lemma rollback_is_restart:
  assumes "\<not> kg_poisoned g'" "kg_node_id g' = kg_node_id g" "kg_config g' = kg_config g"
  shows "restore_persisted_state u' i' (persisted_state u i g) g' = gate_step env g (OpRestart u i u' i')"
  using assms by (simp add: restore_persisted_state_def gate_from_persisted_state_def persisted_state_def)

definition live_matches :: "gate_env \<Rightarrow> uuid \<Rightarrow> kill_gate_config \<Rightarrow> live_state \<Rightarrow> gate_runtime \<Rightarrow> bool" where
  "live_matches env node cfg l r \<longleftrightarrow>
     gr_gate r = foldl (gate_step env) (kill_gate_new node cfg) (fst l) \<and>
     gr_snapshots r = map (\<lambda>(h, u, i). persisted_state u i (foldl (gate_step env) (kill_gate_new node cfg) h)) (snd l)"

lemma live_matches_step:
  assumes "live_matches env node cfg l r"
  shows "live_matches env node cfg (live_step l e) (gate_run_step env r e)"
proof (cases e)
  case (GRollback k u' i')
  obtain h ss where l: "l = (h, ss)" by (cases l)
  obtain h' u i where k: "ss ! k = (h', u, i)" by (cases "ss ! k")
  have "restore_persisted_state u' i' (persisted_state u i (foldl (gate_step env) (kill_gate_new node cfg) h')) (gr_gate r) =
      gate_step env (foldl (gate_step env) (kill_gate_new node cfg) h') (OpRestart u i u' i')"
    using assms by (intro rollback_is_restart) (simp_all add: live_matches_def not_poisoned_run)
  with assms show ?thesis by (auto simp: live_matches_def GRollback l k)
qed (use assms in \<open>cases l; simp add: live_matches_def\<close>)+

lemma live_matches_run: "live_matches env node cfg (foldl live_step ([], []) rs) (gate_runtime_of env node cfg rs)"
proof (induction rs rule: rev_induct)
  case Nil
  then show ?case by (simp add: live_matches_def gate_runtime_of_def)
qed (simp add: gate_runtime_of_def live_matches_step)

lemma gate_run_live: "gate_run env node cfg rs = foldl (gate_step env) (kill_gate_new node cfg) (live_ops rs)"
  using live_matches_run [of env node cfg rs] by (simp add: live_matches_def gate_run_def live_ops_def)

text \<open>While every rollback goes to a snapshot taken since, what was in force stays in force.\<close>

definition held :: "gate_op list \<Rightarrow> nat \<Rightarrow> live_state \<Rightarrow> bool" where
  "held h0 n l \<longleftrightarrow> prefix h0 (fst l) \<and> n \<le> length (snd l) \<and>
     (\<forall>k. n \<le> k \<and> k < length (snd l) \<longrightarrow> prefix h0 (fst (snd l ! k)))"

lemma held_step:
  assumes "held h0 n l" "\<And>k u i. e = GRollback k u i \<Longrightarrow> n \<le> k"
  shows "held h0 n (live_step l e)"
proof (cases e)
  case (GRollback k u' i')
  obtain h ss where l: "l = (h, ss)" by (cases l)
  obtain h' u i where k: "ss ! k = (h', u, i)" by (cases "ss ! k")
  have "n \<le> k" using assms(2) GRollback by blast
  moreover have "prefix h0 h'" if "k < length ss"
    using assms(1) that \<open>n \<le> k\<close> k unfolding held_def l by force
  ultimately show ?thesis using assms(1) by (auto simp: held_def l GRollback k intro: prefix_prefix)
next
  case (GOp op)
  then show ?thesis using assms(1) by (cases l) (auto simp: held_def intro: prefix_prefix)
next
  case (GSnapshot u i)
  then show ?thesis using assms(1) by (cases l) (auto simp: held_def nth_append)
qed

lemma held_run:
  assumes "\<And>k u i. GRollback k u i \<in> set rs' \<Longrightarrow> n \<le> k" "held h0 n l"
  shows "held h0 n (foldl live_step l rs')"
  using assms
proof (induction rs' arbitrary: l)
  case (Cons e rs')
  have "held h0 n (live_step l e)" by (rule held_step [OF Cons.prems(2)]) (use Cons.prems(1) in \<open>fastforce\<close>)
  with Cons.IH Cons.prems(1) show ?case by (metis foldl_Cons list.set_intros(2))
qed simp

lemma snapshots_length: "length (snapshots_of env node cfg rs) = length (snd (foldl live_step ([], []) rs))"
  using live_matches_run [of env node cfg rs] by (simp add: live_matches_def snapshots_of_def)

lemma live_ops_prefix:
  assumes "\<And>k u i. GRollback k u i \<in> set rs' \<Longrightarrow> length (snapshots_of env node cfg rs) \<le> k"
  shows "prefix (live_ops rs) (live_ops (rs @ rs'))"
proof -
  let ?l = "foldl live_step ([], []) rs"
  have "held (live_ops rs) (length (snd ?l)) (foldl live_step ?l rs')"
    by (rule held_run) (use assms in \<open>auto simp: snapshots_length held_def live_ops_def\<close>)
  then show ?thesis by (simp add: held_def live_ops_def)
qed

lemma round_trip_start:
  assumes "start \<le> i" "i - start \<le> CHRONO_MAX" "u \<le> u'" "i - start + nat (u' - u) \<le> i'"
  shows "instant_from_timestamp u' i' (timestamp_from_instant u i (Some start)) =
    Some (i' - (i - start + nat (u' - u)))"
proof -
  have "nat (u' - (u - int (i - start))) = i - start + nat (u' - u)" using assms(3) by auto
  then show ?thesis
    using assms
    by (simp add: instant_from_timestamp_def timestamp_from_instant_def elapsed_def Let_def)
qed

subsection \<open>Properties\<close>

text \<open>
  C10. The gate log is an intact chain of this node's events after any sequence of closes,
  propagations, acknowledgements, votes, restarts and rollbacks of safety mutations. From any moment
  on it is only appended to, as long as rollbacks go to snapshots taken since: the rollback to
  an older snapshot is the only operation that cuts it back.
\<close>

theorem gate_chain_intact:
  "linked ge_previous_hash ge_event_hash (recompute_gate_hash env) GENESIS_HASH
     (kg_chain (gate_run env node cfg (rs @ rs'))) \<and>
   ((\<forall>k u i. GRollback k u i \<in> set rs' \<longrightarrow> length (snapshots_of env node cfg rs) \<le> k) \<longrightarrow>
     prefix (kg_chain (gate_run env node cfg rs)) (kg_chain (gate_run env node cfg (rs @ rs'))))"
proof (intro conjI impI)
  have "gate_wf env (gate_run env node cfg (rs @ rs'))"
    unfolding gate_run_live by (rule gate_machine.inv_run) simp
  then show "linked ge_previous_hash ge_event_hash (recompute_gate_hash env) GENESIS_HASH
     (kg_chain (gate_run env node cfg (rs @ rs')))" by (rule gate_wfD(1))
next
  assume "\<forall>k u i. GRollback k u i \<in> set rs' \<longrightarrow> length (snapshots_of env node cfg rs) \<le> k"
  then obtain rest where "live_ops (rs @ rs') = live_ops rs @ rest"
    using live_ops_prefix [of rs' env node cfg rs] by (auto simp: prefix_def)
  then show "prefix (kg_chain (gate_run env node cfg rs)) (kg_chain (gate_run env node cfg (rs @ rs')))"
    unfolding gate_run_live by (simp add: gate_history.inv_run)
qed

text \<open>
  C9. How a closed gate reopens: exactly by a vote, with authenticated cluster membership, that
  brings the distinct voters since the gate was last open to the quorum of the cluster size under
  which the first of them was cast, and then the reopening is logged; or by the rollback of a failed
  safety mutation to a snapshot of the open gate. The voters counted are those of the
  operations in force, so a rolled-back vote does not count.
\<close>

theorem reopen_needs_quorum:
  assumes "is_closed (gate_run env node cfg rs)"
  shows "\<not> is_closed (gate_run env node cfg (rs @ [e])) \<longleftrightarrow>
    (\<exists>now v n. e = GOp (OpVote now v n) \<and> cfg_authenticated_cluster_membership cfg \<and>
       (let rnd = vote_round env node cfg (live_ops rs) @ [OpVote now v n]
        in round_quorum cfg rnd \<le> card (trace_voters rnd)) \<and>
       (\<exists>ev. kg_chain (gate_run env node cfg (rs @ [e])) = kg_chain (gate_run env node cfg rs) @ [ev] \<and>
          ge_event_type ev = EvResumeConfirmed)) \<or>
    (\<exists>k u i. e = GRollback k u i \<and> k < length (snapshots_of env node cfg rs) \<and>
       pg_state (snapshots_of env node cfg rs ! k) = gate_state.Normal)"
proof (cases e)
  case (GOp op)
  let ?g = "gate_run env node cfg rs"
  have step: "gate_run env node cfg (rs @ [e]) = gate_step env ?g op"
    by (simp add: gate_run_def gate_runtime_of_def GOp)
  have cfg: "kg_config ?g = cfg" by (simp add: gate_run_live kill_gate_new_def)
  have tally: "tally_exact (vote_round env node cfg (live_ops rs)) ?g"
    unfolding gate_run_live by (rule tally_exact_run)
  show ?thesis
  proof (cases "\<exists>now v n. op = OpVote now v n")
    case False
    have "is_closed (gate_step env ?g op)"
    proof (rule ccontr)
      assume "\<not> is_closed (gate_step env ?g op)"
      from opening_step [OF assms this] False show False by metis
    qed
    with False show ?thesis unfolding step by (simp add: GOp)
  next
    case True
    then obtain now v n where op: "op = OpVote now v n" by blast
    show ?thesis
    proof (cases "resume_permitted ?g")
      case True
      have "\<not> is_closed (gate_step env ?g op) \<longleftrightarrow> reaches_quorum ?g v n"
        using vote_counted(5) [OF True assms, of env now v n] assms by (simp add: op is_closed_def)
      moreover have "\<exists>ev. kg_chain (gate_step env ?g op) = kg_chain ?g @ [ev] \<and> ge_event_type ev = EvResumeConfirmed"
        if "reaches_quorum ?g v n"
        using vote_counted(7) [OF True assms, of env now v n] that by (simp add: op gate_event_def Let_def)
      ultimately show ?thesis
        using True unfolding step reaches_quorum_round [OF tally True, of v n now]
        by (auto simp: GOp op cfg resume_permitted_def Let_def)
    next
      case False
      then have "gate_step env ?g op = ?g" using vote_refused [of ?g] by (simp add: op)
      then show ?thesis using assms False unfolding step by (simp add: GOp op cfg resume_permitted_def)
    qed
  qed
next
  case (GSnapshot u i)
  then show ?thesis using assms by (simp add: gate_run_def gate_runtime_of_def)
next
  case (GRollback k u i)
  then show ?thesis using assms
    by (auto simp: gate_run_def gate_runtime_of_def snapshots_of_def is_closed_def restore_persisted_state_def)
qed

definition sample_env :: gate_env where
  "sample_env = \<lparr>env_blake3 = (\<lambda>bs. word_of_nat (length bs)), env_rfc3339 = (\<lambda>t. ''t''),
     env_uuid_display = (\<lambda>u. ''u''), env_reason_json = (\<lambda>r. r), env_peer_json = (\<lambda>p. p),
     env_votes_json = (\<lambda>v r. ''v'')\<rparr>"

definition sample_config :: kill_gate_config where
  "sample_config = kill_gate_config_default\<lparr>cfg_authenticated_cluster_membership := True\<rparr>"

definition sample_vote :: "uuid \<Rightarrow> resume_vote" where
  "sample_vote n = \<lparr>rv_node_id = n, rv_reason = ''ok'', rv_initiated_by = ''op'', rv_voted_at = 0\<rparr>"

lemmas sample_defs = sample_env_def sample_config_def sample_vote_def kill_gate_config_default_def
  kill_gate_new_def close_def begin_propagation_def record_ack_def cast_resume_vote_def
  ensure_tracker_def push_event_def gate_event_def is_closed_def resume_permitted_def
  quorum_tracker_new_def cast_vote_def has_quorum_def effective_quorum_def vote_count_def
  state_bytes fcard_finsert_if

theorem gate_chain_intact_witness:
  "prefix (kg_chain (gate_run sample_env 1 sample_config [GOp (OpClose 0 0 ''x'')]))
     (kg_chain (gate_run sample_env 1 sample_config
        ([GOp (OpClose 0 0 ''x'')] @ [GSnapshot 1 1, GOp (OpAck 2 9 3), GRollback 0 3 3])))"
  using gate_chain_intact [of sample_env 1 sample_config "[GOp (OpClose 0 0 ''x'')]"
      "[GSnapshot 1 1, GOp (OpAck 2 9 3), GRollback 0 3 3]"]
  by (simp add: snapshots_of_def gate_runtime_of_def)

theorem reopen_needs_quorum_witness:
  "let rs = [GOp (OpClose 0 0 ''x''), GOp (OpVote 1 (sample_vote 7) 3)]
   in is_closed (gate_run sample_env 1 sample_config rs) \<and>
      \<not> is_closed (gate_run sample_env 1 sample_config (rs @ [GOp (OpVote 2 (sample_vote 8) 3)])) \<and>
      (let rnd = vote_round sample_env 1 sample_config (live_ops rs) @ [OpVote 2 (sample_vote 8) 3]
       in round_quorum sample_config rnd \<le> card (trace_voters rnd))"
proof -
  let ?rs = "[GOp (OpClose 0 0 ''x''), GOp (OpVote 1 (sample_vote 7) 3)]"
  have 1: "is_closed (gate_run sample_env 1 sample_config ?rs)"
    by (simp add: gate_run_def gate_runtime_of_def sample_defs Let_def fcard.rep_eq)
  have 2: "\<not> is_closed (gate_run sample_env 1 sample_config (?rs @ [GOp (OpVote 2 (sample_vote 8) 3)]))"
    by (simp add: gate_run_def gate_runtime_of_def sample_defs Let_def)
  from reopen_needs_quorum [OF 1, of "GOp (OpVote 2 (sample_vote 8) 3)"] 1 2 show ?thesis
    unfolding Let_def by auto
qed

text \<open>
  Without authenticated cluster membership a closed gate stays closed, whatever happens:
  no vote, acknowledgement or restart opens it.
\<close>

theorem unauthenticated_gate_latches:
  assumes "is_closed g" "\<not> resume_permitted g"
  shows "is_closed (foldl (gate_step env) g ops)"
  using gate_latch.inv_run assms by blast

theorem unauthenticated_gate_latches_witness:
  "is_closed (foldl (gate_step sample_env)
     (snd (close sample_env 0 0 ''x'' (kill_gate_new 1 kill_gate_config_default)))
     [OpVote 1 (sample_vote 7) 1, OpAck 2 9 2, OpRestart 3 3 9 9])"
  by (rule unauthenticated_gate_latches) (simp_all add: sample_defs Let_def)

text \<open>
  Crash recovery: a gate rebuilt from its persisted state has the same node, state,
  reason, acknowledgements, chain and votes, and the propagation time-out has kept running
  during the downtime: a propagation started \<open>w\<close> ago and restored after a downtime \<open>d\<close> counts
  as started \<open>w + d\<close> ago.
\<close>

theorem gate_round_trip:
  assumes "gate_wf env g" "\<not> kg_poisoned g" "kg_propagation_start g = Some start"
    and "start \<le> i" "i - start \<le> CHRONO_MAX" "u \<le> u'" "i - start + nat (u' - u) \<le> i'"
  shows "gate_from_persisted_state u' i' (kg_config g) (persisted_state u i g) =
      g\<lparr>kg_propagation_start := Some (i' - (i - start + nat (u' - u)))\<rparr>"
  using assms(2) round_trip_start [OF assms(4-7)] gate_wfD(4) [OF assms(1)]
  by (simp add: gate_from_persisted_state_def persisted_state_def assms(3) state_known_def)

theorem gate_round_trip_witness:
  "let g = snd (close sample_env 0 5 ''x'' (kill_gate_new 1 sample_config)) in
   gate_from_persisted_state 20 100 (kg_config g) (persisted_state 10 8 g) =
     g\<lparr>kg_propagation_start := Some (100 - (8 - 5 + nat (20 - 10)))\<rparr>"
proof -
  let ?g = "snd (close sample_env 0 5 ''x'' (kill_gate_new 1 sample_config))"
  have "gate_wf sample_env ?g"
    using gate_wf_step [OF gate_wf_new, of sample_env 1 sample_config "OpClose 0 5 ''x''"] by simp
  from gate_round_trip [OF this, of 5 8 10 20 100] show ?thesis
    by (simp add: kill_gate_new_def CHRONO_MAX_def Let_def)
qed

text \<open>
  Closing a gate again does not discard the votes already cast: a node that is one vote
  short of its quorum and receives a new close order is reopened by the next vote of another
  node, although that node is the only one that voted after the new close.
\<close>

theorem votes_survive_close:
  assumes "resume_permitted g" "kg_quorum_tracker g = Some t"
    and "Suc (fcard (qt_votes t)) = qt_required t" "rv_node_id v |\<notin>| qt_votes t"
  shows "is_closed (snd (close env now i r g)) \<and>
    \<not> is_closed (snd (cast_resume_vote env now' v n (snd (close env now i r g))))"
proof -
  let ?g = "snd (close env now i r g)"
  have p: "resume_permitted ?g" "is_closed ?g"
    using assms(1) by (simp_all add: resume_permitted_def is_closed_def)
  moreover have "reaches_quorum ?g v n"
    using assms(2-4) by (simp add: reaches_quorum_def vote_tracker_def fcard_finsert_if)
  ultimately show ?thesis using vote_counted(5) [OF p] by (simp add: is_closed_def)
qed

theorem votes_survive_close_witness:
  "let g = foldl (gate_step sample_env) (kill_gate_new 1 sample_config)
         [OpClose 0 0 ''first'', OpVote 1 (sample_vote 7) 3];
       g' = snd (close sample_env 5 5 ''second'' g)
   in is_closed g' \<and> \<not> is_closed (snd (cast_resume_vote sample_env 6 (sample_vote 8) 3 g'))"
proof -
  let ?g = "foldl (gate_step sample_env) (kill_gate_new 1 sample_config)
         [OpClose 0 0 ''first'', OpVote 1 (sample_vote 7) 3]"
  have "resume_permitted ?g" by (simp add: resume_permitted_def sample_defs Let_def)
  from votes_survive_close [OF this, of "\<lparr>qt_required = 2, qt_votes = {|7|},
      qt_vote_log = [sample_vote 7]\<rparr>" "sample_vote 8" sample_env 5 5 "''second''" 6 3]
  show ?thesis by (simp add: sample_defs Let_def)
qed

text \<open>
  An acknowledgement that arrives after the gate was reopened closes it again: in a
  cluster of two, any acknowledgement puts an open gate into the confirmed state, with no
  close order and no reason recorded.
\<close>

theorem late_ack_closes_open_gate:
  assumes "\<not> is_closed g" "cluster_size \<le> 2"
  shows "fst (record_ack env now peer cluster_size g) \<and>
    is_closed (snd (record_ack env now peer cluster_size g)) \<and>
    kg_closed_at (snd (record_ack env now peer cluster_size g)) = kg_closed_at g"
proof -
  have "fst (record_ack env now peer cluster_size g)"
    using assms(2) by (cases "kg_acked_nodes g") (auto simp: record_ack_def Let_def)
  then show ?thesis by (auto simp: is_closed_def) (simp add: record_ack_def Let_def push_event_def)
qed

theorem late_ack_closes_open_gate_witness:
  "let g = foldl (gate_step sample_env) (kill_gate_new 1 sample_config)
         [OpClose 0 0 ''first'', OpVote 1 (sample_vote 7) 2, OpVote 1 (sample_vote 8) 2]
   in \<not> is_closed g \<and> is_closed (snd (record_ack sample_env 3 9 2 g))"
proof -
  let ?g = "foldl (gate_step sample_env) (kill_gate_new 1 sample_config)
         [OpClose 0 0 ''first'', OpVote 1 (sample_vote 7) 2, OpVote 1 (sample_vote 8) 2]"
  have "\<not> is_closed ?g" by (simp add: sample_defs Let_def)
  from late_ack_closes_open_gate [OF this, of 2] this show ?thesis by (simp only: Let_def) simp
qed

end
