(* ===== verification/Gate_Relay.thy ===== *)
theory Gate_Relay
  imports Kill_Gate Kill_Switch
begin

section \<open>The gate relay and the bridge to the kill switch\<close>

text \<open>
  \<^verbatim>\<open>ghost-kill-gates/src/relay.rs\<close>, the messages nodes exchange about their gates, and
  \<^verbatim>\<open>ghost-gateway/src/safety/kill_gate_bridge.rs\<close>, which ties a gate to the local kill switch.
  In the sources the bridge and the relay share one gate through an \<^verbatim>\<open>Arc\<close>; here the relay
  holds it and the bridge reaches it through the relay.
\<close>

record peer_node =
  pn_node_id :: uuid
  pn_endpoint :: string
  pn_last_heartbeat :: "datetime option"
  pn_is_alive :: bool

datatype gate_relay_message =
  CloseNotification uuid gate_chain_event
| CloseAck uuid uuid hash32
| Heartbeat uuid u8 nat datetime
| ResumeVoteBroadcast uuid string string

record gate_relay =
  relay_gate :: kill_gate
  relay_peers :: "(uuid, peer_node) btree_map"
  relay_last_heartbeat_sent :: "instant option"

definition relay_new :: "kill_gate \<Rightarrow> gate_relay" where
  "relay_new g = \<lparr>relay_gate = g, relay_peers = bt_new, relay_last_heartbeat_sent = None\<rparr>"

definition add_peer :: "peer_node \<Rightarrow> gate_relay \<Rightarrow> gate_relay" where
  "add_peer p r = r\<lparr>relay_peers := bt_insert (pn_node_id p) p (relay_peers r)\<rparr>"

definition remove_peer :: "uuid \<Rightarrow> gate_relay \<Rightarrow> gate_relay" where
  "remove_peer n r = r\<lparr>relay_peers := bt_remove n (relay_peers r)\<rparr>"

definition peer_count :: "gate_relay \<Rightarrow> nat" where
  "peer_count r = bt_len (relay_peers r)"

definition cluster_size :: "gate_relay \<Rightarrow> nat" where
  "cluster_size r = bt_len (relay_peers r) + 1"

definition alive_peers :: "gate_relay \<Rightarrow> peer_node list" where
  "alive_peers r = filter pn_is_alive (bt_values (relay_peers r))"

definition build_close_notification :: "gate_relay \<Rightarrow> gate_chain_event \<Rightarrow> gate_relay_message" where
  "build_close_notification r e = CloseNotification (kg_node_id (relay_gate r)) e"

text \<open>The clock readings of \<^verbatim>\<open>close\<close>, \<^verbatim>\<open>record_ack\<close> and the vote are the arguments \<open>now\<close>
  and \<open>inst_now\<close>.\<close>

fun process_message :: "gate_env \<Rightarrow> datetime \<Rightarrow> instant \<Rightarrow> gate_relay_message \<Rightarrow> gate_relay \<Rightarrow>
    gate_relay_message option \<times> gate_relay" where
  "process_message env now inst_now (CloseNotification origin_node ev) r =
     (let g = (if \<not> is_closed (relay_gate r)
               then snd (close env now inst_now
                 (''propagated from node '' @ env_uuid_display env origin_node) (relay_gate r))
               else relay_gate r);
          chain_head =
            (if kg_chain g = [] then GENESIS_HASH else ge_event_hash (last (kg_chain g)))
      in (Some (CloseAck (kg_node_id g) origin_node chain_head), r\<lparr>relay_gate := g\<rparr>))"
| "process_message env now inst_now (CloseAck acking_node origin_node h) r =
     (if origin_node = kg_node_id (relay_gate r)
      then (None, r\<lparr>relay_gate :=
              snd (record_ack env now acking_node (cluster_size r) (relay_gate r))\<rparr>)
      else (None, r))"
| "process_message env now inst_now (Heartbeat node_id st len ts) r =
     (None, r\<lparr>relay_peers := bt_modify node_id
        (\<lambda>p. p\<lparr>pn_last_heartbeat := Some ts, pn_is_alive := True\<rparr>) (relay_peers r)\<rparr>)"
| "process_message env now inst_now (ResumeVoteBroadcast node_id reason initiated_by) r =
     (if \<not> resume_permitted (relay_gate r) then (None, r)
      else
        let vote = \<lparr>rv_node_id = node_id, rv_reason = reason, rv_initiated_by = initiated_by,
                    rv_voted_at = now\<rparr>
        in (None, r\<lparr>relay_gate :=
              snd (cast_resume_vote env now vote (cluster_size r) (relay_gate r))\<rparr>))"

fun gate_state_discriminant :: "gate_state \<Rightarrow> u8" where
  "gate_state_discriminant gate_state.Normal = 0"
| "gate_state_discriminant GateClosed = 1"
| "gate_state_discriminant Propagating = 2"
| "gate_state_discriminant Confirmed = 3"
| "gate_state_discriminant QuorumResume = 4"

definition build_heartbeat ::
  "datetime \<Rightarrow> instant \<Rightarrow> gate_relay \<Rightarrow> gate_relay_message \<times> gate_relay" where
  "build_heartbeat now inst_now r =
     (let snap = gate_snapshot_of (relay_gate r)
      in (Heartbeat (kg_node_id (relay_gate r)) (gate_state_discriminant (gs_state snap))
            (gs_chain_length snap) now,
          r\<lparr>relay_last_heartbeat_sent := Some inst_now\<rparr>))"

record kill_gate_bridge =
  br_kill_switch :: kill_switch
  br_relay :: gate_relay

definition bridge_new :: "uuid \<Rightarrow> kill_switch \<Rightarrow> kill_gate_config \<Rightarrow> kill_gate_bridge" where
  "bridge_new node ks cfg =
     \<lparr>br_kill_switch = ks, br_relay = relay_new (kill_gate_new node cfg)\<rparr>"

definition bridge_from_persisted_state ::
  "datetime \<Rightarrow> instant \<Rightarrow> kill_switch \<Rightarrow> kill_gate_config \<Rightarrow> persisted_gate_state \<Rightarrow>
   kill_gate_bridge" where
  "bridge_from_persisted_state utc_now inst_now ks cfg p =
     \<lparr>br_kill_switch = ks,
      br_relay = relay_new (gate_from_persisted_state utc_now inst_now cfg p)\<rparr>"

definition close_and_propagate ::
  "gate_env \<Rightarrow> datetime \<Rightarrow> instant \<Rightarrow> string \<Rightarrow> kill_gate_bridge \<Rightarrow>
   gate_relay_message \<times> kill_gate_bridge" where
  "close_and_propagate env now inst_now reason b =
     (let (ev, g) = close env now inst_now reason (relay_gate (br_relay b));
          g = begin_propagation g;
          b = b\<lparr>br_relay := (br_relay b)\<lparr>relay_gate := g\<rparr>\<rparr>
      in (build_close_notification (br_relay b) ev, b))"

definition is_gate_closed :: "kill_gate_bridge \<Rightarrow> bool" where
  "is_gate_closed b = is_closed (relay_gate (br_relay b))"

subsection \<open>The relay drives the gate\<close>

definition relay_step ::
  "gate_env \<Rightarrow> gate_relay \<Rightarrow> datetime \<times> instant \<times> gate_relay_message \<Rightarrow> gate_relay" where
  "relay_step env r m = (case m of (now, inst_now, msg) \<Rightarrow> snd (process_message env now inst_now msg r))"


text \<open>Collecting acknowledgements.\<close>

definition ack_from :: "gate_relay \<Rightarrow> datetime \<times> instant \<times> hash32 \<times> uuid \<Rightarrow>
    datetime \<times> instant \<times> gate_relay_message" where
  "ack_from r a = (case a of (now, i, h, peer) \<Rightarrow>
     (now, i, CloseAck peer (kg_node_id (relay_gate r)) h))"

definition ack_peer :: "datetime \<times> instant \<times> hash32 \<times> uuid \<Rightarrow> uuid" where
  "ack_peer a = snd (snd (snd a))"

lemma ack_step:
  assumes "kg_node_id (relay_gate r) = kg_node_id (relay_gate r0)"
  shows "relay_peers (relay_step env r (ack_from r0 a)) = relay_peers r"
    and "kg_node_id (relay_gate (relay_step env r (ack_from r0 a))) = kg_node_id (relay_gate r)"
    and "set (kg_acked_nodes (relay_gate (relay_step env r (ack_from r0 a)))) =
      insert (ack_peer a) (set (kg_acked_nodes (relay_gate r)))"
    and "distinct (kg_acked_nodes (relay_gate (relay_step env r (ack_from r0 a)))) =
      distinct (kg_acked_nodes (relay_gate r))"
    and "kg_state (relay_gate (relay_step env r (ack_from r0 a))) =
      (if length (kg_acked_nodes (relay_gate (relay_step env r (ack_from r0 a)))) \<ge> peer_count r
       then STATE_CONFIRMED else kg_state (relay_gate r))"
proof -
  obtain now i h p where a: "a = (now, i, h, p)" by (cases a)
  have step: "relay_step env r (ack_from r0 a) =
      r\<lparr>relay_gate := snd (record_ack env now p (cluster_size r) (relay_gate r))\<rparr>"
    using assms by (simp add: a relay_step_def ack_from_def)
  show "relay_peers (relay_step env r (ack_from r0 a)) = relay_peers r"
    "kg_node_id (relay_gate (relay_step env r (ack_from r0 a))) = kg_node_id (relay_gate r)"
    "set (kg_acked_nodes (relay_gate (relay_step env r (ack_from r0 a)))) =
      insert (ack_peer a) (set (kg_acked_nodes (relay_gate r)))"
    "distinct (kg_acked_nodes (relay_gate (relay_step env r (ack_from r0 a)))) =
      distinct (kg_acked_nodes (relay_gate r))"
    unfolding step by (simp_all add: a ack_peer_def)
  show "kg_state (relay_gate (relay_step env r (ack_from r0 a))) =
      (if length (kg_acked_nodes (relay_gate (relay_step env r (ack_from r0 a)))) \<ge> peer_count r
       then STATE_CONFIRMED else kg_state (relay_gate r))"
    unfolding step
    by (auto simp: record_ack_def Let_def push_event_def cluster_size_def peer_count_def)
qed

lemma acks_run:
  fixes env :: gate_env
  assumes "kg_acked_nodes (relay_gate r) = []" "kg_state (relay_gate r) = STATE_PROPAGATING"
  defines "run \<equiv> \<lambda>acks. foldl (relay_step env) r (map (ack_from r) acks)"
  shows "relay_peers (run acks) = relay_peers r \<and>
    kg_node_id (relay_gate (run acks)) = kg_node_id (relay_gate r) \<and>
    distinct (kg_acked_nodes (relay_gate (run acks))) \<and>
    set (kg_acked_nodes (relay_gate (run acks))) = ack_peer ` set acks \<and>
    kg_state (relay_gate (run acks)) =
      (if acks \<noteq> [] \<and> peer_count r \<le> card (ack_peer ` set acks)
       then STATE_CONFIRMED else STATE_PROPAGATING)"
proof (induction acks rule: rev_induct)
  case Nil
  then show ?case using assms by simp
next
  case (snoc a acks)
  have run: "run (acks @ [a]) = relay_step env (run acks) (ack_from r a)" by (simp add: run_def)
  have node: "kg_node_id (relay_gate (run acks)) = kg_node_id (relay_gate r)" using snoc by simp
  note step = ack_step [OF node, of env a]
  let ?acked = "kg_acked_nodes (relay_gate (relay_step env (run acks) (ack_from r a)))"
  have "length ?acked = card (set ?acked)"
    using snoc step(4) by (simp add: distinct_card)
  then have len: "length ?acked = card (ack_peer ` set (acks @ [a]))"
    using snoc step(3) by simp
  moreover have "card (ack_peer ` set acks) \<le> card (ack_peer ` set (acks @ [a]))"
    by (intro card_mono) auto
  moreover have "peer_count (run acks) = peer_count r" using snoc by (simp add: peer_count_def)
  ultimately have "kg_state (relay_gate (run (acks @ [a]))) =
      (if peer_count r \<le> card (ack_peer ` set (acks @ [a]))
       then STATE_CONFIRMED else STATE_PROPAGATING)"
    using snoc step(5) unfolding run by auto
  with snoc step(1-4) show ?case unfolding run by simp
qed

subsection \<open>Properties\<close>


















text \<open>
  Kill propagation: after the bridge closes its gate the gate is propagating, and as
  acknowledgements arrive, in any order and with repetitions, it becomes confirmed exactly
  when as many distinct nodes have acknowledged as there are peers; it is never open.
\<close>

theorem propagation_confirms_on_all_acks:
  "let b' = snd (close_and_propagate env now i reason b);
       r = br_relay b';
       r' = foldl (relay_step env) r (map (ack_from r) acks)
   in kg_state (relay_gate r') =
        (if acks \<noteq> [] \<and> peer_count r \<le> card (ack_peer ` set acks)
         then STATE_CONFIRMED else STATE_PROPAGATING) \<and>
      is_closed (relay_gate r') \<and> br_kill_switch b' = br_kill_switch b"
proof -
  let ?b = "snd (close_and_propagate env now i reason b)"
  have "relay_gate (br_relay ?b) = begin_propagation (snd (close env now i reason (relay_gate (br_relay b))))"
    "br_kill_switch ?b = br_kill_switch b"
    by (simp_all add: close_and_propagate_def Let_def split: prod.splits)
  moreover from this have "kg_acked_nodes (relay_gate (br_relay ?b)) = []"
    "kg_state (relay_gate (br_relay ?b)) = STATE_PROPAGATING"
    by (simp_all add: begin_propagation_def)
  ultimately show ?thesis
    using acks_run [of "br_relay ?b" env acks] by (simp add: Let_def is_closed_def)
qed

text \<open>
  A close notification closes the receiving gate, whatever its state, and is answered by
  an acknowledgement that names the receiver, the origin and the head of the receiver's chain
  after the close; an already closed gate is left as it is.
\<close>

theorem close_notification_closes:
  "let (reply, r') = process_message env now i (CloseNotification origin ev) r in
   is_closed (relay_gate r') \<and>
   reply = Some (CloseAck (kg_node_id (relay_gate r)) origin
     (head_hash ge_event_hash GENESIS_HASH (kg_chain (relay_gate r')))) \<and>
   (if is_closed (relay_gate r) then r' = r
    else length (kg_chain (relay_gate r')) = Suc (length (kg_chain (relay_gate r))))"
  by (simp add: Let_def head_hash_def is_closed_def)

end
