(* ===== verification/Temporal_Chain.thy ===== *)
theory Temporal_Chain
  imports Hash_Log
begin

section \<open>The memory event hash chain\<close>

text \<open>
  \<^verbatim>\<open>cortex-temporal/src/hash_chain.rs\<close>: the chain of memory events and its verifier. The
  verifier first looks for a repeated event hash and then walks the chain from the genesis
  hash; the two loops are \<open>duplicate_loop\<close> and \<open>link_loop\<close>, with the loop index as an
  argument. \<open>blake3\<close> is the hash function of the crate of that name, from byte strings to
  32 bytes.
\<close>

record chain_event =
  event_type :: string
  delta_json :: string
  actor_id :: string
  recorded_at :: string
  event_hash :: hash32
  previous_hash :: hash32

datatype chain_error = BrokenLink nat | HashMismatch nat | DuplicateHash nat nat

definition event_preimage :: "string \<Rightarrow> string \<Rightarrow> string \<Rightarrow> string \<Rightarrow> hash32 \<Rightarrow> byte_seq" where
  "event_preimage et delta actor rec_at prev =
     as_bytes et @ as_bytes ''|'' @ as_bytes delta @ as_bytes ''|'' @ as_bytes actor @
     as_bytes ''|'' @ as_bytes rec_at @ as_bytes ''|'' @ hash_bytes prev"

definition compute_event_hash ::
  "(byte_seq \<Rightarrow> hash32) \<Rightarrow> string \<Rightarrow> string \<Rightarrow> string \<Rightarrow> string \<Rightarrow> hash32 \<Rightarrow> hash32" where
  "compute_event_hash blake3 et delta actor rec_at prev =
     blake3 (event_preimage et delta actor rec_at prev)"

record chain_verification =
  total_events :: nat
  verified_events :: nat
  is_valid :: bool
  cv_error :: "chain_error option"

definition first_position :: "chain_event list \<Rightarrow> hash32 \<Rightarrow> nat" where
  "first_position events h = length (takeWhile (\<lambda>e. event_hash e \<noteq> h) events)"

fun duplicate_loop ::
  "chain_event list \<Rightarrow> hash32 set \<Rightarrow> nat \<Rightarrow> chain_event list \<Rightarrow> (nat \<times> nat) option" where
  "duplicate_loop events seen i [] = None"
| "duplicate_loop events seen i (e # es) =
     (if event_hash e \<in> seen then Some (first_position events (event_hash e), i)
      else duplicate_loop events (insert (event_hash e) seen) (Suc i) es)"

definition recompute_hash :: "(byte_seq \<Rightarrow> hash32) \<Rightarrow> chain_event \<Rightarrow> hash32" where
  "recompute_hash blake3 e =
     compute_event_hash blake3 (event_type e) (delta_json e) (actor_id e) (recorded_at e)
       (previous_hash e)"

fun link_loop ::
  "(byte_seq \<Rightarrow> hash32) \<Rightarrow> hash32 \<Rightarrow> nat \<Rightarrow> chain_event list \<Rightarrow> (nat \<times> chain_error) option" where
  "link_loop blake3 expected_previous i [] = None"
| "link_loop blake3 expected_previous i (e # es) =
     (if previous_hash e \<noteq> expected_previous then Some (i, BrokenLink i)
      else if recompute_hash blake3 e \<noteq> event_hash e then Some (i, HashMismatch i)
      else link_loop blake3 (event_hash e) (Suc i) es)"

definition verify_chain :: "(byte_seq \<Rightarrow> hash32) \<Rightarrow> chain_event list \<Rightarrow> chain_verification" where
  "verify_chain blake3 events =
     (if events = [] then
        \<lparr>total_events = 0, verified_events = 0, is_valid = True, cv_error = None\<rparr>
      else case duplicate_loop events {} 0 events of
        Some (first, i) \<Rightarrow>
          \<lparr>total_events = length events, verified_events = i, is_valid = False,
           cv_error = Some (DuplicateHash first i)\<rparr>
      | None \<Rightarrow>
          (case link_loop blake3 GENESIS_HASH 0 events of
             Some (i, err) \<Rightarrow>
               \<lparr>total_events = length events, verified_events = i, is_valid = False,
                cv_error = Some err\<rparr>
           | None \<Rightarrow>
               \<lparr>total_events = length events, verified_events = length events, is_valid = True,
                cv_error = None\<rparr>))"

text \<open>
  A row of \<^verbatim>\<open>memory_events\<close> as the query returns it; a hash column that does not hold 32 bytes
  is read as zero bytes. The database delivers the distinct memory ids and, per memory, its rows
  in event order, or an error message.
\<close>

record event_row =
  row_event_type :: string
  row_delta :: string
  row_actor_id :: string
  row_recorded_at :: string
  row_event_hash :: byte_seq
  row_previous_hash :: byte_seq

definition hash_of_blob :: "byte_seq \<Rightarrow> hash32" where
  "hash_of_blob bs = (if length bs = 32 then word_rcat bs else 0)"

definition load_chain_events :: "(string + event_row list) \<Rightarrow> string + chain_event list" where
  "load_chain_events rows =
     (case rows of Inl e \<Rightarrow> Inl e
      | Inr rs \<Rightarrow> Inr (map (\<lambda>r. \<lparr>event_type = row_event_type r, delta_json = row_delta r,
            actor_id = row_actor_id r, recorded_at = row_recorded_at r,
            event_hash = hash_of_blob (row_event_hash r),
            previous_hash = hash_of_blob (row_previous_hash r)\<rparr>) rs))"

fun verify_memories ::
  "(byte_seq \<Rightarrow> hash32) \<Rightarrow> (string \<Rightarrow> string + event_row list) \<Rightarrow> string list \<Rightarrow>
   string + chain_verification list" where
  "verify_memories blake3 rows_of [] = Inr []"
| "verify_memories blake3 rows_of (memory_id # ids) =
     (case load_chain_events (rows_of memory_id) of Inl e \<Rightarrow> Inl e
      | Inr events \<Rightarrow>
          (let result = verify_chain blake3 events in
           case verify_memories blake3 rows_of ids of Inl e \<Rightarrow> Inl e
           | Inr broken \<Rightarrow> Inr (if \<not> is_valid result then result # broken else broken)))"

definition verify_all_chains ::
  "(byte_seq \<Rightarrow> hash32) \<Rightarrow> string + string list \<Rightarrow> (string \<Rightarrow> string + event_row list) \<Rightarrow>
   string + chain_verification list" where
  "verify_all_chains blake3 memory_ids rows_of =
     (case memory_ids of Inl e \<Rightarrow> Inl e | Inr ids \<Rightarrow> verify_memories blake3 rows_of ids)"

subsection \<open>The log interface\<close>

abbreviation chain_preimage :: "chain_event \<Rightarrow> byte_seq" where
  "chain_preimage e \<equiv> event_preimage (event_type e) (delta_json e) (actor_id e) (recorded_at e)
     (previous_hash e)"

lemma event_preimage_prev:
  "event_preimage et d a r p = event_preimage et' d' a' r' p' \<Longrightarrow> p = p'"
proof -
  assume "event_preimage et d a r p = event_preimage et' d' a' r' p'"
  then have "(as_bytes et @ as_bytes ''|'' @ as_bytes d @ as_bytes ''|'' @ as_bytes a @
      as_bytes ''|'' @ as_bytes r @ as_bytes ''|'') @ hash_bytes p =
    (as_bytes et' @ as_bytes ''|'' @ as_bytes d' @ as_bytes ''|'' @ as_bytes a' @
      as_bytes ''|'' @ as_bytes r' @ as_bytes ''|'') @ hash_bytes p'"
    by (simp add: event_preimage_def)
  then show ?thesis using append_hash_bytes_inject by blast
qed

interpretation mem_log: hash_log previous_hash event_hash "recompute_hash blake3"
  chain_preimage blake3 for blake3
  by unfold_locales
    (auto simp: recompute_hash_def compute_event_hash_def dest: event_preimage_prev)

subsection \<open>The loops\<close>

lemma duplicate_loop_None:
  "duplicate_loop events seen i es = None \<longleftrightarrow>
     distinct (map event_hash es) \<and> event_hash ` set es \<inter> seen = {}"
  by (induction es arbitrary: seen i) auto

lemma duplicate_loop_Some:
  assumes "duplicate_loop events seen i es = Some (f, j)"
  obtains k where "j = i + k" "k < length es" "distinct (map event_hash (take k es))"
    "event_hash ` set (take k es) \<inter> seen = {}"
    "event_hash (es ! k) \<in> seen \<union> event_hash ` set (take k es)"
    "f = first_position events (event_hash (es ! k))"
  using assms
proof (induction es arbitrary: seen i thesis)
  case (Cons e es)
  show ?case
  proof (cases "event_hash e \<in> seen")
    case True
    then show ?thesis using Cons.prems by (intro Cons.prems(1) [of 0]) auto
  next
    case False
    then have "duplicate_loop events (insert (event_hash e) seen) (Suc i) es = Some (f, j)"
      using Cons.prems by simp
    from Cons.IH [OF _ this] obtain k where k: "j = Suc i + k" "k < length es"
      "distinct (map event_hash (take k es))"
      "event_hash ` set (take k es) \<inter> insert (event_hash e) seen = {}"
      "event_hash (es ! k) \<in> insert (event_hash e) seen \<union> event_hash ` set (take k es)"
      "f = first_position events (event_hash (es ! k))" by blast
    then show ?thesis using False by (intro Cons.prems(1) [of "Suc k"]) auto
  qed
qed simp

lemma link_loop_None:
  "link_loop blake3 p i es = None \<longleftrightarrow> mem_log.chain_ok blake3 p es"
  by (induction es arbitrary: p i) auto

lemma link_loop_Some:
  assumes "link_loop blake3 p i es = Some (j, err)"
  obtains k where "j = i + k" "k < length es" "mem_log.chain_ok blake3 p (take k es)"
    "err = (if previous_hash (es ! k) \<noteq> head_hash event_hash p (take k es)
            then BrokenLink j else HashMismatch j)"
    "previous_hash (es ! k) = head_hash event_hash p (take k es) \<longrightarrow>
       recompute_hash blake3 (es ! k) \<noteq> event_hash (es ! k)"
  using assms
proof (induction es arbitrary: p i thesis)
  case (Cons e es)
  show ?case
  proof (cases "previous_hash e = p \<and> recompute_hash blake3 e = event_hash e")
    case False
    then show ?thesis using Cons.prems by (intro Cons.prems(1) [of 0]) (auto split: if_splits)
  next
    case True
    then have "link_loop blake3 (event_hash e) (Suc i) es = Some (j, err)"
      using Cons.prems by simp
    from Cons.IH [OF _ this] obtain k where k: "j = Suc i + k" "k < length es"
      "mem_log.chain_ok blake3 (event_hash e) (take k es)"
      "err = (if previous_hash (es ! k) \<noteq> head_hash event_hash (event_hash e) (take k es)
            then BrokenLink j else HashMismatch j)"
      "previous_hash (es ! k) = head_hash event_hash (event_hash e) (take k es) \<longrightarrow>
         recompute_hash blake3 (es ! k) \<noteq> event_hash (es ! k)" by blast
    then show ?thesis using True by (intro Cons.prems(1) [of "Suc k"]) auto
  qed
qed simp

lemma verify_chain_duplicate:
  "duplicate_loop es {} 0 es = Some (f, i) \<Longrightarrow>
   verify_chain blake3 es = \<lparr>total_events = length es, verified_events = i, is_valid = False,
     cv_error = Some (DuplicateHash f i)\<rparr>"
  by (cases es) (auto simp: verify_chain_def)

lemma verify_chain_fault:
  "\<lbrakk>duplicate_loop es {} 0 es = None; link_loop blake3 GENESIS_HASH 0 es = Some (i, err)\<rbrakk> \<Longrightarrow>
   verify_chain blake3 es = \<lparr>total_events = length es, verified_events = i, is_valid = False,
     cv_error = Some err\<rparr>"
  by (cases "es = []") (auto simp: verify_chain_def)

lemma verify_chain_clean:
  "\<lbrakk>duplicate_loop es {} 0 es = None; link_loop blake3 GENESIS_HASH 0 es = None\<rbrakk> \<Longrightarrow>
   verify_chain blake3 es = \<lparr>total_events = length es, verified_events = length es,
     is_valid = True, cv_error = None\<rparr>"
  by (cases "es = []") (auto simp: verify_chain_def)

lemma verify_chain_valid_iff:
  "is_valid (verify_chain blake3 es) \<longleftrightarrow>
     distinct (map event_hash es) \<and> mem_log.chain_ok blake3 GENESIS_HASH es"
proof (cases "duplicate_loop es {} 0 es")
  case None
  then have "distinct (map event_hash es)" using duplicate_loop_None by blast
  then show ?thesis
    using None verify_chain_fault [OF None] verify_chain_clean [OF None]
      link_loop_None [of blake3 GENESIS_HASH 0 es]
    by (cases "link_loop blake3 GENESIS_HASH 0 es") auto
next
  case (Some fi)
  then have "\<not> distinct (map event_hash es)"
    using duplicate_loop_None [of es "{}" 0 es] by auto
  then show ?thesis using Some verify_chain_duplicate [of es] by (cases fi) auto
qed

subsection \<open>What a preimage determines\<close>

definition separator_free :: "chain_event \<Rightarrow> bool" where
  "separator_free e \<longleftrightarrow> CHR ''|'' \<notin> set (event_type e) \<and> CHR ''|'' \<notin> set (actor_id e) \<and>
     CHR ''|'' \<notin> set (recorded_at e)"

lemma byte_of_char_inject [simp]:
  "(word_of_nat (of_char c) :: u8) = word_of_nat (of_char d) \<longleftrightarrow> c = d"
proof
  assume "(word_of_nat (of_char c) :: u8) = word_of_nat (of_char d)"
  then have "unat (word_of_nat (of_char c) :: u8) = unat (word_of_nat (of_char d) :: u8)"
    by simp
  then have "(of_char c :: nat) mod 256 = of_char d mod 256" by (simp add: unsigned_of_nat take_bit_eq_mod)
  then show "c = d" by simp
qed simp

lemma first_separator:
  assumes "CHR ''|'' \<notin> set s" "CHR ''|'' \<notin> set t"
    and "as_bytes s @ as_bytes ''|'' @ x = as_bytes t @ as_bytes ''|'' @ y"
  shows "s = t \<and> x = y"
  using assms
proof (induction s arbitrary: t)
  case Nil
  then show ?case by (cases t) (auto simp: as_bytes_def simp del: of_char_Char)
next
  case (Cons c s)
  then show ?case by (cases t) (auto simp: as_bytes_def simp del: of_char_Char)
qed

lemma last_separator:
  assumes "CHR ''|'' \<notin> set s" "CHR ''|'' \<notin> set t"
    and "x @ as_bytes ''|'' @ as_bytes s = y @ as_bytes ''|'' @ as_bytes t"
  shows "s = t \<and> x = y"
proof -
  have "rev (x @ as_bytes ''|'' @ as_bytes s) = rev (y @ as_bytes ''|'' @ as_bytes t)"
    using assms(3) by simp
  then have "as_bytes (rev s) @ as_bytes ''|'' @ rev x = as_bytes (rev t) @ as_bytes ''|'' @ rev y"
    by (simp add: as_bytes_def rev_map)
  from first_separator [OF _ _ this] assms(1,2) show ?thesis by simp
qed

lemma preimage_fields:
  assumes "separator_free e" "separator_free f" "chain_preimage e = chain_preimage f"
  shows "event_type e = event_type f \<and> delta_json e = delta_json f \<and> actor_id e = actor_id f \<and>
    recorded_at e = recorded_at f \<and> previous_hash e = previous_hash f"
proof -
  note sep = assms(1,2) [unfolded separator_free_def]
  define u where "u g = as_bytes (delta_json g) @ as_bytes ''|'' @ as_bytes (actor_id g)" for g :: chain_event
  define v where "v g = u g @ as_bytes ''|'' @ as_bytes (recorded_at g)" for g :: chain_event
  have split: "chain_preimage g = as_bytes (event_type g) @ as_bytes ''|'' @
      (v g @ as_bytes ''|'') @ hash_bytes (previous_hash g)" for g
    by (simp add: event_preimage_def u_def v_def)
  have "event_type e = event_type f \<and> (v e @ as_bytes ''|'') @ hash_bytes (previous_hash e) =
      (v f @ as_bytes ''|'') @ hash_bytes (previous_hash f)"
    using sep assms(3) [unfolded split] by (intro first_separator) auto
  then have et: "event_type e = event_type f" and prev: "previous_hash e = previous_hash f"
    and "v e = v f"
    unfolding append_hash_bytes_inject by auto
  have "recorded_at e = recorded_at f \<and> u e = u f"
    by (rule last_separator) (use sep \<open>v e = v f\<close> in \<open>auto simp: v_def\<close>)
  moreover from this have "actor_id e = actor_id f \<and> as_bytes (delta_json e) = as_bytes (delta_json f)"
    by (intro last_separator) (use sep in \<open>auto simp: u_def\<close>)
  ultimately show ?thesis using et prev by simp
qed

lemma chain_event_eqI:
  assumes "separator_free e" "separator_free f" "chain_preimage e = chain_preimage f"
    and "recompute_hash blake3 e = event_hash e" "recompute_hash blake3 f = event_hash f"
  shows "e = f"
  using preimage_fields [OF assms(1-3)] assms(4,5)
  by (cases e; cases f) (simp add: recompute_hash_def)

lemma chain_ok_hash:
  "mem_log.chain_ok blake3 p es \<Longrightarrow> e \<in> set es \<Longrightarrow> recompute_hash blake3 e = event_hash e"
  by (induction es arbitrary: p) auto

lemma list_eq_by_image:
  assumes "map f xs = map f ys"
    and "\<And>x y. \<lbrakk>x \<in> set xs; y \<in> set ys; f x = f y\<rbrakk> \<Longrightarrow> x = y"
  shows "xs = ys"
  using assms by (metis (no_types, lifting) list.inj_map_strong)

definition chain_of_rows :: "event_row list \<Rightarrow> chain_event list" where
  "chain_of_rows rs = projr (load_chain_events (Inr rs))"

subsection \<open>Properties\<close>

text \<open>
  The verifier accepts exactly the intact chains: the event hashes are pairwise distinct,
  each event stores its predecessor's hash (the first one the genesis hash), and each stored
  hash is the one recomputed from the event's fields.
\<close>

theorem verify_chain_accepts_exactly:
  "is_valid (verify_chain blake3 es) \<longleftrightarrow>
     distinct (map event_hash es) \<and>
     linked previous_hash event_hash (recompute_hash blake3) GENESIS_HASH es"
  by (rule verify_chain_valid_iff)

text \<open>
  A rejection points at the first fault: everything before the reported index is intact,
  and the event at the index repeats an earlier hash, breaks the link or has a wrong hash, as
  the error says.
\<close>

theorem verify_chain_error_index:
  assumes "\<not> is_valid (verify_chain blake3 es)"
  shows "\<exists>i < length es. verified_events (verify_chain blake3 es) = i \<and>
    (case cv_error (verify_chain blake3 es) of
       Some (DuplicateHash f j) \<Rightarrow> j = i \<and> distinct (map event_hash (take i es)) \<and> f < i \<and>
         event_hash (es ! f) = event_hash (es ! i)
     | Some (BrokenLink j) \<Rightarrow> j = i \<and>
         linked previous_hash event_hash (recompute_hash blake3) GENESIS_HASH (take i es) \<and>
         previous_hash (es ! i) \<noteq> head_hash event_hash GENESIS_HASH (take i es)
     | Some (HashMismatch j) \<Rightarrow> j = i \<and>
         linked previous_hash event_hash (recompute_hash blake3) GENESIS_HASH (take i es) \<and>
         recompute_hash blake3 (es ! i) \<noteq> event_hash (es ! i)
     | None \<Rightarrow> False)"
proof (cases "duplicate_loop es {} 0 es")
  case None
  then obtain j err where l: "link_loop blake3 GENESIS_HASH 0 es = Some (j, err)"
    using assms verify_chain_clean [OF None]
    by (cases "link_loop blake3 GENESIS_HASH 0 es") auto
  from l obtain k where "j = 0 + k" "k < length es"
    "mem_log.chain_ok blake3 GENESIS_HASH (take k es)"
    "err = (if previous_hash (es ! k) \<noteq> head_hash event_hash GENESIS_HASH (take k es)
            then BrokenLink j else HashMismatch j)"
    "previous_hash (es ! k) = head_hash event_hash GENESIS_HASH (take k es) \<longrightarrow>
       recompute_hash blake3 (es ! k) \<noteq> event_hash (es ! k)" by (rule link_loop_Some)
  then show ?thesis using verify_chain_fault [OF None l] by auto
next
  case (Some fj)
  then obtain f j where fj: "duplicate_loop es {} 0 es = Some (f, j)" by (cases fj) auto
  then obtain k where k: "j = 0 + k" "k < length es" "distinct (map event_hash (take k es))"
    "event_hash (es ! k) \<in> {} \<union> event_hash ` set (take k es)"
    "f = first_position es (event_hash (es ! k))" by (rule duplicate_loop_Some)
  obtain m where m: "m < k" "event_hash (es ! m) = event_hash (es ! k)"
    using k(2,4) by (auto simp: in_set_conv_nth)
  have "f \<le> m"
    using m k(2) unfolding k(5) first_position_def
    by (metis (mono_tags, lifting) length_takeWhile_le linorder_not_le nth_mem set_takeWhileD
        takeWhile_nth less_le_trans)
  moreover have "event_hash (es ! f) = event_hash (es ! k)"
    using m k(2) \<open>f \<le> m\<close> nth_length_takeWhile [of "\<lambda>e. event_hash e \<noteq> event_hash (es ! k)" es]
    unfolding k(5) first_position_def by auto
  ultimately show ?thesis using verify_chain_duplicate [OF fj] k m by auto
qed

theorem verify_chain_error_index_witness:
  "\<exists>i < 1. verified_events (verify_chain (\<lambda>bs. 7)
       [\<lparr>event_type = ''create'', delta_json = ''{}'', actor_id = ''a'', recorded_at = ''t'',
         event_hash = 8, previous_hash = 0\<rparr>]) = i"
  using verify_chain_error_index [of "\<lambda>bs. 7"
      "[\<lparr>event_type = ''create'', delta_json = ''{}'', actor_id = ''a'', recorded_at = ''t'',
         event_hash = 8, previous_hash = 0\<rparr>]"]
  by (simp add: verify_chain_def recompute_hash_def compute_event_hash_def GENESIS_HASH_def)

text \<open>
  C13. Tamper evidence: two chains that both verify and end in the same hash are the same
  chain, event by event and field by field, provided the hash function has no collision and no
  zero hash among the events involved and the separator \<^verbatim>\<open>|\<close> does not occur in the event
  types, actor ids and timestamps (the delta may contain it).
\<close>

theorem memory_log_tamper_evident:
  assumes "is_valid (verify_chain blake3 es)" "is_valid (verify_chain blake3 fs)"
    and "head_hash event_hash GENESIS_HASH es = head_hash event_hash GENESIS_HASH fs"
    and "inj_on blake3 (chain_preimage ` (set es \<union> set fs))"
    and "GENESIS_HASH \<notin> blake3 ` chain_preimage ` (set es \<union> set fs)"
    and "\<forall>e \<in> set es \<union> set fs. separator_free e"
  shows "es = fs"
proof -
  have ok: "mem_log.chain_ok blake3 GENESIS_HASH es" "mem_log.chain_ok blake3 GENESIS_HASH fs"
    using assms(1,2) by (simp_all add: verify_chain_valid_iff)
  have "map chain_preimage es = map chain_preimage fs"
    by (rule mem_log.head_commits [OF ok assms(3-5)])
  then show ?thesis
    using assms(6) chain_ok_hash [OF ok(1)] chain_ok_hash [OF ok(2)]
    by (auto intro!: list_eq_by_image [of chain_preimage] chain_event_eqI)
qed

theorem memory_log_tamper_evident_witness:
  "let e1 = \<lparr>event_type = ''create'', delta_json = ''{}'', actor_id = ''a'',
              recorded_at = ''t'', event_hash = 46, previous_hash = 0\<rparr>;
       e2 = \<lparr>event_type = ''update'', delta_json = ''{|}'', actor_id = ''a'',
              recorded_at = ''t'', event_hash = 47, previous_hash = 46\<rparr>
   in is_valid (verify_chain (\<lambda>bs. word_of_nat (length bs)) [e1, e2]) \<and> [e1, e2] = [e1, e2]"
proof -
  let ?e1 = "\<lparr>event_type = ''create'', delta_json = ''{}'', actor_id = ''a'',
              recorded_at = ''t'', event_hash = 46, previous_hash = 0\<rparr>"
  let ?e2 = "\<lparr>event_type = ''update'', delta_json = ''{|}'', actor_id = ''a'',
              recorded_at = ''t'', event_hash = 47, previous_hash = 46\<rparr>"
  let ?h = "\<lambda>bs :: byte_seq. word_of_nat (length bs) :: hash32"
  have valid: "is_valid (verify_chain ?h [?e1, ?e2])"
    by (simp add: verify_chain_def recompute_hash_def compute_event_hash_def event_preimage_def
        as_bytes_def GENESIS_HASH_def)
  have inj: "inj_on ?h (chain_preimage ` (set [?e1, ?e2] \<union> set [?e1, ?e2]))"
    by (auto simp: inj_on_def event_preimage_def as_bytes_def)
  have gen: "GENESIS_HASH \<notin> ?h ` chain_preimage ` (set [?e1, ?e2] \<union> set [?e1, ?e2])"
    by (simp add: event_preimage_def as_bytes_def GENESIS_HASH_def)
  have sep: "\<forall>e \<in> set [?e1, ?e2] \<union> set [?e1, ?e2]. separator_free e"
    by (simp add: separator_free_def)
  from memory_log_tamper_evident [OF valid valid refl inj gen sep] valid
  show ?thesis by (simp only: Let_def)
qed

text \<open>
  Without the separator condition the hash does not determine the fields: text moved
  across a separator from the delta to the event type leaves the hash as it was, whatever the
  hash function.
\<close>

theorem separator_ambiguity:
  "compute_event_hash blake3 (x @ ''|'' @ y) delta actor at prev =
   compute_event_hash blake3 x (y @ ''|'' @ delta) actor at prev"
  by (simp add: compute_event_hash_def event_preimage_def as_bytes_def)

text \<open>
  Checking the whole database reports exactly the chains that are not intact, in the
  order of the memories, when every query succeeds.
\<close>

theorem verify_all_chains_complete:
  "verify_all_chains blake3 (Inr ids) (\<lambda>m. Inr (rows m)) =
     Inr (map (verify_chain blake3) (filter (\<lambda>es. \<not> (distinct (map event_hash es) \<and>
       linked previous_hash event_hash (recompute_hash blake3) GENESIS_HASH es))
       (map (\<lambda>m. chain_of_rows (rows m)) ids)))"
proof -
  have "verify_memories blake3 (\<lambda>m. Inr (rows m)) ids =
     Inr (map (verify_chain blake3) (filter (\<lambda>es. \<not> is_valid (verify_chain blake3 es))
       (map (\<lambda>m. chain_of_rows (rows m)) ids)))"
    by (induction ids) (simp_all add: load_chain_events_def Let_def chain_of_rows_def)
  then show ?thesis by (simp add: verify_all_chains_def verify_chain_valid_iff)
qed

end
