(* ===== verification/Merkle.thy ===== *)
theory Merkle
  imports Hash_Log
begin

section \<open>Merkle anchoring of the memory chain\<close>

text \<open>
  \<^verbatim>\<open>cortex-temporal/src/anchoring/merkle.rs\<close>: the tree over the chain's hashes, inclusion proofs
  and their verification. \<open>blake3\<close> is a parameter. Levels have even length except the root's,
  so the incomplete chunk on which the code would panic does not occur (\<open>levels_even\<close>);
  \<open>hash_pairs\<close> drops it.
\<close>

definition hash_pair :: "(byte_seq \<Rightarrow> hash32) \<Rightarrow> hash32 \<Rightarrow> hash32 \<Rightarrow> hash32" where
  "hash_pair blake3 left right = blake3 (hash_bytes left @ hash_bytes right)"

record merkle_tree =
  mt_root :: hash32
  mt_leaves :: "hash32 list"
  mt_nodes :: "hash32 list list"

fun hash_pairs :: "(byte_seq \<Rightarrow> hash32) \<Rightarrow> hash32 list \<Rightarrow> hash32 list" where
  "hash_pairs blake3 (a # b # rest) = hash_pair blake3 a b # hash_pairs blake3 rest"
| "hash_pairs blake3 _ = []"

lemma length_hash_pairs [simp]: "length (hash_pairs blake3 xs) = length xs div 2"
  by (induction blake3 xs rule: hash_pairs.induct) auto

definition pad_level :: "hash32 list \<Rightarrow> hash32 list" where
  "pad_level xs = (if length xs > 1 \<and> length xs mod 2 \<noteq> 0 then xs @ [last xs] else xs)"

lemma length_pad_level:
  "length (pad_level xs) = (if length xs > 1 \<and> odd (length xs) then Suc (length xs) else length xs)"
  by (simp add: pad_level_def odd_iff_mod_2_eq_one)

function build_levels :: "(byte_seq \<Rightarrow> hash32) \<Rightarrow> hash32 list \<Rightarrow> hash32 list list" where
  "build_levels blake3 current_level =
     (if length current_level > 1 then
        (let next_level = pad_level (hash_pairs blake3 current_level)
         in next_level # build_levels blake3 next_level)
      else [])"
  by auto

termination
proof (relation "measure (\<lambda>(_, xs). length xs)")
  fix blake3 :: "byte_seq \<Rightarrow> hash32" and xs x
  assume "1 < length xs" "x = pad_level (hash_pairs blake3 xs)"
  then show "((blake3, x), (blake3, xs)) \<in> measure (\<lambda>(_, xs). length xs)"
    by (auto simp: length_pad_level)
qed simp

declare build_levels.simps [simp del]

definition from_chain :: "(byte_seq \<Rightarrow> hash32) \<Rightarrow> hash32 list \<Rightarrow> merkle_tree" where
  "from_chain blake3 chain_hashes =
     (if chain_hashes = [] then \<lparr>mt_root = 0, mt_leaves = [], mt_nodes = []\<rparr>
      else if length chain_hashes = 1 then
        \<lparr>mt_root = chain_hashes ! 0, mt_leaves = chain_hashes, mt_nodes = [chain_hashes]\<rparr>
      else
        let current_level =
              (if length chain_hashes mod 2 \<noteq> 0 then chain_hashes @ [last chain_hashes]
               else chain_hashes);
            levels = current_level # build_levels blake3 current_level
        in \<lparr>mt_root = last levels ! 0, mt_leaves = chain_hashes, mt_nodes = levels\<rparr>)"

fun proof_loop :: "hash32 list list \<Rightarrow> nat \<Rightarrow> hash32 list" where
  "proof_loop [] idx = []"
| "proof_loop (level # levels) idx =
     (let sibling_idx = (if idx mod 2 = 0 then idx + 1 else idx - 1) in
      (if sibling_idx < length level then [level ! sibling_idx] else []) @
      proof_loop levels (idx div 2))"

definition inclusion_proof :: "merkle_tree \<Rightarrow> nat \<Rightarrow> hash32 list" where
  "inclusion_proof t leaf_index =
     (if leaf_index \<ge> length (mt_leaves t) \<or> mt_nodes t = [] then []
      else proof_loop (take (length (mt_nodes t) - 1) (mt_nodes t)) leaf_index)"

fun verify_loop ::
  "(byte_seq \<Rightarrow> hash32) \<Rightarrow> hash32 \<Rightarrow> hash32 list \<Rightarrow> nat \<Rightarrow> hash32" where
  "verify_loop blake3 current [] idx = current"
| "verify_loop blake3 current (sibling # ps) idx =
     verify_loop blake3
       (if idx mod 2 = 0 then hash_pair blake3 current sibling else hash_pair blake3 sibling current)
       ps (idx div 2)"

definition verify_proof ::
  "(byte_seq \<Rightarrow> hash32) \<Rightarrow> hash32 \<Rightarrow> hash32 \<Rightarrow> hash32 list \<Rightarrow> nat \<Rightarrow> bool" where
  "verify_proof blake3 root leaf ps leaf_index \<longleftrightarrow> verify_loop blake3 leaf ps leaf_index = root"

subsection \<open>Levels\<close>

text \<open>The leaves as the tree uses them: at least two, padded to an even number.\<close>

definition padded :: "hash32 list \<Rightarrow> hash32 list" where
  "padded xs = (if length xs mod 2 \<noteq> 0 then xs @ [last xs] else xs)"

lemma padded_props:
  "even (length (padded xs))" "i < length xs \<Longrightarrow> padded xs ! i = xs ! i"
  "length xs \<le> length (padded xs)" "length xs > 1 \<Longrightarrow> length (padded xs) > 1"
  by (auto simp: padded_def nth_append odd_iff_mod_2_eq_one)

lemma from_chain_nodes:
  "length xs > 1 \<Longrightarrow> mt_nodes (from_chain blake3 xs) = padded xs # build_levels blake3 (padded xs)"
  "length xs > 1 \<Longrightarrow> mt_root (from_chain blake3 xs) = last (padded xs # build_levels blake3 (padded xs)) ! 0"
  "mt_leaves (from_chain blake3 xs) = xs"
  by (auto simp: from_chain_def padded_def Let_def)

definition next_level :: "(byte_seq \<Rightarrow> hash32) \<Rightarrow> hash32 list \<Rightarrow> hash32 list" where
  "next_level blake3 xs = pad_level (hash_pairs blake3 xs)"

lemma build_levels_step:
  "length xs > 1 \<Longrightarrow> build_levels blake3 xs = next_level blake3 xs # build_levels blake3 (next_level blake3 xs)"
  "\<not> length xs > 1 \<Longrightarrow> build_levels blake3 xs = []"
  by (simp_all add: build_levels.simps [of blake3 xs] next_level_def Let_def)

lemma next_level_shape:
  assumes "even (length xs)" "length xs > 1"
  shows "length (next_level blake3 xs) < length xs" "next_level blake3 xs \<noteq> []"
    and "length (next_level blake3 xs) > 1 \<longrightarrow> even (length (next_level blake3 xs))"
proof -
  have "0 < length xs div 2" "length xs div 2 < length xs" using assms by auto
  then show "length (next_level blake3 xs) < length xs" "next_level blake3 xs \<noteq> []"
    "length (next_level blake3 xs) > 1 \<longrightarrow> even (length (next_level blake3 xs))"
    using assms length_pad_level [of "hash_pairs blake3 xs"]
    by (auto simp: next_level_def simp flip: length_greater_0_conv)
qed

lemma hash_pairs_nth:
  "i < length xs div 2 \<Longrightarrow> hash_pairs blake3 xs ! i = hash_pair blake3 (xs ! (2 * i)) (xs ! (2 * i + 1))"
proof (induction blake3 xs arbitrary: i rule: hash_pairs.induct)
  case (1 blake3 a b rest)
  then show ?case by (cases i) auto
qed auto

lemma next_level_nth:
  "i < length xs div 2 \<Longrightarrow>
   next_level blake3 xs ! i = hash_pair blake3 (xs ! (2 * i)) (xs ! (2 * i + 1))"
  by (simp add: next_level_def pad_level_def nth_append hash_pairs_nth)

text \<open>A level of the tree and the root above it.\<close>

definition level_ok :: "hash32 list \<Rightarrow> bool" where
  "level_ok xs \<longleftrightarrow> length xs = 1 \<or> length xs > 1 \<and> even (length xs)"

definition root_of :: "(byte_seq \<Rightarrow> hash32) \<Rightarrow> hash32 list \<Rightarrow> hash32" where
  "root_of blake3 xs = last (xs # build_levels blake3 xs) ! 0"

lemma root_of_simps:
  "length xs = 1 \<Longrightarrow> root_of blake3 xs = xs ! 0"
  "length xs > 1 \<Longrightarrow> root_of blake3 xs = root_of blake3 (next_level blake3 xs)"
  by (simp_all add: root_of_def build_levels_step)

lemma level_induct [consumes 1, case_names root step]:
  assumes "level_ok xs"
    and "\<And>xs. length xs = 1 \<Longrightarrow> P xs"
    and "\<And>xs. \<lbrakk>length xs > 1; even (length xs); level_ok (next_level h xs);
      P (next_level h xs)\<rbrakk> \<Longrightarrow> P xs"
  shows "P xs"
  using assms(1)
proof (induction "length xs" arbitrary: xs rule: less_induct)
  case less
  show ?case
  proof (cases "length xs = 1")
    case False
    then have xs: "even (length xs)" "length xs > 1" using less.prems by (auto simp: level_ok_def)
    note shape = next_level_shape [OF xs, of h]
    then have "length (next_level h xs) \<ge> 1" by (cases "next_level h xs") auto
    then have "level_ok (next_level h xs)" using shape(3) by (auto simp: level_ok_def)
    then show ?thesis using assms(3) xs less.hyps [OF shape(1)] by blast
  qed (rule assms(2))
qed

text \<open>In a level of even length every index has its sibling, and the parent's hash is over the
  two in order.\<close>

definition sibling :: "nat \<Rightarrow> nat" where
  "sibling i = (if i mod 2 = 0 then i + 1 else i - 1)"

lemma sibling_parent:
  assumes "even (length xs)" "i < length xs"
  shows "sibling i < length xs" "i div 2 < length xs div 2" "i div 2 < length (next_level blake3 xs)"
    and "(if i mod 2 = 0 then (2 * (i div 2), 2 * (i div 2) + 1) = (i, sibling i)
          else (2 * (i div 2), 2 * (i div 2) + 1) = (sibling i, i))"
proof -
  obtain m where m: "length xs = 2 * m" using assms(1) by (auto elim: evenE)
  show "sibling i < length xs" using assms(2) m unfolding sibling_def by presburger
  show d: "i div 2 < length xs div 2" using assms(2) m by auto
  then show "i div 2 < length (next_level blake3 xs)"
    by (simp add: next_level_def length_pad_level)
  show "if i mod 2 = 0 then (2 * (i div 2), 2 * (i div 2) + 1) = (i, sibling i)
      else (2 * (i div 2), 2 * (i div 2) + 1) = (sibling i, i)"
    unfolding sibling_def prod.inject by presburger
qed

lemma parent_hash:
  assumes "even (length xs)" "i < length xs"
  shows "next_level blake3 xs ! (i div 2) =
    (if i mod 2 = 0 then hash_pair blake3 (xs ! i) (xs ! sibling i)
     else hash_pair blake3 (xs ! sibling i) (xs ! i))"
  using next_level_nth [OF sibling_parent(2) [OF assms], of blake3]
    sibling_parent(4) [OF assms] by (auto split: if_splits)

lemma proof_verifies:
  assumes "level_ok xs" "i < length xs"
  shows "verify_loop blake3 (xs ! i) (proof_loop (butlast (xs # build_levels blake3 xs)) i) i =
    root_of blake3 xs"
  using assms
proof (induction xs arbitrary: i rule: level_induct [where h = blake3])
  case (root xs)
  then show ?case by (simp add: build_levels_step root_of_simps)
next
  case (step xs)
  note sib = sibling_parent [OF step.hyps(2) step.prems]
  have "proof_loop (butlast (xs # build_levels blake3 xs)) i = xs ! sibling i #
      proof_loop (butlast (next_level blake3 xs # build_levels blake3 (next_level blake3 xs))) (i div 2)"
    using sib(1) by (simp add: build_levels_step(1) [OF step.hyps(1)] sibling_def)
  then show ?case
    using step.IH [OF sib(3)] parent_hash [OF step.hyps(2) step.prems, of blake3]
    by (simp add: root_of_simps(2) [OF step.hyps(1)])
qed

subsection \<open>What a proof commits to\<close>

function tree_pairs :: "(byte_seq \<Rightarrow> hash32) \<Rightarrow> hash32 list \<Rightarrow> (hash32 \<times> hash32) set" where
  "tree_pairs blake3 xs =
     (if length xs > 1
      then {(xs ! (2 * i), xs ! (2 * i + 1)) | i. i < length xs div 2} \<union>
        tree_pairs blake3 (next_level blake3 xs)
      else {})"
  by auto

termination
  by (relation "measure (\<lambda>(_, xs). length xs)") (auto simp: next_level_def length_pad_level)

declare tree_pairs.simps [simp del]

fun path_pairs :: "(byte_seq \<Rightarrow> hash32) \<Rightarrow> hash32 \<Rightarrow> hash32 list \<Rightarrow> nat \<Rightarrow> (hash32 \<times> hash32) set" where
  "path_pairs blake3 current [] idx = {}"
| "path_pairs blake3 current (s # ps) idx =
     (let pair = (if idx mod 2 = 0 then (current, s) else (s, current))
      in insert pair (path_pairs blake3 (hash_pair blake3 (fst pair) (snd pair)) ps (idx div 2)))"

lemma proof_binds:
  assumes "level_ok xs" "i < length xs" "length ps = length (build_levels blake3 xs)"
    and "inj_on (\<lambda>(a, b). hash_pair blake3 a b) (tree_pairs blake3 xs \<union> path_pairs blake3 leaf ps i)"
    and "verify_loop blake3 leaf ps i = root_of blake3 xs"
  shows "leaf = xs ! i"
  using assms
proof (induction xs arbitrary: i ps leaf rule: level_induct [where h = blake3])
  case (root xs)
  then show ?case by (simp add: build_levels_step root_of_simps)
next
  case (step xs)
  note sib = sibling_parent [OF step.hyps(2) step.prems(1)]
  obtain s ps' where ps: "ps = s # ps'" "length ps' = length (build_levels blake3 (next_level blake3 xs))"
    using step.prems(2) by (cases ps) (auto simp: build_levels_step(1) [OF step.hyps(1)])
  define pair where "pair = (if i mod 2 = 0 then (leaf, s) else (s, leaf))"
  define kids where "kids = (xs ! (2 * (i div 2)), xs ! (2 * (i div 2) + 1))"
  have paths: "path_pairs blake3 leaf ps i =
      insert pair (path_pairs blake3 (hash_pair blake3 (fst pair) (snd pair)) ps' (i div 2))"
    by (simp add: ps(1) pair_def Let_def)
  have tree: "tree_pairs blake3 (next_level blake3 xs) \<subseteq> tree_pairs blake3 xs"
    "kids \<in> tree_pairs blake3 xs"
    using step.hyps(1) sib(2) unfolding tree_pairs.simps [of blake3 xs] kids_def by auto
  have "hash_pair blake3 (fst pair) (snd pair) = next_level blake3 xs ! (i div 2)"
  proof (rule step.IH [OF sib(3) ps(2)])
    show "inj_on (\<lambda>(a, b). hash_pair blake3 a b) (tree_pairs blake3 (next_level blake3 xs) \<union>
        path_pairs blake3 (hash_pair blake3 (fst pair) (snd pair)) ps' (i div 2))"
      by (rule inj_on_subset [OF step.prems(3)]) (use tree(1) paths in blast)
    show "verify_loop blake3 (hash_pair blake3 (fst pair) (snd pair)) ps' (i div 2) =
        root_of blake3 (next_level blake3 xs)"
      using step.prems(4) by (simp add: ps(1) pair_def root_of_simps(2) [OF step.hyps(1)] split: if_splits)
  qed
  also have "\<dots> = hash_pair blake3 (fst kids) (snd kids)"
    by (simp add: kids_def next_level_nth [OF sib(2)])
  finally have "(\<lambda>(a, b). hash_pair blake3 a b) pair = (\<lambda>(a, b). hash_pair blake3 a b) kids"
    by (simp add: case_prod_beta)
  then have "pair = kids"
    by (rule inj_onD [OF step.prems(3)]) (use paths tree(2) in auto)
  then show ?case using sib(4) by (auto simp: pair_def kids_def split: if_splits)
qed

lemma level_ok_padded: "length xs > 1 \<Longrightarrow> level_ok (padded xs)"
  using padded_props(1,3,4) [where xs = xs] by (simp add: level_ok_def)

lemma from_chain_single:
  "length xs = 1 \<Longrightarrow> from_chain blake3 xs = \<lparr>mt_root = xs ! 0, mt_leaves = xs, mt_nodes = [xs]\<rparr>"
  by (auto simp: from_chain_def)

lemma root_from_chain: "length xs > 1 \<Longrightarrow> mt_root (from_chain blake3 xs) = root_of blake3 (padded xs)"
  by (simp add: from_chain_nodes(2) root_of_def)

subsection \<open>Properties\<close>

text \<open>
  Completeness of inclusion proofs: for every leaf of a tree of any size, the proof that
  the tree generates for it verifies against the tree's root.
\<close>

theorem merkle_proof_complete:
  assumes "i < length xs"
  shows "verify_proof blake3 (mt_root (from_chain blake3 xs)) (xs ! i)
    (inclusion_proof (from_chain blake3 xs) i) i"
proof (cases "length xs = 1")
  case True
  then show ?thesis
    using assms by (simp add: from_chain_single inclusion_proof_def verify_proof_def)
next
  case False
  then have len: "length xs > 1" using assms by linarith
  have "inclusion_proof (from_chain blake3 xs) i =
      proof_loop (butlast (padded xs # build_levels blake3 (padded xs))) i"
    using assms
    by (simp add: inclusion_proof_def from_chain_nodes(1) [OF len] from_chain_nodes(3)
        butlast_conv_take)
  then show ?thesis
    using proof_verifies [OF level_ok_padded [OF len], of i blake3] padded_props(2,3) [where xs = xs] assms
    by (simp add: verify_proof_def root_from_chain [OF len])
qed

theorem merkle_proof_complete_witness:
  "verify_proof (\<lambda>bs. word_of_nat (length bs)) (mt_root (from_chain (\<lambda>bs. word_of_nat (length bs)) [5, 6, 7]))
     ([5, 6, 7] ! 2) (inclusion_proof (from_chain (\<lambda>bs. word_of_nat (length bs)) [5, 6, 7]) 2) 2"
  by (rule merkle_proof_complete) simp

text \<open>
  C18. Soundness of inclusion proofs: a proof of the tree's depth that verifies for a leaf
  index against the root is a proof of the leaf that is really there, if the hash function does
  not collide on the pairs of the tree and of the proof.
\<close>

theorem merkle_proof_sound:
  assumes "i < length xs" "1 < length xs"
    and "length ps = length (mt_nodes (from_chain blake3 xs)) - 1"
    and "inj_on (\<lambda>(a, b). hash_pair blake3 a b)
      (tree_pairs blake3 (padded xs) \<union> path_pairs blake3 leaf ps i)"
    and "verify_proof blake3 (mt_root (from_chain blake3 xs)) leaf ps i"
  shows "leaf = xs ! i"
proof -
  have "leaf = padded xs ! i"
    using assms(3-5) padded_props(3) [where xs = xs] assms(1)
    by (intro proof_binds [OF level_ok_padded [OF assms(2)]])
      (auto simp: from_chain_nodes(1) [OF assms(2)] root_from_chain [OF assms(2)] verify_proof_def)
  then show ?thesis using padded_props(2) [OF assms(1)] by simp
qed

theorem merkle_proof_sound_witness:
  "(5 :: hash32) = [5, 6] ! 0"
proof (rule merkle_proof_sound)
  let ?h = "\<lambda>bs :: byte_seq. 9 :: hash32"
  show "0 < length [5, 6 :: hash32]" "1 < length [5, 6 :: hash32]" by simp_all
  have levels: "build_levels ?h [5, 6] = [[9]]" "padded [5, 6] = [5, 6]"
    by (simp_all add: build_levels.simps Let_def pad_level_def hash_pair_def padded_def)
  then show "length [6 :: hash32] = length (mt_nodes (from_chain ?h [5, 6])) - 1"
    by (simp add: from_chain_nodes(1))
  have "tree_pairs ?h [5, 6] = {(5, 6)}"
    by (auto simp: tree_pairs.simps [of _ "[5, 6]"] tree_pairs.simps [of _ "[9]"] next_level_def
        pad_level_def hash_pair_def)
  then show "inj_on (\<lambda>(a, b). hash_pair ?h a b) (tree_pairs ?h (padded [5, 6]) \<union> path_pairs ?h 5 [6] 0)"
    by (simp add: levels(2))
  show "verify_proof ?h (mt_root (from_chain ?h [5, 6])) 5 [6] 0"
    by (simp add: verify_proof_def from_chain_nodes(2) levels hash_pair_def)
qed

text \<open>
  The root does not determine the number of leaves: a chain of odd length and the chain
  with its last hash repeated have the same root, whatever the hash function.
\<close>

theorem odd_chain_root_ambiguous:
  assumes "odd (length xs)" "1 < length xs"
  shows "mt_root (from_chain blake3 (xs @ [last xs])) = mt_root (from_chain blake3 xs)"
proof -
  have "padded (xs @ [last xs]) = xs @ [last xs]" "padded xs = xs @ [last xs]"
    using assms(1) unfolding padded_def length_append list.size by presburger+
  moreover have "1 < length (xs @ [last xs])" using assms(2) by auto
  ultimately show ?thesis using assms(2) root_from_chain by metis
qed

theorem odd_chain_root_ambiguous_witness:
  "mt_root (from_chain (\<lambda>bs. 1) ([5, 6, 7] @ [last [5, 6, 7]])) = mt_root (from_chain (\<lambda>bs. 1) [5, 6, 7])"
  by (rule odd_chain_root_ambiguous) simp_all

end
