(* ===== verification/Intervention.thy ===== *)
theory Intervention
  imports Ordered_Map Float64
begin

section \<open>The intervention state machine\<close>

text \<open>
  \<^verbatim>\<open>convergence-monitor/src/intervention/trigger.rs\<close> and \<^verbatim>\<open>actions.rs\<close>: the five intervention
  levels of an agent, raised by composite scores and lowered at session boundaries. Levels and
  the hysteresis counter are bytes and the session counter is 32 bits wide, so additions wrap
  as in the release build. \<open>evaluate\<close> reads the clock twice, once for the cooldown check and
  once when it sets a new cooldown; both readings are arguments.
\<close>

datatype intervention_action =
  Level0LogOnly | Level1SoftNotification | Level2MandatoryAck | Level3SessionTermination
| Level4ExternalEscalation

record agent_intervention_state =
  iv_level :: u8
  iv_consecutive_normal :: u32
  iv_cooldown_until :: "datetime option"
  iv_ack_required :: bool
  iv_hysteresis_count :: u8
  iv_de_escalation_credits :: u32

definition agent_intervention_state_default :: agent_intervention_state where
  "agent_intervention_state_default =
     \<lparr>iv_level = 0, iv_consecutive_normal = 0, iv_cooldown_until = None, iv_ack_required = False,
      iv_hysteresis_count = 0, iv_de_escalation_credits = 0\<rparr>"

record composite_result =
  cr_score :: f64
  cr_level :: u8
  cr_signal_scores :: "f64 list"

type_synonym intervention_states = "(uuid, agent_intervention_state) btree_map"

definition intervention_new :: intervention_states where
  "intervention_new = bt_new"

definition restore_state_from_fields ::
  "uuid \<Rightarrow> u8 \<Rightarrow> u32 \<Rightarrow> datetime option \<Rightarrow> bool \<Rightarrow> u32 \<Rightarrow> u32 \<Rightarrow> intervention_states \<Rightarrow>
   intervention_states" where
  "restore_state_from_fields agent lvl normal cooldown ack hyst credits m =
     bt_insert agent
       \<lparr>iv_level = lvl, iv_consecutive_normal = normal, iv_cooldown_until = cooldown,
        iv_ack_required = ack, iv_hysteresis_count = ucast hyst,
        iv_de_escalation_credits = credits\<rparr> m"

definition minutes :: "int \<Rightarrow> chrono_duration" where
  "minutes n = chrono_secs (60 * n)"

definition hours :: "int \<Rightarrow> chrono_duration" where
  "hours n = chrono_secs (3600 * n)"

definition action_for_escalation ::
  "datetime \<Rightarrow> u8 \<Rightarrow> agent_intervention_state \<Rightarrow> intervention_action \<times> agent_intervention_state" where
  "action_for_escalation now new s =
     (if new = 0 then (Level0LogOnly, s)
      else if new = 1 then (Level1SoftNotification, s)
      else if new = 2 then
        (Level2MandatoryAck, s\<lparr>iv_ack_required := True, iv_cooldown_until := Some (now + minutes 5)\<rparr>)
      else if new = 3 then
        (Level3SessionTermination, s\<lparr>iv_cooldown_until := Some (now + hours 4)\<rparr>)
      else if new = 4 then
        (Level4ExternalEscalation, s\<lparr>iv_cooldown_until := Some (now + hours 24)\<rparr>)
      else (Level0LogOnly, s))"

text \<open>The body of \<^verbatim>\<open>evaluate\<close> on the agent's entry, from the escalation check on.\<close>

definition evaluate_level ::
  "datetime \<Rightarrow> u8 \<Rightarrow> agent_intervention_state \<Rightarrow>
   intervention_action option \<times> agent_intervention_state" where
  "evaluate_level now' target s =
     (if target > iv_level s then
        (let s = s\<lparr>iv_hysteresis_count := iv_hysteresis_count s + 1\<rparr> in
         if iv_hysteresis_count s \<ge> 2 then
           (let new_level = min (iv_level s + 1) 4;
                s = s\<lparr>iv_level := new_level, iv_hysteresis_count := 0, iv_consecutive_normal := 0\<rparr>;
                (action, s) = action_for_escalation now' new_level s
            in (Some action, s))
         else (None, s))
      else
        let s = s\<lparr>iv_hysteresis_count := 0\<rparr> in
        (None, if target < iv_level s
               then s\<lparr>iv_consecutive_normal := iv_consecutive_normal s + 1\<rparr>
               else s\<lparr>iv_consecutive_normal := 0\<rparr>))"

definition evaluate_state ::
  "datetime \<Rightarrow> datetime \<Rightarrow> u8 \<Rightarrow> agent_intervention_state \<Rightarrow>
   intervention_action option \<times> agent_intervention_state" where
  "evaluate_state now now' target s =
     (case iv_cooldown_until s of
        Some until \<Rightarrow>
          if now < until then (None, s)
          else
            let s = s\<lparr>iv_cooldown_until := None\<rparr> in
            if iv_ack_required s then (None, s) else evaluate_level now' target s
      | None \<Rightarrow> if iv_ack_required s then (None, s) else evaluate_level now' target s)"

definition evaluate ::
  "datetime \<Rightarrow> datetime \<Rightarrow> composite_result \<Rightarrow> uuid \<Rightarrow> intervention_states \<Rightarrow>
   intervention_action option \<times> intervention_states" where
  "evaluate now now' result agent m =
     (let (action, s) = evaluate_state now now' (cr_level result)
            (bt_get_or agent_intervention_state_default m agent)
      in (action, bt_insert agent s m))"

definition deescalate_state ::
  "bool \<Rightarrow> agent_intervention_state \<Rightarrow> bool \<times> agent_intervention_state" where
  "deescalate_state session_was_normal s =
     (if iv_level s = 0 then (False, s)
      else if \<not> session_was_normal then (False, s\<lparr>iv_consecutive_normal := 0\<rparr>)
      else
        let s = s\<lparr>iv_consecutive_normal := iv_consecutive_normal s + 1\<rparr>;
            required = (if iv_level s = 4 \<or> iv_level s = 3 then Some 3
                        else if iv_level s = 2 \<or> iv_level s = 1 then Some 2 else None)
        in case required of
             None \<Rightarrow> (False, s)
           | Some r \<Rightarrow>
               if iv_consecutive_normal s \<ge> r
               then (True, s\<lparr>iv_level := iv_level s - 1, iv_consecutive_normal := 0,
                              iv_ack_required := False\<rparr>)
               else (False, s))"

definition try_deescalate ::
  "uuid \<Rightarrow> bool \<Rightarrow> intervention_states \<Rightarrow> bool \<times> intervention_states" where
  "try_deescalate agent session_was_normal m =
     (let (r, s) = deescalate_state session_was_normal
            (bt_get_or agent_intervention_state_default m agent)
      in (r, bt_insert agent s m))"

definition acknowledge :: "uuid \<Rightarrow> intervention_states \<Rightarrow> intervention_states" where
  "acknowledge agent m = bt_modify agent (\<lambda>s. s\<lparr>iv_ack_required := False\<rparr>) m"

subsection \<open>Sequences of operations\<close>

datatype iv_op =
  IvEvaluate datetime datetime composite_result uuid
| IvDeescalate uuid bool
| IvAcknowledge uuid

fun iv_step :: "intervention_states \<Rightarrow> iv_op \<Rightarrow> intervention_states" where
  "iv_step m (IvEvaluate now now' r a) = snd (evaluate now now' r a m)"
| "iv_step m (IvDeescalate a ok) = snd (try_deescalate a ok m)"
| "iv_step m (IvAcknowledge a) = acknowledge a m"

fun op_agent :: "iv_op \<Rightarrow> uuid" where
  "op_agent (IvEvaluate now now' r a) = a"
| "op_agent (IvDeescalate a ok) = a"
| "op_agent (IvAcknowledge a) = a"

abbreviation iv_get :: "intervention_states \<Rightarrow> uuid \<Rightarrow> agent_intervention_state" where
  "iv_get \<equiv> bt_get_or agent_intervention_state_default"

definition op_effect :: "iv_op \<Rightarrow> agent_intervention_state \<Rightarrow> agent_intervention_state" where
  "op_effect op s = (case op of
     IvEvaluate now now' r a \<Rightarrow> snd (evaluate_state now now' (cr_level r) s)
   | IvDeescalate a ok \<Rightarrow> snd (deescalate_state ok s)
   | IvAcknowledge a \<Rightarrow> s\<lparr>iv_ack_required := False\<rparr>)"

lemma iv_get_step:
  "iv_get (iv_step m op) a = (if a = op_agent op then op_effect op (iv_get m a) else iv_get m a)"
  by (cases op)
    (auto simp: evaluate_def try_deescalate_def acknowledge_def op_effect_def bt_get_or_def
      agent_intervention_state_default_def Let_def split: prod.splits option.splits)

text \<open>The values the counters of an agent can take: the level is at most four and the
  hysteresis counter at most one between operations.\<close>

definition iv_ok :: "agent_intervention_state \<Rightarrow> bool" where
  "iv_ok s \<longleftrightarrow> iv_level s \<le> 4 \<and> iv_hysteresis_count s \<le> 1"

lemma iv_ok_default [simp]: "iv_ok agent_intervention_state_default"
  by (simp add: iv_ok_def agent_intervention_state_default_def)

lemma action_for_escalation_simps [simp]:
  "iv_level (snd (action_for_escalation now n s)) = iv_level s"
  "iv_hysteresis_count (snd (action_for_escalation now n s)) = iv_hysteresis_count s"
  "iv_consecutive_normal (snd (action_for_escalation now n s)) = iv_consecutive_normal s"
  by (simp_all add: action_for_escalation_def)

lemma u8_le_4_cases:
  fixes w :: u8
  assumes "w \<le> 4"
  obtains "w = 0" | "w = 1" | "w = 2" | "w = 3" | "w = 4"
proof -
  have "unat w \<le> 4" using assms by (simp add: word_le_nat_alt)
  then have "unat w = 0 \<or> unat w = 1 \<or> unat w = 2 \<or> unat w = 3 \<or> unat w = 4" by linarith
  then have "unat w = unat (0 :: u8) \<or> unat w = unat (1 :: u8) \<or> unat w = unat (2 :: u8) \<or>
      unat w = unat (3 :: u8) \<or> unat w = unat (4 :: u8)" by simp
  then show ?thesis using that unfolding word_unat_eq_iff [symmetric] by blast
qed

lemma u8_le_1_cases:
  fixes w :: u8
  assumes "w \<le> 1"
  obtains "w = 0" | "w = 1"
  using assms by (metis word_less_1 order.not_eq_order_implies_strict)

text \<open>One pass of the escalation check: a second consecutive score above the level raises it
  by one, up to four, with the action of the new level; nothing else raises it.\<close>

lemma evaluate_level_cases:
  assumes "iv_ok s"
  shows "iv_level (snd (evaluate_level now t s)) =
      (if t > iv_level s \<and> iv_hysteresis_count s = 1 then min (iv_level s + 1) 4 else iv_level s)"
    and "iv_hysteresis_count (snd (evaluate_level now t s)) =
      (if t > iv_level s \<and> iv_hysteresis_count s = 0 then 1 else 0)"
    and "fst (evaluate_level now t s) =
      (if t > iv_level s \<and> iv_hysteresis_count s = 1
       then Some (fst (action_for_escalation now (min (iv_level s + 1) 4) s)) else None)"
  using assms
  by (auto simp: iv_ok_def evaluate_level_def action_for_escalation_def Let_def
      elim!: u8_le_1_cases split: prod.splits if_splits)

lemma min_level_4:
  assumes "(w :: u8) \<le> 4"
  shows "min (w + 1) 4 \<le> 4" "unat (min (w + 1) 4) \<le> Suc (unat w)" "w \<le> min (w + 1) 4"
  using assms by (auto elim!: u8_le_4_cases)

definition potential :: "agent_intervention_state \<Rightarrow> nat" where
  "potential s = 2 * unat (iv_level s) + unat (iv_hysteresis_count s)"

lemma evaluate_state_cases:
  obtains "evaluate_state now now' t s = (None, s)"
  | s' where "s' = s \<or> s' = s\<lparr>iv_cooldown_until := None\<rparr>" "evaluate_state now now' t s = (None, s')"
  | s' where "s' = s \<or> s' = s\<lparr>iv_cooldown_until := None\<rparr>"
      "evaluate_state now now' t s = evaluate_level now' t s'" "\<not> iv_ack_required s"
      "\<forall>u. iv_cooldown_until s = Some u \<longrightarrow> u \<le> now"
  by (cases "iv_cooldown_until s"; cases "iv_ack_required s"; cases "the (iv_cooldown_until s) \<le> now")
    (auto simp: evaluate_state_def)

lemma evaluate_level_step:
  assumes "iv_ok s"
  shows "iv_ok (snd (evaluate_level now t s)) \<and>
    unat (iv_level (snd (evaluate_level now t s))) \<le> Suc (unat (iv_level s)) \<and>
    iv_level s \<le> iv_level (snd (evaluate_level now t s)) \<and>
    potential (snd (evaluate_level now t s)) \<le> potential s + (if t > 0 then 1 else 0)"
proof -
  note c = evaluate_level_cases [OF assms, of now t]
  have l: "iv_level s \<le> 4" and h: "iv_hysteresis_count s = 0 \<or> iv_hysteresis_count s = 1"
    using assms by (auto simp: iv_ok_def elim!: u8_le_1_cases)
  have t: "t > iv_level s \<Longrightarrow> t > 0" by (rule le_less_trans [rotated]) simp_all
  have "unat (min (iv_level s + 1) 4) \<le> Suc (unat (iv_level s))"
    "iv_level s \<le> min (iv_level s + 1) 4" using min_level_4 [OF l] by blast+
  then show ?thesis
    using h l t unfolding c iv_ok_def potential_def by (auto simp del: min.bounded_iff)
qed

lemma deescalate_state_step:
  assumes "iv_ok s"
  shows "iv_ok (snd (deescalate_state ok s)) \<and>
    iv_level (snd (deescalate_state ok s)) \<le> iv_level s \<and>
    unat (iv_level s) \<le> Suc (unat (iv_level (snd (deescalate_state ok s)))) \<and>
    potential (snd (deescalate_state ok s)) \<le> potential s"
  using assms
  by (auto simp: deescalate_state_def iv_ok_def potential_def Let_def elim!: u8_le_4_cases)

lemma op_effect_step:
  assumes "iv_ok s"
  shows "iv_ok (op_effect op s) \<and>
    unat (iv_level (op_effect op s)) \<le> Suc (unat (iv_level s)) \<and>
    unat (iv_level s) \<le> Suc (unat (iv_level (op_effect op s))) \<and>
    potential (op_effect op s) \<le> potential s +
      (case op of IvEvaluate now now' r a \<Rightarrow> if cr_level r > 0 then 1 else 0 | _ \<Rightarrow> 0)"
proof (cases op)
  case (IvEvaluate now now' r a)
  show ?thesis
  proof (cases rule: evaluate_state_cases [of now now' "cr_level r" s])
    case (3 s')
    then have s': "iv_ok s'" "iv_level s' = iv_level s" "potential s' = potential s"
      using assms by (auto simp: iv_ok_def potential_def)
    show ?thesis
      using evaluate_level_step [OF s'(1), of now' "cr_level r"] 3(2) s'(2,3)
      by (auto simp: IvEvaluate op_effect_def word_le_nat_alt)
  qed (use assms in \<open>auto simp: IvEvaluate op_effect_def iv_ok_def potential_def\<close>)
next
  case (IvDeescalate a ok)
  then show ?thesis
    using deescalate_state_step [OF assms, of ok] by (auto simp: op_effect_def word_le_nat_alt)
qed (use assms in \<open>auto simp: op_effect_def iv_ok_def potential_def\<close>)

interpretation iv_machine: invariant_steps iv_step "\<lambda>m. \<forall>a. iv_ok (iv_get m a)"
  by unfold_locales (simp add: iv_get_step op_effect_step)

lemma iv_new_ok [simp]: "iv_get intervention_new a = agent_intervention_state_default"
  by (simp add: intervention_new_def bt_get_or_def)

text \<open>The evaluations of an agent that could contribute to an escalation.\<close>

definition raising_evaluations :: "uuid \<Rightarrow> iv_op list \<Rightarrow> nat" where
  "raising_evaluations a ops =
     length (filter (\<lambda>op. case op of IvEvaluate now now' r b \<Rightarrow> b = a \<and> cr_level r > 0 | _ \<Rightarrow> False) ops)"

lemma default_counters [simp]:
  "iv_level agent_intervention_state_default = 0"
  "iv_hysteresis_count agent_intervention_state_default = 0"
  by (simp_all add: agent_intervention_state_default_def)

lemma potential_run:
  assumes "\<forall>a. iv_ok (iv_get m a)"
  shows "potential (iv_get (foldl iv_step m ops) a) \<le> potential (iv_get m a) + raising_evaluations a ops"
proof (induction ops rule: rev_induct)
  case Nil
  then show ?case by (simp add: raising_evaluations_def)
next
  case (snoc op ops)
  let ?m = "foldl iv_step m ops"
  have "iv_ok (iv_get ?m a)" using iv_machine.inv_run [OF assms] by blast
  from op_effect_step [OF this, of op]
  have "potential (iv_get (iv_step ?m op) a) \<le> potential (iv_get ?m a) + raising_evaluations a [op]"
    unfolding iv_get_step by (cases op) (auto simp: raising_evaluations_def)
  then show ?case using snoc by (simp add: raising_evaluations_def)
qed

lemma evaluate_blocked:
  assumes "iv_ack_required s \<or> (\<exists>u. iv_cooldown_until s = Some u \<and> now < u)"
  shows "fst (evaluate_state now now' t s) = None"
    and "iv_level (snd (evaluate_state now now' t s)) = iv_level s"
  using assms by (auto simp: evaluate_state_def Let_def split: option.splits)

lemma evaluate_unblocked:
  assumes "\<not> (iv_ack_required s \<or> (\<exists>u. iv_cooldown_until s = Some u \<and> now < u))"
  shows "evaluate_state now now' t s = evaluate_level now' t (s\<lparr>iv_cooldown_until := None\<rparr>)"
proof (cases "iv_cooldown_until s")
  case None
  then have "s\<lparr>iv_cooldown_until := None\<rparr> = s" by (cases s) simp
  moreover have "evaluate_state now now' t s = evaluate_level now' t s"
    using assms None by (simp add: evaluate_state_def)
  ultimately show ?thesis by simp
next
  case (Some u)
  then show ?thesis using assms by (simp add: evaluate_state_def)
qed

lemma evaluate_level_escalates:
  assumes "iv_level s < t" "iv_hysteresis_count s = 1"
  defines "new \<equiv> min (iv_level s + 1) 4"
  shows "evaluate_level now t s = (let (a, s') = action_for_escalation now new
    (s\<lparr>iv_level := new, iv_hysteresis_count := 0, iv_consecutive_normal := 0\<rparr>) in (Some a, s'))"
  using assms by (simp add: evaluate_level_def Let_def)

subsection \<open>Properties\<close>

text \<open>
  Levels stay in range and move one step at a time: after any sequence of evaluations,
  session ends and acknowledgements every agent's level is at most four, and one more operation
  changes the level of its own agent by at most one and leaves every other agent alone.
\<close>

theorem intervention_level_steps:
  "let m = foldl iv_step intervention_new ops;
       before = unat (iv_level (iv_get m a)); after = unat (iv_level (iv_get (iv_step m op) a))
   in before \<le> 4 \<and> after \<le> Suc before \<and> before \<le> Suc after \<and>
      (if a = op_agent op then True else iv_get (iv_step m op) a = iv_get m a)"
proof -
  let ?m = "foldl iv_step intervention_new ops"
  have "iv_ok (iv_get ?m a)" using iv_machine.inv_run [of intervention_new ops] by simp
  then show ?thesis
    using op_effect_step [of "iv_get ?m a" op]
    by (auto simp: Let_def iv_get_step iv_ok_def word_le_nat_alt)
qed

text \<open>
  C21. Hysteresis over a whole history: an agent at level \<open>n\<close> has been evaluated at least
  \<open>2 n\<close> times with a score level above zero; no faster escalation exists, whatever the order
  of operations and whatever the scores.
\<close>

theorem escalation_needs_two_cycles_per_level:
  "2 * unat (iv_level (iv_get (foldl iv_step intervention_new ops) a)) \<le> raising_evaluations a ops"
  using potential_run [of intervention_new ops a] by (simp add: potential_def)

text \<open>
  What an evaluation does: it is silent and keeps the level while an acknowledgement is
  due or the cooldown runs; otherwise it escalates exactly on the second consecutive score
  above the level, to the next level, with that level's action; and from level two on the
  escalation starts the level's cooldown of 5 minutes, 4 hours or 24 hours.
\<close>

theorem evaluate_behaviour:
  assumes "iv_ok s" and ev: "evaluate_state now now' t s = (a, s')"
  shows "(if iv_ack_required s \<or> (\<exists>u. iv_cooldown_until s = Some u \<and> now < u)
     then a = None \<and> iv_level s' = iv_level s
     else if iv_level s < t \<and> iv_hysteresis_count s = 1 then
       iv_level s' = min (iv_level s + 1) 4 \<and>
       (if iv_level s' = 1 then a = Some Level1SoftNotification \<and> iv_cooldown_until s' = None
        else if iv_level s' = 2 then a = Some Level2MandatoryAck \<and> iv_ack_required s' \<and>
          iv_cooldown_until s' = Some (now' + minutes 5)
        else if iv_level s' = 3 then a = Some Level3SessionTermination \<and>
          iv_cooldown_until s' = Some (now' + hours 4)
        else a = Some Level4ExternalEscalation \<and> iv_cooldown_until s' = Some (now' + hours 24))
     else a = None \<and> iv_level s' = iv_level s)"
proof (cases "iv_ack_required s \<or> (\<exists>u. iv_cooldown_until s = Some u \<and> now < u)")
  case True
  then show ?thesis using evaluate_blocked [OF True, of now' t] ev by simp
next
  case False
  let ?s = "s\<lparr>iv_cooldown_until := None\<rparr>"
  have level: "evaluate_level now' t ?s = (a, s')"
    using ev evaluate_unblocked [OF False] by simp
  have ok: "iv_ok ?s" "iv_level s \<le> 4" using assms(1) by (simp_all add: iv_ok_def)
  show ?thesis
  proof (cases "iv_level s < t \<and> iv_hysteresis_count s = 1")
    case True
    then have "(a, s') = (let (a, s') = action_for_escalation now' (min (iv_level s + 1) 4)
        (?s\<lparr>iv_level := min (iv_level s + 1) 4, iv_hysteresis_count := 0,
           iv_consecutive_normal := 0\<rparr>) in (Some a, s'))"
      using level evaluate_level_escalates [of ?s t now'] by simp
    then show ?thesis
      using False True ok(2)
      by (elim u8_le_4_cases) (simp_all add: action_for_escalation_def)
  next
    case no: False
    then show ?thesis
      using False evaluate_level_cases(1,3) [OF ok(1), of now' t] level by auto
  qed
qed

theorem evaluate_behaviour_witness:
  "let s = agent_intervention_state_default\<lparr>iv_level := 2, iv_hysteresis_count := 1\<rparr> in
   fst (evaluate_state 0 0 4 s) = Some Level3SessionTermination \<and>
   iv_cooldown_until (snd (evaluate_state 0 0 4 s)) = Some (0 + hours 4)"
  using evaluate_behaviour [of "agent_intervention_state_default\<lparr>iv_level := 2, iv_hysteresis_count := 1\<rparr>"
      0 0 4 "fst (evaluate_state 0 0 4 (agent_intervention_state_default\<lparr>iv_level := 2,
        iv_hysteresis_count := 1\<rparr>))" "snd (evaluate_state 0 0 4 (agent_intervention_state_default\<lparr>iv_level := 2,
        iv_hysteresis_count := 1\<rparr>))"]
  by (simp add: agent_intervention_state_default_def iv_ok_def Let_def
      split: if_splits)

text \<open>
  Evaluations count as normal sessions: at level three, whose de-escalation is documented
  to take three consecutive normal sessions, two evaluations with a score below the level and a
  single normal session are enough.
\<close>

theorem one_normal_session_deescalates:
  assumes "iv_level s = 3" "iv_consecutive_normal s = 0" "iv_cooldown_until s = None"
    and "\<not> iv_ack_required s" "t < 3"
  shows "let s1 = snd (evaluate_state n1 n1' t s); s2 = snd (evaluate_state n2 n2' t s1)
    in fst (deescalate_state True s2) \<and> iv_level (snd (deescalate_state True s2)) = 2"
proof -
  have "snd (evaluate_state n n' t s) =
      s\<lparr>iv_hysteresis_count := 0, iv_consecutive_normal := iv_consecutive_normal s + 1\<rparr>"
    if "iv_level s = 3" "iv_cooldown_until s = None" "\<not> iv_ack_required s" for n n' s
    using that assms(5) by (simp add: evaluate_state_def evaluate_level_def)
  then show ?thesis using assms by (simp add: deescalate_state_def Let_def)
qed

theorem one_normal_session_deescalates_witness:
  "let s = agent_intervention_state_default\<lparr>iv_level := 3\<rparr>;
       s1 = snd (evaluate_state 0 0 1 s); s2 = snd (evaluate_state 1 1 1 s1)
   in fst (deescalate_state True s2) \<and> iv_level (snd (deescalate_state True s2)) = 2"
  using one_normal_session_deescalates
    [of "agent_intervention_state_default\<lparr>iv_level := 3\<rparr>" 1 0 0 1 1]
  by (simp add: agent_intervention_state_default_def Let_def)

end
