(* ===== verification/Cooldown.thy ===== *)
theory Cooldown
  imports Prelude Float64
begin

section \<open>Threshold changes: time lock and dual-key confirmation\<close>

text \<open>
  \<^verbatim>\<open>convergence-monitor/src/intervention/cooldown.rs\<close>. The token hash (hex of \<^verbatim>\<open>blake3\<close>), the
  display of a UUID and of a float are parameters; the token's fresh UUID is an argument of the
  initiation. The floor \<^verbatim>\<open>0.1\<close> is the double nearest to one tenth.
\<close>

datatype pending_critical_action = ThresholdChange f64 f64

record pending_dual_key_change =
  pd_token_hash :: string
  pd_issued_at :: datetime
  pd_expires_at :: datetime
  pd_initiator :: string
  pd_intended_action :: string
  pd_action :: pending_critical_action

datatype dual_key_initiation_result = Initiated string datetime | AlreadyPending string datetime

datatype dual_key_confirmation_result =
  DkConfirmed pending_dual_key_change | MissingPending | InvalidToken
| Expired pending_dual_key_change | SameActorRejected

record cooldown_manager =
  cm_config_locked :: bool
  cm_threshold_floor :: f64
  cm_pending :: "pending_dual_key_change option"

record dual_key_env =
  dk_hash_token :: "string \<Rightarrow> string"
  dk_show_uuid :: "uuid \<Rightarrow> string"
  dk_show_f64 :: "f64 \<Rightarrow> string"

definition cooldown_manager_new :: cooldown_manager where
  "cooldown_manager_new =
     \<lparr>cm_config_locked = False,
      cm_threshold_floor = Finite (3602879701896397 / 36028797018963968), cm_pending = None\<rparr>"

definition lock_config :: "cooldown_manager \<Rightarrow> cooldown_manager" where
  "lock_config c = c\<lparr>cm_config_locked := True\<rparr>"

definition unlock_config :: "cooldown_manager \<Rightarrow> cooldown_manager" where
  "unlock_config c = c\<lparr>cm_config_locked := False\<rparr>"

definition can_change_threshold :: "f64 \<Rightarrow> f64 \<Rightarrow> cooldown_manager \<Rightarrow> bool" where
  "can_change_threshold current proposed c =
     (if f64_lt proposed (cm_threshold_floor c) then False
      else if f64_ge proposed current then True
      else if cm_config_locked c then False
      else True)"

definition prune_expired_dual_key_change ::
  "datetime \<Rightarrow> cooldown_manager \<Rightarrow> pending_dual_key_change option \<times> cooldown_manager" where
  "prune_expired_dual_key_change now c =
     (case cm_pending c of
        Some p \<Rightarrow> if pd_expires_at p \<le> now then (Some p, c\<lparr>cm_pending := None\<rparr>) else (None, c)
      | None \<Rightarrow> (None, c))"

text \<open>\<^verbatim>\<open>chrono::Duration::from_std\<close> fails beyond \<^verbatim>\<open>i64::MAX\<close> milliseconds; the fallback is five
  minutes.\<close>

definition ttl_duration :: "duration \<Rightarrow> chrono_duration" where
  "ttl_duration ttl =
     (if ttl \<le> (2 ^ 63 - 1) * 1000000 then int ttl else chrono_secs (60 * 5))"

definition initiate_dual_key_change ::
  "dual_key_env \<Rightarrow> uuid \<Rightarrow> string \<Rightarrow> pending_critical_action \<Rightarrow> datetime \<Rightarrow> duration \<Rightarrow>
   cooldown_manager \<Rightarrow> dual_key_initiation_result \<times> cooldown_manager" where
  "initiate_dual_key_change env fresh who action now ttl c =
     (let c = snd (prune_expired_dual_key_change now c) in
      case cm_pending c of
        Some p \<Rightarrow> (AlreadyPending (pd_intended_action p) (pd_expires_at p), c)
      | None \<Rightarrow>
          (let token = ''dualkey-'' @ dk_show_uuid env fresh;
               expires_at = now + ttl_duration ttl;
               intended = (case action of ThresholdChange cur pro \<Rightarrow>
                 ''threshold_change:'' @ dk_show_f64 env cur @ ''->'' @ dk_show_f64 env pro)
           in (Initiated token expires_at,
               c\<lparr>cm_pending := Some \<lparr>pd_token_hash = dk_hash_token env token, pd_issued_at = now,
                   pd_expires_at = expires_at, pd_initiator = who, pd_intended_action = intended,
                   pd_action = action\<rparr>\<rparr>)))"

definition confirm_dual_key_change ::
  "dual_key_env \<Rightarrow> string \<Rightarrow> string \<Rightarrow> datetime \<Rightarrow> cooldown_manager \<Rightarrow>
   dual_key_confirmation_result \<times> cooldown_manager" where
  "confirm_dual_key_change env token confirmer now c =
     (case prune_expired_dual_key_change now c of
        (Some expired, c) \<Rightarrow> (Expired expired, c)
      | (None, c) \<Rightarrow>
          (case cm_pending c of
             None \<Rightarrow> (MissingPending, c)
           | Some p \<Rightarrow>
               if pd_initiator p = confirmer then (SameActorRejected, c)
               else if pd_token_hash p = dk_hash_token env token
                    then (DkConfirmed p, c\<lparr>cm_pending := None\<rparr>)
                    else (InvalidToken, c)))"

definition cancel_dual_key_change :: "cooldown_manager \<Rightarrow> cooldown_manager" where
  "cancel_dual_key_change c = c\<lparr>cm_pending := None\<rparr>"

definition is_critical_change :: "f64 \<Rightarrow> f64 \<Rightarrow> cooldown_manager \<Rightarrow> bool" where
  "is_critical_change current proposed c \<longleftrightarrow>
     f64_lt proposed current \<and> f64_ge proposed (cm_threshold_floor c)"

subsection \<open>Histories\<close>

datatype dk_op =
  DkInitiate uuid string pending_critical_action datetime duration
| DkConfirm string string datetime
| DkCancel
| DkPrune datetime
| DkLock
| DkUnlock

fun dk_step :: "dual_key_env \<Rightarrow> cooldown_manager \<Rightarrow> dk_op \<Rightarrow> cooldown_manager" where
  "dk_step env c (DkInitiate u who act now ttl) = snd (initiate_dual_key_change env u who act now ttl c)"
| "dk_step env c (DkConfirm token who now) = snd (confirm_dual_key_change env token who now c)"
| "dk_step env c DkCancel = cancel_dual_key_change c"
| "dk_step env c (DkPrune now) = snd (prune_expired_dual_key_change now c)"
| "dk_step env c DkLock = lock_config c"
| "dk_step env c DkUnlock = unlock_config c"

text \<open>The changes an operation of a history may have put up for confirmation.\<close>

fun proposed_by :: "dual_key_env \<Rightarrow> dk_op \<Rightarrow> pending_dual_key_change \<Rightarrow> bool" where
  "proposed_by env (DkInitiate u who act now ttl) p \<longleftrightarrow>
     pd_initiator p = who \<and> pd_action p = act \<and> pd_issued_at p = now \<and>
     pd_expires_at p = now + ttl_duration ttl \<and>
     pd_token_hash p = dk_hash_token env (''dualkey-'' @ dk_show_uuid env u)"
| "proposed_by env _ p \<longleftrightarrow> False"

lemma prune_cases:
  obtains p where "cm_pending c = Some p" "pd_expires_at p \<le> now"
    "prune_expired_dual_key_change now c = (Some p, c\<lparr>cm_pending := None\<rparr>)"
  | "\<forall>p. cm_pending c = Some p \<longrightarrow> now < pd_expires_at p"
    "prune_expired_dual_key_change now c = (None, c)"
  by (cases "cm_pending c"; cases "pd_expires_at (the (cm_pending c)) \<le> now")
    (auto simp: prune_expired_dual_key_change_def)

lemma dk_step_pending:
  assumes "cm_pending (dk_step env c op) = Some p"
  shows "cm_pending c = Some p \<or> proposed_by env op p"
proof (cases op)
  case (DkInitiate u who act now ttl)
  then show ?thesis using assms
    by (cases rule: prune_cases [of c now])
      (auto simp: initiate_dual_key_change_def Let_def split: option.splits)
next
  case (DkConfirm token who now)
  then show ?thesis using assms
    by (cases rule: prune_cases [of c now])
      (auto simp: confirm_dual_key_change_def split: option.splits if_splits)
next
  case (DkPrune now)
  then show ?thesis using assms by (cases rule: prune_cases [of c now]) auto
qed (use assms in \<open>auto simp: cancel_dual_key_change_def lock_config_def unlock_config_def\<close>)

lemma pending_from_history:
  assumes "cm_pending (foldl (dk_step env) cooldown_manager_new ops) = Some p"
  shows "\<exists>op \<in> set ops. proposed_by env op p"
  using assms
proof (induction ops rule: rev_induct)
  case Nil
  then show ?case by (simp add: cooldown_manager_new_def)
next
  case (snoc op ops)
  then show ?case using dk_step_pending [of env "foldl (dk_step env) cooldown_manager_new ops" op p] by auto
qed

lemma confirmed_iff:
  "fst (confirm_dual_key_change env token who now c) = DkConfirmed p \<longleftrightarrow>
     cm_pending c = Some p \<and> now < pd_expires_at p \<and> pd_initiator p \<noteq> who \<and>
     pd_token_hash p = dk_hash_token env token"
  by (cases rule: prune_cases [of c now])
    (auto simp: confirm_dual_key_change_def split: option.splits if_splits)

lemma confirmed_consumed:
  assumes "fst (confirm_dual_key_change env token who now c) = DkConfirmed p"
  shows "cm_pending (snd (confirm_dual_key_change env token who now c)) = None"
  using assms
  by (cases rule: prune_cases [of c now])
    (auto simp: confirm_dual_key_change_def split: option.splits if_splits)

lemma missing_pending:
  "cm_pending c = None \<Longrightarrow> fst (confirm_dual_key_change env token who now c) = MissingPending"
  by (simp add: confirm_dual_key_change_def prune_expired_dual_key_change_def)

subsection \<open>Properties\<close>

text \<open>
  C22. Two keys: whenever a confirmation succeeds, in whatever history, an earlier initiation
  by a different actor proposed exactly that action under a token with the same hash, its
  lifetime has not run out, and the confirmation is used up: confirming again finds nothing
  pending.
\<close>

theorem dual_key_confirmation_sound:
  assumes "fst (confirm_dual_key_change env token who now
      (foldl (dk_step env) cooldown_manager_new ops)) = DkConfirmed p"
  shows "(\<exists>u by_who issued ttl. DkInitiate u by_who (pd_action p) issued ttl \<in> set ops \<and>
      by_who \<noteq> who \<and> now < issued + ttl_duration ttl \<and>
      dk_hash_token env token = dk_hash_token env (''dualkey-'' @ dk_show_uuid env u)) \<and>
    fst (confirm_dual_key_change env token' who' now'
      (snd (confirm_dual_key_change env token who now
        (foldl (dk_step env) cooldown_manager_new ops)))) = MissingPending"
proof -
  from assms have p: "cm_pending (foldl (dk_step env) cooldown_manager_new ops) = Some p"
    "now < pd_expires_at p" "pd_initiator p \<noteq> who" "pd_token_hash p = dk_hash_token env token"
    unfolding confirmed_iff by auto
  obtain op where op: "op \<in> set ops" "proposed_by env op p" using pending_from_history [OF p(1)] by blast
  from op(2) obtain u by_who act issued ttl where "op = DkInitiate u by_who act issued ttl"
    by (cases op) auto
  then have "\<exists>u by_who issued ttl. DkInitiate u by_who (pd_action p) issued ttl \<in> set ops \<and>
      by_who \<noteq> who \<and> now < issued + ttl_duration ttl \<and>
      dk_hash_token env token = dk_hash_token env (''dualkey-'' @ dk_show_uuid env u)"
    using op p(2-4) by (intro exI [of _ u] exI [of _ by_who] exI [of _ issued] exI [of _ ttl]) auto
  then show ?thesis using missing_pending [OF confirmed_consumed [OF assms]] by blast
qed

theorem dual_key_confirmation_sound_witness:
  "let env = \<lparr>dk_hash_token = (\<lambda>s. s), dk_show_uuid = (\<lambda>u. ''u''), dk_show_f64 = (\<lambda>f. ''f'')\<rparr>;
       ops = [DkInitiate 1 ''api'' (ThresholdChange PosInf (Finite 1)) 0 100]
   in \<exists>u by_who issued ttl. DkInitiate u by_who (ThresholdChange PosInf (Finite 1)) issued ttl \<in> set ops \<and>
        by_who \<noteq> ''reviewer'' \<and> 50 < issued + ttl_duration ttl"
proof -
  let ?env = "\<lparr>dk_hash_token = (\<lambda>s. s), dk_show_uuid = (\<lambda>u. ''u''), dk_show_f64 = (\<lambda>f. ''f'')\<rparr>"
  let ?act = "ThresholdChange PosInf (Finite 1)"
  let ?ops = "[DkInitiate 1 ''api'' ?act 0 100]"
  let ?p = "\<lparr>pd_token_hash = ''dualkey-u'', pd_issued_at = 0, pd_expires_at = 100, pd_initiator = ''api'',
     pd_intended_action = ''threshold_change:f->f'', pd_action = ?act\<rparr>"
  have "fst (confirm_dual_key_change ?env ''dualkey-u'' ''reviewer'' 50
      (foldl (dk_step ?env) cooldown_manager_new ?ops)) = DkConfirmed ?p"
    by (simp add: confirmed_iff initiate_dual_key_change_def prune_expired_dual_key_change_def
        cooldown_manager_new_def ttl_duration_def Let_def)
  from dual_key_confirmation_sound [OF this] show ?thesis unfolding Let_def by fastforce
qed

text \<open>
  The time lock: while the configuration is locked, an allowed threshold change never
  lowers a threshold and never goes below the floor; the changes that need two keys are exactly
  the allowed ones that do lower it, so none of them is possible under the lock.
\<close>

theorem locked_thresholds_only_rise:
  assumes "cm_config_locked c" "current \<noteq> NaN" "cm_threshold_floor c \<noteq> NaN"
  shows "(can_change_threshold current proposed c \<longleftrightarrow>
      f64_ge proposed current \<and> f64_ge proposed (cm_threshold_floor c)) \<and>
    (is_critical_change current proposed c \<longleftrightarrow>
      can_change_threshold current proposed (unlock_config c) \<and> proposed \<noteq> NaN \<and>
      \<not> can_change_threshold current proposed c)"
  using assms
  by (cases proposed; cases current; cases "cm_threshold_floor c";
      auto simp: can_change_threshold_def is_critical_change_def unlock_config_def f64_ge_def
        f64_le_def f64_eq_def)+

theorem locked_thresholds_only_rise_witness:
  "(can_change_threshold (Finite 1) (Finite 2) (lock_config cooldown_manager_new) \<longleftrightarrow>
     f64_ge (Finite 2) (Finite 1) \<and>
     f64_ge (Finite 2) (cm_threshold_floor (lock_config cooldown_manager_new)))"
  by (rule locked_thresholds_only_rise [THEN conjunct1])
    (simp_all add: lock_config_def cooldown_manager_new_def)

end
