(* ===== verification/Event_Validation.thy ===== *)
theory Event_Validation
  imports Ordered_Map "HOL-Library.List_Lexorder" "HOL-Library.Char_ord"
begin

section \<open>Event validation and rate limiting\<close>

text \<open>
  \<^verbatim>\<open>convergence-monitor/src/validation.rs\<close>: the token bucket per connection, the clock-skew
  check and the session id check. A bucket's tokens are 32 bits wide; the 128-bit nanosecond
  arithmetic cannot overflow (a duration is below \<^verbatim>\<open>2^94\<close> nanoseconds and the limit below
  \<^verbatim>\<open>2^32\<close>) and is done on natural numbers.
\<close>

datatype validation_error =
  MissingField string
| ClockSkew datetime int int
| RateLimitExceeded string u32 u32
| EmptySessionId
| Malformed string

record token_bucket =
  tb_tokens :: u32
  tb_last_refill :: instant
  tb_refill_remainder_nanos :: nat
  tb_last_touched :: instant

record rate_limiter =
  rl_buckets :: "(string, token_bucket) btree_map"
  rl_max_per_min :: u32

definition rate_limiter_new :: "u32 \<Rightarrow> rate_limiter" where
  "rate_limiter_new max_per_min = \<lparr>rl_buckets = bt_new, rl_max_per_min = max_per_min\<rparr>"

definition fresh_bucket :: "u32 \<Rightarrow> instant \<Rightarrow> token_bucket" where
  "fresh_bucket max_per_min now =
     \<lparr>tb_tokens = max_per_min, tb_last_refill = now, tb_refill_remainder_nanos = 0,
      tb_last_touched = now\<rparr>"

definition MINUTE_NANOS :: nat where
  "MINUTE_NANOS = from_secs 60"

definition refill :: "u32 \<Rightarrow> instant \<Rightarrow> token_bucket \<Rightarrow> token_bucket" where
  "refill max_per_min now b =
     (let el = elapsed now (tb_last_refill b) in
      if el > 0 then
        (let scaled = el * unat max_per_min + tb_refill_remainder_nanos b;
             amount = (word_of_nat (min (scaled div MINUTE_NANOS) (unat max_per_min)) :: u32);
             b = b\<lparr>tb_refill_remainder_nanos := scaled mod MINUTE_NANOS\<rparr>
         in if amount > 0
            then b\<lparr>tb_tokens := min (tb_tokens b + amount) max_per_min, tb_last_refill := now\<rparr>
            else b)
      else b)"

definition consume :: "u32 \<Rightarrow> instant \<Rightarrow> token_bucket \<Rightarrow> bool \<times> token_bucket" where
  "consume max_per_min now b =
     (let b = refill max_per_min now b;
          b = b\<lparr>tb_last_touched := now\<rparr>
      in if tb_tokens b = 0 then (False, b) else (True, b\<lparr>tb_tokens := tb_tokens b - 1\<rparr>))"

definition try_consume_at ::
  "string \<Rightarrow> instant \<Rightarrow> rate_limiter \<Rightarrow> (validation_error + unit) \<times> rate_limiter" where
  "try_consume_at conn now l =
     (let bucket = bt_get_or (fresh_bucket (rl_max_per_min l) now) (rl_buckets l) conn;
          (ok, bucket) = consume (rl_max_per_min l) now bucket
      in (if ok then Inr ()
          else Inl (RateLimitExceeded conn (rl_max_per_min l) (rl_max_per_min l)),
          l\<lparr>rl_buckets := bt_insert conn bucket (rl_buckets l)\<rparr>))"

definition prune_idle_at :: "instant \<Rightarrow> duration \<Rightarrow> rate_limiter \<Rightarrow> rate_limiter" where
  "prune_idle_at now idle_horizon l =
     l\<lparr>rl_buckets := bt_retain (\<lambda>_ b. elapsed now (tb_last_touched b) < idle_horizon) (rl_buckets l)\<rparr>"

text \<open>\<^verbatim>\<open>chrono::Duration::num_seconds\<close> truncates towards zero; \<^verbatim>\<open>as_secs() as i64\<close> reinterprets
  64 bits.\<close>

definition num_seconds :: "chrono_duration \<Rightarrow> int" where
  "num_seconds d = (if d \<ge> 0 then d div 1000000000 else - ((- d) div 1000000000))"

definition validate_timestamp ::
  "duration \<Rightarrow> datetime \<Rightarrow> datetime \<Rightarrow> validation_error + unit" where
  "validate_timestamp tolerance now event_time =
     (let skew = event_time - now;
          max_secs = sint (word_of_nat (tolerance div 1000000000) :: u64)
      in if num_seconds skew > max_secs
         then Inl (ClockSkew event_time (num_seconds skew) max_secs)
         else Inr ())"

definition validate_session_id :: "uuid \<Rightarrow> validation_error + unit" where
  "validate_session_id session_id = (if session_id = 0 then Inl EmptySessionId else Inr ())"

subsection \<open>Sequences of calls\<close>

datatype rl_op = RlConsume string instant | RlPrune instant duration

fun rl_step :: "rate_limiter \<Rightarrow> rl_op \<Rightarrow> rate_limiter" where
  "rl_step l (RlConsume c now) = snd (try_consume_at c now l)"
| "rl_step l (RlPrune now h) = prune_idle_at now h l"

fun consume_all :: "string \<Rightarrow> instant list \<Rightarrow> rate_limiter \<Rightarrow> bool list \<times> rate_limiter" where
  "consume_all c [] l = ([], l)"
| "consume_all c (t # ts) l =
     (let (r, l) = try_consume_at c t l; (rs, l) = consume_all c ts l in ((\<not> isl r) # rs, l))"

lemma try_consume_at_simps [simp]:
  "rl_max_per_min (snd (try_consume_at c now l)) = rl_max_per_min l"
  "isl (fst (try_consume_at c now l)) \<longleftrightarrow> \<not> fst (consume (rl_max_per_min l) now
     (bt_get_or (fresh_bucket (rl_max_per_min l) now) (rl_buckets l) c))"
  "bt_get (rl_buckets (snd (try_consume_at c now l))) d =
     (if d = c then Some (snd (consume (rl_max_per_min l) now
        (bt_get_or (fresh_bucket (rl_max_per_min l) now) (rl_buckets l) c)))
      else bt_get (rl_buckets l) d)"
  by (auto simp: try_consume_at_def split: prod.splits)

definition bucket_bounded :: "u32 \<Rightarrow> token_bucket \<Rightarrow> bool" where
  "bucket_bounded max_per_min b \<longleftrightarrow>
     tb_tokens b \<le> max_per_min \<and> tb_refill_remainder_nanos b < MINUTE_NANOS"

lemma MINUTE_NANOS_pos [simp]: "0 < MINUTE_NANOS"
  by (simp add: MINUTE_NANOS_def from_secs_def)

lemma refill_bounded: "bucket_bounded k b \<Longrightarrow> bucket_bounded k (refill k now b)"
  by (auto simp: bucket_bounded_def refill_def Let_def)

lemma word_pred_le: "(w :: u32) \<le> k \<Longrightarrow> w \<noteq> 0 \<Longrightarrow> w - 1 \<le> k"
  by (simp add: word_le_nat_alt unat_minus_one)

lemma consume_bounded: "bucket_bounded k b \<Longrightarrow> bucket_bounded k (snd (consume k now b))"
  using refill_bounded [of k b now]
  by (auto simp: consume_def bucket_bounded_def Let_def word_pred_le)

lemma fresh_bounded [simp]: "bucket_bounded k (fresh_bucket k now)"
  by (simp add: bucket_bounded_def fresh_bucket_def)

definition limiter_ok :: "u32 \<Rightarrow> rate_limiter \<Rightarrow> bool" where
  "limiter_ok k l \<longleftrightarrow> rl_max_per_min l = k \<and>
     (\<forall>c b. bt_get (rl_buckets l) c = Some b \<longrightarrow> bucket_bounded k b)"

lemma limiter_ok_get:
  "limiter_ok k l \<Longrightarrow> bucket_bounded k (bt_get_or (fresh_bucket k now) (rl_buckets l) c)"
  by (auto simp: limiter_ok_def bt_get_or_def split: option.split)

lemma limiter_ok_step: "limiter_ok k l \<Longrightarrow> limiter_ok k (rl_step l op)"
proof (cases op)
  case (RlConsume c now)
  assume "limiter_ok k l"
  then show ?thesis
    using consume_bounded [OF limiter_ok_get, of k l now now c] RlConsume
    by (auto simp: limiter_ok_def split: if_splits)
next
  case (RlPrune now h)
  assume "limiter_ok k l"
  then show ?thesis using RlPrune
    by (auto simp: limiter_ok_def prune_idle_at_def split: option.splits if_splits)
qed

interpretation limiter: invariant_steps rl_step "limiter_ok k" for k
  by unfold_locales (rule limiter_ok_step)

lemma refill_same_instant [simp]: "tb_last_refill b = now \<Longrightarrow> refill k now b = b"
  by (simp add: refill_def)

lemma consume_all_Cons:
  "fst (consume_all c (t # ts) l) =
     (\<not> isl (fst (try_consume_at c t l))) # fst (consume_all c ts (snd (try_consume_at c t l)))"
  by (simp add: Let_def case_prod_beta del: try_consume_at_simps)

lemma burst:
  assumes "bt_get (rl_buckets l) c = Some b" "tb_last_refill b = now"
  shows "fst (consume_all c (replicate n now) l) =
    replicate (min n (unat (tb_tokens b))) True @ replicate (n - unat (tb_tokens b)) False"
  using assms
proof (induction n arbitrary: l b)
  case 0
  then show ?case by simp
next
  case (Suc n)
  let ?l = "snd (try_consume_at c now l)"
  let ?b = "snd (consume (rl_max_per_min l) now b)"
  have b: "bt_get (rl_buckets ?l) c = Some ?b" "tb_last_refill ?b = now"
    using Suc.prems by (auto simp: bt_get_or_def consume_def Let_def)
  have first: "\<not> isl (fst (try_consume_at c now l)) \<longleftrightarrow> tb_tokens b \<noteq> 0"
    "tb_tokens ?b = (if tb_tokens b = 0 then 0 else tb_tokens b - 1)"
    using Suc.prems by (auto simp: bt_get_or_def consume_def Let_def)
  show ?case
    unfolding replicate_Suc consume_all_Cons Suc.IH [OF b] first(1)
    using first(2)
    by (cases "unat (tb_tokens b)") (auto simp: unat_eq_0 unat_minus_one)
qed

text \<open>Polls of an empty bucket that do not reach a whole token add up in the remainder.\<close>

definition empty_since :: "instant \<Rightarrow> nat \<Rightarrow> token_bucket \<Rightarrow> bool" where
  "empty_since t r b \<longleftrightarrow> tb_tokens b = 0 \<and> tb_last_refill b = t \<and> tb_refill_remainder_nanos b = r"

lemma poll_rejected:
  assumes "empty_since t r b" "r + d * unat k < MINUTE_NANOS"
  shows "\<not> fst (consume k (t + d) b) \<and> empty_since t (r + d * unat k) (snd (consume k (t + d) b))"
  using assms
  by (cases "d = 0") (auto simp: empty_since_def consume_def refill_def elapsed_def Let_def ac_simps)

lemma poll_accepted:
  assumes "empty_since t r b" "MINUTE_NANOS \<le> r + d * unat k" "0 < d" "k \<noteq> 0"
  shows "fst (consume k (t + d) b)"
proof -
  let ?n = "min ((d * unat k + r) div MINUTE_NANOS) (unat k)"
  have "0 < unat k" using assms(4) by (simp add: word_gt_0 unat_gt_0)
  moreover have "0 < (d * unat k + r) div MINUTE_NANOS"
    using assms(2) by (simp add: div_greater_zero_iff add.commute)
  ultimately have n: "0 < ?n" "?n \<le> unat k" by simp_all
  have "unat (word_of_nat ?n :: u32) = ?n"
    using n(2) unat_lt2p [of k] by (simp add: unsigned_of_nat take_bit_nat_eq_self)
  then have "(word_of_nat ?n :: u32) > 0" using n(1) by (metis unat_gt_0 word_gt_0)
  then show ?thesis
    using assms by (auto simp: empty_since_def consume_def refill_def elapsed_def Let_def min_def)
qed

subsection \<open>Properties\<close>

text \<open>
  Bucket bounds: whatever calls and prunings a limiter has seen, no bucket holds more
  tokens than the limit; a call touches only its own connection's bucket; and the first \<open>n\<close>
  calls of an unknown connection at one instant are admitted exactly up to the limit.
\<close>

theorem rate_limiter_bounds:
  "let l = foldl rl_step (rate_limiter_new k) ops in
   (case bt_get (rl_buckets l) c of Some b \<Rightarrow> tb_tokens b \<le> k
    | None \<Rightarrow> fst (consume_all c (replicate n now) l) =
        replicate (min n (unat k)) True @ replicate (n - unat k) False) \<and>
   (if d = c then True
    else bt_get (rl_buckets (snd (try_consume_at c now l))) d = bt_get (rl_buckets l) d)"
proof -
  let ?l = "foldl rl_step (rate_limiter_new k) ops"
  have ok: "limiter_ok k ?l"
    by (rule limiter.inv_run) (simp add: limiter_ok_def rate_limiter_new_def)
  have "fst (consume_all c (replicate n now) ?l) =
      replicate (min n (unat k)) True @ replicate (n - unat k) False"
    if "bt_get (rl_buckets ?l) c = None"
  proof (cases n)
    case (Suc m)
    let ?b = "snd (consume k now (fresh_bucket k now))"
    have max: "rl_max_per_min ?l = k" using ok by (simp add: limiter_ok_def)
    have b: "bt_get (rl_buckets (snd (try_consume_at c now ?l))) c = Some ?b"
      "tb_last_refill ?b = now"
      using that max by (auto simp: bt_get_or_def consume_def Let_def fresh_bucket_def)
    have "tb_tokens ?b = (if k = 0 then 0 else k - 1)"
      "\<not> isl (fst (try_consume_at c now ?l)) \<longleftrightarrow> k \<noteq> 0"
      using that max by (auto simp: bt_get_or_def consume_def Let_def fresh_bucket_def)
    then show ?thesis
      unfolding Suc replicate_Suc consume_all_Cons burst [OF b]
      by (cases "unat k") (auto simp: unat_eq_0 unat_minus_one)
  qed simp
  then show ?thesis
    using ok by (auto simp: Let_def limiter_ok_def bucket_bounded_def split: option.split)
qed

text \<open>
  Rejected calls mint tokens: an empty bucket polled repeatedly at one instant, \<open>d\<close>
  nanoseconds after its last refill, rejects calls while their accumulated credit is below a
  token and then admits one, although \<open>d\<close> alone does not earn a token at the configured rate.
\<close>

theorem rejected_calls_mint_tokens:
  assumes "empty_since t 0 b" "0 < d" "0 < k"
    and "n * (d * unat k) < MINUTE_NANOS" "MINUTE_NANOS \<le> Suc n * (d * unat k)"
  shows "fst (consume k (t + d) (((\<lambda>b. snd (consume k (t + d) b)) ^^ n) b))"
proof -
  have "empty_since t (m * (d * unat k)) (((\<lambda>b. snd (consume k (t + d) b)) ^^ m) b)" if "m \<le> n" for m
    using that
  proof (induction m)
    case 0
    then show ?case using assms(1) by simp
  next
    case (Suc m)
    have "m * (d * unat k) + d * unat k \<le> n * (d * unat k)"
      using mult_le_mono1 [OF Suc.prems, of "d * unat k"] by simp
    with assms(4) have "m * (d * unat k) + d * unat k < MINUTE_NANOS" by linarith
    moreover have "empty_since t (m * (d * unat k)) (((\<lambda>b. snd (consume k (t + d) b)) ^^ m) b)"
      using Suc by simp
    ultimately show ?case
      using poll_rejected [of t "m * (d * unat k)" "((\<lambda>b. snd (consume k (t + d) b)) ^^ m) b" d k]
      by (simp add: add.commute [of "d * unat k"])
  qed
  from poll_accepted [OF this [OF order_refl]] assms(2,3,5) show ?thesis
    by (auto simp: add.commute word_gt_0)
qed

theorem rejected_calls_mint_tokens_witness:
  "let b = \<lparr>tb_tokens = 0, tb_last_refill = 0, tb_refill_remainder_nanos = 0, tb_last_touched = 0\<rparr>
   in fst (consume 3 (0 + from_secs 10) (((\<lambda>b. snd (consume 3 (0 + from_secs 10) b)) ^^ 1) b))"
proof -
  have "empty_since 0 0 \<lparr>tb_tokens = 0, tb_last_refill = 0, tb_refill_remainder_nanos = 0,
      tb_last_touched = 0\<rparr>" by (simp add: empty_since_def)
  from rejected_calls_mint_tokens [OF this, of "from_secs 10" 3 1] show ?thesis
    by (simp add: from_secs_def MINUTE_NANOS_def Let_def)
qed

end
