(* ===== verification/Session_Registry.thy ===== *)
theory Session_Registry
  imports Ordered_Map
begin

section \<open>The session registry\<close>

text \<open>
  \<^verbatim>\<open>convergence-monitor/src/session/registry.rs\<close>: sessions by id, the index from agents to their
  sessions, and the provisional agents. The \<^verbatim>\<open>for\<close> loops over the collected ids are the
  recursive functions \<open>close_loop\<close> and \<open>prune_loop\<close>.
\<close>

record session_state =
  ss_session_id :: uuid
  ss_agent_id :: uuid
  ss_started_at :: datetime
  ss_last_event_at :: datetime
  ss_event_count :: u64
  ss_is_active :: bool

record provisional_agent =
  pa_session_count :: u32
  pa_last_seen :: datetime

record prune_result =
  pr_session_ids :: "uuid list"
  pr_provisional_agent_ids :: "uuid list"

record session_registry =
  sr_sessions :: "(uuid, session_state) btree_map"
  sr_agent_sessions :: "(uuid, uuid list) btree_map"
  sr_provisional :: "(uuid, provisional_agent) btree_map"
  sr_max_provisional :: u32

definition session_registry_new :: "u32 \<Rightarrow> session_registry" where
  "session_registry_new max_provisional =
     \<lparr>sr_sessions = bt_new, sr_agent_sessions = bt_new, sr_provisional = bt_new,
      sr_max_provisional = max_provisional\<rparr>"

fun close_loop ::
  "uuid list \<Rightarrow> (uuid, session_state) btree_map \<Rightarrow> uuid list \<times> (uuid, session_state) btree_map" where
  "close_loop [] m = ([], m)"
| "close_loop (sid # sids) m =
     (case bt_get m sid of
        Some s \<Rightarrow>
          if ss_is_active s
          then (let (closed, m) = close_loop sids (bt_insert sid (s\<lparr>ss_is_active := False\<rparr>) m)
                in (sid # closed, m))
          else close_loop sids m
      | None \<Rightarrow> close_loop sids m)"

definition start_session ::
  "uuid \<Rightarrow> uuid \<Rightarrow> datetime \<Rightarrow> session_registry \<Rightarrow> uuid list \<times> session_registry" where
  "start_session session_id agent_id now r =
     (let (closed, sessions) =
            (case bt_get (sr_agent_sessions r) agent_id of
               Some active \<Rightarrow> close_loop active (sr_sessions r)
             | None \<Rightarrow> ([], sr_sessions r));
          st = \<lparr>ss_session_id = session_id, ss_agent_id = agent_id, ss_started_at = now,
                ss_last_event_at = now, ss_event_count = 0, ss_is_active = True\<rparr>
      in (closed,
          r\<lparr>sr_sessions := bt_insert session_id st sessions,
            sr_agent_sessions :=
              bt_entry_or agent_id [] (\<lambda>sids. sids @ [session_id]) (sr_agent_sessions r),
            sr_provisional := bt_remove agent_id (sr_provisional r)\<rparr>))"

definition end_session :: "uuid \<Rightarrow> session_registry \<Rightarrow> session_registry" where
  "end_session session_id r =
     r\<lparr>sr_sessions := bt_modify session_id (\<lambda>s. s\<lparr>ss_is_active := False\<rparr>) (sr_sessions r)\<rparr>"

definition record_event :: "uuid \<Rightarrow> datetime \<Rightarrow> session_registry \<Rightarrow> session_registry" where
  "record_event session_id now r =
     r\<lparr>sr_sessions := bt_modify session_id
         (\<lambda>s. s\<lparr>ss_event_count := ss_event_count s + 1, ss_last_event_at := now\<rparr>) (sr_sessions r)\<rparr>"

definition is_provisional :: "uuid \<Rightarrow> session_registry \<Rightarrow> bool" where
  "is_provisional agent_id r = bt_contains (sr_provisional r) agent_id"

definition register_provisional ::
  "uuid \<Rightarrow> datetime \<Rightarrow> session_registry \<Rightarrow> bool \<times> session_registry" where
  "register_provisional agent_id now r =
     (let e = bt_get_or \<lparr>pa_session_count = 0, pa_last_seen = now\<rparr> (sr_provisional r) agent_id;
          e = e\<lparr>pa_session_count := pa_session_count e + 1\<rparr>;
          e = e\<lparr>pa_last_seen := now\<rparr>
      in (pa_session_count e \<le> sr_max_provisional r,
          r\<lparr>sr_provisional := bt_insert agent_id e (sr_provisional r)\<rparr>))"

definition get_session :: "uuid \<Rightarrow> session_registry \<Rightarrow> session_state option" where
  "get_session session_id r = bt_get (sr_sessions r) session_id"

definition active_sessions :: "uuid \<Rightarrow> session_registry \<Rightarrow> session_state list" where
  "active_sessions agent_id r =
     (case bt_get (sr_agent_sessions r) agent_id of
        Some sids \<Rightarrow> filter ss_is_active (List.map_filter (bt_get (sr_sessions r)) sids)
      | None \<Rightarrow> [])"

definition sid_active :: "session_registry \<Rightarrow> uuid \<Rightarrow> bool" where
  "sid_active r sid = (case bt_get (sr_sessions r) sid of Some s \<Rightarrow> ss_is_active s | None \<Rightarrow> False)"

definition all_active_agent_ids :: "session_registry \<Rightarrow> uuid list" where
  "all_active_agent_ids r =
     map fst (filter (\<lambda>(_, sids). list_ex (sid_active r) sids) (bt_iter (sr_agent_sessions r)))"

definition has_active_sessions :: "session_registry \<Rightarrow> bool" where
  "has_active_sessions r =
     list_ex (\<lambda>(_, sids). list_ex (sid_active r) sids) (bt_iter (sr_agent_sessions r))"

fun prune_loop :: "uuid list \<Rightarrow> session_registry \<Rightarrow> session_registry" where
  "prune_loop [] r = r"
| "prune_loop (sid # sids) r =
     prune_loop sids
       (case bt_get (sr_sessions r) sid of
          None \<Rightarrow> r
        | Some s \<Rightarrow>
            (let r = r\<lparr>sr_sessions := bt_remove sid (sr_sessions r)\<rparr> in
             case bt_get (sr_agent_sessions r) (ss_agent_id s) of
               None \<Rightarrow> r
             | Some l \<Rightarrow>
                 (let l = filter (\<lambda>c. c \<noteq> sid) l in
                  r\<lparr>sr_agent_sessions :=
                    (if l = [] then bt_remove (ss_agent_id s) (sr_agent_sessions r)
                     else bt_insert (ss_agent_id s) l (sr_agent_sessions r))\<rparr>)))"

definition prune_stale ::
  "datetime \<Rightarrow> chrono_duration \<Rightarrow> session_registry \<Rightarrow> prune_result \<times> session_registry" where
  "prune_stale now idle_horizon r =
     (let stale = map fst (filter (\<lambda>(_, s). now - ss_last_event_at s \<ge> idle_horizon)
            (bt_iter (sr_sessions r)));
          r = prune_loop stale r;
          stale_prov = map fst (filter (\<lambda>(_, a). now - pa_last_seen a \<ge> idle_horizon)
            (bt_iter (sr_provisional r)));
          r = r\<lparr>sr_provisional := foldl (\<lambda>m a. bt_remove a m) (sr_provisional r) stale_prov\<rparr>
      in (\<lparr>pr_session_ids = stale, pr_provisional_agent_ids = stale_prov\<rparr>, r))"

subsection \<open>Sequences of operations\<close>

datatype sr_op =
  SrStart uuid uuid datetime
| SrEnd uuid
| SrEvent uuid datetime
| SrProvisional uuid datetime
| SrPrune datetime chrono_duration

fun sr_step :: "session_registry \<Rightarrow> sr_op \<Rightarrow> session_registry" where
  "sr_step r (SrStart sid a now) = snd (start_session sid a now r)"
| "sr_step r (SrEnd sid) = end_session sid r"
| "sr_step r (SrEvent sid now) = record_event sid now r"
| "sr_step r (SrProvisional a now) = snd (register_provisional a now r)"
| "sr_step r (SrPrune now h) = snd (prune_stale now h r)"

text \<open>
  The index: every session is listed under its agent, and an agent has at most one active
  session, because starting one ends the others.
\<close>

definition listed :: "session_registry \<Rightarrow> uuid \<Rightarrow> uuid \<Rightarrow> bool" where
  "listed r a sid \<longleftrightarrow> sid \<in> set (bt_get_or [] (sr_agent_sessions r) a)"

definition sr_indexed :: "session_registry \<Rightarrow> bool" where
  "sr_indexed r \<longleftrightarrow> (\<forall>sid s. bt_get (sr_sessions r) sid = Some s \<longrightarrow>
     ss_session_id s = sid \<and> listed r (ss_agent_id s) sid)"

definition sr_single :: "session_registry \<Rightarrow> bool" where
  "sr_single r \<longleftrightarrow> (\<forall>sid s sid' s'. bt_get (sr_sessions r) sid = Some s \<longrightarrow>
     bt_get (sr_sessions r) sid' = Some s' \<longrightarrow> ss_is_active s \<longrightarrow> ss_is_active s' \<longrightarrow>
     ss_agent_id s = ss_agent_id s' \<longrightarrow> sid = sid')"

lemma close_loop_get:
  "bt_get (snd (close_loop sids m)) sid = (if sid \<in> set sids
     then map_option (\<lambda>s. s\<lparr>ss_is_active := False\<rparr>) (bt_get m sid) else bt_get m sid)"
proof (induction sids arbitrary: m)
  case (Cons x sids)
  show ?case
  proof (cases "bt_get m x")
    case (Some s)
    show ?thesis
    proof (cases "ss_is_active s")
      case True
      then have "snd (close_loop (x # sids) m) =
          snd (close_loop sids (bt_insert x (s\<lparr>ss_is_active := False\<rparr>) m))"
        using Some by (simp add: Let_def case_prod_beta)
      then show ?thesis using Some by (simp add: Cons.IH)
    next
      case False
      then have "s\<lparr>ss_is_active := False\<rparr> = s" by (cases s) simp
      then show ?thesis using Some False by (simp add: Cons.IH)
    qed
  qed (simp add: Cons.IH)
qed simp

lemma start_session_get:
  "bt_get (sr_sessions (snd (start_session sid a now r))) x =
     (if x = sid then Some \<lparr>ss_session_id = sid, ss_agent_id = a, ss_started_at = now,
          ss_last_event_at = now, ss_event_count = 0, ss_is_active = True\<rparr>
      else if listed r a x then map_option (\<lambda>s. s\<lparr>ss_is_active := False\<rparr>) (bt_get (sr_sessions r) x)
      else bt_get (sr_sessions r) x)"
  by (cases "bt_get (sr_agent_sessions r) a")
    (simp_all add: start_session_def listed_def bt_get_or_def close_loop_get case_prod_beta)

lemma start_session_listed [simp]:
  "listed (snd (start_session sid a now r)) b x \<longleftrightarrow> listed r b x \<or> b = a \<and> x = sid"
  by (auto simp: start_session_def listed_def bt_get_or_def case_prod_beta split: option.splits)

lemma prune_loop_get:
  "bt_get (sr_sessions (prune_loop sids r)) x =
     (if x \<in> set sids then None else bt_get (sr_sessions r) x)"
  by (induction sids arbitrary: r) (auto simp: Let_def split: option.splits)

lemma prune_loop_listed:
  "x \<notin> set sids \<Longrightarrow> listed (prune_loop sids r) a x = listed r a x"
  by (induction sids arbitrary: r)
    (auto simp: Let_def listed_def bt_get_or_def filter_empty_conv split: option.splits if_splits)

lemma prune_stale_get:
  "bt_get (sr_sessions (snd (prune_stale now h r))) x =
     (case bt_get (sr_sessions r) x of None \<Rightarrow> None
      | Some s \<Rightarrow> if now - ss_last_event_at s \<ge> h then None else Some s)"
  by (auto simp: prune_stale_def Let_def prune_loop_get image_iff bt_iter_iff split: option.split)

lemma prune_stale_listed:
  assumes "bt_get (sr_sessions (snd (prune_stale now h r))) x = Some s"
  shows "listed (snd (prune_stale now h r)) a x = listed r a x"
proof -
  let ?stale = "map fst (filter (\<lambda>(_, s). now - ss_last_event_at s \<ge> h) (bt_iter (sr_sessions r)))"
  have "x \<notin> set ?stale"
    using assms unfolding prune_stale_get
    by (auto simp: bt_iter_iff split: option.splits if_splits)
  then have "listed (prune_loop ?stale r) a x = listed r a x" by (rule prune_loop_listed)
  then show ?thesis by (simp add: prune_stale_def Let_def listed_def)
qed

text \<open>
  Apart from a start, an operation only removes sessions or keeps a session's id, agent and
  activity (ending one if anything), and keeps the survivors listed.
\<close>

definition shrinks :: "session_registry \<Rightarrow> session_registry \<Rightarrow> bool" where
  "shrinks r r' \<longleftrightarrow> (\<forall>sid s'. bt_get (sr_sessions r') sid = Some s' \<longrightarrow>
     (\<exists>s. bt_get (sr_sessions r) sid = Some s \<and> ss_session_id s' = ss_session_id s \<and>
        ss_agent_id s' = ss_agent_id s \<and> (ss_is_active s' \<longrightarrow> ss_is_active s)) \<and>
     (\<forall>a. listed r' a sid = listed r a sid))"

lemma step_shrinks:
  "(\<forall>sid a now. op \<noteq> SrStart sid a now) \<Longrightarrow> shrinks r (sr_step r op)"
proof (cases op)
  case (SrEnd sid)
  then show ?thesis by (auto simp: shrinks_def end_session_def listed_def split: if_splits)
next
  case (SrEvent sid now)
  then show ?thesis by (auto simp: shrinks_def record_event_def listed_def split: if_splits)
next
  case (SrProvisional a now)
  then show ?thesis by (auto simp: shrinks_def register_provisional_def listed_def Let_def)
next
  case (SrPrune now h)
  then show ?thesis
    using prune_stale_listed [of now h r]
    by (auto simp: shrinks_def prune_stale_get split: option.splits if_splits)
qed simp

lemma shrinks_ok:
  assumes "shrinks r r'" "sr_indexed r" "sr_single r"
  shows "sr_indexed r' \<and> sr_single r'"
proof -
  have "sr_indexed r'"
    using assms(1,2) unfolding sr_indexed_def shrinks_def by metis
  moreover have "sr_single r'"
    using assms(1,3) unfolding sr_single_def shrinks_def by metis
  ultimately show ?thesis by blast
qed

lemma start_ok:
  assumes "sr_indexed r" "sr_single r"
  shows "sr_indexed (snd (start_session sid a now r)) \<and> sr_single (snd (start_session sid a now r))"
proof -
  have "sr_indexed (snd (start_session sid a now r))"
    using assms(1) unfolding sr_indexed_def start_session_get start_session_listed
    by (auto split: if_splits)
  moreover have "ss_is_active s \<Longrightarrow> ss_agent_id s = a \<Longrightarrow> x = sid"
    if "bt_get (sr_sessions (snd (start_session sid a now r))) x = Some s" for x s
    using that assms(1) unfolding start_session_get sr_indexed_def by (auto split: if_splits)
  moreover have "ss_agent_id s = a \<or> bt_get (sr_sessions r) x = Some s \<or> \<not> ss_is_active s"
    if "bt_get (sr_sessions (snd (start_session sid a now r))) x = Some s" for x s
    using that unfolding start_session_get by (auto split: if_splits)
  ultimately show ?thesis using assms(2) unfolding sr_single_def by metis
qed

lemma sr_step_ok:
  assumes "sr_indexed r \<and> sr_single r"
  shows "sr_indexed (sr_step r op) \<and> sr_single (sr_step r op)"
proof (cases "\<exists>sid a now. op = SrStart sid a now")
  case True
  then show ?thesis using assms start_ok by auto
next
  case False
  then show ?thesis using assms step_shrinks shrinks_ok by blast
qed

interpretation registry: invariant_steps sr_step "\<lambda>r. sr_indexed r \<and> sr_single r"
  by unfold_locales (rule sr_step_ok)

lemma registry_new_ok [simp]: "sr_indexed (session_registry_new k)" "sr_single (session_registry_new k)"
  by (simp_all add: sr_indexed_def sr_single_def session_registry_new_def)

lemma has_active_iff:
  assumes "sr_indexed r"
  shows "has_active_sessions r \<longleftrightarrow> (\<exists>sid s. bt_get (sr_sessions r) sid = Some s \<and> ss_is_active s)"
proof
  assume "has_active_sessions r"
  then show "\<exists>sid s. bt_get (sr_sessions r) sid = Some s \<and> ss_is_active s"
    by (auto simp: has_active_sessions_def sid_active_def list_ex_iff split: option.splits)
next
  assume "\<exists>sid s. bt_get (sr_sessions r) sid = Some s \<and> ss_is_active s"
  then obtain sid s where s: "bt_get (sr_sessions r) sid = Some s" "ss_is_active s" by blast
  then have "listed r (ss_agent_id s) sid" using assms by (simp add: sr_indexed_def)
  then obtain sids where "(ss_agent_id s, sids) \<in> set (bt_iter (sr_agent_sessions r))" "sid \<in> set sids"
    by (cases "bt_get (sr_agent_sessions r) (ss_agent_id s)")
      (auto simp: listed_def bt_get_or_def bt_iter_iff)
  moreover have "sid_active r sid" using s by (simp add: sid_active_def)
  ultimately show "has_active_sessions r" by (auto simp: has_active_sessions_def list_ex_iff)
qed

subsection \<open>Properties\<close>

text \<open>
  One active session per agent, and the registry knows: after any sequence of starts,
  ends, events, provisional registrations and prunings, two active sessions of the same agent
  are the same session, and \<open>has_active_sessions\<close>, which decides whether configuration is
  locked, is true exactly when some session is active.
\<close>

theorem session_registry_invariant:
  "let r = foldl sr_step (session_registry_new k) ops in
   card {sid. \<exists>s. get_session sid r = Some s \<and> ss_is_active s \<and> ss_agent_id s = a} \<le> 1 \<and>
   (has_active_sessions r \<longleftrightarrow> (\<exists>sid s. get_session sid r = Some s \<and> ss_is_active s))"
proof -
  let ?r = "foldl sr_step (session_registry_new k) ops"
  have ok: "sr_indexed ?r" "sr_single ?r"
    using registry.inv_run [of "session_registry_new k" ops] by simp_all
  let ?S = "{sid. \<exists>s. get_session sid ?r = Some s \<and> ss_is_active s \<and> ss_agent_id s = a}"
  have "x = y" if "x \<in> ?S" "y \<in> ?S" for x y
    using that ok(2) unfolding sr_single_def get_session_def by blast
  then have "card ?S \<le> 1" by (cases "?S = {}") (auto simp: card_le_Suc0_iff_eq intro: finite_subset [of _ "{SOME x. x \<in> ?S}"] someI)
  then show ?thesis using has_active_iff [OF ok(1)] by (simp add: Let_def get_session_def)
qed

text \<open>
  Pruning removes exactly the idle sessions and reports them in order: a session survives
  unchanged if and only if its last event is younger than the horizon.
\<close>

theorem prune_stale_exact:
  "let (res, r') = prune_stale now horizon r in
   get_session sid r' = (case get_session sid r of None \<Rightarrow> None
     | Some s \<Rightarrow> if now - ss_last_event_at s \<ge> horizon then None else Some s) \<and>
   sorted (pr_session_ids res) \<and> distinct (pr_session_ids res) \<and>
   (sid \<in> set (pr_session_ids res) \<longleftrightarrow> get_session sid r \<noteq> None \<and> get_session sid r' = None)"
proof -
  define stale where
    "stale = map fst (filter (\<lambda>(_, s). now - ss_last_event_at s \<ge> horizon) (bt_iter (sr_sessions r)))"
  obtain res r' where p: "prune_stale now horizon r = (res, r')" by (cases "prune_stale now horizon r")
  then have "res = fst (prune_stale now horizon r)" "r' = snd (prune_stale now horizon r)" by simp_all
  then have ids: "pr_session_ids res = stale"
    and get: "bt_get (sr_sessions r') sid = (case bt_get (sr_sessions r) sid of None \<Rightarrow> None
      | Some s \<Rightarrow> if now - ss_last_event_at s \<ge> horizon then None else Some s)"
    using prune_stale_get [of now horizon r sid] by (simp_all add: prune_stale_def Let_def stale_def)
  have "sid \<in> set stale \<longleftrightarrow> (\<exists>s. bt_get (sr_sessions r) sid = Some s \<and> now - ss_last_event_at s \<ge> horizon)"
    by (auto simp: stale_def bt_iter_iff image_iff)
  moreover have "sorted stale \<and> distinct stale"
    unfolding stale_def using bt_filter_keys_sorted strict_sorted_iff by blast
  ultimately show ?thesis by (auto simp: p ids get get_session_def split: option.split)
qed

end
