(* ===== verification/Policy.thy ===== *)
theory Policy
  imports Trigger_Event Rust_String
begin

section \<open>The policy engine\<close>

text \<open>
  The crate \<^verbatim>\<open>ghost-policy\<close>: tool calls and their context (\<^verbatim>\<open>context.rs\<close>), denial feedback
  (\<^verbatim>\<open>feedback.rs\<close>), the corporate deny-list and its parser (\<^verbatim>\<open>corp_policy.rs\<close>), the
  level-based tightener (\<^verbatim>\<open>convergence_tightener.rs\<close>) and the engine (\<^verbatim>\<open>engine.rs\<close>). The
  engine hands a trigger to a bounded channel with \<^verbatim>\<open>try_send\<close> and ignores whether there was
  room; the model returns the event it hands over. Deny-lists are read as ASCII text.
\<close>

subsection \<open>Calls, contexts and feedback\<close>

record tool_call =
  tc_tool_name :: string
  tc_arguments :: string
  tc_capability :: string
  tc_is_compaction_flush :: bool

definition PERSONAL_TOOLS :: "string list" where
  "PERSONAL_TOOLS = [''journal_write'', ''emotional_support'', ''personal_reflection'',
     ''relationship_advice'', ''mood_tracking'']"

definition is_personal_emotional :: "tool_call \<Rightarrow> bool" where
  "is_personal_emotional call = list_ex (\<lambda>t. tc_tool_name call = t) PERSONAL_TOOLS"

definition is_heartbeat :: "tool_call \<Rightarrow> bool" where
  "is_heartbeat call \<longleftrightarrow>
     tc_tool_name call = ''heartbeat'' \<or> tc_tool_name call = ''heartbeat_message''"

definition PROACTIVE_TOOLS :: "string list" where
  "PROACTIVE_TOOLS = [''send_proactive_message'', ''schedule_message'', ''heartbeat_message'']"

definition is_proactive_messaging :: "tool_call \<Rightarrow> bool" where
  "is_proactive_messaging call = list_ex (\<lambda>t. tc_tool_name call = t) PROACTIVE_TOOLS"

record policy_context =
  pc_agent_id :: uuid
  pc_session_id :: uuid
  pc_intervention_level :: u8
  pc_session_duration :: duration
  pc_session_denial_count :: u32
  pc_is_compaction_flush :: bool
  pc_session_reflection_count :: u32

record denial_feedback =
  df_reason :: string
  df_constraint :: string
  df_suggested_alternatives :: "string list"

definition denial_feedback_new :: "string \<Rightarrow> string \<Rightarrow> denial_feedback" where
  "denial_feedback_new reason constraint =
     \<lparr>df_reason = reason, df_constraint = constraint, df_suggested_alternatives = []\<rparr>"

definition with_alternatives :: "string list \<Rightarrow> denial_feedback \<Rightarrow> denial_feedback" where
  "with_alternatives alts f = f\<lparr>df_suggested_alternatives := alts\<rparr>"

subsection \<open>The corporate deny-list\<close>

text \<open>\<^verbatim>\<open>str::lines\<close>: the pieces that end in a line feed, without it and without a carriage
  return before it, and what follows the last line feed if it is not empty.\<close>

definition NL :: char where "NL = CHR 0x0A"
definition CR :: char where "CR = CHR 0x0D"

definition strip_cr :: "string \<Rightarrow> string" where
  "strip_cr s = (if s \<noteq> [] \<and> last s = CR then butlast s else s)"

fun lines_from :: "string \<Rightarrow> string \<Rightarrow> string list" where
  "lines_from acc [] = (if acc = [] then [] else [acc])"
| "lines_from acc (c # cs) =
     (if c = NL then strip_cr acc # lines_from [] cs else lines_from (acc @ [c]) cs)"

fun parse_loop :: "bool \<Rightarrow> string list \<Rightarrow> string list" where
  "parse_loop in_denied_section [] = []"
| "parse_loop in_denied_section (line # rest) =
     (let trimmed = trim line in
      if eq_ignore_ascii_case trimmed ''## denied tools'' \<or>
         eq_ignore_ascii_case trimmed ''## denied-tools''
      then parse_loop True rest
      else if in_denied_section \<and> starts_with ''## '' trimmed then []
      else if in_denied_section then
        (case strip_prefix ''- '' trimmed of
           Some tool \<Rightarrow>
             (let tool = trim tool in
              if tool \<noteq> [] then trim_matches (\<lambda>c. c = CHR ''`'') tool # parse_loop True rest
              else parse_loop True rest)
         | None \<Rightarrow> parse_loop True rest)
      else parse_loop False rest)"

definition parse_denied_tools :: "string \<Rightarrow> string set" where
  "parse_denied_tools content = set (parse_loop False (lines_from [] content))"

datatype corp_policy_load_error = NotFound string | ReadError string

text \<open>The file system is an argument: the path does not exist, reading fails, or the content.\<close>

definition corp_policy_load ::
  "string \<Rightarrow> (string + string) option \<Rightarrow> corp_policy_load_error + string set" where
  "corp_policy_load path file =
     (case file of
        None \<Rightarrow> Inl (NotFound path)
      | Some (Inl e) \<Rightarrow> Inl (ReadError e)
      | Some (Inr content) \<Rightarrow> Inr (parse_denied_tools content))"

definition denies :: "string set \<Rightarrow> tool_call \<Rightarrow> bool" where
  "denies denied call \<longleftrightarrow> tc_tool_name call \<in> denied"

subsection \<open>Convergence tightening\<close>

definition evaluate_level_2 :: "tool_call \<Rightarrow> policy_context \<Rightarrow> denial_feedback option" where
  "evaluate_level_2 call ctx =
     (if is_proactive_messaging call
      then Some (with_alternatives
        [''Wait for user to initiate conversation'', ''Respond only to direct messages'']
        (denial_feedback_new ''Proactive messaging restricted at intervention level 2''
          ''convergence_level_2_proactive_restriction''))
      else None)"

definition evaluate_level_3 :: "tool_call \<Rightarrow> policy_context \<Rightarrow> denial_feedback option" where
  "evaluate_level_3 call ctx =
     (case evaluate_level_2 call ctx of
        Some denial \<Rightarrow> Some denial
      | None \<Rightarrow>
          if pc_session_duration ctx > from_secs 7200
          then Some (denial_feedback_new
            ''Session duration exceeds 120-minute cap at intervention level 3''
            ''convergence_level_3_session_cap'')
          else if tc_tool_name call = ''reflection_write'' \<and> pc_session_reflection_count ctx \<ge> 3
          then Some (with_alternatives [''Focus on task execution rather than reflection'']
            (denial_feedback_new
              ''Reflection limit reached at intervention level 3 (max 3 per session)''
              ''convergence_level_3_reflection_limit''))
          else None)"

definition evaluate_level_4 :: "tool_call \<Rightarrow> policy_context \<Rightarrow> denial_feedback option" where
  "evaluate_level_4 call ctx =
     (case evaluate_level_3 call ctx of
        Some denial \<Rightarrow> Some denial
      | None \<Rightarrow>
          if is_personal_emotional call
          then Some (with_alternatives [''Focus on task-related operations only'']
            (denial_feedback_new
              ''Personal/emotional tools disabled at intervention level 4 (task-only mode)''
              ''convergence_level_4_task_only''))
          else if is_heartbeat call
          then Some (denial_feedback_new ''Heartbeat disabled at intervention level 4''
            ''convergence_level_4_heartbeat_disabled'')
          else None)"

definition tightener_evaluate :: "tool_call \<Rightarrow> policy_context \<Rightarrow> denial_feedback option" where
  "tightener_evaluate call ctx =
     (if pc_intervention_level ctx \<le> 1 then None
      else if pc_intervention_level ctx = 2 then evaluate_level_2 call ctx
      else if pc_intervention_level ctx = 3 then evaluate_level_3 call ctx
      else evaluate_level_4 call ctx)"

subsection \<open>The engine\<close>

datatype policy_decision = Permit | Deny denial_feedback | Escalate string

record policy_engine =
  pe_corp_policy :: "string set"
  pe_capability_grants :: "(uuid, string set) btree_map"
  pe_session_denials :: "(uuid, u32) btree_map"
  pe_trigger_sender :: bool
  pe_denial_trigger_threshold :: u32

definition policy_engine_new :: "string set \<Rightarrow> policy_engine" where
  "policy_engine_new corp_policy =
     \<lparr>pe_corp_policy = corp_policy, pe_capability_grants = bt_new, pe_session_denials = bt_new,
      pe_trigger_sender = False, pe_denial_trigger_threshold = 5\<rparr>"

definition with_trigger_sender :: "policy_engine \<Rightarrow> policy_engine" where
  "with_trigger_sender e = e\<lparr>pe_trigger_sender := True\<rparr>"

definition grant_capability :: "uuid \<Rightarrow> string \<Rightarrow> policy_engine \<Rightarrow> policy_engine" where
  "grant_capability agent cap e =
     e\<lparr>pe_capability_grants := bt_entry_or agent {} (insert cap) (pe_capability_grants e)\<rparr>"

definition has_capability :: "policy_engine \<Rightarrow> uuid \<Rightarrow> string \<Rightarrow> bool" where
  "has_capability e agent cap =
     (case bt_get (pe_capability_grants e) agent of Some caps \<Rightarrow> cap \<in> caps | None \<Rightarrow> False)"

definition record_denial ::
  "datetime \<Rightarrow> policy_context \<Rightarrow> tool_call \<Rightarrow> denial_feedback \<Rightarrow> policy_engine \<Rightarrow>
   policy_decision \<times> trigger_event option \<times> policy_engine" where
  "record_denial now ctx call feedback e =
     (let count = bt_get_or 0 (pe_session_denials e) (pc_session_id ctx) + 1;
          e = e\<lparr>pe_session_denials := bt_insert (pc_session_id ctx) count (pe_session_denials e)\<rparr>;
          sent = (if count = pe_denial_trigger_threshold e \<and> pe_trigger_sender e
                  then Some (PolicyDenialThreshold (pc_agent_id ctx) (pc_session_id ctx) count
                         [tc_tool_name call] [df_reason feedback] now)
                  else None)
      in (Deny feedback, sent, e))"

definition policy_evaluate ::
  "datetime \<Rightarrow> tool_call \<Rightarrow> policy_context \<Rightarrow> policy_engine \<Rightarrow>
   policy_decision \<times> trigger_event option \<times> policy_engine" where
  "policy_evaluate now call ctx e =
     (if denies (pe_corp_policy e) call then
        record_denial now ctx call
          (denial_feedback_new (''Tool '' @ [CHR 0x27] @ tc_tool_name call @ [CHR 0x27] @
             '' denied by CORP_POLICY.md'') ''corp_policy_absolute_deny'') e
      else if tc_is_compaction_flush call \<and> tc_tool_name call = ''memory_write'' then
        (Permit, None, e)
      else case tightener_evaluate call ctx of
        Some denial \<Rightarrow> record_denial now ctx call denial e
      | None \<Rightarrow>
          if \<not> has_capability e (pc_agent_id ctx) (tc_capability call) then
            record_denial now ctx call
              (with_alternatives [''Request capability grant from platform administrator'']
                (denial_feedback_new (''Tool '' @ [CHR 0x27] @ tc_tool_name call @ [CHR 0x27] @
                   '' requires capability '' @ [CHR 0x27] @ tc_capability call @ [CHR 0x27] @
                   '' which is not granted'') ''no_capability_grant'')) e
          else (Permit, None, e))"

definition session_denial_count :: "uuid \<Rightarrow> policy_engine \<Rightarrow> u32" where
  "session_denial_count session e = bt_get_or 0 (pe_session_denials e) session"

definition reset_session_denials :: "uuid \<Rightarrow> policy_engine \<Rightarrow> policy_engine" where
  "reset_session_denials session e =
     e\<lparr>pe_session_denials := bt_remove session (pe_session_denials e)\<rparr>"

subsection \<open>Decisions\<close>

lemma record_denial_simps [simp]:
  "fst (record_denial now ctx call f e) = Deny f"
  "pe_trigger_sender (snd (snd (record_denial now ctx call f e))) = pe_trigger_sender e"
  "pe_denial_trigger_threshold (snd (snd (record_denial now ctx call f e))) =
     pe_denial_trigger_threshold e"
  "pe_corp_policy (snd (snd (record_denial now ctx call f e))) = pe_corp_policy e"
  "pe_capability_grants (snd (snd (record_denial now ctx call f e))) = pe_capability_grants e"
  "session_denial_count sid (snd (snd (record_denial now ctx call f e))) =
     session_denial_count sid e + (if sid = pc_session_id ctx then 1 else 0)"
  by (simp_all add: record_denial_def Let_def session_denial_count_def bt_get_or_def)

text \<open>Every evaluation permits without a trace or goes through \<open>record_denial\<close>.\<close>

lemma policy_evaluate_cases:
  obtains "policy_evaluate now call ctx e = (Permit, None, e)"
    "\<not> denies (pe_corp_policy e) call"
    "tc_is_compaction_flush call \<and> tc_tool_name call = ''memory_write'' \<or>
     tightener_evaluate call ctx = None \<and> has_capability e (pc_agent_id ctx) (tc_capability call)"
  | f where "policy_evaluate now call ctx e = record_denial now ctx call f e"
    "denies (pe_corp_policy e) call \<or>
     \<not> (tc_is_compaction_flush call \<and> tc_tool_name call = ''memory_write'') \<and>
       (tightener_evaluate call ctx \<noteq> None \<or>
        \<not> has_capability e (pc_agent_id ctx) (tc_capability call))"
proof (cases "denies (pe_corp_policy e) call")
  case True
  then show ?thesis using that(2) by (simp add: policy_evaluate_def)
next
  case corp: False
  show ?thesis
  proof (cases "tc_is_compaction_flush call \<and> tc_tool_name call = ''memory_write''")
    case True
    then show ?thesis using that(1) corp by (simp add: policy_evaluate_def)
  next
    case False
    then show ?thesis
      using that corp
      by (cases "tightener_evaluate call ctx";
          cases "has_capability e (pc_agent_id ctx) (tc_capability call)")
        (simp_all only: policy_evaluate_def if_False if_True option.case not_True_eq_False
          not_False_eq_True simp_thms option.distinct)
  qed
qed

definition permits :: "datetime \<Rightarrow> tool_call \<Rightarrow> policy_context \<Rightarrow> policy_engine \<Rightarrow> bool" where
  "permits now call ctx e \<longleftrightarrow> fst (policy_evaluate now call ctx e) = Permit"

lemma permits_iff:
  "permits now call ctx e \<longleftrightarrow> \<not> denies (pe_corp_policy e) call \<and>
     (tc_is_compaction_flush call \<and> tc_tool_name call = ''memory_write'' \<or>
      tightener_evaluate call ctx = None \<and> has_capability e (pc_agent_id ctx) (tc_capability call))"
  by (cases rule: policy_evaluate_cases [of now call ctx e]) (auto simp: permits_def)

lemma level_chain:
  "evaluate_level_3 call ctx = None \<Longrightarrow> evaluate_level_2 call ctx = None"
  "evaluate_level_4 call ctx = None \<Longrightarrow> evaluate_level_3 call ctx = None"
proof -
  show "evaluate_level_3 call ctx = None \<Longrightarrow> evaluate_level_2 call ctx = None"
    by (cases "evaluate_level_2 call ctx") (simp_all add: evaluate_level_3_def)
  show "evaluate_level_4 call ctx = None \<Longrightarrow> evaluate_level_3 call ctx = None"
    by (cases "evaluate_level_3 call ctx") (simp_all add: evaluate_level_4_def)
qed

lemma level_ignored [simp]:
  "evaluate_level_2 call (ctx\<lparr>pc_intervention_level := l\<rparr>) = evaluate_level_2 call ctx"
  "evaluate_level_3 call (ctx\<lparr>pc_intervention_level := l\<rparr>) = evaluate_level_3 call ctx"
  "evaluate_level_4 call (ctx\<lparr>pc_intervention_level := l\<rparr>) = evaluate_level_4 call ctx"
  by (simp_all add: evaluate_level_2_def evaluate_level_3_def evaluate_level_4_def)

lemma tightener_antimono:
  assumes "l \<le> l'" "tightener_evaluate call (ctx\<lparr>pc_intervention_level := l'\<rparr>) = None"
  shows "tightener_evaluate call (ctx\<lparr>pc_intervention_level := l\<rparr>) = None"
proof -
  have "(l' :: u8) \<le> 1 \<Longrightarrow> l \<le> 1" "l' = 2 \<Longrightarrow> l \<le> 1 \<or> l = 2" "l' = 3 \<Longrightarrow> l \<le> 1 \<or> l = 2 \<or> l = 3"
    using assms(1) by (auto simp: word_le_nat_alt word_unat_eq_iff)
  then show ?thesis
    using assms(2) level_chain [of call ctx]
    by (auto simp: tightener_evaluate_def split: if_splits)
qed

subsection \<open>Denial counting\<close>

type_synonym policy_input = "datetime \<times> tool_call \<times> policy_context"

fun policy_run :: "policy_input list \<Rightarrow> policy_engine \<Rightarrow>
    (policy_decision \<times> policy_context) list \<times> trigger_event list \<times> policy_engine" where
  "policy_run [] e = ([], [], e)"
| "policy_run ((now, call, ctx) # xs) e =
     (let (d, sent, e) = policy_evaluate now call ctx e;
          (ds, ts, e) = policy_run xs e
      in ((d, ctx) # ds, (case sent of None \<Rightarrow> [] | Some t \<Rightarrow> [t]) @ ts, e))"

definition denials_of :: "uuid \<Rightarrow> (policy_decision \<times> policy_context) list \<Rightarrow> nat" where
  "denials_of sid ds = length (filter (\<lambda>(d, ctx). d \<noteq> Permit \<and> pc_session_id ctx = sid) ds)"

definition triggers_of :: "uuid \<Rightarrow> trigger_event list \<Rightarrow> nat" where
  "triggers_of sid ts = length (filter (\<lambda>t. denial_session_id t = sid) ts)"

lemma policy_run_count:
  assumes "pe_trigger_sender e" "pe_denial_trigger_threshold e = 5"
    and "unat (session_denial_count sid e) + denials_of sid (fst (policy_run xs e)) < 2 ^ 32"
  shows "unat (session_denial_count sid (snd (snd (policy_run xs e)))) =
      unat (session_denial_count sid e) + denials_of sid (fst (policy_run xs e)) \<and>
    triggers_of sid (fst (snd (policy_run xs e))) =
      (if unat (session_denial_count sid e) < 5 \<and>
          5 \<le> unat (session_denial_count sid e) + denials_of sid (fst (policy_run xs e)) then 1 else 0)"
  using assms
proof (induction xs arbitrary: e)
  case Nil
  then show ?case by (simp add: denials_of_def triggers_of_def)
next
  case (Cons x xs)
  obtain now call ctx where x: "x = (now, call, ctx)" by (cases x)
  show ?case
  proof (cases rule: policy_evaluate_cases [of now call ctx e])
    case 1
    then show ?thesis
      using Cons.IH [OF Cons.prems(1,2)] Cons.prems(3)
      by (simp add: x denials_of_def Let_def case_prod_beta)
  next
    case (2 f)
    let ?e = "snd (snd (record_denial now ctx call f e))"
    let ?own = "sid = pc_session_id ctx"
    have run: "policy_run (x # xs) e =
        ((Deny f, ctx) # fst (policy_run xs ?e),
         (case fst (snd (record_denial now ctx call f e)) of None \<Rightarrow> [] | Some t \<Rightarrow> [t]) @
           fst (snd (policy_run xs ?e)), snd (snd (policy_run xs ?e)))"
      by (simp add: x 2(1) Let_def case_prod_beta)
    have count: "unat (session_denial_count sid e) + (if ?own then 1 else 0) +
        denials_of sid (fst (policy_run xs ?e)) < 2 ^ 32"
      using Cons.prems(3) unfolding run by (auto simp: denials_of_def)
    then have step: "unat (session_denial_count sid ?e) =
        unat (session_denial_count sid e) + (if ?own then 1 else 0)"
      using unat_word_Suc [of "session_denial_count sid e"] by auto
    have sent: "triggers_of sid (case fst (snd (record_denial now ctx call f e)) of None \<Rightarrow> [] | Some t \<Rightarrow> [t]) =
        (if ?own \<and> unat (session_denial_count sid e) = 4 then 1 else 0)"
      using Cons.prems(1,2) step
      by (auto simp: record_denial_def Let_def triggers_of_def session_denial_count_def
          word_unat_eq_iff split: if_splits)
    have IH: "unat (session_denial_count sid (snd (snd (policy_run xs ?e)))) =
        unat (session_denial_count sid ?e) + denials_of sid (fst (policy_run xs ?e)) \<and>
      triggers_of sid (fst (snd (policy_run xs ?e))) =
        (if unat (session_denial_count sid ?e) < 5 \<and>
            5 \<le> unat (session_denial_count sid ?e) + denials_of sid (fst (policy_run xs ?e)) then 1 else 0)"
      using Cons.prems(1,2) count step by (intro Cons.IH) simp_all
    show ?thesis
      using IH sent unfolding run step by (auto simp: denials_of_def triggers_of_def)
  qed
qed

subsection \<open>Reading a deny-list\<close>

text \<open>The deny-list file the format describes: the heading, then one bullet per tool in
  backticks.\<close>

definition bullet :: "string \<Rightarrow> string" where
  "bullet tool = ''- `'' @ tool @ ''`''"

definition render_policy :: "string list \<Rightarrow> string" where
  "render_policy tools = ''## Denied Tools'' @ [NL] @ concat (map (\<lambda>t. bullet t @ [NL]) tools)"

definition clean_name :: "string \<Rightarrow> bool" where
  "clean_name t \<longleftrightarrow> t \<noteq> [] \<and> (\<forall>c \<in> set t. \<not> is_ascii_whitespace c \<and> c \<noteq> CHR ''`'')"

lemma lines_from_line:
  "NL \<notin> set line \<Longrightarrow>
   lines_from acc (line @ NL # rest) = strip_cr (acc @ line) # lines_from [] rest"
  by (induction line arbitrary: acc) auto

lemma trim_matches_id:
  assumes "s \<noteq> []" "\<not> P (hd s)" "\<not> P (last s)"
  shows "trim_matches P s = s"
proof -
  have "dropWhile P s = s" using assms(1,2) by (cases s) auto
  moreover have "dropWhile P (rev s) = rev s" using assms(1,3) by (cases s rule: rev_cases) auto
  ultimately show ?thesis by (simp add: trim_matches_def)
qed

lemma trim_matches_quoted:
  assumes "s \<noteq> []" "\<forall>c \<in> set s. \<not> P c" "P q"
  shows "trim_matches P (q # s @ [q]) = s"
proof -
  have "dropWhile P (s @ [q]) = s @ [q]" using assms(1,2) by (cases s) auto
  moreover have "dropWhile P (rev s) = rev s" using assms(1,2) by (cases s rule: rev_cases) auto
  ultimately show ?thesis using assms(3) by (simp add: trim_matches_def)
qed

lemma NL_whitespace: "is_ascii_whitespace NL"
  by (simp add: is_ascii_whitespace_def NL_def)

lemma bullet_no_NL: "clean_name t \<Longrightarrow> NL \<notin> set (bullet t)"
proof -
  assume "clean_name t"
  then have "NL \<notin> set t" using NL_whitespace unfolding clean_name_def by blast
  then show ?thesis by (simp add: bullet_def NL_def)
qed

lemma strip_cr_bullet [simp]: "strip_cr (bullet t) = bullet t"
  by (simp add: strip_cr_def bullet_def CR_def)

lemma trim_bullet [simp]: "trim (bullet t) = bullet t"
  unfolding trim_def by (rule trim_matches_id) (simp_all add: bullet_def is_ascii_whitespace_def)

lemma trim_quoted [simp]: "trim (CHR ''`'' # t @ ''`'') = CHR ''`'' # t @ ''`''"
  unfolding trim_def by (rule trim_matches_id) (simp_all add: is_ascii_whitespace_def)

lemma bullet_not_heading [simp]:
  "\<not> eq_ignore_ascii_case (bullet t) ''## denied tools''"
  "\<not> eq_ignore_ascii_case (bullet t) ''## denied-tools''"
  "\<not> starts_with ''## '' (bullet t)" "strip_prefix ''- '' (bullet t) = Some (CHR ''`'' # t @ ''`'')"
  by (simp_all add: eq_ignore_ascii_case_def bullet_def to_ascii_lowercase_def starts_with_def
      strip_prefix_def)

lemma parse_bullets:
  "\<forall>t \<in> set tools. clean_name t \<Longrightarrow> parse_loop True (map bullet tools) = tools"
proof (induction tools)
  case (Cons t tools)
  have "trim_matches (\<lambda>c. c = CHR ''`'') (CHR ''`'' # t @ ''`'') = t"
    using Cons.prems by (intro trim_matches_quoted) (auto simp: clean_name_def)
  then show ?case using Cons by (simp add: Let_def)
qed simp

lemma lines_render:
  assumes "\<forall>t \<in> set tools. clean_name t"
  shows "lines_from [] (render_policy tools) = ''## Denied Tools'' # map bullet tools"
proof -
  have "lines_from [] (concat (map (\<lambda>t. bullet t @ [NL]) tools)) = map bullet tools"
    using assms
  proof (induction tools)
    case (Cons t tools)
    then show ?case using lines_from_line [OF bullet_no_NL, of t "[]"] by simp
  qed simp
  moreover have "NL \<notin> set ''## Denied Tools''" by (simp add: NL_def)
  ultimately show ?thesis
    using lines_from_line [of "''## Denied Tools''" "[]"]
    by (simp add: render_policy_def strip_cr_def CR_def)
qed

lemma parse_heading: "parse_loop b (''## Denied Tools'' # rest) = parse_loop True rest"
proof -
  have "trim ''## Denied Tools'' = ''## Denied Tools''"
    unfolding trim_def by (rule trim_matches_id) (simp_all add: is_ascii_whitespace_def)
  moreover have "eq_ignore_ascii_case ''## Denied Tools'' ''## denied tools''" by code_simp
  ultimately show ?thesis by simp
qed

lemma parse_render:
  "\<forall>t \<in> set tools. clean_name t \<Longrightarrow> parse_denied_tools (render_policy tools) = set tools"
  by (simp only: parse_denied_tools_def lines_render parse_heading parse_bullets)

subsection \<open>Properties\<close>

text \<open>
  What the documents promise, from the history alone. The names of the tools and the lowest level
  that forbids a call are a table: proactive messages are forbidden from level 2 on, anything in a
  session of more than two hours and a fourth reflection from level 3 on, personal tools and
  heartbeats from level 4 on.
\<close>

definition forbidden_from :: "tool_call \<Rightarrow> policy_context \<Rightarrow> nat option" where
  "forbidden_from call ctx =
     (let tool = tc_tool_name call in
      if tool \<in> {''send_proactive_message'', ''schedule_message'', ''heartbeat_message''} then Some 2
      else if from_secs 7200 < pc_session_duration ctx \<or>
          tool = ''reflection_write'' \<and> \<not> pc_session_reflection_count ctx < 3 then Some 3
      else if tool \<in> {''journal_write'', ''emotional_support'', ''personal_reflection'',
          ''relationship_advice'', ''mood_tracking'', ''heartbeat''} then Some 4
      else None)"

definition promised ::
  "string set \<Rightarrow> (uuid \<times> string) set \<Rightarrow> tool_call \<Rightarrow> policy_context \<Rightarrow> bool" where
  "promised corp grants call ctx \<longleftrightarrow> tc_tool_name call \<notin> corp \<and>
     (tc_is_compaction_flush call \<and> tc_tool_name call = ''memory_write'' \<or>
      (case forbidden_from call ctx of None \<Rightarrow> True | Some l \<Rightarrow> unat (pc_intervention_level ctx) < l) \<and>
      (pc_agent_id ctx, tc_capability call) \<in> grants)"

text \<open>The calls of an engine, and what happens to it.\<close>

datatype policy_op =
  PolEvaluate datetime tool_call policy_context
| PolGrant uuid string
| PolReset uuid

fun policy_step :: "policy_engine \<Rightarrow> policy_op \<Rightarrow> policy_engine" where
  "policy_step e (PolEvaluate now call ctx) = snd (snd (policy_evaluate now call ctx e))"
| "policy_step e (PolGrant agent cap) = grant_capability agent cap e"
| "policy_step e (PolReset sid) = reset_session_denials sid e"

definition granted :: "policy_op list \<Rightarrow> (uuid \<times> string) set" where
  "granted ops = {(agent, cap). PolGrant agent cap \<in> set ops}"

text \<open>The refusals of a session since its last reset; the history is given newest first.\<close>

fun refusals :: "string set \<Rightarrow> uuid \<Rightarrow> policy_op list \<Rightarrow> nat" where
  "refusals corp sid [] = 0"
| "refusals corp sid (PolReset s # older) = (if s = sid then 0 else refusals corp sid older)"
| "refusals corp sid (PolGrant agent cap # older) = refusals corp sid older"
| "refusals corp sid (PolEvaluate now call ctx # older) =
     refusals corp sid older +
     (if pc_session_id ctx = sid \<and> \<not> promised corp (granted older) call ctx then 1 else 0)"

lemma forbidden_level:
  "tightener_evaluate call ctx = None \<longleftrightarrow>
     (case forbidden_from call ctx of None \<Rightarrow> True | Some l \<Rightarrow> unat (pc_intervention_level ctx) < l)"
proof -
  let ?l = "pc_intervention_level ctx"
  have l: "?l \<le> 1 \<longleftrightarrow> unat ?l < 2" "?l = 2 \<longleftrightarrow> unat ?l = 2" "?l = 3 \<longleftrightarrow> unat ?l = 3"
    by (auto simp: word_le_nat_alt word_unat_eq_iff)
  show ?thesis
    unfolding tightener_evaluate_def evaluate_level_4_def evaluate_level_3_def evaluate_level_2_def
      forbidden_from_def Let_def l is_proactive_messaging_def PROACTIVE_TOOLS_def is_personal_emotional_def
      PERSONAL_TOOLS_def is_heartbeat_def not_less
    by (simp split: option.splits) (use linorder_not_less in auto)
qed

lemma permits_promised:
  assumes "\<And>a c. has_capability e a c \<longleftrightarrow> (a, c) \<in> grants"
  shows "permits now call ctx e \<longleftrightarrow> promised (pe_corp_policy e) grants call ctx"
  unfolding permits_iff promised_def forbidden_level assms denies_def by simp

lemma policy_step_frame:
  "pe_corp_policy (policy_step e op) = pe_corp_policy e"
  "pe_trigger_sender (policy_step e op) = pe_trigger_sender e"
  "pe_denial_trigger_threshold (policy_step e op) = pe_denial_trigger_threshold e"
proof -
  have "pe_corp_policy (policy_step e op) = pe_corp_policy e \<and>
    pe_trigger_sender (policy_step e op) = pe_trigger_sender e \<and>
    pe_denial_trigger_threshold (policy_step e op) = pe_denial_trigger_threshold e"
  proof (cases op)
    case (PolEvaluate now call ctx)
    then show ?thesis by (cases rule: policy_evaluate_cases [of now call ctx e]) simp_all
  qed (simp_all add: grant_capability_def reset_session_denials_def)
  then show "pe_corp_policy (policy_step e op) = pe_corp_policy e"
    "pe_trigger_sender (policy_step e op) = pe_trigger_sender e"
    "pe_denial_trigger_threshold (policy_step e op) = pe_denial_trigger_threshold e" by simp_all
qed

lemma policy_step_capabilities:
  "has_capability (policy_step e op) a c \<longleftrightarrow> has_capability e a c \<or> op = PolGrant a c"
proof (cases op)
  case (PolEvaluate now call ctx)
  then show ?thesis by (cases rule: policy_evaluate_cases [of now call ctx e]) (simp_all add: has_capability_def)
qed (auto simp: grant_capability_def reset_session_denials_def has_capability_def bt_get_or_def
    split: option.splits)

lemma policy_step_count:
  "session_denial_count sid (policy_step e op) =
     (case op of
        PolEvaluate now call ctx \<Rightarrow> session_denial_count sid e +
          (if pc_session_id ctx = sid \<and> \<not> permits now call ctx e then 1 else 0)
      | PolGrant a c \<Rightarrow> session_denial_count sid e
      | PolReset s \<Rightarrow> if s = sid then 0 else session_denial_count sid e)"
proof (cases op)
  case (PolEvaluate now call ctx)
  then show ?thesis
    by (cases rule: policy_evaluate_cases [of now call ctx e]) (auto simp: permits_def)
qed (auto simp: grant_capability_def reset_session_denials_def session_denial_count_def bt_get_or_def)

definition policy_history :: "string set \<Rightarrow> policy_op list \<Rightarrow> policy_engine" where
  "policy_history corp ops = foldl policy_step (with_trigger_sender (policy_engine_new corp)) ops"

lemma policy_history_frame:
  "pe_corp_policy (policy_history corp ops) = corp" "pe_trigger_sender (policy_history corp ops)"
  "pe_denial_trigger_threshold (policy_history corp ops) = 5"
  by (induction ops rule: rev_induct)
    (simp_all add: policy_history_def policy_step_frame with_trigger_sender_def policy_engine_new_def)

lemma policy_history_capability:
  "has_capability (policy_history corp ops) a c \<longleftrightarrow> (a, c) \<in> granted ops"
proof (induction ops rule: rev_induct)
  case Nil
  then show ?case
    by (simp add: policy_history_def granted_def with_trigger_sender_def policy_engine_new_def has_capability_def)
next
  case (snoc op ops)
  then show ?case by (auto simp: policy_history_def policy_step_capabilities granted_def)
qed

lemma policy_history_permits:
  "permits now call ctx (policy_history corp ops) \<longleftrightarrow> promised corp (granted ops) call ctx"
  using permits_promised [OF policy_history_capability] by (simp add: policy_history_frame)

lemma policy_history_count:
  "session_denial_count sid (policy_history corp ops) = of_nat (refusals corp sid (rev ops))"
proof (induction ops rule: rev_induct)
  case (snoc op ops)
  have "policy_history corp (ops @ [op]) = policy_step (policy_history corp ops) op"
    by (simp add: policy_history_def)
  moreover have "granted (rev ops) = granted ops" by (simp add: granted_def)
  ultimately show ?case
    using snoc by (simp add: policy_step_count policy_history_permits split: policy_op.splits)
qed (simp add: policy_history_def with_trigger_sender_def policy_engine_new_def session_denial_count_def
    bt_get_or_def)

text \<open>
  C16. The engine keeps the documented policy: after any history of evaluations, grants and session
  resets of an engine with a deny-list \<open>corp\<close>, a call is permitted exactly when the list does not
  name its tool and it is a compaction flush of \<^verbatim>\<open>memory_write\<close>, or its intervention level is below
  the lowest level that forbids the call and its capability was granted to this very agent earlier.
  The session's count is the number of its refused calls since its last reset (as 32-bit integer), and
  the evaluation hands over a trigger, for this agent and session, exactly when it is the refusal that
  brings the count to five.
\<close>

theorem policy_decision_exact:
  "let e = policy_history corp ops; (d, sent, e') = policy_evaluate now call ctx e;
       refused = \<not> promised corp (granted ops) call ctx;
       sid = pc_session_id ctx
   in (d = Permit) = (\<not> refused) \<and>
      session_denial_count sid e' = of_nat (refusals corp sid (rev ops) + (if refused then 1 else 0)) \<and>
      (case sent of
         None \<Rightarrow> \<not> (refused \<and> (of_nat (refusals corp sid (rev ops) + 1) :: u32) = 5)
       | Some t \<Rightarrow> refused \<and> (of_nat (refusals corp sid (rev ops) + 1) :: u32) = 5 \<and>
           (\<exists>reason. t = PolicyDenialThreshold (pc_agent_id ctx) sid 5 [tc_tool_name call] [reason] now))"
proof -
  let ?e = "policy_history corp ops"
  note perm = policy_history_permits [of now call ctx corp ops]
  note count = policy_history_count [of "pc_session_id ctx" corp ops]
  show ?thesis
  proof (cases rule: policy_evaluate_cases [of now call ctx ?e])
    case 1
    then have "promised corp (granted ops) call ctx" using perm by (simp add: permits_def)
    then show ?thesis using 1 count by (simp add: Let_def)
  next
    case (2 f)
    then have ref: "\<not> promised corp (granted ops) call ctx" using perm by (simp add: permits_def)
    have "session_denial_count (pc_session_id ctx) (snd (snd (record_denial now ctx call f ?e))) =
        of_nat (refusals corp (pc_session_id ctx) (rev ops) + 1)"
      by (simp add: count)
    moreover have "fst (snd (record_denial now ctx call f ?e)) =
        (if (of_nat (refusals corp (pc_session_id ctx) (rev ops) + 1) :: u32) = 5
         then Some (PolicyDenialThreshold (pc_agent_id ctx) (pc_session_id ctx) 5 [tc_tool_name call] [df_reason f] now)
         else None)"
      using count
      by (simp add: record_denial_def Let_def policy_history_frame session_denial_count_def add.commute)
    ultimately show ?thesis using 2(1) ref by (simp add: Let_def case_prod_beta)
  qed
qed

text \<open>
  Tightening is monotonic in the intervention level: whatever is permitted at a level is
  permitted at every lower level, all else being equal.
\<close>

theorem tightening_monotone:
  assumes "l \<le> l'" "permits now call (ctx\<lparr>pc_intervention_level := l'\<rparr>) e"
  shows "permits now call (ctx\<lparr>pc_intervention_level := l\<rparr>) e"
  using assms tightener_antimono [OF assms(1)] by (auto simp: permits_iff)

definition sample_call :: tool_call where
  "sample_call = \<lparr>tc_tool_name = ''web_search'', tc_arguments = ''{}'', tc_capability = ''net'',
     tc_is_compaction_flush = False\<rparr>"

definition sample_ctx :: policy_context where
  "sample_ctx = \<lparr>pc_agent_id = 1, pc_session_id = 2, pc_intervention_level = 0,
     pc_session_duration = 0, pc_session_denial_count = 0, pc_is_compaction_flush = False,
     pc_session_reflection_count = 0\<rparr>"

theorem tightening_monotone_witness:
  "permits 0 sample_call (sample_ctx\<lparr>pc_intervention_level := 1\<rparr>)
     (grant_capability 1 ''net'' (policy_engine_new {}))"
  by (rule tightening_monotone [of 1 4])
    (simp_all add: permits_iff denies_def policy_engine_new_def grant_capability_def sample_call_def
      sample_ctx_def tightener_evaluate_def evaluate_level_4_def evaluate_level_3_def
      evaluate_level_2_def is_proactive_messaging_def PROACTIVE_TOOLS_def is_personal_emotional_def
      PERSONAL_TOOLS_def is_heartbeat_def has_capability_def bt_get_or_def)

text \<open>
  Denials are counted per session and reported once: over any sequence of evaluations of a
  fresh engine with a trigger channel, a session's count is the number of its denials and
  exactly one threshold trigger is sent for it if there are five or more, none otherwise (for
  fewer than \<^verbatim>\<open>2^32\<close> denials).
\<close>

theorem denial_trigger_once:
  assumes "denials_of sid (fst (policy_run xs (with_trigger_sender (policy_engine_new corp)))) < 2 ^ 32"
  shows "let (ds, ts, e) = policy_run xs (with_trigger_sender (policy_engine_new corp)) in
    unat (session_denial_count sid e) = denials_of sid ds \<and>
    triggers_of sid ts = (if denials_of sid ds \<ge> 5 then 1 else 0)"
proof -
  let ?e = "with_trigger_sender (policy_engine_new corp)"
  have "pe_trigger_sender ?e" "pe_denial_trigger_threshold ?e = 5" "session_denial_count sid ?e = 0"
    by (simp_all add: with_trigger_sender_def policy_engine_new_def session_denial_count_def
        bt_get_or_def)
  with policy_run_count [of ?e sid xs] assms show ?thesis by (simp add: case_prod_beta)
qed

theorem denial_trigger_once_witness:
  "let (ds, ts, e) = policy_run (replicate 6 (0, sample_call, sample_ctx))
         (with_trigger_sender (policy_engine_new {''web_search''})) in
    unat (session_denial_count 2 e) = denials_of 2 ds \<and>
    triggers_of 2 ts = (if denials_of 2 ds \<ge> 5 then 1 else 0)"
proof (rule denial_trigger_once)
  have "denials_of sid (fst (policy_run xs e)) \<le> length xs" for sid xs e
  proof (induction xs arbitrary: e)
    case (Cons x xs)
    then show ?case
      by (cases x) (auto simp: denials_of_def Let_def case_prod_beta intro: le_SucI)
  qed (simp add: denials_of_def)
  from this [of 2 "replicate 6 (0, sample_call, sample_ctx)"
      "with_trigger_sender (policy_engine_new {''web_search''})"]
  show "denials_of 2 (fst (policy_run (replicate 6 (0, sample_call, sample_ctx))
    (with_trigger_sender (policy_engine_new {''web_search''})))) < 2 ^ 32" by simp
qed

text \<open>
  Reading a deny-list: loading a file with the heading and one bullet per tool yields
  exactly those tools, and an engine with that policy permits no call of any of them, whatever
  its capabilities, level or flush flag.
\<close>

theorem deny_list_round_trip:
  assumes "\<forall>t \<in> set tools. clean_name t"
  shows "corp_policy_load path (Some (Inr (render_policy tools))) = Inr (set tools) \<and>
    (tc_tool_name call \<in> set tools \<longrightarrow> pe_corp_policy e = set tools \<longrightarrow> \<not> permits now call ctx e)"
  using parse_render [OF assms] by (simp add: corp_policy_load_def permits_iff denies_def)

theorem deny_list_round_trip_witness:
  "corp_policy_load ''p'' (Some (Inr (render_policy [''shell_exec'', ''rm'']))) =
     Inr (set [''shell_exec'', ''rm'']) \<and>
   \<not> permits 0 (sample_call\<lparr>tc_tool_name := ''rm''\<rparr>) sample_ctx (policy_engine_new (set [''shell_exec'', ''rm'']))"
  using deny_list_round_trip [of "[''shell_exec'', ''rm'']" "''p''" "sample_call\<lparr>tc_tool_name := ''rm''\<rparr>"
      "policy_engine_new (set [''shell_exec'', ''rm''])" 0 sample_ctx]
  by (simp add: clean_name_def is_ascii_whitespace_def policy_engine_new_def)

end
