(* ===== verification/Breakers.thy ===== *)
theory Breakers
  imports Rust_String
begin

section \<open>Circuit breakers and the damage counter\<close>

text \<open>
  Three circuit breakers with one contract: the tool breaker of the agent loop
  (\<^verbatim>\<open>ghost-agent-loop/src/circuit_breaker.rs\<close>, with its error classification), the provider
  breaker of the LLM client (\<^verbatim>\<open>ghost-llm/src/fallback.rs\<close>) and the entry of the mesh's cascade
  breaker (in the theory \<open>Cascade\<close>). The locale \<open>circuit\<close> states the contract and proves what a
  client relies on: a tripped breaker refuses every call until the cooldown after the last
  failure is over. The damage counter (\<^verbatim>\<open>ghost-agent-loop/src/damage_counter.rs\<close>) is independent
  of the breakers. Counters are 32 bits wide.
\<close>

subsection \<open>The contract\<close>

text \<open>\<open>admit\<close> asks for a call at a time, \<open>fail\<close> and \<open>succeed\<close> report its outcome.\<close>

locale circuit =
  fixes admit :: "instant \<Rightarrow> 's \<Rightarrow> bool \<times> 's"
    and fail :: "instant \<Rightarrow> 's \<Rightarrow> 's"
    and succeed :: "'s \<Rightarrow> 's"
    and is_open :: "'s \<Rightarrow> bool"
    and last_failure :: "'s \<Rightarrow> instant option"
    and cooldown :: "'s \<Rightarrow> duration"
  assumes admit_open: "\<lbrakk>is_open s; last_failure s = Some l; elapsed now l < cooldown s\<rbrakk> \<Longrightarrow>
      admit now s = (False, s)"
    and fail_open: "is_open s \<Longrightarrow> is_open (fail now s)"
    and fail_last: "last_failure (fail now s) = Some now"
    and fail_cooldown: "cooldown (fail now s) = cooldown s"
    and succeed_admits: "fst (admit now (succeed s))"
begin

text \<open>A client that keeps asking and reporting failures, with the answers it gets.\<close>

fun drive :: "(instant \<times> bool) list \<Rightarrow> 's \<Rightarrow> bool list \<times> 's" where
  "drive [] s = ([], s)"
| "drive ((now, True) # es) s =
     (let (a, s) = admit now s; (as, s) = drive es s in (a # as, s))"
| "drive ((now, False) # es) s = drive es (fail now s)"

lemma blackout:
  assumes "is_open s" "last_failure s = Some l" "t0 \<le> l"
    and "\<forall>(now, q) \<in> set es. t0 \<le> now \<and> now < t0 + cooldown s"
  shows "True \<notin> set (fst (drive es s)) \<and> is_open (snd (drive es s))"
  using assms
proof (induction es s arbitrary: l rule: drive.induct)
  case (1 s)
  then show ?case by simp
next
  case (2 now es s)
  have "elapsed now l < cooldown s" using "2.prems"(3,4) by (auto simp: elapsed_def)
  then have "admit now s = (False, s)" by (rule admit_open [OF "2.prems"(1,2)])
  then show ?case using "2.IH" [OF _ refl, of False s] "2.prems" by (auto simp: case_prod_beta)
next
  case (3 now es s)
  have "t0 \<le> now" using "3.prems"(4) by auto
  moreover have "\<forall>(now', q) \<in> set es. t0 \<le> now' \<and> now' < t0 + cooldown (fail now s)"
    using "3.prems"(4) by (auto simp: fail_cooldown)
  ultimately show ?case using "3.IH" [OF fail_open [OF "3.prems"(1)] fail_last] by simp
qed

end

subsection \<open>Error classification\<close>

datatype failure_type = Transient | RateLimit | AuthFailure | ModelRefusal | Fatal

fun should_increment :: "failure_type \<Rightarrow> bool" where
  "should_increment Transient = True"
| "should_increment Fatal = True"
| "should_increment _ = False"

definition classify_llm_error :: "string \<Rightarrow> failure_type" where
  "classify_llm_error error =
     (let lower = map to_ascii_lowercase error in
      if contains lower ''429'' \<or> contains lower ''rate limit'' \<or>
         contains lower ''too many requests'' \<or> contains lower ''quota exceeded''
      then RateLimit
      else if contains lower ''401'' \<or> contains lower ''403'' \<or> contains lower ''unauthorized'' \<or>
         contains lower ''forbidden'' \<or> contains lower ''invalid api key'' \<or>
         contains lower ''authentication''
      then AuthFailure
      else if contains lower ''content policy'' \<or> contains lower ''content_policy'' \<or>
         contains lower ''context_length_exceeded'' \<or> contains lower ''context length'' \<or>
         contains lower ''model refused'' \<or> contains lower ''safety'' \<or>
         contains lower ''max_tokens''
      then ModelRefusal
      else if contains lower ''500'' \<or> contains lower ''502'' \<or> contains lower ''503'' \<or>
         contains lower ''timeout'' \<or> contains lower ''timed out'' \<or>
         contains lower ''connection'' \<or> contains lower ''overloaded'' \<or>
         contains lower ''server error'' \<or> contains lower ''internal error''
      then Transient
      else Fatal)"

subsection \<open>The tool breaker\<close>

datatype circuit_breaker_state = Closed | Open | HalfOpen

record circuit_breaker =
  cb_state :: circuit_breaker_state
  cb_consecutive_failures :: u32
  cb_threshold :: u32
  cb_cooldown :: duration
  cb_last_failure :: "instant option"

definition circuit_breaker_new :: "u32 \<Rightarrow> duration \<Rightarrow> circuit_breaker" where
  "circuit_breaker_new threshold cooldown =
     \<lparr>cb_state = Closed, cb_consecutive_failures = 0, cb_threshold = threshold,
      cb_cooldown = cooldown, cb_last_failure = None\<rparr>"

definition circuit_breaker_default :: circuit_breaker where
  "circuit_breaker_default = circuit_breaker_new 3 (from_secs 60)"

definition breaker_state :: "instant \<Rightarrow> circuit_breaker \<Rightarrow> circuit_breaker_state" where
  "breaker_state now b =
     (if cb_state b = Open then
        (case cb_last_failure b of
           Some t \<Rightarrow> if elapsed now t \<ge> cb_cooldown b then HalfOpen else cb_state b
         | None \<Rightarrow> cb_state b)
      else cb_state b)"

definition allows_call :: "instant \<Rightarrow> circuit_breaker \<Rightarrow> bool \<times> circuit_breaker" where
  "allows_call now b =
     (case breaker_state now b of
        Closed \<Rightarrow> (True, b)
      | Open \<Rightarrow> (False, b)
      | HalfOpen \<Rightarrow> (True, b\<lparr>cb_state := HalfOpen\<rparr>))"

definition record_success :: "circuit_breaker \<Rightarrow> circuit_breaker" where
  "record_success b = b\<lparr>cb_consecutive_failures := 0, cb_state := Closed\<rparr>"

definition record_classified_failure ::
  "failure_type \<Rightarrow> instant \<Rightarrow> circuit_breaker \<Rightarrow> circuit_breaker" where
  "record_classified_failure ft now b =
     (if \<not> should_increment ft then b
      else
        let b = b\<lparr>cb_consecutive_failures := cb_consecutive_failures b + 1,
                  cb_last_failure := Some now\<rparr>
        in case cb_state b of
             Closed \<Rightarrow> if cb_consecutive_failures b \<ge> cb_threshold b then b\<lparr>cb_state := Open\<rparr> else b
           | HalfOpen \<Rightarrow> b\<lparr>cb_state := Open\<rparr>
           | Open \<Rightarrow> b)"

definition record_failure :: "instant \<Rightarrow> circuit_breaker \<Rightarrow> circuit_breaker" where
  "record_failure now b = record_classified_failure Transient now b"

interpretation tool: circuit allows_call record_failure record_success
  "\<lambda>b. cb_state b = Open" cb_last_failure cb_cooldown
  by unfold_locales
    (auto simp: allows_call_def breaker_state_def record_failure_def record_classified_failure_def
      record_success_def Let_def split: circuit_breaker_state.splits)

subsection \<open>The provider breaker\<close>

datatype cb_state_kind = CBClosed | CBOpen | CBHalfOpen

record provider_circuit_breaker =
  pb_state :: cb_state_kind
  pb_consecutive_failures :: u32
  pb_threshold :: u32
  pb_cooldown :: duration
  pb_last_failure :: "instant option"

definition provider_breaker_new :: "u32 \<Rightarrow> duration \<Rightarrow> provider_circuit_breaker" where
  "provider_breaker_new threshold cooldown =
     \<lparr>pb_state = CBClosed, pb_consecutive_failures = 0, pb_threshold = threshold,
      pb_cooldown = cooldown, pb_last_failure = None\<rparr>"

definition can_attempt ::
  "instant \<Rightarrow> provider_circuit_breaker \<Rightarrow> bool \<times> provider_circuit_breaker" where
  "can_attempt now b =
     (case pb_state b of
        CBClosed \<Rightarrow> (True, b)
      | CBOpen \<Rightarrow>
          (case pb_last_failure b of
             Some t \<Rightarrow> if elapsed now t \<ge> pb_cooldown b then (True, b\<lparr>pb_state := CBHalfOpen\<rparr>)
                       else (False, b)
           | None \<Rightarrow> (False, b))
      | CBHalfOpen \<Rightarrow> (True, b))"

definition provider_record_success :: "provider_circuit_breaker \<Rightarrow> provider_circuit_breaker" where
  "provider_record_success b = b\<lparr>pb_consecutive_failures := 0, pb_state := CBClosed\<rparr>"

definition provider_record_failure ::
  "instant \<Rightarrow> provider_circuit_breaker \<Rightarrow> provider_circuit_breaker" where
  "provider_record_failure now b =
     (let b = b\<lparr>pb_consecutive_failures := pb_consecutive_failures b + 1,
                pb_last_failure := Some now\<rparr>
      in case pb_state b of
           CBClosed \<Rightarrow> if pb_consecutive_failures b \<ge> pb_threshold b then b\<lparr>pb_state := CBOpen\<rparr> else b
         | CBHalfOpen \<Rightarrow> b\<lparr>pb_state := CBOpen\<rparr>
         | CBOpen \<Rightarrow> b)"

interpretation provider: circuit can_attempt provider_record_failure provider_record_success
  "\<lambda>b. pb_state b = CBOpen" pb_last_failure pb_cooldown
  by unfold_locales
    (auto simp: can_attempt_def provider_record_failure_def provider_record_success_def Let_def
      split: cb_state_kind.splits)

text \<open>
  The two breakers are the same machine: renaming the states and fields carries every operation
  of one to the other.
\<close>

fun provider_state :: "circuit_breaker_state \<Rightarrow> cb_state_kind" where
  "provider_state Closed = CBClosed"
| "provider_state Open = CBOpen"
| "provider_state HalfOpen = CBHalfOpen"

definition as_provider :: "circuit_breaker \<Rightarrow> provider_circuit_breaker" where
  "as_provider b = \<lparr>pb_state = provider_state (cb_state b),
     pb_consecutive_failures = cb_consecutive_failures b, pb_threshold = cb_threshold b,
     pb_cooldown = cb_cooldown b, pb_last_failure = cb_last_failure b\<rparr>"

lemma provider_simulates_tool:
  assumes "cb_state b = Open \<Longrightarrow> cb_last_failure b \<noteq> None"
  shows "as_provider (circuit_breaker_new th cd) = provider_breaker_new th cd"
    "can_attempt now (as_provider b) = map_prod id as_provider (allows_call now b)"
    "provider_record_failure now (as_provider b) = as_provider (record_failure now b)"
    "provider_record_success (as_provider b) = as_provider (record_success b)"
  using assms
  by (cases b; cases "cb_state b";
      auto simp: as_provider_def circuit_breaker_new_def provider_breaker_new_def can_attempt_def
        allows_call_def breaker_state_def provider_record_failure_def record_failure_def
        record_classified_failure_def provider_record_success_def record_success_def Let_def)+

subsection \<open>The damage counter\<close>

record damage_counter =
  dc_count :: u32
  dc_threshold :: u32

definition damage_counter_new :: "u32 \<Rightarrow> damage_counter" where
  "damage_counter_new threshold = \<lparr>dc_count = 0, dc_threshold = threshold\<rparr>"

definition damage_increment :: "damage_counter \<Rightarrow> damage_counter" where
  "damage_increment d = d\<lparr>dc_count := dc_count d + 1\<rparr>"

definition is_halted :: "damage_counter \<Rightarrow> bool" where
  "is_halted d \<longleftrightarrow> dc_count d \<ge> dc_threshold d"

definition damage_reset :: "damage_counter \<Rightarrow> damage_counter" where
  "damage_reset d = d\<lparr>dc_count := 0\<rparr>"

definition set_threshold :: "u32 \<Rightarrow> damage_counter \<Rightarrow> damage_counter" where
  "set_threshold threshold d = d\<lparr>dc_threshold := threshold\<rparr>"

lemma damage_run:
  "n < 2 ^ 32 \<Longrightarrow> (damage_increment ^^ n) (damage_counter_new th) =
     \<lparr>dc_count = word_of_nat n, dc_threshold = th\<rparr>"
  by (induction n) (auto simp: damage_counter_new_def damage_increment_def)

subsection \<open>Failures without a success\<close>

definition fail_all :: "(failure_type \<times> instant) list \<Rightarrow> circuit_breaker \<Rightarrow> circuit_breaker" where
  "fail_all fs b = foldl (\<lambda>b (ft, t). record_classified_failure ft t b) b fs"

definition counted :: "(failure_type \<times> instant) list \<Rightarrow> instant list" where
  "counted fs = map snd (filter (should_increment \<circ> fst) fs)"

lemma fail_all_snoc: "fail_all (fs @ [(ft, t)]) b = record_classified_failure ft t (fail_all fs b)"
  by (simp add: fail_all_def)

lemma counted_snoc: "counted (fs @ [(ft, t)]) = counted fs @ (if should_increment ft then [t] else [])"
  by (simp add: counted_def)

lemma fail_all_new:
  assumes "length (counted fs) < 2 ^ 32"
  shows "fail_all fs (circuit_breaker_new k cd) =
    \<lparr>cb_state = (if counted fs \<noteq> [] \<and> unat k \<le> length (counted fs) then Open else Closed),
     cb_consecutive_failures = word_of_nat (length (counted fs)), cb_threshold = k,
     cb_cooldown = cd,
     cb_last_failure = (if counted fs = [] then None else Some (last (counted fs)))\<rparr>"
  using assms
proof (induction fs rule: rev_induct)
  case Nil
  then show ?case by (simp add: fail_all_def counted_def circuit_breaker_new_def)
next
  case (snoc f fs)
  obtain ft t where f: "f = (ft, t)" by (cases f)
  let ?n = "length (counted fs)"
  show ?case
  proof (cases "should_increment ft")
    case False
    then show ?thesis using snoc
      by (simp add: f fail_all_snoc counted_snoc record_classified_failure_def)
  next
    case True
    then have n: "Suc ?n < 2 ^ 32" using snoc.prems by (simp add: f counted_snoc)
    have w: "(word_of_nat ?n :: u32) + 1 = word_of_nat (Suc ?n)" by simp
    have le: "k \<le> word_of_nat (Suc ?n) \<longleftrightarrow> unat k \<le> Suc ?n"
      using n by (simp add: word_le_nat_alt unsigned_of_nat take_bit_nat_eq_self del: of_nat_Suc)
    have IH: "fail_all fs (circuit_breaker_new k cd) =
      \<lparr>cb_state = (if counted fs \<noteq> [] \<and> unat k \<le> ?n then Open else Closed),
       cb_consecutive_failures = word_of_nat ?n, cb_threshold = k, cb_cooldown = cd,
       cb_last_failure = (if counted fs = [] then None else Some (last (counted fs)))\<rparr>"
      using snoc n by simp
    show ?thesis
      using True
      by (auto simp: f fail_all_snoc counted_snoc record_classified_failure_def Let_def IH w le
          simp del: of_nat_Suc)
  qed
qed

subsection \<open>Properties\<close>

text \<open>
  The tool breaker trips exactly on its threshold of counted failures and then blocks: a
  fresh breaker that sees failures and no success refuses calls exactly when at least the
  threshold (and at least one) of them were transient or fatal; rate limits, authentication
  failures and refusals never count. Once tripped, every call in the cooldown after the last
  counted failure is refused, whatever further failures are reported meanwhile.
\<close>

theorem tool_breaker_trips_and_blocks:
  assumes "length (counted fs) < 2 ^ 32"
  shows "let b = fail_all fs (circuit_breaker_new k cd) in
    (cb_state b = Open \<longleftrightarrow> counted fs \<noteq> [] \<and> unat k \<le> length (counted fs)) \<and>
    (cb_state b = Open \<longrightarrow>
      (\<forall>(now, q) \<in> set es. last (counted fs) \<le> now \<and> now < last (counted fs) + cd) \<longrightarrow>
      True \<notin> set (fst (tool.drive es b)))"
proof -
  define b where "b = fail_all fs (circuit_breaker_new k cd)"
  note new = fail_all_new [OF assms, of k cd, folded b_def]
  have "cb_state b = Open \<longleftrightarrow> counted fs \<noteq> [] \<and> unat k \<le> length (counted fs)"
    unfolding new by simp
  moreover have "cb_state b = Open \<Longrightarrow> cb_last_failure b = Some (last (counted fs))"
    "cb_cooldown b = cd"
    unfolding new by (auto split: if_splits)
  ultimately show ?thesis
    using tool.blackout [of b "last (counted fs)" "last (counted fs)" es]
    unfolding Let_def b_def [symmetric] by blast
qed

theorem tool_breaker_trips_and_blocks_witness:
  "True \<notin> set (fst (tool.drive [(30, True), (40, False), (50, True)]
     (fail_all [(Transient, 10), (RateLimit, 15), (Fatal, 20)] (circuit_breaker_new 2 100))))"
  using tool_breaker_trips_and_blocks [of "[(Transient, 10), (RateLimit, 15), (Fatal, 20)]" 2 100
      "[(30, True), (40, False), (50, True)]"]
  by (simp add: counted_def Let_def)

end
