(* ===== verification/Cascade.thy ===== *)
theory Cascade
  imports Ordered_Map Float64 Breakers "HOL-Library.Product_Lexorder"
begin

section \<open>The cascade breaker and delegation depth\<close>

text \<open>
  \<^verbatim>\<open>ghost-mesh/src/safety/cascade_breaker.rs\<close>: a breaker per pair of agents, which delegation
  failures and convergence spikes of the target trip, the delegation depth tracker and the loop
  detector. The spike threshold \<^verbatim>\<open>0.7\<close> is the double nearest to seven tenths.
\<close>

datatype mesh_error =
  AgentNotFound uuid
| TaskFailed uuid string
| AuthenticationFailed string
| TrustInsufficient uuid f64 f64
| RateLimited string
| ProtocolError string
| MeshTimeout u64
| InvalidTransition string string
| DelegationDepthExceeded u32 u32
| CircuitBreakerOpen uuid uuid
| MemoryPoisoningDetected string
| KillGateClosed uuid

datatype cascade_breaker_state = CascadeClosed | CascadeOpen | CascadeHalfOpen

record breaker_entry =
  be_state :: cascade_breaker_state
  be_consecutive_failures :: u32
  be_last_failure :: "instant option"

definition breaker_entry_new :: breaker_entry where
  "breaker_entry_new =
     \<lparr>be_state = CascadeClosed, be_consecutive_failures = 0, be_last_failure = None\<rparr>"

definition effective_state :: "duration \<Rightarrow> instant \<Rightarrow> breaker_entry \<Rightarrow> cascade_breaker_state" where
  "effective_state cooldown now e =
     (if be_state e = CascadeOpen then
        (case be_last_failure e of
           Some t \<Rightarrow> if elapsed now t \<ge> cooldown then CascadeHalfOpen else be_state e
         | None \<Rightarrow> be_state e)
      else be_state e)"

record cascade_circuit_breaker =
  cc_breakers :: "(uuid \<times> uuid, breaker_entry) btree_map"
  cc_threshold :: u32
  cc_cooldown :: duration
  cc_max_delegation_depth :: u32
  cc_convergence_spike_threshold :: f64

definition cascade_new :: "u32 \<Rightarrow> duration \<Rightarrow> u32 \<Rightarrow> cascade_circuit_breaker" where
  "cascade_new threshold cooldown max_depth =
     \<lparr>cc_breakers = bt_new, cc_threshold = threshold, cc_cooldown = cooldown,
      cc_max_delegation_depth = max_depth,
      cc_convergence_spike_threshold = Finite (3152519739159347 / 4503599627370496)\<rparr>"

definition cascade_default :: cascade_circuit_breaker where
  "cascade_default = cascade_new 3 (from_secs 300) 3"

definition cascade_state ::
  "instant \<Rightarrow> uuid \<Rightarrow> uuid \<Rightarrow> cascade_circuit_breaker \<Rightarrow> cascade_breaker_state" where
  "cascade_state now from to c =
     (case bt_get (cc_breakers c) (from, to) of
        None \<Rightarrow> CascadeClosed
      | Some e \<Rightarrow> effective_state (cc_cooldown c) now e)"

definition allows_delegation :: "instant \<Rightarrow> uuid \<Rightarrow> uuid \<Rightarrow> cascade_circuit_breaker \<Rightarrow> bool" where
  "allows_delegation now from to c =
     (case cascade_state now from to c of
        CascadeClosed \<Rightarrow> True | CascadeHalfOpen \<Rightarrow> True | CascadeOpen \<Rightarrow> False)"

definition check_delegation ::
  "instant \<Rightarrow> uuid \<Rightarrow> uuid \<Rightarrow> u32 \<Rightarrow> cascade_circuit_breaker \<Rightarrow> mesh_error + unit" where
  "check_delegation now from to current_depth c =
     (if current_depth \<ge> cc_max_delegation_depth c
      then Inl (DelegationDepthExceeded current_depth (cc_max_delegation_depth c))
      else if \<not> allows_delegation now from to c then Inl (CircuitBreakerOpen from to)
      else Inr ())"

definition entry_success :: "breaker_entry \<Rightarrow> breaker_entry" where
  "entry_success e = e\<lparr>be_consecutive_failures := 0, be_state := CascadeClosed\<rparr>"

definition entry_failure :: "u32 \<Rightarrow> instant \<Rightarrow> breaker_entry \<Rightarrow> breaker_entry" where
  "entry_failure threshold now e =
     (let e = e\<lparr>be_consecutive_failures := be_consecutive_failures e + 1,
                be_last_failure := Some now\<rparr>
      in case be_state e of
           CascadeClosed \<Rightarrow>
             if be_consecutive_failures e \<ge> threshold then e\<lparr>be_state := CascadeOpen\<rparr> else e
         | CascadeHalfOpen \<Rightarrow> e\<lparr>be_state := CascadeOpen\<rparr>
         | CascadeOpen \<Rightarrow> e)"

definition cascade_record_success ::
  "uuid \<Rightarrow> uuid \<Rightarrow> cascade_circuit_breaker \<Rightarrow> cascade_circuit_breaker" where
  "cascade_record_success from to c =
     c\<lparr>cc_breakers := bt_entry_or (from, to) breaker_entry_new entry_success (cc_breakers c)\<rparr>"

definition cascade_record_failure ::
  "instant \<Rightarrow> uuid \<Rightarrow> uuid \<Rightarrow> cascade_circuit_breaker \<Rightarrow> cascade_circuit_breaker" where
  "cascade_record_failure now from to c =
     c\<lparr>cc_breakers :=
       bt_entry_or (from, to) breaker_entry_new (entry_failure (cc_threshold c) now) (cc_breakers c)\<rparr>"

text \<open>The loop over the pairs that target the agent reads the clock once per pair; \<open>now\<close> gives
  the reading for each.\<close>

definition record_convergence_spike ::
  "(uuid \<times> uuid \<Rightarrow> instant) \<Rightarrow> uuid \<Rightarrow> f64 \<Rightarrow> cascade_circuit_breaker \<Rightarrow>
   cascade_circuit_breaker" where
  "record_convergence_spike now target score c =
     (if f64_lt score (cc_convergence_spike_threshold c) then c
      else
        let pairs_to_trip = filter (\<lambda>(_, to). to = target) (bt_keys (cc_breakers c))
        in c\<lparr>cc_breakers := foldl (\<lambda>m p. bt_modify p
               (\<lambda>e. e\<lparr>be_state := CascadeOpen, be_last_failure := Some (now p)\<rparr>) m)
               (cc_breakers c) pairs_to_trip\<rparr>)"

subsection \<open>Delegation depth and loops\<close>

record delegation_depth_tracker =
  dt_depths :: "(uuid, u32) btree_map"
  dt_max_depth :: u32

definition depth_tracker_new :: "u32 \<Rightarrow> delegation_depth_tracker" where
  "depth_tracker_new max_depth = \<lparr>dt_depths = bt_new, dt_max_depth = max_depth\<rparr>"

definition register_task :: "uuid \<Rightarrow> delegation_depth_tracker \<Rightarrow> delegation_depth_tracker" where
  "register_task task t = t\<lparr>dt_depths := bt_insert task 0 (dt_depths t)\<rparr>"

definition record_hop ::
  "uuid \<Rightarrow> delegation_depth_tracker \<Rightarrow> (mesh_error + u32) \<times> delegation_depth_tracker" where
  "record_hop task t =
     (let depth = bt_get_or 0 (dt_depths t) task + 1;
          t = t\<lparr>dt_depths := bt_insert task depth (dt_depths t)\<rparr>
      in (if depth > dt_max_depth t
          then Inl (DelegationDepthExceeded depth (dt_max_depth t)) else Inr depth, t))"

definition current_depth :: "uuid \<Rightarrow> delegation_depth_tracker \<Rightarrow> u32" where
  "current_depth task t = bt_get_or 0 (dt_depths t) task"

definition remove_task :: "uuid \<Rightarrow> delegation_depth_tracker \<Rightarrow> delegation_depth_tracker" where
  "remove_task task t = t\<lparr>dt_depths := bt_remove task (dt_depths t)\<rparr>"

definition would_exceed :: "u32 \<Rightarrow> delegation_depth_tracker \<Rightarrow> bool" where
  "would_exceed depth t \<longleftrightarrow> depth \<ge> dt_max_depth t"

fun detect_loop :: "(uuid \<times> uuid) list \<Rightarrow> bool" where
  "detect_loop [] = False"
| "detect_loop ((from_a, to_a) # rest) =
     (if list_ex (\<lambda>(_, to_b). from_a = to_b) ((from_a, to_a) # rest) then True
      else detect_loop rest)"

subsection \<open>The breaker contract\<close>

text \<open>A pair's entry with the breaker's cooldown, threshold and the empty success report.\<close>

interpretation pair: circuit "\<lambda>now e. (effective_state cooldown now e \<noteq> CascadeOpen, e)"
  "entry_failure threshold" entry_success "\<lambda>e. be_state e = CascadeOpen" be_last_failure
  "\<lambda>_. cooldown" for cooldown threshold
  by unfold_locales
    (auto simp: effective_state_def entry_failure_def entry_success_def Let_def
      split: cascade_breaker_state.splits)

lemma allows_delegation_entry:
  "allows_delegation now from to c =
     (case bt_get (cc_breakers c) (from, to) of None \<Rightarrow> True
      | Some e \<Rightarrow> effective_state (cc_cooldown c) now e \<noteq> CascadeOpen)"
  by (auto simp: allows_delegation_def cascade_state_def split: option.splits
      cascade_breaker_state.splits)

lemma spike_get:
  "bt_get (cc_breakers (record_convergence_spike now target score c)) (from, to) =
     (if to = target \<and> \<not> f64_lt score (cc_convergence_spike_threshold c)
      then map_option (\<lambda>e. e\<lparr>be_state := CascadeOpen, be_last_failure := Some (now (from, to))\<rparr>)
        (bt_get (cc_breakers c) (from, to))
      else bt_get (cc_breakers c) (from, to))"
proof -
  let ?trip = "\<lambda>p e. e\<lparr>be_state := CascadeOpen, be_last_failure := Some (now p)\<rparr>"
  have fold: "bt_get (foldl (\<lambda>m p. bt_modify p (?trip p) m) m ps) q =
      (if q \<in> set ps then map_option (?trip q) (bt_get m q) else bt_get m q)"
    if "distinct ps" for ps q and m :: "(uuid \<times> uuid, breaker_entry) btree_map"
    using that by (induction ps arbitrary: m) (auto simp: option.map_comp)
  have "distinct (filter (\<lambda>(_, to). to = target) (bt_keys (cc_breakers c)))"
    by (simp add: bt_keys_distinct)
  from fold [OF this] show ?thesis
    by (auto simp: record_convergence_spike_def Let_def bt_keys_iff)
qed

subsection \<open>Delegation chains\<close>

text \<open>A chain is connected when every delegation starts where the previous one ended; its nodes
  are the first delegator and all the targets.\<close>

fun connected :: "(uuid \<times> uuid) list \<Rightarrow> bool" where
  "connected ((a, b) # (c, d) # rest) \<longleftrightarrow> b = c \<and> connected ((c, d) # rest)"
| "connected _ \<longleftrightarrow> True"

definition chain_nodes :: "(uuid \<times> uuid) list \<Rightarrow> uuid list" where
  "chain_nodes chain = (case chain of [] \<Rightarrow> [] | (a, _) # _ \<Rightarrow> a # map snd chain)"

lemma detect_loop_nodes:
  "connected chain \<Longrightarrow> detect_loop chain \<longleftrightarrow> \<not> distinct (chain_nodes chain)"
proof (induction chain rule: connected.induct)
  case (1 a b c d rest)
  then have "detect_loop ((c, d) # rest) \<longleftrightarrow> \<not> distinct (chain_nodes ((c, d) # rest))" "b = c"
    by simp_all
  moreover have "list_ex (\<lambda>(_, to_b). x = to_b) es \<longleftrightarrow> x \<in> snd ` set es" for x and es :: "(uuid \<times> uuid) list"
    by (force simp: list_ex_iff)
  ultimately show ?case by (simp add: chain_nodes_def)
qed (auto simp: chain_nodes_def)

lemma record_hop_run:
  assumes "n < 2 ^ 32"
  shows "current_depth task (((\<lambda>t. snd (record_hop task t)) ^^ n) (register_task task t)) = word_of_nat n \<and>
    dt_max_depth (((\<lambda>t. snd (record_hop task t)) ^^ n) (register_task task t)) = dt_max_depth t"
  using assms
  by (induction n)
    (auto simp: current_depth_def register_task_def record_hop_def bt_get_or_def Let_def)

subsection \<open>Properties\<close>

text \<open>
  Loop detection is exact on delegation chains: in a connected chain the detector answers
  yes if and only if some agent occurs twice among the chain's nodes.
\<close>

theorem detect_loop_exact:
  assumes "connected chain"
  shows "detect_loop chain \<longleftrightarrow> \<not> distinct (chain_nodes chain)"
  by (rule detect_loop_nodes [OF assms])

theorem detect_loop_exact_witness:
  "detect_loop [(1, 2), (2, 3), (3, 1)] \<longleftrightarrow> \<not> distinct (chain_nodes [(1, 2), (2, 3), (3, 1)])"
  by (rule detect_loop_exact) simp

text \<open>
  A convergence spike blocks the pairs it knows: when a score reaches the threshold, every
  delegation to the target by an agent that has a breaker entry for it is refused until the
  cooldown is over, other targets are unaffected, and an agent without an entry is still
  allowed.
\<close>

theorem spike_blocks_known_pairs:
  assumes "\<not> f64_lt score (cc_convergence_spike_threshold c)"
    and "elapsed now (spike (from, to)) < cc_cooldown c"
  shows "allows_delegation now from to (record_convergence_spike spike target score c) \<longleftrightarrow>
    (if to = target then bt_get (cc_breakers c) (from, to) = None else allows_delegation now from to c)"
proof -
  have "cc_cooldown (record_convergence_spike spike target score c) = cc_cooldown c"
    by (simp add: record_convergence_spike_def Let_def)
  then show ?thesis
    using assms
    by (auto simp: allows_delegation_entry spike_get effective_state_def split: option.splits)
qed

theorem spike_blocks_known_pairs_witness:
  "allows_delegation 5 1 2 (record_convergence_spike (\<lambda>_. 0) 2 PosInf
     (cascade_record_success 1 2 cascade_default)) \<longleftrightarrow>
   (if (2 :: uuid) = 2 then bt_get (cc_breakers (cascade_record_success 1 2 cascade_default)) (1, 2) = None
    else allows_delegation 5 1 2 (cascade_record_success 1 2 cascade_default))"
  by (rule spike_blocks_known_pairs)
    (simp_all add: cascade_record_success_def cascade_default_def cascade_new_def from_secs_def elapsed_def)

end
