(* ===== verification/Agent_Message.thy ===== *)
theory Agent_Message
  imports Gate_Chain Ordered_Map "HOL-Library.List_Lexorder" "HOL-Library.Char_ord"
begin

section \<open>Agent messages\<close>

text \<open>
  \<^verbatim>\<open>ghost-gateway/src/messaging/protocol.rs\<close>: the message, its payloads, the delegation states,
  the canonical bytes that are signed and hashed, and signing. A JSON value is its rendering;
  serialisation (\<^verbatim>\<open>serde_json\<close>), timestamps (\<^verbatim>\<open>chrono\<close>), \<^verbatim>\<open>blake3\<close> and Ed25519 are parameters,
  collected in \<open>msg_env\<close>. Keys are their 32 bytes.
\<close>

type_synonym json_value = string
type_synonym verifying_key = hash32
type_synonym signing_key = hash32

datatype message_payload =
  TaskRequest string json_value
| TaskResponse uuid json_value
| Notification string
| DelegationOffer string json_value
| DelegationAccept uuid
| DelegationReject uuid string
| DelegationComplete uuid json_value
| DelegationDispute uuid string

datatype delegation_state = Offered | Accepted | Rejected | Completed | Disputed

fun can_transition_to :: "delegation_state \<Rightarrow> delegation_state \<Rightarrow> bool" where
  "can_transition_to Offered Accepted = True"
| "can_transition_to Offered Rejected = True"
| "can_transition_to Accepted Completed = True"
| "can_transition_to Accepted Disputed = True"
| "can_transition_to _ _ = False"

record agent_message =
  am_id :: uuid
  am_sender :: uuid
  am_recipient :: uuid
  am_payload :: message_payload
  am_context :: "(string, json_value) btree_map"
  am_nonce :: uuid
  am_timestamp :: datetime
  am_content_hash :: hash32
  am_signature :: byte_seq
  am_encrypted :: bool

record msg_env =
  me_blake3 :: "byte_seq \<Rightarrow> hash32"
  me_rfc3339 :: "datetime \<Rightarrow> string"
  me_payload_json :: "message_payload \<Rightarrow> byte_seq option"
  me_context_json :: "(string, json_value) btree_map \<Rightarrow> byte_seq option"
  me_verify :: "byte_seq \<Rightarrow> byte_seq \<Rightarrow> verifying_key \<Rightarrow> bool"
  me_sign :: "byte_seq \<Rightarrow> signing_key \<Rightarrow> byte_seq"

definition serialized :: "byte_seq option \<Rightarrow> byte_seq" where
  "serialized r = (case r of Some bytes \<Rightarrow> bytes | None \<Rightarrow> as_bytes ''<serialization_error>'')"

definition canonical_bytes :: "msg_env \<Rightarrow> agent_message \<Rightarrow> byte_seq" where
  "canonical_bytes env msg =
     uuid_bytes (am_id msg) @ uuid_bytes (am_sender msg) @ uuid_bytes (am_recipient msg) @
     serialized (me_payload_json env (am_payload msg)) @
     serialized (me_context_json env (am_context msg)) @
     uuid_bytes (am_nonce msg) @ as_bytes (me_rfc3339 env (am_timestamp msg))"

definition compute_content_hash :: "msg_env \<Rightarrow> agent_message \<Rightarrow> hash32" where
  "compute_content_hash env msg = me_blake3 env (canonical_bytes env msg)"

text \<open>\<^verbatim>\<open>AgentMessage::new\<close>: \<open>get_str\<close> and \<open>get_value\<close> look a field up in the JSON data (as a
  string and as a value); the two fresh UUIDs and the clock reading are arguments.\<close>

definition agent_message_new ::
  "msg_env \<Rightarrow> (json_value \<Rightarrow> string \<Rightarrow> string option) \<Rightarrow> (json_value \<Rightarrow> string \<Rightarrow> json_value option) \<Rightarrow>
   uuid \<Rightarrow> uuid \<Rightarrow> datetime \<Rightarrow> uuid \<Rightarrow> uuid \<Rightarrow> string \<Rightarrow> json_value \<Rightarrow> agent_message" where
  "agent_message_new env get_str get_value fresh_id fresh_nonce now sender recipient ptype data =
     (let payload =
            (if ptype = ''TaskRequest'' then
               TaskRequest (case get_str data ''task'' of Some s \<Rightarrow> s | None \<Rightarrow> [])
                 (case get_value data ''parameters'' of Some v \<Rightarrow> v | None \<Rightarrow> ''null'')
             else if ptype = ''Notification'' then
               Notification (case get_str data ''message'' of Some s \<Rightarrow> s | None \<Rightarrow> [])
             else TaskRequest ptype data);
          msg = \<lparr>am_id = fresh_id, am_sender = sender, am_recipient = recipient,
                 am_payload = payload, am_context = bt_new, am_nonce = fresh_nonce,
                 am_timestamp = now, am_content_hash = 0, am_signature = [],
                 am_encrypted = False\<rparr>
      in msg\<lparr>am_content_hash := compute_content_hash env msg\<rparr>)"

definition sign_message :: "msg_env \<Rightarrow> signing_key \<Rightarrow> agent_message \<Rightarrow> agent_message" where
  "sign_message env key msg =
     msg\<lparr>am_content_hash := compute_content_hash env msg,
         am_signature := me_sign env (canonical_bytes env msg) key\<rparr>"

text \<open>The hash and the signature are not part of the canonical bytes, so signing leaves them
  valid.\<close>

lemma canonical_bytes_upd [simp]:
  "canonical_bytes env (msg\<lparr>am_content_hash := h\<rparr>) = canonical_bytes env msg"
  "canonical_bytes env (msg\<lparr>am_signature := s\<rparr>) = canonical_bytes env msg"
  "canonical_bytes env (msg\<lparr>am_encrypted := b\<rparr>) = canonical_bytes env msg"
  by (simp_all add: canonical_bytes_def)

lemma sign_message_valid [simp]:
  "am_content_hash (sign_message env key msg) = compute_content_hash env (sign_message env key msg)"
  "am_signature (sign_message env key msg) = me_sign env (canonical_bytes env (sign_message env key msg)) key"
  by (simp_all add: sign_message_def compute_content_hash_def)

text \<open>Delegations end: a rejected, completed or disputed delegation has no successor state.\<close>

lemma delegation_terminal:
  "s \<in> {Rejected, Completed, Disputed} \<Longrightarrow> \<not> can_transition_to s t"
  by (cases t) auto

end
