(* ===== verification/Dispatcher.thy ===== *)
theory Dispatcher
  imports Agent_Message Trigger_Event "HOL-Library.Product_Lexorder"
begin

section \<open>The message dispatcher\<close>

text \<open>
  \<^verbatim>\<open>ghost-gateway/src/messaging/dispatcher.rs\<close>: signature check, replay prevention and rate
  limits for inter-agent messages, anomaly detection on signature failures, and the offline
  queues. The \<^verbatim>\<open>BTreeSet\<close>s that order the replay caches by time are ordered maps to \<open>unit\<close>; the
  \<^verbatim>\<open>while\<close> loops that take their first element run over the ordered list of keys. The readings
  of the monotonic clock within one call are one argument, those of the wall clock another.
\<close>

definition RATE_LIMIT_PER_AGENT_PER_HOUR :: u32 where "RATE_LIMIT_PER_AGENT_PER_HOUR = 60"
definition RATE_LIMIT_PER_PAIR_PER_HOUR :: u32 where "RATE_LIMIT_PER_PAIR_PER_HOUR = 30"
definition REPLAY_WINDOW :: duration where "REPLAY_WINDOW = from_secs 300"
definition MAX_TRACKED_REPLAY_NONCES :: nat where "MAX_TRACKED_REPLAY_NONCES = 16384"
definition MAX_TRACKED_SENDERS :: nat where "MAX_TRACKED_SENDERS = 4096"
definition ANOMALY_WINDOW :: duration where "ANOMALY_WINDOW = from_secs 300"
definition ANOMALY_THRESHOLD :: nat where "ANOMALY_THRESHOLD = 3"
definition RATE_LIMIT_RESET_INTERVAL :: duration where "RATE_LIMIT_RESET_INTERVAL = from_secs 3600"

datatype verify_result =
  VrAccepted
| RejectedSignature string
| RejectedReplay string
| RejectedPolicy string
| RejectedRateLimit
| AnomalyDetected uuid nat trigger_event

record sender_nonce_state =
  sn_nonce :: uuid
  sn_seen_at :: instant

type_synonym time_order = "(instant \<times> uuid, unit) btree_map"

record message_dispatcher =
  md_seen_nonces :: "(uuid, instant) btree_map"
  md_seen_nonce_order :: time_order
  md_agent_counts :: "(uuid, u32) btree_map"
  md_pair_counts :: "(uuid \<times> uuid, u32) btree_map"
  md_sig_failures :: "(uuid, instant list) btree_map"
  md_offline_queues :: "(uuid, agent_message list) btree_map"
  md_last_rate_reset :: instant
  md_last_nonce :: "(uuid, sender_nonce_state) btree_map"
  md_last_nonce_order :: time_order
  md_verifying_keys :: "(uuid, verifying_key) btree_map"

definition dispatcher_new :: "instant \<Rightarrow> message_dispatcher" where
  "dispatcher_new now =
     \<lparr>md_seen_nonces = bt_new, md_seen_nonce_order = bt_new, md_agent_counts = bt_new,
      md_pair_counts = bt_new, md_sig_failures = bt_new, md_offline_queues = bt_new,
      md_last_rate_reset = now, md_last_nonce = bt_new, md_last_nonce_order = bt_new,
      md_verifying_keys = bt_new\<rparr>"

definition register_verifying_key ::
  "uuid \<Rightarrow> verifying_key \<Rightarrow> message_dispatcher \<Rightarrow> message_dispatcher" where
  "register_verifying_key agent key d =
     d\<lparr>md_verifying_keys := bt_insert agent key (md_verifying_keys d)\<rparr>"

definition check_rate_limit ::
  "uuid \<Rightarrow> uuid \<Rightarrow> message_dispatcher \<Rightarrow> bool \<times> message_dispatcher" where
  "check_rate_limit sender recipient d =
     (let agent_count = bt_get_or 0 (md_agent_counts d) sender in
      if agent_count \<ge> RATE_LIMIT_PER_AGENT_PER_HOUR
      then (False, d\<lparr>md_agent_counts := bt_insert sender agent_count (md_agent_counts d)\<rparr>)
      else
        let d = d\<lparr>md_agent_counts := bt_insert sender (agent_count + 1) (md_agent_counts d)\<rparr>;
            pair_count = bt_get_or 0 (md_pair_counts d) (sender, recipient)
        in if pair_count \<ge> RATE_LIMIT_PER_PAIR_PER_HOUR
           then (False, d\<lparr>md_pair_counts :=
                   bt_insert (sender, recipient) pair_count (md_pair_counts d)\<rparr>)
           else (True, d\<lparr>md_pair_counts :=
                   bt_insert (sender, recipient) (pair_count + 1) (md_pair_counts d)\<rparr>))"

definition maybe_reset_rate_limits :: "instant \<Rightarrow> message_dispatcher \<Rightarrow> message_dispatcher" where
  "maybe_reset_rate_limits now d =
     (if elapsed now (md_last_rate_reset d) \<ge> RATE_LIMIT_RESET_INTERVAL
      then d\<lparr>md_agent_counts := bt_new, md_pair_counts := bt_new, md_last_rate_reset := now\<rparr>
      else d)"

definition track_seen_nonce :: "uuid \<Rightarrow> instant \<Rightarrow> message_dispatcher \<Rightarrow> message_dispatcher" where
  "track_seen_nonce nonce seen_at d =
     d\<lparr>md_seen_nonces := bt_insert nonce seen_at (md_seen_nonces d),
       md_seen_nonce_order := bt_insert (seen_at, nonce) () (md_seen_nonce_order d)\<rparr>"

definition track_sender_nonce ::
  "uuid \<Rightarrow> uuid \<Rightarrow> instant \<Rightarrow> message_dispatcher \<Rightarrow> message_dispatcher" where
  "track_sender_nonce sender nonce seen_at d =
     (let order = (case bt_get (md_last_nonce d) sender of
            Some previous \<Rightarrow> bt_remove (sn_seen_at previous, sender) (md_last_nonce_order d)
          | None \<Rightarrow> md_last_nonce_order d)
      in d\<lparr>md_last_nonce :=
             bt_insert sender \<lparr>sn_nonce = nonce, sn_seen_at = seen_at\<rparr> (md_last_nonce d),
           md_last_nonce_order := bt_insert (seen_at, sender) () order\<rparr>)"

text \<open>The first argument lists the keys of the order that have not been removed yet.\<close>

fun prune_expired_seen_nonces ::
  "(instant \<times> uuid) list \<Rightarrow> instant \<Rightarrow> message_dispatcher \<Rightarrow> message_dispatcher" where
  "prune_expired_seen_nonces [] now d = d"
| "prune_expired_seen_nonces ((seen_at, nonce) # rest) now d =
     (if elapsed now seen_at < REPLAY_WINDOW then d
      else prune_expired_seen_nonces rest now
        (d\<lparr>md_seen_nonce_order := bt_remove (seen_at, nonce) (md_seen_nonce_order d),
           md_seen_nonces := bt_remove nonce (md_seen_nonces d)\<rparr>))"

fun prune_expired_sender_nonces ::
  "(instant \<times> uuid) list \<Rightarrow> instant \<Rightarrow> message_dispatcher \<Rightarrow> message_dispatcher" where
  "prune_expired_sender_nonces [] now d = d"
| "prune_expired_sender_nonces ((seen_at, sender) # rest) now d =
     (if elapsed now seen_at < REPLAY_WINDOW then d
      else prune_expired_sender_nonces rest now
        (d\<lparr>md_last_nonce_order := bt_remove (seen_at, sender) (md_last_nonce_order d),
           md_last_nonce := bt_remove sender (md_last_nonce d)\<rparr>))"

fun evict_seen_nonces_over_capacity ::
  "(instant \<times> uuid) list \<Rightarrow> message_dispatcher \<Rightarrow> message_dispatcher" where
  "evict_seen_nonces_over_capacity [] d = d"
| "evict_seen_nonces_over_capacity ((seen_at, nonce) # rest) d =
     (if bt_len (md_seen_nonces d) > MAX_TRACKED_REPLAY_NONCES
      then evict_seen_nonces_over_capacity rest
        (d\<lparr>md_seen_nonce_order := bt_remove (seen_at, nonce) (md_seen_nonce_order d),
           md_seen_nonces := bt_remove nonce (md_seen_nonces d)\<rparr>)
      else d)"

fun evict_sender_nonces_over_capacity ::
  "(instant \<times> uuid) list \<Rightarrow> message_dispatcher \<Rightarrow> message_dispatcher" where
  "evict_sender_nonces_over_capacity [] d = d"
| "evict_sender_nonces_over_capacity ((seen_at, sender) # rest) d =
     (if bt_len (md_last_nonce d) > MAX_TRACKED_SENDERS
      then evict_sender_nonces_over_capacity rest
        (d\<lparr>md_last_nonce_order := bt_remove (seen_at, sender) (md_last_nonce_order d),
           md_last_nonce := bt_remove sender (md_last_nonce d)\<rparr>)
      else d)"

definition evict_over_capacity :: "message_dispatcher \<Rightarrow> message_dispatcher" where
  "evict_over_capacity d =
     (let d = evict_seen_nonces_over_capacity (bt_keys (md_seen_nonce_order d)) d
      in evict_sender_nonces_over_capacity (bt_keys (md_last_nonce_order d)) d)"

definition prune_replay_state :: "instant \<Rightarrow> message_dispatcher \<Rightarrow> message_dispatcher" where
  "prune_replay_state now d =
     (let d = prune_expired_seen_nonces (bt_keys (md_seen_nonce_order d)) now d;
          d = prune_expired_sender_nonces (bt_keys (md_last_nonce_order d)) now d
      in evict_over_capacity d)"

definition check_replay ::
  "datetime \<Rightarrow> instant \<Rightarrow> agent_message \<Rightarrow> message_dispatcher \<Rightarrow> bool \<times> message_dispatcher" where
  "check_replay utc_now now msg d =
     (let age = utc_now - am_timestamp msg in
      if age > chrono_secs 300 then (False, d)
      else if age < chrono_secs (- 30) then (False, d)
      else if bt_contains (md_seen_nonces d) (am_nonce msg) then (False, d)
      else if (case bt_get (md_last_nonce d) (am_sender msg) of
                 Some last_state \<Rightarrow> am_nonce msg \<le> sn_nonce last_state
               | None \<Rightarrow> False) then (False, d)
      else
        let d = track_sender_nonce (am_sender msg) (am_nonce msg) now d;
            d = track_seen_nonce (am_nonce msg) now d
        in (True, evict_over_capacity d))"

text \<open>\<^verbatim>\<open>failures.len() as f64\<close> is exact below \<^verbatim>\<open>2^53\<close>.\<close>

definition record_sig_failure ::
  "datetime \<Rightarrow> instant \<Rightarrow> uuid \<Rightarrow> message_dispatcher \<Rightarrow> verify_result option \<times> message_dispatcher" where
  "record_sig_failure utc_now now agent d =
     (let failures = bt_get_or [] (md_sig_failures d) agent @ [now];
          failures = filter (\<lambda>t. elapsed now t < ANOMALY_WINDOW) failures;
          d = d\<lparr>md_sig_failures := bt_insert agent failures (md_sig_failures d)\<rparr>
      in if length failures \<ge> ANOMALY_THRESHOLD then
           (let sub = bt_insert ''anomaly_window_secs'' (Finite 300)
                  (bt_insert ''signature_verification_failures'' (Finite (of_nat (length failures))) bt_new)
            in (Some (AnomalyDetected agent (length failures)
                  (MemoryHealthCritical agent (Finite 0) (Finite 1) sub utc_now)), d))
         else (None, d))"

definition reject_signature ::
  "datetime \<Rightarrow> instant \<Rightarrow> string \<Rightarrow> agent_message \<Rightarrow> message_dispatcher \<Rightarrow>
   verify_result \<times> message_dispatcher" where
  "reject_signature utc_now now reason msg d =
     (case record_sig_failure utc_now now (am_sender msg) d of
        (Some result, d) \<Rightarrow> (result, d)
      | (None, d) \<Rightarrow> (RejectedSignature reason, d))"

definition signature_from_bytes :: "byte_seq \<Rightarrow> byte_seq option" where
  "signature_from_bytes bytes = (if length bytes \<noteq> 64 then None else Some bytes)"

definition verify_message ::
  "msg_env \<Rightarrow> datetime \<Rightarrow> instant \<Rightarrow> agent_message \<Rightarrow> message_dispatcher \<Rightarrow>
   verify_result \<times> message_dispatcher" where
  "verify_message env utc_now now msg d =
     (let d = maybe_reset_rate_limits now d;
          d = prune_replay_state now d
      in
      if am_encrypted msg then
        (RejectedPolicy ''encrypted inter-agent messages are disabled until authenticated encryption is implemented'', d)
      else if compute_content_hash env msg \<noteq> am_content_hash msg then
        reject_signature utc_now now ''content_hash mismatch'' msg d
      else if am_signature msg = [] then
        reject_signature utc_now now ''missing signature'' msg d
      else case signature_from_bytes (am_signature msg) of
        None \<Rightarrow> reject_signature utc_now now ''invalid signature length'' msg d
      | Some signature \<Rightarrow>
          (case bt_get (md_verifying_keys d) (am_sender msg) of
             None \<Rightarrow> reject_signature utc_now now ''unknown sender verifying key'' msg d
           | Some key \<Rightarrow>
               if \<not> me_verify env (canonical_bytes env msg) signature key then
                 reject_signature utc_now now ''signature verification failed'' msg d
               else
                 (case check_replay utc_now now msg d of
                    (False, d) \<Rightarrow> (RejectedReplay ''replay detected'', d)
                  | (True, d) \<Rightarrow>
                      (case check_rate_limit (am_sender msg) (am_recipient msg) d of
                         (False, d) \<Rightarrow> (RejectedRateLimit, d)
                       | (True, d) \<Rightarrow> (VrAccepted, d)))))"

definition queue_offline :: "uuid \<Rightarrow> agent_message \<Rightarrow> message_dispatcher \<Rightarrow> message_dispatcher" where
  "queue_offline recipient msg d =
     (let queue = bt_get_or [] (md_offline_queues d) recipient;
          queue = drop (length queue - 99) queue
      in d\<lparr>md_offline_queues := bt_insert recipient (queue @ [msg]) (md_offline_queues d)\<rparr>)"

definition deliver_queued ::
  "datetime \<Rightarrow> uuid \<Rightarrow> message_dispatcher \<Rightarrow> agent_message list \<times> message_dispatcher" where
  "deliver_queued utc_now agent d =
     (case bt_get (md_offline_queues d) agent of
        None \<Rightarrow> ([], d)
      | Some q \<Rightarrow>
          (filter (\<lambda>msg. \<not> utc_now - am_timestamp msg > chrono_secs 300 \<and>
              \<not> utc_now - am_timestamp msg < chrono_secs (- 30)) q,
           d\<lparr>md_offline_queues := bt_remove agent (md_offline_queues d)\<rparr>))"

definition sig_failure_count :: "instant \<Rightarrow> uuid \<Rightarrow> message_dispatcher \<Rightarrow> nat" where
  "sig_failure_count now agent d =
     (case bt_get (md_sig_failures d) agent of
        Some f \<Rightarrow> length (filter (\<lambda>t. elapsed now t < ANOMALY_WINDOW) f) | None \<Rightarrow> 0)"

subsection \<open>The replay cache\<close>

text \<open>The cache and its time order describe the same entries.\<close>

definition seen_ok :: "message_dispatcher \<Rightarrow> bool" where
  "seen_ok d \<longleftrightarrow> (\<forall>t n. bt_contains (md_seen_nonce_order d) (t, n) \<longleftrightarrow> bt_get (md_seen_nonces d) n = Some t)"

lemma prune_sender_frame [ghost_frame]:
  "md_seen_nonces (prune_expired_sender_nonces ks now d) = md_seen_nonces d"
  "md_seen_nonce_order (prune_expired_sender_nonces ks now d) = md_seen_nonce_order d"
  by (induction ks now d rule: prune_expired_sender_nonces.induct) simp_all

lemma evict_sender_frame [ghost_frame]:
  "md_seen_nonces (evict_sender_nonces_over_capacity ks d) = md_seen_nonces d"
  "md_seen_nonce_order (evict_sender_nonces_over_capacity ks d) = md_seen_nonce_order d"
  by (induction ks d rule: evict_sender_nonces_over_capacity.induct) simp_all

lemma track_sender_frame [ghost_frame]:
  "md_seen_nonces (track_sender_nonce s n now d) = md_seen_nonces d"
  "md_seen_nonce_order (track_sender_nonce s n now d) = md_seen_nonce_order d"
  by (simp_all add: track_sender_nonce_def Let_def)

lemma other_ops_frame [ghost_frame]:
  "md_seen_nonces (maybe_reset_rate_limits now d) = md_seen_nonces d"
  "md_seen_nonce_order (maybe_reset_rate_limits now d) = md_seen_nonce_order d"
  "md_seen_nonces (snd (check_rate_limit a b d)) = md_seen_nonces d"
  "md_seen_nonce_order (snd (check_rate_limit a b d)) = md_seen_nonce_order d"
  "md_seen_nonces (snd (reject_signature u now r msg d)) = md_seen_nonces d"
  "md_seen_nonce_order (snd (reject_signature u now r msg d)) = md_seen_nonce_order d"
  by (simp_all add: maybe_reset_rate_limits_def check_rate_limit_def reject_signature_def
      record_sig_failure_def Let_def)

text \<open>Removing an entry that both hold.\<close>

lemma seen_ok_remove:
  assumes "seen_ok d" "bt_contains (md_seen_nonce_order d) (t, n)"
  shows "seen_ok (d\<lparr>md_seen_nonce_order := bt_remove (t, n) (md_seen_nonce_order d),
    md_seen_nonces := bt_remove n (md_seen_nonces d)\<rparr>)"
  using assms unfolding seen_ok_def bt_contains_def by (auto split: if_splits)

lemma prune_seen:
  assumes "seen_ok d" "\<forall>k \<in> set ks. bt_contains (md_seen_nonce_order d) k" "distinct ks"
  shows "seen_ok (prune_expired_seen_nonces ks now d) \<and>
    bt_len (md_seen_nonces (prune_expired_seen_nonces ks now d)) \<le> bt_len (md_seen_nonces d)"
  using assms
proof (induction ks now d rule: prune_expired_seen_nonces.induct)
  case (2 t n rest now d)
  let ?d = "d\<lparr>md_seen_nonce_order := bt_remove (t, n) (md_seen_nonce_order d),
    md_seen_nonces := bt_remove n (md_seen_nonces d)\<rparr>"
  show ?case
  proof (cases "elapsed now t < REPLAY_WINDOW")
    case False
    have "seen_ok ?d" using 2(2,3) by (intro seen_ok_remove) auto
    moreover have "\<forall>k \<in> set rest. bt_contains (md_seen_nonce_order ?d) k"
      using 2(3,4) by (auto simp: bt_contains_def)
    ultimately show ?thesis
      using 2(1) [OF False] 2(4) False bt_len_remove_le [of n "md_seen_nonces d"] by auto
  qed (use 2 in simp)
qed simp

lemma prune_keeps_fresh:
  assumes "\<forall>(t', n') \<in> set ks. n' = n \<longrightarrow> t' = t" "elapsed now t < REPLAY_WINDOW"
  shows "bt_get (md_seen_nonces (prune_expired_seen_nonces ks now d)) n = bt_get (md_seen_nonces d) n"
  using assms
  by (induction ks now d rule: prune_expired_seen_nonces.induct) auto

lemma evict_noop:
  "bt_len (md_seen_nonces d) \<le> MAX_TRACKED_REPLAY_NONCES \<Longrightarrow> evict_seen_nonces_over_capacity ks d = d"
  by (cases ks) auto

lemma evict_over_capacity_seen:
  assumes "bt_len (md_seen_nonces d) \<le> MAX_TRACKED_REPLAY_NONCES"
  shows "md_seen_nonces (evict_over_capacity d) = md_seen_nonces d"
    "md_seen_nonce_order (evict_over_capacity d) = md_seen_nonce_order d"
  using assms by (simp_all add: evict_over_capacity_def Let_def evict_noop ghost_frame)

definition seen_state :: "nat \<Rightarrow> message_dispatcher \<Rightarrow> bool" where
  "seen_state k d \<longleftrightarrow> seen_ok d \<and> bt_len (md_seen_nonces d) \<le> k"

lemma prune_replay_state_seen:
  assumes "seen_state k d" "k \<le> MAX_TRACKED_REPLAY_NONCES"
  shows "seen_state k (prune_replay_state now d)"
    and "\<lbrakk>bt_get (md_seen_nonces d) n = Some t; elapsed now t < REPLAY_WINDOW\<rbrakk> \<Longrightarrow>
      bt_get (md_seen_nonces (prune_replay_state now d)) n = Some t"
proof -
  let ?ks = "bt_keys (md_seen_nonce_order d)"
  let ?d1 = "prune_expired_seen_nonces ?ks now d"
  let ?d2 = "prune_expired_sender_nonces (bt_keys (md_last_nonce_order ?d1)) now ?d1"
  have in_order: "\<forall>k \<in> set ?ks. bt_contains (md_seen_nonce_order d) k"
    by (auto simp: bt_keys_iff bt_contains_def)
  have p: "seen_ok ?d1" "bt_len (md_seen_nonces ?d1) \<le> k"
    using prune_seen [OF _ in_order bt_keys_distinct, of now] assms(1) by (auto simp: seen_state_def)
  have len: "bt_len (md_seen_nonces ?d2) \<le> MAX_TRACKED_REPLAY_NONCES"
    using p(2) assms(2) by (simp add: ghost_frame)
  have eq: "md_seen_nonces (prune_replay_state now d) = md_seen_nonces ?d1"
    "md_seen_nonce_order (prune_replay_state now d) = md_seen_nonce_order ?d1"
    using evict_over_capacity_seen [OF len] by (simp_all add: prune_replay_state_def Let_def ghost_frame)
  show "seen_state k (prune_replay_state now d)" using p by (simp add: seen_state_def seen_ok_def eq)
  assume n: "bt_get (md_seen_nonces d) n = Some t" "elapsed now t < REPLAY_WINDOW"
  have "\<forall>(t', n') \<in> set ?ks. n' = n \<longrightarrow> t' = t"
    using in_order assms(1) n(1) by (auto simp: seen_state_def seen_ok_def)
  from prune_keeps_fresh [OF this n(2)] n(1)
  show "bt_get (md_seen_nonces (prune_replay_state now d)) n = Some t" by (simp add: eq)
qed

lemma check_replay_true:
  assumes "fst (check_replay u now msg d)"
  shows "u - am_timestamp msg \<le> chrono_secs 300" "chrono_secs (- 30) \<le> u - am_timestamp msg"
    "bt_get (md_seen_nonces d) (am_nonce msg) = None"
    "snd (check_replay u now msg d) = evict_over_capacity
       (track_seen_nonce (am_nonce msg) now (track_sender_nonce (am_sender msg) (am_nonce msg) now d))"
  using assms
  by (auto simp: check_replay_def bt_contains_def Let_def not_less split: if_splits option.splits)

lemma check_replay_false: "\<not> fst (check_replay u now msg d) \<Longrightarrow> snd (check_replay u now msg d) = d"
  by (auto simp: check_replay_def Let_def split: if_splits option.splits)

lemma check_replay_seen:
  assumes "fst (check_replay u now msg d)" "seen_state k d" "k < MAX_TRACKED_REPLAY_NONCES"
  shows "md_seen_nonces (snd (check_replay u now msg d)) = bt_insert (am_nonce msg) now (md_seen_nonces d)"
    and "seen_state (Suc k) (snd (check_replay u now msg d))"
proof -
  let ?d = "track_seen_nonce (am_nonce msg) now (track_sender_nonce (am_sender msg) (am_nonce msg) now d)"
  note cr = check_replay_true [OF assms(1)]
  have seen: "md_seen_nonces ?d = bt_insert (am_nonce msg) now (md_seen_nonces d)"
    "md_seen_nonce_order ?d = bt_insert (now, am_nonce msg) () (md_seen_nonce_order d)"
    by (simp_all add: track_seen_nonce_def ghost_frame)
  then have len: "bt_len (md_seen_nonces ?d) \<le> Suc k"
    using bt_len_insert_le [of "am_nonce msg" now "md_seen_nonces d"] assms(2)
    by (simp add: seen_state_def)
  then have ev: "md_seen_nonces (evict_over_capacity ?d) = md_seen_nonces ?d"
    "md_seen_nonce_order (evict_over_capacity ?d) = md_seen_nonce_order ?d"
    using assms(3) by (intro evict_over_capacity_seen; linarith)+
  show "md_seen_nonces (snd (check_replay u now msg d)) = bt_insert (am_nonce msg) now (md_seen_nonces d)"
    by (simp add: cr(4) ev seen)
  show "seen_state (Suc k) (snd (check_replay u now msg d))"
    using assms(2) len cr(3)
    by (auto simp: seen_state_def seen_ok_def cr(4) ev seen bt_contains_def)
qed

definition pruned :: "instant \<Rightarrow> message_dispatcher \<Rightarrow> message_dispatcher" where
  "pruned now d = prune_replay_state now (maybe_reset_rate_limits now d)"

text \<open>What must hold of a message for the dispatcher to look at its nonce.\<close>

definition authentic :: "msg_env \<Rightarrow> agent_message \<Rightarrow> message_dispatcher \<Rightarrow> bool" where
  "authentic env msg d \<longleftrightarrow> \<not> am_encrypted msg \<and> compute_content_hash env msg = am_content_hash msg \<and>
     (\<exists>key. bt_get (md_verifying_keys d) (am_sender msg) = Some key \<and> length (am_signature msg) = 64 \<and>
        me_verify env (canonical_bytes env msg) (am_signature msg) key)"

lemma reject_signature_not_accepted: "fst (reject_signature u now r msg d) \<noteq> VrAccepted"
  by (auto simp: reject_signature_def record_sig_failure_def Let_def)

lemma verify_cases:
  obtains "fst (verify_message env u now msg d) \<noteq> VrAccepted"
    "snd (verify_message env u now msg d) = pruned now d \<or>
     (\<exists>r. snd (verify_message env u now msg d) = snd (reject_signature u now r msg (pruned now d)))"
  | "authentic env msg (pruned now d)" "fst (check_replay u now msg (pruned now d))"
    "verify_message env u now msg d =
       (let (ok, d') = check_rate_limit (am_sender msg) (am_recipient msg)
              (snd (check_replay u now msg (pruned now d)))
        in (if ok then VrAccepted else RejectedRateLimit, d'))"
proof (cases "authentic env msg (pruned now d)")
  case True
  then obtain key where key: "\<not> am_encrypted msg" "compute_content_hash env msg = am_content_hash msg"
    "bt_get (md_verifying_keys (pruned now d)) (am_sender msg) = Some key" "length (am_signature msg) = 64"
    "me_verify env (canonical_bytes env msg) (am_signature msg) key" by (auto simp: authentic_def)
  then have "am_signature msg \<noteq> []" by auto
  with key have v: "verify_message env u now msg d =
      (case check_replay u now msg (pruned now d) of
         (False, d) \<Rightarrow> (RejectedReplay ''replay detected'', d)
       | (True, d) \<Rightarrow>
           (case check_rate_limit (am_sender msg) (am_recipient msg) d of
              (False, d) \<Rightarrow> (RejectedRateLimit, d) | (True, d) \<Rightarrow> (VrAccepted, d)))"
    by (simp add: verify_message_def signature_from_bytes_def pruned_def Let_def)
  obtain ok d' where cr: "check_replay u now msg (pruned now d) = (ok, d')" by fastforce
  show ?thesis
  proof (cases ok)
    case True
    then show ?thesis using that(2) \<open>authentic env msg (pruned now d)\<close> cr
      by (auto simp: v Let_def split: prod.splits bool.splits)
  next
    case False
    then show ?thesis using that(1) check_replay_false [of u now msg "pruned now d"] cr by (simp add: v)
  qed
next
  case False
  then have "(\<exists>r. verify_message env u now msg d = reject_signature u now r msg (pruned now d)) \<or>
      (\<exists>r. verify_message env u now msg d = (RejectedPolicy r, pruned now d))"
    unfolding verify_message_def Let_def pruned_def [symmetric] authentic_def
    by (auto simp: signature_from_bytes_def split: option.splits)
  then show ?thesis
  proof (elim disjE exE)
    fix r
    assume "verify_message env u now msg d = reject_signature u now r msg (pruned now d)"
    then show ?thesis using that(1) reject_signature_not_accepted by metis
  qed (use that(1) in simp)
qed

lemma pruned_seen:
  assumes "seen_state k d" "k \<le> MAX_TRACKED_REPLAY_NONCES"
  shows "seen_state k (pruned now d)"
    and "\<lbrakk>bt_get (md_seen_nonces d) n = Some t; elapsed now t < REPLAY_WINDOW\<rbrakk> \<Longrightarrow>
      bt_get (md_seen_nonces (pruned now d)) n = Some t"
proof -
  let ?d = "maybe_reset_rate_limits now d"
  have "seen_state k ?d" using assms(1) by (simp add: seen_state_def seen_ok_def ghost_frame)
  note p = prune_replay_state_seen [OF this assms(2)]
  show "seen_state k (pruned now d)" unfolding pruned_def by (rule p(1))
  show "\<lbrakk>bt_get (md_seen_nonces d) n = Some t; elapsed now t < REPLAY_WINDOW\<rbrakk> \<Longrightarrow>
      bt_get (md_seen_nonces (pruned now d)) n = Some t"
    unfolding pruned_def by (rule p(2)) (simp_all add: ghost_frame)
qed

lemma verify_seen:
  assumes "seen_state k d" "k < MAX_TRACKED_REPLAY_NONCES"
  shows "seen_state (Suc k) (snd (verify_message env u now msg d))"
    and "\<lbrakk>bt_get (md_seen_nonces d) n = Some t; elapsed now t < REPLAY_WINDOW\<rbrakk> \<Longrightarrow>
      bt_get (md_seen_nonces (snd (verify_message env u now msg d))) n = Some t"
proof -
  have p: "seen_state k (pruned now d)" using pruned_seen(1) assms by simp
  have keep: "\<lbrakk>bt_get (md_seen_nonces d) n = Some t; elapsed now t < REPLAY_WINDOW\<rbrakk> \<Longrightarrow>
      bt_get (md_seen_nonces (pruned now d)) n = Some t"
    using pruned_seen(2) [OF assms(1)] assms(2) by simp
  have "seen_state (Suc k) (snd (verify_message env u now msg d)) \<and>
      (bt_get (md_seen_nonces d) n = Some t \<longrightarrow> elapsed now t < REPLAY_WINDOW \<longrightarrow>
        bt_get (md_seen_nonces (snd (verify_message env u now msg d))) n = Some t)"
  proof (cases rule: verify_cases [of env u now msg d])
    case 1
    then show ?thesis using p keep by (auto simp: seen_state_def seen_ok_def ghost_frame)
  next
    case 2
    note cr = check_replay_seen [OF 2(2) p assms(2)]
    have frame: "md_seen_nonces (snd (verify_message env u now msg d)) =
        md_seen_nonces (snd (check_replay u now msg (pruned now d)))"
      "md_seen_nonce_order (snd (verify_message env u now msg d)) =
        md_seen_nonce_order (snd (check_replay u now msg (pruned now d)))"
      by (simp_all add: 2(3) Let_def case_prod_beta ghost_frame)
    show ?thesis
      using cr(2) check_replay_true(3) [OF 2(2)] keep
      by (auto simp: seen_state_def seen_ok_def frame cr(1))
  qed
  then show "seen_state (Suc k) (snd (verify_message env u now msg d))"
    "\<lbrakk>bt_get (md_seen_nonces d) n = Some t; elapsed now t < REPLAY_WINDOW\<rbrakk> \<Longrightarrow>
      bt_get (md_seen_nonces (snd (verify_message env u now msg d))) n = Some t" by auto
qed

lemma accepted_remembered:
  assumes "fst (verify_message env u now msg d) = VrAccepted" "seen_state k d"
    and "k < MAX_TRACKED_REPLAY_NONCES"
  shows "bt_get (md_seen_nonces (snd (verify_message env u now msg d))) (am_nonce msg) = Some now"
proof (cases rule: verify_cases [of env u now msg d])
  case 2
  have p: "seen_state k (pruned now d)" using pruned_seen(1) assms(2,3) by simp
  show ?thesis
    using check_replay_seen(1) [OF 2(2) p assms(3)]
    by (simp add: 2(3) Let_def case_prod_beta ghost_frame)
qed (use assms(1) in simp)

lemma known_nonce_rejected:
  assumes "seen_state k d" "k < MAX_TRACKED_REPLAY_NONCES"
    and "bt_get (md_seen_nonces d) (am_nonce msg) = Some t" "elapsed now t < REPLAY_WINDOW"
  shows "fst (verify_message env u now msg d) \<noteq> VrAccepted"
proof (cases rule: verify_cases [of env u now msg d])
  case 2
  have "bt_get (md_seen_nonces (pruned now d)) (am_nonce msg) = Some t"
    using pruned_seen(2) [OF assms(1) _ assms(3,4)] assms(2) by simp
  then show ?thesis using check_replay_true(3) [OF 2(2)] by simp
qed

lemma stale_rejected:
  assumes "u - am_timestamp msg > chrono_secs 300"
  shows "fst (verify_message env u now msg d) \<noteq> VrAccepted"
proof (cases rule: verify_cases [of env u now msg d])
  case 2
  then show ?thesis using check_replay_true(1) [OF 2(2)] assms by simp
qed

subsection \<open>Sequences of calls\<close>

type_synonym verify_call = "datetime \<times> instant \<times> agent_message"

definition verify_step :: "msg_env \<Rightarrow> message_dispatcher \<Rightarrow> verify_call \<Rightarrow> message_dispatcher" where
  "verify_step env d c = (case c of (u, now, msg) \<Rightarrow> snd (verify_message env u now msg d))"

lemma nonce_survives:
  assumes "seen_state k d" "k + length cs \<le> MAX_TRACKED_REPLAY_NONCES"
    and "bt_get (md_seen_nonces d) n = Some t"
    and "\<forall>(u, now, msg) \<in> set cs. elapsed now t < REPLAY_WINDOW"
  shows "seen_state (k + length cs) (foldl (verify_step env) d cs) \<and>
    bt_get (md_seen_nonces (foldl (verify_step env) d cs)) n = Some t"
  using assms
proof (induction cs arbitrary: d k)
  case (Cons c cs)
  obtain u now msg where c: "c = (u, now, msg)" by (cases c)
  have "k < MAX_TRACKED_REPLAY_NONCES" using Cons.prems(2) by simp
  note v = verify_seen [OF Cons.prems(1) this, where env = env and u = u and now = now and msg = msg]
  have "bt_get (md_seen_nonces (verify_step env d c)) n = Some t"
    using v(2) [OF Cons.prems(3)] Cons.prems(4) by (simp add: verify_step_def c)
  moreover have "seen_state (Suc k) (verify_step env d c)" using v(1) by (simp add: verify_step_def c)
  ultimately show ?case using Cons.IH [of "Suc k" "verify_step env d c"] Cons.prems(2,4) by simp
qed simp

lemma evict_seen:
  assumes "seen_ok d" "\<forall>k. bt_contains (md_seen_nonce_order d) k \<longleftrightarrow> k \<in> set ks" "distinct ks"
  shows "seen_ok (evict_seen_nonces_over_capacity ks d) \<and>
    bt_len (md_seen_nonces (evict_seen_nonces_over_capacity ks d)) \<le> MAX_TRACKED_REPLAY_NONCES"
  using assms
proof (induction ks d rule: evict_seen_nonces_over_capacity.induct)
  case (1 d)
  then have "bt_get (md_seen_nonces d) n = None" for n
    by (cases "bt_get (md_seen_nonces d) n") (auto simp: seen_ok_def)
  then show ?case using 1 by (simp add: bt_len_card)
next
  case (2 t n rest d)
  let ?d = "d\<lparr>md_seen_nonce_order := bt_remove (t, n) (md_seen_nonce_order d),
    md_seen_nonces := bt_remove n (md_seen_nonces d)\<rparr>"
  show ?case
  proof (cases "bt_len (md_seen_nonces d) > MAX_TRACKED_REPLAY_NONCES")
    case True
    have "seen_ok ?d" using 2(2,3) by (intro seen_ok_remove) auto
    moreover have "\<forall>k. bt_contains (md_seen_nonce_order ?d) k \<longleftrightarrow> k \<in> set rest"
      using 2(3,4) by (auto simp: bt_contains_def split: if_splits)
    ultimately show ?thesis using 2(1) [OF True] 2(4) True by simp
  qed (use 2 in simp)
qed

subsection \<open>Keys and counters\<close>

lemma prune_counts_frame [ghost_frame]:
  "md_verifying_keys (prune_expired_seen_nonces ks now d) = md_verifying_keys d"
  "md_agent_counts (prune_expired_seen_nonces ks now d) = md_agent_counts d"
  "md_pair_counts (prune_expired_seen_nonces ks now d) = md_pair_counts d"
  "md_last_rate_reset (prune_expired_seen_nonces ks now d) = md_last_rate_reset d"
  by (induction ks now d rule: prune_expired_seen_nonces.induct) simp_all

lemma prune_sender_counts_frame [ghost_frame]:
  "md_verifying_keys (prune_expired_sender_nonces ks now d) = md_verifying_keys d"
  "md_agent_counts (prune_expired_sender_nonces ks now d) = md_agent_counts d"
  "md_pair_counts (prune_expired_sender_nonces ks now d) = md_pair_counts d"
  "md_last_rate_reset (prune_expired_sender_nonces ks now d) = md_last_rate_reset d"
  by (induction ks now d rule: prune_expired_sender_nonces.induct) simp_all

lemma evict_counts_frame [ghost_frame]:
  "md_verifying_keys (evict_seen_nonces_over_capacity ks d) = md_verifying_keys d"
  "md_agent_counts (evict_seen_nonces_over_capacity ks d) = md_agent_counts d"
  "md_pair_counts (evict_seen_nonces_over_capacity ks d) = md_pair_counts d"
  "md_last_rate_reset (evict_seen_nonces_over_capacity ks d) = md_last_rate_reset d"
  by (induction ks d rule: evict_seen_nonces_over_capacity.induct) simp_all

lemma evict_sender_counts_frame [ghost_frame]:
  "md_verifying_keys (evict_sender_nonces_over_capacity ks d) = md_verifying_keys d"
  "md_agent_counts (evict_sender_nonces_over_capacity ks d) = md_agent_counts d"
  "md_pair_counts (evict_sender_nonces_over_capacity ks d) = md_pair_counts d"
  "md_last_rate_reset (evict_sender_nonces_over_capacity ks d) = md_last_rate_reset d"
  by (induction ks d rule: evict_sender_nonces_over_capacity.induct) simp_all

lemma pruned_counts_frame [ghost_frame]:
  "md_verifying_keys (pruned now d) = md_verifying_keys d"
  "md_agent_counts (pruned now d) = md_agent_counts (maybe_reset_rate_limits now d)"
  "md_pair_counts (pruned now d) = md_pair_counts (maybe_reset_rate_limits now d)"
  "md_last_rate_reset (pruned now d) = md_last_rate_reset (maybe_reset_rate_limits now d)"
  by (simp_all add: pruned_def prune_replay_state_def evict_over_capacity_def Let_def ghost_frame
      maybe_reset_rate_limits_def)

lemma check_replay_counts_frame [ghost_frame]:
  "md_agent_counts (snd (check_replay u now msg d)) = md_agent_counts d"
  "md_pair_counts (snd (check_replay u now msg d)) = md_pair_counts d"
  "md_last_rate_reset (snd (check_replay u now msg d)) = md_last_rate_reset d"
  by (auto simp: check_replay_def evict_over_capacity_def track_seen_nonce_def
      track_sender_nonce_def Let_def ghost_frame split: option.splits)

lemma reject_counts_frame [ghost_frame]:
  "md_agent_counts (snd (reject_signature u now r msg d)) = md_agent_counts d"
  "md_pair_counts (snd (reject_signature u now r msg d)) = md_pair_counts d"
  "md_last_rate_reset (snd (reject_signature u now r msg d)) = md_last_rate_reset d"
  by (simp_all add: reject_signature_def record_sig_failure_def Let_def)

abbreviation agent_count :: "message_dispatcher \<Rightarrow> uuid \<Rightarrow> u32" where
  "agent_count d \<equiv> bt_get_or 0 (md_agent_counts d)"

abbreviation pair_count :: "message_dispatcher \<Rightarrow> uuid \<times> uuid \<Rightarrow> u32" where
  "pair_count d \<equiv> bt_get_or 0 (md_pair_counts d)"

text \<open>Every accepted message is counted for its sender and its pair, and no counter passes its
  limit.\<close>

definition counts_ok :: "message_dispatcher \<Rightarrow> bool" where
  "counts_ok d \<longleftrightarrow> (\<forall>a. agent_count d a \<le> RATE_LIMIT_PER_AGENT_PER_HOUR) \<and>
     (\<forall>p. pair_count d p \<le> RATE_LIMIT_PER_PAIR_PER_HOUR)"

lemma check_rate_limit_counts:
  fixes s r :: uuid
  assumes "counts_ok d"
  defines "res \<equiv> check_rate_limit s r d"
  shows "counts_ok (snd res)"
    and "unat (agent_count (snd res) a) \<ge> unat (agent_count d a) + (if fst res \<and> a = s then 1 else 0)"
    and "unat (pair_count (snd res) p) = unat (pair_count d p) + (if fst res \<and> p = (s, r) then 1 else 0)"
    and "md_last_rate_reset (snd res) = md_last_rate_reset d"
proof -
  have step: "w < v \<Longrightarrow> w + 1 \<le> v \<and> unat (w + 1) = Suc (unat w)" for w v :: u32
    using word_less_succ_le word_less_imp_no_wrap by blast
  note limits = assms(1) [unfolded counts_ok_def]
  show "counts_ok (snd res)"
    "unat (agent_count (snd res) a) \<ge> unat (agent_count d a) + (if fst res \<and> a = s then 1 else 0)"
    "unat (pair_count (snd res) p) = unat (pair_count d p) + (if fst res \<and> p = (s, r) then 1 else 0)"
    "md_last_rate_reset (snd res) = md_last_rate_reset d"
    using limits step [of "agent_count d s" RATE_LIMIT_PER_AGENT_PER_HOUR]
      step [of "pair_count d (s, r)" RATE_LIMIT_PER_PAIR_PER_HOUR]
    unfolding res_def counts_ok_def
    by (auto simp: check_rate_limit_def Let_def bt_get_or_def not_le split: option.splits)
qed

definition accepted_from :: "uuid \<Rightarrow> (verify_result \<times> agent_message) list \<Rightarrow> nat" where
  "accepted_from a rs = length (filter (\<lambda>(r, msg). r = VrAccepted \<and> am_sender msg = a) rs)"

definition accepted_pair :: "uuid \<times> uuid \<Rightarrow> (verify_result \<times> agent_message) list \<Rightarrow> nat" where
  "accepted_pair p rs =
     length (filter (\<lambda>(r, msg). r = VrAccepted \<and> (am_sender msg, am_recipient msg) = p) rs)"

lemma reset_counts_ok: "counts_ok d \<Longrightarrow> counts_ok (maybe_reset_rate_limits now d)"
  by (simp add: counts_ok_def maybe_reset_rate_limits_def bt_get_or_def)

text \<open>One call, with the counters after the reset that it may begin with.\<close>

lemma verify_counts:
  fixes env u now msg
  assumes "counts_ok d"
  defines "e \<equiv> maybe_reset_rate_limits now d"
  defines "v \<equiv> verify_message env u now msg d"
  shows "counts_ok (snd v) \<and> md_last_rate_reset (snd v) = md_last_rate_reset e \<and>
    unat (agent_count e a) + accepted_from a [(fst v, msg)] \<le> unat (agent_count (snd v) a) \<and>
    unat (pair_count e p) + accepted_pair p [(fst v, msg)] \<le> unat (pair_count (snd v) p)"
proof -
  have same: "md_agent_counts (pruned now d) = md_agent_counts e"
    "md_pair_counts (pruned now d) = md_pair_counts e"
    "md_last_rate_reset (pruned now d) = md_last_rate_reset e"
    by (simp_all add: ghost_frame e_def)
  have e: "counts_ok e" unfolding e_def by (rule reset_counts_ok [OF assms(1)])
  show ?thesis
  proof (cases rule: verify_cases [of env u now msg d])
    case 1
    then have "md_agent_counts (snd v) = md_agent_counts e"
      "md_pair_counts (snd v) = md_pair_counts e"
      "md_last_rate_reset (snd v) = md_last_rate_reset e"
      unfolding v_def using same reject_counts_frame by metis+
    then show ?thesis
      using e 1(1) by (simp add: counts_ok_def accepted_from_def accepted_pair_def v_def)
  next
    case 2
    let ?d = "snd (check_replay u now msg (pruned now d))"
    let ?rl = "check_rate_limit (am_sender msg) (am_recipient msg) ?d"
    have ok: "counts_ok ?d" "agent_count ?d = agent_count e" "pair_count ?d = pair_count e"
      "md_last_rate_reset ?d = md_last_rate_reset e"
      using e by (simp_all add: counts_ok_def check_replay_counts_frame same)
    have v: "fst v = (if fst ?rl then VrAccepted else RejectedRateLimit)" "snd v = snd ?rl"
      by (simp_all add: v_def 2(3) Let_def case_prod_beta)
    note rl = check_rate_limit_counts [OF ok(1), where s = "am_sender msg" and r = "am_recipient msg"]
    have "unat (agent_count e a) + accepted_from a [(fst v, msg)] \<le> unat (agent_count (snd ?rl) a)"
      using rl(2) [of a] unfolding v ok(2) by (auto simp: accepted_from_def split: if_splits)
    moreover have "unat (pair_count e p) + accepted_pair p [(fst v, msg)] \<le> unat (pair_count (snd ?rl) p)"
      using rl(3) [of p] unfolding v ok(3) by (auto simp: accepted_pair_def split: if_splits)
    ultimately show ?thesis unfolding v(2) using rl(1,4) ok(4) by simp
  qed
qed

subsection \<open>Any history\<close>

datatype md_op =
  MdVerify datetime instant agent_message
| MdRegister uuid verifying_key
| MdQueue uuid agent_message
| MdDeliver datetime uuid

fun md_step :: "msg_env \<Rightarrow> message_dispatcher \<Rightarrow> md_op \<Rightarrow> message_dispatcher" where
  "md_step env d (MdVerify u now msg) = snd (verify_message env u now msg d)"
| "md_step env d (MdRegister a key) = register_verifying_key a key d"
| "md_step env d (MdQueue a msg) = queue_offline a msg d"
| "md_step env d (MdDeliver u a) = snd (deliver_queued u a d)"

text \<open>A history with the answers to its messages, and the instants of those.\<close>

fun md_run :: "msg_env \<Rightarrow> message_dispatcher \<Rightarrow> md_op list \<Rightarrow>
    (verify_result \<times> agent_message) list \<times> message_dispatcher" where
  "md_run env d [] = ([], d)"
| "md_run env d (op # ops) =
     (let (rs, d') = md_run env (md_step env d op) ops in
      case op of
        MdVerify u now msg \<Rightarrow> ((fst (verify_message env u now msg d), msg) # rs, d')
      | _ \<Rightarrow> (rs, d'))"

fun verify_times :: "md_op list \<Rightarrow> instant list" where
  "verify_times [] = []"
| "verify_times (op # ops) = (case op of MdVerify u now msg \<Rightarrow> now # verify_times ops | _ \<Rightarrow> verify_times ops)"

lemma md_step_counts:
  assumes "\<And>u now msg. op \<noteq> MdVerify u now msg"
  shows "md_agent_counts (md_step env d op) = md_agent_counts d"
    and "md_pair_counts (md_step env d op) = md_pair_counts d"
    and "md_last_rate_reset (md_step env d op) = md_last_rate_reset d"
  using assms
  by (cases op; simp add: register_verifying_key_def queue_offline_def deliver_queued_def Let_def
      split: option.splits)+

lemma md_step_counts_ok: "counts_ok d \<Longrightarrow> counts_ok (md_step env d op)"
proof (cases op)
  case (MdVerify u now msg)
  then show "counts_ok d \<Longrightarrow> counts_ok (md_step env d op)" using verify_counts by simp
qed (simp_all add: counts_ok_def md_step_counts del: md_step.simps)

interpretation limits: invariant_steps "md_step env" counts_ok for env
  by unfold_locales (rule md_step_counts_ok)

lemma accepted_verify:
  "accepted_from a (fst (md_run env d (MdVerify u now msg # ops))) =
     accepted_from a [(fst (verify_message env u now msg d), msg)] +
     accepted_from a (fst (md_run env (snd (verify_message env u now msg d)) ops))"
  "accepted_pair p (fst (md_run env d (MdVerify u now msg # ops))) =
     accepted_pair p [(fst (verify_message env u now msg d), msg)] +
     accepted_pair p (fst (md_run env (snd (verify_message env u now msg d)) ops))"
  by (simp_all add: accepted_from_def accepted_pair_def case_prod_beta Let_def)

lemma counts_okD:
  assumes "counts_ok d"
  shows "unat (agent_count d a) \<le> 60" "unat (pair_count d p) \<le> 30"
  using assms
  by (cases p; auto simp: counts_ok_def word_le_nat_alt RATE_LIMIT_PER_AGENT_PER_HOUR_def
      RATE_LIMIT_PER_PAIR_PER_HOUR_def)+

text \<open>Within one counting window the counters bound what is accepted.\<close>

lemma window_counts:
  assumes "counts_ok d"
    and "\<forall>now \<in> set (verify_times ops). elapsed now (md_last_rate_reset d) < RATE_LIMIT_RESET_INTERVAL"
  shows "unat (agent_count d a) + accepted_from a (fst (md_run env d ops)) \<le> 60 \<and>
    unat (pair_count d p) + accepted_pair p (fst (md_run env d ops)) \<le> 30"
  using assms
proof (induction ops arbitrary: d)
  case Nil
  then show ?case using counts_okD by (simp add: accepted_from_def accepted_pair_def)
next
  case (Cons op ops)
  show ?case
  proof (cases op)
    case (MdVerify u now msg)
    then have "maybe_reset_rate_limits now d = d"
      using Cons.prems(2) by (simp add: maybe_reset_rate_limits_def)
    note v = verify_counts [OF Cons.prems(1), where now = now and env = env and u = u and msg = msg and a = a and p = p, unfolded this]
    have "unat (agent_count (md_step env d op) a) + accepted_from a (fst (md_run env (md_step env d op) ops)) \<le> 60 \<and>
        unat (pair_count (md_step env d op) p) + accepted_pair p (fst (md_run env (md_step env d op) ops)) \<le> 30"
      using Cons.prems MdVerify v by (intro Cons.IH) simp_all
    then show ?thesis
      using v unfolding MdVerify accepted_verify md_step.simps by linarith
  qed (use Cons.IH [OF md_step_counts_ok [OF Cons.prems(1)], of env op] Cons.prems(2) in
      \<open>simp_all add: case_prod_beta Let_def md_step_counts del: md_step.simps\<close>)
qed

text \<open>A stretch of less than an hour sees at most one reset, so at most two windows.\<close>

lemma stretch_counts:
  assumes "counts_ok d" "sorted (verify_times ops)"
    and "\<forall>now \<in> set (verify_times ops). i \<le> now \<and> elapsed now i < RATE_LIMIT_RESET_INTERVAL"
  shows "unat (agent_count d a) + accepted_from a (fst (md_run env d ops)) \<le> 120 \<and>
    unat (pair_count d p) + accepted_pair p (fst (md_run env d ops)) \<le> 60"
  using assms
proof (induction ops arbitrary: d)
  case Nil
  then show ?case
    using counts_okD(1) [OF Nil.prems(1), of a] counts_okD(2) [OF Nil.prems(1), of p]
    by (simp add: accepted_from_def accepted_pair_def)
next
  case (Cons op ops)
  have later: "sorted (verify_times ops)"
    "\<forall>now \<in> set (verify_times ops). i \<le> now \<and> elapsed now i < RATE_LIMIT_RESET_INTERVAL"
    using Cons.prems(2,3) by (auto split: md_op.splits)
  note IH = Cons.IH [OF md_step_counts_ok [OF Cons.prems(1)] later, of env op]
  note lim = counts_okD(1) [OF Cons.prems(1), of a] counts_okD(2) [OF Cons.prems(1), of p]
  show ?case
  proof (cases op)
    case (MdVerify u now msg)
    note v = verify_counts [OF Cons.prems(1), where now = now and env = env and u = u and msg = msg and a = a and p = p]
    let ?d = "snd (verify_message env u now msg d)"
    show ?thesis
    proof (cases "elapsed now (md_last_rate_reset d) < RATE_LIMIT_RESET_INTERVAL")
      case True
      then have "maybe_reset_rate_limits now d = d" by (simp add: maybe_reset_rate_limits_def)
      note v = v [unfolded this]
      show ?thesis using v IH unfolding MdVerify accepted_verify md_step.simps by linarith
    next
      case False
      then have "md_last_rate_reset ?d = now" using v by (simp add: maybe_reset_rate_limits_def)
      moreover have "elapsed t now < RATE_LIMIT_RESET_INTERVAL" if "t \<in> set (verify_times ops)" for t
        using that later(2) Cons.prems(3) MdVerify by (fastforce simp: elapsed_def)
      ultimately have "unat (agent_count ?d a) + accepted_from a (fst (md_run env ?d ops)) \<le> 60 \<and>
          unat (pair_count ?d p) + accepted_pair p (fst (md_run env ?d ops)) \<le> 30"
        using v by (intro window_counts) simp_all
      then show ?thesis using v lim unfolding MdVerify accepted_verify by linarith
    qed
  qed (use IH in \<open>simp_all add: case_prod_beta Let_def md_step_counts del: md_step.simps\<close>)
qed

definition cache_ok :: "message_dispatcher \<Rightarrow> bool" where
  "cache_ok d \<longleftrightarrow> seen_ok d \<and> bt_len (md_seen_nonces d) \<le> MAX_TRACKED_REPLAY_NONCES"

lemma evict_over_capacity_ok: "seen_ok d \<Longrightarrow> cache_ok (evict_over_capacity d)"
  using evict_seen [of d "bt_keys (md_seen_nonce_order d)"]
  by (auto simp: cache_ok_def evict_over_capacity_def Let_def ghost_frame seen_ok_def bt_keys_iff
      bt_contains_def bt_keys_distinct)

lemma cache_ok_state: "cache_ok d \<longleftrightarrow> seen_state MAX_TRACKED_REPLAY_NONCES d"
  by (simp add: cache_ok_def seen_state_def)

lemma verify_cache_ok:
  assumes "cache_ok d"
  shows "cache_ok (snd (verify_message env u now msg d))"
proof -
  have p: "cache_ok (pruned now d)" using assms pruned_seen(1) by (simp add: cache_ok_state)
  show ?thesis
  proof (cases rule: verify_cases [of env u now msg d])
    case 1
    then show ?thesis using p by (auto simp: cache_ok_def seen_ok_def ghost_frame)
  next
    case 2
    let ?d = "track_seen_nonce (am_nonce msg) now
      (track_sender_nonce (am_sender msg) (am_nonce msg) now (pruned now d))"
    have "seen_ok ?d"
      using p check_replay_true(3) [OF 2(2)]
      by (auto simp: cache_ok_def seen_ok_def track_seen_nonce_def ghost_frame bt_contains_def)
    then have "cache_ok (snd (check_replay u now msg (pruned now d)))"
      by (simp add: check_replay_true(4) [OF 2(2)] evict_over_capacity_ok)
    then show ?thesis
      by (simp add: 2(3) Let_def case_prod_beta cache_ok_def seen_ok_def ghost_frame)
  qed
qed

interpretation dispatcher: invariant_steps "md_step env" cache_ok for env
proof
  fix d op
  assume "cache_ok d"
  then show "cache_ok (md_step env d op)"
  proof (cases op)
    case (MdVerify u now msg)
    then show ?thesis using \<open>cache_ok d\<close> by (simp add: verify_cache_ok)
  qed (auto simp: register_verifying_key_def queue_offline_def deliver_queued_def cache_ok_def
      seen_ok_def Let_def split: option.splits)
qed

lemma dispatcher_new_ok [simp]: "cache_ok (dispatcher_new now)"
  by (simp add: cache_ok_def seen_ok_def dispatcher_new_def bt_contains_def bt_len_card)

subsection \<open>A quiet dispatcher\<close>

definition fresh_caches :: "message_dispatcher \<Rightarrow> bool" where
  "fresh_caches d \<longleftrightarrow> md_seen_nonces d = bt_new \<and> md_seen_nonce_order d = bt_new \<and>
     md_last_nonce d = bt_new \<and> md_last_nonce_order d = bt_new \<and> md_agent_counts d = bt_new \<and>
     md_pair_counts d = bt_new"

lemma small_caches_noop:
  assumes "bt_len (md_seen_nonces d) \<le> 1" "bt_len (md_last_nonce d) \<le> 1"
  shows "evict_over_capacity d = d"
proof -
  have "evict_seen_nonces_over_capacity ks d = d" for ks
    using assms(1) by (intro evict_noop) (simp add: MAX_TRACKED_REPLAY_NONCES_def)
  moreover have "evict_sender_nonces_over_capacity ks d = d" for ks
    using assms(2) by (cases ks) (auto simp: MAX_TRACKED_SENDERS_def)
  ultimately show ?thesis by (simp add: evict_over_capacity_def)
qed

lemma bt_len_new [simp]: "bt_len bt_new = 0"
  by (simp add: bt_len_card)

lemma pruned_fresh:
  assumes "fresh_caches d"
  shows "pruned now d = maybe_reset_rate_limits now d" "fresh_caches (pruned now d)"
  using assms small_caches_noop
  by (auto simp: pruned_def prune_replay_state_def fresh_caches_def maybe_reset_rate_limits_def Let_def)

definition tracked :: "agent_message \<Rightarrow> instant \<Rightarrow> message_dispatcher \<Rightarrow> message_dispatcher" where
  "tracked msg now d = d\<lparr>md_seen_nonces := bt_insert (am_nonce msg) now bt_new,
     md_seen_nonce_order := bt_insert (now, am_nonce msg) () bt_new,
     md_last_nonce := bt_insert (am_sender msg) \<lparr>sn_nonce = am_nonce msg, sn_seen_at = now\<rparr> bt_new,
     md_last_nonce_order := bt_insert (now, am_sender msg) () bt_new\<rparr>"

definition fresh_replay :: "message_dispatcher \<Rightarrow> bool" where
  "fresh_replay d \<longleftrightarrow> md_seen_nonces d = bt_new \<and> md_seen_nonce_order d = bt_new \<and>
     md_last_nonce d = bt_new \<and> md_last_nonce_order d = bt_new"

lemma fresh_caches_replay: "fresh_caches d \<Longrightarrow> fresh_replay d"
  by (simp add: fresh_caches_def fresh_replay_def)

lemma check_replay_fresh:
  assumes "fresh_replay d" "u - am_timestamp msg \<le> chrono_secs 300" "chrono_secs (- 30) \<le> u - am_timestamp msg"
  shows "check_replay u now msg d = (True, tracked msg now d)"
proof -
  have "evict_over_capacity (tracked msg now d) = tracked msg now d"
    using bt_len_insert_le [of "am_nonce msg" now bt_new]
      bt_len_insert_le [of "am_sender msg" "\<lparr>sn_nonce = am_nonce msg, sn_seen_at = now\<rparr>" bt_new]
    by (intro small_caches_noop) (simp_all add: tracked_def)
  moreover have "track_seen_nonce (am_nonce msg) now
      (track_sender_nonce (am_sender msg) (am_nonce msg) now d) = tracked msg now d"
    using assms(1) by (simp add: track_seen_nonce_def track_sender_nonce_def fresh_replay_def tracked_def)
  ultimately show ?thesis
    using assms by (simp add: check_replay_def fresh_replay_def bt_contains_def Let_def)
qed

definition counted_once :: "agent_message \<Rightarrow> message_dispatcher \<Rightarrow> message_dispatcher" where
  "counted_once msg d = d\<lparr>md_agent_counts := bt_insert (am_sender msg) 1 bt_new,
     md_pair_counts := bt_insert (am_sender msg, am_recipient msg) 1 bt_new\<rparr>"

lemma verify_authentic:
  assumes "authentic env msg (pruned now d)" "check_replay u now msg (pruned now d) = (True, d')"
    and "check_rate_limit (am_sender msg) (am_recipient msg) d' = (True, d'')"
  shows "verify_message env u now msg d = (VrAccepted, d'')"
proof (cases rule: verify_cases [of env u now msg d])
  case 1
  obtain key where "\<not> am_encrypted msg" "compute_content_hash env msg = am_content_hash msg"
    "bt_get (md_verifying_keys (pruned now d)) (am_sender msg) = Some key" "length (am_signature msg) = 64"
    "me_verify env (canonical_bytes env msg) (am_signature msg) key" using assms(1) by (auto simp: authentic_def)
  then show ?thesis using assms(2,3)
    by (auto simp: verify_message_def signature_from_bytes_def pruned_def Let_def)
next
  case 2
  then show ?thesis using assms by simp
qed

lemma fresh_accepts:
  assumes "fresh_caches d" "authentic env msg d" "u - am_timestamp msg \<le> chrono_secs 300"
    and "chrono_secs (- 30) \<le> u - am_timestamp msg"
  shows "fst (verify_message env u now msg d) = VrAccepted"
    and "snd (verify_message env u now msg d) =
      counted_once msg (tracked msg now (maybe_reset_rate_limits now d))"
proof -
  note pf = pruned_fresh [OF assms(1), of now]
  have "authentic env msg (pruned now d)" using assms(2) by (simp add: authentic_def pruned_counts_frame)
  moreover note check_replay_fresh [OF fresh_caches_replay [OF pf(2)] assms(3,4), of now]
  moreover have "check_rate_limit (am_sender msg) (am_recipient msg) (tracked msg now (pruned now d)) =
      (True, counted_once msg (tracked msg now (pruned now d)))"
    using pf(2)
    by (simp add: check_rate_limit_def fresh_caches_def tracked_def counted_once_def bt_get_or_def
        RATE_LIMIT_PER_AGENT_PER_HOUR_def RATE_LIMIT_PER_PAIR_PER_HOUR_def Let_def)
  ultimately have "verify_message env u now msg d =
      (VrAccepted, counted_once msg (tracked msg now (pruned now d)))" by (rule verify_authentic)
  then show "fst (verify_message env u now msg d) = VrAccepted"
    "snd (verify_message env u now msg d) =
      counted_once msg (tracked msg now (maybe_reset_rate_limits now d))"
    by (simp_all add: pf(1))
qed

lemma bt_remove_insert_new [simp]: "bt_remove k (bt_insert k v bt_new) = bt_new"
  by (rule bt_eqI) simp

lemma pruned_after_window:
  assumes "d1 = counted_once msg (tracked msg i0 d)"
  shows "fresh_replay (pruned (i0 + from_secs 300) d1) \<and>
    agent_count (pruned (i0 + from_secs 300) d1) (am_sender msg) \<le> 1 \<and>
    pair_count (pruned (i0 + from_secs 300) d1) (am_sender msg, am_recipient msg) \<le> 1 \<and>
    md_verifying_keys (pruned (i0 + from_secs 300) d1) = md_verifying_keys d"
proof -
  let ?now = "i0 + from_secs 300"
  let ?d = "maybe_reset_rate_limits ?now d1"
  have old: "\<not> elapsed ?now i0 < REPLAY_WINDOW" by (simp add: elapsed_def REPLAY_WINDOW_def)
  have fields: "md_seen_nonces ?d = bt_insert (am_nonce msg) i0 bt_new"
    "md_seen_nonce_order ?d = bt_insert (i0, am_nonce msg) () bt_new"
    "md_last_nonce ?d = bt_insert (am_sender msg) \<lparr>sn_nonce = am_nonce msg, sn_seen_at = i0\<rparr> bt_new"
    "md_last_nonce_order ?d = bt_insert (i0, am_sender msg) () bt_new"
    by (simp_all add: assms maybe_reset_rate_limits_def counted_once_def tracked_def)
  define e where "e = ?d\<lparr>md_seen_nonce_order := bt_new, md_seen_nonces := bt_new,
    md_last_nonce_order := bt_new, md_last_nonce := bt_new\<rparr>"
  have "pruned ?now d1 = evict_over_capacity e"
    using old by (simp add: pruned_def prune_replay_state_def fields Let_def e_def)
  also have "\<dots> = e" by (rule small_caches_noop) (simp_all add: e_def)
  finally show ?thesis
    by (simp add: e_def fresh_replay_def assms maybe_reset_rate_limits_def counted_once_def tracked_def
        bt_get_or_def)
qed

lemma replay_accepted:
  assumes "fresh_caches d" "authentic env msg d"
    and "u0 \<le> am_timestamp msg" "am_timestamp msg \<le> u0 + chrono_secs 30"
  shows "fst (verify_message env (u0 + chrono_secs 300) (i0 + from_secs 300) msg
      (snd (verify_message env u0 i0 msg d))) = VrAccepted"
proof -
  let ?now = "i0 + from_secs 300"
  let ?d1 = "counted_once msg (tracked msg i0 (maybe_reset_rate_limits i0 d))"
  have first: "snd (verify_message env u0 i0 msg d) = ?d1"
    by (rule fresh_accepts(2) [OF assms(1,2)]) (use assms(3,4) in \<open>simp_all add: chrono_secs_def\<close>)
  note p = pruned_after_window [OF refl, of i0 msg "maybe_reset_rate_limits i0 d"]
  have "authentic env msg (pruned ?now ?d1)"
    using assms(2) p by (simp add: authentic_def maybe_reset_rate_limits_def)
  moreover have "check_replay (u0 + chrono_secs 300) ?now msg (pruned ?now ?d1) =
      (True, tracked msg ?now (pruned ?now ?d1))"
    using p assms(3,4) by (intro check_replay_fresh) (simp_all add: chrono_secs_def)
  moreover have "\<not> 60 \<le> agent_count (tracked msg ?now (pruned ?now ?d1)) (am_sender msg)"
    "\<not> 30 \<le> pair_count (tracked msg ?now (pruned ?now ?d1)) (am_sender msg, am_recipient msg)"
    using p by (auto simp: tracked_def word_le_nat_alt)
  then obtain d2 where "check_rate_limit (am_sender msg) (am_recipient msg)
      (tracked msg ?now (pruned ?now ?d1)) = (True, d2)"
    by (auto simp: check_rate_limit_def RATE_LIMIT_PER_AGENT_PER_HOUR_def
        RATE_LIMIT_PER_PAIR_PER_HOUR_def Let_def)
  ultimately show ?thesis using verify_authentic first by (metis fst_conv)
qed

subsection \<open>Properties\<close>

text \<open>
  C14. No replay: a message that was accepted is not accepted again. For a dispatcher with any
  history, clocks that advance together, a message dated before its first arrival and fewer
  than \<^verbatim>\<open>16384\<close> messages in between, every later presentation of the same message is rejected,
  whatever other messages arrive in between, whether its nonce is still cached or not.
\<close>

theorem message_accepted_once:
  assumes "d = foldl (md_step env) (dispatcher_new t0) ops"
    and "fst (verify_message env u0 i0 msg d) = VrAccepted" "am_timestamp msg < u0"
    and "bt_len (md_seen_nonces d) + Suc (length cs) < MAX_TRACKED_REPLAY_NONCES"
    and "\<forall>(u, now, m) \<in> set cs. now \<le> i" "i0 \<le> i" "u = u0 + int (i - i0)"
  shows "fst (verify_message env u i msg
    (foldl (verify_step env) (snd (verify_message env u0 i0 msg d)) cs)) \<noteq> VrAccepted"
proof (cases "elapsed i i0 < REPLAY_WINDOW")
  case True
  let ?k = "bt_len (md_seen_nonces d)"
  let ?d0 = "snd (verify_message env u0 i0 msg d)"
  have "cache_ok d" unfolding assms(1) by (rule dispatcher.inv_run) simp
  then have d: "seen_state ?k d" by (simp add: cache_ok_def seen_state_def)
  have k: "?k < MAX_TRACKED_REPLAY_NONCES" using assms(4) by simp
  have window: "\<forall>(u, now, m) \<in> set cs. elapsed now i0 < REPLAY_WINDOW"
  proof (intro ballI, clarify)
    fix u' now m assume "(u', now, m) \<in> set cs"
    then have "now \<le> i" using assms(5) by auto
    from le_less_trans [OF elapsed_mono [OF this] True] show "elapsed now i0 < REPLAY_WINDOW" .
  qed
  have room: "Suc ?k + length cs < MAX_TRACKED_REPLAY_NONCES" using assms(4) by simp
  from nonce_survives [OF verify_seen(1) [OF d k] less_imp_le [OF room] accepted_remembered [OF assms(2) d k] window]
  have kept: "seen_state (Suc ?k + length cs) (foldl (verify_step env) ?d0 cs)"
    "bt_get (md_seen_nonces (foldl (verify_step env) ?d0 cs)) (am_nonce msg) = Some i0" by blast+
  show ?thesis by (rule known_nonce_rejected [OF kept(1) room kept(2) True])
next
  case False
  then have "chrono_secs 300 \<le> int (i - i0)"
    by (simp add: elapsed_def REPLAY_WINDOW_def from_secs_def chrono_secs_def)
  then show ?thesis using assms(3,7) by (intro stale_rejected) simp
qed

definition sample_msg_env :: msg_env where
  "sample_msg_env = \<lparr>me_blake3 = (\<lambda>bs. 7), me_rfc3339 = (\<lambda>t. ''t''), me_payload_json = (\<lambda>p. Some []),
     me_context_json = (\<lambda>c. Some []), me_verify = (\<lambda>bs s k. k = 5), me_sign = (\<lambda>bs k. replicate 64 0)\<rparr>"

definition sample_msg :: "datetime \<Rightarrow> agent_message" where
  "sample_msg ts = \<lparr>am_id = 1, am_sender = 2, am_recipient = 3, am_payload = Notification ''hi'',
     am_context = bt_new, am_nonce = 9, am_timestamp = ts, am_content_hash = 7,
     am_signature = replicate 64 0, am_encrypted = False\<rparr>"

lemma sample_authentic:
  "authentic sample_msg_env (sample_msg ts) (register_verifying_key 2 5 (dispatcher_new t))"
  by (simp add: authentic_def sample_msg_env_def sample_msg_def compute_content_hash_def
      register_verifying_key_def)

theorem message_accepted_once_witness:
  "fst (verify_message sample_msg_env (100 + int (50 - 10)) 50 (sample_msg 99)
     (foldl (verify_step sample_msg_env) (snd (verify_message sample_msg_env 100 10 (sample_msg 99)
       (foldl (md_step sample_msg_env) (dispatcher_new 0) [MdRegister 2 5]))) [(120, 30, sample_msg 110)]))
   \<noteq> VrAccepted"
proof (rule message_accepted_once [OF refl])
  let ?d = "foldl (md_step sample_msg_env) (dispatcher_new 0) [MdRegister 2 5]"
  have d: "?d = register_verifying_key 2 5 (dispatcher_new 0)" by simp
  have "fresh_caches ?d" by (simp add: fresh_caches_def dispatcher_new_def register_verifying_key_def)
  moreover have "authentic sample_msg_env (sample_msg 99) ?d" unfolding d by (rule sample_authentic)
  ultimately show "fst (verify_message sample_msg_env 100 10 (sample_msg 99) ?d) = VrAccepted"
    by (rule fresh_accepts(1)) (simp_all add: sample_msg_def chrono_secs_def)
  show "bt_len (md_seen_nonces ?d) + Suc (length [(120 :: int, 30 :: nat, sample_msg 110)]) < MAX_TRACKED_REPLAY_NONCES"
    by (simp add: dispatcher_new_def register_verifying_key_def MAX_TRACKED_REPLAY_NONCES_def bt_len_card)
qed (simp_all add: sample_msg_def)

text \<open>
  A future-dated message can be replayed: a message dated up to 30 seconds ahead, as the
  clock-skew tolerance admits, is accepted when it arrives and, if its sender is silent
  meanwhile, accepted again 300 seconds later, when its nonce has just left the cache but its
  age does not yet exceed the replay window.
\<close>

theorem future_dated_message_replayed:
  assumes "fresh_caches d" "authentic env msg d"
    and "u0 \<le> am_timestamp msg" "am_timestamp msg \<le> u0 + chrono_secs 30"
  shows "fst (verify_message env u0 i0 msg d) = VrAccepted \<and>
    fst (verify_message env (u0 + chrono_secs 300) (i0 + from_secs 300) msg
      (snd (verify_message env u0 i0 msg d))) = VrAccepted"
  using fresh_accepts(1) [OF assms(1,2)] replay_accepted [OF assms] assms(3,4)
  by (simp add: chrono_secs_def)

theorem future_dated_message_replayed_witness:
  "let d = register_verifying_key 2 5 (dispatcher_new 0); msg = sample_msg (chrono_secs 30) in
   fst (verify_message sample_msg_env 0 0 msg d) = VrAccepted \<and>
   fst (verify_message sample_msg_env (0 + chrono_secs 300) (0 + from_secs 300) msg
      (snd (verify_message sample_msg_env 0 0 msg d))) = VrAccepted"
  unfolding Let_def
  by (rule future_dated_message_replayed [OF _ sample_authentic])
    (simp_all add: fresh_caches_def dispatcher_new_def register_verifying_key_def sample_msg_def
      chrono_secs_def)

text \<open>
  C15. Acceptance is authenticated: an accepted message is unencrypted, carries the hash of its
  canonical bytes and a 64-byte signature of them that verifies under the key registered for
  its sender, is at most five minutes old and at most 30 seconds ahead.
\<close>

theorem accepted_is_authentic:
  assumes "fst (verify_message env u now msg d) = VrAccepted"
  shows "authentic env msg d \<and> u - am_timestamp msg \<le> chrono_secs 300 \<and>
    chrono_secs (- 30) \<le> u - am_timestamp msg"
proof (cases rule: verify_cases [of env u now msg d])
  case 2
  then show ?thesis
    using check_replay_true(1,2) [OF 2(2)] by (simp add: authentic_def pruned_counts_frame)
qed (use assms in simp)

theorem accepted_is_authentic_witness:
  "authentic sample_msg_env (sample_msg 0) (register_verifying_key 2 5 (dispatcher_new 0)) \<and>
   5 - am_timestamp (sample_msg 0) \<le> chrono_secs 300 \<and> chrono_secs (- 30) \<le> 5 - am_timestamp (sample_msg 0)"
  by (rule accepted_is_authentic [where now = 5], rule fresh_accepts(1) [OF _ sample_authentic])
    (simp_all add: fresh_caches_def dispatcher_new_def register_verifying_key_def sample_msg_def
      chrono_secs_def)

text \<open>
  C23. Rate limits: after any history of a dispatcher (key registrations, messages, queueing and
  delivery), any further operations in which messages arrive in order within less than one hour
  accept at most 120 messages of a sender and 60 between one sender and one recipient; and at most
  60 and 30 while the hour of the counters' last reset lasts.
\<close>

theorem rate_limits_hold:
  assumes "d = foldl (md_step env) (dispatcher_new t0) history"
    and "sorted (verify_times ops)"
    and "\<forall>now \<in> set (verify_times ops). i \<le> now \<and> elapsed now i < from_secs 3600"
  shows "let rs = fst (md_run env d ops) in
    accepted_from a rs \<le> 120 \<and> accepted_pair p rs \<le> 60 \<and>
    ((\<forall>now \<in> set (verify_times ops). elapsed now (md_last_rate_reset d) < from_secs 3600) \<longrightarrow>
       accepted_from a rs \<le> 60 \<and> accepted_pair p rs \<le> 30)"
proof -
  have ok: "counts_ok d"
    unfolding assms(1) by (rule limits.inv_run) (simp add: counts_ok_def dispatcher_new_def bt_get_or_def)
  note hour = RATE_LIMIT_RESET_INTERVAL_def [symmetric]
  show ?thesis
    using stretch_counts [OF ok assms(2) assms(3) [unfolded hour], of a env p]
      window_counts [OF ok, of ops a env p]
    unfolding Let_def hour by auto
qed

theorem rate_limits_hold_witness:
  "let d = foldl (md_step sample_msg_env) (dispatcher_new 0) [MdRegister 2 5];
       rs = fst (md_run sample_msg_env d [MdVerify 5 5 (sample_msg 0), MdVerify 6 6 (sample_msg 0)])
   in 1 \<le> accepted_from 2 rs \<and> accepted_from 2 rs \<le> 60 \<and> accepted_pair (2, 3) rs \<le> 30"
proof -
  let ?d = "foldl (md_step sample_msg_env) (dispatcher_new 0) [MdRegister 2 5]"
  have "fst (verify_message sample_msg_env 5 5 (sample_msg 0) ?d) = VrAccepted"
    using fresh_accepts(1) [OF _ sample_authentic [of 0 0], of 5 5]
    by (simp add: fresh_caches_def dispatcher_new_def register_verifying_key_def sample_msg_def chrono_secs_def)
  then have "1 \<le> accepted_from 2 (fst (md_run sample_msg_env ?d
      [MdVerify 5 5 (sample_msg 0), MdVerify 6 6 (sample_msg 0)]))"
    by (simp add: accepted_from_def case_prod_beta Let_def sample_msg_def)
  moreover have "md_last_rate_reset ?d = 0" by (simp add: dispatcher_new_def register_verifying_key_def)
  ultimately show ?thesis
    using rate_limits_hold [OF refl, of "[MdVerify 5 5 (sample_msg 0), MdVerify 6 6 (sample_msg 0)]" 0
        sample_msg_env 0 "[MdRegister 2 5]" 2 "(2, 3)"]
    by (simp add: Let_def elapsed_def from_secs_def del: md_run.simps foldl.simps)
qed

end
