(* ===== verification/Market_Store.thy ===== *)
theory Market_Store
  imports Ordered_Map Float64 Rust_String "HOL-Library.List_Lexorder" "HOL-Library.Char_ord"
begin

section \<open>The marketplace tables\<close>

text \<open>
  The tables of \<^verbatim>\<open>cortex-storage/src/migrations/v038_marketplace.rs\<close> that contracts and credits
  use, and the queries on them in \<^verbatim>\<open>queries/marketplace_queries.rs\<close>. A table is a map from its
  primary key to its row (the append-only \<^verbatim>\<open>credit_transactions\<close> and the reviews are lists, in the
  order of insertion); the timestamp columns are left out, and of a listing only the statistics are kept. Each statement checks the constraints the
  schema declares: primary keys, \<^verbatim>\<open>CHECK\<close>s, \<^verbatim>\<open>UNIQUE\<close> and, since connections set
  \<^verbatim>\<open>foreign_keys = ON\<close>, references. Between \<^verbatim>\<open>BEGIN IMMEDIATE\<close> and \<^verbatim>\<open>COMMIT\<close> a failing
  statement rolls back. Failures of the database itself (a locked file, a full disk) are left out
  here; the theory \<open>Contracts\<close> has them for the two transactions of a transition.
  \<^verbatim>\<open>INTEGER\<close> columns are integers. SQLite computes them exactly within 64 bits and turns a
  larger result into a floating-point number, so the definitions are the code's while amounts stay
  in that range: the theorems on balances take only histories that seed at most the largest 64-bit
  integer, and show that balances and escrowed amounts then stay in range. The two lifetime totals
  \<open>wl_total_earned\<close> and \<open>wl_total_spent\<close> only grow and are computed without a bound here; no
  statement below reads them.
\<close>

subsection \<open>Rows\<close>

record wallet_row =
  wl_balance :: int
  wl_escrowed :: int
  wl_total_earned :: int
  wl_total_spent :: int

datatype escrow_status = Held | Released | Refunded

record escrow_row =
  es_contract_id :: string
  es_depositor :: string
  es_beneficiary :: string
  es_amount :: int
  es_status :: escrow_status

record contract_row =
  ct_hirer_agent_id :: string
  ct_worker_agent_id :: string
  ct_state :: string
  ct_task_description :: string
  ct_agreed_price :: int
  ct_max_duration_secs :: "int option"
  ct_delegation_id :: "string option"
  ct_mesh_task_id :: "string option"
  ct_escrow_id :: "string option"
  ct_result :: "string option"
  ct_event_hash :: "string option"
  ct_previous_hash :: "string option"

record transaction_row =
  tr_from_agent :: "string option"
  tr_to_agent :: "string option"
  tr_amount :: int
  tr_tx_type :: string
  tr_reference_id :: "string option"

record review_row =
  rv_contract_id :: string
  rv_reviewer_agent_id :: string
  rv_reviewee_agent_id :: string
  rv_rating :: int
  rv_comment :: string

record listing_row =
  ls_total_completed :: int
  ls_total_failed :: int
  ls_average_rating :: f64
  ls_total_reviews :: int

record market_db =
  db_wallets :: "(string, wallet_row) btree_map"
  db_escrows :: "(string, escrow_row) btree_map"
  db_contracts :: "(string, contract_row) btree_map"
  db_transactions :: "transaction_row list"
  db_listings :: "(string, listing_row) btree_map"
  db_reviews :: "review_row list"

datatype storage_error = StorageMessage string | ConstraintFailed | NoRows

type_synonym 'a stored = "storage_error + 'a"

definition and_then :: "'e + 'a \<Rightarrow> ('a \<Rightarrow> 'e + 'b) \<Rightarrow> 'e + 'b" where
  "and_then r f = (case r of Inl e \<Rightarrow> Inl e | Inr a \<Rightarrow> f a)"

lemma and_then_simps [simp]: "and_then (Inl e) f = Inl e" "and_then (Inr a) f = f a"
  by (simp_all add: and_then_def)

text \<open>\<^verbatim>\<open>BEGIN IMMEDIATE\<close> \dots \<^verbatim>\<open>COMMIT\<close> or \<^verbatim>\<open>ROLLBACK\<close>.\<close>

definition transaction ::
  "(market_db \<Rightarrow> market_db stored) \<Rightarrow> market_db \<Rightarrow> unit stored \<times> market_db" where
  "transaction body db = (case body db of Inl e \<Rightarrow> (Inl e, db) | Inr db' \<Rightarrow> (Inr (), db'))"

subsection \<open>Wallets and the transaction log\<close>

definition wallet_default :: wallet_row where
  "wallet_default = \<lparr>wl_balance = 0, wl_escrowed = 0, wl_total_earned = 0, wl_total_spent = 0\<rparr>"

definition ensure_wallet :: "string \<Rightarrow> market_db \<Rightarrow> market_db" where
  "ensure_wallet agent db =
     (if bt_contains (db_wallets db) agent then db
      else db\<lparr>db_wallets := bt_insert agent wallet_default (db_wallets db)\<rparr>)"

definition get_wallet :: "string \<Rightarrow> market_db \<Rightarrow> wallet_row option" where
  "get_wallet agent db = bt_get (db_wallets db) agent"

text \<open>\<^verbatim>\<open>UPDATE credit_wallets SET\<close> \<open>f\<close> \<^verbatim>\<open>WHERE agent_id = agent\<close>, with the table's checks.\<close>

definition update_wallet :: "string \<Rightarrow> (wallet_row \<Rightarrow> wallet_row) \<Rightarrow> market_db \<Rightarrow> market_db stored" where
  "update_wallet agent f db =
     (case bt_get (db_wallets db) agent of
        None \<Rightarrow> Inr db
      | Some w \<Rightarrow>
          if 0 \<le> wl_balance (f w) \<and> 0 \<le> wl_escrowed (f w)
          then Inr (db\<lparr>db_wallets := bt_insert agent (f w) (db_wallets db)\<rparr>)
          else Inl ConstraintFailed)"

definition insert_transaction ::
  "string option \<Rightarrow> string option \<Rightarrow> int \<Rightarrow> string \<Rightarrow> string option \<Rightarrow> market_db \<Rightarrow> market_db stored" where
  "insert_transaction from_agent to_agent amount tx_type reference_id db =
     (if 0 < amount then
        Inr (db\<lparr>db_transactions := db_transactions db @
          [\<lparr>tr_from_agent = from_agent, tr_to_agent = to_agent, tr_amount = amount,
            tr_tx_type = tx_type, tr_reference_id = reference_id\<rparr>]\<rparr>)
      else Inl ConstraintFailed)"

definition seed_wallet :: "string \<Rightarrow> int \<Rightarrow> market_db \<Rightarrow> unit stored \<times> market_db" where
  "seed_wallet agent amount db =
     (if amount \<le> 0 then (Inl (StorageMessage ''seed amount must be positive''), db)
      else transaction (\<lambda>db.
        and_then (update_wallet agent
          (\<lambda>w. w\<lparr>wl_balance := wl_balance w + amount, wl_total_earned := wl_total_earned w + amount\<rparr>)
          (ensure_wallet agent db)) (\<lambda>db.
        insert_transaction None (Some agent) amount ''seed'' (Some ''alpha_seed'') db)) db)"

lemma update_ensured:
  "update_wallet a f (ensure_wallet a db) =
     (let w = bt_get_or wallet_default (db_wallets db) a
      in if 0 \<le> wl_balance (f w) \<and> 0 \<le> wl_escrowed (f w)
         then Inr (db\<lparr>db_wallets := bt_insert a (f w) (db_wallets db)\<rparr>) else Inl ConstraintFailed)"
  by (cases "bt_get (db_wallets db) a")
    (simp_all add: update_wallet_def ensure_wallet_def bt_contains_def bt_get_or_def bt_insert_insert)

subsection \<open>Escrows\<close>

definition insert_escrow ::
  "string \<Rightarrow> string \<Rightarrow> string \<Rightarrow> string \<Rightarrow> int \<Rightarrow> market_db \<Rightarrow> market_db stored" where
  "insert_escrow escrow_id contract_id depositor beneficiary amount db =
     (if bt_contains (db_escrows db) escrow_id \<or> \<not> bt_contains (db_contracts db) contract_id \<or>
         amount \<le> 0 \<or> depositor = beneficiary
      then Inl ConstraintFailed
      else Inr (db\<lparr>db_escrows := bt_insert escrow_id
        \<lparr>es_contract_id = contract_id, es_depositor = depositor, es_beneficiary = beneficiary,
         es_amount = amount, es_status = Held\<rparr> (db_escrows db)\<rparr>))"

definition create_escrow ::
  "string \<Rightarrow> string \<Rightarrow> string \<Rightarrow> string \<Rightarrow> int \<Rightarrow> market_db \<Rightarrow> unit stored \<times> market_db" where
  "create_escrow escrow_id contract_id depositor beneficiary amount db =
     (if amount \<le> 0 then (Inl (StorageMessage ''escrow amount must be positive''), db)
      else transaction (\<lambda>db.
        (case get_wallet depositor db of
           None \<Rightarrow> Inl (StorageMessage ''insufficient balance for escrow'')
         | Some w \<Rightarrow>
             if wl_balance w < amount then Inl (StorageMessage ''insufficient balance for escrow'')
             else
               and_then (update_wallet depositor
                 (\<lambda>w. w\<lparr>wl_balance := wl_balance w - amount, wl_escrowed := wl_escrowed w + amount\<rparr>)
                 db) (\<lambda>db.
               and_then (insert_escrow escrow_id contract_id depositor beneficiary amount db) (\<lambda>db.
               insert_transaction (Some depositor) None amount ''escrow_hold'' (Some contract_id) db)))) db)"

definition held_escrow :: "string \<Rightarrow> market_db \<Rightarrow> escrow_row stored" where
  "held_escrow escrow_id db =
     (case bt_get (db_escrows db) escrow_id of
        Some e \<Rightarrow> if es_status e = Held then Inr e else Inl NoRows
      | None \<Rightarrow> Inl NoRows)"

definition set_escrow_status :: "string \<Rightarrow> escrow_status \<Rightarrow> market_db \<Rightarrow> market_db" where
  "set_escrow_status escrow_id status db =
     db\<lparr>db_escrows := bt_modify escrow_id (\<lambda>e. e\<lparr>es_status := status\<rparr>) (db_escrows db)\<rparr>"

definition release_escrow :: "string \<Rightarrow> market_db \<Rightarrow> unit stored \<times> market_db" where
  "release_escrow escrow_id =
     transaction (\<lambda>db.
       and_then (held_escrow escrow_id db) (\<lambda>e.
       and_then (update_wallet (es_depositor e) (\<lambda>w. w\<lparr>wl_escrowed := wl_escrowed w - es_amount e\<rparr>) db) (\<lambda>db.
       and_then (update_wallet (es_beneficiary e)
         (\<lambda>w. w\<lparr>wl_balance := wl_balance w + es_amount e, wl_total_earned := wl_total_earned w + es_amount e\<rparr>)
         (ensure_wallet (es_beneficiary e) db)) (\<lambda>db.
       and_then (update_wallet (es_depositor e) (\<lambda>w. w\<lparr>wl_total_spent := wl_total_spent w + es_amount e\<rparr>) db) (\<lambda>db.
       insert_transaction (Some (es_depositor e)) (Some (es_beneficiary e)) (es_amount e)
         ''escrow_release'' (Some escrow_id) (set_escrow_status escrow_id Released db))))))"

definition refund_escrow :: "string \<Rightarrow> market_db \<Rightarrow> unit stored \<times> market_db" where
  "refund_escrow escrow_id =
     transaction (\<lambda>db.
       and_then (held_escrow escrow_id db) (\<lambda>e.
       and_then (update_wallet (es_depositor e)
         (\<lambda>w. w\<lparr>wl_balance := wl_balance w + es_amount e, wl_escrowed := wl_escrowed w - es_amount e\<rparr>)
         db) (\<lambda>db.
       insert_transaction None (Some (es_depositor e)) (es_amount e)
         ''escrow_refund'' (Some escrow_id) (set_escrow_status escrow_id Refunded db))))"

subsection \<open>Contracts, listings and reviews\<close>

definition CONTRACT_STATES :: "string list" where
  "CONTRACT_STATES = [''proposed'', ''accepted'', ''rejected'', ''in_progress'',
     ''completed'', ''disputed'', ''canceled'', ''resolved'']"

definition insert_contract ::
  "string \<Rightarrow> string \<Rightarrow> string \<Rightarrow> string \<Rightarrow> int \<Rightarrow> int option \<Rightarrow> string option \<Rightarrow> string option \<Rightarrow>
   string option \<Rightarrow> market_db \<Rightarrow> market_db stored" where
  "insert_contract cid hirer worker task_description agreed_price max_duration_secs escrow_id
       event_hash previous_hash db =
     (if bt_contains (db_contracts db) cid \<or> agreed_price \<le> 0 \<or> hirer = worker \<or>
         (case max_duration_secs of None \<Rightarrow> False | Some secs \<Rightarrow> secs \<le> 0)
      then Inl ConstraintFailed
      else Inr (db\<lparr>db_contracts := bt_insert cid
        \<lparr>ct_hirer_agent_id = hirer, ct_worker_agent_id = worker, ct_state = ''proposed'',
         ct_task_description = task_description, ct_agreed_price = agreed_price,
         ct_max_duration_secs = max_duration_secs, ct_delegation_id = None, ct_mesh_task_id = None,
         ct_escrow_id = escrow_id, ct_result = None, ct_event_hash = event_hash,
         ct_previous_hash = previous_hash\<rparr> (db_contracts db)\<rparr>))"

definition get_contract :: "string \<Rightarrow> market_db \<Rightarrow> contract_row option" where
  "get_contract cid db = bt_get (db_contracts db) cid"

definition coalesce :: "'a option \<Rightarrow> 'a option \<Rightarrow> 'a option" where
  "coalesce a b = (case a of None \<Rightarrow> b | Some _ \<Rightarrow> a)"

definition update_contract_state ::
  "string \<Rightarrow> string \<Rightarrow> string option \<Rightarrow> string option \<Rightarrow> string option \<Rightarrow> string option \<Rightarrow>
   string option \<Rightarrow> market_db \<Rightarrow> (bool \<times> market_db) stored" where
  "update_contract_state cid new_state delegation_id mesh_task_id result event_hash previous_hash db =
     (case bt_get (db_contracts db) cid of
        None \<Rightarrow> Inr (False, db)
      | Some c \<Rightarrow>
          if new_state \<in> set CONTRACT_STATES then
            Inr (True, db\<lparr>db_contracts := bt_insert cid
              (c\<lparr>ct_state := new_state,
                 ct_delegation_id := coalesce delegation_id (ct_delegation_id c),
                 ct_mesh_task_id := coalesce mesh_task_id (ct_mesh_task_id c),
                 ct_result := coalesce result (ct_result c),
                 ct_event_hash := coalesce event_hash (ct_event_hash c),
                 ct_previous_hash := coalesce previous_hash (ct_previous_hash c)\<rparr>)
              (db_contracts db)\<rparr>)
          else Inl ConstraintFailed)"

definition increment_completed :: "string \<Rightarrow> market_db \<Rightarrow> market_db" where
  "increment_completed agent db =
     db\<lparr>db_listings := bt_modify agent (\<lambda>l. l\<lparr>ls_total_completed := ls_total_completed l + 1\<rparr>)
       (db_listings db)\<rparr>"

definition increment_failed :: "string \<Rightarrow> market_db \<Rightarrow> market_db" where
  "increment_failed agent db =
     db\<lparr>db_listings := bt_modify agent (\<lambda>l. l\<lparr>ls_total_failed := ls_total_failed l + 1\<rparr>)
       (db_listings db)\<rparr>"

text \<open>\<open>avg\<close> is SQLite's average of a column of integers, as a double.\<close>

definition insert_review ::
  "(int list \<Rightarrow> f64) \<Rightarrow> string \<Rightarrow> string \<Rightarrow> string \<Rightarrow> int \<Rightarrow> string \<Rightarrow> market_db \<Rightarrow>
   unit stored \<times> market_db" where
  "insert_review avg contract_id reviewer reviewee rating comment =
     transaction (\<lambda>db.
       if \<not> bt_contains (db_contracts db) contract_id \<or> \<not> (1 \<le> rating \<and> rating \<le> 5) \<or>
          reviewer = reviewee \<or>
          list_ex (\<lambda>r. rv_contract_id r = contract_id \<and> rv_reviewer_agent_id r = reviewer) (db_reviews db)
       then Inl ConstraintFailed
       else
         let db = db\<lparr>db_reviews := db_reviews db @
               [\<lparr>rv_contract_id = contract_id, rv_reviewer_agent_id = reviewer,
                 rv_reviewee_agent_id = reviewee, rv_rating = rating, rv_comment = comment\<rparr>]\<rparr>;
             ratings = map rv_rating (filter (\<lambda>r. rv_reviewee_agent_id r = reviewee) (db_reviews db))
         in Inr (db\<lparr>db_listings := bt_modify reviewee
              (\<lambda>l. l\<lparr>ls_average_rating := avg ratings, ls_total_reviews := int (length ratings)\<rparr>)
              (db_listings db)\<rparr>))"

definition market_db_new :: market_db where
  "market_db_new =
     \<lparr>db_wallets = bt_new, db_escrows = bt_new, db_contracts = bt_new, db_transactions = [],
      db_listings = bt_new, db_reviews = []\<rparr>"

end
