(* ===== verification/Contracts.thy ===== *)
theory Contracts
  imports Market_Store
begin

section \<open>Hiring contracts and escrowed credits\<close>

text \<open>
  \<^verbatim>\<open>ghost-marketplace/src/contracts.rs\<close> and \<^verbatim>\<open>reviews.rs\<close>: the contract state machine, whose
  transitions move the credits held in escrow, on the tables of the theory \<open>Market_Store\<close>. The hex
  digest of a string is the argument \<open>hash\<close>; new identifiers are arguments too. A transition
  updates the contract first and moves the money in a second database transaction. The statements
  of the second never fail by themselves, as the theorems show; that the database fails in the
  first or in the second is an argument (\<open>db_fault\<close>).
\<close>

subsection \<open>States\<close>

datatype contract_state =
  Proposed | Accepted | Rejected | InProgress | Completed | Disputed | Canceled | Resolved

fun state_as_str :: "contract_state \<Rightarrow> string" where
  "state_as_str Proposed = ''proposed''"
| "state_as_str Accepted = ''accepted''"
| "state_as_str Rejected = ''rejected''"
| "state_as_str InProgress = ''in_progress''"
| "state_as_str Completed = ''completed''"
| "state_as_str Disputed = ''disputed''"
| "state_as_str Canceled = ''canceled''"
| "state_as_str Resolved = ''resolved''"

definition contract_can_transition_to :: "contract_state \<Rightarrow> contract_state \<Rightarrow> bool" where
  "contract_can_transition_to s t \<longleftrightarrow>
     (s, t) \<in> {(Proposed, Accepted), (Proposed, Rejected), (Proposed, Canceled),
       (Accepted, InProgress), (Accepted, Canceled), (InProgress, Completed),
       (InProgress, Disputed), (Disputed, Resolved)}"

definition state_from_str :: "string \<Rightarrow> contract_state option" where
  "state_from_str s =
     (if s = ''proposed'' then Some Proposed
      else if s = ''accepted'' then Some Accepted
      else if s = ''rejected'' then Some Rejected
      else if s = ''in_progress'' then Some InProgress
      else if s = ''completed'' then Some Completed
      else if s = ''disputed'' then Some Disputed
      else if s = ''canceled'' then Some Canceled
      else if s = ''resolved'' then Some Resolved
      else None)"

lemma state_str_round_trip [simp]: "state_from_str (state_as_str s) = Some s"
  by (cases s) (simp_all add: state_from_str_def)

lemma state_from_str_SomeD: "state_from_str s = Some t \<Longrightarrow> s = state_as_str t"
  by (auto simp: state_from_str_def split: if_splits)

lemma state_as_str_valid: "state_as_str s \<in> set CONTRACT_STATES"
  by (cases s) (simp_all add: CONTRACT_STATES_def)

lemma state_as_str_inject [simp]: "state_as_str s = state_as_str t \<longleftrightarrow> s = t"
  by (metis option.inject state_str_round_trip)

subsection \<open>Operations\<close>

datatype marketplace_error =
  Storage storage_error
| MarketNotFound string
| InvalidTransition string string
| InsufficientBalance int int
| Validation string

definition propose_contract ::
  "(string \<Rightarrow> string) \<Rightarrow> string \<Rightarrow> string \<Rightarrow> string \<Rightarrow> string \<Rightarrow> string \<Rightarrow> int \<Rightarrow> int option \<Rightarrow>
   market_db \<Rightarrow> (marketplace_error + string) \<times> market_db" where
  "propose_contract hash contract_id escrow_id hirer worker task_description agreed_price
       max_duration_secs db =
     (if agreed_price \<le> 0 then (Inl (Validation ''agreed_price must be positive''), db)
      else if hirer = worker then (Inl (Validation ''hirer and worker cannot be the same agent''), db)
      else if trim task_description = [] then
        (Inl (Validation ''task_description must not be empty''), db)
      else
        let event_hash = hash (''propose:'' @ contract_id @ '':'' @ hirer @ '':'' @ worker @ '':'' @
              show_int agreed_price)
        in case insert_contract contract_id hirer worker task_description agreed_price
             max_duration_secs (Some escrow_id) (Some event_hash) None db of
             Inl e \<Rightarrow> (Inl (Storage e), db)
           | Inr db \<Rightarrow>
               (case create_escrow escrow_id contract_id hirer worker agreed_price db of
                  (Inr _, db) \<Rightarrow> (Inr contract_id, db)
                | (Inl _, db) \<Rightarrow>
                    (Inl (InsufficientBalance agreed_price 0),
                     case update_contract_state contract_id ''rejected'' None None
                       (Some ''escrow creation failed'') None None db of
                       Inr (_, db) \<Rightarrow> db
                     | Inl _ \<Rightarrow> db)))"

definition lift_stored ::
  "unit stored \<times> market_db \<Rightarrow> (marketplace_error + unit) \<times> market_db" where
  "lift_stored r = (case r of (Inl e, db) \<Rightarrow> (Inl (Storage e), db) | (Inr u, db) \<Rightarrow> (Inr u, db))"

text \<open>
  A failure of the database during a transition: when the contract is updated, or afterwards, in the
  transaction that moves the money.
\<close>

datatype db_fault = NoFault | StateFault | MoneyFault

definition money_tx ::
  "db_fault \<Rightarrow> (market_db \<Rightarrow> unit stored \<times> market_db) \<Rightarrow> market_db \<Rightarrow> unit stored \<times> market_db" where
  "money_tx fault tx db =
     (if fault = MoneyFault then (Inl (StorageMessage ''database error''), db) else tx db)"

text \<open>The match on the target state at the end of \<^verbatim>\<open>transition_contract\<close>.\<close>

definition transition_effect ::
  "db_fault \<Rightarrow> contract_state \<Rightarrow> string option \<Rightarrow> contract_row \<Rightarrow> market_db \<Rightarrow>
   (marketplace_error + unit) \<times> market_db" where
  "transition_effect fault target result contract db =
     (case target of
        Completed \<Rightarrow>
          (case (case ct_escrow_id contract of
                   None \<Rightarrow> (Inr (), db)
                 | Some escrow_id \<Rightarrow> money_tx fault (release_escrow escrow_id) db) of
             (Inl e, db) \<Rightarrow> (Inl (Storage e), db)
           | (Inr _, db) \<Rightarrow> (Inr (), increment_completed (ct_worker_agent_id contract) db))
      | Rejected \<Rightarrow>
          lift_stored (case ct_escrow_id contract of None \<Rightarrow> (Inr (), db)
            | Some escrow_id \<Rightarrow> money_tx fault (refund_escrow escrow_id) db)
      | Canceled \<Rightarrow>
          lift_stored (case ct_escrow_id contract of None \<Rightarrow> (Inr (), db)
            | Some escrow_id \<Rightarrow> money_tx fault (refund_escrow escrow_id) db)
      | Disputed \<Rightarrow> (Inr (), increment_failed (ct_worker_agent_id contract) db)
      | Resolved \<Rightarrow>
          lift_stored (case ct_escrow_id contract of None \<Rightarrow> (Inr (), db)
            | Some escrow_id \<Rightarrow>
                if result = Some ''release_to_worker'' then money_tx fault (release_escrow escrow_id) db
                else money_tx fault (refund_escrow escrow_id) db)
      | _ \<Rightarrow> (Inr (), db))"

definition transition_contract ::
  "db_fault \<Rightarrow> (string \<Rightarrow> string) \<Rightarrow> string \<Rightarrow> contract_state \<Rightarrow> string option \<Rightarrow> market_db \<Rightarrow>
   (marketplace_error + unit) \<times> market_db" where
  "transition_contract fault hash contract_id target result db =
     (case get_contract contract_id db of
        None \<Rightarrow> (Inl (MarketNotFound (''contract '' @ contract_id)), db)
      | Some contract \<Rightarrow>
          (case state_from_str (ct_state contract) of
             None \<Rightarrow> (Inl (Validation (''unknown state: '' @ ct_state contract)), db)
           | Some current \<Rightarrow>
               if \<not> contract_can_transition_to current target then
                 (Inl (InvalidTransition (ct_state contract) (state_as_str target)), db)
               else if fault = StateFault then (Inl (Storage (StorageMessage ''database error'')), db)
               else
                 let event_hash = hash (''transition:'' @ contract_id @ '':'' @ state_as_str current @
                       '':'' @ state_as_str target @ '':'' @
                       (case result of None \<Rightarrow> [] | Some r \<Rightarrow> r))
                 in case update_contract_state contract_id (state_as_str target) None None result
                      (Some event_hash) (ct_event_hash contract) db of
                      Inl e \<Rightarrow> (Inl (Storage e), db)
                    | Inr (_, db) \<Rightarrow> transition_effect fault target result contract db))"

definition submit_review ::
  "(int list \<Rightarrow> f64) \<Rightarrow> string \<Rightarrow> string \<Rightarrow> string \<Rightarrow> int \<Rightarrow> string \<Rightarrow> market_db \<Rightarrow>
   (marketplace_error + unit) \<times> market_db" where
  "submit_review avg contract_id reviewer reviewee rating comment db =
     (if \<not> (1 \<le> rating \<and> rating \<le> 5) then (Inl (Validation ''rating must be between 1 and 5''), db)
      else case get_contract contract_id db of
        None \<Rightarrow> (Inl (MarketNotFound (''contract '' @ contract_id)), db)
      | Some contract \<Rightarrow>
          if ct_state contract \<noteq> ''completed'' \<and> ct_state contract \<noteq> ''resolved'' then
            (Inl (Validation ''can only review completed or resolved contracts''), db)
          else if ct_hirer_agent_id contract \<noteq> reviewer \<and> ct_worker_agent_id contract \<noteq> reviewer then
            (Inl (Validation ''reviewer must be a party to the contract''), db)
          else if reviewer = reviewee then (Inl (Validation ''cannot review yourself''), db)
          else if ct_hirer_agent_id contract \<noteq> reviewee \<and> ct_worker_agent_id contract \<noteq> reviewee then
            (Inl (Validation ''reviewee must be the other party in the contract''), db)
          else lift_stored (insert_review avg contract_id reviewer reviewee rating comment db))"

subsection \<open>What the database always satisfies\<close>

definition held_by :: "string \<Rightarrow> escrow_row \<Rightarrow> int" where
  "held_by a e = (if es_status e = Held \<and> es_depositor e = a then es_amount e else 0)"

definition open_state :: "string \<Rightarrow> bool" where
  "open_state s \<longleftrightarrow> s \<in> state_as_str ` {Proposed, Accepted, InProgress, Disputed}"

definition seeded :: "market_db \<Rightarrow> int" where
  "seeded db = sum_list (map tr_amount (filter (\<lambda>t. tr_tx_type t = ''seed'') (db_transactions db)))"

definition credits :: "market_db \<Rightarrow> int" where
  "credits db = bt_sum (\<lambda>w. wl_balance w + wl_escrowed w) (db_wallets db)"

definition wallets_ok :: "market_db \<Rightarrow> bool" where
  "wallets_ok db \<longleftrightarrow> (\<forall>a w. bt_get (db_wallets db) a = Some w \<longrightarrow>
     0 \<le> wl_balance w \<and> wl_escrowed w = bt_sum (held_by a) (db_escrows db))"

definition escrow_matches :: "string \<Rightarrow> escrow_row \<Rightarrow> contract_row \<Rightarrow> bool" where
  "escrow_matches k e c \<longleftrightarrow> ct_escrow_id c = Some k \<and> ct_hirer_agent_id c = es_depositor e \<and>
     ct_worker_agent_id c = es_beneficiary e \<and> ct_agreed_price c = es_amount e \<and>
     (open_state (ct_state c) \<longrightarrow> es_status e = Held)"

definition escrows_ok :: "market_db \<Rightarrow> bool" where
  "escrows_ok db \<longleftrightarrow> (\<forall>k e. bt_get (db_escrows db) k = Some e \<longrightarrow>
     0 < es_amount e \<and> es_depositor e \<noteq> es_beneficiary e \<and>
     bt_get (db_wallets db) (es_depositor e) \<noteq> None \<and>
     (\<exists>c. bt_get (db_contracts db) (es_contract_id e) = Some c \<and> escrow_matches k e c))"

definition contracts_ok :: "market_db \<Rightarrow> bool" where
  "contracts_ok db \<longleftrightarrow> (\<forall>i c. bt_get (db_contracts db) i = Some c \<longrightarrow>
     state_from_str (ct_state c) \<noteq> None \<and>
     (open_state (ct_state c) \<longrightarrow>
       (\<exists>k e. ct_escrow_id c = Some k \<and> bt_get (db_escrows db) k = Some e \<and> es_contract_id e = i)))"

definition market_ok :: "market_db \<Rightarrow> bool" where
  "market_ok db \<longleftrightarrow> wallets_ok db \<and> escrows_ok db \<and> contracts_ok db \<and> credits db = seeded db"

lemma market_okD:
  assumes "market_ok db"
  shows "wallets_ok db" "escrows_ok db" "contracts_ok db" "credits db = seeded db"
  using assms by (simp_all add: market_ok_def)

lemma escrow_contract:
  assumes "escrows_ok db" "bt_get (db_escrows db) k = Some e"
  obtains c where "bt_get (db_contracts db) (es_contract_id e) = Some c" "escrow_matches k e c"
  using assms by (auto simp: escrows_ok_def)

lemma contract_escrow:
  assumes "contracts_ok db" "bt_get (db_contracts db) i = Some c" "open_state (ct_state c)"
  obtains k e where "ct_escrow_id c = Some k" "bt_get (db_escrows db) k = Some e" "es_contract_id e = i"
  using assms unfolding contracts_ok_def by blast

lemma amounts_pos: "escrows_ok db \<Longrightarrow> bt_get (db_escrows db) k = Some e \<Longrightarrow> 0 \<le> held_by a e"
  by (fastforce simp: escrows_ok_def held_by_def)

lemma escrowed_nonneg:
  assumes "wallets_ok db" "escrows_ok db" "bt_get (db_wallets db) a = Some w"
  shows "0 \<le> wl_escrowed w"
  using assms bt_sum_nonneg [of "db_escrows db" "held_by a"] amounts_pos [OF assms(2)]
  by (auto simp: wallets_ok_def)

lemma held_le:
  assumes "wallets_ok db" "escrows_ok db" "bt_get (db_escrows db) k = Some e" "es_status e = Held"
    and "bt_get (db_wallets db) (es_depositor e) = Some w"
  shows "es_amount e \<le> wl_escrowed w"
proof -
  have "held_by (es_depositor e) e \<le> bt_sum (held_by (es_depositor e)) (db_escrows db)"
    using amounts_pos [OF assms(2)] by (intro bt_sum_member [OF assms(3)])
  then show ?thesis using assms(1,4,5) by (auto simp: wallets_ok_def held_by_def)
qed

lemma no_wallet_no_hold:
  assumes "market_ok db" "bt_get (db_wallets db) a = None"
  shows "bt_sum (held_by a) (db_escrows db) = 0"
proof -
  have "held_by a (the (bt_get (db_escrows db) k)) = 0" if "bt_get (db_escrows db) k \<noteq> None" for k
    using assms that by (fastforce simp: market_ok_def escrows_ok_def held_by_def)
  then show ?thesis by (auto simp: bt_sum_def intro: sum.neutral)
qed

lemma market_ok_frame [simp]:
  "market_ok (db\<lparr>db_listings := l\<rparr>) = market_ok db" "market_ok (db\<lparr>db_reviews := r\<rparr>) = market_ok db"
  by (simp_all add: market_ok_def wallets_ok_def escrows_ok_def contracts_ok_def credits_def seeded_def)

subsection \<open>Seeding\<close>

lemma seed_effect:
  assumes "market_ok db" "0 < amount"
  shows "seed_wallet a amount db = (Inr (),
    let w = bt_get_or wallet_default (db_wallets db) a in
    db\<lparr>db_wallets := bt_insert a (w\<lparr>wl_balance := wl_balance w + amount,
          wl_total_earned := wl_total_earned w + amount\<rparr>) (db_wallets db),
       db_transactions := db_transactions db @ [\<lparr>tr_from_agent = None, tr_to_agent = Some a,
          tr_amount = amount, tr_tx_type = ''seed'', tr_reference_id = Some ''alpha_seed''\<rparr>]\<rparr>)"
proof -
  let ?w = "bt_get_or wallet_default (db_wallets db) a"
  have "0 \<le> wl_balance ?w" "0 \<le> wl_escrowed ?w"
    using assms(1) escrowed_nonneg [of db a]
    by (auto simp: market_ok_def wallets_ok_def bt_get_or_def wallet_default_def split: option.splits)
  then show ?thesis using assms(2)
    by (simp add: seed_wallet_def transaction_def update_ensured insert_transaction_def Let_def)
qed

lemma seed_ok:
  assumes "market_ok db"
  shows "market_ok (snd (seed_wallet a amount db))"
proof (cases "0 < amount")
  case True
  note new = no_wallet_no_hold [OF assms, of a]
  show ?thesis
    unfolding seed_effect [OF assms True] using assms True new
    by (auto simp: market_ok_def wallets_ok_def escrows_ok_def contracts_ok_def credits_def seeded_def
        bt_sum_insert bt_get_or_def wallet_default_def Let_def split: option.splits)
qed (simp add: seed_wallet_def assms)

subsection \<open>Proposing\<close>

lemma create_escrow_cases:
  obtains e where "create_escrow k i dep ben amount db = (Inl e, db)"
  | w where "bt_get (db_wallets db) dep = Some w" "amount \<le> wl_balance w" "0 < amount"
    "bt_get (db_escrows db) k = None" "dep \<noteq> ben"
    "create_escrow k i dep ben amount db = (Inr (),
       db\<lparr>db_wallets := bt_insert dep (w\<lparr>wl_balance := wl_balance w - amount,
             wl_escrowed := wl_escrowed w + amount\<rparr>) (db_wallets db),
          db_escrows := bt_insert k \<lparr>es_contract_id = i, es_depositor = dep, es_beneficiary = ben,
             es_amount = amount, es_status = Held\<rparr> (db_escrows db),
          db_transactions := db_transactions db @ [\<lparr>tr_from_agent = Some dep, tr_to_agent = None,
             tr_amount = amount, tr_tx_type = ''escrow_hold'', tr_reference_id = Some i\<rparr>]\<rparr>)"
proof (cases "create_escrow k i dep ben amount db")
  case (Pair r db')
  show ?thesis
  proof (cases r)
    case (Inl e)
    then have "db' = db"
      using Pair by (auto simp: create_escrow_def transaction_def split: if_splits sum.splits)
    then show ?thesis using that(1) Pair Inl by simp
  next
    case (Inr u)
    then have pos: "0 < amount" and body: "(case get_wallet dep db of
        None \<Rightarrow> Inl (StorageMessage ''insufficient balance for escrow'')
      | Some w \<Rightarrow> if wl_balance w < amount then Inl (StorageMessage ''insufficient balance for escrow'')
          else and_then (update_wallet dep (\<lambda>w. w\<lparr>wl_balance := wl_balance w - amount,
              wl_escrowed := wl_escrowed w + amount\<rparr>) db) (\<lambda>db.
            and_then (insert_escrow k i dep ben amount db) (\<lambda>db.
            insert_transaction (Some dep) None amount ''escrow_hold'' (Some i) db))) = Inr db'"
      using Pair by (auto simp: create_escrow_def transaction_def split: if_splits sum.splits)
    from body obtain w where w: "bt_get (db_wallets db) dep = Some w" "amount \<le> wl_balance w"
      by (auto simp: get_wallet_def split: option.splits if_splits)
    with body pos have "0 \<le> wl_escrowed w + amount" "bt_get (db_escrows db) k = None" "dep \<noteq> ben"
      by (auto simp: get_wallet_def update_wallet_def insert_escrow_def bt_contains_def split: if_splits)
    with body pos w Pair Inr that(2) show ?thesis
      by (auto simp: get_wallet_def update_wallet_def insert_escrow_def insert_transaction_def
          bt_contains_def split: if_splits)
  qed
qed

lemma rejected_contract_ok:
  assumes "market_ok db" "bt_get (db_contracts db) i = None" "ct_state c = ''rejected''"
  shows "market_ok (db\<lparr>db_contracts := bt_insert i c (db_contracts db)\<rparr>)"
proof -
  have "state_from_str ''rejected'' = Some Rejected" "\<not> open_state ''rejected''"
    by (simp_all add: state_from_str_def open_state_def)
  then show ?thesis using assms
    by (fastforce simp: market_ok_def wallets_ok_def escrows_ok_def contracts_ok_def credits_def seeded_def)
qed

lemma escrowed_contract_ok:
  assumes "market_ok db" "bt_get (db_contracts db) i = None" "bt_get (db_escrows db) k = None"
    and "bt_get (db_wallets db) dep = Some w" "amount \<le> wl_balance w" "0 < amount" "dep \<noteq> ben"
    and "ct_state c = ''proposed''" "ct_escrow_id c = Some k" "ct_hirer_agent_id c = dep"
    "ct_worker_agent_id c = ben" "ct_agreed_price c = amount" "tr_tx_type t = ''escrow_hold''"
  shows "market_ok (db\<lparr>db_contracts := bt_insert i c (db_contracts db),
      db_wallets := bt_insert dep (w\<lparr>wl_balance := wl_balance w - amount,
        wl_escrowed := wl_escrowed w + amount\<rparr>) (db_wallets db),
      db_escrows := bt_insert k \<lparr>es_contract_id = i, es_depositor = dep, es_beneficiary = ben,
        es_amount = amount, es_status = Held\<rparr> (db_escrows db),
      db_transactions := db_transactions db @ [t]\<rparr>)"
    (is "market_ok ?db")
proof -
  have st: "state_from_str ''proposed'' = Some Proposed" "open_state ''proposed''"
    by (simp_all add: state_from_str_def open_state_def)
  have "wallets_ok ?db"
    using assms(1,3-7) by (auto simp: market_ok_def wallets_ok_def bt_sum_insert held_by_def)
  moreover have "escrows_ok ?db"
  proof -
    have "escrow_matches k \<lparr>es_contract_id = i, es_depositor = dep, es_beneficiary = ben,
        es_amount = amount, es_status = Held\<rparr> c"
      using assms(8-12) st by (simp add: escrow_matches_def)
    moreover have "es_contract_id e \<noteq> i" if "bt_get (db_escrows db) j = Some e" for j e
      using assms(1,2) that by (fastforce simp: market_ok_def escrows_ok_def)
    ultimately show ?thesis
      using assms(1,6,7) by (auto simp: market_ok_def escrows_ok_def)
  qed
  moreover have "contracts_ok ?db"
  proof -
    have "\<exists>j e. ct_escrow_id c' = Some j \<and> bt_get (db_escrows ?db) j = Some e \<and> es_contract_id e = i'"
      if "bt_get (db_contracts db) i' = Some c'" "open_state (ct_state c')" for i' c'
      using that assms(1,3) by (auto simp: market_ok_def contracts_ok_def)
        (metis option.distinct(1))
    then show ?thesis
      using assms(1,8,9) st by (auto simp: market_ok_def contracts_ok_def)
  qed
  moreover have "credits ?db = seeded ?db"
    using assms(1,4,13) by (simp add: market_ok_def credits_def seeded_def bt_sum_insert)
  ultimately show ?thesis by (simp add: market_ok_def)
qed

lemma propose_ok:
  assumes "market_ok db"
  shows "market_ok (snd (propose_contract hash i k hirer worker task price dur db))"
proof -
  let ?c = "\<lparr>ct_hirer_agent_id = hirer, ct_worker_agent_id = worker, ct_state = ''proposed'',
    ct_task_description = task, ct_agreed_price = price, ct_max_duration_secs = dur,
    ct_delegation_id = None, ct_mesh_task_id = None, ct_escrow_id = Some k, ct_result = None,
    ct_event_hash = Some (hash (''propose:'' @ i @ '':'' @ hirer @ '':'' @ worker @ '':'' @ show_int price)),
    ct_previous_hash = None\<rparr>"
  let ?db = "db\<lparr>db_contracts := bt_insert i ?c (db_contracts db)\<rparr>"
  consider "snd (propose_contract hash i k hirer worker task price dur db) = db"
    | "bt_get (db_contracts db) i = None"
      "propose_contract hash i k hirer worker task price dur db =
         (case create_escrow k i hirer worker price ?db of
            (Inr _, db) \<Rightarrow> (Inr i, db)
          | (Inl _, db) \<Rightarrow> (Inl (InsufficientBalance price 0),
               case update_contract_state i ''rejected'' None None (Some ''escrow creation failed'')
                 None None db of Inr (_, db) \<Rightarrow> db | Inl _ \<Rightarrow> db))"
  proof (cases "price \<le> 0 \<or> hirer = worker \<or> trim task = [] \<or> bt_contains (db_contracts db) i \<or>
      (case dur of None \<Rightarrow> False | Some secs \<Rightarrow> secs \<le> 0)")
    case True
    then have "snd (propose_contract hash i k hirer worker task price dur db) = db"
      by (auto simp: propose_contract_def insert_contract_def Let_def)
    then show ?thesis by (rule that(1))
  next
    case False
    then have "propose_contract hash i k hirer worker task price dur db =
         (case create_escrow k i hirer worker price ?db of
            (Inr _, db) \<Rightarrow> (Inr i, db)
          | (Inl _, db) \<Rightarrow> (Inl (InsufficientBalance price 0),
               case update_contract_state i ''rejected'' None None (Some ''escrow creation failed'')
                 None None db of Inr (_, db) \<Rightarrow> db | Inl _ \<Rightarrow> db))"
      by (simp only: propose_contract_def insert_contract_def Let_def if_False sum.case de_Morgan_disj
          not_False_eq_True simp_thms)
    then show ?thesis using that(2) False by (simp add: bt_contains_def)
  qed
  then show ?thesis
  proof cases
    case 2
    show ?thesis
    proof (cases rule: create_escrow_cases [of k i hirer worker price ?db])
      case (1 e)
      then show ?thesis
        using rejected_contract_ok [OF assms 2(1)]
        by (simp add: 2(2) update_contract_state_def CONTRACT_STATES_def bt_insert_insert)
    next
      case (2 w)
      show ?thesis
        using escrowed_contract_ok [OF assms \<open>bt_get (db_contracts db) i = None\<close>, of k hirer w price worker ?c]
          2 by (simp add: \<open>propose_contract _ _ _ _ _ _ _ _ _ = _\<close>)
    qed
  qed (simp add: assms)
qed

subsection \<open>Transitions\<close>

lemma open_contract:
  assumes "market_ok db" "bt_get (db_contracts db) i = Some c" "open_state (ct_state c)"
  obtains k e w where "ct_escrow_id c = Some k" "bt_get (db_escrows db) k = Some e"
    "es_contract_id e = i" "es_status e = Held" "escrow_matches k e c"
    "bt_get (db_wallets db) (es_depositor e) = Some w"
proof -
  obtain k e where ke: "ct_escrow_id c = Some k" "bt_get (db_escrows db) k = Some e"
    "es_contract_id e = i"
    by (rule contract_escrow [OF market_okD(3) [OF assms(1)] assms(2,3)])
  from ke(2) have "escrow_matches k e c"
    using escrow_contract [OF market_okD(2) [OF assms(1)], of k e] assms(2) ke(3) by auto
  moreover have "bt_get (db_wallets db) (es_depositor e) \<noteq> None"
    using ke(2) market_okD(2) [OF assms(1)] by (simp add: escrows_ok_def)
  moreover have "es_status e = Held" using calculation(1) assms(3) by (simp add: escrow_matches_def)
  ultimately show ?thesis using that ke by blast
qed

lemma bt_modify_present: "bt_get m k = Some v \<Longrightarrow> bt_modify k f m = bt_insert k (f v) m"
  by (simp add: bt_modify_def)

lemma refund_effect:
  assumes "bt_get (db_escrows db) k = Some e" "es_status e = Held" "0 < es_amount e"
    and "bt_get (db_wallets db) (es_depositor e) = Some w" "0 \<le> wl_balance w" "es_amount e \<le> wl_escrowed w"
  shows "refund_escrow k db = (Inr (), db\<lparr>
    db_wallets := bt_insert (es_depositor e) (w\<lparr>wl_balance := wl_balance w + es_amount e,
      wl_escrowed := wl_escrowed w - es_amount e\<rparr>) (db_wallets db),
    db_escrows := bt_insert k (e\<lparr>es_status := Refunded\<rparr>) (db_escrows db),
    db_transactions := db_transactions db @ [\<lparr>tr_from_agent = None, tr_to_agent = Some (es_depositor e),
      tr_amount = es_amount e, tr_tx_type = ''escrow_refund'', tr_reference_id = Some k\<rparr>]\<rparr>)"
  using assms
  by (simp add: refund_escrow_def transaction_def held_escrow_def update_wallet_def
      insert_transaction_def set_escrow_status_def bt_modify_present)

lemma release_effect:
  assumes "bt_get (db_escrows db) k = Some e" "es_status e = Held" "0 < es_amount e"
    and "es_depositor e \<noteq> es_beneficiary e"
    and "bt_get (db_wallets db) (es_depositor e) = Some w" "0 \<le> wl_balance w" "es_amount e \<le> wl_escrowed w"
    and "wb = bt_get_or wallet_default (db_wallets db) (es_beneficiary e)"
    and "0 \<le> wl_balance wb" "0 \<le> wl_escrowed wb"
  shows "release_escrow k db = (Inr (), db\<lparr>
    db_wallets := bt_insert (es_depositor e) (w\<lparr>wl_escrowed := wl_escrowed w - es_amount e,
        wl_total_spent := wl_total_spent w + es_amount e\<rparr>)
      (bt_insert (es_beneficiary e) (wb\<lparr>wl_balance := wl_balance wb + es_amount e,
        wl_total_earned := wl_total_earned wb + es_amount e\<rparr>) (db_wallets db)),
    db_escrows := bt_insert k (e\<lparr>es_status := Released\<rparr>) (db_escrows db),
    db_transactions := db_transactions db @ [\<lparr>tr_from_agent = Some (es_depositor e),
      tr_to_agent = Some (es_beneficiary e), tr_amount = es_amount e, tr_tx_type = ''escrow_release'',
      tr_reference_id = Some k\<rparr>]\<rparr>)"
proof -
  let ?dep = "es_depositor e" and ?ben = "es_beneficiary e"
  let ?w1 = "w\<lparr>wl_escrowed := wl_escrowed w - es_amount e\<rparr>"
  let ?wb = "wb\<lparr>wl_balance := wl_balance wb + es_amount e, wl_total_earned := wl_total_earned wb + es_amount e\<rparr>"
  have swap: "bt_insert ?dep v (bt_insert ?ben u (bt_insert ?dep v' m)) = bt_insert ?dep v (bt_insert ?ben u m)"
    for v u v' and m :: "(string, wallet_row) btree_map"
    using assms(4) by (intro bt_eqI) simp
  have "bt_get_or wallet_default (bt_insert ?dep ?w1 (db_wallets db)) ?ben = wb"
    using assms(4,8) by (simp add: bt_get_or_def)
  then show ?thesis
    using assms
    by (simp add: release_escrow_def transaction_def held_escrow_def update_wallet_def [of ?dep]
        update_ensured insert_transaction_def set_escrow_status_def bt_modify_present swap Let_def)
qed

lemma settled_ok:
  assumes ok: "market_ok db" and c: "bt_get (db_contracts db) i = Some c" "open_state (ct_state c)"
    and e: "ct_escrow_id c = Some k" "bt_get (db_escrows db) k = Some e" "es_contract_id e = i"
    and c': "ct_escrow_id c' = ct_escrow_id c" "ct_hirer_agent_id c' = ct_hirer_agent_id c"
      "ct_worker_agent_id c' = ct_worker_agent_id c" "ct_agreed_price c' = ct_agreed_price c"
      "state_from_str (ct_state c') \<noteq> None" "\<not> open_state (ct_state c')"
    and st: "st \<noteq> Held" and t: "tr_tx_type t \<noteq> ''seed''"
    and W: "\<And>a w'. bt_get W a = Some w' \<Longrightarrow> 0 \<le> wl_balance w' \<and>
        wl_escrowed w' = (case bt_get (db_wallets db) a of Some w \<Rightarrow> wl_escrowed w | None \<Rightarrow> 0) -
          (if a = es_depositor e then es_amount e else 0)"
      "\<And>a. bt_get (db_wallets db) a \<noteq> None \<Longrightarrow> bt_get W a \<noteq> None"
      "bt_sum (\<lambda>w. wl_balance w + wl_escrowed w) W = credits db"
  shows "market_ok (db\<lparr>db_contracts := bt_insert i c' (db_contracts db), db_wallets := W,
    db_escrows := bt_insert k (e\<lparr>es_status := st\<rparr>) (db_escrows db),
    db_transactions := db_transactions db @ [t]\<rparr>)"
    (is "market_ok ?db")
proof -
  have m: "escrow_matches k e c" "es_status e = Held"
    by (rule open_contract [OF ok c], use e in simp)+
  have "bt_sum (held_by a) (db_escrows ?db) =
      bt_sum (held_by a) (db_escrows db) - (if a = es_depositor e then es_amount e else 0)" for a
    using e(2) m(2) st by (simp add: bt_sum_insert held_by_def)
  moreover have "bt_sum (held_by a) (db_escrows db) =
      (case bt_get (db_wallets db) a of Some w \<Rightarrow> wl_escrowed w | None \<Rightarrow> 0)" for a
    using market_okD(1) [OF ok] no_wallet_no_hold [OF ok]
    by (simp add: wallets_ok_def split: option.splits)
  ultimately have "wallets_ok ?db" using W(1) by (simp add: wallets_ok_def)
  moreover have "escrows_ok ?db"
  proof -
    have "escrow_matches k (e\<lparr>es_status := st\<rparr>) c'"
      using m(1) c' st by (simp add: escrow_matches_def)
    moreover have "es_contract_id f \<noteq> i" if other: "bt_get (db_escrows db) j = Some f" "j \<noteq> k" for j f
    proof -
      obtain d where "bt_get (db_contracts db) (es_contract_id f) = Some d" "escrow_matches j f d"
        by (rule escrow_contract [OF market_okD(2) [OF ok] other(1)])
      then show ?thesis using c(1) e(1) other(2) by (auto simp: escrow_matches_def)
    qed
    ultimately show ?thesis
      using ok e W(2) by (auto simp: market_ok_def escrows_ok_def)
  qed
  moreover have "contracts_ok ?db"
  proof -
    have "\<exists>j f. ct_escrow_id d = Some j \<and> bt_get (db_escrows ?db) j = Some f \<and> es_contract_id f = i'"
      if d: "bt_get (db_contracts db) i' = Some d" "open_state (ct_state d)" for i' d
    proof -
      obtain j f where j: "ct_escrow_id d = Some j" "bt_get (db_escrows db) j = Some f" "es_contract_id f = i'"
        by (rule contract_escrow [OF market_okD(3) [OF ok] d])
      then show ?thesis using e(2) by (cases "j = k") auto
    qed
    then show ?thesis using market_okD(3) [OF ok] c' by (auto simp: contracts_ok_def)
  qed
  moreover have "credits ?db = seeded ?db"
    using ok W(3) t by (simp add: market_ok_def credits_def seeded_def)
  ultimately show ?thesis by (simp add: market_ok_def)
qed

text \<open>The contract row after an accepted transition.\<close>

definition moved :: "(string \<Rightarrow> string) \<Rightarrow> string \<Rightarrow> contract_state \<Rightarrow> contract_state \<Rightarrow> string option \<Rightarrow>
    contract_row \<Rightarrow> contract_row" where
  "moved hash i s t result c = c\<lparr>ct_state := state_as_str t, ct_result := coalesce result (ct_result c),
     ct_event_hash := Some (hash (''transition:'' @ i @ '':'' @ state_as_str s @ '':'' @ state_as_str t @
       '':'' @ (case result of None \<Rightarrow> [] | Some r \<Rightarrow> r))),
     ct_previous_hash := coalesce (ct_event_hash c) (ct_previous_hash c)\<rparr>"

lemma coalesce_simps [simp]: "coalesce None b = b" "coalesce (Some a) b = Some a"
  by (simp_all add: coalesce_def)

lemma moved_simps [simp]:
  "ct_state (moved hash i s t r c) = state_as_str t" "ct_escrow_id (moved hash i s t r c) = ct_escrow_id c"
  "ct_hirer_agent_id (moved hash i s t r c) = ct_hirer_agent_id c"
  "ct_worker_agent_id (moved hash i s t r c) = ct_worker_agent_id c"
  "ct_agreed_price (moved hash i s t r c) = ct_agreed_price c"
  by (simp_all add: moved_def)

lemma transition_moves:
  assumes "bt_get (db_contracts db) i = Some c" "ct_state c = state_as_str s"
    and "contract_can_transition_to s t" "fault \<noteq> StateFault"
  shows "transition_contract fault hash i t result db =
    transition_effect fault t result c (db\<lparr>db_contracts := bt_insert i (moved hash i s t result c) (db_contracts db)\<rparr>)"
  using assms
  by (simp add: transition_contract_def get_contract_def update_contract_state_def state_as_str_valid
      Let_def moved_def)

lemma open_state_str [simp]: "open_state (state_as_str s) \<longleftrightarrow> s \<in> {Proposed, Accepted, InProgress, Disputed}"
  unfolding open_state_def by (metis (no_types) image_iff state_as_str_inject)

lemma contract_moved_ok:
  assumes ok: "market_ok db" and c: "bt_get (db_contracts db) i = Some c" "open_state (ct_state c)"
    and c': "ct_escrow_id c' = ct_escrow_id c" "ct_hirer_agent_id c' = ct_hirer_agent_id c"
      "ct_worker_agent_id c' = ct_worker_agent_id c" "ct_agreed_price c' = ct_agreed_price c"
      "state_from_str (ct_state c') \<noteq> None"
  shows "market_ok (db\<lparr>db_contracts := bt_insert i c' (db_contracts db)\<rparr>)" (is "market_ok ?db")
proof -
  have "escrow_matches k e c \<Longrightarrow> escrow_matches k e c'" for k e
    using c c' by (simp add: escrow_matches_def)
  then have "escrows_ok ?db"
    using market_okD(2) [OF ok] c(1) unfolding escrows_ok_def by fastforce
  moreover have "contracts_ok ?db"
    using market_okD(3) [OF ok] c c' by (simp add: contracts_ok_def)
  ultimately show ?thesis
    using ok by (simp add: market_ok_def wallets_ok_def credits_def seeded_def)
qed

text \<open>Whatever closes an open contract settles its escrow, one way or the other.\<close>

lemma settle:
  assumes ok: "market_ok db" and c: "bt_get (db_contracts db) i = Some c" "open_state (ct_state c)"
    and k: "ct_escrow_id c = Some k"
    and c': "ct_escrow_id c' = ct_escrow_id c" "ct_hirer_agent_id c' = ct_hirer_agent_id c"
      "ct_worker_agent_id c' = ct_worker_agent_id c" "ct_agreed_price c' = ct_agreed_price c"
      "state_from_str (ct_state c') \<noteq> None" "\<not> open_state (ct_state c')"
  shows "\<exists>db'. refund_escrow k (db\<lparr>db_contracts := bt_insert i c' (db_contracts db)\<rparr>) = (Inr (), db') \<and> market_ok db'"
    and "\<exists>db'. release_escrow k (db\<lparr>db_contracts := bt_insert i c' (db_contracts db)\<rparr>) = (Inr (), db') \<and> market_ok db'"
proof -
  let ?db = "db\<lparr>db_contracts := bt_insert i c' (db_contracts db)\<rparr>"
  obtain e w where e: "bt_get (db_escrows db) k = Some e" "es_contract_id e = i" "es_status e = Held"
    and w: "bt_get (db_wallets db) (es_depositor e) = Some w"
    using open_contract [OF ok c] k by (metis option.inject)
  let ?wb = "bt_get_or wallet_default (db_wallets db) (es_beneficiary e)"
  have e0: "0 < es_amount e" "es_depositor e \<noteq> es_beneficiary e"
    using market_okD(2) [OF ok] e(1) by (auto simp: escrows_ok_def)
  have bal: "0 \<le> wl_balance v" "0 \<le> wl_escrowed v" if "bt_get (db_wallets db) a = Some v" for a v
    using market_okD(1) [OF ok] escrowed_nonneg [OF market_okD(1,2) [OF ok] that] that
    by (auto simp: wallets_ok_def)
  have wb: "0 \<le> wl_balance ?wb" "0 \<le> wl_escrowed ?wb"
    using bal by (auto simp: bt_get_or_def wallet_default_def split: option.splits)
  have le: "es_amount e \<le> wl_escrowed w" by (rule held_le [OF market_okD(1,2) [OF ok] e(1,3) w])
  note settled = settled_ok [OF ok c k e(1,2) c']
  have cr: "bt_sum (\<lambda>w. wl_balance w + wl_escrowed w) (db_wallets db) = credits db" by (simp add: credits_def)
  have refund: "market_ok (?db\<lparr>
      db_wallets := bt_insert (es_depositor e) (w\<lparr>wl_balance := wl_balance w + es_amount e,
        wl_escrowed := wl_escrowed w - es_amount e\<rparr>) (db_wallets db),
      db_escrows := bt_insert k (e\<lparr>es_status := Refunded\<rparr>) (db_escrows db),
      db_transactions := db_transactions db @ [\<lparr>tr_from_agent = None, tr_to_agent = Some (es_depositor e),
        tr_amount = es_amount e, tr_tx_type = ''escrow_refund'', tr_reference_id = Some k\<rparr>]\<rparr>)"
    by (rule settled) (use w e0 bal in \<open>auto simp: bt_sum_insert cr split: if_splits\<close>)
  have release: "market_ok (?db\<lparr>
      db_wallets := bt_insert (es_depositor e) (w\<lparr>wl_escrowed := wl_escrowed w - es_amount e,
          wl_total_spent := wl_total_spent w + es_amount e\<rparr>)
        (bt_insert (es_beneficiary e) (?wb\<lparr>wl_balance := wl_balance ?wb + es_amount e,
          wl_total_earned := wl_total_earned ?wb + es_amount e\<rparr>) (db_wallets db)),
      db_escrows := bt_insert k (e\<lparr>es_status := Released\<rparr>) (db_escrows db),
      db_transactions := db_transactions db @ [\<lparr>tr_from_agent = Some (es_depositor e),
        tr_to_agent = Some (es_beneficiary e), tr_amount = es_amount e, tr_tx_type = ''escrow_release'',
        tr_reference_id = Some k\<rparr>]\<rparr>)"
    by (rule settled) (use w e0 bal wb in \<open>auto simp: bt_sum_insert cr bt_get_or_def wallet_default_def
      split: if_splits option.splits\<close>)
  show "\<exists>db'. refund_escrow k ?db = (Inr (), db') \<and> market_ok db'"
    using refund_effect [of ?db k e w] refund e(1,3) w e0(1) le bal(1) [OF w] by simp
  show "\<exists>db'. release_escrow k ?db = (Inr (), db') \<and> market_ok db'"
    using release_effect [of ?db k e w ?wb] release e(1,3) w e0 le bal(1) [OF w] wb by simp
qed

text \<open>What settling an open contract does to the wallets.\<close>

definition balance_of :: "market_db \<Rightarrow> string \<Rightarrow> int" where
  "balance_of db a = (case get_wallet a db of None \<Rightarrow> 0 | Some w \<Rightarrow> wl_balance w)"

definition escrowed_of :: "market_db \<Rightarrow> string \<Rightarrow> int" where
  "escrowed_of db a = (case get_wallet a db of None \<Rightarrow> 0 | Some w \<Rightarrow> wl_escrowed w)"

lemma settle_wallets:
  assumes ok: "market_ok db" and c: "bt_get (db_contracts db) i = Some c" "open_state (ct_state c)"
    and k: "ct_escrow_id c = Some k"
  shows "\<exists>db'. refund_escrow k (db\<lparr>db_contracts := C\<rparr>) = (Inr (), db') \<and>
      balance_of db' a = balance_of db a + (if a = ct_hirer_agent_id c then ct_agreed_price c else 0) \<and>
      escrowed_of db' a = escrowed_of db a - (if a = ct_hirer_agent_id c then ct_agreed_price c else 0)"
    (is ?refund)
    and "\<exists>db'. release_escrow k (db\<lparr>db_contracts := C\<rparr>) = (Inr (), db') \<and>
      balance_of db' a = balance_of db a + (if a = ct_worker_agent_id c then ct_agreed_price c else 0) \<and>
      escrowed_of db' a = escrowed_of db a - (if a = ct_hirer_agent_id c then ct_agreed_price c else 0)"
    (is ?release)
proof -
  obtain e w where e: "bt_get (db_escrows db) k = Some e" "es_status e = Held" "escrow_matches k e c"
    and w: "bt_get (db_wallets db) (es_depositor e) = Some w"
    using open_contract [OF ok c] k by (metis option.inject)
  let ?wb = "bt_get_or wallet_default (db_wallets db) (es_beneficiary e)"
  have e0: "0 < es_amount e" "es_depositor e \<noteq> es_beneficiary e"
    using market_okD(2) [OF ok] e(1) by (auto simp: escrows_ok_def)
  have bal: "0 \<le> wl_balance v" "0 \<le> wl_escrowed v" if "bt_get (db_wallets db) b = Some v" for b v
    using market_okD(1) [OF ok] escrowed_nonneg [OF market_okD(1,2) [OF ok] that] that
    by (auto simp: wallets_ok_def)
  have wb: "0 \<le> wl_balance ?wb" "0 \<le> wl_escrowed ?wb"
    using bal by (auto simp: bt_get_or_def wallet_default_def split: option.splits)
  have le: "es_amount e \<le> wl_escrowed w" by (rule held_le [OF market_okD(1,2) [OF ok] e(1,2) w])
  have c': "ct_hirer_agent_id c = es_depositor e" "ct_worker_agent_id c = es_beneficiary e"
    "ct_agreed_price c = es_amount e" using e(3) by (simp_all add: escrow_matches_def)
  show ?refund
    using refund_effect [of "db\<lparr>db_contracts := C\<rparr>" k e w] e(1,2) w e0(1) le bal(1) [OF w]
    by (simp add: balance_of_def escrowed_of_def get_wallet_def c')
  show ?release
    using release_effect [of "db\<lparr>db_contracts := C\<rparr>" k e w ?wb] e(1,2) w e0 le bal(1) [OF w] wb
    by (auto simp: balance_of_def escrowed_of_def get_wallet_def c' bt_get_or_def wallet_default_def
        split: option.splits)
qed

lemma legal_transition:
  assumes "market_ok db" "bt_get (db_contracts db) i = Some c" "ct_state c = state_as_str s"
    and "contract_can_transition_to s t" "fault \<noteq> StateFault"
  shows "\<exists>db'. transition_contract fault hash i t result db =
      ((if fault = MoneyFault \<and> t \<in> {Rejected, Canceled, Completed, Resolved}
        then Inl (Storage (StorageMessage ''database error'')) else Inr ()), db') \<and> market_ok db'"
proof -
  let ?c = "moved hash i s t result c"
  have op: "open_state (ct_state c)" using assms(3,4) by (auto simp: contract_can_transition_to_def)
  obtain k where k: "ct_escrow_id c = Some k" using open_contract [OF assms(1,2) op] by metis
  have fields: "ct_escrow_id ?c = ct_escrow_id c" "ct_hirer_agent_id ?c = ct_hirer_agent_id c"
    "ct_worker_agent_id ?c = ct_worker_agent_id c" "ct_agreed_price ?c = ct_agreed_price c"
    "state_from_str (ct_state ?c) \<noteq> None" by simp_all
  have t: "t \<noteq> Proposed" using assms(4) by (auto simp: contract_can_transition_to_def)
  note moved_ok = contract_moved_ok [OF assms(1,2) op fields]
  show ?thesis
  proof (cases "open_state (ct_state ?c)")
    case True
    then show ?thesis
      using moved_ok t
      by (auto simp: transition_moves [OF assms(2-5)] transition_effect_def increment_failed_def)
  next
    case False
    obtain d1 d2 where "refund_escrow k (db\<lparr>db_contracts := bt_insert i ?c (db_contracts db)\<rparr>) = (Inr (), d1)"
      "release_escrow k (db\<lparr>db_contracts := bt_insert i ?c (db_contracts db)\<rparr>) = (Inr (), d2)"
      "market_ok d1" "market_ok d2"
      using settle [OF assms(1,2) op k fields False] by blast
    moreover from False have "t \<notin> {Proposed, Accepted, InProgress, Disputed}" by simp
    then have "t \<in> {Rejected, Completed, Canceled, Resolved}" by (cases t) simp_all
    ultimately show ?thesis
      using moved_ok
      by (auto simp: transition_moves [OF assms(2-5)] transition_effect_def lift_stored_def k money_tx_def
          increment_completed_def)
  qed
qed

lemma illegal_transition:
  assumes "fault = StateFault \<or> \<not> (\<exists>c s. bt_get (db_contracts db) i = Some c \<and> state_from_str (ct_state c) = Some s \<and>
    contract_can_transition_to s t)"
  shows "isl (fst (transition_contract fault hash i t result db)) \<and>
    snd (transition_contract fault hash i t result db) = db"
  using assms by (auto simp: transition_contract_def get_contract_def split: option.splits)

lemma transition_ok: "market_ok db \<Longrightarrow> market_ok (snd (transition_contract fault hash i t result db))"
  using legal_transition [of db i _ _ t fault hash result] illegal_transition [of fault db i t hash result]
    state_from_str_SomeD by (metis snd_conv)

lemma review_ok: "market_ok db \<Longrightarrow> market_ok (snd (submit_review avg i a b rating comment db))"
  by (auto simp: submit_review_def insert_review_def lift_stored_def transaction_def Let_def
      split: option.splits)

subsection \<open>Sequences of operations\<close>

datatype mk_op =
  MkSeed string int
| MkPropose string string string string string int "int option"
| MkTransition db_fault string contract_state "string option"
| MkReview string string string int string

fun mk_step :: "(string \<Rightarrow> string) \<Rightarrow> (int list \<Rightarrow> f64) \<Rightarrow> market_db \<Rightarrow> mk_op \<Rightarrow> market_db" where
  "mk_step hash avg db (MkSeed a n) = snd (seed_wallet a n db)"
| "mk_step hash avg db (MkPropose i k h w task price dur) =
     snd (propose_contract hash i k h w task price dur db)"
| "mk_step hash avg db (MkTransition fault i t r) = snd (transition_contract fault hash i t r db)"
| "mk_step hash avg db (MkReview i a b rating comment) = snd (submit_review avg i a b rating comment db)"

fun op_seed :: "mk_op \<Rightarrow> int" where
  "op_seed (MkSeed a n) = max 0 n"
| "op_seed _ = 0"

interpretation market: invariant_steps "mk_step hash avg" market_ok for hash avg
proof unfold_locales
  fix db op assume "market_ok db"
  then show "market_ok (mk_step hash avg db op)"
    by (cases op) (simp_all add: seed_ok propose_ok transition_ok review_ok)
qed

lemma market_ok_new: "market_ok market_db_new"
  by (simp add: market_ok_def market_db_new_def wallets_ok_def escrows_ok_def contracts_ok_def
      credits_def seeded_def)

text \<open>Only seeding writes seed transactions.\<close>

lemma transaction_frame:
  "(\<And>db'. body db = Inr db' \<Longrightarrow> v db' = v db) \<Longrightarrow> v (snd (transaction body db)) = v db"
  by (auto simp: transaction_def split: sum.splits)

lemma and_then_elim:
  "and_then r f = Inr db' \<Longrightarrow> (\<And>x. r = Inr x \<Longrightarrow> f x = Inr db' \<Longrightarrow> P) \<Longrightarrow> P"
  by (cases r) auto

lemma seeded_updates:
  "update_wallet a f db = Inr db' \<Longrightarrow> seeded db' = seeded db"
  "insert_escrow k i dep ben n db = Inr db' \<Longrightarrow> seeded db' = seeded db"
  "insert_transaction fr to n ty ref db = Inr db' \<Longrightarrow> ty \<noteq> ''seed'' \<Longrightarrow> seeded db' = seeded db"
  "seeded (ensure_wallet a db) = seeded db" "seeded (set_escrow_status k st db) = seeded db"
  by (auto simp: update_wallet_def insert_escrow_def insert_transaction_def ensure_wallet_def
      set_escrow_status_def seeded_def split: option.splits if_splits)

lemma seeded_escrow_ops:
  "seeded (snd (create_escrow k i dep ben n db)) = seeded db"
  "seeded (snd (refund_escrow k db)) = seeded db" "seeded (snd (release_escrow k db)) = seeded db"
  by (auto simp: create_escrow_def refund_escrow_def release_escrow_def
      intro!: transaction_frame elim!: and_then_elim split: option.splits if_splits)
    (auto dest!: seeded_updates(1-3) simp: seeded_updates(4,5))

lemma contracts_updates:
  "update_wallet a f db = Inr db' \<Longrightarrow> db_contracts db' = db_contracts db"
  "insert_transaction fr to n ty ref db = Inr db' \<Longrightarrow> db_contracts db' = db_contracts db"
  "db_contracts (ensure_wallet a db) = db_contracts db"
  "db_contracts (set_escrow_status k st db) = db_contracts db"
  by (auto simp: update_wallet_def insert_transaction_def ensure_wallet_def
      set_escrow_status_def split: option.splits if_splits)

lemma contracts_settle:
  "db_contracts (snd (refund_escrow k db)) = db_contracts db"
  "db_contracts (snd (release_escrow k db)) = db_contracts db"
  by (auto simp: refund_escrow_def release_escrow_def intro!: transaction_frame elim!: and_then_elim)
    (auto dest!: contracts_updates(1,2) simp: contracts_updates(3,4))

lemma contracts_effect: "db_contracts (snd (transition_effect fault t result c db)) = db_contracts db"
proof -
  have "db_contracts db' = db_contracts db" if "refund_escrow k db = (r, db') \<or> release_escrow k db = (r, db')"
    for k r db'
    using contracts_settle [of k db] that by auto
  then show ?thesis
    by (cases t) (fastforce simp: transition_effect_def lift_stored_def increment_completed_def money_tx_def
        increment_failed_def split: option.splits sum.splits prod.splits if_splits)+
qed

lemma seeded_results:
  "create_escrow k i dep ben n db = (r, db') \<Longrightarrow> seeded db' = seeded db"
  "refund_escrow k db = (r, db') \<Longrightarrow> seeded db' = seeded db"
  "release_escrow k db = (r, db') \<Longrightarrow> seeded db' = seeded db"
  "insert_contract i h w task price dur k' eh ph db = Inr db' \<Longrightarrow> seeded db' = seeded db"
  "update_contract_state i st del mesh res eh ph db = Inr (b, db') \<Longrightarrow> seeded db' = seeded db"
  using seeded_escrow_ops(1) [of k i dep ben n db] seeded_escrow_ops(2,3) [of k db]
  by (auto simp: insert_contract_def update_contract_state_def seeded_def split: if_splits option.splits)

lemma seeded_propose:
  "propose_contract hash i k h w task price dur db = (r, db') \<Longrightarrow> seeded db' = seeded db"
  unfolding propose_contract_def Let_def
  by (auto dest!: seeded_results split: sum.splits prod.splits if_splits)

lemma seeded_effect: "transition_effect fault t result c db = (r, db') \<Longrightarrow> seeded db' = seeded db"
proof -
  have "seeded (increment_completed a d) = seeded d" "seeded (increment_failed a d) = seeded d" for a d
    by (simp_all add: increment_completed_def increment_failed_def seeded_def)
  then show "transition_effect fault t result c db = (r, db') \<Longrightarrow> seeded db' = seeded db"
    unfolding transition_effect_def lift_stored_def money_tx_def
    by (cases t) (auto dest!: seeded_results split: sum.splits prod.splits if_splits option.splits)
qed

lemma seeded_transition:
  "transition_contract fault hash i t result db = (r, db') \<Longrightarrow> seeded db' = seeded db"
  unfolding transition_contract_def Let_def
  by (auto dest!: seeded_results seeded_effect split: sum.splits prod.splits if_splits option.splits)

lemma seeded_step:
  assumes "market_ok db"
  shows "seeded (mk_step hash avg db op) = seeded db + op_seed op"
proof (cases op)
  case (MkSeed a n)
  then show ?thesis using seed_effect [OF assms, of n a]
    by (cases "0 < n") (simp_all add: seeded_def Let_def seed_wallet_def)
next
  case (MkPropose i k h w task price dur)
  then show ?thesis using seeded_propose [OF prod.collapse [symmetric]] by simp
next
  case (MkTransition fault i t r)
  then show ?thesis using seeded_transition [OF prod.collapse [symmetric]] by simp
next
  case (MkReview i a b rating comment)
  then show ?thesis
    by (auto simp: submit_review_def insert_review_def lift_stored_def transaction_def Let_def
        seeded_def split: option.splits)
qed

subsection \<open>Properties\<close>

text \<open>
  The columns hold 64-bit integers, and \<^verbatim>\<open>balance + ?2\<close> becomes a floating-point number in SQLite
  beyond that range. A history is in range when it seeds at most the largest 64-bit integer in
  total; the theorems below are about such histories, and show that every balance and every
  escrowed amount then stays in range, at the end and after every prefix.
\<close>

definition I64_MAX :: int where
  "I64_MAX = 2 ^ 63 - 1"

definition seeds_in_range :: "mk_op list \<Rightarrow> bool" where
  "seeds_in_range ops \<longleftrightarrow> sum_list (map op_seed ops) \<le> I64_MAX"

lemma op_seed_nonneg [simp]: "0 \<le> op_seed op"
  by (cases op) simp_all

lemma seeds_in_range_prefix: "seeds_in_range (xs @ ys) \<Longrightarrow> seeds_in_range xs"
proof -
  have "0 \<le> sum_list (map op_seed ys)" by (rule sum_list_nonneg) auto
  then show "seeds_in_range (xs @ ys) \<Longrightarrow> seeds_in_range xs" by (simp add: seeds_in_range_def)
qed

lemma market_run_ok: "market_ok (foldl (mk_step hash avg) market_db_new ops)"
  by (rule market.inv_run [OF market_ok_new])

lemma market_run_seeded: "seeded (foldl (mk_step hash avg) market_db_new ops) = sum_list (map op_seed ops)"
proof (induction ops rule: rev_induct)
  case (snoc x xs)
  then show ?case using seeded_step [OF market_run_ok] by simp
qed (simp add: seeded_def market_db_new_def)

lemma wallet_within:
  assumes "market_ok db" "get_wallet a db = Some w"
  shows "0 \<le> wl_balance w" "0 \<le> wl_escrowed w" "wl_balance w + wl_escrowed w \<le> seeded db"
proof -
  note ok = market_okD [OF assms(1)]
  have pos: "0 \<le> wl_balance v" "0 \<le> wl_escrowed v" if "bt_get (db_wallets db) b = Some v" for b v
    using that ok(1) escrowed_nonneg [OF ok(1,2) that] by (auto simp: wallets_ok_def)
  have "wl_balance w + wl_escrowed w \<le> credits db"
    unfolding credits_def using assms(2) pos
    by (intro bt_sum_member [where f = "\<lambda>w. wl_balance w + wl_escrowed w" and k = a])
      (auto simp: get_wallet_def intro: add_nonneg_nonneg)
  then show "wl_balance w + wl_escrowed w \<le> seeded db" using ok(4) by simp
  show "0 \<le> wl_balance w" "0 \<le> wl_escrowed w" using pos assms(2) by (auto simp: get_wallet_def)
qed

text \<open>
  C11. Credits are conserved: after any sequence of seedings, proposals, transitions (failed ones
  included) and reviews from an empty database that seeds no more than the largest 64-bit integer in
  total, the credits in all wallets, available and escrowed, are exactly what was seeded; no balance
  is negative, what a wallet shows as escrowed is exactly what its held escrows hold, and the two
  together fit a 64-bit integer, so no balance the statements compute leaves the integer range.
\<close>

theorem credits_conserved:
  assumes "seeds_in_range ops"
  shows "let db = foldl (mk_step hash avg) market_db_new ops; total = sum_list (map op_seed ops) in
   credits db = total \<and>
   (case get_wallet a db of None \<Rightarrow> True
    | Some w \<Rightarrow> 0 \<le> wl_balance w \<and> wl_escrowed w = bt_sum (held_by a) (db_escrows db) \<and>
        wl_balance w + wl_escrowed w \<le> total \<and> wl_balance w + wl_escrowed w \<le> I64_MAX)"
proof -
  let ?db = "foldl (mk_step hash avg) market_db_new ops"
  have "credits ?db = sum_list (map op_seed ops)" using market_okD(4) [OF market_run_ok] market_run_seeded by simp
  moreover have "0 \<le> wl_balance w \<and> wl_escrowed w = bt_sum (held_by a) (db_escrows ?db) \<and>
      wl_balance w + wl_escrowed w \<le> sum_list (map op_seed ops)" if "get_wallet a ?db = Some w" for w
    using wallet_within [OF market_run_ok that] market_okD(1) [OF market_run_ok, of hash avg ops] that
    by (auto simp: market_run_seeded wallets_ok_def get_wallet_def)
  ultimately show ?thesis
    using assms by (auto simp: Let_def seeds_in_range_def split: option.splits)
qed

text \<open>The contract that a request moves, when the state machine allows it.\<close>

definition legal_move :: "string \<Rightarrow> contract_state \<Rightarrow> market_db \<Rightarrow> contract_row option" where
  "legal_move i t db =
     (case get_contract i db of
        None \<Rightarrow> None
      | Some c \<Rightarrow>
          (case state_from_str (ct_state c) of
             None \<Rightarrow> None
           | Some s \<Rightarrow> if contract_can_transition_to s t then Some c else None))"

text \<open>Who is paid when a contract closes.\<close>

definition payee :: "contract_state \<Rightarrow> string option \<Rightarrow> contract_row \<Rightarrow> string option" where
  "payee t result c =
     (if t = Completed \<or> t = Resolved \<and> result = Some ''release_to_worker'' then Some (ct_worker_agent_id c)
      else if t \<in> {Rejected, Canceled, Resolved} then Some (ct_hirer_agent_id c)
      else None)"

lemma legal_moveE:
  assumes "legal_move i t db = Some c"
  obtains s where "bt_get (db_contracts db) i = Some c" "ct_state c = state_as_str s"
    "contract_can_transition_to s t"
  using assms state_from_str_SomeD
  by (auto simp: legal_move_def get_contract_def split: option.splits if_splits)

lemma legal_move_None:
  "legal_move i t db = None \<Longrightarrow> isl (fst (transition_contract fault hash i t result db)) \<and>
     snd (transition_contract fault hash i t result db) = db"
  by (rule illegal_transition)
    (auto simp: legal_move_def get_contract_def split: option.splits if_splits)

lemma wallet_frames [simp]:
  "balance_of (increment_completed b x) y = balance_of x y"
  "escrowed_of (increment_completed b x) y = escrowed_of x y"
  "balance_of (increment_failed b x) y = balance_of x y"
  "escrowed_of (increment_failed b x) y = escrowed_of x y"
  "balance_of (x\<lparr>db_contracts := C\<rparr>) y = balance_of x y"
  "escrowed_of (x\<lparr>db_contracts := C\<rparr>) y = escrowed_of x y"
  by (simp_all add: balance_of_def escrowed_of_def get_wallet_def increment_completed_def
      increment_failed_def)

text \<open>The money an allowed transition moves, for any agent.\<close>

lemma transition_money:
  assumes ok: "market_ok db" and "legal_move i t db = Some c" "fault \<noteq> StateFault"
  shows "let db' = snd (transition_contract fault hash i t result db);
      moves = payee t result c \<noteq> None \<and> fault \<noteq> MoneyFault
    in balance_of db' a = balance_of db a + (if moves \<and> payee t result c = Some a then ct_agreed_price c else 0) \<and>
       escrowed_of db' a = escrowed_of db a - (if moves \<and> a = ct_hirer_agent_id c then ct_agreed_price c else 0)"
proof -
  obtain s where c: "bt_get (db_contracts db) i = Some c" "ct_state c = state_as_str s"
    and s: "contract_can_transition_to s t"
    by (rule legal_moveE [OF assms(2)])
  have op: "open_state (ct_state c)" using c(2) s by (auto simp: contract_can_transition_to_def)
  obtain k where k: "ct_escrow_id c = Some k" using open_contract [OF ok c(1) op] by metis
  let ?C = "bt_insert i (moved hash i s t result c) (db_contracts db)"
  obtain d1 d2 where d: "refund_escrow k (db\<lparr>db_contracts := ?C\<rparr>) = (Inr (), d1)"
    "release_escrow k (db\<lparr>db_contracts := ?C\<rparr>) = (Inr (), d2)"
    "balance_of d1 a = balance_of db a + (if a = ct_hirer_agent_id c then ct_agreed_price c else 0)"
    "escrowed_of d1 a = escrowed_of db a - (if a = ct_hirer_agent_id c then ct_agreed_price c else 0)"
    "balance_of d2 a = balance_of db a + (if a = ct_worker_agent_id c then ct_agreed_price c else 0)"
    "escrowed_of d2 a = escrowed_of db a - (if a = ct_hirer_agent_id c then ct_agreed_price c else 0)"
    using settle_wallets [OF ok c(1) op k, of ?C a] by blast
  show ?thesis
    unfolding transition_moves [OF c s assms(3)]
    by (cases t) (use d in \<open>auto simp: transition_effect_def lift_stored_def k money_tx_def payee_def\<close>)
qed

text \<open>
  C20. A transition does exactly this, in every database the marketplace reaches in range, failed
  transitions included. When the contract does not exist, the state machine forbids the move or the
  database fails to update the contract, it reports an error and changes nothing. Otherwise the
  contract is in the new state, and the money moves exactly when the new state closes the contract
  and the database does not fail in the second transaction: the agreed price leaves the hirer's
  escrow and is added to the balance of one agent, the worker if the work was completed or the
  dispute resolved in the worker's favour, the hirer otherwise; no other balance and no other
  escrowed amount changes, and no balance leaves the 64-bit range. An error is reported then exactly
  when that second transaction fails, and the contract has moved all the same.
\<close>

theorem transition_exact:
  assumes "seeds_in_range ops" "db = foldl (mk_step hash avg) market_db_new ops"
  shows "let (r, db') = transition_contract fault hash i t result db in
    case legal_move i t db of
      None \<Rightarrow> isl r \<and> db' = db
    | Some c \<Rightarrow>
        if fault = StateFault then isl r \<and> db' = db
        else
          let pays = payee t result c \<noteq> None \<and> fault \<noteq> MoneyFault in
          (\<exists>c'. get_contract i db' = Some c' \<and> ct_state c' = state_as_str t) \<and>
          isl r = (payee t result c \<noteq> None \<and> fault = MoneyFault) \<and>
          balance_of db' a = balance_of db a + (if pays \<and> payee t result c = Some a then ct_agreed_price c else 0) \<and>
          escrowed_of db' a = escrowed_of db a - (if pays \<and> a = ct_hirer_agent_id c then ct_agreed_price c else 0) \<and>
          0 \<le> balance_of db' a \<and> 0 \<le> escrowed_of db' a \<and> balance_of db' a + escrowed_of db' a \<le> I64_MAX"
proof (cases "legal_move i t db")
  case None
  then show ?thesis using legal_move_None [of i t db fault hash result] by (simp add: case_prod_beta)
next
  case (Some c)
  have ok: "market_ok db" unfolding assms(2) by (rule market_run_ok)
  obtain s where c: "bt_get (db_contracts db) i = Some c" "ct_state c = state_as_str s"
    and s: "contract_can_transition_to s t"
    by (rule legal_moveE [OF Some])
  show ?thesis
  proof (cases "fault = StateFault")
    case True
    then show ?thesis using Some illegal_transition [of fault db i t hash result] by (simp add: case_prod_beta)
  next
    case False
    let ?r = "transition_contract fault hash i t result db"
    have err: "isl (fst ?r) = (payee t result c \<noteq> None \<and> fault = MoneyFault)"
      using legal_transition [OF ok c s False, of hash result] by (cases t) (auto simp: payee_def split: if_splits)
    have st: "\<exists>c'. get_contract i (snd ?r) = Some c' \<and> ct_state c' = state_as_str t"
      by (simp add: transition_moves [OF c s False] contracts_effect get_contract_def)
    have run: "snd ?r = foldl (mk_step hash avg) market_db_new (ops @ [MkTransition fault i t result])"
      by (simp add: assms(2))
    have "seeded (snd ?r) \<le> I64_MAX"
      using assms(1) market_run_seeded [of hash avg "ops @ [MkTransition fault i t result]"]
      by (simp only: run) (simp add: seeds_in_range_def)
    then have "0 \<le> balance_of (snd ?r) a \<and> 0 \<le> escrowed_of (snd ?r) a \<and>
        balance_of (snd ?r) a + escrowed_of (snd ?r) a \<le> I64_MAX"
      using wallet_within [OF transition_ok [OF ok, of fault hash i t result], of a]
      by (fastforce simp: balance_of_def escrowed_of_def I64_MAX_def split: option.splits)
    then show ?thesis
      using False Some err st transition_money [OF ok Some False, of hash result a]
      by (simp add: case_prod_beta Let_def)
  qed
qed

definition sample_market :: "mk_op list" where
  "sample_market = [MkSeed ''h'' 100, MkPropose ''c'' ''e'' ''h'' ''w'' ''task'' 40 None,
     MkTransition StateFault ''c'' Accepted None, MkTransition NoFault ''c'' Accepted None,
     MkTransition NoFault ''c'' InProgress None]"

abbreviation sample_market_db :: market_db where
  "sample_market_db \<equiv> foldl (mk_step (\<lambda>_. []) (\<lambda>_. Finite 0)) market_db_new sample_market"

lemma sample_market_in_range: "seeds_in_range sample_market"
  by (simp add: seeds_in_range_def sample_market_def I64_MAX_def)

lemma sample_market_contract:
  "\<exists>c. legal_move ''c'' Completed sample_market_db = Some c \<and> ct_hirer_agent_id c = ''h'' \<and>
     ct_worker_agent_id c = ''w'' \<and> ct_agreed_price c = 40"
  by (simp add: sample_market_def market_db_new_def seed_wallet_def transaction_def ensure_wallet_def
      bt_get_or_def wallet_default_def insert_transaction_def Let_def propose_contract_def trim_def
      trim_matches_def is_ascii_whitespace_def insert_contract_def bt_contains_def create_escrow_def
      get_wallet_def update_wallet_def insert_escrow_def transition_contract_def get_contract_def
      state_from_str_def contract_can_transition_to_def update_contract_state_def CONTRACT_STATES_def
      transition_effect_def legal_move_def)

theorem credits_conserved_witness: "credits sample_market_db = 100"
  using credits_conserved [OF sample_market_in_range, of "\<lambda>_. []" "\<lambda>_. Finite 0"]
  by (simp add: Let_def sample_market_def)

theorem transition_exact_witness:
  "balance_of (snd (transition_contract NoFault (\<lambda>_. []) ''c'' Completed None sample_market_db)) ''w'' =
     balance_of sample_market_db ''w'' + 40 \<and>
   isl (fst (transition_contract MoneyFault (\<lambda>_. []) ''c'' Completed None sample_market_db))"
proof -
  obtain c where c: "legal_move ''c'' Completed sample_market_db = Some c"
    "ct_worker_agent_id c = ''w''" "ct_agreed_price c = 40"
    using sample_market_contract by auto
  note exact = transition_exact [OF sample_market_in_range refl, where i = "''c''" and t = Completed
      and result = None and a = "''w''"]
  show ?thesis
    using exact [of NoFault "\<lambda>_. []" "\<lambda>_. Finite 0"] exact [of MoneyFault "\<lambda>_. []" "\<lambda>_. Finite 0"] c
    by (simp add: case_prod_beta Let_def payee_def)
qed

end
