(* ===== verification/Credit_Ledger.thy ===== *)
theory Credit_Ledger
  imports Contracts
begin

section \<open>The credit ledger\<close>

text \<open>
  \<^verbatim>\<open>ghost-marketplace/src/credits.rs\<close>: the ledger that offers the wallets as a mesh payment
  provider (the trait \<^verbatim>\<open>IMeshProvider\<close> of \<^verbatim>\<open>ghost-mesh/src/traits.rs\<close>). Its lock is not poisoned.
  Amounts are unsigned 64-bit words on this side and signed ones in the tables.
\<close>

datatype mesh_payment_error =
  NotImplemented string
| NotImplementedStorage storage_error
| InsufficientFunds u64 u64
| MeshNotFound string
| PolicyViolation string
| EscrowExpired uuid
| DisputeAlreadyActive uuid

record mesh_escrow =
  me_id :: uuid
  me_transaction_id :: uuid
  me_depositor :: string
  me_beneficiary :: string
  me_amount :: u64
  me_currency :: string
  me_created_at :: datetime

record mesh_receipt =
  mr_id :: uuid
  mr_transaction_id :: uuid
  mr_amount :: u64
  mr_currency :: string
  mr_issued_at :: datetime

record mesh_wallet =
  mw_agent_id :: string
  mw_currency :: string
  mw_balance :: u64

definition as_i64 :: "u64 \<Rightarrow> int" where
  "as_i64 n = (if uint n < 2 ^ 63 then uint n else uint n - 2 ^ 64)"

definition ledger_seed :: "string \<Rightarrow> int \<Rightarrow> market_db \<Rightarrow> (mesh_payment_error + unit) \<times> market_db" where
  "ledger_seed agent amount db =
     (case seed_wallet agent amount db of
        (Inl e, db) \<Rightarrow> (Inl (NotImplementedStorage e), db)
      | (Inr u, db) \<Rightarrow> (Inr u, db))"

definition ledger_balance :: "string \<Rightarrow> market_db \<Rightarrow> mesh_payment_error + (int \<times> int)" where
  "ledger_balance agent db =
     (case get_wallet agent db of
        None \<Rightarrow> Inl (MeshNotFound (''wallet for '' @ agent))
      | Some w \<Rightarrow> Inr (wl_balance w, wl_escrowed w))"

definition check_balance :: "string \<Rightarrow> market_db \<Rightarrow> mesh_payment_error + mesh_wallet" where
  "check_balance agent db =
     (case get_wallet agent db of
        None \<Rightarrow> Inl (MeshNotFound (''wallet for '' @ agent))
      | Some w \<Rightarrow> Inr \<lparr>mw_agent_id = agent, mw_currency = ''credits'',
            mw_balance = word_of_int (wl_balance w)\<rparr>)"

definition is_insufficient :: "storage_error \<Rightarrow> bool" where
  "is_insufficient e = (case e of StorageMessage m \<Rightarrow> contains m ''insufficient'' | _ \<Rightarrow> False)"

definition ledger_escrow ::
  "(uuid \<Rightarrow> string) \<Rightarrow> uuid \<Rightarrow> datetime \<Rightarrow> uuid \<Rightarrow> string \<Rightarrow> string \<Rightarrow> u64 \<Rightarrow> market_db \<Rightarrow>
   (mesh_payment_error + mesh_escrow) \<times> market_db" where
  "ledger_escrow to_str escrow_id now transaction_id depositor beneficiary amount db =
     (case create_escrow (to_str escrow_id) (to_str escrow_id) depositor beneficiary (as_i64 amount) db of
        (Inl e, db) \<Rightarrow>
          (Inl (if is_insufficient e then InsufficientFunds amount 0 else NotImplementedStorage e), db)
      | (Inr _, db) \<Rightarrow>
          (Inr \<lparr>me_id = escrow_id, me_transaction_id = transaction_id, me_depositor = depositor,
             me_beneficiary = beneficiary, me_amount = amount, me_currency = ''credits'',
             me_created_at = now\<rparr>, db))"

definition ledger_release_escrow ::
  "(uuid \<Rightarrow> string) \<Rightarrow> uuid \<Rightarrow> datetime \<Rightarrow> uuid \<Rightarrow> market_db \<Rightarrow>
   (mesh_payment_error + mesh_receipt) \<times> market_db" where
  "ledger_release_escrow to_str receipt_id now escrow_id db =
     (case release_escrow (to_str escrow_id) db of
        (Inl e, db) \<Rightarrow> (Inl (NotImplementedStorage e), db)
      | (Inr _, db) \<Rightarrow>
          (Inr \<lparr>mr_id = receipt_id, mr_transaction_id = escrow_id, mr_amount = 0,
             mr_currency = ''credits'', mr_issued_at = now\<rparr>, db))"

subsection \<open>Properties\<close>

lemma balance_round_trip:
  assumes "get_wallet a (foldl (mk_step hash avg) market_db_new ops) = Some w"
    and "wl_balance w < 2 ^ 63"
  shows "map_sum id (\<lambda>v. as_i64 (mw_balance v)) (check_balance a (foldl (mk_step hash avg) market_db_new ops)) =
    Inr (wl_balance w)"
proof -
  have "market_ok (foldl (mk_step hash avg) market_db_new ops)" by (rule market.inv_run [OF market_ok_new])
  then have "0 \<le> wl_balance w"
    using assms(1) by (auto simp: market_ok_def wallets_ok_def get_wallet_def)
  then show ?thesis
    using assms by (simp add: check_balance_def as_i64_def unsigned_of_int take_bit_int_eq_self)
qed

text \<open>
  A standalone escrow cannot be created: the ledger files it under its own identifier as the
  contract, which the schema's reference to the contracts table forbids, so for an identifier
  that is not a contract's the call fails for every amount and every balance, and changes nothing.
\<close>

theorem standalone_escrow_fails:
  assumes "get_contract (to_str escrow_id) db = None"
  shows "isl (fst (ledger_escrow to_str escrow_id now tid depositor beneficiary amount db)) \<and>
    snd (ledger_escrow to_str escrow_id now tid depositor beneficiary amount db) = db"
proof -
  have "\<exists>e. create_escrow (to_str escrow_id) (to_str escrow_id) depositor beneficiary (as_i64 amount) db = (Inl e, db)"
    using assms
    by (auto simp: create_escrow_def transaction_def get_wallet_def update_wallet_def insert_escrow_def
        get_contract_def bt_contains_def and_then_def split: option.splits sum.splits)
  then show ?thesis by (auto simp: ledger_escrow_def)
qed

theorem standalone_escrow_fails_witness:
  "isl (fst (ledger_escrow (\<lambda>_. ''e'') 6 0 1 ''h'' ''w'' 40
     (foldl (mk_step (\<lambda>_. []) (\<lambda>_. Finite 0)) market_db_new [MkSeed ''h'' 100])))"
proof -
  have "get_contract ''e'' (foldl (mk_step (\<lambda>_. []) (\<lambda>_. Finite 0)) market_db_new [MkSeed ''h'' 100]) = None"
    by (simp add: market_db_new_def seed_wallet_def transaction_def update_ensured insert_transaction_def
        bt_get_or_def wallet_default_def get_contract_def Let_def)
  from standalone_escrow_fails [of "\<lambda>_. ''e''", OF this] show ?thesis by simp
qed

end
