(* ===== verification/Fallback.thy ===== *)
theory Fallback
  imports Breakers
begin

section \<open>The provider fallback chain\<close>

text \<open>
  \<^verbatim>\<open>FallbackChain\<close> of \<^verbatim>\<open>ghost-llm/src/fallback.rs\<close>: completion with a list of providers, each behind
  its circuit breaker (theory \<open>Breakers\<close>), with rotation of credentials, backoff and a total
  budget. The providers are outside: the outcome and the latency of the \<open>n\<close>-th call, and the random
  jitter drawn after it for a base delay, are functions in the environment. The world is the
  monotonic clock and the calls made so far, each with the provider's position and the credentials
  in force.
\<close>

datatype llm_error =
  AuthFailed string
| LlmRateLimited u64
| Unavailable string
| InvalidResponse string
| LlmTimeout u64
| ContextWindowExceeded nat nat
| OtherError string

record auth_profile =
  ap_api_key :: string
  ap_org_id :: "string option"

record fallback_provider =
  fp_profiles :: "auth_profile list"
  fp_breaker :: provider_circuit_breaker
  fp_auth :: "auth_profile option"

record fallback_chain =
  fc_providers :: "fallback_provider list"
  fc_total_retry_budget :: duration

definition fallback_new :: fallback_chain where
  "fallback_new = \<lparr>fc_providers = [], fc_total_retry_budget = from_secs 30\<rparr>"

definition add_provider :: "auth_profile option \<Rightarrow> auth_profile list \<Rightarrow> fallback_chain \<Rightarrow> fallback_chain" where
  "add_provider auth profiles fc =
     fc\<lparr>fc_providers := fc_providers fc @
       [\<lparr>fp_profiles = profiles, fp_breaker = provider_breaker_new 3 (from_secs 300), fp_auth = auth\<rparr>]\<rparr>"

record 'r llm_env =
  le_outcome :: "nat \<Rightarrow> llm_error + 'r"
  le_latency :: "nat \<Rightarrow> duration"
  le_jitter :: "nat \<Rightarrow> int \<Rightarrow> int"

record llm_world =
  lw_clock :: instant
  lw_calls :: "(nat \<times> auth_profile option) list"

fun rotates_auth :: "llm_error \<Rightarrow> bool" where
  "rotates_auth (AuthFailed _) = True"
| "rotates_auth (LlmRateLimited _) = True"
| "rotates_auth _ = False"

definition backoffs :: "int list" where
  "backoffs = [1, 2, 4, 8]"

text \<open>\<open>jitter\<close> is drawn from the range of a quarter of the base delay, both ends included.\<close>

definition sleep_ms :: "(int \<Rightarrow> int) \<Rightarrow> int \<Rightarrow> nat" where
  "sleep_ms jitter delay_secs =
     (let base_ms = delay_secs * 1000;
          jitter_range = base_ms div 4;
          j = (if jitter_range > 0 then jitter jitter_range else 0)
      in nat (max (base_ms + j) 100))"

fun attempt_loop ::
  "'r llm_env \<Rightarrow> instant \<Rightarrow> duration \<Rightarrow> nat \<Rightarrow> (nat \<times> int) list \<Rightarrow> nat \<Rightarrow> fallback_provider \<Rightarrow> llm_world \<Rightarrow>
   'r option \<times> fallback_provider \<times> llm_world" where
  "attempt_loop env start budget p [] profile_index pr w = (None, pr, w)"
| "attempt_loop env start budget p ((attempt, delay_secs) # rest) profile_index pr w =
     (if elapsed (lw_clock w) start \<ge> budget then (None, pr, w)
      else
        let n = length (lw_calls w);
            w = w\<lparr>lw_calls := lw_calls w @ [(p, fp_auth pr)], lw_clock := lw_clock w + le_latency env n\<rparr>
        in case le_outcome env n of
             Inr result \<Rightarrow> (Some result, pr\<lparr>fp_breaker := provider_record_success (fp_breaker pr)\<rparr>, w)
           | Inl e \<Rightarrow>
               (let rotated = rotates_auth e \<and> fp_profiles pr \<noteq> [];
                    profile_index = (if rotated then (profile_index + 1) mod length (fp_profiles pr)
                                     else profile_index);
                    pr = (if rotated then pr\<lparr>fp_auth := Some (fp_profiles pr ! profile_index)\<rparr> else pr);
                    pr = pr\<lparr>fp_breaker := provider_record_failure (lw_clock w) (fp_breaker pr)\<rparr>
                in if rotated \<and> attempt > 0 \<and> profile_index = 0 then (None, pr, w)
                   else if attempt < length backoffs - 1 then
                     attempt_loop env start budget p rest profile_index pr
                       (w\<lparr>lw_clock := lw_clock w + from_millis (sleep_ms (le_jitter env n) delay_secs)\<rparr>)
                   else attempt_loop env start budget p rest profile_index pr w))"

declare attempt_loop.simps(2) [simp del]

fun provider_loop ::
  "'r llm_env \<Rightarrow> instant \<Rightarrow> duration \<Rightarrow> nat \<Rightarrow> fallback_provider list \<Rightarrow> llm_world \<Rightarrow>
   'r option \<times> fallback_provider list \<times> llm_world" where
  "provider_loop env start budget p [] w = (None, [], w)"
| "provider_loop env start budget p (pr # prs) w =
     (if elapsed (lw_clock w) start \<ge> budget then (None, pr # prs, w)
      else
        let (ok, cb) = can_attempt (lw_clock w) (fp_breaker pr);
            pr = pr\<lparr>fp_breaker := cb\<rparr>
        in if \<not> ok then
             (let (r, prs, w) = provider_loop env start budget (Suc p) prs w in (r, pr # prs, w))
           else
             (let pr = (if fp_profiles pr \<noteq> [] then pr\<lparr>fp_auth := Some (fp_profiles pr ! 0)\<rparr> else pr);
                  (r, pr, w) = attempt_loop env start budget p (enumerate 0 backoffs) 0 pr w
              in case r of
                   Some result \<Rightarrow> (Some result, pr # prs, w)
                 | None \<Rightarrow>
                     (let (r, prs, w) = provider_loop env start budget (Suc p) prs w
                      in (r, pr # prs, w))))"

definition complete ::
  "'r llm_env \<Rightarrow> fallback_chain \<Rightarrow> llm_world \<Rightarrow> (llm_error + 'r) \<times> fallback_chain \<times> llm_world" where
  "complete env fc w =
     (case provider_loop env (lw_clock w) (fc_total_retry_budget fc) 0 (fc_providers fc) w of
        (Some result, prs, w) \<Rightarrow> (Inr result, fc\<lparr>fc_providers := prs\<rparr>, w)
      | (None, prs, w) \<Rightarrow>
          (Inl (Unavailable ''all providers exhausted within retry budget''),
           fc\<lparr>fc_providers := prs\<rparr>, w))"

text \<open>\<^verbatim>\<open>current_pricing\<close>: the position of the provider whose prices apply, if any.\<close>

fun current_pricing :: "fallback_provider list \<Rightarrow> 'p \<Rightarrow> (nat \<Rightarrow> 'p) \<Rightarrow> nat \<Rightarrow> 'p" where
  "current_pricing [] zero pricing p = zero"
| "current_pricing (pr # prs) zero pricing p =
     (if pb_state (fp_breaker pr) \<noteq> CBOpen then pricing p else current_pricing prs zero pricing (Suc p))"

subsection \<open>Calls and their outcomes\<close>

text \<open>The calls numbered from \<open>m\<close> to \<open>n\<close> all failed, except that the last one gave \<open>r\<close> if there is one.\<close>

definition calls_explain :: "'r llm_env \<Rightarrow> nat \<Rightarrow> nat \<Rightarrow> 'r option \<Rightarrow> bool" where
  "calls_explain env m n r \<longleftrightarrow>
     (case r of None \<Rightarrow> m \<le> n \<and> (\<forall>k. m \<le> k \<and> k < n \<longrightarrow> isl (le_outcome env k))
      | Some x \<Rightarrow> m < n \<and> le_outcome env (n - 1) = Inr x \<and>
          (\<forall>k. m \<le> k \<and> k < n - 1 \<longrightarrow> isl (le_outcome env k)))"

lemma calls_explain_step:
  "isl (le_outcome env m) \<Longrightarrow> calls_explain env (Suc m) n r \<Longrightarrow> calls_explain env m n r"
  by (auto simp: calls_explain_def le_less Suc_le_eq split: option.splits)
    (metis Suc_leI le_less)+

lemma calls_explain_trans:
  "calls_explain env m n None \<Longrightarrow> calls_explain env n k r \<Longrightarrow> calls_explain env m k r"
  by (auto simp: calls_explain_def split: option.splits) (metis leI)+

definition called :: "'r llm_env \<Rightarrow> nat \<Rightarrow> fallback_provider \<Rightarrow> llm_world \<Rightarrow> llm_world" where
  "called env p pr w = w\<lparr>lw_calls := lw_calls w @ [(p, fp_auth pr)],
     lw_clock := lw_clock w + le_latency env (length (lw_calls w))\<rparr>"

lemma attempt_cases:
  fixes env :: "'r llm_env"
  obtains (out) "budget \<le> elapsed (lw_clock w) start"
      "attempt_loop env start budget p ((a, d) # rest) idx pr w = (None, pr, w)"
  | (succ) x pr' where "elapsed (lw_clock w) start < budget" "le_outcome env (length (lw_calls w)) = Inr x"
      "attempt_loop env start budget p ((a, d) # rest) idx pr w = (Some x, pr', called env p pr w)"
  | (stop) pr' where "elapsed (lw_clock w) start < budget" "isl (le_outcome env (length (lw_calls w)))"
      "attempt_loop env start budget p ((a, d) # rest) idx pr w = (None, pr', called env p pr w)"
  | (cont) idx' pr' w' where "elapsed (lw_clock w) start < budget"
      "isl (le_outcome env (length (lw_calls w)))"
      "attempt_loop env start budget p ((a, d) # rest) idx pr w =
         attempt_loop env start budget p rest idx' pr' w'"
      "lw_calls w' = lw_calls (called env p pr w)"
      "lw_clock w' = lw_clock (called env p pr w) + (if a < length backoffs - 1
         then from_millis (sleep_ms (le_jitter env (length (lw_calls w))) d) else 0)"
proof (cases "budget \<le> elapsed (lw_clock w) start")
  case True
  then show ?thesis using out by (simp add: attempt_loop.simps(2))
next
  case in_budget: False
  show ?thesis
  proof (cases "le_outcome env (length (lw_calls w))")
    case (Inr x)
    then show ?thesis using in_budget succ by (simp add: called_def attempt_loop.simps(2))
  next
    case (Inl e)
    let ?rot = "rotates_auth e \<and> fp_profiles pr \<noteq> []"
    let ?idx = "if ?rot then (idx + 1) mod length (fp_profiles pr) else idx"
    let ?pr = "if ?rot then pr\<lparr>fp_auth := Some (fp_profiles pr ! ?idx)\<rparr> else pr"
    let ?pr' = "?pr\<lparr>fp_breaker := provider_record_failure (lw_clock (called env p pr w)) (fp_breaker ?pr)\<rparr>"
    let ?w = "if a < length backoffs - 1 then (called env p pr w)\<lparr>lw_clock := lw_clock (called env p pr w) +
        from_millis (sleep_ms (le_jitter env (length (lw_calls w))) d)\<rparr> else called env p pr w"
    have eq: "attempt_loop env start budget p ((a, d) # rest) idx pr w =
        (if ?rot \<and> a > 0 \<and> ?idx = 0 then (None, ?pr', called env p pr w)
         else attempt_loop env start budget p rest ?idx ?pr' ?w)"
      using in_budget Inl by (simp add: called_def attempt_loop.simps(2) Let_def)
    show ?thesis
    proof (cases "?rot \<and> a > 0 \<and> ?idx = 0")
      case True
      from eq [unfolded if_P [OF True]] show ?thesis
        by (rule stop [rotated 2]) (use in_budget Inl in \<open>simp_all add: not_le\<close>)
    next
      case False
      from eq [unfolded if_not_P [OF False]] show ?thesis
        by (rule cont [rotated 2]) (use in_budget Inl in \<open>simp_all add: not_le\<close>)
    qed
  qed
qed

lemma attempt_loop_calls:
  assumes "attempt_loop env start budget p xs idx pr w = (r, pr', w')"
  shows "calls_explain env (length (lw_calls w)) (length (lw_calls w')) r \<and>
    length (lw_calls w') \<le> length (lw_calls w) + length xs"
  using assms
proof (induction xs arbitrary: idx pr w)
  case Nil
  then show ?case by (auto simp: calls_explain_def)
next
  case (Cons x xs)
  obtain a d where x: "x = (a, d)" by (cases x)
  show ?case
  proof (cases rule: attempt_cases [of budget w start env p a d xs idx pr])
    case out
    then show ?thesis using Cons.prems by (auto simp: x calls_explain_def)
  next
    case (succ v pr')
    then show ?thesis using Cons.prems by (auto simp: x calls_explain_def called_def)
  next
    case (stop pr')
    then show ?thesis using Cons.prems by (auto simp: x calls_explain_def called_def less_Suc_eq_le)
  next
    case (cont idx' pr2 w2)
    then have "attempt_loop env start budget p xs idx' pr2 w2 = (r, pr', w')" using Cons.prems x by simp
    from Cons.IH [OF this] cont(2,4) show ?thesis
      by (auto simp: called_def intro: calls_explain_step)
  qed
qed

lemma attempt_loop_provider:
  assumes "attempt_loop env start budget p xs idx pr w = (r, pr', w')"
  shows "\<exists>new. lw_calls w' = lw_calls w @ new \<and> (\<forall>c \<in> set new. fst c = p)"
  using assms
proof (induction xs arbitrary: idx pr w)
  case (Cons x xs)
  obtain a d where x: "x = (a, d)" by (cases x)
  show ?case
  proof (cases rule: attempt_cases [of budget w start env p a d xs idx pr])
    case (cont idx' pr2 w2)
    then have "attempt_loop env start budget p xs idx' pr2 w2 = (r, pr', w')" using Cons.prems x by simp
    from Cons.IH [OF this] cont(4) show ?thesis by (auto simp: called_def)
  qed (use Cons.prems in \<open>auto simp: x called_def\<close>)
qed simp

subsection \<open>Time\<close>

definition MAX_SLEEP :: duration where "MAX_SLEEP = from_millis 5000"

lemma sleep_bound:
  assumes "0 \<le> d" "d \<le> 4" "\<And>r. 0 < r \<Longrightarrow> jitter r \<le> r"
  shows "from_millis (sleep_ms jitter d) \<le> MAX_SLEEP"
proof -
  have "(if d * 1000 div 4 > 0 then jitter (d * 1000 div 4) else 0) \<le> d * 250"
    using assms(1) assms(3) [of "250 * d"] by auto
  then have "sleep_ms jitter d \<le> 5000" using assms(2) by (simp add: sleep_ms_def Let_def)
  then show ?thesis by (simp add: MAX_SLEEP_def from_millis_def)
qed

definition in_time :: "duration \<Rightarrow> duration \<Rightarrow> instant \<Rightarrow> llm_world \<Rightarrow> bool" where
  "in_time l budget start w \<longleftrightarrow> start \<le> lw_clock w \<and> lw_clock w \<le> start + budget + l + MAX_SLEEP"

definition timing_ok :: "duration \<Rightarrow> 'r llm_env \<Rightarrow> bool" where
  "timing_ok l env \<longleftrightarrow> (\<forall>n. le_latency env n \<le> l) \<and> (\<forall>n r. 0 < r \<longrightarrow> le_jitter env n r \<le> r)"

lemma attempt_loop_time:
  assumes "attempt_loop env start budget p xs idx pr w = (r, pr', w')" "timing_ok l env"
    and "in_time l budget start w" "\<forall>(a, d) \<in> set xs. a < length backoffs - 1 \<longrightarrow> 0 \<le> d \<and> d \<le> 4"
  shows "in_time l budget start w'"
  using assms(1,3,4)
proof (induction xs arbitrary: idx pr w)
  case (Cons x xs)
  obtain a d where x: "x = (a, d)" by (cases x)
  let ?n = "length (lw_calls w)"
  have lat: "le_latency env ?n \<le> l" using assms(2) by (simp add: timing_ok_def)
  show ?case
  proof (cases rule: attempt_cases [of budget w start env p a d xs idx pr])
    case (cont idx' pr2 w2)
    have "(if a < length backoffs - 1 then from_millis (sleep_ms (le_jitter env ?n) d) else 0) \<le> MAX_SLEEP"
      using Cons.prems(3) assms(2) by (auto simp: x timing_ok_def intro!: sleep_bound)
    then have "in_time l budget start w2"
      using cont(1,5) lat Cons.prems(2) by (auto simp: in_time_def called_def elapsed_def)
    moreover have "attempt_loop env start budget p xs idx' pr2 w2 = (r, pr', w')"
      using Cons.prems(1) cont(3) x by simp
    ultimately show ?thesis using Cons.IH Cons.prems(3) by simp
  qed (use Cons.prems lat in \<open>auto simp: x in_time_def called_def elapsed_def\<close>)
qed simp

lemma backoffs_short: "\<forall>(a, d) \<in> set (enumerate 0 backoffs). a < length backoffs - 1 \<longrightarrow> 0 \<le> d \<and> d \<le> 4"
  by (simp add: backoffs_def)

subsection \<open>The chain\<close>

lemma provider_cases:
  fixes env :: "'r llm_env"
  obtains (out) "budget \<le> elapsed (lw_clock w) start"
      "provider_loop env start budget p (pr # prs) w = (None, pr # prs, w)"
  | (skip) pr' where "\<not> fst (can_attempt (lw_clock w) (fp_breaker pr))"
      "provider_loop env start budget p (pr # prs) w =
         (let (r, prs, w) = provider_loop env start budget (Suc p) prs w in (r, pr' # prs, w))"
  | (found) x pr1 pr2 w' where "elapsed (lw_clock w) start < budget"
      "fst (can_attempt (lw_clock w) (fp_breaker pr))"
      "attempt_loop env start budget p (enumerate 0 backoffs) 0 pr1 w = (Some x, pr2, w')"
      "provider_loop env start budget p (pr # prs) w = (Some x, pr2 # prs, w')"
  | (nxt) pr1 pr2 w' where "elapsed (lw_clock w) start < budget"
      "fst (can_attempt (lw_clock w) (fp_breaker pr))"
      "attempt_loop env start budget p (enumerate 0 backoffs) 0 pr1 w = (None, pr2, w')"
      "provider_loop env start budget p (pr # prs) w =
         (let (r, prs, w) = provider_loop env start budget (Suc p) prs w' in (r, pr2 # prs, w))"
proof (cases "budget \<le> elapsed (lw_clock w) start")
  case True
  then show ?thesis using out by simp
next
  case in_budget: False
  obtain ok cb where cb: "can_attempt (lw_clock w) (fp_breaker pr) = (ok, cb)" by (cases "can_attempt (lw_clock w) (fp_breaker pr)")
  show ?thesis
  proof (cases ok)
    case False
    then show ?thesis using in_budget skip cb by simp
  next
    case True
    let ?pr = "if fp_profiles pr \<noteq> [] then pr\<lparr>fp_breaker := cb, fp_auth := Some (fp_profiles pr ! 0)\<rparr>
      else pr\<lparr>fp_breaker := cb\<rparr>"
    obtain r pr2 w' where a: "attempt_loop env start budget p (enumerate 0 backoffs) 0 ?pr w = (r, pr2, w')"
      by (metis prod_cases3)
    show ?thesis
      using in_budget True cb a found [of ?pr _ pr2 w'] nxt [of ?pr pr2 w']
      by (cases r) (auto simp: Let_def split: if_splits)
  qed
qed

lemma provider_loop_calls:
  assumes "provider_loop env start budget p prs w = (r, prs', w')"
  shows "calls_explain env (length (lw_calls w)) (length (lw_calls w')) r \<and>
    length (lw_calls w') \<le> length (lw_calls w) + 4 * length prs"
  using assms
proof (induction prs arbitrary: p w r prs')
  case Nil
  then show ?case by (auto simp: calls_explain_def)
next
  case (Cons pr prs)
  have four: "length (enumerate 0 backoffs) = 4" by (simp add: backoffs_def)
  show ?case
  proof (cases rule: provider_cases [of budget w start env p pr prs])
    case (nxt pr1 pr2 w1)
    then show ?thesis
      using Cons.prems Cons.IH [of "Suc p" w1] attempt_loop_calls [OF nxt(3)] four
      by (auto simp: Let_def split: prod.splits intro: calls_explain_trans)
  next
    case (found x pr1 pr2 w1)
    then show ?thesis using Cons.prems attempt_loop_calls [OF found(3)] four by auto
  next
    case (skip pr')
    then show ?thesis using Cons.prems Cons.IH [of "Suc p" w] by (auto simp: Let_def split: prod.splits)
  qed (use Cons.prems in \<open>auto simp: calls_explain_def\<close>)
qed

lemma provider_loop_time:
  assumes "provider_loop env start budget p prs w = (r, prs', w')" "timing_ok l env" "in_time l budget start w"
  shows "in_time l budget start w'"
  using assms(1,3)
proof (induction prs arbitrary: p w r prs')
  case (Cons pr prs)
  show ?case
  proof (cases rule: provider_cases [of budget w start env p pr prs])
    case (nxt pr1 pr2 w1)
    then show ?thesis
      using Cons.prems Cons.IH [of "Suc p" w1] attempt_loop_time [OF nxt(3) assms(2) _ backoffs_short]
      by (auto simp: Let_def split: prod.splits)
  next
    case (found x pr1 pr2 w1)
    then show ?thesis
      using Cons.prems attempt_loop_time [OF found(3) assms(2) _ backoffs_short] by auto
  next
    case (skip pr')
    then show ?thesis using Cons.prems Cons.IH [of "Suc p" w] by (auto simp: Let_def split: prod.splits)
  qed (use Cons.prems in auto)
qed simp

lemma provider_loop_breakers:
  assumes "provider_loop env start budget p prs w = (r, prs', w')"
  shows "\<exists>new. lw_calls w' = lw_calls w @ new \<and>
    (\<forall>c \<in> set new. p \<le> fst c \<and> fst c < p + length prs \<and>
      (\<exists>t. t < start + budget \<and> fst (can_attempt t (fp_breaker (prs ! (fst c - p))))))"
  using assms
proof (induction prs arbitrary: p w r prs' w')
  case (Cons pr prs)
  have shift: "\<forall>c \<in> set new. p \<le> fst c \<and> fst c < p + length (pr # prs) \<and>
      (\<exists>t. t < start + budget \<and> fst (can_attempt t (fp_breaker ((pr # prs) ! (fst c - p)))))"
    if "\<forall>c \<in> set new. Suc p \<le> fst c \<and> fst c < Suc p + length prs \<and>
      (\<exists>t. t < start + budget \<and> fst (can_attempt t (fp_breaker (prs ! (fst c - Suc p)))))" for new
    using that by (auto simp: nth_Cons' )
  show ?case
  proof (cases rule: provider_cases [of budget w start env p pr prs])
    case (nxt pr1 pr2 w1)
    obtain r2 prs2 w2 where l: "provider_loop env start budget (Suc p) prs w1 = (r2, prs2, w2)" by (metis prod_cases3)
    obtain new1 where n1: "lw_calls w1 = lw_calls w @ new1" "\<forall>c \<in> set new1. fst c = p"
      using attempt_loop_provider [OF nxt(3)] by auto
    obtain new2 where n2: "lw_calls w2 = lw_calls w1 @ new2" "\<forall>c \<in> set new2. p \<le> fst c \<and>
        fst c < p + length (pr # prs) \<and>
        (\<exists>t. t < start + budget \<and> fst (can_attempt t (fp_breaker ((pr # prs) ! (fst c - p)))))"
      using Cons.IH [OF l] shift by blast
    have "lw_clock w < start + budget" using nxt(1) by (auto simp: elapsed_def)
    then have "\<forall>c \<in> set new1. p \<le> fst c \<and> fst c < p + length (pr # prs) \<and>
        (\<exists>t. t < start + budget \<and> fst (can_attempt t (fp_breaker ((pr # prs) ! (fst c - p)))))"
      using n1(2) nxt(2) by simp blast
    then show ?thesis
      using n1(1) n2 Cons.prems nxt(4) l by (auto simp: Let_def intro!: exI [of _ "new1 @ new2"])
  next
    case (found x pr1 pr2 w1)
    have "lw_clock w < start + budget" using found(1) by (auto simp: elapsed_def)
    moreover obtain new where "lw_calls w1 = lw_calls w @ new" "\<forall>c \<in> set new. fst c = p"
      using attempt_loop_provider [OF found(3)] by auto
    ultimately show ?thesis using Cons.prems found(2,4) by auto
  next
    case (skip pr')
    obtain r2 prs2 w2 where l: "provider_loop env start budget (Suc p) prs w = (r2, prs2, w2)" by (metis prod_cases3)
    then show ?thesis using Cons.IH [OF l] shift Cons.prems skip(2) by (auto simp: Let_def)
  qed (use Cons.prems in auto)
qed simp

subsection \<open>Properties\<close>

text \<open>
  What \<open>complete\<close> returns is what the providers answered: it succeeds exactly with the answer
  of its last call, all earlier calls of the same completion having failed, and reports
  unavailability only if every call failed; it makes at most four calls per provider.
\<close>

theorem fallback_result:
  "let (r, fc', w') = complete env fc w; m = length (lw_calls w); n = length (lw_calls w') in
   calls_explain env m n (case r of Inr x \<Rightarrow> Some x | Inl _ \<Rightarrow> None) \<and>
   n \<le> m + 4 * length (fc_providers fc)"
proof -
  obtain r prs w' where l: "provider_loop env (lw_clock w) (fc_total_retry_budget fc) 0 (fc_providers fc) w =
      (r, prs, w')" by (metis prod_cases3)
  then show ?thesis using provider_loop_calls [OF l] by (cases r) (auto simp: complete_def)
qed

text \<open>
  The retry budget bounds the whole completion: when no call takes longer than \<open>l\<close> and the
  jitter stays in its range, a completion ends within the budget plus one call plus five seconds,
  the longest pause between attempts.
\<close>

theorem fallback_in_time:
  assumes "\<forall>n. le_latency env n \<le> l" "\<forall>n r. 0 < r \<longrightarrow> le_jitter env n r \<le> r"
    and "complete env fc w = (r, fc', w')"
  shows "elapsed (lw_clock w') (lw_clock w) \<le> fc_total_retry_budget fc + l + from_millis 5000"
proof -
  obtain x prs where "provider_loop env (lw_clock w) (fc_total_retry_budget fc) 0 (fc_providers fc) w =
      (x, prs, w')"
    using assms(3) by (auto simp: complete_def split: prod.splits option.splits)
  moreover have "timing_ok l env" using assms(1,2) by (simp add: timing_ok_def)
  moreover have "in_time l (fc_total_retry_budget fc) (lw_clock w) w" by (simp add: in_time_def)
  ultimately have "in_time l (fc_total_retry_budget fc) (lw_clock w) w'" by (rule provider_loop_time)
  then show ?thesis unfolding in_time_def MAX_SLEEP_def elapsed_def by linarith
qed

definition sample_llm :: "nat llm_env" where
  "sample_llm = \<lparr>le_outcome = (\<lambda>n. if n = 2 then Inr 7 else Inl (LlmTimeout 10)),
     le_latency = (\<lambda>_. from_secs 10), le_jitter = (\<lambda>_ r. r)\<rparr>"

theorem fallback_in_time_witness:
  "elapsed (lw_clock (snd (snd (complete sample_llm (add_provider None [] fallback_new)
     \<lparr>lw_clock = 5, lw_calls = []\<rparr>)))) 5 \<le> from_secs 30 + from_secs 10 + from_millis 5000"
proof -
  let ?fc = "add_provider None [] fallback_new" and ?w = "\<lparr>lw_clock = 5, lw_calls = []\<rparr>"
  obtain r fc' w' where c: "complete sample_llm ?fc ?w = (r, fc', w')" by (metis prod_cases3)
  have "elapsed (lw_clock w') (lw_clock ?w) \<le> fc_total_retry_budget ?fc + from_secs 10 + from_millis 5000"
    by (rule fallback_in_time [OF _ _ c]) (simp_all add: sample_llm_def)
  then show ?thesis using c by (simp add: add_provider_def fallback_new_def)
qed

text \<open>
  An open breaker keeps its provider out: a provider whose cooldown ends after the retry
  budget of the completion is not called.
\<close>

theorem open_provider_not_called:
  assumes "complete env fc w = (r, fc', w')" "i < length (fc_providers fc)"
    and "pb_state (fp_breaker (fc_providers fc ! i)) = CBOpen"
    and "pb_last_failure (fp_breaker (fc_providers fc ! i)) = Some t"
    and "lw_clock w + fc_total_retry_budget fc \<le> t + pb_cooldown (fp_breaker (fc_providers fc ! i))"
    and "0 < pb_cooldown (fp_breaker (fc_providers fc ! i))"
  shows "i \<notin> fst ` set (drop (length (lw_calls w)) (lw_calls w'))"
proof -
  let ?b = "fp_breaker (fc_providers fc ! i)"
  obtain x prs where "provider_loop env (lw_clock w) (fc_total_retry_budget fc) 0 (fc_providers fc) w =
      (x, prs, w')"
    using assms(1) by (auto simp: complete_def split: prod.splits option.splits)
  from provider_loop_breakers [OF this] obtain new where
    new: "lw_calls w' = lw_calls w @ new" "\<forall>c \<in> set new. \<exists>t. t < lw_clock w + fc_total_retry_budget fc \<and>
      fst (can_attempt t (fp_breaker (fc_providers fc ! fst c)))" by auto
  have "\<not> fst (can_attempt t' ?b)" if "t' < lw_clock w + fc_total_retry_budget fc" for t'
    using assms(3-6) that by (auto simp: can_attempt_def elapsed_def)
  then show ?thesis using new by auto
qed

definition sample_tripped :: fallback_chain where
  "sample_tripped = \<lparr>fc_providers = [\<lparr>fp_profiles = [],
       fp_breaker = \<lparr>pb_state = CBOpen, pb_consecutive_failures = 3, pb_threshold = 3,
         pb_cooldown = from_secs 300, pb_last_failure = Some 4\<rparr>, fp_auth = None\<rparr>],
     fc_total_retry_budget = from_secs 30\<rparr>"

theorem open_provider_not_called_witness:
  "0 \<notin> fst ` set (lw_calls (snd (snd (complete sample_llm sample_tripped \<lparr>lw_clock = 5, lw_calls = []\<rparr>))))"
proof -
  obtain r fc' w' where c: "complete sample_llm sample_tripped \<lparr>lw_clock = 5, lw_calls = []\<rparr> = (r, fc', w')"
    by (metis prod_cases3)
  have "0 \<notin> fst ` set (drop (length (lw_calls \<lparr>lw_clock = 5, lw_calls = []\<rparr>)) (lw_calls w'))"
    by (rule open_provider_not_called [OF c, where t = 4]) (simp_all add: sample_tripped_def from_secs_def)
  then show ?thesis using c by simp
qed

end
