(* ===== verification/Lane_Queue.thy ===== *)
theory Lane_Queue
  imports Ordered_Map
begin

section \<open>Per-session request lanes\<close>

text \<open>
  \<^verbatim>\<open>ghost-gateway/src/session/lane_queue.rs\<close>: one bounded queue per session, processed one request
  at a time. The concurrent map of lanes is an ordered map; its entries are locked one at a time, so
  an operation on a lane is atomic.
\<close>

record queued_request =
  qr_request_id :: uuid
  qr_payload :: string

record lane_queue =
  lq_queue :: "queued_request list"
  lq_depth_limit :: nat
  lq_processing :: bool

definition lane_queue_new :: "nat \<Rightarrow> lane_queue" where
  "lane_queue_new depth_limit = \<lparr>lq_queue = [], lq_depth_limit = depth_limit, lq_processing = False\<rparr>"

definition lane_enqueue :: "queued_request \<Rightarrow> lane_queue \<Rightarrow> (queued_request + unit) \<times> lane_queue" where
  "lane_enqueue request q =
     (if length (lq_queue q) \<ge> lq_depth_limit q then (Inl request, q)
      else (Inr (), q\<lparr>lq_queue := lq_queue q @ [request]\<rparr>))"

definition lane_dequeue :: "lane_queue \<Rightarrow> queued_request option \<times> lane_queue" where
  "lane_dequeue q =
     (if lq_processing q then (None, q)
      else case lq_queue q of
        [] \<Rightarrow> (None, q)
      | req # rest \<Rightarrow> (Some req, q\<lparr>lq_queue := rest, lq_processing := True\<rparr>))"

definition lane_complete :: "lane_queue \<Rightarrow> lane_queue" where
  "lane_complete q = q\<lparr>lq_processing := False\<rparr>"

definition lane_len :: "lane_queue \<Rightarrow> nat" where
  "lane_len q = length (lq_queue q)"

definition lane_is_empty :: "lane_queue \<Rightarrow> bool" where
  "lane_is_empty q \<longleftrightarrow> lq_queue q = []"

record lane_queue_manager =
  lm_queues :: "(uuid, lane_queue) btree_map"
  lm_default_depth :: nat

definition lane_manager_new :: "nat \<Rightarrow> lane_queue_manager" where
  "lane_manager_new default_depth = \<lparr>lm_queues = bt_new, lm_default_depth = default_depth\<rparr>"

definition lane_manager_default :: lane_queue_manager where
  "lane_manager_default = lane_manager_new 5"

definition lm_enqueue ::
  "uuid \<Rightarrow> queued_request \<Rightarrow> lane_queue_manager \<Rightarrow> (queued_request + unit) \<times> lane_queue_manager" where
  "lm_enqueue session_id request m =
     (let (r, q) = lane_enqueue request
            (bt_get_or (lane_queue_new (lm_default_depth m)) (lm_queues m) session_id)
      in (r, m\<lparr>lm_queues := bt_insert session_id q (lm_queues m)\<rparr>))"

definition lm_dequeue :: "uuid \<Rightarrow> lane_queue_manager \<Rightarrow> queued_request option \<times> lane_queue_manager" where
  "lm_dequeue session_id m =
     (case bt_get (lm_queues m) session_id of
        None \<Rightarrow> (None, m)
      | Some q \<Rightarrow>
          (let (r, q) = lane_dequeue q in (r, m\<lparr>lm_queues := bt_insert session_id q (lm_queues m)\<rparr>)))"

definition lm_complete :: "uuid \<Rightarrow> lane_queue_manager \<Rightarrow> lane_queue_manager" where
  "lm_complete session_id m = m\<lparr>lm_queues := bt_modify session_id lane_complete (lm_queues m)\<rparr>"

definition lm_prune_empty :: "lane_queue_manager \<Rightarrow> lane_queue_manager" where
  "lm_prune_empty m =
     m\<lparr>lm_queues := bt_retain (\<lambda>_ q. \<not> lane_is_empty q \<or> lq_processing q) (lm_queues m)\<rparr>"

subsection \<open>Runs with their history\<close>

text \<open>The requests of each session accepted and handed out so far, and how often it completed.\<close>

record lane_history =
  lh_manager :: lane_queue_manager
  lh_accepted :: "uuid \<Rightarrow> queued_request list"
  lh_delivered :: "uuid \<Rightarrow> queued_request list"
  lh_completed :: "uuid \<Rightarrow> nat"

datatype lane_op = LqEnqueue uuid queued_request | LqDequeue uuid | LqComplete uuid | LqPrune

fun lane_step :: "lane_history \<Rightarrow> lane_op \<Rightarrow> lane_history" where
  "lane_step h (LqEnqueue s req) =
     (case lm_enqueue s req (lh_manager h) of
        (Inl _, m) \<Rightarrow> h\<lparr>lh_manager := m\<rparr>
      | (Inr _, m) \<Rightarrow> h\<lparr>lh_manager := m, lh_accepted := (lh_accepted h)(s := lh_accepted h s @ [req])\<rparr>)"
| "lane_step h (LqDequeue s) =
     (case lm_dequeue s (lh_manager h) of
        (None, m) \<Rightarrow> h\<lparr>lh_manager := m\<rparr>
      | (Some req, m) \<Rightarrow> h\<lparr>lh_manager := m, lh_delivered := (lh_delivered h)(s := lh_delivered h s @ [req])\<rparr>)"
| "lane_step h (LqComplete s) =
     h\<lparr>lh_manager := lm_complete s (lh_manager h), lh_completed := (lh_completed h)(s := Suc (lh_completed h s))\<rparr>"
| "lane_step h LqPrune = h\<lparr>lh_manager := lm_prune_empty (lh_manager h)\<rparr>"

definition lane_start :: "nat \<Rightarrow> lane_history" where
  "lane_start depth = \<lparr>lh_manager = lane_manager_new depth, lh_accepted = (\<lambda>_. []),
     lh_delivered = (\<lambda>_. []), lh_completed = (\<lambda>_. 0)\<rparr>"

definition lane_of :: "lane_queue_manager \<Rightarrow> uuid \<Rightarrow> lane_queue" where
  "lane_of m s = bt_get_or (lane_queue_new (lm_default_depth m)) (lm_queues m) s"

definition served :: "nat \<Rightarrow> lane_queue \<Rightarrow> queued_request list \<Rightarrow> queued_request list \<Rightarrow> nat \<Rightarrow> bool" where
  "served depth q acc del done_n \<longleftrightarrow> lq_depth_limit q = depth \<and> length (lq_queue q) \<le> depth \<and>
     acc = del @ lq_queue q \<and> length del \<le> done_n + (if lq_processing q then 1 else 0)"

lemma served_new: "served depth (lane_queue_new depth) [] [] 0"
  by (simp add: served_def lane_queue_new_def)

lemma served_enqueue:
  "served depth q acc del done_n \<Longrightarrow> served depth (snd (lane_enqueue req q))
     (case fst (lane_enqueue req q) of Inl _ \<Rightarrow> acc | Inr _ \<Rightarrow> acc @ [req]) del done_n"
  by (auto simp: served_def lane_enqueue_def)

lemma served_dequeue:
  "served depth q acc del done_n \<Longrightarrow> served depth (snd (lane_dequeue q)) acc
     (case fst (lane_dequeue q) of None \<Rightarrow> del | Some req \<Rightarrow> del @ [req]) done_n"
  by (cases "lq_queue q") (auto simp: served_def lane_dequeue_def)

lemma served_complete:
  "served depth q acc del done_n \<Longrightarrow> served depth (lane_complete q) acc del (Suc done_n)"
  by (auto simp: served_def lane_complete_def split: if_splits)

definition lane_ok :: "nat \<Rightarrow> lane_history \<Rightarrow> bool" where
  "lane_ok depth h \<longleftrightarrow> lm_default_depth (lh_manager h) = depth \<and>
     (\<forall>s. served depth (lane_of (lh_manager h) s) (lh_accepted h s) (lh_delivered h s) (lh_completed h s))"

lemma lane_of_insert:
  "lane_of (m\<lparr>lm_queues := bt_insert s q (lm_queues m)\<rparr>) t = (if t = s then q else lane_of m t)"
  by (simp add: lane_of_def bt_get_or_def)

lemma lane_of_complete:
  "lane_of (lm_complete s m) t = (if t = s then lane_complete (lane_of m t) else lane_of m t)"
  by (auto simp: lm_complete_def lane_of_def bt_get_or_def lane_complete_def lane_queue_new_def bt_modify_def
      split: option.splits)

lemma served_prune:
  assumes "served (lm_default_depth m) (lane_of m s) acc del done_n"
  shows "served (lm_default_depth m) (lane_of (lm_prune_empty m) s) acc del done_n"
  using assms
  by (auto simp: served_def lane_of_def lm_prune_empty_def bt_get_or_def lane_is_empty_def lane_queue_new_def
      split: option.splits)

lemma lane_ok_step: "lane_ok depth h \<Longrightarrow> lane_ok depth (lane_step h op)"
proof (cases op)
  case (LqEnqueue s req)
  assume ok: "lane_ok depth h"
  obtain r q where e: "lane_enqueue req (lane_of (lh_manager h) s) = (r, q)" by (cases "lane_enqueue req (lane_of (lh_manager h) s)")
  have "served depth (lane_of (lh_manager h) s) (lh_accepted h s) (lh_delivered h s) (lh_completed h s)"
    using ok by (simp add: lane_ok_def)
  from served_enqueue [OF this, of req] ok e show ?thesis
    by (cases r) (auto simp: LqEnqueue lane_ok_def lm_enqueue_def lane_of_insert lane_of_def [symmetric])
next
  case (LqDequeue s)
  assume ok: "lane_ok depth h"
  show ?thesis
  proof (cases "bt_get (lm_queues (lh_manager h)) s")
    case None
    then show ?thesis using ok by (simp add: LqDequeue lm_dequeue_def)
  next
    case (Some q)
    then have q: "lane_of (lh_manager h) s = q" by (simp add: lane_of_def bt_get_or_def)
    obtain r q' where d: "lane_dequeue q = (r, q')" by (cases "lane_dequeue q")
    have "served depth q (lh_accepted h s) (lh_delivered h s) (lh_completed h s)"
      using ok q by (auto simp: lane_ok_def)
    from served_dequeue [OF this] ok Some d show ?thesis
      by (cases r) (auto simp: LqDequeue lane_ok_def lm_dequeue_def lane_of_insert)
  qed
next
  case (LqComplete s)
  assume "lane_ok depth h"
  then show ?thesis
    by (auto simp: LqComplete lane_ok_def lane_of_complete intro: served_complete) (simp add: lm_complete_def)
next
  case LqPrune
  assume "lane_ok depth h"
  then show ?thesis
    using served_prune [of "lh_manager h"] by (auto simp: LqPrune lane_ok_def) (simp add: lm_prune_empty_def)
qed

interpretation lane: invariant_steps lane_step "lane_ok depth" for depth
  by unfold_locales (rule lane_ok_step)

subsection \<open>Properties\<close>

text \<open>
  C26. Each session is served in order, one request at a time, and nothing is lost: after any
  operations on any sessions, pruning included, what a session accepted is what it handed out
  followed by what its lane holds; a lane never holds more than the depth limit, and at most one
  request more was handed out than was completed.
\<close>

theorem lanes_serve_in_order:
  "let h = foldl lane_step (lane_start depth) ops; q = lq_queue (lane_of (lh_manager h) s) in
   lh_accepted h s = lh_delivered h s @ q \<and> length q \<le> depth \<and>
   length (lh_delivered h s) \<le> Suc (lh_completed h s)"
proof -
  have "lane_ok depth (lane_start depth)"
    using served_new [of depth]
    by (simp add: lane_ok_def lane_start_def lane_manager_new_def lane_of_def bt_get_or_def)
  then have "lane_ok depth (foldl lane_step (lane_start depth) ops)" by (rule lane.inv_run)
  then show ?thesis by (auto simp: lane_ok_def served_def Let_def split: if_splits intro: le_SucI)
qed

end
