(* ===== verification/Authz.thy ===== *)
theory Authz
  imports Rust_String
begin

section \<open>Typed authorization: roles, claims and principals\<close>

text \<open>
  The typed authorization model of \<^verbatim>\<open>ghost-gateway/src/api/authz.rs\<close>: the ordered base roles,
  the one capability, the authentication modes, the closed enumerations of actions and routes,
  the context of a decision, and the normalization of token claims to a principal. The two
  large enumerations are split into consecutive blocks of their variants, each a datatype of
  its own, and the enumeration is the sum of the blocks; route variants carry the suffix
  \<^verbatim>\<open>_route\<close>.
\<close>

definition AUTHZ_CLAIMS_VERSION_V1 :: "16 word" where
  "AUTHZ_CLAIMS_VERSION_V1 = 1"

definition INTERNAL_JWT_ISSUER :: string where
  "INTERNAL_JWT_ISSUER = ''ghost-gateway''"

definition u64_MAX :: u64 where
  "u64_MAX = - 1"

datatype base_role = Viewer | Operator | Admin | SuperAdmin

datatype capability = SafetyReview

datatype auth_mode = Jwt | LegacyToken | NoAuthDev

datatype authz_error =
    UnknownBaseRole string
  | UnknownCapability string
  | UnsupportedAuthzVersion "16 word"
  | MissingAuthzVersion
  | CapabilitiesRequireVersion

text \<open>The derived order of \<^verbatim>\<open>BaseRole\<close> is the order of its variants.\<close>

fun role_rank :: "base_role \<Rightarrow> nat" where
  "role_rank Viewer = 0"
| "role_rank Operator = 1"
| "role_rank Admin = 2"
| "role_rank SuperAdmin = 3"

lemma role_rank_inject [simp]: "role_rank r = role_rank s \<longleftrightarrow> r = s"
  by (cases r; cases s) simp_all

instantiation base_role :: linorder
begin

definition less_eq_base_role :: "base_role \<Rightarrow> base_role \<Rightarrow> bool" where
  "r \<le> s \<longleftrightarrow> role_rank r \<le> role_rank s"

definition less_base_role :: "base_role \<Rightarrow> base_role \<Rightarrow> bool" where
  "r < s \<longleftrightarrow> role_rank r < role_rank s"

instance
  by standard (auto simp: less_eq_base_role_def less_base_role_def)

end

lemmas role_order = less_eq_base_role_def less_base_role_def

definition parse_wire_role :: "string \<Rightarrow> authz_error + base_role" where
  "parse_wire_role role =
     (if role = ''viewer'' then Inr Viewer
      else if role = ''operator'' then Inr Operator
      else if role = ''admin'' then Inr Admin
      else if role = ''superadmin'' then Inr SuperAdmin
      else if role = ''dev'' then Inr Operator
      else Inl (UnknownBaseRole role))"

fun role_as_str :: "base_role \<Rightarrow> string" where
  "role_as_str Viewer = ''viewer''"
| "role_as_str Operator = ''operator''"
| "role_as_str Admin = ''admin''"
| "role_as_str SuperAdmin = ''superadmin''"

definition satisfies :: "base_role \<Rightarrow> base_role \<Rightarrow> bool" where
  "satisfies r minimum \<longleftrightarrow> minimum \<le> r"

fun capability_as_str :: "capability \<Rightarrow> string" where
  "capability_as_str SafetyReview = ''safety_review''"

definition capability_from_str :: "string \<Rightarrow> authz_error + capability" where
  "capability_from_str value =
     (if value = ''safety_review'' \<or> value = ''security_reviewer'' then Inr SafetyReview
      else Inl (UnknownCapability value))"

subsection \<open>Actions and routes\<close>

datatype (plugins only: ) read_action =
    AuthSessionRead | AgentReadList | AuditReadQuery | AuditAggregationRead | AuditExportRead
    | ConvergenceScoreRead | GoalReadList | GoalReadItem | SessionReadList | SessionReadItem
    | SessionEventRead | SessionBookmarkRead | MemoryReadList | MemoryGraphRead | MemorySearch
    | MemoryArchivedRead | MemoryItemRead | LiveExecutionRead | LiveExecutionCancel
    | StateCrdtRead | IntegrityChainRead | WorkflowReadList | WorkflowReadItem
    | WorkflowExecutionRead | AutonomyReadStatus | AutonomyReadJobs | AutonomyReadRuns

datatype (plugins only: ) platform_read_action =
    StudioSessionReadList | StudioSessionReadItem | StudioSessionRecoverStream | TraceRead
    | MeshTrustGraphRead | MeshConsensusRead | MeshDelegationRead | ProfileReadList | SearchRead
    | ObservabilityAdeRead | SkillReadList | A2aTaskReadList | A2aTaskReadItem
    | A2aTaskStreamRead | A2aDiscoverRead | ChannelReadList | CostRead | ItpEventRead
    | WebSocketConnect | WebSocketTicketIssue | OAuthProviderRead | OAuthCallbackReceive
    | OAuthConnectionRead | MarketplaceAgentReadList | MarketplaceAgentReadItem
    | MarketplaceSkillReadList | MarketplaceSkillReadItem | MarketplaceContractReadList
    | MarketplaceContractReadItem | MarketplaceWalletRead | MarketplaceWalletTransactionRead
    | MarketplaceReviewReadList | SandboxReviewReadList

datatype (plugins only: ) operator_action =
    SafetyStatusRead | AgentCreate | AgentUpdate | AgentDelete | GoalApprove | GoalReject
    | MemoryWrite | MemoryArchive | MemoryUnarchive | WorkflowCreate | WorkflowUpdate
    | WorkflowExecute | WorkflowExecutionResume | AutonomyPolicyWrite | AutonomySuppressionWrite
    | AutonomyRunApprove | SessionBookmarkCreate | SessionBookmarkDelete | SessionBranch
    | SessionHeartbeat | StudioRunPrompt | StudioSessionCreate | StudioSessionDelete
    | StudioSessionMessageSend | StudioSessionMessageStream | AgentChatSend | AgentChatStream

datatype (plugins only: ) platform_operator_action =
    ProfileCreate | ProfileUpdate | ProfileDelete | AgentProfileAssign | SkillInstall
    | SkillUninstall | SkillQuarantine | SkillQuarantineResolve | SkillReverify | SkillExecute
    | ChannelCreate | ChannelReconnect | ChannelDelete | ChannelInject | A2aTaskSend
    | OAuthConnect | OAuthConnectionDelete | OAuthExecuteApiCall | MarketplaceAgentRegister
    | MarketplaceAgentDelist | MarketplaceAgentStatusUpdate | MarketplaceSkillPublish
    | MarketplaceContractPropose | MarketplaceContractAccept | MarketplaceContractReject
    | MarketplaceContractStart | MarketplaceContractComplete | MarketplaceContractDispute
    | MarketplaceContractCancel | MarketplaceContractResolve | MarketplaceWalletSeed
    | MarketplaceReviewSubmit | MarketplaceDiscover

datatype (plugins only: ) admin_action =
    SafetyCheckReadList | AdminBackupReadList | AdminExportRead | ProviderKeyReadList
    | CodexAuthReadStatus | PcControlStatusRead | PcControlStatusWrite | PcControlActionRead
    | SafetyPauseAgent | SafetyResumeAgent | SandboxReviewApprove | SandboxReviewReject
    | SafetyQuarantineAgent | SafetyCheckRegister | SafetyCheckDelete | WebhookReadList
    | WebhookCreate | WebhookUpdate | WebhookDelete | WebhookTest | AdminBackupCreate
    | ProviderKeyWrite | ProviderKeyDelete | CodexAuthLogin | CodexAuthLogout
    | PcControlAllowedAppsWrite | PcControlBlockedHotkeysWrite | PcControlSafeZonesWrite

datatype (plugins only: ) superadmin_action =
    SafetyKillAll | AdminRestoreVerify

datatype (plugins only: ) action =
    ReadAction read_action | PlatformReadAction platform_read_action
  | OperatorAction operator_action | PlatformOperatorAction platform_operator_action
  | AdminAction admin_action | SuperadminAction superadmin_action

datatype (plugins only: ) core_route =
    Unknown_route | AuthSession_route | Agents_route | AgentById_route | AgentOverviewById_route
    | Audit_route | AuditAggregation_route | AuditExport_route | ConvergenceScores_route
    | ConvergenceHistoryByAgentId_route | Goals_route | GoalsActive_route | GoalById_route
    | GoalApproveById_route | GoalRejectById_route | Sessions_route | SessionById_route
    | SessionEventsById_route | SessionBookmarksById_route | SessionBookmarkById_route
    | SessionBranchById_route | SessionHeartbeatById_route

datatype (plugins only: ) work_route =
    Memory_route | MemoryGraph_route | MemorySearch_route | MemoryArchived_route
    | MemoryById_route | MemoryArchiveById_route | MemoryUnarchiveById_route
    | LiveExecutionById_route | LiveExecutionCancelById_route | StateCrdtByAgentId_route
    | IntegrityChainByAgentId_route | Workflows_route | WorkflowById_route
    | WorkflowExecutionsById_route | WorkflowExecutionById_route | WorkflowExecuteById_route
    | WorkflowResumeExecutionById_route | AutonomyStatus_route | AutonomyJobs_route
    | AutonomyRuns_route | AutonomyPoliciesGlobal_route | AutonomyPoliciesAgentById_route
    | AutonomySuppressions_route | AutonomyRunApproveById_route

datatype (plugins only: ) studio_route =
    StudioRun_route | StudioSessions_route | StudioSessionById_route
    | StudioSessionMessagesById_route | StudioSessionMessageStreamById_route
    | StudioSessionRecoverStreamById_route | AgentChat_route | AgentChatStream_route
    | TracesBySessionId_route | MeshTrustGraph_route | MeshConsensus_route
    | MeshDelegations_route | Profiles_route | ProfileByName_route | AgentProfileById_route
    | Search_route | ObservabilityAde_route | Skills_route | SkillInstallById_route
    | SkillUninstallById_route | SkillQuarantineById_route | SkillQuarantineResolveById_route
    | SkillReverifyById_route | SkillExecuteByName_route

datatype (plugins only: ) link_route =
    A2aTasks_route | A2aTaskById_route | A2aTaskStreamById_route | A2aDiscover_route
    | Channels_route | ChannelById_route | ChannelReconnectById_route
    | ChannelInjectByType_route | Costs_route | ItpEvents_route | WebSocket_route
    | WebSocketTickets_route | OAuthProviders_route | OAuthCallback_route
    | OAuthConnections_route | OAuthConnect_route | OAuthConnectionByRefId_route
    | OAuthExecute_route

datatype (plugins only: ) market_route =
    MarketplaceAgents_route | MarketplaceAgentById_route | MarketplaceAgentStatusById_route
    | MarketplaceSkills_route | MarketplaceSkillByName_route | MarketplaceContracts_route
    | MarketplaceContractById_route | MarketplaceContractAcceptById_route
    | MarketplaceContractRejectById_route | MarketplaceContractStartById_route
    | MarketplaceContractCompleteById_route | MarketplaceContractDisputeById_route
    | MarketplaceContractCancelById_route | MarketplaceContractResolveById_route
    | MarketplaceWallet_route | MarketplaceWalletSeed_route
    | MarketplaceWalletTransactions_route | MarketplaceReviews_route
    | MarketplaceReviewsByAgentId_route | MarketplaceDiscover_route

datatype (plugins only: ) admin_route =
    SafetyStatus_route | SandboxReviews_route | SandboxReviewApproveById_route
    | SandboxReviewRejectById_route | SafetyPauseAgent_route | SafetyResumeAgent_route
    | SafetyQuarantineAgent_route | SafetyKillAll_route | SafetyChecks_route
    | SafetyCheckById_route | AdminBackupCreate_route | AdminBackupList_route
    | AdminExport_route | AdminRestore_route | ProviderKeys_route | ProviderKeyByEnvName_route
    | CodexAuthStatus_route | CodexAuthLogin_route | CodexAuthLogout_route | Webhooks_route
    | WebhookById_route | WebhookTestById_route | PcControlStatus_route | PcControlActions_route
    | PcControlAllowedApps_route | PcControlBlockedHotkeys_route | PcControlSafeZones_route

datatype (plugins only: ) route_id =
    CoreRoute core_route | WorkRoute work_route | StudioRoute studio_route
  | LinkRoute link_route | MarketRoute market_route | AdminRoute admin_route

subsection \<open>Contexts, claims and principals\<close>

datatype transport_kind = Http | WebSocketTransport | Cli | InternalTransport

datatype resource_context =
    NoResource
  | AgentResource "uuid option"
  | SessionResource string "string option"
  | LiveExecutionResource string "string option"
  | ProviderKeyResource "string option"
  | BackupArchive

record authorization_context =
  cx_action :: action
  cx_route_id :: route_id
  cx_transport :: transport_kind
  cx_resource :: resource_context

definition context_new :: "action \<Rightarrow> route_id \<Rightarrow> authorization_context" where
  "context_new a r =
     \<lparr>cx_action = a, cx_route_id = r, cx_transport = Http, cx_resource = NoResource\<rparr>"

definition with_transport :: "authorization_context \<Rightarrow> transport_kind \<Rightarrow> authorization_context" where
  "with_transport c t = c\<lparr>cx_transport := t\<rparr>"

definition with_resource :: "authorization_context \<Rightarrow> resource_context \<Rightarrow> authorization_context" where
  "with_resource c r = c\<lparr>cx_resource := r\<rparr>"

record claims =
  cl_sub :: string
  cl_role :: string
  cl_capabilities :: "string list"
  cl_authz_v :: "16 word option"
  cl_exp :: u64
  cl_iat :: u64
  cl_jti :: string
  cl_iss :: "string option"

record claims_v1 =
  v1_sub :: string
  v1_role :: string
  v1_capabilities :: "string list"
  v1_authz_v :: "16 word"
  v1_exp :: u64
  v1_iat :: u64
  v1_jti :: string
  v1_iss :: "string option"

record principal =
  pr_subject :: string
  pr_base_role :: base_role
  pr_capabilities :: "capability set"
  pr_auth_mode :: auth_mode
  pr_token_id :: "string option"
  pr_authz_version :: "16 word"
  pr_issuer :: "string option"

definition admin_fallback :: claims where
  "admin_fallback =
     \<lparr>cl_sub = ''legacy-token-user'', cl_role = ''admin'', cl_capabilities = [], cl_authz_v = None,
      cl_exp = u64_MAX, cl_iat = 0, cl_jti = [], cl_iss = None\<rparr>"

definition no_auth_fallback :: claims where
  "no_auth_fallback =
     \<lparr>cl_sub = ''anonymous'', cl_role = ''dev'', cl_capabilities = [], cl_authz_v = None,
      cl_exp = u64_MAX, cl_iat = 0, cl_jti = [], cl_iss = None\<rparr>"

definition v1_from_claims :: "claims \<Rightarrow> authz_error + claims_v1" where
  "v1_from_claims c =
     (case cl_authz_v c of
        None \<Rightarrow> Inl MissingAuthzVersion
      | Some v \<Rightarrow>
          if v = AUTHZ_CLAIMS_VERSION_V1
          then Inr \<lparr>v1_sub = cl_sub c, v1_role = cl_role c, v1_capabilities = cl_capabilities c,
                    v1_authz_v = AUTHZ_CLAIMS_VERSION_V1, v1_exp = cl_exp c, v1_iat = cl_iat c,
                    v1_jti = cl_jti c, v1_iss = cl_iss c\<rparr>
          else Inl (UnsupportedAuthzVersion v))"

text \<open>The loop of \<^verbatim>\<open>into_principal\<close> inserts the parsed names and stops at the first bad one.\<close>

fun parse_capabilities :: "string list \<Rightarrow> capability set \<Rightarrow> authz_error + capability set" where
  "parse_capabilities [] acc = Inr acc"
| "parse_capabilities (n # ns) acc =
     (case capability_from_str n of
        Inl e \<Rightarrow> Inl e
      | Inr k \<Rightarrow> parse_capabilities ns (insert k acc))"

definition token_id_of :: "string \<Rightarrow> string option" where
  "token_id_of jti = (if jti = [] then None else Some jti)"

definition into_principal :: "claims_v1 \<Rightarrow> auth_mode \<Rightarrow> authz_error + principal" where
  "into_principal v mode =
     (case parse_capabilities (v1_capabilities v) {} of
        Inl e \<Rightarrow> Inl e
      | Inr caps \<Rightarrow>
          (case parse_wire_role (v1_role v) of
             Inl e \<Rightarrow> Inl e
           | Inr r \<Rightarrow>
               Inr \<lparr>pr_subject = v1_sub v, pr_base_role = r, pr_capabilities = caps,
                    pr_auth_mode = mode, pr_token_id = token_id_of (v1_jti v),
                    pr_authz_version = v1_authz_v v, pr_issuer = v1_iss v\<rparr>))"

definition from_legacy_claims :: "claims \<Rightarrow> auth_mode \<Rightarrow> authz_error + principal" where
  "from_legacy_claims c hint =
     (let mode = (if cl_role c = ''dev'' then NoAuthDev else hint);
          make = (\<lambda>r caps. \<lparr>pr_subject = cl_sub c, pr_base_role = r, pr_capabilities = caps,
                             pr_auth_mode = mode, pr_token_id = token_id_of (cl_jti c),
                             pr_authz_version = 0, pr_issuer = cl_iss c\<rparr>)
      in if cl_role c = ''security_reviewer'' then Inr (make Operator {SafetyReview})
         else (case parse_wire_role (cl_role c) of
                 Inl e \<Rightarrow> Inl e
               | Inr r \<Rightarrow> Inr (make r {})))"

definition from_claims :: "claims \<Rightarrow> auth_mode \<Rightarrow> authz_error + principal" where
  "from_claims c hint =
     (case cl_authz_v c of
        Some v \<Rightarrow>
          if v = AUTHZ_CLAIMS_VERSION_V1
          then (case v1_from_claims c of Inl e \<Rightarrow> Inl e | Inr v1 \<Rightarrow> into_principal v1 hint)
          else Inl (UnsupportedAuthzVersion v)
      | None \<Rightarrow>
          if cl_capabilities c \<noteq> [] then Inl CapabilitiesRequireVersion
          else from_legacy_claims c hint)"

definition principal_has_capability :: "principal \<Rightarrow> capability \<Rightarrow> bool" where
  "principal_has_capability p k \<longleftrightarrow> k \<in> pr_capabilities p"

definition has_minimum_role :: "principal \<Rightarrow> base_role \<Rightarrow> bool" where
  "has_minimum_role p minimum \<longleftrightarrow> satisfies (pr_base_role p) minimum"

definition canonical_capability_names :: "principal \<Rightarrow> string list" where
  "canonical_capability_names p =
     (if SafetyReview \<in> pr_capabilities p then [capability_as_str SafetyReview] else [])"

definition matches_resource_owner :: "principal \<Rightarrow> resource_context \<Rightarrow> bool" where
  "matches_resource_owner p r =
     (case r of
        SessionResource _ owner \<Rightarrow> owner = Some (pr_subject p)
      | LiveExecutionResource _ owner \<Rightarrow> owner = Some (pr_subject p)
      | _ \<Rightarrow> False)"

definition auth_mode_hint_for_claims :: "claims \<Rightarrow> auth_mode" where
  "auth_mode_hint_for_claims c =
     (if cl_role c = ''dev'' then NoAuthDev
      else if cl_authz_v c \<noteq> None \<or> cl_iss c \<noteq> None \<or> cl_jti c \<noteq> [] \<or> cl_exp c \<noteq> u64_MAX
              \<or> cl_iat c \<noteq> 0 then Jwt
      else LegacyToken)"

subsection \<open>What normalization accepts\<close>

lemma role_round_trip [simp]: "parse_wire_role (role_as_str r) = Inr r"
  by (cases r) (simp_all add: parse_wire_role_def)

lemma parse_wire_role_Inr:
  "parse_wire_role s = Inr r \<longleftrightarrow> s = role_as_str r \<or> (s = ''dev'' \<and> r = Operator)"
  by (cases r) (auto simp: parse_wire_role_def)

lemma parse_capabilities_Inr:
  "parse_capabilities ns acc = Inr caps \<longleftrightarrow>
     (\<forall>n\<in>set ns. n = ''safety_review'' \<or> n = ''security_reviewer'') \<and>
     caps = acc \<union> (if ns = [] then {} else {SafetyReview})"
  by (induction ns arbitrary: acc) (auto simp: capability_from_str_def)

lemma capability_cases: "(k :: capability) = SafetyReview"
  by (cases k)

lemma principal_has_capability_iff: "principal_has_capability p k \<longleftrightarrow> pr_capabilities p \<noteq> {}"
  unfolding principal_has_capability_def by (metis capability_cases ex_in_conv)

text \<open>
  A description of normalization: the role a claim set is given, if any. A capability never
  raises the role, and no claim set without a version carries one except the legacy reviewer.
\<close>

definition granted_role :: "claims \<Rightarrow> base_role option" where
  "granted_role c =
     (if cl_authz_v c = None \<and> cl_role c = ''security_reviewer'' then
        (if cl_capabilities c = [] then Some Operator else None)
      else if (cl_authz_v c = None \<and> cl_capabilities c = []) \<or>
              (cl_authz_v c = Some AUTHZ_CLAIMS_VERSION_V1 \<and>
               list_all (\<lambda>n. n = ''safety_review'' \<or> n = ''security_reviewer'') (cl_capabilities c))
      then (case parse_wire_role (cl_role c) of Inl _ \<Rightarrow> None | Inr r \<Rightarrow> Some r)
      else None)"

definition granted_review :: "claims \<Rightarrow> bool" where
  "granted_review c \<longleftrightarrow> cl_capabilities c \<noteq> [] \<or> (cl_authz_v c = None \<and> cl_role c = ''security_reviewer'')"

lemma parse_capabilities_ok:
  "list_all (\<lambda>n. n = ''safety_review'' \<or> n = ''security_reviewer'') ns \<Longrightarrow>
   parse_capabilities ns acc = Inr (acc \<union> (if ns = [] then {} else {SafetyReview}))"
  by (simp add: parse_capabilities_Inr list_all_iff)

lemma parse_capabilities_bad:
  assumes "\<not> list_all (\<lambda>n. n = ''safety_review'' \<or> n = ''security_reviewer'') ns"
  shows "\<exists>e. parse_capabilities ns acc = Inl e"
proof (cases "parse_capabilities ns acc")
  case (Inr caps)
  then show ?thesis using assms by (simp add: parse_capabilities_Inr list_all_iff)
qed simp

lemma from_claims_versioned:
  assumes "cl_authz_v c = Some v"
  shows "(case from_claims c hint of
            Inl _ \<Rightarrow> granted_role c = None
          | Inr p \<Rightarrow> granted_role c = Some (pr_base_role p) \<and> pr_subject p = cl_sub c \<and>
                     (pr_capabilities p \<noteq> {}) = granted_review c \<and> pr_auth_mode p = hint)"
proof (cases "v = AUTHZ_CLAIMS_VERSION_V1 \<and>
              list_all (\<lambda>n. n = ''safety_review'' \<or> n = ''security_reviewer'') (cl_capabilities c)")
  case True
  then show ?thesis using assms
    by (auto simp: from_claims_def v1_from_claims_def into_principal_def parse_capabilities_ok
        granted_role_def granted_review_def split: sum.splits)
next
  case False
  then consider "v \<noteq> AUTHZ_CLAIMS_VERSION_V1"
    | e where "v = AUTHZ_CLAIMS_VERSION_V1" "parse_capabilities (cl_capabilities c) {} = Inl e"
      "\<not> list_all (\<lambda>n. n = ''safety_review'' \<or> n = ''security_reviewer'') (cl_capabilities c)"
    using parse_capabilities_bad by blast
  then show ?thesis
    by cases (use assms in \<open>simp_all add: from_claims_def v1_from_claims_def into_principal_def
        granted_role_def\<close>)
qed

lemma from_claims_legacy:
  assumes "cl_authz_v c = None"
  shows "(case from_claims c hint of
            Inl _ \<Rightarrow> granted_role c = None
          | Inr p \<Rightarrow> granted_role c = Some (pr_base_role p) \<and> pr_subject p = cl_sub c \<and>
                     (pr_capabilities p \<noteq> {}) = granted_review c)"
  using assms
  by (auto simp: from_claims_def from_legacy_claims_def Let_def granted_role_def granted_review_def
      split: sum.splits)

lemma from_claims_Inr:
  assumes "from_claims c hint = Inr p"
  shows "granted_role c = Some (pr_base_role p)" "pr_subject p = cl_sub c"
    "(pr_capabilities p \<noteq> {}) = granted_review c"
proof -
  have "granted_role c = Some (pr_base_role p) \<and> pr_subject p = cl_sub c \<and>
        (pr_capabilities p \<noteq> {}) = granted_review c"
    using from_claims_versioned[of c _ hint] from_claims_legacy[of c hint] assms
    by (cases "cl_authz_v c") auto
  then show "granted_role c = Some (pr_base_role p)" "pr_subject p = cl_sub c"
    "(pr_capabilities p \<noteq> {}) = granted_review c" by auto
qed

lemma from_claims_Inl: "from_claims c hint = Inl e \<Longrightarrow> granted_role c = None"
  using from_claims_versioned[of c _ hint] from_claims_legacy[of c hint]
  by (cases "cl_authz_v c") auto

lemma from_claims_granted:
  assumes "granted_role c = Some r"
  obtains p where "from_claims c hint = Inr p" "pr_base_role p = r"
  using assms from_claims_Inl[of c hint] from_claims_Inr(1)[of c hint]
  by (cases "from_claims c hint") auto

lemma granted_fallbacks [simp]:
  "granted_role admin_fallback = Some Admin" "granted_role no_auth_fallback = Some Operator"
  "granted_review admin_fallback = False" "granted_review no_auth_fallback = False"
  by (simp_all add: granted_role_def granted_review_def admin_fallback_def no_auth_fallback_def
      parse_wire_role_def)

end
