(* ===== verification/Authz_Policy.thy ===== *)
theory Authz_Policy
  imports Authz
begin

section \<open>The authorization policy and the route specifications\<close>

text \<open>
  \<^verbatim>\<open>ghost-gateway/src/api/authz_policy.rs\<close>: the policy predicates and rules, the registry that
  maps an action to its rule, the decision for a principal or a set of claims, and the table of
  route specifications. A specification names the action of a route and declares who may use
  it; the decision is taken by the registry alone. The lemmas compare the two: where they agree,
  and the eight actions the registry does not list and the one it lists twice.
\<close>

datatype policy_predicate =
    Always
  | MinRole base_role
  | HasCapability capability
  | AuthModeIs auth_mode
  | AuthModeIn "auth_mode list"
  | SubjectMatchesResourceOwner
  | AnyOf "policy_predicate list"
  | AllOf "policy_predicate list"
  | NotP policy_predicate

fun predicate_evaluate :: "policy_predicate \<Rightarrow> principal \<Rightarrow> authorization_context \<Rightarrow> bool" where
  "predicate_evaluate Always p c = True"
| "predicate_evaluate (MinRole r) p c = has_minimum_role p r"
| "predicate_evaluate (HasCapability k) p c = principal_has_capability p k"
| "predicate_evaluate (AuthModeIs m) p c = (pr_auth_mode p = m)"
| "predicate_evaluate (AuthModeIn ms) p c = (pr_auth_mode p \<in> set ms)"
| "predicate_evaluate SubjectMatchesResourceOwner p c = matches_resource_owner p (cx_resource c)"
| "predicate_evaluate (AnyOf ps) p c = list_ex (\<lambda>q. predicate_evaluate q p c) ps"
| "predicate_evaluate (AllOf ps) p c = list_all (\<lambda>q. predicate_evaluate q p c) ps"
| "predicate_evaluate (NotP q) p c = (\<not> predicate_evaluate q p c)"

record policy_rule =
  rule_allow_if :: policy_predicate
  rule_deny_if :: "policy_predicate list"
  rule_audit_on_deny :: bool

datatype denial_reason =
  MissingClaims | MalformedClaims | DenyPredicateMatched | AllowPredicateNotSatisfied

record authorization_decision =
  dec_action :: action
  dec_policy_id :: string
  dec_allowed :: bool
  dec_denial_reason :: "denial_reason option"

record authorization_evaluation =
  ev_principal :: "principal option"
  ev_decision :: authorization_decision

record registered_policy =
  reg_policy_id :: string
  reg_rule :: policy_rule

definition rule_allows :: "policy_rule \<Rightarrow> principal \<Rightarrow> authorization_context \<Rightarrow> bool" where
  "rule_allows r p c \<longleftrightarrow>
     \<not> list_ex (\<lambda>q. predicate_evaluate q p c) (rule_deny_if r) \<and>
     predicate_evaluate (rule_allow_if r) p c"

definition rule_evaluate ::
    "policy_rule \<Rightarrow> action \<Rightarrow> string \<Rightarrow> principal \<Rightarrow> authorization_context \<Rightarrow> authorization_decision" where
  "rule_evaluate r a pid p c =
     (if list_ex (\<lambda>q. predicate_evaluate q p c) (rule_deny_if r) then
        \<lparr>dec_action = a, dec_policy_id = pid, dec_allowed = False,
         dec_denial_reason = Some DenyPredicateMatched\<rparr>
      else if predicate_evaluate (rule_allow_if r) p c then
        \<lparr>dec_action = a, dec_policy_id = pid, dec_allowed = True, dec_denial_reason = None\<rparr>
      else
        \<lparr>dec_action = a, dec_policy_id = pid, dec_allowed = False,
         dec_denial_reason = Some AllowPredicateNotSatisfied\<rparr>)"

lemma rule_evaluate_allows: "dec_allowed (rule_evaluate r a pid p c) \<longleftrightarrow> rule_allows r p c"
  by (simp add: rule_evaluate_def rule_allows_def)

subsection \<open>The registry\<close>

definition minimum_role_rule :: "string \<Rightarrow> base_role \<Rightarrow> registered_policy" where
  "minimum_role_rule pid r =
     \<lparr>reg_policy_id = pid,
      reg_rule = \<lparr>rule_allow_if = AnyOf [MinRole r], rule_deny_if = [],
                  rule_audit_on_deny = (Admin \<le> r)\<rparr>\<rparr>"

definition viewer_actions :: "action list" where
  "viewer_actions =
   map ReadAction
     [AuthSessionRead, AgentReadList, AuditReadQuery, AuditAggregationRead, AuditExportRead,
      ConvergenceScoreRead, GoalReadList, GoalReadItem, SessionReadList, SessionEventRead,
      SessionBookmarkRead, MemoryReadList, MemoryGraphRead, MemorySearch, MemoryArchivedRead,
      MemoryItemRead, StateCrdtRead, IntegrityChainRead, WorkflowReadList, WorkflowReadItem,
      WorkflowExecutionRead] @
   map PlatformReadAction
     [StudioSessionReadList, StudioSessionReadItem, StudioSessionRecoverStream, TraceRead,
      MeshTrustGraphRead, MeshConsensusRead, MeshDelegationRead, ProfileReadList, SearchRead,
      SkillReadList, A2aTaskReadList, A2aTaskReadItem, A2aTaskStreamRead, A2aDiscoverRead,
      ChannelReadList, CostRead, ItpEventRead, WebSocketConnect, WebSocketTicketIssue,
      OAuthProviderRead, OAuthCallbackReceive, OAuthConnectionRead, MarketplaceAgentReadList,
      MarketplaceAgentReadItem, MarketplaceSkillReadList, MarketplaceSkillReadItem,
      MarketplaceContractReadList, MarketplaceContractReadItem, MarketplaceWalletRead,
      MarketplaceWalletTransactionRead, MarketplaceReviewReadList, SandboxReviewReadList]"

definition operator_actions :: "action list" where
  "operator_actions =
   map OperatorAction
     [SafetyStatusRead, AgentCreate, AgentUpdate, AgentDelete, GoalApprove, GoalReject,
      MemoryWrite, MemoryArchive, MemoryUnarchive, WorkflowCreate, WorkflowUpdate,
      WorkflowExecute, WorkflowExecutionResume, SessionBookmarkCreate, SessionBookmarkDelete,
      SessionBranch, SessionHeartbeat, StudioRunPrompt, StudioSessionCreate, StudioSessionDelete,
      StudioSessionMessageSend, StudioSessionMessageStream, AgentChatSend, AgentChatStream] @
   map PlatformOperatorAction
     [ProfileCreate, ProfileUpdate, ProfileDelete, AgentProfileAssign, SkillInstall,
      SkillUninstall, SkillQuarantine, SkillQuarantineResolve, SkillReverify, SkillExecute,
      ChannelCreate, ChannelReconnect, ChannelDelete, ChannelInject, A2aTaskSend, OAuthConnect,
      OAuthConnectionDelete, OAuthExecuteApiCall, MarketplaceAgentRegister,
      MarketplaceAgentDelist, MarketplaceAgentStatusUpdate, MarketplaceSkillPublish,
      MarketplaceContractPropose, MarketplaceContractAccept, MarketplaceContractReject,
      MarketplaceContractStart, MarketplaceContractComplete, MarketplaceContractDispute,
      MarketplaceContractCancel, MarketplaceContractResolve, MarketplaceWalletSeed,
      MarketplaceReviewSubmit, MarketplaceDiscover] @
   map PlatformReadAction
     [SandboxReviewReadList]"

definition admin_actions :: "action list" where
  "admin_actions =
   map AdminAction
     [SafetyCheckReadList, AdminBackupReadList, AdminExportRead, ProviderKeyReadList,
      CodexAuthReadStatus, PcControlStatusRead, PcControlStatusWrite, PcControlActionRead,
      SafetyPauseAgent, SafetyQuarantineAgent, SafetyCheckRegister, SafetyCheckDelete,
      WebhookReadList, WebhookCreate, WebhookUpdate, WebhookDelete, WebhookTest,
      AdminBackupCreate, ProviderKeyWrite, ProviderKeyDelete, CodexAuthLogin, CodexAuthLogout,
      PcControlAllowedAppsWrite, PcControlBlockedHotkeysWrite, PcControlSafeZonesWrite]"

definition superadmin_actions :: "action list" where
  "superadmin_actions =
   map SuperadminAction
     [SafetyKillAll, AdminRestoreVerify]"

definition policy_for :: "action \<Rightarrow> registered_policy" where
  "policy_for a =
     (if a = ReadAction LiveExecutionRead \<or> a = ReadAction LiveExecutionCancel then
        \<lparr>reg_policy_id = ''typed/live_execution_owner_or_admin'',
         reg_rule = \<lparr>rule_allow_if = AnyOf [MinRole Admin, SubjectMatchesResourceOwner],
                     rule_deny_if = [], rule_audit_on_deny = False\<rparr>\<rparr>
      else if a = AdminAction SafetyResumeAgent then
        \<lparr>reg_policy_id = ''typed/safety_resume_admin_or_operator_safety_review'',
         reg_rule = \<lparr>rule_allow_if =
                       AnyOf [MinRole Admin, AllOf [MinRole Operator, HasCapability SafetyReview]],
                     rule_deny_if = [], rule_audit_on_deny = True\<rparr>\<rparr>
      else if a = AdminAction SandboxReviewApprove \<or> a = AdminAction SandboxReviewReject then
        \<lparr>reg_policy_id = ''typed/sandbox_review_admin_or_operator_safety_review'',
         reg_rule = \<lparr>rule_allow_if =
                       AnyOf [MinRole Admin, AllOf [MinRole Operator, HasCapability SafetyReview]],
                     rule_deny_if = [], rule_audit_on_deny = True\<rparr>\<rparr>
      else if a \<in> set viewer_actions then minimum_role_rule ''typed/min_role_viewer'' Viewer
      else if a \<in> set operator_actions then minimum_role_rule ''typed/min_role_operator'' Operator
      else if a \<in> set admin_actions then minimum_role_rule ''typed/min_role_admin'' Admin
      else if a \<in> set superadmin_actions then minimum_role_rule ''typed/min_role_superadmin'' SuperAdmin
      else minimum_role_rule ''typed/min_role_superadmin_default'' SuperAdmin)"

definition authorize :: "principal \<Rightarrow> authorization_context \<Rightarrow> authorization_decision" where
  "authorize p c =
     (let registered = policy_for (cx_action c)
      in rule_evaluate (reg_rule registered) (cx_action c) (reg_policy_id registered) p c)"

definition evaluate_claims :: "claims option \<Rightarrow> authorization_context \<Rightarrow> authorization_evaluation" where
  "evaluate_claims cl c =
     (case cl of
        None \<Rightarrow>
          \<lparr>ev_principal = None,
           ev_decision = \<lparr>dec_action = cx_action c, dec_policy_id = ''typed/missing_claims'',
                          dec_allowed = False, dec_denial_reason = Some MissingClaims\<rparr>\<rparr>
      | Some cs \<Rightarrow>
          (case from_claims cs (auth_mode_hint_for_claims cs) of
             Inl _ \<Rightarrow>
               \<lparr>ev_principal = None,
                ev_decision = \<lparr>dec_action = cx_action c, dec_policy_id = ''typed/malformed_claims'',
                               dec_allowed = False, dec_denial_reason = Some MalformedClaims\<rparr>\<rparr>
           | Inr p \<Rightarrow> \<lparr>ev_principal = Some p, ev_decision = authorize p c\<rparr>))"

datatype api_error =
    NotFound string string
  | Validation string
  | Unauthorized string
  | Forbidden string
  | Conflict string
  | KillSwitchActive
  | DatabaseError string
  | LockPoisoned string
  | ProviderError string
  | InternalError string
  | CustomError nat string string

definition authorize_claims ::
    "claims option \<Rightarrow> authorization_context \<Rightarrow> api_error + principal \<times> authorization_decision" where
  "authorize_claims cl c =
     (let ev = evaluate_claims cl c
      in if dec_allowed (ev_decision ev) then
           (case ev_principal ev of
              Some p \<Rightarrow> Inr (p, ev_decision ev)
            | None \<Rightarrow> Inl (Unauthorized ''Invalid authorization principal''))
         else if dec_denial_reason (ev_decision ev) \<in> {Some MissingClaims, Some MalformedClaims}
         then Inl (Unauthorized ''Invalid authorization claims'')
         else Inl (Forbidden ''Insufficient permissions for this operation''))"

subsection \<open>Route specifications\<close>

datatype route_authorization_kind = MinimumRole base_role | SafetyReviewKind | OwnerOrAdmin

record route_authorization_spec =
  spec_route_id :: route_id
  spec_action :: action
  spec_compatibility_required :: bool
  spec_authorization_kind :: route_authorization_kind

definition route_spec_new ::
    "route_id \<Rightarrow> action \<Rightarrow> bool \<Rightarrow> route_authorization_kind \<Rightarrow> route_authorization_spec" where
  "route_spec_new r a required k =
     \<lparr>spec_route_id = r, spec_action = a, spec_compatibility_required = required,
      spec_authorization_kind = k\<rparr>"

definition viewer_spec :: "route_id \<Rightarrow> action \<Rightarrow> route_authorization_spec" where
  "viewer_spec r a = route_spec_new r a False (MinimumRole Viewer)"

definition operator_spec :: "route_id \<Rightarrow> action \<Rightarrow> route_authorization_spec" where
  "operator_spec r a = route_spec_new r a True (MinimumRole Operator)"

definition admin_spec :: "route_id \<Rightarrow> action \<Rightarrow> bool \<Rightarrow> route_authorization_spec" where
  "admin_spec r a required = route_spec_new r a required (MinimumRole Admin)"

definition superadmin_spec :: "route_id \<Rightarrow> action \<Rightarrow> route_authorization_spec" where
  "superadmin_spec r a = route_spec_new r a True (MinimumRole SuperAdmin)"

definition owner_or_admin_spec :: "route_id \<Rightarrow> action \<Rightarrow> route_authorization_spec" where
  "owner_or_admin_spec r a = route_spec_new r a False OwnerOrAdmin"

text \<open>
  The arms of \<^verbatim>\<open>route_spec_for\<close> in their order, in blocks; the match takes the first arm whose
  route and method fit.
\<close>

type_synonym spec_arm = "(route_id \<times> string) \<times> route_authorization_spec"

definition session_arms :: "spec_arm list" where
  "session_arms =
    [((CoreRoute AuthSession_route, ''GET''),
       viewer_spec (CoreRoute AuthSession_route) (ReadAction AuthSessionRead)),
     ((CoreRoute Agents_route, ''GET''),
       viewer_spec (CoreRoute Agents_route) (ReadAction AgentReadList)),
     ((CoreRoute Agents_route, ''POST''),
       operator_spec (CoreRoute Agents_route) (OperatorAction AgentCreate)),
     ((CoreRoute AgentById_route, ''GET''),
       viewer_spec (CoreRoute AgentById_route) (ReadAction AgentReadList)),
     ((CoreRoute AgentOverviewById_route, ''GET''),
       viewer_spec (CoreRoute AgentOverviewById_route) (ReadAction AgentReadList)),
     ((CoreRoute AgentById_route, ''PATCH''),
       operator_spec (CoreRoute AgentById_route) (OperatorAction AgentUpdate)),
     ((CoreRoute AgentById_route, ''DELETE''),
       operator_spec (CoreRoute AgentById_route) (OperatorAction AgentDelete)),
     ((CoreRoute Audit_route, ''GET''),
       viewer_spec (CoreRoute Audit_route) (ReadAction AuditReadQuery)),
     ((CoreRoute AuditAggregation_route, ''GET''),
       viewer_spec (CoreRoute AuditAggregation_route) (ReadAction AuditAggregationRead)),
     ((CoreRoute AuditExport_route, ''GET''),
       viewer_spec (CoreRoute AuditExport_route) (ReadAction AuditExportRead)),
     ((CoreRoute ConvergenceScores_route, ''GET''),
       viewer_spec (CoreRoute ConvergenceScores_route) (ReadAction ConvergenceScoreRead)),
     ((CoreRoute ConvergenceHistoryByAgentId_route, ''GET''),
       viewer_spec (CoreRoute ConvergenceHistoryByAgentId_route) (ReadAction ConvergenceScoreRead)),
     ((CoreRoute Goals_route, ''GET''),
       viewer_spec (CoreRoute Goals_route) (ReadAction GoalReadList)),
     ((CoreRoute GoalsActive_route, ''GET''),
       viewer_spec (CoreRoute GoalsActive_route) (ReadAction GoalReadList)),
     ((CoreRoute GoalById_route, ''GET''),
       viewer_spec (CoreRoute GoalById_route) (ReadAction GoalReadItem)),
     ((CoreRoute GoalApproveById_route, ''POST''),
       operator_spec (CoreRoute GoalApproveById_route) (OperatorAction GoalApprove)),
     ((CoreRoute GoalRejectById_route, ''POST''),
       operator_spec (CoreRoute GoalRejectById_route) (OperatorAction GoalReject)),
     ((CoreRoute Sessions_route, ''GET''),
       viewer_spec (CoreRoute Sessions_route) (ReadAction SessionReadList)),
     ((CoreRoute SessionById_route, ''GET''),
       viewer_spec (CoreRoute SessionById_route) (ReadAction SessionReadItem)),
     ((CoreRoute SessionEventsById_route, ''GET''),
       viewer_spec (CoreRoute SessionEventsById_route) (ReadAction SessionEventRead)),
     ((CoreRoute SessionBookmarksById_route, ''GET''),
       viewer_spec (CoreRoute SessionBookmarksById_route) (ReadAction SessionBookmarkRead)),
     ((CoreRoute SessionBookmarksById_route, ''POST''),
       operator_spec (CoreRoute SessionBookmarksById_route) (OperatorAction SessionBookmarkCreate)),
     ((CoreRoute SessionBookmarkById_route, ''DELETE''),
       operator_spec (CoreRoute SessionBookmarkById_route) (OperatorAction SessionBookmarkDelete)),
     ((CoreRoute SessionBranchById_route, ''POST''),
       operator_spec (CoreRoute SessionBranchById_route) (OperatorAction SessionBranch)),
     ((CoreRoute SessionHeartbeatById_route, ''POST''),
       operator_spec (CoreRoute SessionHeartbeatById_route) (OperatorAction SessionHeartbeat))]"

definition work_arms :: "spec_arm list" where
  "work_arms =
    [((WorkRoute Memory_route, ''GET''),
       viewer_spec (WorkRoute Memory_route) (ReadAction MemoryReadList)),
     ((WorkRoute Memory_route, ''POST''),
       operator_spec (WorkRoute Memory_route) (OperatorAction MemoryWrite)),
     ((WorkRoute MemoryGraph_route, ''GET''),
       viewer_spec (WorkRoute MemoryGraph_route) (ReadAction MemoryGraphRead)),
     ((WorkRoute MemorySearch_route, ''GET''),
       viewer_spec (WorkRoute MemorySearch_route) (ReadAction MemorySearch)),
     ((WorkRoute MemoryArchived_route, ''GET''),
       viewer_spec (WorkRoute MemoryArchived_route) (ReadAction MemoryArchivedRead)),
     ((WorkRoute MemoryById_route, ''GET''),
       viewer_spec (WorkRoute MemoryById_route) (ReadAction MemoryItemRead)),
     ((WorkRoute MemoryArchiveById_route, ''POST''),
       operator_spec (WorkRoute MemoryArchiveById_route) (OperatorAction MemoryArchive)),
     ((WorkRoute MemoryUnarchiveById_route, ''POST''),
       operator_spec (WorkRoute MemoryUnarchiveById_route) (OperatorAction MemoryUnarchive)),
     ((WorkRoute LiveExecutionById_route, ''GET''),
       owner_or_admin_spec (WorkRoute LiveExecutionById_route) (ReadAction LiveExecutionRead)),
     ((WorkRoute LiveExecutionCancelById_route, ''POST''),
       owner_or_admin_spec (WorkRoute LiveExecutionCancelById_route) (ReadAction LiveExecutionCancel)),
     ((WorkRoute StateCrdtByAgentId_route, ''GET''),
       viewer_spec (WorkRoute StateCrdtByAgentId_route) (ReadAction StateCrdtRead)),
     ((WorkRoute IntegrityChainByAgentId_route, ''GET''),
       viewer_spec (WorkRoute IntegrityChainByAgentId_route) (ReadAction IntegrityChainRead)),
     ((WorkRoute Workflows_route, ''GET''),
       viewer_spec (WorkRoute Workflows_route) (ReadAction WorkflowReadList)),
     ((WorkRoute Workflows_route, ''POST''),
       operator_spec (WorkRoute Workflows_route) (OperatorAction WorkflowCreate)),
     ((WorkRoute WorkflowById_route, ''GET''),
       viewer_spec (WorkRoute WorkflowById_route) (ReadAction WorkflowReadItem)),
     ((WorkRoute WorkflowById_route, ''PUT''),
       operator_spec (WorkRoute WorkflowById_route) (OperatorAction WorkflowUpdate)),
     ((WorkRoute WorkflowExecutionsById_route, ''GET''),
       viewer_spec (WorkRoute WorkflowExecutionsById_route) (ReadAction WorkflowExecutionRead)),
     ((WorkRoute WorkflowExecutionById_route, ''GET''),
       viewer_spec (WorkRoute WorkflowExecutionById_route) (ReadAction WorkflowExecutionRead)),
     ((WorkRoute AutonomyStatus_route, ''GET''),
       viewer_spec (WorkRoute AutonomyStatus_route) (ReadAction AutonomyReadStatus)),
     ((WorkRoute AutonomyJobs_route, ''GET''),
       viewer_spec (WorkRoute AutonomyJobs_route) (ReadAction AutonomyReadJobs)),
     ((WorkRoute AutonomyRuns_route, ''GET''),
       viewer_spec (WorkRoute AutonomyRuns_route) (ReadAction AutonomyReadRuns)),
     ((WorkRoute AutonomyPoliciesGlobal_route, ''GET''),
       viewer_spec (WorkRoute AutonomyPoliciesGlobal_route) (ReadAction AutonomyReadStatus)),
     ((WorkRoute AutonomyPoliciesAgentById_route, ''GET''),
       viewer_spec (WorkRoute AutonomyPoliciesAgentById_route) (ReadAction AutonomyReadStatus)),
     ((WorkRoute WorkflowExecuteById_route, ''POST''),
       operator_spec (WorkRoute WorkflowExecuteById_route) (OperatorAction WorkflowExecute)),
     ((WorkRoute WorkflowResumeExecutionById_route, ''POST''),
       operator_spec (WorkRoute WorkflowResumeExecutionById_route) (OperatorAction WorkflowExecutionResume)),
     ((WorkRoute AutonomyPoliciesGlobal_route, ''PUT''),
       operator_spec (WorkRoute AutonomyPoliciesGlobal_route) (OperatorAction AutonomyPolicyWrite)),
     ((WorkRoute AutonomyPoliciesAgentById_route, ''PUT''),
       operator_spec (WorkRoute AutonomyPoliciesAgentById_route) (OperatorAction AutonomyPolicyWrite)),
     ((WorkRoute AutonomySuppressions_route, ''POST''),
       operator_spec (WorkRoute AutonomySuppressions_route) (OperatorAction AutonomySuppressionWrite)),
     ((WorkRoute AutonomyRunApproveById_route, ''POST''),
       operator_spec (WorkRoute AutonomyRunApproveById_route) (OperatorAction AutonomyRunApprove))]"

definition studio_arms :: "spec_arm list" where
  "studio_arms =
    [((StudioRoute StudioRun_route, ''POST''),
       operator_spec (StudioRoute StudioRun_route) (OperatorAction StudioRunPrompt)),
     ((StudioRoute StudioSessions_route, ''GET''),
       viewer_spec (StudioRoute StudioSessions_route) (PlatformReadAction StudioSessionReadList)),
     ((StudioRoute StudioSessions_route, ''POST''),
       operator_spec (StudioRoute StudioSessions_route) (OperatorAction StudioSessionCreate)),
     ((StudioRoute StudioSessionById_route, ''GET''),
       viewer_spec (StudioRoute StudioSessionById_route) (PlatformReadAction StudioSessionReadItem)),
     ((StudioRoute StudioSessionById_route, ''DELETE''),
       operator_spec (StudioRoute StudioSessionById_route) (OperatorAction StudioSessionDelete)),
     ((StudioRoute StudioSessionMessagesById_route, ''POST''),
       operator_spec (StudioRoute StudioSessionMessagesById_route) (OperatorAction StudioSessionMessageSend)),
     ((StudioRoute StudioSessionMessageStreamById_route, ''POST''),
       operator_spec (StudioRoute StudioSessionMessageStreamById_route) (OperatorAction StudioSessionMessageStream)),
     ((StudioRoute StudioSessionRecoverStreamById_route, ''GET''),
       viewer_spec (StudioRoute StudioSessionRecoverStreamById_route) (PlatformReadAction StudioSessionRecoverStream)),
     ((StudioRoute AgentChat_route, ''POST''),
       operator_spec (StudioRoute AgentChat_route) (OperatorAction AgentChatSend)),
     ((StudioRoute AgentChatStream_route, ''POST''),
       operator_spec (StudioRoute AgentChatStream_route) (OperatorAction AgentChatStream)),
     ((StudioRoute TracesBySessionId_route, ''GET''),
       viewer_spec (StudioRoute TracesBySessionId_route) (PlatformReadAction TraceRead)),
     ((StudioRoute MeshTrustGraph_route, ''GET''),
       viewer_spec (StudioRoute MeshTrustGraph_route) (PlatformReadAction MeshTrustGraphRead)),
     ((StudioRoute MeshConsensus_route, ''GET''),
       viewer_spec (StudioRoute MeshConsensus_route) (PlatformReadAction MeshConsensusRead)),
     ((StudioRoute MeshDelegations_route, ''GET''),
       viewer_spec (StudioRoute MeshDelegations_route) (PlatformReadAction MeshDelegationRead)),
     ((StudioRoute Profiles_route, ''GET''),
       viewer_spec (StudioRoute Profiles_route) (PlatformReadAction ProfileReadList)),
     ((StudioRoute Profiles_route, ''POST''),
       operator_spec (StudioRoute Profiles_route) (PlatformOperatorAction ProfileCreate)),
     ((StudioRoute ProfileByName_route, ''PUT''),
       operator_spec (StudioRoute ProfileByName_route) (PlatformOperatorAction ProfileUpdate)),
     ((StudioRoute ProfileByName_route, ''DELETE''),
       operator_spec (StudioRoute ProfileByName_route) (PlatformOperatorAction ProfileDelete)),
     ((StudioRoute AgentProfileById_route, ''POST''),
       operator_spec (StudioRoute AgentProfileById_route) (PlatformOperatorAction AgentProfileAssign)),
     ((StudioRoute Search_route, ''GET''),
       viewer_spec (StudioRoute Search_route) (PlatformReadAction SearchRead)),
     ((StudioRoute ObservabilityAde_route, ''GET''),
       viewer_spec (StudioRoute ObservabilityAde_route) (PlatformReadAction ObservabilityAdeRead)),
     ((StudioRoute Skills_route, ''GET''),
       viewer_spec (StudioRoute Skills_route) (PlatformReadAction SkillReadList)),
     ((StudioRoute SkillInstallById_route, ''POST''),
       operator_spec (StudioRoute SkillInstallById_route) (PlatformOperatorAction SkillInstall)),
     ((StudioRoute SkillUninstallById_route, ''POST''),
       operator_spec (StudioRoute SkillUninstallById_route) (PlatformOperatorAction SkillUninstall)),
     ((StudioRoute SkillQuarantineById_route, ''POST''),
       operator_spec (StudioRoute SkillQuarantineById_route) (PlatformOperatorAction SkillQuarantine)),
     ((StudioRoute SkillQuarantineResolveById_route, ''POST''),
       operator_spec (StudioRoute SkillQuarantineResolveById_route) (PlatformOperatorAction SkillQuarantineResolve)),
     ((StudioRoute SkillReverifyById_route, ''POST''),
       operator_spec (StudioRoute SkillReverifyById_route) (PlatformOperatorAction SkillReverify)),
     ((StudioRoute SkillExecuteByName_route, ''POST''),
       operator_spec (StudioRoute SkillExecuteByName_route) (PlatformOperatorAction SkillExecute))]"

definition link_arms :: "spec_arm list" where
  "link_arms =
    [((LinkRoute A2aTasks_route, ''GET''),
       viewer_spec (LinkRoute A2aTasks_route) (PlatformReadAction A2aTaskReadList)),
     ((LinkRoute A2aTasks_route, ''POST''),
       operator_spec (LinkRoute A2aTasks_route) (PlatformOperatorAction A2aTaskSend)),
     ((LinkRoute A2aTaskById_route, ''GET''),
       viewer_spec (LinkRoute A2aTaskById_route) (PlatformReadAction A2aTaskReadItem)),
     ((LinkRoute A2aTaskStreamById_route, ''GET''),
       viewer_spec (LinkRoute A2aTaskStreamById_route) (PlatformReadAction A2aTaskStreamRead)),
     ((LinkRoute A2aDiscover_route, ''GET''),
       viewer_spec (LinkRoute A2aDiscover_route) (PlatformReadAction A2aDiscoverRead)),
     ((LinkRoute Channels_route, ''GET''),
       viewer_spec (LinkRoute Channels_route) (PlatformReadAction ChannelReadList)),
     ((LinkRoute Channels_route, ''POST''),
       operator_spec (LinkRoute Channels_route) (PlatformOperatorAction ChannelCreate)),
     ((LinkRoute ChannelById_route, ''DELETE''),
       operator_spec (LinkRoute ChannelById_route) (PlatformOperatorAction ChannelDelete)),
     ((LinkRoute ChannelReconnectById_route, ''POST''),
       operator_spec (LinkRoute ChannelReconnectById_route) (PlatformOperatorAction ChannelReconnect)),
     ((LinkRoute ChannelInjectByType_route, ''POST''),
       operator_spec (LinkRoute ChannelInjectByType_route) (PlatformOperatorAction ChannelInject)),
     ((LinkRoute Costs_route, ''GET''),
       viewer_spec (LinkRoute Costs_route) (PlatformReadAction CostRead)),
     ((LinkRoute ItpEvents_route, ''GET''),
       viewer_spec (LinkRoute ItpEvents_route) (PlatformReadAction ItpEventRead)),
     ((LinkRoute WebSocket_route, ''GET''),
       viewer_spec (LinkRoute WebSocket_route) (PlatformReadAction WebSocketConnect)),
     ((LinkRoute WebSocketTickets_route, ''POST''),
       viewer_spec (LinkRoute WebSocketTickets_route) (PlatformReadAction WebSocketTicketIssue)),
     ((LinkRoute OAuthProviders_route, ''GET''),
       viewer_spec (LinkRoute OAuthProviders_route) (PlatformReadAction OAuthProviderRead)),
     ((LinkRoute OAuthCallback_route, ''GET''),
       viewer_spec (LinkRoute OAuthCallback_route) (PlatformReadAction OAuthCallbackReceive)),
     ((LinkRoute OAuthConnections_route, ''GET''),
       viewer_spec (LinkRoute OAuthConnections_route) (PlatformReadAction OAuthConnectionRead)),
     ((LinkRoute OAuthConnect_route, ''POST''),
       operator_spec (LinkRoute OAuthConnect_route) (PlatformOperatorAction OAuthConnect)),
     ((LinkRoute OAuthConnectionByRefId_route, ''DELETE''),
       operator_spec (LinkRoute OAuthConnectionByRefId_route) (PlatformOperatorAction OAuthConnectionDelete)),
     ((LinkRoute OAuthExecute_route, ''POST''),
       operator_spec (LinkRoute OAuthExecute_route) (PlatformOperatorAction OAuthExecuteApiCall))]"

definition market_arms :: "spec_arm list" where
  "market_arms =
    [((MarketRoute MarketplaceAgents_route, ''GET''),
       viewer_spec (MarketRoute MarketplaceAgents_route) (PlatformReadAction MarketplaceAgentReadList)),
     ((MarketRoute MarketplaceAgents_route, ''POST''),
       operator_spec (MarketRoute MarketplaceAgents_route) (PlatformOperatorAction MarketplaceAgentRegister)),
     ((MarketRoute MarketplaceAgentById_route, ''GET''),
       viewer_spec (MarketRoute MarketplaceAgentById_route) (PlatformReadAction MarketplaceAgentReadItem)),
     ((MarketRoute MarketplaceAgentById_route, ''DELETE''),
       operator_spec (MarketRoute MarketplaceAgentById_route) (PlatformOperatorAction MarketplaceAgentDelist)),
     ((MarketRoute MarketplaceAgentStatusById_route, ''PUT''),
       operator_spec (MarketRoute MarketplaceAgentStatusById_route) (PlatformOperatorAction MarketplaceAgentStatusUpdate)),
     ((MarketRoute MarketplaceSkills_route, ''GET''),
       viewer_spec (MarketRoute MarketplaceSkills_route) (PlatformReadAction MarketplaceSkillReadList)),
     ((MarketRoute MarketplaceSkills_route, ''POST''),
       operator_spec (MarketRoute MarketplaceSkills_route) (PlatformOperatorAction MarketplaceSkillPublish)),
     ((MarketRoute MarketplaceSkillByName_route, ''GET''),
       viewer_spec (MarketRoute MarketplaceSkillByName_route) (PlatformReadAction MarketplaceSkillReadItem)),
     ((MarketRoute MarketplaceContracts_route, ''GET''),
       viewer_spec (MarketRoute MarketplaceContracts_route) (PlatformReadAction MarketplaceContractReadList)),
     ((MarketRoute MarketplaceContracts_route, ''POST''),
       operator_spec (MarketRoute MarketplaceContracts_route) (PlatformOperatorAction MarketplaceContractPropose)),
     ((MarketRoute MarketplaceContractById_route, ''GET''),
       viewer_spec (MarketRoute MarketplaceContractById_route) (PlatformReadAction MarketplaceContractReadItem)),
     ((MarketRoute MarketplaceContractAcceptById_route, ''POST''),
       operator_spec (MarketRoute MarketplaceContractAcceptById_route) (PlatformOperatorAction MarketplaceContractAccept)),
     ((MarketRoute MarketplaceContractRejectById_route, ''POST''),
       operator_spec (MarketRoute MarketplaceContractRejectById_route) (PlatformOperatorAction MarketplaceContractReject)),
     ((MarketRoute MarketplaceContractStartById_route, ''POST''),
       operator_spec (MarketRoute MarketplaceContractStartById_route) (PlatformOperatorAction MarketplaceContractStart)),
     ((MarketRoute MarketplaceContractCompleteById_route, ''POST''),
       operator_spec (MarketRoute MarketplaceContractCompleteById_route) (PlatformOperatorAction MarketplaceContractComplete)),
     ((MarketRoute MarketplaceContractDisputeById_route, ''POST''),
       operator_spec (MarketRoute MarketplaceContractDisputeById_route) (PlatformOperatorAction MarketplaceContractDispute)),
     ((MarketRoute MarketplaceContractCancelById_route, ''POST''),
       operator_spec (MarketRoute MarketplaceContractCancelById_route) (PlatformOperatorAction MarketplaceContractCancel)),
     ((MarketRoute MarketplaceContractResolveById_route, ''POST''),
       operator_spec (MarketRoute MarketplaceContractResolveById_route) (PlatformOperatorAction MarketplaceContractResolve)),
     ((MarketRoute MarketplaceWallet_route, ''GET''),
       viewer_spec (MarketRoute MarketplaceWallet_route) (PlatformReadAction MarketplaceWalletRead)),
     ((MarketRoute MarketplaceWalletSeed_route, ''POST''),
       operator_spec (MarketRoute MarketplaceWalletSeed_route) (PlatformOperatorAction MarketplaceWalletSeed)),
     ((MarketRoute MarketplaceWalletTransactions_route, ''GET''),
       viewer_spec (MarketRoute MarketplaceWalletTransactions_route) (PlatformReadAction MarketplaceWalletTransactionRead)),
     ((MarketRoute MarketplaceReviews_route, ''POST''),
       operator_spec (MarketRoute MarketplaceReviews_route) (PlatformOperatorAction MarketplaceReviewSubmit)),
     ((MarketRoute MarketplaceReviewsByAgentId_route, ''GET''),
       viewer_spec (MarketRoute MarketplaceReviewsByAgentId_route) (PlatformReadAction MarketplaceReviewReadList)),
     ((MarketRoute MarketplaceDiscover_route, ''POST''),
       operator_spec (MarketRoute MarketplaceDiscover_route) (PlatformOperatorAction MarketplaceDiscover))]"

definition admin_arms :: "spec_arm list" where
  "admin_arms =
    [((AdminRoute SafetyStatus_route, ''GET''),
       route_spec_new (AdminRoute SafetyStatus_route) (OperatorAction SafetyStatusRead) False (MinimumRole Operator)),
     ((AdminRoute SandboxReviews_route, ''GET''),
       route_spec_new (AdminRoute SandboxReviews_route) (PlatformReadAction SandboxReviewReadList) False (MinimumRole Operator)),
     ((AdminRoute SandboxReviewApproveById_route, ''POST''),
       route_spec_new (AdminRoute SandboxReviewApproveById_route) (AdminAction SandboxReviewApprove) True SafetyReviewKind),
     ((AdminRoute SandboxReviewRejectById_route, ''POST''),
       route_spec_new (AdminRoute SandboxReviewRejectById_route) (AdminAction SandboxReviewReject) True SafetyReviewKind),
     ((AdminRoute SafetyPauseAgent_route, ''POST''),
       admin_spec (AdminRoute SafetyPauseAgent_route) (AdminAction SafetyPauseAgent) True),
     ((AdminRoute SafetyResumeAgent_route, ''POST''),
       route_spec_new (AdminRoute SafetyResumeAgent_route) (AdminAction SafetyResumeAgent) True SafetyReviewKind),
     ((AdminRoute SafetyQuarantineAgent_route, ''POST''),
       admin_spec (AdminRoute SafetyQuarantineAgent_route) (AdminAction SafetyQuarantineAgent) True),
     ((AdminRoute SafetyKillAll_route, ''POST''),
       superadmin_spec (AdminRoute SafetyKillAll_route) (SuperadminAction SafetyKillAll)),
     ((AdminRoute SafetyChecks_route, ''GET''),
       admin_spec (AdminRoute SafetyChecks_route) (AdminAction SafetyCheckReadList) True),
     ((AdminRoute SafetyChecks_route, ''POST''),
       admin_spec (AdminRoute SafetyChecks_route) (AdminAction SafetyCheckRegister) True),
     ((AdminRoute SafetyCheckById_route, ''DELETE''),
       admin_spec (AdminRoute SafetyCheckById_route) (AdminAction SafetyCheckDelete) True),
     ((AdminRoute AdminBackupList_route, ''GET''),
       admin_spec (AdminRoute AdminBackupList_route) (AdminAction AdminBackupReadList) False),
     ((AdminRoute AdminBackupCreate_route, ''POST''),
       admin_spec (AdminRoute AdminBackupCreate_route) (AdminAction AdminBackupCreate) True),
     ((AdminRoute AdminExport_route, ''GET''),
       admin_spec (AdminRoute AdminExport_route) (AdminAction AdminExportRead) False),
     ((AdminRoute AdminRestore_route, ''POST''),
       superadmin_spec (AdminRoute AdminRestore_route) (SuperadminAction AdminRestoreVerify)),
     ((AdminRoute ProviderKeys_route, ''GET''),
       admin_spec (AdminRoute ProviderKeys_route) (AdminAction ProviderKeyReadList) False),
     ((AdminRoute ProviderKeys_route, ''PUT''),
       admin_spec (AdminRoute ProviderKeys_route) (AdminAction ProviderKeyWrite) True),
     ((AdminRoute ProviderKeyByEnvName_route, ''DELETE''),
       admin_spec (AdminRoute ProviderKeyByEnvName_route) (AdminAction ProviderKeyDelete) True),
     ((AdminRoute CodexAuthStatus_route, ''GET''),
       admin_spec (AdminRoute CodexAuthStatus_route) (AdminAction CodexAuthReadStatus) False),
     ((AdminRoute CodexAuthLogin_route, ''POST''),
       admin_spec (AdminRoute CodexAuthLogin_route) (AdminAction CodexAuthLogin) True),
     ((AdminRoute CodexAuthLogout_route, ''POST''),
       admin_spec (AdminRoute CodexAuthLogout_route) (AdminAction CodexAuthLogout) True),
     ((AdminRoute Webhooks_route, ''GET''),
       admin_spec (AdminRoute Webhooks_route) (AdminAction WebhookReadList) True),
     ((AdminRoute Webhooks_route, ''POST''),
       admin_spec (AdminRoute Webhooks_route) (AdminAction WebhookCreate) True),
     ((AdminRoute WebhookById_route, ''PUT''),
       admin_spec (AdminRoute WebhookById_route) (AdminAction WebhookUpdate) True),
     ((AdminRoute WebhookById_route, ''DELETE''),
       admin_spec (AdminRoute WebhookById_route) (AdminAction WebhookDelete) True),
     ((AdminRoute WebhookTestById_route, ''POST''),
       admin_spec (AdminRoute WebhookTestById_route) (AdminAction WebhookTest) True),
     ((AdminRoute PcControlStatus_route, ''GET''),
       admin_spec (AdminRoute PcControlStatus_route) (AdminAction PcControlStatusRead) False),
     ((AdminRoute PcControlStatus_route, ''PUT''),
       admin_spec (AdminRoute PcControlStatus_route) (AdminAction PcControlStatusWrite) True),
     ((AdminRoute PcControlActions_route, ''GET''),
       admin_spec (AdminRoute PcControlActions_route) (AdminAction PcControlActionRead) False),
     ((AdminRoute PcControlAllowedApps_route, ''PUT''),
       admin_spec (AdminRoute PcControlAllowedApps_route) (AdminAction PcControlAllowedAppsWrite) True),
     ((AdminRoute PcControlBlockedHotkeys_route, ''PUT''),
       admin_spec (AdminRoute PcControlBlockedHotkeys_route) (AdminAction PcControlBlockedHotkeysWrite) True),
     ((AdminRoute PcControlSafeZones_route, ''PUT''),
       admin_spec (AdminRoute PcControlSafeZones_route) (AdminAction PcControlSafeZonesWrite) True)]"

definition route_arms :: "spec_arm list" where
  "route_arms = session_arms @ work_arms @ studio_arms @ link_arms @ market_arms @ admin_arms"

definition route_spec_for :: "route_id \<Rightarrow> string \<Rightarrow> route_authorization_spec option" where
  "route_spec_for r m = map_of route_arms (r, m)"

subsection \<open>Decisions\<close>

text \<open>
  Who a kind of authorization lets through, and the kind that the rule of an action amounts to.
\<close>

fun kind_allows :: "route_authorization_kind \<Rightarrow> principal \<Rightarrow> resource_context \<Rightarrow> bool" where
  "kind_allows (MinimumRole r) p res = (r \<le> pr_base_role p)"
| "kind_allows SafetyReviewKind p res =
     (Admin \<le> pr_base_role p \<or> (Operator \<le> pr_base_role p \<and> pr_capabilities p \<noteq> {}))"
| "kind_allows OwnerOrAdmin p res = (Admin \<le> pr_base_role p \<or> matches_resource_owner p res)"

definition policy_kind :: "action \<Rightarrow> route_authorization_kind" where
  "policy_kind a =
     (if a \<in> {ReadAction LiveExecutionRead, ReadAction LiveExecutionCancel} then OwnerOrAdmin
      else if a \<in> {AdminAction SafetyResumeAgent, AdminAction SandboxReviewApprove,
                   AdminAction SandboxReviewReject} then SafetyReviewKind
      else if a \<in> set viewer_actions then MinimumRole Viewer
      else if a \<in> set operator_actions then MinimumRole Operator
      else if a \<in> set admin_actions then MinimumRole Admin
      else MinimumRole SuperAdmin)"

lemma policy_for_allows:
  "rule_allows (reg_rule (policy_for a)) p c \<longleftrightarrow> kind_allows (policy_kind a) p (cx_resource c)"
  by (simp add: policy_for_def policy_kind_def rule_allows_def minimum_role_rule_def
      has_minimum_role_def satisfies_def principal_has_capability_iff)

lemma authorize_allowed:
  "dec_allowed (authorize p c) \<longleftrightarrow> kind_allows (policy_kind (cx_action c)) p (cx_resource c)"
  by (simp add: authorize_def Let_def rule_evaluate_allows policy_for_allows)

lemma authorize_reason:
  "\<not> dec_allowed (authorize p c) \<Longrightarrow>
   dec_denial_reason (authorize p c) \<in> {Some DenyPredicateMatched, Some AllowPredicateNotSatisfied}"
  by (simp add: authorize_def Let_def rule_evaluate_def split: if_splits)

text \<open>A decision is monotone in the role and in the capabilities.\<close>

lemma kind_allows_mono:
  "kind_allows k p res \<Longrightarrow> pr_base_role p \<le> pr_base_role q \<Longrightarrow>
   pr_capabilities p \<subseteq> pr_capabilities q \<Longrightarrow> pr_subject p = pr_subject q \<Longrightarrow> kind_allows k q res"
  by (cases k) (auto simp: matches_resource_owner_def split: resource_context.splits)

lemma authorize_claims_Inr:
  "(\<exists>r. authorize_claims cl c = Inr r) \<longleftrightarrow>
     (\<exists>cs p. cl = Some cs \<and> from_claims cs (auth_mode_hint_for_claims cs) = Inr p \<and>
             kind_allows (policy_kind (cx_action c)) p (cx_resource c))"
  by (auto simp: authorize_claims_def evaluate_claims_def Let_def authorize_allowed
      split: option.splits sum.splits)

text \<open>Claims that normalize to the same role and capability are decided alike.\<close>

lemma authorize_claims_min_role:
  assumes "policy_kind (cx_action c) = MinimumRole r"
  shows "(\<exists>x. authorize_claims (Some cs) c = Inr x) \<longleftrightarrow>
         (case granted_role cs of None \<Rightarrow> False | Some g \<Rightarrow> r \<le> g)"
proof (cases "from_claims cs (auth_mode_hint_for_claims cs)")
  case (Inl e)
  with from_claims_Inl[OF Inl] show ?thesis unfolding authorize_claims_Inr by auto
next
  case (Inr p)
  with from_claims_Inr(1)[OF Inr] assms show ?thesis unfolding authorize_claims_Inr by auto
qed

subsection \<open>The table of routes against the registry\<close>

text \<open>
  The eight actions that no list of the registry names fall to its default, the highest role;
  the list of pending sandbox reviews is named by the viewers' list and by the operators', and
  the first one decides.
\<close>

definition unlisted_actions :: "action list" where
  "unlisted_actions =
     [ReadAction SessionReadItem, ReadAction AutonomyReadStatus, ReadAction AutonomyReadJobs,
      ReadAction AutonomyReadRuns, PlatformReadAction ObservabilityAdeRead,
      OperatorAction AutonomyPolicyWrite, OperatorAction AutonomySuppressionWrite,
      OperatorAction AutonomyRunApprove]"

definition effective_kind :: "route_authorization_spec \<Rightarrow> route_authorization_kind" where
  "effective_kind s =
     (if spec_action s \<in> set unlisted_actions then MinimumRole SuperAdmin
      else if spec_action s = PlatformReadAction SandboxReviewReadList then MinimumRole Viewer
      else spec_authorization_kind s)"

definition arm_ok :: "spec_arm \<Rightarrow> bool" where
  "arm_ok arm \<longleftrightarrow>
     (case arm of ((r, m), s) \<Rightarrow> spec_route_id s = r \<and> policy_kind (spec_action s) = effective_kind s)"

lemmas spec_defs =
  viewer_spec_def operator_spec_def admin_spec_def superadmin_spec_def owner_or_admin_spec_def
  route_spec_new_def

lemmas action_lists =
  viewer_actions_def operator_actions_def admin_actions_def superadmin_actions_def

lemma arm_ok_split:
  "arm_ok ((r, m), s) \<longleftrightarrow> spec_route_id s = r \<and> policy_kind (spec_action s) = effective_kind s"
  by (simp add: arm_ok_def)

lemmas arm_eval = arm_ok_split spec_defs policy_kind_def effective_kind_def unlisted_actions_def action_lists

lemma session_arms_ok: "list_all arm_ok session_arms"
  by (simp add: session_arms_def arm_eval)

lemma work_arms_ok: "list_all arm_ok work_arms"
  by (simp add: work_arms_def arm_eval)

lemma studio_arms_ok: "list_all arm_ok studio_arms"
  by (simp add: studio_arms_def arm_eval)

lemma link_arms_ok: "list_all arm_ok link_arms"
  by (simp add: link_arms_def arm_eval)

lemma market_arms_ok: "list_all arm_ok market_arms"
  by (simp add: market_arms_def arm_eval)

lemma admin_arms_ok: "list_all arm_ok admin_arms"
  by (simp add: admin_arms_def arm_eval)

lemma route_arms_ok: "list_all arm_ok route_arms"
  by (simp add: route_arms_def session_arms_ok work_arms_ok studio_arms_ok link_arms_ok
      market_arms_ok admin_arms_ok)

lemma route_spec_kind:
  assumes "route_spec_for r m = Some s"
  shows "spec_route_id s = r" "policy_kind (spec_action s) = effective_kind s"
proof -
  have "((r, m), s) \<in> set route_arms"
    using assms unfolding route_spec_for_def by (rule map_of_SomeD)
  then have "arm_ok ((r, m), s)" using route_arms_ok by (simp add: list_all_iff)
  then show "spec_route_id s = r" "policy_kind (spec_action s) = effective_kind s"
    by (simp_all add: arm_ok_split)
qed

text \<open>
  C17. The decision the gateway takes for a route is the one its specification declares, for
  every principal and resource, except on the routes of nine actions: the eight unlisted ones
  need the superadmin role whatever the specification says, and the pending sandbox reviews
  declared for operators are open to every viewer.
\<close>

theorem route_decision_as_declared:
  assumes "route_spec_for r m = Some s"
  shows "dec_allowed (authorize p (with_resource (context_new (spec_action s) r) res)) =
         kind_allows
           (if spec_action s \<in> set unlisted_actions then MinimumRole SuperAdmin
            else if spec_action s = PlatformReadAction SandboxReviewReadList then MinimumRole Viewer
            else spec_authorization_kind s) p res"
  using route_spec_kind(2)[OF assms]
  by (simp add: authorize_allowed with_resource_def context_new_def effective_kind_def)

theorem route_decision_as_declared_witness:
  "let p = \<lparr>pr_subject = ''u'', pr_base_role = Admin, pr_capabilities = {}, pr_auth_mode = Jwt,
            pr_token_id = None, pr_authz_version = 1, pr_issuer = None\<rparr>
   in \<not> dec_allowed (authorize p (with_resource
        (context_new (ReadAction SessionReadItem) (CoreRoute SessionById_route)) NoResource))"
proof -
  have s: "route_spec_for (CoreRoute SessionById_route) ''GET'' =
           Some (viewer_spec (CoreRoute SessionById_route) (ReadAction SessionReadItem))"
    by (simp add: route_spec_for_def route_arms_def session_arms_def)
  show ?thesis
    using route_decision_as_declared[OF s, where res = NoResource]
    by (simp add: spec_defs unlisted_actions_def role_order)
qed

end
