(* ===== verification/Auth.thy ===== *)
theory Auth
  imports Authz
begin

section \<open>Authentication: tokens, revocation and the middleware\<close>

text \<open>
  \<^verbatim>\<open>ghost-gateway/src/api/auth.rs\<close> and the statements of
  \<^verbatim>\<open>cortex-storage/src/queries/revoked_token_queries.rs\<close>: the authentication middleware in its
  three modes, the login, refresh, session and logout endpoints, the revocation set and its
  table. The token library, the validity of header values and the rendering of timestamps are
  outside the sources: they are the fields of \<open>auth_env\<close>, an argument of the operations that use
  them. The clock, the fresh token ids and the success of a table write are inputs.
\<close>

unbundle bit_operations_syntax

record auth_env =
  env_decode :: "string \<Rightarrow> string \<Rightarrow> claims option"
  env_expired :: "u64 \<Rightarrow> claims \<Rightarrow> bool"
  env_encode :: "claims \<Rightarrow> string \<Rightarrow> string option"
  env_header_ok :: "string \<Rightarrow> bool"
  env_rfc3339 :: "u64 \<Rightarrow> string"

text \<open>
  \<open>env_decode\<close> checks the signature and the shape of a token, \<open>env_expired\<close> is the expiry check
  with its leeway, \<open>env_encode\<close> signs; \<open>env_rfc3339\<close> renders a claim's expiry (or the current time
  when the expiry is out of range).
\<close>

record auth_config =
  jwt_secret :: "string option"
  legacy_token :: "string option"
  is_production :: bool

definition auth_config_from_env :: "(string \<Rightarrow> string option) \<Rightarrow> auth_config" where
  "auth_config_from_env var =
     \<lparr>jwt_secret = var ''GHOST_JWT_SECRET'', legacy_token = var ''GHOST_TOKEN'',
      is_production = eq_ignore_ascii_case
        (case var ''GHOST_ENV'' of None \<Rightarrow> [] | Some v \<Rightarrow> v) ''production''\<rparr>"

definition auth_required :: "auth_config \<Rightarrow> bool" where
  "auth_required cfg \<longleftrightarrow> jwt_secret cfg \<noteq> None \<or> legacy_token cfg \<noteq> None"

text \<open>\<open>False\<close> when the process exits.\<close>

definition validate_production :: "auth_config \<Rightarrow> bool" where
  "validate_production cfg \<longleftrightarrow> \<not> (is_production cfg \<and> \<not> auth_required cfg)"

definition is_safety_endpoint :: "string \<Rightarrow> bool" where
  "is_safety_endpoint path \<longleftrightarrow> starts_with ''/api/safety/'' path"

definition extract_bearer :: "string \<Rightarrow> string option" where
  "extract_bearer h = strip_prefix ''Bearer '' h"

subsection \<open>Comparing secrets\<close>

definition byte_at :: "string \<Rightarrow> nat \<Rightarrow> u8" where
  "byte_at s i = (if i < length s then of_nat (of_char (s ! i)) else 0)"

definition constant_time_eq :: "string \<Rightarrow> string \<Rightarrow> bool" where
  "constant_time_eq a b =
     (let max_len = max (length a) (length b);
          diff0 = (if length a \<noteq> length b then 1 else 0 :: u8)
      in foldl (\<lambda>diff i. diff OR (byte_at a i XOR byte_at b i)) diff0 [0..<max_len] = 0)"

lemma word_or_zero: "(a OR b = 0) \<longleftrightarrow> a = 0 \<and> b = 0" for a b :: "'a::len word"
  by (auto simp: bit_eq_iff bit_simps)

lemma word_xor_zero: "(a XOR b = 0) \<longleftrightarrow> a = b" for a b :: "'a::len word"
  by (auto simp: bit_eq_iff bit_simps)

lemma foldl_or_zero:
  fixes z :: "'a::len word"
  shows "foldl (\<lambda>diff i. diff OR f i) z xs = 0 \<longleftrightarrow> z = 0 \<and> (\<forall>i\<in>set xs. f i = 0)"
  by (induction xs arbitrary: z) (auto simp: word_or_zero)

text \<open>
  The constant-time comparison of secrets, which folds the exclusive or of all byte pairs
  over the longer length with zero padding, accepts exactly equal strings.
\<close>

theorem constant_time_eq_exact: "constant_time_eq a b = (a = b)"
proof
  assume ct: "constant_time_eq a b"
  then have len: "length a = length b" and
    eq: "\<And>i. i < length a \<Longrightarrow> byte_at a i XOR byte_at b i = 0"
    by (auto simp: constant_time_eq_def Let_def foldl_or_zero split: if_splits)
  show "a = b"
  proof (rule nth_equalityI[OF len])
    fix i assume "i < length a"
    with eq[of i] len have "(of_nat (of_char (a ! i) :: nat) :: u8) = of_nat (of_char (b ! i))"
      by (simp add: byte_at_def word_xor_zero)
    then show "a ! i = b ! i" by (simp only: byte_inject)
  qed
next
  assume "a = b"
  then show "constant_time_eq a b"
    by (simp only: constant_time_eq_def Let_def foldl_or_zero) simp
qed

subsection \<open>Revocation\<close>

text \<open>
  The table has the token id as its primary key; \<^verbatim>\<open>INSERT OR IGNORE\<close> keeps the first row. Text is
  compared bytewise, as the storage engine does (\<open>text_less\<close>).
\<close>

type_synonym revoked_table = "(string \<times> string) list"

definition revoke_token :: "revoked_table \<Rightarrow> string \<Rightarrow> string \<Rightarrow> revoked_table" where
  "revoke_token tbl jti expires_at =
     (if jti \<in> fst ` set tbl then tbl else tbl @ [(jti, expires_at)])"

definition table_is_revoked :: "revoked_table \<Rightarrow> string \<Rightarrow> bool" where
  "table_is_revoked tbl jti \<longleftrightarrow> length (filter (\<lambda>row. fst row = jti) tbl) > 0"

definition load_active_revocations :: "revoked_table \<Rightarrow> string \<Rightarrow> string list" where
  "load_active_revocations tbl now = map fst (filter (\<lambda>row. text_less now (snd row)) tbl)"

definition cleanup_expired :: "revoked_table \<Rightarrow> string \<Rightarrow> revoked_table" where
  "cleanup_expired tbl now = filter (\<lambda>row. text_less now (snd row)) tbl"

record revocation_set =
  rv_revoked :: "string set"
  rv_attached :: bool
  rv_table :: revoked_table

definition revocation_new :: "revoked_table \<Rightarrow> revocation_set" where
  "revocation_new tbl = \<lparr>rv_revoked = {}, rv_attached = False, rv_table = tbl\<rparr>"

text \<open>The connection may fail to open; then revocations stay in memory only.\<close>

definition set_db :: "bool \<Rightarrow> revocation_set \<Rightarrow> revocation_set" where
  "set_db connected rv = (if connected then rv\<lparr>rv_attached := True\<rparr> else rv)"

definition load_from_db :: "string \<Rightarrow> revocation_set \<Rightarrow> revocation_set" where
  "load_from_db now rv =
     rv\<lparr>rv_revoked := rv_revoked rv \<union> set (load_active_revocations (rv_table rv) now),
        rv_table := cleanup_expired (rv_table rv) now\<rparr>"

definition revoke_with_expiry :: "bool \<Rightarrow> string \<Rightarrow> string \<Rightarrow> revocation_set \<Rightarrow> revocation_set" where
  "revoke_with_expiry write_ok jti expires_at rv =
     rv\<lparr>rv_revoked := insert jti (rv_revoked rv),
        rv_table := (if rv_attached rv \<and> write_ok then revoke_token (rv_table rv) jti expires_at
                     else rv_table rv)\<rparr>"

definition revoke :: "bool \<Rightarrow> string \<Rightarrow> revocation_set \<Rightarrow> revocation_set" where
  "revoke write_ok jti rv = revoke_with_expiry write_ok jti ''9999-12-31T23:59:59Z'' rv"

definition is_revoked :: "revocation_set \<Rightarrow> string \<Rightarrow> bool" where
  "is_revoked rv jti \<longleftrightarrow> jti \<in> rv_revoked rv"

text \<open>A restart makes a new set, loads the active rows and attaches the table.\<close>

definition restart :: "string \<Rightarrow> bool \<Rightarrow> revocation_set \<Rightarrow> revocation_set" where
  "restart now connected rv = set_db connected (load_from_db now (revocation_new (rv_table rv)))"

subsection \<open>Requests and responses\<close>

text \<open>
  A request has its path, its method and the headers that are present and readable as text;
  the configuration and the revocation set may be missing from its extensions.
\<close>

record http_request =
  rq_method :: string
  rq_path :: string
  rq_header :: "string \<Rightarrow> string option"

datatype auth_outcome =
    Proceed "claims option"
  | Refuse nat string

record login_response =
  access_token :: string
  token_type :: string
  expires_in :: u64

datatype auth_body =
    ErrorBody string
  | LoginBody login_response
  | MessageBody string
  | NoBody

record auth_response =
  rs_status :: nat
  rs_body :: auth_body
  rs_set_cookie :: "string option"

record session_response =
  ss_authenticated :: bool
  ss_subject :: string
  ss_role :: string
  ss_capabilities :: "string list"
  ss_authz_v :: "16 word option"
  ss_mode :: string

definition cookie_security_attrs :: "bool \<Rightarrow> string" where
  "cookie_security_attrs secure = (if secure then ''; Secure'' else [])"

definition build_refresh_cookie :: "string \<Rightarrow> nat \<Rightarrow> bool \<Rightarrow> string" where
  "build_refresh_cookie token max_age secure =
     ''ghost_refresh='' @ token @ ''; HttpOnly'' @ cookie_security_attrs secure @
     ''; SameSite=Strict; Path=/api/auth; Max-Age='' @ show_nat max_age"

definition build_clear_refresh_cookie :: "bool \<Rightarrow> string" where
  "build_clear_refresh_cookie secure =
     ''ghost_refresh=; HttpOnly'' @ cookie_security_attrs secure @
     ''; SameSite=Strict; Path=/api/auth; Max-Age=0''"

fun find_map :: "('a \<Rightarrow> 'b option) \<Rightarrow> 'a list \<Rightarrow> 'b option" where
  "find_map f [] = None"
| "find_map f (x # xs) = (case f x of Some y \<Rightarrow> Some y | None \<Rightarrow> find_map f xs)"

definition extract_refresh_cookie :: "http_request \<Rightarrow> string option" where
  "extract_refresh_cookie rq =
     Option.bind (rq_header rq ''cookie'') (\<lambda>cookies.
       find_map (\<lambda>cookie. strip_prefix ''ghost_refresh='' (trim cookie)) (split_on (CHR '';'') cookies))"

definition bearer_of :: "http_request \<Rightarrow> string option" where
  "bearer_of rq = Option.bind (rq_header rq ''authorization'') extract_bearer"

text \<open>The refresh token is the cookie's, or else the bearer token.\<close>

definition refresh_token_of :: "http_request \<Rightarrow> string option" where
  "refresh_token_of rq =
     (case extract_refresh_cookie rq of Some t \<Rightarrow> Some t | None \<Rightarrow> bearer_of rq)"

definition decode_jwt :: "auth_env \<Rightarrow> u64 \<Rightarrow> string \<Rightarrow> string \<Rightarrow> claims option" where
  "decode_jwt env now token secret =
     (case env_decode env token secret of
        None \<Rightarrow> None
      | Some c \<Rightarrow> if env_expired env now c then None else Some c)"

definition decode_jwt_allow_expired :: "auth_env \<Rightarrow> string \<Rightarrow> string \<Rightarrow> claims option" where
  "decode_jwt_allow_expired env token secret = env_decode env token secret"

definition encode_jwt :: "auth_env \<Rightarrow> claims \<Rightarrow> string \<Rightarrow> string option" where
  "encode_jwt env c secret = env_encode env c secret"

subsection \<open>The middleware\<close>

definition public_paths :: "string list" where
  "public_paths =
     [''/api/health'', ''/api/ready'', ''/api/compatibility'', ''/api/auth/login'',
      ''/api/auth/refresh'', ''/api/auth/logout'', ''/api/oauth/callback'', ''/api/openapi.json'',
      ''/api/ws'', ''/.well-known/agent.json'', ''/a2a'']"

definition jwt_mode ::
    "auth_env \<Rightarrow> u64 \<Rightarrow> revocation_set option \<Rightarrow> string \<Rightarrow> string \<Rightarrow> auth_outcome" where
  "jwt_mode env now rv bearer secret =
     (case decode_jwt env now bearer secret of
        None \<Rightarrow> Refuse 401 ''INVALID_TOKEN''
      | Some c \<Rightarrow>
          if cl_jti c \<noteq> [] \<and> (case rv of None \<Rightarrow> False | Some s \<Rightarrow> is_revoked s (cl_jti c))
          then Refuse 401 ''TOKEN_REVOKED''
          else Proceed (Some c))"

definition auth_middleware ::
    "auth_env \<Rightarrow> u64 \<Rightarrow> auth_config option \<Rightarrow> revocation_set option \<Rightarrow> http_request \<Rightarrow> auth_outcome" where
  "auth_middleware env now cfg rv rq =
     (if rq_path rq \<in> set public_paths then Proceed None
      else case cfg of
        None \<Rightarrow>
          if is_safety_endpoint (rq_path rq) then Refuse 401 ''AUTH_REQUIRED''
          else Proceed (Some no_auth_fallback)
      | Some config \<Rightarrow>
          if \<not> auth_required config then
            (if is_production config then Refuse 503 ''AUTH_NOT_CONFIGURED''
             else if is_safety_endpoint (rq_path rq) then Refuse 401 ''AUTH_REQUIRED''
             else Proceed (Some no_auth_fallback))
          else (case bearer_of rq of
              None \<Rightarrow> Refuse 401 ''MISSING_TOKEN''
            | Some bearer \<Rightarrow>
                (case jwt_secret config of
                   Some secret \<Rightarrow> jwt_mode env now rv bearer secret
                 | None \<Rightarrow>
                     (case legacy_token config of
                        Some expected \<Rightarrow>
                          if constant_time_eq bearer expected then Proceed (Some admin_fallback)
                          else Refuse 401 ''INVALID_TOKEN''
                      | None \<Rightarrow> Refuse 401 ''Unauthorized''))))"

subsection \<open>Login, refresh, session and logout\<close>

definition REFRESH_TOKEN_TTL :: u64 where
  "REFRESH_TOKEN_TTL = 7 * 24 * 60 * 60"

definition ACCESS_TOKEN_TTL :: u64 where
  "ACCESS_TOKEN_TTL = 900"

definition error_response :: "nat \<Rightarrow> string \<Rightarrow> auth_response" where
  "error_response status code = \<lparr>rs_status = status, rs_body = ErrorBody code, rs_set_cookie = None\<rparr>"

definition login_ok :: "string \<Rightarrow> u64 \<Rightarrow> auth_response" where
  "login_ok token ttl =
     \<lparr>rs_status = 200,
      rs_body = LoginBody \<lparr>access_token = token, token_type = ''Bearer'', expires_in = ttl\<rparr>,
      rs_set_cookie = None\<rparr>"

definition with_cookie :: "auth_env \<Rightarrow> string \<Rightarrow> auth_response \<Rightarrow> auth_response" where
  "with_cookie env cookie rs = (if env_header_ok env cookie then rs\<lparr>rs_set_cookie := Some cookie\<rparr> else rs)"

text \<open>
  The end of \<^verbatim>\<open>login\<close> and \<^verbatim>\<open>refresh\<close>: sign the access and the refresh claims and answer with
  both.
\<close>

definition issue_tokens ::
    "auth_env \<Rightarrow> auth_config \<Rightarrow> string \<Rightarrow> claims \<Rightarrow> claims \<Rightarrow> auth_response" where
  "issue_tokens env cfg secret access_claims refresh_claims =
     (case encode_jwt env access_claims secret of
        None \<Rightarrow> \<lparr>rs_status = 500, rs_body = NoBody, rs_set_cookie = None\<rparr>
      | Some access \<Rightarrow>
          (case encode_jwt env refresh_claims secret of
             None \<Rightarrow> \<lparr>rs_status = 500, rs_body = NoBody, rs_set_cookie = None\<rparr>
           | Some refresh \<Rightarrow>
               with_cookie env
                 (build_refresh_cookie refresh (unat REFRESH_TOKEN_TTL) (is_production cfg))
                 (login_ok access ACCESS_TOKEN_TTL)))"

definition admin_claims :: "u64 \<Rightarrow> u64 \<Rightarrow> string \<Rightarrow> claims" where
  "admin_claims now ttl jti =
     \<lparr>cl_sub = ''admin'', cl_role = ''admin'', cl_capabilities = [],
      cl_authz_v = Some AUTHZ_CLAIMS_VERSION_V1, cl_exp = now + ttl, cl_iat = now, cl_jti = jti,
      cl_iss = Some INTERNAL_JWT_ISSUER\<rparr>"

definition login ::
    "auth_env \<Rightarrow> u64 \<Rightarrow> string \<Rightarrow> string \<Rightarrow> auth_config \<Rightarrow> string \<Rightarrow> auth_response" where
  "login env now access_id refresh_id cfg token =
     (case jwt_secret cfg of
        Some secret \<Rightarrow>
          (let credential_valid =
                 (case legacy_token cfg of
                    Some expected \<Rightarrow> constant_time_eq token expected
                  | None \<Rightarrow> constant_time_eq token secret)
           in if \<not> credential_valid then error_response 401 ''INVALID_CREDENTIALS''
              else issue_tokens env cfg secret (admin_claims now ACCESS_TOKEN_TTL access_id)
                     (admin_claims now REFRESH_TOKEN_TTL refresh_id))
      | None \<Rightarrow>
          (case legacy_token cfg of
             Some expected \<Rightarrow>
               if constant_time_eq token expected then login_ok token u64_MAX
               else error_response 401 ''INVALID_CREDENTIALS''
           | None \<Rightarrow> login_ok [] u64_MAX))"

definition revoke_claims ::
    "auth_env \<Rightarrow> bool \<Rightarrow> claims \<Rightarrow> revocation_set \<Rightarrow> revocation_set" where
  "revoke_claims env write_ok c rv =
     (if cl_jti c = [] then rv
      else revoke_with_expiry write_ok (cl_jti c) (env_rfc3339 env (cl_exp c)) rv)"

definition renewed_claims :: "u64 \<Rightarrow> u64 \<Rightarrow> string \<Rightarrow> claims \<Rightarrow> claims" where
  "renewed_claims now ttl jti old =
     \<lparr>cl_sub = cl_sub old, cl_role = cl_role old, cl_capabilities = cl_capabilities old,
      cl_authz_v = (case cl_authz_v old of Some v \<Rightarrow> Some v | None \<Rightarrow> Some AUTHZ_CLAIMS_VERSION_V1),
      cl_exp = now + ttl, cl_iat = now, cl_jti = jti,
      cl_iss = (case cl_iss old of Some i \<Rightarrow> Some i | None \<Rightarrow> Some INTERNAL_JWT_ISSUER)\<rparr>"

definition refresh ::
    "auth_env \<Rightarrow> u64 \<Rightarrow> string \<Rightarrow> string \<Rightarrow> bool \<Rightarrow> auth_config \<Rightarrow> revocation_set \<Rightarrow> http_request
      \<Rightarrow> auth_response \<times> revocation_set" where
  "refresh env now access_id refresh_id write_ok cfg rv rq =
     (case jwt_secret cfg of
        None \<Rightarrow> (\<lparr>rs_status = 200, rs_body = MessageBody ''No JWT mode configured, refresh not needed'',
                 rs_set_cookie = None\<rparr>, rv)
      | Some secret \<Rightarrow>
          (case refresh_token_of rq of
             None \<Rightarrow> (error_response 401 ''MISSING_TOKEN'', rv)
           | Some token \<Rightarrow>
               (case decode_jwt_allow_expired env token secret of
                  None \<Rightarrow> (error_response 401 ''INVALID_TOKEN'', rv)
                | Some old \<Rightarrow>
                    if cl_jti old \<noteq> [] \<and> is_revoked rv (cl_jti old)
                    then (error_response 401 ''TOKEN_REVOKED'', rv)
                    else (issue_tokens env cfg secret
                            (renewed_claims now ACCESS_TOKEN_TTL access_id old)
                            (renewed_claims now REFRESH_TOKEN_TTL refresh_id old),
                          revoke_claims env write_ok old rv))))"

definition session :: "auth_config \<Rightarrow> claims \<Rightarrow> session_response" where
  "session cfg c =
     \<lparr>ss_authenticated = True, ss_subject = cl_sub c, ss_role = cl_role c,
      ss_capabilities = cl_capabilities c, ss_authz_v = cl_authz_v c,
      ss_mode = (if jwt_secret cfg \<noteq> None then ''jwt''
                 else if legacy_token cfg \<noteq> None then ''legacy'' else ''none'')\<rparr>"

definition revoke_presented ::
    "auth_env \<Rightarrow> bool \<Rightarrow> string \<Rightarrow> string option \<Rightarrow> revocation_set \<Rightarrow> revocation_set" where
  "revoke_presented env write_ok secret token rv =
     (case Option.bind token (\<lambda>t. decode_jwt_allow_expired env t secret) of
        None \<Rightarrow> rv
      | Some c \<Rightarrow> revoke_claims env write_ok c rv)"

definition logout ::
    "auth_env \<Rightarrow> bool \<Rightarrow> bool \<Rightarrow> auth_config \<Rightarrow> revocation_set \<Rightarrow> http_request
      \<Rightarrow> auth_response \<times> revocation_set" where
  "logout env write1 write2 cfg rv rq =
     (with_cookie env (build_clear_refresh_cookie (is_production cfg))
        \<lparr>rs_status = 200, rs_body = MessageBody ''Logged out'', rs_set_cookie = None\<rparr>,
      case jwt_secret cfg of
        None \<Rightarrow> rv
      | Some secret \<Rightarrow>
          revoke_presented env write2 secret (extract_refresh_cookie rq)
            (revoke_presented env write1 secret (bearer_of rq) rv))"


subsection \<open>A token that was given back is dead\<close>

text \<open>The endpoints that change the revocation set, as one step.\<close>

datatype auth_op =
    RefreshOp u64 string string bool http_request
  | LogoutOp bool bool http_request

fun auth_step :: "auth_env \<Rightarrow> auth_config \<Rightarrow> revocation_set \<Rightarrow> auth_op \<Rightarrow> revocation_set" where
  "auth_step env cfg rv (RefreshOp now aid rid w rq) = snd (refresh env now aid rid w cfg rv rq)"
| "auth_step env cfg rv (LogoutOp w1 w2 rq) = snd (logout env w1 w2 cfg rv rq)"

lemma revoked_revoke_claims [simp]:
  "rv_revoked (revoke_claims env w c rv) =
     (if cl_jti c = [] then rv_revoked rv else insert (cl_jti c) (rv_revoked rv))"
  by (simp add: revoke_claims_def revoke_with_expiry_def)

lemma revoke_presented_grows: "rv_revoked rv \<subseteq> rv_revoked (revoke_presented env w secret t rv)"
  by (auto simp: revoke_presented_def split: option.splits)

lemma refresh_grows: "rv_revoked rv \<subseteq> rv_revoked (snd (refresh env now aid rid w cfg rv rq))"
  by (auto simp: refresh_def split: option.splits)

lemma logout_grows: "rv_revoked rv \<subseteq> rv_revoked (snd (logout env w1 w2 cfg rv rq))"
proof (cases "jwt_secret cfg")
  case None
  then show ?thesis by (simp add: logout_def)
next
  case (Some secret)
  then show ?thesis
    by (simp add: logout_def order_trans[OF revoke_presented_grows revoke_presented_grows])
qed

interpretation revocation: monotone_steps "auth_step env cfg" rv_revoked for env cfg
proof unfold_locales
  show "rv_revoked rv \<le> rv_revoked (auth_step env cfg rv op)" for rv op
    by (cases op) (simp_all add: refresh_grows logout_grows)
qed

text \<open>The operations that take a token back: its refresh, or a logout that shows it.\<close>

fun gives_back :: "string \<Rightarrow> auth_op \<Rightarrow> bool" where
  "gives_back token (RefreshOp _ _ _ _ rq) = (refresh_token_of rq = Some token)"
| "gives_back token (LogoutOp _ _ rq) =
     (bearer_of rq = Some token \<or> extract_refresh_cookie rq = Some token)"

lemma revoke_presented_hit:
  "env_decode env token secret = Some c \<Longrightarrow> cl_jti c \<noteq> [] \<Longrightarrow>
   cl_jti c \<in> rv_revoked (revoke_presented env w secret (Some token) rv)"
  by (simp add: revoke_presented_def decode_jwt_allow_expired_def)

lemma gives_back_revokes:
  assumes "jwt_secret cfg = Some secret" "env_decode env token secret = Some c" "cl_jti c \<noteq> []"
    "gives_back token op"
  shows "cl_jti c \<in> rv_revoked (auth_step env cfg rv op)"
proof (cases op)
  case (RefreshOp now aid rid w rq)
  with assms show ?thesis
    by (auto simp: refresh_def decode_jwt_allow_expired_def is_revoked_def)
next
  case (LogoutOp w1 w2 rq)
  let ?rv1 = "revoke_presented env w1 secret (bearer_of rq) rv"
  have step: "auth_step env cfg rv op = revoke_presented env w2 secret (extract_refresh_cookie rq) ?rv1"
    using assms(1) LogoutOp by (simp add: logout_def)
  from assms(4) LogoutOp consider "bearer_of rq = Some token" | "extract_refresh_cookie rq = Some token"
    by auto
  then show ?thesis
  proof cases
    case 1
    then have "cl_jti c \<in> rv_revoked ?rv1" using revoke_presented_hit[OF assms(2,3)] by simp
    then show ?thesis unfolding step using revoke_presented_grows by blast
  next
    case 2
    then show ?thesis unfolding step using revoke_presented_hit[OF assms(2,3)] by simp
  qed
qed

text \<open>
  C36. A token that was refreshed or logged out is never accepted again while the process runs:
  after any further refreshes and logouts, refreshing it is answered as revoked and no request
  that bears it passes the middleware. Tokens without an id cannot be revoked.
\<close>

theorem token_used_once:
  assumes "jwt_secret cfg = Some secret" "env_decode env token secret = Some c" "cl_jti c \<noteq> []"
    and "gives_back token op" "refresh_token_of rq = Some token"
  shows "let rv' = foldl (auth_step env cfg) rv (before @ op # later)
         in fst (refresh env now aid rid w cfg rv' rq) = error_response 401 ''TOKEN_REVOKED'' \<and>
            snd (refresh env now aid rid w cfg rv' rq) = rv' \<and>
            (\<forall>claims. jwt_mode env now (Some rv') token secret \<noteq> Proceed claims)"
proof -
  define rv1 where "rv1 = foldl (auth_step env cfg) rv before"
  define rv' where "rv' = foldl (auth_step env cfg) rv (before @ op # later)"
  have "cl_jti c \<in> rv_revoked (auth_step env cfg rv1 op)"
    by (rule gives_back_revokes[OF assms(1-4)])
  moreover have "rv_revoked (auth_step env cfg rv1 op) \<le> rv_revoked rv'"
    unfolding rv'_def rv1_def using revocation.rank_run by simp
  ultimately have dead: "is_revoked rv' (cl_jti c)" by (auto simp: is_revoked_def)
  have "refresh env now aid rid w cfg rv' rq = (error_response 401 ''TOKEN_REVOKED'', rv')"
    using dead assms by (simp add: refresh_def decode_jwt_allow_expired_def)
  moreover have "\<forall>claims. jwt_mode env now (Some rv') token secret \<noteq> Proceed claims"
    using dead assms by (simp add: jwt_mode_def decode_jwt_def)
  ultimately show ?thesis unfolding rv'_def[symmetric] by simp
qed

text \<open>A token library that signs by writing the id after the secret, for concrete runs.\<close>

definition plain_env :: auth_env where
  "plain_env =
     \<lparr>env_decode = (\<lambda>t s. map_option (\<lambda>jti. admin_claims 100 900 jti) (strip_prefix (s @ ''.'') t)),
      env_expired = (\<lambda>now c. cl_exp c < now), env_encode = (\<lambda>c s. Some (s @ ''.'' @ cl_jti c)),
      env_header_ok = (\<lambda>_. True), env_rfc3339 = (\<lambda>t. show_nat (unat t))\<rparr>"

definition bearer_request :: "string \<Rightarrow> string \<Rightarrow> string \<Rightarrow> http_request" where
  "bearer_request method path token =
     \<lparr>rq_method = method, rq_path = path,
      rq_header = (\<lambda>h. if h = ''authorization'' then Some (''Bearer '' @ token) else None)\<rparr>"

lemma bearer_request_simps [simp]:
  "bearer_of (bearer_request m p t) = Some t" "extract_refresh_cookie (bearer_request m p t) = None"
  "refresh_token_of (bearer_request m p t) = Some t" "rq_path (bearer_request m p t) = p"
  "rq_method (bearer_request m p t) = m"
  by (simp_all add: bearer_request_def bearer_of_def extract_refresh_cookie_def refresh_token_of_def
      extract_bearer_def strip_prefix_def starts_with_def)

definition jwt_config :: auth_config where
  "jwt_config = \<lparr>jwt_secret = Some ''k'', legacy_token = None, is_production = True\<rparr>"

theorem token_used_once_witness:
  "let rq = bearer_request ''POST'' ''/api/auth/refresh'' ''k.a'';
       rv' = foldl (auth_step plain_env jwt_config) (revocation_new []) [LogoutOp True True rq]
   in fst (refresh plain_env 200 ''b'' ''c'' True jwt_config rv' rq) = error_response 401 ''TOKEN_REVOKED''"
  using token_used_once[of jwt_config "''k''" plain_env "''k.a''" "admin_claims 100 900 ''a''"
      "LogoutOp True True (bearer_request ''POST'' ''/api/auth/refresh'' ''k.a'')"
      "bearer_request ''POST'' ''/api/auth/refresh'' ''k.a''" "revocation_new []" "[]" "[]" 200
      "''b''" "''c''" True]
  by (simp add: jwt_config_def plain_env_def strip_prefix_def starts_with_def admin_claims_def Let_def)

subsection \<open>What a refresh grants\<close>

text \<open>
  The rights of the tokens a refresh issues: those of a versioned token are kept. A token
  without a version is given one, so the legacy reviewer, an operator who may review before, is
  refused afterwards, and capabilities that were refused for want of a version are granted.
\<close>

theorem refresh_rights:
  "granted_role (renewed_claims now ttl jti old) =
     (if cl_authz_v old \<noteq> None then granted_role old
      else if list_all (\<lambda>n. n = ''safety_review'' \<or> n = ''security_reviewer'') (cl_capabilities old)
      then (case parse_wire_role (cl_role old) of Inl _ \<Rightarrow> None | Inr r \<Rightarrow> Some r)
      else None)
   \<and> granted_review (renewed_claims now ttl jti old) = (cl_capabilities old \<noteq> [])
   \<and> parse_wire_role ''security_reviewer'' = Inl (UnknownBaseRole ''security_reviewer'')"
  by (auto simp: granted_role_def granted_review_def renewed_claims_def parse_wire_role_def
      split: option.splits)

text \<open>
  A refresh looks at the signature and the revocation of a token but not at its expiry or
  its purpose: an access token that expired long ago, which the middleware refuses, still buys
  a new pair of tokens for the same subject, role and capabilities.
\<close>

theorem expired_token_renews:
  assumes "jwt_secret cfg = Some secret" "env_decode env token secret = Some old"
    and "env_expired env now old" "refresh_token_of rq = Some token"
    and "\<not> is_revoked rv (cl_jti old)"
    and "env_encode env (renewed_claims now ACCESS_TOKEN_TTL aid old) secret = Some access"
    and "env_encode env (renewed_claims now REFRESH_TOKEN_TTL rid old) secret = Some ref"
  shows "jwt_mode env now (Some rv) token secret = Refuse 401 ''INVALID_TOKEN'' \<and>
         rs_status (fst (refresh env now aid rid w cfg rv rq)) = 200 \<and>
         rs_body (fst (refresh env now aid rid w cfg rv rq)) =
           LoginBody \<lparr>access_token = access, token_type = ''Bearer'', expires_in = ACCESS_TOKEN_TTL\<rparr>"
  using assms
  by (simp add: jwt_mode_def decode_jwt_def refresh_def decode_jwt_allow_expired_def issue_tokens_def
      encode_jwt_def with_cookie_def login_ok_def)

theorem expired_token_renews_witness:
  "let rq = bearer_request ''POST'' ''/api/auth/refresh'' ''k.a''
   in jwt_mode plain_env 5000 (Some (revocation_new [])) ''k.a'' ''k'' = Refuse 401 ''INVALID_TOKEN'' \<and>
      rs_status (fst (refresh plain_env 5000 ''b'' ''c'' True jwt_config (revocation_new []) rq)) = 200"
  using expired_token_renews[of jwt_config "''k''" plain_env "''k.a''" "admin_claims 100 900 ''a''" 5000
      "bearer_request ''POST'' ''/api/auth/refresh'' ''k.a''" "revocation_new []" "''b''" "''k.b''"
      "''c''" "''k.c''" True]
  by (simp add: jwt_config_def plain_env_def strip_prefix_def starts_with_def admin_claims_def Let_def
      is_revoked_def revocation_new_def renewed_claims_def)

subsection \<open>Revocations across a restart\<close>

lemma cleanup_after_revoke:
  "jti \<notin> fst ` set tbl \<Longrightarrow>
   jti \<in> set (load_active_revocations (revoke_token tbl jti e) now) \<longleftrightarrow> text_less now e"
  by (force simp: load_active_revocations_def revoke_token_def)

text \<open>
  A revocation that reached the table survives a restart exactly while the expiry stored
  with it lies in the future. Refresh does not look at the expiry, so a token that was logged
  out is accepted for refresh again after its expiry and a restart.
\<close>

theorem revocation_across_restart:
  assumes "jwt_secret cfg = Some secret" "env_decode env token secret = Some c" "cl_jti c \<noteq> []"
    and "rv_attached rv" "cl_jti c \<notin> fst ` set (rv_table rv)" "refresh_token_of rq = Some token"
    and "bearer_of lrq = Some token" "extract_refresh_cookie lrq = None"
  shows "let rv' = restart now_text connected (snd (logout env True True cfg rv lrq))
         in is_revoked rv' (cl_jti c) = text_less now_text (env_rfc3339 env (cl_exp c)) \<and>
            (fst (refresh env now aid rid w cfg rv' rq) = error_response 401 ''TOKEN_REVOKED'') =
              text_less now_text (env_rfc3339 env (cl_exp c))"
proof -
  define rv' where "rv' = restart now_text connected (snd (logout env True True cfg rv lrq))"
  have out: "snd (logout env True True cfg rv lrq) =
      revoke_with_expiry True (cl_jti c) (env_rfc3339 env (cl_exp c)) rv"
    using assms by (simp add: logout_def revoke_presented_def decode_jwt_allow_expired_def revoke_claims_def)
  have live: "is_revoked rv' (cl_jti c) = text_less now_text (env_rfc3339 env (cl_exp c))"
    unfolding rv'_def restart_def out is_revoked_def
    using cleanup_after_revoke[OF assms(5)] assms(4)
    by (simp add: set_db_def load_from_db_def revocation_new_def revoke_with_expiry_def)
  have "(fst (refresh env now aid rid w cfg rv' rq) = error_response 401 ''TOKEN_REVOKED'') =
        is_revoked rv' (cl_jti c)"
    using assms
    by (auto simp: refresh_def decode_jwt_allow_expired_def issue_tokens_def error_response_def
        with_cookie_def login_ok_def split: option.splits)
  with live show ?thesis unfolding rv'_def[symmetric] by simp
qed

theorem revocation_across_restart_witness:
  "let rq = bearer_request ''POST'' ''/api/auth/refresh'' ''k.a'';
       rv' = restart ''2000'' True (snd (logout plain_env True True jwt_config
               ((revocation_new [])\<lparr>rv_attached := True\<rparr>) rq))
   in \<not> is_revoked rv' ''a''"
proof -
  have "\<not> text_less ''2000'' (show_nat (unat (1000 :: u64)))"
    by (simp add: show_nat.simps)
  then show ?thesis
    using revocation_across_restart[of jwt_config "''k''" plain_env "''k.a''" "admin_claims 100 900 ''a''"
        "(revocation_new [])\<lparr>rv_attached := True\<rparr>"
        "bearer_request ''POST'' ''/api/auth/refresh'' ''k.a''"
        "bearer_request ''POST'' ''/api/auth/logout'' ''k.a''" "''2000''" True]
    by (simp add: jwt_config_def plain_env_def strip_prefix_def starts_with_def admin_claims_def Let_def
        revocation_new_def logout_def)
qed

end
