(* ===== verification/Compatibility.thy ===== *)
theory Compatibility
  imports Authz_Policy Auth
begin

section \<open>Client compatibility of mutating requests\<close>

text \<open>
  \<^verbatim>\<open>ghost-gateway/src/api/compatibility.rs\<close>: the table of supported clients, the parsing of
  version numbers, the check of a client's identity and the middleware that applies it to
  mutating requests. The JSON details of the errors are left out.
\<close>

record parsed_version =
  major :: nat
  minor :: nat
  patch :: nat

datatype version_parse_error = InvalidFormat | InvalidComponent

record client_policy =
  cp_client_name :: string
  cp_minimum_version :: string
  cp_maximum_version_exclusive :: string

definition client_policy_new :: "string \<Rightarrow> string \<Rightarrow> string \<Rightarrow> client_policy" where
  "client_policy_new name lo hi =
     \<lparr>cp_client_name = name, cp_minimum_version = lo, cp_maximum_version_exclusive = hi\<rparr>"

definition SUPPORTED_CLIENTS :: "client_policy list" where
  "SUPPORTED_CLIENTS =
     [client_policy_new ''dashboard'' ''0.1.0'' ''0.2.0'', client_policy_new ''desktop'' ''0.1.0'' ''0.2.0'',
      client_policy_new ''cli'' ''0.1.0'' ''0.2.0'', client_policy_new ''sdk'' ''0.1.0'' ''0.2.0'']"

definition CLIENT_NAME_HEADER :: string where
  "CLIENT_NAME_HEADER = ''x-ghost-client-name''"

definition CLIENT_VERSION_HEADER :: string where
  "CLIENT_VERSION_HEADER = ''x-ghost-client-version''"

subsection \<open>Versions\<close>

definition cut_at :: "char \<Rightarrow> string \<Rightarrow> string" where
  "cut_at d s = (case split_once d s of Some (head, _) \<Rightarrow> head | None \<Rightarrow> s)"

definition parse_component :: "string \<Rightarrow> version_parse_error + nat" where
  "parse_component s = (case parse_u64 s of Some n \<Rightarrow> Inr n | None \<Rightarrow> Inl InvalidComponent)"

text \<open>The pieces are taken one by one: a bad piece is reported before a missing one after it.\<close>

fun parse_parts :: "nat \<Rightarrow> string list \<Rightarrow> version_parse_error + nat list" where
  "parse_parts 0 ps = (if ps = [] then Inr [] else Inl InvalidFormat)"
| "parse_parts (Suc k) [] = Inl InvalidFormat"
| "parse_parts (Suc k) (p # ps) =
     (case parse_component p of
        Inl e \<Rightarrow> Inl e
      | Inr n \<Rightarrow> (case parse_parts k ps of Inl e \<Rightarrow> Inl e | Inr ns \<Rightarrow> Inr (n # ns)))"

definition version_parse :: "string \<Rightarrow> version_parse_error + parsed_version" where
  "version_parse input =
     (case parse_parts 3 (split_on (CHR ''.'') (cut_at (CHR ''-'') (cut_at (CHR ''+'') input))) of
        Inl e \<Rightarrow> Inl e
      | Inr [a, b, c] \<Rightarrow> Inr \<lparr>major = a, minor = b, patch = c\<rparr>
      | Inr _ \<Rightarrow> Inl InvalidFormat)"

text \<open>The derived order compares the fields in turn.\<close>

definition version_less :: "parsed_version \<Rightarrow> parsed_version \<Rightarrow> bool" where
  "version_less v w \<longleftrightarrow>
     major v < major w \<or> (major v = major w \<and>
       (minor v < minor w \<or> (minor v = minor w \<and> patch v < patch w)))"

definition contains_version :: "client_policy \<Rightarrow> parsed_version \<Rightarrow> version_parse_error + bool" where
  "contains_version cp v =
     (case version_parse (cp_minimum_version cp) of
        Inl e \<Rightarrow> Inl e
      | Inr lo \<Rightarrow>
          (case version_parse (cp_maximum_version_exclusive cp) of
             Inl e \<Rightarrow> Inl e
           | Inr hi \<Rightarrow> Inr (\<not> version_less v lo \<and> version_less v hi)))"

subsection \<open>The check\<close>

definition find_supported_client :: "string \<Rightarrow> client_policy option" where
  "find_supported_client name =
     find (\<lambda>cp. eq_ignore_ascii_case (cp_client_name cp) name) SUPPORTED_CLIENTS"

record compatible_client =
  cc_name :: string
  cc_version :: string

definition upgrade_required :: "string \<Rightarrow> string \<Rightarrow> api_error" where
  "upgrade_required code message = CustomError 426 code message"

definition missing_identity :: api_error where
  "missing_identity =
     upgrade_required ''CLIENT_COMPATIBILITY_REQUIRED''
       ''Mutating requests require explicit client compatibility headers.''"

definition validate_client_identity ::
    "string option \<Rightarrow> string option \<Rightarrow> api_error + compatible_client" where
  "validate_client_identity name version =
     (case name of
        None \<Rightarrow> Inl missing_identity
      | Some n \<Rightarrow>
     (case version of
        None \<Rightarrow> Inl missing_identity
      | Some v \<Rightarrow>
     (case find_supported_client n of
        None \<Rightarrow> Inl (upgrade_required ''CLIENT_COMPATIBILITY_UNKNOWN''
          ''This gateway does not recognize the supplied client identity for policy-A writes.'')
      | Some cp \<Rightarrow>
     (case version_parse v of
        Inl _ \<Rightarrow> Inl (upgrade_required ''CLIENT_VERSION_INVALID''
          ''Client version is not a valid semantic version.'')
      | Inr parsed \<Rightarrow>
     (case contains_version cp parsed of
        Inl _ \<Rightarrow> Inl (InternalError ''gateway compatibility policy contains an invalid version range'')
      | Inr supported \<Rightarrow>
          if \<not> supported then Inl (upgrade_required ''CLIENT_VERSION_UNSUPPORTED''
            ''Client version is outside the supported compatibility window for policy-A writes.'')
          else Inr \<lparr>cc_name = cp_client_name cp, cc_version = v\<rparr>)))))"

definition is_mutating_method :: "string \<Rightarrow> bool" where
  "is_mutating_method m \<longleftrightarrow> m \<in> {''POST'', ''PUT'', ''PATCH'', ''DELETE''}"

definition read_header :: "http_request \<Rightarrow> string \<Rightarrow> string option" where
  "read_header rq name =
     (case rq_header rq name of
        None \<Rightarrow> None
      | Some v \<Rightarrow> if trim v = [] then None else Some (trim v))"

definition enforce_client_compatibility ::
    "http_request \<Rightarrow> api_error + compatible_client option" where
  "enforce_client_compatibility rq =
     (if \<not> is_mutating_method (rq_method rq) then Inr None
      else (case validate_client_identity (read_header rq CLIENT_NAME_HEADER)
                                          (read_header rq CLIENT_VERSION_HEADER) of
              Inl e \<Rightarrow> Inl e
            | Inr client \<Rightarrow> Inr (Some client)))"

subsection \<open>Versions are read as they are written\<close>

definition show_version :: "parsed_version \<Rightarrow> string" where
  "show_version v =
     show_nat (major v) @ CHR ''.'' # show_nat (minor v) @ CHR ''.'' # show_nat (patch v)"

lemma not_digit [simp]: "\<not> is_digit (CHR ''.'')" "\<not> is_digit (CHR ''-'')" "\<not> is_digit (CHR ''+'')"
  by (simp_all add: is_digit_def)

lemma cut_at_absent: "d \<notin> set s \<Longrightarrow> cut_at d (s @ (if q then d # t else [])) = s"
proof (induction s)
  case Nil
  then show ?case by (simp add: cut_at_def)
next
  case (Cons c s)
  then show ?case by (cases q) (auto simp: cut_at_def split: option.splits prod.splits)
qed

lemma parse_three:
  "a < 2 ^ 64 \<Longrightarrow> b < 2 ^ 64 \<Longrightarrow> c < 2 ^ 64 \<Longrightarrow>
   parse_parts 3 [show_nat a, show_nat b, show_nat c] = Inr [a, b, c]"
  by (simp add: numeral_3_eq_3 parse_component_def parse_show_nat)

lemma show_version_chars: "\<not> is_digit d \<Longrightarrow> d \<noteq> CHR ''.'' \<Longrightarrow> d \<notin> set (show_version v)"
  by (simp add: show_version_def show_nat_no_char)

text \<open>
  A version whose three numbers fit 64 bits is read back as it was written, with any
  pre-release or build suffix ignored: a pre-release counts as its release.
\<close>

theorem version_round_trip:
  assumes "major v < 2 ^ 64" "minor v < 2 ^ 64" "patch v < 2 ^ 64"
    and "CHR ''+'' \<notin> set pre"
  shows "version_parse (show_version v @ (if p then CHR ''-'' # pre else []) @
                        (if b then CHR ''+'' # build else [])) = Inr \<lparr>major = major v, minor = minor v, patch = patch v\<rparr>"
proof -
  have "CHR ''+'' \<notin> set (show_version v @ (if p then CHR ''-'' # pre else []))"
    using assms(4) by (auto simp: show_version_chars)
  from cut_at_absent[OF this, of b build]
  have plus: "cut_at (CHR ''+'') (show_version v @ (if p then CHR ''-'' # pre else []) @
                (if b then CHR ''+'' # build else [])) =
              show_version v @ (if p then CHR ''-'' # pre else [])"
    by (simp only: append_assoc)
  have minus: "cut_at (CHR ''-'') (show_version v @ (if p then CHR ''-'' # pre else [])) = show_version v"
    by (rule cut_at_absent) (simp add: show_version_chars)
  have "split_on (CHR ''.'') (show_version v) =
        [show_nat (major v), show_nat (minor v), show_nat (patch v)]"
    by (simp add: show_version_def split_on_append split_on_none show_nat_no_char)
  then show ?thesis
    unfolding version_parse_def plus minus using parse_three[OF assms(1-3)] by simp
qed

theorem version_round_trip_witness:
  "version_parse (show_version \<lparr>major = 0, minor = 1, patch = 9\<rparr> @ ''-rc.1'' @ ''+b'') =
     Inr \<lparr>major = 0, minor = 1, patch = 9\<rparr>"
  using version_round_trip[of "\<lparr>major = 0, minor = 1, patch = 9\<rparr>" "''rc.1''" True True "''b''"]
  by simp

subsection \<open>Which clients may write\<close>

lemma parse_bounds:
  "version_parse ''0.1.0'' = Inr \<lparr>major = 0, minor = 1, patch = 0\<rparr>"
  "version_parse ''0.2.0'' = Inr \<lparr>major = 0, minor = 2, patch = 0\<rparr>"
  by (simp_all add: version_parse_def cut_at_def numeral_3_eq_3 parse_component_def parse_u64_def
      is_digit_def digits_value_def)

lemma supported_bounds:
  assumes "find_supported_client n = Some cp"
  shows "cp_minimum_version cp = ''0.1.0''" "cp_maximum_version_exclusive cp = ''0.2.0''"
proof -
  have "cp \<in> set SUPPORTED_CLIENTS"
    using assms unfolding find_supported_client_def by (metis find_Some_iff nth_mem)
  then show "cp_minimum_version cp = ''0.1.0''" "cp_maximum_version_exclusive cp = ''0.2.0''"
    by (auto simp: SUPPORTED_CLIENTS_def client_policy_new_def)
qed

lemma supported_name:
  "find_supported_client n \<noteq> None \<longleftrightarrow>
     list_ex (\<lambda>m. eq_ignore_ascii_case m n) [''dashboard'', ''desktop'', ''cli'', ''sdk'']"
  by (simp add: find_supported_client_def SUPPORTED_CLIENTS_def client_policy_new_def)

lemma contains_supported:
  "find_supported_client n = Some cp \<Longrightarrow>
   contains_version cp v = Inr (major v = 0 \<and> minor v = 1)"
  by (auto simp: contains_version_def supported_bounds parse_bounds version_less_def)

text \<open>
  A mutating request passes the compatibility check exactly when it names one of the four
  known clients, in any case, with a version that reads as 0.1 and any patch number; the range
  table itself never makes the check fail with an internal error.
\<close>

theorem client_window:
  "((\<exists>c. validate_client_identity name version = Inr c) \<longleftrightarrow>
     (\<exists>n v p. name = Some n \<and> version = Some v \<and>
        list_ex (\<lambda>m. eq_ignore_ascii_case m n) [''dashboard'', ''desktop'', ''cli'', ''sdk''] \<and>
        version_parse v = Inr p \<and> major p = 0 \<and> minor p = 1))
   \<and> (\<forall>msg. validate_client_identity name version \<noteq> Inl (InternalError msg))"
proof (cases "\<exists>n v cp p. name = Some n \<and> version = Some v \<and> find_supported_client n = Some cp \<and>
                 version_parse v = Inr p")
  case True
  then obtain n v cp p where eqs: "name = Some n" "version = Some v"
    "find_supported_client n = Some cp" "version_parse v = Inr p" by blast
  have "list_ex (\<lambda>m. eq_ignore_ascii_case m n) [''dashboard'', ''desktop'', ''cli'', ''sdk'']"
    using eqs(3) by (subst supported_name[symmetric]) simp
  with eqs contains_supported[OF eqs(3)] show ?thesis
    by (simp add: validate_client_identity_def upgrade_required_def)
next
  case False
  have no: "\<not> (\<exists>n v p. name = Some n \<and> version = Some v \<and>
        list_ex (\<lambda>m. eq_ignore_ascii_case m n) [''dashboard'', ''desktop'', ''cli'', ''sdk''] \<and>
        version_parse v = Inr p \<and> major p = 0 \<and> minor p = 1)"
    using False by (fastforce simp only: supported_name[symmetric])
  have "\<exists>code message. validate_client_identity name version = Inl (CustomError 426 code message)"
    using False
    by (auto simp: validate_client_identity_def upgrade_required_def missing_identity_def
        split: option.splits sum.splits)
  with no show ?thesis by auto
qed

end
