(* ===== verification/Route_Sets.thy ===== *)
theory Route_Sets
  imports Compatibility Authz_Policy Auth
begin

section \<open>The gateway's routes and the path of a request\<close>

text \<open>
  \<^verbatim>\<open>ghost-gateway/src/route_sets.rs\<close>, the route guards of \<^verbatim>\<open>api/rbac.rs\<close> and the merging of the
  groups in \<^verbatim>\<open>bootstrap.rs\<close> (\<^verbatim>\<open>build_router\<close>): the table of endpoints, each with the guard that
  runs before its handler. Matching a path against the templates is the web framework's; a
  request is served at a given endpoint. A handler is known by its name. Building the table
  panics where a route has no specification: an endpoint is an option.
\<close>

datatype endpoint_guard =
    Unguarded
  | RequireRoute route_authorization_spec
  | RequireLiveExecutionRead
  | RequireLiveExecutionCancel

record endpoint =
  ep_path :: string
  ep_method :: string
  ep_handler :: string
  ep_compatibility :: bool
  ep_guard :: endpoint_guard

definition spec :: "route_id \<Rightarrow> string \<Rightarrow> route_authorization_spec option" where
  "spec r m = route_spec_for r m"

text \<open>
  \<open>m\<close> is the method named to \<^verbatim>\<open>action_route\<close> and \<open>m'\<close> the one of the method router. In debug
  builds the specification must be the one of the route at \<open>m\<close>.
\<close>

definition action_route ::
    "string \<Rightarrow> string \<Rightarrow> string \<Rightarrow> string \<Rightarrow> route_authorization_spec option \<Rightarrow> endpoint option" where
  "action_route path m m' handler sp =
     (case sp of
        None \<Rightarrow> None
      | Some s \<Rightarrow>
          if route_spec_for (spec_route_id s) m = Some s then
            Some \<lparr>ep_path = path, ep_method = m', ep_handler = handler,
                  ep_compatibility = spec_compatibility_required s, ep_guard = RequireRoute s\<rparr>
          else None)"

definition live_execution_route :: "string \<Rightarrow> string \<Rightarrow> string \<Rightarrow> endpoint option" where
  "live_execution_route path m' handler =
     Some \<lparr>ep_path = path, ep_method = m', ep_handler = handler, ep_compatibility = False,
           ep_guard = RequireLiveExecutionRead\<rparr>"

definition live_execution_cancel_route :: "string \<Rightarrow> string \<Rightarrow> string \<Rightarrow> endpoint option" where
  "live_execution_cancel_route path m' handler =
     Some \<lparr>ep_path = path, ep_method = m', ep_handler = handler, ep_compatibility = False,
           ep_guard = RequireLiveExecutionCancel\<rparr>"

definition public_route :: "string \<Rightarrow> string \<Rightarrow> string \<Rightarrow> endpoint option" where
  "public_route path m' handler =
     Some \<lparr>ep_path = path, ep_method = m', ep_handler = handler, ep_compatibility = False,
           ep_guard = Unguarded\<rparr>"

definition public_routes :: "endpoint option list" where
  "public_routes =
     [public_route ''/api/health'' ''GET'' ''health::health_handler'',
      public_route ''/api/ready'' ''GET'' ''health::ready_handler'',
      public_route ''/api/compatibility'' ''GET'' ''compatibility::compatibility_handler'',
      public_route ''/api/ws'' ''GET'' ''websocket::ws_handler'',
      public_route ''/api/auth/login'' ''POST'' ''auth::login'',
      public_route ''/api/auth/refresh'' ''POST'' ''auth::refresh'',
      public_route ''/api/auth/logout'' ''POST'' ''auth::logout'',
      public_route ''/api/oauth/callback'' ''GET'' ''oauth_routes::callback'',
      public_route ''/api/openapi.json'' ''GET'' ''openapi::openapi_spec'']"

definition read_routes_1 :: "endpoint option list" where
  "read_routes_1 =
     [action_route ''/api/auth/session'' ''GET'' ''GET'' ''auth::session''
        (spec (CoreRoute AuthSession_route) ''GET''),
      action_route ''/api/agents'' ''GET'' ''GET'' ''agents::list_agents''
        (spec (CoreRoute Agents_route) ''GET''),
      action_route ''/api/agents/:id'' ''GET'' ''GET'' ''agents::get_agent''
        (spec (CoreRoute AgentById_route) ''GET''),
      action_route ''/api/agents/:id/overview'' ''GET'' ''GET'' ''agents::get_agent_overview''
        (spec (CoreRoute AgentOverviewById_route) ''GET''),
      action_route ''/api/audit'' ''GET'' ''GET'' ''audit::query_audit''
        (spec (CoreRoute Audit_route) ''GET''),
      action_route ''/api/audit/aggregation'' ''GET'' ''GET'' ''audit::audit_aggregation''
        (spec (CoreRoute AuditAggregation_route) ''GET''),
      action_route ''/api/audit/export'' ''GET'' ''GET'' ''audit::audit_export''
        (spec (CoreRoute AuditExport_route) ''GET''),
      action_route ''/api/convergence/scores'' ''GET'' ''GET'' ''convergence::get_scores''
        (spec (CoreRoute ConvergenceScores_route) ''GET''),
      action_route ''/api/convergence/history/:agent_id'' ''GET'' ''GET'' ''convergence::get_history''
        (spec (CoreRoute ConvergenceHistoryByAgentId_route) ''GET''),
      action_route ''/api/goals'' ''GET'' ''GET'' ''goals::list_goals''
        (spec (CoreRoute Goals_route) ''GET''),
      action_route ''/api/goals/active'' ''GET'' ''GET'' ''goals::list_active_goals''
        (spec (CoreRoute GoalsActive_route) ''GET''),
      action_route ''/api/goals/:id'' ''GET'' ''GET'' ''goals::get_goal''
        (spec (CoreRoute GoalById_route) ''GET''),
      action_route ''/api/sessions'' ''GET'' ''GET'' ''sessions::list_sessions''
        (spec (CoreRoute Sessions_route) ''GET''),
      action_route ''/api/sessions/:id'' ''GET'' ''GET'' ''sessions::get_session''
        (spec (CoreRoute SessionById_route) ''GET''),
      action_route ''/api/sessions/:id/events'' ''GET'' ''GET'' ''sessions::session_events''
        (spec (CoreRoute SessionEventsById_route) ''GET''),
      action_route ''/api/sessions/:id/bookmarks'' ''GET'' ''GET'' ''sessions::list_bookmarks''
        (spec (CoreRoute SessionBookmarksById_route) ''GET''),
      action_route ''/api/memory'' ''GET'' ''GET'' ''memory::list_memories''
        (spec (WorkRoute Memory_route) ''GET''),
      action_route ''/api/memory/graph'' ''GET'' ''GET'' ''memory::get_memory_graph''
        (spec (WorkRoute MemoryGraph_route) ''GET''),
      action_route ''/api/memory/search'' ''GET'' ''GET'' ''memory::search_memories''
        (spec (WorkRoute MemorySearch_route) ''GET''),
      action_route ''/api/memory/archived'' ''GET'' ''GET'' ''memory::list_archived''
        (spec (WorkRoute MemoryArchived_route) ''GET''),
      action_route ''/api/memory/:id'' ''GET'' ''GET'' ''memory::get_memory''
        (spec (WorkRoute MemoryById_route) ''GET'')]"

definition read_routes_2 :: "endpoint option list" where
  "read_routes_2 =
     [live_execution_route ''/api/live-executions/:execution_id'' ''GET'' ''live_executions::get_live_execution'',
      action_route ''/api/state/crdt/:agent_id'' ''GET'' ''GET'' ''state::get_crdt_state''
        (spec (WorkRoute StateCrdtByAgentId_route) ''GET''),
      action_route ''/api/integrity/chain/:agent_id'' ''GET'' ''GET'' ''integrity::verify_chain''
        (spec (WorkRoute IntegrityChainByAgentId_route) ''GET''),
      action_route ''/api/autonomy/status'' ''GET'' ''GET'' ''autonomy::get_status''
        (spec (WorkRoute AutonomyStatus_route) ''GET''),
      action_route ''/api/autonomy/jobs'' ''GET'' ''GET'' ''autonomy::list_jobs''
        (spec (WorkRoute AutonomyJobs_route) ''GET''),
      action_route ''/api/autonomy/runs'' ''GET'' ''GET'' ''autonomy::list_runs''
        (spec (WorkRoute AutonomyRuns_route) ''GET''),
      action_route ''/api/autonomy/policies/global'' ''GET'' ''GET'' ''autonomy::get_global_policy''
        (spec (WorkRoute AutonomyPoliciesGlobal_route) ''GET''),
      action_route ''/api/autonomy/policies/agents/:agent_id'' ''GET'' ''GET'' ''autonomy::get_agent_policy''
        (spec (WorkRoute AutonomyPoliciesAgentById_route) ''GET''),
      action_route ''/api/workflows'' ''GET'' ''GET'' ''workflows::list_workflows''
        (spec (WorkRoute Workflows_route) ''GET''),
      action_route ''/api/workflows/:id'' ''GET'' ''GET'' ''workflows::get_workflow''
        (spec (WorkRoute WorkflowById_route) ''GET''),
      action_route ''/api/workflows/:id/executions'' ''GET'' ''GET'' ''workflows::list_executions''
        (spec (WorkRoute WorkflowExecutionsById_route) ''GET''),
      action_route ''/api/workflows/:id/executions/:execution_id'' ''GET'' ''GET'' ''workflows::get_execution''
        (spec (WorkRoute WorkflowExecutionById_route) ''GET''),
      action_route ''/api/studio/sessions'' ''GET'' ''GET'' ''studio_sessions::list_sessions''
        (spec (StudioRoute StudioSessions_route) ''GET''),
      action_route ''/api/studio/sessions/:id'' ''GET'' ''GET'' ''studio_sessions::get_session''
        (spec (StudioRoute StudioSessionById_route) ''GET''),
      action_route ''/api/studio/sessions/:id/stream/recover'' ''GET'' ''GET'' ''studio_sessions::recover_stream''
        (spec (StudioRoute StudioSessionRecoverStreamById_route) ''GET''),
      action_route ''/api/traces/:session_id'' ''GET'' ''GET'' ''traces::get_traces''
        (spec (StudioRoute TracesBySessionId_route) ''GET''),
      action_route ''/api/observability/ade'' ''GET'' ''GET'' ''observability::ade_handler''
        (spec (StudioRoute ObservabilityAde_route) ''GET''),
      action_route ''/api/mesh/trust-graph'' ''GET'' ''GET'' ''mesh_viz::trust_graph''
        (spec (StudioRoute MeshTrustGraph_route) ''GET''),
      action_route ''/api/mesh/consensus'' ''GET'' ''GET'' ''mesh_viz::consensus_state''
        (spec (StudioRoute MeshConsensus_route) ''GET''),
      action_route ''/api/mesh/delegations'' ''GET'' ''GET'' ''mesh_viz::delegations''
        (spec (StudioRoute MeshDelegations_route) ''GET''),
      action_route ''/api/profiles'' ''GET'' ''GET'' ''profiles::list_profiles''
        (spec (StudioRoute Profiles_route) ''GET'')]"

definition read_routes_3 :: "endpoint option list" where
  "read_routes_3 =
     [action_route ''/api/search'' ''GET'' ''GET'' ''search::search''
        (spec (StudioRoute Search_route) ''GET''),
      action_route ''/api/skills'' ''GET'' ''GET'' ''skills::list_skills''
        (spec (StudioRoute Skills_route) ''GET''),
      action_route ''/api/a2a/tasks'' ''GET'' ''GET'' ''a2a::list_tasks''
        (spec (LinkRoute A2aTasks_route) ''GET''),
      action_route ''/api/a2a/tasks/:task_id'' ''GET'' ''GET'' ''a2a::get_task''
        (spec (LinkRoute A2aTaskById_route) ''GET''),
      action_route ''/api/a2a/tasks/:task_id/stream'' ''GET'' ''GET'' ''a2a::stream_task''
        (spec (LinkRoute A2aTaskStreamById_route) ''GET''),
      action_route ''/api/a2a/discover'' ''GET'' ''GET'' ''a2a::discover_agents''
        (spec (LinkRoute A2aDiscover_route) ''GET''),
      action_route ''/api/channels'' ''GET'' ''GET'' ''channels::list_channels''
        (spec (LinkRoute Channels_route) ''GET''),
      action_route ''/api/costs'' ''GET'' ''GET'' ''costs::get_costs''
        (spec (LinkRoute Costs_route) ''GET''),
      action_route ''/api/itp/events'' ''GET'' ''GET'' ''itp::list_events''
        (spec (LinkRoute ItpEvents_route) ''GET''),
      action_route ''/api/ws/tickets'' ''POST'' ''POST'' ''websocket::issue_ws_ticket''
        (spec (LinkRoute WebSocketTickets_route) ''POST''),
      action_route ''/api/oauth/providers'' ''GET'' ''GET'' ''oauth_routes::list_providers''
        (spec (LinkRoute OAuthProviders_route) ''GET''),
      action_route ''/api/oauth/connections'' ''GET'' ''GET'' ''oauth_routes::list_connections''
        (spec (LinkRoute OAuthConnections_route) ''GET''),
      action_route ''/api/marketplace/agents'' ''GET'' ''GET'' ''marketplace::list_agents''
        (spec (MarketRoute MarketplaceAgents_route) ''GET''),
      action_route ''/api/marketplace/agents/:id'' ''GET'' ''GET'' ''marketplace::get_agent''
        (spec (MarketRoute MarketplaceAgentById_route) ''GET''),
      action_route ''/api/marketplace/skills'' ''GET'' ''GET'' ''marketplace::list_skills''
        (spec (MarketRoute MarketplaceSkills_route) ''GET''),
      action_route ''/api/marketplace/skills/:name'' ''GET'' ''GET'' ''marketplace::get_skill''
        (spec (MarketRoute MarketplaceSkillByName_route) ''GET''),
      action_route ''/api/marketplace/contracts'' ''GET'' ''GET'' ''marketplace::list_contracts''
        (spec (MarketRoute MarketplaceContracts_route) ''GET''),
      action_route ''/api/marketplace/contracts/:id'' ''GET'' ''GET'' ''marketplace::get_contract''
        (spec (MarketRoute MarketplaceContractById_route) ''GET''),
      action_route ''/api/marketplace/wallet'' ''GET'' ''GET'' ''marketplace::get_wallet''
        (spec (MarketRoute MarketplaceWallet_route) ''GET''),
      action_route ''/api/marketplace/wallet/transactions'' ''GET'' ''GET'' ''marketplace::list_transactions''
        (spec (MarketRoute MarketplaceWalletTransactions_route) ''GET''),
      action_route ''/api/marketplace/reviews/:agent_id'' ''GET'' ''GET'' ''marketplace::list_reviews''
        (spec (MarketRoute MarketplaceReviewsByAgentId_route) ''GET'')]"

definition read_routes :: "endpoint option list" where
  "read_routes = read_routes_1 @ read_routes_2 @ read_routes_3"

definition operator_routes_1 :: "endpoint option list" where
  "operator_routes_1 =
     [action_route ''/api/safety/status'' ''GET'' ''GET'' ''safety::safety_status''
        (spec (AdminRoute SafetyStatus_route) ''GET''),
      action_route ''/api/safety/sandbox-reviews'' ''GET'' ''GET'' ''sandbox_reviews::list_sandbox_reviews''
        (spec (AdminRoute SandboxReviews_route) ''GET''),
      action_route ''/api/autonomy/policies/global'' ''PUT'' ''PUT'' ''autonomy::put_global_policy''
        (spec (WorkRoute AutonomyPoliciesGlobal_route) ''PUT''),
      action_route ''/api/autonomy/policies/agents/:agent_id'' ''PUT'' ''PUT'' ''autonomy::put_agent_policy''
        (spec (WorkRoute AutonomyPoliciesAgentById_route) ''PUT''),
      action_route ''/api/autonomy/suppressions'' ''POST'' ''POST'' ''autonomy::create_suppression''
        (spec (WorkRoute AutonomySuppressions_route) ''POST''),
      action_route ''/api/autonomy/runs/:run_id/approve'' ''POST'' ''POST'' ''autonomy::approve_run''
        (spec (WorkRoute AutonomyRunApproveById_route) ''POST''),
      action_route ''/api/agents'' ''POST'' ''POST'' ''agents::create_agent''
        (spec (CoreRoute Agents_route) ''POST''),
      action_route ''/api/agents/:id'' ''PATCH'' ''PATCH'' ''agents::update_agent''
        (spec (CoreRoute AgentById_route) ''PATCH''),
      action_route ''/api/agents/:id'' ''DELETE'' ''DELETE'' ''agents::delete_agent''
        (spec (CoreRoute AgentById_route) ''DELETE''),
      action_route ''/api/goals/:id/approve'' ''POST'' ''POST'' ''goals::approve_goal''
        (spec (CoreRoute GoalApproveById_route) ''POST''),
      action_route ''/api/goals/:id/reject'' ''POST'' ''POST'' ''goals::reject_goal''
        (spec (CoreRoute GoalRejectById_route) ''POST''),
      action_route ''/api/memory'' ''POST'' ''POST'' ''memory::write_memory''
        (spec (WorkRoute Memory_route) ''POST''),
      action_route ''/api/memory/:id/archive'' ''POST'' ''POST'' ''memory::archive_memory''
        (spec (WorkRoute MemoryArchiveById_route) ''POST''),
      action_route ''/api/memory/:id/unarchive'' ''POST'' ''POST'' ''memory::unarchive_memory''
        (spec (WorkRoute MemoryUnarchiveById_route) ''POST''),
      live_execution_cancel_route ''/api/live-executions/:execution_id/cancel'' ''POST'' ''live_executions::cancel_live_execution'',
      action_route ''/api/workflows'' ''POST'' ''POST'' ''workflows::create_workflow''
        (spec (WorkRoute Workflows_route) ''POST''),
      action_route ''/api/workflows/:id'' ''PUT'' ''PUT'' ''workflows::update_workflow''
        (spec (WorkRoute WorkflowById_route) ''PUT''),
      action_route ''/api/workflows/:id/execute'' ''POST'' ''POST'' ''workflows::execute_workflow''
        (spec (WorkRoute WorkflowExecuteById_route) ''POST''),
      action_route ''/api/workflows/:id/resume/:execution_id'' ''POST'' ''POST'' ''workflows::resume_execution''
        (spec (WorkRoute WorkflowResumeExecutionById_route) ''POST''),
      action_route ''/api/sessions/:id/bookmarks'' ''POST'' ''POST'' ''sessions::create_bookmark''
        (spec (CoreRoute SessionBookmarksById_route) ''POST''),
      action_route ''/api/sessions/:id/bookmarks/:bookmark_id'' ''DELETE'' ''DELETE'' ''sessions::delete_bookmark''
        (spec (CoreRoute SessionBookmarkById_route) ''DELETE'')]"

definition operator_routes_2 :: "endpoint option list" where
  "operator_routes_2 =
     [action_route ''/api/sessions/:id/branch'' ''POST'' ''POST'' ''sessions::branch_session''
        (spec (CoreRoute SessionBranchById_route) ''POST''),
      action_route ''/api/sessions/:id/heartbeat'' ''POST'' ''POST'' ''sessions::session_heartbeat''
        (spec (CoreRoute SessionHeartbeatById_route) ''POST''),
      action_route ''/api/studio/run'' ''POST'' ''POST'' ''studio::run_prompt''
        (spec (StudioRoute StudioRun_route) ''POST''),
      action_route ''/api/studio/sessions'' ''POST'' ''POST'' ''studio_sessions::create_session''
        (spec (StudioRoute StudioSessions_route) ''POST''),
      action_route ''/api/studio/sessions/:id'' ''DELETE'' ''DELETE'' ''studio_sessions::delete_session''
        (spec (StudioRoute StudioSessionById_route) ''DELETE''),
      action_route ''/api/studio/sessions/:id/messages'' ''POST'' ''POST'' ''studio_sessions::send_message''
        (spec (StudioRoute StudioSessionMessagesById_route) ''POST''),
      action_route ''/api/studio/sessions/:id/messages/stream'' ''POST'' ''POST'' ''studio_sessions::send_message_stream''
        (spec (StudioRoute StudioSessionMessageStreamById_route) ''POST''),
      action_route ''/api/agent/chat'' ''POST'' ''POST'' ''agent_chat::agent_chat''
        (spec (StudioRoute AgentChat_route) ''POST''),
      action_route ''/api/agent/chat/stream'' ''POST'' ''POST'' ''agent_chat::agent_chat_stream''
        (spec (StudioRoute AgentChatStream_route) ''POST''),
      action_route ''/api/profiles'' ''POST'' ''POST'' ''profiles::create_profile''
        (spec (StudioRoute Profiles_route) ''POST''),
      action_route ''/api/profiles/:name'' ''PUT'' ''PUT'' ''profiles::update_profile''
        (spec (StudioRoute ProfileByName_route) ''PUT''),
      action_route ''/api/profiles/:name'' ''DELETE'' ''DELETE'' ''profiles::delete_profile''
        (spec (StudioRoute ProfileByName_route) ''DELETE''),
      action_route ''/api/agents/:id/profile'' ''POST'' ''POST'' ''profiles::assign_profile''
        (spec (StudioRoute AgentProfileById_route) ''POST''),
      action_route ''/api/skills/:id/install'' ''POST'' ''POST'' ''skills::install_skill''
        (spec (StudioRoute SkillInstallById_route) ''POST''),
      action_route ''/api/skills/:id/uninstall'' ''POST'' ''POST'' ''skills::uninstall_skill''
        (spec (StudioRoute SkillUninstallById_route) ''POST''),
      action_route ''/api/skills/:id/quarantine'' ''POST'' ''POST'' ''skills::quarantine_skill''
        (spec (StudioRoute SkillQuarantineById_route) ''POST''),
      action_route ''/api/skills/:id/quarantine/resolve'' ''POST'' ''POST'' ''skills::resolve_skill_quarantine''
        (spec (StudioRoute SkillQuarantineResolveById_route) ''POST''),
      action_route ''/api/skills/:id/reverify'' ''POST'' ''POST'' ''skills::reverify_skill''
        (spec (StudioRoute SkillReverifyById_route) ''POST''),
      action_route ''/api/skills/:name/execute'' ''POST'' ''POST'' ''skill_execute::execute_skill''
        (spec (StudioRoute SkillExecuteByName_route) ''POST''),
      action_route ''/api/channels'' ''POST'' ''POST'' ''channels::create_channel''
        (spec (LinkRoute Channels_route) ''POST''),
      action_route ''/api/channels/:id/reconnect'' ''POST'' ''POST'' ''channels::reconnect_channel''
        (spec (LinkRoute ChannelReconnectById_route) ''POST'')]"

definition operator_routes_3 :: "endpoint option list" where
  "operator_routes_3 =
     [action_route ''/api/channels/:id'' ''DELETE'' ''DELETE'' ''channels::delete_channel''
        (spec (LinkRoute ChannelById_route) ''DELETE''),
      action_route ''/api/channels/:type/inject'' ''POST'' ''POST'' ''channels::inject_message''
        (spec (LinkRoute ChannelInjectByType_route) ''POST''),
      action_route ''/api/a2a/tasks'' ''POST'' ''POST'' ''a2a::send_task''
        (spec (LinkRoute A2aTasks_route) ''POST''),
      action_route ''/api/oauth/connect'' ''POST'' ''POST'' ''oauth_routes::connect''
        (spec (LinkRoute OAuthConnect_route) ''POST''),
      action_route ''/api/oauth/connections/:ref_id'' ''DELETE'' ''DELETE'' ''oauth_routes::disconnect''
        (spec (LinkRoute OAuthConnectionByRefId_route) ''DELETE''),
      action_route ''/api/oauth/execute'' ''POST'' ''POST'' ''oauth_routes::execute_api_call''
        (spec (LinkRoute OAuthExecute_route) ''POST''),
      action_route ''/api/marketplace/agents'' ''POST'' ''POST'' ''marketplace::register_agent''
        (spec (MarketRoute MarketplaceAgents_route) ''POST''),
      action_route ''/api/marketplace/agents/:id'' ''DELETE'' ''DELETE'' ''marketplace::delist_agent''
        (spec (MarketRoute MarketplaceAgentById_route) ''DELETE''),
      action_route ''/api/marketplace/agents/:id/status'' ''PUT'' ''PUT'' ''marketplace::update_agent_status''
        (spec (MarketRoute MarketplaceAgentStatusById_route) ''PUT''),
      action_route ''/api/marketplace/skills'' ''POST'' ''POST'' ''marketplace::publish_skill''
        (spec (MarketRoute MarketplaceSkills_route) ''POST''),
      action_route ''/api/marketplace/contracts'' ''POST'' ''POST'' ''marketplace::propose_contract''
        (spec (MarketRoute MarketplaceContracts_route) ''POST''),
      action_route ''/api/marketplace/contracts/:id/accept'' ''POST'' ''POST'' ''marketplace::accept_contract''
        (spec (MarketRoute MarketplaceContractAcceptById_route) ''POST''),
      action_route ''/api/marketplace/contracts/:id/reject'' ''POST'' ''POST'' ''marketplace::reject_contract''
        (spec (MarketRoute MarketplaceContractRejectById_route) ''POST''),
      action_route ''/api/marketplace/contracts/:id/start'' ''POST'' ''POST'' ''marketplace::start_contract''
        (spec (MarketRoute MarketplaceContractStartById_route) ''POST''),
      action_route ''/api/marketplace/contracts/:id/complete'' ''POST'' ''POST'' ''marketplace::complete_contract''
        (spec (MarketRoute MarketplaceContractCompleteById_route) ''POST''),
      action_route ''/api/marketplace/contracts/:id/dispute'' ''POST'' ''POST'' ''marketplace::dispute_contract''
        (spec (MarketRoute MarketplaceContractDisputeById_route) ''POST''),
      action_route ''/api/marketplace/contracts/:id/cancel'' ''POST'' ''POST'' ''marketplace::cancel_contract''
        (spec (MarketRoute MarketplaceContractCancelById_route) ''POST''),
      action_route ''/api/marketplace/contracts/:id/resolve'' ''POST'' ''POST'' ''marketplace::resolve_contract''
        (spec (MarketRoute MarketplaceContractResolveById_route) ''POST''),
      action_route ''/api/marketplace/wallet/seed'' ''POST'' ''POST'' ''marketplace::seed_wallet''
        (spec (MarketRoute MarketplaceWalletSeed_route) ''POST''),
      action_route ''/api/marketplace/reviews'' ''POST'' ''POST'' ''marketplace::submit_review''
        (spec (MarketRoute MarketplaceReviews_route) ''POST''),
      action_route ''/api/marketplace/discover'' ''POST'' ''POST'' ''marketplace::discover_agents''
        (spec (MarketRoute MarketplaceDiscover_route) ''POST'')]"

definition operator_routes :: "endpoint option list" where
  "operator_routes = operator_routes_1 @ operator_routes_2 @ operator_routes_3"

definition admin_routes_1 :: "endpoint option list" where
  "admin_routes_1 =
     [action_route ''/api/admin/backups'' ''GET'' ''GET'' ''admin::list_backups''
        (spec (AdminRoute AdminBackupList_route) ''GET''),
      action_route ''/api/admin/export'' ''GET'' ''GET'' ''admin::export_data''
        (spec (AdminRoute AdminExport_route) ''GET''),
      action_route ''/api/admin/provider-keys'' ''GET'' ''GET'' ''provider_keys::list_provider_keys''
        (spec (AdminRoute ProviderKeys_route) ''GET''),
      action_route ''/api/admin/codex/status'' ''GET'' ''GET'' ''codex_auth::get_status''
        (spec (AdminRoute CodexAuthStatus_route) ''GET''),
      action_route ''/api/pc-control/status'' ''GET'' ''GET'' ''pc_control::get_status''
        (spec (AdminRoute PcControlStatus_route) ''GET''),
      action_route ''/api/pc-control/status'' ''PUT'' ''PUT'' ''pc_control::update_status''
        (spec (AdminRoute PcControlStatus_route) ''PUT''),
      action_route ''/api/pc-control/actions'' ''GET'' ''GET'' ''pc_control::list_actions''
        (spec (AdminRoute PcControlActions_route) ''GET''),
      action_route ''/api/safety/pause/:agent_id'' ''POST'' ''POST'' ''safety::pause_agent''
        (spec (AdminRoute SafetyPauseAgent_route) ''POST''),
      action_route ''/api/safety/resume/:agent_id'' ''POST'' ''POST'' ''safety::resume_agent''
        (spec (AdminRoute SafetyResumeAgent_route) ''POST''),
      action_route ''/api/safety/sandbox-reviews/:id/approve'' ''POST'' ''POST'' ''sandbox_reviews::approve_sandbox_review''
        (spec (AdminRoute SandboxReviewApproveById_route) ''POST''),
      action_route ''/api/safety/sandbox-reviews/:id/reject'' ''POST'' ''POST'' ''sandbox_reviews::reject_sandbox_review''
        (spec (AdminRoute SandboxReviewRejectById_route) ''POST''),
      action_route ''/api/safety/quarantine/:agent_id'' ''POST'' ''POST'' ''safety::quarantine_agent''
        (spec (AdminRoute SafetyQuarantineAgent_route) ''POST''),
      action_route ''/api/safety/checks'' ''GET'' ''GET'' ''safety_checks::list_safety_checks''
        (spec (AdminRoute SafetyChecks_route) ''GET''),
      action_route ''/api/safety/checks'' ''POST'' ''POST'' ''safety_checks::register_safety_check''
        (spec (AdminRoute SafetyChecks_route) ''POST'')]"

definition admin_routes_2 :: "endpoint option list" where
  "admin_routes_2 =
     [action_route ''/api/safety/checks/:id'' ''DELETE'' ''DELETE'' ''safety_checks::unregister_safety_check''
        (spec (AdminRoute SafetyCheckById_route) ''DELETE''),
      action_route ''/api/webhooks'' ''GET'' ''GET'' ''webhooks::list_webhooks''
        (spec (AdminRoute Webhooks_route) ''GET''),
      action_route ''/api/webhooks'' ''POST'' ''POST'' ''webhooks::create_webhook''
        (spec (AdminRoute Webhooks_route) ''POST''),
      action_route ''/api/webhooks/:id'' ''PUT'' ''PUT'' ''webhooks::update_webhook''
        (spec (AdminRoute WebhookById_route) ''PUT''),
      action_route ''/api/webhooks/:id'' ''DELETE'' ''DELETE'' ''webhooks::delete_webhook''
        (spec (AdminRoute WebhookById_route) ''DELETE''),
      action_route ''/api/webhooks/:id/test'' ''POST'' ''POST'' ''webhooks::test_webhook''
        (spec (AdminRoute WebhookTestById_route) ''POST''),
      action_route ''/api/admin/backup'' ''POST'' ''POST'' ''admin::create_backup''
        (spec (AdminRoute AdminBackupCreate_route) ''POST''),
      action_route ''/api/admin/provider-keys'' ''PUT'' ''PUT'' ''provider_keys::set_provider_key''
        (spec (AdminRoute ProviderKeys_route) ''PUT''),
      action_route ''/api/admin/provider-keys/:env_name'' ''DELETE'' ''DELETE'' ''provider_keys::delete_provider_key''
        (spec (AdminRoute ProviderKeyByEnvName_route) ''DELETE''),
      action_route ''/api/admin/codex/login/start'' ''POST'' ''POST'' ''codex_auth::start_login''
        (spec (AdminRoute CodexAuthLogin_route) ''POST''),
      action_route ''/api/admin/codex/logout'' ''POST'' ''POST'' ''codex_auth::logout''
        (spec (AdminRoute CodexAuthLogout_route) ''POST''),
      action_route ''/api/pc-control/allowed-apps'' ''PUT'' ''PUT'' ''pc_control::update_allowed_apps''
        (spec (AdminRoute PcControlAllowedApps_route) ''PUT''),
      action_route ''/api/pc-control/blocked-hotkeys'' ''PUT'' ''PUT'' ''pc_control::update_blocked_hotkeys''
        (spec (AdminRoute PcControlBlockedHotkeys_route) ''PUT''),
      action_route ''/api/pc-control/safe-zones'' ''PUT'' ''PUT'' ''pc_control::update_safe_zones''
        (spec (AdminRoute PcControlSafeZones_route) ''PUT'')]"

definition admin_routes :: "endpoint option list" where
  "admin_routes = admin_routes_1 @ admin_routes_2"

definition superadmin_routes :: "endpoint option list" where
  "superadmin_routes =
     [action_route ''/api/admin/restore'' ''POST'' ''POST'' ''admin::restore_backup''
        (spec (AdminRoute AdminRestore_route) ''POST''),
      action_route ''/api/safety/kill-all'' ''POST'' ''POST'' ''safety::kill_all''
        (spec (AdminRoute SafetyKillAll_route) ''POST'')]"

text \<open>
  The five groups of \<^verbatim>\<open>route_sets.rs\<close> that \<^verbatim>\<open>build_router\<close> merges first. The mesh router and the push
  routes, which it merges afterwards, belong to other components and are not in the list; and merging itself,
  which panics when two routes share a path and a method, is not modelled.
\<close>

definition api_routes :: "endpoint option list" where
  "api_routes = public_routes @ read_routes @ operator_routes @ admin_routes @ superadmin_routes"

subsection \<open>Guards and the path of a request\<close>

definition require_route :: "route_authorization_spec \<Rightarrow> claims option \<Rightarrow> api_error + unit" where
  "require_route s cl =
     (let c = context_new (spec_action s) (spec_route_id s)
      in case spec_authorization_kind s of
           OwnerOrAdmin \<Rightarrow> Inl (InternalError ''owner-aware routes must use dedicated authz middleware'')
         | _ \<Rightarrow> (case authorize_claims cl c of Inl e \<Rightarrow> Inl e | Inr _ \<Rightarrow> Inr ()))"

text \<open>
  The table of live executions gives the actor key of an execution, nothing, or a storage error.
\<close>

definition live_not_found :: "string \<Rightarrow> api_error" where
  "live_not_found eid = NotFound ''resource'' (''live execution '' @ eid @ '' not found'')"

definition require_live_execution_route ::
    "(string \<Rightarrow> string option option) \<Rightarrow> action \<Rightarrow> route_id \<Rightarrow> string \<Rightarrow> claims option
      \<Rightarrow> api_error + string" where
  "require_live_execution_route get_by_id a r eid cl =
     (case get_by_id eid of
        None \<Rightarrow> Inl (DatabaseError ''require_live_execution_route: database error'')
      | Some None \<Rightarrow> Inl (live_not_found eid)
      | Some (Some actor_key) \<Rightarrow>
          (case authorize_claims cl
                  (with_resource (context_new a r) (LiveExecutionResource eid (Some actor_key))) of
             Inl _ \<Rightarrow> Inl (live_not_found eid)
           | Inr _ \<Rightarrow> Inr actor_key))"

definition require_live_execution_read_route ::
    "(string \<Rightarrow> string option option) \<Rightarrow> string \<Rightarrow> claims option \<Rightarrow> api_error + string" where
  "require_live_execution_read_route get_by_id eid cl =
     require_live_execution_route get_by_id (ReadAction LiveExecutionRead)
       (WorkRoute LiveExecutionById_route) eid cl"

definition require_live_execution_cancel_route ::
    "(string \<Rightarrow> string option option) \<Rightarrow> string \<Rightarrow> claims option \<Rightarrow> api_error + string" where
  "require_live_execution_cancel_route get_by_id eid cl =
     require_live_execution_route get_by_id (ReadAction LiveExecutionCancel)
       (WorkRoute LiveExecutionCancelById_route) eid cl"

text \<open>
  A request at an endpoint passes the authentication middleware, then the compatibility layer
  if the endpoint has one (it was added last and runs first), then the guard. The execution id
  is the path parameter.
\<close>

datatype request_outcome =
    AuthRefused nat string
  | GuardRefused api_error
  | Handled "claims option"

definition run_guard ::
    "(string \<Rightarrow> string option option) \<Rightarrow> endpoint_guard \<Rightarrow> string \<Rightarrow> claims option \<Rightarrow> api_error option" where
  "run_guard get_by_id g eid cl =
     (case g of
        Unguarded \<Rightarrow> None
      | RequireRoute s \<Rightarrow> (case require_route s cl of Inl e \<Rightarrow> Some e | Inr _ \<Rightarrow> None)
      | RequireLiveExecutionRead \<Rightarrow>
          (case require_live_execution_read_route get_by_id eid cl of Inl e \<Rightarrow> Some e | Inr _ \<Rightarrow> None)
      | RequireLiveExecutionCancel \<Rightarrow>
          (case require_live_execution_cancel_route get_by_id eid cl of Inl e \<Rightarrow> Some e | Inr _ \<Rightarrow> None))"

definition serve ::
    "auth_env \<Rightarrow> u64 \<Rightarrow> auth_config option \<Rightarrow> revocation_set option \<Rightarrow> (string \<Rightarrow> string option option)
      \<Rightarrow> endpoint \<Rightarrow> string \<Rightarrow> http_request \<Rightarrow> request_outcome" where
  "serve env now cfg rv get_by_id ep eid rq =
     (case auth_middleware env now cfg rv rq of
        Refuse status code \<Rightarrow> AuthRefused status code
      | Proceed cl \<Rightarrow>
          (case (if ep_compatibility ep then enforce_client_compatibility rq else Inr None) of
             Inl e \<Rightarrow> GuardRefused e
           | Inr _ \<Rightarrow>
               (case run_guard get_by_id (ep_guard ep) eid cl of
                  Some e \<Rightarrow> GuardRefused e
                | None \<Rightarrow> Handled cl)))"

subsection \<open>Building the table\<close>

text \<open>
  An endpoint is well formed when it was built without a panic, its guard is the specification
  of its route at the method it answers, and that guard is one the route middleware implements.
\<close>

definition endpoint_ok :: "endpoint option \<Rightarrow> bool" where
  "endpoint_ok e =
     (case e of
        None \<Rightarrow> False
      | Some ep \<Rightarrow>
          (case ep_guard ep of
             RequireRoute s \<Rightarrow>
               route_spec_for (spec_route_id s) (ep_method ep) = Some s \<and>
               spec_authorization_kind s \<noteq> OwnerOrAdmin \<and>
               ep_compatibility ep = spec_compatibility_required s
           | _ \<Rightarrow> \<not> ep_compatibility ep))"

definition has_route_spec :: "route_id \<Rightarrow> string \<Rightarrow> bool" where
  "has_route_spec r m =
     (case route_spec_for r m of None \<Rightarrow> False | Some s \<Rightarrow> spec_authorization_kind s \<noteq> OwnerOrAdmin)"

lemma endpoint_ok_action:
  "has_route_spec r m \<Longrightarrow> endpoint_ok (action_route path m m handler (spec r m))"
  using route_spec_kind(1)[of r m]
  by (auto simp: endpoint_ok_def action_route_def spec_def has_route_spec_def split: option.splits)

lemma endpoint_ok_other [simp]:
  "endpoint_ok (public_route path m handler)"
  "endpoint_ok (live_execution_route path m handler)"
  "endpoint_ok (live_execution_cancel_route path m handler)"
  by (simp_all add: endpoint_ok_def public_route_def live_execution_route_def
      live_execution_cancel_route_def)

text \<open>Each block of the table holds the routes of one block of the enumeration.\<close>

lemma has_route_spec_member:
  assumes "(r, m) \<in> set (map fst route_arms)" "r \<noteq> WorkRoute LiveExecutionById_route"
    "r \<noteq> WorkRoute LiveExecutionCancelById_route"
  shows "has_route_spec r m"
proof -
  obtain s where s: "route_spec_for r m = Some s"
    using assms(1) unfolding route_spec_for_def by (cases "map_of route_arms (r, m)") (auto simp: map_of_eq_None_iff)
  then have "((r, m), s) \<in> set route_arms"
    unfolding route_spec_for_def by (rule map_of_SomeD)
  moreover have "list_all (\<lambda>((r, m), s). spec_authorization_kind s = OwnerOrAdmin \<longrightarrow>
      r = WorkRoute LiveExecutionById_route \<or> r = WorkRoute LiveExecutionCancelById_route) route_arms"
    by (simp add: route_arms_def session_arms_def work_arms_def studio_arms_def link_arms_def
        market_arms_def admin_arms_def spec_defs)
  ultimately have "spec_authorization_kind s \<noteq> OwnerOrAdmin"
    using assms(2,3) by (auto simp: list_all_iff)
  with s show ?thesis by (simp add: has_route_spec_def)
qed

lemma has_route_spec_block:
  "(CoreRoute a, m) \<in> set (map fst session_arms) \<Longrightarrow> has_route_spec (CoreRoute a) m"
  "(StudioRoute c, m) \<in> set (map fst studio_arms) \<Longrightarrow> has_route_spec (StudioRoute c) m"
  "(LinkRoute d, m) \<in> set (map fst link_arms) \<Longrightarrow> has_route_spec (LinkRoute d) m"
  "(MarketRoute e, m) \<in> set (map fst market_arms) \<Longrightarrow> has_route_spec (MarketRoute e) m"
  "(AdminRoute g, m) \<in> set (map fst admin_arms) \<Longrightarrow> has_route_spec (AdminRoute g) m"
  by (rule has_route_spec_member; simp add: route_arms_def)+

lemma has_route_spec_work:
  "(WorkRoute b, m) \<in> set (map fst work_arms) \<Longrightarrow> b \<noteq> LiveExecutionById_route \<Longrightarrow>
   b \<noteq> LiveExecutionCancelById_route \<Longrightarrow> has_route_spec (WorkRoute b) m"
  by (rule has_route_spec_member) (simp_all add: route_arms_def)

lemmas spec_blocks = has_route_spec_block has_route_spec_work

lemmas block_keys =
  session_arms_def work_arms_def studio_arms_def link_arms_def market_arms_def admin_arms_def

lemma read_routes_1_ok: "list_all endpoint_ok read_routes_1"
  unfolding read_routes_1_def list.pred_inject
  by (intro conjI TrueI endpoint_ok_other endpoint_ok_action spec_blocks) (simp_all add: block_keys)

lemma read_routes_2_ok: "list_all endpoint_ok read_routes_2"
  unfolding read_routes_2_def list.pred_inject
  by (intro conjI TrueI endpoint_ok_other endpoint_ok_action spec_blocks) (simp_all add: block_keys)

lemma read_routes_3_ok: "list_all endpoint_ok read_routes_3"
  unfolding read_routes_3_def list.pred_inject
  by (intro conjI TrueI endpoint_ok_other endpoint_ok_action spec_blocks) (simp_all add: block_keys)

lemma operator_routes_1_ok: "list_all endpoint_ok operator_routes_1"
  unfolding operator_routes_1_def list.pred_inject
  by (intro conjI TrueI endpoint_ok_other endpoint_ok_action spec_blocks) (simp_all add: block_keys)

lemma operator_routes_2_ok: "list_all endpoint_ok operator_routes_2"
  unfolding operator_routes_2_def list.pred_inject
  by (intro conjI TrueI endpoint_ok_other endpoint_ok_action spec_blocks) (simp_all add: block_keys)

lemma operator_routes_3_ok: "list_all endpoint_ok operator_routes_3"
  unfolding operator_routes_3_def list.pred_inject
  by (intro conjI TrueI endpoint_ok_other endpoint_ok_action spec_blocks) (simp_all add: block_keys)

lemma admin_routes_1_ok: "list_all endpoint_ok admin_routes_1"
  unfolding admin_routes_1_def list.pred_inject
  by (intro conjI TrueI endpoint_ok_other endpoint_ok_action spec_blocks) (simp_all add: block_keys)

lemma admin_routes_2_ok: "list_all endpoint_ok admin_routes_2"
  unfolding admin_routes_2_def list.pred_inject
  by (intro conjI TrueI endpoint_ok_other endpoint_ok_action spec_blocks) (simp_all add: block_keys)

lemma superadmin_routes_ok: "list_all endpoint_ok superadmin_routes"
  unfolding superadmin_routes_def list.pred_inject
  by (intro conjI TrueI endpoint_ok_other endpoint_ok_action spec_blocks) (simp_all add: block_keys)

lemma public_routes_ok: "list_all endpoint_ok public_routes"
  by (simp add: public_routes_def)

lemmas route_groups =
  read_routes_def operator_routes_def admin_routes_def

lemma list_all_endpoint_ok: "list_all endpoint_ok api_routes"
  by (simp add: api_routes_def route_groups public_routes_ok read_routes_1_ok read_routes_2_ok
      read_routes_3_ok operator_routes_1_ok operator_routes_2_ok operator_routes_3_ok
      admin_routes_1_ok admin_routes_2_ok superadmin_routes_ok)

text \<open>
  No specification is missing: each of the listed endpoints is public, guarded by a rule of its own for live
  executions, or has a specification declared for exactly the method its handler answers; and none is
  guarded by the owner rule that the route middleware refuses to serve.
\<close>

theorem api_routes_build: "list_all endpoint_ok api_routes"
  by (rule list_all_endpoint_ok)

subsection \<open>Who reaches a handler\<close>

lemma require_route_Inr:
  "require_route s cl = Inr () \<longleftrightarrow>
     spec_authorization_kind s \<noteq> OwnerOrAdmin \<and>
     (\<exists>x. authorize_claims cl (context_new (spec_action s) (spec_route_id s)) = Inr x)"
  by (auto simp: require_route_def Let_def split: route_authorization_kind.splits sum.splits)

lemma require_route_missing: "require_route s None \<noteq> Inr ()"
  unfolding require_route_Inr authorize_claims_Inr by simp

lemma require_route_min_role:
  assumes "policy_kind (spec_action s) = MinimumRole r" "spec_authorization_kind s \<noteq> OwnerOrAdmin"
  shows "require_route s (Some cs) = Inr () \<longleftrightarrow>
         (case granted_role cs of None \<Rightarrow> False | Some g \<Rightarrow> r \<le> g)"
  using authorize_claims_min_role[of "context_new (spec_action s) (spec_route_id s)" r cs] assms
  by (simp add: require_route_Inr context_new_def)

lemma run_guard_route: "run_guard f (RequireRoute s) eid cl = None \<longleftrightarrow> require_route s cl = Inr ()"
  by (auto simp: run_guard_def split: sum.splits)

lemma serve_Handled:
  "serve env now cfg rv f ep eid rq = Handled cl \<longleftrightarrow>
     auth_middleware env now cfg rv rq = Proceed cl \<and>
     (ep_compatibility ep \<longrightarrow> (\<exists>x. enforce_client_compatibility rq = Inr x)) \<and>
     run_guard f (ep_guard ep) eid cl = None"
  by (auto simp: serve_def split: auth_outcome.splits sum.splits option.splits)

text \<open>The claims that get past the middleware, by mode.\<close>

lemma auth_middleware_claims:
  assumes "auth_middleware env now (Some cfg) (Some rv) rq = Proceed (Some cs)"
  shows "(\<exists>secret token. jwt_secret cfg = Some secret \<and> bearer_of rq = Some token \<and>
            env_decode env token secret = Some cs \<and> \<not> env_expired env now cs \<and>
            (cl_jti cs = [] \<or> \<not> is_revoked rv (cl_jti cs)))
       \<or> (jwt_secret cfg = None \<and> legacy_token cfg \<noteq> None \<and> bearer_of rq = legacy_token cfg \<and>
            cs = admin_fallback)
       \<or> (\<not> auth_required cfg \<and> \<not> is_production cfg \<and> \<not> is_safety_endpoint (rq_path rq) \<and>
            cs = no_auth_fallback)"
  using assms
  by (auto simp: auth_middleware_def jwt_mode_def decode_jwt_def auth_required_def constant_time_eq_exact
      split: if_splits option.splits)

lemma api_route_guard:
  assumes "Some ep \<in> set api_routes" "ep_guard ep = RequireRoute s"
  shows "policy_kind (spec_action s) = effective_kind s" "spec_authorization_kind s \<noteq> OwnerOrAdmin"
proof -
  have "endpoint_ok (Some ep)" using assms(1) list_all_endpoint_ok by (auto simp: list_all_iff)
  then have sp: "route_spec_for (spec_route_id s) (ep_method ep) = Some s"
    and "spec_authorization_kind s \<noteq> OwnerOrAdmin"
    using assms(2) by (simp_all add: endpoint_ok_def)
  then show "policy_kind (spec_action s) = effective_kind s" "spec_authorization_kind s \<noteq> OwnerOrAdmin"
    using route_spec_kind(2) by blast+
qed

lemma superadmin_routes_eq:
  "superadmin_routes =
     map (\<lambda>(p, h, r, a). Some \<lparr>ep_path = p, ep_method = ''POST'', ep_handler = h, ep_compatibility = True,
            ep_guard = RequireRoute (superadmin_spec r a)\<rparr>)
       [(''/api/admin/restore'', ''admin::restore_backup'', AdminRoute AdminRestore_route,
           SuperadminAction AdminRestoreVerify),
        (''/api/safety/kill-all'', ''safety::kill_all'', AdminRoute SafetyKillAll_route,
           SuperadminAction SafetyKillAll)]"
proof -
  have "spec (AdminRoute SafetyKillAll_route) ''POST'' =
          Some (superadmin_spec (AdminRoute SafetyKillAll_route) (SuperadminAction SafetyKillAll))"
    "spec (AdminRoute AdminRestore_route) ''POST'' =
          Some (superadmin_spec (AdminRoute AdminRestore_route) (SuperadminAction AdminRestoreVerify))"
    by (simp_all add: spec_def route_spec_for_def route_arms_def block_keys)
  moreover from this have
    "route_spec_for (AdminRoute SafetyKillAll_route) ''POST'' =
          Some (superadmin_spec (AdminRoute SafetyKillAll_route) (SuperadminAction SafetyKillAll))"
    "route_spec_for (AdminRoute AdminRestore_route) ''POST'' =
          Some (superadmin_spec (AdminRoute AdminRestore_route) (SuperadminAction AdminRestoreVerify))"
    by (simp_all add: spec_def)
  ultimately show ?thesis
    by (simp add: superadmin_routes_def action_route_def spec_defs)
qed

lemma superadmin_member:
  assumes "Some ep \<in> set superadmin_routes"
  obtains s where "ep_guard ep = RequireRoute s" "policy_kind (spec_action s) = MinimumRole SuperAdmin"
    "spec_authorization_kind s = MinimumRole SuperAdmin" "ep_compatibility ep"
    "ep_path ep \<notin> set public_paths"
proof -
  consider "ep_path ep = ''/api/admin/restore''"
      "ep_guard ep = RequireRoute (superadmin_spec (AdminRoute AdminRestore_route) (SuperadminAction AdminRestoreVerify))"
      "ep_compatibility ep"
    | "ep_path ep = ''/api/safety/kill-all''"
      "ep_guard ep = RequireRoute (superadmin_spec (AdminRoute SafetyKillAll_route) (SuperadminAction SafetyKillAll))"
      "ep_compatibility ep"
    using assms unfolding superadmin_routes_eq by auto
  then show ?thesis
    by cases (auto intro!: that simp: spec_defs policy_kind_def action_lists public_paths_def)
qed

text \<open>
  C35. The handlers of kill-all and of restore are reached, past authentication, the client check and the
  route's guard (rate limits aside), exactly by a compatible client with a
  signed, unexpired and unrevoked token whose role is superadmin. Neither the legacy token nor
  the development mode reaches them, nor does any token that a login issues, since those are
  the administrator's.
\<close>

theorem superadmin_handlers:
  assumes "Some ep \<in> set superadmin_routes" "rq_path rq = ep_path ep"
  shows "(serve env now (Some cfg) (Some rv) f ep eid rq = Handled cl \<longleftrightarrow>
           (\<exists>secret token cs. cl = Some cs \<and> jwt_secret cfg = Some secret \<and>
              bearer_of rq = Some token \<and> env_decode env token secret = Some cs \<and>
              \<not> env_expired env now cs \<and> (cl_jti cs = [] \<or> \<not> is_revoked rv (cl_jti cs)) \<and>
              granted_role cs = Some SuperAdmin \<and>
              (\<exists>client. enforce_client_compatibility rq = Inr client)))
         \<and> granted_role (admin_claims iat ttl jti) = Some Admin"
proof -
  obtain s where g: "ep_guard ep = RequireRoute s" "policy_kind (spec_action s) = MinimumRole SuperAdmin"
    "spec_authorization_kind s = MinimumRole SuperAdmin" "ep_compatibility ep"
    "ep_path ep \<notin> set public_paths"
    using superadmin_member[OF assms(1)] by blast
  have top: "require_route s (Some cs) = Inr () \<longleftrightarrow> granted_role cs = Some SuperAdmin" for cs
    using require_route_min_role[OF g(2), of cs] g(3)
    by (cases "granted_role cs"; cases "the (granted_role cs)") (auto simp: role_order)
  have adm: "granted_role (admin_claims iat ttl jti) = Some Admin"
    by (simp add: granted_role_def admin_claims_def parse_wire_role_def)
  have "serve env now (Some cfg) (Some rv) f ep eid rq = Handled cl \<longleftrightarrow>
        auth_middleware env now (Some cfg) (Some rv) rq = Proceed cl \<and>
        (\<exists>x. enforce_client_compatibility rq = Inr x) \<and> require_route s cl = Inr ()"
    by (simp add: serve_Handled g run_guard_route)
  also have "\<dots> \<longleftrightarrow> (\<exists>cs. cl = Some cs \<and>
        auth_middleware env now (Some cfg) (Some rv) rq = Proceed (Some cs) \<and>
        granted_role cs = Some SuperAdmin \<and> (\<exists>x. enforce_client_compatibility rq = Inr x))"
    using require_route_missing[of s] by (cases cl) (auto simp: top)
  finally have served: "serve env now (Some cfg) (Some rv) f ep eid rq = Handled cl \<longleftrightarrow> \<dots>" .
  have jwt: "auth_middleware env now (Some cfg) (Some rv) rq = Proceed (Some cs)"
    if "jwt_secret cfg = Some secret" "bearer_of rq = Some token" "env_decode env token secret = Some cs"
      "\<not> env_expired env now cs" "cl_jti cs = [] \<or> \<not> is_revoked rv (cl_jti cs)" for secret token cs
    using that assms(2) g(5)
    by (auto simp: auth_middleware_def auth_required_def jwt_mode_def decode_jwt_def)
  show ?thesis
    unfolding served using adm auth_middleware_claims[of env now cfg rv rq] jwt by fastforce
qed

theorem superadmin_handlers_witness:
  "let ep = \<lparr>ep_path = ''/api/safety/kill-all'', ep_method = ''POST'', ep_handler = ''safety::kill_all'',
             ep_compatibility = True,
             ep_guard = RequireRoute (superadmin_spec (AdminRoute SafetyKillAll_route)
                          (SuperadminAction SafetyKillAll))\<rparr>;
       cfg = \<lparr>jwt_secret = None, legacy_token = Some ''t'', is_production = True\<rparr>;
       rq = bearer_request ''POST'' ''/api/safety/kill-all'' ''t''
   in \<not> (\<exists>cl. serve plain_env 0 (Some cfg) (Some (revocation_new [])) (\<lambda>_. None) ep [] rq = Handled cl)"
proof -
  have "Some \<lparr>ep_path = ''/api/safety/kill-all'', ep_method = ''POST'', ep_handler = ''safety::kill_all'',
             ep_compatibility = True,
             ep_guard = RequireRoute (superadmin_spec (AdminRoute SafetyKillAll_route)
                          (SuperadminAction SafetyKillAll))\<rparr> \<in> set superadmin_routes"
    by (simp add: superadmin_routes_eq)
  from superadmin_handlers[OF this, of "bearer_request ''POST'' ''/api/safety/kill-all'' ''t''"]
  show ?thesis by (simp add: Let_def)
qed

text \<open>
  With no credential configured the gateway grants the development role to everyone: then a
  guarded handler runs only outside production, never on a safety path, and only where the rule
  in force asks for a viewer or an operator; no administrative or review action is reached.
\<close>

theorem dev_mode_reach:
  assumes "\<not> auth_required cfg" "Some ep \<in> set api_routes" "ep_guard ep = RequireRoute s"
    and "serve env now (Some cfg) (Some rv) f ep eid rq = Handled cl"
  shows "\<not> is_production cfg \<and> \<not> is_safety_endpoint (rq_path rq) \<and>
         policy_kind (spec_action s) \<in> {MinimumRole Viewer, MinimumRole Operator}"
proof -
  have mid: "auth_middleware env now (Some cfg) (Some rv) rq = Proceed cl"
    and ok: "require_route s cl = Inr ()"
    using assms(3,4) by (simp_all add: serve_Handled run_guard_route)
  obtain cs where cl: "cl = Some cs" using ok require_route_missing[of s] by (cases cl) auto
  have cs: "cs = no_auth_fallback" "\<not> is_production cfg" "\<not> is_safety_endpoint (rq_path rq)"
    using auth_middleware_claims[OF mid[unfolded cl]] assms(1) by (auto simp: auth_required_def)
  obtain p where p: "from_claims no_auth_fallback (auth_mode_hint_for_claims no_auth_fallback) = Inr p"
    "kind_allows (policy_kind (spec_action s)) p NoResource"
    using ok unfolding cl cs(1) require_route_Inr authorize_claims_Inr by (auto simp: context_new_def)
  have "pr_base_role p = Operator" "pr_capabilities p = {}"
    using from_claims_Inr[OF p(1)] by simp_all
  with p(2) have "policy_kind (spec_action s) \<in> {MinimumRole Viewer, MinimumRole Operator}"
    by (cases "policy_kind (spec_action s)"; cases "case policy_kind (spec_action s) of MinimumRole r \<Rightarrow> r")
       (auto simp: role_order matches_resource_owner_def)
  with cs show ?thesis by simp
qed

definition agents_endpoint :: endpoint where
  "agents_endpoint =
     \<lparr>ep_path = ''/api/agents'', ep_method = ''GET'', ep_handler = ''agents::list_agents'',
      ep_compatibility = False,
      ep_guard = RequireRoute (viewer_spec (CoreRoute Agents_route) (ReadAction AgentReadList))\<rparr>"

lemma agents_endpoint_member: "Some agents_endpoint \<in> set api_routes"
proof -
  have "route_spec_for (CoreRoute Agents_route) ''GET'' =
      Some (viewer_spec (CoreRoute Agents_route) (ReadAction AgentReadList))"
    by (simp add: route_spec_for_def route_arms_def session_arms_def)
  then have "action_route ''/api/agents'' ''GET'' ''GET'' ''agents::list_agents''
      (spec (CoreRoute Agents_route) ''GET'') = Some agents_endpoint"
    by (simp add: action_route_def spec_def agents_endpoint_def spec_defs)
  moreover have "action_route ''/api/agents'' ''GET'' ''GET'' ''agents::list_agents''
      (spec (CoreRoute Agents_route) ''GET'') \<in> set read_routes_1"
    unfolding read_routes_1_def by (simp only: list.set insert_iff simp_thms)
  ultimately show ?thesis by (auto simp: api_routes_def read_routes_def)
qed

theorem dev_mode_reach_witness:
  "let cfg = \<lparr>jwt_secret = None, legacy_token = None, is_production = False\<rparr>;
       rq = \<lparr>rq_method = ''GET'', rq_path = ''/api/agents'', rq_header = (\<lambda>_. None)\<rparr>
   in serve plain_env 0 (Some cfg) (Some (revocation_new [])) (\<lambda>_. None) agents_endpoint [] rq =
        Handled (Some no_auth_fallback) \<and>
      policy_kind (ReadAction AgentReadList) \<in> {MinimumRole Viewer, MinimumRole Operator}"
proof -
  define cfg where "cfg = \<lparr>jwt_secret = None, legacy_token = None, is_production = False\<rparr>"
  define rq where "rq = \<lparr>rq_method = ''GET'', rq_path = ''/api/agents'', rq_header = (\<lambda>_. None :: string option)\<rparr>"
  have kind: "policy_kind (ReadAction AgentReadList) = MinimumRole Viewer"
    by (simp add: policy_kind_def viewer_actions_def)
  have "require_route (viewer_spec (CoreRoute Agents_route) (ReadAction AgentReadList))
          (Some no_auth_fallback) = Inr ()"
    by (subst require_route_min_role[of _ Viewer]) (simp_all add: spec_defs kind role_order)
  moreover have "auth_middleware plain_env 0 (Some cfg) (Some (revocation_new [])) rq =
      Proceed (Some no_auth_fallback)"
    by (simp add: auth_middleware_def cfg_def rq_def public_paths_def auth_required_def
        is_safety_endpoint_def starts_with_def)
  ultimately have served: "serve plain_env 0 (Some cfg) (Some (revocation_new [])) (\<lambda>_. None)
      agents_endpoint [] rq = Handled (Some no_auth_fallback)"
    by (simp add: serve_Handled agents_endpoint_def run_guard_route)
  have "\<not> auth_required cfg" by (simp add: cfg_def auth_required_def)
  from dev_mode_reach[OF this agents_endpoint_member _ served]
  have "policy_kind (ReadAction AgentReadList) \<in> {MinimumRole Viewer, MinimumRole Operator}"
    by (simp add: agents_endpoint_def spec_defs)
  with served show ?thesis by (simp add: cfg_def rq_def)
qed

lemma authorize_claims_owner:
  assumes "policy_kind (cx_action c) = OwnerOrAdmin" "cx_resource c = LiveExecutionResource eid (Some actor)"
  shows "(\<exists>x. authorize_claims cl c = Inr x) \<longleftrightarrow>
         (case cl of None \<Rightarrow> False | Some cs \<Rightarrow>
            (case granted_role cs of None \<Rightarrow> False | Some r \<Rightarrow> Admin \<le> r \<or> cl_sub cs = actor))"
proof (cases cl)
  case None
  then show ?thesis unfolding authorize_claims_Inr by simp
next
  case (Some cs)
  show ?thesis
  proof (cases "from_claims cs (auth_mode_hint_for_claims cs)")
    case (Inl e)
    then show ?thesis unfolding authorize_claims_Inr using Some from_claims_Inl[OF Inl] by simp
  next
    case (Inr p)
    then show ?thesis
      unfolding authorize_claims_Inr using Some from_claims_Inr(1,2)[OF Inr] assms
      by (auto simp: matches_resource_owner_def)
  qed
qed

lemma live_missing:
  "require_live_execution_read_route (\<lambda>_. Some None) eid cl = Inl (live_not_found eid)"
  by (simp add: require_live_execution_read_route_def require_live_execution_route_def)

text \<open>
  A live execution is shown or cancelled exactly by an administrator or by the actor who
  started it; everyone else gets the answer of an execution that does not exist.
\<close>

theorem live_execution_owner_or_admin:
  assumes "get_by_id eid = Some (Some actor)"
  shows "require_live_execution_read_route get_by_id eid cl =
           (case cl of
              None \<Rightarrow> require_live_execution_read_route (\<lambda>_. Some None) eid cl
            | Some cs \<Rightarrow>
                (case granted_role cs of
                   None \<Rightarrow> require_live_execution_read_route (\<lambda>_. Some None) eid cl
                 | Some r \<Rightarrow>
                     if Admin \<le> r \<or> cl_sub cs = actor then Inr actor
                     else require_live_execution_read_route (\<lambda>_. Some None) eid cl))
         \<and> require_live_execution_cancel_route get_by_id eid cl =
           require_live_execution_read_route get_by_id eid cl"
proof -
  have kind: "policy_kind (ReadAction LiveExecutionRead) = OwnerOrAdmin"
    "policy_kind (ReadAction LiveExecutionCancel) = OwnerOrAdmin"
    by (simp_all add: policy_kind_def)
  have run: "require_live_execution_route get_by_id a r eid cl =
      (if \<exists>x. authorize_claims cl (with_resource (context_new a r) (LiveExecutionResource eid (Some actor))) = Inr x
       then Inr actor else Inl (live_not_found eid))" for a r
    using assms by (auto simp: require_live_execution_route_def split: sum.splits)
  have allowed: "(\<exists>x. authorize_claims cl (with_resource (context_new a r)
        (LiveExecutionResource eid (Some actor))) = Inr x) \<longleftrightarrow>
      (\<exists>cs r. cl = Some cs \<and> granted_role cs = Some r \<and> (Admin \<le> r \<or> cl_sub cs = actor))"
    if "policy_kind a = OwnerOrAdmin" for a r
    using that
    by (subst authorize_claims_owner)
       (auto simp: with_resource_def context_new_def matches_resource_owner_def split: option.splits)
  show ?thesis
    unfolding require_live_execution_read_route_def require_live_execution_cancel_route_def
      run allowed[OF kind(1)] allowed[OF kind(2)]
    by (auto simp: require_live_execution_route_def split: option.splits)
qed

theorem live_execution_owner_or_admin_witness:
  "require_live_execution_read_route (\<lambda>_. Some (Some ''bob'')) ''e1'' (Some no_auth_fallback) =
     Inl (live_not_found ''e1'')"
  using live_execution_owner_or_admin[of "\<lambda>_. Some (Some ''bob'')" "''e1''" "''bob''" "Some no_auth_fallback"]
  by (simp add: role_order live_missing no_auth_fallback_def[THEN arg_cong, of cl_sub])

end
