(* ===== verification/Consensus.thy ===== *)
theory Consensus
  imports Ordered_Map
begin

section \<open>Consensus on cross-agent changes\<close>

text \<open>
  \<^verbatim>\<open>cortex-multiagent/src/consensus.rs\<close>: rounds of votes on proposals, decided by the number of
  approvals and rejections. The counters of the configuration are machine words, since the
  allowed number of rejections is their difference; the timeout is stored and not used by the
  source.
\<close>

datatype vote = Approve | Reject | Abstain

record consensus_config =
  required_approvals :: u64
  total_participants :: u64
  timeout_seconds :: u64

definition consensus_config_default :: consensus_config where
  "consensus_config_default =
     \<lparr>required_approvals = 2, total_participants = 3, timeout_seconds = 300\<rparr>"

datatype consensus_result = Approved | Rejected | Pending nat nat

record consensus_round =
  cr_proposal_id :: uuid
  cr_config :: consensus_config
  cr_votes :: "(uuid, vote) btree_map"

record consensus_shield =
  cs_config :: consensus_config
  cs_rounds :: "(uuid, consensus_round) btree_map"

definition shield_new :: "consensus_config \<Rightarrow> consensus_shield" where
  "shield_new cfg = \<lparr>cs_config = cfg, cs_rounds = bt_new\<rparr>"

definition start_round :: "uuid \<Rightarrow> consensus_shield \<Rightarrow> consensus_shield" where
  "start_round p cs =
     cs\<lparr>cs_rounds := bt_insert p \<lparr>cr_proposal_id = p, cr_config = cs_config cs, cr_votes = bt_new\<rparr>
                       (cs_rounds cs)\<rparr>"

definition count_votes :: "vote \<Rightarrow> (uuid, vote) btree_map \<Rightarrow> nat" where
  "count_votes v votes = length (filter (\<lambda>w. w = v) (bt_values votes))"

definition shield_evaluate :: "consensus_shield \<Rightarrow> uuid \<Rightarrow> consensus_result" where
  "shield_evaluate cs p =
     (case bt_get (cs_rounds cs) p of
        None \<Rightarrow> Rejected
      | Some r \<Rightarrow>
          (let approvals = count_votes Approve (cr_votes r);
               rejections = count_votes Reject (cr_votes r)
           in if unat (required_approvals (cr_config r)) \<le> approvals then Approved
              else if unat (total_participants (cr_config r) - required_approvals (cr_config r)) < rejections
              then Rejected
              else Pending approvals rejections))"

definition shield_vote ::
    "uuid \<Rightarrow> uuid \<Rightarrow> vote \<Rightarrow> consensus_shield \<Rightarrow> consensus_result \<times> consensus_shield" where
  "shield_vote p a v cs =
     (case bt_get (cs_rounds cs) p of
        None \<Rightarrow> (Rejected, cs)
      | Some r \<Rightarrow>
          (let cs' = cs\<lparr>cs_rounds := bt_insert p (r\<lparr>cr_votes := bt_insert a v (cr_votes r)\<rparr>) (cs_rounds cs)\<rparr>
           in (shield_evaluate cs' p, cs')))"

subsection \<open>The last vote of each agent decides\<close>

datatype shield_op = StartRound uuid | CastVote uuid uuid vote

fun shield_step :: "consensus_shield \<Rightarrow> shield_op \<Rightarrow> consensus_shield" where
  "shield_step cs (StartRound p) = start_round p cs"
| "shield_step cs (CastVote p a v) = snd (shield_vote p a v cs)"

text \<open>
  The specification reads the history alone. An agent's standing vote on a proposal is one it cast
  at some point after a start of the round, with no later start of the round and no later vote of
  its own.
\<close>

definition standing_vote :: "shield_op list \<Rightarrow> uuid \<Rightarrow> uuid \<Rightarrow> vote \<Rightarrow> bool" where
  "standing_vote es p a v \<longleftrightarrow>
     (\<exists>i < length es. es ! i = CastVote p a v \<and> StartRound p \<in> set (take i es) \<and>
        StartRound p \<notin> set (drop (Suc i) es) \<and> (\<forall>w. CastVote p a w \<notin> set (drop (Suc i) es)))"

definition supporters :: "shield_op list \<Rightarrow> uuid \<Rightarrow> vote \<Rightarrow> nat" where
  "supporters es p v = card {a. standing_vote es p a v}"

lemma standing_vote_snoc:
  "standing_vote (es @ [e]) p a v \<longleftrightarrow>
     e = CastVote p a v \<and> StartRound p \<in> set es \<or>
     e \<noteq> StartRound p \<and> (\<forall>w. e \<noteq> CastVote p a w) \<and> standing_vote es p a v"
proof
  assume "standing_vote (es @ [e]) p a v"
  then obtain i where i: "i < Suc (length es)" "(es @ [e]) ! i = CastVote p a v"
    "StartRound p \<in> set (take i (es @ [e]))" "StartRound p \<notin> set (drop (Suc i) (es @ [e]))"
    "\<forall>w. CastVote p a w \<notin> set (drop (Suc i) (es @ [e]))" by (auto simp: standing_vote_def)
  show "e = CastVote p a v \<and> StartRound p \<in> set es \<or>
     e \<noteq> StartRound p \<and> (\<forall>w. e \<noteq> CastVote p a w) \<and> standing_vote es p a v"
  proof (cases "i = length es")
    case True
    then show ?thesis using i by simp
  next
    case False
    then have "i < length es" using i(1) by simp
    with i show ?thesis by (auto simp: standing_vote_def nth_append intro!: exI [of _ i])
  qed
next
  assume "e = CastVote p a v \<and> StartRound p \<in> set es \<or>
     e \<noteq> StartRound p \<and> (\<forall>w. e \<noteq> CastVote p a w) \<and> standing_vote es p a v"
  then show "standing_vote (es @ [e]) p a v"
  proof (elim disjE conjE)
    assume "e = CastVote p a v" "StartRound p \<in> set es"
    then show ?thesis by (auto simp: standing_vote_def intro!: exI [of _ "length es"])
  next
    assume e: "e \<noteq> StartRound p" "\<forall>w. e \<noteq> CastVote p a w" and "standing_vote es p a v"
    then obtain i where "i < length es" "es ! i = CastVote p a v" "StartRound p \<in> set (take i es)"
      "StartRound p \<notin> set (drop (Suc i) es)" "\<forall>w. CastVote p a w \<notin> set (drop (Suc i) es)"
      by (auto simp: standing_vote_def)
    with e show ?thesis by (auto simp: standing_vote_def nth_append intro!: exI [of _ i])
  qed
qed

abbreviation shield_run :: "consensus_config \<Rightarrow> shield_op list \<Rightarrow> consensus_shield" where
  "shield_run cfg es \<equiv> foldl shield_step (shield_new cfg) es"

definition shield_ok :: "consensus_config \<Rightarrow> consensus_shield \<Rightarrow> bool" where
  "shield_ok cfg cs \<longleftrightarrow> cs_config cs = cfg \<and>
     (\<forall>p r. bt_get (cs_rounds cs) p = Some r \<longrightarrow> cr_config r = cfg \<and> cr_proposal_id r = p)"

lemma shield_ok_step: "shield_ok cfg cs \<Longrightarrow> shield_ok cfg (shield_step cs e)"
  by (cases e) (auto simp: shield_ok_def start_round_def shield_vote_def Let_def split: option.splits)

interpretation shield: invariant_steps shield_step "shield_ok cfg" for cfg
  by unfold_locales (rule shield_ok_step)

lemma shield_run_ok: "shield_ok cfg (shield_run cfg es)"
  by (rule shield.inv_run) (simp add: shield_ok_def shield_new_def)

lemma shield_rounds_step:
  "bt_get (cs_rounds (shield_step cs e)) p =
     (if e = StartRound p then Some \<lparr>cr_proposal_id = p, cr_config = cs_config cs, cr_votes = bt_new\<rparr>
      else case e of
        CastVote q a v \<Rightarrow>
          if q = p then map_option (\<lambda>r. r\<lparr>cr_votes := bt_insert a v (cr_votes r)\<rparr>) (bt_get (cs_rounds cs) p)
          else bt_get (cs_rounds cs) p
      | StartRound q \<Rightarrow> bt_get (cs_rounds cs) p)"
  by (cases e) (auto simp: start_round_def shield_vote_def Let_def split: option.splits)

text \<open>The rounds hold the standing votes.\<close>

lemma rounds_standing:
  "(case bt_get (cs_rounds (shield_run cfg es)) p of
      None \<Rightarrow> StartRound p \<notin> set es
    | Some r \<Rightarrow> StartRound p \<in> set es \<and> (\<forall>a v. bt_get (cr_votes r) a = Some v \<longleftrightarrow> standing_vote es p a v))"
proof (induction es rule: rev_induct)
  case Nil
  then show ?case by (simp add: shield_new_def)
next
  case (snoc e es)
  then show ?case
    by (cases e)
      (auto simp: shield_rounds_step standing_vote_snoc simp del: shield_step.simps split: option.splits)
qed

lemma count_votes_card: "count_votes v votes = card {a. bt_get votes a = Some v}"
  using bt_filter_count[of "\<lambda>w. w = v" votes] by (simp add: count_votes_def)

lemma evaluate_run:
  "shield_evaluate (shield_run cfg es) p =
     (if StartRound p \<notin> set es then Rejected
      else if unat (required_approvals cfg) \<le> supporters es p Approve then Approved
      else if unat (total_participants cfg - required_approvals cfg) < supporters es p Reject then Rejected
      else Pending (supporters es p Approve) (supporters es p Reject))"
proof (cases "bt_get (cs_rounds (shield_run cfg es)) p")
  case None
  then show ?thesis using rounds_standing [where cfg = cfg and es = es and p = p] by (simp add: shield_evaluate_def)
next
  case (Some r)
  have "cr_config r = cfg" using shield_run_ok [of cfg es] Some by (simp add: shield_ok_def)
  moreover have "count_votes v (cr_votes r) = supporters es p v" for v
    using rounds_standing [where cfg = cfg and es = es and p = p] Some by (simp add: count_votes_card supporters_def)
  ultimately show ?thesis
    using rounds_standing [where cfg = cfg and es = es and p = p] Some by (simp add: shield_evaluate_def Let_def)
qed

lemma vote_answer:
  "fst (shield_vote p a v cs) = shield_evaluate (shield_step cs (CastVote p a v)) p"
  by (cases "bt_get (cs_rounds cs) p") (simp_all add: shield_vote_def shield_evaluate_def Let_def)

text \<open>
  C25. The consensus gate is the N-of-M rule on standing votes: after any starts of rounds and any
  votes, with N at most M, a proposal is approved exactly when its round was started and at least N
  distinct agents' standing votes approve, rejected exactly when no round was started or fewer than N
  approve and so many reject that the other M agents cannot make N, and otherwise pending with both
  numbers. A vote is answered with the decision that counts it. Repeated votes count once and a new
  start forgets all votes. Any agent id may vote (M is not checked against the voters), and time
  plays no role, although the configuration has a timeout.
\<close>

theorem consensus_by_standing_votes:
  assumes "required_approvals cfg \<le> total_participants cfg"
  shows "let n = unat (required_approvals cfg); m = unat (total_participants cfg);
      started = (StartRound p \<in> set es); yes = supporters es p Approve; no = supporters es p Reject;
      result = shield_evaluate (shield_run cfg es) p
    in (result = Approved) = (started \<and> n \<le> yes) \<and>
       (result = Rejected) = (\<not> started \<or> yes < n \<and> m < n + no) \<and>
       (\<forall>y x. (result = Pending y x) = (started \<and> yes < n \<and> n + no \<le> m \<and> y = yes \<and> x = no)) \<and>
       fst (shield_vote p a v (shield_run cfg es)) = shield_evaluate (shield_run cfg (es @ [CastVote p a v])) p"
proof -
  have "unat (total_participants cfg - required_approvals cfg) =
        unat (total_participants cfg) - unat (required_approvals cfg)"
    using assms by (simp add: unat_sub)
  moreover have "unat (required_approvals cfg) \<le> unat (total_participants cfg)"
    using assms by (simp add: word_le_nat_alt)
  ultimately show ?thesis
    by (auto simp: evaluate_run [of cfg es] vote_answer Let_def)
qed

definition sample_round :: "shield_op list" where
  "sample_round = [CastVote 7 1 Approve, StartRound 7, CastVote 7 1 Reject, CastVote 7 2 Approve,
     CastVote 7 1 Approve]"

theorem consensus_by_standing_votes_witness:
  "shield_evaluate (shield_run consensus_config_default sample_round) 7 = Approved \<and>
   2 \<le> supporters sample_round 7 Approve"
proof -
  let ?votes = "bt_insert 1 Approve (bt_insert 2 Approve (bt_insert 1 Reject bt_new)) :: (uuid, vote) btree_map"
  have "{a. bt_get ?votes a = Some Approve} = {1, 2}" by (auto split: if_splits)
  then have "count_votes Approve ?votes = 2" by (simp only: count_votes_card) simp
  then have "shield_evaluate (shield_run consensus_config_default sample_round) 7 = Approved"
    by (simp add: sample_round_def shield_evaluate_def shield_vote_def start_round_def shield_new_def
        consensus_config_default_def Let_def)
  then show ?thesis
    using consensus_by_standing_votes [of consensus_config_default 7 sample_round 1 Approve]
    by (simp add: consensus_config_default_def Let_def)
qed

subsection \<open>Rounds are decided\<close>

text \<open>
  A round is decided once as many agents' standing votes are for or against as there are
  participants, provided no more approvals are required than there are participants.
\<close>

theorem full_round_decided:
  assumes "required_approvals cfg \<le> total_participants cfg" "StartRound p \<in> set es"
    and "unat (total_participants cfg) \<le> supporters es p Approve + supporters es p Reject"
  shows "shield_evaluate (shield_run cfg es) p \<in> {Approved, Rejected}"
proof -
  have "unat (total_participants cfg - required_approvals cfg) =
        unat (total_participants cfg) - unat (required_approvals cfg)"
    using assms(1) by (simp add: unat_sub)
  moreover have "unat (required_approvals cfg) \<le> unat (total_participants cfg)"
    using assms(1) by (simp add: word_le_nat_alt)
  ultimately show ?thesis
    using assms(2,3) by (auto simp: evaluate_run)
qed

end
