(* ===== verification/Crdt_Guard.thy ===== *)
theory Crdt_Guard
  imports Ordered_Map Float64
begin

section \<open>Sybil guard, key registry and signed deltas\<close>

text \<open>
  \<^verbatim>\<open>cortex-crdt/src/sybil.rs\<close> and \<^verbatim>\<open>cortex-crdt/src/signing\<close>: the limit on the agents a parent may
  spawn in a day, the trust levels, the registry of public keys and the signed deltas. The
  serializer of deltas, the rendering of a timestamp and the signature scheme are parameters.
\<close>

definition chrono_hours :: "int \<Rightarrow> chrono_duration" where
  "chrono_hours n = chrono_secs (3600 * n)"

definition chrono_days :: "int \<Rightarrow> chrono_duration" where
  "chrono_days n = chrono_hours (24 * n)"

datatype sybil_error = SpawnLimitExceeded uuid nat nat

record agent_trust =
  at_agent_id :: uuid
  at_parent_id :: "uuid option"
  at_trust :: f64
  at_created_at :: datetime

text \<open>\<^verbatim>\<open>f64::min\<close> returns the other argument when one is not a number.\<close>

definition f64_min :: "f64 \<Rightarrow> f64 \<Rightarrow> f64" where
  "f64_min x y = (if is_nan x then y else if is_nan y then x else if f64_lt x y then x else y)"

definition trust_effective :: "datetime \<Rightarrow> agent_trust \<Rightarrow> f64" where
  "trust_effective now t =
     (if now - at_created_at t < chrono_days 7 then f64_min (at_trust t) (Finite (6 / 10))
      else at_trust t)"

record sybil_guard =
  sg_max_children_per_day :: nat
  sg_initial_trust :: f64
  sg_young_agent_cap :: f64
  sg_spawn_records :: "(uuid, (uuid \<times> datetime) list) btree_map"
  sg_trust_levels :: "(uuid, agent_trust) btree_map"

definition sybil_guard_new :: sybil_guard where
  "sybil_guard_new =
     \<lparr>sg_max_children_per_day = 3, sg_initial_trust = Finite (3 / 10), sg_young_agent_cap = Finite (6 / 10),
      sg_spawn_records = bt_new, sg_trust_levels = bt_new\<rparr>"

definition register_spawn ::
    "uuid \<Rightarrow> uuid \<Rightarrow> datetime \<Rightarrow> sybil_guard \<Rightarrow> (sybil_error + agent_trust) \<times> sybil_guard" where
  "register_spawn parent child now sg =
     (let cutoff = now - chrono_hours 24;
          records = filter (\<lambda>(_, t). cutoff < t) (bt_get_or [] (sg_spawn_records sg) parent)
      in if sg_max_children_per_day sg \<le> length records then
           (Inl (SpawnLimitExceeded parent (length records) (sg_max_children_per_day sg)),
            sg\<lparr>sg_spawn_records := bt_insert parent records (sg_spawn_records sg)\<rparr>)
         else
           (let trust = \<lparr>at_agent_id = child, at_parent_id = Some parent, at_trust = sg_initial_trust sg,
                         at_created_at = now\<rparr>
            in (Inr trust,
                sg\<lparr>sg_spawn_records := bt_insert parent (records @ [(child, now)]) (sg_spawn_records sg),
                   sg_trust_levels := bt_insert child trust (sg_trust_levels sg)\<rparr>)))"

definition guard_effective_trust :: "datetime \<Rightarrow> sybil_guard \<Rightarrow> uuid \<Rightarrow> f64" where
  "guard_effective_trust now sg a =
     (case bt_get (sg_trust_levels sg) a of None \<Rightarrow> Finite 0 | Some t \<Rightarrow> trust_effective now t)"

definition set_trust :: "uuid \<Rightarrow> f64 \<Rightarrow> sybil_guard \<Rightarrow> sybil_guard" where
  "set_trust a v sg =
     (case bt_get (sg_trust_levels sg) a of
        None \<Rightarrow> sg
      | Some t \<Rightarrow> sg\<lparr>sg_trust_levels := bt_insert a (t\<lparr>at_trust := v\<rparr>) (sg_trust_levels sg)\<rparr>)"

subsection \<open>The spawn limit\<close>

text \<open>
  A run of spawn requests and trust changes with the accepted spawns of each parent, oldest
  first.
\<close>

datatype sybil_op = Spawn uuid uuid datetime | SetTrust uuid f64

type_synonym spawn_log = "uuid \<Rightarrow> datetime list"

fun sybil_step :: "sybil_guard \<times> spawn_log \<Rightarrow> sybil_op \<Rightarrow> sybil_guard \<times> spawn_log" where
  "sybil_step (sg, lg) (Spawn p c now) =
     (case register_spawn p c now sg of
        (Inl _, sg') \<Rightarrow> (sg', lg)
      | (Inr _, sg') \<Rightarrow> (sg', lg(p := lg p @ [now])))"
| "sybil_step (sg, lg) (SetTrust a v) = (set_trust a v sg, lg)"

definition op_time :: "sybil_op \<Rightarrow> datetime option" where
  "op_time e = (case e of Spawn _ _ now \<Rightarrow> Some now | SetTrust _ _ \<Rightarrow> None)"

definition clock_monotone :: "sybil_op list \<Rightarrow> bool" where
  "clock_monotone es \<longleftrightarrow> sorted (List.map_filter op_time es)"

text \<open>
  Spacing: the third accepted spawn after a given one comes a full day later. What the guard
  keeps of a parent is the part of its log after some earlier cutoff.
\<close>

definition spaced :: "datetime list \<Rightarrow> bool" where
  "spaced ts \<longleftrightarrow> sorted ts \<and> (\<forall>i. i + 3 < length ts \<longrightarrow> ts ! i \<le> ts ! (i + 3) - chrono_hours 24)"

definition kept :: "datetime \<Rightarrow> sybil_guard \<times> spawn_log \<Rightarrow> bool" where
  "kept now s \<longleftrightarrow> (case s of (sg, lg) \<Rightarrow>
     sg_max_children_per_day sg = 3 \<and>
     (\<forall>p. spaced (lg p) \<and> (\<forall>t\<in>set (lg p). t \<le> now) \<and>
        (\<exists>c \<le> now - chrono_hours 24.
           map snd (bt_get_or [] (sg_spawn_records sg) p) = filter (\<lambda>t. c < t) (lg p))))"

lemma day_positive [simp]: "0 < chrono_hours 24"
  by (simp add: chrono_hours_def chrono_secs_def)

lemma filter_sorted_suffix:
  fixes ts :: "'a::linorder list"
  assumes "sorted ts"
  obtains k where "filter (\<lambda>t. c < t) ts = drop k ts" "\<forall>t\<in>set (take k ts). t \<le> c"
proof -
  have "\<exists>k. filter (\<lambda>t. c < t) ts = drop k ts \<and> (\<forall>t\<in>set (take k ts). t \<le> c)"
    using assms
  proof (induction ts)
    case Nil
    then show ?case by simp
  next
    case (Cons t ts)
    show ?case
    proof (cases "c < t")
      case True
      then have "filter (\<lambda>t. c < t) (t # ts) = t # ts"
        using Cons.prems by (auto simp: filter_id_conv)
      then show ?thesis by (intro exI[of _ 0]) simp
    next
      case False
      from Cons obtain k where "filter (\<lambda>t. c < t) ts = drop k ts" "\<forall>t\<in>set (take k ts). t \<le> c" by auto
      with False show ?thesis by (intro exI[of _ "Suc k"]) auto
    qed
  qed
  then show ?thesis using that by blast
qed

lemma spaced_append:
  assumes "spaced ts" "\<forall>t\<in>set ts. t \<le> now" "length (filter (\<lambda>t. now - chrono_hours 24 < t) ts) < 3"
  shows "spaced (ts @ [now])"
proof -
  obtain k where k: "filter (\<lambda>t. now - chrono_hours 24 < t) ts = drop k ts"
    "\<forall>t\<in>set (take k ts). t \<le> now - chrono_hours 24"
    using filter_sorted_suffix[of ts "now - chrono_hours 24"] assms(1) by (auto simp: spaced_def)
  have "length ts < k + 3" using assms(3) k(1) by auto
  moreover have "ts ! i \<le> now - chrono_hours 24" if "i + 3 = length ts" for i
  proof -
    have "i < k" "i < length ts" using that \<open>length ts < k + 3\<close> by auto
    then have "ts ! i \<in> set (take k ts)" by (auto simp: in_set_conv_nth)
    then show ?thesis using k(2) by blast
  qed
  ultimately show ?thesis
    using assms(1,2) by (auto simp: spaced_def sorted_append nth_append)
qed

lemma filter_filter_max:
  fixes c d :: "'a::linorder"
  assumes "c \<le> d"
  shows "filter (\<lambda>t. d < t) (filter (\<lambda>t. c < t) ts) = filter (\<lambda>t. d < t) ts"
  using assms by (auto simp: filter_filter intro: filter_cong)

lemma kept_step:
  assumes "kept before s" "op_time e = Some now" "before \<le> now"
  shows "kept now (sybil_step s e)"
proof -
  obtain sg lg where s: "s = (sg, lg)" by (cases s)
  obtain p ch where e: "e = Spawn p ch now" using assms(2) by (cases e) (auto simp: op_time_def)
  let ?cut = "now - chrono_hours 24"
  let ?recs = "filter (\<lambda>(_, t). ?cut < t) (bt_get_or [] (sg_spawn_records sg) p)"
  have three: "sg_max_children_per_day sg = 3" using assms(1) s by (simp add: kept_def)
  have old: "spaced (lg q)" "\<forall>t\<in>set (lg q). t \<le> now" for q
    using assms(1,3) s by (fastforce simp: kept_def)+
  have rec: "\<exists>c \<le> ?cut. map snd (bt_get_or [] (sg_spawn_records sg) q) = filter (\<lambda>t. c < t) (lg q)" for q
  proof -
    from assms(1) obtain c where "c \<le> before - chrono_hours 24"
      "map snd (bt_get_or [] (sg_spawn_records sg) q) = filter (\<lambda>t. c < t) (lg q)"
      unfolding s kept_def by auto
    with assms(3) show ?thesis by (intro exI[of _ c]) simp
  qed
  have recs: "map snd ?recs = filter (\<lambda>t. ?cut < t) (lg p)"
  proof -
    obtain c where c: "c \<le> ?cut" "map snd (bt_get_or [] (sg_spawn_records sg) p) = filter (\<lambda>t. c < t) (lg p)"
      using rec by blast
    have "map snd ?recs = filter (\<lambda>t. ?cut < t) (map snd (bt_get_or [] (sg_spawn_records sg) p))"
      by (simp add: filter_map comp_def case_prod_unfold)
    with c filter_filter_max show ?thesis by metis
  qed
  show ?thesis
  proof (cases "3 \<le> length ?recs")
    case True
    then show ?thesis
      using old rec three recs unfolding s e kept_def by (auto simp: register_spawn_def Let_def)
  next
    case False
    have "length (filter (\<lambda>t. ?cut < t) (lg p)) < 3" using False recs by (metis length_map not_le)
    then have "spaced (lg p @ [now])" using spaced_append[OF old(1,2)] by blast
    moreover have "map snd (?recs @ [(ch, now)]) = filter (\<lambda>t. ?cut < t) (lg p @ [now])"
      using recs by simp
    ultimately show ?thesis
      using old rec three False unfolding s e kept_def by (auto simp: register_spawn_def Let_def)
  qed
qed

lemma kept_set_trust: "kept now s \<Longrightarrow> kept now (sybil_step s (SetTrust a v))"
  by (cases s) (auto simp: kept_def set_trust_def split: option.splits)

lemma kept_run:
  "kept before s \<Longrightarrow> sorted (before # List.map_filter op_time es) \<Longrightarrow> \<exists>now. kept now (foldl sybil_step s es)"
proof (induction es arbitrary: s before)
  case Nil
  then show ?case by auto
next
  case (Cons e es)
  show ?case
  proof (cases "op_time e")
    case None
    then obtain a v where "e = SetTrust a v" by (cases e) (auto simp: op_time_def)
    with Cons None show ?thesis
      by (auto intro!: Cons.IH[of before] kept_set_trust simp: List.map_filter_def)
  next
    case (Some now)
    with Cons.prems have "before \<le> now" "sorted (now # List.map_filter op_time es)"
      by (auto simp: List.map_filter_def)
    with kept_step[OF Cons.prems(1) Some] show ?thesis by (simp add: Cons.IH)
  qed
qed

lemma spaced_window:
  assumes "spaced ts"
  shows "length (filter (\<lambda>t. T - chrono_hours 24 < t \<and> t \<le> T) ts) \<le> 3"
proof -
  let ?I = "{i. i < length ts \<and> T - chrono_hours 24 < ts ! i \<and> ts ! i \<le> T}"
  have len: "length (filter (\<lambda>t. T - chrono_hours 24 < t \<and> t \<le> T) ts) = card ?I"
    by (rule length_filter_conv_card)
  show ?thesis
  proof (cases "?I = {}")
    case True
    then show ?thesis unfolding len True by simp
  next
    case False
    define lo where "lo = Min ?I"
    have fin: "finite ?I" by simp
    have lo: "lo \<in> ?I" unfolding lo_def using Min_in[OF fin False] .
    have "?I \<subseteq> {lo, lo + 1, lo + 2}"
    proof
      fix i assume i: "i \<in> ?I"
      have "lo \<le> i" unfolding lo_def using Min_le[OF fin i] .
      moreover have "\<not> lo + 3 \<le> i"
      proof
        assume ge: "lo + 3 \<le> i"
        then have "ts ! (lo + 3) \<le> ts ! i"
          using assms i by (auto simp: spaced_def intro: sorted_nth_mono)
        moreover have "ts ! lo \<le> ts ! (lo + 3) - chrono_hours 24"
          using assms i ge by (auto simp: spaced_def)
        ultimately show False using lo i by auto
      qed
      ultimately show "i \<in> {lo, lo + 1, lo + 2}" by auto
    qed
    then have "card ?I \<le> card {lo, lo + 1, lo + 2}" by (intro card_mono) auto
    then show ?thesis unfolding len by simp
  qed
qed

text \<open>
  While the clock does not run backwards, no parent gets more than three spawns accepted in
  any window of 24 hours, whatever the sequence of requests and trust changes.
\<close>

theorem spawn_limit_per_day:
  assumes "clock_monotone es"
  shows "length (filter (\<lambda>t. T - chrono_hours 24 < t \<and> t \<le> T)
           (snd (foldl sybil_step (sybil_guard_new, \<lambda>_. []) es) p)) \<le> 3"
proof -
  obtain t0 where t0: "sorted (t0 # List.map_filter op_time es)"
  proof (cases "List.map_filter op_time es")
    case Nil
    then show ?thesis using that[of 0] by simp
  next
    case (Cons t ts)
    then show ?thesis using assms that[of t] by (auto simp: clock_monotone_def)
  qed
  have "kept t0 (sybil_guard_new, \<lambda>_. [])"
    by (auto simp: kept_def sybil_guard_new_def spaced_def)
  from kept_run[OF this t0] obtain now where "kept now (foldl sybil_step (sybil_guard_new, \<lambda>_. []) es)"
    by blast
  then show ?thesis
    by (cases "foldl sybil_step (sybil_guard_new, \<lambda>_. []) es") (auto simp: kept_def intro: spaced_window)
qed

theorem spawn_limit_per_day_witness:
  "length (filter (\<lambda>t. 4 - chrono_hours 24 < t \<and> t \<le> 4)
     (snd (foldl sybil_step (sybil_guard_new, \<lambda>_. [])
        [Spawn 1 2 0, Spawn 1 3 1, Spawn 1 4 2, SetTrust 2 PosInf, Spawn 1 5 3]) 1)) \<le> 3"
  using spawn_limit_per_day[of "[Spawn 1 2 0, Spawn 1 3 1, Spawn 1 4 2, SetTrust 2 PosInf, Spawn 1 5 3]" 4 1]
  by (simp add: clock_monotone_def List.map_filter_def op_time_def)

text \<open>
  Whatever trust was set, the effective trust of an agent in its first seven days is at
  most 0.6, also when the stored value is infinite or not a number; an unknown agent has none.
\<close>

theorem young_agent_trust_capped:
  "case bt_get (sg_trust_levels sg) a of
     None \<Rightarrow> guard_effective_trust now sg a = Finite 0
   | Some t \<Rightarrow>
       if now - at_created_at t < chrono_days 7
       then f64_le (guard_effective_trust now sg a) (Finite (6 / 10))
       else guard_effective_trust now sg a = at_trust t"
  by (cases "bt_get (sg_trust_levels sg) a")
     (auto simp: guard_effective_trust_def trust_effective_def f64_min_def f64_le_def f64_eq_def is_nan_def)

end
