(* ===== verification/Signed_Delta.thy ===== *)
theory Signed_Delta
  imports Gate_Chain Ordered_Map Rust_String
begin

section \<open>Signed deltas and the key registry\<close>

text \<open>
  \<^verbatim>\<open>cortex-crdt/src/signing\<close>: deltas wrapped with a signature over their canonical bytes, and the
  registry of public keys. The JSON serializer, the rendering of a timestamp and the signature
  scheme are the fields of \<open>delta_env\<close>. The wire format of a signature is the serializer's.
\<close>

record ('d, 'sk, 'pk, 'sig) delta_env =
  de_to_vec :: "'d \<Rightarrow> byte_seq option"
  de_rfc3339 :: "datetime \<Rightarrow> string"
  de_sign :: "'sk \<Rightarrow> byte_seq \<Rightarrow> 'sig"
  de_verify :: "'pk \<Rightarrow> byte_seq \<Rightarrow> 'sig \<Rightarrow> bool"

record ('d, 'sig) signed_delta =
  sd_delta :: 'd
  sd_author :: uuid
  sd_signature :: 'sig
  sd_timestamp :: datetime

definition delta_canonical_bytes ::
    "('d, 'sk, 'pk, 'sig) delta_env \<Rightarrow> 'd \<Rightarrow> uuid \<Rightarrow> datetime \<Rightarrow> byte_seq" where
  "delta_canonical_bytes env d author ts =
     (case de_to_vec env d of Some json \<Rightarrow> json | None \<Rightarrow> []) @
     as_bytes ''|'' @ uuid_bytes author @ as_bytes ''|'' @ as_bytes (de_rfc3339 env ts)"

definition sign_delta ::
    "('d, 'sk, 'pk, 'sig) delta_env \<Rightarrow> datetime \<Rightarrow> 'd \<Rightarrow> uuid \<Rightarrow> 'sk \<Rightarrow> ('d, 'sig) signed_delta" where
  "sign_delta env now d author key =
     \<lparr>sd_delta = d, sd_author = author,
      sd_signature = de_sign env key (delta_canonical_bytes env d author now), sd_timestamp = now\<rparr>"

definition verify_delta ::
    "('d, 'sk, 'pk, 'sig) delta_env \<Rightarrow> ('d, 'sig) signed_delta \<Rightarrow> 'pk \<Rightarrow> bool" where
  "verify_delta env sd key =
     de_verify env key (delta_canonical_bytes env (sd_delta sd) (sd_author sd) (sd_timestamp sd))
       (sd_signature sd)"

subsection \<open>The registry\<close>

record 'pk key_registry =
  kr_keys :: "(uuid, 'pk) btree_map"

definition key_registry_new :: "'pk key_registry" where
  "key_registry_new = \<lparr>kr_keys = bt_new\<rparr>"

definition kr_register :: "uuid \<Rightarrow> 'pk \<Rightarrow> 'pk key_registry \<Rightarrow> 'pk key_registry" where
  "kr_register a k r = r\<lparr>kr_keys := bt_insert a k (kr_keys r)\<rparr>"

definition kr_get :: "'pk key_registry \<Rightarrow> uuid \<Rightarrow> 'pk option" where
  "kr_get r a = bt_get (kr_keys r) a"

definition kr_remove :: "uuid \<Rightarrow> 'pk key_registry \<Rightarrow> 'pk option \<times> 'pk key_registry" where
  "kr_remove a r = (bt_get (kr_keys r) a, r\<lparr>kr_keys := bt_remove a (kr_keys r)\<rparr>)"

definition kr_len :: "'pk key_registry \<Rightarrow> nat" where
  "kr_len r = bt_len (kr_keys r)"

definition kr_is_empty :: "'pk key_registry \<Rightarrow> bool" where
  "kr_is_empty r \<longleftrightarrow> bt_len (kr_keys r) = 0"

subsection \<open>Canonical bytes determine the delta\<close>

lemma uuid_bytes_inject: "uuid_bytes u = uuid_bytes v \<longleftrightarrow> u = v"
proof
  assume eq: "uuid_bytes u = uuid_bytes v"
  show "u = v"
  proof (rule bit_eqI)
    fix n assume "possible_bit TYPE(uuid) n"
    then have n: "n < 128" by simp
    let ?i = "15 - n div 8"
    have i: "?i < 16" "15 - ?i = n div 8" using n by auto
    have "uuid_bytes u ! ?i = uuid_bytes v ! ?i" using eq by simp
    then have "(ucast (drop_bit (8 * (n div 8)) u) :: u8) = ucast (drop_bit (8 * (n div 8)) v)"
      using i by (simp add: uuid_bytes_def)
    then have "bit (ucast (drop_bit (8 * (n div 8)) u) :: u8) (n mod 8) =
               bit (ucast (drop_bit (8 * (n div 8)) v) :: u8) (n mod 8)" by simp
    then show "bit u n = bit v n"
      using n by (simp add: bit_ucast_iff bit_drop_bit_eq)
  qed
qed simp

lemma length_uuid_bytes [simp]: "length (uuid_bytes u) = 16"
  by (simp add: uuid_bytes_def)

lemma separator_split:
  assumes "xs @ [b] @ ys = xs' @ [b] @ ys'" "b \<notin> set ys" "b \<notin> set ys'"
  shows "xs = xs' \<and> ys = ys'"
proof -
  have "rev ys @ b # rev xs = rev ys' @ b # rev xs'"
    using arg_cong[OF assms(1), of rev] by simp
  moreover have "takeWhile (\<lambda>x. x \<noteq> b) (rev zs @ b # ws) = rev zs" if "b \<notin> set zs" for zs ws
    using that by (subst takeWhile_append2) auto
  ultimately have "rev ys = rev ys'" using assms(2,3) by metis
  with assms(1) show ?thesis by simp
qed

lemma canonical_bytes_inject:
  assumes "inj (de_to_vec env)" "\<forall>d. de_to_vec env d \<noteq> None" "inj (de_rfc3339 env)"
    and "\<forall>t. CHR ''|'' \<notin> set (de_rfc3339 env t)"
    and "delta_canonical_bytes env d a t = delta_canonical_bytes env d' a' t'"
  shows "d = d' \<and> a = a' \<and> t = t'"
proof -
  obtain j j' where j: "de_to_vec env d = Some j" "de_to_vec env d' = Some j'" using assms(2) by fastforce
  have bar: "as_bytes ''|'' = [124]" by (simp add: as_bytes_def)
  have no: "124 \<notin> set (as_bytes (de_rfc3339 env t))" for t
    using assms(4) byte_in_as_bytes[of "CHR ''|''"] by simp
  have "(j @ [124] @ uuid_bytes a) @ [124] @ as_bytes (de_rfc3339 env t) =
        (j' @ [124] @ uuid_bytes a') @ [124] @ as_bytes (de_rfc3339 env t')"
    using assms(5) j by (simp add: delta_canonical_bytes_def bar)
  from separator_split[OF this no no]
  have head: "j @ [124] @ uuid_bytes a = j' @ [124] @ uuid_bytes a'"
    and "as_bytes (de_rfc3339 env t) = as_bytes (de_rfc3339 env t')" by auto
  then have "t = t'" using as_bytes_inject assms(3) by (simp add: inj_eq)
  moreover have "(j @ [124]) @ uuid_bytes a = (j' @ [124]) @ uuid_bytes a'" using head by simp
  then have "j @ [124] = j' @ [124]" "uuid_bytes a = uuid_bytes a'"
    by (simp_all add: append_eq_append_conv)
  ultimately show ?thesis using j injD[OF assms(1), of d d'] by (simp add: uuid_bytes_inject)
qed

text \<open>
  A signed delta verifies under its author's key, and keeps verifying only while the delta,
  the author and the timestamp are the ones that were signed. The hypotheses are those of the
  serializer (total and faithful, with no bar in a timestamp) and of the signature scheme (a
  signature is valid for the message it was made for, and for no other).
\<close>

theorem signed_delta_tamper_evident:
  assumes "inj (de_to_vec env)" "\<forall>d. de_to_vec env d \<noteq> None" "inj (de_rfc3339 env)"
    and "\<forall>t. CHR ''|'' \<notin> set (de_rfc3339 env t)"
    and "\<forall>m m'. de_verify env pk m' (de_sign env sk m) \<longleftrightarrow> m' = m"
  shows "verify_delta env ((sign_delta env now d author sk)
           \<lparr>sd_delta := d', sd_author := author', sd_timestamp := now'\<rparr>) pk \<longleftrightarrow>
         d' = d \<and> author' = author \<and> now' = now"
  using assms(5) canonical_bytes_inject[OF assms(1-4)]
  by (auto simp: verify_delta_def sign_delta_def)

definition plain_delta_env :: "(byte_seq, nat, nat, nat \<times> byte_seq) delta_env" where
  "plain_delta_env =
     \<lparr>de_to_vec = Some, de_rfc3339 = show_int, de_sign = Pair, de_verify = (\<lambda>pk m s. s = (pk, m))\<rparr>"

theorem signed_delta_tamper_evident_witness:
  "\<not> verify_delta plain_delta_env ((sign_delta plain_delta_env 5 [1] 7 9)\<lparr>sd_author := 8\<rparr>) 9"
proof -
  have "inj (de_to_vec plain_delta_env)" "\<forall>d. de_to_vec plain_delta_env d \<noteq> None"
    "inj (de_rfc3339 plain_delta_env)" "\<forall>t. CHR ''|'' \<notin> set (de_rfc3339 plain_delta_env t)"
    "\<forall>m m'. de_verify plain_delta_env 9 m' (de_sign plain_delta_env 9 m) \<longleftrightarrow> m' = m"
    by (auto simp: plain_delta_env_def inj_def show_int_no_char is_digit_def)
  from signed_delta_tamper_evident[OF this, where now = 5 and d = "[1]" and author = 7 and d' = "[1]" and author' = 8 and now' = 5]
  show ?thesis by (simp add: sign_delta_def)
qed

text \<open>The registry is a map from agents to keys.\<close>

lemma key_registry_map:
  "kr_get (kr_register a k r) = (kr_get r)(a \<mapsto> k)"
  "kr_get (snd (kr_remove a r)) = (kr_get r)(a := None)"
  "fst (kr_remove a r) = kr_get r a"
  "kr_len r = card (dom (kr_get r))"
  by (simp_all add: fun_eq_iff kr_get_def kr_register_def kr_remove_def kr_len_def bt_len_card dom_def)

end
