(* ===== verification/Gateway_State.thy ===== *)
theory Gateway_State
  imports Prelude
begin

section \<open>The gateway state machine\<close>

text \<open>
  \<^verbatim>\<open>ghost-gateway/src/gateway.rs\<close>: the six states kept in an atomic byte, the legal transitions,
  and \<^verbatim>\<open>transition_to\<close>, which loads the byte, checks the edge and then stores the new state. The
  load and the store are two atomic operations, so calls of different threads interleave; the
  step relation at the end has them as separate steps.
\<close>

datatype gateway_state = Initializing | Healthy | Degraded | Recovering | ShuttingDown | FatalError

fun gateway_state_as_u8 :: "gateway_state \<Rightarrow> u8" where
  "gateway_state_as_u8 Initializing = 0"
| "gateway_state_as_u8 Healthy = 1"
| "gateway_state_as_u8 Degraded = 2"
| "gateway_state_as_u8 Recovering = 3"
| "gateway_state_as_u8 ShuttingDown = 4"
| "gateway_state_as_u8 FatalError = 5"

definition gateway_state_from_u8 :: "u8 \<Rightarrow> gateway_state" where
  "gateway_state_from_u8 v =
     (if v = 0 then Initializing else if v = 1 then Healthy else if v = 2 then Degraded
      else if v = 3 then Recovering else if v = 4 then ShuttingDown else FatalError)"

fun gateway_can_transition_to :: "gateway_state \<Rightarrow> gateway_state \<Rightarrow> bool" where
  "gateway_can_transition_to Initializing to = (to \<in> {Healthy, Degraded, FatalError})"
| "gateway_can_transition_to Healthy to = (to \<in> {Degraded, ShuttingDown})"
| "gateway_can_transition_to Degraded to = (to \<in> {Recovering, ShuttingDown})"
| "gateway_can_transition_to Recovering to = (to \<in> {Healthy, Degraded, ShuttingDown})"
| "gateway_can_transition_to ShuttingDown to = False"
| "gateway_can_transition_to FatalError to = False"

datatype gateway_error =
    IllegalTransition gateway_state gateway_state
  | BootstrapFailed string
  | ShutdownError string

record gateway_shared_state =
  gw_state :: u8

definition gateway_shared_new :: gateway_shared_state where
  "gateway_shared_new = \<lparr>gw_state = gateway_state_as_u8 Initializing\<rparr>"

definition gateway_current_state :: "gateway_shared_state \<Rightarrow> gateway_state" where
  "gateway_current_state g = gateway_state_from_u8 (gw_state g)"

definition transition_to ::
    "gateway_state \<Rightarrow> gateway_shared_state \<Rightarrow> (gateway_error + unit) \<times> gateway_shared_state" where
  "transition_to to g =
     (let from = gateway_current_state g
      in if \<not> gateway_can_transition_to from to then (Inl (IllegalTransition from to), g)
         else (Inr (), g\<lparr>gw_state := gateway_state_as_u8 to\<rparr>))"

text \<open>The end of \<^verbatim>\<open>run_with_router\<close>, once the server has stopped.\<close>

definition finish_run :: "gateway_shared_state \<Rightarrow> (gateway_error + unit) \<times> gateway_shared_state" where
  "finish_run g =
     (if gateway_current_state g \<noteq> ShuttingDown then transition_to ShuttingDown g else (Inr (), g))"

lemma gateway_u8_round_trip [simp]: "gateway_state_from_u8 (gateway_state_as_u8 s) = s"
  by (cases s) (simp_all add: gateway_state_from_u8_def)

declare gateway_state_as_u8.simps [simp del]

definition terminal :: "gateway_state \<Rightarrow> bool" where
  "terminal s \<longleftrightarrow> s = ShuttingDown \<or> s = FatalError"

lemma terminal_iff: "terminal s \<longleftrightarrow> (\<forall>to. \<not> gateway_can_transition_to s to)"
  by (cases s) (auto simp: terminal_def)

subsection \<open>Calls one after the other\<close>

definition gw_step :: "gateway_shared_state \<Rightarrow> gateway_state \<Rightarrow> gateway_shared_state" where
  "gw_step g to = snd (transition_to to g)"

lemma gateway_current_state_step:
  "gateway_current_state (gw_step g to) =
     (if gateway_can_transition_to (gateway_current_state g) to then to else gateway_current_state g)"
  by (simp add: gw_step_def transition_to_def Let_def gateway_current_state_def)

interpretation gw_latch: invariant_steps gw_step "\<lambda>g. terminal s \<and> gateway_current_state g = s" for s
  by unfold_locales (auto simp: gateway_current_state_step terminal_iff)

interpretation gw_started: invariant_steps gw_step "\<lambda>g. gateway_current_state g \<notin> {Initializing, FatalError}"
proof unfold_locales
  show "gateway_current_state (gw_step g to) \<notin> {Initializing, FatalError}"
    if "gateway_current_state g \<notin> {Initializing, FatalError}" for g to
    using that by (cases "gateway_current_state g") (auto simp: gateway_current_state_step)
qed

text \<open>
  When transitions are made one after the other, shutting down and the fatal error are
  final, a gateway that got past its initialization never fails fatally and never initializes
  again, and every run of the server ends shutting down, unless it ends while initializing or
  after a fatal error, which is reported as an illegal transition.
\<close>

theorem gateway_states_sequential:
  "(if terminal (gateway_current_state g) then gateway_current_state (foldl gw_step g tos) = gateway_current_state g
    else if gateway_current_state g \<noteq> Initializing
    then gateway_current_state (foldl gw_step g tos) \<notin> {Initializing, FatalError}
    else True)
   \<and> (if gateway_current_state g \<in> {Initializing, FatalError}
      then finish_run g = (Inl (IllegalTransition (gateway_current_state g) ShuttingDown), g)
      else fst (finish_run g) = Inr () \<and> gateway_current_state (snd (finish_run g)) = ShuttingDown)"
proof -
  have "gateway_current_state (foldl gw_step g tos) = gateway_current_state g" if "terminal (gateway_current_state g)"
    using gw_latch.inv_run[of "gateway_current_state g" g tos] that by simp
  moreover have "gateway_current_state (foldl gw_step g tos) \<notin> {Initializing, FatalError}"
    if "gateway_current_state g \<notin> {Initializing, FatalError}"
    using gw_started.inv_run[of g tos] that by simp
  moreover have "fst (finish_run g) = Inr () \<and> gateway_current_state (snd (finish_run g)) = ShuttingDown"
    if "gateway_current_state g \<notin> {Initializing, FatalError}"
    using that
    by (cases "gateway_current_state g")
       (auto simp: finish_run_def transition_to_def Let_def gateway_current_state_def)
  moreover have "finish_run g = (Inl (IllegalTransition (gateway_current_state g) ShuttingDown), g)"
    if "gateway_current_state g \<in> {Initializing, FatalError}"
    using that by (auto simp: finish_run_def transition_to_def Let_def)
  ultimately show ?thesis by (auto simp: terminal_def)
qed

subsection \<open>Calls of several threads\<close>

text \<open>
  The byte and, for each thread, the state it has checked and is about to store. A call that
  fails its check has no further step.
\<close>

record gateway_threads =
  th_shared :: gateway_shared_state
  th_pending :: "nat \<Rightarrow> gateway_state option"

inductive thread_step :: "gateway_threads \<Rightarrow> gateway_threads \<Rightarrow> bool" where
  check: "th_pending c i = None \<Longrightarrow> gateway_can_transition_to (gateway_current_state (th_shared c)) to \<Longrightarrow>
     thread_step c (c\<lparr>th_pending := (th_pending c)(i := Some to)\<rparr>)"
| store: "th_pending c i = Some to \<Longrightarrow>
     thread_step c (c\<lparr>th_shared := (th_shared c)\<lparr>gw_state := gateway_state_as_u8 to\<rparr>,
                      th_pending := (th_pending c)(i := None)\<rparr>)"

inductive_cases thread_stepE: "thread_step c c'"

definition threads_start :: gateway_threads where
  "threads_start = \<lparr>th_shared = gateway_shared_new, th_pending = (\<lambda>_. None)\<rparr>"

lemma thread_never_initializes:
  "thread_step c c' \<Longrightarrow> (\<forall>i. th_pending c i \<noteq> Some Initializing) \<Longrightarrow>
   (\<forall>i. th_pending c' i \<noteq> Some Initializing) \<and>
   (gateway_current_state (th_shared c') = Initializing \<longrightarrow> gateway_current_state (th_shared c) = Initializing)"
proof (induction rule: thread_step.induct)
  case (check c i to)
  then show ?case by (cases "gateway_current_state (th_shared c)") auto
next
  case (store c i to)
  then show ?case by (auto simp: gateway_current_state_def)
qed

lemma step_extends: "thread_step\<^sup>*\<^sup>* a b \<Longrightarrow> thread_step b c \<Longrightarrow> thread_step\<^sup>*\<^sup>* a c"
  by simp

text \<open>
  The check and the store of a transition are not one atomic operation: two threads can take
  a running gateway out of its final shutting-down state.
\<close>

theorem terminal_state_left_by_race:
  "\<exists>c c'. thread_step\<^sup>*\<^sup>* threads_start c \<and> gateway_current_state (th_shared c) = ShuttingDown \<and>
          thread_step c c' \<and> gateway_current_state (th_shared c') = Degraded"
proof -
  define st :: "gateway_state \<Rightarrow> gateway_state option \<Rightarrow> gateway_state option \<Rightarrow> gateway_threads" where
    "st s a b = \<lparr>th_shared = \<lparr>gw_state = gateway_state_as_u8 s\<rparr>, th_pending = (\<lambda>_. None)(2 := a, 3 := b)\<rparr>"
    for s a b
  have st_simps: "th_pending (st s a b) 2 = a" "th_pending (st s a b) 3 = b"
    "gateway_current_state (th_shared (st s a b)) = s" for s a b
    by (simp_all add: st_def gateway_current_state_def)
  have upd: "(st s a b)\<lparr>th_pending := (th_pending (st s a b))(2 := x)\<rparr> = st s x b"
    "(st s a b)\<lparr>th_pending := (th_pending (st s a b))(3 := x)\<rparr> = st s a x"
    "(st s a b)\<lparr>th_shared := (th_shared (st s a b))\<lparr>gw_state := gateway_state_as_u8 t\<rparr>,
                th_pending := (th_pending (st s a b))(2 := x)\<rparr> = st t x b"
    "(st s a b)\<lparr>th_shared := (th_shared (st s a b))\<lparr>gw_state := gateway_state_as_u8 t\<rparr>,
                th_pending := (th_pending (st s a b))(3 := x)\<rparr> = st t a x" for s a b x t
    by (auto simp: st_def fun_upd_twist)
  have start: "threads_start = st Initializing None None"
    by (auto simp: threads_start_def gateway_shared_new_def st_def)
  have s1: "thread_step (st Initializing None None) (st Initializing (Some Healthy) None)"
    using check[of "st Initializing None None" 2 Healthy] by (simp add: st_simps upd)
  have s2: "thread_step (st Initializing (Some Healthy) None) (st Healthy None None)"
    using store[of "st Initializing (Some Healthy) None" 2 Healthy] by (simp add: st_simps upd)
  have s3: "thread_step (st Healthy None None) (st Healthy (Some Degraded) None)"
    using check[of "st Healthy None None" 2 Degraded] by (simp add: st_simps upd)
  have s4: "thread_step (st Healthy (Some Degraded) None) (st Healthy (Some Degraded) (Some ShuttingDown))"
    using check[of "st Healthy (Some Degraded) None" 3 ShuttingDown] by (simp add: st_simps upd)
  have s5: "thread_step (st Healthy (Some Degraded) (Some ShuttingDown)) (st ShuttingDown (Some Degraded) None)"
    using store[of "st Healthy (Some Degraded) (Some ShuttingDown)" 3 ShuttingDown] by (simp add: st_simps upd)
  have reach: "thread_step\<^sup>*\<^sup>* threads_start (st ShuttingDown (Some Degraded) None)"
    unfolding start
    using s1 s2 s3 s4 s5 step_extends by blast
  have "thread_step (st ShuttingDown (Some Degraded) None) (st Degraded None None)"
    using store[of "st ShuttingDown (Some Degraded) None" 2 Degraded] by (simp add: st_simps upd)
  then show ?thesis
    using reach st_simps(3) by blast
qed

end
