(* ===== verification/Session_Manager.thy ===== *)
theory Session_Manager
  imports Ordered_Map Float64 "HOL-Library.List_Lexorder" "HOL-Library.Char_ord"
begin

section \<open>Gateway sessions: manager, boundary and router\<close>

text \<open>
  \<^verbatim>\<open>ghost-gateway/src/session/manager.rs\<close>, \<^verbatim>\<open>boundary.rs\<close> and \<^verbatim>\<open>router.rs\<close>: the sessions with their
  index by agent, the limits on the length of a session and the gap between sessions, and the
  binding of channels to agents. The clock and the fresh session id are inputs.
\<close>

record session_context =
  sc_session_id :: uuid
  sc_agent_id :: uuid
  sc_channel :: string
  sc_created_at :: datetime
  sc_last_activity :: datetime
  sc_token_count :: nat
  sc_cost :: f64
  sc_model_context_window :: nat

record session_manager =
  sm_sessions :: "(uuid, session_context) btree_map"
  sm_agent_sessions :: "(uuid, uuid list) btree_map"

definition session_manager_new :: session_manager where
  "session_manager_new = \<lparr>sm_sessions = bt_new, sm_agent_sessions = bt_new\<rparr>"

definition create_session ::
    "uuid \<Rightarrow> datetime \<Rightarrow> uuid \<Rightarrow> string \<Rightarrow> nat \<Rightarrow> session_manager \<Rightarrow> session_context \<times> session_manager" where
  "create_session sid now agent channel window sm =
     (let ctx = \<lparr>sc_session_id = sid, sc_agent_id = agent, sc_channel = channel, sc_created_at = now,
                 sc_last_activity = now, sc_token_count = 0, sc_cost = Finite 0,
                 sc_model_context_window = window\<rparr>
      in (ctx, sm\<lparr>sm_sessions := bt_insert sid ctx (sm_sessions sm),
                  sm_agent_sessions := bt_entry_or agent [] (\<lambda>ids. ids @ [sid]) (sm_agent_sessions sm)\<rparr>))"

definition sm_lookup :: "session_manager \<Rightarrow> uuid \<Rightarrow> session_context option" where
  "sm_lookup sm sid = bt_get (sm_sessions sm) sid"

definition touch :: "datetime \<Rightarrow> uuid \<Rightarrow> session_manager \<Rightarrow> session_manager" where
  "touch now sid sm =
     sm\<lparr>sm_sessions := bt_modify sid (\<lambda>ctx. ctx\<lparr>sc_last_activity := now\<rparr>) (sm_sessions sm)\<rparr>"

definition agent_sessions :: "session_manager \<Rightarrow> uuid \<Rightarrow> session_context list" where
  "agent_sessions sm agent =
     (case bt_get (sm_agent_sessions sm) agent of
        None \<Rightarrow> []
      | Some ids \<Rightarrow> List.map_filter (\<lambda>sid. bt_get (sm_sessions sm) sid) ids)"

definition prune_one :: "session_manager \<Rightarrow> uuid \<Rightarrow> session_manager" where
  "prune_one sm sid =
     (case bt_get (sm_sessions sm) sid of
        None \<Rightarrow> sm
      | Some ctx \<Rightarrow>
          sm\<lparr>sm_sessions := bt_remove sid (sm_sessions sm),
             sm_agent_sessions :=
               bt_modify (sc_agent_id ctx) (filter (\<lambda>s. s \<noteq> sid)) (sm_agent_sessions sm)\<rparr>)"

definition prune_idle :: "datetime \<Rightarrow> chrono_duration \<Rightarrow> session_manager \<Rightarrow> session_manager" where
  "prune_idle now max_idle sm =
     (let cutoff = now - max_idle;
          to_remove = map fst (filter (\<lambda>(_, ctx). sc_last_activity ctx \<le> cutoff) (bt_iter (sm_sessions sm)))
      in foldl prune_one sm to_remove)"

definition session_count :: "session_manager \<Rightarrow> nat" where
  "session_count sm = bt_len (sm_sessions sm)"

subsection \<open>Limits\<close>

record boundary_config =
  bd_max_duration :: duration
  bd_min_gap :: duration

definition boundary_default :: boundary_config where
  "boundary_default = \<lparr>bd_max_duration = from_secs (6 * 3600), bd_min_gap = from_secs 300\<rparr>"

text \<open>\<^verbatim>\<open>to_std().unwrap_or(ZERO)\<close>: a negative span counts as none.\<close>

definition span_since :: "datetime \<Rightarrow> datetime \<Rightarrow> duration" where
  "span_since now t = nat (now - t)"

definition can_create_session :: "datetime \<Rightarrow> boundary_config \<Rightarrow> datetime option \<Rightarrow> bool" where
  "can_create_session now cfg last_end =
     (case last_end of None \<Rightarrow> True | Some end_time \<Rightarrow> bd_min_gap cfg \<le> span_since now end_time)"

definition is_session_expired :: "datetime \<Rightarrow> boundary_config \<Rightarrow> datetime \<Rightarrow> bool" where
  "is_session_expired now cfg start = (bd_max_duration cfg \<le> span_since now start)"

subsection \<open>Routing\<close>

record route_target =
  rt_agent_id :: uuid
  rt_session_id :: "uuid option"

record message_router =
  mr_channel_bindings :: "(string, uuid) btree_map"

definition message_router_new :: message_router where
  "message_router_new = \<lparr>mr_channel_bindings = bt_new\<rparr>"

definition bind_channel :: "string \<Rightarrow> uuid \<Rightarrow> message_router \<Rightarrow> message_router" where
  "bind_channel key agent mr = mr\<lparr>mr_channel_bindings := bt_insert key agent (mr_channel_bindings mr)\<rparr>"

definition route_message :: "message_router \<Rightarrow> string \<Rightarrow> route_target option" where
  "route_message mr key =
     map_option (\<lambda>agent. \<lparr>rt_agent_id = agent, rt_session_id = None\<rparr>) (bt_get (mr_channel_bindings mr) key)"

subsection \<open>The index by agent\<close>

text \<open>
  The list of an agent holds, without repetition, exactly the sessions stored under that agent,
  and each session is stored under its own id.
\<close>

definition sm_ok :: "session_manager \<Rightarrow> bool" where
  "sm_ok sm \<longleftrightarrow>
     (\<forall>sid ctx. bt_get (sm_sessions sm) sid = Some ctx \<longrightarrow> sc_session_id ctx = sid) \<and>
     (\<forall>a. distinct (bt_get_or [] (sm_agent_sessions sm) a) \<and>
          set (bt_get_or [] (sm_agent_sessions sm) a) =
            {sid. \<exists>ctx. bt_get (sm_sessions sm) sid = Some ctx \<and> sc_agent_id ctx = a})"

text \<open>
  The operations, with the guarantee of the id generator: a session id is not in use when it
  is created.
\<close>

inductive sm_step :: "session_manager \<Rightarrow> session_manager \<Rightarrow> bool" where
  create: "bt_get (sm_sessions sm) sid = None \<Longrightarrow>
     sm_step sm (snd (create_session sid now agent channel window sm))"
| touch: "sm_step sm (touch now sid sm)"
| prune: "sm_step sm (prune_idle now max_idle sm)"

lemma sm_ok_create:
  assumes "sm_ok sm" "bt_get (sm_sessions sm) sid = None"
  shows "sm_ok (snd (create_session sid now agent channel window sm))"
  using assms
  by (auto simp: sm_ok_def create_session_def Let_def bt_entry_or_def)

lemma sm_ok_touch: "sm_ok sm \<Longrightarrow> sm_ok (touch now sid sm)"
  by (auto simp: sm_ok_def touch_def bt_modify_def split: option.splits)

lemma get_or_modify:
  "bt_get_or [] (bt_modify k (filter P) m) k' =
     (if k' = k then filter P (bt_get_or [] m k) else bt_get_or [] m k')"
  by (auto simp: bt_get_or_def split: option.splits)

lemma sm_ok_prune_one: "sm_ok sm \<Longrightarrow> sm_ok (prune_one sm sid)"
  by (auto simp: sm_ok_def prune_one_def get_or_modify split: option.splits if_splits)

lemma sessions_prune_one: "bt_get (sm_sessions (prune_one sm sid)) = (bt_get (sm_sessions sm))(sid := None)"
  by (auto simp: prune_one_def split: option.splits)

lemma sessions_prune_many:
  "bt_get (sm_sessions (foldl prune_one sm sids)) = (\<lambda>s. if s \<in> set sids then None else bt_get (sm_sessions sm) s)"
  by (induction sids arbitrary: sm) (auto simp: sessions_prune_one fun_eq_iff)

lemma sm_ok_prune_many: "sm_ok sm \<Longrightarrow> sm_ok (foldl prune_one sm sids)"
  by (induction sids arbitrary: sm) (auto intro: sm_ok_prune_one)

lemma sm_ok_step: "sm_step sm sm' \<Longrightarrow> sm_ok sm \<Longrightarrow> sm_ok sm'"
  by (induction rule: sm_step.induct)
     (auto simp: prune_idle_def Let_def intro: sm_ok_create sm_ok_touch sm_ok_prune_many)

lemma sm_ok_reachable: "sm_step\<^sup>*\<^sup>* session_manager_new sm \<Longrightarrow> sm_ok sm"
proof (induction rule: rtranclp_induct)
  case base
  then show ?case by (simp add: sm_ok_def session_manager_new_def)
next
  case (step m m')
  then show ?case by (blast intro: sm_ok_step)
qed

lemma map_filter_total:
  "(\<And>x. x \<in> set xs \<Longrightarrow> f x \<noteq> None) \<Longrightarrow> List.map_filter f xs = map (\<lambda>x. the (f x)) xs"
  by (induction xs) (auto simp: List.map_filter_def)

text \<open>
  In every reachable state the sessions listed for an agent are exactly those stored for it,
  each once; pruning removes exactly the sessions whose last activity lies at least the idle
  limit in the past, from the table and from the index alike.
\<close>

theorem session_index_exact:
  assumes "sm_step\<^sup>*\<^sup>* session_manager_new sm"
  shows "distinct (agent_sessions sm a)
       \<and> set (agent_sessions sm a) =
           {ctx. sm_lookup sm (sc_session_id ctx) = Some ctx \<and> sc_agent_id ctx = a}
       \<and> set (agent_sessions (prune_idle now max_idle sm) a) =
           {ctx \<in> set (agent_sessions sm a). now - max_idle < sc_last_activity ctx}"
proof -
  have lists: "distinct (agent_sessions m a) \<and> set (agent_sessions m a) =
      {ctx. sm_lookup m (sc_session_id ctx) = Some ctx \<and> sc_agent_id ctx = a}" if ok: "sm_ok m" for m
  proof -
    let ?ids = "bt_get_or [] (sm_agent_sessions m) a"
    have ids: "distinct ?ids" "\<And>s. s \<in> set ?ids \<longleftrightarrow> (\<exists>ctx. bt_get (sm_sessions m) s = Some ctx \<and> sc_agent_id ctx = a)"
      using ok by (auto simp: sm_ok_def)
    have own: "sc_session_id (the (bt_get (sm_sessions m) s)) = s" if "s \<in> set ?ids" for s
      using that ids(2) ok by (fastforce simp: sm_ok_def)
    have "agent_sessions m a = List.map_filter (bt_get (sm_sessions m)) ?ids"
      by (simp add: agent_sessions_def bt_get_or_def List.map_filter_def split: option.splits)
    also have "\<dots> = map (\<lambda>s. the (bt_get (sm_sessions m) s)) ?ids"
      by (rule map_filter_total) (use ids(2) in auto)
    finally have eq: "agent_sessions m a = map (\<lambda>s. the (bt_get (sm_sessions m) s)) ?ids" .
    have "inj_on (\<lambda>s. the (bt_get (sm_sessions m) s)) (set ?ids)"
      by (rule inj_onI) (metis own)
    moreover have "set (agent_sessions m a) =
        {ctx. sm_lookup m (sc_session_id ctx) = Some ctx \<and> sc_agent_id ctx = a}"
    proof (intro set_eqI iffI)
      fix ctx assume "ctx \<in> set (agent_sessions m a)"
      then obtain s where s: "s \<in> set ?ids" "ctx = the (bt_get (sm_sessions m) s)" unfolding eq by auto
      with ids(2) own show "ctx \<in> {ctx. sm_lookup m (sc_session_id ctx) = Some ctx \<and> sc_agent_id ctx = a}"
        by (metis (mono_tags, lifting) mem_Collect_eq option.sel sm_lookup_def)
    next
      fix ctx assume "ctx \<in> {ctx. sm_lookup m (sc_session_id ctx) = Some ctx \<and> sc_agent_id ctx = a}"
      then have "bt_get (sm_sessions m) (sc_session_id ctx) = Some ctx" "sc_agent_id ctx = a"
        by (simp_all add: sm_lookup_def)
      with ids(2)[of "sc_session_id ctx"] show "ctx \<in> set (agent_sessions m a)"
        unfolding eq by (force intro: image_eqI[of _ _ "sc_session_id ctx"])
    qed
    ultimately show ?thesis using ids(1) by (simp add: eq distinct_map)
  qed
  have ok: "sm_ok sm" using sm_ok_reachable[OF assms] .
  have ok': "sm_ok (prune_idle now max_idle sm)"
    unfolding prune_idle_def Let_def by (rule sm_ok_prune_many[OF ok])
  have gone: "sm_lookup (prune_idle now max_idle sm) s = Some ctx \<longleftrightarrow>
      sm_lookup sm s = Some ctx \<and> now - max_idle < sc_last_activity ctx" for s ctx
    by (auto simp: sm_lookup_def prune_idle_def Let_def sessions_prune_many bt_iter_iff image_iff Bex_def)
  show ?thesis using lists[OF ok] lists[OF ok'] gone by auto
qed

theorem session_index_exact_witness:
  "let sm = snd (create_session 7 100 1 ''web'' 8000 session_manager_new)
   in set (agent_sessions (prune_idle 200 50 sm) 1) = {}"
proof -
  have "sm_step\<^sup>*\<^sup>* session_manager_new (snd (create_session 7 100 1 ''web'' 8000 session_manager_new))"
    by (intro r_into_rtranclp sm_step.create) (simp add: session_manager_new_def)
  note exact = session_index_exact[OF this, of 1 200 50]
  have "agent_sessions (snd (create_session 7 100 1 ''web'' 8000 session_manager_new)) 1 =
      [fst (create_session 7 100 1 ''web'' 8000 session_manager_new)]"
    by (simp add: agent_sessions_def create_session_def Let_def session_manager_new_def List.map_filter_def)
  moreover have "sc_last_activity (fst (create_session 7 100 1 ''web'' 8000 session_manager_new)) = 100"
    by (simp add: create_session_def Let_def)
  ultimately have "{ctx \<in> set (agent_sessions (snd (create_session 7 100 1 ''web'' 8000 session_manager_new)) 1).
      200 - 50 < sc_last_activity ctx} = {}" by simp
  with exact[THEN conjunct2, THEN conjunct2] show ?thesis unfolding Let_def by (rule trans)
qed

text \<open>
  With a clock that runs forwards, a session once expired stays expired, and a gap once long
  enough stays so.
\<close>

lemma boundary_monotone:
  "now \<le> now' \<Longrightarrow> is_session_expired now cfg s \<Longrightarrow> is_session_expired now' cfg s"
  "now \<le> now' \<Longrightarrow> can_create_session now cfg e \<Longrightarrow> can_create_session now' cfg e"
  by (auto simp: is_session_expired_def can_create_session_def span_since_def split: option.splits)

lemma route_last_binding:
  "route_message (bind_channel key agent mr) key' =
     (if key' = key then Some \<lparr>rt_agent_id = agent, rt_session_id = None\<rparr> else route_message mr key')"
  by (simp add: route_message_def bind_channel_def)

end
