(* ===== verification/Cost.thy ===== *)
theory Cost
  imports Ordered_Map Float64 Rust_String Trigger_Event
begin

section \<open>Costs and spending caps\<close>

text \<open>
  \<^verbatim>\<open>ghost-gateway/src/cost/tracker.rs\<close> and \<^verbatim>\<open>spending_cap.rs\<close>: the daily, session and compaction
  totals, their snapshots in the table \<^verbatim>\<open>cost_snapshots\<close> with restore and pruning, and the check
  of a spending cap before and after a call. Addition and subtraction of floating-point numbers
  and the text form of an id are parameters (\<open>cost_env\<close>). The current day and the success of the
  table's transaction are inputs; a failed transaction leaves the table as it was. The
  concurrent maps are finite maps; each operation on an entry is atomic.
\<close>

record cost_env =
  ce_add :: "f64 \<Rightarrow> f64 \<Rightarrow> f64"
  ce_sub :: "f64 \<Rightarrow> f64 \<Rightarrow> f64"
  ce_uuid_string :: "uuid \<Rightarrow> string"
  ce_uuid_parse :: "string \<Rightarrow> uuid option"

record cost_snapshot =
  cn_daily :: "(string \<times> f64) list"
  cn_sessions :: "(string \<times> f64) list"
  cn_compaction :: "(string \<times> f64) list"

record cost_tracker =
  ct_agent_daily :: "(uuid, f64) btree_map"
  ct_session_totals :: "(uuid, f64) btree_map"
  ct_compaction_cost :: "(uuid, f64) btree_map"
  ct_active_day_utc :: string

definition cost_tracker_new :: "string \<Rightarrow> cost_tracker" where
  "cost_tracker_new today =
     \<lparr>ct_agent_daily = bt_new, ct_session_totals = bt_new, ct_compaction_cost = bt_new,
      ct_active_day_utc = today\<rparr>"

definition ensure_current_day :: "string \<Rightarrow> cost_tracker \<Rightarrow> cost_tracker" where
  "ensure_current_day today ct =
     (if ct_active_day_utc ct = today then ct
      else ct\<lparr>ct_agent_daily := bt_new, ct_compaction_cost := bt_new, ct_active_day_utc := today\<rparr>)"

definition cost_record ::
    "cost_env \<Rightarrow> string \<Rightarrow> uuid \<Rightarrow> uuid \<Rightarrow> f64 \<Rightarrow> bool \<Rightarrow> cost_tracker \<Rightarrow> cost_tracker" where
  "cost_record env today agent session cost is_compaction ct =
     (let ct1 = ensure_current_day today ct;
          add = (\<lambda>v. ce_add env v cost)
      in ct1\<lparr>ct_agent_daily := bt_entry_or agent (Finite 0) add (ct_agent_daily ct1),
             ct_session_totals := bt_entry_or session (Finite 0) add (ct_session_totals ct1),
             ct_compaction_cost :=
               (if is_compaction then bt_entry_or agent (Finite 0) add (ct_compaction_cost ct1)
                else ct_compaction_cost ct1)\<rparr>)"

definition get_daily_total :: "string \<Rightarrow> uuid \<Rightarrow> cost_tracker \<Rightarrow> f64 \<times> cost_tracker" where
  "get_daily_total today agent ct =
     (let ct1 = ensure_current_day today ct in (bt_get_or (Finite 0) (ct_agent_daily ct1) agent, ct1))"

definition get_session_total :: "uuid \<Rightarrow> cost_tracker \<Rightarrow> f64" where
  "get_session_total session ct = bt_get_or (Finite 0) (ct_session_totals ct) session"

definition get_compaction_cost :: "string \<Rightarrow> uuid \<Rightarrow> cost_tracker \<Rightarrow> f64 \<times> cost_tracker" where
  "get_compaction_cost today agent ct =
     (let ct1 = ensure_current_day today ct in (bt_get_or (Finite 0) (ct_compaction_cost ct1) agent, ct1))"

definition reset_daily :: "string \<Rightarrow> cost_tracker \<Rightarrow> cost_tracker" where
  "reset_daily today ct =
     ct\<lparr>ct_agent_daily := bt_new, ct_compaction_cost := bt_new, ct_active_day_utc := today\<rparr>"

subsection \<open>Snapshots\<close>

definition id_amounts :: "cost_env \<Rightarrow> (uuid, f64) btree_map \<Rightarrow> (string \<times> f64) list" where
  "id_amounts env m = map (\<lambda>(u, v). (ce_uuid_string env u, v)) (bt_iter m)"

definition cost_snapshot_of :: "cost_env \<Rightarrow> string \<Rightarrow> cost_tracker \<Rightarrow> cost_snapshot \<times> cost_tracker" where
  "cost_snapshot_of env today ct =
     (let ct1 = ensure_current_day today ct
      in (\<lparr>cn_daily = id_amounts env (ct_agent_daily ct1),
           cn_sessions = id_amounts env (ct_session_totals ct1),
           cn_compaction = id_amounts env (ct_compaction_cost ct1)\<rparr>, ct1))"

text \<open>A row: scope, entity and date are unique together; the insertion updates on conflict.\<close>

record cost_row =
  cw_scope :: string
  cw_entity_id :: string
  cw_amount :: f64
  cw_snapshot_date :: string
  cw_updated_at :: string

definition row_key :: "cost_row \<Rightarrow> string \<times> string \<times> string" where
  "row_key r = (cw_scope r, cw_entity_id r, cw_snapshot_date r)"

fun upsert_row :: "cost_row \<Rightarrow> cost_row list \<Rightarrow> cost_row list" where
  "upsert_row r [] = [r]"
| "upsert_row r (q # qs) =
     (if row_key q = row_key r
      then q\<lparr>cw_amount := cw_amount r, cw_updated_at := cw_updated_at r\<rparr> # qs
      else q # upsert_row r qs)"

definition upsert_all :: "string \<Rightarrow> string \<Rightarrow> string \<Rightarrow> (string \<times> f64) list \<Rightarrow> cost_row list \<Rightarrow> cost_row list" where
  "upsert_all scope today now xs tbl =
     foldl (\<lambda>t (eid, amount). upsert_row \<lparr>cw_scope = scope, cw_entity_id = eid, cw_amount = amount,
              cw_snapshot_date = today, cw_updated_at = now\<rparr> t) tbl xs"

definition persist_snapshot ::
    "bool \<Rightarrow> string \<Rightarrow> string \<Rightarrow> cost_snapshot \<Rightarrow> cost_row list \<Rightarrow> (string + unit) \<times> cost_row list" where
  "persist_snapshot db_ok today now sn tbl =
     (if length (cn_daily sn) + length (cn_sessions sn) + length (cn_compaction sn) = 0 then (Inr (), tbl)
      else if \<not> db_ok then (Inl ''database error'', tbl)
      else (Inr (), upsert_all ''compaction'' today now (cn_compaction sn)
                     (upsert_all ''session'' today now (cn_sessions sn)
                       (upsert_all ''agent_daily'' today now (cn_daily sn) tbl))))"

definition cost_persist ::
    "cost_env \<Rightarrow> bool \<Rightarrow> string \<Rightarrow> string \<Rightarrow> cost_tracker \<Rightarrow> cost_row list
      \<Rightarrow> (string + unit) \<times> cost_tracker \<times> cost_row list" where
  "cost_persist env db_ok today now ct tbl =
     (case cost_snapshot_of env today ct of
        (sn, ct1) \<Rightarrow> (case persist_snapshot db_ok today now sn tbl of (res, tbl') \<Rightarrow> (res, ct1, tbl')))"

definition is_daily_scope :: "cost_row \<Rightarrow> bool" where
  "is_daily_scope r \<longleftrightarrow> cw_scope r = ''agent_daily'' \<or> cw_scope r = ''compaction''"

text \<open>A session row is superseded when the same session has a row of a later date.\<close>

definition superseded :: "cost_row list \<Rightarrow> cost_row \<Rightarrow> bool" where
  "superseded tbl r \<longleftrightarrow>
     list_ex (\<lambda>q. cw_scope q = ''session'' \<and> cw_entity_id q = cw_entity_id r \<and>
                  text_less (cw_snapshot_date r) (cw_snapshot_date q)) tbl"

definition prune_stale_snapshots ::
    "bool \<Rightarrow> string \<Rightarrow> cost_row list \<Rightarrow> (string + nat) \<times> cost_row list" where
  "prune_stale_snapshots db_ok retain_date tbl =
     (let tbl1 = filter (\<lambda>r. \<not> (is_daily_scope r \<and> cw_snapshot_date r \<noteq> retain_date)) tbl;
          tbl2 = filter (\<lambda>r. \<not> (cw_scope r = ''session'' \<and> superseded tbl1 r)) tbl1
      in if db_ok then (Inr (length tbl - length tbl2), tbl2) else (Inl ''database error'', tbl))"

definition restorable :: "string \<Rightarrow> cost_row list \<Rightarrow> cost_row \<Rightarrow> bool" where
  "restorable today tbl r \<longleftrightarrow>
     (is_daily_scope r \<and> cw_snapshot_date r = today) \<or> (cw_scope r = ''session'' \<and> \<not> superseded tbl r)"

definition restore_row :: "uuid \<Rightarrow> cost_row \<Rightarrow> cost_tracker \<Rightarrow> cost_tracker" where
  "restore_row u r ct =
     (if cw_scope r = ''agent_daily'' then ct\<lparr>ct_agent_daily := bt_insert u (cw_amount r) (ct_agent_daily ct)\<rparr>
      else if cw_scope r = ''session'' then ct\<lparr>ct_session_totals := bt_insert u (cw_amount r) (ct_session_totals ct)\<rparr>
      else if cw_scope r = ''compaction'' then ct\<lparr>ct_compaction_cost := bt_insert u (cw_amount r) (ct_compaction_cost ct)\<rparr>
      else ct)"

text \<open>The rows are applied one by one; an id that does not parse stops the loop.\<close>

fun restore_rows :: "cost_env \<Rightarrow> cost_row list \<Rightarrow> cost_tracker \<Rightarrow> (string + unit) \<times> cost_tracker" where
  "restore_rows env [] ct = (Inr (), ct)"
| "restore_rows env (r # rs) ct =
     (case ce_uuid_parse env (cw_entity_id r) of
        None \<Rightarrow> (Inl ''invalid uuid'', ct)
      | Some u \<Rightarrow> restore_rows env rs (restore_row u r ct))"

definition cost_restore ::
    "cost_env \<Rightarrow> bool \<Rightarrow> string \<Rightarrow> cost_row list \<Rightarrow> cost_tracker \<Rightarrow> (string + unit) \<times> cost_tracker" where
  "cost_restore env db_ok today tbl ct =
     (if \<not> db_ok then (Inl ''database error'', ct)
      else restore_rows env (filter (restorable today tbl) tbl) ct)"

subsection \<open>The spending cap\<close>

record spending_cap_error =
  se_agent_id :: uuid
  se_daily_total :: f64
  se_cap :: f64
  se_overage :: f64

definition check_pre_call ::
    "cost_env \<Rightarrow> string \<Rightarrow> uuid \<Rightarrow> f64 \<Rightarrow> f64 \<Rightarrow> cost_tracker \<Rightarrow> (spending_cap_error + unit) \<times> cost_tracker" where
  "check_pre_call env today agent estimated cap ct =
     (case get_daily_total today agent ct of
        (current, ct1) \<Rightarrow>
          (let projected = ce_add env current estimated
           in if f64_gt projected cap then
                (Inl \<lparr>se_agent_id = agent, se_daily_total = projected, se_cap = cap,
                      se_overage = ce_sub env projected cap\<rparr>, ct1)
              else (Inr (), ct1)))"

text \<open>After a call the trigger is offered to the channel, which drops it when it is full.\<close>

definition check_post_call ::
    "cost_env \<Rightarrow> string \<Rightarrow> datetime \<Rightarrow> bool \<Rightarrow> bool \<Rightarrow> uuid \<Rightarrow> f64 \<Rightarrow> cost_tracker \<Rightarrow> trigger_event list \<times> cost_tracker" where
  "check_post_call env today now has_sender channel_full agent cap ct =
     (case get_daily_total today agent ct of
        (current, ct1) \<Rightarrow>
          (if f64_gt current cap \<and> has_sender \<and> \<not> channel_full
           then [SpendingCapExceeded agent current cap (ce_sub env current cap) now] else [], ct1))"


subsection \<open>Daily totals\<close>

datatype cost_op =
    RecordCost string uuid uuid f64 bool
  | ReadDaily string uuid
  | ReadCompaction string uuid
  | ResetDaily string

fun cost_step :: "cost_env \<Rightarrow> cost_tracker \<Rightarrow> cost_op \<Rightarrow> cost_tracker" where
  "cost_step env ct (RecordCost d a s c cmp) = cost_record env d a s c cmp ct"
| "cost_step env ct (ReadDaily d a) = snd (get_daily_total d a ct)"
| "cost_step env ct (ReadCompaction d a) = snd (get_compaction_cost d a ct)"
| "cost_step env ct (ResetDaily d) = reset_daily d ct"

text \<open>
  The specification: the costs recorded for an agent by the last operations of the day, after
  any operation on another day and any reset.
\<close>

fun on_day :: "string \<Rightarrow> cost_op \<Rightarrow> bool" where
  "on_day d (RecordCost d' _ _ _ _) = (d' = d)"
| "on_day d (ReadDaily d' _) = (d' = d)"
| "on_day d (ReadCompaction d' _) = (d' = d)"
| "on_day d (ResetDaily _) = False"

fun cost_of :: "uuid \<Rightarrow> cost_op \<Rightarrow> f64 list" where
  "cost_of a (RecordCost _ a' _ c _) = (if a' = a then [c] else [])"
| "cost_of a _ = []"

definition costs_today :: "string \<Rightarrow> uuid \<Rightarrow> cost_op list \<Rightarrow> f64 list" where
  "costs_today d a es = concat (map (cost_of a) (rev (takeWhile (on_day d) (rev es))))"

lemma costs_today_snoc:
  "costs_today d a (es @ [e]) = (if on_day d e then costs_today d a es @ cost_of a e else [])"
  by (simp add: costs_today_def)

definition cost_run :: "cost_env \<Rightarrow> string \<Rightarrow> cost_op list \<Rightarrow> cost_tracker" where
  "cost_run env d0 es = foldl (cost_step env) (cost_tracker_new d0) es"

lemma daily_state:
  "(ct_active_day_utc (cost_run env d0 es) = d \<longrightarrow>
      bt_get_or (Finite 0) (ct_agent_daily (cost_run env d0 es)) a =
        foldl (ce_add env) (Finite 0) (costs_today d a es)) \<and>
   (ct_active_day_utc (cost_run env d0 es) \<noteq> d \<longrightarrow> costs_today d a es = [])"
proof (induction es arbitrary: d rule: rev_induct)
  case Nil
  then show ?case by (simp add: cost_run_def costs_today_def cost_tracker_new_def)
next
  case (snoc e es)
  have run: "cost_run env d0 (es @ [e]) = cost_step env (cost_run env d0 es) e" by (simp add: cost_run_def)
  show ?case
    using snoc.IH unfolding run costs_today_snoc
    by (cases e)
       (auto simp: cost_record_def get_daily_total_def get_compaction_cost_def reset_daily_def
         ensure_current_day_def Let_def bt_entry_or_def costs_today_snoc)
qed

text \<open>
  The daily total of an agent is the sum, in order, of the costs recorded for it on that day,
  whatever other agents, days, reads and resets came in between.
\<close>

theorem daily_total_exact:
  "fst (get_daily_total d a (cost_run env d0 es)) =
     foldl (ce_add env) (Finite 0) (costs_today d a es)"
  using daily_state[of env d0 es d a]
  by (auto simp: get_daily_total_def ensure_current_day_def Let_def)

text \<open>Before a call the cap is compared with that sum and the estimate; the comparison fails on
  a value that is not a number, so such a total lets every call through.\<close>

lemma check_pre_call_exact:
  "fst (check_pre_call env d a est cap (cost_run env d0 es)) = Inr () \<longleftrightarrow>
     \<not> f64_gt (ce_add env (foldl (ce_add env) (Finite 0) (costs_today d a es)) est) cap"
  using daily_state[of env d0 es d a]
  by (auto simp: check_pre_call_def get_daily_total_def ensure_current_day_def Let_def split: prod.splits)

subsection \<open>Pruning keeps what is restored\<close>

lemma prune_keeps_restorable:
  "filter (restorable today (snd (prune_stale_snapshots db_ok today tbl)))
     (snd (prune_stale_snapshots db_ok today tbl)) = filter (restorable today tbl) tbl"
proof (cases db_ok)
  case True
  define t1 where "t1 = filter (\<lambda>r. \<not> (is_daily_scope r \<and> cw_snapshot_date r \<noteq> today)) tbl"
  define t2 where "t2 = filter (\<lambda>r. \<not> (cw_scope r = ''session'' \<and> superseded t1 r)) t1"
  have sess: "\<not> is_daily_scope r" if "cw_scope r = ''session''" for r
    using that by (simp add: is_daily_scope_def)
  have sup: "superseded t1 r = superseded tbl r" for r
    by (auto simp: superseded_def t1_def list_ex_iff sess)
  have sub: "superseded t2 r \<Longrightarrow> superseded tbl r" for r
    by (auto simp: superseded_def t1_def t2_def list_ex_iff)
  have "filter (restorable today t2) t2 =
        filter (\<lambda>r. restorable today t2 r \<and> \<not> (cw_scope r = ''session'' \<and> superseded t1 r) \<and>
                    \<not> (is_daily_scope r \<and> cw_snapshot_date r \<noteq> today)) tbl"
    by (simp add: t2_def t1_def filter_filter conj_ac)
  also have "\<dots> = filter (restorable today tbl) tbl"
    by (intro filter_cong) (auto simp: restorable_def sup sess dest: sub)
  finally show ?thesis using True by (simp add: prune_stale_snapshots_def Let_def t1_def t2_def)
qed (simp add: prune_stale_snapshots_def Let_def)

text \<open>
  Pruning the snapshots for the current day removes nothing that a restore on that day would
  load: restoring gives the same tracker before and after, errors included.
\<close>

theorem prune_then_restore:
  "cost_restore env ok today (snd (prune_stale_snapshots db_ok today tbl)) ct = cost_restore env ok today tbl ct"
  by (simp add: cost_restore_def prune_keeps_restorable)


subsection \<open>Snapshots are restored\<close>

definition row_amount :: "cost_row list \<Rightarrow> string \<times> string \<times> string \<Rightarrow> f64 option" where
  "row_amount tbl = map_of (map (\<lambda>r. (row_key r, cw_amount r)) tbl)"

text \<open>A table as the tracker writes it: unique keys, ids in their canonical text, no future date.\<close>

definition table_ok :: "cost_env \<Rightarrow> string \<Rightarrow> cost_row list \<Rightarrow> bool" where
  "table_ok env today tbl \<longleftrightarrow>
     distinct (map row_key tbl) \<and>
     list_all (\<lambda>r. cw_entity_id r \<in> range (ce_uuid_string env) \<and> \<not> text_less today (cw_snapshot_date r)) tbl"

lemma keys_upsert_row: "row_key ` set (upsert_row r tbl) = insert (row_key r) (row_key ` set tbl)"
  by (induction tbl) (auto simp: row_key_def)

lemma distinct_upsert_row: "distinct (map row_key tbl) \<Longrightarrow> distinct (map row_key (upsert_row r tbl))"
proof (induction tbl)
  case (Cons q qs)
  have "row_key q \<notin> row_key ` set (upsert_row r qs)" if "row_key q \<noteq> row_key r"
    using Cons.prems that by (simp add: keys_upsert_row)
  with Cons show ?case by (auto simp: row_key_def)
qed simp

lemma row_amount_upsert_row: "row_amount (upsert_row r tbl) = (row_amount tbl)(row_key r \<mapsto> cw_amount r)"
  by (induction tbl) (auto simp: row_amount_def row_key_def fun_eq_iff)

lemma table_ok_keys:
  "table_ok env today tbl \<longleftrightarrow> distinct (map row_key tbl) \<and>
     (\<forall>(s, e, d)\<in>row_key ` set tbl. e \<in> range (ce_uuid_string env) \<and> \<not> text_less today d)"
  by (auto simp: table_ok_def list_all_iff row_key_def)

lemma table_ok_upsert_row:
  assumes "table_ok env today tbl" "cw_entity_id r \<in> range (ce_uuid_string env)" "cw_snapshot_date r = today"
  shows "table_ok env today (upsert_row r tbl)"
  using assms unfolding table_ok_keys keys_upsert_row
  by (auto simp: distinct_upsert_row row_key_def)

lemma upsert_all_ok:
  assumes "table_ok env today tbl" "fst ` set xs \<subseteq> range (ce_uuid_string env)"
  shows "table_ok env today (upsert_all scope today now xs tbl)"
  using assms unfolding upsert_all_def
proof (induction xs arbitrary: tbl)
  case (Cons x xs)
  then show ?case by (cases x) (auto intro!: Cons.IH table_ok_upsert_row)
qed simp

lemma row_amount_upsert_all:
  assumes "distinct (map fst xs)"
  shows "row_amount (upsert_all scope today now xs tbl) (s, e, d) =
    (if s = scope \<and> d = today \<and> e \<in> fst ` set xs then map_of xs e else row_amount tbl (s, e, d))"
  using assms unfolding upsert_all_def
proof (induction xs arbitrary: tbl)
  case (Cons x xs)
  obtain i v where x: "x = (i, v)" by (cases x)
  have "map_of xs i = None" using Cons.prems x by (auto simp: map_of_eq_None_iff)
  then show ?case
    using Cons x by (auto simp: row_amount_upsert_row row_key_def)
qed simp

lemma id_amounts_facts:
  assumes "\<forall>u. ce_uuid_parse env (ce_uuid_string env u) = Some u"
  shows "distinct (map fst (id_amounts env m))" "fst ` set (id_amounts env m) \<subseteq> range (ce_uuid_string env)"
    "map_of (id_amounts env m) (ce_uuid_string env u) = bt_get m u"
proof -
  have inj: "inj (ce_uuid_string env)" by (rule injI) (metis assms option.inject)
  have "map fst (id_amounts env m) = map (ce_uuid_string env) (bt_keys m)"
    by (simp add: id_amounts_def bt_keys_def case_prod_unfold comp_def)
  then show d: "distinct (map fst (id_amounts env m))"
    using bt_keys_distinct[of m] inj_on_subset[OF inj subset_UNIV] by (simp add: distinct_map)
  show "fst ` set (id_amounts env m) \<subseteq> range (ce_uuid_string env)"
    by (auto simp: id_amounts_def)
  have "map_of (id_amounts env m) (ce_uuid_string env u) = Some v \<longleftrightarrow> bt_get m u = Some v" for v
    using d inj by (auto simp: map_of_eq_Some_iff id_amounts_def bt_iter_iff inj_eq)
  then show "map_of (id_amounts env m) (ce_uuid_string env u) = bt_get m u"
    by (metis option.exhaust)
qed

text \<open>What the restored tracker holds, for rows with one entry per scope and id.\<close>

definition scope_amount :: "cost_row list \<Rightarrow> string \<Rightarrow> string \<Rightarrow> f64 option" where
  "scope_amount rs s e = map_of (map (\<lambda>r. ((cw_scope r, cw_entity_id r), cw_amount r)) rs) (s, e)"

lemma restore_rows_gets:
  assumes "\<forall>u. ce_uuid_parse env (ce_uuid_string env u) = Some u"
    and "distinct (map (\<lambda>r. (cw_scope r, cw_entity_id r)) rs)"
    and "list_all (\<lambda>r. cw_entity_id r \<in> range (ce_uuid_string env)) rs"
  defines "out \<equiv> restore_rows env rs"
  shows "fst (out ct) = Inr ()"
    "bt_get (ct_agent_daily (snd (out ct))) u =
      (case scope_amount rs ''agent_daily'' (ce_uuid_string env u) of None \<Rightarrow> bt_get (ct_agent_daily ct) u | v \<Rightarrow> v)"
    "bt_get (ct_session_totals (snd (out ct))) u =
      (case scope_amount rs ''session'' (ce_uuid_string env u) of None \<Rightarrow> bt_get (ct_session_totals ct) u | v \<Rightarrow> v)"
    "bt_get (ct_compaction_cost (snd (out ct))) u =
      (case scope_amount rs ''compaction'' (ce_uuid_string env u) of None \<Rightarrow> bt_get (ct_compaction_cost ct) u | v \<Rightarrow> v)"
proof -
  have inj: "ce_uuid_string env u = ce_uuid_string env w \<longleftrightarrow> u = w" for u w by (metis assms(1) option.inject)
  have "fst (restore_rows env rs ct) = Inr () \<and>
    bt_get (ct_agent_daily (snd (restore_rows env rs ct))) u =
      (case scope_amount rs ''agent_daily'' (ce_uuid_string env u) of None \<Rightarrow> bt_get (ct_agent_daily ct) u | v \<Rightarrow> v) \<and>
    bt_get (ct_session_totals (snd (restore_rows env rs ct))) u =
      (case scope_amount rs ''session'' (ce_uuid_string env u) of None \<Rightarrow> bt_get (ct_session_totals ct) u | v \<Rightarrow> v) \<and>
    bt_get (ct_compaction_cost (snd (restore_rows env rs ct))) u =
      (case scope_amount rs ''compaction'' (ce_uuid_string env u) of None \<Rightarrow> bt_get (ct_compaction_cost ct) u | v \<Rightarrow> v)"
    using assms(2,3)
  proof (induction rs arbitrary: ct)
    case Nil
    then show ?case by (simp add: scope_amount_def)
  next
    case (Cons r rs)
    obtain w where w: "cw_entity_id r = ce_uuid_string env w" using Cons.prems(2) by auto
    have none: "scope_amount rs (cw_scope r) (ce_uuid_string env w) = None"
      using Cons.prems(1) w by (auto simp: scope_amount_def map_of_eq_None_iff)
    have IH: "?case" if "ct' = restore_row w r ct" for ct'
      using Cons.IH[of ct'] Cons.prems that none w assms(1)
      by (auto simp: scope_amount_def restore_row_def inj split: option.splits)
    then show ?case by blast
  qed
  then show "fst (out ct) = Inr ()"
    "bt_get (ct_agent_daily (snd (out ct))) u =
      (case scope_amount rs ''agent_daily'' (ce_uuid_string env u) of None \<Rightarrow> bt_get (ct_agent_daily ct) u | v \<Rightarrow> v)"
    "bt_get (ct_session_totals (snd (out ct))) u =
      (case scope_amount rs ''session'' (ce_uuid_string env u) of None \<Rightarrow> bt_get (ct_session_totals ct) u | v \<Rightarrow> v)"
    "bt_get (ct_compaction_cost (snd (out ct))) u =
      (case scope_amount rs ''compaction'' (ce_uuid_string env u) of None \<Rightarrow> bt_get (ct_compaction_cost ct) u | v \<Rightarrow> v)"
    unfolding out_def by blast+
qed

lemma restorable_unique:
  assumes "distinct (map row_key tbl)"
  shows "distinct (map (\<lambda>r. (cw_scope r, cw_entity_id r)) (filter (restorable today tbl) tbl))"
proof -
  have "r = q" if in_tbl: "r \<in> set tbl" "q \<in> set tbl" "restorable today tbl r" "restorable today tbl q"
    and same: "cw_scope r = cw_scope q" "cw_entity_id r = cw_entity_id q" for r q
  proof -
    have "cw_snapshot_date r = cw_snapshot_date q"
    proof (rule ccontr)
      assume ne: "cw_snapshot_date r \<noteq> cw_snapshot_date q"
      then have "cw_scope r = ''session''" using in_tbl same by (auto simp: restorable_def is_daily_scope_def)
      then show False
        using text_less_linear[OF ne] in_tbl same
        by (auto simp: restorable_def is_daily_scope_def superseded_def list_ex_iff)
    qed
    then have "row_key r = row_key q" using same by (simp add: row_key_def)
    then show ?thesis using assms in_tbl by (simp add: distinct_map inj_on_def)
  qed
  then have "inj_on (\<lambda>r. (cw_scope r, cw_entity_id r)) (set (filter (restorable today tbl) tbl))"
    by (auto intro: inj_onI)
  moreover have "distinct tbl" using assms by (simp add: distinct_map)
  ultimately show ?thesis by (simp add: distinct_map)
qed

lemma row_amount_Some:
  assumes "distinct (map row_key tbl)"
  shows "row_amount tbl (s, e, d) = Some v \<longleftrightarrow>
         (\<exists>r\<in>set tbl. cw_scope r = s \<and> cw_entity_id r = e \<and> cw_snapshot_date r = d \<and> cw_amount r = v)"
proof -
  have "distinct (map fst (map (\<lambda>r. (row_key r, cw_amount r)) tbl))"
    using assms by (simp add: comp_def)
  then show ?thesis unfolding row_amount_def map_of_eq_Some_iff by (auto simp: row_key_def)
qed

lemma scope_amount_Some:
  assumes "distinct (map (\<lambda>r. (cw_scope r, cw_entity_id r)) rs)"
  shows "scope_amount rs s e = Some v \<longleftrightarrow>
         (\<exists>r\<in>set rs. cw_scope r = s \<and> cw_entity_id r = e \<and> cw_amount r = v)"
proof -
  have "distinct (map fst (map (\<lambda>r. ((cw_scope r, cw_entity_id r), cw_amount r)) rs))"
    using assms by (simp add: comp_def)
  then show ?thesis unfolding scope_amount_def map_of_eq_Some_iff by auto
qed

lemma option_eqI: "(\<And>v. x = Some v \<longleftrightarrow> y = Some v) \<Longrightarrow> x = y"
  by (cases x; cases y) auto

lemma restored_amounts:
  assumes "table_ok env today tbl"
  defines "rs \<equiv> filter (restorable today tbl) tbl"
  shows "scope_amount rs ''agent_daily'' e = row_amount tbl (''agent_daily'', e, today)"
    "scope_amount rs ''compaction'' e = row_amount tbl (''compaction'', e, today)"
    "row_amount tbl (''session'', e, today) = Some v \<Longrightarrow> scope_amount rs ''session'' e = Some v"
proof -
  have d: "distinct (map row_key tbl)" using assms(1) by (simp add: table_ok_def)
  note sc = scope_amount_Some[OF restorable_unique[OF d, of today], folded rs_def]
  note ra = row_amount_Some[OF d]
  show "scope_amount rs ''agent_daily'' e = row_amount tbl (''agent_daily'', e, today)"
    "scope_amount rs ''compaction'' e = row_amount tbl (''compaction'', e, today)"
    by (intro option_eqI; unfold sc ra; auto simp: rs_def restorable_def is_daily_scope_def)+
  show "scope_amount rs ''session'' e = Some v" if row: "row_amount tbl (''session'', e, today) = Some v"
  proof -
    obtain r where r: "r \<in> set tbl" "cw_scope r = ''session''" "cw_entity_id r = e"
      "cw_snapshot_date r = today" "cw_amount r = v" using row unfolding ra by auto
    have "\<not> superseded tbl r"
      using assms(1) r by (auto simp: superseded_def list_ex_iff table_ok_def list_all_iff)
    with r have "r \<in> set rs" by (simp add: rs_def restorable_def)
    with r show ?thesis unfolding sc by blast
  qed
qed

text \<open>
  A snapshot written on a day is restored on that day: every daily, compaction and session
  total of the tracker comes back, and agents it did not know keep what the table had for the
  day. The hypotheses: ids are read back as they are written, and the table holds unique rows
  with canonical ids and no future date.
\<close>

theorem cost_round_trip:
  assumes "\<forall>u. ce_uuid_parse env (ce_uuid_string env u) = Some u" "table_ok env today tbl"
  shows "case cost_persist env True today now ct tbl of (res, ct1, tbl') \<Rightarrow>
         case cost_restore env True today tbl' (cost_tracker_new today) of (res', ct') \<Rightarrow>
           res = Inr () \<and> res' = Inr () \<and>
           (\<forall>u. bt_get (ct_agent_daily ct') u =
              (case bt_get (ct_agent_daily ct1) u of Some v \<Rightarrow> Some v
               | None \<Rightarrow> row_amount tbl (''agent_daily'', ce_uuid_string env u, today))) \<and>
           (\<forall>u. bt_get (ct_compaction_cost ct') u =
              (case bt_get (ct_compaction_cost ct1) u of Some v \<Rightarrow> Some v
               | None \<Rightarrow> row_amount tbl (''compaction'', ce_uuid_string env u, today))) \<and>
           (\<forall>u v. bt_get (ct_session_totals ct1) u = Some v \<longrightarrow> bt_get (ct_session_totals ct') u = Some v)"
proof -
  define ct1 where "ct1 = ensure_current_day today ct"
  define dl where "dl = id_amounts env (ct_agent_daily ct1)"
  define ss where "ss = id_amounts env (ct_session_totals ct1)"
  define cm where "cm = id_amounts env (ct_compaction_cost ct1)"
  define tbl' where "tbl' = upsert_all ''compaction'' today now cm
     (upsert_all ''session'' today now ss (upsert_all ''agent_daily'' today now dl tbl))"
  note ids = id_amounts_facts[OF assms(1)]
  have ok: "table_ok env today tbl'"
    unfolding tbl'_def dl_def ss_def cm_def by (intro upsert_all_ok assms(2) ids(2))
  have mem: "ce_uuid_string env u \<in> fst ` set (id_amounts env m) \<longleftrightarrow> bt_get m u \<noteq> None" for m u
    using ids(3)[of m u] by (metis map_of_eq_None_iff)
  have amounts:
    "row_amount tbl' (''agent_daily'', ce_uuid_string env u, today) =
       (case bt_get (ct_agent_daily ct1) u of Some v \<Rightarrow> Some v
        | None \<Rightarrow> row_amount tbl (''agent_daily'', ce_uuid_string env u, today))"
    "row_amount tbl' (''compaction'', ce_uuid_string env u, today) =
       (case bt_get (ct_compaction_cost ct1) u of Some v \<Rightarrow> Some v
        | None \<Rightarrow> row_amount tbl (''compaction'', ce_uuid_string env u, today))"
    "bt_get (ct_session_totals ct1) u = Some v \<Longrightarrow>
       row_amount tbl' (''session'', ce_uuid_string env u, today) = Some v" for u v
    unfolding tbl'_def dl_def ss_def cm_def
    by (simp_all add: row_amount_upsert_all ids mem split: option.splits)
  have persist: "cost_persist env True today now ct tbl = (Inr (), ct1, tbl')"
    unfolding cost_persist_def cost_snapshot_of_def persist_snapshot_def Let_def
    by (auto simp: ct1_def[symmetric] dl_def[symmetric] ss_def[symmetric] cm_def[symmetric] tbl'_def
        upsert_all_def)
  define rs where "rs = filter (restorable today tbl') tbl'"
  have rs: "distinct (map (\<lambda>r. (cw_scope r, cw_entity_id r)) rs)"
    "list_all (\<lambda>r. cw_entity_id r \<in> range (ce_uuid_string env)) rs"
    using ok restorable_unique[of tbl' today] by (auto simp: rs_def table_ok_def list_all_iff)
  note out = restore_rows_gets[OF assms(1) rs, of "cost_tracker_new today"]
  note got = restored_amounts[OF ok, folded rs_def]
  obtain res' ct' where res: "cost_restore env True today tbl' (cost_tracker_new today) = (res', ct')" by fastforce
  then have rr: "restore_rows env rs (cost_tracker_new today) = (res', ct')"
    by (simp add: cost_restore_def rs_def)
  show ?thesis
    unfolding persist prod.case res
    using out[unfolded rr] got amounts
    by (simp add: cost_tracker_new_def split: option.splits)
qed

definition plain_cost_env :: cost_env where
  "plain_cost_env =
     \<lparr>ce_add = (\<lambda>x y. if is_nan x \<or> is_nan y then NaN else y), ce_sub = (\<lambda>x y. x),
      ce_uuid_string = (\<lambda>u. show_nat (unat u)),
      ce_uuid_parse = (\<lambda>s. Some (of_nat (digits_value s)))\<rparr>"

theorem cost_round_trip_witness:
  "let ct = cost_record plain_cost_env ''d'' 1 2 (Finite 5) False (cost_tracker_new ''d'')
   in case cost_persist plain_cost_env True ''d'' ''n'' ct [] of (res, ct1, tbl') \<Rightarrow>
      case cost_restore plain_cost_env True ''d'' tbl' (cost_tracker_new ''d'') of (res', ct') \<Rightarrow>
        bt_get (ct_agent_daily ct') 1 = Some (Finite 5)"
proof -
  define ct where "ct = cost_record plain_cost_env ''d'' 1 2 (Finite 5) False (cost_tracker_new ''d'')"
  have law: "\<forall>u. ce_uuid_parse plain_cost_env (ce_uuid_string plain_cost_env u) = Some u"
    by (simp add: plain_cost_env_def digits_value_show_nat)
  have "table_ok plain_cost_env ''d'' []" by (simp add: table_ok_def)
  note rt = cost_round_trip[OF law this, of "''n''" ct]
  obtain res ct1 tbl' where p: "cost_persist plain_cost_env True ''d'' ''n'' ct [] = (res, ct1, tbl')"
    by (rule prod_cases3)
  have "ct1 = ct"
    using p by (auto simp: cost_persist_def cost_snapshot_of_def Let_def ct_def cost_record_def
        ensure_current_day_def cost_tracker_new_def split: prod.splits)
  then have "bt_get (ct_agent_daily ct1) 1 = Some (Finite 5)"
    by (simp add: ct_def cost_record_def Let_def ensure_current_day_def cost_tracker_new_def
        plain_cost_env_def is_nan_def bt_entry_or_def)
  then show ?thesis
    using rt unfolding ct_def[symmetric] Let_def p by (auto split: prod.splits)
qed

end
