(* ===== verification/Ssrf.thy ===== *)
theory Ssrf
  imports Rust_String
begin

section \<open>Server-side request forgery checks\<close>

text \<open>
  \<^verbatim>\<open>ghost-gateway/src/api/ssrf.rs\<close>: the check of a configurable URL against private and internal
  addresses. Parsing a URL and resolving a name are outside the sources: they are the fields
  of \<open>net_env\<close>. An IPv4 address is its four octets, an IPv6 address its eight segments.
\<close>

unbundle bit_operations_syntax

type_synonym u16 = "16 word"

record ipv4 =
  oct0 :: u8
  oct1 :: u8
  oct2 :: u8
  oct3 :: u8

datatype ip_addr = V4 ipv4 | V6 "u16 list"

text \<open>The predicates of \<^verbatim>\<open>std::net\<close>.\<close>

definition v4_is_loopback :: "ipv4 \<Rightarrow> bool" where
  "v4_is_loopback a \<longleftrightarrow> oct0 a = 127"

definition v4_is_private :: "ipv4 \<Rightarrow> bool" where
  "v4_is_private a \<longleftrightarrow>
     oct0 a = 10 \<or> (oct0 a = 172 \<and> 16 \<le> oct1 a \<and> oct1 a \<le> 31) \<or> (oct0 a = 192 \<and> oct1 a = 168)"

definition v4_is_link_local :: "ipv4 \<Rightarrow> bool" where
  "v4_is_link_local a \<longleftrightarrow> oct0 a = 169 \<and> oct1 a = 254"

definition v4_is_unspecified :: "ipv4 \<Rightarrow> bool" where
  "v4_is_unspecified a \<longleftrightarrow> oct0 a = 0 \<and> oct1 a = 0 \<and> oct2 a = 0 \<and> oct3 a = 0"

definition v6_is_loopback :: "u16 list \<Rightarrow> bool" where
  "v6_is_loopback s \<longleftrightarrow> s = [0, 0, 0, 0, 0, 0, 0, 1]"

definition v6_is_unspecified :: "u16 list \<Rightarrow> bool" where
  "v6_is_unspecified s \<longleftrightarrow> s = [0, 0, 0, 0, 0, 0, 0, 0]"

definition is_v4_shared :: "ipv4 \<Rightarrow> bool" where
  "is_v4_shared a \<longleftrightarrow> oct0 a = 100 \<and> (oct1 a AND 0xC0) = 64"

definition is_v6_unique_local :: "u16 list \<Rightarrow> bool" where
  "is_v6_unique_local s \<longleftrightarrow> (s ! 0 AND 0xFE00) = 0xFC00"

definition is_v6_link_local :: "u16 list \<Rightarrow> bool" where
  "is_v6_link_local s \<longleftrightarrow> (s ! 0 AND 0xFFC0) = 0xFE80"

definition is_private_ip :: "ip_addr \<Rightarrow> bool" where
  "is_private_ip ip =
     (case ip of
        V4 a \<Rightarrow> v4_is_loopback a \<or> v4_is_private a \<or> v4_is_link_local a \<or> v4_is_unspecified a \<or> is_v4_shared a
      | V6 s \<Rightarrow> v6_is_loopback s \<or> v6_is_unspecified s \<or> is_v6_unique_local s \<or> is_v6_link_local s)"

record parsed_url =
  url_scheme :: string
  url_host :: "string option"
  url_port :: "nat option"

record net_env =
  ne_parse :: "string \<Rightarrow> parsed_url option"
  ne_resolve :: "string \<Rightarrow> ip_addr list option"
  ne_var :: "string \<Rightarrow> string option"

definition host_is_explicitly_allowed :: "net_env \<Rightarrow> string \<Rightarrow> bool" where
  "host_is_explicitly_allowed env host =
     list_ex (\<lambda>allowed. eq_ignore_ascii_case allowed host)
       (concat (map (\<lambda>v. filter (\<lambda>e. e \<noteq> []) (map trim (split_on (CHR '','') v)))
         (List.map_filter (ne_var env) [''GHOST_SSRF_ALLOWED_HOSTS'', ''GHOST_WEBHOOK_ALLOWED_HOSTS''])))"

datatype ssrf_error = InvalidUrl | SchemeNotAllowed string | NoHost | EmptyHost | PrivateAddress ip_addr

definition validate_url :: "net_env \<Rightarrow> string \<Rightarrow> ssrf_error + unit" where
  "validate_url env url =
     (case ne_parse env url of
        None \<Rightarrow> Inl InvalidUrl
      | Some p \<Rightarrow>
          if url_scheme p \<noteq> ''http'' \<and> url_scheme p \<noteq> ''https'' then Inl (SchemeNotAllowed (url_scheme p))
          else (case url_host p of
              None \<Rightarrow> Inl NoHost
            | Some host \<Rightarrow>
                if host = [] then Inl EmptyHost
                else if host_is_explicitly_allowed env host then Inr ()
                else
                  (let port = (case url_port p of Some n \<Rightarrow> n | None \<Rightarrow> 443)
                   in case ne_resolve env (host @ '':'' @ show_nat port) of
                        None \<Rightarrow> Inr ()
                      | Some ips \<Rightarrow>
                          (case find is_private_ip ips of
                             Some ip \<Rightarrow> Inl (PrivateAddress ip)
                           | None \<Rightarrow> Inr ()))))"

subsection \<open>The blocked networks\<close>

definition v4_value :: "ipv4 \<Rightarrow> nat" where
  "v4_value a = unat (oct0 a) * 2 ^ 24 + unat (oct1 a) * 2 ^ 16 + unat (oct2 a) * 2 ^ 8 + unat (oct3 a)"

text \<open>A network in prefix notation: addresses that agree with it in the leading bits.\<close>

definition in_network :: "nat \<Rightarrow> nat \<times> nat \<times> nat \<times> nat \<Rightarrow> nat \<Rightarrow> bool" where
  "in_network v net len =
     (case net of (a, b, c, d) \<Rightarrow>
        v div 2 ^ (32 - len) = (a * 2 ^ 24 + b * 2 ^ 16 + c * 2 ^ 8 + d) div 2 ^ (32 - len))"

definition blocked_networks :: "((nat \<times> nat \<times> nat \<times> nat) \<times> nat) list" where
  "blocked_networks =
     [((127, 0, 0, 0), 8), ((10, 0, 0, 0), 8), ((172, 16, 0, 0), 12), ((192, 168, 0, 0), 16),
      ((169, 254, 0, 0), 16), ((0, 0, 0, 0), 32), ((100, 64, 0, 0), 10)]"

lemma octet_less: "unat (w :: u8) < 256"
  using unat_lt2p[of w] by simp

lemma octet_eq: "(w :: u8) = numeral k \<longleftrightarrow> unat w = unat (numeral k :: u8)" "(w :: u8) = 0 \<longleftrightarrow> unat w = 0"
  by (simp_all add: word_unat_eq_iff)

text \<open>The masks are compared on all values of an octet and of a leading segment's high byte.\<close>

lemma octet_prefix: "((w :: u8) AND 0xC0) = 64 \<longleftrightarrow> unat w div 64 = 1"
proof -
  have "list_all (\<lambda>n. (((of_nat n :: u8) AND 0xC0) = 64) = (n div 64 = 1)) [0..<256]"
    by code_simp
  then have "(((of_nat (unat w) :: u8) AND 0xC0) = 64) = (unat w div 64 = 1)"
    using octet_less[of w] unfolding list_all_iff by (metis atLeastLessThan_iff le0 set_upt)
  then show ?thesis by simp
qed

lemma base_eq:
  fixes q b r x y :: nat
  assumes "q < b" "r < b"
  shows "x * b + q = y * b + r \<longleftrightarrow> x = y \<and> q = r"
proof
  assume eq: "x * b + q = y * b + r"
  from arg_cong[OF eq, of "\<lambda>n. n div b"] arg_cong[OF eq, of "\<lambda>n. n mod b"]
  show "x = y \<and> q = r" using assms by simp
qed simp

lemma v4_networks:
  "is_private_ip (V4 a) \<longleftrightarrow> list_ex (\<lambda>(net, len). in_network (v4_value a) net len) blocked_networks"
proof -
  define x0 x1 x2 x3 where "x0 = unat (oct0 a)" and "x1 = unat (oct1 a)" and "x2 = unat (oct2 a)" and "x3 = unat (oct3 a)"
  have less: "x0 < 256" "x1 < 256" "x2 < 256" "x3 < 256"
    by (simp_all add: x0_def x1_def x2_def x3_def octet_less)
  define v where "v = x0 * 2 ^ 24 + x1 * 2 ^ 16 + x2 * 2 ^ 8 + x3"
  have high: "v div 16777216 = x0" "v div 1048576 = x0 * 16 + x1 div 16" "v div 65536 = x0 * 256 + x1"
    "v div 4194304 = x0 * 4 + x1 div 64"
    using less by (auto simp: v_def)
  have nets: "in_network v (127, 0, 0, 0) 8 \<longleftrightarrow> x0 = 127" "in_network v (10, 0, 0, 0) 8 \<longleftrightarrow> x0 = 10"
    "in_network v (172, 16, 0, 0) 12 \<longleftrightarrow> x0 * 16 + x1 div 16 = 2753"
    "in_network v (192, 168, 0, 0) 16 \<longleftrightarrow> x0 * 256 + x1 = 49320"
    "in_network v (169, 254, 0, 0) 16 \<longleftrightarrow> x0 * 256 + x1 = 43518"
    "in_network v (0, 0, 0, 0) 32 \<longleftrightarrow> v = 0"
    "in_network v (100, 64, 0, 0) 10 \<longleftrightarrow> x0 * 4 + x1 div 64 = 401"
    by (simp_all add: in_network_def high)
  have split: "x0 * 16 + x1 div 16 = 2753 \<longleftrightarrow> x0 = 172 \<and> 16 \<le> x1 \<and> x1 \<le> 31"
    "x0 * 256 + x1 = 49320 \<longleftrightarrow> x0 = 192 \<and> x1 = 168"
    "x0 * 256 + x1 = 43518 \<longleftrightarrow> x0 = 169 \<and> x1 = 254"
    "x0 * 4 + x1 div 64 = 401 \<longleftrightarrow> x0 = 100 \<and> x1 div 64 = 1"
    using base_eq[of "x1 div 16" 16 1 x0 172] base_eq[of x1 256 168 x0 192] base_eq[of x1 256 254 x0 169]
      base_eq[of "x1 div 64" 4 1 x0 100] less by auto
  have zero: "v = 0 \<longleftrightarrow> x0 = 0 \<and> x1 = 0 \<and> x2 = 0 \<and> x3 = 0" by (simp add: v_def)
  have "is_private_ip (V4 a) \<longleftrightarrow>
      x0 = 127 \<or> x0 = 10 \<or> (x0 = 172 \<and> 16 \<le> x1 \<and> x1 \<le> 31) \<or> (x0 = 192 \<and> x1 = 168) \<or>
      (x0 = 169 \<and> x1 = 254) \<or> (x0 = 0 \<and> x1 = 0 \<and> x2 = 0 \<and> x3 = 0) \<or> (x0 = 100 \<and> x1 div 64 = 1)"
    unfolding is_private_ip_def v4_is_loopback_def v4_is_private_def v4_is_link_local_def
      v4_is_unspecified_def is_v4_shared_def octet_prefix ip_addr.case x0_def x1_def x2_def x3_def
    by (simp add: octet_eq word_le_nat_alt)
  also have "\<dots> \<longleftrightarrow> list_ex (\<lambda>(net, len). in_network v net len) blocked_networks"
    by (simp add: blocked_networks_def nets split zero)
  finally show ?thesis by (simp add: v_def v4_value_def x0_def x1_def x2_def x3_def)
qed

text \<open>An IPv4 address in the IPv6 form that embeds it.\<close>

definition mapped_v4 :: "ipv4 \<Rightarrow> ip_addr" where
  "mapped_v4 a =
     V6 [0, 0, 0, 0, 0, 0xFFFF, push_bit 8 (ucast (oct0 a)) OR ucast (oct1 a),
         push_bit 8 (ucast (oct2 a)) OR ucast (oct3 a)]"

lemma mapped_v4_not_blocked: "\<not> is_private_ip (mapped_v4 a)"
  by (simp add: is_private_ip_def mapped_v4_def v6_is_loopback_def v6_is_unspecified_def
      is_v6_unique_local_def is_v6_link_local_def)

text \<open>
  A URL passes exactly when it parses, has an http or https scheme and a non-empty host, and
  the host is on the allow list, or its name does not resolve, or none of its addresses is
  blocked; the blocked IPv4 addresses are those of seven networks. An internal IPv4 address in
  its IPv6-mapped form is not blocked.
\<close>

theorem ssrf_accepts_exactly:
  "(validate_url env url = Inr () \<longleftrightarrow>
     (\<exists>p host. ne_parse env url = Some p \<and> url_scheme p \<in> {''http'', ''https''} \<and>
        url_host p = Some host \<and> host \<noteq> [] \<and>
        (host_is_explicitly_allowed env host \<or>
         (case ne_resolve env (host @ '':'' @ show_nat (case url_port p of Some n \<Rightarrow> n | None \<Rightarrow> 443)) of
            None \<Rightarrow> True
          | Some ips \<Rightarrow> \<not> list_ex is_private_ip ips))))
   \<and> is_private_ip (V4 a) = list_ex (\<lambda>(net, len). in_network (v4_value a) net len) blocked_networks
   \<and> \<not> is_private_ip (mapped_v4 a)"
proof -
  have find: "find is_private_ip ips = None \<longleftrightarrow> \<not> list_ex is_private_ip ips"
    "find is_private_ip ips = Some ip \<Longrightarrow> list_ex is_private_ip ips" for ips ip
    by (induction ips) (auto split: if_splits)
  show ?thesis
    using v4_networks[of a] mapped_v4_not_blocked[of a]
    by (auto simp: validate_url_def Let_def find(1) dest: find(2) split: option.splits)
qed

end
