(* ===== verification/Egress.thy ===== *)
theory Egress
  imports Ordered_Map Rust_String
begin

section \<open>Network egress control\<close>

text \<open>
  \<^verbatim>\<open>ghost-egress/src/domain_matcher.rs\<close>, \<^verbatim>\<open>config.rs\<close> and \<^verbatim>\<open>proxy_provider.rs\<close>: the patterns of
  domains, compiled to regular expressions, the normalization of a domain, and the proxy policy
  with its count of violations per agent. Text is ASCII. The regular expressions the compiler
  builds use literals, character classes, sequences, an option and a star between anchors; they
  are a datatype, matched by derivatives against the whole text. Binding a port may fail;
  the ids in error messages are left out.
\<close>

subsection \<open>Regular expressions\<close>

datatype regex =
    Zero
  | Eps
  | Class "char list"
  | Seq regex regex
  | Alt regex regex
  | Star regex

fun lit :: "string \<Rightarrow> regex" where
  "lit [] = Eps"
| "lit (c # s) = Seq (Class [c]) (lit s)"

definition opt :: "regex \<Rightarrow> regex" where
  "opt r = Alt Eps r"

fun nullable :: "regex \<Rightarrow> bool" where
  "nullable Zero = False"
| "nullable Eps = True"
| "nullable (Class _) = False"
| "nullable (Seq r s) = (nullable r \<and> nullable s)"
| "nullable (Alt r s) = (nullable r \<or> nullable s)"
| "nullable (Star _) = True"

fun deriv :: "char \<Rightarrow> regex \<Rightarrow> regex" where
  "deriv c Zero = Zero"
| "deriv c Eps = Zero"
| "deriv c (Class cs) = (if c \<in> set cs then Eps else Zero)"
| "deriv c (Seq r s) =
     (if nullable r then Alt (Seq (deriv c r) s) (deriv c s) else Seq (deriv c r) s)"
| "deriv c (Alt r s) = Alt (deriv c r) (deriv c s)"
| "deriv c (Star r) = Seq (deriv c r) (Star r)"

fun is_match :: "regex \<Rightarrow> string \<Rightarrow> bool" where
  "is_match r [] = nullable r"
| "is_match r (c # s) = is_match (deriv c r) s"

text \<open>The language of an expression, as a reference.\<close>

inductive in_lang :: "regex \<Rightarrow> string \<Rightarrow> bool" where
  eps: "in_lang Eps []"
| cls: "c \<in> set cs \<Longrightarrow> in_lang (Class cs) [c]"
| seq: "in_lang r u \<Longrightarrow> in_lang s v \<Longrightarrow> in_lang (Seq r s) (u @ v)"
| altL: "in_lang r u \<Longrightarrow> in_lang (Alt r s) u"
| altR: "in_lang s u \<Longrightarrow> in_lang (Alt r s) u"
| star0: "in_lang (Star r) []"
| star1: "in_lang r u \<Longrightarrow> in_lang (Star r) v \<Longrightarrow> in_lang (Star r) (u @ v)"

inductive_simps in_lang_simps [simp]:
  "in_lang Zero w" "in_lang Eps w" "in_lang (Class cs) w" "in_lang (Seq r s) w" "in_lang (Alt r s) w"

lemma nullable_in_lang: "nullable r \<longleftrightarrow> in_lang r []"
  by (induction r) (auto intro: in_lang.intros)

lemma star_cons:
  assumes "in_lang (Star r) (c # w)"
  shows "\<exists>u v. w = u @ v \<and> in_lang r (c # u) \<and> in_lang (Star r) v"
proof -
  have "in_lang x y \<Longrightarrow> x = Star r \<Longrightarrow> y = c # w \<Longrightarrow>
      \<exists>u v. w = u @ v \<and> in_lang r (c # u) \<and> in_lang (Star r) v" for x y
    by (induction rule: in_lang.induct) (auto simp: append_eq_Cons_conv)
  then show ?thesis using assms by blast
qed

lemma deriv_in_lang: "in_lang (deriv c r) w \<longleftrightarrow> in_lang r (c # w)"
proof (induction r arbitrary: w)
  case (Seq r s)
  have "in_lang (Seq r s) (c # w) \<longleftrightarrow>
      (in_lang r [] \<and> in_lang s (c # w)) \<or> (\<exists>u v. w = u @ v \<and> in_lang r (c # u) \<and> in_lang s v)"
    by (auto simp: Cons_eq_append_conv)
  then show ?case using Seq by (auto simp: nullable_in_lang)
next
  case (Star r)
  show ?case using Star star_cons[of r c w] in_lang.star1[of r "c # _" _] by fastforce
qed auto

lemma is_match_in_lang: "is_match r w \<longleftrightarrow> in_lang r w"
  by (induction w arbitrary: r) (auto simp: nullable_in_lang deriv_in_lang)

lemma in_lang_lit [simp]: "in_lang (lit s) w \<longleftrightarrow> w = s"
  by (induction s arbitrary: w) auto

lemma in_lang_star_class: "in_lang (Star (Class cs)) w \<longleftrightarrow> set w \<subseteq> set cs"
proof
  have "in_lang x y \<Longrightarrow> x = Star (Class cs) \<Longrightarrow> set y \<subseteq> set cs" for x y
    by (induction rule: in_lang.induct) auto
  then show "set w \<subseteq> set cs" if "in_lang (Star (Class cs)) w" using that by blast
next
  assume "set w \<subseteq> set cs"
  then show "in_lang (Star (Class cs)) w"
  proof (induction w)
    case (Cons c w)
    then show ?case using in_lang.star1[of "Class cs" "[c]" w] by simp
  qed (rule in_lang.star0)
qed

subsection \<open>The domain matcher\<close>

definition alnum :: "char list" where
  "alnum = ''abcdefghijklmnopqrstuvwxyz0123456789''"

record compiled_pattern =
  cp_original :: string
  cp_regex :: regex

type_synonym domain_matcher = "compiled_pattern list"

definition compile_pattern :: "string \<Rightarrow> compiled_pattern option" where
  "compile_pattern p =
     (let trimmed = to_lowercase (trim p)
      in if trimmed = [] then None
         else Some \<lparr>cp_original = p,
           cp_regex =
             (if starts_with ''*.'' trimmed then
                Seq (Class alnum)
                  (Seq (opt (Seq (Star (Class (alnum @ ''-''))) (Class alnum)))
                    (Seq (Class ''.'') (lit (drop 2 trimmed))))
              else lit trimmed)\<rparr>)"

definition domain_matcher_new :: "string list \<Rightarrow> domain_matcher" where
  "domain_matcher_new ps = List.map_filter compile_pattern ps"

text \<open>\<^verbatim>\<open>rsplit_once\<close> cuts at the last occurrence.\<close>

definition rsplit_once :: "char \<Rightarrow> string \<Rightarrow> (string \<times> string) option" where
  "rsplit_once d s = map_option (\<lambda>(a, b). (rev b, rev a)) (split_once d (rev s))"

definition normalize_domain :: "string \<Rightarrow> string option" where
  "normalize_domain domain =
     (let trimmed = trim domain
      in if trimmed = [] then None
         else
           (let domain_part = hd (split_on (CHR ''/'') trimmed);
                without_port = (case rsplit_once (CHR '':'') domain_part of
                                  Some (d, _) \<Rightarrow> d | None \<Rightarrow> domain_part);
                lowered = to_lowercase without_port
            in if CHR 0x00 \<in> set lowered \<or> CHR '' '' \<in> set lowered then None
               else if lowered = [] then None
               else Some lowered))"

definition domain_matches :: "domain_matcher \<Rightarrow> string \<Rightarrow> bool" where
  "domain_matches dm domain =
     (case normalize_domain domain of
        None \<Rightarrow> False
      | Some d \<Rightarrow> list_ex (\<lambda>p. is_match (cp_regex p) d) dm)"

definition matcher_patterns :: "domain_matcher \<Rightarrow> string list" where
  "matcher_patterns dm = map cp_original dm"

subsection \<open>Configuration and the proxy policy\<close>

datatype egress_policy_mode = Allowlist | Blocklist | Unrestricted

record agent_egress_config =
  eg_policy :: egress_policy_mode
  eg_allowed_domains :: "string list"
  eg_blocked_domains :: "string list"
  eg_log_violations :: bool
  eg_alert_on_violation :: bool
  eg_violation_threshold :: u32
  eg_violation_window_minutes :: u32

definition DEFAULT_ALLOWED_DOMAINS :: "string list" where
  "DEFAULT_ALLOWED_DOMAINS =
     [''api.anthropic.com'', ''api.openai.com'', ''generativelanguage.googleapis.com'',
      ''api.mistral.ai'', ''api.groq.com'']"

definition egress_config_default :: agent_egress_config where
  "egress_config_default =
     \<lparr>eg_policy = Unrestricted, eg_allowed_domains = DEFAULT_ALLOWED_DOMAINS, eg_blocked_domains = [],
      eg_log_violations = True, eg_alert_on_violation = False, eg_violation_threshold = 5,
      eg_violation_window_minutes = 10\<rparr>"

record agent_proxy =
  px_port :: "16 word"
  px_matcher :: domain_matcher
  px_mode :: egress_policy_mode
  px_blocked_matcher :: domain_matcher
  px_violations :: "instant list"
  px_violation_threshold :: u32
  px_violation_window_minutes :: u32
  px_log_violations :: bool
  px_alert_on_violation :: bool

type_synonym proxy_policy = "(uuid, agent_proxy) btree_map"

datatype egress_error =
    PolicyViolation uuid string
  | EgressConfigError string
  | ProviderUnavailable string
  | DomainResolutionFailed string

definition px_window :: "agent_proxy \<Rightarrow> duration" where
  "px_window px = from_secs (unat (px_violation_window_minutes px) * 60)"

definition proxy_url :: "proxy_policy \<Rightarrow> uuid \<Rightarrow> string option" where
  "proxy_url pp a = map_option (\<lambda>px. ''http://127.0.0.1:'' @ show_nat (unat (px_port px))) (bt_get pp a)"

definition count_recent :: "instant \<Rightarrow> agent_proxy \<Rightarrow> u32" where
  "count_recent now px = of_nat (length (filter (\<lambda>t. now < t + px_window px) (px_violations px)))"

definition violation_count :: "instant \<Rightarrow> proxy_policy \<Rightarrow> uuid \<Rightarrow> u32" where
  "violation_count now pp a = (case bt_get pp a of None \<Rightarrow> 0 | Some px \<Rightarrow> count_recent now px)"

definition threshold_exceeded :: "instant \<Rightarrow> proxy_policy \<Rightarrow> uuid \<Rightarrow> bool" where
  "threshold_exceeded now pp a =
     (case bt_get pp a of None \<Rightarrow> False | Some px \<Rightarrow> px_violation_threshold px \<le> count_recent now px)"

text \<open>The clock is read twice: for the new entry and for the cutoff.\<close>

definition record_violation :: "instant \<Rightarrow> instant \<Rightarrow> uuid \<Rightarrow> proxy_policy \<Rightarrow> bool \<times> proxy_policy" where
  "record_violation now1 now2 a pp =
     (case bt_get pp a of
        None \<Rightarrow> (False, pp)
      | Some px \<Rightarrow>
          (let kept = filter (\<lambda>t. now2 < t + px_window px) (px_violations px @ [now1])
           in (px_violation_threshold px \<le> of_nat (length kept),
               bt_insert a (px\<lparr>px_violations := kept\<rparr>) pp)))"

definition check_domain_internal :: "egress_policy_mode \<Rightarrow> domain_matcher \<Rightarrow> domain_matcher \<Rightarrow> string \<Rightarrow> bool" where
  "check_domain_internal mode allowed blocked domain =
     (case mode of
        Allowlist \<Rightarrow> domain_matches allowed domain
      | Blocklist \<Rightarrow> \<not> domain_matches blocked domain
      | Unrestricted \<Rightarrow> True)"

definition egress_apply ::
    "(16 word) option \<Rightarrow> uuid \<Rightarrow> agent_egress_config \<Rightarrow> proxy_policy \<Rightarrow> (egress_error + unit) \<times> proxy_policy" where
  "egress_apply allocated a cfg pp =
     (let pp1 = bt_remove a pp
      in case allocated of
           None \<Rightarrow> (Inl (ProviderUnavailable ''failed to allocate proxy port''), pp1)
         | Some port \<Rightarrow>
             (Inr (), bt_insert a
                \<lparr>px_port = port, px_matcher = domain_matcher_new (eg_allowed_domains cfg),
                 px_mode = eg_policy cfg, px_blocked_matcher = domain_matcher_new (eg_blocked_domains cfg),
                 px_violations = [], px_violation_threshold = eg_violation_threshold cfg,
                 px_violation_window_minutes = eg_violation_window_minutes cfg,
                 px_log_violations = eg_log_violations cfg,
                 px_alert_on_violation = eg_alert_on_violation cfg\<rparr> pp1))"

definition check_domain :: "proxy_policy \<Rightarrow> uuid \<Rightarrow> string \<Rightarrow> egress_error + bool" where
  "check_domain pp a domain =
     (case bt_get pp a of
        None \<Rightarrow> Inl (EgressConfigError ''no egress policy for agent'')
      | Some px \<Rightarrow> Inr (check_domain_internal (px_mode px) (px_matcher px) (px_blocked_matcher px) domain))"

definition egress_remove :: "uuid \<Rightarrow> proxy_policy \<Rightarrow> (egress_error + unit) \<times> proxy_policy" where
  "egress_remove a pp = (Inr (), bt_remove a pp)"

definition log_violation :: "instant \<Rightarrow> instant \<Rightarrow> uuid \<Rightarrow> proxy_policy \<Rightarrow> bool \<times> proxy_policy" where
  "log_violation now1 now2 a pp =
     (case record_violation now1 now2 a pp of
        (exceeded, pp') \<Rightarrow>
          (exceeded \<and> (case bt_get pp' a of None \<Rightarrow> False | Some px \<Rightarrow> px_alert_on_violation px), pp'))"


subsection \<open>What a pattern admits\<close>

definition valid_label :: "string \<Rightarrow> bool" where
  "valid_label l \<longleftrightarrow>
     l \<noteq> [] \<and> hd l \<in> set alnum \<and> last l \<in> set alnum \<and> set l \<subseteq> set (alnum @ ''-'')"

definition pattern_admits :: "string \<Rightarrow> string \<Rightarrow> bool" where
  "pattern_admits t d \<longleftrightarrow>
     t \<noteq> [] \<and>
     (if starts_with ''*.'' t then \<exists>label. valid_label label \<and> d = label @ ''.'' @ drop 2 t else d = t)"

lemma label_in_lang:
  "in_lang (Seq (Class alnum) (opt (Seq (Star (Class (alnum @ ''-''))) (Class alnum)))) l \<longleftrightarrow> valid_label l"
proof
  assume "in_lang (Seq (Class alnum) (opt (Seq (Star (Class (alnum @ ''-''))) (Class alnum)))) l"
  then obtain c w where l: "l = c # w" "c \<in> set alnum"
    "w = [] \<or> (\<exists>u d. w = u @ [d] \<and> set u \<subseteq> set (alnum @ ''-'') \<and> d \<in> set alnum)"
    unfolding opt_def by (auto simp: in_lang_star_class simp del: set_append)
  then show "valid_label l" unfolding valid_label_def by auto
next
  assume v: "valid_label l"
  then obtain c w where l: "l = c # w" "c \<in> set alnum" by (cases l) (auto simp: valid_label_def)
  show "in_lang (Seq (Class alnum) (opt (Seq (Star (Class (alnum @ ''-''))) (Class alnum)))) l"
  proof (cases w rule: rev_cases)
    case Nil
    then show ?thesis using l unfolding opt_def by (auto intro: exI[of _ "[c]"])
  next
    case (snoc u d)
    then have "set u \<subseteq> set (alnum @ ''-'')" "d \<in> set alnum" using v l by (auto simp: valid_label_def)
    then have "in_lang (Seq (Star (Class (alnum @ ''-''))) (Class alnum)) w"
      using snoc by (auto simp: in_lang_star_class simp del: set_append)
    then have "in_lang (opt (Seq (Star (Class (alnum @ ''-''))) (Class alnum))) w"
      unfolding opt_def by (rule in_lang.altR)
    from in_lang.seq[OF in_lang.cls[OF l(2)] this] show ?thesis using l(1) by simp
  qed
qed

lemma seq_assoc: "in_lang (Seq r (Seq s t)) w \<longleftrightarrow> in_lang (Seq (Seq r s) t) w"
  by simp (metis append_assoc)

lemma compiled_admits:
  assumes "compile_pattern p = Some cp"
  shows "is_match (cp_regex cp) d \<longleftrightarrow> pattern_admits (to_lowercase (trim p)) d"
proof (cases "starts_with ''*.'' (to_lowercase (trim p))")
  case True
  let ?base = "drop 2 (to_lowercase (trim p))"
  let ?label = "Seq (Class alnum) (opt (Seq (Star (Class (alnum @ ''-''))) (Class alnum)))"
  have ne: "to_lowercase (trim p) \<noteq> []" using assms by (auto simp: compile_pattern_def Let_def)
  have "is_match (cp_regex cp) d \<longleftrightarrow> in_lang (Seq ?label (Seq (Class ''.'') (lit ?base))) d"
    using assms True seq_assoc unfolding is_match_in_lang
    by (auto simp: compile_pattern_def Let_def simp del: in_lang_simps split: if_splits)
  also have "\<dots> \<longleftrightarrow> (\<exists>l. valid_label l \<and> d = l @ ''.'' @ ?base)"
    unfolding in_lang_simps(4)[of ?label] label_in_lang by auto
  finally show ?thesis using True ne by (simp add: pattern_admits_def)
next
  case False
  then show ?thesis
    using assms
    by (auto simp: compile_pattern_def Let_def is_match_in_lang pattern_admits_def split: if_splits)
qed

lemma compile_none: "compile_pattern p = None \<longleftrightarrow> to_lowercase (trim p) = []"
  by (simp add: compile_pattern_def Let_def)

lemma label_no_dot:
  assumes "valid_label l"
  shows "CHR ''.'' \<notin> set l"
proof -
  have "CHR ''.'' \<notin> set (alnum @ ''-'')" by (simp add: alnum_def)
  with assms show ?thesis unfolding valid_label_def by blast
qed

text \<open>
  A domain matches a list of patterns exactly when its normalized form is one of the plain
  patterns, or is one valid label in front of the base of a wildcard pattern, compared without
  case. A label has no dot: a name two levels below the base does not match, although the
  documentation of the pattern says that any subdomain does; on a block list it gets through.
\<close>

theorem domain_matches_exact:
  "(domain_matches (domain_matcher_new ps) domain \<longleftrightarrow>
     (\<exists>d p. normalize_domain domain = Some d \<and> p \<in> set ps \<and> pattern_admits (to_lowercase (trim p)) d))
   \<and> (\<forall>a b base. \<not> pattern_admits (''*.'' @ base) (a @ ''.'' @ b @ ''.'' @ base))"
proof -
  have "list_ex (\<lambda>cp. is_match (cp_regex cp) d) (domain_matcher_new ps) \<longleftrightarrow>
      (\<exists>p\<in>set ps. pattern_admits (to_lowercase (trim p)) d)" for d
  proof (induction ps)
    case Nil
    then show ?case by (simp add: domain_matcher_new_def List.map_filter_def)
  next
    case (Cons p ps)
    then show ?case
      using compiled_admits[of p _ d] compile_none[of p]
      by (cases "compile_pattern p") (auto simp: domain_matcher_new_def List.map_filter_def pattern_admits_def)
  qed
  moreover have "\<not> pattern_admits (''*.'' @ base) (a @ ''.'' @ b @ ''.'' @ base)" for a b base
  proof
    assume "pattern_admits (''*.'' @ base) (a @ ''.'' @ b @ ''.'' @ base)"
    then obtain l where l: "valid_label l" "a @ ''.'' @ b @ ''.'' @ base = l @ ''.'' @ base"
      by (auto simp: pattern_admits_def starts_with_def)
    from l(2) have "(a @ ''.'' @ b) @ (''.'' @ base) = l @ (''.'' @ base)" by simp
    then have "l = a @ ''.'' @ b" by (simp only: append_same_eq)
    with label_no_dot[OF l(1)] show False by simp
  qed
  ultimately show ?thesis by (auto simp: domain_matches_def split: option.splits)
qed


subsection \<open>Counting violations\<close>

text \<open>A run of the policy with the violations logged for each agent since its policy was applied.\<close>

datatype egress_op =
    EgApply "(16 word) option" uuid agent_egress_config
  | EgRemove uuid
  | EgViolate instant instant uuid

type_synonym violation_log = "uuid \<Rightarrow> instant list"

fun egress_step :: "proxy_policy \<times> violation_log \<Rightarrow> egress_op \<Rightarrow> proxy_policy \<times> violation_log" where
  "egress_step (pp, lg) (EgApply port a cfg) = (snd (egress_apply port a cfg pp), lg(a := []))"
| "egress_step (pp, lg) (EgRemove a) = (snd (egress_remove a pp), lg(a := []))"
| "egress_step (pp, lg) (EgViolate now1 now2 a) = (snd (log_violation now1 now2 a pp), lg(a := lg a @ [now1]))"

fun op_times :: "egress_op \<Rightarrow> instant list" where
  "op_times (EgViolate now1 now2 a) = [now1, now2]"
| "op_times _ = []"

definition logged :: "instant \<Rightarrow> proxy_policy \<times> violation_log \<Rightarrow> bool" where
  "logged now s \<longleftrightarrow> (case s of (pp, lg) \<Rightarrow>
     \<forall>a px. bt_get pp a = Some px \<longrightarrow>
       (\<exists>c \<le> now. px_violations px = filter (\<lambda>t. c < t + px_window px) (lg a)))"

lemma filter_later:
  fixes c now W :: nat
  assumes "c \<le> now"
  shows "filter (\<lambda>t. now < t + W) (filter (\<lambda>t. c < t + W) ts) = filter (\<lambda>t. now < t + W) ts"
  using assms by (auto simp: filter_filter intro: filter_cong)

lemma logged_mono:
  assumes "logged before s" "before \<le> now"
  shows "logged now s"
proof -
  have "c \<le> now" if "c \<le> before" for c using that assms(2) by simp
  with assms(1) show ?thesis unfolding logged_def by (cases s) (simp, meson)
qed

lemma log_violation_state: "snd (log_violation now1 now2 a pp) = snd (record_violation now1 now2 a pp)"
  by (simp add: log_violation_def split: prod.splits)

lemma logged_violate:
  assumes "logged before (pp, lg)" "before \<le> now2"
  shows "logged now2 (egress_step (pp, lg) (EgViolate now1 now2 a))"
proof -
  have later: "\<exists>c \<le> now2. px_violations px = filter (\<lambda>t. c < t + px_window px) (lg b)"
    if "bt_get pp b = Some px" for b px
    using logged_mono[OF assms] that unfolding logged_def by simp
  show ?thesis
  proof (cases "bt_get pp a")
    case None
    then show ?thesis using later
      by (auto simp: logged_def log_violation_state record_violation_def split: if_splits)
  next
    case (Some px)
    obtain c where c: "c \<le> now2" "px_violations px = filter (\<lambda>t. c < t + px_window px) (lg a)"
      using later[OF Some] by blast
    have "filter (\<lambda>t. now2 < t + px_window px) (px_violations px @ [now1]) =
        filter (\<lambda>t. now2 < t + px_window px) (lg a @ [now1])"
      using filter_later[OF c(1)] by (simp add: c(2))
    then show ?thesis using Some later
      by (auto simp: logged_def log_violation_state record_violation_def Let_def px_window_def)
  qed
qed

lemma logged_other:
  assumes "logged before s" "op_times e = []"
  shows "logged before (egress_step s e)"
proof -
  obtain pp lg where s: "s = (pp, lg)" by (cases s)
  show ?thesis
    using assms unfolding s
    by (cases e) (auto simp: logged_def egress_apply_def egress_remove_def Let_def split: option.splits if_splits)
qed

lemma logged_run:
  "logged before s \<Longrightarrow> sorted (before # concat (map op_times es) @ [now]) \<Longrightarrow>
   logged now (foldl egress_step s es)"
proof (induction es arbitrary: s before)
  case Nil
  then show ?case using logged_mono by simp
next
  case (Cons e es)
  show ?case
  proof (cases "op_times e = []")
    case True
    have "sorted (before # concat (map op_times es) @ [now])" using Cons.prems(2) True by simp
    with Cons.IH[OF logged_other[OF Cons.prems(1) True]] show ?thesis by simp
  next
    case False
    then obtain now1 now2 a where e: "e = EgViolate now1 now2 a" by (cases e) auto
    have "before \<le> now2" "sorted (now2 # concat (map op_times es) @ [now])"
      using Cons.prems(2) e by (simp_all add: sorted_append)
    moreover from this have "logged now2 (egress_step s e)"
      using logged_violate Cons.prems(1) e by (cases s) blast
    ultimately show ?thesis using Cons.IH by simp
  qed
qed

text \<open>
  While the clock does not run backwards, the violation count of an agent is the number of
  violations logged for it within the window since its policy was applied, and the threshold
  counts as exceeded exactly from the configured number on; pruning never loses one that still
  counts. (Fewer than \<open>2 ^ 32\<close> violations fit the counter.)
\<close>

theorem violations_counted_exactly:
  assumes "sorted (concat (map op_times es) @ [now])"
    and "foldl egress_step (bt_new, \<lambda>_. []) es = (pp, lg)" "bt_get pp a = Some px"
    and "length (lg a) < 2 ^ 32"
  shows "unat (violation_count now pp a) = length (filter (\<lambda>t. now < t + px_window px) (lg a))
       \<and> threshold_exceeded now pp a =
           (unat (px_violation_threshold px) \<le> length (filter (\<lambda>t. now < t + px_window px) (lg a)))"
proof -
  have "logged 0 (bt_new, \<lambda>_. [])" by (simp add: logged_def)
  moreover have "sorted (0 # concat (map op_times es) @ [now])" using assms(1) by simp
  ultimately have "logged now (pp, lg)"
    using logged_run[of 0 "(bt_new, \<lambda>_. [])" es now] unfolding assms(2) by blast
  then obtain c where c: "c \<le> now" "px_violations px = filter (\<lambda>t. c < t + px_window px) (lg a)"
    using assms(3) by (auto simp: logged_def)
  let ?n = "length (filter (\<lambda>t. now < t + px_window px) (lg a))"
  have count: "count_recent now px = of_nat ?n"
    unfolding count_recent_def c(2) filter_later[OF c(1)] ..
  have "?n < 2 ^ 32" using assms(4) length_filter_le[of "\<lambda>t. now < t + px_window px" "lg a"] by linarith
  then have "unat (of_nat ?n :: u32) = ?n" by (simp add: unat_of_nat take_bit_eq_mod)
  then show ?thesis
    using assms(3) count by (simp add: violation_count_def threshold_exceeded_def word_le_nat_alt)
qed

theorem violations_counted_exactly_witness:
  "let pp = fst (foldl egress_step (bt_new, \<lambda>_. [])
              [EgApply (Some 9) 1 egress_config_default, EgViolate 5 6 1, EgViolate 7 7 1])
   in unat (violation_count 8 pp 1) = 2"
proof -
  define es where "es = [EgApply (Some 9) 1 egress_config_default, EgViolate 5 6 1, EgViolate 7 7 1]"
  obtain pp lg where run: "foldl egress_step (bt_new, \<lambda>_. []) es = (pp, lg)" by fastforce
  have lg: "lg 1 = [5, 7]" using arg_cong[OF run, of "\<lambda>s. snd s 1"] by (simp add: es_def)
  obtain px where px: "bt_get pp 1 = Some px" "px_window px = from_secs 600"
    using arg_cong[OF run, of fst]
    by (auto simp: es_def egress_apply_def Let_def log_violation_state record_violation_def
        px_window_def egress_config_default_def)
  have "sorted (concat (map op_times es) @ [8])" by (simp add: es_def)
  from violations_counted_exactly[OF this run px(1)]
  have "unat (violation_count 8 pp 1) = 2" by (simp add: lg px(2) from_secs_def)
  then show ?thesis using run by (simp add: es_def)
qed

end
