(* ===== verification/Operation_Journal.thy ===== *)
theory Operation_Journal
  imports Ordered_Map Hash_Log "HOL-Library.List_Lexorder" "HOL-Library.Char_ord"
begin

section \<open>The operation journal\<close>

text \<open>
  The table \<^verbatim>\<open>operation_journal\<close> as migration \<^verbatim>\<open>v054_operation_journal_ownership.rs\<close> leaves it, and
  the queries of \<^verbatim>\<open>cortex-storage/src/queries/operation_journal_queries.rs\<close>. The table is a map
  from the primary key to the row; each statement checks the constraints of the schema: the primary
  key, the two unique indexes, the \<^verbatim>\<open>CHECK\<close>s and the trigger on commits. Timestamps are kept as
  values instead of RFC 3339 text, fingerprints as hashes, and the status, which a \<^verbatim>\<open>CHECK\<close> confines to
  three texts, as a datatype. Failures of the database itself are left out.
\<close>

datatype journal_status = RowInProgress | RowCommitted | RowAborted

record journal_row =
  jr_id :: string
  jr_actor_key :: string
  jr_method :: string
  jr_route_template :: string
  jr_operation_id :: string
  jr_request_id :: "string option"
  jr_idempotency_key :: string
  jr_request_fingerprint :: hash32
  jr_request_body :: string
  jr_status :: journal_status
  jr_response_status_code :: "int option"
  jr_response_body :: "string option"
  jr_response_content_type :: "string option"
  jr_created_at :: datetime
  jr_last_seen_at :: datetime
  jr_committed_at :: "datetime option"
  jr_lease_expires_at :: "datetime option"
  jr_owner_token :: string
  jr_lease_epoch :: int

type_synonym journal = "(string, journal_row) btree_map"

record new_journal_entry =
  ne_id :: string
  ne_actor_key :: string
  ne_method :: string
  ne_route_template :: string
  ne_operation_id :: string
  ne_request_id :: "string option"
  ne_idempotency_key :: string
  ne_request_fingerprint :: hash32
  ne_request_body :: string
  ne_created_at :: datetime
  ne_lease_expires_at :: datetime
  ne_owner_token :: string
  ne_lease_epoch :: int

datatype journal_error = UniqueViolation | CheckViolation | TriggerAbort

subsection \<open>Queries\<close>

definition get_by_actor_and_idempotency_key :: "string \<Rightarrow> string \<Rightarrow> journal \<Rightarrow> journal_row option" where
  "get_by_actor_and_idempotency_key actor_key key j =
     find (\<lambda>r. jr_actor_key r = actor_key \<and> jr_idempotency_key r = key) (bt_values j)"

definition get_by_operation_id :: "string \<Rightarrow> journal \<Rightarrow> journal_row option" where
  "get_by_operation_id op j = find (\<lambda>r. jr_operation_id r = op) (bt_values j)"

definition inserted_row :: "new_journal_entry \<Rightarrow> journal_row" where
  "inserted_row e =
     \<lparr>jr_id = ne_id e, jr_actor_key = ne_actor_key e, jr_method = ne_method e,
      jr_route_template = ne_route_template e, jr_operation_id = ne_operation_id e,
      jr_request_id = ne_request_id e, jr_idempotency_key = ne_idempotency_key e,
      jr_request_fingerprint = ne_request_fingerprint e, jr_request_body = ne_request_body e,
      jr_status = RowInProgress, jr_response_status_code = None, jr_response_body = None,
      jr_response_content_type = None, jr_created_at = ne_created_at e,
      jr_last_seen_at = ne_created_at e, jr_committed_at = None,
      jr_lease_expires_at = Some (ne_lease_expires_at e), jr_owner_token = ne_owner_token e,
      jr_lease_epoch = ne_lease_epoch e\<rparr>"

text \<open>The two unique indexes, for a row that is written, and the checks on its columns.\<close>

definition index_conflict :: "journal_row \<Rightarrow> journal \<Rightarrow> bool" where
  "index_conflict r j =
     list_ex (\<lambda>o'. jr_id o' \<noteq> jr_id r \<and>
       ((jr_actor_key o' = jr_actor_key r \<and> jr_idempotency_key o' = jr_idempotency_key r) \<or>
        jr_operation_id o' = jr_operation_id r)) (bt_values j)"

definition write_row :: "journal_row \<Rightarrow> journal \<Rightarrow> journal_error + journal" where
  "write_row r j =
     (if jr_owner_token r = [] \<or> jr_lease_epoch r < 0 then Inl CheckViolation
      else if index_conflict r j then Inl UniqueViolation
      else Inr (bt_insert (jr_id r) r j))"

definition insert_in_progress :: "new_journal_entry \<Rightarrow> journal \<Rightarrow> journal_error + journal" where
  "insert_in_progress e j =
     (if bt_contains j (ne_id e) then Inl UniqueViolation else write_row (inserted_row e) j)"

text \<open>
  \<^verbatim>\<open>UPDATE\<close> of the row with the given key where a condition holds; the result says whether a row
  was updated. The trigger fires before an update of the status column to committed.
\<close>

definition commit_refused :: "journal_row \<Rightarrow> journal_row \<Rightarrow> bool" where
  "commit_refused old new \<longleftrightarrow>
     jr_status old \<noteq> RowInProgress \<or> jr_request_id old = None \<or> jr_request_id new = None \<or>
     jr_request_id new \<noteq> jr_request_id old"

definition update_row ::
    "string \<Rightarrow> (journal_row \<Rightarrow> bool) \<Rightarrow> (journal_row \<Rightarrow> journal_row) \<Rightarrow> journal \<Rightarrow> journal_error + bool \<times> journal" where
  "update_row i P f j =
     (case bt_get j i of
        None \<Rightarrow> Inr (False, j)
      | Some r \<Rightarrow>
          if \<not> P r then Inr (False, j)
          else (case write_row (f r) j of Inl e \<Rightarrow> Inl e | Inr j' \<Rightarrow> Inr (True, j')))"

definition take_over_in_progress ::
    "string \<Rightarrow> string \<Rightarrow> string option \<Rightarrow> string \<Rightarrow> datetime \<Rightarrow> datetime \<Rightarrow> journal \<Rightarrow> journal_error + bool \<times> journal" where
  "take_over_in_progress i operation_id request_id owner_token last_seen_at lease_expires_at =
     update_row i (\<lambda>r. jr_status r = RowInProgress)
       (\<lambda>r. r\<lparr>jr_operation_id := operation_id, jr_request_id := request_id, jr_owner_token := owner_token,
              jr_last_seen_at := last_seen_at, jr_lease_expires_at := Some lease_expires_at,
              jr_lease_epoch := jr_lease_epoch r + 1\<rparr>)"

definition restart_aborted ::
    "string \<Rightarrow> string \<Rightarrow> string option \<Rightarrow> string \<Rightarrow> datetime \<Rightarrow> datetime \<Rightarrow> journal \<Rightarrow> journal_error + bool \<times> journal" where
  "restart_aborted i operation_id request_id owner_token last_seen_at lease_expires_at =
     update_row i (\<lambda>r. jr_status r = RowAborted)
       (\<lambda>r. r\<lparr>jr_status := RowInProgress, jr_operation_id := operation_id, jr_request_id := request_id,
              jr_owner_token := owner_token, jr_response_status_code := None, jr_response_body := None,
              jr_response_content_type := None, jr_committed_at := None,
              jr_last_seen_at := last_seen_at, jr_lease_expires_at := Some lease_expires_at,
              jr_lease_epoch := jr_lease_epoch r + 1\<rparr>)"

definition owned_by :: "string \<Rightarrow> int \<Rightarrow> journal_row \<Rightarrow> bool" where
  "owned_by owner_token lease_epoch r \<longleftrightarrow>
     jr_owner_token r = owner_token \<and> jr_lease_epoch r = lease_epoch \<and> jr_status r = RowInProgress"

definition committed_row ::
    "string option \<Rightarrow> int \<Rightarrow> string \<Rightarrow> string \<Rightarrow> datetime \<Rightarrow> journal_row \<Rightarrow> journal_row" where
  "committed_row request_id status_code body content_type committed_at r =
     r\<lparr>jr_status := RowCommitted, jr_request_id := request_id,
       jr_response_status_code := Some status_code, jr_response_body := Some body,
       jr_response_content_type := Some content_type, jr_last_seen_at := committed_at,
       jr_committed_at := Some committed_at, jr_lease_expires_at := None\<rparr>"

definition mark_committed ::
    "string \<Rightarrow> string \<Rightarrow> int \<Rightarrow> string option \<Rightarrow> int \<Rightarrow> string \<Rightarrow> string \<Rightarrow> datetime
      \<Rightarrow> journal \<Rightarrow> journal_error + bool \<times> journal" where
  "mark_committed i owner_token lease_epoch request_id status_code body content_type committed_at j =
     (case bt_get j i of
        Some r \<Rightarrow>
          if owned_by owner_token lease_epoch r \<and>
             commit_refused r (committed_row request_id status_code body content_type committed_at r)
          then Inl TriggerAbort
          else update_row i (owned_by owner_token lease_epoch)
                 (committed_row request_id status_code body content_type committed_at) j
      | None \<Rightarrow> Inr (False, j))"

definition mark_aborted ::
    "string \<Rightarrow> string \<Rightarrow> int \<Rightarrow> string option \<Rightarrow> datetime \<Rightarrow> journal \<Rightarrow> journal_error + bool \<times> journal" where
  "mark_aborted i owner_token lease_epoch request_id aborted_at =
     update_row i (owned_by owner_token lease_epoch)
       (\<lambda>r. r\<lparr>jr_status := RowAborted, jr_request_id := request_id, jr_response_status_code := None,
              jr_response_body := None, jr_response_content_type := None, jr_committed_at := None,
              jr_last_seen_at := aborted_at, jr_lease_expires_at := None\<rparr>)"

definition renew_lease ::
    "string \<Rightarrow> string \<Rightarrow> int \<Rightarrow> datetime \<Rightarrow> datetime \<Rightarrow> journal \<Rightarrow> journal_error + bool \<times> journal" where
  "renew_lease i owner_token lease_epoch last_seen_at lease_expires_at =
     update_row i (owned_by owner_token lease_epoch)
       (\<lambda>r. r\<lparr>jr_last_seen_at := last_seen_at, jr_lease_expires_at := Some lease_expires_at\<rparr>)"

lemmas journal_update_defs =
  take_over_in_progress_def restart_aborted_def mark_aborted_def renew_lease_def

subsection \<open>The table's invariant\<close>

text \<open>Rows are stored under their key; actor and idempotency key determine a row.\<close>

definition journal_ok :: "journal \<Rightarrow> bool" where
  "journal_ok j \<longleftrightarrow>
     (\<forall>i r. bt_get j i = Some r \<longrightarrow> jr_id r = i \<and> 0 \<le> jr_lease_epoch r)
   \<and> (\<forall>i i' r r'. bt_get j i = Some r \<longrightarrow> bt_get j i' = Some r' \<longrightarrow>
        jr_actor_key r = jr_actor_key r' \<longrightarrow> jr_idempotency_key r = jr_idempotency_key r' \<longrightarrow> i = i')"

text \<open>
  How a row may change: its request stays, its epoch does not fall, a committed row stays as it
  is, and while the epoch is the same so is the owner, and an aborted row stays aborted.
\<close>

definition row_le :: "journal_row \<Rightarrow> journal_row \<Rightarrow> bool" where
  "row_le r r' \<longleftrightarrow>
     jr_id r' = jr_id r \<and> jr_actor_key r' = jr_actor_key r \<and> jr_idempotency_key r' = jr_idempotency_key r
   \<and> jr_request_fingerprint r' = jr_request_fingerprint r
   \<and> jr_lease_epoch r \<le> jr_lease_epoch r'
   \<and> (jr_status r = RowCommitted \<longrightarrow> r' = r)
   \<and> (jr_lease_epoch r' = jr_lease_epoch r \<longrightarrow> jr_owner_token r' = jr_owner_token r)
   \<and> (jr_lease_epoch r' = jr_lease_epoch r \<longrightarrow> jr_status r = RowAborted \<longrightarrow> jr_status r' = RowAborted)"

definition journal_le :: "journal \<Rightarrow> journal \<Rightarrow> bool" where
  "journal_le j j' \<longleftrightarrow> (\<forall>i r. bt_get j i = Some r \<longrightarrow> (\<exists>r'. bt_get j' i = Some r' \<and> row_le r r'))"

lemma row_le_refl [simp]: "row_le r r"
  by (simp add: row_le_def)

lemma row_le_trans: "row_le r s \<Longrightarrow> row_le s t \<Longrightarrow> row_le r t"
  unfolding row_le_def by (cases "jr_lease_epoch s = jr_lease_epoch r"; auto)

lemma journal_le_refl [simp]: "journal_le j j"
  by (simp add: journal_le_def)

lemma journal_le_trans: "journal_le i j \<Longrightarrow> journal_le j k \<Longrightarrow> journal_le i k"
  unfolding journal_le_def using row_le_trans by metis

lemma journal_ok_new [simp]: "journal_ok bt_new"
  by (simp add: journal_ok_def)

lemma write_row_ok:
  assumes "journal_ok j" "write_row r j = Inr j'"
  shows "journal_ok j'" "j' = bt_insert (jr_id r) r j"
proof -
  show j': "j' = bt_insert (jr_id r) r j" using assms(2) by (auto simp: write_row_def split: if_splits)
  have no: "\<not> index_conflict r j" and ep: "0 \<le> jr_lease_epoch r"
    using assms(2) by (auto simp: write_row_def split: if_splits)
  have fresh: "\<not> (jr_actor_key o' = jr_actor_key r \<and> jr_idempotency_key o' = jr_idempotency_key r)"
    if o': "bt_get j i = Some o'" "i \<noteq> jr_id r" for i o'
  proof -
    have "jr_id o' = i" using assms(1) o'(1) unfolding journal_ok_def by blast
    moreover have "o' \<in> set (bt_values j)" using bt_values_iff[of o' j] o'(1) by auto
    ultimately show ?thesis using no o'(2) unfolding index_conflict_def list_ex_iff by blast
  qed
  show "journal_ok j'"
    unfolding journal_ok_def j' bt_get_insert
  proof (intro conjI allI impI)
    fix i s assume "((bt_get j)(jr_id r \<mapsto> r)) i = Some s"
    then show "jr_id s = i" "0 \<le> jr_lease_epoch s"
      using assms(1) ep unfolding journal_ok_def
      by (cases "i = jr_id r"; simp)+
  next
    fix i i' s s'
    assume h: "((bt_get j)(jr_id r \<mapsto> r)) i = Some s" "((bt_get j)(jr_id r \<mapsto> r)) i' = Some s'"
      "jr_actor_key s = jr_actor_key s'" "jr_idempotency_key s = jr_idempotency_key s'"
    show "i = i'"
    proof (cases "i = jr_id r \<or> i' = jr_id r")
      case True
      then show ?thesis using h fresh[of i s] fresh[of i' s'] by (auto split: if_splits)
    next
      case False
      then have "bt_get j i = Some s" "bt_get j i' = Some s'" using h by simp_all
      with h assms(1) show ?thesis unfolding journal_ok_def by blast
    qed
  qed
qed

lemma update_row_cases:
  assumes "update_row i P f j = Inr (b, j')"
  obtains (none) "\<not> b" "j' = j" | (some) r where "b" "bt_get j i = Some r" "P r" "write_row (f r) j = Inr j'"
  using assms by (auto simp: update_row_def split: option.splits if_splits sum.splits)

lemma update_row_ok:
  assumes "journal_ok j" "update_row i P f j = Inr (b, j')" "\<And>r. P r \<Longrightarrow> row_le r (f r)"
  shows "journal_ok j' \<and> journal_le j j'"
  using assms(2)
proof (cases rule: update_row_cases)
  case (some r)
  have "jr_id r = i" using assms(1) some(2) by (simp add: journal_ok_def)
  moreover have "row_le r (f r)" using assms(3) some(3) by simp
  ultimately have "jr_id (f r) = i" by (simp add: row_le_def)
  with write_row_ok[OF assms(1) some(4)] \<open>row_le r (f r)\<close> some(2) show ?thesis
    by (simp add: journal_le_def)
qed (use assms(1) in simp)

lemma insert_in_progress_ok:
  assumes "journal_ok j" "insert_in_progress e j = Inr j'"
  shows "journal_ok j' \<and> journal_le j j' \<and> bt_get j (ne_id e) = None \<and> j' = bt_insert (ne_id e) (inserted_row e) j"
proof -
  have w: "\<not> bt_contains j (ne_id e)" "write_row (inserted_row e) j = Inr j'"
    using assms(2) by (auto simp: insert_in_progress_def split: if_splits)
  have "jr_id (inserted_row e) = ne_id e" by (simp add: inserted_row_def)
  with write_row_ok[OF assms(1) w(2)] w(1) show ?thesis by (auto simp: journal_le_def bt_contains_def)
qed

lemma get_by_key_iff:
  assumes "journal_ok j"
  shows "get_by_actor_and_idempotency_key a k j = Some r \<longleftrightarrow>
    bt_get j (jr_id r) = Some r \<and> jr_actor_key r = a \<and> jr_idempotency_key r = k"
proof
  assume "get_by_actor_and_idempotency_key a k j = Some r"
  then obtain i where "bt_get j i = Some r" "jr_actor_key r = a" "jr_idempotency_key r = k"
    unfolding get_by_actor_and_idempotency_key_def find_Some_iff by (metis bt_values_iff nth_mem)
  with assms show "bt_get j (jr_id r) = Some r \<and> jr_actor_key r = a \<and> jr_idempotency_key r = k"
    by (simp add: journal_ok_def)
next
  assume r: "bt_get j (jr_id r) = Some r \<and> jr_actor_key r = a \<and> jr_idempotency_key r = k"
  then have "get_by_actor_and_idempotency_key a k j \<noteq> None"
    unfolding get_by_actor_and_idempotency_key_def find_None_iff bt_values_iff by blast
  then obtain s where s: "get_by_actor_and_idempotency_key a k j = Some s" by blast
  then obtain i where "bt_get j i = Some s" "jr_actor_key s = a" "jr_idempotency_key s = k"
    unfolding get_by_actor_and_idempotency_key_def find_Some_iff by (metis bt_values_iff nth_mem)
  with r assms have "i = jr_id r" unfolding journal_ok_def by metis
  with \<open>bt_get j i = Some s\<close> r s show "get_by_actor_and_idempotency_key a k j = Some r" by simp
qed

subsection \<open>Committed rows\<close>

definition committed_ids :: "journal \<Rightarrow> string set" where
  "committed_ids j = {i. \<exists>r. bt_get j i = Some r \<and> jr_status r = RowCommitted}"

text \<open>A statement that leaves the invariant, the order of rows and the committed rows alone.\<close>

definition quiet :: "journal \<Rightarrow> journal \<Rightarrow> bool" where
  "quiet j j' \<longleftrightarrow> journal_ok j' \<and> journal_le j j' \<and> committed_ids j' = committed_ids j"

lemma quiet_refl: "journal_ok j \<Longrightarrow> quiet j j"
  by (simp add: quiet_def)

lemma update_row_quiet:
  assumes "journal_ok j" "update_row i P f j = Inr (b, j')"
    and "\<And>r. P r \<Longrightarrow> row_le r (f r) \<and> jr_status r \<noteq> RowCommitted \<and> jr_status (f r) \<noteq> RowCommitted"
  shows "quiet j j'"
proof -
  have "committed_ids j' = committed_ids j"
    using assms(2)
  proof (cases rule: update_row_cases)
    case (some r)
    have "jr_id r = i" using assms(1) some(2) unfolding journal_ok_def by blast
    then have "jr_id (f r) = i" using assms(3)[OF some(3)] by (simp add: row_le_def)
    with write_row_ok(2)[OF assms(1) some(4)] some(2) assms(3)[OF some(3)] show ?thesis
      unfolding committed_ids_def by auto
  qed simp
  with update_row_ok[OF assms(1,2)] assms(3) show ?thesis by (simp add: quiet_def)
qed

lemma take_over_quiet:
  "journal_ok j \<Longrightarrow> take_over_in_progress i op rq ow t e j = Inr (b, j') \<Longrightarrow> quiet j j'"
  unfolding take_over_in_progress_def by (erule update_row_quiet, assumption) (auto simp: row_le_def)

lemma restart_quiet:
  "journal_ok j \<Longrightarrow> restart_aborted i op rq ow t e j = Inr (b, j') \<Longrightarrow> quiet j j'"
  unfolding restart_aborted_def by (erule update_row_quiet, assumption) (auto simp: row_le_def)

lemma mark_aborted_quiet:
  "journal_ok j \<Longrightarrow> mark_aborted i ow ep rq t j = Inr (b, j') \<Longrightarrow> quiet j j'"
  unfolding mark_aborted_def by (erule update_row_quiet, assumption) (auto simp: row_le_def owned_by_def)

lemma renew_quiet:
  "journal_ok j \<Longrightarrow> renew_lease i ow ep t e j = Inr (b, j') \<Longrightarrow> quiet j j'"
  unfolding renew_lease_def by (erule update_row_quiet, assumption) (auto simp: row_le_def owned_by_def)

lemma insert_quiet:
  assumes "journal_ok j" "insert_in_progress e j = Inr j'"
  shows "quiet j j'"
  using insert_in_progress_ok[OF assms] by (auto simp: quiet_def committed_ids_def inserted_row_def)

lemma mark_committed_cases:
  assumes "journal_ok j" "mark_committed i ow ep rq sc body ct t j = Inr (b, j')"
  obtains (lost) "\<not> b" "j' = j"
  | (won) r where "b" "bt_get j i = Some r" "owned_by ow ep r" "rq = jr_request_id r"
      "j' = bt_insert i (committed_row rq sc body ct t r) j" "journal_ok j'" "journal_le j j'"
      "committed_ids j' = insert i (committed_ids j)" "i \<notin> committed_ids j"
proof (cases "bt_get j i")
  case None
  then show ?thesis using assms(2) lost by (simp add: mark_committed_def)
next
  case (Some r)
  have nr: "\<not> (owned_by ow ep r \<and> commit_refused r (committed_row rq sc body ct t r))"
    and up: "update_row i (owned_by ow ep) (committed_row rq sc body ct t) j = Inr (b, j')"
    using assms(2) Some by (auto simp: mark_committed_def split: if_splits)
  have le: "row_le s (committed_row rq sc body ct t s)" if "owned_by ow ep s" for s
    using that by (auto simp: row_le_def committed_row_def owned_by_def)
  from up show ?thesis
  proof (cases rule: update_row_cases)
    case none
    then show ?thesis using lost by simp
  next
    case (some s)
    have s: "s = r" using some(2) Some by simp
    have "jr_id r = i" using assms(1) Some unfolding journal_ok_def by blast
    then have i: "jr_id (committed_row rq sc body ct t r) = i" by (simp add: committed_row_def)
    have j': "j' = bt_insert i (committed_row rq sc body ct t r) j"
      using write_row_ok(2)[OF assms(1) some(4)] s i by simp
    have "rq = jr_request_id r" using nr some(3) s by (auto simp: commit_refused_def committed_row_def)
    moreover have "committed_ids j' = insert i (committed_ids j)" "i \<notin> committed_ids j"
      using Some some(3) s by (auto simp: j' committed_ids_def committed_row_def owned_by_def)
    ultimately show ?thesis
      using won[OF some(1) Some] some(3) s j' update_row_ok[OF assms(1) up le] by simp
  qed
qed

end
