(* ===== verification/Json_Canonical.thy ===== *)
theory Json_Canonical
  imports Hash_Log Rust_String "HOL-Library.List_Lexorder" "HOL-Library.Char_ord"
begin

section \<open>Canonical text of a JSON value\<close>

text \<open>
  \<^verbatim>\<open>canonical_json_string\<close> and \<^verbatim>\<open>fingerprint_json_request\<close> of
  \<^verbatim>\<open>ghost-gateway/src/api/idempotency.rs\<close>. A JSON value is a datatype with the constructors of
  \<^verbatim>\<open>serde_json::Value\<close>; an object is the list of its fields, each key once. How the serializer
  writes a string and a number is outside the sources: \<open>lexemes\<close> holds these two functions, and
  \<open>json_lexemes\<close> says what the format of RFC 8259 promises of them.
\<close>

datatype 'n json =
    JNull
  | JBool bool
  | JNumber 'n
  | JString string
  | JArray "'n json list"
  | JObject "(string \<times> 'n json) list"

text \<open>\<^verbatim>\<open>Value::get\<close> with a key and \<^verbatim>\<open>as_str\<close>.\<close>

fun json_get :: "string \<Rightarrow> 'n json \<Rightarrow> 'n json option" where
  "json_get k (JObject fs) = map_of fs k"
| "json_get k _ = None"

fun json_as_str :: "'n json \<Rightarrow> string option" where
  "json_as_str (JString s) = Some s"
| "json_as_str _ = None"

definition str_arg :: "string \<Rightarrow> 'n json \<Rightarrow> string option" where
  "str_arg k v = Option.bind (json_get k v) json_as_str"

record 'n lexemes =
  lx_string :: "string \<Rightarrow> string"
  lx_number :: "'n \<Rightarrow> string"

text \<open>The loop that puts a comma before every element but the first.\<close>

fun comma_sep :: "string list \<Rightarrow> string" where
  "comma_sep [] = []"
| "comma_sep [x] = x"
| "comma_sep (x # y # zs) = x @ CHR '','' # comma_sep (y # zs)"

lemma size_field:
  assumes "(k, v) \<in> set fs"
  shows "size v \<le> size_list (size_prod (\<lambda>_. 0) size) fs"
  using assms by (induction fs) (auto intro: trans_le_add2)

function canonical_json_string :: "'n lexemes \<Rightarrow> 'n json \<Rightarrow> string" where
  "canonical_json_string lx JNull = ''null''"
| "canonical_json_string lx (JBool b) = (if b then ''true'' else ''false'')"
| "canonical_json_string lx (JNumber n) = lx_number lx n"
| "canonical_json_string lx (JString s) = lx_string lx s"
| "canonical_json_string lx (JArray vs) =
     ''['' @ comma_sep (map (canonical_json_string lx) vs) @ '']''"
| "canonical_json_string lx (JObject fs) =
     ''{'' @ comma_sep (map (\<lambda>(k, v). lx_string lx k @ '':'' @ canonical_json_string lx v) (sort_key fst fs)) @ ''}''"
  by pat_completeness auto
termination
  by (relation "measure (\<lambda>(lx, v). size v)")
    (auto simp: less_Suc_eq_le size_field intro: size_list_estimation')


text \<open>The bytes fed to the hash, and the fingerprint; its hexadecimal form is left out.\<close>

definition request_preimage :: "'n lexemes \<Rightarrow> string \<Rightarrow> string \<Rightarrow> string \<Rightarrow> 'n json \<Rightarrow> byte_seq" where
  "request_preimage lx meth route_template actor_key body =
     as_bytes meth @ as_bytes [CHR 0x0A] @ as_bytes route_template @ as_bytes [CHR 0x0A] @
     as_bytes actor_key @ as_bytes [CHR 0x0A] @ as_bytes (canonical_json_string lx body)"

definition fingerprint_json_request ::
    "'n lexemes \<Rightarrow> (byte_seq \<Rightarrow> hash32) \<Rightarrow> string \<Rightarrow> string \<Rightarrow> string \<Rightarrow> 'n json \<Rightarrow> hash32" where
  "fingerprint_json_request lx blake3 meth route_template actor_key body =
     blake3 (request_preimage lx meth route_template actor_key body)"

subsection \<open>What the text determines\<close>

text \<open>Values up to the order of fields, at every level.\<close>

function json_norm :: "'n json \<Rightarrow> 'n json" where
  "json_norm JNull = JNull"
| "json_norm (JBool b) = JBool b"
| "json_norm (JNumber n) = JNumber n"
| "json_norm (JString s) = JString s"
| "json_norm (JArray vs) = JArray (map json_norm vs)"
| "json_norm (JObject fs) = JObject (map (\<lambda>(k, v). (k, json_norm v)) (sort_key fst fs))"
  by pat_completeness auto
termination
  by (relation "measure size") (auto simp: less_Suc_eq_le size_field intro: size_list_estimation')

text \<open>The text of a value with its fields as they come.\<close>

fun json_text :: "'n lexemes \<Rightarrow> 'n json \<Rightarrow> string" where
  "json_text lx JNull = ''null''"
| "json_text lx (JBool b) = (if b then ''true'' else ''false'')"
| "json_text lx (JNumber n) = lx_number lx n"
| "json_text lx (JString s) = lx_string lx s"
| "json_text lx (JArray vs) = ''['' @ comma_sep (map (json_text lx) vs) @ '']''"
| "json_text lx (JObject fs) =
     ''{'' @ comma_sep (map (\<lambda>(k, v). lx_string lx k @ '':'' @ json_text lx v) fs) @ ''}''"

lemma canonical_text: "canonical_json_string lx v = json_text lx (json_norm v)"
proof (induction lx v rule: canonical_json_string.induct)
  case (5 lx vs)
  have "map (canonical_json_string lx) vs = map (\<lambda>v. json_text lx (json_norm v)) vs"
    by (rule map_cong) (use 5 in auto)
  from arg_cong[OF this, of comma_sep] show ?case by (simp add: comp_def)
next
  case (6 lx fs)
  have "map (\<lambda>(k, v). lx_string lx k @ '':'' @ canonical_json_string lx v) (sort_key fst fs) =
      map (\<lambda>(k, v). lx_string lx k @ '':'' @ json_text lx (json_norm v)) (sort_key fst fs)"
    by (rule map_cong) (use 6 in \<open>auto split: prod.splits\<close>)
  from arg_cong[OF this, of comma_sep] show ?case by (simp add: comp_def split_def)
qed simp_all

definition number_chars :: "char list" where
  "number_chars = ''0123456789+-.eE''"

text \<open>
  A string is written between quotes so that its end is determined, a number from the characters
  of a number, starting with a digit or a minus sign; each determines what was written.
\<close>

definition number_start :: "char \<Rightarrow> bool" where
  "number_start c \<longleftrightarrow> c \<in> set ''0123456789-''"

definition json_lexemes :: "'n lexemes \<Rightarrow> bool" where
  "json_lexemes lx \<longleftrightarrow>
     (\<forall>s. \<exists>t. lx_string lx s = CHR 0x22 # t)
   \<and> (\<forall>s t x y. lx_string lx s @ x = lx_string lx t @ y \<longrightarrow> s = t \<and> x = y)
   \<and> (\<forall>n. \<exists>c t. lx_number lx n = c # t \<and> number_start c)
   \<and> (\<forall>n. set (lx_number lx n) \<subseteq> set number_chars)
   \<and> inj (lx_number lx)"

definition delimited :: "string \<Rightarrow> bool" where
  "delimited x \<longleftrightarrow> x = [] \<or> hd x \<in> set '',]}''"

definition readable :: "('a \<Rightarrow> string) \<Rightarrow> 'a \<Rightarrow> bool" where
  "readable p a \<longleftrightarrow>
     (\<forall>b x y. delimited x \<longrightarrow> delimited y \<longrightarrow> p a @ x = p b @ y \<longrightarrow> a = b \<and> x = y)"

lemma readableD: "readable p a \<Longrightarrow> p a @ x = p b @ y \<Longrightarrow> delimited x \<Longrightarrow> delimited y \<Longrightarrow> a = b \<and> x = y"
  unfolding readable_def by blast

lemma comma_sep_Cons:
  "comma_sep (x # xs) @ rest = x @ (if xs = [] then rest else CHR '','' # comma_sep xs @ rest)"
  by (cases xs) auto

lemma comma_sep_readable:
  assumes "\<forall>a \<in> set as. readable p a" "\<And>a. p a \<noteq> [] \<and> hd (p a) \<notin> set '']}''" "c \<in> set '']}''"
  shows "comma_sep (map p as) @ c # x = comma_sep (map p bs) @ c # y \<Longrightarrow> as = bs \<and> x = y"
  using assms(1)
proof (induction as arbitrary: bs)
  case Nil
  have "bs = []"
  proof (rule ccontr)
    assume "bs \<noteq> []"
    then obtain b bs' where b: "bs = b # bs'" by (cases bs) auto
    obtain d t where "p b = d # t" "d \<notin> set '']}''" using assms(2)[of b] by (cases "p b") auto
    then show False using Nil.prems(1) assms(3) b comma_sep_Cons[of "p b" "map p bs'"] by auto
  qed
  then show ?case using Nil by simp
next
  case (Cons a as)
  obtain d t where a: "p a = d # t" "d \<notin> set '']}''" using assms(2)[of a] by (cases "p a") auto
  have "bs \<noteq> []"
    using Cons.prems(1) assms(3) a comma_sep_Cons[of "p a" "map p as" "c # x"] by auto
  then obtain b bs' where b: "bs = b # bs'" by (cases bs) auto
  let ?rest = "\<lambda>zs x. if zs = [] then c # x else CHR '','' # comma_sep (map p zs) @ c # x"
  have del: "delimited (?rest zs x)" for zs x using assms(3) by (auto simp: delimited_def)
  have "p a @ ?rest as x = p b @ ?rest bs' y"
    using Cons.prems(1) comma_sep_Cons[of "p a" "map p as" "c # x"] comma_sep_Cons[of "p b" "map p bs'" "c # y"]
    by (simp add: b)
  from readableD[where p = p and a = a and b = b, OF _ this del[of as x] del[of bs' y]] Cons.prems(2) have ab: "a = b" "?rest as x = ?rest bs' y" by auto
  from ab(2) assms(3) have "comma_sep (map p as) @ c # x = comma_sep (map p bs') @ c # y" by (auto split: if_splits)
  with Cons ab(1) b show ?case by auto
qed

lemma number_readable:
  assumes "json_lexemes lx" "delimited x" "delimited y" "lx_number lx m @ x = lx_number lx n @ y"
  shows "m = n \<and> x = y"
proof -
  have chars: "\<forall>c \<in> set (lx_number lx n). c \<in> set number_chars" for n
    using assms(1) unfolding json_lexemes_def by blast
  have cut: "takeWhile (\<lambda>c. c \<in> set number_chars) (lx_number lx n @ x) = lx_number lx n" if "delimited x" for n x
    using chars[of n] that unfolding takeWhile_append2[OF chars[rule_format]]
    by (cases x) (auto simp: delimited_def number_chars_def)
  have "lx_number lx m = lx_number lx n" using cut[OF assms(2)] cut[OF assms(3)] assms(4) by metis
  moreover have "inj (lx_number lx)" using assms(1) by (simp add: json_lexemes_def)
  ultimately show ?thesis using assms(4) by (auto dest: injD)
qed

text \<open>Values of different kinds start differently.\<close>

definition kind_of :: "char \<Rightarrow> nat" where
  "kind_of c =
     (if number_start c then 3 else if c = CHR 0x22 then 4 else if c = CHR ''n'' then 0
      else if c = CHR ''t'' then 1 else if c = CHR ''f'' then 2 else if c = CHR ''['' then 5
      else if c = CHR ''{'' then 6 else 7)"

lemma kind_of_chars [simp]:
  "kind_of (CHR ''n'') = 0" "kind_of (CHR ''t'') = 1" "kind_of (CHR ''f'') = 2" "kind_of (CHR 0x22) = 4"
  "kind_of (CHR ''['') = 5" "kind_of (CHR ''{'') = 6" "kind_of (CHR '']'') = 7" "kind_of (CHR ''}'') = 7"
  by code_simp+

lemma kind_of_number [simp]: "number_start c \<Longrightarrow> kind_of c = 3"
  by (simp add: kind_of_def)

fun value_kind :: "'n json \<Rightarrow> nat" where
  "value_kind JNull = 0"
| "value_kind (JBool b) = (if b then 1 else 2)"
| "value_kind (JNumber _) = 3"
| "value_kind (JString _) = 4"
| "value_kind (JArray _) = 5"
| "value_kind (JObject _) = 6"

lemma text_kind:
  assumes "json_lexemes lx"
  shows "\<exists>c t. json_text lx v = c # t \<and> kind_of c = value_kind v"
proof -
  have num: "\<exists>c t. lx_number lx n = c # t \<and> number_start c" for n
    using assms unfolding json_lexemes_def by blast
  have str: "\<exists>t. lx_string lx s = CHR 0x22 # t" for s
    using assms unfolding json_lexemes_def by blast
  show ?thesis
  proof (cases v)
    case (JNumber n)
    with num[of n] show ?thesis by auto
  next
    case (JString s)
    with str[of s] show ?thesis by auto
  qed auto
qed

lemma text_starts:
  assumes "json_lexemes lx"
  shows "json_text lx v \<noteq> [] \<and> hd (json_text lx v) \<notin> set '']}''"
proof -
  obtain c t where c: "json_text lx v = c # t" "kind_of c = value_kind v"
    using text_kind[OF assms] by blast
  have "value_kind v \<noteq> 7" by (cases v) auto
  with c show ?thesis by auto
qed

lemma same_kind:
  assumes "json_lexemes lx" "json_text lx v @ x = json_text lx w @ y"
  shows "value_kind w = value_kind v"
proof -
  obtain c t d u where "json_text lx v = c # t" "kind_of c = value_kind v"
    "json_text lx w = d # u" "kind_of d = value_kind w"
    using text_kind[OF assms(1)] by metis
  then show ?thesis using assms(2) by simp
qed

lemma field_readable:
  assumes "json_lexemes lx" "readable (json_text lx) (snd f)"
  shows "readable (\<lambda>(k, v). lx_string lx k @ '':'' @ json_text lx v) f"
  unfolding readable_def
proof (intro allI impI)
  fix g x y
  assume d: "delimited x" "delimited y"
    and h: "(case f of (k, v) \<Rightarrow> lx_string lx k @ '':'' @ json_text lx v) @ x =
            (case g of (k, v) \<Rightarrow> lx_string lx k @ '':'' @ json_text lx v) @ y"
  obtain k v l w where fg: "f = (k, v)" "g = (l, w)" by (cases f, cases g)
  have "\<forall>s t x y. lx_string lx s @ x = lx_string lx t @ y \<longrightarrow> s = t \<and> x = y"
    using assms(1) unfolding json_lexemes_def by blast
  from this[rule_format, of k "CHR '':'' # json_text lx v @ x" l "CHR '':'' # json_text lx w @ y"]
  have "k = l" "json_text lx v @ x = json_text lx w @ y" using h fg by auto
  with readableD[OF assms(2) _ d] fg show "f = g \<and> x = y" by auto
qed

lemma text_readable:
  assumes "json_lexemes lx"
  shows "readable (json_text lx) v"
proof (induction v)
  case (JArray vs)
  show ?case unfolding readable_def
  proof (intro allI impI)
    fix w x y assume h: "json_text lx (JArray vs) @ x = json_text lx w @ y"
    obtain ws where w: "w = JArray ws"
      using same_kind[OF assms h] by (cases w) (auto split: if_splits)
    have "comma_sep (map (json_text lx) vs) @ CHR '']'' # x = comma_sep (map (json_text lx) ws) @ CHR '']'' # y"
      using h w by simp
    from comma_sep_readable[OF _ text_starts[OF assms] _ this] JArray
    have "vs = ws \<and> x = y" by simp
    then show "JArray vs = w \<and> x = y" using w by simp
  qed
next
  case (JObject fs)
  let ?p = "\<lambda>(k, v). lx_string lx k @ '':'' @ json_text lx v"
  have str: "\<exists>t. lx_string lx s = CHR 0x22 # t" for s
    using assms unfolding json_lexemes_def by blast
  have start: "?p f \<noteq> [] \<and> hd (?p f) \<notin> set '']}''" for f
    using str[of "fst f"] by (cases f) auto
  have fields: "\<forall>f \<in> set fs. readable ?p f"
    using JObject field_readable[OF assms] by (metis prod.collapse snds.intros)
  show ?case unfolding readable_def
  proof (intro allI impI)
    fix w x y assume h: "json_text lx (JObject fs) @ x = json_text lx w @ y"
    obtain gs where w: "w = JObject gs"
      using same_kind[OF assms h] by (cases w) (auto split: if_splits)
    have "comma_sep (map ?p fs) @ CHR ''}'' # x = comma_sep (map ?p gs) @ CHR ''}'' # y"
      using h w by simp
    from comma_sep_readable[OF fields start _ this] have "fs = gs \<and> x = y" by simp
    then show "JObject fs = w \<and> x = y" using w by simp
  qed
next
  case (JNumber n)
  show ?case unfolding readable_def
  proof (intro allI impI)
    fix w x y assume d: "delimited x" "delimited y" and h: "json_text lx (JNumber n) @ x = json_text lx w @ y"
    obtain m where w: "w = JNumber m"
      using same_kind[OF assms h] by (cases w) (auto split: if_splits)
    with number_readable[OF assms d] h show "JNumber n = w \<and> x = y" by auto
  qed
next
  case (JString s)
  show ?case unfolding readable_def
  proof (intro allI impI)
    fix w x y assume h: "json_text lx (JString s) @ x = json_text lx w @ y"
    obtain t where w: "w = JString t"
      using same_kind[OF assms h] by (cases w) (auto split: if_splits)
    moreover have "lx_string lx s @ x = lx_string lx t @ y \<longrightarrow> s = t \<and> x = y"
      using assms unfolding json_lexemes_def by blast
    ultimately show "JString s = w \<and> x = y" using h by simp
  qed
next
  case JNull
  show ?case unfolding readable_def
  proof (intro allI impI)
    fix w x y assume h: "json_text lx JNull @ x = json_text lx w @ y"
    have "w = JNull" using same_kind[OF assms h] by (cases w) (auto split: if_splits)
    with h show "JNull = w \<and> x = y" by simp
  qed
next
  case (JBool b)
  show ?case unfolding readable_def
  proof (intro allI impI)
    fix w x y assume h: "json_text lx (JBool b) @ x = json_text lx w @ y"
    have "w = JBool b" using same_kind[OF assms h] by (cases w) (auto split: if_splits)
    with h show "JBool b = w \<and> x = y" by (auto split: if_splits)
  qed
qed

lemma canonical_inject:
  assumes "json_lexemes lx"
  shows "canonical_json_string lx v = canonical_json_string lx w \<longleftrightarrow> json_norm v = json_norm w"
  using readableD[OF text_readable[OF assms, of "json_norm v"], of "[]" "json_norm w" "[]"]
  by (auto simp: canonical_text delimited_def)


lemma line_inject:
  assumes "d \<notin> set s" "d \<notin> set t"
  shows "s @ d # x = t @ d # y \<longleftrightarrow> s = t \<and> x = y"
proof
  assume eq: "s @ d # x = t @ d # y"
  have "takeWhile (\<lambda>c. c \<noteq> d) (u @ d # z) = u" if "d \<notin> set u" for u z
    using that by (subst takeWhile_append2) auto
  with eq assms have "s = t" by metis
  with eq show "s = t \<and> x = y" by simp
qed simp

lemma preimage_inject:
  assumes "json_lexemes lx"
    and "\<forall>s \<in> {m, r, a, m', r', a'}. CHR 0x0A \<notin> set s"
  shows "request_preimage lx m r a b = request_preimage lx m' r' a' b' \<longleftrightarrow>
     m = m' \<and> r = r' \<and> a = a' \<and> json_norm b = json_norm b'"
proof -
  have "request_preimage lx m r a b =
      as_bytes (m @ CHR 0x0A # r @ CHR 0x0A # a @ CHR 0x0A # canonical_json_string lx b)" for m r a b
    unfolding request_preimage_def as_bytes_append[symmetric] append_Cons append_Nil ..
  note pre = this
  show ?thesis unfolding pre as_bytes_inject using assms by (simp add: line_inject canonical_inject)
qed

text \<open>A concrete way of writing strings and numbers.\<close>

fun escape :: "string \<Rightarrow> string" where
  "escape [] = [CHR 0x22]"
| "escape (c # s) = (if c = CHR 0x22 \<or> c = CHR 0x5C then [CHR 0x5C, c] else [c]) @ escape s"

definition plain_lexemes :: "int lexemes" where
  "plain_lexemes = \<lparr>lx_string = (\<lambda>s. CHR 0x22 # escape s), lx_number = show_int\<rparr>"

lemma escape_inject: "escape s @ x = escape t @ y \<Longrightarrow> s = t \<and> x = y"
proof (induction s arbitrary: t)
  case Nil
  then show ?case by (cases t) (auto split: if_splits)
next
  case (Cons c s)
  then show ?case by (cases t) (auto split: if_splits)
qed

lemma is_digit_number: "is_digit c \<Longrightarrow> number_start c \<and> c \<in> set number_chars"
proof -
  assume "is_digit c"
  then have "of_char c \<in> set [48..<58 :: nat]" 
    unfolding is_digit_def set_upt by simp
  then have "c \<in> set (map char_of [48..<58 :: nat])" by (metis char_of_char image_eqI set_map)
  also have "map char_of [48..<58 :: nat] = ''0123456789''" by code_simp
  finally have "c \<in> set ''0123456789''" .
  moreover have "set ''0123456789'' \<subseteq> set ''0123456789-''" "set ''0123456789'' \<subseteq> set number_chars"
    by (auto simp: number_chars_def)
  ultimately show "number_start c \<and> c \<in> set number_chars" unfolding number_start_def by blast
qed

lemma plain_lexemes_ok: "json_lexemes plain_lexemes"
proof -
  have nat_start: "\<exists>c t. show_nat n = c # t \<and> number_start c" for n
    using show_nat_digits[of n] is_digit_number by (cases "show_nat n") auto
  have nat_chars: "set (show_nat n) \<subseteq> set number_chars" for n
    using show_nat_digits(1)[of n] is_digit_number by (auto simp: list_all_iff)
  have minus: "number_start (CHR ''-'')" "CHR ''-'' \<in> set number_chars"
    by (simp_all add: number_start_def number_chars_def)
  have "\<exists>c t. show_int i = c # t \<and> number_start c" "set (show_int i) \<subseteq> set number_chars" for i
    using nat_start nat_chars minus by (auto simp: show_int_def)
  then show ?thesis
    unfolding json_lexemes_def plain_lexemes_def by (auto simp: inj_def dest: escape_inject)
qed

text \<open>
  C32. Where no two of the hashed texts collide, two requests have the same fingerprint exactly when
  method, route and actor are the same and the bodies are equal up to the order of the fields of
  their objects, at every depth: the canonical text can be read back.
\<close>

theorem fingerprint_exact:
  assumes "json_lexemes lx"
    and "\<forall>s \<in> {m, r, a, m', r', a'}. CHR 0x0A \<notin> set s"
    and "inj_on blake3 {request_preimage lx m r a b, request_preimage lx m' r' a' b'}"
  shows "fingerprint_json_request lx blake3 m r a b = fingerprint_json_request lx blake3 m' r' a' b' \<longleftrightarrow>
     m = m' \<and> r = r' \<and> a = a' \<and> json_norm b = json_norm b'"
  unfolding fingerprint_json_request_def preimage_inject[OF assms(1,2), symmetric]
  using inj_on_eq_iff[OF assms(3)] by simp

theorem fingerprint_exact_witness:
  "let h = (\<lambda>bs. if bs = request_preimage plain_lexemes ''POST'' ''/x'' ''a'' (JNumber 1) then 0 else 1);
       fp = fingerprint_json_request plain_lexemes h ''POST'' ''/x'' ''a''
   in fp (JNumber 1) \<noteq> fp (JNumber 2)"
proof -
  define h :: "byte_seq \<Rightarrow> hash32" where
    "h = (\<lambda>bs. if bs = request_preimage plain_lexemes ''POST'' ''/x'' ''a'' (JNumber 1) then 0 else 1)"
  have "inj_on h {request_preimage plain_lexemes ''POST'' ''/x'' ''a'' (JNumber 1),
      request_preimage plain_lexemes ''POST'' ''/x'' ''a'' (JNumber 2)}"
    by (simp add: h_def inj_on_def)
  from fingerprint_exact[OF plain_lexemes_ok _ this] show ?thesis unfolding h_def Let_def by simp
qed

end
