(* ===== verification/Idempotency.thy ===== *)
theory Idempotency
  imports Operation_Journal Json_Canonical Auth Authz_Policy
begin

section \<open>Idempotent operations\<close>

text \<open>
  \<^verbatim>\<open>ghost-gateway/src/api/operation_context.rs\<close> and \<^verbatim>\<open>idempotency.rs\<close>: the identifiers of a request and
  the protocol that executes a mutation at most once per actor and idempotency key. A connection
  holds the journal, the rest of the database \<open>'d\<close> and, inside a transaction, the state to roll
  back to. The mutation of a handler is an argument and acts on \<open>'d\<close>. What the hash, the JSON
  serializer and the parser do is in \<open>op_env\<close>; identifiers and clock readings are arguments.
\<close>

subsection \<open>Operation contexts\<close>

datatype idempotency_status = Executed | Replayed | StatusInProgress | StatusMismatch

fun as_header_value :: "idempotency_status \<Rightarrow> string" where
  "as_header_value Executed = ''executed''"
| "as_header_value Replayed = ''replayed''"
| "as_header_value StatusInProgress = ''in_progress''"
| "as_header_value StatusMismatch = ''mismatch''"

record operation_context =
  oc_request_id :: string
  oc_operation_id :: "string option"
  oc_idempotency_key :: "string option"
  oc_idempotency_status :: "idempotency_status option"
  oc_is_mutating :: bool
  oc_client_supplied_operation_id :: bool
  oc_client_supplied_idempotency_key :: bool

definition ctx_is_mutating_method :: "string \<Rightarrow> bool" where
  "ctx_is_mutating_method m \<longleftrightarrow> m \<in> {''POST'', ''PUT'', ''PATCH'', ''DELETE''}"

definition ctx_read_header :: "http_request \<Rightarrow> string \<Rightarrow> string option" where
  "ctx_read_header rq name =
     (case rq_header rq name of None \<Rightarrow> None | Some v \<Rightarrow> if v = [] then None else Some v)"

text \<open>The context the middleware attaches; \<open>fresh\<close> and \<open>fresh'\<close> are the generated identifiers.\<close>

definition operation_context_middleware :: "string \<Rightarrow> string \<Rightarrow> http_request \<Rightarrow> operation_context" where
  "operation_context_middleware fresh fresh' rq =
     (let is_mutating = ctx_is_mutating_method (rq_method rq);
          client_operation_id = ctx_read_header rq ''x-ghost-operation-id'';
          client_idempotency_key = ctx_read_header rq ''idempotency-key'';
          operation_id = (case client_operation_id of Some v \<Rightarrow> Some v
                          | None \<Rightarrow> if is_mutating then Some fresh else None);
          idempotency_key = (case client_idempotency_key of Some v \<Rightarrow> Some v
                             | None \<Rightarrow> if is_mutating then operation_id else None);
          request_id = (case ctx_read_header rq ''x-request-id'' of Some v \<Rightarrow> v | None \<Rightarrow> fresh')
      in \<lparr>oc_request_id = request_id, oc_operation_id = operation_id, oc_idempotency_key = idempotency_key,
          oc_idempotency_status = None, oc_is_mutating = is_mutating,
          oc_client_supplied_operation_id = (client_operation_id \<noteq> None),
          oc_client_supplied_idempotency_key = (client_idempotency_key \<noteq> None)\<rparr>)"

record required_operation_context =
  rc_request_id :: string
  rc_operation_id :: string
  rc_idempotency_key :: string

definition require_operation_context :: "operation_context \<Rightarrow> api_error + required_operation_context" where
  "require_operation_context cx =
     (case oc_operation_id cx of
        None \<Rightarrow> Inl (CustomError 428 ''MISSING_OPERATION_ID'' ''Mutating requests must include X-Ghost-Operation-ID'')
      | Some operation_id \<Rightarrow>
     (case oc_idempotency_key cx of
        None \<Rightarrow> Inl (CustomError 428 ''MISSING_IDEMPOTENCY_KEY'' ''Mutating requests must include Idempotency-Key'')
      | Some idempotency_key \<Rightarrow>
          Inr \<lparr>rc_request_id = oc_request_id cx, rc_operation_id = operation_id,
               rc_idempotency_key = idempotency_key\<rparr>))"

text \<open>Every mutating request passes this check: the middleware supplies what the client did not.\<close>

lemma mutating_context_complete:
  assumes "ctx_is_mutating_method (rq_method rq)"
  shows "\<exists>rc. require_operation_context (operation_context_middleware fresh fresh' rq) = Inr rc"
  using assms by (auto simp: require_operation_context_def operation_context_middleware_def Let_def split: option.splits)

subsection \<open>Connections\<close>

record 'd op_conn =
  cn_journal :: journal
  cn_data :: 'd
  cn_saved :: "(journal \<times> 'd) option"

text \<open>\<^verbatim>\<open>BEGIN IMMEDIATE\<close> fails inside a transaction.\<close>

definition begin_immediate :: "'d op_conn \<Rightarrow> 'd op_conn option" where
  "begin_immediate c =
     (case cn_saved c of None \<Rightarrow> Some (c\<lparr>cn_saved := Some (cn_journal c, cn_data c)\<rparr>) | Some _ \<Rightarrow> None)"

definition commit_tx :: "'d op_conn \<Rightarrow> 'd op_conn" where
  "commit_tx c = c\<lparr>cn_saved := None\<rparr>"

definition rollback_tx :: "'d op_conn \<Rightarrow> 'd op_conn" where
  "rollback_tx c =
     (case cn_saved c of None \<Rightarrow> c | Some (j, d) \<Rightarrow> \<lparr>cn_journal = j, cn_data = d, cn_saved = None\<rparr>)"

subsection \<open>Preparing an operation\<close>

record 'n op_env =
  oe_lexemes :: "'n lexemes"
  oe_blake3 :: "byte_seq \<Rightarrow> hash32"
  oe_to_string :: "'n json \<Rightarrow> string"
  oe_from_str :: "string \<Rightarrow> 'n json option"

record 'n stored_json_response =
  sr_status :: nat
  sr_body :: "'n json"

record prepared_operation_lease =
  pl_journal_id :: string
  pl_owner_token :: string
  pl_lease_epoch :: int

datatype 'n prepared_operation =
    Acquired prepared_operation_lease
  | Replay "'n stored_json_response"
  | PreparedInProgress
  | PreparedMismatch

record 'n executed_json_mutation =
  em_status :: nat
  em_body :: "'n json"
  em_idempotency_status :: idempotency_status

definition OPERATION_LEASE_SECONDS :: int where
  "OPERATION_LEASE_SECONDS = 30"

definition lease_expires_at :: "datetime \<Rightarrow> datetime" where
  "lease_expires_at now = now + chrono_secs OPERATION_LEASE_SECONDS"

definition ownership_lost_error :: api_error where
  "ownership_lost_error =
     CustomError 409 ''OPERATION_OWNERSHIP_LOST''
       ''Operation ownership was lost before the mutation could be finalized''"

definition db_error :: "string \<Rightarrow> api_error" where
  "db_error ctx = DatabaseError (ctx @ '': database error'')"

text \<open>\<^verbatim>\<open>raw_status as u16\<close> and \<^verbatim>\<open>StatusCode::from_u16\<close>, which takes 100 to 999.\<close>

definition status_from_u16 :: "int \<Rightarrow> nat option" where
  "status_from_u16 raw = (let s = nat (raw mod 2 ^ 16) in if 100 \<le> s \<and> s < 1000 then Some s else None)"

definition parse_committed_replay :: "'n op_env \<Rightarrow> journal_row \<Rightarrow> api_error + 'n stored_json_response" where
  "parse_committed_replay env r =
     (case jr_response_status_code r of
        None \<Rightarrow> Inl (InternalError ''committed operation_journal row missing response_status_code'')
      | Some raw \<Rightarrow>
     (case status_from_u16 raw of
        None \<Rightarrow> Inl (InternalError ''committed operation_journal row has invalid status code'')
      | Some status \<Rightarrow>
     (case jr_response_body r of
        None \<Rightarrow> Inl (InternalError ''committed operation_journal row missing response_body'')
      | Some raw_body \<Rightarrow>
     (case oe_from_str env raw_body of
        None \<Rightarrow> Inl (InternalError ''committed operation_journal row has invalid response_body'')
      | Some body \<Rightarrow> Inr \<lparr>sr_status = status, sr_body = body\<rparr>))))"

record 'n json_request =
  jq_actor_key :: string
  jq_method :: string
  jq_route_template :: string
  jq_body :: "'n json"

definition request_fingerprint :: "'n op_env \<Rightarrow> 'n json_request \<Rightarrow> hash32" where
  "request_fingerprint env q =
     fingerprint_json_request (oe_lexemes env) (oe_blake3 env) (jq_method q) (jq_route_template q)
       (jq_actor_key q) (jq_body q)"

text \<open>The clock and the two generated identifiers of one call.\<close>

record op_fresh =
  of_now :: datetime
  of_owner_token :: string
  of_journal_id :: string

text \<open>The outcome of one of the two statements that give an existing row a new owner.\<close>

definition reacquired ::
    "string \<Rightarrow> api_error \<Rightarrow> op_fresh \<Rightarrow> journal_row \<Rightarrow> journal \<Rightarrow> journal_error + bool \<times> journal
      \<Rightarrow> (api_error + 'n prepared_operation) \<times> journal" where
  "reacquired what refused fr r j res =
     (case res of
        Inl _ \<Rightarrow> (Inl (db_error what), j)
      | Inr (done, j') \<Rightarrow>
          if \<not> done then (Inl refused, j')
          else (Inr (Acquired \<lparr>pl_journal_id = jr_id r, pl_owner_token = of_owner_token fr,
                               pl_lease_epoch = jr_lease_epoch r + 1\<rparr>), j'))"

definition new_entry :: "'n op_env \<Rightarrow> op_fresh \<Rightarrow> required_operation_context \<Rightarrow> 'n json_request \<Rightarrow> new_journal_entry" where
  "new_entry env fr rc q =
     \<lparr>ne_id = of_journal_id fr, ne_actor_key = jq_actor_key q, ne_method = jq_method q,
      ne_route_template = jq_route_template q, ne_operation_id = rc_operation_id rc,
      ne_request_id = Some (rc_request_id rc), ne_idempotency_key = rc_idempotency_key rc,
      ne_request_fingerprint = request_fingerprint env q,
      ne_request_body = canonical_json_string (oe_lexemes env) (jq_body q),
      ne_created_at = of_now fr, ne_lease_expires_at = lease_expires_at (of_now fr),
      ne_owner_token = of_owner_token fr, ne_lease_epoch = 0\<rparr>"

definition prepare_in_tx ::
    "'n op_env \<Rightarrow> op_fresh \<Rightarrow> required_operation_context \<Rightarrow> 'n json_request \<Rightarrow> journal
      \<Rightarrow> (api_error + 'n prepared_operation) \<times> journal" where
  "prepare_in_tx env fr rc q j =
     (let now = of_now fr in
      case get_by_actor_and_idempotency_key (jq_actor_key q) (rc_idempotency_key rc) j of
        Some r \<Rightarrow>
          if jr_request_fingerprint r \<noteq> request_fingerprint env q then (Inr PreparedMismatch, j)
          else if jr_status r = RowCommitted then
            (case parse_committed_replay env r of Inl e \<Rightarrow> (Inl e, j) | Inr s \<Rightarrow> (Inr (Replay s), j))
          else if jr_status r = RowAborted then
            reacquired ''operation_journal_restart''
              (CustomError 409 ''OPERATION_RESTART_FAILED'' ''Failed to reacquire aborted operation journal entry'')
              fr r j
              (restart_aborted (jr_id r) (rc_operation_id rc) (Some (rc_request_id rc)) (of_owner_token fr)
                 now (lease_expires_at now) j)
          else
            (case jr_lease_expires_at r of
               None \<Rightarrow> (Inl (InternalError ''in-progress operation_journal row missing lease_expires_at''), j)
             | Some t \<Rightarrow>
                 if t \<le> now then
                   reacquired ''operation_journal_takeover''
                     (CustomError 409 ''OPERATION_TAKEOVER_FAILED'' ''Failed to take ownership of expired operation journal entry'')
                     fr r j
                     (take_over_in_progress (jr_id r) (rc_operation_id rc) (Some (rc_request_id rc)) (of_owner_token fr)
                        now (lease_expires_at now) j)
                 else (Inr PreparedInProgress, j))
      | None \<Rightarrow>
          (case insert_in_progress (new_entry env fr rc q) j of
             Inl _ \<Rightarrow> (Inl (db_error ''operation_journal_insert''), j)
           | Inr j' \<Rightarrow>
               (Inr (Acquired \<lparr>pl_journal_id = of_journal_id fr, pl_owner_token = of_owner_token fr,
                               pl_lease_epoch = 0\<rparr>), j')))"

definition prepare_json_operation ::
    "'n op_env \<Rightarrow> op_fresh \<Rightarrow> operation_context \<Rightarrow> 'n json_request \<Rightarrow> 'd op_conn
      \<Rightarrow> (api_error + 'n prepared_operation) \<times> 'd op_conn" where
  "prepare_json_operation env fr cx q c =
     (case require_operation_context cx of
        Inl e \<Rightarrow> (Inl e, c)
      | Inr rc \<Rightarrow>
     (case begin_immediate c of
        None \<Rightarrow> (Inl (db_error ''operation_journal_begin''), c)
      | Some c1 \<Rightarrow>
     (case prepare_in_tx env fr rc q (cn_journal c1) of
        (Inl e, j') \<Rightarrow> (Inl e, rollback_tx (c1\<lparr>cn_journal := j'\<rparr>))
      | (Inr p, j') \<Rightarrow> (Inr p, commit_tx (c1\<lparr>cn_journal := j'\<rparr>)))))"

subsection \<open>Finishing an operation\<close>

definition mark_prepared_json_operation_committed ::
    "'n op_env \<Rightarrow> datetime \<Rightarrow> operation_context \<Rightarrow> prepared_operation_lease \<Rightarrow> nat \<Rightarrow> 'n json \<Rightarrow> journal
      \<Rightarrow> (api_error + 'n executed_json_mutation) \<times> journal" where
  "mark_prepared_json_operation_committed env now cx l status body j =
     (case require_operation_context cx of
        Inl e \<Rightarrow> (Inl e, j)
      | Inr rc \<Rightarrow>
     (case mark_committed (pl_journal_id l) (pl_owner_token l) (pl_lease_epoch l) (Some (rc_request_id rc))
             (int status) (oe_to_string env body) ''application/json'' now j of
        Inl _ \<Rightarrow> (Inl (db_error ''operation_journal_mark_committed''), j)
      | Inr (committed, j') \<Rightarrow>
          if \<not> committed then (Inl ownership_lost_error, j')
          else (Inr \<lparr>em_status = status, em_body = body, em_idempotency_status = Executed\<rparr>, j')))"

definition commit_prepared_json_operation ::
    "'n op_env \<Rightarrow> datetime \<Rightarrow> operation_context \<Rightarrow> prepared_operation_lease \<Rightarrow> nat \<Rightarrow> 'n json \<Rightarrow> 'd op_conn
      \<Rightarrow> (api_error + 'n executed_json_mutation) \<times> 'd op_conn" where
  "commit_prepared_json_operation env now cx l status body c =
     (case begin_immediate c of
        None \<Rightarrow> (Inl (db_error ''operation_commit_begin''), c)
      | Some c1 \<Rightarrow>
     (case mark_prepared_json_operation_committed env now cx l status body (cn_journal c1) of
        (Inl e, j') \<Rightarrow> (Inl e, rollback_tx (c1\<lparr>cn_journal := j'\<rparr>))
      | (Inr m, j') \<Rightarrow> (Inr m, commit_tx (c1\<lparr>cn_journal := j'\<rparr>))))"

definition abort_prepared_json_operation ::
    "datetime \<Rightarrow> operation_context \<Rightarrow> prepared_operation_lease \<Rightarrow> 'd op_conn \<Rightarrow> (api_error + unit) \<times> 'd op_conn" where
  "abort_prepared_json_operation now cx l c =
     (case require_operation_context cx of
        Inl e \<Rightarrow> (Inl e, c)
      | Inr rc \<Rightarrow>
     (case mark_aborted (pl_journal_id l) (pl_owner_token l) (pl_lease_epoch l) (Some (rc_request_id rc)) now
             (cn_journal c) of
        Inl _ \<Rightarrow> (Inl (db_error ''operation_journal_abort''), c)
      | Inr (aborted, j') \<Rightarrow>
          (if \<not> aborted then Inl ownership_lost_error else Inr (), c\<lparr>cn_journal := j'\<rparr>)))"

definition renew_prepared_json_operation_lease ::
    "datetime \<Rightarrow> prepared_operation_lease \<Rightarrow> 'd op_conn \<Rightarrow> (api_error + unit) \<times> 'd op_conn" where
  "renew_prepared_json_operation_lease now l c =
     (case renew_lease (pl_journal_id l) (pl_owner_token l) (pl_lease_epoch l) now (lease_expires_at now)
             (cn_journal c) of
        Inl _ \<Rightarrow> (Inl (db_error ''operation_journal_renew_lease''), c)
      | Inr (renewed, j') \<Rightarrow>
          (if \<not> renewed then Inl ownership_lost_error else Inr (), c\<lparr>cn_journal := j'\<rparr>))"

type_synonym ('n, 'd) mutation = "'d \<Rightarrow> (api_error + nat \<times> 'n json) \<times> 'd"

text \<open>
  The branch of \<^verbatim>\<open>execute_idempotent_json_mutation\<close> that holds a lease. When the commit mark fails
  the error is returned with \<^verbatim>\<open>?\<close>: neither \<^verbatim>\<open>COMMIT\<close> nor \<^verbatim>\<open>ROLLBACK\<close> is executed.
\<close>

definition execute_acquired ::
    "'n op_env \<Rightarrow> datetime \<Rightarrow> operation_context \<Rightarrow> prepared_operation_lease \<Rightarrow> ('n, 'd) mutation \<Rightarrow> 'd op_conn
      \<Rightarrow> (api_error + 'n executed_json_mutation) \<times> 'd op_conn" where
  "execute_acquired env now cx l execute c =
     (case begin_immediate c of
        None \<Rightarrow> (Inl (db_error ''operation_execute_begin''), c)
      | Some c1 \<Rightarrow>
     (case execute (cn_data c1) of
        (Inr (status, body), d') \<Rightarrow>
          (case mark_prepared_json_operation_committed env now cx l status body (cn_journal c1) of
             (Inl e, j') \<Rightarrow> (Inl e, c1\<lparr>cn_data := d', cn_journal := j'\<rparr>)
           | (Inr m, j') \<Rightarrow> (Inr m, commit_tx (c1\<lparr>cn_data := d', cn_journal := j'\<rparr>)))
      | (Inl e, d') \<Rightarrow>
          (Inl e, snd (abort_prepared_json_operation now cx l (rollback_tx (c1\<lparr>cn_data := d'\<rparr>))))))"

definition execute_idempotent_json_mutation ::
    "'n op_env \<Rightarrow> op_fresh \<Rightarrow> datetime \<Rightarrow> operation_context \<Rightarrow> 'n json_request \<Rightarrow> ('n, 'd) mutation \<Rightarrow> 'd op_conn
      \<Rightarrow> (api_error + 'n executed_json_mutation) \<times> 'd op_conn" where
  "execute_idempotent_json_mutation env fr now cx q execute c =
     (case prepare_json_operation env fr cx q c of
        (Inl e, c1) \<Rightarrow> (Inl e, c1)
      | (Inr (Replay s), c1) \<Rightarrow>
          (Inr \<lparr>em_status = sr_status s, em_body = sr_body s, em_idempotency_status = Replayed\<rparr>, c1)
      | (Inr PreparedMismatch, c1) \<Rightarrow>
          (Inl (CustomError 409 ''IDEMPOTENCY_KEY_REUSED''
             ''Idempotency key was reused with a different request payload''), c1)
      | (Inr PreparedInProgress, c1) \<Rightarrow>
          (Inl (CustomError 409 ''IDEMPOTENCY_IN_PROGRESS'' ''An equivalent request is already in progress''), c1)
      | (Inr (Acquired l), c1) \<Rightarrow> execute_acquired env now cx l execute c1)"

text \<open>
  One tick of the renewal task, which ends after a failed renewal and then reports the lease
  as lost when it is stopped.
\<close>

definition heartbeat_tick :: "datetime \<Rightarrow> prepared_operation_lease \<Rightarrow> bool \<times> 'd op_conn \<Rightarrow> bool \<times> 'd op_conn" where
  "heartbeat_tick now l s =
     (case s of (lost, c) \<Rightarrow>
        if lost then s
        else (case renew_prepared_json_operation_lease now l c of
                (Inl _, c') \<Rightarrow> (True, c') | (Inr _, c') \<Rightarrow> (False, c')))"

definition heartbeat_stop :: "bool \<times> 'd op_conn \<Rightarrow> api_error + unit" where
  "heartbeat_stop s = (if fst s then Inl ownership_lost_error else Inr ())"

subsection \<open>Runs of operations\<close>

text \<open>
  The operations of any number of requests on the shared database, in any order. Next to the
  connection a log keeps, for every operation that reported success, the journal row and the
  effect on the data (a commit after the fact has none of its own).
\<close>

datatype ('n, 'd) idem_op =
    OpPrepare op_fresh operation_context "'n json_request"
  | OpExecute datetime operation_context prepared_operation_lease "('n, 'd) mutation"
  | OpCommit datetime operation_context prepared_operation_lease nat "'n json"
  | OpAbort datetime operation_context prepared_operation_lease
  | OpRenew datetime prepared_operation_lease

type_synonym 'd idem_log = "(string \<times> ('d \<Rightarrow> 'd)) list"

fun idem_step :: "'n op_env \<Rightarrow> 'd op_conn \<times> 'd idem_log \<Rightarrow> ('n, 'd) idem_op \<Rightarrow> 'd op_conn \<times> 'd idem_log" where
  "idem_step env (c, lg) (OpPrepare fr cx q) = (snd (prepare_json_operation env fr cx q c), lg)"
| "idem_step env (c, lg) (OpExecute now cx l execute) =
     (case execute_acquired env now cx l execute c of
        (Inl _, c') \<Rightarrow> (c', lg)
      | (Inr _, c') \<Rightarrow> (c', lg @ [(pl_journal_id l, \<lambda>d. snd (execute d))]))"
| "idem_step env (c, lg) (OpCommit now cx l status body) =
     (case commit_prepared_json_operation env now cx l status body c of
        (Inl _, c') \<Rightarrow> (c', lg)
      | (Inr _, c') \<Rightarrow> (c', lg @ [(pl_journal_id l, \<lambda>d. d)]))"
| "idem_step env (c, lg) (OpAbort now cx l) = (snd (abort_prepared_json_operation now cx l c), lg)"
| "idem_step env (c, lg) (OpRenew now l) = (snd (renew_prepared_json_operation_lease now l c), lg)"

definition fresh_conn :: "'d \<Rightarrow> 'd op_conn" where
  "fresh_conn d = \<lparr>cn_journal = bt_new, cn_data = d, cn_saved = None\<rparr>"

text \<open>What other connections see: the state before an open transaction.\<close>

definition visible :: "'d op_conn \<Rightarrow> journal \<times> 'd" where
  "visible c = (case cn_saved c of None \<Rightarrow> (cn_journal c, cn_data c) | Some s \<Rightarrow> s)"

lemma visible_simps [simp]:
  "cn_saved c = None \<Longrightarrow> visible c = (cn_journal c, cn_data c)"
  "cn_saved c = Some s \<Longrightarrow> visible c = s"
  by (simp_all add: visible_def)

lemma reacquired_quiet:
  assumes "reacquired what refused fr r j res = (Inr p, j')" "journal_ok j"
    and "\<And>b k. res = Inr (b, k) \<Longrightarrow> quiet j k"
  shows "quiet j j'"
  using assms by (auto simp: reacquired_def split: sum.splits prod.splits if_splits)

lemma prepare_in_tx_quiet:
  assumes "journal_ok j" "prepare_in_tx env fr rc q j = (Inr p, j')"
  shows "quiet j j'"
  using assms(2) quiet_refl[OF assms(1)]
  by (auto simp: prepare_in_tx_def Let_def
      dest: insert_quiet[OF assms(1)]
      elim!: reacquired_quiet[OF _ assms(1)] take_over_quiet[OF assms(1)] restart_quiet[OF assms(1)]
      split: option.splits sum.splits if_splits)

lemma prepare_cases:
  assumes "journal_ok (fst (visible c))" "prepare_json_operation env fr cx q c = (res, c')"
  obtains (failed) e where "res = Inl e" "c' = c"
  | (prepared) p rc where "res = Inr p" "cn_saved c = None" "cn_saved c' = None" "cn_data c' = cn_data c"
      "require_operation_context cx = Inr rc"
      "prepare_in_tx env fr rc q (cn_journal c) = (Inr p, cn_journal c')" "quiet (cn_journal c) (cn_journal c')"
proof (cases "require_operation_context cx")
  case (Inl e)
  then show ?thesis using assms(2) failed[of e] by (simp add: prepare_json_operation_def)
next
  case (Inr rc)
  show ?thesis
  proof (cases "cn_saved c")
    case (Some s)
    then show ?thesis using assms(2) Inr failed by (auto simp: prepare_json_operation_def begin_immediate_def)
  next
    case None
    obtain r j' where p: "prepare_in_tx env fr rc q (cn_journal c) = (r, j')" by fastforce
    show ?thesis
    proof (cases r)
      case (Inl e)
      have "c' = c" "res = Inl e"
        using assms(2) Inr None p Inl by (auto simp: prepare_json_operation_def begin_immediate_def rollback_tx_def)
      then show ?thesis using failed by blast
    next
      case (Inr r')
      have "quiet (cn_journal c) j'" using prepare_in_tx_quiet p Inr assms(1) None by (metis fst_conv visible_simps(1))
      moreover have "c' = c\<lparr>cn_journal := j'\<rparr>" "res = Inr r'"
        using assms(2) \<open>require_operation_context cx = Inr rc\<close> None p Inr
        by (auto simp: prepare_json_operation_def begin_immediate_def commit_tx_def)
      ultimately show ?thesis
        using prepared[of r' rc] None p Inr \<open>require_operation_context cx = Inr rc\<close> by simp
    qed
  qed
qed

definition committed_by ::
    "'n op_env \<Rightarrow> datetime \<Rightarrow> prepared_operation_lease \<Rightarrow> string \<Rightarrow> nat \<Rightarrow> 'n json \<Rightarrow> journal_row \<Rightarrow> journal_row" where
  "committed_by env now l request_id status body r =
     committed_row (Some request_id) (int status) (oe_to_string env body) ''application/json'' now r"

text \<open>A successful commit: the lease is the current one of its row, which becomes committed.\<close>

definition commits ::
    "'n op_env \<Rightarrow> datetime \<Rightarrow> prepared_operation_lease \<Rightarrow> nat \<Rightarrow> 'n json \<Rightarrow> journal \<Rightarrow> journal \<Rightarrow> bool" where
  "commits env now l status body j j' \<longleftrightarrow>
     (\<exists>r request_id. bt_get j (pl_journal_id l) = Some r \<and> owned_by (pl_owner_token l) (pl_lease_epoch l) r \<and>
        j' = bt_insert (pl_journal_id l) (committed_by env now l request_id status body r) j)
   \<and> journal_ok j' \<and> journal_le j j'
   \<and> committed_ids j' = insert (pl_journal_id l) (committed_ids j) \<and> pl_journal_id l \<notin> committed_ids j"

lemma mark_prepared_cases:
  assumes "journal_ok j" "mark_prepared_json_operation_committed env now cx l status body j = (res, j')"
  obtains (failed) e where "res = Inl e" "j' = j"
  | (marked) "res = Inr \<lparr>em_status = status, em_body = body, em_idempotency_status = Executed\<rparr>"
      "commits env now l status body j j'"
proof (cases "require_operation_context cx")
  case (Inl e)
  then show ?thesis using assms(2) failed by (auto simp: mark_prepared_json_operation_committed_def)
next
  case rc: (Inr rc)
  show ?thesis
  proof (cases "mark_committed (pl_journal_id l) (pl_owner_token l) (pl_lease_epoch l) (Some (rc_request_id rc))
      (int status) (oe_to_string env body) ''application/json'' now j")
    case (Inl e)
    then show ?thesis using assms(2) rc failed by (auto simp: mark_prepared_json_operation_committed_def)
  next
    case (Inr bj)
    obtain b k where bj: "bj = (b, k)" by (cases bj)
    from assms(1) Inr[unfolded bj] show ?thesis
    proof (cases rule: mark_committed_cases)
      case lost
      then show ?thesis using assms(2) rc Inr bj failed by (auto simp: mark_prepared_json_operation_committed_def)
    next
      case (won r)
      have "commits env now l status body j k"
        using won unfolding commits_def committed_by_def by blast
      then show ?thesis using assms(2) rc Inr bj won(1) marked
        by (auto simp: mark_prepared_json_operation_committed_def)
    qed
  qed
qed

lemma commit_cases:
  assumes "journal_ok (fst (visible c))" "commit_prepared_json_operation env now cx l status body c = (res, c')"
  obtains (failed) e where "res = Inl e" "c' = c"
  | (committed) m where "res = Inr m" "cn_saved c = None" "cn_saved c' = None" "cn_data c' = cn_data c"
      "commits env now l status body (cn_journal c) (cn_journal c')"
proof (cases "cn_saved c")
  case (Some s)
  then show ?thesis using assms(2) failed by (auto simp: commit_prepared_json_operation_def begin_immediate_def)
next
  case None
  obtain r j' where m: "mark_prepared_json_operation_committed env now cx l status body (cn_journal c) = (r, j')"
    by fastforce
  have ok: "journal_ok (cn_journal c)" using assms(1) None by simp
  from ok m show ?thesis
  proof (cases rule: mark_prepared_cases)
    case (failed e)
    then show ?thesis using assms(2) None m that(1)
      by (auto simp: commit_prepared_json_operation_def begin_immediate_def rollback_tx_def)
  next
    case marked
    then show ?thesis using assms(2) None m that(2)
      by (auto simp: commit_prepared_json_operation_def begin_immediate_def commit_tx_def)
  qed
qed

lemma abort_quiet:
  assumes "journal_ok (fst (visible c))"
  shows "quiet (fst (visible c)) (fst (visible (snd (abort_prepared_json_operation now cx l c))))
    \<and> snd (visible (snd (abort_prepared_json_operation now cx l c))) = snd (visible c)
    \<and> cn_saved (snd (abort_prepared_json_operation now cx l c)) = cn_saved c"
proof (cases "cn_saved c")
  case None
  then show ?thesis
    using assms quiet_refl[OF assms]
    by (auto simp: abort_prepared_json_operation_def dest: mark_aborted_quiet split: sum.splits prod.splits)
next
  case (Some s)
  then show ?thesis
    using quiet_refl[OF assms] by (auto simp: abort_prepared_json_operation_def split: sum.splits prod.splits)
qed

lemma renew_step_quiet:
  assumes "journal_ok (fst (visible c))"
  shows "quiet (fst (visible c)) (fst (visible (snd (renew_prepared_json_operation_lease now l c))))
    \<and> snd (visible (snd (renew_prepared_json_operation_lease now l c))) = snd (visible c)
    \<and> cn_saved (snd (renew_prepared_json_operation_lease now l c)) = cn_saved c"
proof (cases "cn_saved c")
  case None
  then show ?thesis
    using assms quiet_refl[OF assms]
    by (auto simp: renew_prepared_json_operation_lease_def dest: renew_quiet split: sum.splits prod.splits)
next
  case (Some s)
  then show ?thesis
    using quiet_refl[OF assms] by (auto simp: renew_prepared_json_operation_lease_def split: sum.splits prod.splits)
qed

lemma execute_cases:
  assumes "journal_ok (fst (visible c))" "execute_acquired env now cx l execute c = (res, c')"
  obtains (failed) e where "res = Inl e" "quiet (fst (visible c)) (fst (visible c'))" "snd (visible c') = snd (visible c)"
  | (executed) m status body where "res = Inr m" "cn_saved c = None" "cn_saved c' = None"
      "execute (cn_data c) = (Inr (status, body), cn_data c')"
      "commits env now l status body (cn_journal c) (cn_journal c')"
      "m = \<lparr>em_status = status, em_body = body, em_idempotency_status = Executed\<rparr>"
proof (cases "cn_saved c")
  case (Some s)
  then show ?thesis using assms(2) failed quiet_refl[OF assms(1)] by (auto simp: execute_acquired_def begin_immediate_def)
next
  case None
  have ok: "journal_ok (cn_journal c)" using assms(1) None by simp
  obtain r d' where x: "execute (cn_data c) = (r, d')" by fastforce
  show ?thesis
  proof (cases r)
    case (Inl e)
    have same: "\<lparr>cn_journal = cn_journal c, cn_data = cn_data c, cn_saved = None\<rparr> = c" using None by (cases c) simp
    have "c' = snd (abort_prepared_json_operation now cx l c)" "res = Inl e"
      using assms(2) None x Inl by (auto simp: execute_acquired_def begin_immediate_def rollback_tx_def same)
    then show ?thesis using failed abort_quiet[OF assms(1)] by blast
  next
    case (Inr sb)
    obtain status body where sb: "sb = (status, body)" by (cases sb)
    obtain r2 j' where m: "mark_prepared_json_operation_committed env now cx l status body (cn_journal c) = (r2, j')"
      by fastforce
    from ok m show ?thesis
    proof (cases rule: mark_prepared_cases)
      case (failed e)
      then show ?thesis using assms(2) None x Inr sb m that(1) quiet_refl[OF ok]
        by (auto simp: execute_acquired_def begin_immediate_def)
    next
      case marked
      then show ?thesis using assms(2) None x Inr sb m that(2)
        by (auto simp: execute_acquired_def begin_immediate_def commit_tx_def)
    qed
  qed
qed

subsection \<open>At most one execution per key\<close>

definition idem_inv :: "'d \<Rightarrow> 'd op_conn \<times> 'd idem_log \<Rightarrow> bool" where
  "idem_inv d0 s \<longleftrightarrow> (case s of (c, lg) \<Rightarrow>
     journal_ok (fst (visible c)) \<and> distinct (map fst lg)
   \<and> set (map fst lg) = committed_ids (fst (visible c))
   \<and> snd (visible c) = foldl (\<lambda>d f. f d) d0 (map snd lg))"

lemma idem_inv_quiet:
  assumes "idem_inv d0 (c, lg)" "quiet (fst (visible c)) (fst (visible c'))" "snd (visible c') = snd (visible c)"
  shows "idem_inv d0 (c', lg)"
  using assms by (simp add: idem_inv_def quiet_def)

lemma idem_step_facts:
  assumes "idem_inv d0 (c, lg)" "idem_step env (c, lg) e = (c', lg')"
  shows "idem_inv d0 (c', lg') \<and> journal_le (fst (visible c)) (fst (visible c'))"
proof -
  have ok: "journal_ok (fst (visible c))" using assms(1) by (simp add: idem_inv_def)
  have quiet: ?thesis
    if "quiet (fst (visible c)) (fst (visible c'))" "snd (visible c') = snd (visible c)" "lg' = lg"
    using idem_inv_quiet[OF assms(1)] that by (simp add: quiet_def)
  show ?thesis
  proof (cases e)
    case (OpPrepare fr cx q)
    obtain res where p: "prepare_json_operation env fr cx q c = (res, c')" "lg' = lg"
      using assms(2) OpPrepare by (cases "prepare_json_operation env fr cx q c") auto
    from ok p(1) show ?thesis
    proof (cases rule: prepare_cases)
      case failed
      then show ?thesis using quiet quiet_refl[OF ok] p(2) by simp
    next
      case (prepared p rc)
      then show ?thesis using quiet p(2) by simp
    qed
  next
    case (OpExecute now cx l execute)
    obtain res k where x: "execute_acquired env now cx l execute c = (res, k)" by fastforce
    from ok x show ?thesis
    proof (cases rule: execute_cases)
      case (failed e)
      then have "c' = k" "lg' = lg" using assms(2) OpExecute x by simp_all
      then show ?thesis using quiet failed by simp
    next
      case (executed m status body)
      then have "c' = k" "lg' = lg @ [(pl_journal_id l, \<lambda>d. snd (execute d))]" using assms(2) OpExecute x by simp_all
      then show ?thesis using assms(1) executed by (auto simp: idem_inv_def commits_def)
    qed
  next
    case (OpCommit now cx l status body)
    obtain res k where x: "commit_prepared_json_operation env now cx l status body c = (res, k)" by fastforce
    from ok x show ?thesis
    proof (cases rule: commit_cases)
      case (failed e)
      then have "c' = c" "lg' = lg" using assms(2) OpCommit x by simp_all
      then show ?thesis using assms(1) by simp
    next
      case (committed m)
      then have "c' = k" "lg' = lg @ [(pl_journal_id l, \<lambda>d. d)]" using assms(2) OpCommit x by simp_all
      then show ?thesis using assms(1) committed by (auto simp: idem_inv_def commits_def)
    qed
  next
    case (OpAbort now cx l)
    then show ?thesis using quiet abort_quiet[OF ok] assms(2) by auto
  next
    case (OpRenew now l)
    then show ?thesis using quiet renew_step_quiet[OF ok] assms(2) by auto
  qed
qed

lemma idem_run_facts:
  "idem_inv d0 s \<Longrightarrow> idem_inv d0 (foldl (idem_step env) s es) \<and>
   journal_le (fst (visible (fst s))) (fst (visible (fst (foldl (idem_step env) s es))))"
proof (induction es arbitrary: s)
  case (Cons e es)
  obtain c lg c' lg' where s: "s = (c, lg)" "idem_step env (c, lg) e = (c', lg')" by (metis surj_pair)
  from idem_step_facts[OF Cons.prems[unfolded s(1)] s(2)] Cons.IH[of "(c', lg')"] s
  show ?case by (auto intro: journal_le_trans)
qed simp

lemma idem_inv_fresh: "idem_inv d0 (fresh_conn d0, [])"
  by (simp add: idem_inv_def fresh_conn_def committed_ids_def)

text \<open>
  C12. Whatever operations requests run on the database, in whatever order: every journal row
  reports success at most once, an actor and an idempotency key determine a row, and the
  data others see is the initial data with exactly the reported mutations applied, in the order of
  their commits. Failed, replayed and lost operations leave no trace in the data.
\<close>

theorem executed_at_most_once:
  "let (c, lg) = foldl (idem_step env) (fresh_conn d0, []) es; (j, d) = visible c
   in distinct (map fst lg) \<and> d = foldl (\<lambda>d f. f d) d0 (map snd lg)
    \<and> set (map fst lg) = committed_ids j \<and> journal_ok j"
  using idem_run_facts[OF idem_inv_fresh[of d0], of env es]
  by (auto simp: idem_inv_def split: prod.splits)

subsection \<open>Leases\<close>

text \<open>The row a lease was given for.\<close>

definition leased_row ::
    "'n op_env \<Rightarrow> op_fresh \<Rightarrow> required_operation_context \<Rightarrow> 'n json_request \<Rightarrow> prepared_operation_lease \<Rightarrow> journal_row \<Rightarrow> bool" where
  "leased_row env fr rc q l r \<longleftrightarrow>
     jr_id r = pl_journal_id l \<and> jr_actor_key r = jq_actor_key q \<and> jr_idempotency_key r = rc_idempotency_key rc
   \<and> jr_request_fingerprint r = request_fingerprint env q
   \<and> owned_by (pl_owner_token l) (pl_lease_epoch l) r
   \<and> jr_lease_expires_at r = Some (lease_expires_at (of_now fr))"

lemma reacquired_leased:
  assumes "journal_ok j" "bt_get j (jr_id r) = Some r" "jr_actor_key r = jq_actor_key q"
    "jr_idempotency_key r = rc_idempotency_key rc" "jr_request_fingerprint r = request_fingerprint env q"
    and "reacquired what refused fr r j (update_row (jr_id r) P f j) = (Inr (Acquired l), j')"
    and "row_le r (f r)" "jr_owner_token (f r) = of_owner_token fr" "jr_lease_epoch (f r) = jr_lease_epoch r + 1"
      "jr_status (f r) = RowInProgress" "jr_lease_expires_at (f r) = Some (lease_expires_at (of_now fr))"
  shows "\<exists>r'. bt_get j' (pl_journal_id l) = Some r' \<and> leased_row env fr rc q l r' \<and>
    (bt_get j (pl_journal_id l) = Some r \<and> jr_lease_epoch r < pl_lease_epoch l)"
proof -
  obtain k where k: "update_row (jr_id r) P f j = Inr (True, k)" "j' = k"
    and l: "l = \<lparr>pl_journal_id = jr_id r, pl_owner_token = of_owner_token fr, pl_lease_epoch = jr_lease_epoch r + 1\<rparr>"
    using assms(6) by (auto simp: reacquired_def split: sum.splits prod.splits if_splits)
  from k(1) show ?thesis
  proof (cases rule: update_row_cases)
    case (some s)
    have "s = r" using some(2) assms(2) by simp
    with write_row_ok(2)[OF assms(1) some(4)] have "k = bt_insert (jr_id (f r)) (f r) j" by simp
    moreover have "jr_id (f r) = jr_id r" using assms(7) by (simp add: row_le_def)
    ultimately show ?thesis
      using assms k(2) l by (auto simp: leased_row_def owned_by_def row_le_def)
  qed simp
qed

lemma acquired_leased:
  assumes ok: "journal_ok j" and prep: "prepare_in_tx env fr rc q j = (Inr (Acquired l), j')"
  shows "\<exists>r'. bt_get j' (pl_journal_id l) = Some r' \<and> leased_row env fr rc q l r' \<and>
    (case bt_get j (pl_journal_id l) of None \<Rightarrow> True | Some r \<Rightarrow> jr_lease_epoch r < pl_lease_epoch l)"
proof (cases "get_by_actor_and_idempotency_key (jq_actor_key q) (rc_idempotency_key rc) j")
  case None
  then obtain i: "insert_in_progress (new_entry env fr rc q) j = Inr j'"
    and l: "l = \<lparr>pl_journal_id = of_journal_id fr, pl_owner_token = of_owner_token fr, pl_lease_epoch = 0\<rparr>"
    using prep by (auto simp: prepare_in_tx_def Let_def split: sum.splits)
  from insert_in_progress_ok[OF ok i] l show ?thesis
    by (auto simp: leased_row_def owned_by_def new_entry_def inserted_row_def)
next
  case (Some r)
  then have r: "bt_get j (jr_id r) = Some r" "jr_actor_key r = jq_actor_key q"
    "jr_idempotency_key r = rc_idempotency_key rc" using get_by_key_iff[OF ok] by blast+
  have fp: "jr_request_fingerprint r = request_fingerprint env q" and nc: "jr_status r \<noteq> RowCommitted"
    using prep Some by (auto simp: prepare_in_tx_def Let_def split: if_splits sum.splits)
  show ?thesis
  proof (cases "jr_status r = RowAborted")
    case True
    note step = prep[unfolded prepare_in_tx_def Let_def Some option.case restart_aborted_def]
    from reacquired_leased[OF ok r fp, of _ _ fr] step fp nc True show ?thesis
      by (fastforce simp: row_le_def)
  next
    case False
    obtain t where t: "jr_lease_expires_at r = Some t" "t \<le> of_now fr"
      using prep Some fp nc False by (auto simp: prepare_in_tx_def Let_def split: if_splits option.splits)
    note step = prep[unfolded prepare_in_tx_def Let_def Some option.case take_over_in_progress_def]
    from reacquired_leased[OF ok r fp, of _ _ fr] step fp nc False t show ?thesis
      by (cases "jr_status r") (fastforce simp: row_le_def)+
  qed
qed

text \<open>The connection after a run does not depend on the log.\<close>

definition idem_run :: "'n op_env \<Rightarrow> ('n, 'd) idem_op list \<Rightarrow> 'd op_conn \<Rightarrow> 'd op_conn" where
  "idem_run env es c = fst (foldl (idem_step env) (c, []) es)"

lemma idem_step_log: "fst (idem_step env (c, lg) e) = fst (idem_step env (c, lg') e)"
  by (cases e) (auto split: prod.splits sum.splits)

lemma idem_run_log: "fst (foldl (idem_step env) (c, lg) es) = idem_run env es c"
proof (induction es arbitrary: c lg rule: rev_induct)
  case (snoc e es)
  obtain c1 l1 c2 l2 where r: "foldl (idem_step env) (c, lg) es = (c1, l1)" "foldl (idem_step env) (c, []) es = (c2, l2)"
    by (metis surj_pair)
  then have "c1 = c2" using snoc by (metis fst_conv idem_run_def)
  then show ?case using r idem_step_log[of env c1 l1 e l2] by (simp add: idem_run_def)
qed (simp add: idem_run_def)

text \<open>A connection some run leads to.\<close>

definition idem_reachable :: "'n op_env \<Rightarrow> 'd op_conn \<Rightarrow> bool" where
  "idem_reachable env c \<longleftrightarrow> (\<exists>d0 es. c = idem_run env es (fresh_conn d0))"

lemma reachable_inv:
  assumes "idem_reachable env c"
  obtains d0 lg where "idem_inv d0 (c, lg)"
proof -
  obtain d0 es where c: "c = idem_run env es (fresh_conn d0)" using assms by (auto simp: idem_reachable_def)
  from idem_run_facts[OF idem_inv_fresh[of d0], of env es] that[of d0 "snd (foldl (idem_step env) (fresh_conn d0, []) es)"]
  show thesis using c by (simp add: idem_run_def)
qed

lemma reachable_ok: "idem_reachable env c \<Longrightarrow> journal_ok (fst (visible c))"
  using reachable_inv by (fastforce simp: idem_inv_def)

lemma idem_run_append: "idem_run env (es @ es') c = idem_run env es' (idem_run env es c)"
  by (metis foldl_append idem_run_def idem_run_log prod.collapse)

lemma reachable_run: "idem_reachable env c \<Longrightarrow> idem_reachable env (idem_run env es c)"
  unfolding idem_reachable_def by (metis idem_run_append)

lemma run_le:
  assumes "idem_reachable env c"
  shows "journal_le (fst (visible c)) (fst (visible (idem_run env es c)))"
proof -
  obtain d0 lg where "idem_inv d0 (c, lg)" using reachable_inv[OF assms] .
  from idem_run_facts[OF this, of env es] show ?thesis by (simp add: idem_run_log)
qed

lemma prepare_is_run: "snd (prepare_json_operation env fr cx q c) = idem_run env [OpPrepare fr cx q] c"
  by (simp add: idem_run_def)

lemma execute_is_run: "snd (execute_acquired env now cx l execute c) = idem_run env [OpExecute now cx l execute] c"
  by (auto simp: idem_run_def split: prod.splits sum.splits)

lemma acquired_row:
  assumes "idem_reachable env c" "prepare_json_operation env fr cx q c = (Inr (Acquired l), c')"
    "require_operation_context cx = Inr rc"
  obtains r where "bt_get (fst (visible c')) (pl_journal_id l) = Some r" "leased_row env fr rc q l r"
    "\<And>r0. bt_get (fst (visible c)) (pl_journal_id l) = Some r0 \<Longrightarrow> jr_lease_epoch r0 < pl_lease_epoch l"
    "cn_saved c' = None" "idem_reachable env c'"
proof -
  have ok: "journal_ok (fst (visible c))" using reachable_ok assms(1) by blast
  have reach: "idem_reachable env c'"
    using reachable_run[OF assms(1), of "[OpPrepare fr cx q]"] assms(2) prepare_is_run[of env fr cx q c] by simp
  from ok assms(2) show thesis
  proof (cases rule: prepare_cases)
    case (prepared p rc')
    then have p: "prepare_in_tx env fr rc q (cn_journal c) = (Inr (Acquired l), cn_journal c')" "journal_ok (cn_journal c)"
      using assms(3) ok by simp_all
    from acquired_leased[OF p(2,1)] that[OF _ _ _ prepared(3) reach] prepared(2,3) show thesis
      by (auto split: option.splits)
  qed simp
qed

lemma committed_row_kept:
  assumes "idem_reachable env c" "bt_get (fst (visible c)) i = Some r" "jr_status r = RowCommitted"
  shows "bt_get (fst (visible (idem_run env es c))) i = Some r"
  using run_le[OF assms(1), of es] assms(2,3) unfolding journal_le_def row_le_def by metis

lemma execute_committed:
  assumes "idem_reachable env c" "execute_acquired env now cx l execute c = (Inr m, c')"
    "bt_get (fst (visible c)) (pl_journal_id l) = Some r"
  obtains rid where "bt_get (fst (visible c')) (pl_journal_id l) = Some (committed_by env now l rid (em_status m) (em_body m) r)"
    "idem_reachable env c'"
proof -
  have reach: "idem_reachable env c'"
    using reachable_run[OF assms(1), of "[OpExecute now cx l execute]"] assms(2) execute_is_run[of env now cx l execute c] by simp
  from reachable_ok[OF assms(1)] assms(2) show thesis
  proof (cases rule: execute_cases)
    case (executed m' status body)
    then show thesis using that reach assms(3) by (auto simp: commits_def)
  qed simp
qed

lemma executed_acquires:
  assumes "execute_idempotent_json_mutation env fr now cx q execute c = (Inr m, c')" "em_idempotency_status m = Executed"
  obtains l c1 where "prepare_json_operation env fr cx q c = (Inr (Acquired l), c1)"
    "execute_acquired env now cx l execute c1 = (Inr m, c')"
  using assms
  by (auto simp: execute_idempotent_json_mutation_def split: prod.splits sum.splits prepared_operation.splits)

text \<open>A request whose row is committed.\<close>

lemma committed_lookup:
  assumes "idem_reachable env c" "cn_saved c = None" "bt_get (cn_journal c) i = Some r" "jr_status r = RowCommitted"
    "require_operation_context cx = Inr rc" "jr_idempotency_key r = rc_idempotency_key rc" "jr_actor_key r = jq_actor_key q"
    "parse_committed_replay env r = Inr s"
  shows "prepare_json_operation env fr cx q c =
    (Inr (if jr_request_fingerprint r = request_fingerprint env q then Replay s else PreparedMismatch), c)"
proof -
  have ok: "journal_ok (cn_journal c)" using reachable_ok[OF assms(1)] assms(2) by simp
  then have "jr_id r = i" using assms(3) unfolding journal_ok_def by blast
  with get_by_key_iff[OF ok] assms(3,6,7)
  have "get_by_actor_and_idempotency_key (jq_actor_key q) (rc_idempotency_key rc) (cn_journal c) = Some r" by simp
  then show ?thesis
    using assms(2,4,5,8)
    by (auto simp: prepare_json_operation_def begin_immediate_def prepare_in_tx_def Let_def commit_tx_def)
qed

text \<open>
  Once a mutation was executed and its response reported, then after any operations of any
  requests a repetition of the request with the same idempotency key changes nothing and gets
  the stored status and body, and a different request with that key is refused as a reuse.
\<close>

theorem replay_returns_stored:
  assumes "idem_reachable env c" "require_operation_context cx = Inr rc"
    and "execute_idempotent_json_mutation env fr now cx q execute c = (Inr m, c1)" "em_idempotency_status m = Executed"
    and "cn_saved (idem_run env es c1) = None"
    and "require_operation_context cx2 = Inr rc2" "rc_idempotency_key rc2 = rc_idempotency_key rc"
    and "jq_actor_key q2 = jq_actor_key q"
    and "oe_from_str env (oe_to_string env (em_body m)) = Some (em_body m)" "100 \<le> em_status m" "em_status m < 1000"
  shows "execute_idempotent_json_mutation env fr2 now2 cx2 q2 execute2 (idem_run env es c1) =
    (if request_fingerprint env q2 = request_fingerprint env q then Inr (m\<lparr>em_idempotency_status := Replayed\<rparr>)
     else Inl (CustomError 409 ''IDEMPOTENCY_KEY_REUSED''
            ''Idempotency key was reused with a different request payload''), idem_run env es c1)"
proof -
  obtain l c0 where p: "prepare_json_operation env fr cx q c = (Inr (Acquired l), c0)"
    and x: "execute_acquired env now cx l execute c0 = (Inr m, c1)"
    using executed_acquires[OF assms(3,4)] .
  obtain r where r: "bt_get (fst (visible c0)) (pl_journal_id l) = Some r" "leased_row env fr rc q l r" "idem_reachable env c0"
    using acquired_row[OF assms(1) p assms(2)] .
  obtain rid where k: "bt_get (fst (visible c1)) (pl_journal_id l) = Some (committed_by env now l rid (em_status m) (em_body m) r)"
    "idem_reachable env c1"
    using execute_committed[OF r(3) x r(1)] .
  define k where "k = committed_by env now l rid (em_status m) (em_body m) r"
  have kept: "bt_get (cn_journal (idem_run env es c1)) (pl_journal_id l) = Some k"
    using committed_row_kept[OF k(2,1), of es] assms(5) by (simp add: committed_by_def committed_row_def k_def)
  have "status_from_u16 (int (em_status m)) = Some (em_status m)"
    using assms(10,11) by (simp add: status_from_u16_def)
  then have parse: "parse_committed_replay env k = Inr \<lparr>sr_status = em_status m, sr_body = em_body m\<rparr>"
    using assms(9) by (simp add: parse_committed_replay_def k_def committed_by_def committed_row_def)
  have row: "jr_status k = RowCommitted" "jr_idempotency_key k = rc_idempotency_key rc2" "jr_actor_key k = jq_actor_key q2"
    "jr_request_fingerprint k = request_fingerprint env q"
    using r(2) assms(7,8) by (simp_all add: k_def committed_by_def committed_row_def leased_row_def)
  have "m\<lparr>em_idempotency_status := Replayed\<rparr> =
      \<lparr>em_status = em_status m, em_body = em_body m, em_idempotency_status = Replayed\<rparr>" by simp
  with committed_lookup[OF reachable_run[OF k(2)] assms(5) kept row(1) assms(6) row(2,3) parse, of fr2] row(4)
  show ?thesis by (simp add: execute_idempotent_json_mutation_def)
qed

text \<open>
  When a row has been given to a second owner, the first lease is worth nothing: its epoch is
  smaller, and after any further operations it can neither finish, abort nor renew the operation.
\<close>

theorem stale_lease_rejected:
  assumes "idem_reachable env c"
    and "prepare_json_operation env fr cx q c = (Inr (Acquired l), c1)"
    and "prepare_json_operation env fr2 cx2 q2 (idem_run env es c1) = (Inr (Acquired l2), c2)"
    and "pl_journal_id l2 = pl_journal_id l"
    and "idem_run env es2 c2 = c3" "cn_saved c3 = None"
  shows "pl_lease_epoch l < pl_lease_epoch l2
    \<and> (\<forall>m. fst (execute_acquired env now3 cx3 l execute c3) \<noteq> Inr m)
    \<and> (\<forall>m. fst (commit_prepared_json_operation env now3 cx3 l status body c3) \<noteq> Inr m)
    \<and> fst (abort_prepared_json_operation now3 cx3 l c3) \<noteq> Inr ()
    \<and> fst (renew_prepared_json_operation_lease now3 l c3) \<noteq> Inr ()"
proof -
  obtain rc rc2 where rc: "require_operation_context cx = Inr rc" "require_operation_context cx2 = Inr rc2"
    using assms(2,3) by (cases "require_operation_context cx"; cases "require_operation_context cx2")
      (auto simp: prepare_json_operation_def)
  obtain r where r: "bt_get (fst (visible c1)) (pl_journal_id l) = Some r" "leased_row env fr rc q l r" "idem_reachable env c1"
    using acquired_row[OF assms(1,2) rc(1)] .
  have re: "jr_lease_epoch r = pl_lease_epoch l" using r(2) by (simp add: leased_row_def owned_by_def)
  obtain r1 where r1: "bt_get (fst (visible (idem_run env es c1))) (pl_journal_id l) = Some r1" "jr_lease_epoch r \<le> jr_lease_epoch r1"
    using run_le[OF r(3), of es] r(1) unfolding journal_le_def row_le_def by metis
  obtain r2 where r2: "bt_get (fst (visible c2)) (pl_journal_id l) = Some r2" "leased_row env fr2 rc2 q2 l2 r2"
    "\<And>r0. bt_get (fst (visible (idem_run env es c1))) (pl_journal_id l) = Some r0 \<Longrightarrow> jr_lease_epoch r0 < pl_lease_epoch l2"
    "cn_saved c2 = None" "idem_reachable env c2"
    using acquired_row[OF reachable_run[OF r(3)] assms(3) rc(2)] unfolding assms(4) by blast
  have e2: "jr_lease_epoch r2 = pl_lease_epoch l2" using r2(2) by (simp add: leased_row_def owned_by_def)
  have less: "pl_lease_epoch l < pl_lease_epoch l2" using r2(3)[OF r1(1)] r1(2) re by simp
  obtain r3 where r3: "bt_get (cn_journal c3) (pl_journal_id l) = Some r3" "jr_lease_epoch r2 \<le> jr_lease_epoch r3"
    using run_le[OF r2(5), of es2] r2(1) assms(5,6) unfolding journal_le_def row_le_def by (metis fst_conv visible_simps(1))
  have stale: "\<not> owned_by (pl_owner_token l) (pl_lease_epoch l) r3" using less e2 r3(2) by (simp add: owned_by_def)
  have reach: "idem_reachable env c3" using reachable_run[OF r2(5)] assms(5) by blast
  have nc: "\<not> commits env now3 l st b (cn_journal c3) j" for st b j
    using stale r3(1) by (simp add: commits_def)
  have ex: "fst (execute_acquired env now3 cx3 l execute c3) \<noteq> Inr m" for m
    using execute_cases[OF reachable_ok[OF reach], of env now3 cx3 l execute] nc by (metis Inl_Inr_False prod.collapse)
  have co: "fst (commit_prepared_json_operation env now3 cx3 l status body c3) \<noteq> Inr m" for m
    using commit_cases[OF reachable_ok[OF reach], of env now3 cx3 l status body] nc by (metis Inl_Inr_False prod.collapse)
  show ?thesis
    using less ex co stale r3(1)
    by (auto simp: abort_prepared_json_operation_def renew_prepared_json_operation_lease_def mark_aborted_def
        renew_lease_def update_row_def split: sum.splits)
qed

lemma open_tx_step:
  assumes "cn_saved c = Some s"
  shows "cn_saved (fst (idem_step env (c, lg) e)) = cn_saved c \<and> cn_data (fst (idem_step env (c, lg) e)) = cn_data c"
  using assms by (cases e)
    (auto simp: prepare_json_operation_def execute_acquired_def commit_prepared_json_operation_def begin_immediate_def
      abort_prepared_json_operation_def renew_prepared_json_operation_lease_def split: sum.splits prod.splits)

text \<open>
  When a mutation runs but its lease was lost, the error path leaves the transaction open: from
  then on no operation on that connection can begin, whatever comes, and the mutation is neither
  committed nor rolled back.
\<close>

theorem lost_lease_blocks_connection:
  assumes "cn_saved c = None" "execute (cn_data c) = (Inr (status, body), d')"
    and "require_operation_context cx = Inr rc" "bt_get (cn_journal c) (pl_journal_id l) = Some r"
    and "\<not> owned_by (pl_owner_token l) (pl_lease_epoch l) r"
    and "execute_acquired env now cx l execute c = (res, c1)" "idem_run env es c1 = c2"
  shows "res = Inl ownership_lost_error \<and> visible c2 = (cn_journal c, cn_data c) \<and> cn_data c2 = d'
    \<and> (\<exists>e. fst (prepare_json_operation env fr cx2 q c2) = Inl e)"
proof -
  have c1: "res = Inl ownership_lost_error" "cn_saved c1 = Some (cn_journal c, cn_data c)" "cn_data c1 = d'"
    using assms(1-6)
    by (auto simp: execute_acquired_def begin_immediate_def mark_prepared_json_operation_committed_def
        mark_committed_def update_row_def)
  have "cn_saved (idem_run env es c1) = Some (cn_journal c, cn_data c) \<and> cn_data (idem_run env es c1) = d'"
  proof (induction es rule: rev_induct)
    case (snoc e es)
    then show ?case using open_tx_step[of "idem_run env es c1" _ env "[]" e] unfolding idem_run_append by (simp add: idem_run_def)
  qed (use c1 in \<open>simp add: idem_run_def\<close>)
  then show ?thesis
    using assms(7) c1(1) by (auto simp: prepare_json_operation_def begin_immediate_def split: sum.splits)
qed

subsection \<open>A concrete run\<close>

definition idem_sample_env :: "int op_env" where
  "idem_sample_env = \<lparr>oe_lexemes = plain_lexemes, oe_blake3 = (\<lambda>_. 0), oe_to_string = (\<lambda>_. ''null''),
    oe_from_str = (\<lambda>_. Some JNull)\<rparr>"

definition sample_context :: "string \<Rightarrow> string \<Rightarrow> operation_context" where
  "sample_context rid op = \<lparr>oc_request_id = rid, oc_operation_id = Some op, oc_idempotency_key = Some ''k'',
    oc_idempotency_status = None, oc_is_mutating = True, oc_client_supplied_operation_id = True,
    oc_client_supplied_idempotency_key = True\<rparr>"

definition sample_request :: "int json_request" where
  "sample_request = \<lparr>jq_actor_key = ''a'', jq_method = ''POST'', jq_route_template = ''/x'', jq_body = JNull\<rparr>"

definition sample_fresh :: "datetime \<Rightarrow> string \<Rightarrow> op_fresh" where
  "sample_fresh now owner = \<lparr>of_now = now, of_owner_token = owner, of_journal_id = ''j''\<rparr>"

definition increment :: "(int, nat) mutation" where
  "increment d = (Inr (200, JNull), d + 1)"

lemma reachable_fresh: "idem_reachable env (fresh_conn d)"
  unfolding idem_reachable_def by (rule exI[of _ d], rule exI[of _ "[]"]) (simp add: idem_run_def)

definition sample_executed :: "(api_error + int executed_json_mutation) \<times> nat op_conn" where
  "sample_executed =
     execute_idempotent_json_mutation idem_sample_env (sample_fresh 0 ''o'') 1 (sample_context ''r'' ''p'') sample_request
       increment (fresh_conn 0)"

theorem replay_returns_stored_witness:
  "execute_idempotent_json_mutation idem_sample_env (sample_fresh 5 ''o2'') 6 (sample_context ''r2'' ''p2'') sample_request
     increment (snd sample_executed) =
   (Inr \<lparr>em_status = 200, em_body = JNull, em_idempotency_status = Replayed\<rparr>, snd sample_executed)"
proof -
  define m :: "int executed_json_mutation" where
    "m = \<lparr>em_status = 200, em_body = JNull, em_idempotency_status = Executed\<rparr>"
  have rc: "require_operation_context (sample_context rid op) =
      Inr \<lparr>rc_request_id = rid, rc_operation_id = op, rc_idempotency_key = ''k''\<rparr>" for rid op
    by (simp add: require_operation_context_def sample_context_def)
  have "fst sample_executed = Inr m" unfolding m_def by code_simp
  then have ran: "execute_idempotent_json_mutation idem_sample_env (sample_fresh 0 ''o'') 1 (sample_context ''r'' ''p'')
      sample_request increment (fresh_conn 0) = (Inr m, snd sample_executed)"
    unfolding sample_executed_def by (metis prod.collapse)
  have idle: "cn_saved (idem_run idem_sample_env [] (snd sample_executed)) = None" by code_simp
  have "oe_from_str idem_sample_env (oe_to_string idem_sample_env (em_body m)) = Some (em_body m)"
    by (simp add: idem_sample_env_def m_def)
  from replay_returns_stored[OF reachable_fresh rc ran _ idle rc _ refl this]
  show ?thesis by (simp add: m_def idem_run_def)
qed

text \<open>A second request takes over after the first lease has expired, 30 seconds later.\<close>

definition sample_takeover :: "(api_error + int prepared_operation) \<times> nat op_conn" where
  "sample_takeover =
     prepare_json_operation idem_sample_env (sample_fresh (chrono_secs 31) ''o2'') (sample_context ''r2'' ''p2'') sample_request
       (snd (prepare_json_operation idem_sample_env (sample_fresh 0 ''o'') (sample_context ''r'' ''p'') sample_request (fresh_conn 0)))"

definition sample_lease :: prepared_operation_lease where
  "sample_lease = \<lparr>pl_journal_id = ''j'', pl_owner_token = ''o'', pl_lease_epoch = 0\<rparr>"

lemma sample_prepared:
  "prepare_json_operation idem_sample_env (sample_fresh 0 ''o'') (sample_context ''r'' ''p'') sample_request (fresh_conn 0) =
    (Inr (Acquired sample_lease), idem_run idem_sample_env [OpPrepare (sample_fresh 0 ''o'') (sample_context ''r'' ''p'') sample_request] (fresh_conn 0 :: nat op_conn))"
proof -
  have "fst (prepare_json_operation idem_sample_env (sample_fresh 0 ''o'') (sample_context ''r'' ''p'') sample_request
      (fresh_conn 0 :: nat op_conn)) = Inr (Acquired sample_lease)" by code_simp
  then show ?thesis by (simp add: prod_eq_iff prepare_is_run)
qed

lemma sample_taken_over:
  "sample_takeover = (Inr (Acquired \<lparr>pl_journal_id = ''j'', pl_owner_token = ''o2'', pl_lease_epoch = 1\<rparr>), snd sample_takeover)"
proof -
  have "fst sample_takeover = Inr (Acquired \<lparr>pl_journal_id = ''j'', pl_owner_token = ''o2'', pl_lease_epoch = 1\<rparr>)"
    by code_simp
  then show ?thesis by (metis prod.collapse)
qed

theorem stale_lease_rejected_witness:
  "fst (commit_prepared_json_operation idem_sample_env 7 (sample_context ''r'' ''p'') sample_lease 200 JNull (snd sample_takeover))
     \<noteq> Inr \<lparr>em_status = 200, em_body = JNull, em_idempotency_status = Executed\<rparr>"
proof -
  let ?c1 = "idem_run idem_sample_env [OpPrepare (sample_fresh 0 ''o'') (sample_context ''r'' ''p'') sample_request] (fresh_conn 0 :: nat op_conn)"
  have second: "prepare_json_operation idem_sample_env (sample_fresh (chrono_secs 31) ''o2'') (sample_context ''r2'' ''p2'') sample_request
      (idem_run idem_sample_env [] ?c1) = (Inr (Acquired \<lparr>pl_journal_id = ''j'', pl_owner_token = ''o2'', pl_lease_epoch = 1\<rparr>), snd sample_takeover)"
    using sample_taken_over unfolding sample_takeover_def sample_prepared by (simp add: idem_run_def)
  have run: "idem_run idem_sample_env [] (snd sample_takeover) = snd sample_takeover" by (simp add: idem_run_def)
  have idle: "cn_saved (snd sample_takeover) = None" by code_simp
  from stale_lease_rejected[OF reachable_fresh sample_prepared second _ run idle] show ?thesis
    by (simp add: sample_lease_def)
qed

theorem lost_lease_blocks_connection_witness:
  "fst (execute_acquired idem_sample_env 7 (sample_context ''r'' ''p'') sample_lease increment (snd sample_takeover)) =
     Inl ownership_lost_error
   \<and> (\<exists>e. fst (prepare_json_operation idem_sample_env (sample_fresh 9 ''o3'') (sample_context ''r3'' ''p3'') sample_request
        (snd (execute_acquired idem_sample_env 7 (sample_context ''r'' ''p'') sample_lease increment (snd sample_takeover)))) = Inl e)"
proof -
  let ?c = "snd sample_takeover"
  obtain r where r: "bt_get (cn_journal ?c) (pl_journal_id sample_lease) = Some r" "jr_lease_epoch r = 1"
  proof -
    have "map_option jr_lease_epoch (bt_get (cn_journal ?c) (pl_journal_id sample_lease)) = Some 1" by code_simp
    then show thesis using that by auto
  qed
  have stale: "\<not> owned_by (pl_owner_token sample_lease) (pl_lease_epoch sample_lease) r"
    using r(2) by (simp add: owned_by_def sample_lease_def)
  have idle: "cn_saved ?c = None" by code_simp
  have mut: "increment (cn_data ?c) = (Inr (200, JNull), cn_data ?c + 1)" by (simp add: increment_def)
  have rc: "require_operation_context (sample_context ''r'' ''p'') =
      Inr \<lparr>rc_request_id = ''r'', rc_operation_id = ''p'', rc_idempotency_key = ''k''\<rparr>"
    by (simp add: require_operation_context_def sample_context_def)
  let ?x = "execute_acquired idem_sample_env 7 (sample_context ''r'' ''p'') sample_lease increment ?c"
  have x: "?x = (fst ?x, snd ?x)" by simp
  have run: "idem_run idem_sample_env [] (snd ?x) = snd ?x" by (simp add: idem_run_def)
  from lost_lease_blocks_connection[OF idle mut rc r(1) stale x run] show ?thesis by blast
qed

end
