(* ===== verification/Proposal_Router.thy ===== *)
theory Proposal_Router
  imports Policy Plan_Validator Ordered_Map Float64
begin

section \<open>The proposal router\<close>

text \<open>
  \<^verbatim>\<open>ghost-agent-loop/src/proposal/router.rs\<close> and the decision of \<^verbatim>\<open>runner.rs\<close> that uses it. Of a
  proposal the fields the router reads are kept. Numbers inside JSON values are opaque; reading one
  as an unsigned integer (\<^verbatim>\<open>as_u64\<close>) is an argument. Clock readings are arguments: the monotonic
  clock for cooldowns, the wall clock for timeouts.
\<close>

datatype proposal_operation = GoalChange | ReflectionWrite | MemoryWrite | MemoryDelete

datatype proposal_decision =
  AutoApproved | AutoRejected | HumanReviewRequired | ApprovedWithFlags | TimedOut | Superseded

record 'n proposal =
  pr_id :: uuid
  pr_operation :: proposal_operation
  pr_content :: "'n json"
  pr_session_id :: uuid

record reflection_config =
  rf_max_depth :: u8
  rf_max_per_session :: u32
  rf_cooldown_seconds :: nat

definition reflection_config_default :: reflection_config where
  "reflection_config_default = \<lparr>rf_max_depth = 3, rf_max_per_session = 20, rf_cooldown_seconds = 30\<rparr>"

record cached_score =
  cs_score :: f64
  cs_level :: u8
  cs_cached_at :: instant

record 'n pending_proposal =
  pd_proposal :: "'n proposal"
  pd_decision :: proposal_decision
  pd_created_at :: datetime
  pd_resolved_at :: "datetime option"
  pd_is_partial_run :: bool

record 'n proposal_router =
  pt_score_cache :: "(uuid, cached_score) btree_map"
  pt_score_cache_ttl :: duration
  pt_pending :: "(uuid, 'n pending_proposal) btree_map"
  pt_rejection_records :: "(uuid \<times> 'n json) list"
  pt_proposal_timeout :: duration
  pt_denial_feedback :: "denial_feedback list"
  pt_pending_review_feedback :: "denial_feedback list"
  pt_session_reflection_counts :: "(uuid, u32) btree_map"
  pt_last_reflection_time :: "(uuid, instant) btree_map"

definition proposal_router_new :: "'n proposal_router" where
  "proposal_router_new =
     \<lparr>pt_score_cache = bt_new, pt_score_cache_ttl = from_secs 30, pt_pending = bt_new,
      pt_rejection_records = [], pt_proposal_timeout = from_secs 86400, pt_denial_feedback = [],
      pt_pending_review_feedback = [], pt_session_reflection_counts = bt_new,
      pt_last_reflection_time = bt_new\<rparr>"

definition session_reflection_count :: "'n proposal_router \<Rightarrow> uuid \<Rightarrow> u32" where
  "session_reflection_count rt s = bt_get_or 0 (pt_session_reflection_counts rt) s"

fun json_as_number :: "'n json \<Rightarrow> 'n option" where
  "json_as_number (JNumber n) = Some n"
| "json_as_number _ = None"

text \<open>\<^verbatim>\<open>depth as u8\<close> keeps the low eight bits.\<close>

definition content_depth :: "('n \<Rightarrow> nat option) \<Rightarrow> 'n json \<Rightarrow> nat option" where
  "content_depth as_u64 v = Option.bind (Option.bind (json_get ''depth'' v) json_as_number) as_u64"

definition reflection_precheck ::
    "('n \<Rightarrow> nat option) \<Rightarrow> instant \<Rightarrow> 'n proposal_router \<Rightarrow> 'n proposal \<Rightarrow> reflection_config \<Rightarrow> proposal_decision option" where
  "reflection_precheck as_u64 now rt p cfg =
     (if pr_operation p \<noteq> ReflectionWrite then None
      else if rf_max_per_session cfg \<le> session_reflection_count rt (pr_session_id p) then Some AutoRejected
      else if (case bt_get (pt_last_reflection_time rt) (pr_session_id p) of
                 Some last' \<Rightarrow> elapsed now last' < from_secs (rf_cooldown_seconds cfg) | None \<Rightarrow> False)
      then Some AutoRejected
      else if (case content_depth as_u64 (pr_content p) of
                 Some depth \<Rightarrow> rf_max_depth cfg < (of_nat depth :: u8) | None \<Rightarrow> False)
      then Some AutoRejected
      else None)"

definition mark_superseded :: "datetime \<Rightarrow> uuid \<Rightarrow> 'n proposal_router \<Rightarrow> 'n proposal_router" where
  "mark_superseded now pid rt =
     (case bt_get (pt_pending rt) pid of
        None \<Rightarrow> rt
      | Some old \<Rightarrow>
          if pd_resolved_at old = None
          then rt\<lparr>pt_pending := bt_insert pid (old\<lparr>pd_decision := Superseded, pd_resolved_at := Some now\<rparr>) (pt_pending rt)\<rparr>
          else rt)"

definition is_resubmission :: "'n proposal_router \<Rightarrow> 'n proposal \<Rightarrow> bool" where
  "is_resubmission rt p = list_ex (\<lambda>(_, content). content = pr_content p) (pt_rejection_records rt)"

definition get_cached_score :: "instant \<Rightarrow> 'n proposal_router \<Rightarrow> uuid \<Rightarrow> (f64 \<times> u8) option" where
  "get_cached_score now rt a =
     (case bt_get (pt_score_cache rt) a of
        None \<Rightarrow> None
      | Some c \<Rightarrow> if elapsed now (cs_cached_at c) < pt_score_cache_ttl rt then Some (cs_score c, cs_level c) else None)"

definition cache_score :: "instant \<Rightarrow> uuid \<Rightarrow> f64 \<Rightarrow> u8 \<Rightarrow> 'n proposal_router \<Rightarrow> 'n proposal_router" where
  "cache_score now a score level rt =
     rt\<lparr>pt_score_cache := bt_insert a \<lparr>cs_score = score, cs_level = level, cs_cached_at = now\<rparr> (pt_score_cache rt)\<rparr>"

definition is_final :: "proposal_decision \<Rightarrow> bool" where
  "is_final d \<longleftrightarrow> d \<in> {AutoApproved, AutoRejected, ApprovedWithFlags}"

definition record_decision ::
    "instant \<Rightarrow> datetime \<Rightarrow> 'n proposal \<Rightarrow> proposal_decision \<Rightarrow> bool \<Rightarrow> 'n proposal_router \<Rightarrow> 'n proposal_router" where
  "record_decision now wall p d partial rt =
     (let rt1 = (if d = AutoRejected
                 then rt\<lparr>pt_rejection_records := pt_rejection_records rt @ [(pr_id p, pr_content p)]\<rparr> else rt);
          rt2 = (if d = HumanReviewRequired
                 then rt1\<lparr>pt_pending_review_feedback := pt_pending_review_feedback rt1 @
                        [denial_feedback_new ''Proposal requires human review'' ''human_review_required'']\<rparr> else rt1);
          rt3 = (if pr_operation p = ReflectionWrite \<and> d = AutoApproved
                 then rt2\<lparr>pt_session_reflection_counts :=
                            bt_entry_or (pr_session_id p) 0 (\<lambda>n. n + 1) (pt_session_reflection_counts rt2),
                          pt_last_reflection_time := bt_insert (pr_session_id p) now (pt_last_reflection_time rt2)\<rparr>
                 else rt2)
      in rt3\<lparr>pt_pending := bt_insert (pr_id p)
           \<lparr>pd_proposal = p, pd_decision = d, pd_created_at = wall,
            pd_resolved_at = (if is_final d then Some wall else None), pd_is_partial_run = partial\<rparr> (pt_pending rt3)\<rparr>)"

definition pending_decision :: "'n proposal_router \<Rightarrow> uuid \<Rightarrow> proposal_decision option" where
  "pending_decision rt pid = map_option pd_decision (bt_get (pt_pending rt) pid)"

definition take_denial_feedback :: "'n proposal_router \<Rightarrow> denial_feedback list \<times> 'n proposal_router" where
  "take_denial_feedback rt =
     (pt_denial_feedback rt @ pt_pending_review_feedback rt, rt\<lparr>pt_denial_feedback := []\<rparr>)"

definition add_denial_feedback :: "denial_feedback \<Rightarrow> 'n proposal_router \<Rightarrow> 'n proposal_router" where
  "add_denial_feedback f rt = rt\<lparr>pt_denial_feedback := pt_denial_feedback rt @ [f]\<rparr>"

text \<open>A negative age counts as zero.\<close>

definition resolve_timeouts :: "datetime \<Rightarrow> 'n proposal_router \<Rightarrow> 'n proposal_router" where
  "resolve_timeouts now rt =
     rt\<lparr>pt_pending := bt_map (\<lambda>_ pd.
          if pd_resolved_at pd = None \<and> pt_proposal_timeout rt \<le> nat (now - pd_created_at pd)
          then pd\<lparr>pd_decision := TimedOut, pd_resolved_at := Some now\<rparr> else pd) (pt_pending rt)\<rparr>"

subsection \<open>The runner's decision\<close>

text \<open>
  The loop over the proposals of a response: decide, persist, mirror a supersession, record. What
  the store returns for a proposal (its canonical content and the proposal it supersedes, if it
  was stored) is an argument.
\<close>

definition decide_proposal ::
    "('n \<Rightarrow> nat option) \<Rightarrow> instant \<Rightarrow> u8 \<Rightarrow> 'n proposal_router \<Rightarrow> 'n proposal \<Rightarrow> proposal_decision" where
  "decide_proposal as_u64 now level rt p =
     (if is_resubmission rt p then AutoRejected
      else (case reflection_precheck as_u64 now rt p reflection_config_default of
              Some d \<Rightarrow> d
            | None \<Rightarrow> if level \<le> 1 then AutoApproved else HumanReviewRequired))"

type_synonym 'n persisted = "('n json \<times> uuid option) option"

definition route_proposal ::
    "('n \<Rightarrow> nat option) \<Rightarrow> instant \<Rightarrow> datetime \<Rightarrow> u8 \<Rightarrow> 'n persisted \<Rightarrow> 'n proposal \<Rightarrow> 'n proposal_router
      \<Rightarrow> proposal_decision \<times> 'n proposal_router" where
  "route_proposal as_u64 now wall level stored p rt =
     (let d = decide_proposal as_u64 now level rt p;
          p' = (case stored of Some (content, _) \<Rightarrow> p\<lparr>pr_content := content\<rparr> | None \<Rightarrow> p);
          rt' = (case stored of Some (_, Some old) \<Rightarrow> mark_superseded wall old rt | _ \<Rightarrow> rt)
      in (d, record_decision now wall p' d False rt'))"

subsection \<open>Limits on reflections\<close>

text \<open>
  A run of the router with, per session, the times of the reflections approved so far.
\<close>

datatype 'n router_op =
    RtRoute instant datetime u8 "'n persisted" "'n proposal"
  | RtTimeouts datetime
  | RtCache instant uuid f64 u8
  | RtFeedback denial_feedback
  | RtTake

type_synonym reflection_log = "uuid \<Rightarrow> instant list"

fun router_step ::
    "('n \<Rightarrow> nat option) \<Rightarrow> 'n proposal_router \<times> reflection_log \<Rightarrow> 'n router_op \<Rightarrow> 'n proposal_router \<times> reflection_log" where
  "router_step as_u64 (rt, lg) (RtRoute now wall level stored p) =
     (case route_proposal as_u64 now wall level stored p rt of
        (d, rt') \<Rightarrow>
          (rt', if pr_operation p = ReflectionWrite \<and> d = AutoApproved
                then lg(pr_session_id p := lg (pr_session_id p) @ [now]) else lg))"
| "router_step as_u64 (rt, lg) (RtTimeouts now) = (resolve_timeouts now rt, lg)"
| "router_step as_u64 (rt, lg) (RtCache now a score level) = (cache_score now a score level rt, lg)"
| "router_step as_u64 (rt, lg) (RtFeedback f) = (add_denial_feedback f rt, lg)"
| "router_step as_u64 (rt, lg) RtTake = (snd (take_denial_feedback rt), lg)"

definition cooled_apart :: "instant list \<Rightarrow> bool" where
  "cooled_apart ts \<longleftrightarrow> successively (\<lambda>a b. a + from_secs 30 \<le> b) ts"

definition reflections_logged :: "'n proposal_router \<times> reflection_log \<Rightarrow> bool" where
  "reflections_logged s \<longleftrightarrow> (case s of (rt, lg) \<Rightarrow>
     \<forall>u. length (lg u) \<le> 20 \<and> cooled_apart (lg u)
       \<and> session_reflection_count rt u = of_nat (length (lg u))
       \<and> bt_get (pt_last_reflection_time rt) u = (if lg u = [] then None else Some (last (lg u))))"

lemma record_decision_fields:
  "session_reflection_count (record_decision now wall p d b rt) u =
     (if pr_operation p = ReflectionWrite \<and> d = AutoApproved \<and> u = pr_session_id p
      then session_reflection_count rt u + 1 else session_reflection_count rt u)"
  "bt_get (pt_last_reflection_time (record_decision now wall p d b rt)) u =
     (if pr_operation p = ReflectionWrite \<and> d = AutoApproved \<and> u = pr_session_id p
      then Some now else bt_get (pt_last_reflection_time rt) u)"
  by (simp_all add: record_decision_def Let_def session_reflection_count_def bt_entry_or_def)

lemma mark_superseded_fields [simp]:
  "session_reflection_count (mark_superseded now pid rt) u = session_reflection_count rt u"
  "pt_last_reflection_time (mark_superseded now pid rt) = pt_last_reflection_time rt"
  "pt_rejection_records (mark_superseded now pid rt) = pt_rejection_records rt"
  by (simp_all add: mark_superseded_def session_reflection_count_def split: option.splits)

lemma other_ops_fields [simp]:
  "session_reflection_count (resolve_timeouts wall rt) u = session_reflection_count rt u"
  "pt_last_reflection_time (resolve_timeouts wall rt) = pt_last_reflection_time rt"
  "pt_rejection_records (resolve_timeouts wall rt) = pt_rejection_records rt"
  "session_reflection_count (cache_score now a sc l rt) u = session_reflection_count rt u"
  "pt_last_reflection_time (cache_score now a sc l rt) = pt_last_reflection_time rt"
  "pt_rejection_records (cache_score now a sc l rt) = pt_rejection_records rt"
  "session_reflection_count (add_denial_feedback f rt) u = session_reflection_count rt u"
  "pt_last_reflection_time (add_denial_feedback f rt) = pt_last_reflection_time rt"
  "pt_rejection_records (add_denial_feedback f rt) = pt_rejection_records rt"
  "session_reflection_count (snd (take_denial_feedback rt)) u = session_reflection_count rt u"
  "pt_last_reflection_time (snd (take_denial_feedback rt)) = pt_last_reflection_time rt"
  "pt_rejection_records (snd (take_denial_feedback rt)) = pt_rejection_records rt"
  by (simp_all add: resolve_timeouts_def cache_score_def add_denial_feedback_def take_denial_feedback_def
      session_reflection_count_def)

text \<open>When a reflection is approved.\<close>

lemma reflection_approved:
  assumes "decide_proposal as_u64 now level rt p = AutoApproved" "pr_operation p = ReflectionWrite"
  shows "session_reflection_count rt (pr_session_id p) < 20"
    "case bt_get (pt_last_reflection_time rt) (pr_session_id p) of None \<Rightarrow> True | Some t \<Rightarrow> t + from_secs 30 \<le> now"
  using assms
  by (auto simp: decide_proposal_def reflection_precheck_def reflection_config_default_def elapsed_def from_secs_def
      not_le split: if_splits option.splits)

lemma small_count:
  assumes "n \<le> 20" "(of_nat n :: u32) < 20"
  shows "n < 20"
proof (rule ccontr)
  assume "\<not> n < 20"
  then have "n = 20" using assms(1) by simp
  with assms(2) show False by simp
qed

lemma route_logged:
  assumes "reflections_logged (rt, lg)"
  shows "reflections_logged (router_step as_u64 (rt, lg) (RtRoute now wall level stored p))"
proof -
  let ?d = "decide_proposal as_u64 now level rt p" and ?u = "pr_session_id p"
  obtain q rt1 where route: "route_proposal as_u64 now wall level stored p rt = (?d, record_decision now wall q ?d False rt1)"
    and q: "pr_operation q = pr_operation p" "pr_session_id q = ?u"
    and rt1: "\<And>u. session_reflection_count rt1 u = session_reflection_count rt u"
      "pt_last_reflection_time rt1 = pt_last_reflection_time rt"
    by (auto simp: route_proposal_def Let_def split: option.splits)
  show ?thesis
  proof (cases "pr_operation p = ReflectionWrite \<and> ?d = AutoApproved")
    case True
    have old: "length (lg ?u) \<le> 20" "cooled_apart (lg ?u)" "session_reflection_count rt ?u = of_nat (length (lg ?u))"
      "bt_get (pt_last_reflection_time rt) ?u = (if lg ?u = [] then None else Some (last (lg ?u)))"
      using assms by (simp_all add: reflections_logged_def)
    have few: "length (lg ?u) < 20" using small_count[OF old(1)] reflection_approved(1) True old(3) by metis
    have "cooled_apart (lg ?u @ [now])"
      using old(2,4) reflection_approved(2)[of as_u64 now level rt p] True
      by (auto simp: cooled_apart_def successively_append_iff split: if_splits)
    then show ?thesis
      using assms True few unfolding reflections_logged_def
      by (simp add: route record_decision_fields q rt1)
  next
    case False
    then have "router_step as_u64 (rt, lg) (RtRoute now wall level stored p) = (record_decision now wall q ?d False rt1, lg)"
      by (auto simp: route)
    then show ?thesis using assms False unfolding reflections_logged_def
      by (auto simp: record_decision_fields q rt1)
  qed
qed

lemma router_run_logged:
  "reflections_logged s \<Longrightarrow> reflections_logged (foldl (router_step as_u64) s es)"
proof (induction es arbitrary: s)
  case (Cons e es)
  obtain rt lg where s: "s = (rt, lg)" by (cases s)
  have "reflections_logged (router_step as_u64 (rt, lg) e)"
    using Cons.prems[unfolded s] route_logged[of rt lg]
    by (cases e) (simp_all add: reflections_logged_def del: router_step.simps(1))
  then show ?case using Cons.IH s by simp
qed simp

text \<open>
  However proposals are routed, a session never gets more than twenty reflections approved, and
  two approved reflections of a session are at least thirty seconds apart.
\<close>

theorem reflections_limited:
  "length (snd (foldl (router_step as_u64) (proposal_router_new, \<lambda>_. []) es) u) \<le> 20
   \<and> successively (\<lambda>a b. a + from_secs 30 \<le> b) (snd (foldl (router_step as_u64) (proposal_router_new, \<lambda>_. []) es) u)"
proof -
  have "reflections_logged (proposal_router_new :: 'a proposal_router, \<lambda>_. [])"
    by (simp add: reflections_logged_def proposal_router_new_def session_reflection_count_def cooled_apart_def)
  from router_run_logged[OF this, of as_u64 es] show ?thesis
    by (auto simp: reflections_logged_def cooled_apart_def split: prod.splits)
qed

text \<open>
  A reflection that is not a resubmission is rejected exactly when the session has had its
  twenty, or the last one was less than thirty seconds ago, or the stated depth exceeds three after
  it is cut to eight bits: a depth of 256 counts as zero.
\<close>

theorem reflection_decision_exact:
  assumes "pr_operation p = ReflectionWrite" "\<not> is_resubmission rt p" "level \<le> 1"
  shows "decide_proposal as_u64 now level rt p =
    (if 20 \<le> session_reflection_count rt (pr_session_id p)
        \<or> (\<exists>t. bt_get (pt_last_reflection_time rt) (pr_session_id p) = Some t \<and> elapsed now t < from_secs 30)
        \<or> (\<exists>n. content_depth as_u64 (pr_content p) = Some n \<and> 3 < n mod 256)
     then AutoRejected else AutoApproved)"
proof -
  have "(3 < (of_nat n :: u8)) \<longleftrightarrow> 3 < n mod 256" for n
    by (simp add: word_less_nat_alt unat_of_nat take_bit_eq_mod)
  then show ?thesis
    using assms
    by (auto simp: decide_proposal_def reflection_precheck_def reflection_config_default_def split: option.splits)
qed

theorem reflection_decision_exact_witness:
  "decide_proposal (\<lambda>n. Some n) 0 0 proposal_router_new
     \<lparr>pr_id = 1, pr_operation = ReflectionWrite, pr_content = JObject [(''depth'', JNumber 256)], pr_session_id = 2\<rparr>
   = AutoApproved"
  by (subst reflection_decision_exact)
    (simp_all add: is_resubmission_def proposal_router_new_def session_reflection_count_def content_depth_def)

definition router_run :: "('n \<Rightarrow> nat option) \<Rightarrow> 'n router_op list \<Rightarrow> 'n proposal_router \<Rightarrow> 'n proposal_router" where
  "router_run as_u64 es rt = fst (foldl (router_step as_u64) (rt, \<lambda>_. []) es)"

lemma rejections_kept:
  "set (pt_rejection_records (fst s)) \<subseteq> set (pt_rejection_records (fst (foldl (router_step as_u64) s es)))"
proof (induction es arbitrary: s)
  case (Cons e es)
  have "set (pt_rejection_records (fst s)) \<subseteq> set (pt_rejection_records (fst (router_step as_u64 s e)))"
    by (cases s; cases e)
      (auto simp: route_proposal_def record_decision_def Let_def split: option.splits)
  with Cons.IH[of "router_step as_u64 s e"] show ?case by auto
qed simp

lemma rejection_recorded:
  assumes "decide_proposal as_u64 now level rt p = AutoRejected"
  shows "(pr_id p, case stored of Some (content, _) \<Rightarrow> content | None \<Rightarrow> pr_content p) \<in>
    set (pt_rejection_records (snd (route_proposal as_u64 now wall level stored p rt)))"
  using assms by (auto simp: route_proposal_def record_decision_def Let_def split: option.splits)

text \<open>
  What was rejected stays rejected: after any routing, timeouts, caching and feedback, a proposal
  whose content equals that of a recorded rejection is rejected again.
\<close>

theorem rejected_stays_rejected:
  assumes "route_proposal as_u64 now wall level stored p rt = (AutoRejected, rt')"
    and "pr_content q = (case stored of Some (content, _) \<Rightarrow> content | None \<Rightarrow> pr_content p)"
  shows "decide_proposal as_u64 now' level' (router_run as_u64 es rt') q = AutoRejected"
proof -
  have "decide_proposal as_u64 now level rt p = AutoRejected" using assms(1) by (simp add: route_proposal_def Let_def)
  from rejection_recorded[OF this, of stored wall] have "(pr_id p, pr_content q) \<in> set (pt_rejection_records rt')"
    using assms by simp
  then have "(pr_id p, pr_content q) \<in> set (pt_rejection_records (router_run as_u64 es rt'))"
    using rejections_kept[of "(rt', \<lambda>_. [])" as_u64 es] by (auto simp: router_run_def)
  then show ?thesis by (auto simp: decide_proposal_def is_resubmission_def list_ex_iff)
qed

theorem rejected_stays_rejected_witness:
  "let p = \<lparr>pr_id = 1, pr_operation = ReflectionWrite, pr_content = JObject [(''depth'', JNumber 9)], pr_session_id = 2\<rparr>;
       rt = snd (route_proposal (\<lambda>n. Some n) 0 0 0 None p proposal_router_new)
   in decide_proposal (\<lambda>n. Some n) 90 4 (router_run (\<lambda>n. Some n) [RtTimeouts 5] rt) p = AutoRejected"
proof -
  define p :: "nat proposal" where
    "p = \<lparr>pr_id = 1, pr_operation = ReflectionWrite, pr_content = JObject [(''depth'', JNumber 9)], pr_session_id = 2\<rparr>"
  have "fst (route_proposal (\<lambda>n. Some n) 0 0 0 None p proposal_router_new) = AutoRejected"
    by (simp add: p_def route_proposal_def decide_proposal_def is_resubmission_def reflection_precheck_def
        reflection_config_default_def proposal_router_new_def session_reflection_count_def content_depth_def)
  then have "route_proposal (\<lambda>n. Some n) 0 0 0 None p proposal_router_new =
      (AutoRejected, snd (route_proposal (\<lambda>n. Some n) 0 0 0 None p proposal_router_new))" by (metis prod.collapse)
  from rejected_stays_rejected[OF this, of p 90 4 "[RtTimeouts 5]"] show ?thesis by (simp add: p_def)
qed

text \<open>A decision that is final is not changed by a supersession or a timeout.\<close>

lemma final_decision_kept:
  assumes "bt_get (pt_pending rt) pid = Some pd" "pd_resolved_at pd \<noteq> None"
  shows "pending_decision (mark_superseded wall old rt) pid = Some (pd_decision pd)"
    "pending_decision (resolve_timeouts wall rt) pid = Some (pd_decision pd)"
  using assms by (auto simp: pending_decision_def mark_superseded_def resolve_timeouts_def split: option.splits)

end
