(* ===== verification/Agent_Runner.thy ===== *)
theory Agent_Runner
  imports Proposal_Router Breakers
begin

section \<open>The agent loop\<close>

text \<open>
  \<^verbatim>\<open>ghost-agent-loop/src/runner.rs\<close>: the gates, the steps before the loop, and one turn of the loop
  with its tool calls. The turn runs against an environment that answers every reading: the
  cancellation token, the kill switch and gate as other threads leave them, the clock, the
  provider's completion and the outcome of each tool. One \<open>turn_reading\<close> holds the answers for
  one iteration, so that a turn is a function of a list of readings, whatever they are.

  \<open>run_params\<close> holds what is fixed during a turn and not modelled here: the arithmetic of \<^verbatim>\<open>f64\<close>
  and the price of a call, the output inspector, the extraction of proposals, the proposal store
  and the text of arguments. Messages of errors leave out what is interpolated. A trace records the
  calls of the provider and of tools, the journaled steps and the violations.
\<close>

subsection \<open>Errors and contexts\<close>

datatype run_error =
    AgentPaused
  | AgentQuarantined
  | PlatformKilled
  | CircuitBreakerOpen
  | RecursionDepthExceeded u32 u32
  | DamageThreshold u32 u32
  | SpendingCapExceeded f64 f64
  | RunKillSwitchActive
  | KillGateClosed
  | CooldownActive
  | ConvergenceProtectionDegraded string
  | SessionBoundaryViolation
  | LLMError string bool
  | ToolLoopAborted string bool
  | RunCredentialExfiltration
  | StreamCancelled
  | RunCancelled

datatype authoritative_kill_state = KsClear | KsPause | KsQuarantine | KsKillAll

datatype degraded_convergence_mode = DegradedAllow | DegradedBlock

record run_context =
  rx_agent_id :: uuid
  rx_session_id :: uuid
  rx_channel :: string
  rx_recursion_depth :: u32
  rx_max_recursion_depth :: u32
  rx_total_tokens :: nat
  rx_total_cost :: f64
  rx_tool_call_count :: u32
  rx_proposal_count :: u32
  rx_intervention_level :: u8
  rx_convergence_score :: f64

definition is_recursion_exceeded :: "run_context \<Rightarrow> bool" where
  "is_recursion_exceeded cx \<longleftrightarrow> rx_max_recursion_depth cx \<le> rx_recursion_depth cx"

datatype message_role = RoleSystem | RoleUser | RoleAssistant | RoleTool

record 'n chat_message =
  cm_role :: message_role
  cm_content :: string
  cm_tool_calls :: "'n llm_tool_call list option"
  cm_tool_call_id :: "string option"

record 'n agent_runner =
  ar_circuit_breaker :: circuit_breaker
  ar_damage_counter :: damage_counter
  ar_plan_validator :: plan_validator
  ar_proposal_router :: "'n proposal_router"
  ar_kill_switch :: bool
  ar_convergence_monitor_enabled :: bool
  ar_degraded_convergence_mode :: degraded_convergence_mode
  ar_convergence_state_stale_after :: duration
  ar_max_recursion_depth :: u32
  ar_max_tool_call_count :: u32
  ar_spending_cap :: f64
  ar_daily_spend :: f64
  ar_conversation_history :: "'n chat_message list"
  ar_execution_id :: "string option"
  ar_execution_attempt :: int

definition agent_runner_new :: "'n agent_runner" where
  "agent_runner_new =
     \<lparr>ar_circuit_breaker = circuit_breaker_default, ar_damage_counter = damage_counter_new 5,
      ar_plan_validator = plan_validator_new plan_validator_config_default,
      ar_proposal_router = proposal_router_new, ar_kill_switch = False,
      ar_convergence_monitor_enabled = False, ar_degraded_convergence_mode = DegradedAllow,
      ar_convergence_state_stale_after = from_secs 300, ar_max_recursion_depth = 10,
      ar_max_tool_call_count = 16, ar_spending_cap = Finite 10, ar_daily_spend = Finite 0,
      ar_conversation_history = [], ar_execution_id = None, ar_execution_attempt = 0\<rparr>"

definition set_execution_context :: "string \<Rightarrow> int \<Rightarrow> 'n agent_runner \<Rightarrow> 'n agent_runner" where
  "set_execution_context eid attempt ar = ar\<lparr>ar_execution_id := Some eid, ar_execution_attempt := max attempt 0\<rparr>"

subsection \<open>Gates\<close>

text \<open>
  What the gates read: the last store of another thread to the shared kill flag, if there was one,
  the authority on kill states and the two sources of the distributed gate, each if configured,
  and the clock.
\<close>

record gate_reading =
  gr_kill_store :: "bool option"
  gr_authority :: "authoritative_kill_state option"
  gr_gate_check :: "bool option"
  gr_kill_gate_closed :: "bool option"
  gr_now :: instant

definition observe_kill_switch :: "gate_reading \<Rightarrow> 'n agent_runner \<Rightarrow> 'n agent_runner" where
  "observe_kill_switch g ar = (case gr_kill_store g of None \<Rightarrow> ar | Some b \<Rightarrow> ar\<lparr>ar_kill_switch := b\<rparr>)"

definition check_kill_state :: "gate_reading \<Rightarrow> 'n agent_runner \<Rightarrow> run_error + unit" where
  "check_kill_state g ar =
     (if ar_kill_switch ar then Inl RunKillSwitchActive
      else (case gr_authority g of
              None \<Rightarrow> Inr ()
            | Some KsClear \<Rightarrow> Inr ()
            | Some KsPause \<Rightarrow> Inl AgentPaused
            | Some KsQuarantine \<Rightarrow> Inl AgentQuarantined
            | Some KsKillAll \<Rightarrow> Inl PlatformKilled))"

definition is_distributed_gate_closed :: "gate_reading \<Rightarrow> bool" where
  "is_distributed_gate_closed g =
     (case gr_gate_check g of
        Some c \<Rightarrow> c
      | None \<Rightarrow> (case gr_kill_gate_closed g of Some c \<Rightarrow> c | None \<Rightarrow> False))"

text \<open>The result, the log of the checks and the breaker, which may become half open.\<close>

definition check_gates ::
    "(f64 \<Rightarrow> f64 \<Rightarrow> f64) \<Rightarrow> gate_reading \<Rightarrow> run_context \<Rightarrow> 'n agent_runner
      \<Rightarrow> (run_error + unit) \<times> string list \<times> 'n agent_runner" where
  "check_gates add g cx ar =
     (case allows_call (gr_now g) (ar_circuit_breaker ar) of (allowed, cb) \<Rightarrow>
      let ar1 = (observe_kill_switch g ar)\<lparr>ar_circuit_breaker := cb\<rparr>;
          log0 = [''circuit_breaker'']
      in if \<not> allowed then (Inl CircuitBreakerOpen, log0, ar1)
         else
      let log1 = log0 @ [''recursion_depth'']
      in if is_recursion_exceeded cx
         then (Inl (RecursionDepthExceeded (rx_recursion_depth cx) (rx_max_recursion_depth cx)), log1, ar1)
         else
      let log2 = log1 @ [''damage_counter'']
      in if is_halted (ar_damage_counter ar)
         then (Inl (DamageThreshold (dc_count (ar_damage_counter ar)) (dc_threshold (ar_damage_counter ar))), log2, ar1)
         else
      let log3 = log2 @ [''spending_cap''];
          total_spend = add (ar_daily_spend ar) (rx_total_cost cx)
      in if is_nan total_spend \<or> is_infinite total_spend \<or> f64_gt total_spend (ar_spending_cap ar)
         then (Inl (SpendingCapExceeded total_spend (ar_spending_cap ar)), log3, ar1)
         else
      let log4 = log3 @ [''kill_switch'']
      in (case check_kill_state g ar1 of
            Inl e \<Rightarrow> (Inl e, log4, ar1)
          | Inr _ \<Rightarrow>
              let log5 = log4 @ [''kill_gate'']
              in if is_distributed_gate_closed g then (Inl KillGateClosed, log5, ar1)
                 else (Inr (), log5, ar1)))"

definition gate_names :: "string list" where
  "gate_names = [''circuit_breaker'', ''recursion_depth'', ''damage_counter'', ''spending_cap'', ''kill_switch'', ''kill_gate'']"

subsection \<open>Before the loop\<close>

datatype convergence_health_state = HealthDisabled | HealthHealthy | HealthMissing | HealthStale | HealthCorrupted

record convergence_state_health =
  ch_status :: convergence_health_state
  ch_level :: "u8 option"
  ch_score :: "f64 option"
  ch_cooldown_until :: "datetime option"
  ch_age_seconds :: "nat option"

definition unhealthy :: "convergence_health_state \<Rightarrow> convergence_state_health" where
  "unhealthy st = \<lparr>ch_status = st, ch_level = None, ch_score = None, ch_cooldown_until = None, ch_age_seconds = None\<rparr>"

record shared_state_ref =
  sh_level :: u8
  sh_score :: f64
  sh_cooldown_until :: "datetime option"

text \<open>The state file: whether the home directory is known, the file is there, readable and parses, and its age.\<close>

datatype state_file =
    NoHome
  | FileNotFound
  | FileUnreadable
  | FileInvalid
  | FileState shared_state_ref "nat option"

definition inspect_convergence_shared_state :: "state_file \<Rightarrow> bool \<Rightarrow> duration \<Rightarrow> convergence_state_health" where
  "inspect_convergence_shared_state file monitor_enabled stale_after =
     (if file = NoHome then unhealthy (if monitor_enabled then HealthCorrupted else HealthDisabled)
      else if \<not> monitor_enabled then unhealthy HealthDisabled
      else (case file of
              FileNotFound \<Rightarrow> unhealthy HealthMissing
            | FileState st age \<Rightarrow>
                \<lparr>ch_status = (if (case age of Some a \<Rightarrow> stale_after div 1000000000 < a | None \<Rightarrow> False)
                              then HealthStale else HealthHealthy),
                 ch_level = Some (sh_level st), ch_score = Some (sh_score st),
                 ch_cooldown_until = sh_cooldown_until st, ch_age_seconds = age\<rparr>
            | _ \<Rightarrow> unhealthy HealthCorrupted))"

fun status_label :: "convergence_health_state \<Rightarrow> string" where
  "status_label HealthDisabled = ''disabled''"
| "status_label HealthHealthy = ''healthy''"
| "status_label HealthMissing = ''missing''"
| "status_label HealthStale = ''stale''"
| "status_label HealthCorrupted = ''corrupted''"

definition handle_degraded_convergence_health :: "degraded_convergence_mode \<Rightarrow> convergence_state_health \<Rightarrow> run_error + unit" where
  "handle_degraded_convergence_health mode h =
     (if ch_status h \<in> {HealthHealthy, HealthDisabled} then Inr ()
      else if mode = DegradedBlock then Inl (ConvergenceProtectionDegraded (status_label (ch_status h)))
      else Inr ())"

text \<open>The gates and the construction of the context; the emission of events is left out.\<close>

definition pre_loop ::
    "gate_reading \<Rightarrow> state_file \<Rightarrow> datetime \<Rightarrow> uuid \<Rightarrow> uuid \<Rightarrow> string \<Rightarrow> 'n agent_runner
      \<Rightarrow> (run_error + run_context) \<times> 'n agent_runner" where
  "pre_loop g file now agent_id session_id channel ar0 =
     (let ar = observe_kill_switch g ar0 in
      case check_kill_state g ar of
        Inl e \<Rightarrow> (Inl e, ar)
      | Inr _ \<Rightarrow>
          if is_distributed_gate_closed g then (Inl KillGateClosed, ar)
          else if f64_ge (ar_daily_spend ar) (ar_spending_cap ar)
          then (Inl (SpendingCapExceeded (ar_daily_spend ar) (ar_spending_cap ar)), ar)
          else
            (let h = inspect_convergence_shared_state file (ar_convergence_monitor_enabled ar)
                       (ar_convergence_state_stale_after ar)
             in case handle_degraded_convergence_health (ar_degraded_convergence_mode ar) h of
                  Inl e \<Rightarrow> (Inl e, ar)
                | Inr _ \<Rightarrow>
                    if (case ch_cooldown_until h of Some t \<Rightarrow> now < t | None \<Rightarrow> False) then (Inl CooldownActive, ar)
                    else
                      (let known = (ch_status h \<in> {HealthHealthy, HealthStale})
                       in (Inr \<lparr>rx_agent_id = agent_id, rx_session_id = session_id, rx_channel = channel,
                                rx_recursion_depth = 0, rx_max_recursion_depth = ar_max_recursion_depth ar,
                                rx_total_tokens = 0, rx_total_cost = Finite 0, rx_tool_call_count = 0,
                                rx_proposal_count = 0,
                                rx_intervention_level = (if known then (case ch_level h of Some l \<Rightarrow> l | None \<Rightarrow> 0) else 0),
                                rx_convergence_score = (if known then (case ch_score h of Some s \<Rightarrow> s | None \<Rightarrow> Finite 0) else Finite 0)\<rparr>,
                           ar\<lparr>ar_damage_counter := damage_reset (ar_damage_counter ar)\<rparr>))))"

subsection \<open>The state of a turn\<close>

datatype inspection_result = InspectClean | InspectWarning string string | InspectKillAll string

record 'n run_params =
  rp_add :: "f64 \<Rightarrow> f64 \<Rightarrow> f64"
  rp_price :: "nat \<Rightarrow> nat \<Rightarrow> f64"
  rp_scan :: "string \<Rightarrow> inspection_result"
  rp_extract :: "string \<Rightarrow> 'n proposal list"
  rp_stored :: "'n proposal \<Rightarrow> proposal_decision \<Rightarrow> 'n persisted"
  rp_args_text :: "'n json \<Rightarrow> string"
  rp_as_u64 :: "'n \<Rightarrow> nat option"

record llm_usage =
  us_total_tokens :: nat
  us_prompt_tokens :: nat
  us_completion_tokens :: nat

datatype 'n llm_response =
    RespEmpty
  | RespText string
  | RespToolCalls "'n llm_tool_call list"
  | RespMixed string "'n llm_tool_call list"

datatype 'n completion_reading =
    CompletionCancelled
  | CompletionError string
  | CompletionOk llm_usage "'n llm_response"

datatype tool_outcome = ToolCancelled | ToolFailed string | ToolDone string

record tool_reading =
  tr_cancelled :: bool
  tr_outcome :: tool_outcome

record 'n turn_reading =
  tn_cancelled :: bool
  tn_gates :: gate_reading
  tn_completion :: "'n completion_reading"
  tn_failed_at :: instant
  tn_routed_at :: instant
  tn_wall :: datetime
  tn_tools :: "nat \<Rightarrow> tool_reading"

record run_result =
  rr_output :: "string option"
  rr_tool_calls_made :: u32
  rr_proposals_extracted :: u32
  rr_total_tokens :: nat
  rr_total_cost :: f64
  rr_halted_by :: "run_error option"

datatype run_event =
    EvLlmCall
  | EvCost f64
  | EvTool string string
  | EvToolFailed string
  | EvStepStarted u32
  | EvStepFinished u32 string
  | EvViolation string string string

record 'n turn_state =
  ts_runner :: "'n agent_runner"
  ts_ctx :: run_context
  ts_result :: run_result
  ts_conversation :: "'n chat_message list"
  ts_consecutive :: u32
  ts_failed :: "(string, u32) btree_map"
  ts_trace :: "run_event list"

definition emit :: "run_event list \<Rightarrow> 'n turn_state \<Rightarrow> 'n turn_state" where
  "emit evs st = st\<lparr>ts_trace := ts_trace st @ evs\<rparr>"

definition say :: "'n chat_message \<Rightarrow> 'n turn_state \<Rightarrow> 'n turn_state" where
  "say msg st = st\<lparr>ts_conversation := ts_conversation st @ [msg]\<rparr>"

definition tool_message :: "string \<Rightarrow> 'n llm_tool_call \<Rightarrow> 'n chat_message" where
  "tool_message content call =
     \<lparr>cm_role = RoleTool, cm_content = content, cm_tool_calls = None, cm_tool_call_id = Some (tc_id call)\<rparr>"

definition partial_output :: "'n turn_state \<Rightarrow> bool" where
  "partial_output st \<longleftrightarrow> rr_output (ts_result st) \<noteq> None"

subsection \<open>One tool call\<close>

definition MAX_CONSECUTIVE_TOOL_FAILURES :: u32 where
  "MAX_CONSECUTIVE_TOOL_FAILURES = 3"

definition MAX_FAILED_DUPLICATE_TOOL_CALL_ATTEMPTS_PER_TURN :: u32 where
  "MAX_FAILED_DUPLICATE_TOOL_CALL_ATTEMPTS_PER_TURN = 2"

definition note_consecutive_tool_failure :: "'n turn_state \<Rightarrow> (run_error + unit) \<times> 'n turn_state" where
  "note_consecutive_tool_failure st =
     (let st' = st\<lparr>ts_consecutive := ts_consecutive st + 1\<rparr>
      in if MAX_CONSECUTIVE_TOOL_FAILURES \<le> ts_consecutive st'
         then (Inl (LLMError ''Repeated tool failures prevented completion'' (partial_output st)), st')
         else (Inr (), st'))"

definition note_tool_call_attempt :: "'n turn_state \<Rightarrow> (run_error + unit) \<times> 'n turn_state" where
  "note_tool_call_attempt st =
     (if ar_max_tool_call_count (ts_runner st) \<le> rx_tool_call_count (ts_ctx st)
      then (Inl (ToolLoopAborted ''Tool call limit reached for this turn'' (partial_output st)), st)
      else (Inr (), st\<lparr>ts_ctx := (ts_ctx st)\<lparr>rx_tool_call_count := rx_tool_call_count (ts_ctx st) + 1\<rparr>\<rparr>))"

definition tool_call_signature :: "'n run_params \<Rightarrow> 'n llm_tool_call \<Rightarrow> string" where
  "tool_call_signature P call = tc_name call @ ''::'' @ rp_args_text P (tc_arguments call)"

definition record_failed_tool_call :: "string \<Rightarrow> 'n turn_state \<Rightarrow> 'n turn_state" where
  "record_failed_tool_call sig st =
     (if bt_contains (ts_failed st) sig then st else st\<lparr>ts_failed := bt_insert sig 1 (ts_failed st)\<rparr>)"

definition clear_failed_tool_call :: "string \<Rightarrow> 'n turn_state \<Rightarrow> 'n turn_state" where
  "clear_failed_tool_call sig st = st\<lparr>ts_failed := bt_remove sig (ts_failed st)\<rparr>"

definition maybe_suppress_duplicate_failed_tool_call ::
    "string \<Rightarrow> 'n turn_state \<Rightarrow> (run_error + string option) \<times> 'n turn_state" where
  "maybe_suppress_duplicate_failed_tool_call sig st =
     (case bt_get (ts_failed st) sig of
        None \<Rightarrow> (Inr None, st)
      | Some n \<Rightarrow>
          (let st' = st\<lparr>ts_failed := bt_insert sig (n + 1) (ts_failed st)\<rparr>
           in if MAX_FAILED_DUPLICATE_TOOL_CALL_ATTEMPTS_PER_TURN < n + 1
              then (Inl (ToolLoopAborted ''Repeated identical failing tool call prevented completion'' (partial_output st)), st')
              else (Inr (Some ''ERROR: Duplicate failing tool call suppressed''), st')))"

definition tool_reliability_class :: "string \<Rightarrow> string" where
  "tool_reliability_class name =
     (if name \<in> {''read_file'', ''list_dir'', ''read_memories'', ''web_fetch'', ''web_search''} then ''replay_safe''
      else if name = ''write_file'' then ''journaled_side_effecting''
      else ''unsupported_exact_once'')"

text \<open>The execution steps are journaled when the execution has an identifier.\<close>

definition journal_step :: "run_event \<Rightarrow> 'n turn_state \<Rightarrow> 'n turn_state" where
  "journal_step ev st = (if ar_execution_id (ts_runner st) = None then st else emit [ev] st)"

definition reject_unsupported_exact_once_tool ::
    "u32 \<Rightarrow> 'n llm_tool_call \<Rightarrow> 'n turn_state \<Rightarrow> (run_error + unit) \<times> 'n turn_state" where
  "reject_unsupported_exact_once_tool step_seq call st =
     (if ar_execution_id (ts_runner st) = None \<or> ar_execution_attempt (ts_runner st) \<le> 1 \<or>
         tool_reliability_class (tc_name call) \<noteq> ''unsupported_exact_once''
      then (Inr (), st)
      else (Inl (ToolLoopAborted ''Tool is unsupported for durable exactly-once execution'' (partial_output st)),
            journal_step (EvStepFinished step_seq ''failed'') (journal_step (EvStepStarted step_seq) st)))"

definition finish_tool_ok :: "u32 \<Rightarrow> string \<Rightarrow> 'n llm_tool_call \<Rightarrow> string \<Rightarrow> 'n turn_state \<Rightarrow> 'n turn_state" where
  "finish_tool_ok step_seq sig call output st =
     (let st1 = clear_failed_tool_call sig ((journal_step (EvStepFinished step_seq ''committed'') st)\<lparr>ts_consecutive := 0\<rparr>);
          st2 = st1\<lparr>ts_result := (ts_result st1)\<lparr>rr_tool_calls_made := rr_tool_calls_made (ts_result st1) + 1\<rparr>\<rparr>;
          st3 = (if tc_name call = ''write_file'' \<or> tc_name call = ''shell''
                 then st2\<lparr>ts_runner := (ts_runner st2)\<lparr>ar_damage_counter := damage_increment (ar_damage_counter (ts_runner st2))\<rparr>\<rparr>
                 else st2)
      in say (tool_message output call) st3)"

definition finish_tool_failed ::
    "u32 \<Rightarrow> string \<Rightarrow> 'n llm_tool_call \<Rightarrow> string \<Rightarrow> 'n turn_state \<Rightarrow> (run_error + unit) \<times> 'n turn_state" where
  "finish_tool_failed step_seq sig call err st =
     note_consecutive_tool_failure
       (say (tool_message (''ERROR: '' @ err) call)
         (record_failed_tool_call sig (emit [EvToolFailed sig] (journal_step (EvStepFinished step_seq ''failed'') st))))"

definition process_call ::
    "'n run_params \<Rightarrow> tool_reading \<Rightarrow> 'n llm_tool_call \<Rightarrow> 'n turn_state \<Rightarrow> (run_error + unit) \<times> 'n turn_state" where
  "process_call P rd call st =
     (if tr_cancelled rd then (Inl RunCancelled, st)
      else (case note_tool_call_attempt st of
        (Inl e, st1) \<Rightarrow> (Inl e, st1)
      | (Inr _, st1) \<Rightarrow>
          (let sig = tool_call_signature P call; step_seq = rx_tool_call_count (ts_ctx st1)
           in case maybe_suppress_duplicate_failed_tool_call sig st1 of
                (Inl e, st2) \<Rightarrow> (Inl e, st2)
              | (Inr (Some output), st2) \<Rightarrow> note_consecutive_tool_failure (say (tool_message output call) st2)
              | (Inr None, st2) \<Rightarrow>
                  (case reject_unsupported_exact_once_tool step_seq call st2 of
                     (Inl e, st3) \<Rightarrow> (Inl e, st3)
                   | (Inr _, st3) \<Rightarrow>
                       (let st4 = emit [EvTool sig (tc_name call)] (journal_step (EvStepStarted step_seq) st3)
                        in case tr_outcome rd of
                             ToolCancelled \<Rightarrow> (Inl RunCancelled, st4)
                           | ToolDone output \<Rightarrow> (Inr (), finish_tool_ok step_seq sig call output st4)
                           | ToolFailed err \<Rightarrow> finish_tool_failed step_seq sig call err st4)))))"

fun process_calls ::
    "'n run_params \<Rightarrow> (nat \<Rightarrow> tool_reading) \<Rightarrow> nat \<Rightarrow> 'n llm_tool_call list \<Rightarrow> 'n turn_state
      \<Rightarrow> (run_error + unit) \<times> 'n turn_state" where
  "process_calls P rds i [] st = (Inr (), st)"
| "process_calls P rds i (c # cs) st =
     (case process_call P (rds i) c st of
        (Inl e, st') \<Rightarrow> (Inl e, st')
      | (Inr _, st') \<Rightarrow> process_calls P rds (Suc i) cs st')"

subsection \<open>Responses\<close>

definition route_one :: "'n run_params \<Rightarrow> 'n turn_reading \<Rightarrow> 'n turn_state \<Rightarrow> 'n proposal \<Rightarrow> 'n turn_state" where
  "route_one P rd st p =
     (let ar = ts_runner st; level = rx_intervention_level (ts_ctx st);
          d = decide_proposal (rp_as_u64 P) (tn_routed_at rd) level (ar_proposal_router ar) p;
          rt' = snd (route_proposal (rp_as_u64 P) (tn_routed_at rd) (tn_wall rd) level (rp_stored P p d) p
                       (ar_proposal_router ar))
      in st\<lparr>ts_runner := ar\<lparr>ar_proposal_router := rt'\<rparr>\<rparr>)"

definition route_proposals :: "'n run_params \<Rightarrow> 'n turn_reading \<Rightarrow> string \<Rightarrow> 'n turn_state \<Rightarrow> 'n turn_state" where
  "route_proposals P rd text st =
     (let ps = rp_extract P text; n = (of_nat (length ps) :: u32);
          st1 = st\<lparr>ts_result := (ts_result st)\<lparr>rr_proposals_extracted := rr_proposals_extracted (ts_result st) + n\<rparr>,
                   ts_ctx := (ts_ctx st)\<lparr>rx_proposal_count := rx_proposal_count (ts_ctx st) + n\<rparr>\<rparr>
      in foldl (route_one P rd) st1 ps)"

definition total_result :: "'n turn_state \<Rightarrow> run_result" where
  "total_result st =
     (ts_result st)\<lparr>rr_total_tokens := rx_total_tokens (ts_ctx st), rr_total_cost := rx_total_cost (ts_ctx st)\<rparr>"

definition exfiltrated :: "string \<Rightarrow> 'n turn_state \<Rightarrow> 'n turn_state" where
  "exfiltrated pattern st =
     emit [EvViolation ''credential_exfiltration'' pattern ''kill_all'']
       (st\<lparr>ts_runner := (ts_runner st)\<lparr>ar_kill_switch := True\<rparr>\<rparr>)"

definition next_round :: "'n turn_state \<Rightarrow> 'n turn_state" where
  "next_round st = st\<lparr>ts_ctx := (ts_ctx st)\<lparr>rx_recursion_depth := rx_recursion_depth (ts_ctx st) + 1\<rparr>\<rparr>"

text \<open>The tool calls of a response, with the text that goes into the conversation beside them.\<close>

definition handle_tool_calls ::
    "'n run_params \<Rightarrow> 'n turn_reading \<Rightarrow> string \<Rightarrow> 'n llm_tool_call list \<Rightarrow> 'n turn_state
      \<Rightarrow> (run_error + unit) \<times> 'n turn_state" where
  "handle_tool_calls P rd content calls st =
     (let assistant = \<lparr>cm_role = RoleAssistant, cm_content = content, cm_tool_calls = Some calls, cm_tool_call_id = None\<rparr>
      in case plan_validate (ar_plan_validator (ts_runner st)) calls of
           PlanDeny reason \<Rightarrow>
             (let st1 = st\<lparr>ts_runner := (ts_runner st)\<lparr>ar_plan_validator :=
                          pv_record_denial (tc_name (hd calls)) (ar_plan_validator (ts_runner st))\<rparr>\<rparr>;
                  st2 = foldl (\<lambda>st call. say (tool_message (''ERROR: Tool plan denied'' @ reason) call) st)
                          (say assistant st1) calls
              in case note_consecutive_tool_failure st2 of
                   (Inl e, st3) \<Rightarrow> (Inl e, st3)
                 | (Inr _, st3) \<Rightarrow> (Inr (), next_round st3))
         | _ \<Rightarrow>
             (case process_calls P (tn_tools rd) 0 calls (say assistant st) of
                (Inl e, st1) \<Rightarrow> (Inl e, st1)
              | (Inr _, st1) \<Rightarrow> (Inr (), next_round st1)))"

datatype 'n step_outcome = Continue "'n turn_state" | Finished "run_error + run_result" "'n turn_state"

definition after_calls :: "(run_error + unit) \<times> 'n turn_state \<Rightarrow> 'n step_outcome" where
  "after_calls r = (case r of (Inl e, st) \<Rightarrow> Finished (Inl e) st | (Inr _, st) \<Rightarrow> Continue st)"

definition handle_text :: "'n run_params \<Rightarrow> 'n turn_reading \<Rightarrow> string \<Rightarrow> 'n turn_state \<Rightarrow> 'n step_outcome" where
  "handle_text P rd text st =
     (case rp_scan P text of
        InspectKillAll pattern \<Rightarrow> Finished (Inl RunCredentialExfiltration) (exfiltrated pattern st)
      | InspectWarning pattern redacted \<Rightarrow>
          (let st1 = route_proposals P rd redacted (emit [EvViolation ''credential_pattern_match'' pattern ''redacted''] st)
           in Finished (Inr ((total_result st1)\<lparr>rr_output := Some redacted\<rparr>)) st1)
      | InspectClean \<Rightarrow>
          (let st1 = route_proposals P rd text st
           in Finished (Inr ((total_result st1)\<lparr>rr_output := Some text\<rparr>)) st1))"

text \<open>
  In a mixed response the redacted text becomes the output, while proposals are extracted from the
  text as it came, which also goes into the conversation.
\<close>

definition handle_mixed ::
    "'n run_params \<Rightarrow> 'n turn_reading \<Rightarrow> string \<Rightarrow> 'n llm_tool_call list \<Rightarrow> 'n turn_state \<Rightarrow> 'n step_outcome" where
  "handle_mixed P rd text calls st =
     (case rp_scan P text of
        InspectKillAll pattern \<Rightarrow> Finished (Inl RunCredentialExfiltration) (exfiltrated pattern st)
      | InspectWarning pattern redacted \<Rightarrow>
          (let st1 = emit [EvViolation ''credential_pattern_match'' pattern ''redacted''] st;
               st2 = st1\<lparr>ts_result := (ts_result st1)\<lparr>rr_output := Some redacted\<rparr>\<rparr>
           in after_calls (handle_tool_calls P rd text calls (route_proposals P rd text st2)))
      | InspectClean \<Rightarrow>
          (let st2 = st\<lparr>ts_result := (ts_result st)\<lparr>rr_output := Some text\<rparr>\<rparr>
           in after_calls (handle_tool_calls P rd text calls (route_proposals P rd text st2))))"

definition handle_response :: "'n run_params \<Rightarrow> 'n turn_reading \<Rightarrow> 'n llm_response \<Rightarrow> 'n turn_state \<Rightarrow> 'n step_outcome" where
  "handle_response P rd resp st =
     (case resp of
        RespEmpty \<Rightarrow> Finished (Inr (total_result st)) st
      | RespText text \<Rightarrow> handle_text P rd text st
      | RespToolCalls calls \<Rightarrow> after_calls (handle_tool_calls P rd [] calls st)
      | RespMixed text calls \<Rightarrow> handle_mixed P rd text calls st)"

definition completed :: "'n run_params \<Rightarrow> llm_usage \<Rightarrow> 'n turn_state \<Rightarrow> 'n turn_state" where
  "completed P u st =
     (let ar = ts_runner st; cx = ts_ctx st; cost = rp_price P (us_prompt_tokens u) (us_completion_tokens u)
      in emit [EvCost cost]
           (st\<lparr>ts_runner := ar\<lparr>ar_circuit_breaker := record_success (ar_circuit_breaker ar)\<rparr>,
              ts_ctx := cx\<lparr>rx_total_tokens := rx_total_tokens cx + us_total_tokens u,
                          rx_total_cost := rp_add P (rx_total_cost cx) cost\<rparr>\<rparr>))"

definition run_iteration :: "'n run_params \<Rightarrow> 'n turn_reading \<Rightarrow> 'n turn_state \<Rightarrow> 'n step_outcome" where
  "run_iteration P rd st =
     (if tn_cancelled rd then Finished (Inl RunCancelled) st
      else (case check_gates (rp_add P) (tn_gates rd) (ts_ctx st) (ts_runner st) of
        (Inl e, _, ar) \<Rightarrow>
          (let st1 = st\<lparr>ts_runner := ar\<rparr>;
               res = (total_result st1)\<lparr>rr_halted_by := Some e\<rparr>
           in Finished (if rr_output res \<noteq> None then Inr res else Inl e) st1)
      | (Inr _, _, ar) \<Rightarrow>
          (let st1 = emit [EvLlmCall] (st\<lparr>ts_runner := ar\<rparr>)
           in case tn_completion rd of
                CompletionCancelled \<Rightarrow> Finished (Inl RunCancelled) st1
              | CompletionError err \<Rightarrow>
                  Finished (Inl (LLMError err False))
                    (st1\<lparr>ts_runner := (ts_runner st1)\<lparr>ar_circuit_breaker :=
                        record_classified_failure (classify_llm_error err) (tn_failed_at rd) (ar_circuit_breaker (ts_runner st1))\<rparr>\<rparr>)
              | CompletionOk u resp \<Rightarrow> handle_response P rd resp (completed P u st1))))"

text \<open>The loop, on the readings there are; \<open>Continue\<close> means that they were used up.\<close>

fun run_loop :: "'n run_params \<Rightarrow> 'n turn_reading list \<Rightarrow> 'n turn_state \<Rightarrow> 'n step_outcome" where
  "run_loop P [] st = Continue st"
| "run_loop P (rd # rds) st =
     (case run_iteration P rd st of Continue st' \<Rightarrow> run_loop P rds st' | Finished r st' \<Rightarrow> Finished r st')"

definition turn_start :: "string \<Rightarrow> string \<Rightarrow> run_context \<Rightarrow> 'n agent_runner \<Rightarrow> 'n turn_state" where
  "turn_start system_content user_message cx ar =
     \<lparr>ts_runner = ar\<lparr>ar_conversation_history := []\<rparr>, ts_ctx = cx,
      ts_result = \<lparr>rr_output = None, rr_tool_calls_made = 0, rr_proposals_extracted = 0,
                   rr_total_tokens = 0, rr_total_cost = Finite 0, rr_halted_by = None\<rparr>,
      ts_conversation =
        (if system_content = [] then []
         else [\<lparr>cm_role = RoleSystem, cm_content = system_content, cm_tool_calls = None, cm_tool_call_id = None\<rparr>])
        @ ar_conversation_history ar
        @ [\<lparr>cm_role = RoleUser, cm_content = user_message, cm_tool_calls = None, cm_tool_call_id = None\<rparr>],
      ts_consecutive = 0, ts_failed = bt_new, ts_trace = []\<rparr>"

definition run_turn ::
    "'n run_params \<Rightarrow> string \<Rightarrow> string \<Rightarrow> 'n turn_reading list \<Rightarrow> run_context \<Rightarrow> 'n agent_runner \<Rightarrow> 'n step_outcome" where
  "run_turn P system_content user_message rds cx ar =
     run_loop P rds (turn_start system_content user_message cx ar)"

subsection \<open>The order of the gates\<close>

text \<open>For each gate, in order, whether it blocks and with which error.\<close>

definition gate_verdicts ::
    "(f64 \<Rightarrow> f64 \<Rightarrow> f64) \<Rightarrow> gate_reading \<Rightarrow> run_context \<Rightarrow> 'n agent_runner \<Rightarrow> (bool \<times> run_error) list" where
  "gate_verdicts add g cx ar =
     (let spend = add (ar_daily_spend ar) (rx_total_cost cx); ks = check_kill_state g (observe_kill_switch g ar)
      in [(\<not> fst (allows_call (gr_now g) (ar_circuit_breaker ar)), CircuitBreakerOpen),
          (is_recursion_exceeded cx, RecursionDepthExceeded (rx_recursion_depth cx) (rx_max_recursion_depth cx)),
          (is_halted (ar_damage_counter ar),
             DamageThreshold (dc_count (ar_damage_counter ar)) (dc_threshold (ar_damage_counter ar))),
          (is_nan spend \<or> is_infinite spend \<or> f64_gt spend (ar_spending_cap ar),
             SpendingCapExceeded spend (ar_spending_cap ar)),
          (ks \<noteq> Inr (), case ks of Inl e \<Rightarrow> e | Inr _ \<Rightarrow> RunKillSwitchActive),
          (is_distributed_gate_closed g, KillGateClosed)])"

lemma check_kill_state_breaker [simp]:
  "check_kill_state g (ar\<lparr>ar_circuit_breaker := cb\<rparr>) = check_kill_state g ar"
  by (simp add: check_kill_state_def)

text \<open>
  The gates are checked in the fixed order, up to the first that blocks: its error is the
  result and the log names exactly the gates up to it. A total that is not a number or infinite
  blocks. All six clear gives success.
\<close>

theorem gates_in_order:
  "let vs = gate_verdicts add g cx ar; n = length (takeWhile (\<lambda>(blocks, _). \<not> blocks) vs)
   in (fst (check_gates add g cx ar), fst (snd (check_gates add g cx ar))) =
      (if n < 6 then (Inl (snd (vs ! n)), take (Suc n) gate_names) else (Inr (), gate_names))"
proof -
  have "check_kill_state g (observe_kill_switch g ar) = Inr () \<or> (\<exists>e. check_kill_state g (observe_kill_switch g ar) = Inl e)"
    by (cases "check_kill_state g (observe_kill_switch g ar)") auto
  then show ?thesis
    by (auto simp: check_gates_def gate_verdicts_def gate_names_def Let_def split: prod.splits)
qed

end
