(* ===== verification/Agent_Turn.thy ===== *)
theory Agent_Turn
  imports Agent_Runner
begin

section \<open>What a turn of the agent loop can do\<close>

text \<open>
  The tool calls of a turn are seen through a small state machine, \<open>call_step\<close>: what is kept is the
  number of attempts, the calls that failed and the tools that ran. Every piece of the turn either
  leaves this view as it is or takes steps of the machine, so that invariants of the machine are
  invariants of every turn (\<open>turn_invariant\<close>).
\<close>

subsection \<open>The abstract machine\<close>

record call_view =
  cv_limit :: u32
  cv_replay :: bool
  cv_count :: u32
  cv_failed :: "string set"
  cv_tools :: "run_event list"

definition barred :: "call_view \<Rightarrow> string \<Rightarrow> bool" where
  "barred v name \<longleftrightarrow> cv_replay v \<and> tool_reliability_class name = ''unsupported_exact_once''"

inductive call_step :: "call_view \<Rightarrow> call_view \<Rightarrow> bool" where
  suppressed: "cv_count v < cv_limit v \<Longrightarrow> sig \<in> cv_failed v \<Longrightarrow> call_step v (v\<lparr>cv_count := cv_count v + 1\<rparr>)"
| rejected: "cv_count v < cv_limit v \<Longrightarrow> barred v name \<Longrightarrow> call_step v (v\<lparr>cv_count := cv_count v + 1\<rparr>)"
| executed: "cv_count v < cv_limit v \<Longrightarrow> sig \<notin> cv_failed v \<Longrightarrow> \<not> barred v name
    \<Longrightarrow> call_step v (v\<lparr>cv_count := cv_count v + 1, cv_tools := cv_tools v @ [EvTool sig name]\<rparr>)"
| failed: "cv_count v < cv_limit v \<Longrightarrow> sig \<notin> cv_failed v \<Longrightarrow> \<not> barred v name
    \<Longrightarrow> call_step v (v\<lparr>cv_count := cv_count v + 1, cv_tools := cv_tools v @ [EvTool sig name, EvToolFailed sig],
                       cv_failed := insert sig (cv_failed v)\<rparr>)"

inductive_cases call_stepE: "call_step v v'"

fun tool_event :: "run_event \<Rightarrow> bool" where
  "tool_event (EvTool _ _) = True"
| "tool_event (EvToolFailed _) = True"
| "tool_event _ = False"

definition view :: "'n turn_state \<Rightarrow> call_view" where
  "view st = \<lparr>cv_limit = ar_max_tool_call_count (ts_runner st),
              cv_replay = (ar_execution_id (ts_runner st) \<noteq> None \<and> 1 < ar_execution_attempt (ts_runner st)),
              cv_count = rx_tool_call_count (ts_ctx st),
              cv_failed = {s. bt_contains (ts_failed st) s},
              cv_tools = filter tool_event (ts_trace st)\<rparr>"

text \<open>The other view: the pace of the loop.\<close>

definition pace :: "'n turn_state \<Rightarrow> u32 \<times> u32 \<times> run_event list" where
  "pace st = (rx_recursion_depth (ts_ctx st), rx_max_recursion_depth (ts_ctx st),
              filter (\<lambda>e. e = EvLlmCall) (ts_trace st))"

lemmas view_defs = view_def pace_def emit_def say_def journal_step_def

subsection \<open>The pieces of a turn\<close>

lemma view_say [simp]: "view (say msg st) = view st" "pace (say msg st) = pace st"
  by (simp_all add: view_defs)

lemma view_journal [simp]:
  "view (journal_step (EvStepStarted n) st) = view st" "pace (journal_step (EvStepStarted n) st) = pace st"
  "view (journal_step (EvStepFinished n s) st) = view st" "pace (journal_step (EvStepFinished n s) st) = pace st"
  by (simp_all add: view_defs)

lemma view_note_failure [simp]:
  "view (snd (note_consecutive_tool_failure st)) = view st" "pace (snd (note_consecutive_tool_failure st)) = pace st"
  by (simp_all add: view_defs note_consecutive_tool_failure_def Let_def)

lemma view_foldl_say [simp]:
  "view (foldl (\<lambda>st call. say (f call) st) st calls) = view st" "pace (foldl (\<lambda>st call. say (f call) st) st calls) = pace st"
  by (induction calls arbitrary: st) simp_all

lemma view_route_one [simp]: "view (route_one P rd st p) = view st" "pace (route_one P rd st p) = pace st"
  by (simp_all add: view_defs route_one_def Let_def)

lemma view_route_all [simp]:
  "view (foldl (route_one P rd) st ps) = view st" "pace (foldl (route_one P rd) st ps) = pace st"
  by (induction ps arbitrary: st) simp_all

lemma view_route_proposals [simp]:
  "view (route_proposals P rd text st) = view st" "pace (route_proposals P rd text st) = pace st"
  by (simp_all add: route_proposals_def Let_def) (simp_all add: view_defs)

lemma view_exfiltrated [simp]: "view (exfiltrated p st) = view st" "pace (exfiltrated p st) = pace st"
  by (simp_all add: view_defs exfiltrated_def)

lemma view_next_round [simp]: "view (next_round st) = view st"
  by (simp add: view_defs next_round_def)

lemma view_completed [simp]: "view (completed P u st) = view st" "pace (completed P u st) = pace st"
  by (simp_all add: view_defs completed_def Let_def)

lemma view_finish_ok [simp]:
  "\<not> bt_contains (ts_failed st) sig \<Longrightarrow> view (finish_tool_ok n sig call out st) = view st"
  "pace (finish_tool_ok n sig call out st) = pace st"
  by (auto simp: view_defs finish_tool_ok_def Let_def clear_failed_tool_call_def bt_contains_def split: if_splits)

lemma view_record_failed [simp]:
  "view (record_failed_tool_call sig st) = (view st)\<lparr>cv_failed := insert sig (cv_failed (view st))\<rparr>"
  "pace (record_failed_tool_call sig st) = pace st"
  by (auto simp: view_defs record_failed_tool_call_def)


text \<open>One tool call takes at most one step and leaves the pace as it is.\<close>

lemma process_call_step: "call_step\<^sup>=\<^sup>= (view st) (view (snd (process_call P rd call st)))"
proof -
  let ?v = "view st" and ?sig = "tool_call_signature P call"
  let ?st1 = "st\<lparr>ts_ctx := (ts_ctx st)\<lparr>rx_tool_call_count := rx_tool_call_count (ts_ctx st) + 1\<rparr>\<rparr>"
  let ?st4 = "\<lambda>n. emit [EvTool ?sig (tc_name call)] (journal_step (EvStepStarted n) ?st1)"
  consider "tr_cancelled rd \<or> \<not> cv_count ?v < cv_limit ?v"
    | "\<not> tr_cancelled rd" "cv_count ?v < cv_limit ?v" "?sig \<in> cv_failed ?v"
    | "\<not> tr_cancelled rd" "cv_count ?v < cv_limit ?v" "?sig \<notin> cv_failed ?v" "barred ?v (tc_name call)"
    | "\<not> tr_cancelled rd" "cv_count ?v < cv_limit ?v" "?sig \<notin> cv_failed ?v" "\<not> barred ?v (tc_name call)"
    by blast
  then show ?thesis
  proof cases
    case 1
    then show ?thesis
      by (auto simp: process_call_def note_tool_call_attempt_def view_def)
  next
    case 2
    then have "view (snd (process_call P rd call st)) = ?v\<lparr>cv_count := cv_count ?v + 1\<rparr>"
      by (auto simp: process_call_def note_tool_call_attempt_def maybe_suppress_duplicate_failed_tool_call_def
          view_defs bt_contains_def Let_def note_consecutive_tool_failure_def split: if_splits)
    with 2 show ?thesis by (auto intro: call_step.suppressed)
  next
    case 3
    then have "view (snd (process_call P rd call st)) = ?v\<lparr>cv_count := cv_count ?v + 1\<rparr>"
      by (auto simp: process_call_def note_tool_call_attempt_def maybe_suppress_duplicate_failed_tool_call_def
          view_defs bt_contains_def Let_def reject_unsupported_exact_once_tool_def barred_def split: if_splits)
    with 3 show ?thesis by (auto intro: call_step.rejected)
  next
    case 4
    then have eq: "process_call P rd call st =
       (let n = rx_tool_call_count (ts_ctx st) + 1 in
        case tr_outcome rd of ToolCancelled \<Rightarrow> (Inl RunCancelled, ?st4 n)
        | ToolDone output \<Rightarrow> (Inr (), finish_tool_ok n ?sig call output (?st4 n))
        | ToolFailed err \<Rightarrow> finish_tool_failed n ?sig call err (?st4 n))"
      by (auto simp: process_call_def note_tool_call_attempt_def maybe_suppress_duplicate_failed_tool_call_def
          view_def bt_contains_def Let_def reject_unsupported_exact_once_tool_def barred_def
          split: tool_outcome.splits)
    have v4: "view (?st4 n) = ?v\<lparr>cv_count := cv_count ?v + 1, cv_tools := cv_tools ?v @ [EvTool ?sig (tc_name call)]\<rparr>"
      "\<not> bt_contains (ts_failed (?st4 n)) ?sig" for n
      using 4 by (auto simp: view_defs)
    show ?thesis
    proof (cases "tr_outcome rd")
      case (ToolFailed err)
      have "view (emit [EvToolFailed s] st') = (view st')\<lparr>cv_tools := cv_tools (view st') @ [EvToolFailed s]\<rparr>"
        for s and st' :: "'a turn_state"
        by (simp add: view_defs)
      with ToolFailed eq v4 4 show ?thesis
        by (auto simp: finish_tool_failed_def Let_def intro: call_step.failed)
    qed (use eq v4 4 in \<open>auto simp: Let_def intro: call_step.executed\<close>)
  qed
qed


lemma process_call_pace [simp]: "pace (snd (process_call P rd call st)) = pace st"
  by (simp add: process_call_def note_tool_call_attempt_def maybe_suppress_duplicate_failed_tool_call_def
      reject_unsupported_exact_once_tool_def finish_tool_failed_def Let_def
      split: tool_outcome.split option.split)
     (simp add: view_defs)

lemma process_calls_step: "call_step\<^sup>*\<^sup>* (view st) (view (snd (process_calls P rds i calls st)))"
proof (induction calls arbitrary: i st)
  case (Cons c cs)
  obtain r st' where eq: "process_call P (rds i) c st = (r, st')" by fastforce
  then have "call_step\<^sup>*\<^sup>* (view st) (view st')"
    using process_call_step [of st P "rds i" c] by (metis r_into_rtranclp rtranclp_reflclp snd_conv)
  with eq Cons.IH [of st' "Suc i"] show ?case
    by (cases r) auto
qed simp

lemma process_calls_pace [simp]: "pace (snd (process_calls P rds i calls st)) = pace st"
proof (induction calls arbitrary: i st)
  case (Cons c cs)
  obtain r st' where eq: "process_call P (rds i) c st = (r, st')" by fastforce
  then have "pace st' = pace st"
    using process_call_pace by (metis snd_conv)
  with eq Cons.IH show ?case
    by (cases r) simp_all
qed simp

text \<open>The tool calls of a response: some steps, and the next round if there was no error.\<close>

lemma handle_tool_calls_steps:
  assumes "handle_tool_calls P rd content calls st = (r, st')"
  obtains s where "call_step\<^sup>*\<^sup>* (view st) (view s)" "pace s = pace st"
    "st' = (case r of Inl _ \<Rightarrow> s | Inr _ \<Rightarrow> next_round s)"
proof -
  let ?a = "\<lparr>cm_role = RoleAssistant, cm_content = content, cm_tool_calls = Some calls, cm_tool_call_id = None\<rparr>"
  let ?deny = "\<lambda>st. st\<lparr>ts_runner := (ts_runner st)\<lparr>ar_plan_validator :=
        pv_record_denial (tc_name (hd calls)) (ar_plan_validator (ts_runner st))\<rparr>\<rparr>"
  let ?s2 = "\<lambda>reason. foldl (\<lambda>st call. say (tool_message (''ERROR: Tool plan denied'' @ reason) call) st)
     (say ?a (?deny st)) calls"
  show ?thesis
  proof (cases "plan_validate (ar_plan_validator (ts_runner st)) calls")
    case (PlanDeny reason)
    obtain q s where eq: "note_consecutive_tool_failure (?s2 reason) = (q, s)" by fastforce
    have "view (?deny st) = view st" "pace (?deny st) = pace st"
      by (simp_all add: view_def pace_def)
    then have "view s = view st" "pace s = pace st"
      using view_note_failure [of "?s2 reason"] eq by (simp_all only: view_foldl_say view_say snd_conv)
    moreover have "r = q" "st' = (case r of Inl _ \<Rightarrow> s | Inr _ \<Rightarrow> next_round s)"
      using assms eq PlanDeny unfolding handle_tool_calls_def by (auto split: sum.splits)
    ultimately show ?thesis by (intro that [of s]) auto
  qed (use assms process_calls_step [of "say ?a st" P "tn_tools rd" 0 calls]
         process_calls_pace [of P "tn_tools rd" 0 calls "say ?a st"] in
       \<open>auto simp only: handle_tool_calls_def Let_def view_say snd_conv split: plan_validation_result.splits prod.splits sum.splits
          intro!: that\<close>)
qed


primrec outcome_state :: "'n step_outcome \<Rightarrow> 'n turn_state" where
  "outcome_state (Continue st) = st"
| "outcome_state (Finished r st) = st"

primrec is_finished :: "'n step_outcome \<Rightarrow> bool" where
  "is_finished (Continue st) \<longleftrightarrow> False"
| "is_finished (Finished r st) \<longleftrightarrow> True"

text \<open>What a piece of an iteration may do from a state with the given views.\<close>

definition paced :: "call_view \<Rightarrow> u32 \<times> u32 \<times> run_event list \<Rightarrow> 'n step_outcome \<Rightarrow> bool" where
  "paced v p out \<longleftrightarrow> call_step\<^sup>*\<^sup>* v (view (outcome_state out)) \<and>
     pace (outcome_state out) = (if is_finished out then p else (fst p + 1, snd p))"

lemma paced_calls: "paced (view st) (pace st) (after_calls (handle_tool_calls P rd content calls st))"
proof -
  obtain r st' where eq: "handle_tool_calls P rd content calls st = (r, st')" by fastforce
  have round: "pace (next_round s) = (fst (pace s) + 1, snd (pace s))" for s :: "'a turn_state"
    by (simp add: pace_def next_round_def)
  from eq show ?thesis
    by (cases rule: handle_tool_calls_steps) (auto simp: eq paced_def after_calls_def round split: sum.split)
qed

lemma paced_mixed:
  assumes "view st' = view st" "pace st' = pace st"
  shows "paced (view st) (pace st) (after_calls (handle_tool_calls P rd content calls (route_proposals P rd text st')))"
  using paced_calls [of "route_proposals P rd text st'" P rd content calls] assms by simp

lemma view_with_result [simp]:
  "view (st\<lparr>ts_result := r\<rparr>) = view st" "pace (st\<lparr>ts_result := r\<rparr>) = pace st"
  by (simp_all add: view_defs)

lemma view_violation [simp]:
  "view (emit [EvViolation a b c] st) = view st" "pace (emit [EvViolation a b c] st) = pace st"
  by (simp_all add: view_defs)

lemma paced_response: "paced (view st) (pace st) (handle_response P rd resp st)"
proof (cases resp)
  case (RespMixed t calls)
  then show ?thesis
    by (auto simp: handle_response_def handle_mixed_def Let_def paced_mixed split: inspection_result.split)
       (simp add: paced_def)
next
  case (RespToolCalls calls)
  then show ?thesis by (simp add: handle_response_def paced_calls)
qed (auto simp: handle_response_def handle_text_def Let_def paced_def split: inspection_result.split)

text \<open>One iteration: it calls the provider only below the depth limit.\<close>

lemma iteration_cases:
  fixes st :: "'n turn_state"
  obtains (stopped) r st' where "run_iteration P rd st = Finished r st'" "view st' = view st" "pace st' = pace st"
  | (called) d m l where "pace st = (d, m, l)" "d < m" "paced (view st) (d, m, l @ [EvLlmCall]) (run_iteration P rd st)"
proof -
  obtain r lg ar where g: "check_gates (rp_add P) (tn_gates rd) (ts_ctx st) (ts_runner st) = (r, lg, ar)"
    by (metis surj_pair)
  then have keep: "ar_max_tool_call_count ar = ar_max_tool_call_count (ts_runner st)"
    "ar_execution_id ar = ar_execution_id (ts_runner st)" "ar_execution_attempt ar = ar_execution_attempt (ts_runner st)"
    by (auto simp: check_gates_def observe_kill_switch_def Let_def split: prod.splits if_splits sum.splits option.splits)
  show thesis
  proof (cases "tn_cancelled rd \<or> r \<noteq> Inr ()")
    case True
    then have "\<exists>q s. run_iteration P rd st = Finished q s \<and> view s = view st \<and> pace s = pace st"
      using g keep by (cases r) (auto simp: run_iteration_def view_defs Let_def)
    then show ?thesis using stopped by blast
  next
    case False
    obtain d m l where p: "pace st = (d, m, l)" by (metis surj_pair)
    have "d < m"
      using False g p by (auto simp: check_gates_def pace_def is_recursion_exceeded_def Let_def
          split: prod.splits if_splits)
    let ?s = "emit [EvLlmCall] (st\<lparr>ts_runner := ar\<rparr>)"
    have s: "view ?s = view st" "pace ?s = (d, m, l @ [EvLlmCall])"
      "view (?s\<lparr>ts_runner := (ts_runner ?s)\<lparr>ar_circuit_breaker := cb\<rparr>\<rparr>) = view st"
      "pace (?s\<lparr>ts_runner := (ts_runner ?s)\<lparr>ar_circuit_breaker := cb\<rparr>\<rparr>) = (d, m, l @ [EvLlmCall])" for cb
      using keep p by (auto simp: view_defs)
    have "paced (view st) (d, m, l @ [EvLlmCall]) (run_iteration P rd st)"
    proof (cases "tn_completion rd")
      case (CompletionOk u resp)
      with False g s paced_response [of "completed P u ?s" P rd resp] show ?thesis
        by (auto simp: run_iteration_def Let_def)
    qed (use False g s in \<open>auto simp: run_iteration_def Let_def paced_def\<close>)
    with p \<open>d < m\<close> show ?thesis using called by blast
  qed
qed

subsection \<open>The whole loop\<close>

lemma run_loop_steps: "call_step\<^sup>*\<^sup>* (view st) (view (outcome_state (run_loop P rds st)))"
proof (induction rds arbitrary: st)
  case (Cons rd rds)
  show ?case
  proof (cases rule: iteration_cases [of P rd st])
    case (called d m l)
    then show ?thesis
      using Cons by (cases "run_iteration P rd st") (auto simp: paced_def intro: rtranclp_trans)
  qed simp
qed simp

lemma run_loop_paced:
  assumes "pace st = (d, m, l)"
  shows "length (snd (snd (pace (outcome_state (run_loop P rds st))))) \<le> length l + (unat m - unat d)"
    and "unat m - unat d < length rds \<Longrightarrow> is_finished (run_loop P rds st)"
proof -
  have "length (snd (snd (pace (outcome_state (run_loop P rds st))))) \<le> length l + (unat m - unat d) \<and>
    (unat m - unat d < length rds \<longrightarrow> is_finished (run_loop P rds st))"
    using assms
  proof (induction rds arbitrary: st d l)
    case (Cons rd rds)
    show ?case
    proof (cases rule: iteration_cases [of P rd st])
      case (called d' m' l')
      with Cons.prems have eq: "d' = d" "m' = m" "l' = l" and less: "unat d < unat m"
        by (auto simp: word_less_nat_alt)
      have "unat (d + 1) = Suc (unat d)"
        using called(2) eq word_less_imp_no_wrap by blast
      then show ?thesis
        using called eq less Cons.IH [of _ "d + 1" "l @ [EvLlmCall]"]
        by (cases "run_iteration P rd st") (fastforce simp: paced_def)+
    qed (use Cons.prems in simp)
  qed simp
  then show "length (snd (snd (pace (outcome_state (run_loop P rds st))))) \<le> length l + (unat m - unat d)"
    "unat m - unat d < length rds \<Longrightarrow> is_finished (run_loop P rds st)" by blast+
qed


text \<open>An invariant of the abstract machine is one of every turn.\<close>

locale turn_invariant =
  fixes I :: "call_view \<Rightarrow> bool"
  assumes step: "call_step v v' \<Longrightarrow> I v \<Longrightarrow> I v'"
begin

lemma steps: "call_step\<^sup>*\<^sup>* v v' \<Longrightarrow> I v \<Longrightarrow> I v'"
  by (induction rule: rtranclp_induct) (auto intro: step)

lemma turn: "I (view st) \<Longrightarrow> I (view (outcome_state (run_loop P rds st)))"
  using steps run_loop_steps by blast

end

definition tools_run :: "run_event list \<Rightarrow> nat" where
  "tools_run tr = length (filter (\<lambda>e. case e of EvTool _ _ \<Rightarrow> True | _ \<Rightarrow> False) tr)"

definition llm_calls :: "run_event list \<Rightarrow> nat" where
  "llm_calls tr = length (filter (\<lambda>e. e = EvLlmCall) tr)"

text \<open>No call that failed is run again.\<close>

fun failures_final :: "run_event list \<Rightarrow> bool" where
  "failures_final [] = True"
| "failures_final (EvToolFailed sig # es) \<longleftrightarrow>
     list_all (\<lambda>e. case e of EvTool s _ \<Rightarrow> s \<noteq> sig | _ \<Rightarrow> True) es \<and> failures_final es"
| "failures_final (e # es) = failures_final es"

definition replay_safe_event :: "run_event \<Rightarrow> bool" where
  "replay_safe_event e =
     (case e of EvTool _ name \<Rightarrow> tool_reliability_class name \<noteq> ''unsupported_exact_once'' | _ \<Rightarrow> True)"

lemma failures_final_snoc:
  "failures_final (es @ [EvTool s n]) \<longleftrightarrow> failures_final es \<and> EvToolFailed s \<notin> set es"
  "failures_final (es @ [EvToolFailed s]) = failures_final es"
  by (induction es rule: failures_final.induct) auto

interpretation tools_counted: turn_invariant "\<lambda>v. tools_run (cv_tools v) \<le> unat (cv_count v) \<and> cv_count v \<le> cv_limit v"
proof
  fix v v' assume "call_step v v'"
    and inv: "tools_run (cv_tools v) \<le> unat (cv_count v) \<and> cv_count v \<le> cv_limit v"
  moreover from \<open>call_step v v'\<close> have "cv_count v < cv_limit v" by cases auto
  ultimately show "tools_run (cv_tools v') \<le> unat (cv_count v') \<and> cv_count v' \<le> cv_limit v'"
    using word_less_imp_no_wrap [of "cv_count v" "cv_limit v"] word_less_succ_le [of "cv_count v" "cv_limit v"]
    by (auto elim!: call_stepE simp: tools_run_def)
qed

interpretation replayed: turn_invariant "\<lambda>v. cv_replay v \<longrightarrow> list_all replay_safe_event (cv_tools v)"
  by unfold_locales (auto elim!: call_stepE simp: barred_def replay_safe_event_def)

interpretation failures: turn_invariant
  "\<lambda>v. failures_final (cv_tools v) \<and> (\<forall>s. EvToolFailed s \<in> set (cv_tools v) \<longrightarrow> s \<in> cv_failed v)"
proof
  fix v v' assume st: "call_step v v'"
    and inv: "failures_final (cv_tools v) \<and> (\<forall>s. EvToolFailed s \<in> set (cv_tools v) \<longrightarrow> s \<in> cv_failed v)"
  have two: "xs @ [a, b] = (xs @ [a]) @ [b]" for xs and a b :: run_event by simp
  from st inv show "failures_final (cv_tools v') \<and> (\<forall>s. EvToolFailed s \<in> set (cv_tools v') \<longrightarrow> s \<in> cv_failed v')"
    by (cases rule: call_step.cases) (auto simp: failures_final_snoc two simp del: append_assoc)
qed


subsection \<open>Properties of turns\<close>

lemma view_turn_start:
  "view (turn_start sys msg cx ar) =
     \<lparr>cv_limit = ar_max_tool_call_count ar,
      cv_replay = (ar_execution_id ar \<noteq> None \<and> 1 < ar_execution_attempt ar),
      cv_count = rx_tool_call_count cx, cv_failed = {}, cv_tools = []\<rparr>"
  "pace (turn_start sys msg cx ar) = (rx_recursion_depth cx, rx_max_recursion_depth cx, [])"
  by (simp_all add: view_def pace_def turn_start_def bt_contains_def)

text \<open>
  C27. A turn ends: with more readings than the depth limit the loop returns a result or an error,
  whatever the provider, the tools and the other threads answer.
\<close>

theorem turn_terminates:
  "unat (rx_max_recursion_depth cx) < length rds \<Longrightarrow> is_finished (run_turn P sys msg rds cx ar)"
  unfolding run_turn_def by (rule run_loop_paced(2) [OF view_turn_start(2)]) linarith

definition idle_gates :: gate_reading where
  "idle_gates = \<lparr>gr_kill_store = None, gr_authority = Some KsClear, gr_gate_check = None,
                 gr_kill_gate_closed = Some False, gr_now = 0\<rparr>"

definition sample_reading :: "nat llm_response \<Rightarrow> tool_outcome \<Rightarrow> nat turn_reading" where
  "sample_reading resp out =
     \<lparr>tn_cancelled = False, tn_gates = idle_gates,
      tn_completion = CompletionOk \<lparr>us_total_tokens = 3, us_prompt_tokens = 2, us_completion_tokens = 1\<rparr> resp,
      tn_failed_at = 0, tn_routed_at = 0, tn_wall = 0,
      tn_tools = (\<lambda>_. \<lparr>tr_cancelled = False, tr_outcome = out\<rparr>)\<rparr>"

definition sample_params :: "nat run_params" where
  "sample_params =
     \<lparr>rp_add = (\<lambda>a b. a), rp_price = (\<lambda>p c. Finite 0),
      rp_scan = (\<lambda>t. if t = ''leak'' then InspectKillAll ''key''
                     else if t = ''hint'' then InspectWarning ''key'' ''[redacted]'' else InspectClean),
      rp_extract = (\<lambda>t. []), rp_stored = (\<lambda>p d. None), rp_args_text = (\<lambda>j. ''{}''), rp_as_u64 = Some\<rparr>"

definition tool_sample_call :: "string \<Rightarrow> nat llm_tool_call" where
  "tool_sample_call name = \<lparr>tc_id = ''1'', tc_name = name, tc_arguments = JNull\<rparr>"

definition turn_sample_ctx :: run_context where
  "turn_sample_ctx = \<lparr>rx_agent_id = 1, rx_session_id = 2, rx_channel = ''cli'', rx_recursion_depth = 0,
     rx_max_recursion_depth = 2, rx_total_tokens = 0, rx_total_cost = Finite 0, rx_tool_call_count = 0,
     rx_proposal_count = 0, rx_intervention_level = 0, rx_convergence_score = Finite 0\<rparr>"

theorem turn_terminates_witness:
  "is_finished (run_turn sample_params [] ''go''
     (replicate 3 (sample_reading (RespToolCalls [tool_sample_call ''read_file'']) (ToolDone ''ok''))) turn_sample_ctx agent_runner_new)"
  by (rule turn_terminates) (simp add: turn_sample_ctx_def)


lemma pre_loop_context:
  assumes "pre_loop g file now a s c ar = (Inr cx, ar')"
  shows "rx_recursion_depth cx = 0" "rx_max_recursion_depth cx = ar_max_recursion_depth ar"
    "rx_tool_call_count cx = 0" "ar_max_tool_call_count ar' = ar_max_tool_call_count ar"
  using assms
  by (auto simp: pre_loop_def Let_def observe_kill_switch_def split: sum.splits if_splits option.splits)

lemma tools_run_filter: "tools_run (filter tool_event tr) = tools_run tr"
  unfolding tools_run_def by (induction tr) (auto split: run_event.splits)

text \<open>
  C1. The budget of a turn: after the steps before the loop have passed, a turn calls the provider
  at most as often as the depth limit of the runner says and runs at most as many tools as its
  tool limit says, over all responses and whatever they ask for.
\<close>

theorem turn_bounded:
  "case pre_loop g file now a s c ar of
     (Inl e, ar') \<Rightarrow> True
   | (Inr cx, ar') \<Rightarrow>
       let tr = ts_trace (outcome_state (run_turn P sys msg rds cx ar'))
       in llm_calls tr \<le> unat (ar_max_recursion_depth ar) \<and> tools_run tr \<le> unat (ar_max_tool_call_count ar)"
proof (cases "pre_loop g file now a s c ar")
  case (Pair r ar')
  show ?thesis
  proof (cases r)
    case (Inr cx)
    with Pair have pre: "pre_loop g file now a s c ar = (Inr cx, ar')" by simp
    let ?st = "turn_start sys msg cx ar'" and ?st' = "outcome_state (run_turn P sys msg rds cx ar')"
    note cx = pre_loop_context [OF pre]
    have "llm_calls (ts_trace ?st') \<le> unat (ar_max_recursion_depth ar)"
      using run_loop_paced(1) [OF view_turn_start(2), of P rds sys msg cx ar'] cx
      by (simp add: run_turn_def llm_calls_def pace_def)
    moreover have "call_step\<^sup>*\<^sup>* (view ?st) (view ?st')"
      unfolding run_turn_def by (rule run_loop_steps)
    then have "cv_limit (view ?st') = cv_limit (view ?st)"
      by (induction rule: rtranclp_induct) (auto elim: call_stepE)
    with tools_counted.turn [of ?st P rds] cx have "tools_run (ts_trace ?st') \<le> unat (ar_max_tool_call_count ar)"
      by (simp add: run_turn_def view_turn_start tools_run_def [of "[]"] word_le_nat_alt)
         (simp add: view_def tools_run_filter)
    ultimately show ?thesis using pre by (simp add: Let_def)
  qed (simp add: Pair)
qed

text \<open>
  A tool call that failed is not run again in the same turn: after its failure no call with the
  same name and arguments reaches the executor, over all rounds of the turn.
\<close>

theorem failed_call_not_repeated:
  "failures_final (filter tool_event (ts_trace (outcome_state (run_turn P sys msg rds cx ar))))"
  using failures.turn [of "turn_start sys msg cx ar" P rds]
  by (simp add: run_turn_def view_turn_start) (simp add: view_def)

text \<open>
  When an execution is attempted again, no tool without exactly-once support runs: the second
  and later attempts of a journaled execution only run the tools that are safe to replay or
  journaled, so that a shell command or a skill is not executed twice.
\<close>

theorem replay_runs_no_unsupported_tool:
  assumes "ar_execution_id ar \<noteq> None" and "1 < ar_execution_attempt ar"
  shows "list_all replay_safe_event (filter tool_event (ts_trace (outcome_state (run_turn P sys msg rds cx ar))))"
proof -
  let ?st = "turn_start sys msg cx ar" and ?st' = "outcome_state (run_turn P sys msg rds cx ar)"
  have steps: "call_step\<^sup>*\<^sup>* (view ?st) (view ?st')"
    unfolding run_turn_def by (rule run_loop_steps)
  then have "cv_replay (view ?st') = cv_replay (view ?st)"
    by (induction rule: rtranclp_induct) (auto elim: call_stepE)
  with replayed.steps [OF steps] assms show ?thesis
    by (simp add: view_turn_start) (simp add: view_def)
qed

definition sample_retry :: "nat agent_runner" where
  "sample_retry = set_execution_context ''e1'' 2 agent_runner_new"

theorem replay_runs_no_unsupported_tool_witness:
  "list_all replay_safe_event (filter tool_event (ts_trace (outcome_state
     (run_turn sample_params [] ''go''
        [sample_reading (RespToolCalls [tool_sample_call ''read_file'', tool_sample_call ''shell'']) (ToolDone ''ok'')]
        turn_sample_ctx sample_retry))))"
  by (rule replay_runs_no_unsupported_tool) (simp_all add: sample_retry_def set_execution_context_def agent_runner_new_def)


subsection \<open>Kill and exfiltration\<close>

text \<open>Another thread has raised the kill flag, stopped the agent or the platform, or closed the gate.\<close>

definition stop_seen :: "gate_reading \<Rightarrow> bool" where
  "stop_seen g \<longleftrightarrow> gr_kill_store g = Some True \<or>
     gr_authority g \<in> {Some KsPause, Some KsQuarantine, Some KsKillAll} \<or> is_distributed_gate_closed g"

lemma stop_seen_blocks: "stop_seen g \<Longrightarrow> fst (check_gates add g cx ar) \<noteq> Inr ()"
  by (auto simp: stop_seen_def check_gates_def check_kill_state_def observe_kill_switch_def Let_def
      split: prod.splits option.splits authoritative_kill_state.splits)

lemma blocked_iteration:
  assumes "stop_seen (tn_gates rd)"
  obtains r st' where "run_iteration P rd st = Finished r st'" "ts_trace st' = ts_trace st"
    "ts_conversation st' = ts_conversation st"
proof -
  obtain r lg ar where g: "check_gates (rp_add P) (tn_gates rd) (ts_ctx st) (ts_runner st) = (r, lg, ar)"
    by (metis surj_pair)
  with stop_seen_blocks [OF assms, of "rp_add P" "ts_ctx st" "ts_runner st"] have "r \<noteq> Inr ()" by simp
  with g have "\<exists>q s. run_iteration P rd st = Finished q s \<and> ts_trace s = ts_trace st \<and> ts_conversation s = ts_conversation st"
    by (cases r) (auto simp: run_iteration_def Let_def)
  then show thesis using that by blast
qed

lemma run_loop_append:
  "run_loop P (rds @ rds') st =
     (case run_loop P rds st of Continue st' \<Rightarrow> run_loop P rds' st' | Finished r st' \<Rightarrow> Finished r st')"
  by (induction rds arbitrary: st) (auto split: step_outcome.split)

text \<open>
  C2. Nothing happens after a stop is seen: in the iteration that reads the raised kill flag, a
  paused or quarantined agent, a killed platform or a closed gate the turn ends, with no further
  call of the provider or of a tool and nothing more in the conversation, whatever would follow.
\<close>

theorem nothing_after_stop:
  assumes "stop_seen (tn_gates rd)"
  shows "let before = outcome_state (run_loop P rds st); out = run_loop P (rds @ rd # rds') st
         in is_finished out \<and> ts_trace (outcome_state out) = ts_trace before \<and>
            ts_conversation (outcome_state out) = ts_conversation before"
proof (cases "run_loop P rds st")
  case (Continue st')
  from assms show ?thesis
    by (cases rule: blocked_iteration [of rd P st']) (simp add: run_loop_append Continue)
qed (simp add: run_loop_append)

theorem nothing_after_stop_witness:
  "let rd = sample_reading (RespToolCalls [tool_sample_call ''read_file'']) (ToolDone ''ok'');
       kill = rd\<lparr>tn_gates := idle_gates\<lparr>gr_authority := Some KsKillAll\<rparr>\<rparr>;
       st = turn_start [] ''go'' turn_sample_ctx agent_runner_new;
       before = outcome_state (run_loop sample_params [rd] st);
       out = run_loop sample_params ([rd] @ kill # [rd]) st
   in is_finished out \<and> ts_trace (outcome_state out) = ts_trace before \<and>
      ts_conversation (outcome_state out) = ts_conversation before"
  using nothing_after_stop
    [of "(sample_reading (RespToolCalls [tool_sample_call ''read_file'']) (ToolDone ''ok''))\<lparr>tn_gates :=
           idle_gates\<lparr>gr_authority := Some KsKillAll\<rparr>\<rparr>"
        sample_params "[sample_reading (RespToolCalls [tool_sample_call ''read_file'']) (ToolDone ''ok'')]"
        "turn_start [] ''go'' turn_sample_ctx agent_runner_new"
        "[sample_reading (RespToolCalls [tool_sample_call ''read_file'']) (ToolDone ''ok'')]"]
  by (simp only: Let_def) (simp add: stop_seen_def)

text \<open>The only outcome with that error is the one after the inspection.\<close>

definition leaks :: "'n step_outcome \<Rightarrow> bool" where
  "leaks out \<longleftrightarrow> (\<exists>st. out = Finished (Inl RunCredentialExfiltration) st)"

lemma process_call_error: "fst (process_call P rd call st) \<noteq> Inl RunCredentialExfiltration"
  by (auto simp: process_call_def note_tool_call_attempt_def maybe_suppress_duplicate_failed_tool_call_def
      reject_unsupported_exact_once_tool_def finish_tool_failed_def note_consecutive_tool_failure_def Let_def
      split: tool_outcome.split option.split)

lemma process_calls_error: "fst (process_calls P rds i calls st) \<noteq> Inl RunCredentialExfiltration"
proof (induction calls arbitrary: i st)
  case (Cons c cs)
  then show ?case
    using process_call_error [of P "rds i" c st] by (auto split: prod.split sum.split)
qed simp

lemma handle_tool_calls_error: "\<not> leaks (after_calls (handle_tool_calls P rd content calls st))"
  using process_calls_error [of P "tn_tools rd" 0 calls]
  by (auto simp: leaks_def after_calls_def handle_tool_calls_def note_consecutive_tool_failure_def Let_def
      split: plan_validation_result.splits prod.splits sum.splits) (metis fst_conv)+

lemma check_gates_error: "fst (check_gates add g cx ar) \<noteq> Inl RunCredentialExfiltration"
  by (auto simp: check_gates_def check_kill_state_def Let_def
      split: prod.splits option.splits authoritative_kill_state.splits)

lemma leak_sets_flag:
  assumes "run_iteration P rd st = Finished (Inl RunCredentialExfiltration) st'"
  shows "ar_kill_switch (ts_runner st')"
proof -
  have calls: "after_calls (handle_tool_calls P rd content calls s) \<noteq> Finished (Inl RunCredentialExfiltration) st'"
    for content calls s
    using handle_tool_calls_error unfolding leaks_def by blast
  have gates: "fst (check_gates (rp_add P) (tn_gates rd) (ts_ctx st) (ts_runner st)) \<noteq> Inl RunCredentialExfiltration"
    by (rule check_gates_error)
  have resp: "handle_response P rd resp s = Finished (Inl RunCredentialExfiltration) st' \<Longrightarrow> ar_kill_switch (ts_runner st')"
    for resp s
    by (auto simp: handle_response_def handle_text_def handle_mixed_def calls exfiltrated_def emit_def Let_def
        split: llm_response.splits inspection_result.splits)
  from assms gates show ?thesis
    by (auto simp: run_iteration_def Let_def dest!: resp
        split: if_splits prod.splits sum.splits completion_reading.splits)
qed

text \<open>
  Credential exfiltration kills the runner for good: when a turn ends because the inspector found
  a leaked credential, the runner's kill flag is up and the next turn is refused before it starts,
  unless another thread lowers the flag.
\<close>

theorem exfiltration_kills_runner:
  assumes "run_turn P sys msg rds cx ar = Finished (Inl RunCredentialExfiltration) st"
    and "gr_kill_store g = None"
  shows "pre_loop g file now a s c (ts_runner st) = (Inl RunKillSwitchActive, ts_runner st)"
proof -
  have "run_loop P rds s = Finished (Inl RunCredentialExfiltration) st \<Longrightarrow> ar_kill_switch (ts_runner st)" for s
    by (induction rds arbitrary: s) (auto split: step_outcome.splits dest: leak_sets_flag)
  with assms have "ar_kill_switch (ts_runner st)" by (auto simp: run_turn_def)
  with assms(2) show ?thesis
    by (simp add: pre_loop_def observe_kill_switch_def check_kill_state_def)
qed


definition sample_leak :: "nat step_outcome" where
  "sample_leak = run_turn sample_params [] ''go'' [sample_reading (RespText ''leak'') (ToolDone ''ok'')] turn_sample_ctx agent_runner_new"

lemmas turn_sample_defs = sample_reading_def sample_params_def tool_sample_call_def turn_sample_ctx_def idle_gates_def

lemma sample_leak_ends: "sample_leak = Finished (Inl RunCredentialExfiltration) (outcome_state sample_leak)"
  by (simp add: sample_leak_def run_turn_def run_iteration_def check_gates_def handle_response_def handle_text_def
      check_kill_state_def is_distributed_gate_closed_def turn_start_def agent_runner_new_def is_recursion_exceeded_def
      observe_kill_switch_def circuit_breaker_default_def circuit_breaker_new_def allows_call_def breaker_state_def f64_gt_def is_nan_def is_infinite_def
      damage_counter_new_def is_halted_def turn_sample_defs Let_def)

theorem exfiltration_kills_runner_witness:
  "pre_loop idle_gates NoHome 0 1 2 ''cli'' (ts_runner (outcome_state sample_leak)) =
     (Inl RunKillSwitchActive, ts_runner (outcome_state sample_leak))"
  by (rule exfiltration_kills_runner [OF sample_leak_ends [unfolded sample_leak_def], folded sample_leak_def])
     (simp add: idle_gates_def)

lemma conversation_simps [simp]:
  "ts_conversation (say msg st) = ts_conversation st @ [msg]"
  "ts_conversation (emit evs st) = ts_conversation st"
  "ts_conversation (journal_step ev st) = ts_conversation st"
  "ts_conversation (snd (note_consecutive_tool_failure st)) = ts_conversation st"
  "ts_conversation (record_failed_tool_call sig st) = ts_conversation st"
  "ts_conversation (clear_failed_tool_call sig st) = ts_conversation st"
  "ts_conversation (finish_tool_ok n sig call out st) = ts_conversation st @ [tool_message out call]"
  by (simp_all add: say_def emit_def journal_step_def note_consecutive_tool_failure_def record_failed_tool_call_def
      clear_failed_tool_call_def finish_tool_ok_def Let_def)

lemma conversation_grows:
  "set (ts_conversation st) \<subseteq> set (ts_conversation (snd (process_calls P rds i calls st)))"
proof (induction calls arbitrary: i st)
  case (Cons c cs)
  have "set (ts_conversation st) \<subseteq> set (ts_conversation (snd (process_call P (rds i) c st)))"
    by (auto simp: process_call_def note_tool_call_attempt_def maybe_suppress_duplicate_failed_tool_call_def
        reject_unsupported_exact_once_tool_def finish_tool_failed_def Let_def split: tool_outcome.split option.split)
  with Cons show ?case by (auto split: prod.split sum.split) blast+
qed simp

lemma foldl_say_grows: "set (ts_conversation st) \<subseteq> set (ts_conversation (foldl (\<lambda>st call. say (f call) st) st calls))"
  by (induction calls arbitrary: st) (simp_all, fastforce)


lemma calls_keep_conversation:
  "\<lparr>cm_role = RoleAssistant, cm_content = content, cm_tool_calls = Some calls, cm_tool_call_id = None\<rparr>
     \<in> set (ts_conversation (outcome_state (after_calls (handle_tool_calls P rd content calls st))))"
    (is "?a \<in> _")
proof -
  let ?deny = "st\<lparr>ts_runner := (ts_runner st)\<lparr>ar_plan_validator :=
        pv_record_denial (tc_name (hd calls)) (ar_plan_validator (ts_runner st))\<rparr>\<rparr>"
  have round: "ts_conversation (next_round s) = ts_conversation s" for s :: "'a turn_state"
    by (simp add: next_round_def)
  have "?a \<in> set (ts_conversation (snd (process_calls P (tn_tools rd) 0 calls (say ?a st))))"
    using conversation_grows [of "say ?a st" P "tn_tools rd" 0 calls] by auto
  moreover have "?a \<in> set (ts_conversation (snd (note_consecutive_tool_failure
      (foldl (\<lambda>st call. say (f call) st) (say ?a ?deny) calls))))" for f
    using foldl_say_grows [of "say ?a ?deny" f calls] by auto
  ultimately show ?thesis
    unfolding handle_tool_calls_def Let_def
    by (auto simp: after_calls_def round simp del: conversation_simps
        split: plan_validation_result.split prod.split sum.split) (metis snd_conv)+
qed

text \<open>
  The text of a mixed response is redacted in the output only: when the inspector finds a pattern
  in it, the text as it came goes into the conversation that is sent to the provider next.
\<close>

theorem mixed_text_kept_unredacted:
  assumes "rp_scan P t = InspectWarning pattern redacted"
  shows "\<exists>m \<in> set (ts_conversation (outcome_state (handle_response P rd (RespMixed t calls) st))).
           cm_role m = RoleAssistant \<and> cm_content m = t"
proof -
  let ?s = "route_proposals P rd t (let st1 = emit [EvViolation ''credential_pattern_match'' pattern ''redacted''] st
    in st1\<lparr>ts_result := (ts_result st1)\<lparr>rr_output := Some redacted\<rparr>\<rparr>)"
  show ?thesis
    using assms calls_keep_conversation [of t calls P rd ?s]
    by (intro bexI [of _ "\<lparr>cm_role = RoleAssistant, cm_content = t, cm_tool_calls = Some calls, cm_tool_call_id = None\<rparr>"])
       (simp_all add: handle_response_def handle_mixed_def Let_def)
qed

theorem mixed_text_kept_unredacted_witness:
  "\<exists>m \<in> set (ts_conversation (outcome_state (handle_response sample_params
       (sample_reading RespEmpty ToolCancelled) (RespMixed ''hint'' []) (turn_start [] ''go'' turn_sample_ctx agent_runner_new)))).
     cm_role m = RoleAssistant \<and> cm_content m = ''hint''"
  by (rule mixed_text_kept_unredacted [where pattern = "''key''" and redacted = "''[redacted]''"])
     (simp add: sample_params_def)

end
