(* ===== verification/Proposal_Extractor.thy ===== *)
theory Proposal_Extractor
  imports Proposal_Router
begin

section \<open>The proposal extractor\<close>

text \<open>
  \<^verbatim>\<open>ghost-agent-loop/src/proposal/extractor.rs\<close>: the parser that finds proposal blocks in the text
  of a response, and the fallback that looks for a JSON object between balanced braces. The
  deserialization of one block and the fresh identifiers are parameters.
\<close>

record 'n raw_proposal =
  rw_operation :: proposal_operation
  rw_content :: "'n json"

text \<open>
  The inner loop on the lines after the opening fence: the block, and the lines from the closing
  fence on. The depth is the variable of the loop.
\<close>

definition push_line :: "string \<Rightarrow> string \<Rightarrow> string" where
  "push_line block line = (if block = [] then line else block @ [NL] @ line)"

fun fence_loop :: "string \<Rightarrow> nat \<Rightarrow> string list \<Rightarrow> string \<times> string list" where
  "fence_loop block depth [] = (block, [])"
| "fence_loop block depth (line # ls) =
     (case strip_prefix ''```'' (trim line) of
        Some fence_suffix \<Rightarrow>
          if depth = 0 \<and> trim fence_suffix \<noteq> [] then fence_loop (push_line block line) (depth + 1) ls
          else if 0 < depth then fence_loop (push_line block line) (depth - 1) ls
          else (block, line # ls)
      | None \<Rightarrow> fence_loop (push_line block line) depth ls)"

lemma fence_loop_length: "length (snd (fence_loop block depth ls)) \<le> length ls"
  by (induction block depth ls rule: fence_loop.induct) (auto split: option.split simp: le_SucI)

function proposal_blocks :: "string list \<Rightarrow> string list" where
  "proposal_blocks [] = []"
| "proposal_blocks (line # ls) =
     (if starts_with ''```proposal'' (trim line)
      then (let (block, rest) = fence_loop [] 0 ls
            in (if trim block = [] then [] else [block]) @ proposal_blocks (drop 1 rest))
      else proposal_blocks ls)"
  by pat_completeness auto
termination
proof (relation "measure length")
  fix line :: string and ls x block rest
  assume "x = fence_loop [] 0 ls" "(block, rest) = x"
  then have "length rest \<le> length ls" using fence_loop_length [of "[]" 0 ls] by (metis snd_conv)
  then show "(drop 1 rest, line # ls) \<in> measure length" by auto
qed auto

definition extract_proposal_blocks :: "string \<Rightarrow> string list" where
  "extract_proposal_blocks t = proposal_blocks (lines_from [] t)"

text \<open>The fallback: the length of the balanced text that starts with the next brace.\<close>

fun brace_end :: "nat \<Rightarrow> string \<Rightarrow> nat option" where
  "brace_end depth [] = None"
| "brace_end depth (c # s) =
     (if c = CHR ''{'' then map_option Suc (brace_end (depth + 1) s)
      else if c = CHR ''}'' then (if depth = 1 then Some 1 else map_option Suc (brace_end (depth - 1) s))
      else map_option Suc (brace_end depth s))"

lemma brace_end_bounds: "brace_end d s = Some n \<Longrightarrow> 0 < n \<and> n \<le> length s"
  by (induction d s arbitrary: n rule: brace_end.induct) (auto split: if_splits)

definition proposal_keys :: "string \<Rightarrow> bool" where
  "proposal_keys t \<longleftrightarrow> contains t (CHR 34 # ''operation'' @ [CHR 34]) \<and> contains t (CHR 34 # ''target_type'' @ [CHR 34])"

function try_extract_json_fallback :: "(string \<Rightarrow> 'n raw_proposal option) \<Rightarrow> string \<Rightarrow> 'n raw_proposal option" where
  "try_extract_json_fallback from_str t =
     (let s = dropWhile (\<lambda>c. c \<noteq> CHR ''{'') t
      in case brace_end 0 s of
           None \<Rightarrow> None
         | Some n \<Rightarrow>
             (case (if proposal_keys (take n s) then from_str (take n s) else None) of
                Some raw \<Rightarrow> Some raw
              | None \<Rightarrow> try_extract_json_fallback from_str (drop n s)))"
  by pat_completeness auto
termination
proof (relation "measure (\<lambda>(_, t). length t)")
  fix from_str :: "string \<Rightarrow> 'n raw_proposal option" and t s n
  assume "s = dropWhile (\<lambda>c. c \<noteq> CHR ''{'') t" "brace_end 0 s = Some n"
  then show "((from_str, drop n s), (from_str, t)) \<in> measure (\<lambda>(_, t). length t)"
    using brace_end_bounds [of 0 s n] length_dropWhile_le [of "\<lambda>c. c \<noteq> CHR ''{''" t] by auto
qed auto

definition to_proposal :: "uuid \<Rightarrow> uuid \<Rightarrow> 'n raw_proposal \<Rightarrow> 'n proposal" where
  "to_proposal session_id i raw =
     \<lparr>pr_id = i, pr_operation = rw_operation raw, pr_content = rw_content raw, pr_session_id = session_id\<rparr>"

definition extract_proposals ::
    "(string \<Rightarrow> 'n raw_proposal option) \<Rightarrow> (nat \<Rightarrow> uuid) \<Rightarrow> uuid \<Rightarrow> string \<Rightarrow> 'n proposal list" where
  "extract_proposals from_str new_id session_id t =
     (let raws = List.map_filter from_str (extract_proposal_blocks t);
          raws' = (if raws = [] \<and> proposal_keys t
                   then (case try_extract_json_fallback from_str t of Some raw \<Rightarrow> [raw] | None \<Rightarrow> [])
                   else raws)
      in map (\<lambda>(i, raw). to_proposal session_id (new_id i) raw) (enumerate 0 raws'))"

definition has_proposals :: "string \<Rightarrow> bool" where
  "has_proposals t \<longleftrightarrow> contains t ''```proposal'' \<or> proposal_keys t"


subsection \<open>Blocks come back\<close>

definition unlines :: "string list \<Rightarrow> string" where
  "unlines ls = concat (map (\<lambda>l. l @ [NL]) ls)"

definition line_ok :: "string \<Rightarrow> bool" where
  "line_ok l \<longleftrightarrow> NL \<notin> set l \<and> strip_cr l = l"

lemma lines_from_append: "NL \<notin> set l \<Longrightarrow> lines_from acc (l @ NL # s) = strip_cr (acc @ l) # lines_from [] s"
  by (induction l arbitrary: acc) auto

lemma lines_unlines: "list_all line_ok ls \<Longrightarrow> lines_from [] (unlines ls) = ls"
  by (induction ls) (auto simp: unlines_def line_ok_def lines_from_append)

text \<open>Lines without a fence, lines that open a fence, and lines that are a fence of any kind.\<close>

definition is_fence :: "string \<Rightarrow> bool" where
  "is_fence l \<longleftrightarrow> starts_with ''```'' (trim l)"

definition opens_fence :: "string \<Rightarrow> bool" where
  "opens_fence l \<longleftrightarrow> (case strip_prefix ''```'' (trim l) of Some suf \<Rightarrow> trim suf \<noteq> [] | None \<Rightarrow> False)"

text \<open>A body in which every inner fence is opened with a language and closed by the next fence.\<close>

fun well_fenced :: "bool \<Rightarrow> string list \<Rightarrow> bool" where
  "well_fenced inside [] \<longleftrightarrow> \<not> inside"
| "well_fenced inside (l # ls) \<longleftrightarrow>
     (if is_fence l then (inside \<or> opens_fence l) \<and> well_fenced (\<not> inside) ls else well_fenced inside ls)"

text \<open>
  The text between the fences: the lines of the body as they stand in the text, without the line feeds at
  their beginning (lost lines without a character) and without the last one.
\<close>

definition block_text :: "string list \<Rightarrow> string" where
  "block_text body = butlast (dropWhile (\<lambda>c. c = NL) (unlines body))"

lemma pushed_nonempty: "block \<noteq> [] \<Longrightarrow> foldl push_line block ls @ [NL] = block @ NL # unlines ls"
proof (induction ls arbitrary: block)
  case (Cons l ls)
  then have "foldl push_line (push_line block l) ls @ [NL] = push_line block l @ NL # unlines ls"
    by (intro Cons.IH) (simp add: push_line_def)
  moreover have "push_line block l = block @ NL # l" using Cons.prems by (simp add: push_line_def)
  ultimately show ?case by (simp add: unlines_def)
qed (simp add: unlines_def)

lemma pushed_text:
  assumes "list_all line_ok ls"
  shows "foldl push_line [] ls = block_text ls"
  using assms
proof (induction ls)
  case (Cons l ls)
  show ?case
  proof (cases l)
    case Nil
    have "push_line [] [] = []" by (simp add: push_line_def)
    then show ?thesis using Cons Nil by (simp add: block_text_def unlines_def)
  next
    case (Cons c cs)
    then have "c \<noteq> NL" using \<open>list_all line_ok (l # ls)\<close> by (auto simp: line_ok_def)
    moreover have "foldl push_line [] (l # ls) @ [NL] = unlines (l # ls)"
      using pushed_nonempty [of l ls] Cons push_line_def [of "[]" l] by (simp add: unlines_def)
    then have "foldl push_line [] (l # ls) = butlast (unlines (l # ls))" by (metis butlast_snoc)
    ultimately show ?thesis using Cons by (simp add: block_text_def unlines_def)
  qed
qed (simp add: block_text_def unlines_def)

lemma fence_loop_body:
  assumes "well_fenced inside ls" "is_fence c" "\<not> opens_fence c"
  shows "fence_loop block (if inside then 1 else 0) (ls @ c # post) = (foldl push_line block ls, c # post)"
  using assms
proof (induction inside ls arbitrary: block rule: well_fenced.induct)
  case (1 inside)
  then show ?case by (auto simp: is_fence_def opens_fence_def strip_prefix_def)
next
  case (2 inside l ls)
  show ?case
  proof (cases "is_fence l")
    case True
    with 2 show ?thesis
      by (cases inside) (auto simp: is_fence_def opens_fence_def strip_prefix_def)
  next
    case False
    with 2 show ?thesis by (auto simp: is_fence_def strip_prefix_def)
  qed
qed

definition opens_proposal :: "string \<Rightarrow> bool" where
  "opens_proposal l \<longleftrightarrow> starts_with ''```proposal'' (trim l)"

lemma blocks_skip: "list_all (\<lambda>l. \<not> opens_proposal l) pre \<Longrightarrow> proposal_blocks (pre @ ls) = proposal_blocks ls"
  by (induction pre) (auto simp: opens_proposal_def)

text \<open>
  C33. Proposal blocks come back: in a text of lines, a block between a proposal fence and its closing
  fence is extracted as the text between them, character by character with its line feeds, except
  for the line feeds at its beginning and the last one; with one level of code fences inside it. The
  search goes on after the closing fence, whatever stands before the block without a proposal fence.
\<close>

theorem proposal_block_round_trip:
  assumes "list_all line_ok (pre @ f # body @ c # post)"
    and "list_all (\<lambda>l. \<not> opens_proposal l) pre" and "opens_proposal f"
    and "well_fenced False body" and "is_fence c" and "\<not> opens_fence c"
    and "trim (block_text body) \<noteq> []"
  shows "extract_proposal_blocks (unlines (pre @ f # body @ c # post)) =
           block_text body # extract_proposal_blocks (unlines post)"
proof -
  have "fence_loop [] 0 (body @ c # post) = (block_text body, c # post)"
    using fence_loop_body [OF assms(4-6), of "[]" post] pushed_text [of body] assms(1) by simp
  then have "proposal_blocks (f # body @ c # post) = block_text body # proposal_blocks post"
    using assms(3,7) by (simp add: opens_proposal_def)
  moreover have "list_all line_ok post" using assms(1) by simp
  ultimately show ?thesis
    using lines_unlines [OF assms(1)] lines_unlines [of post] blocks_skip [OF assms(2)]
    by (simp add: extract_proposal_blocks_def)
qed

theorem proposal_block_round_trip_witness:
  "extract_proposal_blocks (unlines ([''note''] @ ''```proposal'' # [''{1'', '' '', ''```rust'', ''x'', ''```'', ''}''] @ ''```'' # [''end''])) =
     block_text [''{1'', '' '', ''```rust'', ''x'', ''```'', ''}''] # extract_proposal_blocks (unlines [''end''])"
  by (rule proposal_block_round_trip) code_simp+

text \<open>
  A second level of fences cuts the block: a fence opened inside an inner fence counts as the
  closing of the inner one, so that the next fence, which closes it, ends the proposal, and what
  follows is lost from the block.
\<close>

theorem second_fence_level_cuts_block:
  assumes "opens_fence o1" "opens_fence o2" "is_fence c" "\<not> opens_fence c"
    and "list_all (\<lambda>l. \<not> is_fence l) xs" "list_all (\<lambda>l. \<not> is_fence l) ys"
    and "list_all line_ok (o1 # xs @ o2 # ys)"
  shows "fence_loop [] 0 (o1 # xs @ o2 # ys @ c # post) = (block_text (o1 # xs @ o2 # ys), c # post)"
proof -
  have f: "is_fence o1" "is_fence o2"
    using assms(1,2) by (auto simp: opens_fence_def is_fence_def strip_prefix_def split: if_splits)
  have plain: "list_all (\<lambda>l. \<not> is_fence l) zs \<Longrightarrow> well_fenced i (zs @ ls) = well_fenced i ls" for i zs ls
    by (induction zs) auto
  have "well_fenced False (o1 # xs @ o2 # ys)"
    using f assms plain [of xs True "o2 # ys"] plain [of ys False "[]"] by simp
  from fence_loop_body [OF this assms(3,4), of "[]" post] pushed_text [OF assms(7)] show ?thesis by simp
qed

theorem second_fence_level_cuts_block_witness:
  "fence_loop [] 0 (''```md'' # [''a''] @ ''```rust'' # [''b''] @ ''```'' # [''```'', ''}'', ''```'']) =
     (block_text (''```md'' # [''a''] @ ''```rust'' # [''b'']), ''```'' # [''```'', ''}'', ''```''])"
  by (rule second_fence_level_cuts_block) code_simp+

end
