(* ===== verification/Network_Tools.thy ===== *)
theory Network_Tools
  imports Ssrf Plan_Validator
begin

section \<open>The network tools\<close>

text \<open>
  The checks of \<^verbatim>\<open>tools/builtin/web_fetch.rs\<close> and \<^verbatim>\<open>tools/builtin/http_request.rs\<close> before a request is
  sent, the copies of these checks for the container backend in \<^verbatim>\<open>tools/executor.rs\<close>, the headers
  that are passed on, the text that is returned, and the encoding of query parameters. Parsing an
  IPv6 address is a parameter: it is never reached with one, as the host is cut at the first colon.
  Texts are ASCII.
\<close>

subsection \<open>Hosts\<close>

definition to_ascii_uppercase :: "char \<Rightarrow> char" where
  "to_ascii_uppercase c =
     (let n = (of_char c :: nat) in if 97 \<le> n \<and> n \<le> 122 then char_of (n - 32) else c)"

text \<open>\<^verbatim>\<open>Ipv4Addr::from_str\<close>: four decimal numbers of at most three digits, without leading zeros.\<close>

definition parse_octet :: "string \<Rightarrow> u8 option" where
  "parse_octet s =
     (if s \<noteq> [] \<and> list_all is_digit s \<and> length s \<le> 3 \<and> (1 < length s \<longrightarrow> hd s \<noteq> CHR ''0'') \<and> digits_value s \<le> 255
      then Some (of_nat (digits_value s)) else None)"

definition parse_v4 :: "string \<Rightarrow> ipv4 option" where
  "parse_v4 s =
     (case map parse_octet (split_on (CHR ''.'') s) of
        [Some a, Some b, Some c, Some d] \<Rightarrow> Some \<lparr>oct0 = a, oct1 = b, oct2 = c, oct3 = d\<rparr>
      | _ \<Rightarrow> None)"

definition extract_host :: "string \<Rightarrow> string option" where
  "extract_host url =
     (case (case strip_prefix ''https://'' url of Some r \<Rightarrow> Some r | None \<Rightarrow> strip_prefix ''http://'' url) of
        None \<Rightarrow> None
      | Some after_scheme \<Rightarrow>
          (let host = hd (split_on (CHR '':'') (hd (split_on (CHR ''/'') after_scheme)))
           in if host = [] then None else Some (map to_ascii_lowercase host)))"

definition blocked_hosts :: "string list" where
  "blocked_hosts = [''localhost'', ''127.0.0.1'', ''0.0.0.0'', ''::1'', ''[::1]'', ''metadata.google.internal'', ''169.254.169.254'']"

definition is_private_addr :: "ip_addr \<Rightarrow> bool" where
  "is_private_addr ip =
     (case ip of
        V4 a \<Rightarrow> v4_is_loopback a \<or> v4_is_private a \<or> v4_is_link_local a \<or> v4_is_unspecified a \<or>
          (oct0 a = 100 \<and> (oct1 a AND 0xC0) = 64)
      | V6 s \<Rightarrow> v6_is_loopback s \<or> v6_is_unspecified s)"

definition is_private_host :: "(string \<Rightarrow> u16 list option) \<Rightarrow> string \<Rightarrow> bool" where
  "is_private_host parse_v6 host =
     (if host \<in> set blocked_hosts then True
      else (case parse_v4 host of
              Some a \<Rightarrow> is_private_addr (V4 a)
            | None \<Rightarrow> (case parse_v6 host of Some s \<Rightarrow> is_private_addr (V6 s) | None \<Rightarrow> False)))"

subsection \<open>Fetching a page\<close>

datatype fetch_error =
    UrlNotAllowed string
  | FetchRequestFailed string
  | FetchResponseTooLarge nat nat
  | FetchSsrfBlocked string
  | UnsupportedContentType string

record fetch_config =
  fc_allow_http :: bool
  fc_max_body_bytes :: nat
  fc_max_text_chars :: nat
  fc_timeout_secs :: nat

definition fetch_config_default :: fetch_config where
  "fetch_config_default =
     \<lparr>fc_allow_http = False, fc_max_body_bytes = 1048576, fc_max_text_chars = 16000, fc_timeout_secs = 15\<rparr>"

text \<open>The checks of \<^verbatim>\<open>fetch_url\<close>, up to the request.\<close>

definition fetch_check :: "(string \<Rightarrow> u16 list option) \<Rightarrow> fetch_config \<Rightarrow> string \<Rightarrow> fetch_error + string" where
  "fetch_check parse_v6 config url0 =
     (let url = trim url0 in
      if starts_with ''http://'' url \<and> \<not> fc_allow_http config
      then Inl (UrlNotAllowed ''HTTP URLs are not allowed. Only HTTPS is permitted.'')
      else if \<not> starts_with ''http://'' url \<and> \<not> starts_with ''https://'' url
      then Inl (UrlNotAllowed (''Unsupported URL scheme. Only HTTP(S) is allowed: '' @ take 100 url))
      else (case extract_host url of
              None \<Rightarrow> Inl (UrlNotAllowed ''Cannot parse host from URL'')
            | Some host \<Rightarrow> if is_private_host parse_v6 host then Inl (FetchSsrfBlocked host) else Inr url))"

subsection \<open>A general request\<close>

datatype http_request_error =
    HrUrlNotAllowed string
  | HrMethodNotAllowed string
  | HrDomainNotAllowed string
  | HrRequestTooLarge nat nat
  | HrResponseTooLarge nat nat
  | HrRequestFailed string
  | HrSsrfBlocked string

record http_request_config =
  hc_allow_http :: bool
  hc_allowed_methods :: "string list"
  hc_allowed_domains :: "string list"
  hc_max_request_bytes :: nat
  hc_max_response_bytes :: nat
  hc_timeout_secs :: nat

definition http_request_config_default :: http_request_config where
  "http_request_config_default =
     \<lparr>hc_allow_http = False, hc_allowed_methods = [''GET'', ''POST'', ''PUT'', ''PATCH'', ''DELETE''],
      hc_allowed_domains = [], hc_max_request_bytes = 1048576, hc_max_response_bytes = 2097152, hc_timeout_secs = 30\<rparr>"

text \<open>The checks of \<^verbatim>\<open>http_request\<close>, up to the request: the method and URL to use, or an error.\<close>

definition http_check ::
    "(string \<Rightarrow> u16 list option) \<Rightarrow> http_request_config \<Rightarrow> string \<Rightarrow> string \<Rightarrow> string option
      \<Rightarrow> http_request_error + string \<times> string" where
  "http_check parse_v6 config url0 meth body =
     (let url = trim url0; method_upper = map to_ascii_uppercase (trim meth) in
      if \<not> list_ex (\<lambda>m. map to_ascii_uppercase m = method_upper) (hc_allowed_methods config)
      then Inl (HrMethodNotAllowed (method_upper @ '' is not in allowed methods''))
      else if starts_with ''http://'' url \<and> \<not> hc_allow_http config
      then Inl (HrUrlNotAllowed ''HTTP URLs are not allowed. Only HTTPS is permitted.'')
      else if \<not> starts_with ''http://'' url \<and> \<not> starts_with ''https://'' url
      then Inl (HrUrlNotAllowed (''Unsupported URL scheme. Only HTTP(S) is allowed: '' @ take 100 url))
      else if (case body of Some b \<Rightarrow> hc_max_request_bytes config < length b | None \<Rightarrow> False)
      then Inl (HrRequestTooLarge (length (the body)) (hc_max_request_bytes config))
      else (case extract_host url of
              None \<Rightarrow> Inl (HrUrlNotAllowed ''Cannot parse host from URL'')
            | Some host \<Rightarrow>
                if is_private_host parse_v6 host then Inl (HrSsrfBlocked host)
                else if hc_allowed_domains config = []
                then Inl (HrDomainNotAllowed ''HTTP request tool disabled: no allowed domains configured'')
                else if \<not> list_ex (\<lambda>d. host = map to_ascii_lowercase d \<or> ends_with (''.'' @ map to_ascii_lowercase d) host)
                           (hc_allowed_domains config)
                then Inl (HrDomainNotAllowed (''Domain '' @ host @ '' is not in the allowlist''))
                else Inr (method_upper, url)))"

text \<open>The headers of the request: those given but the host, and a content type for a body without one.\<close>

definition request_headers :: "(string \<times> string) list \<Rightarrow> string option \<Rightarrow> (string \<times> string) list" where
  "request_headers headers body =
     filter (\<lambda>(k, _). map to_ascii_lowercase k \<noteq> ''host'') headers @
     (case body of
        None \<Rightarrow> []
      | Some b \<Rightarrow>
          if list_ex (\<lambda>(k, _). map to_ascii_lowercase k = ''content-type'') headers then []
          else if (starts_with ''{'' b \<and> ends_with ''}'' b) \<or> (starts_with ''['' b \<and> ends_with '']'' b)
          then [(''Content-Type'', ''application/json'')]
          else [(''Content-Type'', ''text/plain'')])"

definition safe_header_keys :: "string list" where
  "safe_header_keys =
     [''content-type'', ''content-length'', ''x-request-id'', ''x-ratelimit-limit'', ''x-ratelimit-remaining'',
      ''x-ratelimit-reset'', ''retry-after'', ''location'', ''etag'', ''last-modified'', ''cache-control'', ''date'']"

definition extract_safe_headers :: "(string \<Rightarrow> string option) \<Rightarrow> (string \<times> string) list" where
  "extract_safe_headers headers =
     List.map_filter (\<lambda>k. map_option (\<lambda>v. (k, v)) (headers k)) safe_header_keys"

record http_request_result =
  hr_url :: string
  hr_method :: string
  hr_status :: u16
  hr_headers :: "(string \<times> string) list"
  hr_body :: string
  hr_content_type :: string
  hr_truncated :: bool
  hr_body_length :: nat

definition safe_truncate :: "string \<Rightarrow> nat \<Rightarrow> string" where
  "safe_truncate s n = (if length s \<le> n then s else take n s)"

definition finalize_http_request_result ::
    "string \<Rightarrow> string \<Rightarrow> u16 \<Rightarrow> (string \<times> string) list \<Rightarrow> string \<Rightarrow> string \<Rightarrow> http_request_config
      \<Rightarrow> http_request_error + http_request_result" where
  "finalize_http_request_result final_url method_upper status headers body_bytes content_type config =
     (if hc_max_response_bytes config < length body_bytes
      then Inl (HrResponseTooLarge (length body_bytes) (hc_max_response_bytes config))
      else
        (let truncated = (32000 < length body_bytes);
             body_out = (if truncated then safe_truncate body_bytes 32000 @ [CHR 10, CHR 10] @ ''[Response truncated]'' else body_bytes)
         in Inr \<lparr>hr_url = final_url, hr_method = method_upper, hr_status = status, hr_headers = headers,
                 hr_body = body_out, hr_content_type = content_type, hr_truncated = truncated,
                 hr_body_length = length body_out\<rparr>))"

text \<open>What the client returns for a sent request: an error, or the response with its length header.\<close>

record http_reply =
  ry_final_url :: string
  ry_status :: u16
  ry_headers :: "string \<Rightarrow> string option"
  ry_content_length :: "nat option"
  ry_body :: string

definition send_http_request ::
    "(string \<Rightarrow> u16 list option) \<Rightarrow> (string \<Rightarrow> string \<Rightarrow> (string \<times> string) list \<Rightarrow> string option \<Rightarrow> string + http_reply)
      \<Rightarrow> http_request_config \<Rightarrow> string \<Rightarrow> string \<Rightarrow> (string \<times> string) list \<Rightarrow> string option
      \<Rightarrow> http_request_error + http_request_result" where
  "send_http_request parse_v6 send config url meth headers body =
     (case http_check parse_v6 config url meth body of
        Inl e \<Rightarrow> Inl e
      | Inr (m, u) \<Rightarrow>
          (case send m u (request_headers headers body) body of
             Inl err \<Rightarrow> Inl (HrRequestFailed err)
           | Inr reply \<Rightarrow>
               if (case ry_content_length reply of Some cl \<Rightarrow> hc_max_response_bytes config < cl | None \<Rightarrow> False)
               then Inl (HrResponseTooLarge (the (ry_content_length reply)) (hc_max_response_bytes config))
               else finalize_http_request_result (ry_final_url reply) m (ry_status reply)
                      (extract_safe_headers (ry_headers reply)) (ry_body reply)
                      (case ry_headers reply ''content-type'' of Some t \<Rightarrow> t | None \<Rightarrow> ''unknown'') config))"


subsection \<open>The checks for the container backend\<close>

text \<open>\<^verbatim>\<open>executor.rs\<close> repeats the checks; every error is an execution failure there.\<close>

definition extract_host_for_network :: "string \<Rightarrow> string option" where
  "extract_host_for_network url =
     (case (if starts_with ''https://'' url then Some (drop 8 url)
            else if starts_with ''http://'' url then Some (drop 7 url) else None) of
        None \<Rightarrow> None
      | Some r \<Rightarrow>
          (let host = takeWhile (\<lambda>c. c \<noteq> CHR '':'') (takeWhile (\<lambda>c. c \<noteq> CHR ''/'') r)
           in if host = [] then None else Some (map to_ascii_lowercase host)))"

definition is_private_host_for_network :: "(string \<Rightarrow> u16 list option) \<Rightarrow> string \<Rightarrow> bool" where
  "is_private_host_for_network parse_v6 host \<longleftrightarrow>
     host \<in> {''localhost'', ''127.0.0.1'', ''0.0.0.0'', ''::1'', ''[::1]'', ''metadata.google.internal'', ''169.254.169.254''} \<or>
     (case parse_v4 host of
        Some a \<Rightarrow> v4_is_loopback a \<or> v4_is_private a \<or> v4_is_link_local a \<or> v4_is_unspecified a \<or>
          (oct0 a = 100 \<and> (oct1 a AND 0xC0) = 64)
      | None \<Rightarrow> (case parse_v6 host of Some s \<Rightarrow> v6_is_loopback s \<or> v6_is_unspecified s | None \<Rightarrow> False))"

definition validate_fetch_url :: "(string \<Rightarrow> u16 list option) \<Rightarrow> fetch_config \<Rightarrow> string \<Rightarrow> string + unit" where
  "validate_fetch_url parse_v6 config url0 =
     (let url = trim url0 in
      if starts_with ''http://'' url \<and> \<not> fc_allow_http config
      then Inl ''HTTP URLs are not allowed. Only HTTPS is permitted.''
      else if \<not> starts_with ''http://'' url \<and> \<not> starts_with ''https://'' url
      then Inl (''Unsupported URL scheme. Only HTTP(S) is allowed: '' @ take 100 url)
      else (case extract_host_for_network url of
              None \<Rightarrow> Inl ''Cannot parse host from URL''
            | Some host \<Rightarrow>
                if is_private_host_for_network parse_v6 host
                then Inl (''SSRF blocked: '' @ host @ '' resolves to private/internal IP'') else Inr ()))"

definition validate_http_request ::
    "(string \<Rightarrow> u16 list option) \<Rightarrow> http_request_config \<Rightarrow> string \<Rightarrow> string \<Rightarrow> string option \<Rightarrow> string + string" where
  "validate_http_request parse_v6 config url0 meth body =
     (let url = trim url0; method_upper = map to_ascii_uppercase (trim meth) in
      if \<not> list_ex (\<lambda>m. map to_ascii_uppercase m = method_upper) (hc_allowed_methods config)
      then Inl (method_upper @ '' is not in allowed methods'')
      else if starts_with ''http://'' url \<and> \<not> hc_allow_http config
      then Inl ''HTTP URLs are not allowed. Only HTTPS is permitted.''
      else if \<not> starts_with ''http://'' url \<and> \<not> starts_with ''https://'' url
      then Inl (''Unsupported URL scheme. Only HTTP(S) is allowed: '' @ take 100 url)
      else if (case body of Some b \<Rightarrow> hc_max_request_bytes config < length b | None \<Rightarrow> False)
      then Inl ''request body too large''
      else (case extract_host_for_network url of
              None \<Rightarrow> Inl ''Cannot parse host from URL''
            | Some host \<Rightarrow>
                if is_private_host_for_network parse_v6 host
                then Inl (''SSRF blocked: '' @ host @ '' resolves to private/internal IP'')
                else if hc_allowed_domains config = []
                then Inl ''HTTP request tool disabled: no allowed domains configured''
                else if \<not> list_ex (\<lambda>d. host = map to_ascii_lowercase d \<or> ends_with (''.'' @ map to_ascii_lowercase d) host)
                           (hc_allowed_domains config)
                then Inl (''Domain '' @ host @ '' is not in the allowlist'')
                else Inr method_upper))"

lemma split_on_nonempty: "split_on d s \<noteq> []"
  by (induction s) (auto split: list.split)

lemma hd_split_on: "hd (split_on d s) = takeWhile (\<lambda>c. c \<noteq> d) s"
proof (induction s)
  case (Cons c s)
  then show ?case using split_on_nonempty [of d s] by (cases "split_on d s") auto
qed simp

lemma hosts_agree: "extract_host_for_network url = extract_host url"
  by (auto simp: extract_host_for_network_def extract_host_def strip_prefix_def hd_split_on numeral_eq_Suc)

lemma private_hosts_agree: "is_private_host_for_network p host = is_private_host p host"
  by (auto simp: is_private_host_for_network_def is_private_host_def blocked_hosts_def is_private_addr_def
      split: option.splits)

text \<open>
  The two copies of the network checks agree: a page or a request is let through to the container
  exactly when the checks of the tool itself let it through, with the same method and the same host.
\<close>

theorem container_checks_agree:
  "(validate_fetch_url p fc url = Inr () \<longleftrightarrow> fetch_check p fc url = Inr (trim url)) \<and>
   (validate_http_request p hc url meth body = Inr m \<longleftrightarrow> http_check p hc url meth body = Inr (m, trim url))"
proof
  show "validate_fetch_url p fc url = Inr () \<longleftrightarrow> fetch_check p fc url = Inr (trim url)"
    by (simp add: validate_fetch_url_def fetch_check_def hosts_agree private_hosts_agree Let_def split: option.split)
  show "validate_http_request p hc url meth body = Inr m \<longleftrightarrow> http_check p hc url meth body = Inr (m, trim url)"
    by (simp add: validate_http_request_def http_check_def hosts_agree private_hosts_agree Let_def split: option.split)
qed

subsection \<open>What the checks block\<close>

definition show_v4 :: "ipv4 \<Rightarrow> string" where
  "show_v4 a = show_nat (unat (oct0 a)) @ ''.'' @ show_nat (unat (oct1 a)) @ ''.'' @ show_nat (unat (oct2 a)) @ ''.'' @
     show_nat (unat (oct3 a))"

lemma show_nat_short: "n < 1000 \<Longrightarrow> length (show_nat n) \<le> 3"
proof -
  have one: "m < 10 \<Longrightarrow> length (show_nat m) = 1" for m by (simp add: show_nat.simps)
  have two: "m < 100 \<Longrightarrow> length (show_nat m) \<le> 2" for m
    using one [of "m div 10"] by (subst show_nat.simps) auto
  show "n < 1000 \<Longrightarrow> length (show_nat n) \<le> 3"
    using two [of "n div 10"] by (subst show_nat.simps) auto
qed

lemma show_nat_leading: "0 < n \<Longrightarrow> hd (show_nat n) \<noteq> CHR ''0''"
proof (induction n rule: show_nat.induct)
  case (1 n)
  have digit: "char_of (48 + m) \<noteq> CHR ''0''" if "0 < m" "m < 10" for m :: nat
  proof
    assume "char_of (48 + m) = CHR ''0''"
    then have "of_char (char_of (48 + m) :: char) = (48 :: nat)" by simp
    with that show False by simp
  qed
  show ?case
  proof (cases "n < 10")
    case True
    then show ?thesis using 1 digit by (subst show_nat.simps) simp
  next
    case False
    then show ?thesis using 1 show_nat_digits(2) [of "n div 10"] by (subst show_nat.simps) simp
  qed
qed

lemma parse_show_octet: "parse_octet (show_nat (unat (w :: u8))) = Some w"
proof -
  have "1 < length (show_nat (unat w)) \<longrightarrow> hd (show_nat (unat w)) \<noteq> CHR ''0''"
    using show_nat_leading [of "unat w"] by (cases "unat w = 0") (auto simp: show_nat.simps)
  then show ?thesis
    using show_nat_digits [of "unat w"] show_nat_short [of "unat w"] octet_less [of w]
    by (simp add: parse_octet_def digits_value_show_nat)
qed

lemma parse_show_v4: "parse_v4 (show_v4 a) = Some a"
proof -
  have dot: "CHR ''.'' \<notin> set (show_nat n)" for n
    by (rule show_nat_no_char) (simp add: is_digit_def)
  show ?thesis
    by (simp add: parse_v4_def show_v4_def split_on_append [OF dot] split_on_none [OF dot] parse_show_octet)
qed


text \<open>A host of the given form comes out of the URL as it is, whatever follows it.\<close>

definition plain_host :: "string \<Rightarrow> bool" where
  "plain_host h \<longleftrightarrow> h \<noteq> [] \<and> list_all (\<lambda>c. \<not> is_ascii_whitespace c \<and> c \<noteq> CHR ''/'' \<and> c \<noteq> CHR '':'') h"

definition host_ends :: "string \<Rightarrow> bool" where
  "host_ends t \<longleftrightarrow> t = [] \<or> hd t = CHR ''/'' \<or> hd t = CHR '':''"

lemma trim_keeps_front:
  assumes "\<not> is_ascii_whitespace (hd u)" "u \<noteq> []" "\<not> is_ascii_whitespace (last u)"
  shows "\<exists>t'. trim (u @ t) = u @ t' \<and> (\<exists>r. t = t' @ r)"
proof -
  have "dropWhile is_ascii_whitespace (u @ t) = u @ t"
    using assms(1,2) by (cases u) auto
  moreover have "dropWhile is_ascii_whitespace (rev t @ rev u) = dropWhile is_ascii_whitespace (rev t) @ rev u"
  proof (cases "\<forall>c \<in> set (rev t). is_ascii_whitespace c")
    case True
    moreover have "dropWhile is_ascii_whitespace (rev u) = rev u"
      using assms(2,3) by (cases u rule: rev_cases) auto
    ultimately show ?thesis by (metis append_Nil dropWhile_append2 dropWhile_eq_Nil_conv)
  qed (meson dropWhile_append1)
  moreover have "\<exists>r. t = rev (dropWhile is_ascii_whitespace (rev t)) @ r"
    by (metis rev_append rev_rev_ident takeWhile_dropWhile_id)
  ultimately show ?thesis by (auto simp: trim_def trim_matches_def)
qed

lemma host_of_url:
  assumes "plain_host h" "host_ends t"
  shows "extract_host (trim (''https://'' @ h @ t)) = Some (map to_ascii_lowercase h)"
    and "starts_with ''https://'' (trim (''https://'' @ h @ t))"
    and "\<not> starts_with ''http://'' (trim (''https://'' @ h @ t))"
proof -
  have "last (''https://'' @ h) = last h" "\<not> is_ascii_whitespace (last h)"
    using assms(1) by (auto simp: plain_host_def list_all_iff)
  then obtain t' r where t: "trim (''https://'' @ h @ t) = ''https://'' @ h @ t'" "t = t' @ r"
    using trim_keeps_front [of "''https://'' @ h" t] by (auto simp: is_ascii_whitespace_def)
  have "host_ends t'"
    using assms(2) t(2) by (cases t') (auto simp: host_ends_def)
  then have stop: "takeWhile (\<lambda>c. c \<noteq> CHR '':'') (takeWhile (\<lambda>c. c \<noteq> CHR ''/'') t') = []"
    by (cases t') (auto simp: host_ends_def)
  have h: "\<And>c. c \<in> set h \<Longrightarrow> c \<noteq> CHR '':''" "\<And>c. c \<in> set h \<Longrightarrow> c \<noteq> CHR ''/''"
    using assms(1) by (auto simp: plain_host_def list_all_iff)
  have "takeWhile (\<lambda>c. c \<noteq> CHR '':'') (takeWhile (\<lambda>c. c \<noteq> CHR ''/'') (h @ t')) = h"
    using h stop by (simp add: takeWhile_append2)
  then show "extract_host (trim (''https://'' @ h @ t)) = Some (map to_ascii_lowercase h)"
    using assms(1) unfolding t(1)
    by (simp add: extract_host_def strip_prefix_def starts_with_def hd_split_on plain_host_def)
  show "starts_with ''https://'' (trim (''https://'' @ h @ t))" "\<not> starts_with ''http://'' (trim (''https://'' @ h @ t))"
    unfolding t(1) by (simp_all add: starts_with_def)
qed

lemma show_v4_plain: "plain_host (show_v4 a)" "map to_ascii_lowercase (show_v4 a) = show_v4 a"
proof -
  have c: "\<forall>c \<in> set (show_v4 a). is_digit c \<or> c = CHR ''.''"
    using show_nat_digits(1) by (auto simp: show_v4_def list_all_iff)
  moreover have "is_digit c \<or> c = CHR ''.'' \<Longrightarrow>
      \<not> is_ascii_whitespace c \<and> c \<noteq> CHR ''/'' \<and> c \<noteq> CHR '':'' \<and> to_ascii_lowercase c = c" for c
    by (auto simp: is_digit_def is_ascii_whitespace_def to_ascii_lowercase_def)
  ultimately have all: "\<forall>c \<in> set (show_v4 a). \<not> is_ascii_whitespace c \<and> c \<noteq> CHR ''/'' \<and> c \<noteq> CHR '':'' \<and>
      to_ascii_lowercase c = c"
    by blast
  moreover have "show_v4 a \<noteq> []" by (simp add: show_v4_def)
  ultimately show "plain_host (show_v4 a)" by (simp add: plain_host_def list_all_iff)
  from all show "map to_ascii_lowercase (show_v4 a) = show_v4 a" by (intro map_idI) simp
qed

text \<open>
  A private IPv4 address in a URL is always blocked: for every address of the seven blocked
  networks, written in decimal, the fetch is refused for every port, path and trailing text.
\<close>

theorem private_literal_blocked:
  assumes "list_ex (\<lambda>(net, len). in_network (v4_value a) net len) blocked_networks" and "host_ends t"
  shows "fetch_check p fc (''https://'' @ show_v4 a @ t) = Inl (FetchSsrfBlocked (show_v4 a))"
proof -
  have "is_private_addr (V4 a)"
    using assms(1) v4_networks [of a] by (simp add: is_private_addr_def is_private_ip_def is_v4_shared_def)
  then have "is_private_host p (show_v4 a)"
    by (simp add: is_private_host_def parse_show_v4)
  then show ?thesis
    using host_of_url [OF show_v4_plain(1) assms(2)] by (simp add: fetch_check_def Let_def show_v4_plain(2))
qed

theorem private_literal_blocked_witness:
  "fetch_check (\<lambda>_. None) fetch_config_default (''https://'' @ show_v4 \<lparr>oct0 = 10, oct1 = 1, oct2 = 2, oct3 = 3\<rparr> @ '':80/x'') =
     Inl (FetchSsrfBlocked (show_v4 \<lparr>oct0 = 10, oct1 = 1, oct2 = 2, oct3 = 3\<rparr>))"
  by (rule private_literal_blocked) (simp_all add: blocked_networks_def in_network_def v4_value_def host_ends_def)


text \<open>
  User information hides the host: with an allowed domain before the first colon, a request passes
  the private-address check and the domain allow list whatever host follows the at sign, so that
  the request goes to an address that neither check has seen.
\<close>

theorem userinfo_hides_host:
  assumes "plain_host d" "map to_ascii_lowercase d = d" "d \<in> set (hc_allowed_domains hc)" "\<not> is_private_host p d"
    and "list_ex (\<lambda>m. map to_ascii_uppercase m = map to_ascii_uppercase (trim meth)) (hc_allowed_methods hc)"
  shows "\<exists>url. http_check p hc (''https://'' @ d @ '':x@'' @ target) meth None =
           Inr (map to_ascii_uppercase (trim meth), url)"
proof -
  have "host_ends ('':x@'' @ target)" by (simp add: host_ends_def)
  note url = host_of_url [OF assms(1) this]
  have "list_ex (\<lambda>e. d = map to_ascii_lowercase e \<or> ends_with (''.'' @ map to_ascii_lowercase e) d) (hc_allowed_domains hc)"
    using assms(2,3) by (auto simp: list_ex_iff intro!: bexI [of _ d])
  moreover have "hc_allowed_domains hc \<noteq> []" using assms(3) by auto
  ultimately show ?thesis
    using url assms(2,4,5) unfolding http_check_def Let_def by simp
qed

theorem userinfo_hides_host_witness:
  "\<exists>url. http_check (\<lambda>_. None) (http_request_config_default\<lparr>hc_allowed_domains := [''api.example.com'']\<rparr>)
       (''https://'' @ ''api.example.com'' @ '':x@'' @ ''169.254.169.254/latest/meta-data'') ''get'' None =
     Inr (map to_ascii_uppercase (trim ''get''), url)"
  by (rule userinfo_hides_host)
     (simp_all add: http_request_config_default_def plain_host_def is_ascii_whitespace_def to_ascii_lowercase_def
       to_ascii_uppercase_def is_private_host_def blocked_hosts_def parse_v4_def parse_octet_def is_digit_def
       trim_def trim_matches_def Let_def, code_simp)

text \<open>
  An address in IPv6 form is never blocked: the host is cut at its first colon, inside the
  brackets, so that the loopback address, the unspecified address and every other IPv6 address pass
  the check, although the list of blocked hosts names the loopback address in both spellings.
\<close>

theorem ipv6_literal_never_blocked:
  assumes "\<And>s. CHR '':'' \<notin> set s \<Longrightarrow> p s = None" and "list_all (\<lambda>c. c \<noteq> CHR ''/'' \<and> c \<noteq> CHR ''.'' \<and> \<not> is_ascii_whitespace c) v6"
  shows "\<exists>url. fetch_check p fc (''https://['' @ v6 @ '':'' @ rest) = Inr url"
proof -
  define h where "h = CHR ''['' # takeWhile (\<lambda>c. c \<noteq> CHR '':'') v6"
  define t where "t = dropWhile (\<lambda>c. c \<noteq> CHR '':'') v6 @ '':'' @ rest"
  have url: "''https://['' @ v6 @ '':'' @ rest = ''https://'' @ h @ t"
    by (simp add: h_def t_def)
  have h: "plain_host h"
    using assms(2) by (auto simp: plain_host_def h_def list_all_iff is_ascii_whitespace_def dest!: set_takeWhileD)
  have t: "host_ends t"
  proof (cases "dropWhile (\<lambda>c. c \<noteq> CHR '':'') v6")
    case (Cons c cs)
    then have "c = CHR '':''" using hd_dropWhile [of "\<lambda>c. c \<noteq> CHR '':''" v6] by simp
    with Cons show ?thesis by (simp add: host_ends_def t_def)
  next
    case Nil
    show ?thesis unfolding t_def Nil by (simp add: host_ends_def)
  qed
  define l where "l = map to_ascii_lowercase h"
  have keep: "d \<notin> set h \<Longrightarrow> d \<notin> set l" if "\<not> (97 \<le> (of_char d :: nat) \<and> (of_char d :: nat) \<le> 122)" for d
  proof
    assume "d \<notin> set h" "d \<in> set l"
    then obtain c where "c \<in> set h" "to_ascii_lowercase c = d" by (auto simp: l_def)
    with that have "c = d" by (auto simp: to_ascii_lowercase_def Let_def split: if_splits)
    with \<open>c \<in> set h\<close> \<open>d \<notin> set h\<close> show False by simp
  qed
  have colon: "CHR '':'' \<notin> set l"
    using h by (intro keep) (auto simp: plain_host_def list_all_iff)
  have dot: "CHR ''.'' \<notin> set l"
    using assms(2) by (intro keep) (auto simp: h_def list_all_iff dest: set_takeWhileD)
  have "hd l = CHR ''[''" "l \<noteq> []" by (simp_all add: l_def h_def to_ascii_lowercase_def)
  then have "l \<notin> set blocked_hosts"
    using colon by (auto simp: blocked_hosts_def)
  moreover have "parse_v4 l = None"
    by (simp add: parse_v4_def split_on_none [OF dot] split: option.split)
  ultimately have "\<not> is_private_host p l"
    using assms(1) [OF colon] by (simp add: is_private_host_def)
  then show ?thesis
    using host_of_url [OF h t] unfolding url fetch_check_def Let_def l_def by simp
qed

theorem ipv6_literal_never_blocked_witness:
  "\<exists>url. fetch_check (\<lambda>_. None) fetch_config_default (''https://['' @ '':'' @ '':'' @ ''1]/'') = Inr url"
  by (rule ipv6_literal_never_blocked) (simp_all add: is_ascii_whitespace_def)

subsection \<open>Query parameters\<close>

definition unreserved :: "nat \<Rightarrow> bool" where
  "unreserved b \<longleftrightarrow> (65 \<le> b \<and> b \<le> 90) \<or> (97 \<le> b \<and> b \<le> 122) \<or> (48 \<le> b \<and> b \<le> 57) \<or> b \<in> {45, 95, 46, 126}"

definition HEX_CHARS :: string where
  "HEX_CHARS = ''0123456789ABCDEF''"

definition encode_byte :: "char \<Rightarrow> string" where
  "encode_byte c =
     (let b = (of_char c :: nat)
      in if unreserved b then [c]
         else if c = CHR '' '' then ''%20''
         else [CHR ''%'', HEX_CHARS ! (b div 16), HEX_CHARS ! (b mod 16)])"

definition urlencoded :: "string \<Rightarrow> string" where
  "urlencoded s = concat (map encode_byte s)"

text \<open>The decoding a server applies.\<close>

definition hex_value :: "char \<Rightarrow> nat" where
  "hex_value c = (let n = (of_char c :: nat) in if 48 \<le> n \<and> n \<le> 57 then n - 48 else n - 55)"

fun url_decode :: "string \<Rightarrow> string" where
  "url_decode (a # b # c # s) =
     (if a = CHR ''%'' then char_of (hex_value b * 16 + hex_value c) # url_decode s else a # url_decode (b # c # s))"
| "url_decode s = s"

lemma decode_plain: "a \<noteq> CHR ''%'' \<Longrightarrow> url_decode (a # s) = a # url_decode s"
  by (cases s rule: url_decode.cases) auto

lemma hex_digit: "n < 16 \<Longrightarrow> hex_value (HEX_CHARS ! n) = n"
proof -
  have "list_all (\<lambda>n. hex_value (HEX_CHARS ! n) = n) [0..<16]" by code_simp
  then show "n < 16 \<Longrightarrow> ?thesis" by (simp add: list_all_iff)
qed

lemma decode_encode_byte: "url_decode (encode_byte c @ s) = c # url_decode s"
proof -
  have b: "(of_char c :: nat) < 256" by simp
  have "(of_char c :: nat) div 16 < 16" "(of_char c :: nat) mod 16 < 16"
    using b by (simp_all add: less_mult_imp_div_less)
  note hex = hex_digit [OF this(1)] hex_digit [OF this(2)]
  then have escaped: "url_decode ([CHR ''%'', HEX_CHARS ! (of_char c div 16), HEX_CHARS ! (of_char c mod 16)] @ s) = c # url_decode s"
    by (simp add: div_mult_mod_eq)
  have space: "url_decode (''%20'' @ s) = CHR '' '' # url_decode s"
    using char_of_char [of "CHR '' ''"] by (simp add: hex_value_def del: char_of_char)
  have plain: "unreserved (of_char c) \<Longrightarrow> c \<noteq> CHR ''%''"
    by (auto simp: unreserved_def)
  show ?thesis
  proof (cases "unreserved (of_char c)")
    case True
    with plain show ?thesis by (simp add: encode_byte_def decode_plain)
  next
    case False
    with escaped space show ?thesis
      by (cases "c = CHR '' ''") (simp_all only: encode_byte_def Let_def if_True if_False simp_thms)
  qed
qed

text \<open>
  Encoding a query parameter loses nothing and is safe: decoding gives the text back, and the
  encoded text consists of unreserved characters and percent escapes, so that no character of the
  query can end the parameter or start another one.
\<close>

theorem urlencoded_round_trip:
  "url_decode (urlencoded s) = s \<and>
   list_all (\<lambda>c. unreserved (of_char c) \<or> c = CHR ''%'') (urlencoded s)"
proof
  show "url_decode (urlencoded s) = s"
    by (induction s) (simp_all add: urlencoded_def decode_encode_byte)
  have hex: "n < 16 \<Longrightarrow> unreserved (of_char (HEX_CHARS ! n))" for n
  proof -
    have "list_all (\<lambda>n. unreserved (of_char (HEX_CHARS ! n))) [0..<16]" by code_simp
    then show "n < 16 \<Longrightarrow> ?thesis" by (simp add: list_all_iff)
  qed
  have "list_all (\<lambda>c. unreserved (of_char c) \<or> c = CHR ''%'') (encode_byte c)" for c
  proof -
    have "(of_char c :: nat) < 256" by simp
    then have "(of_char c :: nat) div 16 < 16" "(of_char c :: nat) mod 16 < 16"
      by (simp_all add: less_mult_imp_div_less)
    from this [THEN hex] have "unreserved (of_char (HEX_CHARS ! (of_char c div 16)))"
        "unreserved (of_char (HEX_CHARS ! (of_char c mod 16)))" .
    moreover have "list_all (\<lambda>c. unreserved (of_char c) \<or> c = CHR ''%'') ''%20''"
      by (simp add: unreserved_def)
    ultimately show ?thesis unfolding encode_byte_def Let_def by (simp split: if_split)
  qed
  then show "list_all (\<lambda>c. unreserved (of_char c) \<or> c = CHR ''%'') (urlencoded s)"
    by (induction s) (simp_all add: urlencoded_def)
qed

end
