(* ===== verification/Tool_Sandbox.thy ===== *)
theory Tool_Sandbox
  imports Network_Tools Policy
begin

section \<open>Local tools and the registry\<close>

text \<open>
  \<^verbatim>\<open>tools/registry.rs\<close> with the table of \<^verbatim>\<open>register_builtin_tools\<close>, the file system tool's paths
  (\<^verbatim>\<open>tools/builtin/filesystem.rs\<close>), the allow list of the shell tool (\<^verbatim>\<open>tools/builtin/shell.rs\<close>) and the
  memory tool (\<^verbatim>\<open>tools/builtin/memory.rs\<close>). An absolute path is the list of its parts; the workspace
  root is absolute. Descriptions and parameter schemas of tools are left out.
\<close>

subsection \<open>The registry\<close>

record registered_tool =
  rt_name :: string
  rt_capability :: string
  rt_hidden_at_level :: u8
  rt_timeout_secs :: nat

type_synonym tool_registry = "(string, registered_tool) btree_map"

definition registry_new :: tool_registry where
  "registry_new = bt_new"

definition registry_register :: "registered_tool \<Rightarrow> tool_registry \<Rightarrow> tool_registry" where
  "registry_register tool reg = bt_insert (rt_name tool) tool reg"

definition registry_lookup :: "tool_registry \<Rightarrow> string \<Rightarrow> registered_tool option" where
  "registry_lookup reg name = bt_get reg name"

definition schemas_filtered :: "u8 \<Rightarrow> tool_registry \<Rightarrow> registered_tool list" where
  "schemas_filtered level reg = filter (\<lambda>t. level < rt_hidden_at_level t) (bt_values reg)"

definition required_capabilities :: "tool_registry \<Rightarrow> string set" where
  "required_capabilities reg = set (filter (\<lambda>c. c \<noteq> []) (map (trim \<circ> rt_capability) (bt_values reg)))"

definition builtin_tools :: "registered_tool list" where
  "builtin_tools =
     [\<lparr>rt_name = ''read_file'', rt_capability = ''file_read'', rt_hidden_at_level = 5, rt_timeout_secs = 10\<rparr>,
      \<lparr>rt_name = ''write_file'', rt_capability = ''filesystem_write'', rt_hidden_at_level = 4, rt_timeout_secs = 10\<rparr>,
      \<lparr>rt_name = ''list_dir'', rt_capability = ''filesystem_read'', rt_hidden_at_level = 5, rt_timeout_secs = 10\<rparr>,
      \<lparr>rt_name = ''shell'', rt_capability = ''shell_execute'', rt_hidden_at_level = 4, rt_timeout_secs = 30\<rparr>,
      \<lparr>rt_name = ''memory_read'', rt_capability = ''memory_read'', rt_hidden_at_level = 5, rt_timeout_secs = 10\<rparr>,
      \<lparr>rt_name = ''web_search'', rt_capability = ''web_search'', rt_hidden_at_level = 3, rt_timeout_secs = 15\<rparr>,
      \<lparr>rt_name = ''web_fetch'', rt_capability = ''web_fetch'', rt_hidden_at_level = 3, rt_timeout_secs = 20\<rparr>,
      \<lparr>rt_name = ''http_request'', rt_capability = ''http_request'', rt_hidden_at_level = 3, rt_timeout_secs = 30\<rparr>]"

definition register_builtin_tools :: "tool_registry \<Rightarrow> tool_registry" where
  "register_builtin_tools reg = foldl (\<lambda>r t. registry_register t r) reg builtin_tools"

subsection \<open>Paths\<close>

datatype path_component = RootDir | CurDir | ParentDir | NormalPart string

text \<open>\<^verbatim>\<open>Path::components\<close>: repeated separators and inner dots are dropped, a leading dot is kept.\<close>

definition component_of :: "string \<Rightarrow> path_component" where
  "component_of s = (if s = ''..'' then ParentDir else if s = ''.'' then CurDir else NormalPart s)"

definition path_components :: "string \<Rightarrow> path_component list" where
  "path_components s =
     (let parts = filter (\<lambda>p. p \<noteq> []) (split_on (CHR ''/'') s)
      in if starts_with ''/'' s then RootDir # map component_of (filter (\<lambda>p. p \<noteq> ''.'') parts)
         else (case parts of
                 [] \<Rightarrow> []
               | p # ps \<Rightarrow> component_of p # map component_of (filter (\<lambda>q. q \<noteq> ''.'') ps)))"

datatype fs_error = PathTraversal string | ReadFailed string | WriteFailed string

datatype filesystem_backend = FsInProcess | FsProcessHelper string | FsContainer string string bool

record filesystem_tool =
  fs_workspace_root :: "string list"
  fs_allow_absolute_paths :: bool
  fs_execution_backend :: filesystem_backend

definition filesystem_new :: "string list \<Rightarrow> filesystem_tool" where
  "filesystem_new dir =
     \<lparr>fs_workspace_root = dir, fs_allow_absolute_paths = False, fs_execution_backend = FsInProcess\<rparr>"

definition filesystem_new_unrestricted :: "string list \<Rightarrow> filesystem_tool" where
  "filesystem_new_unrestricted dir =
     \<lparr>fs_workspace_root = dir, fs_allow_absolute_paths = True, fs_execution_backend = FsInProcess\<rparr>"

fun resolve_loop :: "string list \<Rightarrow> path_component list \<Rightarrow> string list option" where
  "resolve_loop normalized [] = Some normalized"
| "resolve_loop normalized (CurDir # cs) = resolve_loop normalized cs"
| "resolve_loop normalized (NormalPart p # cs) = resolve_loop (normalized @ [p]) cs"
| "resolve_loop normalized (ParentDir # cs) = (if normalized = [] then None else resolve_loop (butlast normalized) cs)"
| "resolve_loop normalized (RootDir # cs) = None"

fun unrestricted_step :: "string list \<Rightarrow> path_component \<Rightarrow> string list" where
  "unrestricted_step resolved RootDir = []"
| "unrestricted_step resolved CurDir = resolved"
| "unrestricted_step resolved (NormalPart p) = resolved @ [p]"
| "unrestricted_step resolved ParentDir = butlast resolved"

definition resolve_unrestricted :: "filesystem_tool \<Rightarrow> string \<Rightarrow> string list" where
  "resolve_unrestricted fs path =
     foldl unrestricted_step (if starts_with ''/'' path then [] else fs_workspace_root fs) (path_components path)"

definition fs_resolve :: "filesystem_tool \<Rightarrow> string \<Rightarrow> fs_error + string list" where
  "fs_resolve fs relative =
     (if fs_allow_absolute_paths fs then Inr (resolve_unrestricted fs relative)
      else (case resolve_loop [] (path_components relative) of
              None \<Rightarrow> Inl (PathTraversal relative)
            | Some normalized \<Rightarrow> Inr (fs_workspace_root fs @ normalized)))"

subsection \<open>Paths stay inside the workspace\<close>

text \<open>A part of a path that names an entry of its directory.\<close>

definition proper_part :: "string \<Rightarrow> bool" where
  "proper_part p \<longleftrightarrow> p \<noteq> [] \<and> p \<noteq> ''.'' \<and> p \<noteq> ''..'' \<and> CHR ''/'' \<notin> set p"

lemma split_on_pieces: "p \<in> set (split_on d s) \<Longrightarrow> d \<notin> set p"
proof (induction s arbitrary: p)
  case (Cons c s)
  then show ?case using split_on_nonempty [of d s] by (cases "split_on d s") (auto split: if_splits)
qed simp

lemma components_proper: "NormalPart p \<in> set (path_components s) \<Longrightarrow> proper_part p"
proof -
  have piece: "q \<in> set (filter (\<lambda>p. p \<noteq> []) (split_on (CHR ''/'') s)) \<Longrightarrow> component_of q = NormalPart p \<Longrightarrow> proper_part p" for q
    using split_on_pieces [of q "CHR ''/''" s] by (auto simp: component_of_def proper_part_def split: if_splits)
  show "NormalPart p \<in> set (path_components s) \<Longrightarrow> ?thesis"
    by (auto simp: path_components_def Let_def split: if_splits list.splits intro: piece [OF _ sym])
       (metis piece list.set_intros)+
qed

lemma resolve_loop_proper:
  "resolve_loop normalized cs = Some ps \<Longrightarrow> list_all proper_part normalized \<Longrightarrow>
    (\<And>p. NormalPart p \<in> set cs \<Longrightarrow> proper_part p) \<Longrightarrow> list_all proper_part ps"
proof (induction normalized cs rule: resolve_loop.induct)
  case (4 normalized cs)
  then show ?case by (auto split: if_splits simp: list_all_iff dest: in_set_butlastD)
qed auto

lemma fs_resolve_proper:
  assumes "fs_resolve fs relative = Inr path" "\<not> fs_allow_absolute_paths fs"
  shows "\<not> starts_with ''/'' relative" "\<exists>parts. path = fs_workspace_root fs @ parts \<and> list_all proper_part parts"
proof -
  from assms obtain ps where ps: "resolve_loop [] (path_components relative) = Some ps" "path = fs_workspace_root fs @ ps"
    by (auto simp: fs_resolve_def split: option.splits)
  then have "list_all proper_part ps"
    using resolve_loop_proper [OF ps(1)] components_proper by simp
  with ps(2) show "\<exists>parts. path = fs_workspace_root fs @ parts \<and> list_all proper_part parts" by blast
  show "\<not> starts_with ''/'' relative"
    using ps(1) by (auto simp: path_components_def)
qed

text \<open>
  The file system tool stays inside its workspace: without the permission for absolute paths every
  path it resolves is the workspace root followed by names of entries only, with no step to a
  parent directory, and a path that starts at the root or climbs above the workspace is refused.
\<close>

theorem resolve_confined:
  "fs_allow_absolute_paths fs \<or>
   (case fs_resolve fs relative of
      Inl e \<Rightarrow> e = PathTraversal relative
    | Inr path \<Rightarrow> \<not> starts_with ''/'' relative \<and>
        (\<exists>parts. path = fs_workspace_root fs @ parts \<and> list_all proper_part parts))"
  using fs_resolve_proper [of fs relative] by (auto simp: fs_resolve_def split: option.splits sum.splits)

subsection \<open>Visibility\<close>

text \<open>
  Tightening only hides tools: a tool offered at a level is offered at every lower one, offered
  tools are registered under their own name, and a tool registered with level zero, which the source
  calls always visible, is offered at no level.
\<close>

theorem offered_tools:
  assumes "t \<in> set (schemas_filtered level reg)"
  shows "(level' \<le> level \<longrightarrow> t \<in> set (schemas_filtered level' reg)) \<and>
         (\<exists>name. registry_lookup reg name = Some t) \<and> rt_hidden_at_level t \<noteq> 0"
proof -
  from assms have t: "t \<in> set (bt_values reg)" "level < rt_hidden_at_level t"
    by (auto simp: schemas_filtered_def)
  then have "\<exists>name. registry_lookup reg name = Some t"
    unfolding registry_lookup_def using bt_values_iff [of t reg] by blast
  moreover have "level' \<le> level \<longrightarrow> level' < rt_hidden_at_level t" using t(2) by auto
  moreover have "rt_hidden_at_level t \<noteq> 0" using t(2) by auto
  ultimately show ?thesis using t(1) by (simp add: schemas_filtered_def)
qed

theorem offered_tools_witness:
  "let t = hd builtin_tools; reg = register_builtin_tools registry_new
   in ((1 :: u8) \<le> 4 \<longrightarrow> t \<in> set (schemas_filtered 1 reg)) \<and>
      (\<exists>name. registry_lookup reg name = Some t) \<and> rt_hidden_at_level t \<noteq> 0"
proof -
  have "hd builtin_tools \<in> set (schemas_filtered 4 (register_builtin_tools registry_new))"
    by code_simp
  from offered_tools [OF this, of 1] show ?thesis by (simp add: Let_def)
qed

subsection \<open>Skills as tools\<close>

text \<open>
  \<^verbatim>\<open>tools/skill_bridge.rs\<close>: each skill handler becomes a tool. Of a handler the model keeps whether it is
  removable; the handlers are visited in the order of their names, as no two of them collide.
\<close>

type_synonym skill_handlers = "(string, bool) btree_map"

definition skill_tool :: "string \<Rightarrow> bool \<Rightarrow> registered_tool" where
  "skill_tool name removable =
     \<lparr>rt_name = ''skill_'' @ name, rt_capability = ''skill:'' @ name,
      rt_hidden_at_level = (if removable then 3 else 5), rt_timeout_secs = 30\<rparr>"

definition registered_tools :: "skill_handlers \<Rightarrow> registered_tool list" where
  "registered_tools handlers = map (\<lambda>(name, removable). skill_tool name removable) (bt_iter handlers)"

definition skill_admitted :: "skill_handlers \<Rightarrow> string list option \<Rightarrow> string \<Rightarrow> bool" where
  "skill_admitted handlers allowlist skill_name =
     (case allowlist of
        None \<Rightarrow> True
      | Some names \<Rightarrow> bt_get handlers skill_name = Some False \<or> skill_name \<in> set names)"

definition register_skills :: "skill_handlers \<Rightarrow> string list option \<Rightarrow> tool_registry \<Rightarrow> tool_registry" where
  "register_skills handlers allowlist reg =
     foldl (\<lambda>r tool.
        let skill_name = (case strip_prefix ''skill_'' (rt_name tool) of Some n \<Rightarrow> n | None \<Rightarrow> rt_name tool)
        in if skill_admitted handlers allowlist skill_name then registry_register tool r else r)
      reg (registered_tools handlers)"

lemma strip_skill [simp]: "strip_prefix ''skill_'' (CHR ''s'' # CHR ''k'' # CHR ''i'' # CHR ''l'' # CHR ''l'' # CHR ''_'' # n) = Some n"
  by (simp add: strip_prefix_def starts_with_def)

lemma register_skills_fold:
  assumes "distinct (map fst es)"
  shows "bt_get (foldl (\<lambda>r tool.
        let skill_name = (case strip_prefix ''skill_'' (rt_name tool) of Some n \<Rightarrow> n | None \<Rightarrow> rt_name tool)
        in if A skill_name then registry_register tool r else r) reg (map (\<lambda>(name, removable). skill_tool name removable) es))
      (''skill_'' @ n) =
     (case map_of es n of
        Some removable \<Rightarrow> if A n then Some (skill_tool n removable) else bt_get reg (''skill_'' @ n)
      | None \<Rightarrow> bt_get reg (''skill_'' @ n))"
  using assms
proof (induction es arbitrary: reg)
  case (Cons e es)
  obtain m b where e: "e = (m, b)" by (cases e)
  with Cons.prems have "m = n \<Longrightarrow> map_of es n = None" by (simp add: map_of_eq_None_iff)
  with Cons e show ?case
    by (auto simp: registry_register_def skill_tool_def split: option.split)
qed simp

text \<open>
  Which skills become tools: a skill is registered exactly when there is no allow list, or the
  list names it, or the skill cannot be removed; it needs its own capability and is hidden from level
  three on unless it cannot be removed.
\<close>

theorem skills_registered_exactly:
  "registry_lookup (register_skills handlers allowlist reg) (''skill_'' @ n) =
     (case bt_get handlers n of
        Some removable \<Rightarrow>
          if allowlist = None \<or> n \<in> set (the allowlist) \<or> \<not> removable
          then Some \<lparr>rt_name = ''skill_'' @ n, rt_capability = ''skill:'' @ n,
                     rt_hidden_at_level = (if removable then 3 else 5), rt_timeout_secs = 30\<rparr>
          else registry_lookup reg (''skill_'' @ n)
      | None \<Rightarrow> registry_lookup reg (''skill_'' @ n))"
proof -
  have "distinct (map fst (bt_iter handlers))" using bt_keys_distinct [of handlers] by (simp add: bt_keys_def)
  from register_skills_fold [OF this, of "skill_admitted handlers allowlist" reg n] show ?thesis
    by (auto simp: register_skills_def registered_tools_def registry_lookup_def skill_admitted_def skill_tool_def
        bt_get.rep_eq split: option.splits)
qed

subsection \<open>The shell and memory tools\<close>

datatype shell_error = NotAllowed string | ShellExecutionFailed string | ShellTimeout nat

record shell_tool_config =
  sc_allowed_prefixes :: "string list"
  sc_timeout_secs :: nat

definition shell_tool_config_default :: shell_tool_config where
  "shell_tool_config_default = \<lparr>sc_allowed_prefixes = [], sc_timeout_secs = 30\<rparr>"

text \<open>The outcome of the command, when it is run, is an argument: a timeout, an error or the output.\<close>

datatype shell_outcome = ShellTimedOut | ShellFailed string | ShellOutput string string

definition execute_shell :: "shell_tool_config \<Rightarrow> (string \<Rightarrow> shell_outcome) \<Rightarrow> string \<Rightarrow> (shell_error + string \<times> string) \<times> string list" where
  "execute_shell config run command =
     (if sc_allowed_prefixes config = [] then (Inl (NotAllowed ''shell tool disabled: no allowed prefixes configured''), [])
      else if \<not> list_ex (\<lambda>p. starts_with p command) (sc_allowed_prefixes config) then (Inl (NotAllowed command), [])
      else (case run command of
              ShellTimedOut \<Rightarrow> Inl (ShellTimeout (sc_timeout_secs config))
            | ShellFailed e \<Rightarrow> Inl (ShellExecutionFailed e)
            | ShellOutput out err \<Rightarrow> Inr (out, err), [command]))"

text \<open>
  The shell allow list only sees the start of a command: a command is run exactly when it begins
  with an allowed prefix, so every command line that continues an allowed prefix with a separator
  and any other command is run as well.
\<close>

theorem shell_runs_exactly:
  "(snd (execute_shell config run command) = (if list_ex (\<lambda>p. starts_with p command) (sc_allowed_prefixes config) then [command] else [])) \<and>
   (case sc_allowed_prefixes config of
      [] \<Rightarrow> snd (execute_shell config run command) = []
    | p # _ \<Rightarrow> snd (execute_shell config run (p @ ''; '' @ any)) = [p @ ''; '' @ any])"
  by (auto simp: execute_shell_def starts_with_def split: list.split)

text \<open>The text of a memory is a parameter.\<close>

definition read_memories :: "('m \<Rightarrow> string) \<Rightarrow> string \<Rightarrow> nat \<Rightarrow> 'm list \<Rightarrow> 'm list \<times> nat" where
  "read_memories to_text query limit snapshot =
     (let matched = take limit (filter (\<lambda>m. contains (map to_ascii_lowercase (to_text m)) (map to_ascii_lowercase query)) snapshot)
      in (matched, length matched))"

end
