(* ===== verification/Tool_Executor.thy ===== *)
theory Tool_Executor
  imports Tool_Sandbox Agent_Runner
begin

section \<open>The tool executor\<close>

text \<open>
  \<^verbatim>\<open>ghost-agent-loop/src/tools/executor.rs\<close>: the policy check, the sandbox of the built-in tools and the
  dispatch of a call. What a call does to the outside is recorded as a list of \<open>tool_effect\<close>s, and the
  triggers it sends as a list. What the outside answers is in \<open>exec_env\<close>: the file system, the shell,
  the network, the skills, the reviewer, the room in the trigger channel and the clock. Results are
  texts of JSON, of which the model keeps the payload. Of error texts that are JSON the model keeps
  the type and the message.
\<close>

datatype tool_error =
    ToolNotFound string
  | ToolTimeout nat
  | ExecutionFailed string
  | PolicyDenied string string
  | InvalidArguments string
  | SandboxReviewUnavailable string

datatype builtin_sandbox_mode = SandboxOff | ReadOnly | WorkspaceWrite | Strict

datatype builtin_sandbox_violation_action = ActionWarn | ActionPause | ActionQuarantine | ActionKillAll

record builtin_sandbox_policy =
  sb_enabled :: bool
  sb_mode :: builtin_sandbox_mode
  sb_on_violation :: builtin_sandbox_violation_action
  sb_network_access :: bool

definition sandbox_is_active :: "builtin_sandbox_policy \<Rightarrow> bool" where
  "sandbox_is_active sb \<longleftrightarrow> sb_enabled sb \<and> sb_mode sb \<noteq> SandboxOff"

definition builtin_sandbox_policy_default :: builtin_sandbox_policy where
  "builtin_sandbox_policy_default =
     \<lparr>sb_enabled = True, sb_mode = WorkspaceWrite, sb_on_violation = ActionPause, sb_network_access = False\<rparr>"

datatype network_backend = NetInProcess | NetProcessHelper string | NetContainer string

datatype sandbox_review_decision = Approved | Rejected | Expired

record execution_context =
  ec_agent_id :: uuid
  ec_session_id :: uuid
  ec_execution_id :: "string option"
  ec_route_kind :: "string option"
  ec_interactive :: bool
  ec_intervention_level :: u8
  ec_session_duration :: duration
  ec_session_reflection_count :: u32
  ec_is_compaction_flush :: bool

definition execution_context_for_tool :: "duration \<Rightarrow> 'n agent_runner \<Rightarrow> run_context \<Rightarrow> execution_context" where
  "execution_context_for_tool session_duration ar cx =
     \<lparr>ec_agent_id = rx_agent_id cx, ec_session_id = rx_session_id cx, ec_execution_id = ar_execution_id ar,
      ec_route_kind = Some (rx_channel cx), ec_interactive = (rx_channel cx \<in> {''api'', ''studio'', ''cli''}),
      ec_intervention_level = rx_intervention_level cx, ec_session_duration = session_duration,
      ec_session_reflection_count = session_reflection_count (ar_proposal_router ar) (rx_session_id cx),
      ec_is_compaction_flush = False\<rparr>"

record 'n tool_executor =
  te_policy_engine :: "policy_engine option"
  te_filesystem :: "filesystem_tool option"
  te_network_backend :: network_backend
  te_shell_config :: shell_tool_config
  te_fetch_config :: fetch_config
  te_http_request_config :: http_request_config
  te_builtin_sandbox :: builtin_sandbox_policy
  te_trigger_sender :: bool
  te_sandbox_review_sender :: bool
  te_snapshot_memories :: "'n json list"
  te_skill_bridge :: bool

datatype tool_effect =
    EfRead "string list"
  | EfWrite "string list" string
  | EfList "string list"
  | EfShell string
  | EfSearch string
  | EfFetch string
  | EfHttp string string
  | EfHelper string
  | EfSkill string

text \<open>What the outside answers.\<close>

record 'n exec_env =
  xv_now :: datetime
  xv_args_text :: "'n json \<Rightarrow> string"
  xv_as_u64 :: "'n \<Rightarrow> nat option"
  xv_parse_v6 :: "string \<Rightarrow> u16 list option"
  xv_channel_has_room :: bool
  xv_review :: "string + sandbox_review_decision"
  xv_timed_out :: bool
  xv_read :: "string list \<Rightarrow> string + string"
  xv_write :: "string list \<Rightarrow> string \<Rightarrow> string + unit"
  xv_list :: "string list \<Rightarrow> string + string"
  xv_helper :: "string \<Rightarrow> string + string"
  xv_shell :: "string \<Rightarrow> shell_outcome"
  xv_search :: "string \<Rightarrow> string + string"
  xv_fetch :: "string \<Rightarrow> string + string"
  xv_http :: "string \<Rightarrow> string \<Rightarrow> string + string"
  xv_skill :: "string \<Rightarrow> tool_error + string"

subsection \<open>Policy\<close>

definition policy_mapped :: "string \<Rightarrow> bool" where
  "policy_mapped name \<longleftrightarrow>
     name \<in> {''read_file'', ''write_file'', ''list_dir'', ''shell'', ''memory_read'', ''web_search'', ''web_fetch'', ''http_request'',
       ''send_proactive_message'', ''schedule_message'', ''heartbeat'', ''reflection_write''} \<or>
     starts_with ''skill_'' name"

definition build_policy_call ::
    "('n json \<Rightarrow> string) \<Rightarrow> 'n llm_tool_call \<Rightarrow> registered_tool \<Rightarrow> execution_context \<Rightarrow> tool_error + tool_call" where
  "build_policy_call to_text call tool cx =
     (if \<not> policy_mapped (tc_name call) then Inl (PolicyDenied ''policy_mapping_missing'' ''tool has no runtime policy mapping'')
      else if trim (rt_capability tool) = []
      then Inl (PolicyDenied ''policy_mapping_missing'' ''tool is missing a required capability mapping'')
      else Inr (tool_call.make (tc_name call) (to_text (llm_tool_call.tc_arguments call)) (rt_capability tool) (ec_is_compaction_flush cx)))"

definition policy_context_of :: "execution_context \<Rightarrow> policy_engine \<Rightarrow> policy_context" where
  "policy_context_of cx engine =
     \<lparr>pc_agent_id = ec_agent_id cx, pc_session_id = ec_session_id cx, pc_intervention_level = ec_intervention_level cx,
      pc_session_duration = ec_session_duration cx, pc_session_denial_count = session_denial_count (ec_session_id cx) engine,
      pc_is_compaction_flush = ec_is_compaction_flush cx, pc_session_reflection_count = ec_session_reflection_count cx\<rparr>"

text \<open>The result, the trigger the engine hands over, and the executor with the engine's new state.\<close>

definition evaluate_policy ::
    "'n exec_env \<Rightarrow> 'n llm_tool_call \<Rightarrow> registered_tool \<Rightarrow> execution_context \<Rightarrow> 'n tool_executor
      \<Rightarrow> (tool_error + unit) \<times> trigger_event list \<times> 'n tool_executor" where
  "evaluate_policy env call tool cx te =
     (case te_policy_engine te of
        None \<Rightarrow> (Inl (PolicyDenied ''policy_missing'' ''runtime policy evaluator not configured''), [], te)
      | Some engine \<Rightarrow>
          (case build_policy_call (xv_args_text env) call tool cx of
             Inl e \<Rightarrow> (Inl e, [], te)
           | Inr policy_call \<Rightarrow>
               (case policy_evaluate (xv_now env) policy_call (policy_context_of cx engine) engine of
                  (decision, sent, engine') \<Rightarrow>
                    (case decision of
                       Permit \<Rightarrow> Inr ()
                     | Deny feedback \<Rightarrow> Inl (PolicyDenied ''policy_denied'' (df_reason feedback))
                     | Escalate message \<Rightarrow> Inl (PolicyDenied ''policy_escalation'' message),
                     (case sent of None \<Rightarrow> [] | Some t \<Rightarrow> [t]), te\<lparr>te_policy_engine := Some engine'\<rparr>))))"

subsection \<open>The sandbox\<close>

definition sandbox_violation :: "builtin_sandbox_policy \<Rightarrow> string \<Rightarrow> string option" where
  "sandbox_violation sb name =
     (if sb_mode sb \<in> {ReadOnly, Strict} \<and> name = ''write_file'' then Some ''write_file is blocked by read-only sandbox mode''
      else if sb_mode sb \<in> {ReadOnly, Strict} \<and> name = ''shell'' then Some ''shell is blocked by sandbox mode''
      else if name \<in> {''web_search'', ''web_fetch'', ''http_request''} \<and> \<not> sb_network_access sb
      then Some ''network access is disabled by sandbox policy''
      else None)"

definition emit_sandbox_violation :: "'n exec_env \<Rightarrow> uuid \<Rightarrow> string \<Rightarrow> string \<Rightarrow> 'n tool_executor \<Rightarrow> trigger_event list" where
  "emit_sandbox_violation env agent name reason te =
     (if \<not> te_trigger_sender te \<or> \<not> xv_channel_has_room env then []
      else (let msg = ''sandbox violation in '' @ name @ '': '' @ reason
            in case sb_on_violation (te_builtin_sandbox te) of
                 ActionWarn \<Rightarrow> []
               | ActionPause \<Rightarrow> [ManualPause agent msg ''builtin_sandbox'']
               | ActionQuarantine \<Rightarrow> [ManualQuarantine agent msg ''builtin_sandbox'']
               | ActionKillAll \<Rightarrow> [ManualKillAll msg ''builtin_sandbox'']))"

definition enforce_builtin_sandbox ::
    "'n exec_env \<Rightarrow> 'n llm_tool_call \<Rightarrow> execution_context \<Rightarrow> 'n tool_executor \<Rightarrow> (tool_error + unit) \<times> trigger_event list" where
  "enforce_builtin_sandbox env call cx te =
     (if \<not> sandbox_is_active (te_builtin_sandbox te) then (Inr (), [])
      else (case sandbox_violation (te_builtin_sandbox te) (tc_name call) of
              None \<Rightarrow> (Inr (), [])
            | Some reason \<Rightarrow>
                if sb_on_violation (te_builtin_sandbox te) = ActionPause \<and> ec_interactive cx \<and> te_sandbox_review_sender te
                then (case xv_review env of
                        Inl e \<Rightarrow> (Inl (SandboxReviewUnavailable e), [])
                      | Inr Approved \<Rightarrow> (Inr (), [])
                      | Inr Rejected \<Rightarrow> (Inl (PolicyDenied ''sandbox_review_rejected'' reason), [])
                      | Inr Expired \<Rightarrow> (Inl (PolicyDenied ''sandbox_review_expired'' reason), []))
                else (Inl (PolicyDenied ''sandbox_violation'' reason),
                      emit_sandbox_violation env (ec_agent_id cx) (tc_name call) reason te)))"


subsection \<open>Dispatch\<close>

definition failed :: "string + 'a \<Rightarrow> tool_error + 'a" where
  "failed r = (case r of Inl e \<Rightarrow> Inl (ExecutionFailed e) | Inr x \<Rightarrow> Inr x)"

definition required_arg :: "string \<Rightarrow> 'n llm_tool_call \<Rightarrow> tool_error + string" where
  "required_arg k call =
     (case str_arg k (llm_tool_call.tc_arguments call) of
        Some v \<Rightarrow> Inr v | None \<Rightarrow> Inl (InvalidArguments (''missing '' @ k @ '' argument'')))"

text \<open>A file operation after its path has been resolved, on each backend.\<close>

definition on_path ::
    "'n exec_env \<Rightarrow> filesystem_tool \<Rightarrow> string \<Rightarrow> string
      \<Rightarrow> (string list \<Rightarrow> (string + string) \<times> tool_effect list) \<Rightarrow> (tool_error + string) \<times> tool_effect list" where
  "on_path env fs helper_command relative act =
     (case fs_resolve fs relative of
        Inl e \<Rightarrow> (Inl (ExecutionFailed ''path traversal denied''), [])
      | Inr path \<Rightarrow>
          (case fs_execution_backend fs of
             FsProcessHelper exe \<Rightarrow> (failed (xv_helper env relative), [EfHelper helper_command])
           | _ \<Rightarrow> (case act path of (r, evs) \<Rightarrow> (failed r, evs))))"

definition write_path :: "'n exec_env \<Rightarrow> filesystem_tool \<Rightarrow> string \<Rightarrow> string list \<Rightarrow> (string + string) \<times> tool_effect list" where
  "write_path env fs content path =
     (case fs_execution_backend fs of
        FsContainer img dir True \<Rightarrow> (Inl ''filesystem backend is read-only'', [])
      | _ \<Rightarrow> (map_sum id (\<lambda>_. ''written'') (xv_write env path content), [EfWrite path content]))"

definition dispatch_network ::
    "'n exec_env \<Rightarrow> 'n tool_executor \<Rightarrow> string \<Rightarrow> (string + unit) \<Rightarrow> (string + unit) \<Rightarrow> string + string \<Rightarrow> tool_effect
      \<Rightarrow> (tool_error + string) \<times> tool_effect list" where
  "dispatch_network env te helper_command own_check container_check answer ev =
     (case te_network_backend te of
        NetProcessHelper exe \<Rightarrow> (failed (xv_helper env helper_command), [EfHelper helper_command])
      | NetInProcess \<Rightarrow> (case own_check of Inl e \<Rightarrow> (Inl (ExecutionFailed e), []) | Inr _ \<Rightarrow> (failed answer, [ev]))
      | NetContainer img \<Rightarrow> (case container_check of Inl e \<Rightarrow> (Inl (ExecutionFailed e), []) | Inr _ \<Rightarrow> (failed answer, [ev])))"

definition checked :: "'e + 'a \<Rightarrow> string + unit" where
  "checked r = (case r of Inl e \<Rightarrow> Inl ''refused'' | Inr _ \<Rightarrow> Inr ())"

definition with_filesystem ::
    "'n tool_executor \<Rightarrow> (filesystem_tool \<Rightarrow> (tool_error + string) \<times> tool_effect list) \<Rightarrow> (tool_error + string) \<times> tool_effect list" where
  "with_filesystem te k = (case te_filesystem te of None \<Rightarrow> (Inl (ExecutionFailed ''filesystem not configured''), []) | Some fs \<Rightarrow> k fs)"

definition with_arg ::
    "string \<Rightarrow> 'n llm_tool_call \<Rightarrow> (string \<Rightarrow> (tool_error + string) \<times> tool_effect list) \<Rightarrow> (tool_error + string) \<times> tool_effect list" where
  "with_arg key call k = (case required_arg key call of Inl e \<Rightarrow> (Inl e, []) | Inr v \<Rightarrow> k v)"

definition run_shell :: "'n exec_env \<Rightarrow> 'n tool_executor \<Rightarrow> string \<Rightarrow> (tool_error + string) \<times> tool_effect list" where
  "run_shell env te command =
     (case execute_shell (te_shell_config te) (xv_shell env) command of
        (r, cmds) \<Rightarrow>
          ((case r of
              Inr (out, err) \<Rightarrow> Inr (out @ err)
            | Inl (NotAllowed c) \<Rightarrow> Inl (ExecutionFailed (''command not allowed by capability scope: '' @ c))
            | Inl (ShellExecutionFailed e) \<Rightarrow> Inl (ExecutionFailed (''execution failed: '' @ e))
            | Inl (ShellTimeout n) \<Rightarrow> Inl (ExecutionFailed (''timeout after '' @ show_nat n @ ''s''))),
           map EfShell cmds))"

definition dispatch :: "'n exec_env \<Rightarrow> 'n llm_tool_call \<Rightarrow> 'n tool_executor \<Rightarrow> (tool_error + string) \<times> tool_effect list" where
  "dispatch env call te =
     (let name = tc_name call; args = llm_tool_call.tc_arguments call in
      if name = ''read_file'' then
        with_filesystem te (\<lambda>fs. with_arg ''path'' call (\<lambda>path.
          on_path env fs ''sandbox-fs-read'' path (\<lambda>p. (xv_read env p, [EfRead p]))))
      else if name = ''write_file'' then
        with_filesystem te (\<lambda>fs. with_arg ''path'' call (\<lambda>path. with_arg ''content'' call (\<lambda>content.
          on_path env fs ''sandbox-fs-write'' path (write_path env fs content))))
      else if name = ''list_dir'' then
        with_filesystem te (\<lambda>fs.
          on_path env fs ''sandbox-fs-list'' (case str_arg ''path'' args of Some p \<Rightarrow> p | None \<Rightarrow> ''.'') (\<lambda>p. (xv_list env p, [EfList p])))
      else if name = ''shell'' then with_arg ''command'' call (run_shell env te)
      else if name = ''memory_read'' then
        with_arg ''query'' call (\<lambda>query.
          (Inr (concat (map (xv_args_text env) (fst (read_memories (xv_args_text env) query
             (case Option.bind (Option.bind (json_get ''limit'' args) json_as_number) (xv_as_u64 env) of Some n \<Rightarrow> n | None \<Rightarrow> 10)
             (te_snapshot_memories te))))), []))
      else if name = ''web_search'' then
        with_arg ''query'' call (\<lambda>query.
          dispatch_network env te ''sandbox-web-search'' (Inr ()) (Inr ()) (xv_search env query) (EfSearch query))
      else if name = ''web_fetch'' then
        with_arg ''url'' call (\<lambda>url.
          dispatch_network env te ''sandbox-web-fetch'' (checked (fetch_check (xv_parse_v6 env) (te_fetch_config te) url))
            (validate_fetch_url (xv_parse_v6 env) (te_fetch_config te) url) (xv_fetch env url) (EfFetch url))
      else if name = ''http_request'' then
        with_arg ''url'' call (\<lambda>url.
          let meth = (case str_arg ''method'' args of Some m \<Rightarrow> m | None \<Rightarrow> ''GET''); body = str_arg ''body'' args
          in dispatch_network env te ''sandbox-http-request''
               (checked (http_check (xv_parse_v6 env) (te_http_request_config te) url meth body))
               (checked (validate_http_request (xv_parse_v6 env) (te_http_request_config te) url meth body))
               (xv_http env meth url) (EfHttp meth url))
      else if starts_with ''skill_'' name then
        (if \<not> te_skill_bridge te then (Inl (ExecutionFailed ''skill bridge not configured''), [])
         else (xv_skill env (drop 6 name), [EfSkill (drop 6 name)]))
      else (Inl (ExecutionFailed (''tool '' @ name @ '' has no runtime dispatch implementation'')), []))"

subsection \<open>Executing a call\<close>

definition tool_execute ::
    "'n exec_env \<Rightarrow> tool_registry \<Rightarrow> execution_context \<Rightarrow> 'n llm_tool_call \<Rightarrow> 'n tool_executor
      \<Rightarrow> (tool_error + string) \<times> tool_effect list \<times> trigger_event list \<times> 'n tool_executor" where
  "tool_execute env reg cx call te =
     (case registry_lookup reg (tc_name call) of
        None \<Rightarrow> (Inl (ToolNotFound (tc_name call)), [], [], te)
      | Some tool \<Rightarrow>
          (case evaluate_policy env call tool cx te of
             (Inl e, sent, te') \<Rightarrow> (Inl e, [], sent, te')
           | (Inr _, sent, te') \<Rightarrow>
               (case enforce_builtin_sandbox env call cx te' of
                  (Inl e, sent') \<Rightarrow> (Inl e, [], sent @ sent', te')
                | (Inr _, sent') \<Rightarrow>
                    (case dispatch env call te' of
                       (r, evs) \<Rightarrow>
                         (if xv_timed_out env then Inl (ToolTimeout (rt_timeout_secs tool)) else r, evs, sent @ sent', te')))))"


subsection \<open>Which tool has which effect\<close>

fun effect_tool :: "tool_effect \<Rightarrow> string \<Rightarrow> bool" where
  "effect_tool (EfRead _) name \<longleftrightarrow> name = ''read_file''"
| "effect_tool (EfWrite _ _) name \<longleftrightarrow> name = ''write_file''"
| "effect_tool (EfList _) name \<longleftrightarrow> name = ''list_dir''"
| "effect_tool (EfShell _) name \<longleftrightarrow> name = ''shell''"
| "effect_tool (EfSearch _) name \<longleftrightarrow> name = ''web_search''"
| "effect_tool (EfFetch _) name \<longleftrightarrow> name = ''web_fetch''"
| "effect_tool (EfHttp _ _) name \<longleftrightarrow> name = ''http_request''"
| "effect_tool (EfHelper _) name \<longleftrightarrow>
     name \<in> {''read_file'', ''write_file'', ''list_dir'', ''web_search'', ''web_fetch'', ''http_request''}"
| "effect_tool (EfSkill s) name \<longleftrightarrow> name = ''skill_'' @ s"

lemmas dispatch_parts = with_filesystem_def with_arg_def on_path_def write_path_def dispatch_network_def run_shell_def

lemma dispatch_network_effects:
  "ev' \<in> set (snd (dispatch_network env te cmd c c' a ev)) \<Longrightarrow> ev' = ev \<or> ev' = EfHelper cmd"
  by (auto simp: dispatch_network_def split: network_backend.splits sum.splits)

lemma with_effects:
  "ev \<in> set (snd (with_filesystem te k)) \<Longrightarrow> \<exists>fs. te_filesystem te = Some fs \<and> ev \<in> set (snd (k fs))"
  "ev \<in> set (snd (with_arg key call k')) \<Longrightarrow> \<exists>v. ev \<in> set (snd (k' v))"
  by (auto simp: with_filesystem_def with_arg_def split: option.splits sum.splits)

lemma on_path_effects:
  "ev \<in> set (snd (on_path env fs cmd r act)) \<Longrightarrow>
     ev = EfHelper cmd \<or> (\<exists>p. fs_resolve fs r = Inr p \<and> ev \<in> set (snd (act p)))"
  by (auto simp: on_path_def split: sum.splits filesystem_backend.splits prod.splits)

lemma write_path_effects: "ev \<in> set (snd (write_path env fs c p)) \<Longrightarrow> ev = EfWrite p c"
  by (auto simp: write_path_def split: filesystem_backend.splits bool.splits)

lemma run_shell_effects:
  "ev \<in> set (snd (run_shell env te command)) \<Longrightarrow>
     ev = EfShell command \<and> list_ex (\<lambda>p. starts_with p command) (sc_allowed_prefixes (te_shell_config te))"
  by (auto simp: run_shell_def execute_shell_def split: if_splits)

lemmas effect_rules = dispatch_network_effects with_effects on_path_effects write_path_effects run_shell_effects

lemma dispatch_effect_tool:
  assumes "ev \<in> set (snd (dispatch env call te))"
  shows "effect_tool ev (tc_name call)"
proof -
  have skill: "''skill_'' @ drop 6 n = n" if "starts_with ''skill_'' n" for n
  proof -
    have "take 6 n = ''skill_''" using that by (simp add: starts_with_def numeral_eq_Suc)
    then show ?thesis using append_take_drop_id [of 6 n] by simp
  qed
  from assms show ?thesis
    unfolding dispatch_def Let_def
    by (auto split: if_splits dest!: effect_rules dest: skill)
qed


subsection \<open>Mediation\<close>

text \<open>What has to hold for a call to reach its tool.\<close>

definition policy_clears :: "'n exec_env \<Rightarrow> execution_context \<Rightarrow> 'n llm_tool_call \<Rightarrow> registered_tool \<Rightarrow> policy_engine \<Rightarrow> bool" where
  "policy_clears env cx call tool engine \<longleftrightarrow>
     policy_mapped (tc_name call) \<and> trim (rt_capability tool) \<noteq> [] \<and>
     tc_name call \<notin> pe_corp_policy engine \<and>
     tightener_evaluate (tool_call.make (tc_name call) (xv_args_text env (llm_tool_call.tc_arguments call)) (rt_capability tool)
       (ec_is_compaction_flush cx)) (policy_context_of cx engine) = None \<and>
     has_capability engine (ec_agent_id cx) (rt_capability tool)"

definition sandbox_clears :: "'n exec_env \<Rightarrow> execution_context \<Rightarrow> string \<Rightarrow> 'n tool_executor \<Rightarrow> bool" where
  "sandbox_clears env cx name te \<longleftrightarrow>
     \<not> sandbox_is_active (te_builtin_sandbox te) \<or> sandbox_violation (te_builtin_sandbox te) name = None \<or>
     (sb_on_violation (te_builtin_sandbox te) = ActionPause \<and> ec_interactive cx \<and> te_sandbox_review_sender te \<and>
      xv_review env = Inr Approved)"

lemma evaluate_policy_clears:
  assumes "te_policy_engine te = Some engine"
  shows "fst (evaluate_policy env call tool cx te) = Inr () \<longleftrightarrow> policy_clears env cx call tool engine"
proof (cases "build_policy_call (xv_args_text env) call tool cx")
  case (Inl e)
  then show ?thesis
    using assms by (auto simp: evaluate_policy_def build_policy_call_def policy_clears_def split: if_splits)
next
  case (Inr pc)
  then have pc: "pc = tool_call.make (tc_name call) (xv_args_text env (llm_tool_call.tc_arguments call)) (rt_capability tool)
      (ec_is_compaction_flush cx)" "policy_mapped (tc_name call)" "trim (rt_capability tool) \<noteq> []"
    by (auto simp: build_policy_call_def split: if_splits)
  then have name: "tc_tool_name pc = tc_name call" "tc_capability pc = rt_capability tool" "tc_tool_name pc \<noteq> ''memory_write''"
    by (auto simp: tool_call.defs policy_mapped_def starts_with_def)
  have "fst (evaluate_policy env call tool cx te) = Inr () \<longleftrightarrow> permits (xv_now env) pc (policy_context_of cx engine) engine"
    using assms Inr by (auto simp: evaluate_policy_def permits_def split: prod.splits policy_decision.splits)
  also have "\<dots> \<longleftrightarrow> policy_clears env cx call tool engine"
    using pc name by (auto simp: permits_iff policy_clears_def denies_def policy_context_of_def)
  finally show ?thesis .
qed

lemma evaluate_policy_keeps:
  assumes "evaluate_policy env call tool cx te = (r, sent, te')"
  shows "te' = te\<lparr>te_policy_engine := te_policy_engine te'\<rparr>" "te_builtin_sandbox te' = te_builtin_sandbox te"
    "te_sandbox_review_sender te' = te_sandbox_review_sender te" "te_filesystem te' = te_filesystem te"
    "te_shell_config te' = te_shell_config te"
  using assms by (auto simp: evaluate_policy_def split: option.splits sum.splits prod.splits)

lemma sandbox_clears_iff:
  "fst (enforce_builtin_sandbox env call cx te) = Inr () \<longleftrightarrow> sandbox_clears env cx (tc_name call) te"
  by (auto simp: enforce_builtin_sandbox_def sandbox_clears_def split: option.splits sum.splits sandbox_review_decision.splits)

lemma effects_cleared:
  assumes "ev \<in> set (fst (snd (tool_execute env reg cx call te)))"
  obtains tool engine te' where "registry_lookup reg (tc_name call) = Some tool" "te_policy_engine te = Some engine"
    "policy_clears env cx call tool engine" "sandbox_clears env cx (tc_name call) te"
    "te' = te\<lparr>te_policy_engine := te_policy_engine te'\<rparr>" "ev \<in> set (snd (dispatch env call te'))"
proof -
  from assms obtain tool where tool: "registry_lookup reg (tc_name call) = Some tool"
    by (auto simp: tool_execute_def split: option.splits)
  obtain r sent te' where ep: "evaluate_policy env call tool cx te = (r, sent, te')" by (metis surj_pair)
  from assms tool ep have "r = Inr ()" by (auto simp: tool_execute_def split: sum.splits)
  with ep obtain engine where engine: "te_policy_engine te = Some engine"
    by (auto simp: evaluate_policy_def split: option.splits)
  obtain q sent' where es: "enforce_builtin_sandbox env call cx te' = (q, sent')" by (metis surj_pair)
  from assms tool ep es \<open>r = Inr ()\<close> have "q = Inr ()" by (auto simp: tool_execute_def split: sum.splits)
  moreover have "ev \<in> set (snd (dispatch env call te'))"
    using assms tool ep es \<open>r = Inr ()\<close> \<open>q = Inr ()\<close> by (auto simp: tool_execute_def split: prod.splits)
  moreover have "sandbox_clears env cx (tc_name call) te' = sandbox_clears env cx (tc_name call) te"
    using evaluate_policy_keeps [OF ep] by (simp add: sandbox_clears_def)
  ultimately show thesis
    using that [OF tool engine _ _ evaluate_policy_keeps(1) [OF ep]] evaluate_policy_clears [OF engine, of env call tool cx]
      sandbox_clears_iff [of env call cx te'] ep es \<open>r = Inr ()\<close> by auto
qed


text \<open>
  C3. No effect without permission: a call has an effect on files, the shell, the network or a skill
  only if its tool is registered, a policy engine is configured, the tool has a policy mapping and is
  not denied by the corporate list or by the intervention level, the agent holds the tool's
  capability, and the sandbox allows the tool or a human has approved the call; and the effect is
  one of the called tool.
\<close>

theorem tool_effects_mediated:
  assumes "ev \<in> set (fst (snd (tool_execute env reg cx call te)))"
  shows "\<exists>tool engine. registry_lookup reg (tc_name call) = Some tool \<and> te_policy_engine te = Some engine \<and>
           policy_clears env cx call tool engine \<and> sandbox_clears env cx (tc_name call) te \<and> effect_tool ev (tc_name call)"
proof -
  obtain tool engine te' where "registry_lookup reg (tc_name call) = Some tool" "te_policy_engine te = Some engine"
    "policy_clears env cx call tool engine" "sandbox_clears env cx (tc_name call) te" "ev \<in> set (snd (dispatch env call te'))"
    using effects_cleared [OF assms] by metis
  with dispatch_effect_tool [of ev env call te'] show ?thesis by blast
qed

definition sample_agent_env :: "nat exec_env" where
  "sample_agent_env =
     \<lparr>xv_now = 0, xv_args_text = (\<lambda>_. ''{}''), xv_as_u64 = Some, xv_parse_v6 = (\<lambda>_. None), xv_channel_has_room = True,
      xv_review = Inl ''none'', xv_timed_out = False, xv_read = (\<lambda>p. Inr ''text''), xv_write = (\<lambda>p c. Inr ()),
      xv_list = (\<lambda>p. Inr ''[]''), xv_helper = (\<lambda>h. Inr []), xv_shell = (\<lambda>c. ShellOutput ''ok'' []),
      xv_search = (\<lambda>q. Inr []), xv_fetch = (\<lambda>u. Inr []), xv_http = (\<lambda>m u. Inr []), xv_skill = (\<lambda>s. Inr [])\<rparr>"

definition sample_exec_ctx :: execution_context where
  "sample_exec_ctx =
     \<lparr>ec_agent_id = 1, ec_session_id = 2, ec_execution_id = None, ec_route_kind = None, ec_interactive = False,
      ec_intervention_level = 0, ec_session_duration = 0, ec_session_reflection_count = 0, ec_is_compaction_flush = False\<rparr>"

definition sample_executor :: "nat tool_executor" where
  "sample_executor =
     \<lparr>te_policy_engine = Some (grant_capability 1 ''shell_execute'' (grant_capability 1 ''file_read'' (policy_engine_new {}))),
      te_filesystem = Some (filesystem_new [''srv'', ''ws'']), te_network_backend = NetInProcess,
      te_shell_config = \<lparr>sc_allowed_prefixes = [''ls''], sc_timeout_secs = 30\<rparr>, te_fetch_config = \<lparr>fc_allow_http = False, fc_max_body_bytes = 9, fc_max_text_chars = 9, fc_timeout_secs = 9\<rparr>,
      te_http_request_config = \<lparr>hc_allow_http = False, hc_allowed_methods = [], hc_allowed_domains = [], hc_max_request_bytes = 9,
        hc_max_response_bytes = 9, hc_timeout_secs = 9\<rparr>, te_builtin_sandbox = builtin_sandbox_policy_default,
      te_trigger_sender = True, te_sandbox_review_sender = False, te_snapshot_memories = [], te_skill_bridge = False\<rparr>"

definition sample_read :: "nat llm_tool_call" where
  "sample_read = llm_tool_call.make ''1'' ''read_file'' (JObject [(''path'', JString ''a/../b.txt'')])"

lemma sample_read_effect:
  "EfRead [''srv'', ''ws'', ''b.txt''] \<in>
     set (fst (snd (tool_execute sample_agent_env (register_builtin_tools registry_new) sample_exec_ctx sample_read sample_executor)))"
  by code_simp

theorem tool_effects_mediated_witness:
  "\<exists>tool engine. registry_lookup (register_builtin_tools registry_new) (tc_name sample_read) = Some tool \<and>
     te_policy_engine sample_executor = Some engine \<and>
     policy_clears sample_agent_env sample_exec_ctx sample_read tool engine \<and>
     sandbox_clears sample_agent_env sample_exec_ctx (tc_name sample_read) sample_executor \<and>
     effect_tool (EfRead [''srv'', ''ws'', ''b.txt'']) (tc_name sample_read)"
  by (rule tool_effects_mediated [OF sample_read_effect])

subsection \<open>The live runner's configuration\<close>

text \<open>
  \<^verbatim>\<open>build_live_runner_with_dependencies\<close> of \<^verbatim>\<open>ghost-gateway/src/runtime_safety.rs\<close> sets up the file system,
  the network, the shell and the sandbox of an executor from the agent's configuration. \<open>exe\<close> is the path of
  the running program and \<open>cwd\<close> the working directory, where the system knows them.
\<close>

datatype isolation_mode = InProcess | Process | Container

record agent_sandbox_config = builtin_sandbox_policy +
  sb_allowed_shell_prefixes :: "string list"

definition builtin_sandbox_policy_of :: "agent_sandbox_config \<Rightarrow> builtin_sandbox_policy" where
  "builtin_sandbox_policy_of cfg =
     \<lparr>sb_enabled = sb_enabled cfg, sb_mode = sb_mode cfg, sb_on_violation = sb_on_violation cfg,
      sb_network_access = sb_network_access cfg\<rparr>"

definition resolved_shell_prefixes :: "agent_sandbox_config \<Rightarrow> string list \<Rightarrow> string list" where
  "resolved_shell_prefixes cfg tool_prefixes =
     (if \<not> sandbox_is_active (builtin_sandbox_policy_of cfg) then tool_prefixes
      else (case sb_mode cfg of
              ReadOnly \<Rightarrow> []
            | Strict \<Rightarrow> []
            | WorkspaceWrite \<Rightarrow>
                (if sb_allowed_shell_prefixes cfg = [] then tool_prefixes else sb_allowed_shell_prefixes cfg)
            | SandboxOff \<Rightarrow> tool_prefixes))"

definition filesystem_execution_backend ::
    "isolation_mode \<Rightarrow> string option \<Rightarrow> string \<Rightarrow> agent_sandbox_config \<Rightarrow> filesystem_backend" where
  "filesystem_execution_backend isolation exe working_dir cfg =
     (case isolation of
        InProcess \<Rightarrow> FsInProcess
      | Process \<Rightarrow> (case exe of Some path \<Rightarrow> FsProcessHelper path | None \<Rightarrow> FsInProcess)
      | Container \<Rightarrow> FsContainer ''alpine:3.20'' working_dir (sb_mode cfg \<in> {ReadOnly, Strict}))"

definition network_execution_backend :: "isolation_mode \<Rightarrow> string option \<Rightarrow> network_backend" where
  "network_execution_backend isolation exe =
     (case isolation of
        InProcess \<Rightarrow> NetInProcess
      | Process \<Rightarrow> (case exe of Some path \<Rightarrow> NetProcessHelper path | None \<Rightarrow> NetInProcess)
      | Container \<Rightarrow> NetContainer ''curlimages/curl:8.10.1'')"

definition working_dir_path :: "string list option \<Rightarrow> string list" where
  "working_dir_path cwd = (case cwd of Some dir \<Rightarrow> dir | None \<Rightarrow> [''.''])"

definition configure_live_executor ::
    "isolation_mode \<Rightarrow> string option \<Rightarrow> string list option \<Rightarrow> string \<Rightarrow> shell_tool_config \<Rightarrow> agent_sandbox_config
      \<Rightarrow> 'n tool_executor \<Rightarrow> 'n tool_executor" where
  "configure_live_executor isolation exe cwd working_dir shell cfg te =
     (let backend = filesystem_execution_backend isolation exe working_dir cfg;
          fs = (if sandbox_is_active (builtin_sandbox_policy_of cfg) then filesystem_new (working_dir_path cwd)
                else filesystem_new_unrestricted (case cwd of Some dir \<Rightarrow> dir | None \<Rightarrow> []))
      in te\<lparr>te_network_backend := network_execution_backend isolation exe,
            te_filesystem := Some (fs\<lparr>fs_execution_backend := backend\<rparr>),
            te_shell_config := shell\<lparr>sc_allowed_prefixes := resolved_shell_prefixes cfg (sc_allowed_prefixes shell)\<rparr>,
            te_builtin_sandbox := builtin_sandbox_policy_of cfg\<rparr>)"

lemma live_executor_fields:
  "te_builtin_sandbox (configure_live_executor im exe cwd wd shell cfg te) = builtin_sandbox_policy_of cfg"
  "sc_allowed_prefixes (te_shell_config (configure_live_executor im exe cwd wd shell cfg te)) =
     resolved_shell_prefixes cfg (sc_allowed_prefixes shell)"
  "sandbox_is_active (builtin_sandbox_policy_of cfg) \<Longrightarrow>
     te_filesystem (configure_live_executor im exe cwd wd shell cfg te) =
       Some (filesystem_new (working_dir_path cwd)\<lparr>fs_execution_backend := filesystem_execution_backend im exe wd cfg\<rparr>)"
  by (simp_all add: configure_live_executor_def Let_def)

subsection \<open>The sandbox holds\<close>

text \<open>
  What a sandbox mode is for, effect by effect. Skills and what a shell command does by itself are
  outside of it: a skill is never checked against the mode, and a command that may run may
  use the network.
\<close>

fun mode_allows :: "agent_sandbox_config \<Rightarrow> tool_effect \<Rightarrow> bool" where
  "mode_allows cfg (EfRead _) \<longleftrightarrow> True"
| "mode_allows cfg (EfList _) \<longleftrightarrow> True"
| "mode_allows cfg (EfWrite _ _) \<longleftrightarrow> sb_mode cfg = WorkspaceWrite"
| "mode_allows cfg (EfShell _) \<longleftrightarrow> sb_mode cfg = WorkspaceWrite"
| "mode_allows cfg (EfSearch _) \<longleftrightarrow> sb_network_access cfg"
| "mode_allows cfg (EfFetch _) \<longleftrightarrow> sb_network_access cfg"
| "mode_allows cfg (EfHttp _ _) \<longleftrightarrow> sb_network_access cfg"
| "mode_allows cfg (EfHelper cmd) \<longleftrightarrow>
     cmd \<in> {''sandbox-fs-read'', ''sandbox-fs-list''} \<or>
     cmd = ''sandbox-fs-write'' \<and> sb_mode cfg = WorkspaceWrite \<or>
     cmd \<in> {''sandbox-web-search'', ''sandbox-web-fetch'', ''sandbox-http-request''} \<and> sb_network_access cfg"
| "mode_allows cfg (EfSkill _) \<longleftrightarrow> True"


lemma with_arg_effects:
  "ev \<in> set (snd (with_arg key call k)) \<Longrightarrow>
     \<exists>v. str_arg key (llm_tool_call.tc_arguments call) = Some v \<and> ev \<in> set (snd (k v))"
  by (auto simp: with_arg_def required_arg_def split: option.splits)

lemma on_path_resolves:
  "ev \<in> set (snd (on_path env fs cmd r act)) \<Longrightarrow>
     \<exists>p. fs_resolve fs r = Inr p \<and> (ev = EfHelper cmd \<or> ev \<in> set (snd (act p)))"
  by (auto simp: on_path_def split: sum.splits filesystem_backend.splits prod.splits)

lemmas precise_effects = dispatch_network_effects with_effects(1) with_arg_effects on_path_resolves write_path_effects
  run_shell_effects

text \<open>The commands of the helper process, by tool.\<close>

definition helper_commands :: "(string \<times> string) list" where
  "helper_commands =
     [(''read_file'', ''sandbox-fs-read''), (''write_file'', ''sandbox-fs-write''), (''list_dir'', ''sandbox-fs-list''),
      (''web_search'', ''sandbox-web-search''), (''web_fetch'', ''sandbox-web-fetch''),
      (''http_request'', ''sandbox-http-request'')]"

lemma dispatch_helper:
  assumes "EfHelper cmd \<in> set (snd (dispatch env call te))"
  shows "(tc_name call, cmd) \<in> set helper_commands"
  using assms unfolding dispatch_def Let_def helper_commands_def
  by (auto split: if_splits dest!: precise_effects)

lemma dispatch_shell:
  assumes "EfShell cmd \<in> set (snd (dispatch env call te))"
  shows "list_ex (\<lambda>p. starts_with p cmd) (sc_allowed_prefixes (te_shell_config te))"
  using assms unfolding dispatch_def Let_def
  by (auto split: if_splits dest!: precise_effects)


lemma cleared_mode:
  assumes "sandbox_is_active (builtin_sandbox_policy_of cfg)"
    and "sandbox_violation (builtin_sandbox_policy_of cfg) (tc_name call) = None"
    and "ev \<in> set (snd (dispatch env call te))"
  shows "mode_allows cfg ev"
proof -
  have mode: "sb_mode cfg \<notin> {ReadOnly, Strict} \<longleftrightarrow> sb_mode cfg = WorkspaceWrite"
    using assms(1) by (cases "sb_mode cfg") (simp_all add: sandbox_is_active_def builtin_sandbox_policy_of_def)
  note tool = dispatch_effect_tool [OF assms(3)]
  show ?thesis
  proof (cases ev)
    case (EfHelper cmd)
    then show ?thesis
      using dispatch_helper [of cmd env call te] assms(2,3) mode
      by (auto simp: helper_commands_def sandbox_violation_def builtin_sandbox_policy_of_def split: if_splits)
  qed (use tool assms(2) mode in
      \<open>auto simp: sandbox_violation_def builtin_sandbox_policy_of_def split: if_splits\<close>)
qed

text \<open>
  C29. The sandbox holds for the built-in tools. For an executor that the live runner has set up for an
  agent with an active sandbox, every effect of every call is one that the mode allows (file writes and
  shell commands only in the workspace-write mode, searches, fetches and requests only with network
  access, also through the helper process), unless a human has approved the call in an interactive
  session whose violations pause. A shell command runs only in the workspace-write mode, approved or
  not, and begins with an allowed prefix. The modes do not speak of skills, nor of what a running
  shell command does.
\<close>

theorem sandbox_holds:
  assumes "te = configure_live_executor isolation exe cwd working_dir shell cfg te0"
    and "sandbox_is_active (builtin_sandbox_policy_of cfg)"
    and "ev \<in> set (fst (snd (tool_execute env reg cx call te)))"
  shows "(mode_allows cfg ev \<or>
      sb_on_violation cfg = ActionPause \<and> ec_interactive cx \<and> te_sandbox_review_sender te \<and> xv_review env = Inr Approved) \<and>
    (\<forall>cmd. ev = EfShell cmd \<longrightarrow> sb_mode cfg = WorkspaceWrite \<and>
       list_ex (\<lambda>p. starts_with p cmd) (resolved_shell_prefixes cfg (sc_allowed_prefixes shell)))"
proof -
  obtain te' where cl: "sandbox_clears env cx (tc_name call) te" "ev \<in> set (snd (dispatch env call te'))"
    and te': "te' = te\<lparr>te_policy_engine := te_policy_engine te'\<rparr>"
    using effects_cleared [OF assms(3)] by metis
  have "te_shell_config te' = te_shell_config te" by (subst te') simp
  then have pre: "list_ex (\<lambda>p. starts_with p cmd) (resolved_shell_prefixes cfg (sc_allowed_prefixes shell))"
    if "ev = EfShell cmd" for cmd
    using dispatch_shell [of cmd env call te'] cl(2) that by (simp add: assms(1) live_executor_fields)
  have "sb_mode cfg = WorkspaceWrite" if "ev = EfShell cmd" for cmd
    using pre [OF that] assms(2)
    by (cases "sb_mode cfg") (auto simp: resolved_shell_prefixes_def sandbox_is_active_def builtin_sandbox_policy_of_def)
  moreover have "sandbox_violation (builtin_sandbox_policy_of cfg) (tc_name call) = None \<or>
      sb_on_violation cfg = ActionPause \<and> ec_interactive cx \<and> te_sandbox_review_sender te \<and> xv_review env = Inr Approved"
    using cl(1) assms(2) by (simp add: sandbox_clears_def assms(1) live_executor_fields builtin_sandbox_policy_of_def)
  ultimately show ?thesis using cleared_mode [OF assms(2) _ cl(2)] pre by blast
qed


definition sample_sandbox :: agent_sandbox_config where
  "sample_sandbox =
     \<lparr>sb_enabled = True, sb_mode = WorkspaceWrite, sb_on_violation = ActionPause, sb_network_access = False,
      sb_allowed_shell_prefixes = []\<rparr>"

definition sample_live :: "nat tool_executor" where
  "sample_live = configure_live_executor InProcess None (Some [''srv'', ''ws'']) ''/srv/ws''
     \<lparr>sc_allowed_prefixes = [''ls''], sc_timeout_secs = 30\<rparr> sample_sandbox sample_executor"

definition sample_shell :: "nat llm_tool_call" where
  "sample_shell = llm_tool_call.make ''1'' ''shell'' (JObject [(''command'', JString ''ls -l'')])"

lemma sample_live_effects:
  "EfRead [''srv'', ''ws'', ''b.txt''] \<in>
     set (fst (snd (tool_execute sample_agent_env (register_builtin_tools registry_new) sample_exec_ctx sample_read sample_live)))"
  "EfShell ''ls -l'' \<in>
     set (fst (snd (tool_execute sample_agent_env (register_builtin_tools registry_new) sample_exec_ctx sample_shell sample_live)))"
  by code_simp+

lemma sample_sandbox_active: "sandbox_is_active (builtin_sandbox_policy_of sample_sandbox)"
  by (simp add: builtin_sandbox_policy_of_def sandbox_is_active_def sample_sandbox_def)

theorem sandbox_holds_witness:
  "sb_mode sample_sandbox = WorkspaceWrite \<and>
   list_ex (\<lambda>p. starts_with p ''ls -l'') (resolved_shell_prefixes sample_sandbox [''ls''])"
  using sandbox_holds [OF sample_live_def sample_sandbox_active sample_live_effects(2)] by simp


text \<open>
  The visibility of a tool is not enforced: whether a tool is hidden at the agent's intervention
  level plays no role when it is called, so a call of a hidden tool is executed like any other.
\<close>

theorem hidden_level_not_enforced:
  "tool_execute env (bt_insert name (tool\<lparr>rt_hidden_at_level := l\<rparr>) reg) cx call te =
   tool_execute env (bt_insert name tool reg) cx call te"
proof -
  have "build_policy_call f call (tool\<lparr>rt_hidden_at_level := l\<rparr>) cx = build_policy_call f call tool cx" for f
    by (simp add: build_policy_call_def)
  then have "evaluate_policy env call (tool\<lparr>rt_hidden_at_level := l\<rparr>) cx te = evaluate_policy env call tool cx te"
    by (simp only: evaluate_policy_def)
  then show ?thesis
    by (simp add: tool_execute_def registry_lookup_def split: option.split prod.split sum.split)
qed

end
