(* ===== verification/Autonomy_Store.thy ===== *)
theory Autonomy_Store
  imports Ordered_Map Rust_String "HOL-Library.List_Lexorder" "HOL-Library.Char_ord"
begin

section \<open>The ledger of the autonomy control plane\<close>

text \<open>
  The tables of migration \<^verbatim>\<open>v059_autonomy_control_plane.rs\<close> and the queries of
  \<^verbatim>\<open>cortex-storage/src/queries/autonomy_queries.rs\<close>. Jobs, runs and leases are maps from their
  primary key, the other tables lists of rows. Timestamps are the RFC 3339 texts that are stored,
  and the statements compare them as texts, byte by byte. Columns that a \<^verbatim>\<open>CHECK\<close> confines
  to a few texts are datatypes; the other constraints are checked where a statement can violate
  them. A statement that fails rolls its transaction back, so an error leaves the tables as they
  were. Failures of the database itself are left out.
\<close>

type_synonym timestamp = string

datatype autonomy_state =
  StQueued | StLeased | StRunning | StWaiting | StSucceeded | StFailed | StPaused | StQuarantined | StAborted

datatype approval_state = ApNotRequired | ApPending | ApApproved | ApRejected | ApExpired

datatype side_effect_status =
  SeNotStarted | SePrepared | SeApplied | SeManualReview | SeFailed | SeSuppressed | SeAborted

datatype overlap_policy = OvAllow | OvForbid | OvReplace | OvQueueOne

datatype missed_run_policy = MrSkip | MrCatchUpOne | MrCatchUpAllWithCap | MrRescheduleFromNow

datatype initiative_mode = ImAct | ImPropose | ImDraft | ImObserve | ImSuppress

datatype approval_policy = AlNone | AlExternalOnly | AlAlways

datatype delivery_state =
  DlDraft | DlPendingApproval | DlReady | DlSent | DlManualReview | DlFailed | DlSuppressed | DlAborted

definition valid_run_transition :: "autonomy_state \<Rightarrow> autonomy_state \<Rightarrow> bool" where
  "valid_run_transition src dst =
     (case src of
        StQueued \<Rightarrow> dst \<in> {StLeased, StPaused, StQuarantined, StAborted}
      | StLeased \<Rightarrow> dst \<in> {StRunning, StWaiting, StSucceeded, StFailed, StPaused, StQuarantined, StAborted}
      | StRunning \<Rightarrow> dst \<in> {StWaiting, StSucceeded, StFailed, StPaused, StQuarantined, StAborted}
      | StWaiting \<Rightarrow> dst \<in> {StQueued, StPaused, StQuarantined, StAborted}
      | StFailed \<Rightarrow> dst \<in> {StWaiting, StAborted, StPaused, StQuarantined}
      | StPaused \<Rightarrow> dst = StQueued
      | StQuarantined \<Rightarrow> dst = StAborted
      | _ \<Rightarrow> False)"

subsection \<open>Rows\<close>

record autonomy_job_row =
  jb_id :: string
  jb_job_type :: string
  jb_agent_id :: string
  jb_tenant_key :: string
  jb_workflow_id :: "string option"
  jb_policy_scope :: string
  jb_payload_version :: int
  jb_payload_json :: string
  jb_schedule_version :: int
  jb_schedule_json :: string
  jb_overlap_policy :: overlap_policy
  jb_missed_run_policy :: missed_run_policy
  jb_retry_policy_json :: string
  jb_initiative_mode :: initiative_mode
  jb_approval_policy :: approval_policy
  jb_state :: autonomy_state
  jb_current_run_id :: "string option"
  jb_next_run_at :: timestamp
  jb_last_due_at :: "timestamp option"
  jb_last_enqueued_at :: "timestamp option"
  jb_last_started_at :: "timestamp option"
  jb_last_finished_at :: "timestamp option"
  jb_last_success_at :: "timestamp option"
  jb_last_failure_at :: "timestamp option"
  jb_last_heartbeat_at :: "timestamp option"
  jb_pause_reason :: "string option"
  jb_quarantine_reason :: "string option"
  jb_terminal_reason :: "string option"
  jb_manual_review_required :: bool
  jb_retry_count :: int
  jb_retry_after :: "timestamp option"
  jb_created_at :: timestamp
  jb_updated_at :: timestamp

record new_autonomy_job =
  nj_id :: string
  nj_job_type :: string
  nj_agent_id :: string
  nj_tenant_key :: string
  nj_workflow_id :: "string option"
  nj_policy_scope :: string
  nj_payload_version :: int
  nj_payload_json :: string
  nj_schedule_version :: int
  nj_schedule_json :: string
  nj_overlap_policy :: overlap_policy
  nj_missed_run_policy :: missed_run_policy
  nj_retry_policy_json :: string
  nj_initiative_mode :: initiative_mode
  nj_approval_policy :: approval_policy
  nj_state :: autonomy_state
  nj_next_run_at :: timestamp
  nj_created_at :: timestamp
  nj_updated_at :: timestamp

record autonomy_run_row =
  ru_id :: string
  ru_job_id :: string
  ru_attempt :: int
  ru_trigger_source :: string
  ru_triggered_at :: timestamp
  ru_due_at :: timestamp
  ru_started_at :: "timestamp option"
  ru_completed_at :: "timestamp option"
  ru_state :: autonomy_state
  ru_why_now_json :: string
  ru_payload_version :: int
  ru_payload_json :: string
  ru_initiative_mode :: initiative_mode
  ru_approval_state :: approval_state
  ru_approval_proposal_id :: "string option"
  ru_approval_expires_at :: "timestamp option"
  ru_owner_identity :: "string option"
  ru_owner_token :: "string option"
  ru_lease_epoch :: int
  ru_side_effect_correlation_key :: "string option"
  ru_side_effect_status :: side_effect_status
  ru_result_json :: string
  ru_error_class :: "string option"
  ru_error_message :: "string option"
  ru_waiting_until :: "timestamp option"
  ru_terminal_reason :: "string option"
  ru_manual_review_required :: bool
  ru_created_at :: timestamp
  ru_updated_at :: timestamp

record new_autonomy_run =
  nr_id :: string
  nr_job_id :: string
  nr_attempt :: int
  nr_trigger_source :: string
  nr_triggered_at :: timestamp
  nr_due_at :: timestamp
  nr_state :: autonomy_state
  nr_why_now_json :: string
  nr_payload_version :: int
  nr_payload_json :: string
  nr_initiative_mode :: initiative_mode
  nr_approval_state :: approval_state
  nr_approval_proposal_id :: "string option"
  nr_approval_expires_at :: "timestamp option"
  nr_owner_identity :: "string option"
  nr_owner_token :: "string option"
  nr_lease_epoch :: int
  nr_side_effect_correlation_key :: "string option"
  nr_side_effect_status :: side_effect_status
  nr_result_json :: string
  nr_created_at :: timestamp
  nr_updated_at :: timestamp

record autonomy_lease_row =
  le_job_id :: string
  le_run_id :: string
  le_owner_identity :: string
  le_owner_token :: string
  le_lease_epoch :: int
  le_leased_at :: timestamp
  le_last_seen_at :: timestamp
  le_lease_expires_at :: timestamp

record acquired_autonomy_lease =
  al_owner_identity :: string
  al_owner_token :: string
  al_lease_epoch :: int

record autonomy_run_finish =
  fi_next_state :: autonomy_state
  fi_side_effect_status :: side_effect_status
  fi_result_json :: string
  fi_error_class :: "string option"
  fi_error_message :: "string option"
  fi_terminal_reason :: "string option"
  fi_manual_review_required :: bool
  fi_completed_at :: timestamp
  fi_updated_at :: timestamp

record autonomy_job_reschedule =
  re_run_state :: autonomy_state
  re_job_state :: autonomy_state
  re_next_run_at :: timestamp
  re_waiting_until :: "timestamp option"
  re_side_effect_status :: side_effect_status
  re_result_json :: string
  re_error_class :: "string option"
  re_error_message :: "string option"
  re_updated_at :: timestamp

record autonomy_run_deferral =
  df_run_state :: autonomy_state
  df_job_state :: autonomy_state
  df_next_run_at :: timestamp
  df_waiting_until :: "timestamp option"
  df_side_effect_status :: side_effect_status
  df_result_json :: string
  df_error_class :: "string option"
  df_error_message :: "string option"
  df_approval_state :: "approval_state option"
  df_approval_expires_at :: "timestamp option"
  df_updated_at :: timestamp

record autonomy_run_completion_followup =
  cf_finish :: autonomy_run_finish
  cf_next_job_state :: autonomy_state
  cf_next_run_at :: timestamp
  cf_retry_after :: "timestamp option"
  cf_last_heartbeat_at :: "timestamp option"

record autonomy_suppression_row =
  su_id :: string
  su_scope_kind :: string
  su_scope_key :: string
  su_fingerprint :: string
  su_reason :: string
  su_created_by :: string
  su_created_at :: timestamp
  su_expires_at :: "timestamp option"
  su_active :: bool
  su_policy_version :: int
  su_metadata_json :: string

record autonomy_policy_row =
  po_id :: string
  po_scope_kind :: string
  po_scope_key :: string
  po_policy_version :: int
  po_policy_json :: string
  po_created_at :: timestamp
  po_updated_at :: timestamp

record autonomy_notification_row =
  no_id :: string
  no_run_id :: string
  no_job_id :: string
  no_delivery_state :: delivery_state
  no_channel :: string
  no_correlation_key :: string
  no_payload_json :: string
  no_approval_proposal_id :: "string option"
  no_last_error :: "string option"
  no_created_at :: timestamp
  no_updated_at :: timestamp

record autonomy_db =
  adb_jobs :: "(string, autonomy_job_row) btree_map"
  adb_runs :: "(string, autonomy_run_row) btree_map"
  adb_leases :: "(string, autonomy_lease_row) btree_map"
  adb_suppressions :: "autonomy_suppression_row list"
  adb_policies :: "autonomy_policy_row list"
  adb_notifications :: "autonomy_notification_row list"

datatype autonomy_storage_error =
    VersionNotPositive
  | InvalidRunTransition autonomy_state autonomy_state
  | ConstraintViolated

type_synonym 'a autonomy_tx = "autonomy_storage_error + 'a \<times> autonomy_db"

definition sql_coalesce :: "'a option \<Rightarrow> 'a option \<Rightarrow> 'a option" where
  "sql_coalesce x y = (case x of None \<Rightarrow> y | Some _ \<Rightarrow> x)"

subsection \<open>Jobs\<close>

definition inserted_job :: "new_autonomy_job \<Rightarrow> autonomy_job_row" where
  "inserted_job j =
     \<lparr>jb_id = nj_id j, jb_job_type = nj_job_type j, jb_agent_id = nj_agent_id j,
      jb_tenant_key = nj_tenant_key j, jb_workflow_id = nj_workflow_id j,
      jb_policy_scope = nj_policy_scope j, jb_payload_version = nj_payload_version j,
      jb_payload_json = nj_payload_json j, jb_schedule_version = nj_schedule_version j,
      jb_schedule_json = nj_schedule_json j, jb_overlap_policy = nj_overlap_policy j,
      jb_missed_run_policy = nj_missed_run_policy j, jb_retry_policy_json = nj_retry_policy_json j,
      jb_initiative_mode = nj_initiative_mode j, jb_approval_policy = nj_approval_policy j,
      jb_state = nj_state j, jb_current_run_id = None, jb_next_run_at = nj_next_run_at j,
      jb_last_due_at = None, jb_last_enqueued_at = None, jb_last_started_at = None,
      jb_last_finished_at = None, jb_last_success_at = None, jb_last_failure_at = None,
      jb_last_heartbeat_at = None, jb_pause_reason = None, jb_quarantine_reason = None,
      jb_terminal_reason = None, jb_manual_review_required = False, jb_retry_count = 0,
      jb_retry_after = None, jb_created_at = nj_created_at j, jb_updated_at = nj_updated_at j\<rparr>"

definition insert_job :: "new_autonomy_job \<Rightarrow> autonomy_db \<Rightarrow> unit autonomy_tx" where
  "insert_job j db =
     (if nj_payload_version j \<le> 0 then Inl VersionNotPositive
      else if nj_schedule_version j \<le> 0 then Inl VersionNotPositive
      else if bt_contains (adb_jobs db) (nj_id j) then Inl ConstraintViolated
      else Inr ((), db\<lparr>adb_jobs := bt_insert (nj_id j) (inserted_job j) (adb_jobs db)\<rparr>))"

definition get_job :: "string \<Rightarrow> autonomy_db \<Rightarrow> autonomy_job_row option" where
  "get_job i db = bt_get (adb_jobs db) i"

definition list_jobs :: "nat \<Rightarrow> autonomy_db \<Rightarrow> autonomy_job_row list" where
  "list_jobs limit db =
     take limit (sort_key jb_next_run_at (sort_key jb_created_at (bt_values (adb_jobs db))))"

definition due_time :: "autonomy_job_row \<Rightarrow> timestamp" where
  "due_time j = (case jb_retry_after j of Some t \<Rightarrow> t | None \<Rightarrow> jb_next_run_at j)"

definition job_due :: "timestamp \<Rightarrow> autonomy_job_row \<Rightarrow> bool" where
  "job_due now j \<longleftrightarrow>
     jb_state j \<in> {StQueued, StWaiting, StFailed} \<and> \<not> jb_manual_review_required j \<and> due_time j \<le> now"

definition select_due_jobs :: "timestamp \<Rightarrow> nat \<Rightarrow> autonomy_db \<Rightarrow> autonomy_job_row list" where
  "select_due_jobs now limit db =
     take limit (sort_key due_time (sort_key jb_created_at (filter (job_due now) (bt_values (adb_jobs db)))))"

definition set_job :: "string \<Rightarrow> (autonomy_job_row \<Rightarrow> autonomy_job_row) \<Rightarrow> autonomy_db \<Rightarrow> autonomy_db" where
  "set_job i f db = db\<lparr>adb_jobs := bt_modify i f (adb_jobs db)\<rparr>"

subsection \<open>Runs\<close>

definition inserted_run :: "new_autonomy_run \<Rightarrow> autonomy_run_row" where
  "inserted_run r =
     \<lparr>ru_id = nr_id r, ru_job_id = nr_job_id r, ru_attempt = nr_attempt r,
      ru_trigger_source = nr_trigger_source r, ru_triggered_at = nr_triggered_at r,
      ru_due_at = nr_due_at r, ru_started_at = None, ru_completed_at = None, ru_state = nr_state r,
      ru_why_now_json = nr_why_now_json r, ru_payload_version = nr_payload_version r,
      ru_payload_json = nr_payload_json r, ru_initiative_mode = nr_initiative_mode r,
      ru_approval_state = nr_approval_state r, ru_approval_proposal_id = nr_approval_proposal_id r,
      ru_approval_expires_at = nr_approval_expires_at r, ru_owner_identity = nr_owner_identity r,
      ru_owner_token = nr_owner_token r, ru_lease_epoch = nr_lease_epoch r,
      ru_side_effect_correlation_key = nr_side_effect_correlation_key r,
      ru_side_effect_status = nr_side_effect_status r, ru_result_json = nr_result_json r,
      ru_error_class = None, ru_error_message = None, ru_waiting_until = None,
      ru_terminal_reason = None, ru_manual_review_required = False,
      ru_created_at = nr_created_at r, ru_updated_at = nr_updated_at r\<rparr>"

definition get_run :: "string \<Rightarrow> autonomy_db \<Rightarrow> autonomy_run_row option" where
  "get_run i db = bt_get (adb_runs db) i"

definition get_run_by_side_effect_key :: "string \<Rightarrow> autonomy_db \<Rightarrow> autonomy_run_row option" where
  "get_run_by_side_effect_key k db =
     find (\<lambda>r. ru_side_effect_correlation_key r = Some k) (bt_values (adb_runs db))"

definition side_effect_key_taken :: "string option \<Rightarrow> autonomy_db \<Rightarrow> bool" where
  "side_effect_key_taken k db =
     (case k of None \<Rightarrow> False | Some k' \<Rightarrow> get_run_by_side_effect_key k' db \<noteq> None)"

definition insert_run :: "new_autonomy_run \<Rightarrow> autonomy_db \<Rightarrow> unit autonomy_tx" where
  "insert_run r db =
     (if nr_payload_version r \<le> 0 then Inl VersionNotPositive
      else if bt_contains (adb_runs db) (nr_id r) \<or> side_effect_key_taken (nr_side_effect_correlation_key r) db
        \<or> nr_attempt r < 0 \<or> nr_lease_epoch r < 0 then Inl ConstraintViolated
      else Inr ((), db\<lparr>adb_runs := bt_insert (nr_id r) (inserted_run r) (adb_runs db)\<rparr>))"

definition runs_for_job :: "string \<Rightarrow> autonomy_db \<Rightarrow> autonomy_run_row list" where
  "runs_for_job i db =
     rev (sort_key ru_attempt (sort_key ru_created_at (filter (\<lambda>r. ru_job_id r = i) (bt_values (adb_runs db)))))"

definition list_runs_for_job :: "string \<Rightarrow> nat \<Rightarrow> autonomy_db \<Rightarrow> autonomy_run_row list" where
  "list_runs_for_job i limit db = take limit (runs_for_job i db)"

definition latest_run_for_job :: "string \<Rightarrow> autonomy_db \<Rightarrow> autonomy_run_row option" where
  "latest_run_for_job i db = (case list_runs_for_job i 1 db of r # _ \<Rightarrow> Some r | [] \<Rightarrow> None)"

definition rebind_run_owner ::
    "string \<Rightarrow> string \<Rightarrow> string \<Rightarrow> string \<Rightarrow> int \<Rightarrow> timestamp \<Rightarrow> autonomy_db \<Rightarrow> bool autonomy_tx" where
  "rebind_run_owner run_id job_id owner_identity owner_token lease_epoch updated_at db =
     (case get_run run_id db of
        None \<Rightarrow> Inr (False, db)
      | Some r \<Rightarrow>
          if ru_job_id r = job_id \<and> ru_state r \<in> {StLeased, StRunning, StWaiting, StFailed, StPaused} then
            if lease_epoch < 0 then Inl ConstraintViolated
            else Inr (True, db\<lparr>adb_runs := bt_insert run_id
              (r\<lparr>ru_state := StLeased, ru_owner_identity := Some owner_identity,
                 ru_owner_token := Some owner_token, ru_lease_epoch := lease_epoch,
                 ru_updated_at := updated_at\<rparr>) (adb_runs db)\<rparr>)
          else Inr (False, db))"

subsection \<open>Leases\<close>

definition get_lease :: "string \<Rightarrow> autonomy_db \<Rightarrow> autonomy_lease_row option" where
  "get_lease i db = bt_get (adb_leases db) i"

definition leased_job :: "string \<Rightarrow> timestamp \<Rightarrow> autonomy_job_row \<Rightarrow> autonomy_job_row" where
  "leased_job run_id leased_at j =
     j\<lparr>jb_state := StLeased, jb_current_run_id := Some run_id,
       jb_last_due_at := sql_coalesce (jb_last_due_at j) (Some (jb_next_run_at j)),
       jb_last_enqueued_at := Some leased_at, jb_updated_at := leased_at\<rparr>"

definition acquire_lease ::
    "string \<Rightarrow> string \<Rightarrow> string \<Rightarrow> string \<Rightarrow> timestamp \<Rightarrow> timestamp \<Rightarrow> autonomy_db
      \<Rightarrow> acquired_autonomy_lease option autonomy_tx" where
  "acquire_lease job_id run_id owner_identity owner_token leased_at lease_expires_at db =
     (let existing = get_lease job_id db;
          held = (case existing of Some l \<Rightarrow> leased_at < le_lease_expires_at l | None \<Rightarrow> False);
          next_epoch = (case existing of Some l \<Rightarrow> le_lease_epoch l + 1 | None \<Rightarrow> 0);
          lease = \<lparr>le_job_id = job_id, le_run_id = run_id, le_owner_identity = owner_identity,
                   le_owner_token = owner_token, le_lease_epoch = next_epoch, le_leased_at = leased_at,
                   le_last_seen_at = leased_at, le_lease_expires_at = lease_expires_at\<rparr>
      in if held then Inr (None, db)
         else if owner_token = [] \<or> next_epoch < 0 \<or>
                 list_ex (\<lambda>l. le_job_id l \<noteq> job_id \<and> le_run_id l = run_id) (bt_values (adb_leases db))
         then Inl ConstraintViolated
         else case get_job job_id db of
           None \<Rightarrow> Inr (None, db)
         | Some j \<Rightarrow>
             if jb_state j \<in> {StQueued, StWaiting, StFailed, StLeased} then
               Inr (Some \<lparr>al_owner_identity = owner_identity, al_owner_token = owner_token,
                          al_lease_epoch = next_epoch\<rparr>,
                    set_job job_id (leased_job run_id leased_at)
                      (db\<lparr>adb_leases := bt_insert job_id lease (adb_leases db)\<rparr>))
             else Inr (None, db))"

definition renew_autonomy_lease ::
    "string \<Rightarrow> string \<Rightarrow> int \<Rightarrow> timestamp \<Rightarrow> timestamp \<Rightarrow> autonomy_db \<Rightarrow> bool autonomy_tx" where
  "renew_autonomy_lease job_id owner_token lease_epoch last_seen_at lease_expires_at db =
     (case get_lease job_id db of
        Some l \<Rightarrow>
          if le_owner_token l = owner_token \<and> le_lease_epoch l = lease_epoch then
            Inr (True, db\<lparr>adb_leases := bt_insert job_id
              (l\<lparr>le_last_seen_at := last_seen_at, le_lease_expires_at := lease_expires_at\<rparr>) (adb_leases db)\<rparr>)
          else Inr (False, db)
      | None \<Rightarrow> Inr (False, db))"

definition delete_lease :: "string \<Rightarrow> string \<Rightarrow> int \<Rightarrow> autonomy_db \<Rightarrow> autonomy_db" where
  "delete_lease job_id owner_token lease_epoch db =
     (case get_lease job_id db of
        Some l \<Rightarrow>
          if le_owner_token l = owner_token \<and> le_lease_epoch l = lease_epoch
          then db\<lparr>adb_leases := bt_remove job_id (adb_leases db)\<rparr> else db
      | None \<Rightarrow> db)"

subsection \<open>Transactions of the owner of a run\<close>

text \<open>
  What the five transactions share: the transition is checked against the table, the update of the
  run is confined to the row whose owner token and lease epoch are the caller's, and nothing is
  changed when there is none.
\<close>

definition owns_run :: "string \<Rightarrow> string \<Rightarrow> int \<Rightarrow> autonomy_run_row \<Rightarrow> bool" where
  "owns_run job_id owner_token lease_epoch r \<longleftrightarrow>
     ru_job_id r = job_id \<and> ru_owner_token r = Some owner_token \<and> ru_lease_epoch r = lease_epoch"

definition owner_tx ::
    "string \<Rightarrow> string \<Rightarrow> string \<Rightarrow> int \<Rightarrow> autonomy_state \<Rightarrow> (autonomy_run_row \<Rightarrow> autonomy_run_row)
      \<Rightarrow> (autonomy_db \<Rightarrow> autonomy_db) \<Rightarrow> autonomy_db \<Rightarrow> bool autonomy_tx" where
  "owner_tx job_id run_id owner_token lease_epoch next_state f rest db =
     (case get_run run_id db of
        None \<Rightarrow> Inr (False, db)
      | Some r \<Rightarrow>
          if \<not> valid_run_transition (ru_state r) next_state
          then Inl (InvalidRunTransition (ru_state r) next_state)
          else if \<not> owns_run job_id owner_token lease_epoch r then Inr (False, db)
          else Inr (True, rest (db\<lparr>adb_runs := bt_insert run_id (f r) (adb_runs db)\<rparr>)))"

definition mark_run_running ::
    "string \<Rightarrow> string \<Rightarrow> string \<Rightarrow> int \<Rightarrow> timestamp \<Rightarrow> autonomy_db \<Rightarrow> bool autonomy_tx" where
  "mark_run_running job_id run_id owner_token lease_epoch started_at =
     owner_tx job_id run_id owner_token lease_epoch StRunning
       (\<lambda>r. r\<lparr>ru_state := StRunning, ru_started_at := Some started_at, ru_updated_at := started_at\<rparr>)
       (set_job job_id
         (\<lambda>j. j\<lparr>jb_state := StRunning, jb_last_started_at := Some started_at, jb_updated_at := started_at\<rparr>))"

definition finished_run :: "autonomy_run_finish \<Rightarrow> autonomy_run_row \<Rightarrow> autonomy_run_row" where
  "finished_run fi r =
     r\<lparr>ru_completed_at := Some (fi_completed_at fi), ru_state := fi_next_state fi,
       ru_side_effect_status := fi_side_effect_status fi, ru_result_json := fi_result_json fi,
       ru_error_class := fi_error_class fi, ru_error_message := fi_error_message fi,
       ru_terminal_reason := fi_terminal_reason fi,
       ru_manual_review_required := fi_manual_review_required fi, ru_updated_at := fi_updated_at fi\<rparr>"

definition finished_job :: "autonomy_run_finish \<Rightarrow> autonomy_job_row \<Rightarrow> autonomy_job_row" where
  "finished_job fi j =
     j\<lparr>jb_state := fi_next_state fi,
       jb_current_run_id :=
         (if fi_next_state fi \<in> {StSucceeded, StFailed, StAborted, StPaused, StQuarantined} then None
          else jb_current_run_id j),
       jb_last_started_at := sql_coalesce (jb_last_started_at j) (Some (fi_completed_at fi)),
       jb_last_finished_at := Some (fi_completed_at fi),
       jb_last_success_at := (if fi_next_state fi = StSucceeded then Some (fi_completed_at fi) else jb_last_success_at j),
       jb_last_failure_at := (if fi_next_state fi = StFailed then Some (fi_completed_at fi) else jb_last_failure_at j),
       jb_terminal_reason := fi_terminal_reason fi,
       jb_manual_review_required := fi_manual_review_required fi,
       jb_retry_count := jb_retry_count j + (if fi_next_state fi = StFailed then 1 else 0),
       jb_updated_at := fi_updated_at fi\<rparr>"

definition finish_autonomy_run ::
    "string \<Rightarrow> string \<Rightarrow> string \<Rightarrow> int \<Rightarrow> autonomy_run_finish \<Rightarrow> autonomy_db \<Rightarrow> bool autonomy_tx" where
  "finish_autonomy_run job_id run_id owner_token lease_epoch fi =
     owner_tx job_id run_id owner_token lease_epoch (fi_next_state fi) (finished_run fi)
       (\<lambda>db. set_job job_id (finished_job fi) (delete_lease job_id owner_token lease_epoch db))"

definition requeued_job :: "autonomy_run_completion_followup \<Rightarrow> autonomy_job_row \<Rightarrow> autonomy_job_row" where
  "requeued_job cf j =
     (let fi = cf_finish cf in
      j\<lparr>jb_state := cf_next_job_state cf, jb_current_run_id := None, jb_next_run_at := cf_next_run_at cf,
        jb_retry_after := cf_retry_after cf, jb_last_finished_at := Some (fi_completed_at fi),
        jb_last_success_at := (if fi_next_state fi = StSucceeded then Some (fi_completed_at fi) else jb_last_success_at j),
        jb_last_failure_at := (if fi_next_state fi = StFailed then Some (fi_completed_at fi) else jb_last_failure_at j),
        jb_last_heartbeat_at := sql_coalesce (cf_last_heartbeat_at cf) (jb_last_heartbeat_at j),
        jb_terminal_reason := fi_terminal_reason fi,
        jb_manual_review_required := fi_manual_review_required fi, jb_updated_at := fi_updated_at fi\<rparr>)"

definition complete_run_and_requeue ::
    "string \<Rightarrow> string \<Rightarrow> string \<Rightarrow> int \<Rightarrow> autonomy_run_completion_followup \<Rightarrow> autonomy_db \<Rightarrow> bool autonomy_tx" where
  "complete_run_and_requeue job_id run_id owner_token lease_epoch cf =
     owner_tx job_id run_id owner_token lease_epoch (fi_next_state (cf_finish cf)) (finished_run (cf_finish cf))
       (\<lambda>db. set_job job_id (requeued_job cf) (delete_lease job_id owner_token lease_epoch db))"

definition rescheduled_job :: "autonomy_job_reschedule \<Rightarrow> autonomy_job_row \<Rightarrow> autonomy_job_row" where
  "rescheduled_job re j =
     j\<lparr>jb_state := re_job_state re, jb_current_run_id := None, jb_next_run_at := re_next_run_at re,
       jb_retry_after := re_waiting_until re,
       jb_last_failure_at := (if re_job_state re = StFailed then Some (re_updated_at re) else jb_last_failure_at j),
       jb_retry_count := jb_retry_count j + 1, jb_updated_at := re_updated_at re\<rparr>"

definition reschedule_job ::
    "string \<Rightarrow> string \<Rightarrow> string \<Rightarrow> int \<Rightarrow> autonomy_job_reschedule \<Rightarrow> autonomy_db \<Rightarrow> bool autonomy_tx" where
  "reschedule_job job_id run_id owner_token lease_epoch re =
     owner_tx job_id run_id owner_token lease_epoch (re_run_state re)
       (\<lambda>r. r\<lparr>ru_state := re_run_state re, ru_waiting_until := re_waiting_until re,
              ru_side_effect_status := re_side_effect_status re, ru_result_json := re_result_json re,
              ru_error_class := re_error_class re, ru_error_message := re_error_message re,
              ru_updated_at := re_updated_at re\<rparr>)
       (\<lambda>db. set_job job_id (rescheduled_job re) (delete_lease job_id owner_token lease_epoch db))"

definition deferred_run :: "autonomy_run_deferral \<Rightarrow> autonomy_run_row \<Rightarrow> autonomy_run_row" where
  "deferred_run df r =
     r\<lparr>ru_state := df_run_state df, ru_waiting_until := df_waiting_until df,
       ru_side_effect_status := df_side_effect_status df, ru_result_json := df_result_json df,
       ru_error_class := df_error_class df, ru_error_message := df_error_message df,
       ru_approval_state := (case df_approval_state df of Some a \<Rightarrow> a | None \<Rightarrow> ru_approval_state r),
       ru_approval_expires_at := sql_coalesce (df_approval_expires_at df) (ru_approval_expires_at r),
       ru_updated_at := df_updated_at df\<rparr>"

definition deferred_job :: "autonomy_run_deferral \<Rightarrow> autonomy_job_row \<Rightarrow> autonomy_job_row" where
  "deferred_job df j =
     j\<lparr>jb_state := df_job_state df, jb_current_run_id := None, jb_next_run_at := df_next_run_at df,
       jb_retry_after := df_waiting_until df, jb_updated_at := df_updated_at df\<rparr>"

definition defer_run ::
    "string \<Rightarrow> string \<Rightarrow> string \<Rightarrow> int \<Rightarrow> autonomy_run_deferral \<Rightarrow> autonomy_db \<Rightarrow> bool autonomy_tx" where
  "defer_run job_id run_id owner_token lease_epoch df =
     owner_tx job_id run_id owner_token lease_epoch (df_run_state df) (deferred_run df)
       (\<lambda>db. set_job job_id (deferred_job df) (delete_lease job_id owner_token lease_epoch db))"

definition approve_run ::
    "string \<Rightarrow> string \<Rightarrow> timestamp \<Rightarrow> timestamp \<Rightarrow> autonomy_db \<Rightarrow> bool autonomy_tx" where
  "approve_run run_id approval_proposal_id approval_expires_at updated_at db =
     (case get_run run_id db of
        None \<Rightarrow> Inr (False, db)
      | Some r \<Rightarrow>
          if ru_approval_state r \<noteq> ApPending \<and> ru_approval_state r \<noteq> ApExpired then Inr (False, db)
          else Inr (True,
            set_job (ru_job_id r)
              (\<lambda>j. j\<lparr>jb_state := StQueued, jb_next_run_at := updated_at, jb_retry_after := None,
                     jb_manual_review_required := False, jb_updated_at := updated_at\<rparr>)
              (db\<lparr>adb_runs := bt_insert run_id
                (r\<lparr>ru_approval_state := ApApproved, ru_approval_proposal_id := Some approval_proposal_id,
                   ru_approval_expires_at := Some approval_expires_at, ru_updated_at := updated_at\<rparr>)
                (adb_runs db)\<rparr>)))"

subsection \<open>Suppressions, policies and notifications\<close>

definition insert_suppression :: "autonomy_suppression_row \<Rightarrow> autonomy_db \<Rightarrow> unit autonomy_tx" where
  "insert_suppression s db =
     (if list_ex (\<lambda>s'. su_id s' = su_id s) (adb_suppressions db) \<or> su_policy_version s \<le> 0
      then Inl ConstraintViolated
      else Inr ((), db\<lparr>adb_suppressions := adb_suppressions db @ [s]\<rparr>))"

definition suppression_active :: "string \<Rightarrow> string \<Rightarrow> timestamp \<Rightarrow> autonomy_suppression_row \<Rightarrow> bool" where
  "suppression_active scope_kind scope_key now s \<longleftrightarrow>
     su_scope_kind s = scope_kind \<and> su_scope_key s = scope_key \<and> su_active s \<and>
     (case su_expires_at s of None \<Rightarrow> True | Some t \<Rightarrow> now < t)"

definition list_active_suppressions ::
    "string \<Rightarrow> string \<Rightarrow> timestamp \<Rightarrow> autonomy_db \<Rightarrow> autonomy_suppression_row list" where
  "list_active_suppressions scope_kind scope_key now db =
     rev (sort_key su_created_at (filter (suppression_active scope_kind scope_key now) (adb_suppressions db)))"

definition same_scope :: "string \<Rightarrow> string \<Rightarrow> autonomy_policy_row \<Rightarrow> bool" where
  "same_scope scope_kind scope_key p \<longleftrightarrow> po_scope_kind p = scope_kind \<and> po_scope_key p = scope_key"

definition get_policy :: "string \<Rightarrow> string \<Rightarrow> autonomy_db \<Rightarrow> autonomy_policy_row option" where
  "get_policy scope_kind scope_key db = find (same_scope scope_kind scope_key) (adb_policies db)"

definition upsert_policy :: "autonomy_policy_row \<Rightarrow> autonomy_db \<Rightarrow> unit autonomy_tx" where
  "upsert_policy p db =
     (let same = same_scope (po_scope_kind p) (po_scope_key p) in
      if po_policy_version p \<le> 0 \<or> list_ex (\<lambda>q. \<not> same q \<and> po_id q = po_id p) (adb_policies db)
      then Inl ConstraintViolated
      else if list_ex same (adb_policies db) then
        Inr ((), db\<lparr>adb_policies := map (\<lambda>q. if same q then
          q\<lparr>po_id := po_id p, po_policy_version := po_policy_version p, po_policy_json := po_policy_json p,
            po_updated_at := po_updated_at p\<rparr> else q) (adb_policies db)\<rparr>)
      else Inr ((), db\<lparr>adb_policies := adb_policies db @ [p]\<rparr>))"

definition insert_notification :: "autonomy_notification_row \<Rightarrow> autonomy_db \<Rightarrow> unit autonomy_tx" where
  "insert_notification n db =
     (if list_ex (\<lambda>m. no_id m = no_id n \<or> no_correlation_key m = no_correlation_key n) (adb_notifications db)
      then Inl ConstraintViolated
      else Inr ((), db\<lparr>adb_notifications := adb_notifications db @ [n]\<rparr>))"

definition list_notifications_for_run :: "string \<Rightarrow> autonomy_db \<Rightarrow> autonomy_notification_row list" where
  "list_notifications_for_run run_id db =
     sort_key no_created_at (filter (\<lambda>n. no_run_id n = run_id) (adb_notifications db))"

definition autonomy_db_new :: autonomy_db where
  "autonomy_db_new =
     \<lparr>adb_jobs = bt_new, adb_runs = bt_new, adb_leases = bt_new, adb_suppressions = [],
      adb_policies = [], adb_notifications = []\<rparr>"

subsection \<open>The tables under any sequence of statements\<close>

datatype store_op =
    OpInsertJob new_autonomy_job
  | OpInsertRun new_autonomy_run
  | OpRebind string string string string int timestamp
  | OpAcquire string string string string timestamp timestamp
  | OpRenewLease string string int timestamp timestamp
  | OpMarkRunning string string string int timestamp
  | OpFinish string string string int autonomy_run_finish
  | OpComplete string string string int autonomy_run_completion_followup
  | OpReschedule string string string int autonomy_job_reschedule
  | OpDefer string string string int autonomy_run_deferral
  | OpApprove string string timestamp timestamp
  | OpSuppress autonomy_suppression_row
  | OpUpsertPolicy autonomy_policy_row
  | OpNotify autonomy_notification_row

definition tx_db :: "autonomy_db \<Rightarrow> 'a autonomy_tx \<Rightarrow> autonomy_db" where
  "tx_db db r = (case r of Inl _ \<Rightarrow> db | Inr (_, db') \<Rightarrow> db')"

lemma tx_db_simps [simp]: "tx_db db (Inl e) = db" "tx_db db (Inr (a, db')) = db'"
  by (simp_all add: tx_db_def)

fun store_step :: "autonomy_db \<Rightarrow> store_op \<Rightarrow> autonomy_db" where
  "store_step db (OpInsertJob j) = tx_db db (insert_job j db)"
| "store_step db (OpInsertRun r) = tx_db db (insert_run r db)"
| "store_step db (OpRebind r j oi t e u) = tx_db db (rebind_run_owner r j oi t e u db)"
| "store_step db (OpAcquire j r oi t l x) = tx_db db (acquire_lease j r oi t l x db)"
| "store_step db (OpRenewLease j t e l x) = tx_db db (renew_autonomy_lease j t e l x db)"
| "store_step db (OpMarkRunning j r t e s) = tx_db db (mark_run_running j r t e s db)"
| "store_step db (OpFinish j r t e fi) = tx_db db (finish_autonomy_run j r t e fi db)"
| "store_step db (OpComplete j r t e cf) = tx_db db (complete_run_and_requeue j r t e cf db)"
| "store_step db (OpReschedule j r t e re) = tx_db db (reschedule_job j r t e re db)"
| "store_step db (OpDefer j r t e df) = tx_db db (defer_run j r t e df db)"
| "store_step db (OpApprove r a x u) = tx_db db (approve_run r a x u db)"
| "store_step db (OpSuppress s) = tx_db db (insert_suppression s db)"
| "store_step db (OpUpsertPolicy q) = tx_db db (upsert_policy q db)"
| "store_step db (OpNotify n) = tx_db db (insert_notification n db)"

text \<open>The constraints of the schema, as properties of the tables.\<close>

definition job_ok :: "string \<Rightarrow> autonomy_job_row \<Rightarrow> bool" where
  "job_ok i j \<longleftrightarrow> jb_id j = i \<and> 0 < jb_payload_version j \<and> 0 < jb_schedule_version j \<and> 0 \<le> jb_retry_count j"

definition run_ok :: "string \<Rightarrow> autonomy_run_row \<Rightarrow> bool" where
  "run_ok i r \<longleftrightarrow> ru_id r = i \<and> 0 \<le> ru_attempt r \<and> 0 < ru_payload_version r \<and> 0 \<le> ru_lease_epoch r"

definition lease_ok :: "string \<Rightarrow> autonomy_lease_row \<Rightarrow> bool" where
  "lease_ok i l \<longleftrightarrow> le_job_id l = i \<and> le_owner_token l \<noteq> [] \<and> 0 \<le> le_lease_epoch l"

definition jobs_ok :: "autonomy_db \<Rightarrow> bool" where
  "jobs_ok db \<longleftrightarrow> (\<forall>i j. bt_get (adb_jobs db) i = Some j \<longrightarrow> job_ok i j)"

definition runs_ok :: "autonomy_db \<Rightarrow> bool" where
  "runs_ok db \<longleftrightarrow>
     (\<forall>i r. bt_get (adb_runs db) i = Some r \<longrightarrow> run_ok i r) \<and>
     (\<forall>i r i' r'. bt_get (adb_runs db) i = Some r \<longrightarrow> bt_get (adb_runs db) i' = Some r' \<longrightarrow>
        ru_side_effect_correlation_key r \<noteq> None \<longrightarrow>
        ru_side_effect_correlation_key r = ru_side_effect_correlation_key r' \<longrightarrow> i = i')"

definition leases_ok :: "autonomy_db \<Rightarrow> bool" where
  "leases_ok db \<longleftrightarrow>
     (\<forall>i l. bt_get (adb_leases db) i = Some l \<longrightarrow> lease_ok i l) \<and>
     (\<forall>i l i' l'. bt_get (adb_leases db) i = Some l \<longrightarrow> bt_get (adb_leases db) i' = Some l' \<longrightarrow>
        le_run_id l = le_run_id l' \<longrightarrow> i = i')"

definition rest_ok :: "autonomy_db \<Rightarrow> bool" where
  "rest_ok db \<longleftrightarrow>
     distinct (map (\<lambda>p. (po_scope_kind p, po_scope_key p)) (adb_policies db)) \<and>
     distinct (map no_correlation_key (adb_notifications db)) \<and> distinct (map su_id (adb_suppressions db))"

definition autonomy_db_ok :: "autonomy_db \<Rightarrow> bool" where
  "autonomy_db_ok db \<longleftrightarrow> jobs_ok db \<and> runs_ok db \<and> leases_ok db \<and> rest_ok db"

lemma set_job_fields [simp]:
  "adb_runs (set_job i f db) = adb_runs db" "adb_leases (set_job i f db) = adb_leases db"
  "adb_suppressions (set_job i f db) = adb_suppressions db" "adb_policies (set_job i f db) = adb_policies db"
  "adb_notifications (set_job i f db) = adb_notifications db"
  "bt_get (adb_jobs (set_job i f db)) k = (if k = i then map_option f (bt_get (adb_jobs db) i) else bt_get (adb_jobs db) k)"
  by (simp_all add: set_job_def)

lemma delete_lease_fields [simp]:
  "adb_runs (delete_lease i t e db) = adb_runs db" "adb_jobs (delete_lease i t e db) = adb_jobs db"
  "adb_suppressions (delete_lease i t e db) = adb_suppressions db" "adb_policies (delete_lease i t e db) = adb_policies db"
  "adb_notifications (delete_lease i t e db) = adb_notifications db"
  by (simp_all add: delete_lease_def split: option.splits)

lemma delete_lease_get:
  "bt_get (adb_leases (delete_lease i t e db)) k = Some l \<Longrightarrow> bt_get (adb_leases db) k = Some l"
  by (auto simp: delete_lease_def split: option.splits if_splits)

lemma ok_simps [simp]:
  "jobs_ok (db\<lparr>adb_runs := m\<rparr>) = jobs_ok db" "jobs_ok (db\<lparr>adb_leases := ls\<rparr>) = jobs_ok db"
  "jobs_ok (delete_lease i t e db) = jobs_ok db"
  "runs_ok (db\<lparr>adb_leases := ls\<rparr>) = runs_ok db" "runs_ok (db\<lparr>adb_jobs := js\<rparr>) = runs_ok db"
  "runs_ok (delete_lease i t e db) = runs_ok db" "runs_ok (set_job i f db) = runs_ok db"
  "leases_ok (db\<lparr>adb_runs := m\<rparr>) = leases_ok db" "leases_ok (db\<lparr>adb_jobs := js\<rparr>) = leases_ok db"
  "leases_ok (set_job i f db) = leases_ok db"
  "rest_ok (db\<lparr>adb_runs := m\<rparr>) = rest_ok db" "rest_ok (db\<lparr>adb_jobs := js\<rparr>) = rest_ok db"
  "rest_ok (db\<lparr>adb_leases := ls\<rparr>) = rest_ok db" "rest_ok (delete_lease i t e db) = rest_ok db"
  "rest_ok (set_job i f db) = rest_ok db"
  by (simp_all add: jobs_ok_def runs_ok_def leases_ok_def rest_ok_def)

lemma jobs_ok_set_job:
  "jobs_ok db \<Longrightarrow> (\<And>j. job_ok i j \<Longrightarrow> job_ok i (f j)) \<Longrightarrow> jobs_ok (set_job i f db)"
  by (auto simp: jobs_ok_def split: if_splits)

text \<open>A run that keeps its key can be rewritten.\<close>

lemma runs_ok_update:
  assumes "runs_ok db" "bt_get (adb_runs db) i = Some r" "run_ok i r'"
    "ru_side_effect_correlation_key r' = ru_side_effect_correlation_key r"
  shows "runs_ok (db\<lparr>adb_runs := bt_insert i r' (adb_runs db)\<rparr>)"
proof -
  have old: "\<exists>r0. bt_get (adb_runs db) k = Some r0 \<and> ru_side_effect_correlation_key r0 = ru_side_effect_correlation_key s"
    if "bt_get (bt_insert i r' (adb_runs db)) k = Some s" for k s
    using assms(2,4) that by (auto split: if_splits)
  show ?thesis
    unfolding runs_ok_def
  proof (intro conjI allI impI)
    fix k s assume "bt_get (adb_runs (db\<lparr>adb_runs := bt_insert i r' (adb_runs db)\<rparr>)) k = Some s"
    then show "run_ok k s" using assms(1,3) by (auto simp: runs_ok_def split: if_splits)
  next
    fix k s k' s'
    assume h: "bt_get (adb_runs (db\<lparr>adb_runs := bt_insert i r' (adb_runs db)\<rparr>)) k = Some s"
      "bt_get (adb_runs (db\<lparr>adb_runs := bt_insert i r' (adb_runs db)\<rparr>)) k' = Some s'"
      "ru_side_effect_correlation_key s \<noteq> None" "ru_side_effect_correlation_key s = ru_side_effect_correlation_key s'"
    obtain q q' where "bt_get (adb_runs db) k = Some q" "bt_get (adb_runs db) k' = Some q'"
      "ru_side_effect_correlation_key q = ru_side_effect_correlation_key s"
      "ru_side_effect_correlation_key q' = ru_side_effect_correlation_key s'"
      using old[of k s] old[of k' s'] h(1,2) by auto
    with h(3,4) assms(1) show "k = k'" unfolding runs_ok_def by metis
  qed
qed

lemma leases_ok_delete: "leases_ok db \<Longrightarrow> leases_ok (delete_lease i t e db)"
  unfolding leases_ok_def by (blast dest: delete_lease_get)

lemma db_ok_update_run:
  assumes "autonomy_db_ok db" "bt_get (adb_runs db) i = Some r" "run_ok i r \<Longrightarrow> run_ok i r'"
    "ru_side_effect_correlation_key r' = ru_side_effect_correlation_key r"
  shows "autonomy_db_ok (db\<lparr>adb_runs := bt_insert i r' (adb_runs db)\<rparr>)"
proof -
  have "run_ok i r" using assms(1,2) by (simp add: autonomy_db_ok_def runs_ok_def)
  with assms runs_ok_update[OF _ assms(2)] show ?thesis by (simp add: autonomy_db_ok_def)
qed

text \<open>The transactions of an owner keep every constraint.\<close>

lemma owner_tx_ok:
  assumes "autonomy_db_ok db"
    and f: "\<And>r. run_ok run_id r \<Longrightarrow> run_ok run_id (f r)"
      "\<And>r. ru_side_effect_correlation_key (f r) = ru_side_effect_correlation_key r"
    and rest: "\<And>d. autonomy_db_ok d \<Longrightarrow> autonomy_db_ok (rest d)"
  shows "autonomy_db_ok (tx_db db (owner_tx job_id run_id t e st f rest db))"
  using assms db_ok_update_run[OF assms(1) _ f] by (auto simp: owner_tx_def get_run_def split: option.splits)

lemma owner_rest_ok:
  assumes "autonomy_db_ok db" "\<And>j. job_ok i j \<Longrightarrow> job_ok i (f j)"
  shows "autonomy_db_ok (set_job i f (delete_lease i t e db))" "autonomy_db_ok (set_job i f db)"
  using assms leases_ok_delete jobs_ok_set_job[of _ i f] by (simp_all add: autonomy_db_ok_def)

lemmas owner_tx_defs =
  mark_run_running_def finish_autonomy_run_def complete_run_and_requeue_def reschedule_job_def defer_run_def

lemmas row_change_defs =
  finished_run_def deferred_run_def finished_job_def requeued_job_def rescheduled_job_def deferred_job_def

lemma owner_ops_ok:
  assumes "autonomy_db_ok db"
  shows "autonomy_db_ok (tx_db db (mark_run_running j r t e s db))"
    "autonomy_db_ok (tx_db db (finish_autonomy_run j r t e fi db))"
    "autonomy_db_ok (tx_db db (complete_run_and_requeue j r t e cf db))"
    "autonomy_db_ok (tx_db db (reschedule_job j r t e re db))"
    "autonomy_db_ok (tx_db db (defer_run j r t e df db))"
  unfolding owner_tx_defs
  by (rule owner_tx_ok[OF assms], simp add: run_ok_def row_change_defs, simp add: row_change_defs,
      rule owner_rest_ok, assumption, simp add: job_ok_def row_change_defs Let_def)+

lemma insert_run_ok:
  assumes "autonomy_db_ok db"
  shows "autonomy_db_ok (tx_db db (insert_run r db))"
proof (cases "\<exists>x. insert_run r db = Inr x")
  case True
  let ?m = "bt_insert (nr_id r) (inserted_run r) (adb_runs db)"
  from True have db': "insert_run r db = Inr ((), db\<lparr>adb_runs := ?m\<rparr>)"
    and new: "\<not> side_effect_key_taken (nr_side_effect_correlation_key r) db" "\<not> bt_contains (adb_runs db) (nr_id r)"
    and vals: "0 < nr_payload_version r" "0 \<le> nr_attempt r" "0 \<le> nr_lease_epoch r"
    by (auto simp: insert_run_def split: if_splits)
  have fresh: "ru_side_effect_correlation_key q \<noteq> nr_side_effect_correlation_key r"
    if q: "bt_get (adb_runs db) i = Some q" "ru_side_effect_correlation_key q \<noteq> None" for i q
  proof
    assume eq: "ru_side_effect_correlation_key q = nr_side_effect_correlation_key r"
    then obtain k where k: "nr_side_effect_correlation_key r = Some k" using q(2) by auto
    have "q \<in> set (bt_values (adb_runs db))" using q(1) by (auto simp: bt_values_iff)
    with eq k have "get_run_by_side_effect_key k db \<noteq> None"
      unfolding get_run_by_side_effect_key_def find_None_iff by auto
    with new(1) k show False by (simp add: side_effect_key_taken_def)
  qed
  have runs: "runs_ok db" using assms by (simp add: autonomy_db_ok_def)
  have "runs_ok (db\<lparr>adb_runs := ?m\<rparr>)"
    unfolding runs_ok_def
  proof (intro conjI allI impI)
    fix i q assume "bt_get (adb_runs (db\<lparr>adb_runs := ?m\<rparr>)) i = Some q"
    then show "run_ok i q" using runs vals by (auto simp: runs_ok_def run_ok_def inserted_run_def split: if_splits)
  next
    fix i q i' q'
    assume h: "bt_get (adb_runs (db\<lparr>adb_runs := ?m\<rparr>)) i = Some q" "bt_get (adb_runs (db\<lparr>adb_runs := ?m\<rparr>)) i' = Some q'"
      "ru_side_effect_correlation_key q \<noteq> None" "ru_side_effect_correlation_key q = ru_side_effect_correlation_key q'"
    show "i = i'"
    proof (cases "i = nr_id r \<or> i' = nr_id r")
      case True
      with h fresh[of i q] fresh[of i' q'] show ?thesis by (auto simp: inserted_run_def split: if_splits)
    next
      case False
      with h have "bt_get (adb_runs db) i = Some q" "bt_get (adb_runs db) i' = Some q'" by simp_all
      with h(3,4) runs show ?thesis unfolding runs_ok_def by blast
    qed
  qed
  with assms db' show ?thesis by (simp add: autonomy_db_ok_def)
next
  case False
  with assms show ?thesis by (cases "insert_run r db") auto
qed

lemma acquire_lease_ok:
  assumes "autonomy_db_ok db"
  shows "autonomy_db_ok (tx_db db (acquire_lease j r oi t l x db))"
proof (cases "\<exists>a d. acquire_lease j r oi t l x db = Inr (Some a, d)")
  case True
  define ep where "ep = (case get_lease j db of Some l \<Rightarrow> le_lease_epoch l + 1 | None \<Rightarrow> 0)"
  define lr where "lr = \<lparr>le_job_id = j, le_run_id = r, le_owner_identity = oi, le_owner_token = t,
    le_lease_epoch = ep, le_leased_at = l, le_last_seen_at = l, le_lease_expires_at = x\<rparr>"
  let ?d = "db\<lparr>adb_leases := bt_insert j lr (adb_leases db)\<rparr>"
  from True have res: "tx_db db (acquire_lease j r oi t l x db) = set_job j (leased_job r l) ?d"
    and ok: "t \<noteq> []" "0 \<le> ep" "\<not> list_ex (\<lambda>l. le_job_id l \<noteq> j \<and> le_run_id l = r) (bt_values (adb_leases db))"
    by (auto simp: acquire_lease_def Let_def ep_def lr_def split: if_splits option.splits)
  have ls: "leases_ok db" using assms by (simp add: autonomy_db_ok_def)
  have other: "le_run_id l' \<noteq> r" if l': "bt_get (adb_leases db) i = Some l'" "i \<noteq> j" for i l'
  proof -
    have "l' \<in> set (bt_values (adb_leases db))" "le_job_id l' = i"
      using l'(1) ls by (auto simp: bt_values_iff leases_ok_def lease_ok_def)
    with ok(3) l'(2) show ?thesis by (auto simp: list_ex_iff)
  qed
  have "leases_ok ?d"
    unfolding leases_ok_def
  proof (intro conjI allI impI)
    fix i l' assume "bt_get (adb_leases ?d) i = Some l'"
    then show "lease_ok i l'" using ls ok by (auto simp: leases_ok_def lease_ok_def lr_def split: if_splits)
  next
    fix i l1 i' l2
    assume h: "bt_get (adb_leases ?d) i = Some l1" "bt_get (adb_leases ?d) i' = Some l2" "le_run_id l1 = le_run_id l2"
    show "i = i'"
    proof (cases "i = j \<or> i' = j")
      case True
      with h other[of i l1] other[of i' l2] show ?thesis by (auto simp: lr_def split: if_splits)
    next
      case False
      with h have "bt_get (adb_leases db) i = Some l1" "bt_get (adb_leases db) i' = Some l2" by simp_all
      with h(3) ls show ?thesis unfolding leases_ok_def by blast
    qed
  qed
  with assms have "autonomy_db_ok ?d" by (simp add: autonomy_db_ok_def)
  then show ?thesis unfolding res by (rule owner_rest_ok) (simp add: job_ok_def leased_job_def)
next
  case False
  then have "tx_db db (acquire_lease j r oi t l x db) = db"
    by (auto simp: acquire_lease_def Let_def split: if_splits option.splits)
  with assms show ?thesis by simp
qed

lemma rebind_ok:
  assumes "autonomy_db_ok db"
  shows "autonomy_db_ok (tx_db db (rebind_run_owner r j oi t e u db))"
  using assms
  by (auto simp: rebind_run_owner_def get_run_def run_ok_def split: option.splits intro!: db_ok_update_run)

lemma approve_ok:
  assumes "autonomy_db_ok db"
  shows "autonomy_db_ok (tx_db db (approve_run r a x u db))"
  using assms
  by (auto simp: approve_run_def get_run_def run_ok_def job_ok_def split: option.splits
      intro!: db_ok_update_run owner_rest_ok(2))

lemma renew_lease_ok:
  assumes "autonomy_db_ok db"
  shows "autonomy_db_ok (tx_db db (renew_autonomy_lease j t e l x db))"
proof (cases "bt_get (adb_leases db) j")
  case (Some l0)
  have "leases_ok (db\<lparr>adb_leases := bt_insert j (l0\<lparr>le_last_seen_at := l, le_lease_expires_at := x\<rparr>) (adb_leases db)\<rparr>)"
    using assms Some unfolding autonomy_db_ok_def leases_ok_def lease_ok_def
    by (auto split: if_splits)
  with assms Some show ?thesis by (simp add: renew_autonomy_lease_def get_lease_def autonomy_db_ok_def)
qed (use assms in \<open>simp add: renew_autonomy_lease_def get_lease_def\<close>)

lemma other_tables_ok:
  assumes "autonomy_db_ok db"
  shows "autonomy_db_ok (tx_db db (insert_job j db))" "autonomy_db_ok (tx_db db (insert_suppression su db))"
    "autonomy_db_ok (tx_db db (upsert_policy q db))" "autonomy_db_ok (tx_db db (insert_notification n db))"
proof -
  have ok: "jobs_ok db" "runs_ok db" "leases_ok db" "rest_ok db" using assms by (simp_all add: autonomy_db_ok_def)
  show "autonomy_db_ok (tx_db db (insert_job j db))"
    using assms by (auto simp: insert_job_def autonomy_db_ok_def jobs_ok_def job_ok_def inserted_job_def split: if_splits)
  show "autonomy_db_ok (tx_db db (insert_suppression su db))"
    using ok by (auto simp: insert_suppression_def autonomy_db_ok_def jobs_ok_def runs_ok_def leases_ok_def rest_ok_def list_ex_iff)
  show "autonomy_db_ok (tx_db db (insert_notification n db))"
    using ok by (auto simp: insert_notification_def autonomy_db_ok_def jobs_ok_def runs_ok_def leases_ok_def rest_ok_def list_ex_iff)
  have same: "map (\<lambda>p. (po_scope_kind p, po_scope_key p)) (map (\<lambda>p. if same_scope k y p then
      p\<lparr>po_id := a, po_policy_version := b, po_policy_json := c, po_updated_at := d\<rparr> else p) ps) =
    map (\<lambda>p. (po_scope_kind p, po_scope_key p)) ps" for k y a b c d ps
    by simp
  show "autonomy_db_ok (tx_db db (upsert_policy q db))"
    using ok
    by (simp add: upsert_policy_def autonomy_db_ok_def jobs_ok_def runs_ok_def leases_ok_def rest_ok_def Let_def same
        del: map_map) (auto simp: list_ex_iff same_scope_def)
qed

lemma store_step_ok: "autonomy_db_ok db \<Longrightarrow> autonomy_db_ok (store_step db op)"
  by (cases op) (simp_all add: owner_ops_ok insert_run_ok acquire_lease_ok rebind_ok approve_ok renew_lease_ok other_tables_ok)

interpretation ledger: invariant_steps store_step autonomy_db_ok
  by unfold_locales (rule store_step_ok)

lemma ledger_well_formed_new: "autonomy_db_ok autonomy_db_new"
  by (simp add: autonomy_db_ok_def autonomy_db_new_def jobs_ok_def runs_ok_def leases_ok_def rest_ok_def)

text \<open>
  Every sequence of statements, with any arguments, leaves the ledger well formed: rows lie
  under their key, versions, attempts, epochs and retry counts are in range, two runs never share a
  side-effect key, two leases never name the same run, and there is one policy per scope and one
  notification per correlation key.
\<close>

theorem ledger_well_formed: "autonomy_db_ok (foldl store_step autonomy_db_new ops)"
  by (rule ledger.inv_run[OF ledger_well_formed_new])

subsection \<open>The life of a run\<close>

definition same_run :: "autonomy_run_row \<Rightarrow> autonomy_run_row \<Rightarrow> bool" where
  "same_run r r' \<longleftrightarrow>
     ru_id r' = ru_id r \<and> ru_job_id r' = ru_job_id r \<and> ru_attempt r' = ru_attempt r \<and> ru_due_at r' = ru_due_at r \<and>
     ru_payload_json r' = ru_payload_json r \<and>
     ru_side_effect_correlation_key r' = ru_side_effect_correlation_key r"

definition same_outcome :: "autonomy_run_row \<Rightarrow> autonomy_run_row \<Rightarrow> bool" where
  "same_outcome r r' \<longleftrightarrow>
     ru_state r' = ru_state r \<and> ru_side_effect_status r' = ru_side_effect_status r \<and>
     ru_result_json r' = ru_result_json r \<and> ru_completed_at r' = ru_completed_at r"

definition rebindable :: "autonomy_state set" where
  "rebindable = {StLeased, StRunning, StWaiting, StFailed, StPaused}"

text \<open>How one statement may change a run.\<close>

definition run_moves :: "store_op \<Rightarrow> autonomy_run_row \<Rightarrow> autonomy_run_row \<Rightarrow> bool" where
  "run_moves op r r' \<longleftrightarrow>
     same_run r r' \<and>
     (same_outcome r r' \<or> valid_run_transition (ru_state r) (ru_state r') \<or>
      (\<exists>i j oi t e u. op = OpRebind i j oi t e u) \<and> ru_state r \<in> rebindable \<and> ru_state r' = StLeased)"

lemma run_moves_refl [simp]: "run_moves op r r"
  by (simp add: run_moves_def same_run_def same_outcome_def)

lemma owner_tx_moves:
  assumes "bt_get (adb_runs db) i = Some r"
    and f: "\<And>r. same_run r (f r) \<and> ru_state (f r) = st"
    and rest: "\<And>d. adb_runs (rest d) = adb_runs d"
  shows "\<exists>r'. bt_get (adb_runs (tx_db db (owner_tx j k t e st f rest db))) i = Some r' \<and> run_moves op r r'"
  using assms by (auto simp: owner_tx_def get_run_def run_moves_def same_run_def same_outcome_def split: option.splits)

lemma step_moves:
  assumes r: "bt_get (adb_runs db) i = Some r"
  shows "\<exists>r'. bt_get (adb_runs (store_step db op)) i = Some r' \<and> run_moves op r r'"
proof (cases op)
  case (OpInsertRun q)
  with r show ?thesis by (auto simp: insert_run_def bt_contains_def)
next
  case (OpRebind a b c d e f)
  with r show ?thesis
    by (auto simp: rebind_run_owner_def get_run_def run_moves_def same_run_def same_outcome_def rebindable_def
        split: option.splits)
next
  case (OpApprove a b c d)
  with r show ?thesis
    by (auto simp: approve_run_def get_run_def run_moves_def same_run_def same_outcome_def split: option.splits)
next
  case (OpAcquire a b c d e f)
  with r show ?thesis by (auto simp: acquire_lease_def Let_def split: option.splits)
next
  case (OpMarkRunning a b c d e)
  then show ?thesis unfolding OpMarkRunning store_step.simps mark_run_running_def
    by (intro owner_tx_moves[OF r]) (simp_all add: same_run_def)
next
  case (OpFinish a b c d e)
  then show ?thesis unfolding OpFinish store_step.simps finish_autonomy_run_def
    by (intro owner_tx_moves[OF r]) (simp_all add: same_run_def finished_run_def)
next
  case (OpComplete a b c d e)
  then show ?thesis unfolding OpComplete store_step.simps complete_run_and_requeue_def
    by (intro owner_tx_moves[OF r]) (simp_all add: same_run_def finished_run_def)
next
  case (OpReschedule a b c d e)
  then show ?thesis unfolding OpReschedule store_step.simps reschedule_job_def
    by (intro owner_tx_moves[OF r]) (simp_all add: same_run_def)
next
  case (OpDefer a b c d e)
  then show ?thesis unfolding OpDefer store_step.simps defer_run_def
    by (intro owner_tx_moves[OF r]) (simp_all add: same_run_def deferred_run_def)
qed (use r in \<open>auto simp: insert_job_def renew_autonomy_lease_def insert_suppression_def upsert_policy_def
    insert_notification_def Let_def split: option.splits\<close>)

text \<open>What is kept of a run for good.\<close>

definition run_kept :: "autonomy_run_row \<Rightarrow> autonomy_run_row \<Rightarrow> bool" where
  "run_kept r r' \<longleftrightarrow>
     same_run r r' \<and>
     (ru_state r \<in> {StSucceeded, StAborted} \<longrightarrow> same_outcome r r') \<and>
     (ru_state r = StQuarantined \<longrightarrow> ru_state r' \<in> {StQuarantined, StAborted})"

lemma run_kept_refl [simp]: "run_kept r r"
  by (simp add: run_kept_def same_run_def same_outcome_def)

lemma run_kept_trans: "run_kept r s \<Longrightarrow> run_kept s t \<Longrightarrow> run_kept r t"
  by (auto simp: run_kept_def same_run_def same_outcome_def)

lemma run_moves_kept: "run_moves op r r' \<Longrightarrow> run_kept r r'"
  by (auto simp: run_moves_def run_kept_def same_outcome_def valid_run_transition_def rebindable_def)

text \<open>
  A run keeps its job, attempt, due time, payload and side-effect key under every sequence of
  statements with any arguments. Once it has succeeded or was aborted, its state, result,
  side-effect status and completion time never change again, and a quarantined run can only be
  aborted.
\<close>

theorem finished_run_final:
  assumes "get_run i db = Some r"
  shows "\<exists>r'. get_run i (foldl store_step db ops) = Some r' \<and> run_kept r r'"
  using assms
proof (induction ops arbitrary: db r)
  case (Cons op ops)
  obtain s where s: "get_run i (store_step db op) = Some s" "run_moves op r s"
    using step_moves[of db i r op] Cons.prems by (auto simp: get_run_def)
  from Cons.IH[OF s(1)] obtain r' where "get_run i (foldl store_step db (op # ops)) = Some r'" "run_kept s r'"
    by auto
  with run_moves_kept[OF s(2)] show ?case by (blast intro: run_kept_trans)
qed simp

definition sample_new_run :: new_autonomy_run where
  "sample_new_run =
     \<lparr>nr_id = ''r'', nr_job_id = ''j'', nr_attempt = 0, nr_trigger_source = ''schedule'', nr_triggered_at = ''1'',
      nr_due_at = ''1'', nr_state = StLeased, nr_why_now_json = ''{}'', nr_payload_version = 1, nr_payload_json = ''{}'',
      nr_initiative_mode = ImAct, nr_approval_state = ApNotRequired, nr_approval_proposal_id = None,
      nr_approval_expires_at = None, nr_owner_identity = Some ''gw'', nr_owner_token = Some ''t'', nr_lease_epoch = 0,
      nr_side_effect_correlation_key = Some ''k'', nr_side_effect_status = SeNotStarted, nr_result_json = ''{}'',
      nr_created_at = ''1'', nr_updated_at = ''1''\<rparr>"

definition sample_finish :: "autonomy_state \<Rightarrow> autonomy_run_finish" where
  "sample_finish st =
     \<lparr>fi_next_state = st, fi_side_effect_status = SeApplied, fi_result_json = ''{}'', fi_error_class = None,
      fi_error_message = None, fi_terminal_reason = None, fi_manual_review_required = False,
      fi_completed_at = ''2'', fi_updated_at = ''2''\<rparr>"

definition sample_ledger :: autonomy_db where
  "sample_ledger =
     foldl store_step autonomy_db_new
       [OpInsertRun sample_new_run, OpFinish ''j'' ''r'' ''t'' 0 (sample_finish StSucceeded)]"

lemma sample_ledger_run:
  "get_run ''r'' sample_ledger = Some (finished_run (sample_finish StSucceeded) (inserted_run sample_new_run))"
  by (simp add: sample_ledger_def autonomy_db_new_def insert_run_def sample_new_run_def side_effect_key_taken_def
      get_run_by_side_effect_key_def bt_contains_def finish_autonomy_run_def owner_tx_def get_run_def inserted_run_def
      sample_finish_def valid_run_transition_def owns_run_def bt_values_def bt_new.rep_eq)

theorem finished_run_final_witness:
  "\<exists>r'. get_run ''r'' (store_step sample_ledger (OpFinish ''j'' ''r'' ''t'' 0 (sample_finish StFailed))) = Some r' \<and>
     ru_state r' = StSucceeded \<and> ru_result_json r' = ''{}''"
  using finished_run_final[OF sample_ledger_run, of "[OpFinish ''j'' ''r'' ''t'' 0 (sample_finish StFailed)]"]
  by (auto simp: run_kept_def same_outcome_def finished_run_def sample_finish_def)

end
