(* ===== verification/Autonomy.thy ===== *)
theory Autonomy
  imports Autonomy_Store Json_Canonical Float64
begin

section \<open>The autonomy service\<close>

text \<open>
  \<^verbatim>\<open>ghost-gateway/src/autonomy.rs\<close>: the scheduler that leases due jobs and queues them, the
  controls before a dispatch, and the three kinds of jobs. Each function that uses the database
  takes it and returns it, with an error or a value. What the service reads from elsewhere (the
  answers of serde, chrono and the uuid parser, the quarantine and agent registries, the cost
  tracker, the convergence files, the reply of a workflow) is a record of functions. \<open>AutonomyPanic\<close>
  stands for a panic of the task. Calls that act outside the database are listed as effects.
\<close>

subsection \<open>Configuration, policies and payloads\<close>

record autonomy_runtime_config =
  rc_poll_interval :: duration
  rc_lease_ttl :: duration
  rc_global_concurrency :: u64
  rc_per_agent_concurrency :: nat
  rc_max_select_per_tick :: nat

definition autonomy_runtime_config_default :: autonomy_runtime_config where
  "autonomy_runtime_config_default =
     \<lparr>rc_poll_interval = from_secs 1, rc_lease_ttl = from_secs 45, rc_global_concurrency = 2,
      rc_per_agent_concurrency = 1, rc_max_select_per_tick = 16\<rparr>"

record autonomy_retry_policy =
  rp_attempts :: nat
  rp_max_retry_duration_seconds :: nat
  rp_backoff :: string
  rp_min_backoff_seconds :: nat
  rp_max_backoff_seconds :: nat
  rp_retryable_classes :: "string list"

definition autonomy_retry_policy_default :: autonomy_retry_policy where
  "autonomy_retry_policy_default =
     \<lparr>rp_attempts = 3, rp_max_retry_duration_seconds = 15 * 60, rp_backoff = ''exponential'',
      rp_min_backoff_seconds = 15, rp_max_backoff_seconds = 5 * 60,
      rp_retryable_classes = [''transient'', ''provider'', ''timeout'']\<rparr>"

record autonomy_schedule_spec =
  sc_version :: nat
  sc_kind :: string
  sc_every_seconds :: "nat option"
  sc_timezone :: "string option"
  sc_cron :: "string option"
  sc_jitter_seconds :: "nat option"
  sc_max_runtime_seconds :: "nat option"

definition schedule_interval :: "nat \<Rightarrow> autonomy_schedule_spec" where
  "schedule_interval seconds =
     \<lparr>sc_version = 1, sc_kind = ''interval'', sc_every_seconds = Some seconds, sc_timezone = None,
      sc_cron = None, sc_jitter_seconds = Some 0, sc_max_runtime_seconds = Some 300\<rparr>"

datatype json_number = IntNumber int | FloatNumber f64

type_synonym autonomy_json = "json_number json"

record heartbeat_job_payload =
  hp_version :: nat
  hp_agent_id :: string
  hp_agent_name :: "string option"
  hp_template_name :: "string option"

record workflow_job_payload =
  wp_version :: nat
  wp_workflow_id :: string
  wp_input :: "autonomy_json option"

record notification_job_payload =
  np_version :: nat
  np_title :: string
  np_body :: string
  np_channel :: string
  np_correlation_scope :: string
  np_draft_only :: bool

record quiet_hours_policy =
  qh_timezone :: string
  qh_start_hour :: nat
  qh_end_hour :: nat

record initiative_budget_policy =
  ib_max_daily_cost :: f64
  ib_max_risk_score :: f64
  ib_max_interruptions_per_day :: nat
  ib_max_novelty_score :: f64
  ib_min_trust_score :: f64

definition initiative_budget_policy_default :: initiative_budget_policy where
  "initiative_budget_policy_default =
     \<lparr>ib_max_daily_cost = Finite 2, ib_max_risk_score = Finite 1, ib_max_interruptions_per_day = 5,
      ib_max_novelty_score = Finite 1, ib_min_trust_score = Finite (1 / 4)\<rparr>"

record autonomy_policy_document =
  pd_version :: nat
  pd_pause :: bool
  pd_draft_only :: bool
  pd_approval_required :: bool
  pd_quiet_hours :: "quiet_hours_policy option"
  pd_initiative_budget :: initiative_budget_policy
  pd_retention_days :: nat

definition autonomy_policy_document_default :: autonomy_policy_document where
  "autonomy_policy_document_default =
     \<lparr>pd_version = 1, pd_pause = False, pd_draft_only = False, pd_approval_required = False,
      pd_quiet_hours = None, pd_initiative_budget = initiative_budget_policy_default,
      pd_retention_days = 30\<rparr>"

record autonomy_why_now =
  wn_trigger_source :: string
  wn_due_at :: timestamp
  wn_schedule_kind :: string
  wn_selected_mode :: initiative_mode
  wn_selected_tier :: "string option"
  wn_convergence_level :: "int option"
  wn_convergence_score :: "f64 option"
  wn_score_delta :: "f64 option"
  wn_changed_since_previous_run :: "string list"
  wn_interruption_justified :: bool
  wn_policy_reasons :: "string list"

record autonomy_dispatch_item =
  di_job_id :: string
  di_run_id :: string
  di_due_at :: timestamp
  di_owner_token :: string
  di_lease_epoch :: int
  di_agent_id :: string

record dispatch_policy_state =
  dp_policy :: autonomy_policy_document
  dp_cost_over_budget :: bool

datatype workflow_reply = WorkflowOk string | WorkflowStatus string | WorkflowFailed string

datatype autonomy_effect = ExecuteWorkflow string string | Tier3Turn uuid

datatype autonomy_error =
    StorageError autonomy_storage_error
  | JobMissing | RunMissing | BadPolicyDocument | BadAgentId | BadPayload
  | NotPendingApproval
  | AutonomyPanic

record autonomy_env =
  ae_rfc3339 :: "datetime \<Rightarrow> timestamp"
  ae_parse_rfc3339 :: "timestamp \<Rightarrow> datetime option"
  ae_add_seconds :: "datetime \<Rightarrow> int \<Rightarrow> datetime option"
  ae_parse_uuid :: "string \<Rightarrow> uuid option"
  ae_uuid_text :: "uuid \<Rightarrow> string"
  ae_parse_json :: "string \<Rightarrow> autonomy_json option"
  ae_json_text :: "autonomy_json \<Rightarrow> string"
  ae_number_f64 :: "json_number \<Rightarrow> f64"
  ae_parse_schedule :: "string \<Rightarrow> autonomy_schedule_spec option"
  ae_schedule_text :: "autonomy_schedule_spec \<Rightarrow> string"
  ae_parse_retry :: "string \<Rightarrow> autonomy_retry_policy option"
  ae_retry_text :: "autonomy_retry_policy \<Rightarrow> string"
  ae_parse_policy :: "string \<Rightarrow> autonomy_policy_document option"
  ae_policy_text :: "autonomy_policy_document \<Rightarrow> string"
  ae_parse_heartbeat :: "string \<Rightarrow> heartbeat_job_payload option"
  ae_heartbeat_text :: "heartbeat_job_payload \<Rightarrow> string"
  ae_parse_workflow :: "string \<Rightarrow> workflow_job_payload option"
  ae_parse_notification :: "string \<Rightarrow> notification_job_payload option"
  ae_notification_text :: "notification_job_payload \<Rightarrow> string"
  ae_why_now_text :: "autonomy_why_now \<Rightarrow> string"
  ae_format_score :: "f64 \<Rightarrow> string"
  ae_abs_difference :: "f64 \<Rightarrow> f64 \<Rightarrow> f64"
  ae_owner_identity :: string
  ae_quarantined :: "uuid \<Rightarrow> bool"
  ae_pullback_active :: "uuid \<Rightarrow> bool"
  ae_daily_total :: "uuid \<Rightarrow> f64"
  ae_convergence_file :: "uuid \<Rightarrow> string option"
  ae_workflow_reply :: "workflow_job_payload \<Rightarrow> string \<Rightarrow> workflow_reply"

definition on_store :: "(autonomy_db \<Rightarrow> 'a autonomy_tx) \<Rightarrow> autonomy_db \<Rightarrow> (autonomy_error + 'a) \<times> autonomy_db" where
  "on_store tx db = (case tx db of Inl e \<Rightarrow> (Inl (StorageError e), db) | Inr (a, db') \<Rightarrow> (Inr a, db'))"

text \<open>The callers below look only at errors, not at whether a row was changed.\<close>

definition on_store_unit :: "(autonomy_db \<Rightarrow> 'a autonomy_tx) \<Rightarrow> autonomy_db \<Rightarrow> (autonomy_error + unit) \<times> autonomy_db" where
  "on_store_unit tx db = (case on_store tx db of (Inl e, db') \<Rightarrow> (Inl e, db') | (Inr _, db') \<Rightarrow> (Inr (), db'))"

subsection \<open>Schedules, backoff, quiet hours\<close>

definition u64_as_i64 :: "nat \<Rightarrow> int" where
  "u64_as_i64 n = (let m = int n mod 2 ^ 64 in if m < 2 ^ 63 then m else m - 2 ^ 64)"

definition json_index :: "string \<Rightarrow> autonomy_json \<Rightarrow> autonomy_json" where
  "json_index k v =
     (case v of JObject fs \<Rightarrow> (case map_of fs k of Some w \<Rightarrow> w | None \<Rightarrow> JNull) | _ \<Rightarrow> JNull)"

definition json_str_of :: "autonomy_json \<Rightarrow> string option" where
  "json_str_of v = (case v of JString s \<Rightarrow> Some s | _ \<Rightarrow> None)"

definition json_f64_of :: "autonomy_env \<Rightarrow> autonomy_json \<Rightarrow> f64 option" where
  "json_f64_of env v = (case v of JNumber n \<Rightarrow> Some (ae_number_f64 env n) | _ \<Rightarrow> None)"

definition json_i64_of :: "autonomy_json \<Rightarrow> int option" where
  "json_i64_of v =
     (case v of JNumber (IntNumber n) \<Rightarrow> if - (2 ^ 63) \<le> n \<and> n < 2 ^ 63 then Some n else None | _ \<Rightarrow> None)"

definition json_of_f64 :: "f64 \<Rightarrow> autonomy_json" where
  "json_of_f64 x = (case x of Finite _ \<Rightarrow> JNumber (FloatNumber x) | _ \<Rightarrow> JNull)"

definition schedule_kind :: "autonomy_env \<Rightarrow> string \<Rightarrow> string" where
  "schedule_kind env schedule_json =
     (case Option.bind (ae_parse_json env schedule_json) (\<lambda>v. json_str_of (json_index ''kind'' v)) of
        Some k \<Rightarrow> k | None \<Rightarrow> ''unknown'')"

definition compute_next_run_at :: "autonomy_env \<Rightarrow> string \<Rightarrow> datetime \<Rightarrow> autonomy_error + timestamp option" where
  "compute_next_run_at env schedule_json start =
     (case ae_parse_schedule env schedule_json of
        None \<Rightarrow> Inr None
      | Some spec \<Rightarrow>
          if sc_kind spec = ''interval'' then
            (case sc_every_seconds spec of
               None \<Rightarrow> Inr None
             | Some every \<Rightarrow>
                 (case ae_add_seconds env start (u64_as_i64 every) of
                    None \<Rightarrow> Inl AutonomyPanic
                  | Some t \<Rightarrow> Inr (Some (ae_rfc3339 env t))))
          else Inr None)"

definition parse_retry_policy :: "autonomy_env \<Rightarrow> string \<Rightarrow> autonomy_retry_policy" where
  "parse_retry_policy env raw =
     (case ae_parse_retry env raw of Some p \<Rightarrow> p | None \<Rightarrow> autonomy_retry_policy_default)"

definition u64_saturate :: "nat \<Rightarrow> nat" where
  "u64_saturate n = min n (2 ^ 64 - 1)"

text \<open>\<^verbatim>\<open>clamp\<close> panics when the lower bound is above the upper one.\<close>

definition compute_backoff_seconds :: "nat \<Rightarrow> autonomy_retry_policy \<Rightarrow> nat option" where
  "compute_backoff_seconds attempt p =
     (let capped_attempt = min attempt 10;
          base = (if rp_backoff p = ''linear'' then u64_saturate (rp_min_backoff_seconds p * (capped_attempt + 1))
                  else u64_saturate (rp_min_backoff_seconds p * 2 ^ capped_attempt))
      in if rp_max_backoff_seconds p < rp_min_backoff_seconds p then None
         else Some (max (rp_min_backoff_seconds p) (min base (rp_max_backoff_seconds p))))"

definition approval_required :: "autonomy_job_row \<Rightarrow> autonomy_policy_document \<Rightarrow> bool" where
  "approval_required job policy \<longleftrightarrow> pd_approval_required policy \<or> jb_approval_policy job \<noteq> AlNone"

definition approval_is_valid :: "autonomy_env \<Rightarrow> autonomy_run_row \<Rightarrow> datetime \<Rightarrow> bool" where
  "approval_is_valid env run now \<longleftrightarrow>
     ru_approval_state run = ApApproved \<and>
     (case Option.bind (ru_approval_expires_at run) (ae_parse_rfc3339 env) of
        Some t \<Rightarrow> now < t | None \<Rightarrow> False)"

definition suppression_fingerprint :: "autonomy_env \<Rightarrow> autonomy_job_row \<Rightarrow> string" where
  "suppression_fingerprint env job =
     (case (if jb_job_type job = ''notification_delivery'' then ae_parse_notification env (jb_payload_json job) else None) of
        Some p \<Rightarrow> ''notification:'' @ np_correlation_scope p
      | None \<Rightarrow> ''job_type:'' @ jb_job_type job)"

text \<open>\<^verbatim>\<open>parse::<i32>\<close> on a text of two characters: a sign and a digit, or two digits.\<close>

definition parse_i32_two :: "string \<Rightarrow> int option" where
  "parse_i32_two s =
     (case s of
        [c, d] \<Rightarrow>
          if is_digit c \<and> is_digit d then Some (int (digits_value s))
          else if c = CHR ''+'' \<and> is_digit d then Some (int (digits_value [d]))
          else if c = CHR ''-'' \<and> is_digit d then Some (- int (digits_value [d]))
          else None
      | _ \<Rightarrow> None)"

definition fixed_offset_east :: "int \<Rightarrow> int option" where
  "fixed_offset_east secs = (if - 86400 < secs \<and> secs < 86400 then Some secs else None)"

text \<open>
  The offset of a time zone in seconds, for ASCII text. Dates are unbounded, so that the next day
  always exists.
\<close>

definition parse_fixed_timezone :: "string \<Rightarrow> int option" where
  "parse_fixed_timezone raw =
     (if eq_ignore_ascii_case raw ''utc'' \<or> raw = ''Z'' then fixed_offset_east 0
      else if length raw \<noteq> 6 \<or> raw ! 3 \<noteq> CHR '':'' then None
      else if raw ! 0 \<noteq> CHR ''+'' \<and> raw ! 0 \<noteq> CHR ''-'' then None
      else (case (parse_i32_two (take 2 (drop 1 raw)), parse_i32_two (take 2 (drop 4 raw))) of
              (Some hours, Some minutes) \<Rightarrow>
                if hours > 23 \<or> minutes > 59 then None
                else fixed_offset_east ((if raw ! 0 = CHR ''+'' then 1 else - 1) * (hours * 3600 + minutes * 60))
            | _ \<Rightarrow> None))"

definition nanos_per_hour :: int where
  "nanos_per_hour = 3600 * 1000000000"

definition local_hour :: "int \<Rightarrow> datetime \<Rightarrow> nat" where
  "local_hour offset t = nat ((t + chrono_secs offset) div nanos_per_hour mod 24)"

definition local_day :: "int \<Rightarrow> datetime \<Rightarrow> int" where
  "local_day offset t = (t + chrono_secs offset) div (24 * nanos_per_hour)"

definition in_quiet_window :: "quiet_hours_policy \<Rightarrow> nat \<Rightarrow> bool" where
  "in_quiet_window q hour =
     (if qh_start_hour q < qh_end_hour q then qh_start_hour q \<le> hour \<and> hour < qh_end_hour q
      else qh_start_hour q \<le> hour \<or> hour < qh_end_hour q)"

definition quiet_hours_release_at :: "quiet_hours_policy \<Rightarrow> datetime \<Rightarrow> datetime option" where
  "quiet_hours_release_at q now =
     (case parse_fixed_timezone (qh_timezone q) of
        None \<Rightarrow> None
      | Some offset \<Rightarrow>
          let hour = local_hour offset now in
          if \<not> in_quiet_window q hour then None
          else
            let day = local_day offset now;
                target = (if qh_end_hour q \<le> qh_start_hour q \<and> qh_start_hour q \<le> hour then day + 1 else day)
            in if 24 \<le> qh_end_hour q then None
               else Some (target * (24 * nanos_per_hour) + int (qh_end_hour q) * nanos_per_hour - chrono_secs offset))"

definition select_heartbeat_tier :: "f64 \<Rightarrow> int \<Rightarrow> string" where
  "select_heartbeat_tier score_delta convergence_level =
     (if 3 \<le> convergence_level \<and> f64_ge score_delta (Finite (1 / 10)) then ''h3''
      else if 2 \<le> convergence_level \<or> f64_ge score_delta (Finite (5 / 100)) then ''h2''
      else if f64_lt score_delta (Finite (1 / 100)) then ''h0''
      else ''h1'')"

definition heartbeat_interval :: "string \<Rightarrow> nat" where
  "heartbeat_interval tier =
     (if tier = ''h0'' then 120 else if tier = ''h1'' then 30 else if tier = ''h2'' then 15 else 5)"

definition read_convergence_state :: "autonomy_env \<Rightarrow> uuid \<Rightarrow> f64 \<times> int" where
  "read_convergence_state env agent_id =
     (case Option.bind (ae_convergence_file env agent_id) (ae_parse_json env) of
        None \<Rightarrow> (Finite 0, 0)
      | Some v \<Rightarrow>
          (case json_f64_of env (json_index ''score'' v) of Some s \<Rightarrow> s | None \<Rightarrow> Finite 0,
           case json_i64_of (json_index ''level'' v) of Some l \<Rightarrow> l | None \<Rightarrow> 0))"

subsection \<open>Policies and suppressions\<close>

definition parse_policy_document :: "autonomy_env \<Rightarrow> string \<Rightarrow> autonomy_error + autonomy_policy_document" where
  "parse_policy_document env raw =
     (case ae_parse_policy env raw of Some p \<Rightarrow> Inr p | None \<Rightarrow> Inl BadPolicyDocument)"

definition load_effective_policy ::
    "autonomy_env \<Rightarrow> string \<Rightarrow> string \<Rightarrow> autonomy_db \<Rightarrow> autonomy_error + autonomy_policy_document" where
  "load_effective_policy env scope_kind scope_key db =
     (case get_policy scope_kind scope_key db of
        Some row \<Rightarrow> parse_policy_document env (po_policy_json row)
      | None \<Rightarrow>
          (case (if scope_kind = ''agent'' then get_policy ''platform'' ''global'' db else None) of
             Some row \<Rightarrow> parse_policy_document env (po_policy_json row)
           | None \<Rightarrow> Inr autonomy_policy_document_default))"

definition policy_id :: "string \<Rightarrow> string \<Rightarrow> string" where
  "policy_id scope_kind scope_key = ''autonomy-policy:'' @ scope_kind @ '':'' @ scope_key"

definition put_policy_document ::
    "autonomy_env \<Rightarrow> datetime \<Rightarrow> string \<Rightarrow> string \<Rightarrow> autonomy_policy_document \<Rightarrow> autonomy_db
      \<Rightarrow> (autonomy_error + unit) \<times> autonomy_db" where
  "put_policy_document env now scope_kind scope_key policy =
     on_store_unit (upsert_policy
       \<lparr>po_id = policy_id scope_kind scope_key, po_scope_kind = scope_kind, po_scope_key = scope_key,
        po_policy_version = int (pd_version policy), po_policy_json = ae_policy_text env policy,
        po_created_at = ae_rfc3339 env now, po_updated_at = ae_rfc3339 env now\<rparr>)"

definition create_suppression ::
    "autonomy_env \<Rightarrow> datetime \<Rightarrow> string \<Rightarrow> string \<Rightarrow> string \<Rightarrow> string \<Rightarrow> string \<Rightarrow> timestamp option \<Rightarrow> string
      \<Rightarrow> autonomy_json \<Rightarrow> autonomy_db \<Rightarrow> (autonomy_error + unit) \<times> autonomy_db" where
  "create_suppression env now fresh scope_kind scope_key fingerprint reason expires_at actor metadata =
     on_store_unit (insert_suppression
       \<lparr>su_id = fresh, su_scope_kind = scope_kind, su_scope_key = scope_key, su_fingerprint = fingerprint,
        su_reason = reason, su_created_by = actor, su_created_at = ae_rfc3339 env now,
        su_expires_at = expires_at, su_active = True, su_policy_version = 1,
        su_metadata_json = ae_json_text env metadata\<rparr>)"

definition service_approve_run ::
    "autonomy_env \<Rightarrow> datetime \<Rightarrow> string \<Rightarrow> nat \<Rightarrow> string \<Rightarrow> autonomy_db \<Rightarrow> (autonomy_error + timestamp) \<times> autonomy_db" where
  "service_approve_run env now run_id ttl_seconds actor db =
     (case ae_add_seconds env now (u64_as_i64 ttl_seconds) of
        None \<Rightarrow> (Inl AutonomyPanic, db)
      | Some expires \<Rightarrow>
          (case on_store (approve_run run_id actor (ae_rfc3339 env expires) (ae_rfc3339 env now)) db of
             (Inl e, db') \<Rightarrow> (Inl e, db')
           | (Inr changed, db') \<Rightarrow>
               (if changed then Inr (ae_rfc3339 env expires) else Inl NotPendingApproval, db')))"

subsection \<open>Leasing a due job\<close>

definition correlation_key :: "autonomy_job_row \<Rightarrow> string" where
  "correlation_key job = jb_job_type job @ '':'' @ jb_id job @ '':'' @ due_time job"

definition scheduled_run ::
    "autonomy_env \<Rightarrow> autonomy_job_row \<Rightarrow> datetime \<Rightarrow> string \<Rightarrow> string \<Rightarrow> int \<Rightarrow> int \<Rightarrow> new_autonomy_run" where
  "scheduled_run env job now run_id owner_token lease_epoch attempt =
     \<lparr>nr_id = run_id, nr_job_id = jb_id job, nr_attempt = attempt, nr_trigger_source = ''schedule'',
      nr_triggered_at = ae_rfc3339 env now, nr_due_at = due_time job, nr_state = StLeased,
      nr_why_now_json = ae_why_now_text env
        \<lparr>wn_trigger_source = ''schedule'', wn_due_at = due_time job,
         wn_schedule_kind = schedule_kind env (jb_schedule_json job),
         wn_selected_mode = jb_initiative_mode job, wn_selected_tier = None,
         wn_convergence_level = None, wn_convergence_score = None, wn_score_delta = None,
         wn_changed_since_previous_run = [], wn_interruption_justified = False,
         wn_policy_reasons = [''due_by_schedule'']\<rparr>,
      nr_payload_version = jb_payload_version job, nr_payload_json = jb_payload_json job,
      nr_initiative_mode = jb_initiative_mode job,
      nr_approval_state = (if jb_approval_policy job = AlNone then ApNotRequired else ApPending),
      nr_approval_proposal_id = None, nr_approval_expires_at = None,
      nr_owner_identity = Some (ae_owner_identity env), nr_owner_token = Some owner_token,
      nr_lease_epoch = lease_epoch, nr_side_effect_correlation_key = Some (correlation_key job),
      nr_side_effect_status = SeNotStarted, nr_result_json = ''{}'',
      nr_created_at = ae_rfc3339 env now, nr_updated_at = ae_rfc3339 env now\<rparr>"

definition dispatch_item_of ::
    "autonomy_job_row \<Rightarrow> string \<Rightarrow> string \<Rightarrow> int \<Rightarrow> autonomy_dispatch_item" where
  "dispatch_item_of job run_id owner_token lease_epoch =
     \<lparr>di_job_id = jb_id job, di_run_id = run_id, di_due_at = due_time job, di_owner_token = owner_token,
      di_lease_epoch = lease_epoch, di_agent_id = jb_agent_id job\<rparr>"

definition next_attempt :: "string \<Rightarrow> autonomy_db \<Rightarrow> int" where
  "next_attempt job_id db = (case latest_run_for_job job_id db of Some r \<Rightarrow> ru_attempt r + 1 | None \<Rightarrow> 0)"

text \<open>\<open>run_id\<close> and \<open>owner_token\<close> are the two identifiers drawn at the start of the function.\<close>

definition prepare_dispatch ::
    "autonomy_env \<Rightarrow> autonomy_runtime_config \<Rightarrow> autonomy_job_row \<Rightarrow> datetime \<Rightarrow> string \<Rightarrow> string \<Rightarrow> autonomy_db
      \<Rightarrow> (autonomy_error + autonomy_dispatch_item option) \<times> autonomy_db" where
  "prepare_dispatch env cfg job now run_id owner_token db =
     (case ae_add_seconds env now (u64_as_i64 (rc_lease_ttl cfg div 1000000000)) of
        None \<Rightarrow> (Inl AutonomyPanic, db)
      | Some expires \<Rightarrow>
        (case on_store (acquire_lease (jb_id job) run_id (ae_owner_identity env) owner_token
                 (ae_rfc3339 env now) (ae_rfc3339 env expires)) db of
           (Inl e, db1) \<Rightarrow> (Inl e, db1)
         | (Inr None, db1) \<Rightarrow> (Inr None, db1)
         | (Inr (Some lease), db1) \<Rightarrow>
             (case get_run_by_side_effect_key (correlation_key job) db1 of
                Some existing \<Rightarrow>
                  (case on_store_unit (rebind_run_owner (ru_id existing) (jb_id job) (ae_owner_identity env)
                           owner_token (al_lease_epoch lease) (ae_rfc3339 env now)) db1 of
                     (Inl e, db2) \<Rightarrow> (Inl e, db2)
                   | (Inr _, db2) \<Rightarrow>
                       (Inr (Some (dispatch_item_of job (ru_id existing) owner_token (al_lease_epoch lease))), db2))
              | None \<Rightarrow>
                  (case on_store_unit (insert_run (scheduled_run env job now run_id owner_token
                           (al_lease_epoch lease) (next_attempt (jb_id job) db1))) db1 of
                     (Inl e, db2) \<Rightarrow> (Inl e, db2)
                   | (Inr _, db2) \<Rightarrow>
                       (Inr (Some (dispatch_item_of job run_id owner_token (al_lease_epoch lease))), db2)))))"

subsection \<open>Ends of a run\<close>

definition failed_finish ::
    "autonomy_env \<Rightarrow> datetime \<Rightarrow> autonomy_state \<Rightarrow> side_effect_status \<Rightarrow> string \<Rightarrow> string \<Rightarrow> bool \<Rightarrow> autonomy_run_finish" where
  "failed_finish env now next_state status reason result_json review =
     \<lparr>fi_next_state = next_state, fi_side_effect_status = status, fi_result_json = result_json,
      fi_error_class = Some reason, fi_error_message = Some reason, fi_terminal_reason = Some reason,
      fi_manual_review_required = review, fi_completed_at = ae_rfc3339 env now,
      fi_updated_at = ae_rfc3339 env now\<rparr>"

definition fail_to_manual_review ::
    "autonomy_env \<Rightarrow> datetime \<Rightarrow> autonomy_dispatch_item \<Rightarrow> string \<Rightarrow> string \<Rightarrow> autonomy_db
      \<Rightarrow> (autonomy_error + unit) \<times> autonomy_db" where
  "fail_to_manual_review env now item reason result_json =
     on_store_unit (finish_autonomy_run (di_job_id item) (di_run_id item) (di_owner_token item) (di_lease_epoch item)
       (failed_finish env now StFailed SeManualReview reason result_json True))"

definition pause_run ::
    "autonomy_env \<Rightarrow> datetime \<Rightarrow> autonomy_dispatch_item \<Rightarrow> string \<Rightarrow> autonomy_db \<Rightarrow> (autonomy_error + unit) \<times> autonomy_db" where
  "pause_run env now item reason =
     on_store_unit (finish_autonomy_run (di_job_id item) (di_run_id item) (di_owner_token item) (di_lease_epoch item)
       (failed_finish env now StPaused SeAborted reason
         (ae_json_text env (JObject [(''status'', JString ''paused''), (''reason'', JString reason)])) False))"

definition quarantine_run ::
    "autonomy_env \<Rightarrow> datetime \<Rightarrow> autonomy_dispatch_item \<Rightarrow> string \<Rightarrow> autonomy_db \<Rightarrow> (autonomy_error + unit) \<times> autonomy_db" where
  "quarantine_run env now item reason =
     on_store_unit (finish_autonomy_run (di_job_id item) (di_run_id item) (di_owner_token item) (di_lease_epoch item)
       (failed_finish env now StQuarantined SeAborted reason
         (ae_json_text env (JObject [(''status'', JString ''quarantined''), (''reason'', JString reason)])) False))"

definition service_defer_run ::
    "autonomy_env \<Rightarrow> datetime \<Rightarrow> autonomy_dispatch_item \<Rightarrow> string \<Rightarrow> string \<Rightarrow> autonomy_state \<Rightarrow> timestamp
      \<Rightarrow> approval_state option \<Rightarrow> timestamp option \<Rightarrow> autonomy_db \<Rightarrow> (autonomy_error + unit) \<times> autonomy_db" where
  "service_defer_run env now item reason result_json job_state next_run_at approval expires =
     on_store_unit (defer_run (di_job_id item) (di_run_id item) (di_owner_token item) (di_lease_epoch item)
       \<lparr>df_run_state = StWaiting, df_job_state = job_state, df_next_run_at = next_run_at,
        df_waiting_until = Some next_run_at, df_side_effect_status = SeNotStarted,
        df_result_json = result_json, df_error_class = Some reason, df_error_message = Some reason,
        df_approval_state = approval, df_approval_expires_at = expires,
        df_updated_at = ae_rfc3339 env now\<rparr>)"

definition success_finish :: "autonomy_env \<Rightarrow> datetime \<Rightarrow> side_effect_status \<Rightarrow> string \<Rightarrow> autonomy_run_finish" where
  "success_finish env now status result_json =
     \<lparr>fi_next_state = StSucceeded, fi_side_effect_status = status, fi_result_json = result_json,
      fi_error_class = None, fi_error_message = None, fi_terminal_reason = None,
      fi_manual_review_required = False, fi_completed_at = ae_rfc3339 env now,
      fi_updated_at = ae_rfc3339 env now\<rparr>"

definition schedule_start :: "autonomy_env \<Rightarrow> datetime \<Rightarrow> autonomy_dispatch_item \<Rightarrow> datetime" where
  "schedule_start env now item =
     (case ae_parse_rfc3339 env (di_due_at item) of Some t \<Rightarrow> t | None \<Rightarrow> now)"

definition requeue ::
    "autonomy_env \<Rightarrow> datetime \<Rightarrow> autonomy_dispatch_item \<Rightarrow> side_effect_status \<Rightarrow> string \<Rightarrow> timestamp \<Rightarrow> timestamp option
      \<Rightarrow> autonomy_db \<Rightarrow> (autonomy_error + unit) \<times> autonomy_db" where
  "requeue env now item status result_json next_run_at heartbeat_at =
     on_store_unit (complete_run_and_requeue (di_job_id item) (di_run_id item) (di_owner_token item) (di_lease_epoch item)
       \<lparr>cf_finish = success_finish env now status result_json, cf_next_job_state = StQueued,
        cf_next_run_at = next_run_at, cf_retry_after = None, cf_last_heartbeat_at = heartbeat_at\<rparr>)"

definition complete_suppressed ::
    "autonomy_env \<Rightarrow> datetime \<Rightarrow> autonomy_job_row \<Rightarrow> autonomy_dispatch_item \<Rightarrow> string \<Rightarrow> autonomy_db
      \<Rightarrow> (autonomy_error + unit) \<times> autonomy_db" where
  "complete_suppressed env now job item result_json db =
     (case compute_next_run_at env (jb_schedule_json job) (schedule_start env now item) of
        Inl e \<Rightarrow> (Inl e, db)
      | Inr next \<Rightarrow>
          requeue env now item SeSuppressed result_json
            (case next of Some t \<Rightarrow> t | None \<Rightarrow> ae_rfc3339 env now) None db)"

definition complete_success ::
    "autonomy_env \<Rightarrow> datetime \<Rightarrow> autonomy_job_row \<Rightarrow> autonomy_dispatch_item \<Rightarrow> string \<Rightarrow> datetime option \<Rightarrow> autonomy_db
      \<Rightarrow> (autonomy_error + unit) \<times> autonomy_db" where
  "complete_success env now job item result_json explicit_next_run_at db =
     (case (case explicit_next_run_at of
              Some t \<Rightarrow> Inr (Some (ae_rfc3339 env t))
            | None \<Rightarrow> compute_next_run_at env (jb_schedule_json job) (schedule_start env now item)) of
        Inl e \<Rightarrow> (Inl e, db)
      | Inr next \<Rightarrow>
          if jb_job_type job = ''notification_delivery'' then
            on_store_unit (finish_autonomy_run (di_job_id item) (di_run_id item) (di_owner_token item)
              (di_lease_epoch item) (success_finish env now SeApplied result_json)) db
          else
            requeue env now item SeApplied result_json
              (case next of Some t \<Rightarrow> t | None \<Rightarrow> ae_rfc3339 env now)
              (if jb_job_type job = ''heartbeat_observe'' then Some (ae_rfc3339 env now) else None) db)"

definition attempt_as_u32 :: "autonomy_run_row \<Rightarrow> nat" where
  "attempt_as_u32 run = nat (ru_attempt run mod 2 ^ 32)"

definition retry_or_manual_review ::
    "autonomy_env \<Rightarrow> datetime \<Rightarrow> autonomy_job_row \<Rightarrow> autonomy_run_row \<Rightarrow> autonomy_dispatch_item \<Rightarrow> string \<Rightarrow> string
      \<Rightarrow> autonomy_db \<Rightarrow> (autonomy_error + unit) \<times> autonomy_db" where
  "retry_or_manual_review env now job run item error_class result_json db =
     (let retry_policy = parse_retry_policy env (jb_retry_policy_json job) in
      if attempt_as_u32 run < rp_attempts retry_policy then
        (case Option.bind (compute_backoff_seconds (attempt_as_u32 run) retry_policy)
                (\<lambda>secs. ae_add_seconds env now (u64_as_i64 secs)) of
           None \<Rightarrow> (Inl AutonomyPanic, db)
         | Some next \<Rightarrow>
             on_store_unit (reschedule_job (di_job_id item) (di_run_id item) (di_owner_token item) (di_lease_epoch item)
               \<lparr>re_run_state = StWaiting, re_job_state = StWaiting, re_next_run_at = ae_rfc3339 env next,
                re_waiting_until = Some (ae_rfc3339 env next), re_side_effect_status = SeFailed,
                re_result_json = result_json, re_error_class = Some error_class,
                re_error_message = Some error_class, re_updated_at = ae_rfc3339 env now\<rparr>) db)
      else fail_to_manual_review env now item error_class result_json db)"

subsection \<open>Controls before a dispatch\<close>

definition is_suppressed :: "autonomy_env \<Rightarrow> datetime \<Rightarrow> autonomy_job_row \<Rightarrow> autonomy_db \<Rightarrow> bool" where
  "is_suppressed env now job db =
     list_ex (\<lambda>s. su_fingerprint s = suppression_fingerprint env job \<or> su_fingerprint s = ''*'')
       (list_active_suppressions ''agent'' (jb_agent_id job) (ae_rfc3339 env now) db @
        list_active_suppressions ''platform'' ''global'' (ae_rfc3339 env now) db)"

text \<open>A control that stops the run ends with \<^verbatim>\<open>Ok(None)\<close>, or with the error of the store.\<close>

definition stop_with ::
    "(autonomy_error + unit) \<times> autonomy_db \<Rightarrow> (autonomy_error + dispatch_policy_state option) \<times> autonomy_db" where
  "stop_with r = (case r of (Inl e, db) \<Rightarrow> (Inl e, db) | (Inr _, db) \<Rightarrow> (Inr None, db))"

definition defer_for_approval ::
    "autonomy_env \<Rightarrow> datetime \<Rightarrow> autonomy_run_row \<Rightarrow> autonomy_dispatch_item \<Rightarrow> autonomy_db \<Rightarrow> (autonomy_error + unit) \<times> autonomy_db" where
  "defer_for_approval env now run item db =
     (case ae_add_seconds env now 30 of
        None \<Rightarrow> (Inl AutonomyPanic, db)
      | Some next \<Rightarrow>
          service_defer_run env now item ''approval_required''
            (ae_json_text env (JObject [(''status'', JString ''approval_required''),
              (''approval_state'', JString (if ru_approval_state run = ApApproved then ''expired'' else ''pending''))]))
            StWaiting (ae_rfc3339 env next)
            (Some (if ru_approval_state run = ApApproved then ApExpired else ApPending))
            (ru_approval_expires_at run) db)"

definition enforce_pre_dispatch_controls ::
    "autonomy_env \<Rightarrow> datetime \<Rightarrow> autonomy_job_row \<Rightarrow> autonomy_run_row \<Rightarrow> autonomy_dispatch_item \<Rightarrow> autonomy_db
      \<Rightarrow> (autonomy_error + dispatch_policy_state option) \<times> autonomy_db" where
  "enforce_pre_dispatch_controls env now job run item db =
     (case load_effective_policy env ''agent'' (jb_agent_id job) db of
        Inl e \<Rightarrow> (Inl e, db)
      | Inr policy \<Rightarrow>
     (case ae_parse_uuid env (jb_agent_id job) of
        None \<Rightarrow> (Inl BadAgentId, db)
      | Some agent_id \<Rightarrow>
          if pd_pause policy then stop_with (pause_run env now item ''policy_pause'' db)
          else if ae_quarantined env agent_id then stop_with (quarantine_run env now item ''agent_quarantined'' db)
          else if ae_pullback_active env agent_id then
            stop_with (pause_run env now item ''capability_pullback_active'' db)
          else
            (case Option.bind (pd_quiet_hours policy) (\<lambda>q. quiet_hours_release_at q now) of
               Some release_at \<Rightarrow>
                 stop_with (service_defer_run env now item ''quiet_hours''
                   (ae_json_text env (JObject [(''status'', JString ''quiet_hours''),
                     (''resume_at'', JString (ae_rfc3339 env release_at))]))
                   StWaiting (ae_rfc3339 env release_at) None None db)
             | None \<Rightarrow>
                 if is_suppressed env now job db then
                   stop_with (complete_suppressed env now job item
                     (ae_json_text env (JObject [(''status'', JString ''suppressed''),
                       (''fingerprint'', JString (suppression_fingerprint env job))])) db)
                 else if approval_required job policy \<and> \<not> approval_is_valid env run now then
                   stop_with (defer_for_approval env now run item db)
                 else
                   (Inr (Some \<lparr>dp_policy = policy,
                      dp_cost_over_budget =
                        f64_gt (ae_daily_total env agent_id) (ib_max_daily_cost (pd_initiative_budget policy))\<rparr>), db))))"

subsection \<open>The three kinds of jobs\<close>

type_synonym dispatched = "(autonomy_error + unit) \<times> autonomy_db \<times> autonomy_effect list"

definition quietly :: "(autonomy_error + unit) \<times> autonomy_db \<Rightarrow> dispatched" where
  "quietly r = (fst r, snd r, [])"

definition after_effect :: "autonomy_effect \<Rightarrow> (autonomy_error + unit) \<times> autonomy_db \<Rightarrow> dispatched" where
  "after_effect e r = (fst r, snd r, [e])"

definition dispatch_workflow ::
    "autonomy_env \<Rightarrow> datetime \<Rightarrow> autonomy_job_row \<Rightarrow> autonomy_run_row \<Rightarrow> autonomy_dispatch_item
      \<Rightarrow> dispatch_policy_state \<Rightarrow> autonomy_db \<Rightarrow> dispatched" where
  "dispatch_workflow env now job run item ps db =
     (if pd_draft_only (dp_policy ps) then
        quietly (fail_to_manual_review env now item ''draft_only_policy_blocks_workflow_execution''
          ''{\"status\":\"draft_only\"}'' db)
      else if dp_cost_over_budget ps then
        quietly (fail_to_manual_review env now item ''initiative_budget_daily_cost_exceeded''
          ''{\"status\":\"budget_blocked\"}'' db)
      else case ae_parse_workflow env (jb_payload_json job) of
        None \<Rightarrow> quietly (Inl BadPayload, db)
      | Some payload \<Rightarrow>
          after_effect (ExecuteWorkflow (wp_workflow_id payload) (ru_id run))
            (case ae_workflow_reply env payload (ru_id run) of
               WorkflowOk body \<Rightarrow> complete_success env now job item body None db
             | WorkflowStatus body \<Rightarrow> retry_or_manual_review env now job run item ''workflow_status'' body db
             | WorkflowFailed body \<Rightarrow> retry_or_manual_review env now job run item ''workflow_error'' body db))"

definition notification_of ::
    "autonomy_env \<Rightarrow> datetime \<Rightarrow> string \<Rightarrow> autonomy_job_row \<Rightarrow> autonomy_run_row \<Rightarrow> notification_job_payload
      \<Rightarrow> autonomy_notification_row" where
  "notification_of env now fresh job run payload =
     \<lparr>no_id = fresh, no_run_id = ru_id run, no_job_id = jb_id job,
      no_delivery_state = (if np_draft_only payload then DlDraft else DlManualReview),
      no_channel = np_channel payload,
      no_correlation_key = ''notification:'' @ jb_id job @ '':'' @ ru_id run,
      no_payload_json = jb_payload_json job, no_approval_proposal_id = None,
      no_last_error = (if np_draft_only payload then None else Some ''external delivery is operator-gated''),
      no_created_at = ae_rfc3339 env now, no_updated_at = ae_rfc3339 env now\<rparr>"

definition dispatch_notification ::
    "autonomy_env \<Rightarrow> datetime \<Rightarrow> string \<Rightarrow> autonomy_job_row \<Rightarrow> autonomy_run_row \<Rightarrow> autonomy_dispatch_item
      \<Rightarrow> dispatch_policy_state \<Rightarrow> autonomy_db \<Rightarrow> dispatched" where
  "dispatch_notification env now fresh job run item ps db =
     (case ae_parse_notification env (jb_payload_json job) of
        None \<Rightarrow> quietly (Inl BadPayload, db)
      | Some parsed \<Rightarrow>
          let payload = (if pd_draft_only (dp_policy ps) \<or> dp_cost_over_budget ps
                         then parsed\<lparr>np_draft_only := True\<rparr> else parsed)
          in case on_store_unit (insert_notification (notification_of env now fresh job run payload)) db of
               (Inl e, db') \<Rightarrow> quietly (Inl e, db')
             | (Inr _, db') \<Rightarrow>
                 quietly (complete_success env now job item
                   (ae_json_text env (JObject [(''title'', JString (np_title payload)),
                     (''channel'', JString (np_channel payload)), (''draft_only'', JBool (np_draft_only payload))]))
                   None db'))"

definition enqueue_notification_job ::
    "autonomy_env \<Rightarrow> datetime \<Rightarrow> string \<Rightarrow> autonomy_job_row \<Rightarrow> string \<Rightarrow> autonomy_db \<Rightarrow> (autonomy_error + unit) \<times> autonomy_db" where
  "enqueue_notification_job env now fresh source_job payload_json =
     on_store_unit (insert_job
       \<lparr>nj_id = ''notification:'' @ jb_id source_job @ '':'' @ fresh, nj_job_type = ''notification_delivery'',
        nj_agent_id = jb_agent_id source_job, nj_tenant_key = ''local'', nj_workflow_id = None,
        nj_policy_scope = jb_policy_scope source_job, nj_payload_version = 1, nj_payload_json = payload_json,
        nj_schedule_version = 1, nj_schedule_json = ae_schedule_text env (schedule_interval (24 * 60 * 60)),
        nj_overlap_policy = OvQueueOne, nj_missed_run_policy = MrSkip,
        nj_retry_policy_json = ae_retry_text env autonomy_retry_policy_default,
        nj_initiative_mode = ImDraft, nj_approval_policy = AlNone, nj_state = StQueued,
        nj_next_run_at = ae_rfc3339 env now, nj_created_at = ae_rfc3339 env now,
        nj_updated_at = ae_rfc3339 env now\<rparr>)"

definition previous_score :: "autonomy_env \<Rightarrow> autonomy_job_row \<Rightarrow> autonomy_run_row \<Rightarrow> autonomy_db \<Rightarrow> f64 option" where
  "previous_score env job run db =
     Option.bind (find (\<lambda>c. ru_id c \<noteq> ru_id run \<and> ru_state c = StSucceeded) (list_runs_for_job (jb_id job) 8 db))
       (\<lambda>c. Option.bind (ae_parse_json env (ru_result_json c)) (\<lambda>v. json_f64_of env (json_index ''convergence_score'' v)))"

definition escalation_payload :: "autonomy_env \<Rightarrow> autonomy_job_row \<Rightarrow> heartbeat_job_payload \<Rightarrow> f64 \<Rightarrow> int \<Rightarrow> notification_job_payload" where
  "escalation_payload env job payload score level =
     \<lparr>np_version = 1, np_title = ''Heartbeat escalation snapshot'',
      np_body = ''Agent '' @ (case hp_agent_name payload of Some n \<Rightarrow> n | None \<Rightarrow> hp_agent_id payload) @
        '' reached convergence level '' @ show_int level @ '' (score '' @ ae_format_score env score @ '')'',
      np_channel = ''dashboard'', np_correlation_scope = ''heartbeat:'' @ jb_id job, np_draft_only = True\<rparr>"

definition heartbeat_escalation ::
    "autonomy_env \<Rightarrow> datetime \<Rightarrow> string \<Rightarrow> autonomy_job_row \<Rightarrow> heartbeat_job_payload \<Rightarrow> f64 \<Rightarrow> int \<Rightarrow> string \<Rightarrow> autonomy_db
      \<Rightarrow> (autonomy_error + unit) \<times> autonomy_db" where
  "heartbeat_escalation env now fresh job payload score level tier db =
     (if tier = ''h2'' \<and> 2 \<le> level
      then enqueue_notification_job env now fresh job
             (ae_notification_text env (escalation_payload env job payload score level)) db
      else (Inr (), db))"

definition heartbeat_result ::
    "autonomy_env \<Rightarrow> datetime \<Rightarrow> f64 \<Rightarrow> int \<Rightarrow> f64 option \<Rightarrow> string \<Rightarrow> string" where
  "heartbeat_result env now score level score_delta tier =
     ae_json_text env (JObject [(''selected_tier'', JString tier), (''convergence_score'', json_of_f64 score),
       (''convergence_level'', JNumber (IntNumber level)),
       (''score_delta'', case score_delta of Some d \<Rightarrow> json_of_f64 d | None \<Rightarrow> JNull),
       (''observed_at'', JString (ae_rfc3339 env now))])"

definition heartbeat_completion ::
    "autonomy_env \<Rightarrow> datetime \<Rightarrow> autonomy_job_row \<Rightarrow> autonomy_dispatch_item \<Rightarrow> string \<Rightarrow> string \<Rightarrow> autonomy_db
      \<Rightarrow> (autonomy_error + unit) \<times> autonomy_db" where
  "heartbeat_completion env now job item tier result_json db =
     (case ae_add_seconds env now (int (heartbeat_interval tier)) of
        None \<Rightarrow> (Inl AutonomyPanic, db)
      | Some next \<Rightarrow> complete_success env now job item result_json (Some next) db)"

definition dispatch_heartbeat ::
    "autonomy_env \<Rightarrow> datetime \<Rightarrow> string \<Rightarrow> autonomy_job_row \<Rightarrow> autonomy_run_row \<Rightarrow> autonomy_dispatch_item
      \<Rightarrow> dispatch_policy_state \<Rightarrow> autonomy_db \<Rightarrow> dispatched" where
  "dispatch_heartbeat env now fresh job run item ps db =
     (case ae_parse_heartbeat env (jb_payload_json job) of
        None \<Rightarrow> quietly (Inl BadPayload, db)
      | Some payload \<Rightarrow>
     (case ae_parse_uuid env (hp_agent_id payload) of
        None \<Rightarrow> quietly (Inl BadAgentId, db)
      | Some agent_id \<Rightarrow>
          let (score, level) = read_convergence_state env agent_id;
              score_delta = map_option (ae_abs_difference env score) (previous_score env job run db);
              tier = select_heartbeat_tier (case score_delta of Some d \<Rightarrow> d | None \<Rightarrow> Finite 0) level
          in case heartbeat_escalation env now fresh job payload score level tier db of
               (Inl e, db') \<Rightarrow> quietly (Inl e, db')
             | (Inr _, db') \<Rightarrow>
                 (let result_json = heartbeat_result env now score level score_delta tier in
                  if tier = ''h3'' \<and> \<not> dp_cost_over_budget ps
                  then after_effect (Tier3Turn agent_id) (heartbeat_completion env now job item tier result_json db')
                  else quietly (heartbeat_completion env now job item tier result_json db'))))"

definition dispatch_job ::
    "autonomy_env \<Rightarrow> datetime \<Rightarrow> string \<Rightarrow> autonomy_job_row \<Rightarrow> autonomy_run_row \<Rightarrow> autonomy_dispatch_item
      \<Rightarrow> dispatch_policy_state \<Rightarrow> autonomy_db \<Rightarrow> dispatched" where
  "dispatch_job env now fresh job run item ps db =
     (if jb_job_type job = ''heartbeat_observe'' then dispatch_heartbeat env now fresh job run item ps db
      else if jb_job_type job = ''workflow_trigger'' then dispatch_workflow env now job run item ps db
      else if jb_job_type job = ''notification_delivery'' then dispatch_notification env now fresh job run item ps db
      else quietly (fail_to_manual_review env now item (''unsupported_job_type:'' @ jb_job_type job)
             ''{\"error\":\"unsupported job type\"}'' db))"

definition dispatch_autonomy_item ::
    "autonomy_env \<Rightarrow> datetime \<Rightarrow> string \<Rightarrow> autonomy_dispatch_item \<Rightarrow> autonomy_db \<Rightarrow> dispatched" where
  "dispatch_autonomy_item env now fresh item db =
     (case get_job (di_job_id item) db of
        None \<Rightarrow> quietly (Inl JobMissing, db)
      | Some job \<Rightarrow>
     (case get_run (di_run_id item) db of
        None \<Rightarrow> quietly (Inl RunMissing, db)
      | Some run \<Rightarrow>
     (case enforce_pre_dispatch_controls env now job run item db of
        (Inl e, db1) \<Rightarrow> quietly (Inl e, db1)
      | (Inr None, db1) \<Rightarrow> quietly (Inr (), db1)
      | (Inr (Some ps), db1) \<Rightarrow>
          (case on_store_unit (mark_run_running (di_job_id item) (di_run_id item) (di_owner_token item)
                  (di_lease_epoch item) (ae_rfc3339 env now)) db1 of
             (Inl e, db2) \<Rightarrow> quietly (Inl e, db2)
           | (Inr _, db2) \<Rightarrow> dispatch_job env now fresh job run item ps db2))))"

subsection \<open>Jobs created at start-up\<close>

record autonomy_agent =
  aa_id :: uuid
  aa_name :: string
  aa_template :: "string option"

definition heartbeat_job_id :: "autonomy_env \<Rightarrow> uuid \<Rightarrow> string" where
  "heartbeat_job_id env agent_id = ''heartbeat:'' @ ae_uuid_text env agent_id"

definition heartbeat_schedule_seconds :: "string option \<Rightarrow> nat" where
  "heartbeat_schedule_seconds template =
     (case template of
        Some name \<Rightarrow>
          if eq_ignore_ascii_case name ''researcher'' then 120 * 60
          else if eq_ignore_ascii_case name ''developer'' then 60 * 60
          else 30 * 60
      | None \<Rightarrow> 30 * 60)"

definition ensure_heartbeat_job ::
    "autonomy_env \<Rightarrow> datetime \<Rightarrow> autonomy_agent \<Rightarrow> autonomy_db \<Rightarrow> (autonomy_error + unit) \<times> autonomy_db" where
  "ensure_heartbeat_job env now agent db =
     (let job_id = heartbeat_job_id env (aa_id agent) in
      case get_job job_id db of
        Some _ \<Rightarrow> (Inr (), db)
      | None \<Rightarrow>
          on_store_unit (insert_job
            \<lparr>nj_id = job_id, nj_job_type = ''heartbeat_observe'', nj_agent_id = ae_uuid_text env (aa_id agent),
             nj_tenant_key = ''local'', nj_workflow_id = None,
             nj_policy_scope = ''agent:'' @ ae_uuid_text env (aa_id agent), nj_payload_version = 1,
             nj_payload_json = ae_heartbeat_text env
               \<lparr>hp_version = 1, hp_agent_id = ae_uuid_text env (aa_id agent), hp_agent_name = Some (aa_name agent),
                hp_template_name = aa_template agent\<rparr>,
             nj_schedule_version = 1,
             nj_schedule_json = ae_schedule_text env (schedule_interval (heartbeat_schedule_seconds (aa_template agent))),
             nj_overlap_policy = OvForbid, nj_missed_run_policy = MrRescheduleFromNow,
             nj_retry_policy_json = ae_retry_text env autonomy_retry_policy_default,
             nj_initiative_mode = ImObserve, nj_approval_policy = AlNone, nj_state = StQueued,
             nj_next_run_at = ae_rfc3339 env now, nj_created_at = ae_rfc3339 env now,
             nj_updated_at = ae_rfc3339 env now\<rparr>) db)"

fun reconcile_bootstrap_jobs ::
    "autonomy_env \<Rightarrow> datetime \<Rightarrow> autonomy_agent list \<Rightarrow> autonomy_db \<Rightarrow> (autonomy_error + unit) \<times> autonomy_db" where
  "reconcile_bootstrap_jobs env now [] db = (Inr (), db)"
| "reconcile_bootstrap_jobs env now (a # as) db =
     (case ensure_heartbeat_job env now a db of
        (Inl e, db') \<Rightarrow> (Inl e, db')
      | (Inr _, db') \<Rightarrow> reconcile_bootstrap_jobs env now as db')"

subsection \<open>Backoff and quiet hours\<close>

text \<open>
  The delay before a retry exists exactly when the policy's lower bound is not above its upper
  one; it lies between the two bounds and does not shrink from one attempt to the next.
\<close>

theorem backoff_within_bounds:
  "(compute_backoff_seconds a p \<noteq> None \<longleftrightarrow> rp_min_backoff_seconds p \<le> rp_max_backoff_seconds p) \<and>
   (\<forall>d. compute_backoff_seconds a p = Some d \<longrightarrow>
      rp_min_backoff_seconds p \<le> d \<and> d \<le> rp_max_backoff_seconds p \<and>
      (\<forall>a' d'. a \<le> a' \<longrightarrow> compute_backoff_seconds a' p = Some d' \<longrightarrow> d \<le> d'))"
proof -
  have sat: "x \<le> y \<Longrightarrow> u64_saturate x \<le> u64_saturate y" for x y by (simp add: u64_saturate_def)
  have mono: "u64_saturate (m * (min a 10 + 1)) \<le> u64_saturate (m * (min a' 10 + 1))"
    "u64_saturate (m * 2 ^ min a 10) \<le> u64_saturate (m * 2 ^ min a' 10)" if "a \<le> a'" for a' m
    by (rule sat, rule mult_le_mono2, use that in \<open>simp add: min.coboundedI1\<close>)+
  have clamp: "x \<le> y \<Longrightarrow> max m (min x n) \<le> max m (min y n)" for x y m n :: nat
    by (auto simp: min_def max_def)
  show ?thesis
    using clamp[OF mono(1)[of _ "rp_min_backoff_seconds p"]] clamp[OF mono(2)[of _ "rp_min_backoff_seconds p"]]
    unfolding compute_backoff_seconds_def Let_def
    by (cases "rp_max_backoff_seconds p < rp_min_backoff_seconds p"; cases "rp_backoff p = ''linear''")
      (simp_all del: max.bounded_iff mult_Suc_right add_Suc_right)
qed

lemma backoff_default:
  "compute_backoff_seconds 0 autonomy_retry_policy_default = Some 15"
  "compute_backoff_seconds 2 autonomy_retry_policy_default = Some 60"
  by (simp_all add: compute_backoff_seconds_def autonomy_retry_policy_default_def u64_saturate_def)

theorem backoff_within_bounds_witness:
  "(15::nat) \<le> 15 \<and> (15::nat) \<le> 300 \<and> (15::nat) \<le> 60"
  using backoff_within_bounds[of 0 autonomy_retry_policy_default] backoff_default
  by (force simp: autonomy_retry_policy_default_def)

text \<open>Hours since the epoch on the local clock; the hour of day and the day come from them.\<close>

definition local_hours :: "int \<Rightarrow> datetime \<Rightarrow> int" where
  "local_hours offset t = (t + chrono_secs offset) div nanos_per_hour"

lemma local_hour_eq: "local_hour offset t = nat (local_hours offset t mod 24)"
  by (simp add: local_hour_def local_hours_def)

lemma local_day_eq: "local_day offset t = local_hours offset t div 24"
  by (simp add: local_day_def local_hours_def nanos_per_hour_def flip: zdiv_zmult2_eq)

lemma local_hours_exact: "local_hours offset (n * nanos_per_hour - chrono_secs offset) = n"
  by (simp add: local_hours_def nanos_per_hour_def)

lemma local_hours_cut:
  "local_hours offset t * nanos_per_hour \<le> t + chrono_secs offset"
  "t + chrono_secs offset < (local_hours offset t + 1) * nanos_per_hour"
proof -
  let ?x = "t + chrono_secs offset"
  have "?x = ?x div nanos_per_hour * nanos_per_hour + ?x mod nanos_per_hour"
    "0 \<le> ?x mod nanos_per_hour" "?x mod nanos_per_hour < nanos_per_hour"
    by (simp_all only: div_mult_mod_eq) (simp_all add: nanos_per_hour_def)
  then show "local_hours offset t * nanos_per_hour \<le> ?x" "?x < (local_hours offset t + 1) * nanos_per_hour"
    unfolding local_hours_def distrib_right mult_1 by linarith+
qed

lemma local_hours_less: "t < n * nanos_per_hour - chrono_secs offset \<longleftrightarrow> local_hours offset t < n"
proof
  assume "t < n * nanos_per_hour - chrono_secs offset"
  with local_hours_cut(1)[of offset t] have "local_hours offset t * nanos_per_hour < n * nanos_per_hour" by linarith
  then show "local_hours offset t < n" by (simp add: nanos_per_hour_def)
next
  assume "local_hours offset t < n"
  then have "(local_hours offset t + 1) * nanos_per_hour \<le> n * nanos_per_hour" by (simp add: nanos_per_hour_def)
  with local_hours_cut(2)[of t offset] show "t < n * nanos_per_hour - chrono_secs offset" by linarith
qed

lemma local_hours_mono: "t \<le> t' \<Longrightarrow> local_hours offset t \<le> local_hours offset t'"
  by (simp add: local_hours_def nanos_per_hour_def zdiv_mono1)

definition release_hour :: "quiet_hours_policy \<Rightarrow> int \<Rightarrow> int" where
  "release_hour q k =
     (if qh_end_hour q \<le> qh_start_hour q \<and> qh_start_hour q \<le> nat (k mod 24) then k div 24 + 1 else k div 24) * 24
     + int (qh_end_hour q)"

lemma release_at_eq:
  assumes "parse_fixed_timezone (qh_timezone q) = Some offset" "qh_end_hour q < 24"
  shows "quiet_hours_release_at q now =
    (if in_quiet_window q (local_hour offset now)
     then Some (release_hour q (local_hours offset now) * nanos_per_hour - chrono_secs offset) else None)"
  using assms
  by (simp add: quiet_hours_release_at_def release_hour_def local_hour_eq local_day_eq Let_def algebra_simps)

lemma day_and_hour:
  fixes k :: int
  obtains d x where "k = d * 24 + x" "0 \<le> x" "x < 24" "k div 24 = d" "k mod 24 = x"
proof
  show "k = k div 24 * 24 + k mod 24" by simp
qed simp_all

lemma release_hour_bounds:
  assumes "in_quiet_window q (nat (k mod 24))" "qh_end_hour q < 24"
  shows "k < release_hour q k" "release_hour q k \<le> k + 24" "nat (release_hour q k mod 24) = qh_end_hour q"
proof -
  obtain d x where k: "k = d * 24 + x" "0 \<le> x" "x < 24" "k div 24 = d" "k mod 24 = x" by (rule day_and_hour)
  show "k < release_hour q k" "release_hour q k \<le> k + 24"
    using assms unfolding release_hour_def in_quiet_window_def k(4,5) using k(1-3) by (auto split: if_splits)
  show "nat (release_hour q k mod 24) = qh_end_hour q"
    using assms(2) by (simp add: release_hour_def)
qed

lemma quiet_until_release:
  assumes "in_quiet_window q (nat (k mod 24))" "qh_end_hour q < 24" "k \<le> h" "h < release_hour q k"
  shows "in_quiet_window q (nat (h mod 24))"
proof -
  obtain d x where k: "k = d * 24 + x" "0 \<le> x" "x < 24" "k div 24 = d" "k mod 24 = x" by (rule day_and_hour)
  obtain d' y where h: "h = d' * 24 + y" "0 \<le> y" "y < 24" "h div 24 = d'" "h mod 24 = y" by (rule day_and_hour)
  have le: "d * 24 + x \<le> d' * 24 + y" using assms(3) k(1) h(1) by simp
  define s e where "s = int (qh_start_hour q)" and "e = int (qh_end_hour q)"
  have win: "in_quiet_window q (nat z) \<longleftrightarrow> (if s < e then s \<le> z \<and> z < e else s \<le> z \<or> z < e)" if "0 \<le> z" for z
    using that by (auto simp: in_quiet_window_def s_def e_def)
  have lt: "d' * 24 + y < (if e \<le> s \<and> s \<le> x then d + 1 else d) * 24 + e"
    using assms(4) k(2) unfolding release_hour_def k(4,5) h(1) by (simp add: s_def e_def le_nat_iff)
  have "if s < e then s \<le> x \<and> x < e else s \<le> x \<or> x < e" using assms(1) win[of x] k(2,5) by simp
  moreover have "e < 24" "0 \<le> s" using assms(2) by (simp_all add: e_def s_def)
  moreover have "d' = d \<or> d' = d + 1" using le lt k(2,3) h(2,3) \<open>e < 24\<close> by (auto split: if_splits)
  ultimately show ?thesis
    unfolding h(5) win[OF h(2)] using le lt k(2,3) h(2,3) by (elim disjE) (auto split: if_splits)
qed

text \<open>
  Quiet hours with a readable time zone and hours of a day: a dispatch is deferred exactly when
  the local hour lies in the window. The release time is the next full hour at which the window
  ends: it lies at most a day ahead, every instant before it is quiet, and it is not quiet itself
  unless start and end are the same hour, in which case the whole day is quiet.
\<close>

theorem quiet_hours_exact:
  assumes "parse_fixed_timezone (qh_timezone q) = Some offset" "qh_start_hour q < 24" "qh_end_hour q < 24"
  shows "quiet_hours_release_at q now = None \<longleftrightarrow> \<not> in_quiet_window q (local_hour offset now)"
    and "quiet_hours_release_at q now = Some release \<Longrightarrow>
      now < release \<and> release \<le> now + 24 * nanos_per_hour \<and> local_hour offset release = qh_end_hour q \<and>
      (\<forall>t. now \<le> t \<and> t < release \<longrightarrow> in_quiet_window q (local_hour offset t)) \<and>
      (qh_start_hour q \<noteq> qh_end_hour q \<longrightarrow> \<not> in_quiet_window q (local_hour offset release)) \<and>
      (qh_start_hour q = qh_end_hour q \<longrightarrow> (\<forall>t. quiet_hours_release_at q t \<noteq> None))"
proof -
  note eq = release_at_eq[OF assms(1,3)]
  show "quiet_hours_release_at q now = None \<longleftrightarrow> \<not> in_quiet_window q (local_hour offset now)"
    by (simp add: eq)
  let ?k = "local_hours offset now"
  assume "quiet_hours_release_at q now = Some release"
  then have quiet: "in_quiet_window q (nat (?k mod 24))"
    and rel: "release = release_hour q ?k * nanos_per_hour - chrono_secs offset"
    by (simp_all add: eq local_hour_eq split: if_splits)
  note b = release_hour_bounds[OF quiet assms(3)]
  have hour: "local_hour offset release = qh_end_hour q"
    using b(3) by (simp add: local_hour_eq rel local_hours_exact)
  have now: "now < release" using b(1) by (simp add: rel local_hours_less)
  have "?k * nanos_per_hour \<le> now + chrono_secs offset" by (rule local_hours_cut)
  moreover have "release_hour q ?k * nanos_per_hour \<le> (?k + 24) * nanos_per_hour"
    using b(2) by (simp add: nanos_per_hour_def)
  ultimately have day: "release \<le> now + 24 * nanos_per_hour" by (simp add: rel algebra_simps)
  have before: "in_quiet_window q (local_hour offset t)" if "now \<le> t" "t < release" for t
    using quiet_until_release[OF quiet assms(3), of "local_hours offset t"] that local_hours_mono[of now t offset]
    by (simp add: local_hour_eq rel local_hours_less)
  show "now < release \<and> release \<le> now + 24 * nanos_per_hour \<and> local_hour offset release = qh_end_hour q \<and>
      (\<forall>t. now \<le> t \<and> t < release \<longrightarrow> in_quiet_window q (local_hour offset t)) \<and>
      (qh_start_hour q \<noteq> qh_end_hour q \<longrightarrow> \<not> in_quiet_window q (local_hour offset release)) \<and>
      (qh_start_hour q = qh_end_hour q \<longrightarrow> (\<forall>t. quiet_hours_release_at q t \<noteq> None))"
    using now day hour before by (auto simp: in_quiet_window_def eq)
qed

theorem quiet_hours_exact_witness:
  "quiet_hours_release_at \<lparr>qh_timezone = ''UTC'', qh_start_hour = 22, qh_end_hour = 7\<rparr> (23 * nanos_per_hour) =
     Some (31 * nanos_per_hour) \<and> 31 * nanos_per_hour \<le> 23 * nanos_per_hour + 24 * nanos_per_hour"
proof -
  let ?q = "\<lparr>qh_timezone = ''UTC'', qh_start_hour = 22, qh_end_hour = 7\<rparr>"
  have tz: "parse_fixed_timezone (qh_timezone ?q) = Some 0" by code_simp
  have "quiet_hours_release_at ?q (23 * nanos_per_hour) = Some (31 * nanos_per_hour)"
    using tz by (simp add: quiet_hours_release_at_def local_hour_def local_day_def in_quiet_window_def nanos_per_hour_def
        chrono_secs_def)
  with quiet_hours_exact(2)[OF tz, of "23 * nanos_per_hour" "31 * nanos_per_hour"] show ?thesis by simp
qed

subsection \<open>Controls come before effects\<close>

text \<open>No notification was written and no job was created.\<close>

definition no_new_rows :: "autonomy_db \<Rightarrow> autonomy_db \<Rightarrow> bool" where
  "no_new_rows db db' \<longleftrightarrow>
     adb_notifications db' = adb_notifications db \<and> (\<forall>i. get_job i db' = None \<longleftrightarrow> get_job i db = None)"

lemma no_new_rows_refl [simp]: "no_new_rows db db"
  by (simp add: no_new_rows_def)

lemma owner_tx_no_new_rows:
  assumes "\<And>d. adb_notifications (rest d) = adb_notifications d"
    "\<And>d i. bt_get (adb_jobs (rest d)) i = None \<longleftrightarrow> bt_get (adb_jobs d) i = None"
  shows "no_new_rows db (snd (on_store_unit (owner_tx j r t e st f rest) db))"
  using assms
  by (auto simp: on_store_unit_def on_store_def owner_tx_def no_new_rows_def get_job_def split: option.splits)

lemma owner_ops_no_new_rows [simp]:
  "no_new_rows db (snd (on_store_unit (finish_autonomy_run j r t e fi) db))"
  "no_new_rows db (snd (on_store_unit (complete_run_and_requeue j r t e cf) db))"
  "no_new_rows db (snd (on_store_unit (reschedule_job j r t e re) db))"
  "no_new_rows db (snd (on_store_unit (defer_run j r t e df) db))"
  "no_new_rows db (snd (on_store_unit (mark_run_running j r t e u) db))"
  unfolding owner_tx_defs by (rule owner_tx_no_new_rows; simp)+

lemma ends_no_new_rows [simp]:
  "no_new_rows db (snd (fail_to_manual_review env now item reason res db))"
  "no_new_rows db (snd (pause_run env now item reason db))"
  "no_new_rows db (snd (quarantine_run env now item reason db))"
  "no_new_rows db (snd (service_defer_run env now item reason res st nxt ap ex db))"
  "no_new_rows db (snd (requeue env now item status res nxt hb db))"
  by (simp_all add: fail_to_manual_review_def pause_run_def quarantine_run_def service_defer_run_def requeue_def)

lemma stop_with_snd [simp]: "snd (stop_with r) = snd r"
  by (auto simp: stop_with_def split: prod.splits sum.splits)

lemma stop_with_fst: "fst (stop_with r) \<noteq> Inr (Some ps)"
  by (auto simp: stop_with_def split: prod.splits sum.splits)

text \<open>The conditions under which a run may act.\<close>

definition dispatch_permitted ::
    "autonomy_env \<Rightarrow> datetime \<Rightarrow> autonomy_job_row \<Rightarrow> autonomy_run_row \<Rightarrow> autonomy_db \<Rightarrow> autonomy_policy_document \<Rightarrow> uuid \<Rightarrow> bool" where
  "dispatch_permitted env now job run db policy agent_id \<longleftrightarrow>
     load_effective_policy env ''agent'' (jb_agent_id job) db = Inr policy \<and>
     ae_parse_uuid env (jb_agent_id job) = Some agent_id \<and>
     \<not> pd_pause policy \<and> \<not> ae_quarantined env agent_id \<and> \<not> ae_pullback_active env agent_id \<and>
     Option.bind (pd_quiet_hours policy) (\<lambda>q. quiet_hours_release_at q now) = None \<and>
     \<not> is_suppressed env now job db \<and>
     (approval_required job policy \<longrightarrow> approval_is_valid env run now)"

definition over_budget :: "autonomy_env \<Rightarrow> autonomy_policy_document \<Rightarrow> uuid \<Rightarrow> bool" where
  "over_budget env policy agent_id =
     f64_gt (ae_daily_total env agent_id) (ib_max_daily_cost (pd_initiative_budget policy))"

lemma enforce_no_new_rows:
  "no_new_rows db (snd (enforce_pre_dispatch_controls env now job run item db))"
  by (auto simp: enforce_pre_dispatch_controls_def complete_suppressed_def defer_for_approval_def
      split: sum.splits option.splits)

lemma enforce_permits:
  assumes "enforce_pre_dispatch_controls env now job run item db = (Inr (Some ps), db1)"
  obtains agent_id where "dispatch_permitted env now job run db (dp_policy ps) agent_id" "db1 = db"
    "dp_cost_over_budget ps = over_budget env (dp_policy ps) agent_id"
proof -
  have no: "stop_with x \<noteq> (Inr (Some ps), db1)" for x using stop_with_fst[of x ps] by (metis fst_conv)
  show ?thesis
    using assms no
    by (auto simp: enforce_pre_dispatch_controls_def split: sum.splits option.splits if_splits
        intro!: that simp: dispatch_permitted_def over_budget_def)
qed

lemma enforce_permitted:
  assumes "dispatch_permitted env now job run db policy agent_id"
  shows "enforce_pre_dispatch_controls env now job run item db =
    (Inr (Some \<lparr>dp_policy = policy, dp_cost_over_budget = over_budget env policy agent_id\<rparr>), db)"
  using assms by (auto simp: dispatch_permitted_def enforce_pre_dispatch_controls_def over_budget_def)

lemma dispatch_item_stopped:
  assumes "get_job (di_job_id item) db = Some job" "get_run (di_run_id item) db = Some run"
    "\<nexists>policy agent_id. dispatch_permitted env now job run db policy agent_id"
  shows "dispatch_autonomy_item env now fresh item db =
    (let (r, db') = enforce_pre_dispatch_controls env now job run item db
     in quietly (case r of Inl e \<Rightarrow> Inl e | Inr _ \<Rightarrow> Inr (), db'))"
proof -
  obtain r db' where e: "enforce_pre_dispatch_controls env now job run item db = (r, db')" by fastforce
  have "r \<noteq> Inr (Some ps)" for ps using assms(3) enforce_permits[of env now job run item db ps db'] e by metis
  then show ?thesis using assms(1,2) e by (auto simp: dispatch_autonomy_item_def split: sum.splits option.splits)
qed

lemma dispatch_job_effects:
  assumes "dispatch_job env now fresh job run item ps db = (res, db', effs)" "e \<in> set effs"
  shows "\<not> dp_cost_over_budget ps \<and> (\<forall>w r. e = ExecuteWorkflow w r \<longrightarrow> \<not> pd_draft_only (dp_policy ps) \<and> r = ru_id run)"
  using assms
  by (auto simp: dispatch_job_def dispatch_heartbeat_def dispatch_workflow_def dispatch_notification_def quietly_def
      after_effect_def Let_def split: if_splits option.splits prod.splits sum.splits)

text \<open>
  C38. A dispatch that runs a workflow or an agent turn, writes a notification or creates a job has
  passed every control: the job and the run exist, the run was leased, the effective policy is
  readable and not paused, the agent is neither quarantined nor pulled back, it is not a quiet
  hour, no suppression matches, and a required approval is there and has not expired. A workflow or
  turn is moreover only started within the daily budget, and a workflow never under a draft-only
  policy.
\<close>

theorem controls_precede_effects:
  assumes "dispatch_autonomy_item env now fresh item db = (res, db', effs)"
    and "effs \<noteq> [] \<or> \<not> no_new_rows db db'"
  shows "\<exists>job run policy agent_id.
    get_job (di_job_id item) db = Some job \<and> get_run (di_run_id item) db = Some run \<and> ru_state run = StLeased \<and>
    dispatch_permitted env now job run db policy agent_id \<and>
    (effs \<noteq> [] \<longrightarrow> \<not> over_budget env policy agent_id) \<and>
    (\<forall>w r. ExecuteWorkflow w r \<in> set effs \<longrightarrow> \<not> pd_draft_only policy \<and> r = ru_id run)"
proof -
  obtain job where job: "get_job (di_job_id item) db = Some job"
    using assms by (cases "get_job (di_job_id item) db") (auto simp: dispatch_autonomy_item_def quietly_def)
  obtain run where run: "get_run (di_run_id item) db = Some run"
    using assms job by (cases "get_run (di_run_id item) db") (auto simp: dispatch_autonomy_item_def quietly_def)
  obtain policy agent_id where ok: "dispatch_permitted env now job run db policy agent_id"
  proof (rule ccontr)
    assume "\<not> thesis"
    with that have "\<nexists>policy agent_id. dispatch_permitted env now job run db policy agent_id" by blast
    from dispatch_item_stopped[OF job run this] enforce_no_new_rows[of db env now job run item] assms show False
      by (auto simp: quietly_def split: prod.splits)
  qed
  let ?ps = "\<lparr>dp_policy = policy, dp_cost_over_budget = over_budget env policy agent_id\<rparr>"
  let ?mark = "mark_run_running (di_job_id item) (di_run_id item) (di_owner_token item) (di_lease_epoch item) (ae_rfc3339 env now)"
  have disp: "dispatch_autonomy_item env now fresh item db =
    (case on_store_unit ?mark db of (Inl e, db2) \<Rightarrow> quietly (Inl e, db2)
      | (Inr _, db2) \<Rightarrow> dispatch_job env now fresh job run item ?ps db2)"
    using job run by (simp add: dispatch_autonomy_item_def enforce_permitted[OF ok])
  have nomark: "no_new_rows db (snd (on_store_unit ?mark db))" by simp
  obtain db2 where mark: "on_store_unit ?mark db = (Inr (), db2)"
    using assms disp nomark by (cases "on_store_unit ?mark db"; cases "fst (on_store_unit ?mark db)") (auto simp: quietly_def)
  have leased: "ru_state run = StLeased"
    using mark run
    by (cases "ru_state run") (auto simp: on_store_unit_def on_store_def mark_run_running_def owner_tx_def valid_run_transition_def)
  have dj: "dispatch_job env now fresh job run item ?ps db2 = (res, db', effs)" using assms(1) disp mark by simp
  have "effs \<noteq> [] \<longrightarrow> \<not> over_budget env policy agent_id"
    using dispatch_job_effects[OF dj, of "hd effs"] by simp
  moreover have "\<forall>w r. ExecuteWorkflow w r \<in> set effs \<longrightarrow> \<not> pd_draft_only policy \<and> r = ru_id run"
    using dispatch_job_effects[OF dj] by simp
  ultimately show ?thesis using job run leased ok by blast
qed

end
