(* ===== verification/Autonomy_Service.thy ===== *)
theory Autonomy_Service
  imports Autonomy
begin

section \<open>Scheduler and workers of the autonomy service\<close>

text \<open>
  The running service of \<^verbatim>\<open>ghost-gateway/src/autonomy.rs\<close>: the scheduler's tick, the bounded
  channel, the workers and the slots they reserve and release, on the ledger of \<open>Autonomy_Store\<close>
  and the functions of \<open>Autonomy\<close>. A tick and the dispatch of an item are single steps; in between,
  policies, suppressions and approvals may change. A worker whose dispatch panics is gone, and so
  is the scheduler when it panics; the slot reserved at that moment is never released, which the list of
  lost slots records by agent.
\<close>

record autonomy_service =
  av_config :: autonomy_runtime_config
  av_queued_slots :: u64
  av_reserved_by_agent :: "(string, nat) btree_map"
  av_channel :: "autonomy_dispatch_item list"
  av_in_flight :: "autonomy_dispatch_item list"
  av_lost_slots :: "string list"
  av_workers :: nat
  av_scheduler_running :: bool
  av_blocked_due_jobs :: nat
  av_db :: autonomy_db
  av_effects :: "autonomy_effect list"

definition autonomy_start :: "autonomy_runtime_config \<Rightarrow> autonomy_db \<Rightarrow> autonomy_service" where
  "autonomy_start cfg db =
     \<lparr>av_config = cfg, av_queued_slots = 0, av_reserved_by_agent = bt_new, av_channel = [], av_in_flight = [],
      av_lost_slots = [], av_workers = unat (rc_global_concurrency cfg), av_scheduler_running = True,
      av_blocked_due_jobs = 0, av_db = db, av_effects = []\<rparr>"

definition reserve_slot :: "string \<Rightarrow> autonomy_service \<Rightarrow> bool \<times> autonomy_service" where
  "reserve_slot agent_id s =
     (if rc_global_concurrency (av_config s) \<le> av_queued_slots s then (False, s)
      else
        let per_agent = bt_get_or 0 (av_reserved_by_agent s) agent_id in
        if rc_per_agent_concurrency (av_config s) \<le> per_agent then (False, s)
        else (True, s\<lparr>av_reserved_by_agent := bt_insert agent_id (per_agent + 1) (av_reserved_by_agent s),
                      av_queued_slots := av_queued_slots s + 1\<rparr>))"

definition release_slot :: "string \<Rightarrow> autonomy_service \<Rightarrow> autonomy_service" where
  "release_slot agent_id s =
     s\<lparr>av_queued_slots := av_queued_slots s - 1,
       av_reserved_by_agent :=
         (case bt_get (av_reserved_by_agent s) agent_id of
            None \<Rightarrow> av_reserved_by_agent s
          | Some n \<Rightarrow> if 1 < n then bt_insert agent_id (n - 1) (av_reserved_by_agent s)
                     else bt_remove agent_id (av_reserved_by_agent s))\<rparr>"

text \<open>\<^verbatim>\<open>try_send\<close> fails when the channel is full, or closed because no worker is left.\<close>

definition try_send :: "autonomy_dispatch_item \<Rightarrow> autonomy_service \<Rightarrow> autonomy_service option" where
  "try_send item s =
     (if unat (rc_global_concurrency (av_config s)) \<le> length (av_channel s) \<or> av_workers s = 0 then None
      else Some (s\<lparr>av_channel := av_channel s @ [item]\<rparr>))"

text \<open>\<open>ids\<close> gives the two identifiers drawn for a job.\<close>

definition schedule_job ::
    "autonomy_env \<Rightarrow> datetime \<Rightarrow> (string \<Rightarrow> string \<times> string) \<Rightarrow> autonomy_service \<Rightarrow> autonomy_job_row \<Rightarrow> autonomy_service" where
  "schedule_job env now ids s job =
     (if \<not> av_scheduler_running s then s else
      case reserve_slot (jb_agent_id job) s of
        (False, s1) \<Rightarrow> s1\<lparr>av_blocked_due_jobs := av_blocked_due_jobs s1 + 1\<rparr>
      | (True, s1) \<Rightarrow>
          (case prepare_dispatch env (av_config s1) job now (fst (ids (jb_id job))) (snd (ids (jb_id job))) (av_db s1) of
             (Inr (Some item), db') \<Rightarrow>
               (case try_send item (s1\<lparr>av_db := db'\<rparr>) of
                  Some s2 \<Rightarrow> s2
                | None \<Rightarrow>
                    (let s2 = release_slot (jb_agent_id job) (s1\<lparr>av_db := db'\<rparr>)
                     in s2\<lparr>av_blocked_due_jobs := av_blocked_due_jobs s2 + 1\<rparr>))
           | (Inl AutonomyPanic, db') \<Rightarrow>
               s1\<lparr>av_db := db', av_scheduler_running := False, av_lost_slots := av_lost_slots s1 @ [jb_agent_id job]\<rparr>
           | (_, db') \<Rightarrow> release_slot (jb_agent_id job) (s1\<lparr>av_db := db'\<rparr>)))"

definition scheduler_tick ::
    "autonomy_env \<Rightarrow> bool \<Rightarrow> datetime \<Rightarrow> (string \<Rightarrow> string \<times> string) \<Rightarrow> autonomy_service \<Rightarrow> autonomy_service" where
  "scheduler_tick env platform_killed now ids s =
     (if \<not> av_scheduler_running s then s
      else if platform_killed then s\<lparr>av_scheduler_running := False\<rparr>
      else foldl (schedule_job env now ids) (s\<lparr>av_blocked_due_jobs := 0\<rparr>)
             (select_due_jobs (ae_rfc3339 env now) (rc_max_select_per_tick (av_config s)) (av_db s)))"

definition worker_take :: "autonomy_service \<Rightarrow> autonomy_service" where
  "worker_take s =
     (case av_channel s of
        [] \<Rightarrow> s
      | item # rest \<Rightarrow>
          if length (av_in_flight s) < av_workers s
          then s\<lparr>av_channel := rest, av_in_flight := av_in_flight s @ [item]\<rparr> else s)"

definition worker_dispatch :: "autonomy_env \<Rightarrow> datetime \<Rightarrow> string \<Rightarrow> nat \<Rightarrow> autonomy_service \<Rightarrow> autonomy_service" where
  "worker_dispatch env now fresh k s =
     (if k < length (av_in_flight s) then
        let item = av_in_flight s ! k;
            (res, db', effs) = dispatch_autonomy_item env now fresh item (av_db s);
            s1 = s\<lparr>av_db := db', av_effects := av_effects s @ effs,
                   av_in_flight := take k (av_in_flight s) @ drop (Suc k) (av_in_flight s)\<rparr>
        in if res = Inl AutonomyPanic
           then s1\<lparr>av_lost_slots := av_lost_slots s1 @ [di_agent_id item], av_workers := av_workers s1 - 1\<rparr>
           else release_slot (di_agent_id item) s1
      else s)"

datatype autonomy_event =
    SchedulerTick autonomy_env bool datetime "string \<Rightarrow> string \<times> string"
  | WorkerTake
  | WorkerDispatch autonomy_env datetime string nat
  | ApproveRun autonomy_env datetime string nat string
  | PutPolicy autonomy_env datetime string string autonomy_policy_document
  | Suppress autonomy_env datetime string string string string string "timestamp option" string autonomy_json

fun service_step :: "autonomy_service \<Rightarrow> autonomy_event \<Rightarrow> autonomy_service" where
  "service_step s (SchedulerTick env killed now ids) = scheduler_tick env killed now ids s"
| "service_step s WorkerTake = worker_take s"
| "service_step s (WorkerDispatch env now fresh k) = worker_dispatch env now fresh k s"
| "service_step s (ApproveRun env now i ttl actor) =
     s\<lparr>av_db := snd (service_approve_run env now i ttl actor (av_db s))\<rparr>"
| "service_step s (PutPolicy env now kind key policy) =
     s\<lparr>av_db := snd (put_policy_document env now kind key policy (av_db s))\<rparr>"
| "service_step s (Suppress env now fresh kind key fp reason ex actor meta) =
     s\<lparr>av_db := snd (create_suppression env now fresh kind key fp reason ex actor meta (av_db s))\<rparr>"

subsection \<open>Slots\<close>

definition slot_holders :: "autonomy_service \<Rightarrow> string list" where
  "slot_holders s = map di_agent_id (av_channel s) @ map di_agent_id (av_in_flight s) @ av_lost_slots s"

text \<open>Slots are counted exactly: \<open>n\<close> in total and \<open>f a\<close> for agent \<open>a\<close>, none stored as zero.\<close>

definition slots_are :: "nat \<Rightarrow> (string \<Rightarrow> nat) \<Rightarrow> autonomy_service \<Rightarrow> bool" where
  "slots_are n f s \<longleftrightarrow>
     unat (av_queued_slots s) = n \<and> n \<le> unat (rc_global_concurrency (av_config s)) \<and>
     (\<forall>a. f a \<le> rc_per_agent_concurrency (av_config s)) \<and>
     (\<forall>a. bt_get (av_reserved_by_agent s) a = (if f a = 0 then None else Some (f a)))"

lemma slots_are_cong:
  assumes "av_queued_slots s' = av_queued_slots s" "av_config s' = av_config s"
    "av_reserved_by_agent s' = av_reserved_by_agent s"
  shows "slots_are n f s' = slots_are n f s"
  using assms by (simp add: slots_are_def)

lemma reserve_slots:
  assumes "slots_are n f s" "reserve_slot a s = (True, s1)"
  shows "slots_are (Suc n) (f(a := Suc (f a))) s1"
    "s1 = s\<lparr>av_reserved_by_agent := av_reserved_by_agent s1, av_queued_slots := av_queued_slots s1\<rparr>"
proof -
  have s1: "\<not> rc_global_concurrency (av_config s) \<le> av_queued_slots s"
    "\<not> rc_per_agent_concurrency (av_config s) \<le> bt_get_or 0 (av_reserved_by_agent s) a"
    "s1 = s\<lparr>av_reserved_by_agent := bt_insert a (bt_get_or 0 (av_reserved_by_agent s) a + 1) (av_reserved_by_agent s),
       av_queued_slots := av_queued_slots s + 1\<rparr>"
    using assms(2) by (auto simp: reserve_slot_def Let_def split: if_splits)
  then show "s1 = s\<lparr>av_reserved_by_agent := av_reserved_by_agent s1, av_queued_slots := av_queued_slots s1\<rparr>" by simp
  have "av_queued_slots s < rc_global_concurrency (av_config s)" using s1(1) by simp
  then have "unat (av_queued_slots s + 1) = Suc n" "Suc n \<le> unat (rc_global_concurrency (av_config s))"
    using assms(1) word_less_imp_no_wrap[of "av_queued_slots s" "rc_global_concurrency (av_config s)"]
    by (simp_all add: slots_are_def word_less_nat_alt)
  moreover have "bt_get_or 0 (av_reserved_by_agent s) a = f a"
    using assms(1) by (simp add: slots_are_def bt_get_or_def)
  ultimately show "slots_are (Suc n) (f(a := Suc (f a))) s1"
    using assms(1) s1(2) by (simp add: slots_are_def s1(3))
qed

lemma release_slots:
  assumes "slots_are (Suc n) (f(a := Suc (f a))) s"
  shows "slots_are n f (release_slot a s)"
proof -
  have "unat (av_queued_slots s) = Suc n" using assms by (simp add: slots_are_def)
  then have "unat (av_queued_slots s - 1) = n"
    by (metis diff_Suc_1 nat.distinct(1) unat_0 unat_minus_one)
  moreover have "\<forall>b. f b \<le> rc_per_agent_concurrency (av_config s)"
    using assms unfolding slots_are_def by (metis Suc_leD fun_upd_apply)
  ultimately show ?thesis
    using assms by (auto simp: slots_are_def release_slot_def split: option.splits if_splits)
qed

definition service_inv :: "autonomy_service \<Rightarrow> bool" where
  "service_inv s \<longleftrightarrow>
     slots_are (length (slot_holders s)) (count_list (slot_holders s)) s \<and>
     length (av_in_flight s) \<le> av_workers s"

lemma slots_are_fun_cong: "(\<And>a. f a = g a) \<Longrightarrow> slots_are n f s = slots_are n g s"
  by (simp add: slots_are_def)

lemma release_slot_fields [simp]:
  "av_config (release_slot a s) = av_config s" "av_channel (release_slot a s) = av_channel s"
  "av_in_flight (release_slot a s) = av_in_flight s" "av_lost_slots (release_slot a s) = av_lost_slots s"
  "av_workers (release_slot a s) = av_workers s" "av_db (release_slot a s) = av_db s"
  "av_scheduler_running (release_slot a s) = av_scheduler_running s" "av_effects (release_slot a s) = av_effects s"
  by (simp_all add: release_slot_def)

lemma count_list_snoc: "count_list (xs @ [a]) = (count_list xs)(a := Suc (count_list xs a))"
  by (auto simp: count_list_append)

text \<open>A slot that was just reserved is passed to the item, lost, or released.\<close>

lemma reserved_then:
  assumes "service_inv s" "reserve_slot a s = (True, s1)"
  shows "slots_are (Suc (length (slot_holders s))) ((count_list (slot_holders s))(a := Suc (count_list (slot_holders s) a))) s1"
    "av_channel s1 = av_channel s" "av_in_flight s1 = av_in_flight s" "av_lost_slots s1 = av_lost_slots s"
    "av_workers s1 = av_workers s" "av_config s1 = av_config s" "av_db s1 = av_db s"
    "av_scheduler_running s1 = av_scheduler_running s" "av_effects s1 = av_effects s"
proof -
  from assms have sl: "slots_are (length (slot_holders s)) (count_list (slot_holders s)) s" by (simp add: service_inv_def)
  note r = reserve_slots[OF sl assms(2)]
  show "slots_are (Suc (length (slot_holders s))) ((count_list (slot_holders s))(a := Suc (count_list (slot_holders s) a))) s1"
    by (rule r(1))
  show "av_channel s1 = av_channel s" "av_in_flight s1 = av_in_flight s" "av_lost_slots s1 = av_lost_slots s"
    "av_workers s1 = av_workers s" "av_config s1 = av_config s" "av_db s1 = av_db s"
    "av_scheduler_running s1 = av_scheduler_running s" "av_effects s1 = av_effects s"
    by (subst r(2), simp)+
qed

lemma holders_length: "length (slot_holders s) = length (av_channel s) + length (av_in_flight s) + length (av_lost_slots s)"
  by (simp add: slot_holders_def)

lemma reserved_channel_open:
  assumes "service_inv s" "reserve_slot a s = (True, s1)" "av_workers s \<noteq> 0"
  shows "try_send item s1 = Some (s1\<lparr>av_channel := av_channel s @ [item]\<rparr>)"
  using reserved_then[OF assms(1,2)] assms(3) by (simp add: try_send_def slots_are_def holders_length)

lemma slots_are_upd [simp]:
  "slots_are n f (s\<lparr>av_db := db\<rparr>) = slots_are n f s" "slots_are n f (s\<lparr>av_channel := ch\<rparr>) = slots_are n f s"
  "slots_are n f (s\<lparr>av_in_flight := fl\<rparr>) = slots_are n f s" "slots_are n f (s\<lparr>av_lost_slots := lo\<rparr>) = slots_are n f s"
  "slots_are n f (s\<lparr>av_workers := w\<rparr>) = slots_are n f s" "slots_are n f (s\<lparr>av_effects := es\<rparr>) = slots_are n f s"
  "slots_are n f (s\<lparr>av_scheduler_running := b\<rparr>) = slots_are n f s"
  "slots_are n f (s\<lparr>av_blocked_due_jobs := k\<rparr>) = slots_are n f s"
  by (simp_all add: slots_are_def)

lemma slot_holders_upd [simp]:
  "slot_holders (s\<lparr>av_db := db\<rparr>) = slot_holders s" "slot_holders (s\<lparr>av_blocked_due_jobs := k\<rparr>) = slot_holders s"
  "slot_holders (release_slot a s) = slot_holders s"
  "slot_holders (s\<lparr>av_effects := es\<rparr>) = slot_holders s" "slot_holders (s\<lparr>av_scheduler_running := b\<rparr>) = slot_holders s"
  by (simp_all add: slot_holders_def)

lemma service_inv_simple [simp]:
  "service_inv (s\<lparr>av_db := db\<rparr>) = service_inv s" "service_inv (s\<lparr>av_blocked_due_jobs := k\<rparr>) = service_inv s"
  "service_inv (s\<lparr>av_scheduler_running := b\<rparr>) = service_inv s"
  by (simp_all add: service_inv_def)

lemma schedule_job_inv:
  assumes "service_inv s"
  shows "service_inv (schedule_job env now ids s job)"
proof (cases "av_scheduler_running s \<and> fst (reserve_slot (jb_agent_id job) s)")
  case True
  then obtain s1 where res: "reserve_slot (jb_agent_id job) s = (True, s1)" by (cases "reserve_slot (jb_agent_id job) s") auto
  note r = reserved_then[OF assms res]
  have fl: "length (av_in_flight s) \<le> av_workers s" using assms by (simp add: service_inv_def)
  have released: "service_inv (release_slot (jb_agent_id job) (s1\<lparr>av_db := db'\<rparr>))" for db'
    using release_slots[of "length (slot_holders s)" "count_list (slot_holders s)" "jb_agent_id job" "s1\<lparr>av_db := db'\<rparr>"] r fl
    by (simp add: service_inv_def slot_holders_def)
  have sent: "service_inv (s1\<lparr>av_db := db', av_channel := av_channel s @ [item]\<rparr>)"
    if "di_agent_id item = jb_agent_id job" for db' item
  proof -
    have "count_list (slot_holders (s1\<lparr>av_db := db', av_channel := av_channel s @ [item]\<rparr>)) =
        (count_list (slot_holders s))(jb_agent_id job := Suc (count_list (slot_holders s) (jb_agent_id job)))"
      using that r by (auto simp: slot_holders_def count_list_append)
    then show ?thesis using r fl by (simp add: service_inv_def holders_length)
  qed
  have lost: "service_inv (s1\<lparr>av_db := db', av_scheduler_running := False, av_lost_slots := av_lost_slots s1 @ [jb_agent_id job]\<rparr>)" for db'
  proof -
    have "count_list (slot_holders (s1\<lparr>av_db := db', av_scheduler_running := False, av_lost_slots := av_lost_slots s1 @ [jb_agent_id job]\<rparr>)) =
        (count_list (slot_holders s))(jb_agent_id job := Suc (count_list (slot_holders s) (jb_agent_id job)))"
      using r by (auto simp: slot_holders_def count_list_append)
    then show ?thesis using r fl by (simp add: service_inv_def holders_length)
  qed
  obtain pr db' where prep: "prepare_dispatch env (av_config s1) job now (fst (ids (jb_id job))) (snd (ids (jb_id job))) (av_db s1) = (pr, db')"
    by fastforce
  show ?thesis
  proof (cases pr)
    case (Inl e)
    then show ?thesis using True released lost by (cases e) (simp_all add: schedule_job_def res prep)
  next
    case (Inr it)
    show ?thesis
    proof (cases it)
      case None
      with Inr True released show ?thesis by (simp add: schedule_job_def res prep)
    next
      case (Some item)
      have "di_agent_id item = jb_agent_id job"
        using prep by (simp add: Inr Some prepare_dispatch_def dispatch_item_of_def split: option.splits sum.splits prod.splits)
          (auto simp: dispatch_item_of_def)
      from sent[OF this] have ok: "try_send item (s1\<lparr>av_db := db'\<rparr>) = Some s2 \<Longrightarrow> service_inv s2" for s2
        using r by (auto simp: try_send_def split: if_splits)
      then show ?thesis
        using True released by (auto simp: schedule_job_def res prep Inr Some Let_def split: option.splits)
    qed
  qed
next
  case False
  then show ?thesis
    using assms by (auto simp: schedule_job_def reserve_slot_def Let_def split: if_splits)
qed

lemma scheduler_tick_inv: "service_inv s \<Longrightarrow> service_inv (scheduler_tick env killed now ids s)"
proof -
  assume inv: "service_inv s"
  have "service_inv t \<Longrightarrow> service_inv (foldl (schedule_job env now ids) t jobs)" for t jobs
    by (induction jobs arbitrary: t) (simp_all add: schedule_job_inv)
  with inv show ?thesis by (simp add: scheduler_tick_def)
qed

lemma worker_take_inv: "service_inv s \<Longrightarrow> service_inv (worker_take s)"
proof (cases "av_channel s")
  case (Cons item rest)
  assume inv: "service_inv s"
  have "count_list (slot_holders (s\<lparr>av_channel := rest, av_in_flight := av_in_flight s @ [item]\<rparr>)) = count_list (slot_holders s)"
    by (auto simp: slot_holders_def Cons count_list_append)
  with inv show ?thesis by (simp add: worker_take_def Cons service_inv_def holders_length)
qed (simp add: worker_take_def)

lemma worker_dispatch_inv:
  assumes "service_inv s"
  shows "service_inv (worker_dispatch env now fresh k s)"
proof (cases "k < length (av_in_flight s)")
  case True
  let ?item = "av_in_flight s ! k" and ?rest = "take k (av_in_flight s) @ drop (Suc k) (av_in_flight s)"
  let ?a = "di_agent_id ?item"
  obtain res db' effs where d: "dispatch_autonomy_item env now fresh ?item (av_db s) = (res, db', effs)" by (metis prod_cases3)
  let ?s1 = "s\<lparr>av_db := db', av_effects := av_effects s @ effs, av_in_flight := ?rest\<rparr>"
  have split: "av_in_flight s = take k (av_in_flight s) @ ?item # drop (Suc k) (av_in_flight s)"
    using True by (rule id_take_nth_drop)
  have count: "count_list (slot_holders s) = (count_list (slot_holders ?s1))(?a := Suc (count_list (slot_holders ?s1) ?a))"
    by (subst slot_holders_def, subst split, auto simp: slot_holders_def count_list_append)
  have len: "length (slot_holders s) = Suc (length (slot_holders ?s1))" "length (av_in_flight s) = Suc (length ?rest)"
    using True by (simp_all add: holders_length)
  have sl: "slots_are (Suc (length (slot_holders ?s1))) ((count_list (slot_holders ?s1))(?a := Suc (count_list (slot_holders ?s1) ?a))) s"
    and fl: "Suc (length ?rest) \<le> av_workers s"
    using assms unfolding service_inv_def count[symmetric] len[symmetric] by simp_all
  show ?thesis
  proof (cases "res = Inl AutonomyPanic")
    case True
    let ?s2 = "?s1\<lparr>av_lost_slots := av_lost_slots s @ [?a], av_workers := av_workers s - 1\<rparr>"
    have "count_list (slot_holders ?s2) = (count_list (slot_holders ?s1))(?a := Suc (count_list (slot_holders ?s1) ?a))"
      by (auto simp: slot_holders_def count_list_append)
    moreover have "length (slot_holders ?s2) = Suc (length (slot_holders ?s1))" by (simp add: holders_length)
    ultimately have "service_inv ?s2" using sl fl by (simp add: service_inv_def)
    then show ?thesis using True \<open>k < length (av_in_flight s)\<close> by (simp add: worker_dispatch_def d)
  next
    case False
    have "service_inv (release_slot ?a ?s1)"
      using release_slots[of "length (slot_holders ?s1)" "count_list (slot_holders ?s1)" ?a ?s1] sl fl
      by (simp add: service_inv_def)
    then show ?thesis using False \<open>k < length (av_in_flight s)\<close> by (simp add: worker_dispatch_def d)
  qed
qed (use assms in \<open>simp add: worker_dispatch_def\<close>)

interpretation service: invariant_steps service_step service_inv
proof
  fix s e assume "service_inv s"
  then show "service_inv (service_step s e)"
    by (cases e) (simp_all add: scheduler_tick_inv worker_take_inv worker_dispatch_inv)
qed

lemma service_inv_start: "service_inv (autonomy_start cfg db)"
  by (simp add: service_inv_def autonomy_start_def slots_are_def slot_holders_def)

text \<open>
  C40. In every state the service can reach, whatever ticks, dispatches, approvals and policy changes
  led there and whatever they answered, the slots are counted exactly: the counter is the number of
  items queued, items being dispatched and slots lost to a panic; it never passes the global limit,
  and no agent holds more than the limit for an agent. A slot that could be reserved therefore
  always finds room in the channel, as long as a worker lives.
\<close>

theorem slots_within_limits:
  assumes "s = foldl service_step (autonomy_start cfg db) es"
  shows "unat (av_queued_slots s) = length (av_channel s) + length (av_in_flight s) + length (av_lost_slots s) \<and>
    av_queued_slots s \<le> rc_global_concurrency (av_config s) \<and>
    count_list (slot_holders s) a \<le> rc_per_agent_concurrency (av_config s) \<and>
    (reserve_slot b s = (True, s1) \<and> av_workers s \<noteq> 0 \<longrightarrow> try_send item s1 \<noteq> None)"
proof -
  have inv: "service_inv s" unfolding assms by (rule service.inv_run[OF service_inv_start])
  then have sl: "slots_are (length (slot_holders s)) (count_list (slot_holders s)) s" by (simp add: service_inv_def)
  have "unat (av_queued_slots s) = length (av_channel s) + length (av_in_flight s) + length (av_lost_slots s)"
    using sl unfolding slots_are_def holders_length by simp
  moreover have "av_queued_slots s \<le> rc_global_concurrency (av_config s)"
    using sl by (simp add: slots_are_def word_le_nat_alt)
  ultimately show ?thesis
    using sl reserved_channel_open[OF inv] by (auto simp: slots_are_def)
qed

subsection \<open>Jobs that are never taken up again\<close>

text \<open>
  A job is parked when it is in none of the states that are selected as due, or needs a manual
  review.
\<close>

definition job_parked :: "autonomy_job_row \<Rightarrow> bool" where
  "job_parked j \<longleftrightarrow> jb_state j \<notin> {StQueued, StWaiting, StFailed} \<or> jb_manual_review_required j"

text \<open>
  What a dispatch does to the ledger is a sequence of statements for its job. A property that each of
  these statements keeps is kept by preparing and dispatching an item of that job.
\<close>

fun statement_for :: "string \<Rightarrow> store_op \<Rightarrow> bool" where
  "statement_for i (OpInsertJob q) = True"
| "statement_for i (OpInsertRun q) = (nr_job_id q = i)"
| "statement_for i (OpRebind r j oi t e u) = (j = i)"
| "statement_for i (OpAcquire j r oi t l x) = (j = i)"
| "statement_for i (OpMarkRunning j r t e u) = (j = i)"
| "statement_for i (OpFinish j r t e fi) = (j = i)"
| "statement_for i (OpComplete j r t e cf) = (j = i)"
| "statement_for i (OpReschedule j r t e re) = (j = i)"
| "statement_for i (OpDefer j r t e df) = (j = i)"
| "statement_for i (OpNotify n) = True"
| "statement_for i _ = False"

lemma snd_on_store [simp]: "snd (on_store tx db) = tx_db db (tx db)"
  by (simp add: on_store_def tx_db_def split: sum.split prod.split)

lemma snd_on_store_unit [simp]: "snd (on_store_unit tx db) = tx_db db (tx db)"
  using snd_on_store[of tx db]
  by (cases "on_store tx db"; cases "fst (on_store tx db)") (simp_all add: on_store_unit_def)

lemma quietly_simps [simp]: "fst (snd (quietly r)) = snd r" "fst (quietly r) = fst r" "snd (snd (quietly r)) = []"
  by (simp_all add: quietly_def)

lemma after_effect_simps [simp]:
  "fst (snd (after_effect e r)) = snd r" "fst (after_effect e r) = fst r" "snd (snd (after_effect e r)) = [e]"
  by (simp_all add: after_effect_def)

locale kept_by_statements =
  fixes P :: "autonomy_db \<Rightarrow> bool" and i :: string
  assumes kept: "statement_for i op \<Longrightarrow> P db \<Longrightarrow> P (store_step db op)"
begin

lemma kept_ops:
  assumes "P db"
  shows "P (tx_db db (insert_job q db))" "P (tx_db db (insert_notification n db))"
    "P (tx_db db (finish_autonomy_run i r t e fi db))" "P (tx_db db (complete_run_and_requeue i r t e cf db))"
    "P (tx_db db (reschedule_job i r t e re db))" "P (tx_db db (defer_run i r t e df db))"
    "P (tx_db db (mark_run_running i r t e u db))" "P (tx_db db (acquire_lease i r oi t l x db))"
    "P (tx_db db (rebind_run_owner r i oi t e u db))"
  using kept[OF _ assms, of "OpInsertJob q"] kept[OF _ assms, of "OpNotify n"] kept[OF _ assms, of "OpFinish i r t e fi"]
    kept[OF _ assms, of "OpComplete i r t e cf"] kept[OF _ assms, of "OpReschedule i r t e re"]
    kept[OF _ assms, of "OpDefer i r t e df"] kept[OF _ assms, of "OpMarkRunning i r t e u"]
    kept[OF _ assms, of "OpAcquire i r oi t l x"] kept[OF _ assms, of "OpRebind r i oi t e u"]
  by simp_all

lemma kept_ends:
  assumes "di_job_id item = i" "P db"
  shows "P (snd (fail_to_manual_review env now item reason res db))"
    "P (snd (pause_run env now item reason db))" "P (snd (quarantine_run env now item reason db))"
    "P (snd (service_defer_run env now item reason res st nxt ap ex db))"
    "P (snd (complete_suppressed env now job item res db))" "P (snd (defer_for_approval env now run item db))"
    "P (snd (complete_success env now job item res expl db))"
    "P (snd (retry_or_manual_review env now job run item cls res db))"
    "P (snd (heartbeat_completion env now job item tier res db))"
  using kept_ops assms
  by (auto simp: fail_to_manual_review_def pause_run_def quarantine_run_def service_defer_run_def requeue_def
      complete_suppressed_def defer_for_approval_def complete_success_def retry_or_manual_review_def
      heartbeat_completion_def Let_def split: sum.splits option.splits)

lemma kept_enforce:
  assumes "di_job_id item = i" "P db"
  shows "P (snd (enforce_pre_dispatch_controls env now job run item db))"
  using assms(2) by (auto simp: enforce_pre_dispatch_controls_def kept_ends[OF assms] split: sum.splits option.splits)

lemma kept_workflow:
  assumes "di_job_id item = i" "P db"
  shows "P (fst (snd (dispatch_workflow env now job run item ps db)))"
  using assms(2) by (simp add: dispatch_workflow_def kept_ends[OF assms] split: option.split workflow_reply.split)

lemma kept_notification:
  assumes "di_job_id item = i" "P db"
  shows "P (fst (snd (dispatch_notification env now fresh job run item ps db)))"
proof (cases "ae_parse_notification env (jb_payload_json job)")
  case (Some parsed)
  define payload where "payload = (if pd_draft_only (dp_policy ps) \<or> dp_cost_over_budget ps
    then parsed\<lparr>np_draft_only := True\<rparr> else parsed)"
  obtain x db' where ins: "on_store_unit (insert_notification (notification_of env now fresh job run payload)) db = (x, db')"
    by fastforce
  have "P db'" using kept_ops(2)[OF assms(2)] snd_on_store_unit by (metis ins snd_conv)
  then show ?thesis
    by (cases x) (simp_all add: dispatch_notification_def Some Let_def ins flip: payload_def add: kept_ends[OF assms(1)])
qed (use assms(2) in \<open>simp add: dispatch_notification_def\<close>)

lemma kept_heartbeat:
  assumes "di_job_id item = i" "P db"
  shows "P (fst (snd (dispatch_heartbeat env now fresh job run item ps db)))"
proof -
  have esc: "P (snd (heartbeat_escalation env now fresh job payload score level tier db))" for payload score level tier
    using kept_ops(1)[OF assms(2)] assms(2) by (simp add: heartbeat_escalation_def enqueue_notification_job_def)
  have step: "P (fst (snd (case heartbeat_escalation env now fresh job payload score level tier db of
      (Inl e, db') \<Rightarrow> quietly (Inl e, db')
    | (Inr _, db') \<Rightarrow> if b then after_effect ef (heartbeat_completion env now job item tier r db')
                       else quietly (heartbeat_completion env now job item tier r db'))))"
    for payload score level tier b ef r
    using esc[of payload score level tier] by (auto simp: kept_ends[OF assms(1)] split: prod.splits sum.splits)
  show ?thesis
  proof (cases "ae_parse_heartbeat env (jb_payload_json job)")
    case (Some payload)
    note parsed = this
    show ?thesis
    proof (cases "ae_parse_uuid env (hp_agent_id payload)")
      case (Some agent_id)
      obtain score level where conv: "read_convergence_state env agent_id = (score, level)" by fastforce
      show ?thesis
        unfolding dispatch_heartbeat_def parsed Some option.case(2) Let_def conv prod.case by (rule step)
    qed (use parsed assms(2) in \<open>simp add: dispatch_heartbeat_def\<close>)
  qed (use assms(2) in \<open>simp add: dispatch_heartbeat_def\<close>)
qed

lemma kept_dispatch:
  assumes "di_job_id item = i" "P db"
  shows "P (fst (snd (dispatch_autonomy_item env now fresh item db)))"
proof -
  have job: "P (fst (snd (dispatch_job env now fresh job run item ps d)))" if "P d" for job run ps d
    using that assms(1)
    by (simp add: dispatch_job_def kept_heartbeat kept_workflow kept_notification kept_ends)
  have en: "P db1" if "enforce_pre_dispatch_controls env now job run item db = (x, db1)" for job run x db1
    using kept_enforce[OF assms, of env now job run] that by simp
  have mk: "P db2"
    if "on_store_unit (mark_run_running (di_job_id item) r t e u) db1 = (x, db2)" "P db1" for r t e u x db1 db2
    using kept_ops(7)[OF that(2), of r t e u] snd_on_store_unit assms(1) that(1) by (metis snd_conv)
  show ?thesis
  proof (cases "get_job (di_job_id item) db")
    case (Some job)
    note jb = this
    show ?thesis
    proof (cases "get_run (di_run_id item) db")
      case (Some run)
      obtain x db1 where e: "enforce_pre_dispatch_controls env now job run item db = (x, db1)" by fastforce
      note db1 = en[OF e]
      obtain y db2 where m: "on_store_unit (mark_run_running (di_job_id item) (di_run_id item) (di_owner_token item)
          (di_lease_epoch item) (ae_rfc3339 env now)) db1 = (y, db2)" by fastforce
      note db2 = mk[OF m db1]
      show ?thesis
        using db1 job[OF db2] db2
        by (cases x; cases "case x of Inr z \<Rightarrow> z | Inl _ \<Rightarrow> None"; cases y)
          (simp_all add: dispatch_autonomy_item_def jb Some e m)
    qed (use jb assms(2) in \<open>simp add: dispatch_autonomy_item_def\<close>)
  qed (use assms(2) in \<open>simp add: dispatch_autonomy_item_def\<close>)
qed

lemma kept_prepare:
  assumes "jb_id job = i" "P db"
  shows "P (snd (prepare_dispatch env cfg job now run_id owner_token db))"
proof -
  have acq: "P db1" if "on_store (acquire_lease i r oi t l x) db = (y, db1)" for r oi t l x y db1
    using kept_ops(8)[OF assms(2), of r oi t l x] snd_on_store that by (metis snd_conv)
  have reb: "P db2" if "on_store_unit (rebind_run_owner r i oi t e u) db1 = (y, db2)" "P db1" for r oi t e u y db1 db2
    using kept_ops(9)[OF that(2), of r oi t e u] snd_on_store_unit that(1) by (metis snd_conv)
  have ins: "P db2" if q: "on_store_unit (insert_run q) db1 = (y, db2)" "P db1" "nr_job_id q = i" for q y db1 db2
  proof -
    have "P (store_step db1 (OpInsertRun q))" using q(2,3) by (intro kept) simp_all
    then show ?thesis using q(1) snd_on_store_unit[of "insert_run q" db1] by simp
  qed
  have new: "nr_job_id (scheduled_run env job now r t e a) = i" for r t e a
    using assms(1) by (simp add: scheduled_run_def)
  show ?thesis
  proof (cases "ae_add_seconds env now (u64_as_i64 (rc_lease_ttl cfg div 1000000000))")
    case (Some expires)
    obtain y db1 where a: "on_store (acquire_lease (jb_id job) run_id (ae_owner_identity env) owner_token
        (ae_rfc3339 env now) (ae_rfc3339 env expires)) db = (y, db1)" by fastforce
    have db1: "P db1" using acq[OF a[unfolded assms(1)]] .
    show ?thesis
    proof (cases "case y of Inr z \<Rightarrow> z | Inl _ \<Rightarrow> None")
      case None
      then show ?thesis using db1 by (cases y) (simp_all add: prepare_dispatch_def Some a)
    next
      case lease: (Some lease)
      then have y: "y = Inr (Some lease)" by (cases y) simp_all
      show ?thesis
      proof (cases "get_run_by_side_effect_key (correlation_key job) db1")
        case None
        obtain z db2 where "on_store_unit (insert_run (scheduled_run env job now run_id owner_token (al_lease_epoch lease)
            (next_attempt (jb_id job) db1))) db1 = (z, db2)" by fastforce
        with ins[OF this db1 new] None show ?thesis by (cases z) (simp_all add: prepare_dispatch_def Some a y)
      next
        case ex: (Some existing)
        obtain z db2 where r: "on_store_unit (rebind_run_owner (ru_id existing) (jb_id job) (ae_owner_identity env) owner_token
            (al_lease_epoch lease) (ae_rfc3339 env now)) db1 = (z, db2)" by fastforce
        with reb[OF r[unfolded assms(1)] db1] ex show ?thesis by (cases z) (simp_all add: prepare_dispatch_def Some a y)
      qed
    qed
  qed (use assms(2) in \<open>simp add: prepare_dispatch_def\<close>)
qed

end

interpretation ledger_kept: kept_by_statements autonomy_db_ok k for k
  by unfold_locales (rule store_step_ok)

lemma owner_tx_jobs:
  assumes "\<And>d. bt_get (adb_jobs (rest d)) i = bt_get (adb_jobs d) i"
  shows "bt_get (adb_jobs (tx_db db (owner_tx k r t e st f rest db))) i = bt_get (adb_jobs db) i"
  using assms by (auto simp: owner_tx_def split: option.splits)

lemma statement_other_job:
  assumes "statement_for k op" "k \<noteq> i" "get_job i db = Some j"
  shows "get_job i (store_step db op) = Some j"
proof -
  have own: "bt_get (adb_jobs (tx_db db (owner_tx k r t e st f (\<lambda>d. set_job k g (delete_lease k t e d)) db))) i = Some j"
    "bt_get (adb_jobs (tx_db db (owner_tx k r t e st f (set_job k g) db))) i = Some j" for r t e st f g
    using assms(2,3) by (simp_all add: owner_tx_jobs get_job_def)
  show ?thesis
    using assms own
    by (cases op) (auto simp: owner_tx_defs insert_job_def insert_run_def rebind_run_owner_def acquire_lease_def
        insert_notification_def get_job_def bt_contains_def Let_def split: option.splits if_splits)
qed

lemma run_origin:
  assumes "get_run r (store_step db op) = Some run'"
  shows "(\<exists>run. get_run r db = Some run \<and> ru_job_id run' = ru_job_id run) \<or>
    (\<exists>q. op = OpInsertRun q \<and> ru_job_id run' = nr_job_id q)"
proof (cases "get_run r db")
  case (Some run)
  with step_moves[of db r run op] assms show ?thesis by (auto simp: get_run_def run_moves_def same_run_def)
next
  case None
  have "bt_get (adb_runs (tx_db db (owner_tx a b c d st f rest db))) r = None" if "\<And>d. adb_runs (rest d) = adb_runs d"
    for a b c d st f rest
    using None that by (auto simp: owner_tx_def get_run_def split: option.splits)
  note own = this
  have "\<exists>q. op = OpInsertRun q"
    using assms None
    by (cases op) (auto simp: owner_tx_defs own insert_job_def rebind_run_owner_def acquire_lease_def renew_autonomy_lease_def
        approve_run_def insert_suppression_def upsert_policy_def insert_notification_def get_run_def Let_def
        split: option.splits if_splits)
  then obtain q where op: "op = OpInsertRun q" by blast
  with assms None have "run' = inserted_run q" by (auto simp: insert_run_def get_run_def split: if_splits)
  with op show ?thesis by (simp add: inserted_run_def)
qed

text \<open>Job \<open>i\<close> has row \<open>j\<close>, and no run in \<open>A\<close> belongs to it.\<close>

definition left_alone :: "string \<Rightarrow> autonomy_job_row \<Rightarrow> string set \<Rightarrow> autonomy_db \<Rightarrow> bool" where
  "left_alone i j A db \<longleftrightarrow> get_job i db = Some j \<and> (\<forall>r \<in> A. \<forall>run. get_run r db = Some run \<longrightarrow> ru_job_id run \<noteq> i)"

interpretation alone: kept_by_statements "\<lambda>db. k \<noteq> i \<longrightarrow> left_alone i j A db" k for k i j A
proof
  fix op db assume st: "statement_for k op" and alone: "k \<noteq> i \<longrightarrow> left_alone i j A db"
  show "k \<noteq> i \<longrightarrow> left_alone i j A (store_step db op)"
  proof
    assume "k \<noteq> i"
    with alone have la: "left_alone i j A db" by simp
    have "ru_job_id run' \<noteq> i" if "r \<in> A" "get_run r (store_step db op) = Some run'" for r run'
      using run_origin[OF that(2)] la that(1) st \<open>k \<noteq> i\<close> by (auto simp: left_alone_def)
    with la statement_other_job[OF st \<open>k \<noteq> i\<close>] show "left_alone i j A (store_step db op)" by (simp add: left_alone_def)
  qed
qed

definition no_item_for :: "string \<Rightarrow> autonomy_service \<Rightarrow> bool" where
  "no_item_for i s \<longleftrightarrow> (\<forall>item \<in> set (av_channel s) \<union> set (av_in_flight s). di_job_id item \<noteq> i)"

definition parked_inv :: "string \<Rightarrow> autonomy_job_row \<Rightarrow> string set \<Rightarrow> autonomy_service \<Rightarrow> bool" where
  "parked_inv i j A s \<longleftrightarrow> autonomy_db_ok (av_db s) \<and> left_alone i j A (av_db s) \<and> no_item_for i s"

lemma parked_inv_upd [simp]:
  "parked_inv i j A (s\<lparr>av_blocked_due_jobs := k\<rparr>) = parked_inv i j A s"
  "parked_inv i j A (s\<lparr>av_scheduler_running := b\<rparr>) = parked_inv i j A s"
  by (simp_all add: parked_inv_def no_item_for_def)

lemma reserve_slot_fields:
  assumes "reserve_slot a s = (b, s1)"
  shows "av_db s1 = av_db s" "av_channel s1 = av_channel s" "av_in_flight s1 = av_in_flight s"
  using assms by (auto simp: reserve_slot_def Let_def split: if_splits)

lemma prepare_item_job:
  assumes "prepare_dispatch env cfg job now r t db = (Inr (Some item), db')"
  shows "di_job_id item = jb_id job"
  using assms by (simp add: prepare_dispatch_def dispatch_item_of_def split: option.splits sum.splits prod.splits)
    (auto simp: dispatch_item_of_def)

lemma schedule_job_parked:
  assumes "parked_inv i j A s" "jb_id job \<noteq> i"
  shows "parked_inv i j A (schedule_job env now ids s job)"
proof -
  obtain b s1 where res: "reserve_slot (jb_agent_id job) s = (b, s1)" by fastforce
  note f = reserve_slot_fields[OF res]
  obtain pr db' where prep: "prepare_dispatch env (av_config s1) job now (fst (ids (jb_id job))) (snd (ids (jb_id job))) (av_db s1) = (pr, db')"
    by fastforce
  have ok: "autonomy_db_ok db'" "left_alone i j A db'"
    using ledger_kept.kept_prepare[of job "jb_id job" "av_db s" env "av_config s1" now "fst (ids (jb_id job))" "snd (ids (jb_id job))"]
      alone.kept_prepare[of job "jb_id job" i j A "av_db s" env "av_config s1" now "fst (ids (jb_id job))" "snd (ids (jb_id job))"]
      assms prep by (simp_all add: parked_inv_def f)
  have rel: "parked_inv i j A (release_slot a (s1\<lparr>av_db := db'\<rparr>))" for a
    using ok assms(1) by (simp add: parked_inv_def no_item_for_def f)
  have sent: "parked_inv i j A s2" if "try_send item (s1\<lparr>av_db := db'\<rparr>) = Some s2" "di_job_id item \<noteq> i" for item s2
    using ok assms(1) that by (auto simp: parked_inv_def no_item_for_def f try_send_def split: if_splits)
  have item: "di_job_id item \<noteq> i" if "pr = Inr (Some item)" for item
    using prepare_item_job prep that assms(2) by metis
  show ?thesis
  proof (cases "av_scheduler_running s \<and> b")
    case run: True
    show ?thesis
    proof (cases pr)
      case (Inl e)
      have "parked_inv i j A (s1\<lparr>av_db := db', av_scheduler_running := False,
          av_lost_slots := av_lost_slots s1 @ [jb_agent_id job]\<rparr>)"
        using ok assms(1) by (simp add: parked_inv_def no_item_for_def f)
      then show ?thesis using rel run by (cases e) (simp_all add: schedule_job_def res prep Inl)
    next
      case (Inr it)
      then show ?thesis
        using rel run sent item by (cases it) (simp_all add: schedule_job_def res prep Inr Let_def split: option.split)
    qed
  next
    case False
    then show ?thesis
      using assms(1) by (cases b) (auto simp: schedule_job_def res parked_inv_def no_item_for_def f)
  qed
qed

lemma due_not_parked:
  assumes "autonomy_db_ok db" "get_job i db = Some j" "job_parked j" "job \<in> set (select_due_jobs now limit db)"
  shows "jb_id job \<noteq> i"
proof
  assume "jb_id job = i"
  have "job \<in> set (filter (job_due now) (bt_values (adb_jobs db)))"
    using assms(4) by (auto simp: select_due_jobs_def dest!: in_set_takeD)
  then obtain k where "bt_get (adb_jobs db) k = Some job" "job_due now job" by (auto simp: bt_values_iff)
  with assms(1) \<open>jb_id job = i\<close> have "get_job i db = Some job" "job_due now job"
    by (auto simp: autonomy_db_ok_def jobs_ok_def job_ok_def get_job_def)
  with assms(2,3) show False by (auto simp: job_parked_def job_due_def)
qed

lemma scheduler_tick_parked:
  assumes "parked_inv i j A s" "job_parked j"
  shows "parked_inv i j A (scheduler_tick env killed now ids s)"
proof -
  have fold: "parked_inv i j A (foldl (schedule_job env now ids) t jobs)"
    if "parked_inv i j A t" "\<forall>job \<in> set jobs. jb_id job \<noteq> i" for t jobs
    using that by (induction jobs arbitrary: t) (simp_all add: schedule_job_parked)
  have "\<forall>job \<in> set (select_due_jobs (ae_rfc3339 env now) limit (av_db s)). jb_id job \<noteq> i" for limit
    using due_not_parked[of "av_db s" i j _ "ae_rfc3339 env now" limit] assms by (simp add: parked_inv_def left_alone_def)
  with assms fold show ?thesis by (simp add: scheduler_tick_def)
qed

lemma worker_steps_parked:
  assumes "parked_inv i j A s"
  shows "parked_inv i j A (worker_take s)" "parked_inv i j A (worker_dispatch env now fresh k s)"
proof -
  show "parked_inv i j A (worker_take s)"
    using assms by (auto simp: worker_take_def parked_inv_def no_item_for_def split: list.split)
  show "parked_inv i j A (worker_dispatch env now fresh k s)"
  proof (cases "k < length (av_in_flight s)")
    case True
    let ?item = "av_in_flight s ! k"
    obtain res db' effs where d: "dispatch_autonomy_item env now fresh ?item (av_db s) = (res, db', effs)" by (metis prod_cases3)
    have "di_job_id ?item \<noteq> i" using assms True by (simp add: parked_inv_def no_item_for_def)
    then have ok: "autonomy_db_ok db'" "left_alone i j A db'"
      using ledger_kept.kept_dispatch[of ?item "di_job_id ?item" "av_db s" env now fresh]
        alone.kept_dispatch[of ?item "di_job_id ?item" i j A "av_db s" env now fresh] assms d
      by (simp_all add: parked_inv_def)
    have sub: "set (take k (av_in_flight s) @ drop (Suc k) (av_in_flight s)) \<subseteq> set (av_in_flight s)"
      by (auto dest: in_set_takeD in_set_dropD)
    show ?thesis
      using ok assms sub True by (auto simp: worker_dispatch_def d Let_def parked_inv_def no_item_for_def)
  qed (use assms in \<open>simp add: worker_dispatch_def\<close>)
qed

text \<open>The runs that a sequence of events approves.\<close>

fun approved_runs :: "autonomy_event list \<Rightarrow> string set" where
  "approved_runs [] = {}"
| "approved_runs (ApproveRun env now r ttl actor # es) = insert r (approved_runs es)"
| "approved_runs (_ # es) = approved_runs es"

lemma approve_parked:
  assumes "parked_inv i j A s" "r \<in> A"
  shows "parked_inv i j A (s\<lparr>av_db := snd (service_approve_run env now r ttl actor (av_db s))\<rparr>)"
proof (cases "ae_add_seconds env now (u64_as_i64 ttl)")
  case (Some expires)
  let ?op = "OpApprove r actor (ae_rfc3339 env expires) (ae_rfc3339 env now)"
  have db: "snd (service_approve_run env now r ttl actor (av_db s)) = store_step (av_db s) ?op"
    using snd_on_store[of "approve_run r actor (ae_rfc3339 env expires) (ae_rfc3339 env now)" "av_db s"]
    by (cases "on_store (approve_run r actor (ae_rfc3339 env expires) (ae_rfc3339 env now)) (av_db s)";
        cases "fst (on_store (approve_run r actor (ae_rfc3339 env expires) (ae_rfc3339 env now)) (av_db s))")
      (simp_all add: service_approve_run_def Some del: snd_on_store)
  have "autonomy_db_ok (store_step (av_db s) ?op)" by (rule store_step_ok) (use assms(1) in \<open>simp add: parked_inv_def\<close>)
  moreover have "left_alone i j A (store_step (av_db s) ?op)"
  proof -
    have la: "left_alone i j A (av_db s)" using assms(1) by (simp add: parked_inv_def)
    have "get_job i (store_step (av_db s) ?op) = Some j"
    proof (cases "get_run r (av_db s)")
      case (Some run)
      with la assms(2) have "ru_job_id run \<noteq> i" by (auto simp: left_alone_def)
      with la Some show ?thesis by (simp add: left_alone_def approve_run_def get_job_def)
    qed (use la in \<open>simp add: left_alone_def approve_run_def\<close>)
    moreover have "ru_job_id run' \<noteq> i" if "q \<in> A" "get_run q (store_step (av_db s) ?op) = Some run'" for q run'
      using run_origin[OF that(2)] la that(1) by (auto simp: left_alone_def)
    ultimately show ?thesis unfolding left_alone_def by blast
  qed
  ultimately show ?thesis using assms(1) by (simp add: db parked_inv_def no_item_for_def)
qed (use assms(1) in \<open>simp add: service_approve_run_def\<close>)

lemma admin_parked:
  assumes "parked_inv i j A s" "\<exists>p. op = OpUpsertPolicy p \<or> (\<exists>u. op = OpSuppress u)"
  shows "parked_inv i j A (s\<lparr>av_db := store_step (av_db s) op\<rparr>)"
proof -
  have "adb_jobs (store_step (av_db s) op) = adb_jobs (av_db s)" "adb_runs (store_step (av_db s) op) = adb_runs (av_db s)"
    using assms(2) by (auto simp: upsert_policy_def insert_suppression_def Let_def)
  with assms(1) store_step_ok[of "av_db s" op] show ?thesis
    by (simp add: parked_inv_def no_item_for_def left_alone_def get_job_def get_run_def)
qed

lemma service_step_parked:
  assumes "parked_inv i j A s" "job_parked j" "approved_runs [e] \<subseteq> A"
  shows "parked_inv i j A (service_step s e)"
proof (cases e)
  case (PutPolicy env now kind key policy)
  show ?thesis
    unfolding PutPolicy service_step.simps put_policy_document_def snd_on_store_unit store_step.simps(13)[symmetric]
    by (rule admin_parked[OF assms(1)]) blast
next
  case (Suppress env now fresh kind key fp reason ex actor meta)
  show ?thesis
    unfolding Suppress service_step.simps create_suppression_def snd_on_store_unit store_step.simps(12)[symmetric]
    by (rule admin_parked[OF assms(1)]) blast
qed (use assms in \<open>simp_all add: scheduler_tick_parked worker_steps_parked approve_parked\<close>)

lemma parked_run:
  assumes "parked_inv i j A s" "job_parked j" "approved_runs es \<subseteq> A"
  shows "parked_inv i j A (foldl service_step s es)"
  using assms
proof (induction es arbitrary: s)
  case (Cons e es)
  have "approved_runs [e] \<subseteq> A" "approved_runs es \<subseteq> A" using Cons.prems(3) by (cases e; simp)+
  with Cons show ?case by (simp add: service_step_parked)
qed simp

text \<open>
  A job that is leased, running, paused, quarantined, done or waiting for a manual review, and of
  which no item is queued or being dispatched, stays as it is for ever: no number of ticks,
  dispatches, policy changes or expired leases makes the scheduler take it up again. Only an
  approval of one of its own runs does.
\<close>

theorem parked_job_stays:
  assumes "autonomy_db_ok (av_db s)" "get_job i (av_db s) = Some j" "job_parked j" "no_item_for i s"
    and "\<forall>r \<in> approved_runs es. \<forall>run. get_run r (av_db s) = Some run \<longrightarrow> ru_job_id run \<noteq> i"
  shows "get_job i (av_db (foldl service_step s es)) = Some j \<and> no_item_for i (foldl service_step s es)"
  using parked_run[of i j "approved_runs es" s es] assms by (simp add: parked_inv_def left_alone_def)

end
