(* ===== verification/Autonomy_Cycle.thy ===== *)
theory Autonomy_Cycle
  imports Autonomy_Service
begin

section \<open>One cycle of an autonomy job\<close>

text \<open>
  What becomes of a due job from its lease to the end of its dispatch: approvals, retries and
  payloads that cannot be read. The properties compose the statements of \<open>Autonomy_Store\<close> with the
  functions of \<open>Autonomy\<close> and the scheduler of \<open>Autonomy_Service\<close>.
\<close>

lemma leased_job_keeps [simp]:
  "jb_job_type (leased_job r l j) = jb_job_type j" "jb_payload_json (leased_job r l j) = jb_payload_json j"
  "jb_id (leased_job r l j) = jb_id j" "jb_approval_policy (leased_job r l j) = jb_approval_policy j"
  "jb_retry_policy_json (leased_job r l j) = jb_retry_policy_json j" "jb_agent_id (leased_job r l j) = jb_agent_id j"
  by (simp_all add: leased_job_def)

lemma acquire_cases:
  assumes "acquire_lease k r oi t l x db = Inr (Some lease, db')"
  obtains j row where "get_job k db = Some j"
    "db' = set_job k (leased_job r l) (db\<lparr>adb_leases := bt_insert k row (adb_leases db)\<rparr>)"
    "le_owner_token row = t" "le_lease_epoch row = al_lease_epoch lease"
  using assms by (auto simp: acquire_lease_def Let_def split: if_splits option.splits)

lemma same_runs_queries:
  assumes "adb_runs db' = adb_runs db"
  shows "get_run_by_side_effect_key k db' = get_run_by_side_effect_key k db" "next_attempt i db' = next_attempt i db"
    "get_run r db' = get_run r db"
  using assms by (simp_all add: get_run_by_side_effect_key_def next_attempt_def latest_run_for_job_def
      list_runs_for_job_def runs_for_job_def get_run_def)

text \<open>Leasing a job whose side-effect key is new: a new run, and the job's row is leased.\<close>

lemma prepare_new_run:
  assumes "prepare_dispatch env cfg job now r t db = (Inr (Some item), db')"
    and "get_run_by_side_effect_key (correlation_key job) db = None"
  obtains e j where "item = dispatch_item_of job r t e" "get_run r db = None" "get_job (jb_id job) db = Some j"
    "adb_runs db' = bt_insert r (inserted_run (scheduled_run env job now r t e (next_attempt (jb_id job) db))) (adb_runs db)"
    "get_job (jb_id job) db' = Some (leased_job r (ae_rfc3339 env now) j)"
    "\<exists>row. get_lease (jb_id job) db' = Some row \<and> le_owner_token row = t \<and> le_lease_epoch row = e"
proof -
  obtain expires where ex: "ae_add_seconds env now (u64_as_i64 (rc_lease_ttl cfg div 1000000000)) = Some expires"
    using assms(1) by (cases "ae_add_seconds env now (u64_as_i64 (rc_lease_ttl cfg div 1000000000))")
      (simp_all add: prepare_dispatch_def)
  let ?acq = "acquire_lease (jb_id job) r (ae_owner_identity env) t (ae_rfc3339 env now) (ae_rfc3339 env expires) db"
  obtain lease db1 where a: "?acq = Inr (Some lease, db1)"
    using assms(1) by (cases ?acq) (auto simp: prepare_dispatch_def ex on_store_def split: prod.splits option.splits)
  obtain j row where j: "get_job (jb_id job) db = Some j"
    and db1: "db1 = set_job (jb_id job) (leased_job r (ae_rfc3339 env now))
      (db\<lparr>adb_leases := bt_insert (jb_id job) row (adb_leases db)\<rparr>)"
    and row: "le_owner_token row = t" "le_lease_epoch row = al_lease_epoch lease"
    by (rule acquire_cases[OF a])
  have runs: "adb_runs db1 = adb_runs db" by (simp add: db1)
  note q = same_runs_queries[OF runs]
  let ?run = "scheduled_run env job now r t (al_lease_epoch lease) (next_attempt (jb_id job) db)"
  have eq: "prepare_dispatch env cfg job now r t db =
    (case on_store_unit (insert_run ?run) db1 of
       (Inl e, db2) \<Rightarrow> (Inl e, db2)
     | (Inr _, db2) \<Rightarrow> (Inr (Some (dispatch_item_of job r t (al_lease_epoch lease))), db2))"
    using assms(2) by (simp add: prepare_dispatch_def ex on_store_def a q)
  have ins: "insert_run ?run db1 = Inr ((), db') \<and> item = dispatch_item_of job r t (al_lease_epoch lease)"
  proof (cases "insert_run ?run db1")
    case (Inr y)
    with assms(1) eq show ?thesis by (cases y) (simp add: on_store_unit_def on_store_def)
  qed (use assms(1) eq in \<open>simp add: on_store_unit_def on_store_def\<close>)
  then have db': "db' = db1\<lparr>adb_runs := bt_insert r (inserted_run ?run) (adb_runs db1)\<rparr>" "\<not> bt_contains (adb_runs db1) r"
    by (auto simp: insert_run_def scheduled_run_def split: if_splits)
  show thesis
    by (rule that[of "al_lease_epoch lease" j])
      (use ins db' j row in \<open>simp_all add: db1 get_run_def get_job_def get_lease_def bt_contains_def\<close>)
qed

subsection \<open>Approvals\<close>

lemma owner_tx_other_run:
  assumes "i \<noteq> r" "\<And>d. adb_runs (rest d) = adb_runs d"
  shows "get_run i (tx_db db (owner_tx k r t e st f rest db)) = get_run i db"
  using assms by (auto simp: owner_tx_def get_run_def split: option.splits)

lemma ends_other_run:
  assumes "i \<noteq> di_run_id item"
  shows "get_run i (snd (enforce_pre_dispatch_controls env now job run item db)) = get_run i db"
proof -
  have own: "get_run i (tx_db d (finish_autonomy_run k (di_run_id item) t e fi d)) = get_run i d"
    "get_run i (tx_db d (complete_run_and_requeue k (di_run_id item) t e cf d)) = get_run i d"
    "get_run i (tx_db d (defer_run k (di_run_id item) t e df d)) = get_run i d" for d k t e fi cf df
    unfolding owner_tx_defs using assms by (intro owner_tx_other_run; simp)+
  show ?thesis
    by (auto simp: enforce_pre_dispatch_controls_def pause_run_def quarantine_run_def service_defer_run_def requeue_def
        complete_suppressed_def defer_for_approval_def own split: sum.splits option.splits)
qed

text \<open>
  An approval does not let the approved run go ahead. Approving a waiting run queues its job for
  the moment of the approval, and this due time is part of the key under which the scheduler looks
  for an existing run. Unless a run of the job happened to be due at that very moment, the job is
  therefore leased under a new run that needs an approval of its own: its dispatch has no effect
  and writes no notification, and the approved run stays where it was.
\<close>

theorem approval_not_taken_up:
  assumes ok: "autonomy_db_ok db"
    and appr: "service_approve_run env t r ttl actor db = (Inr x, db1)"
    and run: "get_run r db = Some run"
    and job: "get_job (ru_job_id run) db1 = Some job" "jb_approval_policy job \<noteq> AlNone"
    and key: "get_run_by_side_effect_key (correlation_key job) db1 = None"
    and prep: "prepare_dispatch env cfg job now r' tok db1 = (Inr (Some item), db2)"
    and disp: "dispatch_autonomy_item env' now' fresh item db2 = (res, db3, effs)"
  shows "due_time job = ae_rfc3339 env t \<and> di_run_id item = r' \<and> r' \<noteq> r \<and> effs = [] \<and> no_new_rows db2 db3 \<and>
    (\<exists>run'. get_run r db3 = Some run' \<and> ru_approval_state run' = ApApproved \<and> ru_state run' = ru_state run)"
proof -
  obtain expires where ex: "ae_add_seconds env t (u64_as_i64 ttl) = Some expires"
    using appr by (cases "ae_add_seconds env t (u64_as_i64 ttl)") (simp_all add: service_approve_run_def)
  have st: "approve_run r actor (ae_rfc3339 env expires) (ae_rfc3339 env t) db = Inr (True, db1)"
    using appr by (auto simp: service_approve_run_def ex on_store_def split: sum.splits prod.splits if_splits)
  obtain run1 where run1: "get_run r db1 = Some run1" "ru_approval_state run1 = ApApproved" "ru_state run1 = ru_state run"
    using st run by (auto simp: approve_run_def get_run_def split: if_splits)
  have due: "due_time job = ae_rfc3339 env t"
    using st run job(1) by (auto simp: approve_run_def get_job_def due_time_def split: if_splits)
  have "autonomy_db_ok db1"
    using store_step_ok[OF ok, of "OpApprove r actor (ae_rfc3339 env expires) (ae_rfc3339 env t)"] st by simp
  then have id: "jb_id job = ru_job_id run"
    using job(1) by (simp add: autonomy_db_ok_def jobs_ok_def job_ok_def get_job_def)
  obtain e j where item: "item = dispatch_item_of job r' tok e" and new: "get_run r' db1 = None"
    and j: "get_job (jb_id job) db1 = Some j" "get_job (jb_id job) db2 = Some (leased_job r' (ae_rfc3339 env now) j)"
    and runs: "adb_runs db2 =
      bt_insert r' (inserted_run (scheduled_run env job now r' tok e (next_attempt (jb_id job) db1))) (adb_runs db1)"
    by (rule prepare_new_run[OF prep key])
  have ne: "r' \<noteq> r" using new run1(1) by auto
  let ?job' = "leased_job r' (ae_rfc3339 env now) j"
  let ?run' = "inserted_run (scheduled_run env job now r' tok e (next_attempt (jb_id job) db1))"
  have jj: "get_job (di_job_id item) db2 = Some ?job'" "get_run (di_run_id item) db2 = Some ?run'"
    using j(2) runs by (simp_all add: item dispatch_item_of_def get_run_def)
  have "\<not> dispatch_permitted env' now' ?job' ?run' db2 policy agent_id" for policy agent_id
    using job j(1) id
    by (simp add: dispatch_permitted_def approval_required_def approval_is_valid_def inserted_run_def scheduled_run_def leased_job_def)
  then have "\<nexists>policy agent_id. dispatch_permitted env' now' ?job' ?run' db2 policy agent_id" by blast
  from dispatch_item_stopped[OF jj this] disp
  have out: "effs = []" "db3 = snd (enforce_pre_dispatch_controls env' now' ?job' ?run' item db2)"
    by (auto simp: quietly_def split: prod.splits)
  have "get_run r db3 = get_run r db2"
    unfolding out(2) by (rule ends_other_run) (use ne in \<open>simp add: item dispatch_item_of_def\<close>)
  moreover have "get_run r db2 = get_run r db1" using runs ne by (simp add: get_run_def)
  moreover have "no_new_rows db2 db3" unfolding out(2) by (rule enforce_no_new_rows)
  moreover have "di_run_id item = r'" by (simp add: item dispatch_item_of_def)
  ultimately show ?thesis using due ne out(1) run1 by auto
qed

subsection \<open>Retries\<close>

text \<open>
  Retries are counted over the life of the job and not per failure: once a job has had as many
  runs as its policy allows attempts, successful ones included, the next workflow that fails sends
  the job to a manual review without any retry.
\<close>

theorem old_runs_exhaust_retries:
  assumes prep: "prepare_dispatch env cfg job now r tok db = (Inr (Some item), db1)"
    and key: "get_run_by_side_effect_key (correlation_key job) db = None"
    and job: "get_job (jb_id job) db = Some job"
    and prev: "latest_run_for_job (jb_id job) db = Some prev" "0 \<le> ru_attempt prev" "ru_attempt prev + 1 < 2 ^ 32"
    and many: "int (rp_attempts (parse_retry_policy env (jb_retry_policy_json job))) \<le> ru_attempt prev + 1"
    and disp: "dispatch_autonomy_item env now' fresh item db1 = (res, db2, effs)"
    and wf: "ExecuteWorkflow w q \<in> set effs" "\<forall>p q body. ae_workflow_reply env p q \<noteq> WorkflowOk body"
  shows "\<exists>j. get_job (jb_id job) db2 = Some j \<and> jb_state j = StFailed \<and> jb_manual_review_required j \<and> job_parked j"
proof -
  obtain e j where item: "item = dispatch_item_of job r tok e" and new: "get_run r db = None"
    and j: "get_job (jb_id job) db = Some j" "get_job (jb_id job) db1 = Some (leased_job r (ae_rfc3339 env now) j)"
    and runs: "adb_runs db1 = bt_insert r (inserted_run (scheduled_run env job now r tok e (next_attempt (jb_id job) db))) (adb_runs db)"
    by (rule prepare_new_run[OF prep key])
  let ?job = "leased_job r (ae_rfc3339 env now) job"
  let ?run = "inserted_run (scheduled_run env job now r tok e (ru_attempt prev + 1))"
  have jj: "get_job (jb_id job) db1 = Some ?job" using j job by simp
  have rr: "get_run r db1 = Some ?run" using runs prev(1) by (simp add: get_run_def next_attempt_def)
  have it: "di_job_id item = jb_id job" "di_run_id item = r" "di_owner_token item = tok" "di_lease_epoch item = e"
    by (simp_all add: item dispatch_item_of_def)
  have act: "effs \<noteq> []" using wf(1) by auto
  obtain ps dbx where en: "enforce_pre_dispatch_controls env now' ?job ?run item db1 = (Inr (Some ps), dbx)"
    using controls_precede_effects[OF disp] act it jj rr enforce_permitted by (metis option.inject)
  have dbx: "dbx = db1" by (rule enforce_permits[OF en])
  let ?db' = "set_job (jb_id job) (\<lambda>j. j\<lparr>jb_state := StRunning, jb_last_started_at := Some (ae_rfc3339 env now'),
      jb_updated_at := ae_rfc3339 env now'\<rparr>) (db1\<lparr>adb_runs := bt_insert r (?run\<lparr>ru_state := StRunning,
      ru_started_at := Some (ae_rfc3339 env now'), ru_updated_at := ae_rfc3339 env now'\<rparr>) (adb_runs db1)\<rparr>)"
  have mark: "on_store_unit (mark_run_running (jb_id job) r tok e (ae_rfc3339 env now')) db1 = (Inr (), ?db')"
    using rr by (simp add: on_store_unit_def on_store_def mark_run_running_def owner_tx_def owns_run_def inserted_run_def
        scheduled_run_def valid_run_transition_def)
  have dj: "dispatch_job env now' fresh ?job ?run item ps ?db' = (res, db2, effs)"
    using disp by (simp add: dispatch_autonomy_item_def it jj rr en dbx mark)
  have att: "\<not> attempt_as_u32 ?run < rp_attempts (parse_retry_policy env (jb_retry_policy_json ?job))"
    using many prev(2,3) by (simp add: attempt_as_u32_def inserted_run_def scheduled_run_def leased_job_def)
  have retry: "snd (retry_or_manual_review env now' ?job ?run item cls body ?db') =
      snd (fail_to_manual_review env now' item cls body ?db')" for cls body
    using att by (simp add: retry_or_manual_review_def Let_def)
  have fail: "\<exists>j. get_job (jb_id job) (snd (fail_to_manual_review env now' item cls body ?db')) = Some j \<and>
      jb_state j = StFailed \<and> jb_manual_review_required j \<and> job_parked j" for cls body
    using jj by (simp add: fail_to_manual_review_def finish_autonomy_run_def owner_tx_def it get_run_def owns_run_def
        inserted_run_def scheduled_run_def valid_run_transition_def failed_finish_def get_job_def finished_job_def job_parked_def)
  have "jb_job_type ?job = ''workflow_trigger''"
    using dj wf(1)
    by (auto simp: dispatch_job_def dispatch_heartbeat_def dispatch_notification_def quietly_def after_effect_def Let_def
        split: if_splits option.splits prod.splits sum.splits)
  then have dw: "dispatch_workflow env now' ?job ?run item ps ?db' = (res, db2, effs)" using dj by (simp add: dispatch_job_def)
  then have "\<exists>cls body. db2 = snd (retry_or_manual_review env now' ?job ?run item cls body ?db')"
    using wf
    by (auto simp: dispatch_workflow_def quietly_def after_effect_def split: if_splits option.splits workflow_reply.splits)
  then show ?thesis using retry fail by metis
qed

subsection \<open>Heartbeats\<close>









subsection \<open>Payloads that cannot be read\<close>

text \<open>
  A workflow job whose payload cannot be read is lost: its dispatch ends with an error after the
  run was marked as running, nothing releases the job, and no later tick, dispatch or expiry of
  its lease takes it up again; it is not sent to a manual review either.
\<close>

theorem unreadable_payload_strands_job:
  assumes ok: "autonomy_db_ok (av_db s)"
    and item: "k < length (av_in_flight s)" "av_in_flight s ! k = item" "di_job_id item = i"
    and others: "\<forall>it \<in> set (av_channel s) \<union> set (take k (av_in_flight s)) \<union> set (drop (Suc k) (av_in_flight s)). di_job_id it \<noteq> i"
    and job: "get_job i (av_db s) = Some job" "jb_job_type job = ''workflow_trigger''"
      "ae_parse_workflow env (jb_payload_json job) = None" "\<not> jb_manual_review_required job"
    and run: "get_run (di_run_id item) (av_db s) = Some run" "ru_state run = StLeased"
      "owns_run i (di_owner_token item) (di_lease_epoch item) run"
    and permitted: "dispatch_permitted env now job run (av_db s) policy agent_id" "\<not> pd_draft_only policy"
      "\<not> over_budget env policy agent_id"
    and approvals: "\<forall>r \<in> approved_runs es. \<forall>q. get_run r (av_db s) = Some q \<longrightarrow> ru_job_id q \<noteq> i"
  shows "\<exists>j. get_job i (av_db (foldl service_step (worker_dispatch env now fresh k s) es)) = Some j \<and>
    jb_state j = StRunning \<and> \<not> jb_manual_review_required j"
proof -
  let ?s1 = "worker_dispatch env now fresh k s"
  let ?op = "OpMarkRunning i (di_run_id item) (di_owner_token item) (di_lease_epoch item) (ae_rfc3339 env now)"
  let ?db' = "store_step (av_db s) ?op"
  have ms: "mark_run_running i (di_run_id item) (di_owner_token item) (di_lease_epoch item) (ae_rfc3339 env now) (av_db s) =
      Inr (True, ?db')"
    using run by (simp add: mark_run_running_def owner_tx_def valid_run_transition_def)
  then have mark: "on_store_unit (mark_run_running i (di_run_id item) (di_owner_token item) (di_lease_epoch item)
      (ae_rfc3339 env now)) (av_db s) = (Inr (), ?db')"
    by (simp add: on_store_unit_def on_store_def del: store_step.simps)
  have disp: "dispatch_autonomy_item env now fresh item (av_db s) = quietly (Inl BadPayload, ?db')"
    using job permitted run mark
    by (simp add: dispatch_autonomy_item_def item(3) enforce_permitted[OF permitted(1)] dispatch_job_def dispatch_workflow_def
        del: store_step.simps)
  have s1: "av_db ?s1 = ?db'" "av_channel ?s1 = av_channel s"
    "av_in_flight ?s1 = take k (av_in_flight s) @ drop (Suc k) (av_in_flight s)"
    using item(1,2) disp by (simp_all add: worker_dispatch_def quietly_def Let_def del: store_step.simps)
  obtain j where j: "get_job i ?db' = Some j" "jb_state j = StRunning" "\<not> jb_manual_review_required j"
    using job(1,4) run by (simp add: mark_run_running_def owner_tx_def valid_run_transition_def get_job_def)
  have "parked_inv i j (approved_runs es) ?s1"
    unfolding parked_inv_def s1(1) left_alone_def
  proof (intro conjI ballI allI impI)
    show "autonomy_db_ok ?db'" by (rule store_step_ok[OF ok])
    show "get_job i ?db' = Some j" by (rule j(1))
    show "no_item_for i ?s1" using others by (auto simp: no_item_for_def s1)
    fix r q assume "r \<in> approved_runs es" "get_run r ?db' = Some q"
    with run_origin[of r "av_db s" ?op q] approvals show "ru_job_id q \<noteq> i" by auto
  qed
  from parked_run[OF this, of es] j show ?thesis by (simp add: job_parked_def parked_inv_def left_alone_def)
qed

subsection \<open>A sample job\<close>

definition auto_env :: autonomy_env where
  "auto_env =
     \<lparr>ae_rfc3339 = (\<lambda>t. if t = 5 then ''5'' else ''2''), ae_parse_rfc3339 = (\<lambda>_. None), ae_add_seconds = (\<lambda>t n. Some (t + n)),
      ae_parse_uuid = (\<lambda>s. if s = ''a'' then Some 7 else None), ae_uuid_text = (\<lambda>_. ''a''),
      ae_parse_json = (\<lambda>_. None), ae_json_text = (\<lambda>_. ''{}''), ae_number_f64 = (\<lambda>_. Finite 0),
      ae_parse_schedule = (\<lambda>_. None), ae_schedule_text = (\<lambda>_. ''s''), ae_parse_retry = (\<lambda>_. None),
      ae_retry_text = (\<lambda>_. ''p''), ae_parse_policy = (\<lambda>_. None), ae_policy_text = (\<lambda>_. ''d''),
      ae_parse_heartbeat = (\<lambda>s. if s = ''hb'' then Some \<lparr>hp_version = 1, hp_agent_id = ''a'', hp_agent_name = None,
        hp_template_name = None\<rparr> else None),
      ae_heartbeat_text = (\<lambda>_. ''hb''),
      ae_parse_workflow = (\<lambda>s. if s = ''wf'' then Some \<lparr>wp_version = 1, wp_workflow_id = ''w'', wp_input = None\<rparr> else None),
      ae_parse_notification = (\<lambda>_. None), ae_notification_text = (\<lambda>_. ''nt''), ae_why_now_text = (\<lambda>_. ''y''),
      ae_format_score = (\<lambda>_. ''0''), ae_abs_difference = (\<lambda>x y. Finite 0), ae_owner_identity = ''gw'',
      ae_quarantined = (\<lambda>_. False), ae_pullback_active = (\<lambda>_. False), ae_daily_total = (\<lambda>_. Finite 0),
      ae_convergence_file = (\<lambda>_. None), ae_workflow_reply = (\<lambda>_ _. WorkflowFailed ''{}'')\<rparr>"

definition auto_config :: autonomy_runtime_config where
  "auto_config = \<lparr>rc_poll_interval = 0, rc_lease_ttl = 0, rc_global_concurrency = 2, rc_per_agent_concurrency = 1,
     rc_max_select_per_tick = 4\<rparr>"

definition sample_job :: "string \<Rightarrow> string \<Rightarrow> approval_policy \<Rightarrow> new_autonomy_job" where
  "sample_job kind payload approval =
     \<lparr>nj_id = ''j'', nj_job_type = kind, nj_agent_id = ''a'', nj_tenant_key = ''local'', nj_workflow_id = None,
      nj_policy_scope = ''s'', nj_payload_version = 1, nj_payload_json = payload, nj_schedule_version = 1,
      nj_schedule_json = ''s'', nj_overlap_policy = OvForbid, nj_missed_run_policy = MrSkip, nj_retry_policy_json = ''p'',
      nj_initiative_mode = ImAct, nj_approval_policy = approval, nj_state = StQueued, nj_next_run_at = ''1'',
      nj_created_at = ''1'', nj_updated_at = ''1''\<rparr>"

definition sample_db :: "string \<Rightarrow> string \<Rightarrow> approval_policy \<Rightarrow> autonomy_db" where
  "sample_db kind payload approval = store_step autonomy_db_new (OpInsertJob (sample_job kind payload approval))"


definition sample_item :: autonomy_dispatch_item where
  "sample_item = \<lparr>di_job_id = ''j'', di_run_id = ''r'', di_due_at = ''1'', di_owner_token = ''t'', di_lease_epoch = 0, di_agent_id = ''a''\<rparr>"

lemma bt_values_new [simp]: "bt_values bt_new = []"
  by (simp add: bt_values_def bt_new.rep_eq)

lemma bt_values_one [simp]: "bt_values (bt_insert k v bt_new) = [v]"
  by (simp add: bt_values_def bt_insert.rep_eq bt_new.rep_eq)

lemma auto_env_eval [simp]:
  "ae_add_seconds auto_env t n = Some (t + n)" "ae_rfc3339 auto_env 5 = ''5''" "ae_rfc3339 auto_env 2 = ''2''"
  "ae_rfc3339 auto_env 6 = ''2''"
  by (simp_all add: auto_env_def)

lemmas auto_defs =
  auto_env_def auto_config_def sample_db_def sample_job_def inserted_job_def autonomy_db_new_def sample_item_def

lemmas prepare_eval =
  prepare_dispatch_def insert_job_def bt_contains_def on_store_def on_store_unit_def acquire_lease_def get_lease_def
  get_job_def get_run_by_side_effect_key_def set_job_def insert_run_def scheduled_run_def inserted_run_def
  side_effect_key_taken_def next_attempt_def latest_run_for_job_def list_runs_for_job_def runs_for_job_def
  dispatch_item_of_def due_time_def correlation_key_def leased_job_def sql_coalesce_def Let_def u64_as_i64_def

definition sample_leased :: "string \<Rightarrow> string \<Rightarrow> approval_policy \<Rightarrow> autonomy_db" where
  "sample_leased kind payload approval =
     snd (prepare_dispatch auto_env auto_config (inserted_job (sample_job kind payload approval)) 2 ''r'' ''t''
       (sample_db kind payload approval))"

lemma sample_prepare:
  "prepare_dispatch auto_env auto_config (inserted_job (sample_job kind payload approval)) 2 ''r'' ''t''
     (sample_db kind payload approval) = (Inr (Some sample_item), sample_leased kind payload approval)"
  by (simp add: sample_leased_def) (simp add: auto_defs prepare_eval)

lemma sample_db_ok: "autonomy_db_ok (sample_db kind payload approval)" "autonomy_db_ok (sample_leased kind payload approval)"
proof -
  have new: "autonomy_db_ok autonomy_db_new" using ledger_well_formed_new .
  then show db: "autonomy_db_ok (sample_db kind payload approval)" unfolding sample_db_def by (rule store_step_ok)
  show "autonomy_db_ok (sample_leased kind payload approval)"
    unfolding sample_leased_def by (rule ledger_kept.kept_prepare[OF refl db])
qed

lemma sample_leased_facts:
  "adb_policies (sample_leased kind payload approval) = []" "adb_suppressions (sample_leased kind payload approval) = []"
  "get_job ''j'' (sample_db kind payload approval) = Some (inserted_job (sample_job kind payload approval))"
  "get_job ''j'' (sample_leased kind payload approval) =
     Some (leased_job ''r'' ''2'' (inserted_job (sample_job kind payload approval)))"
  "get_run ''r'' (sample_leased kind payload approval) =
     Some (inserted_run (scheduled_run auto_env (inserted_job (sample_job kind payload approval)) 2 ''r'' ''t'' 0 0))"
  "get_run_by_side_effect_key k (sample_db kind payload approval) = None"
  by (simp_all add: sample_leased_def auto_defs prepare_eval get_run_def)

lemma sample_permitted:
  "dispatch_permitted auto_env 2 (leased_job ''r'' ''2'' (inserted_job (sample_job kind payload AlNone))) run
     (sample_leased kind payload AlNone) autonomy_policy_document_default 7"
  by (simp add: dispatch_permitted_def load_effective_policy_def get_policy_def sample_leased_facts is_suppressed_def
      list_active_suppressions_def approval_required_def autonomy_policy_document_default_def)
    (simp add: auto_defs leased_job_def)

lemma sample_budget: "\<not> over_budget auto_env autonomy_policy_document_default 7"
  by (simp add: over_budget_def auto_env_def autonomy_policy_document_default_def initiative_budget_policy_default_def f64_gt_def)

text \<open>A leased workflow job of the sample starts its workflow.\<close>

lemma workflow_started:
  fixes job :: autonomy_job_row
  defines "job \<equiv> inserted_job (sample_job ''workflow_trigger'' ''wf'' AlNone)"
  assumes "prepare_dispatch auto_env auto_config job 2 ''r'' ''t'' db = (Inr (Some sample_item), db1)"
    and "get_run_by_side_effect_key (correlation_key job) db = None" "get_job (jb_id job) db = Some job"
    and "adb_policies db1 = []" "adb_suppressions db1 = []"
    and "dispatch_autonomy_item auto_env 2 ''f'' sample_item db1 = (res, db2, effs)"
  shows "effs = [ExecuteWorkflow ''w'' ''r'']"
proof -
  obtain e j where item: "sample_item = dispatch_item_of job ''r'' ''t'' e"
    and j: "get_job (jb_id job) db = Some j" "get_job (jb_id job) db1 = Some (leased_job ''r'' (ae_rfc3339 auto_env 2) j)"
    and runs: "adb_runs db1 = bt_insert ''r'' (inserted_run (scheduled_run auto_env job 2 ''r'' ''t'' e
      (next_attempt (jb_id job) db))) (adb_runs db)"
    by (rule prepare_new_run[OF assms(2,3)])
  let ?job = "leased_job ''r'' ''2'' job"
  let ?run = "inserted_run (scheduled_run auto_env job 2 ''r'' ''t'' e (next_attempt (jb_id job) db))"
  have it: "di_job_id sample_item = jb_id job" "di_run_id sample_item = ''r''" "di_owner_token sample_item = ''t''"
    "di_lease_epoch sample_item = e" unfolding item by (simp_all add: dispatch_item_of_def)
  have jj: "get_job (jb_id job) db1 = Some ?job" "get_run ''r'' db1 = Some ?run" using j assms(4) runs by (simp_all add: get_run_def)
  have run: "ru_state ?run = StLeased" "owns_run (jb_id job) ''t'' e ?run" "ru_id ?run = ''r''"
    by (simp_all add: inserted_run_def scheduled_run_def owns_run_def)
  have perm: "dispatch_permitted auto_env 2 ?job ?run db1 autonomy_policy_document_default 7"
    by (simp add: dispatch_permitted_def load_effective_policy_def get_policy_def assms(5,6) is_suppressed_def
        list_active_suppressions_def approval_required_def autonomy_policy_document_default_def)
      (simp add: job_def auto_defs)
  obtain db' where m: "on_store_unit (mark_run_running (jb_id job) ''r'' ''t'' e ''2'') db1 = (Inr (), db')"
    using run jj(2) by (simp add: on_store_unit_def on_store_def mark_run_running_def owner_tx_def valid_run_transition_def)
  have wf: "jb_job_type job = ''workflow_trigger''"
    "ae_parse_workflow auto_env (jb_payload_json job) = Some \<lparr>wp_version = 1, wp_workflow_id = ''w'', wp_input = None\<rparr>"
    by (simp_all add: job_def auto_defs)
  from assms(7) show ?thesis
    by (simp add: dispatch_autonomy_item_def it jj enforce_permitted[OF perm] m dispatch_job_def wf dispatch_workflow_def
        sample_budget) (auto simp: autonomy_policy_document_default_def wf run(3) after_effect_def)
qed

subsection \<open>Instances\<close>


theorem controls_precede_effects_witness:
  "\<exists>res db'. dispatch_autonomy_item auto_env 2 ''f'' sample_item (sample_leased ''workflow_trigger'' ''wf'' AlNone) =
     (res, db', [ExecuteWorkflow ''w'' ''r'']) \<and>
   (\<exists>run. get_run ''r'' (sample_leased ''workflow_trigger'' ''wf'' AlNone) = Some run \<and> ru_state run = StLeased)"
proof -
  let ?db = "sample_leased ''workflow_trigger'' ''wf'' AlNone"
  let ?job = "inserted_job (sample_job ''workflow_trigger'' ''wf'' AlNone)"
  have id: "jb_id ?job = ''j''" by (simp add: auto_defs)
  obtain res db' effs where d: "dispatch_autonomy_item auto_env 2 ''f'' sample_item ?db = (res, db', effs)" by (metis prod_cases3)
  have "get_job (jb_id ?job) (sample_db ''workflow_trigger'' ''wf'' AlNone) = Some ?job" unfolding id by (rule sample_leased_facts)
  from workflow_started[OF sample_prepare sample_leased_facts(6) this sample_leased_facts(1,2) d]
  have d: "dispatch_autonomy_item auto_env 2 ''f'' sample_item ?db = (res, db', [ExecuteWorkflow ''w'' ''r''])" using d by simp
  from controls_precede_effects[OF d] show ?thesis using d by (auto simp: sample_item_def)
qed

lemma sample_approved:
  "service_approve_run auto_env 5 ''r'' 0 ''op'' (sample_leased ''workflow_trigger'' ''wf'' AlAlways) =
     (Inr ''5'', snd (service_approve_run auto_env 5 ''r'' 0 ''op'' (sample_leased ''workflow_trigger'' ''wf'' AlAlways)))"
  by (simp add: service_approve_run_def u64_as_i64_def on_store_def approve_run_def sample_leased_facts inserted_run_def
      scheduled_run_def) (simp add: auto_defs)

theorem approval_not_taken_up_witness:
  "\<exists>db1 job item db2 res db3.
     service_approve_run auto_env 5 ''r'' 0 ''op'' (sample_leased ''workflow_trigger'' ''wf'' AlAlways) = (Inr ''5'', db1) \<and>
     get_job ''j'' db1 = Some job \<and>
     prepare_dispatch auto_env auto_config job 6 ''r2'' ''t2'' db1 = (Inr (Some item), db2) \<and>
     dispatch_autonomy_item auto_env 7 ''f'' item db2 = (res, db3, []) \<and> di_run_id item = ''r2''"
proof -
  let ?db = "sample_leased ''workflow_trigger'' ''wf'' AlAlways"
  let ?db1 = "snd (service_approve_run auto_env 5 ''r'' 0 ''op'' ?db)"
  obtain job where job: "get_job ''j'' ?db1 = Some job" "jb_approval_policy job \<noteq> AlNone"
    and key: "get_run_by_side_effect_key (correlation_key job) ?db1 = None"
    and prep: "\<exists>item db2. prepare_dispatch auto_env auto_config job 6 ''r2'' ''t2'' ?db1 = (Inr (Some item), db2)"
    by (simp add: service_approve_run_def u64_as_i64_def on_store_def approve_run_def sample_leased_def get_run_def)
      (simp add: auto_defs prepare_eval get_run_def bt_insert_insert)
  obtain item db2 where p: "prepare_dispatch auto_env auto_config job 6 ''r2'' ''t2'' ?db1 = (Inr (Some item), db2)"
    using prep by blast
  obtain res db3 effs where d: "dispatch_autonomy_item auto_env 7 ''f'' item db2 = (res, db3, effs)" by (metis prod_cases3)
  let ?run = "inserted_run (scheduled_run auto_env (inserted_job (sample_job ''workflow_trigger'' ''wf'' AlAlways)) 2 ''r'' ''t'' 0 0)"
  have j: "get_job (ru_job_id ?run) ?db1 = Some job"
    using job(1) by (simp add: inserted_run_def scheduled_run_def) (simp add: auto_defs)
  from approval_not_taken_up[OF sample_db_ok(2) sample_approved sample_leased_facts(5) j job(2) key p d]
  show ?thesis using sample_approved job(1) p d by blast
qed

theorem unreadable_payload_strands_job_witness:
  "\<exists>j. get_job ''j'' (av_db (foldl service_step (worker_dispatch auto_env 2 ''f'' 0
       ((autonomy_start auto_config (sample_leased ''workflow_trigger'' ''bad'' AlNone))\<lparr>av_in_flight := [sample_item]\<rparr>))
       (replicate 3 (SchedulerTick auto_env False 9 (\<lambda>_. (''r9'', ''t9'')))))) = Some j \<and>
     jb_state j = StRunning \<and> \<not> jb_manual_review_required j"
  by (rule unreadable_payload_strands_job[where item = sample_item and
        job = "leased_job ''r'' ''2'' (inserted_job (sample_job ''workflow_trigger'' ''bad'' AlNone))" and
        run = "inserted_run (scheduled_run auto_env (inserted_job (sample_job ''workflow_trigger'' ''bad'' AlNone)) 2 ''r'' ''t'' 0 0)"
        and policy = autonomy_policy_document_default and agent_id = 7])
    (simp_all add: autonomy_start_def sample_db_ok sample_leased_facts sample_item_def sample_permitted sample_budget
      numeral_3_eq_3, simp_all add: auto_defs leased_job_def inserted_run_def scheduled_run_def owns_run_def
      autonomy_policy_document_default_def)

theorem parked_job_stays_witness:
  "get_job ''j'' (av_db (foldl service_step (autonomy_start auto_config (sample_leased ''workflow_trigger'' ''wf'' AlNone))
     (replicate 3 (SchedulerTick auto_env False 9 (\<lambda>_. (''r9'', ''t9'')))))) =
   Some (leased_job ''r'' ''2'' (inserted_job (sample_job ''workflow_trigger'' ''wf'' AlNone)))"
  using parked_job_stays[of "autonomy_start auto_config (sample_leased ''workflow_trigger'' ''wf'' AlNone)" "''j''"
      "leased_job ''r'' ''2'' (inserted_job (sample_job ''workflow_trigger'' ''wf'' AlNone))"
      "replicate 3 (SchedulerTick auto_env False 9 (\<lambda>_. (''r9'', ''t9'')))"]
  by (simp add: autonomy_start_def sample_db_ok sample_leased_facts no_item_for_def job_parked_def leased_job_def numeral_3_eq_3)

theorem slots_within_limits_witness:
  "\<exists>s. s = foldl service_step (autonomy_start auto_config (sample_db ''workflow_trigger'' ''wf'' AlNone))
         [SchedulerTick auto_env False 2 (\<lambda>_. (''r'', ''t''))] \<and>
     av_channel s = [sample_item] \<and> unat (av_queued_slots s) = 1 \<and> count_list (slot_holders s) ''a'' \<le> 2"
proof -
  let ?s = "foldl service_step (autonomy_start auto_config (sample_db ''workflow_trigger'' ''wf'' AlNone))
         [SchedulerTick auto_env False 2 (\<lambda>_. (''r'', ''t''))]"
  have c: "av_channel ?s = [sample_item] \<and> av_in_flight ?s = [] \<and> av_lost_slots ?s = [] \<and> rc_per_agent_concurrency (av_config ?s) \<le> 2"
    by (simp add: autonomy_start_def scheduler_tick_def schedule_job_def reserve_slot_def try_send_def select_due_jobs_def job_due_def
        sample_db_def)
      (simp add: auto_defs prepare_eval job_due_def schedule_job_def reserve_slot_def try_send_def bt_get_or_def)
  obtain s where s: "s = ?s" by blast
  from slots_within_limits[OF s, of "''a''" "''a''" s sample_item] c[folded s]
  have "unat (av_queued_slots s) = 1 \<and> count_list (slot_holders s) ''a'' \<le> 2"
    by auto
  with s c[folded s] show ?thesis by blast
qed

definition sample_busy_db :: autonomy_db where
  "sample_busy_db =
     store_step (sample_db ''workflow_trigger'' ''wf'' AlNone)
       (OpInsertRun (sample_new_run\<lparr>nr_id := ''old'', nr_attempt := 2, nr_state := StSucceeded\<rparr>))"

theorem old_runs_exhaust_retries_witness:
  "\<exists>db1 res db2 effs j.
     prepare_dispatch auto_env auto_config (inserted_job (sample_job ''workflow_trigger'' ''wf'' AlNone)) 2 ''r'' ''t'' sample_busy_db =
       (Inr (Some sample_item), db1) \<and>
     dispatch_autonomy_item auto_env 2 ''f'' sample_item db1 = (res, db2, effs) \<and> effs = [ExecuteWorkflow ''w'' ''r''] \<and>
     get_job ''j'' db2 = Some j \<and> jb_state j = StFailed \<and> jb_manual_review_required j"
proof -
  let ?job = "inserted_job (sample_job ''workflow_trigger'' ''wf'' AlNone)"
  let ?prev = "inserted_run (sample_new_run\<lparr>nr_id := ''old'', nr_attempt := 2, nr_state := StSucceeded\<rparr>)"
  have busy: "sample_busy_db = (sample_db ''workflow_trigger'' ''wf'' AlNone)\<lparr>adb_runs := bt_insert ''old'' ?prev bt_new\<rparr>"
    by (simp add: sample_busy_db_def sample_new_run_def) (simp add: auto_defs prepare_eval)
  obtain db1 where p: "prepare_dispatch auto_env auto_config ?job 2 ''r'' ''t'' sample_busy_db = (Inr (Some sample_item), db1)"
    and pol: "adb_policies db1 = []" "adb_suppressions db1 = []"
    unfolding busy by (simp add: sample_new_run_def) (simp add: auto_defs prepare_eval)
  have key: "get_run_by_side_effect_key (correlation_key ?job) sample_busy_db = None"
    unfolding busy by (simp add: sample_new_run_def) (simp add: auto_defs prepare_eval)
  have job: "get_job (jb_id ?job) sample_busy_db = Some ?job"
    unfolding busy by (simp add: auto_defs prepare_eval)
  have id: "jb_id ?job = ''j''" by (simp add: auto_defs)
  have prev: "latest_run_for_job (jb_id ?job) sample_busy_db = Some ?prev"
    unfolding busy id by (simp add: latest_run_for_job_def list_runs_for_job_def runs_for_job_def inserted_run_def sample_new_run_def)
  have att: "ru_attempt ?prev = 2" by (simp add: inserted_run_def)
  have pol3: "rp_attempts (parse_retry_policy auto_env (jb_retry_policy_json ?job)) = 3"
    by (simp add: parse_retry_policy_def autonomy_retry_policy_default_def auto_defs)
  obtain res db2 effs where d: "dispatch_autonomy_item auto_env 2 ''f'' sample_item db1 = (res, db2, effs)" by (metis prod_cases3)
  have "effs = [ExecuteWorkflow ''w'' ''r'']" by (rule workflow_started[OF p key job pol d])
  with old_runs_exhaust_retries[OF p key job prev, of "2" "''f''" res db2 effs "''w''" "''r''"] d att pol3 p id
  show ?thesis by (auto simp: auto_env_def)
qed

end
