(* ===== verification/Goal_Store.thy ===== *)
theory Goal_Store
  imports Ordered_Map Json_Canonical "HOL-Library.Product_Lexorder"
begin

section \<open>Goal proposals and their review\<close>

text \<open>
  The tables of migrations \<^verbatim>\<open>v017_convergence_tables.rs\<close> and \<^verbatim>\<open>v046_goal_proposal_v2.rs\<close> that hold
  proposals, and the statements of \<^verbatim>\<open>cortex-storage/src/queries/goal_proposal_queries.rs\<close> and
  \<^verbatim>\<open>goal_state_queries.rs\<close>. A proposal has a row in the old table \<^verbatim>\<open>goal_proposals\<close>, an immutable row in
  \<^verbatim>\<open>goal_proposals_v2\<close> and a list of transitions, of which the last gives its state; for every
  subject there is one lineage head. Tables with a key are maps, the transitions are a list in the
  order of their row ids. States are the texts that are stored. The triggers that forbid updates
  and deletions have no counterpart: no statement here does either.

  Parsing and writing JSON and the hash are functions of the environment; identifiers and the
  clock are arguments. A statement that violates a unique index fails, and its transaction is rolled
  back; other failures of the database are left out.
\<close>

record 'n goal_env =
  ge_parse_json :: "string \<Rightarrow> 'n json option"
  ge_json_text :: "'n json \<Rightarrow> string"
  ge_blake3_hex :: "string \<Rightarrow> string"

datatype goal_store_error =
    GsUnique
  | GsUnsupportedDecision string
  | GsJson

record new_proposal_record =
  nr_proposal_id :: string
  nr_proposal_agent_id :: string
  nr_session_id :: string
  nr_proposer_type :: string
  nr_operation :: string
  nr_target_type :: string
  nr_content :: string
  nr_cited_memory_ids :: string
  nr_decision :: string
  nr_event_hash :: byte_seq
  nr_previous_hash :: byte_seq
  nr_created_at :: "string option"
  nr_operation_id :: "string option"
  nr_request_id :: "string option"

record human_decision_preconditions =
  hd_expected_state :: string
  hd_expected_lineage_id :: string
  hd_expected_subject_key :: string
  hd_expected_reviewed_revision :: string
  hd_rationale :: "string option"
  hd_actor_id :: string
  hd_operation_id :: "string option"
  hd_request_id :: "string option"
  hd_idempotency_key :: "string option"

record 'n proposal_insert_outcome =
  po_lineage_id :: string
  po_subject_type :: string
  po_subject_key :: string
  po_reviewed_revision :: string
  po_supersedes_proposal_id :: "string option"
  po_canonical_content :: "'n json"

datatype human_decision_error =
    HdNotFound
  | HdStaleState string string
  | HdStaleLineage string string
  | HdStaleSubject string string
  | HdStaleReviewedRevision string string
  | HdStaleHead string string
  | HdStorage goal_store_error

subsection \<open>Tables\<close>

record goal_proposal_row =
  gp_id :: string
  gp_agent_id :: string
  gp_session_id :: string
  gp_proposer_type :: string
  gp_operation :: string
  gp_target_type :: string
  gp_content :: string
  gp_cited_memory_ids :: string
  gp_decision :: "string option"
  gp_resolved_at :: "string option"
  gp_resolver :: "string option"
  gp_flags :: "string option"
  gp_dimension_scores :: "string option"
  gp_denial_reason :: "string option"
  gp_event_hash :: byte_seq
  gp_previous_hash :: byte_seq
  gp_created_at :: string

record goal_v2_row =
  v2_id :: string
  v2_lineage_id :: string
  v2_subject_type :: string
  v2_subject_key :: string
  v2_reviewed_revision :: string
  v2_proposer_type :: string
  v2_proposer_id :: "string option"
  v2_agent_id :: string
  v2_session_id :: string
  v2_operation :: string
  v2_target_type :: string
  v2_content :: string
  v2_cited_memory_ids :: string
  v2_validation_disposition :: string
  v2_validation_flags :: string
  v2_validation_scores :: string
  v2_denial_reason :: "string option"
  v2_supersedes_proposal_id :: "string option"
  v2_operation_id :: "string option"
  v2_request_id :: "string option"
  v2_created_at :: string
  v2_event_hash :: byte_seq
  v2_previous_hash :: byte_seq

record goal_transition_row =
  tr_id :: string
  tr_proposal_id :: string
  tr_lineage_id :: string
  tr_from_state :: "string option"
  tr_to_state :: string
  tr_actor_type :: string
  tr_actor_id :: "string option"
  tr_reason_code :: "string option"
  tr_rationale :: "string option"
  tr_expected_state :: "string option"
  tr_expected_revision :: "string option"
  tr_operation_id :: "string option"
  tr_request_id :: "string option"
  tr_idempotency_key :: "string option"
  tr_created_at :: string

record lineage_head_row =
  lh_lineage_id :: string
  lh_head_proposal_id :: string
  lh_head_state :: string
  lh_current_revision :: string
  lh_updated_at :: string

record goal_db =
  gd_proposals :: "(string, goal_proposal_row) btree_map"
  gd_v2 :: "(string, goal_v2_row) btree_map"
  gd_transitions :: "goal_transition_row list"
  gd_heads :: "(string \<times> string, lineage_head_row) btree_map"

definition goal_db_new :: goal_db where
  "goal_db_new = \<lparr>gd_proposals = bt_new, gd_v2 = bt_new, gd_transitions = [], gd_heads = bt_new\<rparr>"

definition pending_review :: string where
  "pending_review = ''pending_review''"

text \<open>The states of the partial index \<^verbatim>\<open>idx_goal_proposal_single_terminal\<close>.\<close>

definition terminal_states :: "string list" where
  "terminal_states = [''auto_applied'', ''auto_rejected'', ''approved'', ''rejected'', ''superseded'', ''timed_out'']"

subsection \<open>Identity of a proposal\<close>

record derived_identity =
  di_lineage_id :: string
  di_subject_type :: string
  di_subject_key :: string
  di_reviewed_revision :: string
  di_supersedes_proposal_id :: "string option"

definition nonempty_field :: "string \<Rightarrow> 'n json \<Rightarrow> string option" where
  "nonempty_field k v = (case str_arg k v of Some [] \<Rightarrow> None | r \<Rightarrow> r)"

fun join_spaces :: "string list \<Rightarrow> string" where
  "join_spaces [] = []"
| "join_spaces [w] = w"
| "join_spaces (w # ws) = w @ CHR '' '' # join_spaces ws"

definition normalize_goal_text :: "string \<Rightarrow> string" where
  "normalize_goal_text goal_text = join_spaces (map (map to_ascii_lowercase) (split_whitespace goal_text))"

definition stable_lineage_id :: "'n goal_env \<Rightarrow> string \<Rightarrow> string \<Rightarrow> string" where
  "stable_lineage_id env subject_type subject_key =
     ''ln_'' @ ge_blake3_hex env (subject_type @ '':'' @ subject_key)"

definition fallback_subject_key :: "string \<Rightarrow> string \<Rightarrow> 'n json \<Rightarrow> string \<Rightarrow> string \<Rightarrow> string" where
  "fallback_subject_key operation target_type content proposal_id session_id =
     (let legacy = ''legacy:'' @ target_type @ '':'' @ session_id @ '':'' @ proposal_id
      in if operation = ''GoalChange'' then
           (case str_arg ''goal_text'' content of
              Some t \<Rightarrow> ''legacy-goal-text:'' @ normalize_goal_text t
            | None \<Rightarrow> legacy)
         else legacy)"

definition identity_of_subject :: "'n goal_env \<Rightarrow> string \<Rightarrow> 'n json \<Rightarrow> string \<Rightarrow> derived_identity" where
  "identity_of_subject env target_type content subject_key =
     \<lparr>di_lineage_id =
        (case nonempty_field ''lineage_id'' content of
           Some l \<Rightarrow> l | None \<Rightarrow> stable_lineage_id env target_type subject_key),
      di_subject_type = target_type,
      di_subject_key = subject_key,
      di_reviewed_revision =
        (case nonempty_field ''reviewed_revision'' content of Some r \<Rightarrow> r | None \<Rightarrow> ''legacy:unreviewed''),
      di_supersedes_proposal_id = str_arg ''supersedes_proposal_id'' content\<rparr>"

definition derive_identity :: "'n goal_env \<Rightarrow> string \<Rightarrow> string \<Rightarrow> 'n json \<Rightarrow> string \<Rightarrow> string \<Rightarrow> derived_identity" where
  "derive_identity env operation target_type content proposal_id session_id =
     identity_of_subject env target_type content
       (case nonempty_field ''subject_key'' content of
          Some k \<Rightarrow> k
        | None \<Rightarrow> fallback_subject_key operation target_type content proposal_id session_id)"

definition map_decision :: "string \<Rightarrow> string \<times> string" where
  "map_decision decision =
     (if decision = ''AutoApproved'' \<or> decision = ''ApprovedWithFlags'' then (''auto_apply'', ''auto_applied'')
      else if decision = ''AutoRejected'' then (''auto_reject'', ''auto_rejected'')
      else if decision = ''approved'' then (''human_review_required'', ''approved'')
      else if decision = ''rejected'' then (''human_review_required'', ''rejected'')
      else if decision = ''TimedOut'' then (''human_review_required'', ''timed_out'')
      else if decision = ''Superseded'' then (''human_review_required'', ''superseded'')
      else (''human_review_required'', pending_review))"

text \<open>The text after the first \<^verbatim>\<open>agent_id: \<close>, up to the next occurrence or a closing brace.\<close>

fun split_at_text :: "string \<Rightarrow> string \<Rightarrow> string \<Rightarrow> (string \<times> string) option" where
  "split_at_text p seen s =
     (if starts_with p s then Some (rev seen, drop (length p) s)
      else case s of [] \<Rightarrow> None | c # r \<Rightarrow> split_at_text p (c # seen) r)"

definition proposer_id :: "string \<Rightarrow> string option" where
  "proposer_id proposer_type =
     (let sep = ''agent_id: ''
      in case split_at_text sep [] proposer_type of
           None \<Rightarrow> None
         | Some (_, rest) \<Rightarrow>
             (let tail = (case split_at_text sep [] rest of Some (t, _) \<Rightarrow> t | None \<Rightarrow> rest)
              in Some (trim (hd (split_on CHR ''}'' tail)))))"

definition actor_type_for_transition :: "string \<Rightarrow> string \<Rightarrow> string" where
  "actor_type_for_transition target_state resolver =
     (if target_state \<in> {''auto_applied'', ''auto_rejected'', ''timed_out'', ''superseded''} \<or>
         eq_ignore_ascii_case resolver ''system''
      then ''system'' else ''human'')"

text \<open>\<^verbatim>\<open>Map::entry(..).or_insert_with\<close> and \<^verbatim>\<open>Map::insert\<close>.\<close>

definition field_or_insert :: "string \<Rightarrow> 'n json \<Rightarrow> (string \<times> 'n json) list \<Rightarrow> (string \<times> 'n json) list" where
  "field_or_insert k v fs = (if k \<in> fst ` set fs then fs else fs @ [(k, v)])"

definition field_insert :: "string \<Rightarrow> 'n json \<Rightarrow> (string \<times> 'n json) list \<Rightarrow> (string \<times> 'n json) list" where
  "field_insert k v fs =
     (if k \<in> fst ` set fs then map (\<lambda>(k', v'). if k' = k then (k, v) else (k', v')) fs else fs @ [(k, v)])"

fun canonicalize_content :: "'n json \<Rightarrow> derived_identity \<Rightarrow> string option \<Rightarrow> 'n json" where
  "canonicalize_content (JObject fs) idn prev =
     (let fs1 = field_or_insert ''subject_key'' (JString (di_subject_key idn)) fs;
          fs2 = field_or_insert ''lineage_id'' (JString (di_lineage_id idn)) fs1;
          fs3 = field_or_insert ''reviewed_revision'' (JString (di_reviewed_revision idn)) fs2
      in JObject (case prev of Some p \<Rightarrow> field_insert ''supersedes_proposal_id'' (JString p) fs3 | None \<Rightarrow> fs3))"
| "canonicalize_content v _ _ = v"

subsection \<open>Statements\<close>

definition load_lineage_head :: "string \<Rightarrow> string \<Rightarrow> goal_db \<Rightarrow> lineage_head_row option" where
  "load_lineage_head subject_type subject_key db = bt_get (gd_heads db) (subject_type, subject_key)"

definition load_v2_proposal :: "string \<Rightarrow> goal_db \<Rightarrow> goal_v2_row option" where
  "load_v2_proposal i db = bt_get (gd_v2 db) i"

definition proposal_transitions :: "string \<Rightarrow> goal_db \<Rightarrow> goal_transition_row list" where
  "proposal_transitions i db = filter (\<lambda>t. tr_proposal_id t = i) (gd_transitions db)"

definition proposal_state :: "string \<Rightarrow> goal_db \<Rightarrow> string option" where
  "proposal_state i db =
     (case rev (proposal_transitions i db) of [] \<Rightarrow> None | t # _ \<Rightarrow> Some (tr_to_state t))"

definition insert_transition :: "goal_transition_row \<Rightarrow> goal_db \<Rightarrow> goal_store_error + goal_db" where
  "insert_transition t db =
     (if tr_id t \<in> tr_id ` set (gd_transitions db) then Inl GsUnique
      else if tr_to_state t \<in> set terminal_states \<and>
              list_ex (\<lambda>u. tr_to_state u \<in> set terminal_states) (proposal_transitions (tr_proposal_id t) db)
           then Inl GsUnique
      else Inr (db\<lparr>gd_transitions := gd_transitions db @ [t]\<rparr>))"

definition upsert_lineage_head :: "string \<Rightarrow> string \<Rightarrow> lineage_head_row \<Rightarrow> goal_db \<Rightarrow> goal_db" where
  "upsert_lineage_head subject_type subject_key h db =
     db\<lparr>gd_heads := bt_insert (subject_type, subject_key) h (gd_heads db)\<rparr>"

text \<open>\<^verbatim>\<open>UPDATE goal_proposals SET .. WHERE id = ?1 AND resolved_at IS NULL\<close>.\<close>

definition resolve_legacy :: "string \<Rightarrow> string \<Rightarrow> string \<Rightarrow> string \<Rightarrow> goal_db \<Rightarrow> goal_db" where
  "resolve_legacy i decision resolver resolved_at db =
     db\<lparr>gd_proposals := bt_modify i
       (\<lambda>r. if gp_resolved_at r = None
            then r\<lparr>gp_decision := Some decision, gp_resolved_at := Some resolved_at, gp_resolver := Some resolver\<rparr>
            else r) (gd_proposals db)\<rparr>"

definition insert_legacy_projection ::
    "new_proposal_record \<Rightarrow> string \<Rightarrow> string \<Rightarrow> goal_db \<Rightarrow> goal_store_error + goal_db" where
  "insert_legacy_projection r content created_at db =
     (if bt_contains (gd_proposals db) (nr_proposal_id r) then Inl GsUnique
      else Inr (db\<lparr>gd_proposals := bt_insert (nr_proposal_id r)
        \<lparr>gp_id = nr_proposal_id r, gp_agent_id = nr_proposal_agent_id r, gp_session_id = nr_session_id r,
         gp_proposer_type = nr_proposer_type r, gp_operation = nr_operation r,
         gp_target_type = nr_target_type r, gp_content = content,
         gp_cited_memory_ids = nr_cited_memory_ids r, gp_decision = Some (nr_decision r),
         gp_resolved_at = None, gp_resolver = None, gp_flags = Some ''[]'', gp_dimension_scores = Some ''{}'',
         gp_denial_reason = None, gp_event_hash = nr_event_hash r, gp_previous_hash = nr_previous_hash r,
         gp_created_at = created_at\<rparr> (gd_proposals db)\<rparr>))"

definition insert_v2 :: "goal_v2_row \<Rightarrow> goal_db \<Rightarrow> goal_store_error + goal_db" where
  "insert_v2 p db =
     (if bt_contains (gd_v2 db) (v2_id p) then Inl GsUnique
      else Inr (db\<lparr>gd_v2 := bt_insert (v2_id p) p (gd_v2 db)\<rparr>))"

subsection \<open>Operations\<close>

text \<open>
  Inside a transaction an operation gives the tables it leaves, or the error for which the
  transaction is rolled back. \<open>u1\<close> and \<open>u2\<close> are the identifiers drawn for its transitions.
\<close>

definition in_transaction :: "(goal_db \<Rightarrow> 'e + 'a \<times> goal_db) \<Rightarrow> goal_db \<Rightarrow> ('e + 'a) \<times> goal_db" where
  "in_transaction f db = (case f db of Inl e \<Rightarrow> (Inl e, db) | Inr (a, db') \<Rightarrow> (Inr a, db'))"

definition superseded_head :: "string \<Rightarrow> lineage_head_row option \<Rightarrow> string option" where
  "superseded_head i head =
     (case head of
        Some h \<Rightarrow> if lh_head_proposal_id h \<noteq> i \<and> lh_head_state h = pending_review
                  then Some (lh_head_proposal_id h) else None
      | None \<Rightarrow> None)"

definition supersede_old ::
    "string \<Rightarrow> string \<Rightarrow> lineage_head_row option \<Rightarrow> string \<Rightarrow> string \<Rightarrow> goal_db \<Rightarrow> goal_store_error + goal_db" where
  "supersede_old u old_id head own_lineage created_at db =
     (case insert_transition
        \<lparr>tr_id = u, tr_proposal_id = old_id,
         tr_lineage_id = (case head of Some h \<Rightarrow> lh_lineage_id h | None \<Rightarrow> own_lineage),
         tr_from_state = Some pending_review, tr_to_state = ''superseded'', tr_actor_type = ''system'',
         tr_actor_id = None, tr_reason_code = Some ''superseded_by_new_proposal'', tr_rationale = None,
         tr_expected_state = None, tr_expected_revision = None, tr_operation_id = None,
         tr_request_id = None, tr_idempotency_key = None, tr_created_at = created_at\<rparr> db of
        Inl e \<Rightarrow> Inl e
      | Inr db1 \<Rightarrow> Inr (resolve_legacy old_id ''Superseded'' ''system'' created_at db1))"

definition created_transition :: "string \<Rightarrow> new_proposal_record \<Rightarrow> string \<Rightarrow> string \<Rightarrow> string \<Rightarrow> goal_transition_row" where
  "created_transition u r lineage state created_at =
     \<lparr>tr_id = u, tr_proposal_id = nr_proposal_id r, tr_lineage_id = lineage,
      tr_from_state = None, tr_to_state = state, tr_actor_type = ''system'',
      tr_actor_id = None, tr_reason_code = Some ''proposal_created'', tr_rationale = None,
      tr_expected_state = None, tr_expected_revision = None, tr_operation_id = nr_operation_id r,
      tr_request_id = nr_request_id r, tr_idempotency_key = None, tr_created_at = created_at\<rparr>"

definition new_v2_row ::
    "new_proposal_record \<Rightarrow> derived_identity \<Rightarrow> string \<Rightarrow> string \<Rightarrow> string option \<Rightarrow> string \<Rightarrow> goal_v2_row" where
  "new_v2_row r idn content disposition prev created_at =
     \<lparr>v2_id = nr_proposal_id r, v2_lineage_id = di_lineage_id idn, v2_subject_type = di_subject_type idn,
      v2_subject_key = di_subject_key idn, v2_reviewed_revision = di_reviewed_revision idn,
      v2_proposer_type = nr_proposer_type r, v2_proposer_id = proposer_id (nr_proposer_type r),
      v2_agent_id = nr_proposal_agent_id r, v2_session_id = nr_session_id r, v2_operation = nr_operation r,
      v2_target_type = nr_target_type r, v2_content = content,
      v2_cited_memory_ids = nr_cited_memory_ids r, v2_validation_disposition = disposition,
      v2_validation_flags = ''[]'', v2_validation_scores = ''{}'', v2_denial_reason = None,
      v2_supersedes_proposal_id = prev, v2_operation_id = nr_operation_id r, v2_request_id = nr_request_id r,
      v2_created_at = created_at, v2_event_hash = nr_event_hash r, v2_previous_hash = nr_previous_hash r\<rparr>"

definition insert_proposal_record_in_transaction ::
    "'n goal_env \<Rightarrow> string \<Rightarrow> string \<Rightarrow> string \<Rightarrow> new_proposal_record \<Rightarrow> goal_db
      \<Rightarrow> goal_store_error + 'n proposal_insert_outcome \<times> goal_db" where
  "insert_proposal_record_in_transaction env now u1 u2 r db =
     (let created_at = (case nr_created_at r of Some t \<Rightarrow> t | None \<Rightarrow> now);
          content = (case ge_parse_json env (nr_content r) of Some v \<Rightarrow> v | None \<Rightarrow> JNull);
          idn = derive_identity env (nr_operation r) (nr_target_type r) content (nr_proposal_id r) (nr_session_id r);
          (disposition, state) = map_decision (nr_decision r);
          head = load_lineage_head (di_subject_type idn) (di_subject_key idn) db;
          old = superseded_head (nr_proposal_id r) head;
          prev = (case old of Some p \<Rightarrow> Some p | None \<Rightarrow> di_supersedes_proposal_id idn);
          canonical = canonicalize_content content idn prev;
          text = ge_json_text env canonical
      in case insert_legacy_projection r text created_at db of
           Inl e \<Rightarrow> Inl e
         | Inr db1 \<Rightarrow>
        (case insert_v2 (new_v2_row r idn text disposition prev created_at) db1 of
           Inl e \<Rightarrow> Inl e
         | Inr db2 \<Rightarrow>
        (case (case old of Some p \<Rightarrow> supersede_old u1 p head (di_lineage_id idn) created_at db2 | None \<Rightarrow> Inr db2) of
           Inl e \<Rightarrow> Inl e
         | Inr db3 \<Rightarrow>
        (case insert_transition (created_transition u2 r (di_lineage_id idn) state created_at) db3 of
           Inl e \<Rightarrow> Inl e
         | Inr db4 \<Rightarrow>
             Inr (\<lparr>po_lineage_id = di_lineage_id idn, po_subject_type = di_subject_type idn,
                   po_subject_key = di_subject_key idn, po_reviewed_revision = di_reviewed_revision idn,
                   po_supersedes_proposal_id = prev, po_canonical_content = canonical\<rparr>,
                  upsert_lineage_head (di_subject_type idn) (di_subject_key idn)
                    \<lparr>lh_lineage_id = di_lineage_id idn, lh_head_proposal_id = nr_proposal_id r,
                     lh_head_state = state, lh_current_revision = di_reviewed_revision idn,
                     lh_updated_at = created_at\<rparr> db4)))))"

definition insert_proposal_record_with_outcome ::
    "'n goal_env \<Rightarrow> string \<Rightarrow> string \<Rightarrow> string \<Rightarrow> new_proposal_record \<Rightarrow> goal_db
      \<Rightarrow> (goal_store_error + 'n proposal_insert_outcome) \<times> goal_db" where
  "insert_proposal_record_with_outcome env now u1 u2 r db =
     in_transaction (insert_proposal_record_in_transaction env now u1 u2 r) db"

text \<open>The three statements that decide a proposal: transition, head, old table.\<close>

definition apply_decision ::
    "goal_transition_row \<Rightarrow> goal_v2_row \<Rightarrow> string \<Rightarrow> string \<Rightarrow> goal_db \<Rightarrow> goal_store_error + goal_db" where
  "apply_decision t p legacy_decision resolver db =
     (case insert_transition t db of
        Inl e \<Rightarrow> Inl e
      | Inr db1 \<Rightarrow>
          Inr (resolve_legacy (tr_proposal_id t) legacy_decision resolver (tr_created_at t)
                (upsert_lineage_head (v2_subject_type p) (v2_subject_key p)
                  \<lparr>lh_lineage_id = v2_lineage_id p, lh_head_proposal_id = tr_proposal_id t,
                   lh_head_state = tr_to_state t, lh_current_revision = v2_reviewed_revision p,
                   lh_updated_at = tr_created_at t\<rparr> db1)))"

definition decision_transition ::
    "string \<Rightarrow> string \<Rightarrow> goal_v2_row \<Rightarrow> string \<Rightarrow> string \<Rightarrow> string \<Rightarrow> string option \<Rightarrow> string \<Rightarrow> string \<Rightarrow> goal_transition_row" where
  "decision_transition u i p from target actor_type actor reason at =
     \<lparr>tr_id = u, tr_proposal_id = i, tr_lineage_id = v2_lineage_id p, tr_from_state = Some from,
      tr_to_state = target, tr_actor_type = actor_type, tr_actor_id = actor, tr_reason_code = Some reason,
      tr_rationale = None, tr_expected_state = Some from, tr_expected_revision = Some (v2_reviewed_revision p),
      tr_operation_id = None, tr_request_id = None, tr_idempotency_key = None, tr_created_at = at\<rparr>"

definition state_or_pending :: "string \<Rightarrow> goal_db \<Rightarrow> string" where
  "state_or_pending i db = (case proposal_state i db of Some s \<Rightarrow> s | None \<Rightarrow> pending_review)"

definition resolve_target :: "string \<Rightarrow> (string \<times> string) option" where
  "resolve_target decision =
     (if decision = ''approved'' then Some (''approved'', ''human_decision'')
      else if decision = ''rejected'' then Some (''rejected'', ''human_decision'')
      else if decision = ''AutoApproved'' \<or> decision = ''ApprovedWithFlags''
           then Some (''auto_applied'', ''legacy_auto_resolution'')
      else if decision = ''AutoRejected'' then Some (''auto_rejected'', ''legacy_auto_resolution'')
      else None)"

definition resolve_proposal_in_transaction ::
    "string \<Rightarrow> string \<Rightarrow> string \<Rightarrow> string \<Rightarrow> string \<Rightarrow> goal_db \<Rightarrow> goal_store_error + bool \<times> goal_db" where
  "resolve_proposal_in_transaction u i decision resolver resolved_at db =
     (case load_v2_proposal i db of
        None \<Rightarrow> Inr (False, db)
      | Some p \<Rightarrow>
          if state_or_pending i db \<noteq> pending_review then Inr (False, db)
          else case resolve_target decision of
            None \<Rightarrow> Inl (GsUnsupportedDecision decision)
          | Some (target, reason) \<Rightarrow>
              (case apply_decision
                 (decision_transition u i p pending_review target (actor_type_for_transition target resolver)
                    (Some resolver) reason resolved_at) p decision resolver db of
                 Inl e \<Rightarrow> Inl e
               | Inr db' \<Rightarrow> Inr (True, db')))"

definition resolve_proposal ::
    "string \<Rightarrow> string \<Rightarrow> string \<Rightarrow> string \<Rightarrow> string \<Rightarrow> goal_db \<Rightarrow> (goal_store_error + bool) \<times> goal_db" where
  "resolve_proposal u i decision resolver resolved_at db =
     in_transaction (resolve_proposal_in_transaction u i decision resolver resolved_at) db"

definition time_out_proposal_in_transaction ::
    "string \<Rightarrow> string \<Rightarrow> string \<Rightarrow> goal_db \<Rightarrow> goal_store_error + bool \<times> goal_db" where
  "time_out_proposal_in_transaction u i resolved_at db =
     (case load_v2_proposal i db of
        None \<Rightarrow> Inr (False, db)
      | Some p \<Rightarrow>
          if state_or_pending i db \<noteq> pending_review then Inr (False, db)
          else case apply_decision
                 (decision_transition u i p pending_review ''timed_out'' ''system'' None ''proposal_timeout'' resolved_at)
                 p ''TimedOut'' ''system'' db of
                 Inl e \<Rightarrow> Inl e
               | Inr db' \<Rightarrow> Inr (True, db'))"

definition time_out_proposal :: "string \<Rightarrow> string \<Rightarrow> string \<Rightarrow> goal_db \<Rightarrow> (goal_store_error + bool) \<times> goal_db" where
  "time_out_proposal u i resolved_at db = in_transaction (time_out_proposal_in_transaction u i resolved_at) db"

definition resolve_human_decision_in_transaction ::
    "string \<Rightarrow> string \<Rightarrow> string \<Rightarrow> human_decision_preconditions \<Rightarrow> string \<Rightarrow> goal_db
      \<Rightarrow> human_decision_error + unit \<times> goal_db" where
  "resolve_human_decision_in_transaction u i decision pre resolved_at db =
     (case load_v2_proposal i db of
        None \<Rightarrow> Inl HdNotFound
      | Some p \<Rightarrow>
          let state = state_or_pending i db in
          if state \<noteq> hd_expected_state pre then Inl (HdStaleState (hd_expected_state pre) state)
          else if v2_lineage_id p \<noteq> hd_expected_lineage_id pre
            then Inl (HdStaleLineage (hd_expected_lineage_id pre) (v2_lineage_id p))
          else if v2_subject_key p \<noteq> hd_expected_subject_key pre
            then Inl (HdStaleSubject (hd_expected_subject_key pre) (v2_subject_key p))
          else if v2_reviewed_revision p \<noteq> hd_expected_reviewed_revision pre
            then Inl (HdStaleReviewedRevision (hd_expected_reviewed_revision pre) (v2_reviewed_revision p))
          else case load_lineage_head (v2_subject_type p) (v2_subject_key p) db of
            None \<Rightarrow> Inl (HdStaleHead [] [])
          | Some h \<Rightarrow>
              if lh_head_proposal_id h \<noteq> i \<or> lh_head_state h \<noteq> hd_expected_state pre
              then Inl (HdStaleHead (lh_head_proposal_id h) (lh_head_state h))
              else if decision \<noteq> ''approved'' \<and> decision \<noteq> ''rejected''
              then Inl (HdStorage (GsUnsupportedDecision decision))
              else (case apply_decision
                      ((decision_transition u i p (hd_expected_state pre) decision ''human'' (Some (hd_actor_id pre))
                         ''human_decision'' resolved_at)
                       \<lparr>tr_rationale := hd_rationale pre, tr_operation_id := hd_operation_id pre,
                        tr_request_id := hd_request_id pre, tr_idempotency_key := hd_idempotency_key pre\<rparr>)
                      p decision (hd_actor_id pre) db of
                      Inl e \<Rightarrow> Inl (HdStorage e)
                    | Inr db' \<Rightarrow> Inr ((), db')))"

subsection \<open>Readers\<close>

definition created_order :: "goal_proposal_row list \<Rightarrow> goal_proposal_row list" where
  "created_order rows = sort_key gp_created_at rows"

definition query_pending :: "goal_db \<Rightarrow> goal_proposal_row list" where
  "query_pending db = created_order (filter (\<lambda>r. gp_resolved_at r = None) (bt_values (gd_proposals db)))"

definition query_by_agent :: "string \<Rightarrow> goal_db \<Rightarrow> goal_proposal_row list" where
  "query_by_agent agent_id db =
     rev (created_order (rev (filter (\<lambda>r. gp_agent_id r = agent_id) (bt_values (gd_proposals db)))))"

definition active_states :: "string set" where
  "active_states = {''approved'', ''auto_applied''}"

definition active_heads :: "string option \<Rightarrow> goal_db \<Rightarrow> ((string \<times> string) \<times> lineage_head_row) list" where
  "active_heads agent_id db =
     filter (\<lambda>(_, h). lh_head_state h \<in> active_states \<and>
        (case agent_id of
           None \<Rightarrow> True
         | Some a \<Rightarrow> bt_contains (gd_v2 db) (lh_head_proposal_id h) \<and>
             (case bt_get (gd_proposals db) (lh_head_proposal_id h) of
                None \<Rightarrow> False | Some r \<Rightarrow> gp_agent_id r = a)))
       (bt_iter (gd_heads db))"

text \<open>The count is read into 32 bits.\<close>

definition count_active_goals :: "string option \<Rightarrow> goal_db \<Rightarrow> nat" where
  "count_active_goals agent_id db = length (active_heads agent_id db)"

record active_goal_row =
  ag_goal_id :: string
  ag_source_proposal_id :: string
  ag_agent_id :: string
  ag_session_id :: string
  ag_lineage_id :: string
  ag_subject_type :: string
  ag_subject_key :: string
  ag_reviewed_revision :: string
  ag_state :: string
  ag_content :: string
  ag_created_at :: string
  ag_updated_at :: string

definition active_goal_of :: "goal_db \<Rightarrow> lineage_head_row \<Rightarrow> active_goal_row option" where
  "active_goal_of db h =
     (case (bt_get (gd_v2 db) (lh_head_proposal_id h), bt_get (gd_proposals db) (lh_head_proposal_id h)) of
        (Some p, Some r) \<Rightarrow>
          Some \<lparr>ag_goal_id = lh_lineage_id h, ag_source_proposal_id = lh_head_proposal_id h,
                ag_agent_id = gp_agent_id r, ag_session_id = gp_session_id r, ag_lineage_id = lh_lineage_id h,
                ag_subject_type = v2_subject_type p, ag_subject_key = v2_subject_key p,
                ag_reviewed_revision = v2_reviewed_revision p, ag_state = lh_head_state h,
                ag_content = v2_content p, ag_created_at = gp_created_at r, ag_updated_at = lh_updated_at h\<rparr>
      | _ \<Rightarrow> None)"

definition list_active_goals :: "string option \<Rightarrow> nat \<Rightarrow> nat \<Rightarrow> goal_db \<Rightarrow> active_goal_row list" where
  "list_active_goals agent_id limit offset db =
     take limit (drop offset (rev (sort_key ag_updated_at
       (rev (List.map_filter (\<lambda>(_, h). active_goal_of db h) (active_heads agent_id db))))))"

subsection \<open>Well-formed tables\<close>

text \<open>
  A proposal is created in some state, and one that waits for a review is decided at most once. The
  head of a subject shows the state of its proposal, and a proposal that waits for a review is the head
  of its subject. The old table records a resolution only of a proposal that is decided.
\<close>

definition proposal_history :: "string \<Rightarrow> goal_db \<Rightarrow> (string option \<times> string) list" where
  "proposal_history i db = map (\<lambda>t. (tr_from_state t, tr_to_state t)) (proposal_transitions i db)"

definition decided_at_most_once :: "(string option \<times> string) list \<Rightarrow> bool" where
  "decided_at_most_once h \<longleftrightarrow>
     (\<exists>s. h = [(None, s)] \<and> (s = pending_review \<or> s \<in> set terminal_states)) \<or>
     (\<exists>s \<in> set terminal_states. h = [(None, pending_review), (Some pending_review, s)])"

definition is_head :: "string \<Rightarrow> goal_v2_row \<Rightarrow> goal_db \<Rightarrow> bool" where
  "is_head i p db \<longleftrightarrow>
     (\<exists>h. load_lineage_head (v2_subject_type p) (v2_subject_key p) db = Some h \<and> lh_head_proposal_id h = i)"

definition head_mirrors :: "string \<times> string \<Rightarrow> lineage_head_row \<Rightarrow> goal_db \<Rightarrow> bool" where
  "head_mirrors k h db \<longleftrightarrow>
     (\<exists>p. load_v2_proposal (lh_head_proposal_id h) db = Some p \<and> k = (v2_subject_type p, v2_subject_key p) \<and>
        lh_lineage_id h = v2_lineage_id p \<and> lh_current_revision h = v2_reviewed_revision p \<and>
        proposal_state (lh_head_proposal_id h) db = Some (lh_head_state h))"

definition goal_row_ok :: "string \<Rightarrow> goal_db \<Rightarrow> bool" where
  "goal_row_ok i db \<longleftrightarrow>
     (case (bt_get (gd_v2 db) i, bt_get (gd_proposals db) i) of
        (None, None) \<Rightarrow> proposal_transitions i db = []
      | (Some p, Some r) \<Rightarrow> v2_id p = i \<and> gp_id r = i \<and> decided_at_most_once (proposal_history i db) \<and>
          (gp_resolved_at r \<noteq> None \<longrightarrow> proposal_state i db \<noteq> Some pending_review)
      | _ \<Rightarrow> False)"

definition goal_heads_ok :: "goal_db \<Rightarrow> bool" where
  "goal_heads_ok db \<longleftrightarrow>
     (\<forall>k h. bt_get (gd_heads db) k = Some h \<longrightarrow> head_mirrors k h db) \<and>
     (\<forall>i p. load_v2_proposal i db = Some p \<longrightarrow> proposal_state i db = Some pending_review \<longrightarrow> is_head i p db)"

definition goal_db_ok :: "goal_db \<Rightarrow> bool" where
  "goal_db_ok db \<longleftrightarrow> (\<forall>i. goal_row_ok i db) \<and> goal_heads_ok db"

lemma pending_not_terminal [simp]: "pending_review \<notin> set terminal_states"
  by (simp add: pending_review_def terminal_states_def)

lemma map_decision_state:
  "snd (map_decision d) = pending_review \<or> snd (map_decision d) \<in> set terminal_states"
  by (simp add: map_decision_def terminal_states_def)

lemma resolve_target_terminal: "resolve_target d = Some (s, c) \<Longrightarrow> s \<in> set terminal_states"
  by (auto simp: resolve_target_def terminal_states_def split: if_splits)

subsection \<open>What the statements change\<close>

lemma transitions_append:
  "gd_transitions db' = gd_transitions db @ us \<Longrightarrow>
   proposal_transitions i db' = proposal_transitions i db @ filter (\<lambda>t. tr_proposal_id t = i) us"
  by (simp add: proposal_transitions_def)

lemma transitions_same: "gd_transitions db' = gd_transitions db \<Longrightarrow> proposal_transitions i db' = proposal_transitions i db"
  by (simp add: proposal_transitions_def)

lemma state_of_history: "proposal_state i db = (if proposal_history i db = [] then None else Some (snd (last (proposal_history i db))))"
  by (cases "proposal_transitions i db" rule: rev_cases) (simp_all add: proposal_state_def proposal_history_def)

lemma history_state:
  assumes "decided_at_most_once (proposal_history i db)"
  shows "proposal_state i db = Some pending_review \<longleftrightarrow> proposal_history i db = [(None, pending_review)]"
    and "proposal_state i db \<noteq> None"
    and "the (proposal_state i db) = pending_review \<or> the (proposal_state i db) \<in> set terminal_states"
  using assms by (auto simp: state_of_history decided_at_most_once_def)

lemma insert_transition_effect:
  "insert_transition t db = Inr db' \<Longrightarrow> db' = db\<lparr>gd_transitions := gd_transitions db @ [t]\<rparr>"
  by (simp add: insert_transition_def split: if_splits)

text \<open>The tables after a decision of a proposal, as lookups.\<close>

lemma apply_decision_effect:
  assumes "apply_decision t p d r db = Inr db'"
  shows "gd_v2 db' = gd_v2 db"
    and "gd_transitions db' = gd_transitions db @ [t]"
    and "bt_get (gd_heads db') = (bt_get (gd_heads db))((v2_subject_type p, v2_subject_key p) \<mapsto>
          \<lparr>lh_lineage_id = v2_lineage_id p, lh_head_proposal_id = tr_proposal_id t, lh_head_state = tr_to_state t,
           lh_current_revision = v2_reviewed_revision p, lh_updated_at = tr_created_at t\<rparr>)"
    and "bt_get (gd_proposals db') j =
          (if j = tr_proposal_id t then map_option (\<lambda>row. if gp_resolved_at row = None
             then row\<lparr>gp_decision := Some d, gp_resolved_at := Some (tr_created_at t), gp_resolver := Some r\<rparr> else row)
             (bt_get (gd_proposals db) j)
           else bt_get (gd_proposals db) j)"
  using assms
  by (auto simp: apply_decision_def resolve_legacy_def upsert_lineage_head_def dest: insert_transition_effect
      split: sum.splits)

lemma state_append:
  assumes "gd_transitions db' = gd_transitions db @ [t]"
  shows "proposal_state j db' = (if j = tr_proposal_id t then Some (tr_to_state t) else proposal_state j db)"
    and "proposal_history j db' =
      proposal_history j db @ (if j = tr_proposal_id t then [(tr_from_state t, tr_to_state t)] else [])"
  using transitions_append[OF assms] by (auto simp: proposal_state_def proposal_history_def)

lemma decision_extends:
  "decided_at_most_once h \<Longrightarrow> h = [(None, pending_review)] \<Longrightarrow> s \<in> set terminal_states \<Longrightarrow>
   decided_at_most_once (h @ [(Some pending_review, s)])"
  by (auto simp: decided_at_most_once_def)

lemma goal_row_okD:
  assumes "goal_row_ok i db" "load_v2_proposal i db = Some p"
  obtains r where "bt_get (gd_proposals db) i = Some r" "v2_id p = i" "gp_id r = i"
    "decided_at_most_once (proposal_history i db)" "gp_resolved_at r \<noteq> None \<Longrightarrow> proposal_state i db \<noteq> Some pending_review"
  using assms by (cases "bt_get (gd_proposals db) i") (simp_all add: goal_row_ok_def load_v2_proposal_def)

lemma goal_row_ok_cong:
  assumes "bt_get (gd_v2 db') i = bt_get (gd_v2 db) i" "bt_get (gd_proposals db') i = bt_get (gd_proposals db) i"
    and "proposal_transitions i db' = proposal_transitions i db"
  shows "goal_row_ok i db' = goal_row_ok i db"
  unfolding goal_row_ok_def proposal_history_def proposal_state_def assms ..

lemma head_is_mirror: "goal_heads_ok db \<Longrightarrow> bt_get (gd_heads db) k = Some h \<Longrightarrow> head_mirrors k h db"
  unfolding goal_heads_ok_def by blast

lemma pending_is_head:
  "goal_heads_ok db \<Longrightarrow> load_v2_proposal i db = Some p \<Longrightarrow> proposal_state i db = Some pending_review \<Longrightarrow> is_head i p db"
  unfolding goal_heads_ok_def by blast

lemma one_head:
  assumes "goal_heads_ok db" "load_v2_proposal i db = Some p" "load_v2_proposal j db = Some q"
    and "proposal_state i db = Some pending_review" "proposal_state j db = Some pending_review"
    and "v2_subject_type p = v2_subject_type q" "v2_subject_key p = v2_subject_key q"
  shows "i = j"
  using pending_is_head[OF assms(1,2,4)] pending_is_head[OF assms(1,3,5)] assms(6,7) by (auto simp: is_head_def)

lemma apply_decision_ok:
  assumes ok: "goal_db_ok db" and v2: "load_v2_proposal i db = Some p"
    and pend: "proposal_state i db = Some pending_review"
    and t: "tr_proposal_id t = i" "tr_from_state t = Some pending_review" "tr_to_state t \<in> set terminal_states"
    and app: "apply_decision t p d r db = Inr db'"
  shows "goal_db_ok db'"
proof -
  note eff = apply_decision_effect[OF app]
  note st = state_append[OF eff(2)]
  have tr: "proposal_transitions j db' = proposal_transitions j db @ (if j = i then [t] else [])" for j
    using transitions_append[OF eff(2), of j] t(1) by simp
  have rows: "goal_row_ok j db" and heads: "goal_heads_ok db" for j using ok by (simp_all add: goal_db_ok_def)
  have new: "tr_to_state t \<noteq> pending_review" using t(3) pending_not_terminal by metis
  obtain row where row: "bt_get (gd_proposals db) i = Some row" "v2_id p = i" "gp_id row = i"
    "decided_at_most_once (proposal_history i db)"
    using goal_row_okD[OF rows v2] by metis
  have hist: "proposal_history i db = [(None, pending_review)]" using history_state(1)[OF row(4)] pend by simp
  have "goal_row_ok j db'" for j
  proof (cases "j = i")
    case True
    then show ?thesis
      using v2 row t new decision_extends[OF row(4) hist t(3)]
      by (simp add: goal_row_ok_def eff(1,4) st load_v2_proposal_def)
  next
    case False
    then show ?thesis using rows[of j] t(1) goal_row_ok_cong[of db' j db] by (simp add: eff(1,4) tr)
  qed
  moreover have "goal_heads_ok db'"
    unfolding goal_heads_ok_def
  proof (intro conjI allI impI)
    fix k h assume h: "bt_get (gd_heads db') k = Some h"
    show "head_mirrors k h db'"
    proof (cases "k = (v2_subject_type p, v2_subject_key p)")
      case True
      with h show ?thesis
        using v2 t(1) by (auto simp: eff(3) head_mirrors_def load_v2_proposal_def eff(1) st)
    next
      case False
      with h have "head_mirrors k h db" using head_is_mirror[OF heads] by (simp add: eff(3))
      moreover from this False have "lh_head_proposal_id h \<noteq> i" using v2 by (auto simp: head_mirrors_def)
      ultimately show ?thesis using t(1) by (simp add: head_mirrors_def load_v2_proposal_def eff(1) st)
    qed
  next
    fix j q assume q: "load_v2_proposal j db' = Some q" "proposal_state j db' = Some pending_review"
    then have j: "j \<noteq> i" "load_v2_proposal j db = Some q" "proposal_state j db = Some pending_review"
      using new t(1) by (auto simp: st eff(1) load_v2_proposal_def split: if_splits)
    have "\<not> (v2_subject_type p = v2_subject_type q \<and> v2_subject_key p = v2_subject_key q)"
      using one_head[OF heads v2 j(2) pend j(3)] j(1) by auto
    with pending_is_head[OF heads j(2,3)] show "is_head j q db'"
      by (auto simp: is_head_def load_lineage_head_def eff(3))
  qed
  ultimately show ?thesis by (simp add: goal_db_ok_def)
qed

text \<open>The tables after an insertion; \<open>old\<close> is the proposal that is superseded, if any.\<close>

definition inserted_proposal ::
    "new_proposal_record \<Rightarrow> goal_v2_row \<Rightarrow> string \<Rightarrow> string option \<Rightarrow> goal_db \<Rightarrow> goal_db \<Rightarrow> bool" where
  "inserted_proposal r p state old db db' \<longleftrightarrow>
     bt_get (gd_proposals db) (nr_proposal_id r) = None \<and> bt_get (gd_v2 db) (nr_proposal_id r) = None \<and>
     v2_id p = nr_proposal_id r \<and>
     old = superseded_head (nr_proposal_id r) (load_lineage_head (v2_subject_type p) (v2_subject_key p) db) \<and>
     bt_get (gd_v2 db') = (bt_get (gd_v2 db))(nr_proposal_id r \<mapsto> p) \<and>
     (\<exists>h. bt_get (gd_heads db') = (bt_get (gd_heads db))((v2_subject_type p, v2_subject_key p) \<mapsto> h) \<and>
        lh_head_proposal_id h = nr_proposal_id r \<and> lh_head_state h = state \<and>
        lh_lineage_id h = v2_lineage_id p \<and> lh_current_revision h = v2_reviewed_revision p) \<and>
     (\<forall>j. proposal_history j db' = proposal_history j db @
        (if old = Some j then [(Some pending_review, ''superseded'')] else []) @
        (if j = nr_proposal_id r then [(None, state)] else [])) \<and>
     (\<forall>j. case bt_get (gd_proposals db') j of
        None \<Rightarrow> bt_get (gd_proposals db) j = None \<and> j \<noteq> nr_proposal_id r
      | Some row' \<Rightarrow>
          if j = nr_proposal_id r then gp_id row' = j \<and> gp_resolved_at row' = None
          else (\<exists>row. bt_get (gd_proposals db) j = Some row \<and> gp_id row' = gp_id row \<and>
                 (old \<noteq> Some j \<longrightarrow> row' = row)))"

lemma superseded_headD:
  "superseded_head i head = Some o' \<Longrightarrow> o' \<noteq> i \<and> (\<exists>h. head = Some h \<and> lh_head_proposal_id h = o' \<and> lh_head_state h = pending_review)"
  by (auto simp: superseded_head_def split: option.splits if_splits)

lemma supersede_old_effect:
  assumes "supersede_old u o' head l c db = Inr db'"
  shows "gd_v2 db' = gd_v2 db" "gd_heads db' = gd_heads db"
    and "proposal_history j db' = proposal_history j db @ (if o' = j then [(Some pending_review, ''superseded'')] else [])"
    and "case bt_get (gd_proposals db') j of
        None \<Rightarrow> bt_get (gd_proposals db) j = None
      | Some row' \<Rightarrow> \<exists>row. bt_get (gd_proposals db) j = Some row \<and> gp_id row' = gp_id row \<and> (o' \<noteq> j \<longrightarrow> row' = row)"
  using assms
  by (auto simp: supersede_old_def resolve_legacy_def proposal_history_def proposal_transitions_def
      dest!: insert_transition_effect split: sum.splits option.splits if_splits)

lemma insert_proposal_effect:
  assumes "insert_proposal_record_in_transaction env now u1 u2 r db = Inr (out, db')"
  shows "\<exists>p state old. inserted_proposal r p state old db db' \<and> state = snd (map_decision (nr_decision r)) \<and>
    v2_subject_type p = po_subject_type out \<and> v2_subject_key p = po_subject_key out \<and>
    v2_lineage_id p = po_lineage_id out \<and> v2_reviewed_revision p = po_reviewed_revision out \<and>
    v2_operation p = nr_operation r"
proof -
  define created_at where "created_at = (case nr_created_at r of Some t \<Rightarrow> t | None \<Rightarrow> now)"
  define content where "content = (case ge_parse_json env (nr_content r) of Some v \<Rightarrow> v | None \<Rightarrow> JNull)"
  define idn where "idn = derive_identity env (nr_operation r) (nr_target_type r) content (nr_proposal_id r) (nr_session_id r)"
  define head where "head = load_lineage_head (di_subject_type idn) (di_subject_key idn) db"
  define old where "old = superseded_head (nr_proposal_id r) head"
  define prev where "prev = (case old of Some p \<Rightarrow> Some p | None \<Rightarrow> di_supersedes_proposal_id idn)"
  define body where "body = ge_json_text env (canonicalize_content content idn prev)"
  define p where "p = new_v2_row r idn body (fst (map_decision (nr_decision r))) prev created_at"
  define state where "state = snd (map_decision (nr_decision r))"
  note A = assms[unfolded insert_proposal_record_in_transaction_def Let_def case_prod_beta, folded created_at_def content_def,
    folded idn_def, folded head_def, folded old_def, folded prev_def, folded body_def, folded p_def state_def]
  obtain db1 db2 db3 db4 where steps:
    "insert_legacy_projection r body created_at db = Inr db1" "insert_v2 p db1 = Inr db2"
    "(case old of Some p \<Rightarrow> supersede_old u1 p head (di_lineage_id idn) created_at db2 | None \<Rightarrow> Inr db2) = Inr db3"
    "insert_transition (created_transition u2 r (di_lineage_id idn) state created_at) db3 = Inr db4"
    "db' = upsert_lineage_head (di_subject_type idn) (di_subject_key idn)
       \<lparr>lh_lineage_id = di_lineage_id idn, lh_head_proposal_id = nr_proposal_id r, lh_head_state = state,
        lh_current_revision = di_reviewed_revision idn, lh_updated_at = created_at\<rparr> db4"
    "po_subject_type out = di_subject_type idn" "po_subject_key out = di_subject_key idn"
    "po_lineage_id out = di_lineage_id idn" "po_reviewed_revision out = di_reviewed_revision idn"
    using A by (auto split: sum.splits)
  have p: "v2_id p = nr_proposal_id r" "v2_subject_type p = di_subject_type idn" "v2_subject_key p = di_subject_key idn"
    "v2_lineage_id p = di_lineage_id idn" "v2_reviewed_revision p = di_reviewed_revision idn" "v2_operation p = nr_operation r"
    by (simp_all add: p_def new_v2_row_def)
  have "inserted_proposal r p state old db db'"
  proof (cases old)
    case None
    with steps show ?thesis unfolding inserted_proposal_def
      by (auto simp: old_def head_def p insert_legacy_projection_def insert_v2_def upsert_lineage_head_def bt_contains_def
          created_transition_def proposal_history_def proposal_transitions_def
          dest!: insert_transition_effect split: if_splits option.splits)
  next
    case (Some o')
    then have ne: "o' \<noteq> nr_proposal_id r" using superseded_headD[of "nr_proposal_id r" head] by (simp add: old_def)
    from steps(3) Some have so: "supersede_old u1 o' head (di_lineage_id idn) created_at db2 = Inr db3" by simp
    have db2: "db2 = db\<lparr>gd_proposals := gd_proposals db1, gd_v2 := bt_insert (nr_proposal_id r) p (gd_v2 db)\<rparr>"
      "bt_get (gd_proposals db) (nr_proposal_id r) = None" "bt_get (gd_v2 db) (nr_proposal_id r) = None"
      "\<And>j. j \<noteq> nr_proposal_id r \<Longrightarrow> bt_get (gd_proposals db1) j = bt_get (gd_proposals db) j"
      "\<exists>row. bt_get (gd_proposals db1) (nr_proposal_id r) = Some row \<and> gp_id row = nr_proposal_id r \<and> gp_resolved_at row = None"
      using steps(1,2) by (auto simp: insert_legacy_projection_def insert_v2_def p bt_contains_def split: if_splits)
    have hist2: "proposal_history j db2 = proposal_history j db" for j
      by (simp add: db2 proposal_history_def proposal_transitions_def)
    have legacy: "case bt_get (gd_proposals db3) j of
        None \<Rightarrow> bt_get (gd_proposals db) j = None \<and> j \<noteq> nr_proposal_id r
      | Some row' \<Rightarrow>
          if j = nr_proposal_id r then gp_id row' = j \<and> gp_resolved_at row' = None
          else (\<exists>row. bt_get (gd_proposals db) j = Some row \<and> gp_id row' = gp_id row \<and> (old \<noteq> Some j \<longrightarrow> row' = row))" for j
      using supersede_old_effect(4)[OF so, of j] db2(4)[of j] db2(5) ne Some
      by (cases "j = nr_proposal_id r") (auto simp: db2(1) split: option.splits)
    from steps(4,5) have db': "gd_v2 db' = gd_v2 db3" "gd_proposals db' = gd_proposals db3"
      "gd_transitions db' = gd_transitions db3 @ [created_transition u2 r (di_lineage_id idn) state created_at]"
      "gd_heads db' = bt_insert (di_subject_type idn, di_subject_key idn)
         \<lparr>lh_lineage_id = di_lineage_id idn, lh_head_proposal_id = nr_proposal_id r, lh_head_state = state,
          lh_current_revision = di_reviewed_revision idn, lh_updated_at = created_at\<rparr> (gd_heads db3)"
      by (auto simp: upsert_lineage_head_def dest!: insert_transition_effect)
    have hist': "proposal_history j db' = proposal_history j db @ (if old = Some j then [(Some pending_review, ''superseded'')] else []) @
        (if j = nr_proposal_id r then [(None, state)] else [])" for j
      using state_append(2)[OF db'(3), of j] supersede_old_effect(3)[OF so, of j] Some
      by (simp add: hist2 created_transition_def)
    have heads': "\<exists>h. bt_get (gd_heads db') = (bt_get (gd_heads db))((v2_subject_type p, v2_subject_key p) \<mapsto> h) \<and>
        lh_head_proposal_id h = nr_proposal_id r \<and> lh_head_state h = state \<and>
        lh_lineage_id h = v2_lineage_id p \<and> lh_current_revision h = v2_reviewed_revision p"
      unfolding db' supersede_old_effect(2)[OF so] db2(1) by (rule exI, rule conjI) (simp add: p, simp add: p)
    have v2': "bt_get (gd_v2 db') = (bt_get (gd_v2 db))(nr_proposal_id r \<mapsto> p)"
      using supersede_old_effect(1)[OF so] by (simp add: db' db2(1))
    show ?thesis
      unfolding inserted_proposal_def
      by (intro conjI allI db2(2,3) p(1) v2' heads' hist' legacy[folded db'(2)]) (simp only: p old_def head_def)
  qed
  with p steps(6-9) show ?thesis by (intro exI[of _ p] exI[of _ state] exI[of _ old]) (simp add: state_def)
qed

lemma inserted_proposal_ok:
  assumes ok: "goal_db_ok db" and ins: "inserted_proposal r p state old db db'"
    and state: "state = pending_review \<or> state \<in> set terminal_states"
  shows "goal_db_ok db'"
proof -
  let ?i = "nr_proposal_id r"
  have rows: "goal_row_ok j db" and heads: "goal_heads_ok db" for j using ok by (simp_all add: goal_db_ok_def)
  have fresh: "bt_get (gd_proposals db) ?i = None" "bt_get (gd_v2 db) ?i = None" and pid: "v2_id p = ?i"
    and old: "old = superseded_head ?i (load_lineage_head (v2_subject_type p) (v2_subject_key p) db)"
    and v2': "bt_get (gd_v2 db') = (bt_get (gd_v2 db))(?i \<mapsto> p)"
    and hist': "\<And>j. proposal_history j db' = proposal_history j db @
        (if old = Some j then [(Some pending_review, ''superseded'')] else []) @
        (if j = ?i then [(None, state)] else [])"
    and legacy': "\<And>j. case bt_get (gd_proposals db') j of
        None \<Rightarrow> bt_get (gd_proposals db) j = None \<and> j \<noteq> ?i
      | Some row' \<Rightarrow> if j = ?i then gp_id row' = j \<and> gp_resolved_at row' = None
          else (\<exists>row. bt_get (gd_proposals db) j = Some row \<and> gp_id row' = gp_id row \<and> (old \<noteq> Some j \<longrightarrow> row' = row))"
    using ins unfolding inserted_proposal_def by blast+
  obtain h where heads': "bt_get (gd_heads db') = (bt_get (gd_heads db))((v2_subject_type p, v2_subject_key p) \<mapsto> h)"
    and h: "lh_head_proposal_id h = ?i" "lh_head_state h = state" "lh_lineage_id h = v2_lineage_id p"
      "lh_current_revision h = v2_reviewed_revision p"
    using ins unfolding inserted_proposal_def by blast
  have none: "proposal_history ?i db = []" using rows[of ?i] fresh by (simp add: goal_row_ok_def proposal_history_def)
  have oldD: "o' \<noteq> ?i \<and> (\<exists>q. load_v2_proposal o' db = Some q \<and> v2_subject_type q = v2_subject_type p \<and>
      v2_subject_key q = v2_subject_key p) \<and> proposal_state o' db = Some pending_review" if "old = Some o'" for o'
  proof -
    from superseded_headD[OF that[unfolded old]] obtain g where g: "o' \<noteq> ?i"
      "bt_get (gd_heads db) (v2_subject_type p, v2_subject_key p) = Some g" "lh_head_proposal_id g = o'" "lh_head_state g = pending_review"
      by (auto simp: load_lineage_head_def)
    from head_is_mirror[OF heads g(2)] g show ?thesis by (auto simp: head_mirrors_def)
  qed
  have state': "proposal_state j db' = (if j = ?i then Some state else if old = Some j then Some ''superseded'' else proposal_state j db)" for j
    using oldD[of j] none by (auto simp: state_of_history hist')
  have superseded: "''superseded'' \<in> set terminal_states" "''superseded'' \<noteq> pending_review"
    by (simp_all add: terminal_states_def pending_review_def)
  have "goal_row_ok j db'" for j
  proof -
    consider (new) "j = ?i" | (old) "old = Some j" "j \<noteq> ?i" | (other) "old \<noteq> Some j" "j \<noteq> ?i" by blast
    then show ?thesis
    proof cases
      case new
      then show ?thesis using legacy'[of j] state none pid oldD[of j]
        by (auto simp: goal_row_ok_def v2' hist' state' decided_at_most_once_def split: option.splits)
    next
      case old
      obtain q where q: "load_v2_proposal j db = Some q" "proposal_state j db = Some pending_review" using oldD[OF old(1)] by blast
      obtain row where row: "bt_get (gd_proposals db) j = Some row" "v2_id q = j" "gp_id row = j"
        "decided_at_most_once (proposal_history j db)" using goal_row_okD[OF rows q(1)] by metis
      have "proposal_history j db = [(None, pending_review)]" using history_state(1)[OF row(4)] q(2) by simp
      from decision_extends[OF row(4) this superseded(1)] show ?thesis
        using legacy'[of j] old q(1) row superseded(2)
        by (auto simp: goal_row_ok_def v2' hist' state' load_v2_proposal_def split: option.splits)
    next
      case other
      then have "length (proposal_transitions j db') = length (proposal_transitions j db)"
        using arg_cong[OF hist'[of j], of length] by (simp add: proposal_history_def)
      then show ?thesis using legacy'[of j] rows[of j] other
        by (auto simp: goal_row_ok_def v2' hist' state' split: option.splits)
    qed
  qed
  moreover have "goal_heads_ok db'"
    unfolding goal_heads_ok_def
  proof (intro conjI allI impI)
    fix k g assume g: "bt_get (gd_heads db') k = Some g"
    show "head_mirrors k g db'"
    proof (cases "k = (v2_subject_type p, v2_subject_key p)")
      case True
      with g show ?thesis using h by (simp add: heads' head_mirrors_def load_v2_proposal_def v2' state')
    next
      case False
      with g have m: "head_mirrors k g db" using head_is_mirror[OF heads] by (simp add: heads')
      with False have "lh_head_proposal_id g \<noteq> ?i" "old \<noteq> Some (lh_head_proposal_id g)"
        using fresh(2) oldD[of "lh_head_proposal_id g"] by (auto simp: head_mirrors_def load_v2_proposal_def)
      with m show ?thesis by (simp add: head_mirrors_def load_v2_proposal_def v2' state')
    qed
  next
    fix j q assume q: "load_v2_proposal j db' = Some q" "proposal_state j db' = Some pending_review"
    show "is_head j q db'"
    proof (cases "j = ?i")
      case True
      then show ?thesis using q h by (simp add: is_head_def load_lineage_head_def heads' load_v2_proposal_def v2')
    next
      case False
      with q have j: "load_v2_proposal j db = Some q" "proposal_state j db = Some pending_review" "old \<noteq> Some j"
        using superseded(2) by (auto simp: load_v2_proposal_def v2' state' split: if_splits)
      obtain g where g: "bt_get (gd_heads db) (v2_subject_type q, v2_subject_key q) = Some g" "lh_head_proposal_id g = j"
        using pending_is_head[OF heads j(1,2)] by (auto simp: is_head_def load_lineage_head_def)
      have "lh_head_state g = pending_review" using head_is_mirror[OF heads g(1)] g(2) j(2) by (auto simp: head_mirrors_def)
      then have "\<not> (v2_subject_type p = v2_subject_type q \<and> v2_subject_key p = v2_subject_key q)"
        using j(3) g False by (auto simp: old superseded_head_def load_lineage_head_def)
      with g show ?thesis by (auto simp: is_head_def load_lineage_head_def heads')
    qed
  qed
  ultimately show ?thesis by (simp add: goal_db_ok_def)
qed

subsection \<open>Runs of operations\<close>

text \<open>
  What a running gateway does to the tables. The migration that fills them from an older database runs
  before, when the database is opened; it is \<open>backfill_legacy_goal_proposals\<close> of the theory
  \<open>Goal_Review\<close>, and a start state of runs there.
\<close>

datatype 'n goal_op =
    GoInsert "'n goal_env" string string string new_proposal_record
  | GoResolve string string string string string
  | GoTimeOut string string string
  | GoHuman string string string human_decision_preconditions string

fun goal_step :: "goal_db \<Rightarrow> 'n goal_op \<Rightarrow> goal_db" where
  "goal_step db (GoInsert env now u1 u2 r) = snd (insert_proposal_record_with_outcome env now u1 u2 r db)"
| "goal_step db (GoResolve u i decision resolver at) = snd (resolve_proposal u i decision resolver at db)"
| "goal_step db (GoTimeOut u i at) = snd (time_out_proposal u i at db)"
| "goal_step db (GoHuman u i decision pre at) =
     snd (in_transaction (resolve_human_decision_in_transaction u i decision pre at) db)"

text \<open>
  An operation on well-formed tables does nothing, inserts a proposal, or decides one that waits for a
  review.
\<close>

inductive goal_change :: "goal_db \<Rightarrow> goal_db \<Rightarrow> bool" for db where
  unchanged: "goal_change db db"
| inserted: "inserted_proposal r p state old db db' \<Longrightarrow> state = snd (map_decision (nr_decision r)) \<Longrightarrow> goal_change db db'"
| decided: "load_v2_proposal i db = Some p \<Longrightarrow> proposal_state i db = Some pending_review \<Longrightarrow>
    tr_proposal_id t = i \<Longrightarrow> tr_from_state t = Some pending_review \<Longrightarrow> tr_to_state t \<in> set terminal_states \<Longrightarrow>
    apply_decision t p d r db = Inr db' \<Longrightarrow> goal_change db db'"

lemma goal_db_okD: "goal_db_ok db \<Longrightarrow> goal_row_ok i db" "goal_db_ok db \<Longrightarrow> goal_heads_ok db"
  by (simp_all add: goal_db_ok_def)

lemma known_state:
  assumes "goal_db_ok db" "load_v2_proposal i db = Some p"
  shows "proposal_state i db = Some (state_or_pending i db)"
    and "state_or_pending i db = pending_review \<or> state_or_pending i db \<in> set terminal_states"
proof -
  have "decided_at_most_once (proposal_history i db)"
    using goal_row_okD[OF goal_db_okD(1)[OF assms(1)] assms(2)] by metis
  from history_state(2,3)[OF this] show "proposal_state i db = Some (state_or_pending i db)"
    "state_or_pending i db = pending_review \<or> state_or_pending i db \<in> set terminal_states"
    by (auto simp: state_or_pending_def)
qed

lemma terminal_in_history:
  "proposal_state i db = Some s \<Longrightarrow> s \<in> set terminal_states \<Longrightarrow>
   list_ex (\<lambda>u. tr_to_state u \<in> set terminal_states) (proposal_transitions i db)"
  by (cases "proposal_transitions i db" rule: rev_cases) (auto simp: proposal_state_def)

lemma decision_fields [simp]:
  "tr_id (decision_transition u i p from target actor_type actor reason at) = u"
  "tr_proposal_id (decision_transition u i p from target actor_type actor reason at) = i"
  "tr_from_state (decision_transition u i p from target actor_type actor reason at) = Some from"
  "tr_to_state (decision_transition u i p from target actor_type actor reason at) = target"
  "tr_created_at (decision_transition u i p from target actor_type actor reason at) = at"
  by (simp_all add: decision_transition_def)

lemma decision_terminal: "''approved'' \<in> set terminal_states" "''rejected'' \<in> set terminal_states" "''timed_out'' \<in> set terminal_states"
  by (simp_all add: terminal_states_def)

lemma goal_change_insert: "goal_change db (snd (insert_proposal_record_with_outcome env now u1 u2 r db))"
  using insert_proposal_effect[of env now u1 u2 r db]
  by (fastforce simp: insert_proposal_record_with_outcome_def in_transaction_def intro: goal_change.intros split: sum.splits prod.splits)

lemma goal_change_resolve:
  assumes "goal_db_ok db"
  shows "goal_change db (snd (resolve_proposal u i decision resolver at db))"
proof (cases "resolve_proposal_in_transaction u i decision resolver at db")
  case (Inr r)
  obtain b db' where r: "r = (b, db')" by (cases r)
  from Inr r consider "db' = db"
    | p target reason where "load_v2_proposal i db = Some p" "state_or_pending i db = pending_review"
      "resolve_target decision = Some (target, reason)"
      "apply_decision (decision_transition u i p pending_review target (actor_type_for_transition target resolver)
         (Some resolver) reason at) p decision resolver db = Inr db'"
    by (auto simp: resolve_proposal_in_transaction_def split: option.splits if_splits sum.splits)
  then show ?thesis
  proof cases
    case 1
    then show ?thesis using Inr r by (simp add: resolve_proposal_def in_transaction_def goal_change.unchanged)
  next
    case 2
    with known_state(1)[OF assms 2(1)] have "goal_change db db'"
      by (intro goal_change.decided[OF 2(1) _ _ _ _ 2(4)]) (auto simp: resolve_target_terminal)
    then show ?thesis using Inr r by (simp add: resolve_proposal_def in_transaction_def)
  qed
qed (simp add: resolve_proposal_def in_transaction_def goal_change.unchanged)

lemma goal_change_time_out:
  assumes "goal_db_ok db"
  shows "goal_change db (snd (time_out_proposal u i at db))"
proof (cases "time_out_proposal_in_transaction u i at db")
  case (Inr r)
  obtain b db' where r: "r = (b, db')" by (cases r)
  from Inr r consider "db' = db"
    | p where "load_v2_proposal i db = Some p" "state_or_pending i db = pending_review"
      "apply_decision (decision_transition u i p pending_review ''timed_out'' ''system'' None ''proposal_timeout'' at)
         p ''TimedOut'' ''system'' db = Inr db'"
    by (auto simp: time_out_proposal_in_transaction_def split: option.splits if_splits sum.splits)
  then show ?thesis
  proof cases
    case 1
    then show ?thesis using Inr r by (simp add: time_out_proposal_def in_transaction_def goal_change.unchanged)
  next
    case 2
    with known_state(1)[OF assms 2(1)] have "goal_change db db'"
      by (intro goal_change.decided[OF 2(1) _ _ _ _ 2(3)]) (auto simp: decision_terminal)
    then show ?thesis using Inr r by (simp add: time_out_proposal_def in_transaction_def)
  qed
qed (simp add: time_out_proposal_def in_transaction_def goal_change.unchanged)

definition human_transition ::
    "string \<Rightarrow> string \<Rightarrow> string \<Rightarrow> human_decision_preconditions \<Rightarrow> string \<Rightarrow> goal_v2_row \<Rightarrow> goal_transition_row" where
  "human_transition u i decision pre at p =
     (decision_transition u i p (hd_expected_state pre) decision ''human'' (Some (hd_actor_id pre)) ''human_decision'' at)
       \<lparr>tr_rationale := hd_rationale pre, tr_operation_id := hd_operation_id pre,
        tr_request_id := hd_request_id pre, tr_idempotency_key := hd_idempotency_key pre\<rparr>"

lemma human_fields [simp]:
  "tr_id (human_transition u i decision pre at p) = u" "tr_proposal_id (human_transition u i decision pre at p) = i"
  "tr_from_state (human_transition u i decision pre at p) = Some (hd_expected_state pre)"
  "tr_to_state (human_transition u i decision pre at p) = decision" "tr_created_at (human_transition u i decision pre at p) = at"
  by (simp_all add: human_transition_def decision_transition_def)

text \<open>What the reviewer has seen: the proposal's state, lineage, subject and revision.\<close>

definition review_current :: "human_decision_preconditions \<Rightarrow> goal_v2_row \<Rightarrow> bool" where
  "review_current pre p \<longleftrightarrow>
     hd_expected_lineage_id pre = v2_lineage_id p \<and> hd_expected_subject_key pre = v2_subject_key p \<and>
     hd_expected_reviewed_revision pre = v2_reviewed_revision p"

lemma human_decision_pending:
  assumes ok: "goal_db_ok db" and p: "load_v2_proposal i db = Some p" and pend: "proposal_state i db = Some pending_review"
    and pre: "hd_expected_state pre = pending_review" "review_current pre p"
  shows "resolve_human_decision_in_transaction u i decision pre at db =
    (if decision \<noteq> ''approved'' \<and> decision \<noteq> ''rejected'' then Inl (HdStorage (GsUnsupportedDecision decision))
     else case apply_decision (human_transition u i decision pre at p) p decision (hd_actor_id pre) db of
            Inl e \<Rightarrow> Inl (HdStorage e) | Inr db' \<Rightarrow> Inr ((), db'))"
proof -
  obtain h where h: "load_lineage_head (v2_subject_type p) (v2_subject_key p) db = Some h" "lh_head_proposal_id h = i"
    using pending_is_head[OF goal_db_okD(2)[OF ok] p pend] by (auto simp: is_head_def)
  then have "head_mirrors (v2_subject_type p, v2_subject_key p) h db"
    using head_is_mirror[OF goal_db_okD(2)[OF ok]] by (simp add: load_lineage_head_def)
  with h(2) pend have "lh_head_state h = pending_review" by (auto simp: head_mirrors_def)
  with p pend pre h show ?thesis
    by (simp add: resolve_human_decision_in_transaction_def state_or_pending_def review_current_def human_transition_def)
qed

lemma human_decision_success:
  assumes ok: "goal_db_ok db" and res: "resolve_human_decision_in_transaction u i decision pre at db = Inr ((), db')"
  obtains p where "load_v2_proposal i db = Some p" "proposal_state i db = Some pending_review"
    "hd_expected_state pre = pending_review" "review_current pre p" "decision = ''approved'' \<or> decision = ''rejected''"
    "apply_decision (human_transition u i decision pre at p) p decision (hd_actor_id pre) db = Inr db'"
proof -
  from res obtain p where p: "load_v2_proposal i db = Some p" "state_or_pending i db = hd_expected_state pre"
    "review_current pre p" "decision = ''approved'' \<or> decision = ''rejected''"
    "apply_decision (human_transition u i decision pre at p) p decision (hd_actor_id pre) db = Inr db'"
    unfolding resolve_human_decision_in_transaction_def Let_def
    by (auto simp: review_current_def human_transition_def split: option.splits if_splits sum.splits)
  have "state_or_pending i db = pending_review"
  proof (rule ccontr)
    assume "state_or_pending i db \<noteq> pending_review"
    with known_state[OF ok p(1)] terminal_in_history[of i db] have
      "list_ex (\<lambda>u. tr_to_state u \<in> set terminal_states) (proposal_transitions i db)" by blast
    with p(4,5) decision_terminal show False
      by (auto simp: apply_decision_def insert_transition_def split: if_splits)
  qed
  with p known_state(1)[OF ok p(1)] show thesis by (intro that[OF p(1)]) auto
qed

lemma goal_change_human:
  assumes ok: "goal_db_ok db"
  shows "goal_change db (snd (in_transaction (resolve_human_decision_in_transaction u i decision pre at) db))"
proof (cases "resolve_human_decision_in_transaction u i decision pre at db")
  case (Inr r)
  then obtain db' where r: "resolve_human_decision_in_transaction u i decision pre at db = Inr ((), db')" by (cases r) auto
  then obtain p where p: "load_v2_proposal i db = Some p" "proposal_state i db = Some pending_review"
    "hd_expected_state pre = pending_review" "review_current pre p" "decision = ''approved'' \<or> decision = ''rejected''"
    "apply_decision (human_transition u i decision pre at p) p decision (hd_actor_id pre) db = Inr db'"
    by (rule human_decision_success[OF ok])
  have "goal_change db db'"
    by (rule goal_change.decided[OF p(1,2) _ _ _ p(6)]) (use p(3,5) decision_terminal in auto)
  then show ?thesis using r by (simp add: in_transaction_def)
qed (simp add: in_transaction_def goal_change.unchanged)

lemma goal_step_change: "goal_db_ok db \<Longrightarrow> goal_change db (goal_step db op)"
  by (cases op) (simp_all add: goal_change_insert goal_change_resolve goal_change_time_out goal_change_human)

lemma goal_change_ok: "goal_change db db' \<Longrightarrow> goal_db_ok db \<Longrightarrow> goal_db_ok db'"
  by (induction rule: goal_change.induct) (auto intro: apply_decision_ok inserted_proposal_ok[OF _ _ map_decision_state])

lemma goal_db_ok_new: "goal_db_ok goal_db_new"
  by (simp add: goal_db_ok_def goal_row_ok_def goal_heads_ok_def goal_db_new_def proposal_transitions_def load_v2_proposal_def)

interpretation goals: invariant_steps goal_step goal_db_ok
  by unfold_locales (rule goal_change_ok[OF goal_step_change])

subsection \<open>What stays\<close>

lemma inserted_keeps:
  assumes "goal_db_ok db" "inserted_proposal r p state old db db'" "load_v2_proposal i db = Some q"
  shows "load_v2_proposal i db' = Some q" "prefix (proposal_history i db) (proposal_history i db')"
    "proposal_state i db \<noteq> Some pending_review \<Longrightarrow> bt_get (gd_proposals db') i = bt_get (gd_proposals db) i"
proof -
  have fresh: "bt_get (gd_v2 db) (nr_proposal_id r) = None" and v2': "bt_get (gd_v2 db') = (bt_get (gd_v2 db))(nr_proposal_id r \<mapsto> p)"
    and hist: "proposal_history i db' = proposal_history i db @
        (if old = Some i then [(Some pending_review, ''superseded'')] else []) @ (if i = nr_proposal_id r then [(None, state)] else [])"
    and old: "old = superseded_head (nr_proposal_id r) (load_lineage_head (v2_subject_type p) (v2_subject_key p) db)"
    and row: "case bt_get (gd_proposals db') i of
        None \<Rightarrow> bt_get (gd_proposals db) i = None \<and> i \<noteq> nr_proposal_id r
      | Some row' \<Rightarrow> if i = nr_proposal_id r then gp_id row' = i \<and> gp_resolved_at row' = None
          else (\<exists>row. bt_get (gd_proposals db) i = Some row \<and> gp_id row' = gp_id row \<and> (old \<noteq> Some i \<longrightarrow> row' = row))"
    using assms(2) unfolding inserted_proposal_def by blast+
  have i: "i \<noteq> nr_proposal_id r" using fresh assms(3) by (auto simp: load_v2_proposal_def)
  then show "load_v2_proposal i db' = Some q" using assms(3) by (simp add: load_v2_proposal_def v2')
  show "prefix (proposal_history i db) (proposal_history i db')" by (simp add: hist)
  assume "proposal_state i db \<noteq> Some pending_review"
  then have "old \<noteq> Some i"
    using head_is_mirror[OF goal_db_okD(2)[OF assms(1)]] superseded_headD[of "nr_proposal_id r" _ i]
    by (fastforce simp: old load_lineage_head_def head_mirrors_def)
  with row i show "bt_get (gd_proposals db') i = bt_get (gd_proposals db) i" by (auto split: option.splits)
qed

lemma goal_change_keeps:
  assumes "goal_change db db'" "goal_db_ok db" "load_v2_proposal i db = Some q"
  shows "load_v2_proposal i db' = Some q \<and> prefix (proposal_history i db) (proposal_history i db') \<and>
    (proposal_state i db \<noteq> Some pending_review \<longrightarrow> bt_get (gd_proposals db') i = bt_get (gd_proposals db) i)"
  using assms
proof (cases rule: goal_change.cases)
  case (inserted r p state old)
  then show ?thesis using inserted_keeps[OF assms(2) inserted(1) assms(3)] by blast
next
  case (decided j p t d r)
  note eff = apply_decision_effect[OF decided(6)]
  show ?thesis using assms(3) decided(2,3) by (auto simp: load_v2_proposal_def eff(1,4) state_append(2)[OF eff(2)])
qed simp

definition proposal_settled :: "string \<Rightarrow> goal_v2_row \<Rightarrow> string \<Rightarrow> goal_proposal_row \<Rightarrow> goal_db \<Rightarrow> bool" where
  "proposal_settled i p s row db \<longleftrightarrow>
     goal_db_ok db \<and> load_v2_proposal i db = Some p \<and> proposal_state i db = Some s \<and> s \<noteq> pending_review \<and>
     bt_get (gd_proposals db) i = Some row"

lemma settled_history:
  assumes "decided_at_most_once h" "decided_at_most_once h'" "prefix h h'" "snd (last h) \<noteq> pending_review"
  shows "h' = h"
  using assms by (auto simp: decided_at_most_once_def)

interpretation settled: invariant_steps goal_step "proposal_settled i p s row"
proof unfold_locales
  fix db and op :: "'a goal_op"
  assume s: "proposal_settled i p s row db"
  then have ok: "goal_db_ok db" and p: "load_v2_proposal i db = Some p" by (simp_all add: proposal_settled_def)
  note ch = goal_step_change[OF ok, of op]
  note kept = goal_change_keeps[OF ch ok p]
  have ok': "goal_db_ok (goal_step db op)" by (rule goal_change_ok[OF ch ok])
  have "proposal_history i (goal_step db op) = proposal_history i db"
  proof (rule settled_history)
    show "decided_at_most_once (proposal_history i db)" using goal_row_okD[OF goal_db_okD(1)[OF ok] p] by metis
    show "decided_at_most_once (proposal_history i (goal_step db op))"
      using goal_row_okD[OF goal_db_okD(1)[OF ok']] kept by metis
    show "prefix (proposal_history i db) (proposal_history i (goal_step db op))" using kept by blast
    show "snd (last (proposal_history i db)) \<noteq> pending_review"
      using s by (auto simp: proposal_settled_def state_of_history split: if_splits)
  qed
  with s kept ok' show "proposal_settled i p s row (goal_step db op)"
    by (auto simp: proposal_settled_def state_of_history split: if_splits)
qed

subsection \<open>Properties\<close>

text \<open>
  C37. Proposals are decided at most once. Whatever operations ran since the tables were created, every
  proposal was created in one state and, if that was pending, decided at most once; nothing ever
  changes a decided proposal, neither its rows nor its state.
\<close>

theorem proposal_decided_once:
  fixes ops ops' :: "'n goal_op list"
  assumes "db = foldl goal_step goal_db_new ops" "load_v2_proposal i db = Some p"
  shows "decided_at_most_once (proposal_history i db) \<and>
    (proposal_state i db \<noteq> Some pending_review \<longrightarrow>
       load_v2_proposal i (foldl goal_step db ops') = Some p \<and>
       proposal_state i (foldl goal_step db ops') = proposal_state i db \<and>
       bt_get (gd_proposals (foldl goal_step db ops')) i = bt_get (gd_proposals db) i)"
proof -
  have ok: "goal_db_ok db" unfolding assms(1) by (rule goals.inv_run[OF goal_db_ok_new])
  obtain row where row: "bt_get (gd_proposals db) i = Some row" "decided_at_most_once (proposal_history i db)"
    using goal_row_okD[OF goal_db_okD(1)[OF ok] assms(2)] by metis
  obtain s where s: "proposal_state i db = Some s" using history_state(2)[OF row(2)] by auto
  have "proposal_settled i p s row (foldl goal_step db ops')" if "s \<noteq> pending_review"
    by (rule settled.inv_run) (use that ok assms(2) row s in \<open>simp add: proposal_settled_def\<close>)
  with row s show ?thesis by (auto simp: proposal_settled_def)
qed

text \<open>
  A human decision takes effect exactly when the proposal still waits for a review, is what the reviewer
  saw (state, lineage, subject, revision) and the decision is one of the two; then the state, the
  head and the old table show it. In particular the check of the head never stops a
  decision that passed the others, and a decided proposal cannot be decided again by a request that
  expects its decided state: the unique index refuses it.
\<close>

theorem human_decision_exact:
  fixes ops :: "'n goal_op list"
  assumes db: "db = foldl goal_step goal_db_new ops" and fresh: "u \<notin> tr_id ` set (gd_transitions db)"
  shows "(case resolve_human_decision_in_transaction u i decision pre at db of
      Inl e \<Rightarrow> \<not> (\<exists>p. load_v2_proposal i db = Some p \<and> proposal_state i db = Some pending_review \<and>
          hd_expected_state pre = pending_review \<and> review_current pre p \<and> decision \<in> {''approved'', ''rejected''})
    | Inr (_, db') \<Rightarrow> \<exists>p row. load_v2_proposal i db = Some p \<and> proposal_state i db = Some pending_review \<and>
          hd_expected_state pre = pending_review \<and> review_current pre p \<and> decision \<in> {''approved'', ''rejected''} \<and>
          proposal_state i db' = Some decision \<and> is_head i p db' \<and>
          bt_get (gd_proposals db') i = Some row \<and> gp_decision row = Some decision \<and>
          gp_resolved_at row = Some at \<and> gp_resolver row = Some (hd_actor_id pre))"
proof -
  have ok: "goal_db_ok db" unfolding db by (rule goals.inv_run[OF goal_db_ok_new])
  show ?thesis
  proof (cases "resolve_human_decision_in_transaction u i decision pre at db")
    case (Inl e)
    have False if p: "load_v2_proposal i db = Some p" "proposal_state i db = Some pending_review"
      "hd_expected_state pre = pending_review" "review_current pre p" "decision \<in> {''approved'', ''rejected''}" for p
    proof -
      have "decided_at_most_once (proposal_history i db)" using goal_row_okD[OF goal_db_okD(1)[OF ok] p(1)] by metis
      then have "proposal_history i db = [(None, pending_review)]" using history_state(1) p(2) by blast
      then have "\<not> list_ex (\<lambda>t. tr_to_state t \<in> set terminal_states) (proposal_transitions i db)"
        by (auto simp: proposal_history_def list_ex_iff)
      then obtain db' where "apply_decision (human_transition u i decision pre at p) p decision (hd_actor_id pre) db = Inr db'"
        using fresh by (simp add: apply_decision_def insert_transition_def)
      with human_decision_pending[OF ok p(1-4)] p(5) Inl show False by auto
    qed
    with Inl show ?thesis by auto
  next
    case (Inr r)
    then obtain db' where r: "resolve_human_decision_in_transaction u i decision pre at db = Inr ((), db')" by (cases r) auto
    then obtain p where p: "load_v2_proposal i db = Some p" "proposal_state i db = Some pending_review"
      "hd_expected_state pre = pending_review" "review_current pre p" "decision = ''approved'' \<or> decision = ''rejected''"
      "apply_decision (human_transition u i decision pre at p) p decision (hd_actor_id pre) db = Inr db'"
      by (rule human_decision_success[OF ok])
    obtain row where row: "bt_get (gd_proposals db) i = Some row" "gp_resolved_at row \<noteq> None \<Longrightarrow> proposal_state i db \<noteq> Some pending_review"
      using goal_row_okD[OF goal_db_okD(1)[OF ok] p(1)] by metis
    note eff = apply_decision_effect[OF p(6)]
    have "gp_resolved_at row = None" using row(2) p(2) by blast
    then have "\<exists>row'. bt_get (gd_proposals db') i = Some row' \<and> gp_decision row' = Some decision \<and>
        gp_resolved_at row' = Some at \<and> gp_resolver row' = Some (hd_actor_id pre)"
      using row(1) by (simp add: eff(4))
    moreover have "is_head i p db'" by (simp add: is_head_def load_lineage_head_def eff(3))
    moreover have "proposal_state i db' = Some decision" by (simp add: state_append(1)[OF eff(2)])
    ultimately show ?thesis using r p(1-5) by auto
  qed
qed

text \<open>
  A proposal that was applied or rejected automatically when it was created stays in the list of
  unresolved proposals for good: the old table never gets its resolution.
\<close>

theorem auto_decided_stays_pending:
  fixes ops :: "'n goal_op list" and ops' :: "'m goal_op list"
  assumes "db = foldl goal_step goal_db_new ops"
    and "insert_proposal_record_with_outcome env now u1 u2 r db = (Inr out, db')"
    and "snd (map_decision (nr_decision r)) \<noteq> pending_review"
  shows "\<exists>row \<in> set (query_pending (foldl goal_step db' ops')). gp_id row = nr_proposal_id r \<and>
    proposal_state (nr_proposal_id r) (foldl goal_step db' ops') = Some (snd (map_decision (nr_decision r)))"
proof -
  let ?i = "nr_proposal_id r" and ?s = "snd (map_decision (nr_decision r))"
  have ok: "goal_db_ok db" unfolding assms(1) by (rule goals.inv_run[OF goal_db_ok_new])
  from assms(2) have "insert_proposal_record_in_transaction env now u1 u2 r db = Inr (out, db')"
    by (auto simp: insert_proposal_record_with_outcome_def in_transaction_def split: sum.splits)
  from insert_proposal_effect[OF this] obtain p old where ins: "inserted_proposal r p ?s old db db'" by blast
  have ok': "goal_db_ok db'" by (rule inserted_proposal_ok[OF ok ins map_decision_state])
  have v2: "load_v2_proposal ?i db' = Some p" using ins by (simp add: inserted_proposal_def load_v2_proposal_def)
  have "\<exists>pre. proposal_history ?i db' = pre @ [(None, ?s)]" using ins by (auto simp: inserted_proposal_def)
  then have st: "proposal_state ?i db' = Some ?s" by (auto simp: state_of_history)
  have legacy: "case bt_get (gd_proposals db') j of
        None \<Rightarrow> bt_get (gd_proposals db) j = None \<and> j \<noteq> nr_proposal_id r
      | Some row' \<Rightarrow> if j = nr_proposal_id r then gp_id row' = j \<and> gp_resolved_at row' = None
          else (\<exists>row. bt_get (gd_proposals db) j = Some row \<and> gp_id row' = gp_id row \<and> (old \<noteq> Some j \<longrightarrow> row' = row))" for j
    using ins unfolding inserted_proposal_def by blast
  obtain row where row: "bt_get (gd_proposals db') ?i = Some row" "gp_id row = ?i" "gp_resolved_at row = None"
    using legacy[of ?i] by (auto split: option.splits)
  have "proposal_settled ?i p ?s row (foldl goal_step db' ops')"
    by (rule settled.inv_run) (use ok' v2 st row(1) assms(3) in \<open>simp add: proposal_settled_def\<close>)
  with row(2,3) show ?thesis
    by (intro bexI[of _ row]) (auto simp: proposal_settled_def query_pending_def created_order_def bt_values_iff)
qed

end
