(* ===== verification/Goal_Review.thy ===== *)
theory Goal_Review
  imports Goal_Store Idempotency Float64
begin

section \<open>Decisions on proposals and the memories they write\<close>

text \<open>
  \<^verbatim>\<open>cortex-storage/src/queries/proposal_materialization_queries.rs\<close>, which writes the memory of an
  approved proposal, the mutation of \<^verbatim>\<open>resolve_goal_decision\<close> in \<^verbatim>\<open>ghost-gateway/src/api/goals.rs\<close>
  and \<^verbatim>\<open>persist_proposal\<close> of \<^verbatim>\<open>ghost-agent-loop/src/runner.rs\<close>. The tables of memories are
  lists in the order of their row ids. What the JSON functions of the serializer and of the database
  do, the hash and UUIDs of version 5 are functions of the environment. A literal stands for its
  decimal value.
\<close>

datatype memory_type =
    MtCore | MtTribal | MtProcedural | MtSemantic | MtEpisodic | MtDecision | MtInsight | MtReference | MtPreference
  | MtConversation | MtFeedback | MtSkill | MtGoal | MtRelationship | MtContext | MtObservation | MtHypothesis
  | MtExperiment | MtLesson | MtPatternRationale | MtConstraintOverride | MtDecisionContext | MtCodeSmell
  | MtAgentGoal | MtAgentReflection | MtConvergenceEvent | MtBoundaryViolation | MtProposalRecord
  | MtSimulationResult | MtInterventionPlan | MtAttachmentIndicator

datatype importance = ImTrivial | ImLow | ImNormal | ImHigh | ImCritical

record 'n base_memory =
  bm_id :: string
  bm_memory_type :: memory_type
  bm_content :: "'n json"
  bm_summary :: string
  bm_importance :: importance
  bm_confidence :: f64
  bm_created_at :: datetime
  bm_last_accessed :: "datetime option"
  bm_access_count :: u64
  bm_tags :: "string list"
  bm_archived :: bool

text \<open>
  \<open>me_unquote\<close> reads the text between two quotes as a JSON string, \<open>me_source\<close> is
  \<^verbatim>\<open>json_extract(snapshot, '$.content.source_proposal_id')\<close> where that is a text.
\<close>

record 'n memory_env = "'n goal_env" +
  me_is_uuid :: "string \<Rightarrow> bool"
  me_canonical_uuid :: "string \<Rightarrow> string"
  me_uuid_v5 :: "string \<Rightarrow> string"
  me_unquote :: "string \<Rightarrow> string option"
  me_number_f64 :: "'n \<Rightarrow> f64 option"
  me_rfc3339 :: "datetime \<Rightarrow> string"
  me_parse_rfc3339 :: "string \<Rightarrow> datetime option"
  me_snapshot_text :: "'n base_memory \<Rightarrow> string"
  me_source :: "string \<Rightarrow> string option"
  me_hash :: "string \<Rightarrow> byte_seq"

text \<open>The database reads back what the serializer wrote.\<close>

definition snapshots_readable :: "('n, 'z) memory_env_scheme \<Rightarrow> bool" where
  "snapshots_readable env \<longleftrightarrow> (\<forall>m. me_source env (me_snapshot_text env m) = str_arg ''source_proposal_id'' (bm_content m))"

subsection \<open>Tables\<close>

record memory_event_row =
  ev_memory_id :: string
  ev_event_type :: string
  ev_delta :: string
  ev_actor_id :: string
  ev_recorded_at :: string
  ev_event_hash :: byte_seq
  ev_previous_hash :: byte_seq

record memory_snapshot_row =
  sn_memory_id :: string
  sn_snapshot :: string
  sn_state_hash :: "byte_seq option"

record memory_audit_row =
  au_memory_id :: string
  au_operation :: string
  au_details :: "string option"

record memory_db =
  md_events :: "memory_event_row list"
  md_snapshots :: "memory_snapshot_row list"
  md_audit :: "memory_audit_row list"

definition memory_db_new :: memory_db where
  "memory_db_new = \<lparr>md_events = [], md_snapshots = [], md_audit = []\<rparr>"

definition insert_event_at :: "memory_event_row \<Rightarrow> memory_db \<Rightarrow> memory_db" where
  "insert_event_at e m = m\<lparr>md_events := md_events m @ [e]\<rparr>"

definition insert_snapshot :: "memory_snapshot_row \<Rightarrow> memory_db \<Rightarrow> memory_db" where
  "insert_snapshot s m = m\<lparr>md_snapshots := md_snapshots m @ [s]\<rparr>"

definition insert_audit :: "memory_audit_row \<Rightarrow> memory_db \<Rightarrow> memory_db" where
  "insert_audit a m = m\<lparr>md_audit := md_audit m @ [a]\<rparr>"

definition latest_event_hash :: "string \<Rightarrow> memory_db \<Rightarrow> byte_seq option" where
  "latest_event_hash memory_id m =
     (case rev (sort_key ev_recorded_at (filter (\<lambda>e. ev_memory_id e = memory_id) (md_events m))) of
        [] \<Rightarrow> None | e # _ \<Rightarrow> Some (ev_event_hash e))"

subsection \<open>Building a memory\<close>

record materializable_proposal_row =
  mp_proposal_id :: string
  mp_agent_id :: string
  mp_operation :: string
  mp_target_type :: string
  mp_content :: string
  mp_lineage_id :: string
  mp_subject_key :: string
  mp_reviewed_revision :: string
  mp_current_state :: string

definition load_materializable_proposal :: "string \<Rightarrow> goal_db \<Rightarrow> materializable_proposal_row option" where
  "load_materializable_proposal i db =
     (case (bt_get (gd_proposals db) i, bt_get (gd_v2 db) i) of
        (Some r, Some p) \<Rightarrow>
          Some \<lparr>mp_proposal_id = gp_id r, mp_agent_id = gp_agent_id r, mp_operation = gp_operation r,
                mp_target_type = gp_target_type r, mp_content = v2_content p, mp_lineage_id = v2_lineage_id p,
                mp_subject_key = v2_subject_key p, mp_reviewed_revision = v2_reviewed_revision p,
                mp_current_state = (case proposal_state i db of Some s \<Rightarrow> s | None \<Rightarrow> [])\<rparr>
      | _ \<Rightarrow> None)"

definition derive_memory_id :: "('n, 'z) memory_env_scheme \<Rightarrow> materializable_proposal_row \<Rightarrow> 'n json \<Rightarrow> string" where
  "derive_memory_id env p content =
     (let seed = (case nonempty_field ''subject_key'' content of Some k \<Rightarrow> k | None \<Rightarrow> mp_subject_key p);
          derived = me_uuid_v5 env (''ghost:memory:'' @ seed)
      in case str_arg ''memory_id'' content of
           Some m \<Rightarrow> if me_is_uuid env m then m else derived
         | None \<Rightarrow> derived)"

definition materialization_already_present :: "('n, 'z) memory_env_scheme \<Rightarrow> string \<Rightarrow> string \<Rightarrow> memory_db \<Rightarrow> bool" where
  "materialization_already_present env memory_id proposal_id m \<longleftrightarrow>
     list_ex (\<lambda>s. sn_memory_id s = memory_id \<and> me_source env (sn_snapshot s) = Some proposal_id) (md_snapshots m)"

definition memory_type_names :: "(string \<times> memory_type) list" where
  "memory_type_names =
     [(''Core'', MtCore), (''Tribal'', MtTribal), (''Procedural'', MtProcedural), (''Semantic'', MtSemantic),
      (''Episodic'', MtEpisodic), (''Decision'', MtDecision), (''Insight'', MtInsight), (''Reference'', MtReference),
      (''Preference'', MtPreference), (''Conversation'', MtConversation), (''Feedback'', MtFeedback),
      (''Skill'', MtSkill), (''Goal'', MtGoal), (''Relationship'', MtRelationship), (''Context'', MtContext),
      (''Observation'', MtObservation), (''Hypothesis'', MtHypothesis), (''Experiment'', MtExperiment),
      (''Lesson'', MtLesson), (''PatternRationale'', MtPatternRationale),
      (''ConstraintOverride'', MtConstraintOverride), (''DecisionContext'', MtDecisionContext),
      (''CodeSmell'', MtCodeSmell), (''AgentGoal'', MtAgentGoal), (''AgentReflection'', MtAgentReflection),
      (''ConvergenceEvent'', MtConvergenceEvent), (''BoundaryViolation'', MtBoundaryViolation),
      (''ProposalRecord'', MtProposalRecord), (''SimulationResult'', MtSimulationResult),
      (''InterventionPlan'', MtInterventionPlan), (''AttachmentIndicator'', MtAttachmentIndicator)]"

definition parse_memory_type :: "('n, 'z) memory_env_scheme \<Rightarrow> string \<Rightarrow> memory_type" where
  "parse_memory_type env raw =
     (case Option.bind (me_unquote env raw) (map_of memory_type_names) of Some t \<Rightarrow> t | None \<Rightarrow> MtSemantic)"

definition parse_importance :: "'n json option \<Rightarrow> importance" where
  "parse_importance raw =
     (case Option.bind raw json_as_str of
        None \<Rightarrow> ImNormal
      | Some s \<Rightarrow>
          (let l = map to_ascii_lowercase s
           in if l = ''critical'' then ImCritical else if l = ''high'' then ImHigh
              else if l = ''low'' then ImLow else if l = ''trivial'' then ImTrivial else ImNormal))"

definition summary_keys :: "string list" where
  "summary_keys = [''summary'', ''goal_text'', ''goal'', ''text'', ''message'', ''description'', ''fact'']"

fun first_summary :: "'n json \<Rightarrow> string list \<Rightarrow> string option" where
  "first_summary content [] = None"
| "first_summary content (k # ks) =
     (case str_arg k content of
        Some t \<Rightarrow> if trim t \<noteq> [] then Some (take 160 (trim t)) else first_summary content ks
      | None \<Rightarrow> first_summary content ks)"

text \<open>The fields of an object are visited in the order of their keys.\<close>

fun string_fields :: "'n json \<Rightarrow> (string \<times> string) list" where
  "string_fields (JObject fs) = List.map_filter (\<lambda>(k, v). map_option (Pair k) (json_as_str v)) (sort_key fst fs)"
| "string_fields _ = []"

definition derive_summary :: "'n json \<Rightarrow> string" where
  "derive_summary content =
     (case first_summary content summary_keys of
        Some s \<Rightarrow> s
      | None \<Rightarrow>
          (case string_fields content of
             (k, t) # _ \<Rightarrow> if trim t \<noteq> [] then k @ '': '' @ take 140 (trim t) else ''Materialized memory''
           | [] \<Rightarrow> ''Materialized memory''))"

fun json_as_f64 :: "('n \<Rightarrow> f64 option) \<Rightarrow> 'n json \<Rightarrow> f64 option" where
  "json_as_f64 f (JNumber n) = f n"
| "json_as_f64 f _ = None"

fun json_strings :: "'n json \<Rightarrow> string list option" where
  "json_strings (JArray vs) = Some (List.map_filter json_as_str vs)"
| "json_strings _ = None"

fun json_bool :: "'n json \<Rightarrow> bool option" where
  "json_bool (JBool b) = Some b"
| "json_bool _ = None"

definition clamp_unit :: "f64 \<Rightarrow> f64" where
  "clamp_unit x = (if f64_lt x (Finite 0) then Finite 0 else if f64_gt x (Finite 1) then Finite 1 else x)"

definition build_memory_snapshot ::
    "('n, 'z) memory_env_scheme \<Rightarrow> datetime \<Rightarrow> materializable_proposal_row \<Rightarrow> string \<Rightarrow> 'n json \<Rightarrow> string \<Rightarrow> 'n base_memory" where
  "build_memory_snapshot env now p memory_id content recorded_at =
     \<lparr>bm_id = (if me_is_uuid env memory_id then me_canonical_uuid env memory_id else me_uuid_v5 env memory_id),
      bm_memory_type = parse_memory_type env
        (case str_arg ''memory_type'' content of Some t \<Rightarrow> t | None \<Rightarrow> mp_target_type p),
      bm_content = content, bm_summary = derive_summary content,
      bm_importance = parse_importance (json_get ''importance'' content),
      bm_confidence = clamp_unit
        (case Option.bind (json_get ''confidence'' content) (json_as_f64 (me_number_f64 env)) of
           Some c \<Rightarrow> c | None \<Rightarrow> Finite (8 / 10)),
      bm_created_at = (case me_parse_rfc3339 env recorded_at of Some t \<Rightarrow> t | None \<Rightarrow> now),
      bm_last_accessed = None, bm_access_count = 0,
      bm_tags = (case Option.bind (json_get ''tags'' content) json_strings of Some ts \<Rightarrow> ts | None \<Rightarrow> []),
      bm_archived = (case Option.bind (json_get ''archived'' content) json_bool of Some b \<Rightarrow> b | None \<Rightarrow> False)\<rparr>"

subsection \<open>Materialization\<close>

fun with_provenance :: "materializable_proposal_row \<Rightarrow> 'n json \<Rightarrow> 'n json" where
  "with_provenance p (JObject fs) =
     JObject (field_or_insert ''reviewed_revision'' (JString (mp_reviewed_revision p))
       (field_or_insert ''subject_key'' (JString (mp_subject_key p))
         (field_or_insert ''lineage_id'' (JString (mp_lineage_id p))
           (field_or_insert ''source_proposal_id'' (JString (mp_proposal_id p)) fs))))"
| "with_provenance p v = v"

definition write_memory ::
    "('n, 'z) memory_env_scheme \<Rightarrow> datetime \<Rightarrow> materializable_proposal_row \<Rightarrow> string \<Rightarrow> 'n json \<Rightarrow> memory_db \<Rightarrow> memory_db" where
  "write_memory env now p memory_id content m =
     (let recorded_at = me_rfc3339 env now;
          snapshot = me_snapshot_text env (build_memory_snapshot env now p memory_id (with_provenance p content) recorded_at);
          previous = (case latest_event_hash memory_id m of
                        Some h \<Rightarrow> if length h = 32 then h else replicate 32 0
                      | None \<Rightarrow> replicate 32 0)
      in insert_audit
           \<lparr>au_memory_id = memory_id, au_operation = ''proposal_materialized'',
            au_details = Some (''proposal_id='' @ mp_proposal_id p @ '', operation='' @ mp_operation p @
              '', reviewed_revision='' @ mp_reviewed_revision p)\<rparr>
         (insert_snapshot
           \<lparr>sn_memory_id = memory_id, sn_snapshot = snapshot, sn_state_hash = Some (me_hash env snapshot)\<rparr>
         (insert_event_at
           \<lparr>ev_memory_id = memory_id, ev_event_type = ''proposal_materialized'', ev_delta = mp_content p,
            ev_actor_id = mp_agent_id p, ev_recorded_at = recorded_at,
            ev_event_hash = me_hash env (mp_proposal_id p @ '':'' @ memory_id @ '':'' @ recorded_at),
            ev_previous_hash = previous\<rparr> m)))"

definition materialize_memory_write_in_transaction ::
    "('n, 'z) memory_env_scheme \<Rightarrow> datetime \<Rightarrow> string \<Rightarrow> goal_db \<Rightarrow> memory_db \<Rightarrow> (goal_store_error + string option) \<times> memory_db" where
  "materialize_memory_write_in_transaction env now i db m =
     (case load_materializable_proposal i db of
        None \<Rightarrow> (Inr None, m)
      | Some p \<Rightarrow>
          if mp_operation p \<noteq> ''MemoryWrite'' \<or> mp_current_state p \<notin> active_states then (Inr None, m)
          else case ge_parse_json env (mp_content p) of
            None \<Rightarrow> (Inl GsJson, m)
          | Some content \<Rightarrow>
              (let memory_id = derive_memory_id env p content
               in (Inr (Some memory_id),
                   if materialization_already_present env memory_id (mp_proposal_id p) m then m
                   else write_memory env now p memory_id content m)))"

subsection \<open>Requests\<close>

record goal_decision_request_body =
  gb_expected_state :: string
  gb_expected_lineage_id :: string
  gb_expected_subject_key :: string
  gb_expected_reviewed_revision :: string
  gb_rationale :: "string option"

definition stale_decision_response :: "string \<Rightarrow> string \<Rightarrow> string \<Rightarrow> (string \<times> string) list \<Rightarrow> nat \<times> 'n json" where
  "stale_decision_response goal_id code message details =
     (409, JObject [(''error'', JObject [(''code'', JString code), (''message'', JString message),
        (''details'', JObject ((''proposal_id'', JString goal_id) # map (\<lambda>(k, v). (k, JString v)) details))])])"

definition decision_preconditions :: "goal_decision_request_body \<Rightarrow> string \<Rightarrow> operation_context \<Rightarrow> human_decision_preconditions" where
  "decision_preconditions body actor cx =
     \<lparr>hd_expected_state = gb_expected_state body, hd_expected_lineage_id = gb_expected_lineage_id body,
      hd_expected_subject_key = gb_expected_subject_key body,
      hd_expected_reviewed_revision = gb_expected_reviewed_revision body, hd_rationale = gb_rationale body,
      hd_actor_id = actor, hd_operation_id = oc_operation_id cx, hd_request_id = Some (oc_request_id cx),
      hd_idempotency_key = oc_idempotency_key cx\<rparr>"

fun decision_error_response :: "string \<Rightarrow> human_decision_error \<Rightarrow> api_error + nat \<times> 'n json" where
  "decision_error_response goal_id HdNotFound =
     Inr (404, JObject [(''error'', JObject [(''code'', JString ''NOT_FOUND''), (''message'', JString ''Proposal not found''),
        (''details'', JObject [(''proposal_id'', JString goal_id)])])])"
| "decision_error_response goal_id (HdStaleState expected actual) =
     Inr (stale_decision_response goal_id ''STALE_DECISION_STATE'' ''Proposal state no longer matches the reviewed state''
       [(''expected_state'', expected), (''actual_state'', actual)])"
| "decision_error_response goal_id (HdStaleLineage expected actual) =
     Inr (stale_decision_response goal_id ''STALE_DECISION_LINEAGE'' ''Proposal lineage no longer matches the reviewed lineage''
       [(''expected_lineage_id'', expected), (''actual_lineage_id'', actual)])"
| "decision_error_response goal_id (HdStaleSubject expected actual) =
     Inr (stale_decision_response goal_id ''STALE_DECISION_SUBJECT'' ''Proposal subject no longer matches the reviewed subject''
       [(''expected_subject_key'', expected), (''actual_subject_key'', actual)])"
| "decision_error_response goal_id (HdStaleReviewedRevision expected actual) =
     Inr (stale_decision_response goal_id ''STALE_DECISION_REVIEWED_REVISION''
       ''Proposal reviewed revision no longer matches the reviewed revision''
       [(''expected_reviewed_revision'', expected), (''actual_reviewed_revision'', actual)])"
| "decision_error_response goal_id (HdStaleHead head_proposal_id head_state) =
     Inr (stale_decision_response goal_id ''STALE_DECISION_SUPERSEDED'' ''Proposal is no longer the active lineage head''
       [(''head_proposal_id'', head_proposal_id), (''head_state'', head_state)])"
| "decision_error_response goal_id (HdStorage e) = Inl (db_error ''goal_resolve'')"

text \<open>
  The mutation that \<^verbatim>\<open>resolve_goal_decision\<close> hands to \<^verbatim>\<open>execute_idempotent_json_mutation\<close>. \<open>now\<close> and \<open>now'\<close>
  are the readings of the clock for the decision and for the memory.
\<close>

definition goal_decision_mutation ::
    "('n, 'z) memory_env_scheme \<Rightarrow> string \<Rightarrow> datetime \<Rightarrow> datetime \<Rightarrow> string \<Rightarrow> string \<Rightarrow> goal_decision_request_body \<Rightarrow> string
      \<Rightarrow> operation_context \<Rightarrow> ('n, goal_db \<times> memory_db) mutation" where
  "goal_decision_mutation env u now now' goal_id decision body actor cx d =
     (case d of (db, m) \<Rightarrow>
        let ok = Inr (200, JObject [(''status'', JString decision), (''id'', JString goal_id)])
        in case resolve_human_decision_in_transaction u goal_id decision (decision_preconditions body actor cx)
                  (me_rfc3339 env now) db of
             Inl e \<Rightarrow> (decision_error_response goal_id e, d)
           | Inr (_, db') \<Rightarrow>
               if decision = ''approved'' then
                 (case materialize_memory_write_in_transaction env now' goal_id db' m of
                    (Inl _, m') \<Rightarrow> (Inl (InternalError ''memory proposal materialization failed''), (db', m'))
                  | (Inr _, m') \<Rightarrow> (ok, (db', m')))
               else (ok, (db', m)))"

text \<open>
  \<^verbatim>\<open>persist_proposal\<close>: the insertion is a transaction of its own; a failure to write the memory is only
  logged.
\<close>

definition persist_proposal ::
    "('n, 'z) memory_env_scheme \<Rightarrow> string \<Rightarrow> string \<Rightarrow> datetime \<Rightarrow> new_proposal_record \<Rightarrow> goal_db \<times> memory_db
      \<Rightarrow> 'n proposal_insert_outcome option \<times> goal_db \<times> memory_db" where
  "persist_proposal env u1 u2 now r d =
     (case d of (db, m) \<Rightarrow>
        case insert_proposal_record_with_outcome (goal_env.truncate env) (me_rfc3339 env now) u1 u2 r db of
          (Inl _, db') \<Rightarrow> (None, db', m)
        | (Inr out, db') \<Rightarrow>
            if nr_decision r = ''AutoApproved'' \<or> nr_decision r = ''ApprovedWithFlags'' \<or> nr_decision r = ''approved''
            then (Some out, db', snd (materialize_memory_write_in_transaction env now (nr_proposal_id r) db' m))
            else (Some out, db', m))"

text \<open>\<^verbatim>\<open>canonical_status_from_parts\<close>: the state where there is one, otherwise what the old table says.\<close>

definition canonical_status_from_parts :: "string option \<Rightarrow> string option \<Rightarrow> string" where
  "canonical_status_from_parts state decision =
     (case state of
        Some (c # s) \<Rightarrow> c # s
      | _ \<Rightarrow> (case decision of Some d \<Rightarrow> snd (map_decision d) | None \<Rightarrow> pending_review))"

subsection \<open>The backfill of the old table\<close>

text \<open>
  \<^verbatim>\<open>backfill_legacy_goal_proposals\<close> of the migration: every old proposal gets its row, one transition
  and the head of its subject, in the order of creation. Its identity differs from
  that of a new proposal where the content has an empty subject key.
\<close>

definition backfill_identity :: "'n goal_env \<Rightarrow> string \<Rightarrow> string \<Rightarrow> 'n json \<Rightarrow> string \<Rightarrow> string \<Rightarrow> derived_identity" where
  "backfill_identity env operation target_type content proposal_id session_id =
     identity_of_subject env target_type content
       (case str_arg ''subject_key'' content of
          Some k \<Rightarrow> k
        | None \<Rightarrow> fallback_subject_key operation target_type content proposal_id session_id)"

definition backfill_actor :: "string \<Rightarrow> string option \<Rightarrow> string" where
  "backfill_actor state resolver =
     (if state = ''approved'' \<or> state = ''rejected''
      then (if resolver \<noteq> None then ''human'' else ''legacy_backfill'') else ''system'')"

definition backfill_decision :: "goal_proposal_row \<Rightarrow> string \<times> string" where
  "backfill_decision r = map_decision (case gp_decision r of Some d \<Rightarrow> d | None \<Rightarrow> ''HumanReviewRequired'')"

definition backfill_v2_row :: "derived_identity \<Rightarrow> goal_proposal_row \<Rightarrow> goal_v2_row" where
  "backfill_v2_row idn r =
     \<lparr>v2_id = gp_id r, v2_lineage_id = di_lineage_id idn, v2_subject_type = di_subject_type idn,
      v2_subject_key = di_subject_key idn, v2_reviewed_revision = di_reviewed_revision idn,
      v2_proposer_type = gp_proposer_type r, v2_proposer_id = None, v2_agent_id = gp_agent_id r,
      v2_session_id = gp_session_id r, v2_operation = gp_operation r, v2_target_type = gp_target_type r,
      v2_content = gp_content r, v2_cited_memory_ids = gp_cited_memory_ids r,
      v2_validation_disposition = fst (backfill_decision r),
      v2_validation_flags = (case gp_flags r of Some f \<Rightarrow> f | None \<Rightarrow> ''[]''),
      v2_validation_scores = (case gp_dimension_scores r of Some f \<Rightarrow> f | None \<Rightarrow> ''{}''),
      v2_denial_reason = gp_denial_reason r, v2_supersedes_proposal_id = di_supersedes_proposal_id idn,
      v2_operation_id = None, v2_request_id = None, v2_created_at = gp_created_at r,
      v2_event_hash = gp_event_hash r, v2_previous_hash = gp_previous_hash r\<rparr>"

definition backfill_transition :: "derived_identity \<Rightarrow> string \<Rightarrow> goal_proposal_row \<Rightarrow> goal_transition_row" where
  "backfill_transition idn transition_at r =
     \<lparr>tr_id = ''legacy-transition-'' @ gp_id r, tr_proposal_id = gp_id r, tr_lineage_id = di_lineage_id idn,
      tr_from_state = None, tr_to_state = snd (backfill_decision r),
      tr_actor_type = backfill_actor (snd (backfill_decision r)) (gp_resolver r),
      tr_actor_id = gp_resolver r, tr_reason_code = Some ''legacy_backfill'', tr_rationale = None,
      tr_expected_state = None, tr_expected_revision = None, tr_operation_id = None,
      tr_request_id = None, tr_idempotency_key = None, tr_created_at = transition_at\<rparr>"

definition backfill_head :: "derived_identity \<Rightarrow> string \<Rightarrow> goal_proposal_row \<Rightarrow> lineage_head_row" where
  "backfill_head idn transition_at r =
     \<lparr>lh_lineage_id = di_lineage_id idn, lh_head_proposal_id = gp_id r, lh_head_state = snd (backfill_decision r),
      lh_current_revision = di_reviewed_revision idn, lh_updated_at = transition_at\<rparr>"

definition backfill_row :: "'n goal_env \<Rightarrow> goal_db \<Rightarrow> goal_proposal_row \<Rightarrow> goal_store_error + goal_db" where
  "backfill_row env db r =
     (if bt_contains (gd_v2 db) (gp_id r) then Inr db
      else
        let content = (case ge_parse_json env (gp_content r) of Some v \<Rightarrow> v | None \<Rightarrow> JNull);
            idn = backfill_identity env (gp_operation r) (gp_target_type r) content (gp_id r) (gp_session_id r);
            transition_at = (case gp_resolved_at r of Some t \<Rightarrow> t | None \<Rightarrow> gp_created_at r)
        in case insert_v2 (backfill_v2_row idn r) db of
             Inl e \<Rightarrow> Inl e
           | Inr db1 \<Rightarrow>
               (case insert_transition (backfill_transition idn transition_at r) db1 of
                  Inl e \<Rightarrow> Inl e
                | Inr db2 \<Rightarrow>
                    Inr (upsert_lineage_head (di_subject_type idn) (di_subject_key idn)
                      (backfill_head idn transition_at r) db2)))"

fun backfill_rows :: "'n goal_env \<Rightarrow> goal_db \<Rightarrow> goal_proposal_row list \<Rightarrow> goal_store_error + goal_db" where
  "backfill_rows env db [] = Inr db"
| "backfill_rows env db (r # rs) = (case backfill_row env db r of Inl e \<Rightarrow> Inl e | Inr db' \<Rightarrow> backfill_rows env db' rs)"

definition backfill_legacy_goal_proposals :: "'n goal_env \<Rightarrow> goal_db \<Rightarrow> goal_store_error + goal_db" where
  "backfill_legacy_goal_proposals env db = backfill_rows env db (created_order (bt_values (gd_proposals db)))"

text \<open>
  The database before the migration: the new tables are empty, the rows of the old one are filed under
  their ids, and a resolved row has a decision that settles it.
\<close>

definition legacy_tables :: "goal_db \<Rightarrow> bool" where
  "legacy_tables db \<longleftrightarrow> gd_v2 db = bt_new \<and> gd_transitions db = [] \<and> gd_heads db = bt_new \<and>
     (\<forall>i r. bt_get (gd_proposals db) i = Some r \<longrightarrow> gp_id r = i \<and>
        (gp_resolved_at r \<noteq> None \<longrightarrow>
          snd (backfill_decision r) \<noteq> pending_review))"

text \<open>The tables a gateway starts on: created empty, or filled by the migration.\<close>

inductive start_tables :: "'n goal_env \<Rightarrow> goal_db \<Rightarrow> bool" for env where
  fresh: "start_tables env goal_db_new"
| migrated: "legacy_tables old \<Longrightarrow> backfill_legacy_goal_proposals env old = Inr db \<Longrightarrow> start_tables env db"

text \<open>Nothing waits behind the head of its subject.\<close>

definition none_behind :: "goal_db \<Rightarrow> bool" where
  "none_behind db \<longleftrightarrow>
     (\<forall>i p. load_v2_proposal i db = Some p \<longrightarrow> proposal_state i db = Some pending_review \<longrightarrow> is_head i p db)"

text \<open>What the backfill has done so far.\<close>

definition backfilled :: "goal_db \<Rightarrow> goal_db \<Rightarrow> bool" where
  "backfilled old db \<longleftrightarrow> gd_proposals db = gd_proposals old \<and>
     (\<forall>k h. bt_get (gd_heads db) k = Some h \<longrightarrow> head_mirrors k h db) \<and>
     (\<forall>i. case bt_get (gd_v2 db) i of
        None \<Rightarrow> proposal_history i db = []
      | Some p \<Rightarrow> v2_id p = i \<and> (\<exists>r. bt_get (gd_proposals old) i = Some r \<and> proposal_history i db =
          [(None, snd (backfill_decision r))]))"

lemma backfill_row_effect:
  assumes "backfill_row env db r = Inr db'" "\<not> bt_contains (gd_v2 db) (gp_id r)"
  obtains p t h where "gd_proposals db' = gd_proposals db" "gd_v2 db' = bt_insert (gp_id r) p (gd_v2 db)"
    "gd_transitions db' = gd_transitions db @ [t]"
    "gd_heads db' = bt_insert (v2_subject_type p, v2_subject_key p) h (gd_heads db)"
    "v2_id p = gp_id r" "tr_proposal_id t = gp_id r" "tr_from_state t = None"
    "tr_to_state t = snd (backfill_decision r)"
    "lh_head_proposal_id h = gp_id r" "lh_head_state h = tr_to_state t" "lh_lineage_id h = v2_lineage_id p"
    "lh_current_revision h = v2_reviewed_revision p"
proof -
  define idn where "idn = backfill_identity env (gp_operation r) (gp_target_type r)
    (case ge_parse_json env (gp_content r) of Some v \<Rightarrow> v | None \<Rightarrow> JNull) (gp_id r) (gp_session_id r)"
  define tm where "tm = (case gp_resolved_at r of Some t \<Rightarrow> t | None \<Rightarrow> gp_created_at r)"
  have "db' = db\<lparr>gd_v2 := bt_insert (gp_id r) (backfill_v2_row idn r) (gd_v2 db),
      gd_transitions := gd_transitions db @ [backfill_transition idn tm r],
      gd_heads := bt_insert (di_subject_type idn, di_subject_key idn) (backfill_head idn tm r) (gd_heads db)\<rparr>"
    using assms unfolding backfill_row_def Let_def idn_def[symmetric] tm_def[symmetric]
    by (auto simp: insert_v2_def upsert_lineage_head_def backfill_v2_row_def dest!: insert_transition_effect
        split: sum.splits if_splits)
  then show ?thesis
    by (intro that[of "backfill_v2_row idn r" "backfill_transition idn tm r" "backfill_head idn tm r"])
      (simp_all add: backfill_v2_row_def backfill_transition_def backfill_head_def)
qed

lemma backfilledD:
  assumes "backfilled old db"
  shows "bt_get (gd_heads db) k = Some h \<Longrightarrow> head_mirrors k h db"
    and "bt_get (gd_v2 db) i = None \<Longrightarrow> proposal_history i db = []"
    and "bt_get (gd_v2 db) i = Some p \<Longrightarrow> v2_id p = i \<and>
      (\<exists>r. bt_get (gd_proposals old) i = Some r \<and> proposal_history i db = [(None, snd (backfill_decision r))])"
proof -
  have all: "case bt_get (gd_v2 db) i of
        None \<Rightarrow> proposal_history i db = []
      | Some p \<Rightarrow> v2_id p = i \<and> (\<exists>r. bt_get (gd_proposals old) i = Some r \<and> proposal_history i db =
          [(None, snd (backfill_decision r))])"
    using assms unfolding backfilled_def by blast
  show "bt_get (gd_heads db) k = Some h \<Longrightarrow> head_mirrors k h db" using assms unfolding backfilled_def by blast
  show "bt_get (gd_v2 db) i = None \<Longrightarrow> proposal_history i db = []" using all by simp
  show "bt_get (gd_v2 db) i = Some p \<Longrightarrow> v2_id p = i \<and>
      (\<exists>r. bt_get (gd_proposals old) i = Some r \<and> proposal_history i db = [(None, snd (backfill_decision r))])"
    using all by simp
qed

lemma backfill_row_ok:
  assumes old: "backfilled old db" and r: "bt_get (gd_proposals old) (gp_id r) = Some r"
    and ok: "backfill_row env db r = Inr db'"
  shows "backfilled old db' \<and> bt_contains (gd_v2 db') (gp_id r) \<and>
    (\<forall>i. bt_contains (gd_v2 db) i \<longrightarrow> bt_contains (gd_v2 db') i)"
proof (cases "bt_contains (gd_v2 db) (gp_id r)")
  case True
  then show ?thesis using assms by (simp add: backfill_row_def)
next
  case False
  from backfill_row_effect[OF ok False] obtain p t h where e:
    "gd_proposals db' = gd_proposals db" "gd_v2 db' = bt_insert (gp_id r) p (gd_v2 db)"
    "gd_transitions db' = gd_transitions db @ [t]"
    "gd_heads db' = bt_insert (v2_subject_type p, v2_subject_key p) h (gd_heads db)"
    "v2_id p = gp_id r" "tr_proposal_id t = gp_id r" "tr_from_state t = None"
    "tr_to_state t = snd (backfill_decision r)"
    "lh_head_proposal_id h = gp_id r" "lh_head_state h = tr_to_state t" "lh_lineage_id h = v2_lineage_id p"
    "lh_current_revision h = v2_reviewed_revision p" .
  note st = state_append[OF e(3)]
  have new: "bt_get (gd_v2 db) (gp_id r) = None" using False by (simp add: bt_contains_def)
  have "head_mirrors k g db'" if g: "bt_get (gd_heads db') k = Some g" for k g
  proof (cases "k = (v2_subject_type p, v2_subject_key p)")
    case True
    then show ?thesis using g e by (auto simp: head_mirrors_def load_v2_proposal_def st(1))
  next
    case other: False
    then have m: "head_mirrors k g db" using g e(4) backfilledD(1)[OF old] by simp
    then have "lh_head_proposal_id g \<noteq> gp_id r" using new by (auto simp: head_mirrors_def load_v2_proposal_def)
    then show ?thesis using m e(2,6) by (simp add: head_mirrors_def load_v2_proposal_def st(1))
  qed
  moreover have "case bt_get (gd_v2 db') i of
        None \<Rightarrow> proposal_history i db' = []
      | Some p \<Rightarrow> v2_id p = i \<and> (\<exists>r. bt_get (gd_proposals old) i = Some r \<and> proposal_history i db' =
          [(None, snd (backfill_decision r))])" for i
    using backfilledD(2,3)[OF old, of i] new r e(2,5-8)
    by (cases "i = gp_id r") (auto simp: st(2) split: option.splits)
  ultimately show ?thesis
    using old e(1,2) by (simp add: backfilled_def bt_contains_def)
qed

lemma backfill_rows_ok:
  assumes "backfilled old db" "\<forall>r \<in> set rs. bt_get (gd_proposals old) (gp_id r) = Some r"
    and "backfill_rows env db rs = Inr db'"
  shows "backfilled old db' \<and> (\<forall>r \<in> set rs. bt_contains (gd_v2 db') (gp_id r)) \<and>
    (\<forall>i. bt_contains (gd_v2 db) i \<longrightarrow> bt_contains (gd_v2 db') i)"
  using assms
proof (induction rs arbitrary: db)
  case (Cons r rs)
  then obtain db1 where db1: "backfill_row env db r = Inr db1" "backfill_rows env db1 rs = Inr db'"
    by (auto split: sum.splits)
  note row = backfill_row_ok[OF Cons.prems(1) _ db1(1)]
  show ?case using row Cons.IH[OF _ _ db1(2)] Cons.prems(2) by auto
qed simp

lemma migrated_ok:
  assumes old: "legacy_tables old" and b: "backfill_legacy_goal_proposals env old = Inr db"
    and heads: "none_behind db"
  shows "goal_db_ok db"
proof -
  have "backfilled old old"
    using old by (simp add: legacy_tables_def backfilled_def proposal_history_def proposal_transitions_def)
  moreover have rows: "r \<in> set (created_order (bt_values (gd_proposals old))) \<longleftrightarrow> (\<exists>i. bt_get (gd_proposals old) i = Some r)" for r
    by (simp add: created_order_def bt_values_iff)
  moreover have "bt_get (gd_proposals old) (gp_id r) = Some r" if "bt_get (gd_proposals old) i = Some r" for i r
    using old that by (auto simp: legacy_tables_def)
  ultimately have bf: "backfilled old db" "\<And>i r. bt_get (gd_proposals old) i = Some r \<Longrightarrow> bt_contains (gd_v2 db) (gp_id r)"
    using backfill_rows_ok[OF _ _ b[unfolded backfill_legacy_goal_proposals_def]] by blast+
  have "goal_row_ok i db" for i
  proof (cases "bt_get (gd_v2 db) i")
    case None
    have "bt_get (gd_proposals db) i = None"
    proof (rule ccontr)
      assume "bt_get (gd_proposals db) i \<noteq> None"
      then obtain r where r: "bt_get (gd_proposals old) i = Some r" using bf(1) by (auto simp: backfilled_def)
      with bf(2)[OF r] old None show False by (auto simp: legacy_tables_def bt_contains_def)
    qed
    moreover have "proposal_history i db = []"
      using backfilledD(2)[OF bf(1)] None by simp
    ultimately show ?thesis using None by (simp add: goal_row_ok_def proposal_history_def)
  next
    case (Some p)
    then obtain r where r: "bt_get (gd_proposals old) i = Some r" "v2_id p = i"
      "proposal_history i db = [(None, snd (backfill_decision r))]"
      using backfilledD(3)[OF bf(1)] by blast
    then show ?thesis
      using Some old bf(1) map_decision_state
      by (auto simp: goal_row_ok_def backfilled_def legacy_tables_def decided_at_most_once_def state_of_history
          backfill_decision_def)
  qed
  then show ?thesis using bf(1) heads by (simp add: goal_db_ok_def goal_heads_ok_def backfilled_def none_behind_def)
qed

lemma none_behind_new: "none_behind goal_db_new"
  by (simp add: none_behind_def goal_db_new_def load_v2_proposal_def)

lemma start_tables_ok: "start_tables env db \<Longrightarrow> none_behind db \<Longrightarrow> goal_db_ok db"
  by (induction rule: start_tables.induct) (simp_all add: goal_db_ok_new migrated_ok)

text \<open>
  C34. One open review per subject. On tables that were created empty, or filled from an older database
  by the migration and left by it with no proposal waiting behind the head of its subject, after any
  operations the head of a subject names a proposal of that subject and shows its lineage, revision and
  state, and a proposal that waits for a review is the head of its subject; so no two
  proposals of a subject wait at the same time. (The migration of two undecided proposals on one
  subject leaves one behind the head; the theorem \<open>waiting_behind_head\<close> is about it.)
\<close>

theorem one_open_review:
  fixes ops :: "'n goal_op list"
  assumes "start_tables env db0" "none_behind db0" "db = foldl goal_step db0 ops"
  shows "(\<forall>k h. bt_get (gd_heads db) k = Some h \<longrightarrow> head_mirrors k h db) \<and>
    (\<forall>i p. load_v2_proposal i db = Some p \<longrightarrow> proposal_state i db = Some pending_review \<longrightarrow> is_head i p db) \<and>
    (\<forall>i p j q. load_v2_proposal i db = Some p \<longrightarrow> load_v2_proposal j db = Some q \<longrightarrow>
       proposal_state i db = Some pending_review \<longrightarrow> proposal_state j db = Some pending_review \<longrightarrow>
       v2_subject_type p = v2_subject_type q \<longrightarrow> v2_subject_key p = v2_subject_key q \<longrightarrow> i = j)"
proof -
  have ok: "goal_heads_ok db" unfolding assms(3) by (rule goal_db_okD(2)[OF goals.inv_run[OF start_tables_ok[OF assms(1,2)]]])
  then show ?thesis using one_head[OF ok] unfolding goal_heads_ok_def by blast
qed

subsection \<open>Memories follow decisions\<close>

text \<open>
  The other two writers of memory events: \<^verbatim>\<open>POST /api/memory\<close>, which files what the request says, and the
  promotion of a speculative fact (the end of \<^verbatim>\<open>promote_attempt\<close>; which attempts get there is left open).
  The time of the event is the database's.
\<close>

record write_memory_request =
  wm_memory_id :: string
  wm_event_type :: string
  wm_delta :: string
  wm_actor_id :: string
  wm_snapshot :: "string option"

definition write_memory_mutation ::
    "('n, 'z) memory_env_scheme \<Rightarrow> string \<Rightarrow> write_memory_request \<Rightarrow> string \<Rightarrow> memory_db \<Rightarrow> memory_db" where
  "write_memory_mutation env recorded_at body request_id m =
     (let previous = (case latest_event_hash (wm_memory_id body) m of Some h \<Rightarrow> h | None \<Rightarrow> replicate 32 0);
          m = insert_event_at
            \<lparr>ev_memory_id = wm_memory_id body, ev_event_type = wm_event_type body, ev_delta = wm_delta body,
             ev_actor_id = wm_actor_id body, ev_recorded_at = recorded_at,
             ev_event_hash = me_hash env (wm_memory_id body @ '':'' @ wm_event_type body @ '':'' @
               wm_actor_id body @ '':'' @ request_id),
             ev_previous_hash = previous\<rparr> m;
          m = (case wm_snapshot body of
                 None \<Rightarrow> m
               | Some text \<Rightarrow> insert_snapshot
                   \<lparr>sn_memory_id = wm_memory_id body, sn_snapshot = text, sn_state_hash = Some (me_hash env text)\<rparr> m)
      in insert_audit
           \<lparr>au_memory_id = wm_memory_id body, au_operation = wm_event_type body,
            au_details = Some (''event_type='' @ wm_event_type body @ '', actor='' @ wm_actor_id body)\<rparr> m)"

definition promote_fact ::
    "('n, 'z) memory_env_scheme \<Rightarrow> string \<Rightarrow> string \<Rightarrow> string \<Rightarrow> string \<Rightarrow> string \<Rightarrow> string \<Rightarrow> string \<Rightarrow> memory_db \<Rightarrow> memory_db" where
  "promote_fact env recorded_at memory_id snapshot attempt_id agent_id kind content m =
     insert_audit
       \<lparr>au_memory_id = memory_id, au_operation = ''speculative_promotion'',
        au_details = Some (''speculative_attempt_id='' @ attempt_id @ '', kind='' @ kind @
          '', promotion_type=semantic_fact'')\<rparr>
     (insert_snapshot
       \<lparr>sn_memory_id = memory_id, sn_snapshot = snapshot, sn_state_hash = Some (me_hash env snapshot)\<rparr>
     (insert_event_at
       \<lparr>ev_memory_id = memory_id, ev_event_type = ''speculative_promotion'', ev_delta = content,
        ev_actor_id = agent_id, ev_recorded_at = recorded_at,
        ev_event_hash = me_hash env (attempt_id @ '':'' @ content), ev_previous_hash = replicate 32 0\<rparr> m))"

text \<open>Everything that writes memory events, with the operations on proposals.\<close>

datatype 'n review_op =
    RvGoal "'n goal_op"
  | RvPersist "'n memory_env" string string datetime new_proposal_record
  | RvDecide "'n memory_env" string datetime datetime string string goal_decision_request_body string operation_context
  | RvWrite "'n memory_env" string write_memory_request string
  | RvPromote "'n memory_env" string string string string string string string

text \<open>A mutation that fails is rolled back by its caller.\<close>

fun review_step :: "goal_db \<times> memory_db \<Rightarrow> 'n review_op \<Rightarrow> goal_db \<times> memory_db" where
  "review_step (db, m) (RvGoal op) = (goal_step db op, m)"
| "review_step d (RvPersist env u1 u2 now r) = snd (persist_proposal env u1 u2 now r d)"
| "review_step d (RvDecide env u now now' goal_id decision body actor cx) =
     (case goal_decision_mutation env u now now' goal_id decision body actor cx d of
        (Inl _, _) \<Rightarrow> d | (Inr _, d') \<Rightarrow> d')"
| "review_step (db, m) (RvWrite env recorded_at body request_id) =
     (db, write_memory_mutation env recorded_at body request_id m)"
| "review_step (db, m) (RvPromote env recorded_at memory_id snapshot attempt_id agent_id kind content) =
     (db, promote_fact env recorded_at memory_id snapshot attempt_id agent_id kind content m)"

text \<open>The events that the other two writers file, by the request or the promoted attempt.\<close>

fun filed_by :: "memory_event_row \<Rightarrow> 'n review_op \<Rightarrow> bool" where
  "filed_by e (RvWrite env recorded_at body request_id) \<longleftrightarrow>
     ev_memory_id e = wm_memory_id body \<and> ev_event_type e = wm_event_type body \<and> ev_delta e = wm_delta body \<and>
     ev_actor_id e = wm_actor_id body"
| "filed_by e (RvPromote env recorded_at memory_id snapshot attempt_id agent_id kind content) \<longleftrightarrow>
     ev_memory_id e = memory_id \<and> ev_event_type e = ''speculative_promotion'' \<and> ev_delta e = content \<and>
     ev_actor_id e = agent_id"
| "filed_by e _ \<longleftrightarrow> False"

definition event_authorized :: "memory_event_row \<Rightarrow> goal_db \<Rightarrow> bool" where
  "event_authorized e db \<longleftrightarrow>
     (\<exists>i p r s. load_v2_proposal i db = Some p \<and> bt_get (gd_proposals db) i = Some r \<and>
        proposal_state i db = Some s \<and> s \<in> active_states \<and> gp_operation r = ''MemoryWrite'' \<and>
        ev_delta e = v2_content p \<and> ev_actor_id e = gp_agent_id r)"

definition memories_authorized :: "'n review_op list \<Rightarrow> goal_db \<times> memory_db \<Rightarrow> bool" where
  "memories_authorized ops d \<longleftrightarrow> goal_db_ok (fst d) \<and>
     (\<forall>e \<in> set (md_events (snd d)). event_authorized e (fst d) \<or> (\<exists>op \<in> set ops. filed_by e op))"

lemma active_not_pending: "s \<in> active_states \<Longrightarrow> s \<noteq> pending_review"
  by (auto simp: active_states_def pending_review_def)

lemma event_authorized_step:
  assumes "goal_db_ok db" "event_authorized e db"
  shows "event_authorized e (goal_step db op)"
proof -
  from assms(2) obtain i p r s where e: "load_v2_proposal i db = Some p" "bt_get (gd_proposals db) i = Some r"
    "proposal_state i db = Some s" "s \<in> active_states" "gp_operation r = ''MemoryWrite''"
    "ev_delta e = v2_content p" "ev_actor_id e = gp_agent_id r" by (auto simp: event_authorized_def)
  then have "proposal_settled i p s r db" using assms(1) active_not_pending by (simp add: proposal_settled_def)
  then have "proposal_settled i p s r (goal_step db op)" by (rule settled.inv_step)
  with e show ?thesis by (auto simp: event_authorized_def proposal_settled_def)
qed

lemma materialize_events:
  assumes "e \<in> set (md_events (snd (materialize_memory_write_in_transaction env now i db m)))" "goal_db_ok db"
  shows "e \<in> set (md_events m) \<or> event_authorized e db"
proof (rule disjCI)
  assume new: "\<not> event_authorized e db"
  show "e \<in> set (md_events m)"
  proof (rule ccontr)
    assume "e \<notin> set (md_events m)"
    with assms(1) obtain p where p: "load_materializable_proposal i db = Some p" "mp_operation p = ''MemoryWrite''"
      "mp_current_state p \<in> active_states" "ev_delta e = mp_content p" "ev_actor_id e = mp_agent_id p"
      by (auto simp: materialize_memory_write_in_transaction_def write_memory_def insert_event_at_def insert_snapshot_def
          insert_audit_def Let_def split: option.splits if_splits)
    then have "event_authorized e db"
      unfolding event_authorized_def load_v2_proposal_def
      by (intro exI[of _ i]) (auto simp: load_materializable_proposal_def active_states_def split: option.splits)
    with new show False ..
  qed
qed

lemma memories_authorized_goal:
  "memories_authorized ops (db, m) \<Longrightarrow> memories_authorized ops (goal_step db op, m)"
  using goals.inv_step event_authorized_step by (fastforce simp: memories_authorized_def)

lemma memories_authorized_materialize:
  "memories_authorized ops (db, m) \<Longrightarrow>
   memories_authorized ops (db, snd (materialize_memory_write_in_transaction env now i db m))"
  using materialize_events by (fastforce simp: memories_authorized_def)

lemma memories_authorized_more:
  "memories_authorized ops d \<Longrightarrow> set ops \<subseteq> set ops' \<Longrightarrow> memories_authorized ops' d"
  by (fastforce simp: memories_authorized_def)

lemma write_memory_events:
  "e \<in> set (md_events (write_memory_mutation env recorded_at body request_id m)) \<Longrightarrow>
   e \<in> set (md_events m) \<or> filed_by e (RvWrite env recorded_at body request_id)"
  by (auto simp: write_memory_mutation_def insert_event_at_def insert_snapshot_def insert_audit_def Let_def
      split: option.splits)

lemma promote_fact_events:
  "e \<in> set (md_events (promote_fact env recorded_at memory_id snapshot attempt_id agent_id kind content m)) \<Longrightarrow>
   e \<in> set (md_events m) \<or> filed_by e (RvPromote env recorded_at memory_id snapshot attempt_id agent_id kind content)"
  by (auto simp: promote_fact_def insert_event_at_def insert_snapshot_def insert_audit_def)

lemma memories_authorized_step:
  fixes op :: "'n review_op"
  assumes "memories_authorized ops d"
  shows "memories_authorized (ops @ [op]) (review_step d op)"
proof -
  obtain db m where d: "d = (db, m)" by (cases d)
  have ok: "memories_authorized (ops @ [op]) (db, m)" using assms d by (auto intro: memories_authorized_more)
  show ?thesis
  proof (cases op)
    case (RvGoal g)
    with ok d memories_authorized_goal show ?thesis by simp
  next
    case (RvPersist env u1 u2 now r)
    let ?db = "goal_step db (GoInsert (goal_env.truncate env) (me_rfc3339 env now) u1 u2 r)"
    have ok1: "memories_authorized (ops @ [op]) (?db, m)" using ok memories_authorized_goal by blast
    from memories_authorized_materialize[OF this] ok1 show ?thesis
      by (auto simp: RvPersist d persist_proposal_def split: prod.splits sum.splits)
  next
    case (RvDecide env u now now' i decision body actor cx)
    let ?pre = "decision_preconditions body actor cx" and ?at = "me_rfc3339 env now"
    have ok1: "memories_authorized (ops @ [op]) (db', m)"
      if "resolve_human_decision_in_transaction u i decision ?pre ?at db = Inr (x, db')" for x db'
      using memories_authorized_goal[of "ops @ [op]" db m "GoHuman u i decision ?pre ?at :: 'n goal_op"] ok that
      by (simp add: in_transaction_def)
    show ?thesis
    proof (cases "resolve_human_decision_in_transaction u i decision ?pre ?at db")
      case (Inl e)
      then show ?thesis using ok by (simp add: RvDecide d goal_decision_mutation_def split: prod.splits sum.splits)
    next
      case (Inr r)
      obtain x db' where r: "r = (x, db')" by (cases r)
      note ok2 = ok1[OF Inr[unfolded r]]
      from memories_authorized_materialize[OF this, of env now' i] ok ok2 Inr r show ?thesis
        by (auto simp: RvDecide d goal_decision_mutation_def Let_def split: prod.splits sum.splits if_splits)
    qed
  next
    case (RvWrite env recorded_at body request_id)
    with ok show ?thesis
      using write_memory_events[of _ env recorded_at body request_id m] unfolding memories_authorized_def d
      by fastforce
  next
    case (RvPromote env recorded_at memory_id snapshot attempt_id agent_id kind content)
    with ok show ?thesis
      using promote_fact_events[of _ env recorded_at memory_id snapshot attempt_id agent_id kind content m]
      unfolding memories_authorized_def d by fastforce
  qed
qed

text \<open>
  C28. An agent's proposals write memories only with a decision. Start from empty memories on fresh or
  cleanly migrated proposal tables, and let proposals be filed and decided, memories be written through
  the API and speculative facts be promoted, in any order. Then every memory event either carries the
  content of a memory proposal of the same agent that is approved, by a human or automatically (and,
  since decisions are final, remains so), or is the very event that one of those API requests or
  promotions filed: the same memory, type, text and actor. So materializing proposals, the only other
  writer, adds nothing that was not approved.
\<close>

theorem memory_needs_approval:
  fixes ops :: "'n review_op list"
  assumes "start_tables env db0" "none_behind db0"
    and "(db, m) = foldl review_step (db0, memory_db_new) ops" "e \<in> set (md_events m)"
  shows "event_authorized e db \<or> (\<exists>op \<in> set ops. filed_by e op)"
proof -
  have "memories_authorized ops (foldl review_step (db0, memory_db_new) ops)"
  proof (induction ops rule: rev_induct)
    case Nil
    then show ?case using start_tables_ok[OF assms(1,2)] by (simp add: memories_authorized_def memory_db_new_def)
  next
    case (snoc op ops)
    then show ?case by (simp add: memories_authorized_step)
  qed
  with assms(3,4) show ?thesis by (simp add: memories_authorized_def flip: assms(3))
qed

subsection \<open>Materializing once\<close>

lemma present_after_write:
  assumes "snapshots_readable env"
  shows "materialization_already_present env memory_id i (write_memory env now p memory_id content m) \<longleftrightarrow>
    materialization_already_present env memory_id i m \<or>
    str_arg ''source_proposal_id'' (with_provenance p content) = Some i"
  using assms
  by (auto simp: materialization_already_present_def write_memory_def insert_event_at_def insert_snapshot_def insert_audit_def
      Let_def snapshots_readable_def build_memory_snapshot_def)

lemma provenance_own:
  "str_arg ''source_proposal_id'' (with_provenance p (JObject fs)) =
     (if ''source_proposal_id'' \<in> fst ` set fs then str_arg ''source_proposal_id'' (JObject fs) else Some (mp_proposal_id p))"
proof -
  have other: "map_of (field_or_insert k v gs) j = (if j = k \<and> k \<notin> fst ` set gs then Some v else map_of gs j)" for k j and v :: "'a json" and gs
    using map_of_eq_None_iff[of gs k] by (auto simp: field_or_insert_def map_add_def split: option.splits)
  show ?thesis by (simp add: str_arg_def other)
qed

text \<open>
  A proposal whose content is an object without a \<^verbatim>\<open>source_proposal_id\<close> of its own is written to memory once,
  however often it is materialized; otherwise every materialization writes again, unless the content
  names the proposal itself.
\<close>

theorem materialized_once:
  assumes "snapshots_readable env" "load_materializable_proposal i db = Some p" "mp_proposal_id p = i"
    and "ge_parse_json env (mp_content p) = Some content"
    and "materialize_memory_write_in_transaction env now i db m = (Inr (Some memory_id), m1)" "m1 \<noteq> m"
  shows "(snd (materialize_memory_write_in_transaction env now' i db m1) = m1 \<longleftrightarrow>
      str_arg ''source_proposal_id'' (with_provenance p content) = Some i) \<and>
    (\<forall>fs. content = JObject fs \<longrightarrow> ''source_proposal_id'' \<notin> fst ` set fs \<longrightarrow>
      snd (materialize_memory_write_in_transaction env now' i db m1) = m1)"
proof -
  have mid: "memory_id = derive_memory_id env p content"
    and new: "\<not> materialization_already_present env memory_id i m" "m1 = write_memory env now p memory_id content m"
    and pre: "mp_operation p = ''MemoryWrite''" "mp_current_state p \<in> active_states"
    using assms(2-6) by (auto simp: materialize_memory_write_in_transaction_def Let_def split: if_splits)
  have again: "snd (materialize_memory_write_in_transaction env now' i db m1) =
      (if materialization_already_present env memory_id i m1 then m1 else write_memory env now' p memory_id content m1)"
    using assms(2-4) pre mid by (simp add: materialize_memory_write_in_transaction_def Let_def)
  have "write_memory env now' p memory_id content m1 \<noteq> m1"
    by (auto simp: write_memory_def insert_event_at_def insert_snapshot_def insert_audit_def Let_def dest: arg_cong[of _ _ md_audit])
  then have iff: "snd (materialize_memory_write_in_transaction env now' i db m1) = m1 \<longleftrightarrow>
      str_arg ''source_proposal_id'' (with_provenance p content) = Some i"
    unfolding again using present_after_write[OF assms(1), of memory_id i now p content m] new by simp
  have "str_arg ''source_proposal_id'' (with_provenance p content) = Some i"
    if "content = JObject fs" "''source_proposal_id'' \<notin> fst ` set fs" for fs
    using provenance_own[of p fs] assms(3) that by simp
  with iff show ?thesis by blast
qed

text \<open>
  The mark that a proposal is materialized is taken from the content, which the agent wrote: an
  approved proposal whose content names another proposal keeps that one, approved later for the same memory,
  from being written.
\<close>

theorem foreign_mark_blocks_memory:
  assumes "snapshots_readable env" "load_materializable_proposal i db = Some p"
    and "ge_parse_json env (mp_content p) = Some (JObject fs)" "map_of fs ''source_proposal_id'' = Some (JString j)"
    and "materialize_memory_write_in_transaction env now i db m = (Inr (Some memory_id), m1)" "m1 \<noteq> m"
    and "load_materializable_proposal j db' = Some q" "mp_proposal_id q = j"
    and "materialize_memory_write_in_transaction env now' j db' m1 = (Inr (Some memory_id), m2)"
  shows "m2 = m1"
proof -
  have m1: "m1 = write_memory env now p memory_id (JObject fs) m"
    using assms(2,3,5,6) by (auto simp: materialize_memory_write_in_transaction_def Let_def split: if_splits)
  have "''source_proposal_id'' \<in> fst ` set fs" using assms(4) by (force dest: map_of_SomeD)
  then have "str_arg ''source_proposal_id'' (with_provenance p (JObject fs)) = Some j"
    using provenance_own[of p fs] assms(4) by (simp add: str_arg_def)
  then have "materialization_already_present env memory_id j m1"
    using present_after_write[OF assms(1)] by (simp add: m1)
  with assms(7-9) show ?thesis
    by (auto simp: materialize_memory_write_in_transaction_def Let_def split: option.splits if_splits)
qed

subsection \<open>The answer to a decision\<close>

text \<open>
  C19. A decision on a proposal is answered with 200 exactly when it took effect, and then the state is the
  decision; with 404 exactly when there is no such proposal, with 409 or an error in all other
  cases, and then neither proposals nor memories change.
\<close>

theorem decision_answer_exact:
  fixes ops :: "'n goal_op list" and env :: "'n memory_env"
  assumes db: "db = foldl goal_step goal_db_new ops" and fresh: "u \<notin> tr_id ` set (gd_transitions db)"
    and dec: "decision \<in> {''approved'', ''rejected''}"
    and readable: "\<And>p. load_v2_proposal i db = Some p \<Longrightarrow> ge_parse_json env (v2_content p) \<noteq> None"
    and pre_def: "pre = decision_preconditions body actor cx"
  shows "(case goal_decision_mutation env u now now' i decision body actor cx (db, m) of
      (Inr (status, _), (db', m')) \<Rightarrow>
        (status = 200 \<longleftrightarrow> (\<exists>p. load_v2_proposal i db = Some p \<and> proposal_state i db = Some pending_review \<and>
           hd_expected_state pre = pending_review \<and> review_current pre p)) \<and>
        (status = 200 \<longrightarrow> proposal_state i db' = Some decision) \<and>
        (status = 404 \<longleftrightarrow> load_v2_proposal i db = None) \<and>
        (status \<noteq> 200 \<longrightarrow> status \<in> {404, 409} \<and> db' = db \<and> m' = m)
    | (Inl _, d') \<Rightarrow> d' = (db, m) \<and> hd_expected_state pre \<noteq> pending_review)"
proof -
  note exact = human_decision_exact[OF db fresh, where i = i and decision = decision and pre = pre and at = "me_rfc3339 env now"]
  have ok: "goal_db_ok db" unfolding db by (rule goals.inv_run[OF goal_db_ok_new])
  show ?thesis
  proof (cases "resolve_human_decision_in_transaction u i decision pre (me_rfc3339 env now) db")
    case (Inl e)
    have no: "\<not> (\<exists>p. load_v2_proposal i db = Some p \<and> proposal_state i db = Some pending_review \<and>
        hd_expected_state pre = pending_review \<and> review_current pre p)" using exact Inl dec by auto
    have nf: "e = HdNotFound \<longleftrightarrow> load_v2_proposal i db = None"
      using Inl unfolding resolve_human_decision_in_transaction_def Let_def
      by (auto split: option.splits if_splits sum.splits)
    have st: "hd_expected_state pre \<noteq> pending_review" if "e = HdStorage x" for x
    proof
      assume "hd_expected_state pre = pending_review"
      from Inl that this obtain p where p: "load_v2_proposal i db = Some p" "state_or_pending i db = pending_review" "review_current pre p"
        unfolding resolve_human_decision_in_transaction_def Let_def
        by (auto simp: review_current_def split: option.splits if_splits sum.splits)
      with no known_state(1)[OF ok p(1)] \<open>hd_expected_state pre = pending_review\<close> show False by auto
    qed
    from Inl have mut: "goal_decision_mutation env u now now' i decision body actor cx (db, m) = (decision_error_response i e, (db, m))"
      by (simp add: goal_decision_mutation_def Let_def pre_def)
    show ?thesis unfolding mut using no nf st
      by (cases e) (auto simp: stale_decision_response_def)
  next
    case (Inr r)
    then obtain db' where r: "resolve_human_decision_in_transaction u i decision pre (me_rfc3339 env now) db = Inr ((), db')"
      by (cases r) auto
    from exact r obtain p where p: "load_v2_proposal i db = Some p" "proposal_state i db = Some pending_review"
      "hd_expected_state pre = pending_review" "review_current pre p" "proposal_state i db' = Some decision" by auto
    have "load_v2_proposal i db' = Some p"
      using human_decision_success[OF ok r] apply_decision_effect(1) p(1) by (metis load_v2_proposal_def)
    then have "\<exists>x m'. materialize_memory_write_in_transaction env now' i db' m = (Inr x, m')"
      using readable[OF p(1)]
      by (auto simp: materialize_memory_write_in_transaction_def load_materializable_proposal_def load_v2_proposal_def Let_def
          split: option.splits)
    then obtain x m' where "materialize_memory_write_in_transaction env now' i db' m = (Inr x, m')" by blast
    with r p show ?thesis by (simp add: goal_decision_mutation_def Let_def pre_def)
  qed
qed

subsection \<open>Proposals left behind by the backfill\<close>

text \<open>
  The two derivations of a proposal's identity agree unless the content has an empty subject key.
\<close>

theorem backfill_identity_agrees:
  assumes "str_arg ''subject_key'' content \<noteq> Some []"
  shows "backfill_identity env operation target_type content proposal_id session_id =
    derive_identity env operation target_type content proposal_id session_id"
  using assms by (auto simp: backfill_identity_def derive_identity_def nonempty_field_def split: option.splits list.splits)

text \<open>
  A proposal that waits for a review without being the head of its subject is out of reach of
  reviewers, whatever they send; only the resolution without preconditions decides it, and that
  makes it the head again, in place of the newer proposal.
\<close>

theorem waiting_behind_head:
  assumes "load_v2_proposal i db = Some p" "proposal_state i db = Some pending_review"
    and "load_lineage_head (v2_subject_type p) (v2_subject_key p) db = Some h" "lh_head_proposal_id h \<noteq> i"
  shows "(\<exists>e. resolve_human_decision_in_transaction u i decision pre tm db = Inl e) \<and>
    (resolve_proposal u i decision' resolver tm' db = (Inr True, db') \<longrightarrow> is_head i p db' \<and> proposal_state i db' \<noteq> Some pending_review)"
proof (intro conjI impI)
  show "\<exists>e. resolve_human_decision_in_transaction u i decision pre tm db = Inl e"
    using assms by (auto simp: resolve_human_decision_in_transaction_def Let_def)
next
  assume "resolve_proposal u i decision' resolver tm' db = (Inr True, db')"
  then obtain target reason where r: "resolve_target decision' = Some (target, reason)"
    "apply_decision (decision_transition u i p pending_review target (actor_type_for_transition target resolver)
         (Some resolver) reason tm') p decision' resolver db = Inr db'"
    using assms(1) by (auto simp: resolve_proposal_def in_transaction_def resolve_proposal_in_transaction_def
        split: if_splits option.splits sum.splits)
  note eff = apply_decision_effect[OF r(2)]
  show "is_head i p db'" by (simp add: is_head_def load_lineage_head_def eff(3))
  have "target \<noteq> pending_review" using resolve_target_terminal[OF r(1)] pending_not_terminal by metis
  then show "proposal_state i db' \<noteq> Some pending_review" by (simp add: state_append(1)[OF eff(2)])
qed

subsection \<open>Instances\<close>

definition goal_sample_env :: "unit memory_env" where
  "goal_sample_env =
     \<lparr>ge_parse_json = (\<lambda>s. Some (JObject ((''subject_key'', JString ''k'') #
         (if s = ''forged'' then [(''source_proposal_id'', JString ''p2'')] else [])))),
      ge_json_text = (\<lambda>v. if json_get ''source_proposal_id'' v = None then ''plain'' else ''forged''),
      ge_blake3_hex = (\<lambda>s. s), me_is_uuid = (\<lambda>_. False), me_canonical_uuid = (\<lambda>s. s), me_uuid_v5 = (\<lambda>s. s),
      me_unquote = Some, me_number_f64 = (\<lambda>_. None), me_rfc3339 = (\<lambda>_. ''t''), me_parse_rfc3339 = (\<lambda>_. None),
      me_snapshot_text = (\<lambda>m. case str_arg ''source_proposal_id'' (bm_content m) of Some s \<Rightarrow> CHR ''s'' # s | None \<Rightarrow> []),
      me_source = (\<lambda>s. case s of [] \<Rightarrow> None | _ # r \<Rightarrow> Some r), me_hash = (\<lambda>_. [])\<rparr>"

definition goal_sample_record :: "string \<Rightarrow> string \<Rightarrow> string \<Rightarrow> new_proposal_record" where
  "goal_sample_record i content decision =
     \<lparr>nr_proposal_id = i, nr_proposal_agent_id = ''a'', nr_session_id = ''s'', nr_proposer_type = ''Agent'',
      nr_operation = ''MemoryWrite'', nr_target_type = ''Core'', nr_content = content, nr_cited_memory_ids = ''[]'',
      nr_decision = decision, nr_event_hash = [], nr_previous_hash = [], nr_created_at = Some ''t'',
      nr_operation_id = None, nr_request_id = None\<rparr>"

definition goal_sample_ops :: "unit goal_op list" where
  "goal_sample_ops =
     [GoInsert (goal_env.truncate goal_sample_env) ''t'' ''u1'' ''u2'' (goal_sample_record ''p1'' ''plain'' ''HumanReviewRequired''),
      GoInsert (goal_env.truncate goal_sample_env) ''t'' ''u3'' ''u4'' (goal_sample_record ''p2'' ''plain'' ''HumanReviewRequired'')]"

definition goal_sample_db :: goal_db where
  "goal_sample_db = foldl goal_step goal_db_new goal_sample_ops"

lemmas goal_eval =
  goal_env.truncate_def goal_sample_env_def goal_sample_record_def insert_proposal_record_with_outcome_def in_transaction_def
  insert_proposal_record_in_transaction_def derive_identity_def identity_of_subject_def nonempty_field_def str_arg_def
  map_decision_def load_lineage_head_def superseded_head_def insert_legacy_projection_def insert_v2_def new_v2_row_def
  supersede_old_def insert_transition_def created_transition_def upsert_lineage_head_def resolve_legacy_def
  proposal_transitions_def terminal_states_def pending_review_def bt_contains_def stable_lineage_id_def field_or_insert_def
  field_insert_def goal_db_new_def Let_def

lemma goal_sample_facts:
  "\<exists>p. load_v2_proposal ''p2'' goal_sample_db = Some p \<and> v2_lineage_id p = ''ln_Core:k'' \<and> v2_subject_key p = ''k'' \<and>
     v2_reviewed_revision p = ''legacy:unreviewed'' \<and> v2_content p = ''plain''"
  "\<exists>p. load_v2_proposal ''p1'' goal_sample_db = Some p"
  "proposal_state ''p2'' goal_sample_db = Some pending_review" "proposal_state ''p1'' goal_sample_db = Some ''superseded''"
  "tr_id ` set (gd_transitions goal_sample_db) = {''u2'', ''u3'', ''u4''}"
  unfolding goal_sample_db_def goal_sample_ops_def foldl_Cons foldl_Nil goal_step.simps
  by (simp_all add: goal_eval load_v2_proposal_def proposal_state_def)

lemma goal_sample_history: "proposal_history ''p1'' goal_sample_db = [(None, pending_review), (Some pending_review, ''superseded'')]"
  unfolding goal_sample_db_def goal_sample_ops_def foldl_Cons foldl_Nil goal_step.simps
  by (simp add: goal_eval proposal_history_def)

theorem proposal_decided_once_witness:
  "proposal_history ''p1'' goal_sample_db = [(None, pending_review), (Some pending_review, ''superseded'')] \<and>
   (\<forall>ops' :: unit goal_op list. proposal_state ''p1'' (foldl goal_step goal_sample_db ops') = Some ''superseded'')"
proof -
  obtain p where p: "load_v2_proposal ''p1'' goal_sample_db = Some p" using goal_sample_facts(2) by blast
  note once = proposal_decided_once[OF goal_sample_db_def p]
  have "proposal_state ''p1'' goal_sample_db \<noteq> Some pending_review" using goal_sample_facts(4) by (simp add: pending_review_def)
  with once show ?thesis using goal_sample_facts(4)
    by (auto simp: decided_at_most_once_def state_of_history pending_review_def goal_sample_history)
qed

theorem one_open_review_witness: "\<exists>p. load_v2_proposal ''p2'' goal_sample_db = Some p \<and> is_head ''p2'' p goal_sample_db"
  using one_open_review[OF start_tables.fresh[of "goal_env.truncate goal_sample_env"] none_behind_new goal_sample_db_def] goal_sample_facts(1,3) by blast

definition goal_sample_body :: goal_decision_request_body where
  "goal_sample_body = \<lparr>gb_expected_state = pending_review, gb_expected_lineage_id = ''ln_Core:k'', gb_expected_subject_key = ''k'',
     gb_expected_reviewed_revision = ''legacy:unreviewed'', gb_rationale = None\<rparr>"

definition goal_sample_context :: operation_context where
  "goal_sample_context = \<lparr>oc_request_id = ''q'', oc_operation_id = None, oc_idempotency_key = None, oc_idempotency_status = None,
     oc_is_mutating = True, oc_client_supplied_operation_id = False, oc_client_supplied_idempotency_key = False\<rparr>"

theorem decision_answer_exact_witness:
  "\<exists>body db' m'. goal_decision_mutation goal_sample_env ''u9'' 1 1 ''p2'' ''approved'' goal_sample_body ''actor'' goal_sample_context
      (goal_sample_db, memory_db_new) = (Inr (200, body), (db', m')) \<and> proposal_state ''p2'' db' = Some ''approved''"
proof -
  obtain p where p: "load_v2_proposal ''p2'' goal_sample_db = Some p" "v2_lineage_id p = ''ln_Core:k''" "v2_subject_key p = ''k''"
    "v2_reviewed_revision p = ''legacy:unreviewed''" "v2_content p = ''plain''" using goal_sample_facts(1) by blast
  have cur: "review_current (decision_preconditions goal_sample_body ''actor'' goal_sample_context) p"
    "hd_expected_state (decision_preconditions goal_sample_body ''actor'' goal_sample_context) = pending_review"
    using p by (simp_all add: review_current_def decision_preconditions_def goal_sample_body_def)
  have "ge_parse_json goal_sample_env (v2_content q) \<noteq> None" for q :: goal_v2_row by (simp add: goal_sample_env_def)
  from decision_answer_exact[OF goal_sample_db_def _ _ this refl, where u = "''u9''" and i = "''p2''" and decision = "''approved''"
      and body = goal_sample_body and actor = "''actor''" and cx = goal_sample_context and now = 1 and now' = 1 and m = memory_db_new]
  show ?thesis using goal_sample_facts(3,5) p(1) cur
    by (auto split: prod.splits sum.splits)
qed

theorem memory_needs_approval_witness:
  "\<exists>db m e. (db, m) = foldl review_step (goal_db_new, memory_db_new)
       [RvPersist goal_sample_env ''u1'' ''u2'' 1 (goal_sample_record ''p1'' ''plain'' ''AutoApproved'')] \<and>
     md_events m = [e] \<and> event_authorized e db"
proof -
  let ?ops = "[RvPersist goal_sample_env ''u1'' ''u2'' 1 (goal_sample_record ''p1'' ''plain'' ''AutoApproved'')]"
  obtain db m where run: "(db, m) = foldl review_step (goal_db_new, memory_db_new) ?ops" by (metis prod.exhaust_sel)
  then have "\<exists>e. md_events m = [e]"
    by (simp add: persist_proposal_def goal_eval materialize_memory_write_in_transaction_def load_materializable_proposal_def
        active_states_def derive_memory_id_def materialization_already_present_def memory_db_new_def write_memory_def
        insert_event_at_def insert_snapshot_def insert_audit_def proposal_state_def)
  then obtain e where "md_events m = [e]" by blast
  with memory_needs_approval[OF start_tables.fresh[of "goal_env.truncate goal_sample_env"] none_behind_new run, of e] run show ?thesis by auto
qed

text \<open>Two old proposals on one subject, both undecided: after the backfill the first waits behind the second.\<close>

definition legacy_sample_row :: "string \<Rightarrow> string \<Rightarrow> goal_proposal_row" where
  "legacy_sample_row i created =
     \<lparr>gp_id = i, gp_agent_id = ''a'', gp_session_id = ''s'', gp_proposer_type = ''Agent'', gp_operation = ''GoalChange'',
      gp_target_type = ''Core'', gp_content = ''plain'', gp_cited_memory_ids = ''[]'', gp_decision = None,
      gp_resolved_at = None, gp_resolver = None, gp_flags = None, gp_dimension_scores = None, gp_denial_reason = None,
      gp_event_hash = [], gp_previous_hash = [], gp_created_at = created\<rparr>"

definition legacy_sample_db :: goal_db where
  "legacy_sample_db = goal_db_new\<lparr>gd_proposals := bt_insert ''p1'' (legacy_sample_row ''p1'' ''1'')
     (bt_insert ''p2'' (legacy_sample_row ''p2'' ''2'') bt_new)\<rparr>"

lemma legacy_sample_backfill:
  "\<exists>db p h. backfill_legacy_goal_proposals (goal_env.truncate goal_sample_env) legacy_sample_db = Inr db \<and>
     load_v2_proposal ''p1'' db = Some p \<and> proposal_state ''p1'' db = Some pending_review \<and>
     load_lineage_head (v2_subject_type p) (v2_subject_key p) db = Some h \<and> lh_head_proposal_id h \<noteq> ''p1''"
proof -
  have "bt_values (gd_proposals legacy_sample_db) = [legacy_sample_row ''p1'' ''1'', legacy_sample_row ''p2'' ''2'']"
    by (simp add: legacy_sample_db_def bt_values_def bt_insert.rep_eq bt_new.rep_eq)
  then have rows: "created_order (bt_values (gd_proposals legacy_sample_db)) = [legacy_sample_row ''p1'' ''1'', legacy_sample_row ''p2'' ''2'']"
    by (simp add: created_order_def legacy_sample_row_def)
  show ?thesis
    unfolding backfill_legacy_goal_proposals_def rows
    by (simp add: backfill_row_def backfill_v2_row_def backfill_transition_def backfill_head_def backfill_decision_def
        backfill_identity_def goal_eval legacy_sample_row_def legacy_sample_db_def load_v2_proposal_def
        proposal_state_def)
qed

theorem waiting_behind_head_witness:
  "\<exists>db p. backfill_legacy_goal_proposals (goal_env.truncate goal_sample_env) legacy_sample_db = Inr db \<and>
     load_v2_proposal ''p1'' db = Some p \<and>
     (\<forall>u decision pre tm. \<exists>e. resolve_human_decision_in_transaction u ''p1'' decision pre tm db = Inl e)"
proof -
  obtain db p h where w: "backfill_legacy_goal_proposals (goal_env.truncate goal_sample_env) legacy_sample_db = Inr db"
    "load_v2_proposal ''p1'' db = Some p" "proposal_state ''p1'' db = Some pending_review"
    "load_lineage_head (v2_subject_type p) (v2_subject_key p) db = Some h" "lh_head_proposal_id h \<noteq> ''p1''"
    using legacy_sample_backfill by blast
  from waiting_behind_head[OF w(2-5)] w(1,2) show ?thesis by blast
qed

end
