(* ===== verification/Pc_Safety.thy ===== *)
theory Pc_Safety
  imports Prelude Float64 Json_Canonical
begin

section \<open>The safety layer of computer control\<close>

text \<open>
  \<^verbatim>\<open>ghost-pc-control/src/safety\<close> (the circuit breaker, the validation of clicks, hotkeys and applications,
  the policy and its defaults), the autonomy dial \<^verbatim>\<open>ghost-skills/src/autonomy.rs\<close> and the errors of
  \<^verbatim>\<open>ghost-skills/src/skill.rs\<close>. Coordinates are 32-bit words read as signed. Texts are ASCII, so
  \<^verbatim>\<open>to_lowercase\<close> maps each character. One reading of the clock serves a whole call.
\<close>

datatype skill_error =
    ConvergenceTooHigh u8 u8
  | BudgetExhausted u32 u32
  | AppNotAllowed string "string list"
  | UserDenied
  | InvalidInput string
  | SkillStorage string
  | PlatformNotSupported string
  | AuthorizationDenied string
  | ExecutionTimedOut string
  | ResourceExhausted string
  | SandboxViolated string
  | ReflectionConstraint string
  | DelegationFailed string
  | PcControlBlocked string
  | CircuitBreakerOpen string
  | SkillInternal string

fun skill_error_code :: "skill_error \<Rightarrow> string" where
  "skill_error_code (ConvergenceTooHigh _ _) = ''CONVERGENCE_TOO_HIGH''"
| "skill_error_code (BudgetExhausted _ _) = ''BUDGET_EXHAUSTED''"
| "skill_error_code (AppNotAllowed _ _) = ''APP_NOT_ALLOWED''"
| "skill_error_code UserDenied = ''USER_DENIED''"
| "skill_error_code (InvalidInput _) = ''INVALID_INPUT''"
| "skill_error_code (SkillStorage _) = ''STORAGE_ERROR''"
| "skill_error_code (PlatformNotSupported _) = ''PLATFORM_NOT_SUPPORTED''"
| "skill_error_code (AuthorizationDenied _) = ''AUTHORIZATION_DENIED''"
| "skill_error_code (ExecutionTimedOut _) = ''EXECUTION_TIMED_OUT''"
| "skill_error_code (ResourceExhausted _) = ''RESOURCE_EXHAUSTED''"
| "skill_error_code (SandboxViolated _) = ''SANDBOX_VIOLATION''"
| "skill_error_code (ReflectionConstraint _) = ''REFLECTION_CONSTRAINT''"
| "skill_error_code (DelegationFailed _) = ''DELEGATION_FAILED''"
| "skill_error_code (PcControlBlocked _) = ''PC_CONTROL_BLOCKED''"
| "skill_error_code (CircuitBreakerOpen _) = ''CIRCUIT_BREAKER_OPEN''"
| "skill_error_code (SkillInternal _) = ''INTERNAL_ERROR''"

subsection \<open>The autonomy dial\<close>

datatype autonomy_level = ObserveAndSuggest | PlanAndPropose | ActWithConfirmation | ActAutonomously

fun autonomy_as_u8 :: "autonomy_level \<Rightarrow> nat" where
  "autonomy_as_u8 ObserveAndSuggest = 0"
| "autonomy_as_u8 PlanAndPropose = 1"
| "autonomy_as_u8 ActWithConfirmation = 2"
| "autonomy_as_u8 ActAutonomously = 3"

definition autonomy_from_u8 :: "nat \<Rightarrow> autonomy_level option" where
  "autonomy_from_u8 v =
     (if v = 0 then Some ObserveAndSuggest else if v = 1 then Some PlanAndPropose
      else if v = 2 then Some ActWithConfirmation else if v = 3 then Some ActAutonomously else None)"

definition max_for_convergence :: "f64 \<Rightarrow> autonomy_level" where
  "max_for_convergence score =
     (if f64_lt score (Finite (3 / 10)) then ActAutonomously
      else if f64_lt score (Finite (5 / 10)) then ActWithConfirmation
      else if f64_lt score (Finite (7 / 10)) then PlanAndPropose
      else ObserveAndSuggest)"

definition effective_autonomy :: "autonomy_level \<Rightarrow> f64 \<Rightarrow> autonomy_level" where
  "effective_autonomy l score =
     (let m = max_for_convergence score in if autonomy_as_u8 l \<le> autonomy_as_u8 m then l else m)"

definition requires_confirmation :: "autonomy_level \<Rightarrow> bool" where
  "requires_confirmation l \<longleftrightarrow> l \<in> {ObserveAndSuggest, PlanAndPropose, ActWithConfirmation}"

definition can_execute :: "autonomy_level \<Rightarrow> bool" where
  "can_execute l \<longleftrightarrow> l \<noteq> ObserveAndSuggest"

instantiation autonomy_level :: linorder
begin

definition less_eq_autonomy_level :: "autonomy_level \<Rightarrow> autonomy_level \<Rightarrow> bool" where
  "less_eq_autonomy_level a b \<longleftrightarrow> autonomy_as_u8 a \<le> autonomy_as_u8 b"

definition less_autonomy_level :: "autonomy_level \<Rightarrow> autonomy_level \<Rightarrow> bool" where
  "less_autonomy_level a b \<longleftrightarrow> autonomy_as_u8 a < autonomy_as_u8 b"

instance
proof
  fix a b c :: autonomy_level
  show "a < b \<longleftrightarrow> a \<le> b \<and> \<not> b \<le> a" by (auto simp: less_eq_autonomy_level_def less_autonomy_level_def)
  show "a \<le> a" by (simp add: less_eq_autonomy_level_def)
  show "a \<le> b \<Longrightarrow> b \<le> c \<Longrightarrow> a \<le> c" by (simp add: less_eq_autonomy_level_def)
  show "a \<le> b \<Longrightarrow> b \<le> a \<Longrightarrow> a = b" by (cases a; cases b) (simp_all add: less_eq_autonomy_level_def)
  show "a \<le> b \<or> b \<le> a" by (auto simp: less_eq_autonomy_level_def)
qed

end

subsection \<open>The circuit breaker\<close>

datatype pc_circuit_state = PcClosed | PcOpen | PcHalfOpen

record pc_breaker =
  pcb_recent_actions :: "instant list"
  pcb_rate_limit :: u32
  pcb_failure_count :: u32
  pcb_failure_threshold :: u32
  pcb_state :: pc_circuit_state
  pcb_tripped_at :: "instant option"
  pcb_cooldown :: duration

definition pc_breaker_new :: "u32 \<Rightarrow> u32 \<Rightarrow> duration \<Rightarrow> pc_breaker" where
  "pc_breaker_new rate_limit failure_threshold cooldown =
     \<lparr>pcb_recent_actions = [], pcb_rate_limit = rate_limit, pcb_failure_count = 0,
      pcb_failure_threshold = failure_threshold, pcb_state = PcClosed, pcb_tripped_at = None,
      pcb_cooldown = cooldown\<rparr>"

definition pc_trip :: "instant \<Rightarrow> pc_breaker \<Rightarrow> pc_breaker" where
  "pc_trip now b = b\<lparr>pcb_state := PcOpen, pcb_tripped_at := Some now\<rparr>"

definition pc_record_action :: "instant \<Rightarrow> pc_breaker \<Rightarrow> pc_breaker" where
  "pc_record_action now b = b\<lparr>pcb_recent_actions := pcb_recent_actions b @ [now]\<rparr>"

text \<open>The loop that pops actions from the front while they are a second old or more.\<close>

definition drop_stale :: "instant \<Rightarrow> instant list \<Rightarrow> instant list" where
  "drop_stale now ts = dropWhile (\<lambda>t. from_secs 1 \<le> now - t) ts"

definition pc_check :: "instant \<Rightarrow> pc_breaker \<Rightarrow> (skill_error + unit) \<times> pc_breaker" where
  "pc_check now b =
     (case pcb_state b of
        PcOpen \<Rightarrow>
          (case pcb_tripped_at b of
             Some t \<Rightarrow>
               if pcb_cooldown b \<le> elapsed now t
               then (Inr (), pc_record_action now (b\<lparr>pcb_state := PcHalfOpen\<rparr>))
               else (Inl (CircuitBreakerOpen ''circuit breaker open, cooldown remaining''), b)
           | None \<Rightarrow> (Inl (CircuitBreakerOpen ''circuit breaker open''), b))
      | PcHalfOpen \<Rightarrow> (Inr (), pc_record_action now b)
      | PcClosed \<Rightarrow>
          (let b1 = b\<lparr>pcb_recent_actions := drop_stale now (pcb_recent_actions b @ [now])\<rparr>
           in if unat (pcb_rate_limit b) < length (pcb_recent_actions b1)
              then (Inl (CircuitBreakerOpen ''rate limit exceeded''), pc_trip now b1)
              else (Inr (), b1)))"

definition pc_record_success :: "pc_breaker \<Rightarrow> pc_breaker" where
  "pc_record_success b =
     (let b1 = b\<lparr>pcb_failure_count := 0\<rparr>
      in if pcb_state b1 = PcHalfOpen then b1\<lparr>pcb_state := PcClosed, pcb_tripped_at := None\<rparr> else b1)"

definition pc_record_failure :: "instant \<Rightarrow> pc_breaker \<Rightarrow> pc_breaker" where
  "pc_record_failure now b =
     (let b1 = b\<lparr>pcb_failure_count := pcb_failure_count b + 1\<rparr>
      in if pcb_state b1 = PcHalfOpen then pc_trip now b1
         else if pcb_failure_threshold b1 \<le> pcb_failure_count b1 then pc_trip now b1
         else b1)"

definition pc_reset :: "pc_breaker \<Rightarrow> pc_breaker" where
  "pc_reset b =
     b\<lparr>pcb_state := PcClosed, pcb_failure_count := 0, pcb_tripped_at := None, pcb_recent_actions := []\<rparr>"

definition u32_saturating_add :: "u32 \<Rightarrow> u32 \<Rightarrow> u32" where
  "u32_saturating_add a b = (if 2 ^ 32 \<le> unat a + unat b then - 1 else a + b)"

definition pc_reconfigure :: "u32 \<Rightarrow> u32 \<Rightarrow> duration \<Rightarrow> pc_breaker \<Rightarrow> pc_breaker" where
  "pc_reconfigure rate_limit failure_threshold cooldown b =
     b\<lparr>pcb_rate_limit := rate_limit, pcb_failure_threshold := failure_threshold, pcb_cooldown := cooldown,
       pcb_recent_actions := take (unat (u32_saturating_add rate_limit 1)) (pcb_recent_actions b)\<rparr>"

subsection \<open>Validation\<close>

type_synonym i32 = "32 word"

record screen_region =
  sr_x :: i32
  sr_y :: i32
  sr_width :: u32
  sr_height :: u32

definition region_contains :: "screen_region \<Rightarrow> i32 \<Rightarrow> i32 \<Rightarrow> bool" where
  "region_contains z px py \<longleftrightarrow>
     sint (sr_x z) \<le> sint px \<and> sint (sr_y z) \<le> sint py \<and>
     sint px < sint (sr_x z) + uint (sr_width z) \<and> sint py < sint (sr_y z) + uint (sr_height z)"

record pc_policy =
  pp_enabled :: bool
  pp_allowed_apps :: "string list"
  pp_safe_zone :: "screen_region option"
  pp_blocked_hotkeys :: "string list"

datatype validation_result = Allowed | Denied string

definition normalize_snapshot :: "pc_policy \<Rightarrow> pc_policy" where
  "normalize_snapshot p = p\<lparr>pp_blocked_hotkeys := map to_lowercase (pp_blocked_hotkeys p)\<rparr>"

definition validate_app_snapshot :: "pc_policy \<Rightarrow> string \<Rightarrow> validation_result" where
  "validate_app_snapshot p app =
     (if pp_allowed_apps p = [] then Denied ''no apps in allowlist''
      else if app \<notin> set (pp_allowed_apps p) then Denied ''app not in allowlist''
      else Allowed)"

definition validate_app :: "pc_policy \<Rightarrow> string \<Rightarrow> validation_result" where
  "validate_app p app = validate_app_snapshot (normalize_snapshot p) app"

definition validate_target :: "pc_policy \<Rightarrow> string option \<Rightarrow> validation_result" where
  "validate_target p target = (case target of Some app \<Rightarrow> validate_app_snapshot p app | None \<Rightarrow> Allowed)"

definition validate_click :: "pc_policy \<Rightarrow> i32 \<Rightarrow> i32 \<Rightarrow> string option \<Rightarrow> validation_result" where
  "validate_click p0 x y target =
     (let p = normalize_snapshot p0
      in case pp_safe_zone p of
           Some z \<Rightarrow> if region_contains z x y then validate_target p target
                     else Denied ''coordinates outside safe zone''
         | None \<Rightarrow> validate_target p target)"

definition validate_drag :: "pc_policy \<Rightarrow> i32 \<Rightarrow> i32 \<Rightarrow> i32 \<Rightarrow> i32 \<Rightarrow> string option \<Rightarrow> validation_result" where
  "validate_drag p0 from_x from_y to_x to_y target =
     (let p = normalize_snapshot p0
      in case pp_safe_zone p of
           Some z \<Rightarrow>
             if \<not> region_contains z from_x from_y then Denied ''drag start outside safe zone''
             else if \<not> region_contains z to_x to_y then Denied ''drag end outside safe zone''
             else validate_target p target
         | None \<Rightarrow> validate_target p target)"

definition validate_hotkey :: "pc_policy \<Rightarrow> string \<Rightarrow> validation_result" where
  "validate_hotkey p0 keys =
     (if to_lowercase keys \<in> set (pp_blocked_hotkeys (normalize_snapshot p0))
      then Denied ''hotkey blocked by safety policy'' else Allowed)"

subsection \<open>Configuration\<close>

record action_budgets =
  ab_mouse_click :: u32
  ab_keyboard_type :: u32
  ab_keyboard_hotkey :: u32
  ab_mouse_drag :: u32
  ab_total :: u32

definition action_budgets_default :: action_budgets where
  "action_budgets_default =
     \<lparr>ab_mouse_click = 200, ab_keyboard_type = 500, ab_keyboard_hotkey = 50, ab_mouse_drag = 20, ab_total = 1000\<rparr>"

record circuit_breaker_config =
  cc_max_actions_per_second :: u32
  cc_failure_threshold :: u32
  cc_cooldown_seconds :: u64

definition circuit_breaker_config_default :: circuit_breaker_config where
  "circuit_breaker_config_default =
     \<lparr>cc_max_actions_per_second = 5, cc_failure_threshold = 3, cc_cooldown_seconds = 30\<rparr>"

definition default_blocked_hotkeys :: "string list" where
  "default_blocked_hotkeys =
     [''Ctrl+Alt+Delete'', ''Cmd+Q'', ''Alt+F4'', ''Ctrl+Shift+Delete'', ''Cmd+Shift+Q'']"

record pc_config =
  pc_enabled :: bool
  pc_allowed_apps :: "string list"
  pc_safe_zone :: "screen_region option"
  pc_budgets :: action_budgets
  pc_blocked_hotkeys :: "string list"
  pc_circuit_breaker :: circuit_breaker_config

definition pc_config_default :: pc_config where
  "pc_config_default =
     \<lparr>pc_enabled = False, pc_allowed_apps = [], pc_safe_zone = None, pc_budgets = action_budgets_default,
      pc_blocked_hotkeys = default_blocked_hotkeys, pc_circuit_breaker = circuit_breaker_config_default\<rparr>"

definition policy_from_config :: "pc_config \<Rightarrow> pc_policy" where
  "policy_from_config c =
     \<lparr>pp_enabled = pc_enabled c, pp_allowed_apps = pc_allowed_apps c, pp_safe_zone = pc_safe_zone c,
      pp_blocked_hotkeys = pc_blocked_hotkeys c\<rparr>"

definition breaker_from_config :: "pc_config \<Rightarrow> pc_breaker" where
  "breaker_from_config c =
     pc_breaker_new (cc_max_actions_per_second (pc_circuit_breaker c)) (cc_failure_threshold (pc_circuit_breaker c))
       (from_secs (unat (cc_cooldown_seconds (pc_circuit_breaker c))))"

subsection \<open>The rate of actions\<close>

text \<open>A skill asks the breaker, acts, and reports success or failure before the next skill asks.\<close>

definition pc_call :: "instant \<Rightarrow> bool \<Rightarrow> pc_breaker \<Rightarrow> bool \<times> pc_breaker" where
  "pc_call now ok b =
     (case pc_check now b of
        (Inl _, b') \<Rightarrow> (False, b')
      | (Inr _, b') \<Rightarrow> (True, if ok then pc_record_success b' else pc_record_failure now b'))"

text \<open>The times of the actions that were let through, last first.\<close>

fun pc_calls :: "(instant \<times> bool) list \<Rightarrow> instant list \<times> pc_breaker \<Rightarrow> instant list \<times> pc_breaker" where
  "pc_calls [] s = s"
| "pc_calls ((now, ok) # es) (adm, b) =
     (case pc_call now ok b of (a, b') \<Rightarrow> pc_calls es (if a then now # adm else adm, b'))"

definition in_second :: "instant \<Rightarrow> instant list \<Rightarrow> instant list" where
  "in_second now ts = filter (\<lambda>t. now < t + from_secs 1) ts"

lemma within_drop_stale:
  assumes "sorted ts" "now \<le> now'"
  shows "in_second now' (drop_stale now ts) = in_second now' ts"
  using assms by (induction ts) (auto simp: in_second_def drop_stale_def from_secs_def)

lemma drop_stale_within: "sorted ts \<Longrightarrow> \<forall>t \<in> set ts. t \<le> now \<Longrightarrow> drop_stale now ts = in_second now ts"
proof (induction ts)
  case (Cons t ts)
  have "filter (\<lambda>u. now < u + from_secs 1) ts = ts" if "now < t + from_secs 1"
    using Cons.prems that by (fastforce simp: filter_id_conv)
  with Cons show ?case by (auto simp: in_second_def drop_stale_def from_secs_def)
qed (simp add: in_second_def drop_stale_def)

definition pc_counted :: "instant \<Rightarrow> instant list \<Rightarrow> pc_breaker \<Rightarrow> bool" where
  "pc_counted lst adm b \<longleftrightarrow>
     sorted (pcb_recent_actions b) \<and> (\<forall>t \<in> set (pcb_recent_actions b). t \<le> lst) \<and> (\<forall>t \<in> set adm. t \<le> lst) \<and>
     (\<forall>now \<ge> lst. length (in_second now adm) \<le> length (in_second now (pcb_recent_actions b))) \<and>
     pcb_state b \<noteq> PcHalfOpen \<and>
     (pcb_state b = PcOpen \<longrightarrow> (\<exists>t. pcb_tripped_at b = Some t \<and> (\<forall>s \<in> set adm. s \<le> t)))"

definition rate_kept :: "nat \<Rightarrow> instant list \<Rightarrow> bool" where
  "rate_kept n adm \<longleftrightarrow> (\<forall>i < length adm. length (in_second (adm ! i) (drop i adm)) \<le> n)"

lemma rate_kept_Cons: "rate_kept n (now # adm) \<longleftrightarrow> length (in_second now (now # adm)) \<le> n \<and> rate_kept n adm"
  unfolding rate_kept_def by (auto simp: less_Suc_eq_0_disj)

lemma within_bound: "\<forall>t \<in> set ts. t \<le> now \<Longrightarrow> now + from_secs 1 \<le> now' \<Longrightarrow> in_second now' ts = []"
  by (force simp: in_second_def filter_empty_conv)

lemma pc_call_rate:
  assumes inv: "pc_counted lst adm b" and now: "lst \<le> now" and cd: "from_secs 1 \<le> pcb_cooldown b"
    and pos: "1 \<le> unat (pcb_rate_limit b)" and kept: "rate_kept (unat (pcb_rate_limit b)) adm"
    and call: "pc_call now ok b = (a, b')"
  shows "pc_counted now (if a then now # adm else adm) b' \<and> pcb_cooldown b' = pcb_cooldown b \<and>
    pcb_rate_limit b' = pcb_rate_limit b \<and> rate_kept (unat (pcb_rate_limit b)) (if a then now # adm else adm)"
proof (cases "pcb_state b")
  case PcClosed
  let ?ts = "pcb_recent_actions b @ [now]"
  have s: "sorted ?ts" "\<forall>t \<in> set ?ts. t \<le> now"
    using inv now by (fastforce simp: pc_counted_def sorted_append)+
  have old: "\<forall>t \<in> set adm. t \<le> now" using inv now by (fastforce simp: pc_counted_def)
  have cnt: "length (in_second t (now # adm)) \<le> length (in_second t (drop_stale now ?ts))" if "now \<le> t" for t
    using inv now that within_drop_stale[OF s(1) that] by (auto simp: pc_counted_def in_second_def)
  have cnt': "length (in_second t adm) \<le> length (in_second t (drop_stale now ?ts))" if "now \<le> t" for t
    using cnt[OF that] by (auto simp: in_second_def split: if_splits)
  have ds: "sorted (drop_stale now ?ts)" unfolding drop_stale_within[OF s] in_second_def by (rule sorted_wrt_filter[OF s(1)])
  have ds': "\<forall>t \<in> set (drop_stale now ?ts). t \<le> now" unfolding drop_stale_within[OF s] in_second_def using s(2) by simp
  show ?thesis
  proof (cases "unat (pcb_rate_limit b) < length (drop_stale now ?ts)")
    case True
    then have "a = False" "b' = pc_trip now (b\<lparr>pcb_recent_actions := drop_stale now ?ts\<rparr>)"
      using call PcClosed by (auto simp: pc_call_def pc_check_def Let_def)
    then show ?thesis using ds ds' cnt' old kept by (auto simp: pc_counted_def pc_trip_def)
  next
    case False
    let ?b = "b\<lparr>pcb_recent_actions := drop_stale now ?ts\<rparr>"
    from False have a: "a" "b' = (if ok then pc_record_success ?b else pc_record_failure now ?b)"
      using call PcClosed by (auto simp: pc_call_def pc_check_def Let_def)
    have "length (in_second now (now # adm)) \<le> unat (pcb_rate_limit b)"
      using cnt[of now] False by (simp add: drop_stale_within[OF s] in_second_def)
    then show ?thesis using a ds ds' cnt old kept PcClosed
      by (auto simp: pc_counted_def pc_record_success_def pc_record_failure_def pc_trip_def Let_def rate_kept_Cons)
  qed
next
  case PcOpen
  then obtain t where t: "pcb_tripped_at b = Some t" "\<forall>s \<in> set adm. s \<le> t" using inv by (auto simp: pc_counted_def)
  show ?thesis
  proof (cases "pcb_cooldown b \<le> elapsed now t")
    case False
    then have "a = False" "b' = b" using call PcOpen t by (auto simp: pc_call_def pc_check_def)
    then show ?thesis using inv now kept by (fastforce simp: pc_counted_def)
  next
    case True
    let ?b = "pc_record_action now (b\<lparr>pcb_state := PcHalfOpen\<rparr>)"
    from True have a: "a" "b' = (if ok then pc_record_success ?b else pc_record_failure now ?b)"
      using call PcOpen t by (auto simp: pc_call_def pc_check_def)
    from True cd have "t + from_secs 1 \<le> now" by (simp add: elapsed_def from_secs_def)
    with t(2) have "in_second now adm = []" by (rule within_bound)
    then have "length (in_second now (now # adm)) \<le> unat (pcb_rate_limit b)" using pos by (simp add: in_second_def from_secs_def)
    moreover have "\<forall>u \<ge> now. length (in_second u (now # adm)) \<le> length (in_second u (pcb_recent_actions b @ [now]))"
      using inv now by (auto simp: pc_counted_def in_second_def)
    moreover have "sorted (pcb_recent_actions b @ [now])" "\<forall>u \<in> set (pcb_recent_actions b @ [now]). u \<le> now"
      using inv now by (fastforce simp: pc_counted_def sorted_append)+
    moreover have "\<forall>u \<in> set (now # adm). u \<le> now" using inv now by (fastforce simp: pc_counted_def)
    ultimately show ?thesis using a kept
      by (auto simp: pc_counted_def pc_record_success_def pc_record_failure_def pc_record_action_def pc_trip_def Let_def rate_kept_Cons)
  qed
next
  case PcHalfOpen
  then show ?thesis using inv by (simp add: pc_counted_def)
qed

lemma pc_calls_rate:
  assumes "pc_counted lst adm b" "sorted (lst # map fst es)" "from_secs 1 \<le> pcb_cooldown b"
    and "1 \<le> unat (pcb_rate_limit b)" "rate_kept (unat (pcb_rate_limit b)) adm"
  shows "rate_kept (unat (pcb_rate_limit b)) (fst (pc_calls es (adm, b)))"
  using assms
proof (induction es arbitrary: lst adm b)
  case (Cons e es)
  obtain now ok where e: "e = (now, ok)" by (cases e)
  obtain a b' where call: "pc_call now ok b = (a, b')" by (cases "pc_call now ok b")
  have "lst \<le> now" using Cons.prems(2) e by simp
  from pc_call_rate[OF Cons.prems(1) this Cons.prems(3-5) call] Cons.prems(2,3,4)
    Cons.IH[of now "if a then now # adm else adm" b'] show ?case by (simp add: e call)
qed simp

lemma window_bound:
  assumes "rate_kept n adm" "sorted (rev adm)"
  shows "length (filter (\<lambda>s. t \<le> s \<and> s < t + from_secs 1) adm) \<le> n"
  using assms
proof (induction adm)
  case (Cons a adm)
  have le: "\<forall>s \<in> set adm. s \<le> a" and ord: "sorted (rev adm)" using Cons.prems(2) by (auto simp: sorted_append)
  have kept: "length (in_second a (a # adm)) \<le> n" "rate_kept n adm" using Cons.prems(1) by (simp_all add: rate_kept_Cons)
  show ?case
  proof (cases "t \<le> a \<and> a < t + from_secs 1")
    case True
    then have "length (filter (\<lambda>s. t \<le> s \<and> s < t + from_secs 1) (a # adm)) \<le> length (in_second a (a # adm))"
      unfolding in_second_def by (intro filter_length_mono) auto
    with kept(1) show ?thesis by linarith
  next
    case False
    then show ?thesis using Cons.IH[OF kept(2) ord] by auto
  qed
qed simp

lemma pc_calls_sorted:
  "sorted (lst # map fst es) \<Longrightarrow> sorted (rev adm) \<Longrightarrow> \<forall>s \<in> set adm. s \<le> lst \<Longrightarrow> sorted (rev (fst (pc_calls es (adm, b))))"
proof (induction es arbitrary: lst adm b)
  case (Cons e es)
  obtain now ok where e: "e = (now, ok)" by (cases e)
  obtain a b' where call: "pc_call now ok b = (a, b')" by (cases "pc_call now ok b")
  let ?adm = "if a then now # adm else adm"
  have le: "\<forall>s \<in> set adm. s \<le> now" using Cons.prems(1,3) e by (auto intro: order_trans)
  then have "sorted (rev ?adm)" "\<forall>s \<in> set ?adm. s \<le> now" using Cons.prems(2) by (auto simp: sorted_append)
  from Cons.IH[OF _ this, of b'] Cons.prems(1) show ?case by (simp add: e call)
qed simp

text \<open>
  The rate limit holds over every second, not only from one second to the next: when skills run one
  after the other and the cooldown is at least a second, no window of one second contains more
  actions than the limit, whatever succeeds or fails and however often the breaker trips and is probed.
\<close>

theorem pc_rate_bounded:
  assumes "sorted (map fst es)" "1 \<le> unat limit" "from_secs 1 \<le> cooldown"
    and "pc_calls es ([], pc_breaker_new limit threshold cooldown) = (adm, b)"
  shows "length (filter (\<lambda>s. t \<le> s \<and> s < t + from_secs 1) adm) \<le> unat limit"
proof (rule window_bound)
  have start: "pc_counted 0 [] (pc_breaker_new limit threshold cooldown)" "rate_kept (unat limit) []"
    by (simp_all add: pc_counted_def pc_breaker_new_def in_second_def rate_kept_def)
  have ord: "sorted (0 # map fst es)" using assms(1) by simp
  show "rate_kept (unat limit) adm"
    using pc_calls_rate[OF start(1) ord] assms start(2) by (simp add: pc_breaker_new_def)
  show "sorted (rev adm)" using pc_calls_sorted[OF ord, of "[]" "pc_breaker_new limit threshold cooldown"] assms(4) by simp
qed

theorem pc_rate_bounded_witness:
  "length (filter (\<lambda>s. 0 \<le> s \<and> s < 0 + from_secs 1) (fst (pc_calls [(1, True), (2, True), (3, True)] ([], pc_breaker_new 2 3 (from_secs 1))))) \<le> 2 \<and>
   fst (pc_calls [(1, True), (2, True), (3, True)] ([], pc_breaker_new 2 3 (from_secs 1))) = [2, 1]"
proof -
  let ?run = "pc_calls [(1, True), (2, True), (3, True)] ([], pc_breaker_new 2 3 (from_secs 1))"
  have run: "?run = (fst ?run, snd ?run)" by simp
  from pc_rate_bounded[OF _ _ _ run, of 0] show ?thesis
    by (simp add: pc_call_def pc_check_def pc_breaker_new_def pc_record_success_def drop_stale_def Let_def from_secs_def)
qed

text \<open>
  In the half-open state every action is let through until one of them reports, not a single probe: the
  limit above rests on skills running one after the other.
\<close>

theorem half_open_admits_all:
  assumes "pcb_state b = PcHalfOpen"
  shows "\<exists>b'. fold (\<lambda>now (oks, b). case pc_check now b of (r, b') \<Rightarrow> (oks \<and> r = Inr (), b')) ts (True, b) = (True, b') \<and>
    pcb_state b' = PcHalfOpen"
  using assms by (induction ts arbitrary: b) (auto simp: pc_check_def pc_record_action_def)

text \<open>A breaker that has tripped refuses every action until the cooldown is over, and then lets one through.\<close>

lemma pc_cooldown_exact:
  assumes "pcb_state b = PcOpen" "pcb_tripped_at b = Some t"
  shows "(\<exists>b'. pc_check now b = (Inr (), b')) \<longleftrightarrow> pcb_cooldown b \<le> elapsed now t"
    and "\<not> pcb_cooldown b \<le> elapsed now t \<Longrightarrow> snd (pc_check now b) = b"
  using assms by (auto simp: pc_check_def)

text \<open>The dial only turns down: a higher score never gives more autonomy, and never more than configured.\<close>

lemma effective_autonomy_le: "effective_autonomy l score \<le> l" "effective_autonomy l score \<le> max_for_convergence score"
  by (auto simp: effective_autonomy_def Let_def less_eq_autonomy_level_def)

lemma max_for_convergence_mono: "f64_le s s' \<Longrightarrow> max_for_convergence s' \<le> max_for_convergence s"
  by (cases s; cases s') (auto simp: max_for_convergence_def less_eq_autonomy_level_def f64_le_def f64_eq_def)

end
