(* ===== verification/Pc_Skills.thy ===== *)
theory Pc_Skills
  imports Pc_Safety
begin

section \<open>Skills that control the computer\<close>

text \<open>
  The skills of \<^verbatim>\<open>ghost-pc-control/src/input\<close>, \<^verbatim>\<open>window\<close> and \<^verbatim>\<open>clipboard\<close>, the screenshot skill, the audit
  helper, \<^verbatim>\<open>ConvergenceGuard\<close> of \<^verbatim>\<open>ghost-skills/src/convergence_guard.rs\<close> and the wrapping of every skill in
  \<^verbatim>\<open>ghost-pc-control/src/lib.rs\<close>. What a skill does to the machine is appended to a list of effects;
  what the machine answers (windows, processes, clipboard, screen) is a function of the environment, as are
  the numbers of the JSON serializer. The skills share the breaker and the policy; each has its
  own guard.
\<close>

datatype mouse_button = LeftButton | RightButton | MiddleButton

datatype key =
    KeyChar char | KeyReturn | KeyTab | KeyEscape | KeyBackspace | KeyDelete | KeySpace | KeyUpArrow | KeyDownArrow
  | KeyLeftArrow | KeyRightArrow | KeyHome | KeyEnd | KeyPageUp | KeyPageDown | KeyMeta | KeyControl | KeyAlt
  | KeyShift | KeyF nat

datatype pc_effect =
    MouseMoveTo i32 i32
  | MouseClick mouse_button
  | MouseDoubleClick mouse_button
  | MouseDown mouse_button
  | MouseUp mouse_button
  | KeySequence string
  | KeyDown key
  | KeyUp key
  | ScrollY i32
  | ScrollX i32
  | FocusWindow "string option" "string option" "u32 option"
  | ResizeWindow "string option" "string option" "i32 option" "i32 option" "u32 option" "u32 option"
  | LaunchApp string "string list"
  | KillProcess string u32
  | SetClipboard string

record window_info =
  wi_title :: string
  wi_app :: string
  wi_pid :: u32
  wi_x :: i32
  wi_y :: i32
  wi_width :: u32
  wi_height :: u32

record launch_result =
  lr_pid :: u32
  lr_app :: string

record 'n pc_env =
  pn_i64 :: "'n \<Rightarrow> int option"
  pn_u64 :: "'n \<Rightarrow> int option"
  pn_of_int :: "int \<Rightarrow> 'n"
  pn_of_f64 :: "f64 \<Rightarrow> 'n json"
  pe_text :: "'n json \<Rightarrow> string"
  pe_focus_window :: "string option \<Rightarrow> string option \<Rightarrow> u32 option \<Rightarrow> string + window_info"
  pe_resize_window :: "string option \<Rightarrow> string option \<Rightarrow> i32 option \<Rightarrow> i32 option \<Rightarrow> u32 option \<Rightarrow> u32 option \<Rightarrow> string + window_info"
  pe_launch_app :: "string \<Rightarrow> string list \<Rightarrow> string + launch_result"
  pe_list_windows :: "string option \<Rightarrow> string + window_info list"
  pe_processes :: "(u32 \<times> string) list"
  pe_kill :: "string \<Rightarrow> u32 \<Rightarrow> string + bool"
  pe_clipboard :: "(string option \<times> bool) option"
  pe_set_clipboard :: "string \<Rightarrow> bool"
  pe_screen :: "string + u32 \<times> u32 \<times> nat"

text \<open>The caller: its agent, session, and the latest convergence level and score on record.\<close>

record skill_context =
  sx_agent_id :: uuid
  sx_session_id :: uuid
  sx_latest :: "(int \<times> f64) option"

record pc_audit_row =
  pa_agent_id :: uuid
  pa_session_id :: uuid
  pa_skill_name :: string
  pa_input_json :: string
  pa_result_json :: string
  pa_target_app :: "string option"
  pa_coordinates :: "string option"
  pa_blocked :: bool
  pa_block_reason :: "string option"

record pc_state =
  ps_breaker :: pc_breaker
  ps_policy :: pc_policy
  ps_effects :: "pc_effect list"
  ps_audit :: "pc_audit_row list"

type_synonym 'n skill_result = "(skill_error + 'n json) \<times> pc_state"

subsection \<open>Reading the input\<close>

fun json_int :: "('n \<Rightarrow> int option) \<Rightarrow> 'n json \<Rightarrow> int option" where
  "json_int f (JNumber n) = f n"
| "json_int f _ = None"

definition i64_field :: "'n pc_env \<Rightarrow> string \<Rightarrow> 'n json \<Rightarrow> int option" where
  "i64_field env k v = Option.bind (json_get k v) (json_int (pn_i64 env))"

definition u64_field :: "'n pc_env \<Rightarrow> string \<Rightarrow> 'n json \<Rightarrow> int option" where
  "u64_field env k v = Option.bind (json_get k v) (json_int (pn_u64 env))"

definition str_or :: "string \<Rightarrow> string \<Rightarrow> 'n json \<Rightarrow> string" where
  "str_or d k v = (case str_arg k v of Some s \<Rightarrow> s | None \<Rightarrow> d)"

definition as_i32 :: "int \<Rightarrow> i32" where
  "as_i32 i = word_of_int i"

definition as_u32 :: "int \<Rightarrow> u32" where
  "as_u32 i = word_of_int i"

definition parse_button :: "'n json \<Rightarrow> mouse_button option" where
  "parse_button v =
     (let b = str_or ''left'' ''button'' v
      in if b = ''left'' then Some LeftButton else if b = ''right'' then Some RightButton
         else if b = ''middle'' then Some MiddleButton else None)"

definition key_names :: "(string \<times> key) list" where
  "key_names =
     [(''return'', KeyReturn), (''enter'', KeyReturn), (''tab'', KeyTab), (''escape'', KeyEscape), (''esc'', KeyEscape),
      (''backspace'', KeyBackspace), (''delete'', KeyDelete), (''del'', KeyDelete), (''space'', KeySpace),
      (''up'', KeyUpArrow), (''down'', KeyDownArrow), (''left'', KeyLeftArrow), (''right'', KeyRightArrow),
      (''home'', KeyHome), (''end'', KeyEnd), (''pageup'', KeyPageUp), (''pagedown'', KeyPageDown),
      (''meta'', KeyMeta), (''cmd'', KeyMeta), (''super'', KeyMeta), (''win'', KeyMeta),
      (''control'', KeyControl), (''ctrl'', KeyControl), (''alt'', KeyAlt), (''option'', KeyAlt), (''shift'', KeyShift)]"

text \<open>\<^verbatim>\<open>parse::<u8>\<close>.\<close>

definition parse_u8 :: "string \<Rightarrow> nat option" where
  "parse_u8 s = (case parse_u64 s of Some n \<Rightarrow> if n < 256 then Some n else None | None \<Rightarrow> None)"

definition parse_key :: "string \<Rightarrow> key option" where
  "parse_key name =
     (let s = to_lowercase name
      in case map_of key_names s of
           Some k \<Rightarrow> Some k
         | None \<Rightarrow>
             (case s of
                [] \<Rightarrow> None
              | c # r \<Rightarrow>
                  if r = [] then Some (KeyChar c)
                  else if c = CHR ''f'' then map_option KeyF (parse_u8 r)
                  else None))"

fun parse_key_parts :: "string list \<Rightarrow> key list option" where
  "parse_key_parts [] = Some []"
| "parse_key_parts (p # ps) =
     (case parse_key p of
        None \<Rightarrow> None
      | Some k \<Rightarrow> (case parse_key_parts ps of None \<Rightarrow> None | Some ks \<Rightarrow> Some (k # ks)))"

definition parse_hotkey :: "string \<Rightarrow> key list option" where
  "parse_hotkey keys =
     (let parts = map trim (split_on CHR ''+'' keys)
      in if [] \<in> set parts then None else parse_key_parts parts)"

subsection \<open>The audit trail\<close>

definition format_coordinates :: "'n pc_env \<Rightarrow> 'n json \<Rightarrow> string option" where
  "format_coordinates env input =
     (case (i64_field env ''x'' input, i64_field env ''y'' input) of
        (Some x, Some y) \<Rightarrow> Some (show_int x @ '','' @ show_int y)
      | _ \<Rightarrow> None)"

definition log_pc_action :: "'n pc_env \<Rightarrow> skill_context \<Rightarrow> string \<Rightarrow> 'n json \<Rightarrow> 'n json \<Rightarrow> pc_state \<Rightarrow> pc_state" where
  "log_pc_action env ctx skill_name input result st =
     st\<lparr>ps_audit := ps_audit st @
       [\<lparr>pa_agent_id = sx_agent_id ctx, pa_session_id = sx_session_id ctx, pa_skill_name = skill_name,
         pa_input_json = pe_text env input, pa_result_json = pe_text env result,
         pa_target_app = str_arg ''target_app'' input, pa_coordinates = format_coordinates env input,
         pa_blocked = False, pa_block_reason = None\<rparr>]\<rparr>"

definition log_blocked_action :: "'n pc_env \<Rightarrow> skill_context \<Rightarrow> string \<Rightarrow> 'n json \<Rightarrow> string \<Rightarrow> pc_state \<Rightarrow> pc_state" where
  "log_blocked_action env ctx skill_name input reason st =
     st\<lparr>ps_audit := ps_audit st @
       [\<lparr>pa_agent_id = sx_agent_id ctx, pa_session_id = sx_session_id ctx, pa_skill_name = skill_name,
         pa_input_json = pe_text env input, pa_result_json = ''{}'',
         pa_target_app = str_arg ''target_app'' input, pa_coordinates = format_coordinates env input,
         pa_blocked = True, pa_block_reason = Some reason\<rparr>]\<rparr>"

subsection \<open>Steps that the skills share\<close>

definition invalid_input :: "string \<Rightarrow> pc_state \<Rightarrow> 'n skill_result" where
  "invalid_input msg st = (Inl (InvalidInput msg), st)"

definition unless_denied ::
    "'n pc_env \<Rightarrow> skill_context \<Rightarrow> string \<Rightarrow> 'n json \<Rightarrow> validation_result \<Rightarrow> (pc_state \<Rightarrow> 'n skill_result) \<Rightarrow> pc_state \<Rightarrow> 'n skill_result" where
  "unless_denied env ctx name input v k st =
     (case v of
        Denied reason \<Rightarrow> (Inl (PcControlBlocked reason), log_blocked_action env ctx name input reason st)
      | Allowed \<Rightarrow> k st)"

definition when_admitted :: "instant \<Rightarrow> (pc_state \<Rightarrow> 'n skill_result) \<Rightarrow> pc_state \<Rightarrow> 'n skill_result" where
  "when_admitted now k st =
     (case pc_check now (ps_breaker st) of
        (Inl e, b) \<Rightarrow> (Inl e, st\<lparr>ps_breaker := b\<rparr>)
      | (Inr _, b) \<Rightarrow> k (st\<lparr>ps_breaker := b\<rparr>))"

definition emit_effects :: "pc_effect list \<Rightarrow> pc_state \<Rightarrow> pc_state" where
  "emit_effects es st = st\<lparr>ps_effects := ps_effects st @ es\<rparr>"

definition succeed :: "'n pc_env \<Rightarrow> skill_context \<Rightarrow> string \<Rightarrow> 'n json \<Rightarrow> 'n json \<Rightarrow> pc_state \<Rightarrow> 'n skill_result" where
  "succeed env ctx name input result st =
     (Inr result, log_pc_action env ctx name input result (st\<lparr>ps_breaker := pc_record_success (ps_breaker st)\<rparr>))"

definition failed_action :: "instant \<Rightarrow> string \<Rightarrow> pc_state \<Rightarrow> 'n skill_result" where
  "failed_action now msg st = (Inl (SkillInternal msg), st\<lparr>ps_breaker := pc_record_failure now (ps_breaker st)\<rparr>)"

definition validate_target_app :: "pc_policy \<Rightarrow> string option \<Rightarrow> validation_result" where
  "validate_target_app p target = (case target of Some app \<Rightarrow> validate_app p app | None \<Rightarrow> Allowed)"

definition jint :: "'n pc_env \<Rightarrow> int \<Rightarrow> 'n json" where
  "jint env i = JNumber (pn_of_int env i)"

subsection \<open>Mouse and keyboard\<close>

definition mouse_move ::
    "'n pc_env \<Rightarrow> instant \<Rightarrow> skill_context \<Rightarrow> 'n json \<Rightarrow> pc_state \<Rightarrow> 'n skill_result" where
  "mouse_move env now ctx input st =
     (case i64_field env ''x'' input of
        None \<Rightarrow> invalid_input ''missing required field 'x' (integer)'' st
      | Some x64 \<Rightarrow>
     (case i64_field env ''y'' input of
        None \<Rightarrow> invalid_input ''missing required field 'y' (integer)'' st
      | Some y64 \<Rightarrow>
          let x = as_i32 x64; y = as_i32 y64 in
          unless_denied env ctx ''mouse_move'' input (validate_click (ps_policy st) x y (str_arg ''target_app'' input))
            (when_admitted now (\<lambda>st.
               succeed env ctx ''mouse_move'' input
                 (JObject [(''moved_to'', JObject [(''x'', jint env (sint x)), (''y'', jint env (sint y))]), (''status'', JString ''ok'')])
                 (emit_effects [MouseMoveTo x y] st))) st))"

definition click_effect :: "string \<Rightarrow> mouse_button \<Rightarrow> pc_effect" where
  "click_effect click_type b = (if click_type = ''double'' then MouseDoubleClick b else MouseClick b)"

fun button_text :: "mouse_button \<Rightarrow> string" where
  "button_text LeftButton = ''left''"
| "button_text RightButton = ''right''"
| "button_text MiddleButton = ''middle''"

definition mouse_click ::
    "'n pc_env \<Rightarrow> instant \<Rightarrow> skill_context \<Rightarrow> 'n json \<Rightarrow> pc_state \<Rightarrow> 'n skill_result" where
  "mouse_click env now ctx input st =
     (let target = str_arg ''target_app'' input in
      case parse_button input of
        None \<Rightarrow> invalid_input ''invalid button'' st
      | Some b \<Rightarrow>
          let click_type = str_or ''single'' ''click_type'' input;
              result = JObject [(''status'', JString ''ok''), (''button'', JString (button_text b)), (''click_type'', JString click_type)]
          in
          if click_type \<noteq> ''single'' \<and> click_type \<noteq> ''double'' then invalid_input ''invalid click_type'' st
          else if json_get ''x'' input \<noteq> None \<and> json_get ''y'' input \<noteq> None then
            (case i64_field env ''x'' input of
               None \<Rightarrow> invalid_input '''x' must be an integer'' st
             | Some x64 \<Rightarrow>
            (case i64_field env ''y'' input of
               None \<Rightarrow> invalid_input '''y' must be an integer'' st
             | Some y64 \<Rightarrow>
                 let x = as_i32 x64; y = as_i32 y64 in
                 unless_denied env ctx ''mouse_click'' input (validate_click (ps_policy st) x y target)
                   (when_admitted now (\<lambda>st.
                      succeed env ctx ''mouse_click'' input result (emit_effects [MouseMoveTo x y, click_effect click_type b] st))) st))
          else
            unless_denied env ctx ''mouse_click'' input (validate_target_app (ps_policy st) target)
              (when_admitted now (\<lambda>st.
                 succeed env ctx ''mouse_click'' input result (emit_effects [click_effect click_type b] st))) st)"

definition mouse_drag ::
    "'n pc_env \<Rightarrow> instant \<Rightarrow> skill_context \<Rightarrow> 'n json \<Rightarrow> pc_state \<Rightarrow> 'n skill_result" where
  "mouse_drag env now ctx input st =
     (case (i64_field env ''from_x'' input, i64_field env ''from_y'' input, i64_field env ''to_x'' input, i64_field env ''to_y'' input) of
        (Some fx, Some fy, Some tx, Some ty) \<Rightarrow>
          (let from_x = as_i32 fx; from_y = as_i32 fy; to_x = as_i32 tx; to_y = as_i32 ty in
           case parse_button input of
             None \<Rightarrow> invalid_input ''invalid button'' st
           | Some b \<Rightarrow>
               unless_denied env ctx ''mouse_drag'' input
                 (validate_drag (ps_policy st) from_x from_y to_x to_y (str_arg ''target_app'' input))
                 (when_admitted now (\<lambda>st.
                    succeed env ctx ''mouse_drag'' input
                      (JObject [(''from'', JObject [(''x'', jint env (sint from_x)), (''y'', jint env (sint from_y))]),
                                (''to'', JObject [(''x'', jint env (sint to_x)), (''y'', jint env (sint to_y))]),
                                (''status'', JString ''ok'')])
                      (emit_effects [MouseMoveTo from_x from_y, MouseDown b, MouseMoveTo to_x to_y, MouseUp b] st))) st)
      | _ \<Rightarrow> invalid_input ''missing required coordinate field (integer)'' st)"

definition keyboard_type ::
    "'n pc_env \<Rightarrow> instant \<Rightarrow> skill_context \<Rightarrow> 'n json \<Rightarrow> pc_state \<Rightarrow> 'n skill_result" where
  "keyboard_type env now ctx input st =
     (case str_arg ''text'' input of
        None \<Rightarrow> invalid_input ''missing required field 'text' (string)'' st
      | Some t \<Rightarrow>
          if t = [] then invalid_input ''text must not be empty'' st
          else unless_denied env ctx ''keyboard_type'' input (validate_target_app (ps_policy st) (str_arg ''target_app'' input))
            (when_admitted now (\<lambda>st.
               succeed env ctx ''keyboard_type'' input
                 (JObject [(''typed_length'', jint env (int (length t))), (''status'', JString ''ok'')])
                 (emit_effects [KeySequence t] st))) st)"

text \<open>The hotkey is parsed after the breaker was asked; a hotkey that cannot be parsed is not reported to it.\<close>

definition keyboard_hotkey ::
    "'n pc_env \<Rightarrow> instant \<Rightarrow> skill_context \<Rightarrow> 'n json \<Rightarrow> pc_state \<Rightarrow> 'n skill_result" where
  "keyboard_hotkey env now ctx input st =
     (case str_arg ''keys'' input of
        None \<Rightarrow> invalid_input ''missing required field 'keys' (string)'' st
      | Some keys \<Rightarrow>
          if keys = [] then invalid_input ''keys must not be empty'' st
          else unless_denied env ctx ''keyboard_hotkey'' input (validate_hotkey (ps_policy st) keys)
            (unless_denied env ctx ''keyboard_hotkey'' input (validate_target_app (ps_policy st) (str_arg ''target_app'' input))
              (when_admitted now (\<lambda>st.
                 case parse_hotkey keys of
                   None \<Rightarrow> invalid_input ''unrecognized hotkey'' st
                 | Some ks \<Rightarrow>
                     succeed env ctx ''keyboard_hotkey'' input
                       (JObject [(''keys'', JString keys), (''status'', JString ''ok'')])
                       (emit_effects (map KeyDown ks @ map KeyUp (rev ks)) st)))) st)"

definition keyboard_press ::
    "'n pc_env \<Rightarrow> instant \<Rightarrow> skill_context \<Rightarrow> 'n json \<Rightarrow> pc_state \<Rightarrow> 'n skill_result" where
  "keyboard_press env now ctx input st =
     (case str_arg ''key'' input of
        None \<Rightarrow> invalid_input ''missing required field 'key' (string)'' st
      | Some key_str \<Rightarrow>
          if key_str = [] then invalid_input ''key must not be empty'' st
          else case parse_key key_str of
            None \<Rightarrow> invalid_input ''unrecognized key name'' st
          | Some k \<Rightarrow>
              unless_denied env ctx ''keyboard_press'' input (validate_target_app (ps_policy st) (str_arg ''target_app'' input))
                (when_admitted now (\<lambda>st.
                   succeed env ctx ''keyboard_press'' input
                     (JObject [(''key'', JString key_str), (''status'', JString ''ok'')])
                     (emit_effects [KeyDown k, KeyUp k] st))) st)"

definition scroll_effect :: "string \<Rightarrow> i32 \<Rightarrow> pc_effect" where
  "scroll_effect direction amount =
     (if direction = ''up'' then ScrollY (- amount) else if direction = ''down'' then ScrollY amount
      else if direction = ''left'' then ScrollX (- amount) else ScrollX amount)"

definition scroll ::
    "'n pc_env \<Rightarrow> instant \<Rightarrow> skill_context \<Rightarrow> 'n json \<Rightarrow> pc_state \<Rightarrow> 'n skill_result" where
  "scroll env now ctx input st =
     (let direction = str_or ''down'' ''direction'' input;
          amount = as_i32 (case i64_field env ''amount'' input of Some a \<Rightarrow> a | None \<Rightarrow> 3)
      in if direction \<notin> {''up'', ''down'', ''left'', ''right''} then invalid_input ''invalid direction'' st
         else if sint amount \<le> 0 then invalid_input ''amount must be positive'' st
         else unless_denied env ctx ''scroll'' input (validate_target_app (ps_policy st) (str_arg ''target_app'' input))
           (when_admitted now (\<lambda>st.
              succeed env ctx ''scroll'' input
                (JObject [(''direction'', JString direction), (''amount'', jint env (sint amount)), (''status'', JString ''ok'')])
                (emit_effects [scroll_effect direction amount] st))) st)"

subsection \<open>Windows, processes and clipboard\<close>

definition window_json :: "'n pc_env \<Rightarrow> window_info \<Rightarrow> (string \<times> 'n json) list" where
  "window_json env w = [(''title'', JString (wi_title w)), (''app'', JString (wi_app w)), (''pid'', jint env (uint (wi_pid w)))]"

definition bounds_json :: "'n pc_env \<Rightarrow> window_info \<Rightarrow> 'n json" where
  "bounds_json env w =
     JObject [(''x'', jint env (sint (wi_x w))), (''y'', jint env (sint (wi_y w))),
              (''width'', jint env (uint (wi_width w))), (''height'', jint env (uint (wi_height w)))]"

definition focus_window ::
    "'n pc_env \<Rightarrow> instant \<Rightarrow> skill_context \<Rightarrow> 'n json \<Rightarrow> pc_state \<Rightarrow> 'n skill_result" where
  "focus_window env now ctx input st =
     (let title = str_arg ''title'' input; app = str_arg ''app'' input; pid = map_option as_u32 (u64_field env ''pid'' input)
      in if title = None \<and> app = None \<and> pid = None then invalid_input ''at least one of title, app, or pid must be provided'' st
         else unless_denied env ctx ''focus_window'' input (validate_target_app (ps_policy st) app)
           (when_admitted now (\<lambda>st.
              case pe_focus_window env title app pid of
                Inl e \<Rightarrow> failed_action now ''failed to focus window'' (emit_effects [FocusWindow title app pid] st)
              | Inr w \<Rightarrow>
                  succeed env ctx ''focus_window'' input (JObject (window_json env w @ [(''status'', JString ''ok'')]))
                    (emit_effects [FocusWindow title app pid] st))) st)"

definition resize_window ::
    "'n pc_env \<Rightarrow> instant \<Rightarrow> skill_context \<Rightarrow> 'n json \<Rightarrow> pc_state \<Rightarrow> 'n skill_result" where
  "resize_window env now ctx input st =
     (let title = str_arg ''title'' input; app = str_arg ''app'' input;
          x = map_option as_i32 (i64_field env ''x'' input); y = map_option as_i32 (i64_field env ''y'' input);
          width = map_option as_u32 (u64_field env ''width'' input); height = map_option as_u32 (u64_field env ''height'' input)
      in if title = None \<and> app = None then invalid_input ''at least one of title or app must be provided'' st
         else unless_denied env ctx ''resize_window'' input (validate_target_app (ps_policy st) app)
           (when_admitted now (\<lambda>st.
              case pe_resize_window env title app x y width height of
                Inl e \<Rightarrow> failed_action now ''failed to resize window'' (emit_effects [ResizeWindow title app x y width height] st)
              | Inr w \<Rightarrow>
                  succeed env ctx ''resize_window'' input
                    (JObject (window_json env w @ [(''bounds'', bounds_json env w), (''status'', JString ''ok'')]))
                    (emit_effects [ResizeWindow title app x y width height] st))) st)"

fun string_items :: "'n json \<Rightarrow> string list option" where
  "string_items (JArray vs) = Some (List.map_filter json_as_str vs)"
| "string_items _ = None"

definition launch_app ::
    "'n pc_env \<Rightarrow> instant \<Rightarrow> skill_context \<Rightarrow> 'n json \<Rightarrow> pc_state \<Rightarrow> 'n skill_result" where
  "launch_app env now ctx input st =
     (case str_arg ''app'' input of
        None \<Rightarrow> invalid_input ''app field is required'' st
      | Some app \<Rightarrow>
          let args = (case Option.bind (json_get ''args'' input) string_items of Some as \<Rightarrow> as | None \<Rightarrow> []) in
          unless_denied env ctx ''launch_app'' input (validate_app (ps_policy st) app)
            (when_admitted now (\<lambda>st.
               case pe_launch_app env app args of
                 Inl e \<Rightarrow> failed_action now ''failed to launch app'' (emit_effects [LaunchApp app args] st)
               | Inr l \<Rightarrow>
                   succeed env ctx ''launch_app'' input
                     (JObject [(''pid'', jint env (uint (lr_pid l))), (''app'', JString (lr_app l)), (''status'', JString ''ok'')])
                     (emit_effects [LaunchApp app args] st))) st)"

text \<open>The process to kill: by number, or the first whose name is the given one up to case.\<close>

definition resolve_process :: "'n pc_env \<Rightarrow> u32 option \<Rightarrow> string option \<Rightarrow> (u32 \<times> string) option" where
  "resolve_process env pid app =
     (case pid of
        Some p \<Rightarrow> Some (p, case map_of (pe_processes env) p of Some n \<Rightarrow> n | None \<Rightarrow> ''PID '' @ show_u32 p)
      | None \<Rightarrow>
          (case app of
             Some a \<Rightarrow> find (\<lambda>(_, n). to_lowercase n = to_lowercase a) (pe_processes env)
           | None \<Rightarrow> None))"

definition kill_process ::
    "'n pc_env \<Rightarrow> instant \<Rightarrow> skill_context \<Rightarrow> 'n json \<Rightarrow> pc_state \<Rightarrow> 'n skill_result" where
  "kill_process env now ctx input st =
     (let pid = map_option as_u32 (u64_field env ''pid'' input); app = str_arg ''app'' input;
          force = (case json_get ''force'' input of Some (JBool b) \<Rightarrow> b | _ \<Rightarrow> False)
      in if pid = None \<and> app = None then invalid_input ''at least one of pid or app must be provided'' st
         else case resolve_process env pid app of
           None \<Rightarrow> invalid_input ''no process found matching app name'' st
         | Some (target_pid, name) \<Rightarrow>
             unless_denied env ctx ''kill_process'' input (validate_app (ps_policy st) name)
               (when_admitted now (\<lambda>st.
                  let signal = (if force then ''KILL'' else ''TERM'') in
                  case pe_kill env signal target_pid of
                    Inl e \<Rightarrow> failed_action now ''failed to execute kill command'' (emit_effects [KillProcess signal target_pid] st)
                  | Inr False \<Rightarrow> failed_action now ''kill failed'' (emit_effects [KillProcess signal target_pid] st)
                  | Inr True \<Rightarrow>
                      succeed env ctx ''kill_process'' input
                        (JObject [(''pid'', jint env (uint target_pid)), (''name'', JString name), (''signal'', JString signal),
                                  (''status'', JString ''ok'')])
                        (emit_effects [KillProcess signal target_pid] st))) st)"

definition clipboard_write ::
    "'n pc_env \<Rightarrow> instant \<Rightarrow> skill_context \<Rightarrow> 'n json \<Rightarrow> pc_state \<Rightarrow> 'n skill_result" where
  "clipboard_write env now ctx input st =
     (case str_arg ''text'' input of
        None \<Rightarrow> invalid_input ''text field is required'' st
      | Some t \<Rightarrow>
          when_admitted now (\<lambda>st.
            if pe_clipboard env = None then (Inl (SkillInternal ''failed to access clipboard''), st)
            else if \<not> pe_set_clipboard env t then failed_action now ''failed to write to clipboard'' (emit_effects [SetClipboard t] st)
            else succeed env ctx ''clipboard_write'' input
              (JObject [(''length'', jint env (int (length t))), (''status'', JString ''ok'')])
              (emit_effects [SetClipboard t] st)) st)"

definition clipboard_read ::
    "'n pc_env \<Rightarrow> instant \<Rightarrow> skill_context \<Rightarrow> 'n json \<Rightarrow> pc_state \<Rightarrow> 'n skill_result" where
  "clipboard_read env now ctx input st =
     (case pe_clipboard env of
        None \<Rightarrow> (Inl (SkillInternal ''failed to access clipboard''), st)
      | Some (t, has_image) \<Rightarrow>
          let result = JObject
            [(''text'', case t of Some s \<Rightarrow> JString s | None \<Rightarrow> JNull), (''has_image'', JBool has_image),
             (''char_count'', jint env (case t of Some s \<Rightarrow> int (length s) | None \<Rightarrow> 0)), (''status'', JString ''ok'')]
          in (Inr result, log_pc_action env ctx ''clipboard_read'' input result st))"

definition list_windows ::
    "'n pc_env \<Rightarrow> instant \<Rightarrow> skill_context \<Rightarrow> 'n json \<Rightarrow> pc_state \<Rightarrow> 'n skill_result" where
  "list_windows env now ctx input st =
     (case pe_list_windows env (str_arg ''app'' input) of
        Inl e \<Rightarrow> (Inl (SkillInternal ''failed to list windows''), st)
      | Inr ws \<Rightarrow>
          let result = JObject
            [(''windows'', JArray (map (\<lambda>w. JObject (window_json env w @ [(''bounds'', bounds_json env w)])) ws)),
             (''count'', jint env (int (length ws))), (''status'', JString ''ok'')]
          in (Inr result, log_pc_action env ctx ''list_windows'' input result st))"

text \<open>The bounds of a cropped screenshot; the sums wrap at 32 bits.\<close>

definition crop_region :: "'n pc_env \<Rightarrow> 'n json \<Rightarrow> u32 \<Rightarrow> u32 \<Rightarrow> (u32 \<times> u32) option" where
  "crop_region env region width height =
     (let rx = as_u32 (case i64_field env ''x'' region of Some v \<Rightarrow> v | None \<Rightarrow> 0);
          ry = as_u32 (case i64_field env ''y'' region of Some v \<Rightarrow> v | None \<Rightarrow> 0);
          rw = as_u32 (case u64_field env ''width'' region of Some v \<Rightarrow> v | None \<Rightarrow> uint width);
          rh = as_u32 (case u64_field env ''height'' region of Some v \<Rightarrow> v | None \<Rightarrow> uint height)
      in if width < rx + rw \<or> height < ry + rh then None else Some (rw, rh))"

definition screenshot ::
    "'n pc_env \<Rightarrow> instant \<Rightarrow> skill_context \<Rightarrow> 'n json \<Rightarrow> pc_state \<Rightarrow> 'n skill_result" where
  "screenshot env now ctx input st =
     (let format = str_or ''png'' ''format'' input in
      if format \<noteq> ''png'' \<and> format \<noteq> ''jpeg'' then invalid_input ''invalid format'' st
      else case pe_screen env of
        Inl e \<Rightarrow> (Inl (SkillInternal ''screen capture failed''), st)
      | Inr (width, height, nbytes) \<Rightarrow>
          (case (case json_get ''region'' input of
                   None \<Rightarrow> Some (width, height) | Some region \<Rightarrow> crop_region env region width height) of
             None \<Rightarrow> invalid_input ''crop region exceeds screen bounds'' st
           | Some (w, h) \<Rightarrow>
               (Inr (JObject [(''width'', jint env (uint w)), (''height'', jint env (uint h)), (''format'', JString format),
                              (''size_bytes'', jint env (int nbytes)), (''status'', JString ''ok'')]), st)))"

subsection \<open>The convergence guard\<close>

record guard_config =
  gc_max_convergence_level :: u8
  gc_action_budget :: "u32 option"
  gc_app_allowlist :: "string list option"
  gc_autonomy_level :: autonomy_level

definition guard_config_default :: guard_config where
  "guard_config_default =
     \<lparr>gc_max_convergence_level = 2, gc_action_budget = None, gc_app_allowlist = None,
      gc_autonomy_level = ActWithConfirmation\<rparr>"

record guard_state =
  gs_action_count :: u32
  gs_tracked_session :: uuid

definition guard_new :: guard_state where
  "guard_new = \<lparr>gs_action_count = 0, gs_tracked_session = 0\<rparr>"

definition reset_if_new_session :: "uuid \<Rightarrow> guard_state \<Rightarrow> guard_state" where
  "reset_if_new_session session g =
     (if gs_tracked_session g \<noteq> session then g\<lparr>gs_tracked_session := session, gs_action_count := 0\<rparr> else g)"

definition current_convergence_level :: "skill_context \<Rightarrow> u8" where
  "current_convergence_level ctx = (case sx_latest ctx of Some (l, _) \<Rightarrow> word_of_int l | None \<Rightarrow> 0)"

definition current_convergence_score :: "skill_context \<Rightarrow> f64" where
  "current_convergence_score ctx = (case sx_latest ctx of Some (_, s) \<Rightarrow> s | None \<Rightarrow> Finite 0)"

text \<open>What the guard answers before the wrapped skill runs: an error, a preview only, or leave to run.\<close>

datatype guard_answer = GuardError skill_error | GuardObserve | GuardRun

definition over_budget_error :: "guard_config \<Rightarrow> guard_state \<Rightarrow> skill_error option" where
  "over_budget_error cfg g =
     (case gc_action_budget cfg of
        Some budget \<Rightarrow> if budget \<le> gs_action_count g then Some (BudgetExhausted (gs_action_count g) budget) else None
      | None \<Rightarrow> None)"

definition guard_app_error :: "guard_config \<Rightarrow> 'n json \<Rightarrow> skill_error option" where
  "guard_app_error cfg input =
     (case (gc_app_allowlist cfg, str_arg ''target_app'' input) of
        (Some allowed, Some app) \<Rightarrow> if app \<notin> set allowed then Some (AppNotAllowed app allowed) else None
      | _ \<Rightarrow> None)"

definition guard_check :: "guard_config \<Rightarrow> skill_context \<Rightarrow> 'n json \<Rightarrow> guard_state \<Rightarrow> guard_answer \<times> guard_state" where
  "guard_check cfg ctx input g =
     (let level = current_convergence_level ctx in
      if gc_max_convergence_level cfg < level then (GuardError (ConvergenceTooHigh level (gc_max_convergence_level cfg)), g)
      else
        let g1 = reset_if_new_session (sx_session_id ctx) g in
        case over_budget_error cfg g1 of
          Some e \<Rightarrow> (GuardError e, g1)
        | None \<Rightarrow>
            (case guard_app_error cfg input of
               Some e \<Rightarrow> (GuardError e, g1)
             | None \<Rightarrow>
                 if \<not> can_execute (effective_autonomy (gc_autonomy_level cfg) (current_convergence_score ctx))
                 then (GuardObserve, g1) else (GuardRun, g1)))"

definition guard_execute ::
    "'n pc_env \<Rightarrow> guard_config \<Rightarrow> skill_context \<Rightarrow> 'n json \<Rightarrow> string \<Rightarrow> (pc_state \<Rightarrow> 'n skill_result) \<Rightarrow> guard_state \<times> pc_state
      \<Rightarrow> (skill_error + 'n json) \<times> guard_state \<times> pc_state" where
  "guard_execute env cfg ctx input preview inner s =
     (case s of (g, st) \<Rightarrow>
        case guard_check cfg ctx input g of
          (GuardError e, g1) \<Rightarrow> (Inl e, g1, st)
        | (GuardObserve, g1) \<Rightarrow>
            (Inr (JObject [(''mode'', JString ''observe_only''), (''preview'', JString preview),
               (''effective_autonomy'', jint env (int (autonomy_as_u8
                  (effective_autonomy (gc_autonomy_level cfg) (current_convergence_score ctx))))),
               (''convergence_score'', pn_of_f64 env (current_convergence_score ctx))]), g1, st)
        | (GuardRun, g1) \<Rightarrow>
            (case inner st of
               (Inl e, st') \<Rightarrow> (Inl e, g1, st')
             | (Inr r, st') \<Rightarrow> (Inr r, g1\<lparr>gs_action_count := gs_action_count g1 + 1\<rparr>, st')))"

subsection \<open>The registered skills\<close>

datatype pc_skill =
    SkMouseMove | SkMouseClick | SkMouseDrag | SkKeyboardType | SkKeyboardHotkey | SkKeyboardPress | SkScroll
  | SkScreenshot | SkListWindows | SkFocusWindow | SkResizeWindow | SkLaunchApp | SkKillProcess
  | SkClipboardRead | SkClipboardWrite

fun pc_skill_name :: "pc_skill \<Rightarrow> string" where
  "pc_skill_name SkMouseMove = ''mouse_move''"
| "pc_skill_name SkMouseClick = ''mouse_click''"
| "pc_skill_name SkMouseDrag = ''mouse_drag''"
| "pc_skill_name SkKeyboardType = ''keyboard_type''"
| "pc_skill_name SkKeyboardHotkey = ''keyboard_hotkey''"
| "pc_skill_name SkKeyboardPress = ''keyboard_press''"
| "pc_skill_name SkScroll = ''scroll''"
| "pc_skill_name SkScreenshot = ''screenshot''"
| "pc_skill_name SkListWindows = ''list_windows''"
| "pc_skill_name SkFocusWindow = ''focus_window''"
| "pc_skill_name SkResizeWindow = ''resize_window''"
| "pc_skill_name SkLaunchApp = ''launch_app''"
| "pc_skill_name SkKillProcess = ''kill_process''"
| "pc_skill_name SkClipboardRead = ''clipboard_read''"
| "pc_skill_name SkClipboardWrite = ''clipboard_write''"

fun pc_skill_run :: "pc_skill \<Rightarrow> 'n pc_env \<Rightarrow> instant \<Rightarrow> skill_context \<Rightarrow> 'n json \<Rightarrow> pc_state \<Rightarrow> 'n skill_result" where
  "pc_skill_run SkMouseMove = mouse_move"
| "pc_skill_run SkMouseClick = mouse_click"
| "pc_skill_run SkMouseDrag = mouse_drag"
| "pc_skill_run SkKeyboardType = keyboard_type"
| "pc_skill_run SkKeyboardHotkey = keyboard_hotkey"
| "pc_skill_run SkKeyboardPress = keyboard_press"
| "pc_skill_run SkScroll = scroll"
| "pc_skill_run SkScreenshot = screenshot"
| "pc_skill_run SkListWindows = list_windows"
| "pc_skill_run SkFocusWindow = focus_window"
| "pc_skill_run SkResizeWindow = resize_window"
| "pc_skill_run SkLaunchApp = launch_app"
| "pc_skill_run SkKillProcess = kill_process"
| "pc_skill_run SkClipboardRead = clipboard_read"
| "pc_skill_run SkClipboardWrite = clipboard_write"

text \<open>The configuration of each guard.\<close>

definition app_allowlist_of :: "pc_config \<Rightarrow> string list option" where
  "app_allowlist_of c = (if pc_allowed_apps c = [] then None else Some (pc_allowed_apps c))"

definition guard_of :: "u8 \<Rightarrow> autonomy_level \<Rightarrow> u32 option \<Rightarrow> string list option \<Rightarrow> guard_config" where
  "guard_of level autonomy budget apps =
     \<lparr>gc_max_convergence_level = level, gc_action_budget = budget, gc_app_allowlist = apps, gc_autonomy_level = autonomy\<rparr>"

fun pc_guard_config :: "pc_config \<Rightarrow> pc_skill \<Rightarrow> guard_config" where
  "pc_guard_config c SkMouseMove = guard_of 2 ActWithConfirmation (Some (ab_total (pc_budgets c))) (app_allowlist_of c)"
| "pc_guard_config c SkMouseClick = guard_of 2 ActWithConfirmation (Some (ab_mouse_click (pc_budgets c))) (app_allowlist_of c)"
| "pc_guard_config c SkMouseDrag = guard_of 2 ActWithConfirmation (Some (ab_mouse_drag (pc_budgets c))) (app_allowlist_of c)"
| "pc_guard_config c SkKeyboardType = guard_of 2 ActWithConfirmation (Some (ab_keyboard_type (pc_budgets c))) (app_allowlist_of c)"
| "pc_guard_config c SkKeyboardHotkey = guard_of 2 ActWithConfirmation (Some (ab_keyboard_hotkey (pc_budgets c))) (app_allowlist_of c)"
| "pc_guard_config c SkKeyboardPress = guard_of 2 ActWithConfirmation (Some (ab_keyboard_type (pc_budgets c))) (app_allowlist_of c)"
| "pc_guard_config c SkScroll = guard_of 2 ActWithConfirmation (Some (ab_total (pc_budgets c))) (app_allowlist_of c)"
| "pc_guard_config c SkScreenshot = guard_of 4 ActAutonomously None None"
| "pc_guard_config c SkListWindows = guard_of 4 ActAutonomously None None"
| "pc_guard_config c SkFocusWindow = guard_of 3 ActWithConfirmation None (app_allowlist_of c)"
| "pc_guard_config c SkResizeWindow = guard_of 2 ActWithConfirmation None (app_allowlist_of c)"
| "pc_guard_config c SkLaunchApp = guard_of 2 ActWithConfirmation (Some 10) (app_allowlist_of c)"
| "pc_guard_config c SkKillProcess = guard_of 1 PlanAndPropose (Some 5) (app_allowlist_of c)"
| "pc_guard_config c SkClipboardRead = guard_of 2 ActWithConfirmation None None"
| "pc_guard_config c SkClipboardWrite = guard_of 3 ActWithConfirmation (Some 100) None"

record pc_system =
  sy_config :: pc_config
  sy_guards :: "pc_skill \<Rightarrow> guard_state"
  sy_state :: pc_state

definition pc_system_new :: "pc_config \<Rightarrow> pc_system" where
  "pc_system_new c =
     \<lparr>sy_config = c, sy_guards = (\<lambda>_. guard_new),
      sy_state = \<lparr>ps_breaker = breaker_from_config c, ps_policy = policy_from_config c, ps_effects = [], ps_audit = []\<rparr>\<rparr>"

text \<open>One call of a registered skill, through both guards. \<open>preview\<close> is the text shown in the observe-only mode.\<close>

definition pc_execute ::
    "'n pc_env \<Rightarrow> instant \<Rightarrow> skill_context \<Rightarrow> string \<Rightarrow> pc_skill \<Rightarrow> 'n json \<Rightarrow> pc_system \<Rightarrow> (skill_error + 'n json) \<times> pc_system" where
  "pc_execute env now ctx preview k input sy =
     (if \<not> pp_enabled (ps_policy (sy_state sy)) then
        (Inl (PcControlBlocked ''pc control disabled by runtime policy''),
         sy\<lparr>sy_state := log_blocked_action env ctx (pc_skill_name k) input ''pc control disabled by runtime policy'' (sy_state sy)\<rparr>)
      else
        (case guard_execute env (pc_guard_config (sy_config sy) k) ctx input preview (pc_skill_run k env now ctx input)
                (sy_guards sy k, sy_state sy) of
           (r, g, st) \<Rightarrow> (r, sy\<lparr>sy_guards := (sy_guards sy)(k := g), sy_state := st\<rparr>)))"

text \<open>The policy handle: a new policy replaces the old one while the skills stay registered.\<close>

definition replace_policy :: "pc_policy \<Rightarrow> pc_system \<Rightarrow> pc_system" where
  "replace_policy p sy = sy\<lparr>sy_state := (sy_state sy)\<lparr>ps_policy := p\<rparr>\<rparr>"

text \<open>
  A changed configuration is applied while the gateway runs: the policy is replaced and the breaker gets
  its new settings, and is reset when computer control is switched off. The guards keep the configuration
  they were registered with.
\<close>

definition apply_config :: "pc_config \<Rightarrow> pc_system \<Rightarrow> pc_system" where
  "apply_config c sy =
     (let p = policy_from_config c; b = ps_breaker (sy_state sy);
          rate_limit = cc_max_actions_per_second (pc_circuit_breaker c);
          failure_threshold = cc_failure_threshold (pc_circuit_breaker c);
          cooldown = from_secs (unat (cc_cooldown_seconds (pc_circuit_breaker c)))
      in if ps_policy (sy_state sy) = p \<and> pcb_rate_limit b = rate_limit \<and>
            pcb_failure_threshold b = failure_threshold \<and> pcb_cooldown b = cooldown
         then sy
         else
           let sy1 = replace_policy p sy; b1 = pc_reconfigure rate_limit failure_threshold cooldown b;
               b2 = (if \<not> pc_enabled c then pc_reset b1 else b1)
           in sy1\<lparr>sy_state := (sy_state sy1)\<lparr>ps_breaker := b2\<rparr>\<rparr>)"


subsection \<open>What one skill may do\<close>

definition in_safe_zone :: "pc_policy \<Rightarrow> i32 \<Rightarrow> i32 \<Rightarrow> bool" where
  "in_safe_zone p x y \<longleftrightarrow> (case pp_safe_zone p of Some z \<Rightarrow> region_contains z x y | None \<Rightarrow> True)"

definition app_listed :: "pc_policy \<Rightarrow> string option \<Rightarrow> bool" where
  "app_listed p app \<longleftrightarrow> (case app of Some a \<Rightarrow> a \<in> set (pp_allowed_apps p) | None \<Rightarrow> True)"

text \<open>A hotkey is blocked when the list has it, in whatever case.\<close>

definition hotkey_blocked :: "pc_policy \<Rightarrow> string \<Rightarrow> bool" where
  "hotkey_blocked p keys \<longleftrightarrow> (\<exists>h \<in> set (pp_blocked_hotkeys p). to_lowercase h = to_lowercase keys)"

text \<open>What the input of a request asks for: positions of the mouse and keys.\<close>

definition asks_position :: "'n pc_env \<Rightarrow> pc_skill \<Rightarrow> 'n json \<Rightarrow> i32 \<Rightarrow> i32 \<Rightarrow> bool" where
  "asks_position env k input x y \<longleftrightarrow>
     (\<exists>(kx, ky) \<in> (if k = SkMouseDrag then {(''from_x'', ''from_y''), (''to_x'', ''to_y'')}
                  else if k \<in> {SkMouseMove, SkMouseClick} then {(''x'', ''y'')} else {}).
        map_option as_i32 (i64_field env kx input) = Some x \<and> map_option as_i32 (i64_field env ky input) = Some y)"

definition asks_key :: "pc_policy \<Rightarrow> pc_skill \<Rightarrow> 'n json \<Rightarrow> key \<Rightarrow> bool" where
  "asks_key p k input key \<longleftrightarrow>
     k = SkKeyboardPress \<and> Option.bind (str_arg ''key'' input) parse_key = Some key \<or>
     k = SkKeyboardHotkey \<and>
       (\<exists>keys ks. str_arg ''keys'' input = Some keys \<and> \<not> hotkey_blocked p keys \<and> parse_hotkey keys = Some ks \<and> key \<in> set ks)"

text \<open>
  The effects that a request for a skill may have under a policy. Every effect belongs to its skill and to
  what the input asks for.
\<close>

fun effect_permitted :: "'n pc_env \<Rightarrow> pc_policy \<Rightarrow> pc_skill \<Rightarrow> 'n json \<Rightarrow> pc_effect \<Rightarrow> bool" where
  "effect_permitted env p k input (MouseMoveTo x y) = (asks_position env k input x y \<and> in_safe_zone p x y)"
| "effect_permitted env p k input (MouseClick b) = (k = SkMouseClick \<and> parse_button input = Some b)"
| "effect_permitted env p k input (MouseDoubleClick b) =
     (k = SkMouseClick \<and> parse_button input = Some b \<and> str_arg ''click_type'' input = Some ''double'')"
| "effect_permitted env p k input (MouseDown b) = (k = SkMouseDrag \<and> parse_button input = Some b)"
| "effect_permitted env p k input (MouseUp b) = (k = SkMouseDrag \<and> parse_button input = Some b)"
| "effect_permitted env p k input (KeySequence t) = (k = SkKeyboardType \<and> str_arg ''text'' input = Some t)"
| "effect_permitted env p k input (KeyDown key) = asks_key p k input key"
| "effect_permitted env p k input (KeyUp key) = asks_key p k input key"
| "effect_permitted env p k input (ScrollY _) = (k = SkScroll)"
| "effect_permitted env p k input (ScrollX _) = (k = SkScroll)"
| "effect_permitted env p k input (FocusWindow _ app _) =
     (k = SkFocusWindow \<and> str_arg ''app'' input = app \<and> app_listed p app)"
| "effect_permitted env p k input (ResizeWindow _ app _ _ _ _) =
     (k = SkResizeWindow \<and> str_arg ''app'' input = app \<and> app_listed p app)"
| "effect_permitted env p k input (LaunchApp app _) =
     (k = SkLaunchApp \<and> str_arg ''app'' input = Some app \<and> app_listed p (Some app))"
| "effect_permitted env p k input (KillProcess _ pid) =
     (k = SkKillProcess \<and>
      (\<exists>name \<in> set (pp_allowed_apps p). (pid, name) \<in> set (pe_processes env) \<or> name = ''PID '' @ show_u32 pid))"
| "effect_permitted env p k input (SetClipboard t) = (k = SkClipboardWrite \<and> str_arg ''text'' input = Some t)"

text \<open>The skills of the mouse and the keyboard take the application they act on as \<^verbatim>\<open>target_app\<close>.\<close>

definition takes_target :: "pc_skill \<Rightarrow> bool" where
  "takes_target k \<longleftrightarrow> k \<in> {SkMouseMove, SkMouseClick, SkMouseDrag, SkKeyboardType, SkKeyboardHotkey, SkKeyboardPress, SkScroll}"

text \<open>
  The contract of a skill: it keeps the policy; what it does to the machine was let through by the
  breaker and is allowed by the policy; it writes at most one audit row, under its own name, that says
  whether it was blocked by the policy.
\<close>

definition skill_sound :: "'n pc_env \<Rightarrow> instant \<Rightarrow> skill_context \<Rightarrow> pc_skill \<Rightarrow> 'n json \<Rightarrow> pc_state \<Rightarrow> 'n skill_result \<Rightarrow> bool" where
  "skill_sound env now ctx k input st res \<longleftrightarrow>
     (\<exists>es rows.
        ps_policy (snd res) = ps_policy st \<and>
        ps_effects (snd res) = ps_effects st @ es \<and> ps_audit (snd res) = ps_audit st @ rows \<and>
        (es \<noteq> [] \<longrightarrow> fst (pc_check now (ps_breaker st)) = Inr ()) \<and>
        (\<forall>e \<in> set es. effect_permitted env (ps_policy st) k input e) \<and>
        (takes_target k \<and> es \<noteq> [] \<longrightarrow> app_listed (ps_policy st) (str_arg ''target_app'' input)) \<and>
        (case fst res of
           Inr _ \<Rightarrow> k = SkScreenshot \<and> rows = [] \<or>
             (\<exists>row. rows = [row] \<and> pa_skill_name row = pc_skill_name k \<and> pa_session_id row = sx_session_id ctx \<and> \<not> pa_blocked row)
         | Inl (PcControlBlocked reason) \<Rightarrow> es = [] \<and>
             (\<exists>row. rows = [row] \<and> pa_skill_name row = pc_skill_name k \<and> pa_session_id row = sx_session_id ctx \<and>
                pa_blocked row \<and> pa_block_reason row = Some reason)
         | Inl _ \<Rightarrow> rows = []))"

named_theorems pc_steps

lemma validate_app_Allowed: "validate_app p app = Allowed \<longleftrightarrow> app_listed p (Some app)"
  by (auto simp: validate_app_def validate_app_snapshot_def normalize_snapshot_def app_listed_def)

lemma validate_target_app_Allowed: "validate_target_app p app = Allowed \<longleftrightarrow> app_listed p app"
  by (cases app) (auto simp: validate_target_app_def validate_app_Allowed app_listed_def)

lemma validate_target_Allowed: "validate_target (normalize_snapshot p) app = Allowed \<longleftrightarrow> app_listed p app"
  by (cases app) (auto simp: validate_target_def validate_app_snapshot_def normalize_snapshot_def app_listed_def)

lemma validate_click_Allowed: "validate_click p x y app = Allowed \<longleftrightarrow> in_safe_zone p x y \<and> app_listed p app"
  by (auto simp: validate_click_def Let_def validate_target_Allowed in_safe_zone_def split: option.splits)
     (auto simp: normalize_snapshot_def)

lemma validate_drag_Allowed:
  "validate_drag p fx fy tx ty app = Allowed \<longleftrightarrow> in_safe_zone p fx fy \<and> in_safe_zone p tx ty \<and> app_listed p app"
  by (auto simp: validate_drag_def Let_def validate_target_Allowed in_safe_zone_def split: option.splits)
     (auto simp: normalize_snapshot_def)

lemma validate_hotkey_Allowed: "validate_hotkey p keys = Allowed \<longleftrightarrow> \<not> hotkey_blocked p keys"
  by (auto simp: validate_hotkey_def normalize_snapshot_def hotkey_blocked_def image_iff dest: sym)

lemmas validations = validate_hotkey_Allowed validate_app_Allowed validate_target_app_Allowed validate_click_Allowed validate_drag_Allowed

lemma sound_invalid [pc_steps]: "skill_sound env now ctx k input st (invalid_input msg st)"
  by (simp add: skill_sound_def invalid_input_def)

lemma pc_check_error: "pc_check now b = (Inl e, b') \<Longrightarrow> \<exists>msg. e = CircuitBreakerOpen msg"
  by (auto simp: pc_check_def Let_def split: pc_circuit_state.splits option.splits if_splits)

lemma sound_denied:
  assumes "v = Allowed \<Longrightarrow> skill_sound env now ctx k input st (f st)"
  shows "skill_sound env now ctx k input st (unless_denied env ctx (pc_skill_name k) input v f st)"
  using assms by (cases v) (auto simp: unless_denied_def skill_sound_def log_blocked_action_def)

text \<open>A step after the breaker: it may act as \<open>es\<close> and ends in success, failure or a plain error.\<close>

definition acts :: "'n pc_env \<Rightarrow> skill_context \<Rightarrow> pc_skill \<Rightarrow> pc_effect list \<Rightarrow> pc_state \<Rightarrow> 'n skill_result \<Rightarrow> bool" where
  "acts env ctx k es st res \<longleftrightarrow>
     ps_policy (snd res) = ps_policy st \<and> ps_effects (snd res) = ps_effects st @ es \<and>
     (case fst res of
        Inr _ \<Rightarrow> \<exists>row. ps_audit (snd res) = ps_audit st @ [row] \<and> pa_skill_name row = pc_skill_name k \<and>
          pa_session_id row = sx_session_id ctx \<and> \<not> pa_blocked row
      | Inl e \<Rightarrow> ps_audit (snd res) = ps_audit st \<and> (\<forall>reason. e \<noteq> PcControlBlocked reason))"

lemma acts_succeed: "acts env ctx k es st (succeed env ctx (pc_skill_name k) input r (emit_effects es st))"
  by (simp add: acts_def succeed_def emit_effects_def log_pc_action_def)

lemma acts_failed: "acts env ctx k es st (failed_action now msg (emit_effects es st))"
  by (simp add: acts_def failed_action_def emit_effects_def)

lemma acts_invalid: "acts env ctx k [] st (invalid_input msg st)" "acts env ctx k [] st (Inl (SkillInternal msg), st)"
  by (simp_all add: acts_def invalid_input_def)

lemma sound_admitted:
  assumes "\<And>b. acts env ctx k es (st\<lparr>ps_breaker := b\<rparr>) (f (st\<lparr>ps_breaker := b\<rparr>))"
    and "\<forall>e \<in> set es. effect_permitted env (ps_policy st) k input e"
    and "takes_target k \<Longrightarrow> app_listed (ps_policy st) (str_arg ''target_app'' input)"
  shows "skill_sound env now ctx k input st (when_admitted now f st)"
proof (cases "pc_check now (ps_breaker st)")
  case (Pair r b)
  show ?thesis
  proof (cases r)
    case (Inl e)
    then obtain msg where "e = CircuitBreakerOpen msg" using Pair pc_check_error by blast
    then show ?thesis by (simp add: Pair Inl when_admitted_def skill_sound_def)
  next
    case (Inr u)
    then show ?thesis using Pair assms(1)[of b] assms(2,3)
      by (auto simp: when_admitted_def skill_sound_def acts_def split: sum.splits skill_error.splits)
  qed
qed


lemma mouse_move_sound: "skill_sound env now ctx SkMouseMove input st (mouse_move env now ctx input st)"
  unfolding mouse_move_def Let_def
  by (auto simp: validations asks_position_def pc_skill_name.simps(1)[symmetric] simp del: pc_skill_name.simps
    split: option.split intro!: pc_steps sound_denied sound_admitted acts_succeed)

lemma mouse_click_sound: "skill_sound env now ctx SkMouseClick input st (mouse_click env now ctx input st)"
  unfolding mouse_click_def Let_def
  by (auto simp: validations click_effect_def asks_position_def str_or_def pc_skill_name.simps(2)[symmetric] simp del: pc_skill_name.simps
    split: option.split intro!: pc_steps sound_denied sound_admitted acts_succeed)

lemma mouse_drag_sound: "skill_sound env now ctx SkMouseDrag input st (mouse_drag env now ctx input st)"
  unfolding mouse_drag_def Let_def
  by (auto simp: validations asks_position_def pc_skill_name.simps(3)[symmetric] simp del: pc_skill_name.simps
    split: option.split intro!: pc_steps sound_denied sound_admitted acts_succeed)

lemma keyboard_type_sound: "skill_sound env now ctx SkKeyboardType input st (keyboard_type env now ctx input st)"
  unfolding keyboard_type_def
  by (auto simp: validations pc_skill_name.simps(4)[symmetric] simp del: pc_skill_name.simps
    split: option.split intro!: pc_steps sound_denied sound_admitted acts_succeed)

lemma keyboard_press_sound: "skill_sound env now ctx SkKeyboardPress input st (keyboard_press env now ctx input st)"
  unfolding keyboard_press_def
  by (auto simp: validations asks_key_def pc_skill_name.simps(6)[symmetric] simp del: pc_skill_name.simps
    split: option.split intro!: pc_steps sound_denied sound_admitted acts_succeed)

lemma scroll_sound: "skill_sound env now ctx SkScroll input st (scroll env now ctx input st)"
  unfolding scroll_def Let_def
  by (auto simp: validations scroll_effect_def pc_skill_name.simps(7)[symmetric] simp del: pc_skill_name.simps
    split: option.split intro!: pc_steps sound_denied sound_admitted acts_succeed)

lemma keyboard_hotkey_sound: "skill_sound env now ctx SkKeyboardHotkey input st (keyboard_hotkey env now ctx input st)"
proof -
  have ok: "skill_sound env now ctx SkKeyboardHotkey input st
    (when_admitted now (\<lambda>st. case parse_hotkey keys of None \<Rightarrow> invalid_input ''unrecognized hotkey'' st
       | Some ks \<Rightarrow> succeed env ctx (pc_skill_name SkKeyboardHotkey) input (r keys)
           (emit_effects (map KeyDown ks @ map KeyUp (rev ks)) st)) st)"
    if "app_listed (ps_policy st) (str_arg ''target_app'' input)" "str_arg ''keys'' input = Some keys"
      "\<not> hotkey_blocked (ps_policy st) keys" for keys r
    using that
    by (cases "parse_hotkey keys"; intro sound_admitted[where es = "case parse_hotkey keys of None \<Rightarrow> [] | Some ks \<Rightarrow> map KeyDown ks @ map KeyUp (rev ks)"])
      (auto simp: acts_invalid acts_succeed asks_key_def split: option.split simp del: pc_skill_name.simps)
  show ?thesis unfolding keyboard_hotkey_def pc_skill_name.simps(5)[symmetric]
    by (auto simp: validations simp del: pc_skill_name.simps split: option.split intro!: pc_steps sound_denied ok)
qed

lemma screenshot_sound: "skill_sound env now ctx SkScreenshot input st (screenshot env now ctx input st)"
  by (auto simp: screenshot_def Let_def skill_sound_def invalid_input_def split: option.split sum.split)

lemma list_windows_sound: "skill_sound env now ctx SkListWindows input st (list_windows env now ctx input st)"
  by (auto simp: list_windows_def Let_def skill_sound_def log_pc_action_def split: sum.split)

lemma clipboard_read_sound: "skill_sound env now ctx SkClipboardRead input st (clipboard_read env now ctx input st)"
  by (auto simp: clipboard_read_def Let_def skill_sound_def log_pc_action_def split: option.split)

lemma not_takes_target:
  "\<not> takes_target SkFocusWindow" "\<not> takes_target SkResizeWindow" "\<not> takes_target SkLaunchApp" "\<not> takes_target SkKillProcess"
  "\<not> takes_target SkClipboardWrite"
  by (simp_all add: takes_target_def)

lemma acts_if: "(c \<Longrightarrow> acts env ctx k es st a) \<Longrightarrow> (\<not> c \<Longrightarrow> acts env ctx k es st b) \<Longrightarrow> acts env ctx k es st (if c then a else b)"
  by simp

lemma acts_sum:
  "(\<And>e. acts env ctx k es st (f e)) \<Longrightarrow> (\<And>w. acts env ctx k es st (g w)) \<Longrightarrow> acts env ctx k es st (case r of Inl e \<Rightarrow> f e | Inr w \<Rightarrow> g w)"
  by (cases r) simp_all

lemma focus_window_sound: "skill_sound env now ctx SkFocusWindow input st (focus_window env now ctx input st)"
  unfolding focus_window_def Let_def
  by (auto simp: validations not_takes_target pc_skill_name.simps(10)[symmetric] simp del: pc_skill_name.simps
    intro!: pc_steps sound_denied sound_admitted acts_sum acts_succeed acts_failed)

lemma resize_window_sound: "skill_sound env now ctx SkResizeWindow input st (resize_window env now ctx input st)"
  unfolding resize_window_def Let_def
  by (auto simp: validations not_takes_target pc_skill_name.simps(11)[symmetric] simp del: pc_skill_name.simps
    intro!: pc_steps sound_denied sound_admitted acts_sum acts_succeed acts_failed)

lemma launch_app_sound: "skill_sound env now ctx SkLaunchApp input st (launch_app env now ctx input st)"
  unfolding launch_app_def Let_def
  by (auto simp: validations not_takes_target pc_skill_name.simps(12)[symmetric] simp del: pc_skill_name.simps
    split: option.split intro!: pc_steps sound_denied sound_admitted acts_sum acts_succeed acts_failed)

lemma resolve_process_known:
  "resolve_process env pid app = Some (p, name) \<Longrightarrow> (p, name) \<in> set (pe_processes env) \<or> name = ''PID '' @ show_u32 p"
  by (auto simp: resolve_process_def find_Some_iff split: option.splits dest: map_of_SomeD) (metis nth_mem)

lemma resolved_allowed:
  "resolve_process env pid app = Some (p, name) \<Longrightarrow> app_listed pol (Some name) \<Longrightarrow> effect_permitted env pol SkKillProcess input (KillProcess s p)"
  by (auto simp: app_listed_def dest!: resolve_process_known)

lemma kill_process_sound: "skill_sound env now ctx SkKillProcess input st (kill_process env now ctx input st)"
proof -
  have ok: "skill_sound env now ctx SkKillProcess input st
    (when_admitted now (\<lambda>st. case pe_kill env s p of
         Inl e \<Rightarrow> failed_action now ''failed to execute kill command'' (emit_effects [KillProcess s p] st)
       | Inr False \<Rightarrow> failed_action now ''kill failed'' (emit_effects [KillProcess s p] st)
       | Inr True \<Rightarrow> succeed env ctx (pc_skill_name SkKillProcess) input (r s p) (emit_effects [KillProcess s p] st)) st)"
    if "effect_permitted env (ps_policy st) SkKillProcess input (KillProcess s p)" for s p r
    using that by (intro sound_admitted[where es = "[KillProcess s p]"])
      (auto simp: acts_succeed acts_failed not_takes_target split: sum.split bool.split simp del: pc_skill_name.simps)
  show ?thesis unfolding kill_process_def Let_def pc_skill_name.simps(13)[symmetric]
    by (auto simp: validations simp del: pc_skill_name.simps effect_permitted.simps
      split: option.split intro!: pc_steps sound_denied ok intro: resolved_allowed)
qed

lemma clipboard_write_sound: "skill_sound env now ctx SkClipboardWrite input st (clipboard_write env now ctx input st)"
proof (cases "pe_clipboard env = None")
  case True
  then show ?thesis unfolding clipboard_write_def
    by (auto split: option.split simp: not_takes_target intro!: pc_steps sound_admitted[where es = "[]"] acts_invalid)
next
  case False
  then show ?thesis unfolding clipboard_write_def pc_skill_name.simps(15)[symmetric]
    by (auto split: option.split simp: not_takes_target simp del: pc_skill_name.simps
      intro!: pc_steps sound_admitted acts_if acts_failed acts_succeed)
qed

lemma pc_skill_run_sound: "skill_sound env now ctx k input st (pc_skill_run k env now ctx input st)"
  by (cases k) (simp_all add: mouse_move_sound mouse_click_sound mouse_drag_sound keyboard_type_sound keyboard_hotkey_sound
    keyboard_press_sound scroll_sound screenshot_sound list_windows_sound focus_window_sound resize_window_sound
    launch_app_sound kill_process_sound clipboard_read_sound clipboard_write_sound)


subsection \<open>The guard around a skill\<close>

text \<open>
  The guard wraps any skill that keeps the contract: what it lets happen was within the convergence
  level, the budget and the autonomy of the caller, and the counter moves exactly when the skill succeeds.
\<close>

definition guard_admits :: "guard_config \<Rightarrow> skill_context \<Rightarrow> 'n json \<Rightarrow> bool" where
  "guard_admits cfg ctx input \<longleftrightarrow>
     current_convergence_level ctx \<le> gc_max_convergence_level cfg \<and>
     can_execute (effective_autonomy (gc_autonomy_level cfg) (current_convergence_score ctx)) \<and>
     guard_app_error cfg input = None"

lemma guard_check_Run:
  "guard_check cfg ctx input g = (GuardRun, g') \<longleftrightarrow>
     guard_admits cfg ctx input \<and> g' = reset_if_new_session (sx_session_id ctx) g \<and> over_budget_error cfg g' = None"
  by (auto simp: guard_check_def guard_admits_def Let_def not_less split: option.splits if_splits)

text \<open>
  The budget is not used up: of the actions that the counter holds for the session of the call, fewer
  than the budget were made. A call from another session than the last one counts from zero.
\<close>

definition budget_left :: "guard_config \<Rightarrow> skill_context \<Rightarrow> guard_state \<Rightarrow> bool" where
  "budget_left cfg ctx g \<longleftrightarrow>
     (\<forall>budget. gc_action_budget cfg = Some budget \<longrightarrow>
        (if gs_tracked_session g = sx_session_id ctx then gs_action_count g else 0) < budget)"

lemma budget_left_iff: "budget_left cfg ctx g \<longleftrightarrow> over_budget_error cfg (reset_if_new_session (sx_session_id ctx) g) = None"
  by (auto simp: budget_left_def over_budget_error_def reset_if_new_session_def not_le word_neq_0_conv split: option.splits if_splits)

text \<open>
  The breaker lets an action through: closed, with fewer actions since the first one of the last second
  than the rate allows; open, with the cool-down over; or half open.
\<close>

definition breaker_admits :: "instant \<Rightarrow> pc_breaker \<Rightarrow> bool" where
  "breaker_admits now b \<longleftrightarrow>
     (case pcb_state b of
        PcClosed \<Rightarrow> length (drop_stale now (pcb_recent_actions b @ [now])) \<le> unat (pcb_rate_limit b)
      | PcOpen \<Rightarrow> \<exists>t. pcb_tripped_at b = Some t \<and> pcb_cooldown b \<le> elapsed now t
      | PcHalfOpen \<Rightarrow> True)"

lemma breaker_admits_iff: "breaker_admits now b \<longleftrightarrow> fst (pc_check now b) = Inr ()"
  by (auto simp: breaker_admits_def pc_check_def Let_def split: pc_circuit_state.split option.split)

lemma reset_session: "gs_tracked_session (reset_if_new_session s g) = s"
  by (simp add: reset_if_new_session_def)

locale skill_contract =
  fixes k :: pc_skill
    and run :: "'n pc_env \<Rightarrow> instant \<Rightarrow> skill_context \<Rightarrow> 'n json \<Rightarrow> pc_state \<Rightarrow> 'n skill_result"
  assumes run_sound: "skill_sound env now ctx k input st (run env now ctx input st)"
begin

lemma guard_keeps:
  assumes "guard_execute env cfg ctx input preview (run env now ctx input) (g, st) = (r, g', st')"
  shows "ps_policy st' = ps_policy st"
  using assms run_sound[of env now ctx input st]
  by (auto simp: guard_execute_def skill_sound_def split: prod.splits guard_answer.splits sum.splits)

lemma guard_effects:
  assumes "guard_execute env cfg ctx input preview (run env now ctx input) (g, st) = (r, g', st')"
  shows "\<exists>es. ps_effects st' = ps_effects st @ es \<and>
    (\<forall>e \<in> set es. guard_admits cfg ctx input \<and> budget_left cfg ctx g \<and> breaker_admits now (ps_breaker st) \<and>
       effect_permitted env (ps_policy st) k input e \<and>
       (takes_target k \<longrightarrow> app_listed (ps_policy st) (str_arg ''target_app'' input)))"
proof (cases "guard_check cfg ctx input g")
  case (Pair a g1)
  show ?thesis
  proof (cases a)
    case GuardRun
    with Pair have adm: "guard_admits cfg ctx input" "budget_left cfg ctx g"
      by (auto simp: guard_check_Run budget_left_iff)
    from assms Pair GuardRun have "st' = snd (run env now ctx input st)"
      by (auto simp: guard_execute_def split: prod.splits sum.splits)
    with run_sound[of env now ctx input st] obtain es where "ps_effects st' = ps_effects st @ es"
      "es \<noteq> [] \<longrightarrow> breaker_admits now (ps_breaker st)" "\<forall>e \<in> set es. effect_permitted env (ps_policy st) k input e"
      "takes_target k \<and> es \<noteq> [] \<longrightarrow> app_listed (ps_policy st) (str_arg ''target_app'' input)"
      unfolding skill_sound_def breaker_admits_iff by blast
    with adm show ?thesis by (intro exI[of _ es]) auto
  qed (use assms Pair in \<open>auto simp: guard_execute_def\<close>)
qed

lemma guard_rows:
  assumes "guard_execute env cfg ctx input preview (run env now ctx input) (g, st) = (r, g', st')"
  shows "\<exists>rows. ps_audit st' = ps_audit st @ rows \<and> (\<forall>row \<in> set rows. pa_skill_name row = pc_skill_name k) \<and>
    (let ok = length (filter (\<lambda>row. \<not> pa_blocked row) rows); g1 = reset_if_new_session (sx_session_id ctx) g
     in ok = 0 \<and> (g' = g \<or> g' = g1) \<or>
        ok \<le> 1 \<and> over_budget_error cfg g1 = None \<and> g' = g1\<lparr>gs_action_count := gs_action_count g1 + 1\<rparr>)"
proof (cases "guard_check cfg ctx input g")
  case (Pair a g1)
  show ?thesis
  proof (cases a)
    case GuardRun
    with Pair have g1: "g1 = reset_if_new_session (sx_session_id ctx) g" "over_budget_error cfg g1 = None"
      using guard_check_Run by blast+
    show ?thesis using run_sound[of env now ctx input st] assms Pair GuardRun g1
      by (auto simp: guard_execute_def skill_sound_def Let_def split: prod.splits sum.splits skill_error.splits)
  qed (use assms Pair in \<open>auto simp: guard_execute_def guard_check_def Let_def split: if_splits option.splits\<close>)
qed

end

interpretation pcs: skill_contract k "pc_skill_run k" for k
  by unfold_locales (rule pc_skill_run_sound)

subsection \<open>Runs of the whole system\<close>

record 'n pc_request =
  rq_env :: "'n pc_env"
  rq_now :: instant
  rq_ctx :: skill_context
  rq_preview :: string
  rq_skill :: pc_skill
  rq_input :: "'n json"

definition pc_serve :: "'n pc_request \<Rightarrow> pc_system \<Rightarrow> pc_system" where
  "pc_serve q sy = snd (pc_execute (rq_env q) (rq_now q) (rq_ctx q) (rq_preview q) (rq_skill q) (rq_input q) sy)"

datatype 'n pc_op = PcServe "'n pc_request" | PcApplyConfig pc_config

fun pc_step :: "'n pc_op \<Rightarrow> pc_system \<Rightarrow> pc_system" where
  "pc_step (PcServe q) = pc_serve q"
| "pc_step (PcApplyConfig c) = apply_config c"

definition pc_run :: "'n pc_op list \<Rightarrow> pc_system \<Rightarrow> pc_system" where
  "pc_run ops sy = fold pc_step ops sy"

lemma pc_run_simps [simp]: "pc_run [] sy = sy" "pc_run (a # ops) sy = pc_run ops (pc_step a sy)"
  by (simp_all add: pc_run_def)

text \<open>
  A request permits an effect in the state it finds: computer control is on, the guard of the skill admits
  the request and has budget left, the breaker lets an action through, the target is listed, and
  the policy of that moment permits the effect for this input.
\<close>

definition request_permits :: "pc_system \<Rightarrow> 'n pc_request \<Rightarrow> pc_effect \<Rightarrow> bool" where
  "request_permits sy q e \<longleftrightarrow>
     (let k = rq_skill q; cfg = pc_guard_config (sy_config sy) k; p = ps_policy (sy_state sy) in
      pp_enabled p \<and> guard_admits cfg (rq_ctx q) (rq_input q) \<and> budget_left cfg (rq_ctx q) (sy_guards sy k) \<and>
      breaker_admits (rq_now q) (ps_breaker (sy_state sy)) \<and>
      (takes_target k \<longrightarrow> app_listed p (str_arg ''target_app'' (rq_input q))) \<and>
      effect_permitted (rq_env q) p k (rq_input q) e)"

lemma pc_serve_keeps [simp]: "sy_config (pc_serve q sy) = sy_config sy" "ps_policy (sy_state (pc_serve q sy)) = ps_policy (sy_state sy)"
  by (auto simp: pc_serve_def pc_execute_def log_blocked_action_def dest: pcs.guard_keeps split: prod.split)

lemma apply_config_keeps [simp]:
  "sy_config (apply_config c sy) = sy_config sy" "sy_guards (apply_config c sy) = sy_guards sy"
  "ps_effects (sy_state (apply_config c sy)) = ps_effects (sy_state sy)" "ps_audit (sy_state (apply_config c sy)) = ps_audit (sy_state sy)"
  by (simp_all add: apply_config_def replace_policy_def Let_def)

lemma pc_step_config [simp]: "sy_config (pc_step a sy) = sy_config sy"
  by (cases a) simp_all

lemma pc_serve_effects:
  "\<exists>es. ps_effects (sy_state (pc_serve q sy)) = ps_effects (sy_state sy) @ es \<and> (\<forall>e \<in> set es. request_permits sy q e)"
proof (cases "pp_enabled (ps_policy (sy_state sy))")
  case False
  then show ?thesis by (simp add: pc_serve_def pc_execute_def log_blocked_action_def)
next
  case True
  obtain r g st where ex: "guard_execute (rq_env q) (pc_guard_config (sy_config sy) (rq_skill q)) (rq_ctx q) (rq_input q) (rq_preview q)
      (pc_skill_run (rq_skill q) (rq_env q) (rq_now q) (rq_ctx q) (rq_input q)) (sy_guards sy (rq_skill q), sy_state sy) = (r, g, st)"
    by (metis prod_cases3)
  with True have "sy_state (pc_serve q sy) = st" by (simp add: pc_serve_def pc_execute_def)
  with pcs.guard_effects[OF ex] True show ?thesis by (fastforce simp: request_permits_def Let_def)
qed

lemma pc_step_effects:
  "\<exists>es. ps_effects (sy_state (pc_step a sy)) = ps_effects (sy_state sy) @ es \<and>
     (\<forall>e \<in> set es. \<exists>q. a = PcServe q \<and> request_permits sy q e)"
  using pc_serve_effects by (cases a) auto

text \<open>The effect at a position of the list was made by one step: the one that took the list past the position.\<close>

definition made_by :: "'n pc_op list \<Rightarrow> pc_system \<Rightarrow> nat \<Rightarrow> nat \<Rightarrow> bool" where
  "made_by ops sy n i \<longleftrightarrow>
     i < length ops \<and> length (ps_effects (sy_state (pc_run (take i ops) sy))) \<le> n \<and>
     n < length (ps_effects (sy_state (pc_run (take (Suc i) ops) sy)))"

lemma pc_run_keeps_effects: "\<exists>es. ps_effects (sy_state (pc_run ops sy)) = ps_effects (sy_state sy) @ es"
proof (induction ops arbitrary: sy)
  case (Cons a ops)
  from Cons.IH[of "pc_step a sy"] pc_step_effects[of a sy] show ?case by auto
qed simp

lemma made_by_Cons: "made_by (a # ops) sy n (Suc i) \<longleftrightarrow> made_by ops (pc_step a sy) n i"
  by (simp add: made_by_def)

lemma pc_run_effects:
  assumes "length (ps_effects (sy_state sy)) \<le> n" "n < length (ps_effects (sy_state (pc_run ops sy)))"
  shows "\<exists>i q. made_by ops sy n i \<and> ops ! i = PcServe q \<and>
    request_permits (pc_run (take i ops) sy) q (ps_effects (sy_state (pc_run ops sy)) ! n)"
  using assms
proof (induction ops arbitrary: sy)
  case (Cons a ops)
  obtain es where es: "ps_effects (sy_state (pc_step a sy)) = ps_effects (sy_state sy) @ es"
    "\<forall>e \<in> set es. \<exists>q. a = PcServe q \<and> request_permits sy q e" using pc_step_effects by blast
  show ?case
  proof (cases "n < length (ps_effects (sy_state (pc_step a sy)))")
    case True
    obtain fs where fs: "ps_effects (sy_state (pc_run ops (pc_step a sy))) = ps_effects (sy_state (pc_step a sy)) @ fs"
      using pc_run_keeps_effects by blast
    with True es(1) Cons.prems(1) have "ps_effects (sy_state (pc_run (a # ops) sy)) ! n \<in> set es"
      by (simp add: nth_append less_diff_conv2)
    from bspec[OF es(2) this] obtain q
      where "a = PcServe q" "request_permits sy q (ps_effects (sy_state (pc_run (a # ops) sy)) ! n)" by blast
    with True Cons.prems(1) have "made_by (a # ops) sy n 0 \<and> (a # ops) ! 0 = PcServe q \<and>
      request_permits (pc_run (take 0 (a # ops)) sy) q (ps_effects (sy_state (pc_run (a # ops) sy)) ! n)" by (simp add: made_by_def)
    then show ?thesis by blast
  next
    case False
    with Cons.IH[of "pc_step a sy"] Cons.prems(2) obtain i q where "made_by ops (pc_step a sy) n i \<and> ops ! i = PcServe q \<and>
      request_permits (pc_run (take i ops) (pc_step a sy)) q (ps_effects (sy_state (pc_run ops (pc_step a sy))) ! n)" by auto
    then show ?thesis by (intro exI[of _ "Suc i"] exI[of _ q]) (simp add: made_by_Cons)
  qed
qed simp

text \<open>The rows of successful actions of one skill.\<close>

definition accepted :: "pc_skill \<Rightarrow> pc_system \<Rightarrow> nat" where
  "accepted k sy = length (filter (\<lambda>r. pa_skill_name r = pc_skill_name k \<and> \<not> pa_blocked r) (ps_audit (sy_state sy)))"

lemma pc_skill_name_inject: "pc_skill_name k = pc_skill_name k' \<longleftrightarrow> k = k'"
  by (cases k; cases k') simp_all

definition within_budget :: "uuid \<Rightarrow> u32 \<Rightarrow> pc_skill \<Rightarrow> pc_system \<Rightarrow> bool" where
  "within_budget s budget k sy \<longleftrightarrow>
     (if gs_tracked_session (sy_guards sy k) = s
      then accepted k sy \<le> unat (gs_action_count (sy_guards sy k)) \<and> gs_action_count (sy_guards sy k) \<le> budget
      else accepted k sy = 0)"

lemma reset_within: "gs_action_count (reset_if_new_session s g) = (if gs_tracked_session g = s then gs_action_count g else 0)"
  by (simp add: reset_if_new_session_def)

lemma under_budget:
  fixes n budget :: u32
  assumes "n < budget"
  shows "unat (n + 1) = Suc (unat n)" "n + 1 \<le> budget"
proof -
  have lt: "unat n < unat budget" using assms by (simp add: word_less_nat_alt)
  then show suc: "unat (n + 1) = Suc (unat n)" using unat_lt2p[of budget] by (simp add: unat_word_ariths)
  from lt suc show "n + 1 \<le> budget" by (simp add: word_le_nat_alt)
qed

lemma pc_serve_budget:
  assumes "sy_config sy = c" "gc_action_budget (pc_guard_config c k) = Some budget"
    and "rq_skill q = k \<longrightarrow> sx_session_id (rq_ctx q) = s" "within_budget s budget k sy"
  shows "within_budget s budget k (pc_serve q sy)"
proof (cases "pp_enabled (ps_policy (sy_state sy))")
  case False
  with assms(1) have "sy_guards (pc_serve q sy) = sy_guards sy" "accepted k (pc_serve q sy) = accepted k sy"
    by (simp_all add: pc_serve_def pc_execute_def log_blocked_action_def accepted_def)
  with assms(4) show ?thesis by (simp add: within_budget_def)
next
  case True
  let ?k = "rq_skill q"
  obtain r g st where ex: "guard_execute (rq_env q) (pc_guard_config c ?k) (rq_ctx q) (rq_input q) (rq_preview q)
      (pc_skill_run ?k (rq_env q) (rq_now q) (rq_ctx q) (rq_input q)) (sy_guards sy ?k, sy_state sy) = (r, g, st)"
    by (metis prod_cases3)
  with assms(1) True have sy': "pc_serve q sy = sy\<lparr>sy_guards := (sy_guards sy)(?k := g), sy_state := st\<rparr>"
    by (simp add: pc_serve_def pc_execute_def)
  from pcs.guard_rows[OF ex] obtain rows where rows: "ps_audit st = ps_audit (sy_state sy) @ rows"
      "\<forall>row \<in> set rows. pa_skill_name row = pc_skill_name ?k"
    and cnt: "let ok = length (filter (\<lambda>row. \<not> pa_blocked row) rows); g1 = reset_if_new_session (sx_session_id (rq_ctx q)) (sy_guards sy ?k)
     in ok = 0 \<and> (g = sy_guards sy ?k \<or> g = g1) \<or>
        ok \<le> 1 \<and> over_budget_error (pc_guard_config c ?k) g1 = None \<and> g = g1\<lparr>gs_action_count := gs_action_count g1 + 1\<rparr>"
    by blast
  have acc: "accepted k (pc_serve q sy) = accepted k sy + (if ?k = k then length (filter (\<lambda>row. \<not> pa_blocked row) rows) else 0)"
    using rows by (auto simp: accepted_def sy' pc_skill_name_inject filter_empty_conv intro!: arg_cong[of _ _ length] filter_cong)
  show ?thesis
  proof (cases "?k = k")
    case False
    then show ?thesis using assms(4) acc by (auto simp: within_budget_def sy')
  next
    case same: True
    then show ?thesis
      using cnt acc assms(2,3,4)
      by (auto simp: within_budget_def sy' Let_def reset_within reset_session over_budget_error_def under_budget not_le
        split: if_splits dest: under_budget)
  qed
qed


lemma pc_run_budget:
  assumes "sy_config sy = c" "gc_action_budget (pc_guard_config c k) = Some budget"
    and "\<forall>q. PcServe q \<in> set ops \<longrightarrow> rq_skill q = k \<longrightarrow> sx_session_id (rq_ctx q) = s" "within_budget s budget k sy"
  shows "within_budget s budget k (pc_run ops sy)"
  using assms
proof (induction ops arbitrary: sy)
  case (Cons a ops)
  have "within_budget s budget k (pc_step a sy)"
  proof (cases a)
    case (PcServe q)
    with Cons.prems show ?thesis using pc_serve_budget[of sy c k budget q s] by simp
  next
    case (PcApplyConfig c')
    moreover have "accepted k (apply_config c' sy) = accepted k sy" by (simp add: accepted_def)
    ultimately show ?thesis using Cons.prems(4) by (simp add: within_budget_def)
  qed
  with Cons.IH[of "pc_step a sy"] Cons.prems show ?case by simp
qed simp

subsection \<open>What reaches the machine\<close>

text \<open>
  C39. Run the registered skills from any start configuration, with requests and changes of the
  configuration in any order. The effect at any position of the list of effects was made by one request of the
  run, and that request permits it in the state it found: the policy of that moment has computer
  control switched on; the convergence level and score of the caller are within the bounds of the skill, its
  budget for the session is not used up and the breaker lets an action through; an application given as the
  target, launched, focused, resized or killed by name is in the allowlist; a mouse position is one the
  input asks for and lies in the safe zone; a key is the one that is to be pressed or belongs to a hotkey
  that the list of blocked hotkeys does not have; typed text, clipboard text, buttons and scrolling are those of the
  request and of their own skill.
\<close>

theorem pc_effects_permitted:
  assumes "n < length (ps_effects (sy_state (pc_run ops (pc_system_new c))))"
  shows "\<exists>i q. made_by ops (pc_system_new c) n i \<and> ops ! i = PcServe q \<and>
    request_permits (pc_run (take i ops) (pc_system_new c)) q (ps_effects (sy_state (pc_run ops (pc_system_new c))) ! n)"
  using pc_run_effects[OF _ assms] by (simp add: pc_system_new_def)

text \<open>
  The budget of a skill bounds its successful actions in one session: while every request for the skill
  belongs to the session, the audit trail has no more successes of it than the budget, whatever the
  other skills do.
\<close>

theorem pc_budget_per_session:
  assumes "gc_action_budget (pc_guard_config c k) = Some budget"
    and "\<forall>q. PcServe q \<in> set ops \<longrightarrow> rq_skill q = k \<longrightarrow> sx_session_id (rq_ctx q) = s"
  shows "accepted k (pc_run ops (pc_system_new c)) \<le> unat budget"
proof -
  have "within_budget s budget k (pc_run ops (pc_system_new c))"
    by (rule pc_run_budget[OF _ assms]) (simp_all add: within_budget_def accepted_def pc_system_new_def guard_new_def)
  then show ?thesis by (auto simp: within_budget_def word_le_nat_alt split: if_splits)
qed

text \<open>
  Only the session of the last request is remembered: a request from another session than the last one
  starts a new count, so two sessions that take turns are never refused for their budget.
\<close>

theorem other_session_never_exhausted:
  assumes "gs_tracked_session g \<noteq> sx_session_id ctx" "gc_action_budget cfg = Some budget" "0 < budget"
  shows "fst (guard_check cfg ctx input g) \<noteq> GuardError (BudgetExhausted n m) \<and>
    (gs_tracked_session (snd (guard_check cfg ctx input g)) = sx_session_id ctx \<longrightarrow>
     gs_action_count (snd (guard_check cfg ctx input g)) = 0)"
  using assms
  by (auto simp: guard_check_def Let_def over_budget_error_def reset_if_new_session_def guard_app_error_def
    split: option.splits if_splits)

text \<open>
  The list of blocked hotkeys compares texts, while hotkeys are parsed leniently: other spellings of a
  blocked hotkey press the same keys and pass.
\<close>

theorem blocked_hotkey_respelled:
  "parse_hotkey ''Ctrl+Alt+Delete'' = Some [KeyControl, KeyAlt, KeyDelete] \<and>
   validate_hotkey (policy_from_config pc_config_default) ''Ctrl+Alt+Delete'' = Denied ''hotkey blocked by safety policy'' \<and>
   parse_hotkey ''Alt+Ctrl+Del'' = Some [KeyAlt, KeyControl, KeyDelete] \<and>
   parse_hotkey ''Control + Alt + Del'' = parse_hotkey ''Ctrl+Alt+Delete'' \<and>
   validate_hotkey (policy_from_config pc_config_default) ''Alt+Ctrl+Del'' = Allowed \<and>
   validate_hotkey (policy_from_config pc_config_default) ''Control + Alt + Del'' = Allowed"
  by code_simp

text \<open>The crop check of a screenshot wraps: a region that starts left of the screen passes it.\<close>

theorem crop_check_wraps:
  assumes "i64_field env ''x'' region = Some (- 1)" "u64_field env ''width'' region = Some 1"
    and "i64_field env ''y'' region = Some 0" "u64_field env ''height'' region = Some 1" "0 < height"
  shows "crop_region env region width height = Some (1, 1)"
proof -
  have "1 \<le> height" using assms(5) by (simp add: word_le_nat_alt word_less_nat_alt)
  then show ?thesis using assms by (simp add: crop_region_def as_u32_def Let_def)
qed

text \<open>
  A hotkey that cannot be parsed is found out after the breaker was asked and is reported neither as a
  success nor as a failure: as a probe of an open breaker it leaves the breaker half open.
\<close>

theorem unparsed_hotkey_leaves_half_open:
  assumes "str_arg ''keys'' input = Some keys" "keys \<noteq> []" "parse_hotkey keys = None"
    and "validate_hotkey (ps_policy st) keys = Allowed" "str_arg ''target_app'' input = None"
    and "pcb_state (ps_breaker st) = PcOpen" "pcb_tripped_at (ps_breaker st) = Some t" "pcb_cooldown (ps_breaker st) \<le> elapsed now t"
  shows "pcb_state (ps_breaker (snd (keyboard_hotkey env now ctx input st))) = PcHalfOpen"
  using assms
  by (simp add: keyboard_hotkey_def unless_denied_def when_admitted_def pc_check_def validate_target_app_def invalid_input_def
    pc_record_action_def)


subsection \<open>A run\<close>

definition pc_sample_env :: "int pc_env" where
  "pc_sample_env =
     \<lparr>pn_i64 = Some, pn_u64 = (\<lambda>i. if 0 \<le> i then Some i else None), pn_of_int = id, pn_of_f64 = (\<lambda>_. JNull), pe_text = (\<lambda>_. []),
      pe_focus_window = (\<lambda>_ _ _. Inl []), pe_resize_window = (\<lambda>_ _ _ _ _ _. Inl []), pe_launch_app = (\<lambda>_ _. Inl []),
      pe_list_windows = (\<lambda>_. Inr []), pe_processes = [], pe_kill = (\<lambda>_ _. Inr True), pe_clipboard = None,
      pe_set_clipboard = (\<lambda>_. True), pe_screen = Inr (640, 480, 1)\<rparr>"

definition pc_sample_config :: pc_config where
  "pc_sample_config =
     pc_config_default\<lparr>pc_enabled := True, pc_allowed_apps := [''editor''],
       pc_safe_zone := Some \<lparr>sr_x = 0, sr_y = 0, sr_width = 10, sr_height = 10\<rparr>,
       pc_budgets := action_budgets_default\<lparr>ab_total := 1\<rparr>\<rparr>"

definition pc_sample_request :: "int \<Rightarrow> instant \<Rightarrow> int pc_request" where
  "pc_sample_request x now =
     \<lparr>rq_env = pc_sample_env, rq_now = now,
      rq_ctx = \<lparr>sx_agent_id = 1, sx_session_id = 7, sx_latest = Some (1, Finite (2 / 10))\<rparr>,
      rq_preview = [], rq_skill = SkMouseMove,
      rq_input = JObject [(''x'', JNumber x), (''y'', JNumber 5), (''target_app'', JString ''editor'')]\<rparr>"

definition pc_sample_ops :: "int pc_op list" where
  "pc_sample_ops =
     [PcServe (pc_sample_request 20 1), PcServe (pc_sample_request 5 2), PcServe (pc_sample_request 6 3),
      PcApplyConfig pc_config_default]"

definition pc_sample_run :: pc_system where
  "pc_sample_run = pc_run pc_sample_ops (pc_system_new pc_sample_config)"

text \<open>
  The first move lies outside the safe zone and is blocked, the second succeeds, the third is over a
  budget of one. Then computer control is switched off.
\<close>

definition configured :: "pc_config \<Rightarrow> pc_system \<Rightarrow> bool" where
  "configured c sy \<longleftrightarrow> sy_config sy = c \<and> ps_policy (sy_state sy) = policy_from_config c"

lemma pc_serve_configured: "configured c sy \<Longrightarrow> configured c (pc_serve q sy)"
  by (simp add: configured_def)

lemma configured_new: "configured c (pc_system_new c)"
  by (simp add: configured_def pc_system_new_def)

lemmas pc_sample_defs = pc_sample_request_def pc_sample_env_def pc_sample_config_def pc_config_default_def

lemma sample_blocked:
  "ps_policy st = policy_from_config pc_sample_config \<Longrightarrow>
   mouse_move pc_sample_env now ctx (rq_input (pc_sample_request 20 n)) st =
     (Inl (PcControlBlocked ''coordinates outside safe zone''),
      log_blocked_action pc_sample_env ctx ''mouse_move'' (rq_input (pc_sample_request 20 n)) ''coordinates outside safe zone'' st)"
  by (simp add: mouse_move_def pc_sample_defs i64_field_def as_i32_def policy_from_config_def validate_click_def
    normalize_snapshot_def region_contains_def unless_denied_def)

lemma sample_moved:
  "ps_policy st = policy_from_config pc_sample_config \<Longrightarrow> pc_check now (ps_breaker st) = (Inr (), b) \<Longrightarrow>
   \<exists>r. mouse_move pc_sample_env now ctx (rq_input (pc_sample_request 5 n)) st =
     succeed pc_sample_env ctx ''mouse_move'' (rq_input (pc_sample_request 5 n)) r (emit_effects [MouseMoveTo 5 5] (st\<lparr>ps_breaker := b\<rparr>))"
  by (simp add: mouse_move_def pc_sample_defs i64_field_def as_i32_def policy_from_config_def validate_click_def str_arg_def
    validate_target_def validate_app_snapshot_def normalize_snapshot_def region_contains_def unless_denied_def when_admitted_def) blast

lemma sample_guard:
  "gs_action_count g = 0 \<Longrightarrow>
   guard_check (pc_guard_config pc_sample_config SkMouseMove) (rq_ctx (pc_sample_request x n)) (rq_input (pc_sample_request x n)) g =
     (GuardRun, g\<lparr>gs_tracked_session := 7\<rparr>)"
  "gs_tracked_session g = 7 \<Longrightarrow> gs_action_count g = 1 \<Longrightarrow>
   guard_check (pc_guard_config pc_sample_config SkMouseMove) (rq_ctx (pc_sample_request x n)) (rq_input (pc_sample_request x n)) g =
     (GuardError (BudgetExhausted 1 1), g)"
  by (simp_all add: guard_check_def guard_of_def app_allowlist_of_def reset_if_new_session_def over_budget_error_def
    guard_app_error_def current_convergence_level_def current_convergence_score_def effective_autonomy_def
    max_for_convergence_def can_execute_def pc_sample_config_def pc_sample_request_def str_arg_def Let_def)

lemma sample_serve:
  assumes "configured pc_sample_config sy"
  shows "pc_serve (pc_sample_request x n) sy =
    (case guard_execute pc_sample_env (pc_guard_config pc_sample_config SkMouseMove) (rq_ctx (pc_sample_request x n))
        (rq_input (pc_sample_request x n)) []
        (mouse_move pc_sample_env n (rq_ctx (pc_sample_request x n)) (rq_input (pc_sample_request x n)))
        (sy_guards sy SkMouseMove, sy_state sy) of
      (r, g, st) \<Rightarrow> sy\<lparr>sy_guards := (sy_guards sy)(SkMouseMove := g), sy_state := st\<rparr>)"
  using assms
  by (simp add: pc_serve_def pc_execute_def configured_def policy_from_config_def pc_sample_request_def pc_sample_config_def split: prod.split)

lemma pc_sample_facts:
  "ps_effects (sy_state pc_sample_run) = [MouseMoveTo 5 5]" (is ?effects)
  "accepted SkMouseMove pc_sample_run = 1" (is ?accepted)
proof -
  let ?new = "pc_system_new pc_sample_config"
  define s1 where "s1 = pc_serve (pc_sample_request 20 1) ?new"
  have c1: "configured pc_sample_config s1" by (simp add: s1_def pc_serve_configured configured_new)
  have new: "gs_action_count (sy_guards ?new SkMouseMove) = 0" "ps_effects (sy_state ?new) = []" "accepted SkMouseMove ?new = 0"
    "ps_breaker (sy_state ?new) = breaker_from_config pc_sample_config" "ps_policy (sy_state ?new) = policy_from_config pc_sample_config"
    by (simp_all add: pc_system_new_def guard_new_def accepted_def)
  have s1: "gs_action_count (sy_guards s1 SkMouseMove) = 0" "ps_effects (sy_state s1) = []" "accepted SkMouseMove s1 = 0"
    "ps_breaker (sy_state s1) = breaker_from_config pc_sample_config"
    using new sample_blocked[of "sy_state ?new"]
    by (simp_all add: s1_def sample_serve[OF configured_new] guard_execute_def sample_guard log_blocked_action_def accepted_def
      del: pc_guard_config.simps)
  define s2 where "s2 = pc_serve (pc_sample_request 5 2) s1"
  obtain b where b: "pc_check 2 (ps_breaker (sy_state s1)) = (Inr (), b)"
    by (simp add: s1 breaker_from_config_def pc_check_def pc_breaker_new_def drop_stale_def from_secs_def pc_sample_config_def
      pc_config_default_def circuit_breaker_config_default_def)
  from sample_moved[OF _ b, of "rq_ctx (pc_sample_request 5 2)" 2] c1
  obtain r where "mouse_move pc_sample_env 2 (rq_ctx (pc_sample_request 5 2)) (rq_input (pc_sample_request 5 2)) (sy_state s1) =
     succeed pc_sample_env (rq_ctx (pc_sample_request 5 2)) ''mouse_move'' (rq_input (pc_sample_request 5 2)) r
       (emit_effects [MouseMoveTo 5 5] ((sy_state s1)\<lparr>ps_breaker := b\<rparr>))" by (auto simp: configured_def)
  then have s2: "gs_action_count (sy_guards s2 SkMouseMove) = 1" "gs_tracked_session (sy_guards s2 SkMouseMove) = 7"
    "ps_effects (sy_state s2) = [MouseMoveTo 5 5]" "accepted SkMouseMove s2 = 1"
    using s1 by (simp_all add: s2_def sample_serve[OF c1] guard_execute_def sample_guard succeed_def emit_effects_def
      log_pc_action_def accepted_def del: pc_guard_config.simps)
  have "configured pc_sample_config s2" by (simp add: s2_def pc_serve_configured c1)
  with s2 have same: "sy_state (pc_serve (pc_sample_request 6 3) s2) = sy_state s2"
    by (simp add: sample_serve guard_execute_def sample_guard del: pc_guard_config.simps)
  have run: "pc_sample_run = apply_config pc_config_default (pc_serve (pc_sample_request 6 3) s2)"
    by (simp add: pc_sample_run_def pc_sample_ops_def s2_def s1_def)
  show ?effects unfolding run apply_config_keeps same by (rule s2(3))
  show ?accepted unfolding run accepted_def apply_config_keeps same using s2(4) by (simp only: accepted_def)
qed

theorem pc_effects_permitted_witness:
  "\<exists>i q. made_by pc_sample_ops (pc_system_new pc_sample_config) 0 i \<and> pc_sample_ops ! i = PcServe q \<and>
    request_permits (pc_run (take i pc_sample_ops) (pc_system_new pc_sample_config)) q (MouseMoveTo 5 5)"
  using pc_effects_permitted[of 0 pc_sample_ops pc_sample_config] pc_sample_facts(1) unfolding pc_sample_run_def by simp

theorem pc_budget_per_session_witness:
  "accepted SkMouseMove pc_sample_run \<le> unat (1 :: u32) \<and> accepted SkMouseMove pc_sample_run = 1"
  using pc_budget_per_session[of pc_sample_config SkMouseMove 1 pc_sample_ops 7] pc_sample_facts(2)
  by (simp add: pc_sample_run_def pc_sample_ops_def pc_sample_request_def pc_sample_config_def guard_of_def)

end
