(* ===== verification/Spec2Isabelle.thy ===== *)
theory Spec2Isabelle
  imports Auto_Trigger Gate_Relay Temporal_Chain Merkle Intervention Cooldown Event_Validation
    Session_Registry Policy Breakers Cascade Dispatcher Credit_Ledger Fallback Lane_Queue
    Route_Sets Consensus Crdt_Guard Signed_Delta Gateway_State Session_Manager Cost Ssrf Egress Idempotency
    Output_Inspector Proposal_Extractor Tool_Executor Autonomy_Cycle Goal_Review Pc_Skills
begin

text \<open>
  Verification of the safety core of the GHOST agent platform.

  \<^bold>\<open>The program.\<close> GHOST runs autonomous agents behind a gateway. What keeps them in check is
  spread over several crates under \<^verbatim>\<open>src/crates\<close>, and this development models those parts.

  \<^item> \<^emph>\<open>Stopping.\<close> The gateway's kill switch (\<^verbatim>\<open>ghost-gateway/src/safety/kill_switch.rs\<close>) is asked before
    every agent action. The auto-trigger evaluator (\<^verbatim>\<open>safety/auto_triggers.rs\<close>) drains a channel of
    trigger events (\<^verbatim>\<open>cortex-core/src/safety/trigger.rs\<close>) that the other components raise, suppresses
    repeats and pauses, quarantines or kills through the switch. The distributed kill gate
    (\<^verbatim>\<open>ghost-kill-gates\<close>) closes a whole cluster: a state machine with a hash-chained log
    (\<^verbatim>\<open>gate.rs\<close>, \<^verbatim>\<open>chain.rs\<close>), reopened by a quorum of votes (\<^verbatim>\<open>quorum.rs\<close>, \<^verbatim>\<open>config.rs\<close>), driven by the
    messages of its peers (\<^verbatim>\<open>relay.rs\<close>) and by the gateway (\<^verbatim>\<open>safety/kill_gate_bridge.rs\<close>).
  \<^item> \<^emph>\<open>Watching.\<close> The convergence monitor (\<^verbatim>\<open>convergence-monitor\<close>) turns scores into intervention levels
    (\<^verbatim>\<open>intervention/trigger.rs\<close>), guards changes of its own thresholds (\<^verbatim>\<open>intervention/cooldown.rs\<close>),
    validates and rate-limits the events it ingests (\<^verbatim>\<open>validation.rs\<close>) and tracks sessions
    (\<^verbatim>\<open>session/registry.rs\<close>). The memory log is a hash chain (\<^verbatim>\<open>cortex-temporal/src/hash_chain.rs\<close>),
    anchored by Merkle trees (\<^verbatim>\<open>anchoring/merkle.rs\<close>).
  \<^item> \<^emph>\<open>The agent's turn.\<close> The runner (\<^verbatim>\<open>ghost-agent-loop/src/runner.rs\<close>) asks the gates, the provider
    (\<^verbatim>\<open>ghost-llm/src/fallback.rs\<close>) and the tools in a bounded loop; responses are scanned for
    credentials and searched for proposals; the plan of tool calls is validated; a tool call passes the
    registry, the policy engine (\<^verbatim>\<open>ghost-policy\<close>), the sandbox and the checks of its tool
    (\<^verbatim>\<open>tools\<close>). Breakers stop repeated failures of tools, of providers and of delegations.
  \<^item> \<^emph>\<open>Acting on the machine.\<close> The computer-control skills (\<^verbatim>\<open>ghost-pc-control\<close>) run behind the convergence
    guard (\<^verbatim>\<open>ghost-skills\<close>), a policy and a breaker of their own. Outgoing traffic passes the egress
    proxy (\<^verbatim>\<open>ghost-egress\<close>).
  \<^item> \<^emph>\<open>The gateway.\<close> Requests are authenticated, checked for a supported client, authorized per route and,
    if they change something, executed at most once per idempotency key (\<^verbatim>\<open>ghost-gateway/src/api\<close>).
    The gateway keeps its own lifecycle, sessions with one queue each, costs with spending caps, and
    dispatches messages between agents (\<^verbatim>\<open>messaging\<close>). Its scheduler (\<^verbatim>\<open>autonomy.rs\<close>) runs due jobs.
  \<^item> \<^emph>\<open>Review.\<close> Proposals of agents are routed, stored, decided by people or automatically, and written
    to memory when approved (\<^verbatim>\<open>cortex-storage/src/queries\<close>, \<^verbatim>\<open>api/goals.rs\<close>).
  \<^item> \<^emph>\<open>Agents among each other.\<close> Contracts and credits of the marketplace (\<^verbatim>\<open>ghost-marketplace\<close>), votes
    (\<^verbatim>\<open>cortex-multiagent\<close>), signed deltas and the limit on spawned agents (\<^verbatim>\<open>cortex-crdt\<close>).

  \<^bold>\<open>The library.\<close> One theory per component, with a record for the state of each struct, one
  definition per method and its properties at the end.

  \<^item> Shared: \<open>Prelude\<close> has the program's scalar types (a \<^verbatim>\<open>Uuid\<close> is a 128-bit word, \<^verbatim>\<open>Instant\<close> and
    \<^verbatim>\<open>Duration\<close> are naturals in nanoseconds, \<^verbatim>\<open>DateTime<Utc>\<close> an integer of nanoseconds) and the locales
    \<open>invariant_steps\<close>, \<open>monotone_steps\<close> on sequences of operations. \<open>Ordered_Map\<close> is \<^verbatim>\<open>BTreeMap\<close>, and
    \<^verbatim>\<open>HashMap\<close> where the order of iteration is not observed. \<open>Float64\<close> has the comparisons of \<^verbatim>\<open>f64\<close>, with
    NaN and the infinities; finite values are rationals. \<open>Rust_String\<close> has the methods of \<^verbatim>\<open>str\<close> on
    ASCII text, \<open>Json_Canonical\<close> JSON values and their canonical text. \<open>Hash_Log\<close> is a log whose records
    carry the hash of their predecessor, as a locale that \<open>Temporal_Chain\<close> and \<open>Gate_Chain\<close> interpret.
  \<^item> Stopping: \<open>Trigger_Event\<close>, \<open>Kill_Switch\<close>, \<open>Auto_Trigger\<close>; \<open>Quorum\<close>, \<open>Gate_Chain\<close>, \<open>Kill_Gate\<close>, \<open>Gate_Relay\<close>.
  \<^item> Watching: \<open>Intervention\<close>, \<open>Cooldown\<close>, \<open>Event_Validation\<close>, \<open>Session_Registry\<close>; \<open>Temporal_Chain\<close>, \<open>Merkle\<close>.
  \<^item> The turn: \<open>Agent_Runner\<close> (the gates and the loop) and \<open>Agent_Turn\<close> (its bounds, by two views of the
    loop as small state machines); \<open>Policy\<close>, \<open>Breakers\<close>, \<open>Cascade\<close>, \<open>Fallback\<close>; \<open>Plan_Validator\<close>,
    \<open>Output_Inspector\<close>, \<open>Proposal_Extractor\<close>, \<open>Proposal_Router\<close>; \<open>Tool_Sandbox\<close>, \<open>Network_Tools\<close>, \<open>Tool_Executor\<close>.
  \<^item> The machine: \<open>Pc_Safety\<close> (breaker, validation, autonomy dial), \<open>Pc_Skills\<close> (the skills, the guard as a
    client of the locale \<open>skill_contract\<close>, the registered system); \<open>Egress\<close>, \<open>Ssrf\<close>.
  \<^item> The gateway: \<open>Authz\<close>, \<open>Authz_Policy\<close>, \<open>Auth\<close>, \<open>Compatibility\<close>, \<open>Route_Sets\<close>; \<open>Operation_Journal\<close>,
    \<open>Idempotency\<close>; \<open>Gateway_State\<close>, \<open>Session_Manager\<close>, \<open>Lane_Queue\<close>, \<open>Cost\<close>; \<open>Agent_Message\<close>, \<open>Dispatcher\<close>;
    \<open>Autonomy_Store\<close>, \<open>Autonomy\<close>, \<open>Autonomy_Service\<close>, \<open>Autonomy_Cycle\<close> (the tables, the dispatch of a job, the
    threads, and a job from lease to end).
  \<^item> Review: \<open>Goal_Store\<close> (the tables of proposals), \<open>Goal_Review\<close> (decisions and memory writes).
  \<^item> Among agents: \<open>Market_Store\<close>, \<open>Contracts\<close>, \<open>Credit_Ledger\<close>; \<open>Consensus\<close>; \<open>Crdt_Guard\<close>, \<open>Signed_Delta\<close>.

  \<^bold>\<open>How the code is read.\<close> A method that takes \<^verbatim>\<open>&mut self\<close> returns the new state. Locks that
  can be poisoned are a flag of the state where the code handles it. The readings of a clock are
  arguments, one for each clock per call. Integers have the width of the source, and arithmetic wraps as
  in a release build where it is not saturating. Tables are maps or lists of rows, and a statement
  checks the constraints its schema declares; a transaction that fails leaves them unchanged. Code from
  outside the repository is a parameter: blake3, Ed25519 verification, JSON and RFC 3339 rendering,
  regular expressions, random identifiers, name resolution, providers, the contents of files and the
  outcome of writes. Where a theorem relies on one of them (no collision of the hash between the byte
  strings concerned) the hypothesis is written in its statement. What a component does to the outside
  is a list of effects. Loops over collections are structural recursions; the others (Merkle levels, JSON values,
  proposal blocks, text replacement) have a termination measure; the agent's loop consumes one reading of
  its environment per iteration from a list, and a list longer than the depth limit is shown to be
  enough for it to return.

  \<^bold>\<open>What is shown.\<close>

  \<^item> Stopping: coherence of the switch's three records of a kill, levels that only rise without a resume, a
    platform kill that latches, the exact condition of a resume; the cascade to a platform kill at three
    quarantined agents, enforcement of every trigger that is not suppressed. The gate's log is always a
    linked chain, a closed gate reopens exactly on a quorum of the voters since it was last open and never
    when membership is not authenticated, two automatic quorums intersect, saving and loading is the
    identity up to the time spent down, the relay refines a protocol on abstract views. The gateway takes
    a snapshot before a safety mutation and goes back to it when the mutation cannot be persisted;
    runs of the switch and of the gate include these snapshots and rollbacks, and what a rollback to an
    older snapshot undoes is said in each statement.
  \<^item> Watching: levels move one step at a time and need two raised cycles per level, dual-key changes
    need two actors and a live token, the limiter bounds what passes; verification accepts exactly the
    intact chains, the head commits to the log, Merkle proofs are complete and sound.
  \<^item> The turn: it returns, within the limits on provider and tool calls; nothing is called after a stop;
    a failed call is not repeated; tool effects have passed the registry, the policy and the sandbox,
    and with a live runner's sandbox the mode holds for the built-in tools and paths stay in the
    workspace. Policy: the exact decision after any history, monotone in the level. Breakers trip at the
    threshold and block until the cooldown has passed; two implementations satisfy one contract.
    A proposal block is extracted as it was written, up to line feeds at its ends.
  \<^item> The machine: every effect of a skill was made by one request that the convergence guard and its
    budget, the breaker and the policy of that moment permit for that skill and input, while the
    configuration may change; no second has more actions than the limit; budgets hold per
    session. Egress patterns match exactly their domains; internal addresses are refused.
  \<^item> The gateway: decisions of the registry against the declared specifications, superadmin handlers are reached by
    superadmin tokens only, tokens are used once; a mutation is executed at most once in any interleaving, and requests are told
    apart exactly; lanes serve in order; no message is accepted twice, accepted messages are
    authentic, rate limits hold. Scheduled jobs act only after every control, slots stay within
    limits, a heartbeat is queued again.
  \<^item> Review: a proposal is decided once, a subject has one open review (from new tables, or migrated
    ones with nothing waiting behind a head), a memory event was approved or filed by one of the other two
    writers, an answer of success means the decision took effect.
  \<^item> Among agents: credits are conserved while the seeded total fits 64 bits, the exact effect of
    a contract transition on state and money, database failures included; votes decide by N of M
    standing votes, spawning is limited, signed deltas verify only as signed.
  \<^item> Across components (below): an agent denied five times in a session is stopped by the kill switch once
    the trigger is handled.

  \<^bold>\<open>What is not modelled.\<close> Of the gateway the remaining endpoints (listings, studio sessions, chat,
  workflows, memory search), bootstrap and the command line; the convergence scores themselves and the
  decay and retrieval of memories, which are floating-point formulas; prompts; channels, mesh transport and
  message encryption, which are input and output around libraries; optical character recognition,
  the accessibility tree and the platform backends of computer control; the SDK, the dashboard and the
  browser extension. Tracing output is left out everywhere, and so are failures of the database itself, but for those of a
  contract transition. The routers of the mesh and of push messages are left out of the route table.
  Operations are atomic where they run under one lock in the code; interleavings are the sequences of
  operations the theorems quantify over.
\<close>

section \<open>From denied tool calls to a stopped agent\<close>

lemma policy_run_triggers:
  "t \<in> set (fst (snd (policy_run xs e))) \<Longrightarrow>
   \<exists>now call ctx. (now, call, ctx) \<in> set xs \<and> trigger_agent_id t = Some (pc_agent_id ctx) \<and>
     denial_session_id t = pc_session_id ctx"
proof (induction xs arbitrary: e)
  case (Cons x xs)
  obtain now call ctx where x: "x = (now, call, ctx)" by (cases x)
  obtain d sent e' where ev: "policy_evaluate now call ctx e = (d, sent, e')" by (metis prod_cases3)
  have "sent = Some t \<or> t \<in> set (fst (snd (policy_run xs e')))"
    using Cons.prems by (auto simp: x ev case_prod_beta Let_def split: option.splits)
  then show ?case
  proof
    assume "sent = Some t"
    with ev have "trigger_agent_id t = Some (pc_agent_id ctx) \<and> denial_session_id t = pc_session_id ctx"
      by (cases rule: policy_evaluate_cases [of now call ctx e])
        (auto simp: record_denial_def Let_def split: if_splits)
    then show ?thesis by (auto simp: x)
  next
    assume "t \<in> set (fst (snd (policy_run xs e')))"
    from Cons.IH [OF this] show ?thesis by auto
  qed
qed simp

text \<open>
  C7. Repeated policy denials stop the agent. When the policy engine, with its trigger channel
  connected to the evaluator, denies five or more calls of a session of agent \<open>a\<close>, and the
  evaluator's task handles every trigger the engine sent (among any other triggers, in any order,
  at any times) and persists the outcomes, then \<open>a\<close> no longer passes the kill switch check. A
  suppressed repeat does not change this: suppression only hides triggers of stopped agents.
\<close>

theorem five_denials_stop_agent:
  assumes "policy_run xs (with_trigger_sender (policy_engine_new corp)) = (ds, ts, e)"
    and "5 \<le> denials_of sid ds" "denials_of sid ds < 2 ^ 32"
    and "\<forall>(now, call, ctx) \<in> set xs. pc_session_id ctx = sid \<longrightarrow> pc_agent_id ctx = a"
    and "set ts \<subseteq> (\<lambda>(inow, now, persisted, t). t) ` set events"
    and "\<forall>(inow, now, persisted, t) \<in> set events. persisted"
  shows "fst (check (snd (snd (auto_trigger_task fmt fixed events
    (evaluator_new i0, kill_switch_new)))) a) \<noteq> Ok"
proof -
  let ?e = "with_trigger_sender (policy_engine_new corp)"
  have "pe_trigger_sender ?e" "pe_denial_trigger_threshold ?e = 5" "session_denial_count sid ?e = 0"
    by (simp_all add: with_trigger_sender_def policy_engine_new_def session_denial_count_def bt_get_or_def)
  with policy_run_count [of ?e sid xs] assms(1-3) have "triggers_of sid ts = 1" by simp
  then have "filter (\<lambda>t. denial_session_id t = sid) ts \<noteq> []" by (auto simp: triggers_of_def)
  then obtain t where t: "t \<in> set ts" "denial_session_id t = sid" by (auto simp: filter_empty_conv)
  with policy_run_triggers [of t xs ?e] assms(1,4) have "trigger_agent_id t = Some a" by fastforce
  with t(1) assms(5) have "\<exists>(inow, now, persisted, t) \<in> set events. trigger_agent_id t = Some a"
    by fastforce
  then show ?thesis
    using task_stops [OF dedup_enforced_new assms(6)] stopped_check by blast
qed

theorem five_denials_stop_agent_witness:
  "\<exists>t. fst (snd (policy_run (replicate 5 (0, sample_call, sample_ctx))
       (with_trigger_sender (policy_engine_new {''web_search''})))) = [t] \<and>
     fst (check (snd (snd (auto_trigger_task (\<lambda>_. []) (\<lambda>_ _. []) [(7, 8, True, t)]
       (evaluator_new 0, kill_switch_new)))) (pc_agent_id sample_ctx)) \<noteq> Ok"
proof -
  let ?xs = "replicate 5 (0, sample_call, sample_ctx)"
  let ?e = "with_trigger_sender (policy_engine_new {''web_search''})"
  obtain ds ts e where run: "policy_run ?xs ?e = (ds, ts, e)" by (metis prod_cases3)
  have five: "?xs = [(0, sample_call, sample_ctx), (0, sample_call, sample_ctx), (0, sample_call, sample_ctx),
      (0, sample_call, sample_ctx), (0, sample_call, sample_ctx)]"
    by (simp add: numeral_eq_Suc)
  have den: "denials_of (pc_session_id sample_ctx) ds = 5" and "length ts = 1"
    using run unfolding five by (auto simp: policy_evaluate_def record_denial_def Let_def denies_def
        sample_call_def with_trigger_sender_def policy_engine_new_def denials_of_def bt_get_or_def)
  then obtain t where t: "ts = [t]" by (auto simp: length_Suc_conv)
  have "fst (check (snd (snd (auto_trigger_task (\<lambda>_. []) (\<lambda>_ _. []) [(7, 8, True, t)]
       (evaluator_new 0, kill_switch_new)))) (pc_agent_id sample_ctx)) \<noteq> Ok"
    by (rule five_denials_stop_agent [OF run, where sid = "pc_session_id sample_ctx"])
      (use den t in auto)
  then show ?thesis using run t by simp
qed

end
